(* ===== verification/Prelude.thy ===== *)
theory Prelude
  imports Main "HOL-Library.Word"
begin

text \<open>
  Shared vocabulary of the development: the machine types of the C++ code, nullable
  pointers, writes into a fixed buffer, little-endian 16-bit values, and the generic
  lemmas and fact collections the component theories use.

  \<^item> \<open>u8\<close>, \<open>u16\<close>, \<open>u32\<close> are \<open>uint8_t\<close>, \<open>uint16_t\<close>, \<open>uint32_t\<close>; arithmetic on them wraps.
  \<^item> \<open>size_t\<close> lengths, indices and event counters are \<open>nat\<close>: every one of them is bounded by
    a buffer of the code or counts packets one by one, far below \<open>2 ^ 64\<close>.
  \<^item> \<open>'a ptr\<close> is a pointer that the code tests for NULL.
\<close>

unbundle bit_operations_syntax

type_synonym u8 = "8 word"
type_synonym u16 = "16 word"
type_synonym u32 = "32 word"
type_synonym bytes = "8 word list"
type_synonym 'a ptr = "'a option"

abbreviation NULL :: "'a ptr" where
  "NULL \<equiv> None"

named_theorems wf_intros \<open>well-formedness of the initial states and of the results of operations\<close>
named_theorems frame_simps \<open>fields that an operation leaves alone\<close>
named_theorems c_consts \<open>the constants the sources define with \<open>#define\<close>\<close>

section \<open>Writes into a fixed buffer\<close>

text \<open>
  \<open>put_bytes buf off bs\<close> is the buffer after \<open>memcpy(buf + off, bs, n)\<close> for the \<open>n\<close> bytes of
  \<open>bs\<close>. The callers' guards keep \<open>off + n\<close> inside the buffer.
\<close>

definition put_bytes :: "'a list \<Rightarrow> nat \<Rightarrow> 'a list \<Rightarrow> 'a list" where
  "put_bytes buf off bs = take off buf @ bs @ drop (off + length bs) buf"

lemma length_put_bytes [simp]:
  "off + length bs \<le> length buf \<Longrightarrow> length (put_bytes buf off bs) = length buf"
  by (simp add: put_bytes_def)

lemma put_bytes_0: "put_bytes buf 0 bs = bs @ drop (length bs) buf"
  by (simp add: put_bytes_def)

lemma put_bytes_adjacent:
  assumes "off = length as" and "off + length bs \<le> length (as @ rest)"
  shows "put_bytes (as @ rest) off bs = as @ bs @ drop (length bs) rest"
  using assms by (simp add: put_bytes_def)

lemma take_put_bytes_exact:
  assumes "off \<le> length buf"
  shows "take (off + length bs) (put_bytes buf off bs) = take off buf @ bs"
  using assms by (simp add: put_bytes_def min_absorb2)

section \<open>Little-endian 16-bit values\<close>

definition le16_lo :: "u16 \<Rightarrow> u8" where
  "le16_lo w = ucast (w AND 0xFF)"

definition le16_hi :: "u16 \<Rightarrow> u8" where
  "le16_hi w = ucast (drop_bit 8 w AND 0xFF)"

definition le16 :: "u8 \<Rightarrow> u8 \<Rightarrow> u16" where
  "le16 lo hi = ucast lo OR push_bit 8 (ucast hi)"

lemma word_0xFF_mask: "(0xFF :: 16 word) = mask 8"
  by (simp add: mask_eq_exp_minus_1)

lemma le16_split [simp]: "le16 (le16_lo w) (le16_hi w) = w"
  by (rule bit_word_eqI)
    (auto simp: le16_def le16_lo_def le16_hi_def bit_simps word_0xFF_mask)

lemma le16_lo_le16 [simp]: "le16_lo (le16 lo hi) = lo"
  by (rule bit_word_eqI)
    (auto simp: le16_def le16_lo_def bit_simps word_0xFF_mask)

lemma le16_hi_le16 [simp]: "le16_hi (le16 lo hi) = hi"
  by (rule bit_word_eqI)
    (use bit_imp_le_length [of lo] in \<open>fastforce simp: le16_def le16_hi_def bit_simps word_0xFF_mask\<close>)

section \<open>Words and naturals\<close>

lemma unat_of_nat_u16: "n < 65536 \<Longrightarrow> unat (of_nat n :: u16) = n"
  by (simp add: unat_of_nat)

lemma unat_of_nat_u32: "n < 4294967296 \<Longrightarrow> unat (of_nat n :: u32) = n"
  by (simp add: unat_of_nat)

lemma unat_u16_less: "unat (w :: u16) < 65536"
  using unsigned_less [of w, where ?'a = nat] by simp

lemma unat_u32_less: "unat (w :: u32) < 4294967296"
  using unsigned_less [of w, where ?'a = nat] by simp

lemma unat_dec: "0 < w \<Longrightarrow> unat (w - 1) = unat w - 1" for w :: "'a :: len word"
  by (metis unat_minus_one word_gt_0)

lemma unat_Suc_lt:
  fixes w v :: "'a :: len word"
  assumes "unat w < unat v"
  shows "unat (w + 1) = Suc (unat w)"
proof -
  have "unat v < 2 ^ LENGTH('a)" by (rule unsigned_less)
  with assms have "Suc (unat w) < 2 ^ LENGTH('a)" by linarith
  then show ?thesis by (simp add: unat_plus_if_size word_size)
qed

lemma add_mod_neq:
  fixes h i j c :: nat
  assumes "i < j" and "j < i + c"
  shows "(h + i) mod c \<noteq> (h + j) mod c"
proof
  assume "(h + i) mod c = (h + j) mod c"
  with assms(1) have "c dvd j - i"
    by (metis add_diff_cancel_left add_le_cancel_left less_imp_le_nat mod_eq_dvd_iff_nat)
  with assms show False by (auto dest: dvd_imp_le)
qed

section \<open>Lists\<close>

lemma take_Suc_snoc: "n < length xs \<Longrightarrow> take (Suc n) (xs[n := x]) = take n xs @ [x]"
  by (simp add: take_Suc_conv_app_nth)

lemma drop_plus_3 [simp]: "drop (m + 3) (a # b # c # xs) = drop m xs"
  by (simp add: numeral_3_eq_3)

lemma drop_plus_7 [simp]: "drop (m + 7) (a # b # c # d # e # f # g # xs) = drop m xs"
  by (simp add: numeral_eq_Suc)

lemma drop_7_plus [simp]: "drop (7 + m) (a # b # c # d # e # f # g # xs) = drop m xs"
  by (simp add: numeral_eq_Suc)

lemma Suc7_minus_7 [simp]:
  "7 \<le> n \<Longrightarrow> Suc (Suc (Suc (Suc (Suc (Suc (Suc (n - 7))))))) = n"
  by simp

lemma drop_7 [simp]: "drop 7 (a # b # c # d # e # f # g # xs) = xs"
  by (simp add: numeral_eq_Suc)

lemma drop_numeral_Suc3: "drop (Suc (Suc (Suc 0))) xs = drop 3 xs"
  by (simp add: numeral_3_eq_3)

lemma take_3_nth: "3 \<le> length xs \<Longrightarrow> take 3 xs = [xs ! 0, xs ! 1, xs ! 2]"
  by (auto simp: numeral_3_eq_3 numeral_2_eq_2 Suc_le_length_iff)

lemma append_run_step: "a @ x = y @ b \<Longrightarrow> b @ xs = ys @ c \<Longrightarrow> a @ x @ xs = y @ ys @ c"
  by (simp flip: append_assoc) simp

lemma foldl_invariant:
  assumes "P s" and "\<And>s x. P s \<Longrightarrow> x \<in> set xs \<Longrightarrow> P (f s x)"
  shows "P (foldl f s xs)"
  using assms by (induction xs arbitrary: s) auto

end
