(* ===== verification/Fifo.thy ===== *)
theory Fifo
  imports Prelude
begin

text \<open>
  The interface of the daemon's two bounded queues and what a client of it may rely on. Both
  queues are arrays used as rings (\<open>daemon_tx_queue.cpp\<close>, \<open>daemon_tx_completion.cpp\<close>); the
  clients only see a list of pending items. \<open>bounded_fifo\<close> holds the laws of removal,
  \<open>refusing_fifo\<close> adds a push that refuses when the ring is full, \<open>evicting_fifo\<close> one that
  drops the oldest entry. The lemmas proved in the locales hold for each ring through its
  interpretation.
\<close>

section \<open>Rings\<close>

text \<open>The contents of a ring: \<open>n\<close> entries from index \<open>h\<close>, wrapping at \<open>cap\<close>.\<close>

definition ring_items :: "'e list \<Rightarrow> nat \<Rightarrow> nat \<Rightarrow> nat \<Rightarrow> 'e list" where
  "ring_items buf cap h n = map (\<lambda>i. buf ! ((h + i) mod cap)) [0..<n]"

lemma length_ring_items [simp]: "length (ring_items buf cap h n) = n"
  by (simp add: ring_items_def)

lemma ring_items_0 [simp]: "ring_items buf cap h 0 = []"
  by (simp add: ring_items_def)

lemma ring_items_push:
  assumes "n < cap" and "length buf = cap"
  shows "ring_items (buf[(h + n) mod cap := x]) cap h (Suc n) = ring_items buf cap h n @ [x]"
proof -
  have "(h + n) mod cap < length buf" using assms by simp
  moreover have "(h + n) mod cap \<noteq> (h + i) mod cap" if "i < n" for i
    using add_mod_neq [of i n cap h] that assms(1) by simp
  ultimately show ?thesis by (simp add: ring_items_def)
qed

lemma ring_items_pop:
  "ring_items buf cap h (Suc n) = buf ! (h mod cap) # ring_items buf cap (Suc h mod cap) n"
proof -
  have "[0..<Suc n] = 0 # map Suc [0..<n]" by (simp add: upt_conv_Cons map_Suc_upt del: upt_Suc)
  moreover have "(Suc h mod cap + i) mod cap = (h + Suc i) mod cap" for i
    by (simp add: mod_add_left_eq)
  ultimately show ?thesis by (simp add: ring_items_def o_def del: upt_Suc)
qed

section \<open>The interface\<close>

locale bounded_fifo =
  fixes items :: "'q \<Rightarrow> 'e list"
    and invar :: "'q \<Rightarrow> bool"
    and capacity :: nat
    and pop :: "'q \<Rightarrow> ('e \<times> 'q) option"
  assumes items_bound: "invar q \<Longrightarrow> length (items q) \<le> capacity"
    and pop_empty: "invar q \<Longrightarrow> items q = [] \<Longrightarrow> pop q = None"
    and pop_first: "invar q \<Longrightarrow> items q = x # xs \<Longrightarrow>
      \<exists>q'. pop q = Some (x, q') \<and> items q' = xs \<and> invar q'"
begin

lemma pop_SomeD:
  assumes "invar q" and "pop q = Some (x, q')"
  shows "items q = x # items q' \<and> invar q'"
proof (cases "items q")
  case Nil
  with assms pop_empty show ?thesis by simp
next
  case (Cons y ys)
  with assms pop_first [of q y ys] show ?thesis by auto
qed

lemma pop_NoneD: "invar q \<Longrightarrow> pop q = None \<Longrightarrow> items q = []"
  using pop_first by (cases "items q") fastforce+

end

text \<open>A schedule of pushes and pops; \<open>fifo_run\<close> collects what was accepted and what came out.\<close>

datatype 'e fifo_op = Push 'e | Pop

fun fifo_run ::
  "('e \<Rightarrow> 'q \<Rightarrow> 'q option) \<Rightarrow> ('q \<Rightarrow> ('e \<times> 'q) option) \<Rightarrow> 'e fifo_op list \<Rightarrow> 'q
     \<Rightarrow> 'e list \<times> 'e list \<times> 'q" where
  "fifo_run push pop [] q = ([], [], q)"
| "fifo_run push pop (Push x # ops) q =
     (case push x q of
        None \<Rightarrow> fifo_run push pop ops q
      | Some q' \<Rightarrow> (let (acc, out, r) = fifo_run push pop ops q' in (x # acc, out, r)))"
| "fifo_run push pop (Pop # ops) q =
     (case pop q of
        None \<Rightarrow> fifo_run push pop ops q
      | Some (x, q') \<Rightarrow> (let (acc, out, r) = fifo_run push pop ops q' in (acc, x # out, r)))"

locale refusing_fifo = bounded_fifo items invar capacity pop
  for items :: "'q \<Rightarrow> 'e list" and invar :: "'q \<Rightarrow> bool" and capacity :: nat
    and pop :: "'q \<Rightarrow> ('e \<times> 'q) option" +
  fixes push :: "'e \<Rightarrow> 'q \<Rightarrow> 'q option"
  assumes push_full: "invar q \<Longrightarrow> length (items q) = capacity \<Longrightarrow> push x q = None"
    and push_room: "invar q \<Longrightarrow> length (items q) < capacity \<Longrightarrow>
      \<exists>q'. push x q = Some q' \<and> items q' = items q @ [x] \<and> invar q'"
begin

lemma push_SomeD:
  assumes "invar q" and "push x q = Some q'"
  shows "items q' = items q @ [x] \<and> invar q' \<and> length (items q) < capacity"
proof -
  have "length (items q) < capacity"
    using assms items_bound [of q] push_full [of q x] by fastforce
  with assms push_room [of q x] show ?thesis by auto
qed

lemma push_None_iff: "invar q \<Longrightarrow> push x q = None \<longleftrightarrow> length (items q) = capacity"
  using push_full push_room items_bound by (metis le_neq_implies_less option.distinct(1))

lemma run_conserves:
  "invar q \<Longrightarrow> fifo_run push pop ops q = (acc, out, r) \<Longrightarrow>
     invar r \<and> items q @ acc = out @ items r"
proof (induction ops arbitrary: q acc out)
  case Nil
  then show ?case by simp
next
  case (Cons op ops)
  show ?case
  proof (cases op)
    case (Push x)
    with Cons show ?thesis
      by (cases "push x q") (fastforce dest: push_SomeD split: prod.splits)+
  next
    case Pop
    with Cons show ?thesis
      by (cases "pop q") (fastforce dest: pop_SomeD split: prod.splits)+
  qed
qed

end

locale evicting_fifo = bounded_fifo items invar capacity pop
  for items :: "'q \<Rightarrow> 'e list" and invar :: "'q \<Rightarrow> bool" and capacity :: nat
    and pop :: "'q \<Rightarrow> ('e \<times> 'q) option" +
  fixes push :: "'e \<Rightarrow> 'q \<Rightarrow> 'q"
    and dropped :: "'q \<Rightarrow> nat"
  assumes push_invar: "invar q \<Longrightarrow> invar (push x q)"
    and push_items: "invar q \<Longrightarrow> items (push x q) =
      (if length (items q) = capacity then tl (items q) else items q) @ [x]"
    and push_dropped: "invar q \<Longrightarrow> dropped (push x q) =
      (if length (items q) = capacity then Suc (dropped q) else dropped q)"
    and capacity_pos: "0 < capacity"
begin

lemma pushes_invar: "invar q \<Longrightarrow> invar (fold push xs q)"
  by (induction xs arbitrary: q) (auto intro: push_invar)

lemma pushes_keep_newest:
  "invar q \<Longrightarrow> items (fold push xs q) =
     drop (length (items q) + length xs - capacity) (items q @ xs)"
proof (induction xs arbitrary: q)
  case Nil
  then show ?case using items_bound [of q] by simp
next
  case (Cons x xs)
  show ?case
  proof (cases "length (items q) = capacity")
    case True
    then have "items q = hd (items q) # tl (items q)"
      using capacity_pos by (cases "items q") auto
    then obtain y ys where q: "items q = y # ys" by blast
    with True have c: "capacity = Suc (length ys)" by simp
    have "items (fold push (x # xs) q) = drop (length xs) ((ys @ [x]) @ xs)"
      using Cons.IH [of "push x q"] Cons.prems True q
      by (simp add: push_invar push_items c del: drop_append)
    then show ?thesis using q by (simp add: c del: drop_append)
  next
    case False
    with Cons show ?thesis by (simp add: push_invar push_items del: drop_append)
  qed
qed

lemma pushes_dropped:
  "invar q \<Longrightarrow> dropped (fold push xs q) =
     dropped q + (length (items q) + length xs - capacity)"
proof (induction xs arbitrary: q)
  case Nil
  then show ?case using items_bound [of q] by simp
next
  case (Cons x xs)
  then show ?case
    using items_bound [of q] capacity_pos
    by (cases "length (items q) = capacity") (simp_all add: push_invar push_items push_dropped)
qed

end

end
