(* ===== verification/Framed_Data.thy ===== *)
theory Framed_Data
  imports Prelude
begin

text \<open>
  The framed DATA wire format of \<open>loraham_daemon/framed_data.h\<close> and \<open>framed_data.cpp\<close>: the
  frame types, the length rules per type, and the encoders and the decoder of the 3-byte
  header, the whole frame, the \<open>RX_PACKET\<close> metadata and the \<open>TX_RESULT\<close> payload. A buffer
  argument is its contents (so its length is the \<open>frame_len\<close> of the C function), behind a
  pointer that may be NULL; a result \<open>None\<close> is the C result \<open>-1\<close> and \<open>Some b\<close> is \<open>0\<close> with
  the buffer left as \<open>b\<close>.
\<close>

section \<open>Constants\<close>

definition FRAMED_DATA_HEADER_LEN :: nat where [c_consts]: "FRAMED_DATA_HEADER_LEN = 3"
definition FRAMED_DATA_MAX_RF_PAYLOAD :: nat where [c_consts]: "FRAMED_DATA_MAX_RF_PAYLOAD = 255"
definition FRAMED_DATA_RX_META_LEN :: nat where [c_consts]: "FRAMED_DATA_RX_META_LEN = 4"
definition FRAMED_DATA_TX_RESULT_PAYLOAD_LEN :: nat where
  [c_consts]: "FRAMED_DATA_TX_RESULT_PAYLOAD_LEN = 4"
definition FRAMED_DATA_RX_FRAME_MAX :: nat where
  [c_consts]: "FRAMED_DATA_RX_FRAME_MAX =
     FRAMED_DATA_HEADER_LEN + (FRAMED_DATA_RX_META_LEN + FRAMED_DATA_MAX_RF_PAYLOAD)"
definition FRAMED_DATA_SIGNAL_UNAVAILABLE :: int where
  "FRAMED_DATA_SIGNAL_UNAVAILABLE = -32768"

definition FRAMED_DATA_TYPE_RX_PACKET :: u8 where [c_consts]: "FRAMED_DATA_TYPE_RX_PACKET = 1"
definition FRAMED_DATA_TYPE_TX_PACKET :: u8 where [c_consts]: "FRAMED_DATA_TYPE_TX_PACKET = 2"
definition FRAMED_DATA_TYPE_ERROR :: u8 where [c_consts]: "FRAMED_DATA_TYPE_ERROR = 3"
definition FRAMED_DATA_TYPE_TX_RESULT :: u8 where [c_consts]: "FRAMED_DATA_TYPE_TX_RESULT = 4"

definition FRAMED_DATA_TX_STATUS_OK :: u8 where [c_consts]: "FRAMED_DATA_TX_STATUS_OK = 0"
definition FRAMED_DATA_TX_STATUS_BUSY :: u8 where [c_consts]: "FRAMED_DATA_TX_STATUS_BUSY = 1"
definition FRAMED_DATA_TX_STATUS_CHANNEL_BUSY :: u8 where
  [c_consts]: "FRAMED_DATA_TX_STATUS_CHANNEL_BUSY = 2"
definition FRAMED_DATA_TX_STATUS_RADIO_NOT_READY :: u8 where
  [c_consts]: "FRAMED_DATA_TX_STATUS_RADIO_NOT_READY = 3"
definition FRAMED_DATA_TX_STATUS_RADIO_ERROR :: u8 where
  [c_consts]: "FRAMED_DATA_TX_STATUS_RADIO_ERROR = 4"
definition FRAMED_DATA_TX_STATUS_INVALID_PACKET :: u8 where
  [c_consts]: "FRAMED_DATA_TX_STATUS_INVALID_PACKET = 5"
definition FRAMED_DATA_TX_STATUS_INVALID_BAND :: u8 where
  [c_consts]: "FRAMED_DATA_TX_STATUS_INVALID_BAND = 6"

definition FRAMED_DATA_TX_RESULT_FLAG_MANAGED :: u8 where
  "FRAMED_DATA_TX_RESULT_FLAG_MANAGED = 1"
definition FRAMED_DATA_TX_RESULT_FLAG_CAD_TIMEOUT :: u8 where
  "FRAMED_DATA_TX_RESULT_FLAG_CAD_TIMEOUT = 4"

section \<open>Predicates\<close>

definition framed_data_type_known :: "u8 \<Rightarrow> bool" where
  "framed_data_type_known t \<longleftrightarrow>
     t = FRAMED_DATA_TYPE_RX_PACKET \<or> t = FRAMED_DATA_TYPE_TX_PACKET \<or>
     t = FRAMED_DATA_TYPE_ERROR \<or> t = FRAMED_DATA_TYPE_TX_RESULT"

definition framed_data_rf_payload_len_valid :: "nat \<Rightarrow> bool" where
  "framed_data_rf_payload_len_valid n \<longleftrightarrow> n \<le> FRAMED_DATA_MAX_RF_PAYLOAD"

definition framed_data_tx_result_status_valid :: "u8 \<Rightarrow> bool" where
  "framed_data_tx_result_status_valid s \<longleftrightarrow> s \<le> FRAMED_DATA_TX_STATUS_INVALID_BAND"

definition framed_data_frame_size :: "u16 \<Rightarrow> nat" where
  "framed_data_frame_size n = FRAMED_DATA_HEADER_LEN + unat n"

definition framed_data_type_payload_len_valid :: "u8 \<Rightarrow> u16 \<Rightarrow> bool" where
  "framed_data_type_payload_len_valid t n =
     (if \<not> framed_data_type_known t then False
      else if t = FRAMED_DATA_TYPE_TX_PACKET then framed_data_rf_payload_len_valid (unat n)
      else if t = FRAMED_DATA_TYPE_RX_PACKET then
        (if unat n < FRAMED_DATA_RX_META_LEN then False
         else framed_data_rf_payload_len_valid (unat n - FRAMED_DATA_RX_META_LEN))
      else if t = FRAMED_DATA_TYPE_TX_RESULT then unat n = FRAMED_DATA_TX_RESULT_PAYLOAD_LEN
      else True)"

section \<open>Encoders and decoder\<close>

definition framed_data_encode_header :: "bytes ptr \<Rightarrow> u8 \<Rightarrow> u16 \<Rightarrow> bytes option" where
  "framed_data_encode_header header t n =
     (case header of
        None \<Rightarrow> None
      | Some h \<Rightarrow>
          if length h < FRAMED_DATA_HEADER_LEN then None
          else if \<not> framed_data_type_payload_len_valid t n then None
          else Some (put_bytes h 0 [t, le16_lo n, le16_hi n]))"

definition framed_data_decode_header :: "bytes ptr \<Rightarrow> (u8 \<times> u16) option" where
  "framed_data_decode_header header =
     (case header of
        None \<Rightarrow> None
      | Some h \<Rightarrow>
          if length h < FRAMED_DATA_HEADER_LEN then None
          else let t = h ! 0; n = le16 (h ! 1) (h ! 2)
               in if \<not> framed_data_type_payload_len_valid t n then None else Some (t, n))"

text \<open>
  The payload pointer of \<open>framed_data_encode_frame\<close> is the buffer of at least \<open>payload_len\<close>
  bytes the caller vouches for; \<open>memcpy\<close> reads its first \<open>payload_len\<close> bytes.
\<close>

definition framed_data_encode_frame ::
  "bytes ptr \<Rightarrow> u8 \<Rightarrow> bytes ptr \<Rightarrow> u16 \<Rightarrow> bytes option" where
  "framed_data_encode_frame frame t payload n =
     (case frame of
        None \<Rightarrow> None
      | Some f \<Rightarrow>
          if 0 < n \<and> payload = None then None
          else if length f < framed_data_frame_size n then None
          else (case framed_data_encode_header (Some f) t n of
                  None \<Rightarrow> None
                | Some f' \<Rightarrow>
                    (case payload of
                       None \<Rightarrow> Some f'
                     | Some p \<Rightarrow>
                         if 0 < n then Some (put_bytes f' FRAMED_DATA_HEADER_LEN (take (unat n) p))
                         else Some f')))"

text \<open>\<open>int16_t\<close> values are \<open>u16\<close> words; the signed reading is \<open>sint\<close>.\<close>

definition framed_data_encode_rx_packet ::
  "bytes ptr \<Rightarrow> u16 \<Rightarrow> u16 \<Rightarrow> bytes ptr \<Rightarrow> u16 \<Rightarrow> bytes option" where
  "framed_data_encode_rx_packet frame rssi_raw snr_raw rf_payload rf_len =
     (case frame of
        None \<Rightarrow> None
      | Some f \<Rightarrow>
          if 0 < rf_len \<and> rf_payload = None then None
          else if \<not> framed_data_rf_payload_len_valid (unat rf_len) then None
          else (let payload_len = of_nat FRAMED_DATA_RX_META_LEN + rf_len in
            if length f < framed_data_frame_size payload_len then None
            else (case framed_data_encode_header (Some f) FRAMED_DATA_TYPE_RX_PACKET payload_len of
              None \<Rightarrow> None
            | Some f1 \<Rightarrow>
                let f2 = put_bytes f1 FRAMED_DATA_HEADER_LEN
                           [le16_lo rssi_raw, le16_hi rssi_raw, le16_lo snr_raw, le16_hi snr_raw]
                in (case rf_payload of
                      None \<Rightarrow> Some f2
                    | Some p \<Rightarrow>
                        if 0 < rf_len
                        then Some (put_bytes f2 (FRAMED_DATA_HEADER_LEN + FRAMED_DATA_RX_META_LEN)
                                     (take (unat rf_len) p))
                        else Some f2))))"

definition framed_data_encode_tx_result :: "bytes ptr \<Rightarrow> u8 \<Rightarrow> u8 \<Rightarrow> u16 \<Rightarrow> bytes option" where
  "framed_data_encode_tx_result frame status flags sequence =
     (case frame of
        None \<Rightarrow> None
      | Some f \<Rightarrow>
          if \<not> framed_data_tx_result_status_valid status then None
          else if length f < framed_data_frame_size (of_nat FRAMED_DATA_TX_RESULT_PAYLOAD_LEN)
          then None
          else (case framed_data_encode_header (Some f) FRAMED_DATA_TYPE_TX_RESULT
                       (of_nat FRAMED_DATA_TX_RESULT_PAYLOAD_LEN) of
                  None \<Rightarrow> None
                | Some f1 \<Rightarrow> Some (put_bytes f1 FRAMED_DATA_HEADER_LEN
                                     [status, flags, le16_lo sequence, le16_hi sequence])))"

section \<open>What the encoders write\<close>

lemma framed_data_type_payload_len_valid_bound:
  "framed_data_type_payload_len_valid t n \<Longrightarrow> t \<noteq> FRAMED_DATA_TYPE_ERROR \<Longrightarrow> unat n \<le> 259"
  by (auto simp: framed_data_type_payload_len_valid_def framed_data_type_known_def
      framed_data_rf_payload_len_valid_def c_consts split: if_splits)

lemma framed_data_encode_header_Some:
  "framed_data_encode_header (Some h) t n = Some b \<longleftrightarrow>
     3 \<le> length h \<and> framed_data_type_payload_len_valid t n \<and>
     b = [t, le16_lo n, le16_hi n] @ drop 3 h"
  by (auto simp: framed_data_encode_header_def put_bytes_def c_consts drop_numeral_Suc3)

lemma framed_data_decode_header_of_encoded:
  assumes "framed_data_encode_header (Some h) t n = Some b"
  shows "framed_data_decode_header (Some (b @ rest)) = Some (t, n)"
  using assms
  by (auto simp: framed_data_encode_header_Some framed_data_decode_header_def c_consts Let_def)

lemma framed_data_decode_headerD:
  assumes "framed_data_decode_header (Some h) = Some (t, n)"
  shows "framed_data_type_payload_len_valid t n \<and> take 3 h = [t, le16_lo n, le16_hi n]"
proof -
  from assms have len: "3 \<le> length h" and t: "t = h ! 0" and n: "n = le16 (h ! 1) (h ! 2)"
    and v: "framed_data_type_payload_len_valid t n"
    by (auto simp: framed_data_decode_header_def c_consts Let_def split: if_splits)
  from len have "take 3 h = [h ! 0, h ! 1, h ! 2]"
    by (rule take_3_nth)
  with t n v show ?thesis by simp
qed

lemma framed_data_encode_frame_bytes:
  assumes "framed_data_encode_frame (Some f) t (Some p) n = Some b" and "unat n \<le> length p"
  shows "b = [t, le16_lo n, le16_hi n] @ take (unat n) p @ drop (3 + unat n) f
     \<and> framed_data_type_payload_len_valid t n \<and> 3 + unat n \<le> length f"
proof (cases "n = 0")
  case True
  with assms show ?thesis
    by (auto simp: framed_data_encode_frame_def framed_data_encode_header_Some
        framed_data_frame_size_def c_consts split: if_splits option.splits)
next
  case False
  then have "0 < n" by (simp add: word_gt_0)
  with assms show ?thesis
    by (auto simp: framed_data_encode_frame_def framed_data_encode_header_Some put_bytes_def
        framed_data_frame_size_def c_consts add.commute split: if_splits option.splits)
qed

lemma framed_data_encode_tx_result_bytes:
  "framed_data_encode_tx_result (Some f) s fl q =
     (if s \<le> 6 \<and> 7 \<le> length f
      then Some ([4, 4, 0, s, fl, le16_lo q, le16_hi q] @ drop 7 f) else None)"
  by (auto simp: framed_data_encode_tx_result_def framed_data_tx_result_status_valid_def
      framed_data_frame_size_def framed_data_encode_header_def put_bytes_def c_consts
      framed_data_type_payload_len_valid_def framed_data_type_known_def le16_lo_def le16_hi_def)

lemma rx_payload_len:
  "unat (rf_len :: u16) \<le> 255 \<Longrightarrow> unat (4 + rf_len) = 4 + unat rf_len"
  by (simp add: unat_plus_if_size word_size)

lemma framed_data_encode_rx_packet_bytes:
  assumes "unat n \<le> 255" and "unat n \<le> length p" and "7 + unat n \<le> length f"
  shows "framed_data_encode_rx_packet (Some f) rssi snr (Some p) n =
     Some ([1, le16_lo (4 + n), le16_hi (4 + n), le16_lo rssi, le16_hi rssi, le16_lo snr, le16_hi snr]
       @ take (unat n) p @ drop (7 + unat n) f)"
proof -
  have len: "unat (4 + n) = 4 + unat n" using assms(1) by (rule rx_payload_len)
  have valid: "framed_data_type_payload_len_valid 1 (4 + n)"
    using assms(1) by (simp add: framed_data_type_payload_len_valid_def len c_consts
        framed_data_type_known_def framed_data_rf_payload_len_valid_def)
  have hdr: "framed_data_encode_header (Some f) 1 (4 + n) =
      Some ([1, le16_lo (4 + n), le16_hi (4 + n)] @ drop 3 f)"
    using assms(3) valid by (simp add: framed_data_encode_header_Some)
  show ?thesis
  proof (cases "n = 0")
    case True
    with assms hdr show ?thesis
      by (simp add: framed_data_encode_rx_packet_def framed_data_rf_payload_len_valid_def
          framed_data_frame_size_def c_consts put_bytes_def Let_def)
  next
    case False
    then have "0 < n" by (simp add: word_gt_0)
    with assms hdr len show ?thesis
      by (simp add: framed_data_encode_rx_packet_def framed_data_rf_payload_len_valid_def
          framed_data_frame_size_def c_consts put_bytes_def Let_def add.commute)
  qed
qed

section \<open>Properties\<close>

text \<open>
  C30: a received RF packet survives the framed wire format. For every payload of at most 255
  bytes and every frame buffer that is large enough, \<open>framed_data_encode_rx_packet\<close> succeeds,
  the client's header decoder reads back \<open>RX_PACKET\<close> with length 4 + payload, the two 16-bit
  metadata words decode to the RSSI and SNR that were encoded, the payload bytes follow
  unchanged, and no byte beyond the frame is written.
\<close>

theorem rx_packet_roundtrip:
  assumes "length p \<le> 255" and "7 + length p \<le> length f"
  shows "\<exists>b. framed_data_encode_rx_packet (Some f) rssi snr (Some p) (of_nat (length p)) = Some b
     \<and> framed_data_decode_header (Some b) = Some (FRAMED_DATA_TYPE_RX_PACKET, of_nat (4 + length p))
     \<and> le16 (b ! 3) (b ! 4) = rssi \<and> le16 (b ! 5) (b ! 6) = snr
     \<and> take (length p) (drop 7 b) = p
     \<and> length b = length f \<and> drop (7 + length p) b = drop (7 + length p) f"
proof -
  let ?n = "of_nat (length p) :: u16"
  have n: "unat ?n = length p" using assms(1) by (simp add: unat_of_nat_u16)
  have len: "unat (4 + ?n) = 4 + length p" using rx_payload_len [of ?n] assms(1) n by simp
  let ?b = "[1, le16_lo (4 + ?n), le16_hi (4 + ?n), le16_lo rssi, le16_hi rssi, le16_lo snr,
             le16_hi snr] @ p @ drop (7 + length p) f"
  have enc: "framed_data_encode_rx_packet (Some f) rssi snr (Some p) ?n = Some ?b"
    using framed_data_encode_rx_packet_bytes [of ?n p f rssi snr] assms n by simp
  have "framed_data_type_payload_len_valid FRAMED_DATA_TYPE_RX_PACKET (4 + ?n)"
    using assms(1) by (simp add: framed_data_type_payload_len_valid_def len c_consts
        framed_data_type_known_def framed_data_rf_payload_len_valid_def)
  then have "framed_data_decode_header (Some ?b) =
      Some (FRAMED_DATA_TYPE_RX_PACKET, of_nat (4 + length p))"
    by (simp add: framed_data_decode_header_def c_consts)
  with enc assms(2) show ?thesis by (intro exI [of _ ?b]) simp
qed

theorem rx_packet_roundtrip_witness:
  "\<exists>b. framed_data_encode_rx_packet (Some (replicate 262 0)) 0xCFC7 0xFD5D (Some [72, 105]) 2 = Some b
     \<and> framed_data_decode_header (Some b) = Some (FRAMED_DATA_TYPE_RX_PACKET, 6)
     \<and> le16 (b ! 3) (b ! 4) = 0xCFC7 \<and> take 2 (drop 7 b) = [72, 105]"
proof -
  have "length [72, 105 :: u8] \<le> 255" and "7 + length [72, 105 :: u8] \<le> length (replicate 262 (0 :: u8))"
    by simp_all
  from rx_packet_roundtrip [OF this, of "0xCFC7" "0xFD5D"] show ?thesis
    by (auto simp: numeral_2_eq_2)
qed

text \<open>
  a transmit result survives the wire format and every status outside the protocol's table
  is refused: \<open>framed_data_encode_tx_result\<close> succeeds exactly for a status up to
  \<open>INVALID_BAND\<close> in a buffer of at least 7 bytes, and then a client that decodes the frame
  gets back \<open>TX_RESULT\<close>, length 4, the status, the flags and the 16-bit sequence number.
\<close>

theorem tx_result_roundtrip:
  "case framed_data_encode_tx_result (Some f) status flags q of
     None \<Rightarrow> FRAMED_DATA_TX_STATUS_INVALID_BAND < status \<or> length f < 7
   | Some b \<Rightarrow> status \<le> FRAMED_DATA_TX_STATUS_INVALID_BAND \<and> length b = length f
       \<and> framed_data_decode_header (Some b) = Some (FRAMED_DATA_TYPE_TX_RESULT, 4)
       \<and> b ! 3 = status \<and> b ! 4 = flags \<and> le16 (b ! 5) (b ! 6) = q \<and> drop 7 b = drop 7 f"
proof (cases "status \<le> 6 \<and> 7 \<le> length f")
  case True
  let ?b = "[4, 4, 0, status, flags, le16_lo q, le16_hi q] @ drop 7 f"
  have "framed_data_decode_header (Some ?b) = Some (FRAMED_DATA_TYPE_TX_RESULT, 4)"
    by (simp add: framed_data_decode_header_def c_consts le16_def
        framed_data_type_payload_len_valid_def framed_data_type_known_def)
  with True show ?thesis
    by (simp add: framed_data_encode_tx_result_bytes c_consts)
next
  case False
  then show ?thesis
    by (auto simp: framed_data_encode_tx_result_bytes c_consts not_le)
qed

end
