(* ===== verification/Tx_Types.thy ===== *)
theory Tx_Types
  imports Framed_Data
begin

text \<open>
  The value types of the transmit path: \<open>tx_result.h\<close>/\<open>.cpp\<close>, \<open>daemon_tx_outcome.h\<close>,
  \<open>daemon_tx_job.h\<close>, the timing policy \<open>daemon_tx_policy.h\<close>, the packet checks of
  \<open>rf_packet.cpp\<close>, the per-mode payload limit of \<open>radio_tx_limit.cpp\<close> and the health states
  of \<open>radio_health.cpp\<close>. C enumerations are datatypes; where the code passes an enumeration
  as an \<open>int\<close> (handler results), \<open>outcome_code\<close> is its numeric value.
\<close>

section \<open>Chip family, modem mode, health\<close>

datatype chip_family = SX127X | SX1262
datatype radio_mode = RADIO_MODE_LORA | RADIO_MODE_FSK
datatype radio_health =
  RADIO_HEALTH_UNINITIALIZED | RADIO_HEALTH_READY | RADIO_HEALTH_FAILED | RADIO_HEALTH_UNPLUGGED

fun radio_health_name :: "radio_health \<Rightarrow> string" where
  "radio_health_name RADIO_HEALTH_UNINITIALIZED = ''UNINITIALIZED''"
| "radio_health_name RADIO_HEALTH_READY = ''READY''"
| "radio_health_name RADIO_HEALTH_FAILED = ''FAILED''"
| "radio_health_name RADIO_HEALTH_UNPLUGGED = ''UNPLUGGED''"

definition radio_health_is_ready :: "radio_health \<Rightarrow> bool" where
  "radio_health_is_ready h \<longleftrightarrow> h = RADIO_HEALTH_READY"

section \<open>Results and outcomes\<close>

datatype tx_result =
  TX_RESULT_OK | TX_RESULT_INVALID_BAND | TX_RESULT_INVALID_PACKET | TX_RESULT_BUSY
| TX_RESULT_CAD_TIMEOUT | TX_RESULT_RADIO_NOT_READY | TX_RESULT_RADIO_ERROR

fun tx_result_name :: "tx_result \<Rightarrow> string" where
  "tx_result_name TX_RESULT_OK = ''OK''"
| "tx_result_name TX_RESULT_INVALID_BAND = ''INVALID_BAND''"
| "tx_result_name TX_RESULT_INVALID_PACKET = ''INVALID_PACKET''"
| "tx_result_name TX_RESULT_BUSY = ''BUSY''"
| "tx_result_name TX_RESULT_CAD_TIMEOUT = ''CAD_TIMEOUT''"
| "tx_result_name TX_RESULT_RADIO_NOT_READY = ''RADIO_NOT_READY''"
| "tx_result_name TX_RESULT_RADIO_ERROR = ''RADIO_ERROR''"

definition tx_result_is_ok :: "tx_result \<Rightarrow> bool" where
  "tx_result_is_ok r \<longleftrightarrow> r = TX_RESULT_OK"

datatype tx_outcome =
  OUTCOME_OK | OUTCOME_BUSY | OUTCOME_CHANNEL_BUSY | OUTCOME_RADIO_NOT_READY
| OUTCOME_RADIO_ERROR | OUTCOME_INVALID_PACKET | OUTCOME_INVALID_BAND

fun outcome_code :: "tx_outcome \<Rightarrow> int" where
  "outcome_code OUTCOME_OK = 0"
| "outcome_code OUTCOME_BUSY = 1"
| "outcome_code OUTCOME_CHANNEL_BUSY = 2"
| "outcome_code OUTCOME_RADIO_NOT_READY = 3"
| "outcome_code OUTCOME_RADIO_ERROR = 4"
| "outcome_code OUTCOME_INVALID_PACKET = 5"
| "outcome_code OUTCOME_INVALID_BAND = 6"

definition daemon_tx_outcome_is_ok :: "int \<Rightarrow> bool" where
  "daemon_tx_outcome_is_ok outcome \<longleftrightarrow> outcome = outcome_code OUTCOME_OK"

definition daemon_tx_outcome_is_failure :: "int \<Rightarrow> bool" where
  "daemon_tx_outcome_is_failure outcome \<longleftrightarrow> \<not> daemon_tx_outcome_is_ok outcome"

fun daemon_tx_outcome_from_tx_result :: "tx_result \<Rightarrow> tx_outcome" where
  "daemon_tx_outcome_from_tx_result TX_RESULT_OK = OUTCOME_OK"
| "daemon_tx_outcome_from_tx_result TX_RESULT_BUSY = OUTCOME_BUSY"
| "daemon_tx_outcome_from_tx_result TX_RESULT_CAD_TIMEOUT = OUTCOME_CHANNEL_BUSY"
| "daemon_tx_outcome_from_tx_result TX_RESULT_RADIO_NOT_READY = OUTCOME_RADIO_NOT_READY"
| "daemon_tx_outcome_from_tx_result TX_RESULT_INVALID_PACKET = OUTCOME_INVALID_PACKET"
| "daemon_tx_outcome_from_tx_result TX_RESULT_INVALID_BAND = OUTCOME_INVALID_BAND"
| "daemon_tx_outcome_from_tx_result TX_RESULT_RADIO_ERROR = OUTCOME_RADIO_ERROR"

fun daemon_tx_outcome_to_tx_result :: "tx_outcome \<Rightarrow> tx_result" where
  "daemon_tx_outcome_to_tx_result OUTCOME_OK = TX_RESULT_OK"
| "daemon_tx_outcome_to_tx_result OUTCOME_BUSY = TX_RESULT_BUSY"
| "daemon_tx_outcome_to_tx_result OUTCOME_CHANNEL_BUSY = TX_RESULT_CAD_TIMEOUT"
| "daemon_tx_outcome_to_tx_result OUTCOME_RADIO_NOT_READY = TX_RESULT_RADIO_NOT_READY"
| "daemon_tx_outcome_to_tx_result OUTCOME_INVALID_PACKET = TX_RESULT_INVALID_PACKET"
| "daemon_tx_outcome_to_tx_result OUTCOME_INVALID_BAND = TX_RESULT_INVALID_BAND"
| "daemon_tx_outcome_to_tx_result OUTCOME_RADIO_ERROR = TX_RESULT_RADIO_ERROR"

text \<open>The \<open>switch\<close> on the \<open>int\<close>, with its \<open>default\<close>.\<close>

definition daemon_tx_outcome_to_framed_status :: "int \<Rightarrow> u8" where
  "daemon_tx_outcome_to_framed_status outcome =
     (if outcome = outcome_code OUTCOME_OK then FRAMED_DATA_TX_STATUS_OK
      else if outcome = outcome_code OUTCOME_BUSY then FRAMED_DATA_TX_STATUS_BUSY
      else if outcome = outcome_code OUTCOME_CHANNEL_BUSY then FRAMED_DATA_TX_STATUS_CHANNEL_BUSY
      else if outcome = outcome_code OUTCOME_RADIO_NOT_READY then FRAMED_DATA_TX_STATUS_RADIO_NOT_READY
      else if outcome = outcome_code OUTCOME_INVALID_PACKET then FRAMED_DATA_TX_STATUS_INVALID_PACKET
      else if outcome = outcome_code OUTCOME_INVALID_BAND then FRAMED_DATA_TX_STATUS_INVALID_BAND
      else FRAMED_DATA_TX_STATUS_RADIO_ERROR)"

lemma outcome_result_inverse [simp]:
  "daemon_tx_outcome_from_tx_result (daemon_tx_outcome_to_tx_result out) = out"
  by (cases out) simp_all

lemma result_outcome_inverse [simp]:
  "daemon_tx_outcome_to_tx_result (daemon_tx_outcome_from_tx_result r) = r"
  by (cases r) simp_all

lemma framed_status_valid [simp]:
  "framed_data_tx_result_status_valid (daemon_tx_outcome_to_framed_status i)"
  by (simp add: framed_data_tx_result_status_valid_def daemon_tx_outcome_to_framed_status_def c_consts)

section \<open>Transmit jobs\<close>

definition DAEMON_TX_COMPLETION_SLOT_NONE :: int where
  [c_consts]: "DAEMON_TX_COMPLETION_SLOT_NONE = -1"

record tx_job =
  job_band :: int
  job_tx_mode :: int
  job_seq :: u16
  job_flags :: u8
  job_cad_enabled :: bool
  job_cad_send_after_timeout :: bool
  job_cad_wait_ticks :: u32
  job_cad_idle_stable_ticks :: u32
  job_cad_poll_interval_usec :: u32
  job_payload :: bytes
  job_completion_slot :: int
  job_completion_generation :: u32

text \<open>
  \<open>job_payload\<close> holds the \<open>payload_len\<close> valid bytes of the fixed array; \<open>memset\<close> zeroes the
  job first.
\<close>

definition zero_job :: tx_job where
  "zero_job = \<lparr>job_band = 0, job_tx_mode = 0, job_seq = 0, job_flags = 0, job_cad_enabled = False,
     job_cad_send_after_timeout = False, job_cad_wait_ticks = 0, job_cad_idle_stable_ticks = 0,
     job_cad_poll_interval_usec = 0, job_payload = [], job_completion_slot = 0,
     job_completion_generation = 0\<rparr>"

definition daemon_tx_job_init :: "int \<Rightarrow> int \<Rightarrow> u16 \<Rightarrow> tx_job" where
  "daemon_tx_job_init band mode sequence =
     zero_job\<lparr>job_band := band, job_tx_mode := mode, job_seq := sequence,
       job_cad_enabled := False, job_cad_send_after_timeout := False, job_cad_wait_ticks := 0,
       job_cad_idle_stable_ticks := 0, job_cad_poll_interval_usec := 0,
       job_completion_slot := DAEMON_TX_COMPLETION_SLOT_NONE, job_completion_generation := 0\<rparr>"

definition daemon_tx_job_configure_cad_policy ::
  "tx_job \<Rightarrow> bool \<Rightarrow> u32 \<Rightarrow> u32 \<Rightarrow> u32 \<Rightarrow> bool \<Rightarrow> tx_job" where
  "daemon_tx_job_configure_cad_policy job enabled wait_ticks idle_ticks poll_usec after_timeout =
     job\<lparr>job_cad_enabled := enabled, job_cad_wait_ticks := wait_ticks,
       job_cad_idle_stable_ticks := idle_ticks, job_cad_poll_interval_usec := poll_usec,
       job_cad_send_after_timeout := after_timeout\<rparr>"

definition daemon_tx_job_set_payload :: "tx_job \<Rightarrow> bytes \<Rightarrow> tx_job option" where
  "daemon_tx_job_set_payload job payload =
     (if FRAMED_DATA_MAX_RF_PAYLOAD < length payload then None
      else Some (job\<lparr>job_payload := payload\<rparr>))"

record tx_job_result =
  res_seq :: u16
  res_flags :: u8
  res_outcome :: tx_outcome
  res_tx_result :: tx_result
  res_framed_status :: u8
  res_completion_slot :: int
  res_completion_generation :: u32

definition daemon_tx_job_result_init :: "tx_job ptr \<Rightarrow> tx_outcome \<Rightarrow> tx_job_result" where
  "daemon_tx_job_result_init job out =
     \<lparr>res_seq = (case job of None \<Rightarrow> 0 | Some j \<Rightarrow> job_seq j),
      res_flags = (case job of None \<Rightarrow> 0 | Some j \<Rightarrow> job_flags j),
      res_outcome = out,
      res_tx_result = daemon_tx_outcome_to_tx_result out,
      res_framed_status = daemon_tx_outcome_to_framed_status (outcome_code out),
      res_completion_slot =
        (case job of None \<Rightarrow> DAEMON_TX_COMPLETION_SLOT_NONE | Some j \<Rightarrow> job_completion_slot j),
      res_completion_generation = (case job of None \<Rightarrow> 0 | Some j \<Rightarrow> job_completion_generation j)\<rparr>"

section \<open>Timing policy\<close>

definition DAEMON_TX_POLICY_BUSY_TIMEOUT_MS :: u32 where
  [c_consts]: "DAEMON_TX_POLICY_BUSY_TIMEOUT_MS = 120000"
definition DAEMON_TX_POLICY_CAD_WAIT_TIMEOUT_MS :: u32 where
  [c_consts]: "DAEMON_TX_POLICY_CAD_WAIT_TIMEOUT_MS = 1500"
definition DAEMON_TX_POLICY_CAD_IDLE_STABLE_MS :: u32 where
  [c_consts]: "DAEMON_TX_POLICY_CAD_IDLE_STABLE_MS = 250"
definition DAEMON_TX_POLICY_POLL_INTERVAL_MS :: u32 where
  [c_consts]: "DAEMON_TX_POLICY_POLL_INTERVAL_MS = 50"
definition DAEMON_TX_POLICY_SEND_AFTER_CAD_TIMEOUT :: bool where
  [c_consts]: "DAEMON_TX_POLICY_SEND_AFTER_CAD_TIMEOUT = False"

definition daemon_tx_policy_ticks_for_ms :: "u32 \<Rightarrow> u32 \<Rightarrow> u32" where
  "daemon_tx_policy_ticks_for_ms timeout_ms interval_ms =
     (if interval_ms = 0 then 0 else (timeout_ms + interval_ms - 1) div interval_ms)"

definition daemon_tx_policy_busy_timeout_ticks :: u32 where
  "daemon_tx_policy_busy_timeout_ticks =
     daemon_tx_policy_ticks_for_ms DAEMON_TX_POLICY_BUSY_TIMEOUT_MS DAEMON_TX_POLICY_POLL_INTERVAL_MS"

definition daemon_tx_policy_cad_wait_ticks :: u32 where
  "daemon_tx_policy_cad_wait_ticks =
     daemon_tx_policy_ticks_for_ms DAEMON_TX_POLICY_CAD_WAIT_TIMEOUT_MS DAEMON_TX_POLICY_POLL_INTERVAL_MS"

definition daemon_tx_policy_cad_idle_stable_ticks :: u32 where
  "daemon_tx_policy_cad_idle_stable_ticks =
     daemon_tx_policy_ticks_for_ms DAEMON_TX_POLICY_CAD_IDLE_STABLE_MS DAEMON_TX_POLICY_POLL_INTERVAL_MS"

definition daemon_tx_policy_poll_interval_usec :: u32 where
  "daemon_tx_policy_poll_interval_usec = DAEMON_TX_POLICY_POLL_INTERVAL_MS * 1000"

lemma unat_ticks_for_ms:
  assumes "0 < i" and "unat ms + unat i < 2 ^ 32"
  shows "unat (daemon_tx_policy_ticks_for_ms ms i) = (unat ms + unat i - 1) div unat i"
proof -
  have i: "0 < unat i" using assms(1) by (simp add: unat_gt_0 word_gt_0)
  have "unat (ms + i) = unat ms + unat i"
    using assms(2) by (simp add: unat_plus_if_size word_size)
  moreover from this i have "ms + i \<noteq> 0" by (metis add_gr_0 less_not_refl unat_0)
  ultimately have "unat (ms + i - 1) = unat ms + unat i - 1"
    by (simp add: unat_minus_one)
  with assms(1) show ?thesis
    by (auto simp: daemon_tx_policy_ticks_for_ms_def unat_div)
qed

section \<open>RF packets and the payload limit\<close>

definition RF_PACKET_MAX_PAYLOAD_LEN :: nat where [c_consts]: "RF_PACKET_MAX_PAYLOAD_LEN = 255"
definition RF_PACKET_PREVIEW_LEN :: nat where "RF_PACKET_PREVIEW_LEN = 20"
definition RF_PACKET_LORA_HEADER_LEN :: nat where "RF_PACKET_LORA_HEADER_LEN = 16"

datatype rf_packet_validation =
  RF_PACKET_VALID | RF_PACKET_ERR_NULL | RF_PACKET_ERR_EMPTY | RF_PACKET_ERR_TOO_LONG

definition rf_packet_validate :: "bytes ptr \<Rightarrow> nat \<Rightarrow> rf_packet_validation" where
  "rf_packet_validate buf len =
     (if len = 0 then RF_PACKET_ERR_EMPTY
      else if buf = NULL then RF_PACKET_ERR_NULL
      else if RF_PACKET_MAX_PAYLOAD_LEN < len then RF_PACKET_ERR_TOO_LONG
      else RF_PACKET_VALID)"

definition rf_packet_preview_len :: "nat \<Rightarrow> nat" where
  "rf_packet_preview_len len = (if RF_PACKET_PREVIEW_LEN < len then RF_PACKET_PREVIEW_LEN else len)"

definition rf_packet_lora_header_available :: "nat \<Rightarrow> bool" where
  "rf_packet_lora_header_available len \<longleftrightarrow> RF_PACKET_LORA_HEADER_LEN \<le> len"

definition RADIO_TX_FSK_SX127X_MAX_PAYLOAD :: nat where
  [c_consts]: "RADIO_TX_FSK_SX127X_MAX_PAYLOAD = 63"

definition radio_tx_payload_limit :: "chip_family \<Rightarrow> radio_mode \<Rightarrow> nat" where
  "radio_tx_payload_limit family mode =
     (if family = SX127X \<and> mode = RADIO_MODE_FSK then RADIO_TX_FSK_SX127X_MAX_PAYLOAD
      else RF_PACKET_MAX_PAYLOAD_LEN)"

lemma radio_tx_payload_limit_bounds:
  "0 < radio_tx_payload_limit f m \<and> radio_tx_payload_limit f m \<le> 255"
  by (simp add: radio_tx_payload_limit_def c_consts)

end
