(* ===== verification/Tx_Executor.thy ===== *)
theory Tx_Executor
  imports Tx_Types
begin

text \<open>
  Execution of one transmit job, \<open>loraham_daemon/daemon_tx_executor.cpp\<close>: the hand-over to the
  sender and the channel-activity wait in front of it. The sender, the CAD probe and the sleep
  are callbacks with a context pointer; they share one world of type \<open>'w\<close>, which the model
  passes through the calls in the order of the code. The wait is a \<open>for (;;)\<close> loop; it is a
  \<open>partial_function\<close>, so \<open>None\<close> means that it never returns.
\<close>

type_synonym 'w send_fn = "bytes \<Rightarrow> int \<Rightarrow> 'w \<Rightarrow> tx_result \<times> 'w"
type_synonym 'w cad_probe_fn = "int \<Rightarrow> 'w \<Rightarrow> int \<times> 'w"
type_synonym 'w sleep_fn = "u32 \<Rightarrow> 'w \<Rightarrow> 'w"

definition DAEMON_TX_CAD_PROBE_UNAVAILABLE :: int where
  [c_consts]: "DAEMON_TX_CAD_PROBE_UNAVAILABLE = -1"
definition DAEMON_TX_CAD_PROBE_FREE :: int where
  [c_consts]: "DAEMON_TX_CAD_PROBE_FREE = 0"
definition DAEMON_TX_CAD_PROBE_BUSY :: int where
  [c_consts]: "DAEMON_TX_CAD_PROBE_BUSY = 1"

definition daemon_tx_execute_job_with_sender ::
  "tx_job ptr \<Rightarrow> 'w send_fn ptr \<Rightarrow> 'w \<Rightarrow> tx_job_result \<times> 'w" where
  "daemon_tx_execute_job_with_sender job send w =
     (case job of
        None \<Rightarrow> (daemon_tx_job_result_init NULL OUTCOME_INVALID_PACKET, w)
      | Some j \<Rightarrow>
          (case send of
             None \<Rightarrow> (daemon_tx_job_result_init job OUTCOME_RADIO_ERROR, w)
           | Some f \<Rightarrow>
               (let (r, w') = f (job_payload j) (job_band j) w
                in ((daemon_tx_job_result_init job (daemon_tx_outcome_from_tx_result r))
                      \<lparr>res_tx_result := r\<rparr>, w'))))"

section \<open>The wait for a free channel\<close>

datatype cad_exit = Cad_Clear | Cad_Timed_Out | Cad_Unavailable

definition cad_nap :: "tx_job \<Rightarrow> 'w sleep_fn ptr \<Rightarrow> 'w \<Rightarrow> 'w" where
  "cad_nap job sleep w =
     (case sleep of
        Some f \<Rightarrow> if 0 < job_cad_poll_interval_usec job then f (job_cad_poll_interval_usec job) w else w
      | None \<Rightarrow> w)"

partial_function (option) daemon_tx_cad_loop ::
  "tx_job \<Rightarrow> 'w cad_probe_fn \<Rightarrow> 'w sleep_fn ptr \<Rightarrow> u32 \<Rightarrow> u32 \<Rightarrow> u32 \<Rightarrow> 'w
     \<Rightarrow> (cad_exit \<times> 'w) option" where
  "daemon_tx_cad_loop job probe sleep need idle elapsed w =
     (let p = probe (job_band job) w;
          cad_state = fst p;
          w1 = snd p;
          idle1 = (if cad_state = DAEMON_TX_CAD_PROBE_FREE then idle + 1 else 0);
          elapsed1 = elapsed + 1
      in if cad_state = DAEMON_TX_CAD_PROBE_FREE \<and> need \<le> idle1 then Some (Cad_Clear, w1)
         else if cad_state \<noteq> DAEMON_TX_CAD_PROBE_FREE \<and> cad_state \<noteq> DAEMON_TX_CAD_PROBE_BUSY
           then Some (Cad_Unavailable, w1)
         else if 0 < job_cad_wait_ticks job \<and> job_cad_wait_ticks job \<le> elapsed1
           then Some (Cad_Timed_Out, w1)
         else daemon_tx_cad_loop job probe sleep need idle1 elapsed1 (cad_nap job sleep w1))"

definition cad_stable_ticks :: "tx_job \<Rightarrow> u32" where
  "cad_stable_ticks job =
     (if job_cad_idle_stable_ticks job = 0 then 1 else job_cad_idle_stable_ticks job)"

definition daemon_tx_execute_job_with_sender_and_cad ::
  "tx_job ptr \<Rightarrow> 'w send_fn ptr \<Rightarrow> 'w cad_probe_fn ptr \<Rightarrow> 'w sleep_fn ptr \<Rightarrow> 'w
     \<Rightarrow> (tx_job_result \<times> 'w) option" where
  "daemon_tx_execute_job_with_sender_and_cad job send probe sleep w =
     (case job of
        None \<Rightarrow> Some (daemon_tx_execute_job_with_sender job send w)
      | Some j \<Rightarrow>
          (case probe of
             None \<Rightarrow> Some (daemon_tx_execute_job_with_sender job send w)
           | Some pr \<Rightarrow>
               if \<not> job_cad_enabled j then Some (daemon_tx_execute_job_with_sender job send w)
               else
                 (case daemon_tx_cad_loop j pr sleep (cad_stable_ticks j) 0 0 w of
                    None \<Rightarrow> None
                  | Some (Cad_Clear, w1) \<Rightarrow> Some (daemon_tx_execute_job_with_sender job send w1)
                  | Some (Cad_Unavailable, w1) \<Rightarrow>
                      Some (daemon_tx_job_result_init job OUTCOME_RADIO_ERROR, w1)
                  | Some (Cad_Timed_Out, w1) \<Rightarrow>
                      if job_cad_send_after_timeout j then
                        Some (daemon_tx_execute_job_with_sender
                                (Some (j\<lparr>job_flags := job_flags j OR FRAMED_DATA_TX_RESULT_FLAG_CAD_TIMEOUT\<rparr>))
                                send w1)
                      else Some (daemon_tx_job_result_init job OUTCOME_CHANNEL_BUSY, w1))))"

section \<open>What the wait decides\<close>

text \<open>
  \<open>cad_world i\<close> is the world before probe \<open>i\<close> of a wait that has not ended, \<open>cad_answer i\<close> what
  that probe says, \<open>free_run i\<close> the number of consecutive FREE answers that end just before
  probe \<open>i\<close>.
\<close>

fun cad_world :: "tx_job \<Rightarrow> 'w cad_probe_fn \<Rightarrow> 'w sleep_fn ptr \<Rightarrow> 'w \<Rightarrow> nat \<Rightarrow> 'w" where
  "cad_world job probe sleep w 0 = w"
| "cad_world job probe sleep w (Suc i) =
     cad_nap job sleep (snd (probe (job_band job) (cad_world job probe sleep w i)))"

definition cad_answer :: "tx_job \<Rightarrow> 'w cad_probe_fn \<Rightarrow> 'w sleep_fn ptr \<Rightarrow> 'w \<Rightarrow> nat \<Rightarrow> int" where
  "cad_answer job probe sleep w i = fst (probe (job_band job) (cad_world job probe sleep w i))"

definition cad_after :: "tx_job \<Rightarrow> 'w cad_probe_fn \<Rightarrow> 'w sleep_fn ptr \<Rightarrow> 'w \<Rightarrow> nat \<Rightarrow> 'w" where
  "cad_after job probe sleep w i = snd (probe (job_band job) (cad_world job probe sleep w i))"

fun free_run :: "(nat \<Rightarrow> int) \<Rightarrow> nat \<Rightarrow> nat" where
  "free_run s 0 = 0"
| "free_run s (Suc i) = (if s i = DAEMON_TX_CAD_PROBE_FREE then Suc (free_run s i) else 0)"

definition cad_undecided :: "nat \<Rightarrow> (nat \<Rightarrow> int) \<Rightarrow> nat \<Rightarrow> bool" where
  "cad_undecided need s i \<longleftrightarrow>
     (s i = DAEMON_TX_CAD_PROBE_FREE \<or> s i = DAEMON_TX_CAD_PROBE_BUSY) \<and>
     free_run s (Suc i) < need"

definition cad_verdict :: "nat \<Rightarrow> (nat \<Rightarrow> int) \<Rightarrow> nat \<Rightarrow> cad_exit" where
  "cad_verdict need s i =
     (if need \<le> free_run s (Suc i) then Cad_Clear
      else if cad_undecided need s i then Cad_Timed_Out else Cad_Unavailable)"

lemma free_run_le: "free_run s i \<le> i"
  by (induction i) auto

lemma free_run_ge_iff:
  "n \<le> free_run s (Suc i) \<longleftrightarrow> n \<le> Suc i \<and> (\<forall>j<n. s (i - j) = DAEMON_TX_CAD_PROBE_FREE)"
proof (induction i arbitrary: n)
  case 0
  then show ?case by (cases n) (auto simp: less_Suc_eq)
next
  case (Suc i)
  show ?case
  proof (cases n)
    case 0
    then show ?thesis by simp
  next
    case n: (Suc m)
    have "(\<forall>j<Suc m. s (Suc i - j) = DAEMON_TX_CAD_PROBE_FREE) \<longleftrightarrow>
      s (Suc i) = DAEMON_TX_CAD_PROBE_FREE \<and> (\<forall>j<m. s (i - j) = DAEMON_TX_CAD_PROBE_FREE)"
      by (simp add: All_less_Suc2)
    with Suc.IH [of m] n show ?thesis by (simp del: free_run.simps add: free_run.simps(2) [of s "Suc i"])
  qed
qed

lemma cad_clear_last_probes_free:
  assumes "cad_verdict n s k = Cad_Clear" and "j < n"
  shows "s (k - j) = DAEMON_TX_CAD_PROBE_FREE"
  using assms free_run_ge_iff [of n s k] by (auto simp: cad_verdict_def split: if_splits)

text \<open>One pass of the loop, over the answers and the worlds.\<close>

lemma cad_loop_step:
  assumes "unat idle = free_run (cad_answer job probe sleep w) i"
    and "unat elapsed = i" and "Suc i < 2 ^ 32" and "0 < need"
  defines "s \<equiv> cad_answer job probe sleep w"
  shows "daemon_tx_cad_loop job probe sleep need idle elapsed (cad_world job probe sleep w i) =
    (if \<not> cad_undecided (unat need) s i \<or>
        (0 < job_cad_wait_ticks job \<and> unat (job_cad_wait_ticks job) \<le> Suc i)
     then Some (cad_verdict (unat need) s i, cad_after job probe sleep w i)
     else daemon_tx_cad_loop job probe sleep need
            (if s i = DAEMON_TX_CAD_PROBE_FREE then idle + 1 else 0) (elapsed + 1)
            (cad_world job probe sleep w (Suc i)))"
proof -
  have "unat idle \<le> i" using assms(1) free_run_le by metis
  with assms(3) have "Suc (unat idle) < 2 ^ 32" by linarith
  then have idle1: "unat (idle + 1) = Suc (unat idle)"
    by (simp add: unat_plus_if_size word_size)
  have elapsed1: "unat (elapsed + 1) = Suc i"
    using assms(2,3) by (simp add: unat_plus_if_size word_size)
  have st: "0 < unat need" using assms(4) by (simp add: unat_gt_0 word_gt_0)
  have le1: "need \<le> idle + 1 \<longleftrightarrow> unat need \<le> Suc (unat idle)"
    by (simp add: word_le_nat_alt idle1)
  have le2: "job_cad_wait_ticks job \<le> elapsed + 1 \<longleftrightarrow> unat (job_cad_wait_ticks job) \<le> Suc i"
    by (simp add: word_le_nat_alt elapsed1)
  have a: "fst (probe (job_band job) (cad_world job probe sleep w i)) = s i"
    by (simp add: s_def cad_answer_def)
  have run: "free_run s i = unat idle"
    using assms(1) by (simp add: s_def)
  show ?thesis
    by (subst daemon_tx_cad_loop.simps)
      (use st in \<open>simp add: Let_def a le1 le2 cad_verdict_def cad_undecided_def run cad_after_def\<close>)
qed

lemma cad_loop_from:
  assumes "unat idle = free_run (cad_answer job probe sleep w) i" and "unat elapsed = i"
    and "0 < need" and "i < unat (job_cad_wait_ticks job)"
  shows "\<exists>k. i \<le> k \<and> k < unat (job_cad_wait_ticks job) \<and>
    (\<forall>j. i \<le> j \<and> j < k \<longrightarrow> cad_undecided (unat need) (cad_answer job probe sleep w) j) \<and>
    (cad_undecided (unat need) (cad_answer job probe sleep w) k \<longrightarrow>
       Suc k = unat (job_cad_wait_ticks job)) \<and>
    daemon_tx_cad_loop job probe sleep need idle elapsed (cad_world job probe sleep w i) =
      Some (cad_verdict (unat need) (cad_answer job probe sleep w) k, cad_after job probe sleep w k)"
  using assms
proof (induction "unat (job_cad_wait_ticks job) - i" arbitrary: i idle elapsed)
  case 0
  then show ?case by simp
next
  case (Suc n)
  let ?s = "cad_answer job probe sleep w"
  let ?W = "unat (job_cad_wait_ticks job)"
  have small: "Suc i < 2 ^ 32" using Suc.prems(4) unat_u32_less [of "job_cad_wait_ticks job"] by simp
  have wait: "0 < job_cad_wait_ticks job" using Suc.prems(4) by (auto simp: word_gt_0)
  note step = cad_loop_step [OF Suc.prems(1,2) small Suc.prems(3)]
  show ?case
  proof (cases "\<not> cad_undecided (unat need) ?s i \<or> ?W \<le> Suc i")
    case True
    then show ?thesis using step Suc.prems(4) wait by (intro exI [of _ i]) auto
  next
    case False
    let ?idle = "if ?s i = DAEMON_TX_CAD_PROBE_FREE then idle + 1 else 0"
    have "unat ?idle = free_run ?s (Suc i)"
      using Suc.prems(1) small free_run_le [of ?s i]
      by (auto simp: unat_plus_if_size word_size)
    moreover have "unat (elapsed + 1) = Suc i"
      using Suc.prems(2) small by (simp add: unat_plus_if_size word_size)
    moreover have "n = ?W - Suc i" using Suc.hyps(2) by simp
    ultimately obtain k where k: "Suc i \<le> k" "k < ?W"
      "\<forall>j. Suc i \<le> j \<and> j < k \<longrightarrow> cad_undecided (unat need) ?s j"
      "cad_undecided (unat need) ?s k \<longrightarrow> Suc k = ?W"
      "daemon_tx_cad_loop job probe sleep need ?idle (elapsed + 1) (cad_world job probe sleep w (Suc i))
        = Some (cad_verdict (unat need) ?s k, cad_after job probe sleep w k)"
      using Suc.hyps(1) [of "Suc i" ?idle "elapsed + 1"] Suc.prems(3) False by auto
    moreover have "\<forall>j. i \<le> j \<and> j < k \<longrightarrow> cad_undecided (unat need) ?s j"
      using k(3) False by (metis Suc_leI le_neq_implies_less)
    ultimately show ?thesis using step False by (intro exI [of _ k]) auto
  qed
qed

lemma cad_stable_ticks_pos: "0 < cad_stable_ticks job"
  by (simp add: cad_stable_ticks_def word_gt_0)

section \<open>Properties of the execution\<close>

text \<open>What the caller gets for each verdict.\<close>

definition cad_consequence ::
  "tx_job \<Rightarrow> 'w send_fn ptr \<Rightarrow> cad_exit \<Rightarrow> 'w \<Rightarrow> tx_job_result \<times> 'w" where
  "cad_consequence job send v w =
     (case v of
        Cad_Clear \<Rightarrow> daemon_tx_execute_job_with_sender (Some job) send w
      | Cad_Unavailable \<Rightarrow> (daemon_tx_job_result_init (Some job) OUTCOME_RADIO_ERROR, w)
      | Cad_Timed_Out \<Rightarrow>
          if job_cad_send_after_timeout job then
            daemon_tx_execute_job_with_sender
              (Some (job\<lparr>job_flags := job_flags job OR FRAMED_DATA_TX_RESULT_FLAG_CAD_TIMEOUT\<rparr>)) send w
          else (daemon_tx_job_result_init (Some job) OUTCOME_CHANNEL_BUSY, w))"

lemma execute_with_cad_loop:
  assumes "job_cad_enabled job"
    and "daemon_tx_cad_loop job probe sleep (cad_stable_ticks job) 0 0 w = Some (v, w1)"
  shows "daemon_tx_execute_job_with_sender_and_cad (Some job) send (Some probe) sleep w =
    Some (cad_consequence job send v w1)"
  using assms
  by (cases v) (simp_all add: daemon_tx_execute_job_with_sender_and_cad_def cad_consequence_def)

lemma gated_job_decides:
  assumes "job_cad_enabled job" and "0 < job_cad_wait_ticks job"
  obtains k where "k < unat (job_cad_wait_ticks job)"
    and "\<forall>j<k. cad_undecided (unat (cad_stable_ticks job)) (cad_answer job probe sleep w) j"
    and "cad_undecided (unat (cad_stable_ticks job)) (cad_answer job probe sleep w) k \<longrightarrow>
       Suc k = unat (job_cad_wait_ticks job)"
    and "daemon_tx_execute_job_with_sender_and_cad (Some job) send (Some probe) sleep w =
      Some (cad_consequence job send
        (cad_verdict (unat (cad_stable_ticks job)) (cad_answer job probe sleep w) k)
        (cad_after job probe sleep w k))"
proof -
  have pos: "0 < unat (job_cad_wait_ticks job)" using assms(2) by (simp add: unat_gt_0 word_gt_0)
  have "\<exists>k<unat (job_cad_wait_ticks job).
      (\<forall>j<k. cad_undecided (unat (cad_stable_ticks job)) (cad_answer job probe sleep w) j) \<and>
      (cad_undecided (unat (cad_stable_ticks job)) (cad_answer job probe sleep w) k \<longrightarrow>
        Suc k = unat (job_cad_wait_ticks job)) \<and>
      daemon_tx_cad_loop job probe sleep (cad_stable_ticks job) 0 0 w =
        Some (cad_verdict (unat (cad_stable_ticks job)) (cad_answer job probe sleep w) k,
          cad_after job probe sleep w k)"
    using cad_loop_from [of 0 job probe sleep w 0 0 "cad_stable_ticks job",
        OF _ _ cad_stable_ticks_pos pos] by simp
  then obtain k where k: "k < unat (job_cad_wait_ticks job)"
      "\<forall>j<k. cad_undecided (unat (cad_stable_ticks job)) (cad_answer job probe sleep w) j"
      "cad_undecided (unat (cad_stable_ticks job)) (cad_answer job probe sleep w) k \<longrightarrow>
        Suc k = unat (job_cad_wait_ticks job)"
    and loop: "daemon_tx_cad_loop job probe sleep (cad_stable_ticks job) 0 0 w =
        Some (cad_verdict (unat (cad_stable_ticks job)) (cad_answer job probe sleep w) k,
          cad_after job probe sleep w k)" by (elim exE conjE)
  show thesis by (rule that [OF k execute_with_cad_loop [OF assms(1) loop]])
qed

text \<open>
  C31: A gated job with a positive wait limit always returns, after at most \<open>cad_wait_ticks\<close>
  probes. It ends at the first probe that decides: the one that completes the required run of
  FREE answers (the job is then sent), or one that reports the radio unavailable (then nothing
  is sent). If the limit passes first, the job is refused as CHANNEL_BUSY, or sent with the
  CAD_TIMEOUT flag when the client opted in.
\<close>

theorem cad_gated_execution:
  assumes "job_cad_enabled job" and "0 < job_cad_wait_ticks job"
  shows "\<exists>k < unat (job_cad_wait_ticks job).
    (\<forall>j<k. cad_undecided (unat (cad_stable_ticks job)) (cad_answer job probe sleep w) j) \<and>
    (cad_undecided (unat (cad_stable_ticks job)) (cad_answer job probe sleep w) k \<longrightarrow>
       Suc k = unat (job_cad_wait_ticks job)) \<and>
    daemon_tx_execute_job_with_sender_and_cad (Some job) send (Some probe) sleep w =
      Some (cad_consequence job send
        (cad_verdict (unat (cad_stable_ticks job)) (cad_answer job probe sleep w) k)
        (cad_after job probe sleep w k))"
proof -
  obtain k where "k < unat (job_cad_wait_ticks job)"
    and "\<forall>j<k. cad_undecided (unat (cad_stable_ticks job)) (cad_answer job probe sleep w) j"
    and "cad_undecided (unat (cad_stable_ticks job)) (cad_answer job probe sleep w) k \<longrightarrow>
       Suc k = unat (job_cad_wait_ticks job)"
    and "daemon_tx_execute_job_with_sender_and_cad (Some job) send (Some probe) sleep w =
      Some (cad_consequence job send
        (cad_verdict (unat (cad_stable_ticks job)) (cad_answer job probe sleep w) k)
        (cad_after job probe sleep w k))"
    by (rule gated_job_decides [OF assms])
  then show ?thesis by (intro exI [of _ k] conjI)
qed

definition sample_gated_job :: tx_job where
  "sample_gated_job = zero_job\<lparr>job_band := 868, job_payload := [1, 2, 3], job_cad_enabled := True,
     job_cad_wait_ticks := 30, job_cad_idle_stable_ticks := 5\<rparr>"

text \<open>A channel busy for four probes and free afterwards; the world counts the probes.\<close>

definition sample_probe :: "nat cad_probe_fn" where
  "sample_probe band n = (if n < 4 then DAEMON_TX_CAD_PROBE_BUSY else DAEMON_TX_CAD_PROBE_FREE, Suc n)"

theorem cad_gated_execution_witness:
  "\<exists>k<30. (\<forall>j<k. cad_undecided 5 (cad_answer sample_gated_job sample_probe None 0) j) \<and>
     (cad_undecided 5 (cad_answer sample_gated_job sample_probe None 0) k \<longrightarrow> Suc k = 30) \<and>
     daemon_tx_execute_job_with_sender_and_cad (Some sample_gated_job) None (Some sample_probe) None 0 =
       Some (cad_consequence sample_gated_job None
         (cad_verdict 5 (cad_answer sample_gated_job sample_probe None 0) k)
         (cad_after sample_gated_job sample_probe None 0 k))"
  using cad_gated_execution [of sample_gated_job sample_probe None 0 None]
  by (simp add: sample_gated_job_def cad_stable_ticks_def)

text \<open>
  On a channel that every probe finds free, a gated job is sent exactly when the required
  number of FREE answers fits into the wait limit, and then after that many probes; with a
  longer requirement (CADIDLE above CADWAIT) even a free channel runs into the timeout.
\<close>

theorem free_channel_sends_iff_idle_fits:
  assumes "job_cad_enabled job" and "0 < job_cad_wait_ticks job"
    and "\<And>v. fst (probe (job_band job) v) = DAEMON_TX_CAD_PROBE_FREE"
  shows "daemon_tx_execute_job_with_sender_and_cad (Some job) send (Some probe) sleep w =
    Some (if cad_stable_ticks job \<le> job_cad_wait_ticks job
          then cad_consequence job send Cad_Clear
                 (cad_after job probe sleep w (unat (cad_stable_ticks job) - 1))
          else cad_consequence job send Cad_Timed_Out
                 (cad_after job probe sleep w (unat (job_cad_wait_ticks job) - 1)))"
proof -
  let ?s = "cad_answer job probe sleep w" and ?n = "unat (cad_stable_ticks job)"
  let ?W = "unat (job_cad_wait_ticks job)"
  have n: "0 < ?n" using cad_stable_ticks_pos [of job] by (simp add: unat_gt_0 word_gt_0)
  have all: "?s i = DAEMON_TX_CAD_PROBE_FREE" for i
    by (simp add: cad_answer_def assms(3))
  then have run: "free_run ?s i = i" for i by (induction i) auto
  then have und: "cad_undecided ?n ?s i \<longleftrightarrow> Suc i < ?n" for i
    by (simp add: cad_undecided_def all del: free_run.simps)
  obtain k where k: "k < ?W" "\<forall>j<k. cad_undecided ?n ?s j"
    "cad_undecided ?n ?s k \<longrightarrow> Suc k = ?W"
    and exec: "daemon_tx_execute_job_with_sender_and_cad (Some job) send (Some probe) sleep w =
      Some (cad_consequence job send (cad_verdict ?n ?s k) (cad_after job probe sleep w k))"
    by (rule gated_job_decides [OF assms(1,2)])
  have before: "\<not> ?n \<le> k"
  proof
    assume "?n \<le> k"
    with n have "?n - 1 < k" by linarith
    with k(2) und have "Suc (?n - 1) < ?n" by blast
    with n show False by linarith
  qed
  show ?thesis
  proof (cases "?n \<le> ?W")
    case True
    then have "\<not> Suc k < ?n" using k(3) und by auto
    with before have "Suc k = ?n" by linarith
    moreover from this have "cad_verdict ?n ?s k = Cad_Clear"
      by (simp add: cad_verdict_def run del: free_run.simps)
    ultimately show ?thesis using True exec by (simp add: word_le_nat_alt flip: \<open>Suc k = ?n\<close>)
  next
    case False
    then have "Suc k < ?n" using k(1) by linarith
    then have "Suc k = ?W" and "cad_verdict ?n ?s k = Cad_Timed_Out"
      using k(3) und run by (auto simp: cad_verdict_def simp del: free_run.simps)
    then show ?thesis using False exec by (simp add: word_le_nat_alt flip: \<open>Suc k = ?W\<close>)
  qed
qed

theorem free_channel_sends_iff_idle_fits_witness:
  "daemon_tx_execute_job_with_sender_and_cad
     (Some (sample_gated_job\<lparr>job_cad_idle_stable_ticks := 31\<rparr>)) None (Some (\<lambda>band n. (0, Suc n))) None 0 =
   Some (daemon_tx_job_result_init (Some (sample_gated_job\<lparr>job_cad_idle_stable_ticks := 31\<rparr>))
     OUTCOME_CHANNEL_BUSY, 30)"
proof -
  let ?job = "sample_gated_job\<lparr>job_cad_idle_stable_ticks := 31\<rparr>"
  let ?probe = "\<lambda>band n. (0 :: int, Suc n)"
  have "cad_world ?job ?probe None 0 i = i" for i
    by (induction i) (simp_all add: cad_nap_def)
  then have "cad_after ?job ?probe None 0 i = Suc i" for i
    by (simp add: cad_after_def)
  then show ?thesis
    using free_channel_sends_iff_idle_fits [of ?job ?probe None None 0]
    by (simp add: sample_gated_job_def zero_job_def cad_stable_ticks_def cad_consequence_def c_consts)
qed

end
