(* ===== verification/Tx_Queue.thy ===== *)
theory Tx_Queue
  imports Fifo Tx_Executor
begin

text \<open>
  The transmit queue (\<open>daemon_tx_queue.cpp\<close>), the worker state around it
  (\<open>daemon_tx_worker.cpp\<close>) and the completion queue (\<open>daemon_tx_completion.cpp\<close>): two rings
  with the same removal and opposite policies when full. The objects are members of the radio
  context and never NULL; the pointers the code receives from outside (\<open>job\<close>, \<open>result\<close>,
  the callbacks) are \<open>ptr\<close>. A result of \<open>-1\<close> is \<open>None\<close>.
\<close>

section \<open>The transmit queue\<close>

definition DAEMON_TX_QUEUE_CAPACITY :: nat where
  [c_consts]: "DAEMON_TX_QUEUE_CAPACITY = 8"

record tx_queue =
  txq_jobs :: "tx_job list"
  txq_head :: nat
  txq_tail :: nat
  txq_count :: nat
  txq_dropped :: nat

definition daemon_tx_queue_init :: tx_queue where
  "daemon_tx_queue_init = \<lparr>txq_jobs = replicate DAEMON_TX_QUEUE_CAPACITY zero_job, txq_head = 0,
     txq_tail = 0, txq_count = 0, txq_dropped = 0\<rparr>"

definition daemon_tx_queue_empty :: "tx_queue \<Rightarrow> bool" where
  "daemon_tx_queue_empty q \<longleftrightarrow> txq_count q = 0"

definition daemon_tx_queue_full :: "tx_queue \<Rightarrow> bool" where
  "daemon_tx_queue_full q \<longleftrightarrow> DAEMON_TX_QUEUE_CAPACITY \<le> txq_count q"

definition daemon_tx_queue_push :: "tx_queue \<Rightarrow> tx_job ptr \<Rightarrow> tx_queue option" where
  "daemon_tx_queue_push q job =
     (case job of
        None \<Rightarrow> None
      | Some j \<Rightarrow>
          if daemon_tx_queue_full q then None
          else Some (q\<lparr>txq_jobs := (txq_jobs q)[txq_tail q := j],
                       txq_tail := (txq_tail q + 1) mod DAEMON_TX_QUEUE_CAPACITY,
                       txq_count := txq_count q + 1\<rparr>))"

definition daemon_tx_queue_pop :: "tx_queue \<Rightarrow> (tx_job \<times> tx_queue) option" where
  "daemon_tx_queue_pop q =
     (if txq_count q = 0 then None
      else Some (txq_jobs q ! txq_head q,
                 q\<lparr>txq_head := (txq_head q + 1) mod DAEMON_TX_QUEUE_CAPACITY,
                   txq_count := txq_count q - 1\<rparr>))"

definition daemon_tx_queue_discard_all :: "tx_queue \<Rightarrow> nat \<times> tx_queue" where
  "daemon_tx_queue_discard_all q =
     (let discarded = txq_count q
      in (discarded, q\<lparr>txq_jobs := replicate DAEMON_TX_QUEUE_CAPACITY zero_job, txq_head := 0,
            txq_tail := 0, txq_count := 0, txq_dropped := txq_dropped q + discarded\<rparr>))"

text \<open>
  The synchronous drain runs each job through the sender and hands the result to the callback;
  \<open>max_jobs = 0\<close> means no limit.
\<close>

function daemon_tx_queue_drain_loop ::
  "tx_queue \<Rightarrow> 'w send_fn ptr \<Rightarrow> (tx_job_result \<Rightarrow> 'w \<Rightarrow> 'w) ptr \<Rightarrow> nat \<Rightarrow> nat \<Rightarrow> 'w
     \<Rightarrow> nat \<times> tx_queue \<times> 'w" where
  "daemon_tx_queue_drain_loop q send result_fn max_jobs processed w =
     (if 0 < txq_count q \<and> (max_jobs = 0 \<or> processed < max_jobs) then
        (case daemon_tx_queue_pop q of
           None \<Rightarrow> (processed, q, w)
         | Some (job, q1) \<Rightarrow>
             (let (result, w1) = daemon_tx_execute_job_with_sender (Some job) send w;
                  w2 = (case result_fn of None \<Rightarrow> w1 | Some f \<Rightarrow> f result w1)
              in daemon_tx_queue_drain_loop q1 send result_fn max_jobs (processed + 1) w2))
      else (processed, q, w))"
  by pat_completeness auto
termination
  by (relation "measure (\<lambda>(q, _). txq_count q)")
    (auto simp: daemon_tx_queue_pop_def split: if_splits)

declare daemon_tx_queue_drain_loop.simps [simp del]

definition daemon_tx_queue_drain ::
  "tx_queue \<Rightarrow> 'w send_fn ptr \<Rightarrow> (tx_job_result \<Rightarrow> 'w \<Rightarrow> 'w) ptr \<Rightarrow> nat \<Rightarrow> 'w
     \<Rightarrow> nat \<times> tx_queue \<times> 'w" where
  "daemon_tx_queue_drain q send result_fn max_jobs w =
     daemon_tx_queue_drain_loop q send result_fn max_jobs 0 w"

section \<open>The ring as a queue of jobs\<close>

definition txq_items :: "tx_queue \<Rightarrow> tx_job list" where
  "txq_items q = ring_items (txq_jobs q) DAEMON_TX_QUEUE_CAPACITY (txq_head q) (txq_count q)"

definition txq_wf :: "tx_queue \<Rightarrow> bool" where
  "txq_wf q \<longleftrightarrow> length (txq_jobs q) = DAEMON_TX_QUEUE_CAPACITY \<and>
     txq_count q \<le> DAEMON_TX_QUEUE_CAPACITY \<and> txq_head q < DAEMON_TX_QUEUE_CAPACITY \<and>
     txq_tail q = (txq_head q + txq_count q) mod DAEMON_TX_QUEUE_CAPACITY"

lemma length_txq_items [simp]: "length (txq_items q) = txq_count q"
  by (simp add: txq_items_def)

lemma txq_init_wf [wf_intros, simp]: "txq_wf daemon_tx_queue_init"
  by (simp add: txq_wf_def daemon_tx_queue_init_def c_consts)

lemma txq_items_init [simp]: "txq_items daemon_tx_queue_init = []"
  by (simp add: txq_items_def daemon_tx_queue_init_def)

lemma txq_push_full: "txq_count q = DAEMON_TX_QUEUE_CAPACITY \<Longrightarrow> daemon_tx_queue_push q job = None"
  by (simp add: daemon_tx_queue_push_def daemon_tx_queue_full_def split: option.splits)

lemma txq_push_room:
  assumes "txq_wf q" and "txq_count q < DAEMON_TX_QUEUE_CAPACITY"
  shows "\<exists>q'. daemon_tx_queue_push q (Some j) = Some q' \<and> txq_items q' = txq_items q @ [j] \<and>
    txq_wf q' \<and> txq_dropped q' = txq_dropped q"
  using assms ring_items_push [of "txq_count q" DAEMON_TX_QUEUE_CAPACITY "txq_jobs q" "txq_head q" j]
  by (simp add: daemon_tx_queue_push_def daemon_tx_queue_full_def txq_items_def txq_wf_def
      mod_Suc_eq)

lemma txq_pop_first:
  assumes "txq_wf q" and "txq_items q = x # xs"
  shows "\<exists>q'. daemon_tx_queue_pop q = Some (x, q') \<and> txq_items q' = xs \<and> txq_wf q'"
proof -
  obtain n where n: "txq_count q = Suc n"
    using assms(2) length_txq_items [of q] by (cases "txq_count q") auto
  have "(Suc (txq_head q) mod 8 + n) mod 8 = Suc (txq_head q + n) mod 8"
    by (simp add: mod_add_left_eq)
  then show ?thesis
    using assms n ring_items_pop [of "txq_jobs q" DAEMON_TX_QUEUE_CAPACITY "txq_head q" n]
    by (simp add: daemon_tx_queue_pop_def txq_items_def txq_wf_def c_consts)
qed

interpretation txq: refusing_fifo txq_items txq_wf DAEMON_TX_QUEUE_CAPACITY daemon_tx_queue_pop
    "\<lambda>j q. daemon_tx_queue_push q (Some j)"
proof unfold_locales
  show "length (txq_items q) \<le> DAEMON_TX_QUEUE_CAPACITY" if "txq_wf q" for q
    using that by (simp add: txq_wf_def)
  show "daemon_tx_queue_pop q = None" if "txq_items q = []" for q
    using that length_txq_items [of q] by (simp add: daemon_tx_queue_pop_def)
  show "\<exists>q'. daemon_tx_queue_pop q = Some (x, q') \<and> txq_items q' = xs \<and> txq_wf q'"
    if "txq_wf q" and "txq_items q = x # xs" for q x xs
    by (rule txq_pop_first [OF that])
  show "daemon_tx_queue_push q (Some x) = None"
    if "length (txq_items q) = DAEMON_TX_QUEUE_CAPACITY" for q x
    using that by (simp add: txq_push_full)
  show "\<exists>q'. daemon_tx_queue_push q (Some x) = Some q' \<and> txq_items q' = txq_items q @ [x] \<and> txq_wf q'"
    if "txq_wf q" and "length (txq_items q) < DAEMON_TX_QUEUE_CAPACITY" for q x
    using txq_push_room [of q x] that by auto
qed

lemma txq_discard_all [simp]:
  "fst (daemon_tx_queue_discard_all q) = txq_count q"
  "txq_wf q \<Longrightarrow> txq_wf (snd (daemon_tx_queue_discard_all q))"
  "txq_items (snd (daemon_tx_queue_discard_all q)) = []"
  "txq_dropped (snd (daemon_tx_queue_discard_all q)) = txq_dropped q + txq_count q"
  by (simp_all add: daemon_tx_queue_discard_all_def Let_def txq_wf_def txq_items_def c_consts)

text \<open>
  C29: For any interleaving of submissions and removals the transmit queue is a FIFO that loses
  nothing: the jobs it accepted, after those already queued, are exactly the jobs taken out so
  far, in submission order, followed by the jobs still queued.
\<close>

theorem tx_queue_conserves_jobs:
  assumes "txq_wf q"
    and "fifo_run (\<lambda>j q. daemon_tx_queue_push q (Some j)) daemon_tx_queue_pop ops q = (accepted, out, r)"
  shows "txq_items q @ accepted = out @ txq_items r \<and> txq_wf r"
  using txq.run_conserves [OF assms] by simp

theorem tx_queue_conserves_jobs_witness:
  "case fifo_run (\<lambda>j q. daemon_tx_queue_push q (Some j)) daemon_tx_queue_pop
       [Push zero_job, Push (zero_job\<lparr>job_band := 433\<rparr>), Pop] daemon_tx_queue_init
   of (acc, out, r) \<Rightarrow> acc = out @ txq_items r \<and> txq_wf r"
proof -
  obtain acc out r where e: "fifo_run (\<lambda>j q. daemon_tx_queue_push q (Some j)) daemon_tx_queue_pop
       [Push zero_job, Push (zero_job\<lparr>job_band := 433\<rparr>), Pop] daemon_tx_queue_init = (acc, out, r)"
    by (rule prod_cases3)
  show ?thesis unfolding e using tx_queue_conserves_jobs [OF txq_init_wf e] by simp
qed

section \<open>The drain\<close>

text \<open>The reference: a fold over the first jobs of the queue.\<close>

fun run_jobs ::
  "tx_job list \<Rightarrow> 'w send_fn ptr \<Rightarrow> (tx_job_result \<Rightarrow> 'w \<Rightarrow> 'w) ptr \<Rightarrow> 'w \<Rightarrow> 'w" where
  "run_jobs [] send result_fn w = w"
| "run_jobs (j # js) send result_fn w =
     (let (result, w1) = daemon_tx_execute_job_with_sender (Some j) send w
      in run_jobs js send result_fn (case result_fn of None \<Rightarrow> w1 | Some f \<Rightarrow> f result w1))"

lemma drain_loop_runs_jobs:
  assumes "txq_wf q" and "max_jobs = 0 \<or> p \<le> max_jobs"
    and "n = (if max_jobs = 0 then txq_count q else min (max_jobs - p) (txq_count q))"
  shows "\<exists>q'. daemon_tx_queue_drain_loop q send result_fn max_jobs p w =
      (p + n, q', run_jobs (take n (txq_items q)) send result_fn w) \<and>
      txq_items q' = drop n (txq_items q) \<and> txq_wf q'"
  using assms
proof (induction q send result_fn max_jobs p w arbitrary: n rule: daemon_tx_queue_drain_loop.induct)
  case (1 q send result_fn max_jobs p w)
  show ?case
  proof (cases "0 < txq_count q \<and> (max_jobs = 0 \<or> p < max_jobs)")
    case False
    then have "n = 0" using "1.prems" by auto
    with False "1.prems"(1) show ?thesis by (subst daemon_tx_queue_drain_loop.simps) auto
  next
    case True
    then obtain j js where items: "txq_items q = j # js"
      using length_txq_items [of q] by (cases "txq_items q") auto
    with txq_pop_first [OF "1.prems"(1)] obtain q1 where
      q1: "daemon_tx_queue_pop q = Some (j, q1)" "txq_items q1 = js" "txq_wf q1" by blast
    obtain result w1 where ex: "daemon_tx_execute_job_with_sender (Some j) send w = (result, w1)"
      by force
    have count: "txq_count q = Suc (txq_count q1)"
      using items q1(2) by (metis length_Cons length_txq_items)
    define m where "m = (if max_jobs = 0 then txq_count q1 else min (max_jobs - Suc p) (txq_count q1))"
    have "max_jobs \<noteq> 0 \<Longrightarrow> max_jobs - p = Suc (max_jobs - Suc p)"
      using True by (simp add: Suc_diff_Suc)
    then have m: "n = Suc m"
      using "1.prems"(3) count by (simp add: m_def)
    define w2 where "w2 = (case result_fn of None \<Rightarrow> w1 | Some f \<Rightarrow> f result w1)"
    from "1.IH" [OF True q1(1) refl ex [symmetric] refl w2_def q1(3) _ m_def [unfolded Suc_eq_plus1]] True
    show ?thesis
      using True q1(1) ex items q1(2) m
      by (subst daemon_tx_queue_drain_loop.simps) (auto simp: w2_def)
  qed
qed

text \<open>
  The synchronous drain executes the first jobs of the queue in order, each exactly once with
  its result handed on, as many as the limit allows (all of them for limit 0), and leaves the
  others queued.
\<close>

theorem tx_queue_drain_runs_in_order:
  fixes q :: tx_queue and max_jobs :: nat
  assumes "txq_wf q"
  defines "n \<equiv> if max_jobs = 0 then txq_count q else min max_jobs (txq_count q)"
  shows "\<exists>q'. daemon_tx_queue_drain q send result_fn max_jobs w =
      (n, q', run_jobs (take n (txq_items q)) send result_fn w) \<and>
      txq_items q' = drop n (txq_items q) \<and> txq_wf q'"
proof -
  have "n = (if max_jobs = 0 then txq_count q else min (max_jobs - 0) (txq_count q))"
    by (simp add: n_def)
  from drain_loop_runs_jobs [OF assms(1) _ this] show ?thesis
    by (simp add: daemon_tx_queue_drain_def)
qed

theorem tx_queue_drain_runs_in_order_witness:
  "\<exists>q'. daemon_tx_queue_drain daemon_tx_queue_init None (Some (\<lambda>r n. Suc n)) 0 (0::nat) = (0, q', 0)"
  using tx_queue_drain_runs_in_order [OF txq_init_wf, where max_jobs = 0 and send = None
      and result_fn = "Some (\<lambda>r n. Suc n)" and w = "0::nat"]
  by (auto simp: daemon_tx_queue_init_def)

section \<open>The worker\<close>

record tx_worker =
  wk_queue :: tx_queue
  wk_accepted :: nat
  wk_rejected :: nat
  wk_processed :: nat
  wk_last_result :: "tx_job_result option"

text \<open>\<open>wk_last_result\<close> is \<open>last_result\<close> guarded by \<open>has_last_result\<close>.\<close>

definition daemon_tx_worker_init :: tx_worker where
  "daemon_tx_worker_init = \<lparr>wk_queue = daemon_tx_queue_init, wk_accepted = 0, wk_rejected = 0,
     wk_processed = 0, wk_last_result = None\<rparr>"

definition daemon_tx_worker_pending :: "tx_worker \<Rightarrow> nat" where
  "daemon_tx_worker_pending wk = txq_count (wk_queue wk)"

definition daemon_tx_worker_dropped :: "tx_worker \<Rightarrow> nat" where
  "daemon_tx_worker_dropped wk = txq_dropped (wk_queue wk)"

definition daemon_tx_worker_submit :: "tx_worker \<Rightarrow> tx_job ptr \<Rightarrow> bool \<times> tx_worker" where
  "daemon_tx_worker_submit wk job =
     (case daemon_tx_queue_push (wk_queue wk) job of
        Some q' \<Rightarrow> (True, wk\<lparr>wk_queue := q', wk_accepted := wk_accepted wk + 1\<rparr>)
      | None \<Rightarrow> (False, wk\<lparr>wk_rejected := wk_rejected wk + 1\<rparr>))"

definition daemon_tx_worker_record_result ::
  "tx_job_result \<Rightarrow> (tx_job_result \<Rightarrow> 'w \<Rightarrow> 'w) ptr \<Rightarrow> tx_worker \<times> 'w \<Rightarrow> tx_worker \<times> 'w" where
  "daemon_tx_worker_record_result result result_fn s =
     (let wk = fst s; w = snd s
      in (wk\<lparr>wk_last_result := Some result, wk_processed := wk_processed wk + 1\<rparr>,
          case result_fn of None \<Rightarrow> w | Some f \<Rightarrow> f result w))"

definition daemon_tx_worker_drain ::
  "tx_worker \<Rightarrow> 'w send_fn ptr \<Rightarrow> (tx_job_result \<Rightarrow> 'w \<Rightarrow> 'w) ptr \<Rightarrow> nat \<Rightarrow> 'w
     \<Rightarrow> nat \<times> tx_worker \<times> 'w" where
  "daemon_tx_worker_drain wk send result_fn max_jobs w =
     (let send_on_pair = (case send of None \<Rightarrow> None
            | Some f \<Rightarrow> Some (\<lambda>payload band (s :: tx_worker \<times> 'w).
                (let (r, w') = f payload band (snd s) in (r, (fst s, w')))));
          (n, q, wk1, w1) = daemon_tx_queue_drain (wk_queue wk) send_on_pair
            (Some (\<lambda>r s. daemon_tx_worker_record_result r result_fn s)) max_jobs (wk, w)
      in (n, wk1\<lparr>wk_queue := q\<rparr>, w1))"

definition wk_wf :: "tx_worker \<Rightarrow> bool" where
  "wk_wf wk \<longleftrightarrow> txq_wf (wk_queue wk)"

lemma wk_init_wf [wf_intros]: "wk_wf daemon_tx_worker_init"
  by (simp add: wk_wf_def daemon_tx_worker_init_def)

lemma wk_submit_wf: "wk_wf wk \<Longrightarrow> wk_wf (snd (daemon_tx_worker_submit wk (Some j)))"
  using txq.push_SomeD [of "wk_queue wk" j]
  by (auto simp: wk_wf_def daemon_tx_worker_submit_def split: option.splits)

section \<open>The completion queue\<close>

definition DAEMON_TX_COMPLETION_QUEUE_CAPACITY :: nat where
  [c_consts]: "DAEMON_TX_COMPLETION_QUEUE_CAPACITY = 16"

record completion_queue =
  cq_entries :: "tx_job_result list"
  cq_head :: nat
  cq_count :: nat
  cq_dropped :: nat

definition daemon_tx_completion_queue_init :: "completion_queue \<Rightarrow> completion_queue" where
  "daemon_tx_completion_queue_init q = q\<lparr>cq_head := 0, cq_count := 0, cq_dropped := 0\<rparr>"

definition daemon_tx_completion_queue_pending :: "completion_queue \<Rightarrow> nat" where
  "daemon_tx_completion_queue_pending q = cq_count q"

definition daemon_tx_completion_queue_dropped :: "completion_queue \<Rightarrow> nat" where
  "daemon_tx_completion_queue_dropped q = cq_dropped q"

definition daemon_tx_completion_queue_push ::
  "completion_queue \<Rightarrow> tx_job_result ptr \<Rightarrow> completion_queue option" where
  "daemon_tx_completion_queue_push q result =
     (case result of
        None \<Rightarrow> None
      | Some r \<Rightarrow>
          (let q1 = (if DAEMON_TX_COMPLETION_QUEUE_CAPACITY \<le> cq_count q
                     then q\<lparr>cq_head := (cq_head q + 1) mod DAEMON_TX_COMPLETION_QUEUE_CAPACITY,
                            cq_count := cq_count q - 1, cq_dropped := cq_dropped q + 1\<rparr>
                     else q);
               idx = (cq_head q1 + cq_count q1) mod DAEMON_TX_COMPLETION_QUEUE_CAPACITY
           in Some (q1\<lparr>cq_entries := (cq_entries q1)[idx := r], cq_count := cq_count q1 + 1\<rparr>)))"

definition daemon_tx_completion_queue_pop ::
  "completion_queue \<Rightarrow> (tx_job_result \<times> completion_queue) option" where
  "daemon_tx_completion_queue_pop q =
     (if cq_count q = 0 then None
      else Some (cq_entries q ! cq_head q,
                 q\<lparr>cq_head := (cq_head q + 1) mod DAEMON_TX_COMPLETION_QUEUE_CAPACITY,
                   cq_count := cq_count q - 1\<rparr>))"

definition cq_items :: "completion_queue \<Rightarrow> tx_job_result list" where
  "cq_items q = ring_items (cq_entries q) DAEMON_TX_COMPLETION_QUEUE_CAPACITY (cq_head q) (cq_count q)"

definition cq_wf :: "completion_queue \<Rightarrow> bool" where
  "cq_wf q \<longleftrightarrow> length (cq_entries q) = DAEMON_TX_COMPLETION_QUEUE_CAPACITY \<and>
     cq_count q \<le> DAEMON_TX_COMPLETION_QUEUE_CAPACITY \<and> cq_head q < DAEMON_TX_COMPLETION_QUEUE_CAPACITY"

definition completion_put :: "tx_job_result \<Rightarrow> completion_queue \<Rightarrow> completion_queue" where
  "completion_put r q = (case daemon_tx_completion_queue_push q (Some r) of Some q' \<Rightarrow> q' | None \<Rightarrow> q)"

lemma length_cq_items [simp]: "length (cq_items q) = cq_count q"
  by (simp add: cq_items_def)

lemma cq_init_wf [wf_intros]: "cq_wf q \<Longrightarrow> cq_wf (daemon_tx_completion_queue_init q)"
  by (simp add: cq_wf_def daemon_tx_completion_queue_init_def c_consts)

lemma cq_items_init [simp]: "cq_items (daemon_tx_completion_queue_init q) = []"
  by (simp add: cq_items_def daemon_tx_completion_queue_init_def)

lemma cq_pop_first:
  assumes "cq_wf q" and "cq_items q = x # xs"
  shows "\<exists>q'. daemon_tx_completion_queue_pop q = Some (x, q') \<and> cq_items q' = xs \<and> cq_wf q'"
proof -
  obtain n where n: "cq_count q = Suc n"
    using assms(2) length_cq_items [of q] by (cases "cq_count q") auto
  then show ?thesis
    using assms ring_items_pop [of "cq_entries q" DAEMON_TX_COMPLETION_QUEUE_CAPACITY "cq_head q" n]
    by (simp add: daemon_tx_completion_queue_pop_def cq_items_def cq_wf_def c_consts)
qed

lemma completion_put_room:
  assumes "cq_wf q" and "cq_count q < DAEMON_TX_COMPLETION_QUEUE_CAPACITY"
  shows "cq_items (completion_put r q) = cq_items q @ [r] \<and> cq_wf (completion_put r q) \<and>
    cq_dropped (completion_put r q) = cq_dropped q"
  using assms ring_items_push
    [of "cq_count q" DAEMON_TX_COMPLETION_QUEUE_CAPACITY "cq_entries q" "cq_head q" r]
  by (simp add: completion_put_def daemon_tx_completion_queue_push_def cq_items_def cq_wf_def)

lemma completion_put_full:
  assumes "cq_wf q" and "cq_count q = DAEMON_TX_COMPLETION_QUEUE_CAPACITY"
  shows "cq_items (completion_put r q) = tl (cq_items q) @ [r] \<and> cq_wf (completion_put r q) \<and>
    cq_dropped (completion_put r q) = Suc (cq_dropped q)"
proof -
  let ?q1 = "q\<lparr>cq_head := (cq_head q + 1) mod DAEMON_TX_COMPLETION_QUEUE_CAPACITY,
               cq_count := cq_count q - 1, cq_dropped := cq_dropped q + 1\<rparr>"
  have "cq_wf ?q1" "cq_count ?q1 < DAEMON_TX_COMPLETION_QUEUE_CAPACITY"
    using assms by (simp_all add: cq_wf_def c_consts)
  from completion_put_room [OF this, of r]
  have "cq_items (completion_put r ?q1) = cq_items ?q1 @ [r] \<and> cq_wf (completion_put r ?q1) \<and>
    cq_dropped (completion_put r ?q1) = Suc (cq_dropped q)" by simp
  moreover have "completion_put r q = completion_put r ?q1"
    using assms by (simp add: completion_put_def daemon_tx_completion_queue_push_def c_consts)
  moreover have "cq_items ?q1 = tl (cq_items q)"
    using assms(2) ring_items_pop [of "cq_entries q" 16 "cq_head q" 15]
    by (simp add: cq_items_def c_consts)
  ultimately show ?thesis by simp
qed

interpretation cq: evicting_fifo cq_items cq_wf DAEMON_TX_COMPLETION_QUEUE_CAPACITY
    daemon_tx_completion_queue_pop completion_put cq_dropped
proof unfold_locales
  show "length (cq_items q) \<le> DAEMON_TX_COMPLETION_QUEUE_CAPACITY" if "cq_wf q" for q
    using that by (simp add: cq_wf_def)
  show "daemon_tx_completion_queue_pop q = None" if "cq_items q = []" for q
    using that length_cq_items [of q] by (simp add: daemon_tx_completion_queue_pop_def)
  show "\<exists>q'. daemon_tx_completion_queue_pop q = Some (x, q') \<and> cq_items q' = xs \<and> cq_wf q'"
    if "cq_wf q" and "cq_items q = x # xs" for q x xs
    by (rule cq_pop_first [OF that])
  show "cq_wf (completion_put x q)" if "cq_wf q" for q x
    using that completion_put_room [of q x] completion_put_full [of q x]
    by (cases "cq_count q < DAEMON_TX_COMPLETION_QUEUE_CAPACITY") (auto simp: cq_wf_def)
  show "cq_items (completion_put x q) =
      (if length (cq_items q) = DAEMON_TX_COMPLETION_QUEUE_CAPACITY then tl (cq_items q) else cq_items q) @ [x]"
    if "cq_wf q" for q x
    using that completion_put_room [of q x] completion_put_full [of q x]
    by (cases "cq_count q < DAEMON_TX_COMPLETION_QUEUE_CAPACITY") (auto simp: cq_wf_def)
  show "cq_dropped (completion_put x q) =
      (if length (cq_items q) = DAEMON_TX_COMPLETION_QUEUE_CAPACITY then Suc (cq_dropped q) else cq_dropped q)"
    if "cq_wf q" for q x
    using that completion_put_room [of q x] completion_put_full [of q x]
    by (cases "cq_count q < DAEMON_TX_COMPLETION_QUEUE_CAPACITY") (auto simp: cq_wf_def)
  show "0 < DAEMON_TX_COMPLETION_QUEUE_CAPACITY" by (simp add: c_consts)
qed

text \<open>
  After any number of completions nobody fetched, the completion queue holds exactly the
  newest sixteen in their order, and its dropped counter has grown by the number of older ones
  it evicted; none is lost without being counted.
\<close>

theorem completion_queue_keeps_newest:
  assumes "cq_wf q" and "cq_items q = []"
  shows "cq_items (fold completion_put rs q) = drop (length rs - 16) rs \<and>
    daemon_tx_completion_queue_dropped (fold completion_put rs q) =
      daemon_tx_completion_queue_dropped q + (length rs - 16)"
  using cq.pushes_keep_newest [OF assms(1), of rs] cq.pushes_dropped [OF assms(1), of rs] assms(2)
  by (simp add: daemon_tx_completion_queue_dropped_def DAEMON_TX_COMPLETION_QUEUE_CAPACITY_def)

theorem completion_queue_keeps_newest_witness:
  "cq_items (fold completion_put (replicate 20 (daemon_tx_job_result_init NULL OUTCOME_OK))
     \<lparr>cq_entries = replicate 16 (daemon_tx_job_result_init NULL OUTCOME_BUSY),
      cq_head = 3, cq_count = 0, cq_dropped = 7\<rparr>) =
   replicate 16 (daemon_tx_job_result_init NULL OUTCOME_OK)"
  using completion_queue_keeps_newest
    [of "\<lparr>cq_entries = replicate 16 (daemon_tx_job_result_init NULL OUTCOME_BUSY),
      cq_head = 3, cq_count = 0, cq_dropped = 7\<rparr>"
      "replicate 20 (daemon_tx_job_result_init NULL OUTCOME_OK)"]
  by (simp add: cq_wf_def c_consts cq_items_def ring_items_def)

end
