(* ===== verification/C_Text.thy ===== *)
theory C_Text
  imports Prelude
begin

text \<open>
  What the sources use of the C library's text output: decimal conversion (\<open>%d\<close>, \<open>%u\<close>,
  \<open>%ld\<close>, \<open>%lu\<close>) and the bounded \<open>snprintf\<close>. A C string is a list of non-NUL characters; a
  line break is \<open>newline\<close>.
\<close>

definition newline :: string where
  "newline = [CHR 0x0A]"

definition dec_digit :: "nat \<Rightarrow> char" where
  "dec_digit d = char_of (48 + d)"

fun nat_dec :: "nat \<Rightarrow> string" where
  "nat_dec n = (if n < 10 then [dec_digit n] else nat_dec (n div 10) @ [dec_digit (n mod 10)])"

declare nat_dec.simps [simp del]

definition int_dec :: "int \<Rightarrow> string" where
  "int_dec i = (if i < 0 then CHR ''-'' # nat_dec (nat (- i)) else nat_dec (nat i))"

text \<open>The bytes \<open>snprintf (buf, size, ...)\<close> leaves in \<open>buf\<close> before the terminating NUL.\<close>

definition snprintf_text :: "nat \<Rightarrow> string \<Rightarrow> string" where
  "snprintf_text cap s = take (cap - 1) s"

lemma length_nat_dec: "n < 10 ^ k \<Longrightarrow> 0 < k \<Longrightarrow> length (nat_dec n) \<le> k"
proof (induction k arbitrary: n)
  case 0
  then show ?case by simp
next
  case (Suc k)
  show ?case
  proof (cases "n < 10")
    case True
    then show ?thesis by (simp add: nat_dec.simps)
  next
    case False
    have "0 < k" using False Suc.prems(1) by (cases k) auto
    moreover have "n div 10 < 10 ^ k" using Suc.prems(1) by (simp add: less_mult_imp_div_less mult.commute)
    ultimately have "length (nat_dec (n div 10)) \<le> k" by (rule Suc.IH [rotated])
    with False show ?thesis by (subst nat_dec.simps) simp
  qed
qed

lemma length_nat_dec_u64: "n < 2 ^ 64 \<Longrightarrow> length (nat_dec n) \<le> 20"
  by (rule length_nat_dec) simp_all

lemma length_int_dec_s64: "- (2 ^ 63) \<le> i \<Longrightarrow> i < 2 ^ 63 \<Longrightarrow> length (int_dec i) \<le> 20"
  using length_nat_dec [of "nat (- i)" 19] length_nat_dec [of "nat i" 19]
  by (auto simp: int_dec_def nat_less_iff)

lemma nat_dec_not_Nil [simp]: "nat_dec n \<noteq> []"
  by (subst nat_dec.simps) simp

lemma snprintf_text_fits: "length s < cap \<Longrightarrow> snprintf_text cap s = s"
  by (simp add: snprintf_text_def)

lemma length_snprintf_text: "0 < cap \<Longrightarrow> length (snprintf_text cap s) < cap"
  by (simp add: snprintf_text_def)

end
