(* ===== verification/Stats.thy ===== *)
theory Stats
  imports C_Text Tx_Types
begin

text \<open>
  Runtime statistics, \<open>loraham_daemon/daemon_stats.cpp\<close>. Each operation runs under one mutex and
  is one atomic step. The \<open>unsigned long\<close> counters count events one at a time and are \<open>nat\<close>;
  the response is proved complete for every 64-bit value.
\<close>

record radio_stats =
  st_rx_packets :: nat
  st_rx_bytes :: nat
  st_rx_drops :: nat
  st_tx_ok :: nat
  st_tx_errors :: nat
  st_tx_busy :: nat
  st_cad_timeouts :: nat
  st_cad_timeout_sends :: nat
  st_rx_rearm_failures :: nat

definition daemon_radio_stats_init :: radio_stats where
  "daemon_radio_stats_init = \<lparr>st_rx_packets = 0, st_rx_bytes = 0, st_rx_drops = 0, st_tx_ok = 0,
     st_tx_errors = 0, st_tx_busy = 0, st_cad_timeouts = 0, st_cad_timeout_sends = 0,
     st_rx_rearm_failures = 0\<rparr>"

definition daemon_radio_stats_record_rx :: "nat \<Rightarrow> radio_stats \<Rightarrow> radio_stats" where
  "daemon_radio_stats_record_rx bytes st =
     st\<lparr>st_rx_packets := st_rx_packets st + 1, st_rx_bytes := st_rx_bytes st + bytes\<rparr>"

definition daemon_radio_stats_record_rx_drop :: "radio_stats \<Rightarrow> radio_stats" where
  "daemon_radio_stats_record_rx_drop st = st\<lparr>st_rx_drops := st_rx_drops st + 1\<rparr>"

fun daemon_radio_stats_record_tx_result :: "tx_result \<Rightarrow> radio_stats \<Rightarrow> radio_stats" where
  "daemon_radio_stats_record_tx_result TX_RESULT_OK st = st\<lparr>st_tx_ok := st_tx_ok st + 1\<rparr>"
| "daemon_radio_stats_record_tx_result TX_RESULT_BUSY st = st\<lparr>st_tx_busy := st_tx_busy st + 1\<rparr>"
| "daemon_radio_stats_record_tx_result TX_RESULT_CAD_TIMEOUT st =
     st\<lparr>st_cad_timeouts := st_cad_timeouts st + 1\<rparr>"
| "daemon_radio_stats_record_tx_result _ st = st\<lparr>st_tx_errors := st_tx_errors st + 1\<rparr>"

definition daemon_radio_stats_record_cad_timeout :: "radio_stats \<Rightarrow> radio_stats" where
  "daemon_radio_stats_record_cad_timeout st = st\<lparr>st_cad_timeouts := st_cad_timeouts st + 1\<rparr>"

definition daemon_radio_stats_record_cad_timeout_send :: "radio_stats \<Rightarrow> radio_stats" where
  "daemon_radio_stats_record_cad_timeout_send st =
     st\<lparr>st_cad_timeout_sends := st_cad_timeout_sends st + 1\<rparr>"

definition daemon_radio_stats_record_rx_rearm_failure :: "radio_stats \<Rightarrow> radio_stats" where
  "daemon_radio_stats_record_rx_rearm_failure st =
     st\<lparr>st_rx_rearm_failures := st_rx_rearm_failures st + 1\<rparr>"

text \<open>\<open>g_stats_start_ms\<close> is the argument \<open>start_ms\<close>.\<close>

definition daemon_stats_uptime_seconds :: "int \<Rightarrow> int \<Rightarrow> int" where
  "daemon_stats_uptime_seconds start_ms now_ms =
     (if start_ms \<le> 0 \<or> now_ms < start_ms then 0 else (now_ms - start_ms) div 1000)"

definition stats_fields_text :: "int \<Rightarrow> radio_health \<Rightarrow> radio_stats \<Rightarrow> string" where
  "stats_fields_text uptime health st =
     ''UPTIME='' @ int_dec uptime @ '' RADIO='' @ radio_health_name health @
     '' RX='' @ nat_dec (st_rx_packets st) @ '' RXBYTES='' @ nat_dec (st_rx_bytes st) @
     '' RXDROPS='' @ nat_dec (st_rx_drops st) @
     '' TXOK='' @ nat_dec (st_tx_ok st) @ '' TXERR='' @ nat_dec (st_tx_errors st) @
     '' TXBUSY='' @ nat_dec (st_tx_busy st) @ '' CADTIMEOUT='' @ nat_dec (st_cad_timeouts st) @
     '' CADSEND='' @ nat_dec (st_cad_timeout_sends st) @
     '' RXREARMFAIL='' @ nat_dec (st_rx_rearm_failures st)"

definition daemon_stats_format_fields ::
  "nat \<Rightarrow> int \<Rightarrow> radio_health \<Rightarrow> radio_stats ptr \<Rightarrow> string" where
  "daemon_stats_format_fields cap uptime health stats =
     snprintf_text cap (stats_fields_text uptime health
       (case stats of None \<Rightarrow> daemon_radio_stats_init | Some st \<Rightarrow> st))"

definition daemon_stats_format_response ::
  "nat \<Rightarrow> int \<Rightarrow> radio_health \<Rightarrow> radio_stats ptr \<Rightarrow> string" where
  "daemon_stats_format_response cap uptime health stats =
     snprintf_text cap
       (''STATS '' @ daemon_stats_format_fields 384 uptime health stats @ newline)"

definition stats_u64 :: "radio_stats \<Rightarrow> bool" where
  "stats_u64 st \<longleftrightarrow> st_rx_packets st < 2 ^ 64 \<and> st_rx_bytes st < 2 ^ 64 \<and> st_rx_drops st < 2 ^ 64 \<and>
     st_tx_ok st < 2 ^ 64 \<and> st_tx_errors st < 2 ^ 64 \<and> st_tx_busy st < 2 ^ 64 \<and>
     st_cad_timeouts st < 2 ^ 64 \<and> st_cad_timeout_sends st < 2 ^ 64 \<and>
     st_rx_rearm_failures st < 2 ^ 64"

lemma length_radio_health_name: "length (radio_health_name h) \<le> 13"
  by (cases h) simp_all

lemma length_stats_fields_text:
  assumes "stats_u64 st" and "- (2 ^ 63) \<le> uptime" and "uptime < 2 ^ 63"
  shows "length (stats_fields_text uptime health st) \<le> 304"
proof -
  have "length (nat_dec (st_rx_packets st)) \<le> 20" "length (nat_dec (st_rx_bytes st)) \<le> 20"
    "length (nat_dec (st_rx_drops st)) \<le> 20" "length (nat_dec (st_tx_ok st)) \<le> 20"
    "length (nat_dec (st_tx_errors st)) \<le> 20" "length (nat_dec (st_tx_busy st)) \<le> 20"
    "length (nat_dec (st_cad_timeouts st)) \<le> 20" "length (nat_dec (st_cad_timeout_sends st)) \<le> 20"
    "length (nat_dec (st_rx_rearm_failures st)) \<le> 20"
    using assms(1) by (simp_all add: stats_u64_def length_nat_dec_u64)
  moreover have "length (int_dec uptime) \<le> 20" using assms(2,3) by (rule length_int_dec_s64)
  ultimately show ?thesis
    using length_radio_health_name [of health] by (simp add: stats_fields_text_def)
qed

text \<open>
  The STATS reply is never truncated: for every uptime and every 64-bit counter value all
  fields fit the internal buffer of 384 bytes, so a caller whose reply buffer has 312 bytes or more gets
  the complete line.
\<close>

theorem stats_response_complete:
  assumes "stats_u64 st" and "- (2 ^ 63) \<le> uptime" and "uptime < 2 ^ 63" and "312 \<le> cap"
  shows "daemon_stats_format_response cap uptime health (Some st) =
    ''STATS '' @ stats_fields_text uptime health st @ newline"
proof -
  have "length (stats_fields_text uptime health st) \<le> 304"
    using assms(1-3) by (rule length_stats_fields_text)
  then show ?thesis
    using assms(4)
    by (simp add: daemon_stats_format_response_def daemon_stats_format_fields_def
        snprintf_text_fits newline_def)
qed

theorem stats_response_complete_witness:
  "daemon_stats_format_response 512 3600 RADIO_HEALTH_READY
     (Some (daemon_radio_stats_init\<lparr>st_rx_bytes := 18446744073709551615\<rparr>)) =
   ''STATS '' @ stats_fields_text 3600 RADIO_HEALTH_READY
     (daemon_radio_stats_init\<lparr>st_rx_bytes := 18446744073709551615\<rparr>) @ newline"
  by (rule stats_response_complete) (simp_all add: stats_u64_def daemon_radio_stats_init_def)

end
