(* ===== verification/Tx_Async.thy ===== *)
theory Tx_Async
  imports Tx_Queue Stats
begin

text \<open>
  The asynchronous transmit worker, \<open>daemon_tx_async_worker.cpp\<close> and \<open>daemon_tx_async_runtime.cpp\<close>:
  a worker thread that takes jobs from the queue and the main thread that submits, looks at the
  counters and stops the worker. Every critical section under \<open>lock\<close>, every access to the atomic
  \<open>job_active\<close> and the execution between them is one step; a run is any interleaving of the
  steps. \<open>'w\<close> is the world the callbacks act on (radio, completion queue, statistics).
\<close>

section \<open>Recording a completion\<close>

type_synonym record_ctx = "radio_stats ptr \<times> completion_queue"

definition daemon_tx_async_runtime_record_completion ::
  "tx_job_result \<Rightarrow> record_ctx \<Rightarrow> record_ctx" where
  "daemon_tx_async_runtime_record_completion result rc =
     (let stats = (case fst rc of
            None \<Rightarrow> None
          | Some st \<Rightarrow>
              (let st1 = daemon_radio_stats_record_tx_result (res_tx_result result) st
               in Some (if res_flags result AND FRAMED_DATA_TX_RESULT_FLAG_CAD_TIMEOUT \<noteq> 0 \<and>
                           res_tx_result result = TX_RESULT_OK
                        then daemon_radio_stats_record_cad_timeout_send st1 else st1)))
      in (stats, completion_put result (snd rc)))"

section \<open>State\<close>

datatype 'w callbacks = Callbacks
  (cb_send: "'w send_fn ptr") (cb_probe: "'w cad_probe_fn ptr") (cb_sleep: "'w sleep_fn ptr")
  (cb_result: "(tx_job_result \<Rightarrow> 'w \<Rightarrow> 'w) ptr")

text \<open>Where the worker thread is: the local variables of \<open>daemon_tx_async_worker_loop\<close>.\<close>

datatype 'w worker_pc =
  No_Thread
| At_Lock
| Executing tx_job "'w callbacks"
| Executed tx_job_result "'w callbacks"
| To_Record tx_job_result "'w callbacks"

record 'w async =
  as_worker :: tx_worker
  as_callbacks :: "'w callbacks"
  as_running :: bool
  as_stop_requested :: bool
  as_job_active :: bool
  as_pc :: "'w worker_pc"
  as_world :: 'w

section \<open>Steps of the main thread\<close>

definition daemon_tx_async_worker_init :: "'w async \<Rightarrow> 'w async" where
  "daemon_tx_async_worker_init a =
     a\<lparr>as_worker := daemon_tx_worker_init, as_callbacks := Callbacks None None None None,
       as_running := False, as_stop_requested := False\<rparr>"

definition daemon_tx_async_worker_configure ::
  "'w send_fn ptr \<Rightarrow> (tx_job_result \<Rightarrow> 'w \<Rightarrow> 'w) ptr \<Rightarrow> 'w async \<Rightarrow> 'w async" where
  "daemon_tx_async_worker_configure send result_fn a =
     a\<lparr>as_callbacks := Callbacks send (cb_probe (as_callbacks a)) (cb_sleep (as_callbacks a)) result_fn\<rparr>"

definition daemon_tx_async_worker_configure_cad ::
  "'w cad_probe_fn ptr \<Rightarrow> 'w sleep_fn ptr \<Rightarrow> 'w async \<Rightarrow> 'w async" where
  "daemon_tx_async_worker_configure_cad probe sleep a =
     a\<lparr>as_callbacks := Callbacks (cb_send (as_callbacks a)) probe sleep (cb_result (as_callbacks a))\<rparr>"

definition daemon_tx_async_worker_pending :: "'w async \<Rightarrow> nat" where
  "daemon_tx_async_worker_pending a = daemon_tx_worker_pending (as_worker a)"

text \<open>The thread creation may fail (\<open>catch\<close>); \<open>created\<close> tells whether it did not.\<close>

definition daemon_tx_async_worker_start :: "bool \<Rightarrow> 'w async \<Rightarrow> bool \<times> 'w async" where
  "daemon_tx_async_worker_start created a =
     (if as_running a then (True, a)
      else (let a1 = a\<lparr>as_stop_requested := False, as_running := True\<rparr>
            in if created then (True, a1\<lparr>as_pc := At_Lock\<rparr>)
               else (False, a1\<lparr>as_running := False\<rparr>)))"

definition daemon_tx_async_worker_submit :: "tx_job \<Rightarrow> 'w async \<Rightarrow> bool \<times> 'w async" where
  "daemon_tx_async_worker_submit job a =
     (if as_stop_requested a then
        (False, a\<lparr>as_worker := (as_worker a)\<lparr>wk_rejected := wk_rejected (as_worker a) + 1\<rparr>\<rparr>)
      else (let (ok, wk) = daemon_tx_worker_submit (as_worker a) (Some job)
            in (ok, a\<lparr>as_worker := wk\<rparr>)))"

text \<open>\<open>stop\<close> has two critical sections; between them it joins the thread.\<close>

definition async_stop_request :: "'w async \<Rightarrow> 'w async" where
  "async_stop_request a =
     a\<lparr>as_stop_requested := True,
       as_worker := (as_worker a)
         \<lparr>wk_queue := snd (daemon_tx_queue_discard_all (wk_queue (as_worker a)))\<rparr>\<rparr>"

definition async_stop_joined :: "'w async \<Rightarrow> 'w async" where
  "async_stop_joined a = a\<lparr>as_running := False\<rparr>"

section \<open>Steps of the worker thread\<close>

text \<open>
  The first critical section of the loop body. \<open>None\<close> is the wait on the condition variable;
  otherwise the thread returns or has taken a job.
\<close>

definition async_take :: "'w async \<Rightarrow> 'w async option" where
  "async_take a =
     (if \<not> as_stop_requested a \<and> daemon_tx_worker_pending (as_worker a) = 0 then None
      else if as_stop_requested a \<and> daemon_tx_worker_pending (as_worker a) = 0
        then Some (a\<lparr>as_running := False, as_pc := No_Thread\<rparr>)
      else (case daemon_tx_queue_pop (wk_queue (as_worker a)) of
              None \<Rightarrow> Some a
            | Some (job, q) \<Rightarrow>
                Some (a\<lparr>as_worker := (as_worker a)\<lparr>wk_queue := q\<rparr>, as_job_active := True,
                        as_pc := Executing job (as_callbacks a)\<rparr>)))"

definition async_execute :: "tx_job \<Rightarrow> 'w callbacks \<Rightarrow> 'w async \<Rightarrow> 'w async option" where
  "async_execute job cb a =
     (case daemon_tx_execute_job_with_sender_and_cad (Some job) (cb_send cb) (cb_probe cb)
             (cb_sleep cb) (as_world a) of
        None \<Rightarrow> None
      | Some (result, w) \<Rightarrow> Some (a\<lparr>as_world := w, as_pc := Executed result cb\<rparr>))"

definition async_clear_active :: "tx_job_result \<Rightarrow> 'w callbacks \<Rightarrow> 'w async \<Rightarrow> 'w async" where
  "async_clear_active result cb a = a\<lparr>as_job_active := False, as_pc := To_Record result cb\<rparr>"

definition async_record :: "tx_job_result \<Rightarrow> 'w callbacks \<Rightarrow> 'w async \<Rightarrow> 'w async" where
  "async_record result cb a =
     (let (wk, w) = daemon_tx_worker_record_result result (cb_result cb) (as_worker a, as_world a)
      in a\<lparr>as_worker := wk, as_world := w, as_pc := At_Lock\<rparr>)"

datatype async_event =
  Ev_Submit tx_job bool
| Ev_Take tx_job
| Ev_Execute tx_job_result
| Ev_Clear
| Ev_Record tx_job_result
| Ev_Exit
| Ev_Start bool
| Ev_Stop "tx_job list"
| Ev_Joined

inductive async_step :: "'w async \<Rightarrow> async_event \<Rightarrow> 'w async \<Rightarrow> bool" where
  Submit: "daemon_tx_async_worker_submit job a = (ok, a') \<Longrightarrow> async_step a (Ev_Submit job ok) a'"
| Take: "as_pc a = At_Lock \<Longrightarrow> async_take a = Some a' \<Longrightarrow> as_pc a' = Executing job cb \<Longrightarrow>
    async_step a (Ev_Take job) a'"
| Execute: "as_pc a = Executing job cb \<Longrightarrow> async_execute job cb a = Some a' \<Longrightarrow>
    as_pc a' = Executed result cb \<Longrightarrow> async_step a (Ev_Execute result) a'"
| Clear: "as_pc a = Executed result cb \<Longrightarrow> async_step a Ev_Clear (async_clear_active result cb a)"
| Record: "as_pc a = To_Record result cb \<Longrightarrow> async_step a (Ev_Record result) (async_record result cb a)"
| Exit: "as_pc a = At_Lock \<Longrightarrow> async_take a = Some a' \<Longrightarrow> as_pc a' = No_Thread \<Longrightarrow> async_step a Ev_Exit a'"
| Start: "as_pc a = No_Thread \<Longrightarrow> daemon_tx_async_worker_start created a = (ok, a') \<Longrightarrow>
    async_step a (Ev_Start ok) a'"
| Stop: "async_step a (Ev_Stop (txq_items (wk_queue (as_worker a)))) (async_stop_request a)"
| Joined: "as_pc a = No_Thread \<Longrightarrow> as_stop_requested a \<Longrightarrow> async_step a Ev_Joined (async_stop_joined a)"

inductive async_run :: "'w async \<Rightarrow> async_event list \<Rightarrow> 'w async \<Rightarrow> bool" where
  Nil: "async_run a [] a"
| Cons: "async_step a e b \<Longrightarrow> async_run b es c \<Longrightarrow> async_run a (e # es) c"

inductive_cases async_run_NilE: "async_run a [] b"
inductive_cases async_run_ConsE: "async_run a (e # es) b"
inductive_cases async_stepE: "async_step a e b"

definition async_initial :: "'w callbacks \<Rightarrow> 'w \<Rightarrow> 'w async" where
  "async_initial cb w = \<lparr>as_worker = daemon_tx_worker_init, as_callbacks = cb, as_running = False,
     as_stop_requested = False, as_job_active = False, as_pc = No_Thread, as_world = w\<rparr>"

section \<open>The invariant\<close>

fun jobs_in_flight :: "'w worker_pc \<Rightarrow> nat" where
  "jobs_in_flight (Executing _ _) = 1"
| "jobs_in_flight (Executed _ _) = 1"
| "jobs_in_flight (To_Record _ _) = 1"
| "jobs_in_flight _ = 0"

fun pc_executes :: "'w worker_pc \<Rightarrow> bool" where
  "pc_executes (Executing _ _) = True"
| "pc_executes (Executed _ _) = True"
| "pc_executes _ = False"

definition async_inv :: "'w async \<Rightarrow> bool" where
  "async_inv a \<longleftrightarrow>
     wk_wf (as_worker a) \<and>
     (as_job_active a \<longleftrightarrow> pc_executes (as_pc a)) \<and>
     wk_accepted (as_worker a) = wk_processed (as_worker a) + daemon_tx_async_worker_pending a
       + daemon_tx_worker_dropped (as_worker a) + jobs_in_flight (as_pc a) \<and>
     (as_stop_requested a \<longrightarrow> daemon_tx_async_worker_pending a = 0) \<and>
     (as_pc a \<noteq> No_Thread \<longrightarrow> as_running a)"

lemmas async_defs = async_inv_def wk_wf_def daemon_tx_async_worker_pending_def
  daemon_tx_worker_pending_def daemon_tx_worker_dropped_def

lemma async_inv_initial [wf_intros]: "async_inv (async_initial cb w)"
  by (simp add: async_defs async_initial_def daemon_tx_worker_init_def)
    (simp add: daemon_tx_queue_init_def)

lemma worker_submit_cases:
  assumes "wk_wf wk" and "daemon_tx_worker_submit wk (Some j) = (ok, wk')"
  shows "wk_wf wk' \<and> txq_dropped (wk_queue wk') = txq_dropped (wk_queue wk) \<and>
    wk_processed wk' = wk_processed wk \<and>
    (if ok then txq_items (wk_queue wk') = txq_items (wk_queue wk) @ [j] \<and>
        wk_accepted wk' = Suc (wk_accepted wk)
     else txq_items (wk_queue wk') = txq_items (wk_queue wk) \<and> wk_accepted wk' = wk_accepted wk)"
proof (cases "daemon_tx_queue_push (wk_queue wk) (Some j)")
  case None
  with assms show ?thesis by (auto simp: daemon_tx_worker_submit_def wk_wf_def)
next
  case (Some q)
  with assms txq.push_SomeD [of "wk_queue wk" j q] txq_push_room [of "wk_queue wk" j]
  show ?thesis by (auto simp: daemon_tx_worker_submit_def wk_wf_def)
qed

lemma worker_submit_count:
  assumes "wk_wf wk" and "daemon_tx_worker_submit wk (Some j) = (ok, wk')"
  shows "txq_count (wk_queue wk') = (if ok then Suc (txq_count (wk_queue wk)) else txq_count (wk_queue wk))"
  using worker_submit_cases [OF assms]
  by (metis length_append_singleton length_txq_items)

lemma queue_pop_frame:
  assumes "txq_wf q" and "daemon_tx_queue_pop q = Some (j, q')"
  shows "txq_items q = j # txq_items q' \<and> txq_wf q' \<and> txq_dropped q' = txq_dropped q \<and>
    txq_count q = Suc (txq_count q')"
proof -
  have "txq_items q = j # txq_items q' \<and> txq_wf q'" by (rule txq.pop_SomeD [OF assms])
  moreover from this have "length (txq_items q) = Suc (length (txq_items q'))" by simp
  ultimately show ?thesis
    using assms(2) by (auto simp: daemon_tx_queue_pop_def split: if_splits)
qed

lemma async_take_cases:
  assumes "async_inv a" and "async_take a = Some a'"
  shows "(\<exists>j q. as_pc a' = Executing j (as_callbacks a) \<and> txq_wf q \<and>
        txq_items (wk_queue (as_worker a)) = j # txq_items q \<and>
        txq_dropped q = txq_dropped (wk_queue (as_worker a)) \<and>
        txq_count (wk_queue (as_worker a)) = Suc (txq_count q) \<and>
        a' = a\<lparr>as_worker := (as_worker a)\<lparr>wk_queue := q\<rparr>, as_job_active := True,
               as_pc := Executing j (as_callbacks a)\<rparr>)
    \<or> (a' = a\<lparr>as_running := False, as_pc := No_Thread\<rparr> \<and> as_stop_requested a \<and>
        txq_items (wk_queue (as_worker a)) = [])"
proof (cases "daemon_tx_queue_pop (wk_queue (as_worker a))")
  case None
  with assms txq.pop_NoneD [of "wk_queue (as_worker a)"] length_txq_items [of "wk_queue (as_worker a)"]
  show ?thesis by (auto simp: async_take_def async_defs split: if_splits)
next
  case (Some p)
  then obtain j q where p: "daemon_tx_queue_pop (wk_queue (as_worker a)) = Some (j, q)"
    by (cases p) auto
  have "txq_wf (wk_queue (as_worker a))" using assms(1) by (simp add: async_defs)
  from queue_pop_frame [OF this p] p assms(2) show ?thesis
    by (auto simp: async_take_def daemon_tx_worker_pending_def split: if_splits)
qed

lemma async_inv_step:
  assumes "async_step a e b" and "async_inv a"
  shows "async_inv b"
  using assms
proof (cases rule: async_step.cases)
  case (Submit job ok)
  show ?thesis
  proof (cases "as_stop_requested a")
    case True
    with Submit assms(2) show ?thesis
      by (auto simp: daemon_tx_async_worker_submit_def async_defs)
  next
    case False
    with Submit obtain wk where wk: "daemon_tx_worker_submit (as_worker a) (Some job) = (ok, wk)"
      "b = a\<lparr>as_worker := wk\<rparr>"
      by (auto simp: daemon_tx_async_worker_submit_def split: prod.splits)
    have "wk_wf (as_worker a)" using assms(2) by (simp add: async_inv_def)
    from worker_submit_cases [OF this wk(1)] worker_submit_count [OF this wk(1)] wk(2) False assms(2)
    show ?thesis by (auto simp: async_defs split: if_splits)
  qed
next
  case (Take job cb)
  from async_take_cases [OF assms(2) Take(3)] Take assms(2) show ?thesis
    by (auto simp: async_defs)
next
  case (Execute job cb result)
  then show ?thesis using assms(2)
    by (auto simp: async_execute_def async_defs split: option.splits)
next
  case (Clear result cb)
  then show ?thesis using assms(2) by (auto simp: async_clear_active_def async_defs)
next
  case (Record result cb)
  then show ?thesis using assms(2)
    by (auto simp: async_record_def daemon_tx_worker_record_result_def Let_def async_defs)
next
  case Exit
  from async_take_cases [OF assms(2) Exit(3)] Exit assms(2) show ?thesis
    by (auto simp: async_defs)
next
  case (Start created ok)
  then show ?thesis using assms(2)
    by (auto simp: daemon_tx_async_worker_start_def Let_def async_defs split: if_splits)
next
  case Stop
  then show ?thesis using assms(2)
    by (simp add: async_stop_request_def async_defs)
       (simp add: daemon_tx_queue_discard_all_def Let_def)
next
  case Joined
  then show ?thesis using assms(2) by (simp add: async_stop_joined_def async_defs)
qed

lemma async_inv_run: "async_run a tr b \<Longrightarrow> async_inv a \<Longrightarrow> async_inv b"
  by (induction rule: async_run.induct) (auto intro: async_inv_step)

text \<open>
  In every state the daemon can reach, under any interleaving of submissions, worker steps,
  stops and restarts, the worker's counters account for every accepted job: it is processed,
  still queued, dropped at a stop, or the one job the worker thread holds; and \<open>job_active\<close> is
  set exactly while the thread executes a job.
\<close>

theorem async_counters_account_for_every_job:
  assumes "async_run (async_initial cb w) tr a"
  shows "wk_accepted (as_worker a) = wk_processed (as_worker a) + daemon_tx_async_worker_pending a
      + daemon_tx_worker_dropped (as_worker a) + jobs_in_flight (as_pc a) \<and>
    (as_job_active a \<longleftrightarrow> pc_executes (as_pc a)) \<and>
    daemon_tx_async_worker_pending a \<le> 8"
proof -
  have inv: "async_inv a" using async_inv_run [OF assms async_inv_initial] .
  then have "daemon_tx_async_worker_pending a \<le> 8"
    by (simp add: async_defs txq_wf_def c_consts)
  with inv show ?thesis by (simp add: async_inv_def)
qed

theorem async_counters_account_for_every_job_witness:
  "async_run (async_initial (Callbacks None None None None) (0::nat)) [] 
     (async_initial (Callbacks None None None None) 0) \<and>
   (as_job_active (async_initial (Callbacks None None None None) (0::nat)) \<longleftrightarrow>
     pc_executes (as_pc (async_initial (Callbacks None None None None) (0::nat))))"
  using async_counters_account_for_every_job [OF async_run.Nil, of "Callbacks None None None None" "0::nat"]
  by (simp add: async_run.Nil)

section \<open>The idle test of the CONFIG path\<close>

text \<open>
  The CONFIG path reads the number of pending jobs, then \<open>job_active\<close>, and treats the radio as
  free of accepted jobs when both are zero. Between the two reads the worker runs on, but the
  main thread submits nothing.
\<close>

fun submits :: "async_event \<Rightarrow> bool" where
  "submits (Ev_Submit _ _) = True"
| "submits _ = False"

definition async_drained :: "'w async \<Rightarrow> bool" where
  "async_drained a \<longleftrightarrow> daemon_tx_async_worker_pending a = 0 \<and> \<not> pc_executes (as_pc a)"

lemma pending_zero_step:
  assumes "async_step a e b" and "async_inv a" and "\<not> submits e"
    and "daemon_tx_async_worker_pending a = 0"
  shows "daemon_tx_async_worker_pending b = 0 \<and> \<not> (\<exists>j. e = Ev_Take j)"
  using assms
proof (cases rule: async_step.cases)
  case (Take job cb)
  from async_take_cases [OF assms(2) Take(3)] Take(4) assms(4) show ?thesis
    by (auto simp: async_defs)
next
  case Exit
  from async_take_cases [OF assms(2) Exit(3)] Exit(4) assms(4) show ?thesis
    using Exit(1) by (auto simp: async_defs)
next
  case (Submit job ok)
  with assms(3) show ?thesis by simp
next
  case (Execute job cb result)
  with assms(4) show ?thesis
    by (auto simp: async_execute_def async_defs split: option.splits)
next
  case (Record result cb)
  with assms(4) show ?thesis
    by (auto simp: async_record_def daemon_tx_worker_record_result_def Let_def async_defs)
next
  case (Start created ok)
  with assms(4) show ?thesis
    by (auto simp: daemon_tx_async_worker_start_def Let_def async_defs split: if_splits)
next
  case Stop
  with assms(4) show ?thesis
    by (simp add: async_stop_request_def async_defs)
       (simp add: daemon_tx_queue_discard_all_def Let_def)
qed (use assms(4) in \<open>simp_all add: async_clear_active_def async_stop_joined_def async_defs\<close>)

lemma drained_step:
  assumes "async_step a e b" and "async_inv a" and "\<not> submits e" and "async_drained a"
  shows "async_drained b \<and> \<not> (\<exists>r. e = Ev_Execute r)"
proof -
  have "daemon_tx_async_worker_pending b = 0" and not_take: "\<not> (\<exists>j. e = Ev_Take j)"
    using pending_zero_step [OF assms(1-3)] assms(4) by (auto simp: async_drained_def)
  moreover have "\<not> pc_executes (as_pc b) \<and> \<not> (\<exists>r. e = Ev_Execute r)"
    using assms(1,3,4) not_take
    by cases
      (auto simp: async_drained_def async_clear_active_def async_record_def async_stop_joined_def
        async_stop_request_def daemon_tx_worker_record_result_def Let_def
        daemon_tx_async_worker_start_def split: if_splits)
  ultimately show ?thesis by (simp add: async_drained_def)
qed

lemma drained_run:
  "async_run a tr b \<Longrightarrow> async_inv a \<Longrightarrow> async_drained a \<Longrightarrow> \<forall>e\<in>set tr. \<not> submits e \<Longrightarrow>
     async_drained b \<and> (\<forall>r. Ev_Execute r \<notin> set tr)"
proof (induction rule: async_run.induct)
  case (Cons a e b es c)
  from Cons.prems have "\<not> submits e" by simp
  from drained_step [OF Cons.hyps(1) Cons.prems(1) this Cons.prems(2)]
    Cons.IH [OF async_inv_step [OF Cons.hyps(1) Cons.prems(1)]] Cons.prems(3)
  show ?case by auto
qed simp

lemma pending_zero_run:
  "async_run a tr b \<Longrightarrow> async_inv a \<Longrightarrow> daemon_tx_async_worker_pending a = 0 \<Longrightarrow>
     \<forall>e\<in>set tr. \<not> submits e \<Longrightarrow> daemon_tx_async_worker_pending b = 0"
proof (induction rule: async_run.induct)
  case (Cons a e b es c)
  from Cons.prems have "\<not> submits e" by simp
  from pending_zero_step [OF Cons.hyps(1) Cons.prems(1) this Cons.prems(2)]
    Cons.IH [OF async_inv_step [OF Cons.hyps(1) Cons.prems(1)]] Cons.prems(3)
  show ?case by auto
qed simp

text \<open>
  The two reads in the order of the code are a sound idle test: if the pending count was 0
  and, after any worker steps, \<open>job_active\<close> reads false, then no accepted job is queued or being
  executed, and none is executed later until the main thread submits again. A CONFIG change
  between the test and the next submission cannot retune an accepted job.
\<close>

theorem idle_test_excludes_accepted_jobs:
  assumes "async_run (async_initial cb w) tr a"
    and "daemon_tx_async_worker_pending a = 0"
    and "async_run a between b" and "\<forall>e\<in>set between. \<not> submits e"
    and "\<not> as_job_active b"
    and "async_run b later c" and "\<forall>e\<in>set later. \<not> submits e"
  shows "async_drained b \<and> (\<forall>r. Ev_Execute r \<notin> set later)"
proof -
  have inv_a: "async_inv a" using async_inv_run [OF assms(1) async_inv_initial] .
  have inv_b: "async_inv b" using async_inv_run [OF assms(3) inv_a] .
  have "async_drained b"
    using pending_zero_run [OF assms(3) inv_a assms(2,4)] assms(5) inv_b
    by (simp add: async_drained_def async_inv_def)
  with drained_run [OF assms(6) inv_b _ assms(7)] show ?thesis by simp
qed

theorem idle_test_excludes_accepted_jobs_witness:
  "async_drained (async_initial (Callbacks None None None None) (0::nat))"
  using idle_test_excludes_accepted_jobs
    [OF async_run.Nil _ async_run.Nil _ _ async_run.Nil, of "Callbacks None None None None" "0::nat"]
  by (simp add: async_initial_def daemon_tx_async_worker_pending_def daemon_tx_worker_pending_def
      daemon_tx_worker_init_def daemon_tx_queue_init_def)

section \<open>Order of execution\<close>

fun accepted_job :: "async_event \<Rightarrow> tx_job list" where
  "accepted_job (Ev_Submit j ok) = (if ok then [j] else [])"
| "accepted_job _ = []"

fun leaving_jobs :: "async_event \<Rightarrow> tx_job list" where
  "leaving_jobs (Ev_Take j) = [j]"
| "leaving_jobs (Ev_Stop js) = js"
| "leaving_jobs _ = []"

definition job_tag :: "tx_job \<Rightarrow> u16 \<times> int \<times> u32" where
  "job_tag j = (job_seq j, job_completion_slot j, job_completion_generation j)"

definition result_tag :: "tx_job_result \<Rightarrow> u16 \<times> int \<times> u32" where
  "result_tag r = (res_seq r, res_completion_slot r, res_completion_generation r)"

fun taken_tag :: "async_event \<Rightarrow> (u16 \<times> int \<times> u32) list" where
  "taken_tag (Ev_Take j) = [job_tag j]"
| "taken_tag _ = []"

fun recorded_tag :: "async_event \<Rightarrow> (u16 \<times> int \<times> u32) list" where
  "recorded_tag (Ev_Record r) = [result_tag r]"
| "recorded_tag _ = []"

fun held_tag :: "'w worker_pc \<Rightarrow> (u16 \<times> int \<times> u32) list" where
  "held_tag (Executing j _) = [job_tag j]"
| "held_tag (Executed r _) = [result_tag r]"
| "held_tag (To_Record r _) = [result_tag r]"
| "held_tag _ = []"

lemma queue_step:
  assumes "async_step a e b" and "async_inv a"
  shows "txq_items (wk_queue (as_worker a)) @ accepted_job e =
    leaving_jobs e @ txq_items (wk_queue (as_worker b))"
  using assms
proof (cases rule: async_step.cases)
  case (Submit job ok)
  show ?thesis
  proof (cases "as_stop_requested a")
    case True
    with Submit show ?thesis by (auto simp: daemon_tx_async_worker_submit_def)
  next
    case False
    with Submit obtain wk where wk: "daemon_tx_worker_submit (as_worker a) (Some job) = (ok, wk)"
      "b = a\<lparr>as_worker := wk\<rparr>"
      by (auto simp: daemon_tx_async_worker_submit_def split: prod.splits)
    have "wk_wf (as_worker a)" using assms(2) by (simp add: async_inv_def)
    from worker_submit_cases [OF this wk(1)] wk(2) Submit(1) show ?thesis
      by (auto split: if_splits)
  qed
next
  case (Take job cb)
  from async_take_cases [OF assms(2) Take(3)] Take(1,4) show ?thesis by auto
next
  case Exit
  from async_take_cases [OF assms(2) Exit(3)] Exit(1,4) show ?thesis by auto
next
  case (Execute job cb result)
  then show ?thesis by (auto simp: async_execute_def split: option.splits)
next
  case (Record result cb)
  then show ?thesis by (auto simp: async_record_def daemon_tx_worker_record_result_def Let_def)
next
  case (Start created ok)
  then show ?thesis by (auto simp: daemon_tx_async_worker_start_def Let_def split: if_splits)
qed (simp_all add: async_clear_active_def async_stop_joined_def async_stop_request_def)

lemma execute_with_sender_tag:
  "result_tag (fst (daemon_tx_execute_job_with_sender (Some j) send w)) = job_tag j"
  by (auto simp: daemon_tx_execute_job_with_sender_def daemon_tx_job_result_init_def result_tag_def
      job_tag_def split: option.splits prod.splits)

lemma execute_tag:
  assumes "daemon_tx_execute_job_with_sender_and_cad (Some j) send probe sleep w = Some (r, w')"
  shows "result_tag r = job_tag j"
proof -
  have flag: "job_tag (j\<lparr>job_flags := f\<rparr>) = job_tag j" for f by (simp add: job_tag_def)
  have init: "result_tag (daemon_tx_job_result_init (Some j) oc) = job_tag j" for oc
    by (simp add: result_tag_def job_tag_def daemon_tx_job_result_init_def)
  have sender: "daemon_tx_execute_job_with_sender (Some i) send v = (r, w') \<Longrightarrow> result_tag r = job_tag i"
    for i v using execute_with_sender_tag [of i send v] by simp
  show ?thesis
    using assms sender init
    by (auto simp: daemon_tx_execute_job_with_sender_and_cad_def flag
        split: option.splits if_splits prod.splits cad_exit.splits)
qed

lemma tag_step:
  assumes "async_step a e b" and "async_inv a"
  shows "held_tag (as_pc a) @ taken_tag e = recorded_tag e @ held_tag (as_pc b)"
  using assms
proof (cases rule: async_step.cases)
  case (Submit job ok)
  then show ?thesis by (auto simp: daemon_tx_async_worker_submit_def split: prod.splits if_splits)
next
  case (Take job cb)
  from async_take_cases [OF assms(2) Take(3)] Take show ?thesis by auto
next
  case Exit
  from async_take_cases [OF assms(2) Exit(3)] Exit show ?thesis by auto
next
  case (Execute job cb result)
  then show ?thesis by (auto simp: async_execute_def execute_tag split: option.splits)
next
  case (Record result cb)
  then show ?thesis by (auto simp: async_record_def daemon_tx_worker_record_result_def Let_def)
next
  case (Start created ok)
  then show ?thesis using assms(2)
    by (auto simp: daemon_tx_async_worker_start_def Let_def async_inv_def split: if_splits)
qed (simp_all add: async_clear_active_def async_stop_joined_def async_stop_request_def)

lemma queue_run:
  "async_run a tr b \<Longrightarrow> async_inv a \<Longrightarrow>
     txq_items (wk_queue (as_worker a)) @ concat (map accepted_job tr) =
     concat (map leaving_jobs tr) @ txq_items (wk_queue (as_worker b))"
proof (induction rule: async_run.induct)
  case (Cons a e b es c)
  from append_run_step [OF queue_step [OF Cons.hyps(1) Cons.prems]
    Cons.IH [OF async_inv_step [OF Cons.hyps(1) Cons.prems]]]
  show ?case by simp
qed simp

lemma tag_run:
  "async_run a tr b \<Longrightarrow> async_inv a \<Longrightarrow>
     held_tag (as_pc a) @ concat (map taken_tag tr) = concat (map recorded_tag tr) @ held_tag (as_pc b)"
proof (induction rule: async_run.induct)
  case (Cons a e b es c)
  from append_run_step [OF tag_step [OF Cons.hyps(1) Cons.prems]
    Cons.IH [OF async_inv_step [OF Cons.hyps(1) Cons.prems]]]
  show ?case by simp
qed simp

text \<open>
  C2: Under any interleaving, accepted jobs leave the queue in the order of their submission,
  each exactly once, by being taken for execution or discarded at a stop; and the completions
  are recorded in the order the jobs were taken, each carrying the sequence number, slot and
  slot generation of its own job, with at most one still to come.
\<close>

theorem async_jobs_in_order_exactly_once:
  assumes "async_run (async_initial cb w) tr a"
  shows "concat (map accepted_job tr) =
      concat (map leaving_jobs tr) @ txq_items (wk_queue (as_worker a)) \<and>
    concat (map taken_tag tr) = concat (map recorded_tag tr) @ held_tag (as_pc a) \<and>
    length (held_tag (as_pc a)) \<le> 1"
proof -
  have "length (held_tag (as_pc a)) \<le> 1" by (cases "as_pc a") simp_all
  with queue_run [OF assms async_inv_initial] tag_run [OF assms async_inv_initial] show ?thesis
    by (simp add: async_initial_def daemon_tx_worker_init_def)
qed

definition sample_async :: "nat async" where
  "sample_async = async_initial (Callbacks (Some (\<lambda>p b w. (TX_RESULT_OK, Suc w))) None None None) 0"

theorem async_jobs_in_order_exactly_once_witness:
  "concat (map accepted_job [Ev_Submit zero_job True]) =
     txq_items (wk_queue (as_worker (snd (daemon_tx_async_worker_submit zero_job sample_async))))"
proof -
  have "fst (daemon_tx_async_worker_submit zero_job sample_async)"
    by (simp add: sample_async_def async_initial_def daemon_tx_async_worker_submit_def
        daemon_tx_worker_submit_def daemon_tx_worker_init_def daemon_tx_queue_init_def
        daemon_tx_queue_push_def daemon_tx_queue_full_def c_consts)
  then have "async_step sample_async (Ev_Submit zero_job True)
      (snd (daemon_tx_async_worker_submit zero_job sample_async))"
    by (intro async_step.Submit) (simp add: prod_eq_iff)
  then have "async_run sample_async [Ev_Submit zero_job True]
      (snd (daemon_tx_async_worker_submit zero_job sample_async))"
    by (rule async_run.Cons) (rule async_run.Nil)
  from async_jobs_in_order_exactly_once [OF this [unfolded sample_async_def]]
  show ?thesis by (simp add: sample_async_def)
qed

end
