(* ===== verification/C_Float.thy ===== *)
theory C_Float
  imports Complex_Main C_Text
begin

text \<open>
  The floating point values of the sources. A \<open>float\<close> or \<open>double\<close> is a rational number, an
  infinity or NaN (the sign of zero is never observed); an operation computes the exact result
  and rounds it to the nearest value of its format, ties to even, as IEEE 754 arithmetic does.
  \<open>rat_fixed\<close> is the output of \<open>%.nf\<close>.
\<close>

datatype c_float = Fin rat | Pos_Inf | Neg_Inf | Nan

fun c_le :: "c_float \<Rightarrow> c_float \<Rightarrow> bool" where
  "c_le (Fin x) (Fin y) \<longleftrightarrow> x \<le> y"
| "c_le Nan _ \<longleftrightarrow> False"
| "c_le _ Nan \<longleftrightarrow> False"
| "c_le Neg_Inf _ \<longleftrightarrow> True"
| "c_le _ Pos_Inf \<longleftrightarrow> True"
| "c_le Pos_Inf _ \<longleftrightarrow> False"
| "c_le _ Neg_Inf \<longleftrightarrow> False"

definition c_ge :: "c_float \<Rightarrow> c_float \<Rightarrow> bool" where
  "c_ge x y \<longleftrightarrow> c_le y x"

fun c_less :: "c_float \<Rightarrow> c_float \<Rightarrow> bool" where
  "c_less (Fin x) (Fin y) \<longleftrightarrow> x < y"
| "c_less Nan _ \<longleftrightarrow> False"
| "c_less _ Nan \<longleftrightarrow> False"
| "c_less Neg_Inf Neg_Inf \<longleftrightarrow> False"
| "c_less Neg_Inf _ \<longleftrightarrow> True"
| "c_less Pos_Inf _ \<longleftrightarrow> False"
| "c_less _ Pos_Inf \<longleftrightarrow> True"
| "c_less _ Neg_Inf \<longleftrightarrow> False"

lemma c_le_trans: "c_le x y \<Longrightarrow> c_le y z \<Longrightarrow> c_le x z"
  by (cases x; cases y; cases z) auto

section \<open>Rounding\<close>

definition round_half_even :: "rat \<Rightarrow> int" where
  "round_half_even x =
     (let f = \<lfloor>x\<rfloor>; d = x - of_int f
      in if d < 1 / 2 then f else if 1 / 2 < d then f + 1 else if even f then f else f + 1)"

lemma round_half_even_int [simp]: "round_half_even (of_int i) = i"
  by (simp add: round_half_even_def)

lemma round_half_even_error: "\<bar>of_int (round_half_even x) - x\<bar> \<le> 1 / 2"
proof -
  have "of_int \<lfloor>x\<rfloor> \<le> x" "x < of_int \<lfloor>x\<rfloor> + 1" by linarith+
  then show ?thesis by (auto simp: round_half_even_def Let_def abs_le_iff)
qed

lemma round_half_even_mono: "x \<le> y \<Longrightarrow> round_half_even x \<le> round_half_even y"
proof -
  assume xy: "x \<le> y"
  then have fl: "\<lfloor>x\<rfloor> \<le> \<lfloor>y\<rfloor>" by (rule floor_mono)
  have b: "of_int \<lfloor>x\<rfloor> \<le> x" "of_int \<lfloor>y\<rfloor> \<le> y" by linarith+
  show ?thesis
  proof (cases "\<lfloor>x\<rfloor> = \<lfloor>y\<rfloor>")
    case True
    with xy show ?thesis by (auto simp: round_half_even_def Let_def)
  next
    case False
    with fl have "\<lfloor>x\<rfloor> + 1 \<le> \<lfloor>y\<rfloor>" by linarith
    moreover have "round_half_even x \<le> \<lfloor>x\<rfloor> + 1" by (simp add: round_half_even_def Let_def)
    moreover have "\<lfloor>y\<rfloor> \<le> round_half_even y" by (simp add: round_half_even_def Let_def)
    ultimately show ?thesis by linarith
  qed
qed

fun bit_len :: "nat \<Rightarrow> nat" where
  "bit_len n = (if n = 0 then 0 else Suc (bit_len (n div 2)))"

declare bit_len.simps [simp del]

definition pow2 :: "int \<Rightarrow> rat" where
  "pow2 e = (if 0 \<le> e then 2 ^ nat e else 1 / 2 ^ nat (- e))"

text \<open>The exponent of the leading binary digit of a positive rational.\<close>

definition ilog2 :: "rat \<Rightarrow> int" where
  "ilog2 x =
     (let (n, d) = quotient_of x; e = int (bit_len (nat n)) - int (bit_len (nat d))
      in if pow2 e \<le> x then e else e - 1)"

text \<open>Rounding to \<open>prec\<close> digits with smallest quantum \<open>2 ^ qmin\<close> and overflow at \<open>2 ^ emax\<close>.\<close>

definition f_round :: "nat \<Rightarrow> int \<Rightarrow> int \<Rightarrow> rat \<Rightarrow> c_float" where
  "f_round prec qmin emax x =
     (if x = 0 then Fin 0
      else
        (let q = pow2 (max (ilog2 \<bar>x\<bar> - int prec + 1) qmin);
             y = of_int (round_half_even (x / q)) * q
         in if pow2 emax \<le> y then Pos_Inf else if y \<le> - pow2 emax then Neg_Inf else Fin y))"

definition f32_round :: "rat \<Rightarrow> c_float" where
  "f32_round = f_round 24 (-149) 128"

definition f64_round :: "rat \<Rightarrow> c_float" where
  "f64_round = f_round 53 (-1074) 1024"

definition f64_of_f32 :: "c_float \<Rightarrow> c_float" where
  "f64_of_f32 x = x"

definition f32_of_f64 :: "c_float \<Rightarrow> c_float" where
  "f32_of_f64 x = (case x of Fin r \<Rightarrow> f32_round r | _ \<Rightarrow> x)"

section \<open>Arithmetic\<close>

fun c_neg :: "c_float \<Rightarrow> c_float" where
  "c_neg (Fin x) = Fin (- x)"
| "c_neg Pos_Inf = Neg_Inf"
| "c_neg Neg_Inf = Pos_Inf"
| "c_neg Nan = Nan"

fun c_add :: "(rat \<Rightarrow> c_float) \<Rightarrow> c_float \<Rightarrow> c_float \<Rightarrow> c_float" where
  "c_add rnd (Fin x) (Fin y) = rnd (x + y)"
| "c_add rnd Nan _ = Nan"
| "c_add rnd _ Nan = Nan"
| "c_add rnd Pos_Inf Neg_Inf = Nan"
| "c_add rnd Neg_Inf Pos_Inf = Nan"
| "c_add rnd Pos_Inf _ = Pos_Inf"
| "c_add rnd Neg_Inf _ = Neg_Inf"
| "c_add rnd _ y = y"

definition c_sub :: "(rat \<Rightarrow> c_float) \<Rightarrow> c_float \<Rightarrow> c_float \<Rightarrow> c_float" where
  "c_sub rnd x y = c_add rnd x (c_neg y)"

definition inf_of_sign :: "bool \<Rightarrow> c_float" where
  "inf_of_sign neg = (if neg then Neg_Inf else Pos_Inf)"

fun c_negative :: "c_float \<Rightarrow> bool" where
  "c_negative (Fin x) \<longleftrightarrow> x < 0"
| "c_negative Neg_Inf \<longleftrightarrow> True"
| "c_negative _ \<longleftrightarrow> False"

definition c_mul :: "(rat \<Rightarrow> c_float) \<Rightarrow> c_float \<Rightarrow> c_float \<Rightarrow> c_float" where
  "c_mul rnd x y =
     (case (x, y) of
        (Fin a, Fin b) \<Rightarrow> rnd (a * b)
      | (Nan, _) \<Rightarrow> Nan
      | (_, Nan) \<Rightarrow> Nan
      | (_, _) \<Rightarrow> if x = Fin 0 \<or> y = Fin 0 then Nan else inf_of_sign (c_negative x \<noteq> c_negative y))"

definition c_div :: "(rat \<Rightarrow> c_float) \<Rightarrow> c_float \<Rightarrow> c_float \<Rightarrow> c_float" where
  "c_div rnd x y =
     (case (x, y) of
        (Nan, _) \<Rightarrow> Nan
      | (_, Nan) \<Rightarrow> Nan
      | (Fin a, Fin b) \<Rightarrow>
          if b = 0 then (if a = 0 then Nan else inf_of_sign (a < 0)) else rnd (a / b)
      | (Fin _, _) \<Rightarrow> Fin 0
      | (_, Fin b) \<Rightarrow> inf_of_sign (c_negative x \<noteq> (b < 0))
      | (_, _) \<Rightarrow> Nan)"

fun c_abs :: "c_float \<Rightarrow> c_float" where
  "c_abs (Fin x) = Fin \<bar>x\<bar>"
| "c_abs Nan = Nan"
| "c_abs _ = Pos_Inf"

section \<open>Conversion to an integer and to text\<close>

definition rat_trunc :: "rat \<Rightarrow> int" where
  "rat_trunc x = (if 0 \<le> x then \<lfloor>x\<rfloor> else - \<lfloor>- x\<rfloor>)"

fun pad_zeros :: "nat \<Rightarrow> string \<Rightarrow> string" where
  "pad_zeros n s = (if length s < n then replicate (n - length s) (CHR ''0'') @ s else s)"

definition rat_fixed :: "nat \<Rightarrow> rat \<Rightarrow> string" where
  "rat_fixed n x =
     (let i = round_half_even (\<bar>x\<bar> * 10 ^ n);
          whole = nat_dec (nat (i div 10 ^ n));
          frac = pad_zeros n (nat_dec (nat (i mod 10 ^ n)))
      in (if x < 0 then ''-'' else '''') @ whole @ (if n = 0 then '''' else ''.'' @ frac))"

fun c_fixed :: "nat \<Rightarrow> c_float \<Rightarrow> string" where
  "c_fixed n (Fin x) = rat_fixed n x"
| "c_fixed n Pos_Inf = ''inf''"
| "c_fixed n Neg_Inf = ''-inf''"
| "c_fixed n Nan = ''nan''"

section \<open>Properties of the rounding\<close>

lemma pow2_pos [simp]: "0 < pow2 e"
  by (simp add: pow2_def)

lemma pow2_nz [simp]: "pow2 e \<noteq> 0"
  using pow2_pos [of e] by linarith

lemma f_round_0 [simp]: "f_round p q e 0 = Fin 0"
  by (simp add: f_round_def)

lemma f_round_sign:
  assumes "0 \<le> x" and "f_round p qmin emax x = Fin y"
  shows "0 \<le> y"
proof (cases "x = 0")
  case True
  with assms(2) show ?thesis by simp
next
  case False
  define q where "q = pow2 (max (ilog2 \<bar>x\<bar> - int p + 1) qmin)"
  have "0 \<le> x / q" using assms(1) by (simp add: q_def less_imp_le)
  then have "round_half_even (of_int 0) \<le> round_half_even (x / q)"
    by (intro round_half_even_mono) simp
  then have "0 \<le> round_half_even (x / q)" by (simp only: round_half_even_int)
  then have "0 \<le> of_int (round_half_even (x / q)) * q" by (simp add: q_def less_imp_le)
  with assms(2) False show ?thesis
    by (auto simp: f_round_def Let_def q_def split: if_splits)
qed

section \<open>Evaluating a rounding\<close>

lemma bit_len_bounds: "0 < n \<Longrightarrow> 2 ^ (bit_len n - 1) \<le> n \<and> n < 2 ^ bit_len n \<and> 0 < bit_len n"
proof (induction n rule: bit_len.induct)
  case (1 n)
  show ?case
  proof (cases "n div 2 = 0")
    case True
    with 1 have "n = 1" by auto
    then show ?thesis by (simp add: bit_len.simps)
  next
    case False
    with 1 have IH: "2 ^ (bit_len (n div 2) - 1) \<le> n div 2" "n div 2 < 2 ^ bit_len (n div 2)"
      "0 < bit_len (n div 2)" by auto
    from IH(3) have "(2::nat) ^ bit_len (n div 2) = 2 * 2 ^ (bit_len (n div 2) - 1)"
      by (cases "bit_len (n div 2)") auto
    moreover have "2 * (n div 2) \<le> n" "n < 2 * (n div 2) + 2" by linarith+
    moreover have "bit_len n = Suc (bit_len (n div 2))" using 1(2) by (subst bit_len.simps) simp
    ultimately show ?thesis using IH by simp linarith
  qed
qed

lemma pow2_add: "pow2 (a + b) = pow2 a * pow2 b"
proof -
  have "pow2 e = power_int 2 e" for e by (simp add: pow2_def power_int_def field_simps)
  then show ?thesis by (simp add: power_int_add)
qed

lemma pow2_mono: "a \<le> b \<Longrightarrow> pow2 a \<le> pow2 b"
proof -
  have "pow2 e = power_int 2 e" for e by (simp add: pow2_def power_int_def field_simps)
  then show "a \<le> b \<Longrightarrow> pow2 a \<le> pow2 b" by (simp add: power_int_increasing)
qed

lemma pow2_nat: "pow2 (int n) = 2 ^ n"
  by (simp add: pow2_def)

lemma ilog2_spec: "0 < x \<Longrightarrow> pow2 (ilog2 x) \<le> x \<and> x < pow2 (ilog2 x + 1)"
proof -
  assume x: "0 < x"
  obtain n d where nd: "quotient_of x = (n, d)" by force
  have d: "0 < d" and xnd: "x = of_int n / of_int d"
    using quotient_of_denom_pos [OF nd] quotient_of_div [OF nd] by auto
  with x have n: "0 < n" by (simp add: zero_less_divide_iff)
  let ?a = "bit_len (nat n)" and ?b = "bit_len (nat d)"
  have a: "2 ^ (?a - 1) \<le> nat n" "nat n < 2 ^ ?a" "0 < ?a"
    and b: "2 ^ (?b - 1) \<le> nat d" "nat d < 2 ^ ?b" "0 < ?b"
    using bit_len_bounds [of "nat n"] bit_len_bounds [of "nat d"] n d by auto
  have rn: "of_nat (nat n) = (of_int n :: rat)" "of_nat (nat d) = (of_int d :: rat)" using n d by auto
  have "(of_nat (2 ^ (?a - 1)) :: rat) \<le> of_int n" "of_int n < (of_nat (2 ^ ?a) :: rat)"
    "(of_nat (2 ^ (?b - 1)) :: rat) \<le> of_int d" "of_int d < (of_nat (2 ^ ?b) :: rat)"
    using a b by (simp_all only: rn [symmetric] of_nat_le_iff of_nat_less_iff)
  moreover have "int (?a - 1) = int ?a - 1" "int (?b - 1) = int ?b - 1" using a b by auto
  ultimately have lim: "pow2 (int ?a - 1) \<le> of_int n" "of_int n < pow2 (int ?a)"
    "pow2 (int ?b - 1) \<le> of_int d" "of_int d < pow2 (int ?b)"
    by (simp_all add: pow2_nat [symmetric])
  have dpos: "(0::rat) < of_int d" using d by simp
  have "pow2 (int ?a - int ?b - 1) * of_int d \<le> pow2 (int ?a - int ?b - 1) * pow2 (int ?b)"
    using lim(4) by (intro mult_left_mono) (simp_all add: less_imp_le)
  also have "\<dots> = pow2 (int ?a - 1)" by (simp add: pow2_add [symmetric])
  finally have lo: "pow2 (int ?a - int ?b - 1) \<le> x"
    using lim(1) dpos by (simp add: xnd pos_le_divide_eq)
  have "of_int n < pow2 (int ?a - int ?b + 1) * pow2 (int ?b - 1)"
    using lim(2) by (simp add: pow2_add [symmetric])
  also have "\<dots> \<le> pow2 (int ?a - int ?b + 1) * of_int d"
    using lim(3) by (intro mult_left_mono) (simp_all add: less_imp_le)
  finally have hi: "x < pow2 (int ?a - int ?b + 1)"
    using dpos by (simp add: xnd pos_divide_less_eq)
  from lo hi show ?thesis by (auto simp: ilog2_def nd Let_def)
qed

lemma ilog2_unique: "pow2 k \<le> x \<Longrightarrow> x < pow2 (k + 1) \<Longrightarrow> ilog2 x = k"
proof -
  assume k: "pow2 k \<le> x" "x < pow2 (k + 1)"
  then have "0 < x" using pow2_pos [of k] by linarith
  note s = ilog2_spec [OF this]
  have "\<not> ilog2 x + 1 \<le> k" using pow2_mono [of "ilog2 x + 1" k] k s by force
  moreover have "\<not> k + 1 \<le> ilog2 x" using pow2_mono [of "k + 1" "ilog2 x"] k s by force
  ultimately show ?thesis by linarith
qed

lemma round_half_even_near: "\<bar>x - of_int i\<bar> < 1 / 2 \<Longrightarrow> round_half_even x = i"
proof -
  assume "\<bar>x - of_int i\<bar> < 1 / 2"
  with round_half_even_error [of x] have "\<bar>of_int (round_half_even x) - of_int i :: rat\<bar> < 1" by linarith
  then have "\<bar>of_int (round_half_even x - i) :: rat\<bar> < 1" by simp
  then show ?thesis by linarith
qed

text \<open>The value of one rounding, from its binary exponent and its integer significand.\<close>

lemma f64_round_value:
  assumes "pow2 k \<le> \<bar>x\<bar>" and "\<bar>x\<bar> < pow2 (k + 1)" and "-1022 \<le> k" and "k < 1023"
    and "\<bar>x / pow2 (k - 52) - of_int i\<bar> < 1 / 2" and "\<bar>of_int i * pow2 (k - 52)\<bar> < pow2 1024"
  shows "f64_round x = Fin (of_int i * pow2 (k - 52))"
proof -
  have x: "x \<noteq> 0" using assms(1) pow2_pos [of k] by (auto simp: not_le [symmetric] simp del: pow2_pos)
  have q: "max (ilog2 \<bar>x\<bar> - int 53 + 1) (- 1074) = k - 52"
    using ilog2_unique [OF assms(1,2)] assms(3) by simp
  have "round_half_even (x / pow2 (k - 52)) = i" using assms(5) by (rule round_half_even_near)
  with x assms(6) show ?thesis
    unfolding f64_round_def f_round_def q Let_def by (auto simp: abs_less_iff not_le)
qed

lemma f64_round_int:
  assumes "\<bar>i\<bar> < 2 ^ 53"
  shows "f64_round (of_int i) = Fin (of_int i)"
proof (cases "i = 0")
  case False
  define k where "k = ilog2 \<bar>of_int i\<bar>"
  have pos: "(0::rat) < \<bar>of_int i\<bar>" using False by simp
  note s = ilog2_spec [OF pos, folded k_def]
  have "1 \<le> \<bar>i\<bar>" using False by linarith
  then have "(of_int 1 :: rat) \<le> of_int \<bar>i\<bar>" by (simp only: of_int_le_iff)
  then have one: "pow2 0 \<le> (\<bar>of_int i\<bar> :: rat)" by (simp add: pow2_def)
  have lo: "0 \<le> k"
  proof (rule ccontr)
    assume "\<not> 0 \<le> k"
    then have "pow2 (k + 1) \<le> pow2 0" by (intro pow2_mono) simp
    with s one show False by linarith
  qed
  have "(of_int \<bar>i\<bar> :: rat) < of_int (2 ^ 53)" using assms by (simp only: of_int_less_iff)
  then have top: "\<bar>of_int i\<bar> < pow2 53" by (simp add: pow2_def)
  have hi: "k < 53"
  proof (rule ccontr)
    assume "\<not> k < 53"
    then have "pow2 53 \<le> pow2 k" by (intro pow2_mono) simp
    with s top show False by linarith
  qed
  have unit: "pow2 (52 - k) * pow2 (k - 52) = 1" by (simp add: pow2_add [symmetric] pow2_def)
  have scale: "pow2 (52 - k) = of_int (2 ^ nat (52 - k))" using hi by (simp add: pow2_def)
  let ?i = "i * 2 ^ nat (52 - k)"
  have i: "of_int ?i * pow2 (k - 52) = of_int i"
    using unit by (simp add: scale [symmetric, simplified] mult.assoc)
  have "f64_round (of_int i) = Fin (of_int ?i * pow2 (k - 52))"
  proof (rule f64_round_value)
    show "pow2 k \<le> \<bar>of_int i\<bar>" "\<bar>of_int i\<bar> < pow2 (k + 1)" using s by auto
    show "\<bar>of_int i / pow2 (k - 52) - of_int ?i\<bar> < (1 / 2 :: rat)"
      by (simp add: i [symmetric] del: of_int_mult)
    have "pow2 53 \<le> pow2 1024" by (rule pow2_mono) simp
    with top show "\<bar>of_int ?i * pow2 (k - 52)\<bar> < pow2 1024" unfolding i by linarith
  qed (use lo hi in simp_all)
  with i show ?thesis by simp
qed (simp add: f64_round_def)

lemma f64_round_nat: "n < 2 ^ 53 \<Longrightarrow> f64_round (of_nat n) = Fin (of_nat n)"
  using f64_round_int [of "int n"] by simp

lemma f64_round_numeral: "(numeral n :: int) < 2 ^ 53 \<Longrightarrow> f64_round (numeral n) = Fin (numeral n)"
  using f64_round_int [of "numeral n"] by simp

lemma c_arith_Fin:
  "c_mul rnd (Fin a) (Fin b) = rnd (a * b)"
  "c_sub rnd (Fin a) (Fin b) = rnd (a - b)"
  "b \<noteq> 0 \<Longrightarrow> c_div rnd (Fin a) (Fin b) = rnd (a / b)"
  by (simp_all add: c_mul_def c_sub_def c_div_def)

end
