(* ===== verification/C_Number.thy ===== *)
theory C_Number
  imports C_Float
begin

text \<open>
  What the sources use of the C library's text input, in the C locale: character classes,
  \<open>strtol\<close>, \<open>strtoul\<close> (64-bit \<open>long\<close>) and \<open>strtof\<close>/\<open>strtod\<close>. A conversion returns the value, the
  rest of the text from \<open>*endptr\<close> on (the whole text when nothing was converted) and whether
  \<open>errno\<close> was set to \<open>ERANGE\<close>.
\<close>

section \<open>Characters\<close>

definition char_code :: "char \<Rightarrow> nat" where
  "char_code c = of_char c"

definition c_isspace :: "char \<Rightarrow> bool" where
  "c_isspace c \<longleftrightarrow> char_code c = 32 \<or> (9 \<le> char_code c \<and> char_code c \<le> 13)"

definition c_toupper :: "char \<Rightarrow> char" where
  "c_toupper c = (if 97 \<le> char_code c \<and> char_code c \<le> 122 then char_of (char_code c - 32) else c)"

definition c_tolower :: "char \<Rightarrow> char" where
  "c_tolower c = (if 65 \<le> char_code c \<and> char_code c \<le> 90 then char_of (char_code c + 32) else c)"

definition digit_value :: "char \<Rightarrow> nat option" where
  "digit_value c =
     (let n = char_code c in
      if 48 \<le> n \<and> n \<le> 57 then Some (n - 48)
      else if 97 \<le> n \<and> n \<le> 122 then Some (n - 87)
      else if 65 \<le> n \<and> n \<le> 90 then Some (n - 55)
      else None)"

definition is_digit :: "nat \<Rightarrow> char \<Rightarrow> bool" where
  "is_digit base c \<longleftrightarrow> (case digit_value c of None \<Rightarrow> False | Some v \<Rightarrow> v < base)"

definition digits_value :: "nat \<Rightarrow> string \<Rightarrow> nat" where
  "digits_value base ds = foldl (\<lambda>n c. n * base + the (digit_value c)) 0 ds"

section \<open>Integers\<close>

definition take_sign :: "string \<Rightarrow> bool \<times> string" where
  "take_sign s =
     (case s of
        c # cs \<Rightarrow> if c = CHR ''-'' then (True, cs) else if c = CHR ''+'' then (False, cs) else (False, s)
      | [] \<Rightarrow> (False, s))"

definition has_hex_prefix :: "string \<Rightarrow> bool" where
  "has_hex_prefix s \<longleftrightarrow>
     (case s of a # b # c # _ \<Rightarrow> a = CHR ''0'' \<and> (b = CHR ''x'' \<or> b = CHR ''X'') \<and> is_digit 16 c | _ \<Rightarrow> False)"

text \<open>Sign, magnitude and rest of an integer; \<open>None\<close> when there are no digits.\<close>

definition scan_integer :: "nat \<Rightarrow> string \<Rightarrow> (bool \<times> nat \<times> string) option" where
  "scan_integer base s =
     (let (neg, s1) = take_sign (dropWhile c_isspace s);
          s2 = (if base = 16 \<and> has_hex_prefix s1 then drop 2 s1 else s1);
          ds = takeWhile (is_digit base) s2
      in if ds = [] then None else Some (neg, digits_value base ds, dropWhile (is_digit base) s2))"

definition c_strtoul :: "nat \<Rightarrow> string \<Rightarrow> nat \<times> string \<times> bool" where
  "c_strtoul base s =
     (case scan_integer base s of
        None \<Rightarrow> (0, s, False)
      | Some (neg, m, rest) \<Rightarrow>
          if 2 ^ 64 \<le> m then (2 ^ 64 - 1, rest, True)
          else (if neg then (2 ^ 64 - m) mod 2 ^ 64 else m, rest, False))"

definition c_strtol :: "nat \<Rightarrow> string \<Rightarrow> int \<times> string \<times> bool" where
  "c_strtol base s =
     (case scan_integer base s of
        None \<Rightarrow> (0, s, False)
      | Some (neg, m, rest) \<Rightarrow>
          if neg then (if 2 ^ 63 < m then (- (2 ^ 63), rest, True) else (- int m, rest, False))
          else (if 2 ^ 63 \<le> m then (2 ^ 63 - 1, rest, True) else (int m, rest, False)))"

section \<open>Floating point\<close>

text \<open>Digits with an optional point: all digits in order, the number behind the point, the rest.\<close>

definition scan_mantissa :: "nat \<Rightarrow> string \<Rightarrow> (string \<times> nat \<times> string) option" where
  "scan_mantissa base s =
     (let whole = takeWhile (is_digit base) s; r1 = dropWhile (is_digit base) s in
      case r1 of
        c # r2 \<Rightarrow>
          (let frac = takeWhile (is_digit base) r2 in
           if c = CHR ''.'' \<and> whole @ frac \<noteq> []
           then Some (whole @ frac, length frac, dropWhile (is_digit base) r2)
           else if whole = [] then None else Some (whole, 0, r1))
      | [] \<Rightarrow> if whole = [] then None else Some (whole, 0, []))"

text \<open>An optional exponent introduced by one of \<open>marks\<close>.\<close>

definition scan_exponent :: "char set \<Rightarrow> string \<Rightarrow> int \<times> string" where
  "scan_exponent marks s =
     (case s of
        c # s1 \<Rightarrow>
          (let (neg, s2) = take_sign s1; ds = takeWhile (is_digit 10) s2 in
           if c \<in> marks \<and> ds \<noteq> []
           then (if neg then - int (digits_value 10 ds) else int (digits_value 10 ds),
                 dropWhile (is_digit 10) s2)
           else (0, s))
      | [] \<Rightarrow> (0, s))"

definition rat_power :: "rat \<Rightarrow> int \<Rightarrow> rat" where
  "rat_power b e = (if 0 \<le> e then b ^ nat e else 1 / b ^ nat (- e))"

text \<open>The magnitude: a number, infinity or NaN.\<close>

definition lower_prefix :: "string \<Rightarrow> string \<Rightarrow> bool" where
  "lower_prefix p s \<longleftrightarrow> length p \<le> length s \<and> map c_tolower (take (length p) s) = p"

definition nan_char :: "char \<Rightarrow> bool" where
  "nan_char c \<longleftrightarrow> digit_value c \<noteq> None \<or> c = CHR ''_''"

definition scan_nan_rest :: "string \<Rightarrow> string" where
  "scan_nan_rest s =
     (case s of
        c # s1 \<Rightarrow>
          if c = CHR ''('' then
            (case dropWhile nan_char s1 of
               c2 # s2 \<Rightarrow> if c2 = CHR '')'' then s2 else s
             | [] \<Rightarrow> s)
          else s
      | [] \<Rightarrow> s)"

datatype scanned = Number rat | Infinite | Not_A_Number

definition scan_magnitude :: "string \<Rightarrow> (scanned \<times> string) option" where
  "scan_magnitude s =
     (if lower_prefix ''infinity'' s then Some (Infinite, drop 8 s)
      else if lower_prefix ''inf'' s then Some (Infinite, drop 3 s)
      else if lower_prefix ''nan'' s then Some (Not_A_Number, scan_nan_rest (drop 3 s))
      else
        (let hex = (if lower_prefix ''0x'' s then scan_mantissa 16 (drop 2 s) else None) in
         case hex of
           Some (ds, k, rest) \<Rightarrow>
             (let (e, rest1) = scan_exponent {CHR ''p'', CHR ''P''} rest
              in Some (Number (of_nat (digits_value 16 ds) * rat_power 2 (e - 4 * int k)), rest1))
         | None \<Rightarrow>
             (case scan_mantissa 10 s of
                None \<Rightarrow> None
              | Some (ds, k, rest) \<Rightarrow>
                  (let (e, rest1) = scan_exponent {CHR ''e'', CHR ''E''} rest
                   in Some (Number (of_nat (digits_value 10 ds) * rat_power 10 (e - int k)), rest1)))))"

definition c_strto_float ::
  "(rat \<Rightarrow> c_float) \<Rightarrow> rat \<Rightarrow> string \<Rightarrow> c_float \<times> string \<times> bool" where
  "c_strto_float rnd smallest_normal s =
     (let (neg, s1) = take_sign (dropWhile c_isspace s) in
      case scan_magnitude s1 of
        None \<Rightarrow> (Fin 0, s, False)
      | Some (Infinite, rest) \<Rightarrow> (inf_of_sign neg, rest, False)
      | Some (Not_A_Number, rest) \<Rightarrow> (Nan, rest, False)
      | Some (Number x, rest) \<Rightarrow>
          (let y = rnd (if neg then - x else x) in
           (y, rest, (case y of Fin z \<Rightarrow> 0 < x \<and> x < smallest_normal \<and> \<bar>z\<bar> \<noteq> x | _ \<Rightarrow> True))))"

definition c_strtof :: "string \<Rightarrow> c_float \<times> string \<times> bool" where
  "c_strtof = c_strto_float f32_round (pow2 (-126))"

definition c_strtod :: "string \<Rightarrow> c_float \<times> string \<times> bool" where
  "c_strtod = c_strto_float f64_round (pow2 (-1022))"

definition c_isfinite :: "c_float \<Rightarrow> bool" where
  "c_isfinite x \<longleftrightarrow> (case x of Fin _ \<Rightarrow> True | _ \<Rightarrow> False)"

fun c_ceil :: "c_float \<Rightarrow> c_float" where
  "c_ceil (Fin x) = Fin (of_int \<lceil>x\<rceil>)"
| "c_ceil x = x"

lemma c_toupper_idem [simp]: "c_toupper (c_toupper c) = c_toupper c"
proof -
  have "of_char (char_of (n::nat) :: char) = n" if "n < 256" for n
    using that by (simp add: of_char_of)
  then show ?thesis by (auto simp: c_toupper_def char_code_def)
qed

end
