(* ===== verification/Config_Command.thy ===== *)
theory Config_Command
  imports C_Number
begin

text \<open>
  The text of a CONFIG command: the tokenizer \<open>config_parser.cpp\<close>, the strict value parsers of
  \<open>config_value.cpp\<close> and the replay record \<open>config_replay.cpp\<close> with its round trip through the
  tokenizer. A \<open>std::string\<close> here comes from a C string and holds no NUL. The output pointers of
  the value parsers are never NULL where the value is used.
\<close>

section \<open>Value parsers\<close>

definition strip_end :: "(char \<Rightarrow> bool) \<Rightarrow> string \<Rightarrow> string" where
  "strip_end p s = rev (dropWhile p (rev s))"

definition config_value_trim_ascii :: "string \<Rightarrow> string" where
  "config_value_trim_ascii value = strip_end c_isspace (dropWhile c_isspace value)"

definition config_value_lower_ascii :: "string \<Rightarrow> string" where
  "config_value_lower_ascii value = map c_tolower value"

definition config_value_only_trailing_space :: "string \<Rightarrow> bool" where
  "config_value_only_trailing_space s \<longleftrightarrow> dropWhile c_isspace s = []"

definition config_value_parse_int_exact :: "string \<Rightarrow> int option" where
  "config_value_parse_int_exact value =
     (let trimmed = config_value_trim_ascii value in
      if trimmed = [] then None
      else
        (let (parsed, rest, erange) = c_strtol 10 trimmed in
         if rest = trimmed \<or> erange then None
         else if \<not> config_value_only_trailing_space rest then None
         else if parsed < - (2 ^ 31) \<or> 2 ^ 31 - 1 < parsed then None
         else Some parsed))"

definition starts_with_sign :: "string \<Rightarrow> bool" where
  "starts_with_sign s \<longleftrightarrow> (case s of c # _ \<Rightarrow> c = CHR ''-'' \<or> c = CHR ''+'' | [] \<Rightarrow> False)"

definition parse_u32 :: "nat \<Rightarrow> string \<Rightarrow> nat option" where
  "parse_u32 base trimmed =
     (let (parsed, rest, erange) = c_strtoul base trimmed in
      if rest = trimmed \<or> erange then None
      else if \<not> config_value_only_trailing_space rest then None
      else if 2 ^ 32 - 1 < parsed then None
      else Some parsed)"

definition config_value_parse_uint32_exact :: "string \<Rightarrow> nat option" where
  "config_value_parse_uint32_exact value =
     (let trimmed = config_value_trim_ascii value in
      if trimmed = [] \<or> starts_with_sign trimmed then None else parse_u32 10 trimmed)"

definition config_value_parse_hex_or_dec_u32_exact :: "string \<Rightarrow> nat option" where
  "config_value_parse_hex_or_dec_u32_exact value =
     (let trimmed = config_value_trim_ascii value in
      if trimmed = [] \<or> starts_with_sign trimmed then None
      else parse_u32 (if 2 < length trimmed \<and> trimmed ! 0 = CHR ''0'' \<and>
                         (trimmed ! 1 = CHR ''x'' \<or> trimmed ! 1 = CHR ''X'') then 16 else 10) trimmed)"

definition config_value_parse_float_exact :: "string \<Rightarrow> c_float option" where
  "config_value_parse_float_exact value =
     (let trimmed = config_value_trim_ascii value in
      if trimmed = [] then None
      else
        (let (parsed, rest, erange) = c_strtof trimmed in
         if rest = trimmed \<or> erange then None
         else if \<not> config_value_only_trailing_space rest then None
         else if \<not> c_isfinite parsed then None
         else Some parsed))"

definition config_value_parse_bool01_exact :: "string \<Rightarrow> int option" where
  "config_value_parse_bool01_exact value =
     (case config_value_parse_int_exact value of
        None \<Rightarrow> None
      | Some parsed \<Rightarrow> if parsed \<noteq> 0 \<and> parsed \<noteq> 1 then None else Some parsed)"

definition config_value_float_equal :: "c_float \<Rightarrow> c_float \<Rightarrow> bool" where
  "config_value_float_equal value expected \<longleftrightarrow>
     c_less (c_abs (c_sub f32_round value expected)) (f32_round (1 / 10000))"

section \<open>Tokenizer\<close>

record config_command =
  cc_is_set :: bool
  cc_has_params :: bool
  cc_text :: string
  cc_mode :: string
  cc_mode_count :: nat
  cc_tokens :: "(string \<times> string) list"
  cc_malformed :: "string list"

definition uppercase_in_place :: "string \<Rightarrow> string" where
  "uppercase_in_place s = map c_toupper s"

text \<open>One non-empty token; \<open>eq\<close> is the position of its first \<open>=\<close>.\<close>

definition add_token :: "string \<Rightarrow> config_command \<Rightarrow> config_command" where
  "add_token token cmd =
     (let eq = length (takeWhile (\<lambda>c. c \<noteq> CHR ''='') token) in
      if eq < length token \<and> 0 < eq \<and> eq + 1 < length token then
        (let key = uppercase_in_place (take eq token); val = drop (eq + 1) token in
         if key = ''MODE''
         then cmd\<lparr>cc_mode := uppercase_in_place val, cc_mode_count := cc_mode_count cmd + 1\<rparr>
         else cmd\<lparr>cc_tokens := cc_tokens cmd @ [(key, val)]\<rparr>)
      else cmd\<lparr>cc_malformed := cc_malformed cmd @ [token]\<rparr>)"

text \<open>The loop over the blank-separated tokens, on the rest of the text.\<close>

function parse_tokens :: "string \<Rightarrow> config_command \<Rightarrow> config_command" where
  "parse_tokens rest cmd =
     (if rest = [] then cmd
      else
        (let token = takeWhile (\<lambda>c. c \<noteq> CHR '' '') rest
         in parse_tokens (drop (length token + 1) rest)
              (if token \<noteq> [] then add_token token cmd else cmd)))"
  by pat_completeness auto
termination
  by (relation "measure (\<lambda>(rest, cmd). length rest)") auto

declare parse_tokens.simps [simp del]

definition config_parse_command :: "string \<Rightarrow> config_command" where
  "config_parse_command line =
     (let text = strip_end (\<lambda>c. c = CHR 0x0A \<or> c = CHR 0x0D) line;
          cmd = \<lparr>cc_is_set = False, cc_has_params = False, cc_text = text, cc_mode = [],
                 cc_mode_count = 0, cc_tokens = [], cc_malformed = []\<rparr>
      in if text \<noteq> ''SET'' \<and> take 4 text \<noteq> ''SET '' then cmd
         else if CHR '' '' \<notin> set text then cmd\<lparr>cc_is_set := True\<rparr>
         else parse_tokens (drop (length (takeWhile (\<lambda>c. c \<noteq> CHR '' '') text) + 1) text)
                (cmd\<lparr>cc_is_set := True, cc_has_params := True\<rparr>))"

definition config_command_touches_radio :: "string \<Rightarrow> bool" where
  "config_command_touches_radio line =
     (let parsed = config_parse_command line in
      if \<not> cc_is_set parsed \<or> \<not> cc_has_params parsed then False
      else if 0 < cc_mode_count parsed then True
      else list_ex (\<lambda>(key, _). key \<noteq> ''GETRSSI'') (cc_tokens parsed))"

section \<open>The replay record\<close>

record replay =
  rp_mode :: string
  rp_keys :: "(string \<times> string) list"

definition config_apply_replay_reset :: replay where
  "config_apply_replay_reset = \<lparr>rp_mode = [], rp_keys = []\<rparr>"

definition config_apply_replay_start_mode :: "string \<Rightarrow> replay \<Rightarrow> replay" where
  "config_apply_replay_start_mode mode rp = rp\<lparr>rp_mode := mode, rp_keys := []\<rparr>"

fun replay_note_keys :: "string \<Rightarrow> string \<Rightarrow> (string \<times> string) list \<Rightarrow> (string \<times> string) list" where
  "replay_note_keys key val [] = [(key, val)]"
| "replay_note_keys key val ((k, v) # kvs) =
     (if k = key then (k, val) # kvs else (k, v) # replay_note_keys key val kvs)"

definition config_apply_replay_note :: "string \<Rightarrow> string \<Rightarrow> replay \<Rightarrow> replay" where
  "config_apply_replay_note key val rp = rp\<lparr>rp_keys := replay_note_keys key val (rp_keys rp)\<rparr>"

definition config_apply_replay_value :: "string \<Rightarrow> replay \<Rightarrow> string ptr" where
  "config_apply_replay_value key rp = map_of (rp_keys rp) key"

definition config_apply_replay_command :: "replay \<Rightarrow> string" where
  "config_apply_replay_command rp =
     (if rp_mode rp = [] \<and> rp_keys rp = [] then []
      else ''SET'' @ (if rp_mode rp \<noteq> [] then '' MODE='' @ rp_mode rp else []) @
        concat (map (\<lambda>(k, v). '' '' @ k @ ''='' @ v) (rp_keys rp)))"

section \<open>The tokenizer on well-formed text\<close>

lemma takeWhile_all_then: "(\<forall>c\<in>set a. p c) \<Longrightarrow> \<not> p b \<Longrightarrow> takeWhile p (a @ b # c) = a"
  by (induction a) auto

lemma parse_tokens_Nil [simp]: "parse_tokens [] cmd = cmd"
  by (simp add: parse_tokens.simps)

lemma parse_tokens_blank:
  assumes "CHR '' '' \<notin> set token" and "token \<noteq> []"
  shows "parse_tokens (token @ CHR '' '' # rest) cmd = parse_tokens rest (add_token token cmd)"
proof -
  have "takeWhile (\<lambda>c. c \<noteq> CHR '' '') (token @ CHR '' '' # rest) = token"
    using assms(1) by (intro takeWhile_all_then) auto
  with assms(2) show ?thesis by (subst parse_tokens.simps) simp
qed

lemma parse_tokens_last:
  assumes "CHR '' '' \<notin> set token" and "token \<noteq> []"
  shows "parse_tokens token cmd = add_token token cmd"
proof -
  have "takeWhile (\<lambda>c. c \<noteq> CHR '' '') token = token"
    using assms(1) by (auto simp: takeWhile_eq_all_conv)
  note whole = this
  show ?thesis
    unfolding parse_tokens.simps [of token cmd] Let_def whole using assms(2) by simp
qed

text \<open>A token list printed with single blanks is read back token by token.\<close>

lemma parse_tokens_printed:
  assumes "\<forall>t\<in>set ts. CHR '' '' \<notin> set t \<and> t \<noteq> []" and "ts \<noteq> []"
  shows "parse_tokens (tl (concat (map (\<lambda>t. CHR '' '' # t) ts))) cmd = foldl (\<lambda>c t. add_token t c) cmd ts"
  using assms
proof (induction ts arbitrary: cmd)
  case (Cons t ts)
  show ?case
  proof (cases ts)
    case Nil
    with Cons.prems show ?thesis by (simp add: parse_tokens_last)
  next
    case (Cons u us)
    let ?rest = "tl (concat (map (\<lambda>t. CHR '' '' # t) ts))"
    have "tl (concat (map (\<lambda>t. CHR '' '' # t) (t # ts))) = t @ CHR '' '' # ?rest"
      using Cons by simp
    then have "parse_tokens (tl (concat (map (\<lambda>t. CHR '' '' # t) (t # ts)))) cmd =
        parse_tokens ?rest (add_token t cmd)"
      using Cons.prems parse_tokens_blank [of t ?rest cmd] by simp
    also have "\<dots> = foldl (\<lambda>c t. add_token t c) (add_token t cmd) ts"
      using Cons.prems Cons by (intro Cons.IH) simp_all
    finally show ?thesis by simp
  qed
qed simp

lemma add_token_pair:
  assumes "CHR ''='' \<notin> set k" and "k \<noteq> []" and "v \<noteq> []" and "uppercase_in_place k = k" and "k \<noteq> ''MODE''"
  shows "add_token (k @ ''='' @ v) cmd = cmd\<lparr>cc_tokens := cc_tokens cmd @ [(k, v)]\<rparr>"
proof -
  have "takeWhile (\<lambda>c. c \<noteq> CHR ''='') (k @ CHR ''='' # v) = k"
    using assms(1) by (intro takeWhile_all_then) auto
  with assms show ?thesis by (simp add: add_token_def)
qed

end
