(* ===== verification/Config_Policy.thy ===== *)
theory Config_Policy
  imports Config_Command Tx_Types
begin

text \<open>
  Which CONFIG values are allowed: the value policy \<open>config_policy.cpp\<close> with the airtime formulas,
  and the validation of a whole command \<open>config_validate.cpp\<close>. The result pointer of the
  validation is never NULL. The SX1262 power ceiling, a global that is set once at the start, is
  an argument.
\<close>

section \<open>LoRa and FSK values\<close>

definition config_policy_lora_sf_valid :: "int \<Rightarrow> bool" where
  "config_policy_lora_sf_valid sf \<longleftrightarrow> 7 \<le> sf \<and> sf \<le> 12"

definition f32_lits :: "rat list \<Rightarrow> c_float list" where
  "f32_lits xs = map f32_round xs"

definition lora_bandwidths :: "rat list" where
  "lora_bandwidths = [7.8, 10.4, 15.6, 20.8, 31.25, 41.7, 62.5, 125, 250, 500]"

definition config_policy_lora_bandwidth_valid :: "c_float \<Rightarrow> bool" where
  "config_policy_lora_bandwidth_valid bw = list_ex (config_value_float_equal bw) (f32_lits lora_bandwidths)"

definition config_policy_lora_cr_valid :: "int \<Rightarrow> bool" where
  "config_policy_lora_cr_valid cr \<longleftrightarrow> 5 \<le> cr \<and> cr \<le> 8"

definition config_policy_lora_preamble_valid :: "int \<Rightarrow> bool" where
  "config_policy_lora_preamble_valid preamble \<longleftrightarrow> 6 \<le> preamble \<and> preamble \<le> 512"

definition config_policy_lora_sync_valid :: "nat \<Rightarrow> bool" where
  "config_policy_lora_sync_valid sync \<longleftrightarrow> sync \<le> 0xFF"

text \<open>The symbol time in milliseconds, in \<open>double\<close>; \<open>sf\<close> is below 32 at every call.\<close>

definition symbol_time_ms :: "int \<Rightarrow> c_float \<Rightarrow> c_float" where
  "symbol_time_ms sf bw_khz =
     c_mul f64_round
       (c_div f64_round (Fin (2 ^ nat sf)) (c_mul f64_round (f64_of_f32 bw_khz) (Fin 1000)))
       (Fin 1000)"

definition config_policy_lora_ldro_required :: "int \<Rightarrow> c_float \<Rightarrow> bool" where
  "config_policy_lora_ldro_required sf bw_khz =
     (if sf < 0 \<or> c_le bw_khz (Fin 0) then False else c_ge (symbol_time_ms sf bw_khz) (Fin 16))"

definition config_policy_power_valid :: "int \<Rightarrow> bool" where
  "config_policy_power_valid dbm \<longleftrightarrow> 0 \<le> dbm \<and> dbm \<le> 20"

definition config_policy_power_valid_family :: "int \<Rightarrow> int \<Rightarrow> chip_family \<Rightarrow> bool \<Rightarrow> bool" where
  "config_policy_power_valid_family sx1262_max dbm family high_power =
     (if family = SX127X then
        (if 2 \<le> dbm \<and> dbm \<le> 17 then True else high_power \<and> dbm = 20)
      else 0 \<le> dbm \<and> dbm \<le> sx1262_max)"

definition config_policy_fsk_bitrate_valid :: "c_float \<Rightarrow> bool" where
  "config_policy_fsk_bitrate_valid br \<longleftrightarrow> c_ge br (f32_round 0.5) \<and> c_le br (f32_round 300)"

definition config_policy_fsk_freqdev_valid :: "c_float \<Rightarrow> bool" where
  "config_policy_fsk_freqdev_valid freqdev \<longleftrightarrow> c_less (Fin 0) freqdev \<and> c_le freqdev (f32_round 200)"

definition fsk_rx_bandwidths :: "rat list" where
  "fsk_rx_bandwidths = [2.6, 3.1, 3.9, 5.2, 6.3, 7.8, 10.4, 12.5, 15.6, 20.8, 25, 31.25, 31.3, 41.7, 50,
     62.5, 83.3, 100, 125, 166.7, 200, 250]"

definition fsk_rx_bandwidths_sx126x :: "rat list" where
  "fsk_rx_bandwidths_sx126x = [4.8, 5.8, 7.3, 9.7, 11.7, 14.6, 19.5, 23.4, 29.3, 39, 46.9, 58.6, 78.2,
     93.8, 117.3, 156.2, 187.2, 234.3, 312, 373.6, 467]"

definition config_policy_fsk_rxbw_valid :: "c_float \<Rightarrow> bool" where
  "config_policy_fsk_rxbw_valid bw = list_ex (config_value_float_equal bw) (f32_lits fsk_rx_bandwidths)"

definition config_policy_fsk_rxbw_valid_sx126x :: "c_float \<Rightarrow> bool" where
  "config_policy_fsk_rxbw_valid_sx126x bw =
     list_ex (config_value_float_equal bw) (f32_lits fsk_rx_bandwidths_sx126x)"

definition config_policy_fsk_rxbw_valid_family :: "c_float \<Rightarrow> chip_family \<Rightarrow> bool" where
  "config_policy_fsk_rxbw_valid_family bw family =
     (if family = SX1262 then config_policy_fsk_rxbw_valid_sx126x bw else config_policy_fsk_rxbw_valid bw)"

definition config_policy_fsk_preamble_valid :: "int \<Rightarrow> bool" where
  "config_policy_fsk_preamble_valid preamble \<longleftrightarrow> 0 \<le> preamble \<and> preamble \<le> 2048"

definition config_policy_fsk_sync_valid :: "nat \<Rightarrow> bool" where
  "config_policy_fsk_sync_valid sync =
     (if sync = 0 \<or> 0xFFFF < sync then False
      else if sync \<le> 0xFF then sync \<noteq> 0
      else sync div 256 mod 256 \<noteq> 0 \<and> sync mod 256 \<noteq> 0)"

definition config_policy_freq_valid_band :: "c_float \<Rightarrow> c_float \<Rightarrow> c_float \<Rightarrow> bool" where
  "config_policy_freq_valid_band freq min_mhz max_mhz =
     (if \<not> c_less (Fin 0) min_mhz \<or> \<not> c_less min_mhz max_mhz then False
      else c_ge freq min_mhz \<and> c_le freq max_mhz)"

definition config_policy_fsk_freqdev_valid_family :: "c_float \<Rightarrow> chip_family \<Rightarrow> bool" where
  "config_policy_fsk_freqdev_valid_family freqdev family =
     (if \<not> config_policy_fsk_freqdev_valid freqdev then False
      else if family = SX1262 then c_ge freqdev (f32_round 0.6)
      else True)"

definition config_policy_fsk_ook_valid_family :: "int \<Rightarrow> chip_family \<Rightarrow> bool" where
  "config_policy_fsk_ook_valid_family ook family =
     (if family = SX1262 then False else ook = 0 \<or> ook = 1)"

definition config_policy_fsk_encoding_valid_family :: "int \<Rightarrow> chip_family \<Rightarrow> bool" where
  "config_policy_fsk_encoding_valid_family encoding family =
     (if encoding < 0 \<or> 2 < encoding then False
      else if family = SX1262 then encoding \<noteq> 1
      else True)"

section \<open>Airtime\<close>

definition CONFIG_POLICY_MAX_AIRTIME_MS :: c_float where
  "CONFIG_POLICY_MAX_AIRTIME_MS = Fin 20000"

definition config_policy_lora_airtime_ms :: "int \<Rightarrow> c_float \<Rightarrow> int \<Rightarrow> int \<Rightarrow> nat \<Rightarrow> c_float" where
  "config_policy_lora_airtime_ms sf bw_khz cr preamble payload_len =
     (if sf < 6 \<or> c_le bw_khz (Fin 0) \<or> cr < 5 \<or> preamble < 0 then Fin (- 1)
      else
        (let t_sym_ms = symbol_time_ms sf bw_khz;
             de = (if config_policy_lora_ldro_required sf bw_khz then 1 else 0);
             num = c_add f64_round (c_add f64_round
                     (c_sub f64_round (c_mul f64_round (Fin 8) (Fin (of_nat payload_len)))
                        (c_mul f64_round (Fin 4) (Fin (of_int sf)))) (Fin 28)) (Fin 16);
             den = c_mul f64_round (Fin 4) (Fin (of_int (sf - 2 * de)));
             payload_sym = (if c_less (Fin 0) num
               then c_add f64_round (Fin 8)
                      (c_mul f64_round (c_ceil (c_div f64_round num den)) (Fin (of_int cr)))
               else Fin 8)
         in c_mul f64_round
              (c_add f64_round (c_add f64_round (Fin (of_int preamble)) (Fin 4.25)) payload_sym)
              t_sym_ms))"

definition config_policy_fsk_airtime_ms :: "c_float \<Rightarrow> int \<Rightarrow> nat \<Rightarrow> c_float" where
  "config_policy_fsk_airtime_ms br_kbps preamble_bits payload_len =
     (if c_le br_kbps (Fin 0) \<or> preamble_bits < 0 then Fin (- 1)
      else
        (let bits = c_add f64_round (Fin (of_int preamble_bits))
               (c_mul f64_round (Fin 8) (c_add f64_round (Fin (of_nat payload_len)) (Fin 10)))
         in c_mul f64_round
              (c_div f64_round bits (c_mul f64_round (f64_of_f32 br_kbps) (Fin 1000))) (Fin 1000)))"

section \<open>Validation of a command\<close>

record config_limits =
  lim_family :: chip_family
  lim_freq_min :: c_float
  lim_freq_max :: c_float
  lim_high_power :: bool
  lim_power_max :: int

record validation =
  val_valid :: bool
  val_key :: string
  val_value :: string
  val_reason :: string
  val_target_mode :: radio_mode

definition config_validation_result_init :: "radio_mode \<Rightarrow> validation" where
  "config_validation_result_init current_mode =
     \<lparr>val_valid = True, val_key = [], val_value = [], val_reason = [], val_target_mode = current_mode\<rparr>"

definition config_validation_reject :: "string \<Rightarrow> string \<Rightarrow> string \<Rightarrow> validation \<Rightarrow> validation" where
  "config_validation_reject key value reason r =
     r\<lparr>val_valid := False, val_key := key, val_value := value, val_reason := reason\<rparr>"

definition config_is_lora_only_key :: "string \<Rightarrow> bool" where
  "config_is_lora_only_key key \<longleftrightarrow> key \<in> {''SF'', ''BW'', ''CR'', ''LDRO'', ''CRC''}"

definition config_is_fsk_only_key :: "string \<Rightarrow> bool" where
  "config_is_fsk_only_key key \<longleftrightarrow> key \<in> {''BR'', ''FREQDEV'', ''RXBW'', ''OOK'', ''SHAPING'', ''ENCODING''}"

definition config_is_common_key :: "string \<Rightarrow> bool" where
  "config_is_common_key key \<longleftrightarrow> key \<in> {''FREQ'', ''POWER'', ''PREAMBLE'', ''SYNC''}"

definition config_is_known_config_key :: "string \<Rightarrow> bool" where
  "config_is_known_config_key key \<longleftrightarrow>
     key = ''GETRSSI'' \<or> config_is_common_key key \<or> config_is_lora_only_key key \<or> config_is_fsk_only_key key"

definition parsed_ok :: "'a option \<Rightarrow> ('a \<Rightarrow> bool) \<Rightarrow> bool" where
  "parsed_ok v p \<longleftrightarrow> (case v of None \<Rightarrow> False | Some x \<Rightarrow> p x)"

definition config_validate_freq_value :: "config_limits \<Rightarrow> string \<Rightarrow> bool" where
  "config_validate_freq_value cl val =
     parsed_ok (config_value_parse_float_exact val)
       (\<lambda>f. config_policy_freq_valid_band f (lim_freq_min cl) (lim_freq_max cl))"

definition config_validate_power_value :: "config_limits \<Rightarrow> string \<Rightarrow> bool" where
  "config_validate_power_value cl val =
     parsed_ok (config_value_parse_int_exact val)
       (\<lambda>p. config_policy_power_valid_family (lim_power_max cl) p (lim_family cl) (lim_high_power cl))"

definition config_validate_power_needs_permission :: "config_limits \<Rightarrow> string \<Rightarrow> bool" where
  "config_validate_power_needs_permission cl val \<longleftrightarrow>
     lim_family cl = SX127X \<and> \<not> lim_high_power cl \<and> config_value_parse_int_exact val = Some 20"

definition config_validate_lora_value :: "config_limits \<Rightarrow> string \<Rightarrow> string \<Rightarrow> bool" where
  "config_validate_lora_value cl key val =
     (if key = ''FREQ'' then config_validate_freq_value cl val
      else if key = ''POWER'' then config_validate_power_value cl val
      else if key = ''SF'' then parsed_ok (config_value_parse_int_exact val) config_policy_lora_sf_valid
      else if key = ''BW'' then
        parsed_ok (config_value_parse_float_exact val) config_policy_lora_bandwidth_valid
      else if key = ''CR'' then parsed_ok (config_value_parse_int_exact val) config_policy_lora_cr_valid
      else if key = ''CRC'' then config_value_parse_bool01_exact val \<noteq> None
      else if key = ''PREAMBLE'' then
        parsed_ok (config_value_parse_int_exact val) config_policy_lora_preamble_valid
      else if key = ''SYNC'' then
        parsed_ok (config_value_parse_hex_or_dec_u32_exact val) config_policy_lora_sync_valid
      else if key = ''LDRO'' then
        (config_value_lower_ascii (config_value_trim_ascii val) = ''auto'' \<or>
         config_value_parse_bool01_exact val \<noteq> None)
      else True)"

definition config_validate_fsk_shaping_value :: "string \<Rightarrow> bool" where
  "config_validate_fsk_shaping_value val =
     (let norm = config_value_lower_ascii (config_value_trim_ascii val) in
      if norm = ''off'' \<or> norm = ''none'' then True
      else parsed_ok (config_value_parse_float_exact norm)
             (\<lambda>shaping. list_ex (config_value_float_equal shaping) (f32_lits [0, 0.3, 0.5, 0.7, 1])))"

definition config_validate_fsk_value :: "config_limits \<Rightarrow> string \<Rightarrow> string \<Rightarrow> bool" where
  "config_validate_fsk_value cl key val =
     (if key = ''FREQ'' then config_validate_freq_value cl val
      else if key = ''POWER'' then config_validate_power_value cl val
      else if key = ''BR'' then parsed_ok (config_value_parse_float_exact val) config_policy_fsk_bitrate_valid
      else if key = ''FREQDEV'' then
        parsed_ok (config_value_parse_float_exact val)
          (\<lambda>f. config_policy_fsk_freqdev_valid_family f (lim_family cl))
      else if key = ''RXBW'' then
        parsed_ok (config_value_parse_float_exact val)
          (\<lambda>bw. config_policy_fsk_rxbw_valid_family bw (lim_family cl))
      else if key = ''OOK'' then
        parsed_ok (config_value_parse_bool01_exact val)
          (\<lambda>ook. config_policy_fsk_ook_valid_family ook (lim_family cl))
      else if key = ''SHAPING'' then config_validate_fsk_shaping_value val
      else if key = ''ENCODING'' then
        parsed_ok (config_value_parse_int_exact val)
          (\<lambda>e. config_policy_fsk_encoding_valid_family e (lim_family cl))
      else if key = ''PREAMBLE'' then
        parsed_ok (config_value_parse_int_exact val) config_policy_fsk_preamble_valid
      else if key = ''SYNC'' then
        parsed_ok (config_value_parse_hex_or_dec_u32_exact val) config_policy_fsk_sync_valid
      else True)"

definition config_validate_reject_reason :: "config_limits \<Rightarrow> string \<Rightarrow> string \<Rightarrow> string \<Rightarrow> string" where
  "config_validate_reject_reason cl key val generic =
     (if key = ''POWER'' \<and> config_validate_power_needs_permission cl val
      then ''high-power mode not enabled (start with --high-power)''
      else if key \<noteq> ''FREQ'' then generic
      else if parsed_ok (config_value_parse_float_exact val)
             (\<lambda>f. c_less (Fin 0) f \<and> \<not> config_policy_freq_valid_band f (lim_freq_min cl) (lim_freq_max cl))
        then ''off-band frequency (band policy)''
      else generic)"

text \<open>
  What the loop body rejects a token for: unknown, a duplicate of an earlier one, or a bad value;
  \<open>None\<close> is \<open>continue\<close>.
\<close>

definition token_rejection ::
  "config_limits \<Rightarrow> radio_mode \<Rightarrow> (string \<times> string) list \<Rightarrow> string \<Rightarrow> string \<Rightarrow> string option" where
  "token_rejection cl target_mode earlier key val =
     (if \<not> config_is_known_config_key key then Some ''unknown key''
      else if list_ex (\<lambda>(k, _). k = key) earlier then Some ''duplicate key''
      else if key = ''GETRSSI'' then
        (if config_value_parse_bool01_exact val = None then Some ''invalid boolean'' else None)
      else if target_mode = RADIO_MODE_FSK then
        (if config_is_lora_only_key key then None
         else if \<not> config_validate_fsk_value cl key val
           then Some (config_validate_reject_reason cl key val ''invalid FSK value'') else None)
      else
        (if config_is_fsk_only_key key then None
         else if \<not> config_validate_lora_value cl key val
           then Some (config_validate_reject_reason cl key val ''invalid LoRa value'') else None))"

fun validate_tokens ::
  "config_limits \<Rightarrow> radio_mode \<Rightarrow> (string \<times> string) list \<Rightarrow> (string \<times> string) list \<Rightarrow> validation
     \<Rightarrow> bool \<times> validation" where
  "validate_tokens cl mode earlier [] r = (True, r)"
| "validate_tokens cl mode earlier ((key, val) # rest) r =
     (case token_rejection cl mode earlier key val of
        Some reason \<Rightarrow> (False, config_validation_reject key val reason r)
      | None \<Rightarrow> validate_tokens cl mode (earlier @ [(key, val)]) rest r)"

definition config_validate_command ::
  "config_limits \<Rightarrow> config_command \<Rightarrow> radio_mode \<Rightarrow> bool \<times> validation" where
  "config_validate_command cl cmd current_mode =
     (let r = config_validation_result_init current_mode in
      if \<not> cc_is_set cmd \<or> \<not> cc_has_params cmd then (True, r)
      else if cc_malformed cmd \<noteq> [] then
        (False, config_validation_reject (hd (cc_malformed cmd)) [] ''malformed token'' r)
      else if 1 < cc_mode_count cmd then
        (False, config_validation_reject ''MODE'' (cc_mode cmd) ''duplicate key'' r)
      else if cc_mode cmd \<noteq> [] \<and> cc_mode cmd \<noteq> ''FSK'' \<and> cc_mode cmd \<noteq> ''LORA'' then
        (False, config_validation_reject ''MODE'' (cc_mode cmd) ''unknown mode'' r)
      else
        (let target = (if cc_mode cmd = ''FSK'' then RADIO_MODE_FSK
               else if cc_mode cmd = ''LORA'' then RADIO_MODE_LORA else current_mode)
         in validate_tokens cl target [] (cc_tokens cmd) (r\<lparr>val_target_mode := target\<rparr>)))"

section \<open>What an accepted command guarantees\<close>

lemma validate_tokens_True:
  "validate_tokens cl mode earlier ts r = (True, r') \<Longrightarrow>
     r' = r \<and> (\<forall>i<length ts. token_rejection cl mode (earlier @ take i ts) (fst (ts ! i)) (snd (ts ! i)) = None)"
proof (induction cl mode earlier ts r rule: validate_tokens.induct)
  case (2 cl mode earlier key val rest r)
  then have "token_rejection cl mode earlier key val = None" by (auto split: option.splits)
  with 2 show ?case by (auto simp: less_Suc_eq_0_disj)
qed simp

lemma validate_tokens_accepts:
  "(\<forall>i<length ts. token_rejection cl mode (earlier @ take i ts) (fst (ts ! i)) (snd (ts ! i)) = None) \<Longrightarrow>
     validate_tokens cl mode earlier ts r = (True, r)"
proof (induction cl mode earlier ts r rule: validate_tokens.induct)
  case (2 cl mode earlier key val rest r)
  have "token_rejection cl mode earlier key val = None" using 2(2) by force
  moreover have "\<forall>i<length rest. token_rejection cl mode ((earlier @ [(key, val)]) @ take i rest)
      (fst (rest ! i)) (snd (rest ! i)) = None"
    using 2(2) by force
  ultimately show ?case using "2.IH" by simp
qed simp

lemma validate_tokens_distinct:
  assumes "validate_tokens cl mode earlier ts r = (True, r')" and "distinct (map fst earlier)"
  shows "distinct (map fst (earlier @ ts))"
  using assms
proof (induction cl mode earlier ts r rule: validate_tokens.induct)
  case (2 cl mode earlier key val rest r)
  then have none: "token_rejection cl mode earlier key val = None" by (auto split: option.splits)
  then have "key \<notin> fst ` set earlier"
    by (force simp: token_rejection_def list_ex_iff split: if_splits)
  with 2 none show ?case by simp
qed simp

text \<open>A value is acceptable in a mode: what the validation asks of a radio parameter.\<close>

definition radio_value_ok :: "config_limits \<Rightarrow> radio_mode \<Rightarrow> string \<Rightarrow> string \<Rightarrow> bool" where
  "radio_value_ok cl mode key val \<longleftrightarrow>
     key \<noteq> ''GETRSSI'' \<and> config_is_known_config_key key \<and>
     (if mode = RADIO_MODE_FSK then \<not> config_is_lora_only_key key \<and> config_validate_fsk_value cl key val
      else \<not> config_is_fsk_only_key key \<and> config_validate_lora_value cl key val)"

lemma token_accepted_ok:
  "token_rejection cl mode earlier key val = None \<Longrightarrow> key \<noteq> ''GETRSSI'' \<Longrightarrow>
     (if mode = RADIO_MODE_FSK then \<not> config_is_lora_only_key key else \<not> config_is_fsk_only_key key) \<Longrightarrow>
     radio_value_ok cl mode key val"
  by (auto simp: token_rejection_def radio_value_ok_def split: if_splits)

lemma radio_value_ok_power:
  "radio_value_ok cl mode ''POWER'' val \<Longrightarrow>
     \<exists>p. config_value_parse_int_exact val = Some p \<and>
       config_policy_power_valid_family (lim_power_max cl) p (lim_family cl) (lim_high_power cl)"
  by (auto simp: radio_value_ok_def config_validate_fsk_value_def config_validate_lora_value_def
      config_validate_power_value_def parsed_ok_def split: if_splits option.splits)

lemma radio_value_ok_freq:
  "radio_value_ok cl mode ''FREQ'' val \<Longrightarrow>
     \<exists>f. config_value_parse_float_exact val = Some f \<and>
       config_policy_freq_valid_band f (lim_freq_min cl) (lim_freq_max cl)"
  by (auto simp: radio_value_ok_def config_validate_fsk_value_def config_validate_lora_value_def
      config_validate_freq_value_def parsed_ok_def split: if_splits option.splits)

end
