(* ===== verification/Radio_Ctrl.thy ===== *)
theory Radio_Ctrl
  imports C_Float Stats
begin

text \<open>
  The radio controller (\<open>radio_controller.h\<close>), the driver interface it calls (\<open>radio_driver.h\<close>)
  and the supervision of the receiver's re-arm (\<open>daemon_rx_rearm.cpp\<close>).

  The driver runs RadioLib and a chip; it is a parameter: an oracle that answers each call from
  the whole history of calls. All statements hold for every oracle, so for every chip behaviour.
  After each call the chip's interrupt may fire; when the packet callback is attached this sets
  \<open>received\<close> (the alert thread of the code). The controller keeps the history (newest first) and
  whether the callback is attached; both are ghost fields. Log output is not modelled.
\<close>

section \<open>The driver\<close>

datatype drv_call =
  Call_Transmit bytes | Call_StartReceive | Call_ReadData nat | Call_GetPacketLength
| Call_GetRSSI | Call_GetSNR | Call_Standby | Call_Sleep | Call_ClearIrq
| Call_SetAction | Call_ClearAction | Call_ScanChannel | Call_RxDonePending
| Call_RssiProbe | Call_ReadLiveRssi
| Call_SwitchMode radio_mode | Call_LoraParam string string | Call_FskParam string string

record driver =
  dv_status :: "drv_call list \<Rightarrow> int"
  dv_length :: "drv_call list \<Rightarrow> int"
  dv_data :: "drv_call list \<Rightarrow> bytes"
  dv_float :: "drv_call list \<Rightarrow> c_float"
  dv_rx_done :: "drv_call list \<Rightarrow> bool"
  dv_alert :: "drv_call list \<Rightarrow> bool"

definition RADIOLIB_ERR_NONE :: int where
  [c_consts]: "RADIOLIB_ERR_NONE = 0"

section \<open>The controller\<close>

datatype radio_band = RADIO_BAND_433 | RADIO_BAND_868
datatype radio_tx_mode = RADIO_TX_MODE_MANAGED | RADIO_TX_MODE_DIRECT

fun radio_tx_mode_name :: "radio_tx_mode \<Rightarrow> string" where
  "radio_tx_mode_name RADIO_TX_MODE_DIRECT = ''DIRECT''"
| "radio_tx_mode_name RADIO_TX_MODE_MANAGED = ''MANAGED''"

fun radio_mode_name :: "radio_mode \<Rightarrow> string" where
  "radio_mode_name RADIO_MODE_FSK = ''FSK''"
| "radio_mode_name RADIO_MODE_LORA = ''LORA''"

record radio =
  rc_band :: radio_band
  rc_tag :: string
  rc_is_hf :: bool
  rc_driver :: bool
  rc_health :: radio_health
  rc_mode :: radio_mode
  rc_received :: bool
  rc_rearm_pending :: bool
  rc_rearm_failures :: u32
  rc_next_retry_ms :: int
  rc_tx_busy :: bool
  rc_tx_gen :: u32
  rc_tx_broadcast_gen :: u32
  rc_cad_active :: bool
  rc_cad_broadcast_active :: bool
  rc_cad_monitor_active :: bool
  rc_cad_free_streak :: int
  rc_cad_threshold :: c_float
  rc_getrssi_active :: bool
  rc_tx_result_active :: bool
  rc_tx_queue_active :: bool
  rc_tx_mode :: radio_tx_mode
  rc_tx_result_seq :: u16
  rc_cad_wait_ms :: u32
  rc_cad_idle_ms :: u32
  rc_cad_poll_ms :: u32
  rc_cad_after_timeout :: bool
  rc_cad_scan_available :: bool
  rc_chip_family :: chip_family
  rc_high_power :: bool
  rc_ocp_ma :: int
  rc_instance_id :: "string ptr"
  rc_usb_wait_port :: string
  rc_bound :: string
  rc_stats :: radio_stats
  rc_action :: bool
  rc_calls :: "drv_call list"

definition RADIO_CAD_RSSI_BUSY_THRESHOLD_DBM :: c_float where
  "RADIO_CAD_RSSI_BUSY_THRESHOLD_DBM = Fin (- 90)"

definition radio_controller_init :: "radio_band \<Rightarrow> string \<Rightarrow> bool \<Rightarrow> radio" where
  "radio_controller_init band tag is_hf =
     \<lparr>rc_band = band, rc_tag = tag, rc_is_hf = is_hf, rc_driver = False,
      rc_health = RADIO_HEALTH_UNINITIALIZED, rc_mode = RADIO_MODE_LORA, rc_received = False,
      rc_rearm_pending = False, rc_rearm_failures = 0, rc_next_retry_ms = 0, rc_tx_busy = False,
      rc_tx_gen = 0, rc_tx_broadcast_gen = 0, rc_cad_active = False, rc_cad_broadcast_active = False,
      rc_cad_monitor_active = False, rc_cad_free_streak = 0,
      rc_cad_threshold = RADIO_CAD_RSSI_BUSY_THRESHOLD_DBM, rc_getrssi_active = False,
      rc_tx_result_active = False, rc_tx_queue_active = True, rc_tx_mode = RADIO_TX_MODE_MANAGED,
      rc_tx_result_seq = 0, rc_cad_wait_ms = DAEMON_TX_POLICY_CAD_WAIT_TIMEOUT_MS,
      rc_cad_idle_ms = DAEMON_TX_POLICY_CAD_IDLE_STABLE_MS,
      rc_cad_poll_ms = DAEMON_TX_POLICY_POLL_INTERVAL_MS,
      rc_cad_after_timeout = DAEMON_TX_POLICY_SEND_AFTER_CAD_TIMEOUT, rc_cad_scan_available = True,
      rc_chip_family = SX127X, rc_high_power = False, rc_ocp_ma = 100, rc_instance_id = NULL,
      rc_usb_wait_port = ''-'', rc_bound = ''-'', rc_stats = daemon_radio_stats_init,
      rc_action = False, rc_calls = []\<rparr>"

definition radio_controller_band_number :: "radio \<Rightarrow> int" where
  "radio_controller_band_number r = (case rc_band r of RADIO_BAND_433 \<Rightarrow> 433 | RADIO_BAND_868 \<Rightarrow> 868)"

definition radio_controller_ready :: "radio \<Rightarrow> bool" where
  "radio_controller_ready r \<longleftrightarrow> radio_health_is_ready (rc_health r)"

text \<open>One driver call; the answers are read off the history that ends with it.\<close>

definition drv :: "driver \<Rightarrow> drv_call \<Rightarrow> radio \<Rightarrow> radio" where
  "drv d c r =
     (let calls = c # rc_calls r;
          attached = (case c of Call_SetAction \<Rightarrow> True | Call_ClearAction \<Rightarrow> False | Call_SwitchMode _ \<Rightarrow> False | _ \<Rightarrow> rc_action r)
      in r\<lparr>rc_calls := calls, rc_action := attached,
           rc_received := rc_received r \<or> (attached \<and> dv_alert d calls)\<rparr>)"

definition drv_status :: "driver \<Rightarrow> drv_call \<Rightarrow> radio \<Rightarrow> int \<times> radio" where
  "drv_status d c r = (let r1 = drv d c r in (dv_status d (rc_calls r1), r1))"

definition drv_float :: "driver \<Rightarrow> drv_call \<Rightarrow> radio \<Rightarrow> c_float \<times> radio" where
  "drv_float d c r = (let r1 = drv d c r in (dv_float d (rc_calls r1), r1))"

lemma drv_fields [frame_simps, simp]:
  "rc_calls (drv d c r) = c # rc_calls r"
  "rc_band (drv d c r) = rc_band r" "rc_driver (drv d c r) = rc_driver r"
  "rc_health (drv d c r) = rc_health r" "rc_mode (drv d c r) = rc_mode r"
  "rc_rearm_pending (drv d c r) = rc_rearm_pending r"
  "rc_rearm_failures (drv d c r) = rc_rearm_failures r"
  "rc_next_retry_ms (drv d c r) = rc_next_retry_ms r"
  "rc_tx_busy (drv d c r) = rc_tx_busy r" "rc_tx_gen (drv d c r) = rc_tx_gen r"
  "rc_cad_active (drv d c r) = rc_cad_active r" "rc_cad_threshold (drv d c r) = rc_cad_threshold r"
  "rc_stats (drv d c r) = rc_stats r" "rc_cad_scan_available (drv d c r) = rc_cad_scan_available r"
  "rc_chip_family (drv d c r) = rc_chip_family r"
  by (simp_all add: drv_def Let_def)

lemma drv_status_simps [simp]:
  "snd (drv_status d c r) = drv d c r" "fst (drv_status d c r) = dv_status d (c # rc_calls r)"
  by (simp_all add: drv_status_def Let_def)

lemma drv_float_simps [simp]:
  "snd (drv_float d c r) = drv d c r" "fst (drv_float d c r) = dv_float d (c # rc_calls r)"
  by (simp_all add: drv_float_def Let_def)

lemma drv_action [simp]:
  "rc_action (drv d c r) = (case c of Call_SetAction \<Rightarrow> True | Call_ClearAction \<Rightarrow> False | Call_SwitchMode _ \<Rightarrow> False | _ \<Rightarrow> rc_action r)"
  by (simp add: drv_def Let_def)

lemma drv_received_keep: "rc_received r \<Longrightarrow> rc_received (drv d c r)"
  by (simp add: drv_def Let_def)

definition radio_controller_packet_rssi :: "driver \<Rightarrow> radio \<Rightarrow> c_float \<times> radio" where
  "radio_controller_packet_rssi d r =
     (if \<not> rc_driver r then (Fin (- 200), r) else drv_float d Call_GetRSSI r)"

section \<open>Supervision of the re-arm\<close>

definition DAEMON_RX_REARM_FAIL_LIMIT :: u32 where
  [c_consts]: "DAEMON_RX_REARM_FAIL_LIMIT = 30"
definition DAEMON_RX_REARM_RETRY_MS :: int where
  [c_consts]: "DAEMON_RX_REARM_RETRY_MS = 1000"

definition daemon_rx_rearm_note_result :: "int \<Rightarrow> radio \<Rightarrow> radio" where
  "daemon_rx_rearm_note_result state r =
     (if state = RADIOLIB_ERR_NONE then r\<lparr>rc_rearm_failures := 0, rc_rearm_pending := False\<rparr>
      else
        (let r1 = r\<lparr>rc_stats := daemon_radio_stats_record_rx_rearm_failure (rc_stats r),
                    rc_rearm_failures := rc_rearm_failures r + 1\<rparr>;
             consecutive = rc_rearm_failures r1;
             r2 = (if DAEMON_RX_REARM_FAIL_LIMIT \<le> consecutive \<and> radio_controller_ready r1
                   then r1\<lparr>rc_health := RADIO_HEALTH_FAILED\<rparr> else r1)
         in r2\<lparr>rc_rearm_pending := True\<rparr>))"

definition daemon_rx_rearm_boot_result :: "int \<Rightarrow> radio \<Rightarrow> bool \<times> radio" where
  "daemon_rx_rearm_boot_result state r =
     (if state = RADIOLIB_ERR_NONE then (True, r)
      else (False, r\<lparr>rc_health := RADIO_HEALTH_FAILED\<rparr>))"

text \<open>
  \<open>can_lock\<close> is the result of \<open>try_to_lock\<close> on the radio mutex, \<open>tx_race\<close> whether the transmit
  worker raised \<open>tx_busy\<close> between the first test and the lock.
\<close>

definition tx_race_step :: "bool \<Rightarrow> radio \<Rightarrow> radio" where
  "tx_race_step tx_race r = (if tx_race then r\<lparr>rc_tx_busy := True\<rparr> else r)"

definition rearm_start_receive :: "driver \<Rightarrow> radio \<Rightarrow> radio" where
  "rearm_start_receive d r =
     (let (state, r1) = drv_status d Call_StartReceive r in daemon_rx_rearm_note_result state r1)"

definition daemon_rx_rearm_retry :: "driver \<Rightarrow> bool \<Rightarrow> bool \<Rightarrow> int \<Rightarrow> radio \<Rightarrow> radio" where
  "daemon_rx_rearm_retry d can_lock tx_race now_ms r =
     (if \<not> rc_rearm_pending r \<or> rc_tx_busy r then r
      else if now_ms < rc_next_retry_ms r then r
      else
        (let r1 = r\<lparr>rc_next_retry_ms := now_ms + DAEMON_RX_REARM_RETRY_MS\<rparr> in
         if \<not> radio_controller_ready r1 \<or> \<not> rc_driver r1 then r1
         else if rc_received r1 then r1
         else if \<not> can_lock then r1
         else
           (let r2 = tx_race_step tx_race r1 in
            if rc_tx_busy r2 then r2
            else rearm_start_receive d (drv d Call_SetAction r2))))"

lemma note_result_fields [frame_simps, simp]:
  "rc_calls (daemon_rx_rearm_note_result s r) = rc_calls r"
  "rc_received (daemon_rx_rearm_note_result s r) = rc_received r"
  "rc_action (daemon_rx_rearm_note_result s r) = rc_action r"
  "rc_mode (daemon_rx_rearm_note_result s r) = rc_mode r"
  "rc_driver (daemon_rx_rearm_note_result s r) = rc_driver r"
  "rc_band (daemon_rx_rearm_note_result s r) = rc_band r"
  "rc_tx_busy (daemon_rx_rearm_note_result s r) = rc_tx_busy r"
  "rc_tx_gen (daemon_rx_rearm_note_result s r) = rc_tx_gen r"
  "rc_cad_active (daemon_rx_rearm_note_result s r) = rc_cad_active r"
  "rc_next_retry_ms (daemon_rx_rearm_note_result s r) = rc_next_retry_ms r"
  by (simp_all add: daemon_rx_rearm_note_result_def Let_def)

lemma note_result_pending [simp]:
  "rc_rearm_pending (daemon_rx_rearm_note_result s r) \<longleftrightarrow> s \<noteq> RADIOLIB_ERR_NONE"
  by (simp add: daemon_rx_rearm_note_result_def Let_def)

lemma note_result_stats:
  "st_rx_rearm_failures (rc_stats (daemon_rx_rearm_note_result s r)) =
     st_rx_rearm_failures (rc_stats r) + (if s = RADIOLIB_ERR_NONE then 0 else 1)"
  by (simp add: daemon_rx_rearm_note_result_def Let_def daemon_radio_stats_record_rx_rearm_failure_def)

lemma rearm_start_receive_fields [simp]:
  "rc_calls (rearm_start_receive d r) = Call_StartReceive # rc_calls r"
  "rc_action (rearm_start_receive d r) = rc_action r"
  "rc_mode (rearm_start_receive d r) = rc_mode r"
  "rc_driver (rearm_start_receive d r) = rc_driver r"
  "rc_tx_busy (rearm_start_receive d r) = rc_tx_busy r"
  "rc_tx_gen (rearm_start_receive d r) = rc_tx_gen r"
  "rc_cad_active (rearm_start_receive d r) = rc_cad_active r"
  "rc_rearm_pending (rearm_start_receive d r) \<longleftrightarrow>
     dv_status d (Call_StartReceive # rc_calls r) \<noteq> RADIOLIB_ERR_NONE"
  by (simp_all add: rearm_start_receive_def drv_status_def Let_def)

subsection \<open>Escalation\<close>

text \<open>The longest run of failures, and the run at the end, of a list of re-arm results.\<close>

fun fail_run :: "int list \<Rightarrow> nat \<Rightarrow> nat" where
  "fail_run [] n = n"
| "fail_run (s # ss) n = fail_run ss (if s = RADIOLIB_ERR_NONE then 0 else Suc n)"

fun max_run :: "int list \<Rightarrow> nat \<Rightarrow> nat" where
  "max_run [] n = n"
| "max_run (s # ss) n = max n (max_run ss (if s = RADIOLIB_ERR_NONE then 0 else Suc n))"

lemma max_run_ge: "n \<le> max_run ss n"
  by (cases ss) simp_all

lemma note_results_fold:
  assumes "unat (rc_rearm_failures r) + length ss < 2 ^ 32"
  shows "unat (rc_rearm_failures (fold daemon_rx_rearm_note_result ss r)) =
      fail_run ss (unat (rc_rearm_failures r)) \<and>
    st_rx_rearm_failures (rc_stats (fold daemon_rx_rearm_note_result ss r)) =
      st_rx_rearm_failures (rc_stats r) + length (filter (\<lambda>s. s \<noteq> RADIOLIB_ERR_NONE) ss) \<and>
    (rc_health r = RADIO_HEALTH_READY \<longrightarrow> unat (rc_rearm_failures r) < 30 \<longrightarrow>
      rc_health (fold daemon_rx_rearm_note_result ss r) =
        (if 30 \<le> max_run ss (unat (rc_rearm_failures r)) then RADIO_HEALTH_FAILED else RADIO_HEALTH_READY)) \<and>
    (rc_health r = RADIO_HEALTH_FAILED \<longrightarrow>
      rc_health (fold daemon_rx_rearm_note_result ss r) = RADIO_HEALTH_FAILED)"
  using assms
proof (induction ss arbitrary: r)
  case Nil
  then show ?case by simp
next
  case (Cons s ss)
  let ?r1 = "daemon_rx_rearm_note_result s r" and ?n = "unat (rc_rearm_failures r)"
  have n1: "unat (rc_rearm_failures ?r1) = (if s = RADIOLIB_ERR_NONE then 0 else Suc ?n)"
    using Cons.prems
    by (simp add: daemon_rx_rearm_note_result_def Let_def unat_plus_if_size word_size)
  have limit: "DAEMON_RX_REARM_FAIL_LIMIT \<le> rc_rearm_failures r + 1 \<longleftrightarrow> 30 \<le> Suc ?n"
    using Cons.prems
    by (simp add: word_le_nat_alt c_consts unat_plus_if_size word_size)
  have h1: "rc_health ?r1 = (if s \<noteq> RADIOLIB_ERR_NONE \<and> 30 \<le> Suc ?n \<and> rc_health r = RADIO_HEALTH_READY
      then RADIO_HEALTH_FAILED else rc_health r)"
    by (simp add: daemon_rx_rearm_note_result_def Let_def limit radio_controller_ready_def
        radio_health_is_ready_def)
  have "unat (rc_rearm_failures ?r1) + length ss < 2 ^ 32"
    using Cons.prems n1 by auto
  note IH = Cons.IH [OF this]
  have mx: "30 \<le> max_run (s # ss) ?n \<longleftrightarrow> 30 \<le> ?n \<or> 30 \<le> max_run ss (unat (rc_rearm_failures ?r1))"
    by (auto simp: n1 le_max_iff_disj)
  have bound: "unat (rc_rearm_failures ?r1) \<le> max_run ss (unat (rc_rearm_failures ?r1))"
    by (rule max_run_ge)
  show ?case
  proof (intro conjI impI)
    show "unat (rc_rearm_failures (fold daemon_rx_rearm_note_result (s # ss) r)) = fail_run (s # ss) ?n"
      using IH n1 by simp
    show "st_rx_rearm_failures (rc_stats (fold daemon_rx_rearm_note_result (s # ss) r)) =
        st_rx_rearm_failures (rc_stats r) + length (filter (\<lambda>s. s \<noteq> RADIOLIB_ERR_NONE) (s # ss))"
      using IH note_result_stats [of s r] by simp
    show "rc_health (fold daemon_rx_rearm_note_result (s # ss) r) = RADIO_HEALTH_FAILED"
      if "rc_health r = RADIO_HEALTH_FAILED"
      using IH h1 that by simp
    show "rc_health (fold daemon_rx_rearm_note_result (s # ss) r) =
        (if 30 \<le> max_run (s # ss) ?n then RADIO_HEALTH_FAILED else RADIO_HEALTH_READY)"
      if "rc_health r = RADIO_HEALTH_READY" "?n < 30"
    proof (cases "s \<noteq> RADIOLIB_ERR_NONE \<and> 30 \<le> Suc ?n")
      case True
      then have "rc_health ?r1 = RADIO_HEALTH_FAILED" using h1 that by simp
      moreover have "30 \<le> max_run (s # ss) ?n" using True bound n1 mx by auto
      ultimately show ?thesis using IH by simp
    next
      case False
      then have "rc_health ?r1 = RADIO_HEALTH_READY" "unat (rc_rearm_failures ?r1) < 30"
        using h1 n1 that by auto
      then show ?thesis using IH mx that(2) by simp
    qed
  qed
qed

text \<open>
  A receiver that stays deaf does not stay READY: over any sequence of re-arm results of a
  ready radio, the health becomes FAILED exactly when 30 failures came in a row, the failure
  counter of the statistics counts every failure, and the consecutive counter is the length of
  the current run. A FAILED radio is not brought back by later successes.
\<close>

theorem rearm_escalates_after_thirty_failures:
  assumes "rc_health r = RADIO_HEALTH_READY" and "rc_rearm_failures r = 0" and "length ss < 2 ^ 32"
  shows "rc_health (fold daemon_rx_rearm_note_result ss r) =
      (if 30 \<le> max_run ss 0 then RADIO_HEALTH_FAILED else RADIO_HEALTH_READY) \<and>
    unat (rc_rearm_failures (fold daemon_rx_rearm_note_result ss r)) = fail_run ss 0 \<and>
    st_rx_rearm_failures (rc_stats (fold daemon_rx_rearm_note_result ss r)) =
      st_rx_rearm_failures (rc_stats r) + length (filter (\<lambda>s. s \<noteq> RADIOLIB_ERR_NONE) ss)"
  using note_results_fold [of r ss] assms by simp

definition sample_radio :: radio where
  "sample_radio = (radio_controller_init RADIO_BAND_868 ''868'' True)
     \<lparr>rc_driver := True, rc_health := RADIO_HEALTH_READY, rc_action := True\<rparr>"

definition sample_driver :: driver where
  "sample_driver = \<lparr>dv_status = (\<lambda>_. 0), dv_length = (\<lambda>_. 3), dv_data = (\<lambda>_. [1, 2, 3]),
     dv_float = (\<lambda>_. Fin (- 120)), dv_rx_done = (\<lambda>_. False), dv_alert = (\<lambda>_. False)\<rparr>"

theorem rearm_escalates_after_thirty_failures_witness:
  "rc_health (fold daemon_rx_rearm_note_result (replicate 30 (-2) @ [0]) sample_radio) = RADIO_HEALTH_FAILED \<and>
   rc_health (fold daemon_rx_rearm_note_result (replicate 29 (-2) @ 0 # replicate 29 (-2)) sample_radio)
     = RADIO_HEALTH_READY"
proof -
  have m: "max_run (replicate 30 (-2) @ [0]) 0 = 30" "max_run (replicate 29 (-2) @ 0 # replicate 29 (-2)) 0 = 29"
    by code_simp+
  have r: "rc_health sample_radio = RADIO_HEALTH_READY" "rc_rearm_failures sample_radio = 0"
    by (simp_all add: sample_radio_def radio_controller_init_def)
  show ?thesis
    using rearm_escalates_after_thirty_failures [OF r, of "replicate 30 (-2) @ [0]"]
      rearm_escalates_after_thirty_failures [OF r, of "replicate 29 (-2) @ 0 # replicate 29 (-2)"]
    by (simp add: m)
qed

text \<open>
  The retry of a failed re-arm touches the radio at most once per second, and never while a
  transmission is under way, a received packet is still undrained, the mutex is taken or the
  radio is not ready; when it does, it attaches the callback and starts the receiver, once.
\<close>

theorem rearm_retry_guarded:
  "(if rc_rearm_pending r \<and> \<not> rc_tx_busy r \<and> rc_next_retry_ms r \<le> now \<and> radio_controller_ready r \<and>
        rc_driver r \<and> \<not> rc_received r \<and> can_lock \<and> \<not> tx_race
    then rc_calls (daemon_rx_rearm_retry d can_lock tx_race now r) =
        Call_StartReceive # Call_SetAction # rc_calls r
    else rc_calls (daemon_rx_rearm_retry d can_lock tx_race now r) = rc_calls r) \<and>
   rc_next_retry_ms (daemon_rx_rearm_retry d can_lock tx_race now r) =
     (if rc_rearm_pending r \<and> \<not> rc_tx_busy r \<and> rc_next_retry_ms r \<le> now then now + 1000
      else rc_next_retry_ms r)"
  by (auto simp: daemon_rx_rearm_retry_def Let_def tx_race_step_def radio_controller_ready_def
      rearm_start_receive_def drv_status_def c_consts)

end
