(* ===== verification/Config_Stream.thy ===== *)
theory Config_Stream
  imports C_Text
begin

text \<open>
  Line framing of the CONFIG socket, \<open>loraham_daemon/config_stream.cpp\<close>. The buffer is the
  fixed array of 256 characters with its length. The line callback acts on a context of any
  type and receives a C string, that is the line up to its first NUL byte. The stream, buffer
  and callback pointers are never NULL at the daemon's call sites; the remaining error is the
  line that does not fit (\<open>EMSGSIZE\<close>, result \<open>False\<close>). A callback that closes its slot resets the
  stream, which the code does itself right after the callback.
\<close>

definition CONFIG_STREAM_LINE_LEN :: nat where
  [c_consts]: "CONFIG_STREAM_LINE_LEN = 256"

record config_stream =
  cs_line :: string
  cs_len :: nat

definition config_stream_init :: "config_stream \<Rightarrow> config_stream" where
  "config_stream_init st = st\<lparr>cs_line := (cs_line st)[0 := CHR 0x00], cs_len := 0\<rparr>"

definition config_stream_init_all :: "config_stream list \<Rightarrow> config_stream list" where
  "config_stream_init_all streams = map config_stream_init streams"

definition c_string :: "string \<Rightarrow> string" where
  "c_string s = takeWhile (\<lambda>c. c \<noteq> CHR 0x00) s"

definition config_stream_emit ::
  "(string \<Rightarrow> 'u \<Rightarrow> 'u) \<Rightarrow> config_stream \<Rightarrow> 'u \<Rightarrow> config_stream \<times> 'u" where
  "config_stream_emit on_line st u =
     (let st1 = st\<lparr>cs_line := (cs_line st)[cs_len st := CHR 0x00]\<rparr>;
          u1 = (if 0 < cs_len st1 then on_line (c_string (cs_line st1)) u else u)
      in (config_stream_init st1, u1))"

fun config_stream_feed ::
  "(string \<Rightarrow> 'u \<Rightarrow> 'u) \<Rightarrow> config_stream \<Rightarrow> bytes \<Rightarrow> 'u \<Rightarrow> bool \<times> config_stream \<times> 'u" where
  "config_stream_feed on_line st [] u = (True, st, u)"
| "config_stream_feed on_line st (b # bs) u =
     (let c = char_of (unat b) in
      if c = CHR 0x0D then config_stream_feed on_line st bs u
      else if c = CHR 0x0A then
        (let (st1, u1) = config_stream_emit on_line st u in config_stream_feed on_line st1 bs u1)
      else if CONFIG_STREAM_LINE_LEN \<le> cs_len st + 1 then (False, config_stream_init st, u)
      else config_stream_feed on_line
             (st\<lparr>cs_line := (cs_line st)[cs_len st := c], cs_len := cs_len st + 1\<rparr>) bs u)"

definition config_stream_flush ::
  "(string \<Rightarrow> 'u \<Rightarrow> 'u) \<Rightarrow> config_stream \<Rightarrow> 'u \<Rightarrow> config_stream \<times> 'u" where
  "config_stream_flush on_line st u =
     (if cs_len st = 0 then (st, u) else config_stream_emit on_line st u)"

section \<open>The lines of a byte stream\<close>

fun split_lines :: "string \<Rightarrow> string list" where
  "split_lines [] = [[]]"
| "split_lines (c # cs) =
     (if c = CHR 0x0A then [] # split_lines cs
      else (c # hd (split_lines cs)) # tl (split_lines cs))"

definition stream_text :: "bytes \<Rightarrow> string" where
  "stream_text bs = filter (\<lambda>c. c \<noteq> CHR 0x0D) (map (\<lambda>b. char_of (unat b)) bs)"

definition cs_text :: "config_stream \<Rightarrow> string" where
  "cs_text st = take (cs_len st) (cs_line st)"

definition cs_wf :: "config_stream \<Rightarrow> bool" where
  "cs_wf st \<longleftrightarrow> length (cs_line st) = CONFIG_STREAM_LINE_LEN \<and> cs_len st < CONFIG_STREAM_LINE_LEN \<and>
     CHR 0x0A \<notin> set (cs_text st)"

lemma split_lines_not_Nil [simp]: "split_lines s \<noteq> []"
  by (cases s) simp_all

lemma split_lines_plain: "CHR 0x0A \<notin> set s \<Longrightarrow> split_lines s = [s]"
  by (induction s) auto

lemma split_lines_break: "CHR 0x0A \<notin> set s \<Longrightarrow> split_lines (s @ CHR 0x0A # r) = s # split_lines r"
  by (induction s) auto

lemma split_lines_first: "CHR 0x0A \<notin> set s \<Longrightarrow> hd (split_lines (s @ r)) = s @ hd (split_lines r)"
  by (induction s) auto

lemma cs_init_wf [wf_intros, simp]:
  "length (cs_line st) = CONFIG_STREAM_LINE_LEN \<Longrightarrow> cs_wf (config_stream_init st)"
  by (simp add: cs_wf_def config_stream_init_def cs_text_def c_consts)

lemma cs_text_init [simp]: "cs_text (config_stream_init st) = []"
  by (simp add: cs_text_def config_stream_init_def)

lemma c_string_terminated:
  assumes "n < length line"
  shows "c_string (line[n := CHR 0x00]) = c_string (take n line)"
proof -
  have "line[n := CHR 0x00] = take n line @ CHR 0x00 # drop (Suc n) line"
    using assms by (simp add: upd_conv_take_nth_drop)
  then show ?thesis
    by (simp add: c_string_def takeWhile_tail)
qed

lemma emit_wf:
  assumes "cs_wf st"
  shows "config_stream_emit on_line st u =
    (config_stream_init (st\<lparr>cs_line := (cs_line st)[cs_len st := CHR 0x00]\<rparr>),
     if cs_text st = [] then u else on_line (c_string (cs_text st)) u)"
  using assms
  by (auto simp: config_stream_emit_def Let_def cs_text_def cs_wf_def c_string_terminated c_consts)

text \<open>The lines the callback sees: the complete, non-empty ones, in order.\<close>

definition delivered_lines :: "string list \<Rightarrow> string list" where
  "delivered_lines segs = map c_string (filter (\<lambda>s. s \<noteq> []) (butlast segs))"

lemma feed_lines:
  "cs_wf st \<Longrightarrow> config_stream_feed on_line st bs u = (ok, st', u') \<Longrightarrow>
     (ok \<longleftrightarrow> (\<forall>seg \<in> set (split_lines (cs_text st @ stream_text bs)). length seg \<le> 255)) \<and> cs_wf st' \<and>
     (ok \<longrightarrow> cs_text st' = last (split_lines (cs_text st @ stream_text bs)) \<and>
        u' = fold on_line (delivered_lines (split_lines (cs_text st @ stream_text bs))) u)"
proof (induction on_line st bs u rule: config_stream_feed.induct)
  case (1 on_line st u)
  then have "CHR 0x0A \<notin> set (cs_text st)" "length (cs_text st) \<le> 255"
    by (auto simp: cs_wf_def cs_text_def c_consts)
  with 1 show ?case by (auto simp: stream_text_def split_lines_plain delivered_lines_def)
next
  case (2 on_line st b bs u)
  let ?c = "char_of (unat b) :: char"
  have no_nl: "CHR 0x0A \<notin> set (cs_text st)" and len: "length (cs_line st) = 256" "cs_len st < 256"
    using "2.prems"(1) by (auto simp: cs_wf_def c_consts)
  have text_len: "length (cs_text st) = cs_len st" using len by (simp add: cs_text_def)
  consider "?c = CHR 0x0D" | "?c = CHR 0x0A" | "?c \<noteq> CHR 0x0D" "?c \<noteq> CHR 0x0A" "256 \<le> cs_len st + 1"
    | "?c \<noteq> CHR 0x0D" "?c \<noteq> CHR 0x0A" "cs_len st + 1 < 256"
    by linarith
  then show ?case
  proof cases
    case 1
    with "2.IH"(1) "2.prems" show ?thesis by (simp add: stream_text_def)
  next
    case c: 2
    let ?st1 = "config_stream_init (st\<lparr>cs_line := (cs_line st)[cs_len st := CHR 0x00]\<rparr>)"
    let ?u1 = "if cs_text st = [] then u else on_line (c_string (cs_text st)) u"
    have wf1: "cs_wf ?st1" using len by (intro cs_init_wf) (simp add: c_consts)
    have em: "config_stream_emit on_line st u = (?st1, ?u1)" by (rule emit_wf [OF "2.prems"(1)])
    have run: "config_stream_feed on_line ?st1 bs ?u1 = (ok, st', u')"
      using "2.prems"(2) c em by simp
    have segs: "split_lines (cs_text st @ stream_text (b # bs)) = cs_text st # split_lines (stream_text bs)"
      using c no_nl by (simp add: stream_text_def split_lines_break)
    from "2.IH"(2) [OF refl _ c em [symmetric] refl wf1 run] c text_len len(2) segs
    show ?thesis by (auto simp: delivered_lines_def)
  next
    case c: 3
    have segs: "hd (split_lines (cs_text st @ stream_text (b # bs))) =
        cs_text st @ ?c # hd (split_lines (stream_text bs))"
      using c no_nl by (simp add: split_lines_first stream_text_def)
    then have "255 < length (hd (split_lines (cs_text st @ stream_text (b # bs))))"
      using c(3) text_len by simp
    moreover have "hd (split_lines (cs_text st @ stream_text (b # bs)))
        \<in> set (split_lines (cs_text st @ stream_text (b # bs)))" by simp
    ultimately have "\<not> (\<forall>seg \<in> set (split_lines (cs_text st @ stream_text (b # bs))). length seg \<le> 255)"
      by (meson not_le)
    with "2.prems" c len show ?thesis by (auto simp: c_consts cs_init_wf)
  next
    case c: 4
    let ?st1 = "st\<lparr>cs_line := (cs_line st)[cs_len st := ?c], cs_len := cs_len st + 1\<rparr>"
    have text1: "cs_text ?st1 = cs_text st @ [?c]"
      using len by (simp add: cs_text_def take_Suc_snoc)
    have wf1: "cs_wf ?st1"
      using c len no_nl text1 by (simp add: cs_wf_def c_consts)
    have run: "config_stream_feed on_line ?st1 bs u = (ok, st', u')"
      using "2.prems"(2) c by (simp add: c_consts)
    have "cs_text ?st1 @ stream_text bs = cs_text st @ stream_text (b # bs)"
      using c text1 by (simp add: stream_text_def)
    with "2.IH"(3) [OF refl c(1,2) _ wf1 run] c(3) show ?thesis by (simp add: c_consts)
  qed
qed

text \<open>
  C28: However the CONFIG byte stream is cut into reads, the parser delivers exactly its complete
  non-empty lines, in order, without carriage returns and each as the C string the handler sees,
  and keeps the unfinished last line; it fails exactly when a line is longer than 255
  characters, and its indices stay inside the buffer either way.
\<close>

theorem config_stream_delivers_lines:
  "cs_wf st \<Longrightarrow> config_stream_feed on_line st bs u = (ok, st', u') \<Longrightarrow>
     (ok \<longleftrightarrow> (\<forall>seg \<in> set (split_lines (cs_text st @ stream_text bs)). length seg \<le> 255)) \<and> cs_wf st' \<and>
     (ok \<longrightarrow> cs_text st' = last (split_lines (cs_text st @ stream_text bs)) \<and>
        u' = fold on_line (delivered_lines (split_lines (cs_text st @ stream_text bs))) u)"
  by (rule feed_lines)

definition empty_stream :: config_stream where
  "empty_stream = \<lparr>cs_line = replicate 256 (CHR 0x00), cs_len = 0\<rparr>"

theorem config_stream_delivers_lines_witness:
  "config_stream_feed (\<lambda>l ls. ls @ [l]) empty_stream [71, 13, 10, 72] [] =
     (True, empty_stream\<lparr>cs_line := ((cs_line empty_stream)[0 := CHR ''H'']), cs_len := 1\<rparr>, [''G'']) \<and>
   [''G''] = fold (\<lambda>l ls. ls @ [l]) (delivered_lines (split_lines [CHR ''G'', CHR 0x0A, CHR ''H''])) []"
proof -
  have run: "config_stream_feed (\<lambda>l ls. ls @ [l]) empty_stream [71, 13, 10, 72] [] =
     (True, empty_stream\<lparr>cs_line := ((cs_line empty_stream)[0 := CHR ''H'']), cs_len := 1\<rparr>, [''G''])"
    by code_simp
  have wf: "cs_wf empty_stream" by code_simp
  have "cs_text empty_stream @ stream_text [71, 13, 10, 72] = [CHR ''G'', CHR 0x0A, CHR ''H'']" by code_simp
  with config_stream_delivers_lines [OF wf run] run show ?thesis by simp
qed

end
