(* ===== verification/Band.thy ===== *)
theory Band
  imports Radio_Ctrl Config_Stream
begin

text \<open>
  The band descriptor, the instance id and the socket paths, \<open>daemon_band.cpp\<close> with the names of
  \<open>daemon_protocol.h\<close> and the boot defaults of \<open>radio_rf_defaults.h\<close>. The static buffers are
  read only through the descriptor; the resolved descriptor is a value. The environment
  variable \<open>LORAHAM_SOCKET_DIR\<close> is an argument, NULL when it is unset. The legacy LED pin and the
  log contexts that only select a line prefix are left out.
\<close>

section \<open>Boot defaults\<close>

record rf_defaults =
  rf_freq_mhz :: c_float
  rf_spreading_factor :: int
  rf_bandwidth_khz :: c_float
  rf_sync_word :: u8
  rf_preamble_len :: int
  rf_coding_rate :: int
  rf_crc_on :: bool
  rf_ldro :: int
  rf_power_dbm :: int

definition rf_defaults_433 :: rf_defaults where
  "rf_defaults_433 =
     \<lparr>rf_freq_mhz = f32_round 433.9, rf_spreading_factor = 12, rf_bandwidth_khz = Fin 125,
      rf_sync_word = 0x12, rf_preamble_len = 8, rf_coding_rate = 5, rf_crc_on = True, rf_ldro = 1,
      rf_power_dbm = 10\<rparr>"

definition rf_defaults_868 :: rf_defaults where
  "rf_defaults_868 =
     \<lparr>rf_freq_mhz = f32_round 869.525, rf_spreading_factor = 11, rf_bandwidth_khz = Fin 250,
      rf_sync_word = 0x2B, rf_preamble_len = 16, rf_coding_rate = 5, rf_crc_on = True, rf_ldro = -1,
      rf_power_dbm = 10\<rparr>"

section \<open>Descriptors\<close>

record band_descriptor =
  bd_band :: radio_band
  bd_band_number :: int
  bd_tag :: string
  bd_is_hf :: bool
  bd_data_socket :: string
  bd_framed_socket :: string
  bd_conf_socket :: string
  bd_freq_min_mhz :: c_float
  bd_freq_max_mhz :: c_float
  bd_rf_defaults :: rf_defaults

definition LORAHAM_SOCKET_DIR_DEFAULT :: string where
  "LORAHAM_SOCKET_DIR_DEFAULT = ''/run/loraham''"

definition band_433 :: band_descriptor where
  "band_433 =
     \<lparr>bd_band = RADIO_BAND_433, bd_band_number = 433, bd_tag = ''433'', bd_is_hf = False,
      bd_data_socket = LORAHAM_SOCKET_DIR_DEFAULT @ ''/lora433.sock'',
      bd_framed_socket = LORAHAM_SOCKET_DIR_DEFAULT @ ''/lora433f.sock'',
      bd_conf_socket = LORAHAM_SOCKET_DIR_DEFAULT @ ''/loraconf433.sock'',
      bd_freq_min_mhz = Fin 430, bd_freq_max_mhz = Fin 440, bd_rf_defaults = rf_defaults_433\<rparr>"

definition band_868 :: band_descriptor where
  "band_868 =
     \<lparr>bd_band = RADIO_BAND_868, bd_band_number = 868, bd_tag = ''868'', bd_is_hf = True,
      bd_data_socket = LORAHAM_SOCKET_DIR_DEFAULT @ ''/lora868.sock'',
      bd_framed_socket = LORAHAM_SOCKET_DIR_DEFAULT @ ''/lora868f.sock'',
      bd_conf_socket = LORAHAM_SOCKET_DIR_DEFAULT @ ''/loraconf868.sock'',
      bd_freq_min_mhz = Fin 863, bd_freq_max_mhz = Fin 870, bd_rf_defaults = rf_defaults_868\<rparr>"

section \<open>Instance id\<close>

definition in_range :: "char \<Rightarrow> char \<Rightarrow> char \<Rightarrow> bool" where
  "in_range lo hi c \<longleftrightarrow> (of_char lo :: nat) \<le> of_char c \<and> (of_char c :: nat) \<le> of_char hi"

definition daemon_instance_id_valid :: "string ptr \<Rightarrow> bool" where
  "daemon_instance_id_valid ident =
     (case ident of
        None \<Rightarrow> False
      | Some cs \<Rightarrow>
          (case cs of
             [] \<Rightarrow> False
           | c # rest \<Rightarrow>
               if \<not> in_range (CHR ''a'') (CHR ''z'') c then False
               else if 16 < length cs then False
               else list_all (\<lambda>x. in_range (CHR ''a'') (CHR ''z'') x \<or> in_range (CHR ''0'') (CHR ''9'') x \<or>
                      x = CHR ''-'') rest))"

definition daemon_set_instance_id :: "string ptr \<Rightarrow> string ptr \<Rightarrow> bool \<times> string ptr" where
  "daemon_set_instance_id ident stored =
     (if \<not> daemon_instance_id_valid ident then (False, stored) else (True, ident))"

definition daemon_band_daemon_log_path :: "string ptr \<Rightarrow> string" where
  "daemon_band_daemon_log_path stored =
     (case stored of
        None \<Rightarrow> ''/tmp/lora_daemon.log''
      | Some ident \<Rightarrow> snprintf_text 64 (''/tmp/lora_daemon-'' @ ident @ ''.log''))"

section \<open>Socket paths\<close>

definition DAEMON_SOCKET_PATH_MAX :: nat where
  [c_consts]: "DAEMON_SOCKET_PATH_MAX = 107"
definition DAEMON_SOCKET_PATH_ERROR_MAX :: nat where
  [c_consts]: "DAEMON_SOCKET_PATH_ERROR_MAX = 4200"

text \<open>The path and the pending error text, empty when there is none.\<close>

definition band_socket_path :: "string \<Rightarrow> string \<Rightarrow> string \<Rightarrow> string \<times> string" where
  "band_socket_path dir name err =
     (let need = length dir + 1 + length name in
      if DAEMON_SOCKET_PATH_MAX < need then
        ([], if err = []
             then snprintf_text DAEMON_SOCKET_PATH_ERROR_MAX
               (''socket path too long ('' @ nat_dec need @ '' bytes, at most '' @
                nat_dec DAEMON_SOCKET_PATH_MAX @ ''): '' @ dir @ ''/'' @ name)
             else err)
      else (dir @ ''/'' @ name, err))"

datatype socket_kind = Data_Socket | Framed_Socket | Conf_Socket

fun socket_name :: "radio_band \<Rightarrow> string ptr \<Rightarrow> socket_kind \<Rightarrow> string" where
  "socket_name band (Some ident) Data_Socket = snprintf_text 48 (''lora-'' @ ident @ ''.sock'')"
| "socket_name band (Some ident) Framed_Socket = snprintf_text 48 (''loraf-'' @ ident @ ''.sock'')"
| "socket_name band (Some ident) Conf_Socket = snprintf_text 48 (''loraconf-'' @ ident @ ''.sock'')"
| "socket_name band None Data_Socket =
     snprintf_text 48 (if band = RADIO_BAND_868 then ''lora868.sock'' else ''lora433.sock'')"
| "socket_name band None Framed_Socket =
     snprintf_text 48 (if band = RADIO_BAND_868 then ''lora868f.sock'' else ''lora433f.sock'')"
| "socket_name band None Conf_Socket =
     snprintf_text 48 (if band = RADIO_BAND_868 then ''loraconf868.sock'' else ''loraconf433.sock'')"

definition daemon_band_resolve ::
  "radio_band \<Rightarrow> string ptr \<Rightarrow> string ptr \<Rightarrow> band_descriptor \<times> string" where
  "daemon_band_resolve band env stored =
     (let table = (if band = RADIO_BAND_868 then band_868 else band_433);
          unset = (env = None \<or> env = Some [])
      in if unset \<and> stored = None then (table, [])
         else
           (let dir = (if unset then LORAHAM_SOCKET_DIR_DEFAULT else the env);
                (data, e1) = band_socket_path dir (socket_name band stored Data_Socket) [];
                (framed, e2) = band_socket_path dir (socket_name band stored Framed_Socket) e1;
                (conf, e3) = band_socket_path dir (socket_name band stored Conf_Socket) e2
            in (table\<lparr>bd_data_socket := data, bd_framed_socket := framed, bd_conf_socket := conf\<rparr>, e3)))"

definition daemon_band_socket_paths_ok :: "nat \<Rightarrow> string \<Rightarrow> bool \<times> string" where
  "daemon_band_socket_paths_ok why_size err =
     (if err = [] then (True, []) else (False, if 0 < why_size then snprintf_text why_size err else []))"

section \<open>The names never collide\<close>

lemma instance_id_chars:
  assumes "daemon_instance_id_valid (Some ident)"
  shows "CHR ''.'' \<notin> set ident" and "length ident \<le> 16" and "ident \<noteq> []"
  using assms
  by (auto simp: daemon_instance_id_valid_def in_range_def list_all_iff split: list.splits if_splits)

lemma socket_name_ident:
  assumes "daemon_instance_id_valid (Some ident)"
  shows "socket_name band (Some ident) kind =
    (case kind of Data_Socket \<Rightarrow> ''lora-'' | Framed_Socket \<Rightarrow> ''loraf-'' | Conf_Socket \<Rightarrow> ''loraconf-'')
      @ ident @ ''.sock''"
  using instance_id_chars(2) [OF assms] by (cases kind) (simp_all add: snprintf_text_def)

text \<open>
  Two daemons with different ids, and the sockets of different kinds of one daemon, never share a
  name, and no daemon with an id takes a name of the bands.
\<close>

lemma socket_names_distinct:
  assumes "stored = None \<or> daemon_instance_id_valid stored"
    and "stored' = None \<or> daemon_instance_id_valid stored'"
    and "socket_name band stored kind = socket_name band' stored' kind'"
  shows "kind = kind' \<and> stored = stored' \<and> (stored = None \<longrightarrow> band = band')"
  using assms
  by (cases stored; cases stored'; cases kind; cases kind'; cases band; cases band')
    (simp_all add: socket_name_ident del: socket_name.simps, simp_all add: snprintf_text_def)

text \<open>A path is never truncated: each is whole and fits, or the error text is set.\<close>

lemma band_socket_path_whole:
  "band_socket_path dir name err = (path, err') \<Longrightarrow>
     (path = dir @ ''/'' @ name \<and> length path \<le> DAEMON_SOCKET_PATH_MAX \<and> err' = err) \<or>
     (path = [] \<and> err' \<noteq> [])"
  by (auto simp: band_socket_path_def Let_def snprintf_text_def c_consts split: if_splits)

lemma daemon_band_resolve_paths:
  assumes "daemon_band_resolve band env stored = (bd, [])"
  shows "length (bd_data_socket bd) \<le> DAEMON_SOCKET_PATH_MAX \<and>
    length (bd_framed_socket bd) \<le> DAEMON_SOCKET_PATH_MAX \<and>
    length (bd_conf_socket bd) \<le> DAEMON_SOCKET_PATH_MAX \<and> bd_band bd = band"
proof -
  have keep: "band_socket_path dir name err = (path, []) \<Longrightarrow>
      err = [] \<and> length path \<le> DAEMON_SOCKET_PATH_MAX" for dir name err path
    using band_socket_path_whole by (metis list.size(3) zero_le)
  show ?thesis
    using assms
    by (cases band)
      (auto simp: daemon_band_resolve_def Let_def band_433_def band_868_def LORAHAM_SOCKET_DIR_DEFAULT_def
        DAEMON_SOCKET_PATH_MAX_def [symmetric] split: if_splits prod.splits dest!: keep,
       simp_all add: c_consts)
qed

end
