(* ===== verification/Config_Apply.thy ===== *)
theory Config_Apply
  imports Config_Policy Band
begin

text \<open>
  How a CONFIG command is applied, \<open>config_apply.cpp\<close>: the shadow of the effective configuration,
  the airtime gate and the apply pipeline. \<open>mode_flag\<close> and \<open>getrssi_flag\<close> are the fields of the
  radio controller the daemon passes; the driver is the oracle of the controller's theory. The
  band limits, the chip family, the high-power permission and the SX1262 ceiling do not change
  while the daemon runs and make up the environment. Output to the terminal is left out.
\<close>

section \<open>State\<close>

record config_effective =
  ef_set :: bool
  ef_sf :: int
  ef_bw_khz :: c_float
  ef_cr :: int
  ef_preamble :: int
  ef_fsk_br_kbps :: c_float
  ef_fsk_preamble_bits :: int

record config_env =
  ce_limits :: config_limits
  ce_defaults :: rf_defaults

definition config_env_of :: "band_descriptor \<Rightarrow> chip_family \<Rightarrow> bool \<Rightarrow> int \<Rightarrow> config_env" where
  "config_env_of band family high_power power_max =
     \<lparr>ce_limits = \<lparr>lim_family = family, lim_freq_min = bd_freq_min_mhz band,
        lim_freq_max = bd_freq_max_mhz band, lim_high_power = high_power, lim_power_max = power_max\<rparr>,
      ce_defaults = bd_rf_defaults band\<rparr>"

record config_state =
  cf_radio :: radio
  cf_effective :: config_effective
  cf_replay :: replay

datatype config_apply_status =
  CONFIG_APPLY_OK_NO_RADIO | CONFIG_APPLY_APPLIED | CONFIG_APPLY_REJECTED_INVALID
| CONFIG_APPLY_REJECTED_MALFORMED | CONFIG_APPLY_UNKNOWN | CONFIG_APPLY_HW_ERROR

definition config_apply_status_untouched :: "config_apply_status \<Rightarrow> bool" where
  "config_apply_status_untouched st \<longleftrightarrow> st \<noteq> CONFIG_APPLY_APPLIED \<and> st \<noteq> CONFIG_APPLY_HW_ERROR"

section \<open>The effective configuration\<close>

definition config_apply_effective_load_defaults :: "rf_defaults \<Rightarrow> config_effective" where
  "config_apply_effective_load_defaults d =
     \<lparr>ef_set = True, ef_sf = rf_spreading_factor d, ef_bw_khz = rf_bandwidth_khz d,
      ef_cr = rf_coding_rate d, ef_preamble = rf_preamble_len d,
      ef_fsk_br_kbps = f32_round 4.8, ef_fsk_preamble_bits = 16\<rparr>"

definition config_apply_effective_reset :: "config_effective \<Rightarrow> config_effective" where
  "config_apply_effective_reset e = e\<lparr>ef_set := False\<rparr>"

text \<open>The lazy initialization: the value the pointer then points to.\<close>

definition config_apply_effective :: "rf_defaults \<Rightarrow> config_effective \<Rightarrow> config_effective" where
  "config_apply_effective d e = (if \<not> ef_set e then config_apply_effective_load_defaults d else e)"

text \<open>An output parameter keeps its value when the parser fails.\<close>

definition parsed_or :: "'a \<Rightarrow> 'a option \<Rightarrow> 'a" where
  "parsed_or old v = (case v of None \<Rightarrow> old | Some x \<Rightarrow> x)"

definition merge_token :: "radio_mode \<Rightarrow> string \<Rightarrow> string \<Rightarrow> config_effective \<Rightarrow> config_effective" where
  "merge_token target_mode key val e =
     (if key = ''SF'' then e\<lparr>ef_sf := parsed_or (ef_sf e) (config_value_parse_int_exact val)\<rparr>
      else if key = ''BW'' then e\<lparr>ef_bw_khz := parsed_or (ef_bw_khz e) (config_value_parse_float_exact val)\<rparr>
      else if key = ''CR'' then e\<lparr>ef_cr := parsed_or (ef_cr e) (config_value_parse_int_exact val)\<rparr>
      else if key = ''PREAMBLE'' \<and> target_mode = RADIO_MODE_LORA then
        e\<lparr>ef_preamble := parsed_or (ef_preamble e) (config_value_parse_int_exact val)\<rparr>
      else if key = ''PREAMBLE'' then
        e\<lparr>ef_fsk_preamble_bits := parsed_or (ef_fsk_preamble_bits e) (config_value_parse_int_exact val)\<rparr>
      else if key = ''BR'' then
        e\<lparr>ef_fsk_br_kbps := parsed_or (ef_fsk_br_kbps e) (config_value_parse_float_exact val)\<rparr>
      else e)"

definition worst_case_airtime_ms :: "chip_family \<Rightarrow> radio_mode \<Rightarrow> config_effective \<Rightarrow> c_float" where
  "worst_case_airtime_ms family mode e =
     (let worst_case_len = radio_tx_payload_limit family mode in
      if mode = RADIO_MODE_LORA
      then config_policy_lora_airtime_ms (ef_sf e) (ef_bw_khz e) (ef_cr e) (ef_preamble e) worst_case_len
      else config_policy_fsk_airtime_ms (ef_fsk_br_kbps e) (ef_fsk_preamble_bits e) worst_case_len)"

definition airtime_allowed :: "c_float \<Rightarrow> bool" where
  "airtime_allowed ms \<longleftrightarrow> \<not> (c_less ms (Fin 0) \<or> c_less CONFIG_POLICY_MAX_AIRTIME_MS ms)"

definition merged_effective ::
  "rf_defaults \<Rightarrow> config_command \<Rightarrow> radio_mode \<Rightarrow> config_effective \<Rightarrow> config_effective" where
  "merged_effective d parsed target_mode e =
     foldl (\<lambda>m (key, val). merge_token target_mode key val m)
       (if cc_mode parsed \<noteq> [] then config_apply_effective_load_defaults d else e) (cc_tokens parsed)"

definition config_apply_airtime_ok ::
  "config_env \<Rightarrow> config_command \<Rightarrow> radio_mode \<Rightarrow> config_effective \<Rightarrow> bool \<times> config_effective" where
  "config_apply_airtime_ok env parsed target_mode e =
     (let e1 = config_apply_effective (ce_defaults env) e;
          merged = merged_effective (ce_defaults env) parsed target_mode e1
      in (airtime_allowed (worst_case_airtime_ms (lim_family (ce_limits env)) target_mode merged), e1))"

definition config_apply_effective_note_key ::
  "rf_defaults \<Rightarrow> radio_mode \<Rightarrow> string \<Rightarrow> string \<Rightarrow> config_effective \<Rightarrow> config_effective" where
  "config_apply_effective_note_key d mode key val e0 =
     (let e = config_apply_effective d e0 in
      if mode = RADIO_MODE_LORA then
        (if key = ''SF'' then e\<lparr>ef_sf := parsed_or (ef_sf e) (config_value_parse_int_exact val)\<rparr>
         else if key = ''BW'' then e\<lparr>ef_bw_khz := parsed_or (ef_bw_khz e) (config_value_parse_float_exact val)\<rparr>
         else if key = ''CR'' then e\<lparr>ef_cr := parsed_or (ef_cr e) (config_value_parse_int_exact val)\<rparr>
         else if key = ''PREAMBLE'' then
           e\<lparr>ef_preamble := parsed_or (ef_preamble e) (config_value_parse_int_exact val)\<rparr>
         else e)
      else
        (if key = ''BR'' then e\<lparr>ef_fsk_br_kbps := parsed_or (ef_fsk_br_kbps e) (config_value_parse_float_exact val)\<rparr>
         else if key = ''PREAMBLE'' then
           e\<lparr>ef_fsk_preamble_bits := parsed_or (ef_fsk_preamble_bits e) (config_value_parse_int_exact val)\<rparr>
         else e))"

section \<open>The apply pipeline\<close>

text \<open>The MODE step; \<open>False\<close> is the abort.\<close>

definition apply_mode :: "driver \<Rightarrow> config_env \<Rightarrow> string \<Rightarrow> config_state \<Rightarrow> (bool \<times> bool) \<times> config_state" where
  "apply_mode d env mode_val c =
     (let switch_to = (\<lambda>m name.
        (let (state, r) = drv_status d (Call_SwitchMode m) (cf_radio c) in
         if state = RADIOLIB_ERR_NONE then
           ((True, True), c\<lparr>cf_radio := r\<lparr>rc_mode := m\<rparr>,
              cf_effective := config_apply_effective_load_defaults (ce_defaults env),
              cf_replay := config_apply_replay_start_mode name (cf_replay c)\<rparr>)
         else ((False, False), c\<lparr>cf_radio := r\<rparr>)))
      in if mode_val = [] then ((True, False), c)
         else if mode_val = ''FSK'' then switch_to RADIO_MODE_FSK ''FSK''
         else if mode_val = ''LORA'' then switch_to RADIO_MODE_LORA ''LORA''
         else ((True, False), c))"

definition apply_getrssi :: "string \<Rightarrow> config_state \<Rightarrow> config_state" where
  "apply_getrssi val c =
     (case config_value_parse_bool01_exact val of
        None \<Rightarrow> c
      | Some v \<Rightarrow> c\<lparr>cf_radio := (cf_radio c)\<lparr>rc_getrssi_active := v \<noteq> 0\<rparr>\<rparr>)"

text \<open>Bookkeeping after the driver accepted a parameter.\<close>

definition note_applied :: "config_env \<Rightarrow> radio_mode \<Rightarrow> string \<Rightarrow> string \<Rightarrow> config_state \<Rightarrow> config_state" where
  "note_applied env mode key val c =
     c\<lparr>cf_effective := config_apply_effective_note_key (ce_defaults env) mode key val (cf_effective c),
       cf_replay := config_apply_replay_note key val (cf_replay c)\<rparr>"

text \<open>The loop over the radio parameters; \<open>None\<close> is the abort, else whether the radio was touched.\<close>

fun apply_params ::
  "driver \<Rightarrow> config_env \<Rightarrow> (string \<times> string) list \<Rightarrow> bool \<Rightarrow> config_state \<Rightarrow> bool option \<times> config_state" where
  "apply_params d env [] touched c = (Some touched, c)"
| "apply_params d env ((key, val) # kvs) touched c =
     (if rc_mode (cf_radio c) = RADIO_MODE_FSK then
        (if config_is_lora_only_key key then apply_params d env kvs touched c
         else
           (let (state, r) = drv_status d (Call_FskParam key val) (cf_radio c) in
            if state \<noteq> RADIOLIB_ERR_NONE then (None, c\<lparr>cf_radio := r\<rparr>)
            else apply_params d env kvs True (note_applied env RADIO_MODE_FSK key val (c\<lparr>cf_radio := r\<rparr>))))
      else
        (if config_is_fsk_only_key key then apply_params d env kvs touched c
         else
           (let (state, r) = drv_status d (Call_LoraParam key val) (cf_radio c) in
            if state \<noteq> RADIOLIB_ERR_NONE then (None, c\<lparr>cf_radio := r\<rparr>)
            else apply_params d env kvs True (note_applied env RADIO_MODE_LORA key val (c\<lparr>cf_radio := r\<rparr>)))))"

definition rejection_status :: "string \<Rightarrow> config_apply_status" where
  "rejection_status reason =
     (if reason = ''malformed token'' then CONFIG_APPLY_REJECTED_MALFORMED
      else if reason = ''unknown key'' then CONFIG_APPLY_UNKNOWN
      else CONFIG_APPLY_REJECTED_INVALID)"

definition apply_hardware ::
  "driver \<Rightarrow> config_env \<Rightarrow> config_command \<Rightarrow> config_state \<Rightarrow> config_apply_status \<times> config_state" where
  "apply_hardware d env parsed c =
     (let tokens = filter (\<lambda>(key, _). key \<noteq> ''GETRSSI'') (cc_tokens parsed);
          getrssi_tokens = filter (\<lambda>(key, _). key = ''GETRSSI'') (cc_tokens parsed);
          ((go_on, touched), c1) = apply_mode d env (cc_mode parsed) c
      in if \<not> go_on then (CONFIG_APPLY_HW_ERROR, c1)
         else
           (let c2 = foldl (\<lambda>c (_, val). apply_getrssi val c) c1 getrssi_tokens;
                (res, c3) = apply_params d env tokens touched c2
            in case res of
                 None \<Rightarrow> (CONFIG_APPLY_HW_ERROR, c3)
               | Some touched2 \<Rightarrow> (if touched2 then CONFIG_APPLY_APPLIED else CONFIG_APPLY_OK_NO_RADIO, c3)))"

definition parse_and_apply_config_generic ::
  "driver \<Rightarrow> config_env \<Rightarrow> string \<Rightarrow> config_state \<Rightarrow> config_apply_status \<times> config_state" where
  "parse_and_apply_config_generic d env cmd c =
     (let parsed = config_parse_command cmd in
      if \<not> cc_is_set parsed then (CONFIG_APPLY_UNKNOWN, c)
      else if \<not> cc_has_params parsed then (CONFIG_APPLY_REJECTED_MALFORMED, c)
      else
        (let (valid, validation) = config_validate_command (ce_limits env) parsed (rc_mode (cf_radio c)) in
         if \<not> valid then (rejection_status (val_reason validation), c)
         else
           (let (ok, e) = config_apply_airtime_ok env parsed (val_target_mode validation) (cf_effective c);
                c1 = c\<lparr>cf_effective := e\<rparr>
            in if \<not> ok then (CONFIG_APPLY_REJECTED_INVALID, c1) else apply_hardware d env parsed c1)))"

end
