(* ===== verification/Chip_Driver.thy ===== *)
theory Chip_Driver
  imports Config_Apply
begin

text \<open>
  The two drivers behind the controller's driver interface: \<open>sx127x_driver.cpp\<close> and
  \<open>sx1262_driver.cpp\<close>, with the value parser of \<open>driver_config_print.h\<close>.

  RadioLib and the chip are a parameter: an oracle that answers each call from the whole history of
  calls. A driver keeps that history (newest first) as a ghost field next to its members. The
  arguments of a call are those after the casts of the code; RadioLib's own parameter types and its
  shaping constants are not part of the repository. Terminal output is left out, and with it the
  diagnosis lines of a failed \<open>begin()\<close>.
\<close>

section \<open>RadioLib\<close>

datatype fsk_shaping = SHAPING_NONE | SHAPING_0_3 | SHAPING_0_5 | SHAPING_0_7 | SHAPING_1_0

datatype rl_call =
  Rl_Begin
| Rl_Begin_SX1262 c_float c_float int int u8 int int c_float
| Rl_BeginFSK c_float
| Rl_BeginFSK_SX1262 c_float int c_float
| Rl_Frequency c_float | Rl_SpreadingFactor int | Rl_Bandwidth c_float | Rl_SyncWord "u8 list"
| Rl_PreambleLength int | Rl_CodingRate int | Rl_CRC int | Rl_ForceLDRO bool | Rl_AutoLDRO
| Rl_OutputPower int | Rl_CurrentLimit int
| Rl_BitRate c_float | Rl_FrequencyDeviation c_float | Rl_RxBandwidth c_float | Rl_OOK bool
| Rl_Shaping fsk_shaping | Rl_Encoding u8
| Rl_Dio2AsRfSwitch | Rl_RfSwitchPins int
| Rl_StartChannelScan | Rl_GetIRQFlags | Rl_ClearIrqFlags u16 | Rl_Standby | Rl_Now | Rl_Sleep
| Rl_RegValue u8 | Rl_GetRSSI
| Rl_Phy drv_call

text \<open>
  \<open>Rl_Phy\<close> is a generic call that \<open>RadioDriver\<close> passes on. \<open>Rl_BeginFSK_SX1262\<close> leaves out the modem
  constants of its call and keeps the frequency, the power and the oscillator's voltage. \<open>ro_now\<close>: the monotonic clock in microseconds.\<close>

record rl_oracle =
  ro_status :: "rl_call list \<Rightarrow> int"
  ro_flags :: "rl_call list \<Rightarrow> u16"
  ro_now :: "rl_call list \<Rightarrow> int"
  ro_reg :: "rl_call list \<Rightarrow> int"
  ro_rssi :: "rl_call list \<Rightarrow> c_float"

record rl_chip =
  rl_calls :: "rl_call list"

record sx127x = rl_chip +
  sx_is_hf :: bool
  sx_high_power :: bool
  sx_ocp_ma :: int
  sx_sf :: int
  sx_bw_khz :: c_float
  sx_mode :: radio_mode

record sx1262 = rl_chip +
  sm_mod :: bool
  sm_tcxo_voltage :: c_float
  sm_txen_pin :: int
  sm_ocp_ma :: int

definition sx127x_driver_create :: "bool \<Rightarrow> bool \<Rightarrow> int \<Rightarrow> sx127x" where
  "sx127x_driver_create is_hf high_power ocp_ma =
     \<lparr>rl_calls = [], sx_is_hf = is_hf, sx_high_power = high_power, sx_ocp_ma = ocp_ma, sx_sf = 12,
      sx_bw_khz = f32_round 7.8, sx_mode = RADIO_MODE_LORA\<rparr>"

definition sx1262_driver_create :: "bool \<Rightarrow> c_float \<Rightarrow> int \<Rightarrow> int \<Rightarrow> sx1262" where
  "sx1262_driver_create has_mod tcxo_voltage txen_pin ocp_ma =
     \<lparr>rl_calls = [], sm_mod = has_mod, sm_tcxo_voltage = tcxo_voltage, sm_txen_pin = txen_pin, sm_ocp_ma = ocp_ma\<rparr>"

definition rl_log :: "rl_call \<Rightarrow> 'a rl_chip_scheme \<Rightarrow> 'a rl_chip_scheme" where
  "rl_log c s = s\<lparr>rl_calls := c # rl_calls s\<rparr>"

definition rl_do :: "rl_oracle \<Rightarrow> rl_call \<Rightarrow> 'a rl_chip_scheme \<Rightarrow> int \<times> 'a rl_chip_scheme" where
  "rl_do ro c s = (let s1 = rl_log c s in (ro_status ro (rl_calls s1), s1))"

definition RADIOLIB_ERR_NULL_POINTER :: int where [c_consts]: "RADIOLIB_ERR_NULL_POINTER = -3"
definition RADIOLIB_ERR_RX_TIMEOUT :: int where [c_consts]: "RADIOLIB_ERR_RX_TIMEOUT = -6"
definition RADIOLIB_ERR_INVALID_MODULATION :: int where [c_consts]: "RADIOLIB_ERR_INVALID_MODULATION = -9"
definition RADIOLIB_PREAMBLE_DETECTED :: int where [c_consts]: "RADIOLIB_PREAMBLE_DETECTED = -14"
definition RADIOLIB_CHANNEL_FREE :: int where [c_consts]: "RADIOLIB_CHANNEL_FREE = -15"

text \<open>The casts \<open>(uint8_t)\<close>, \<open>(int8_t)\<close> and \<open>(uint16_t)\<close> of an \<open>int\<close>.\<close>

definition to_u8 :: "int \<Rightarrow> int" where
  "to_u8 i = uint (word_of_int i :: u8)"

definition to_s8 :: "int \<Rightarrow> int" where
  "to_s8 i = sint (word_of_int i :: u8)"

definition to_u16 :: "int \<Rightarrow> int" where
  "to_u16 i = uint (word_of_int i :: u16)"

text \<open>One call after another while the status is 0.\<close>

definition rl_then :: "int \<times> 's \<Rightarrow> ('s \<Rightarrow> int \<times> 's) \<Rightarrow> int \<times> 's" where
  "rl_then r f = (if fst r \<noteq> RADIOLIB_ERR_NONE then r else f (snd r))"

section \<open>SX127x: power and modem\<close>

definition applyPowerAndOcp :: "rl_oracle \<Rightarrow> int \<Rightarrow> sx127x \<Rightarrow> int \<times> sx127x" where
  "applyPowerAndOcp ro power_dbm s =
     rl_then (rl_do ro (Rl_OutputPower (to_s8 power_dbm)) s)
       (\<lambda>s. rl_do ro (Rl_CurrentLimit (to_u8 (sx_ocp_ma s))) s)"

definition applyAutoLdro :: "rl_oracle \<Rightarrow> sx127x \<Rightarrow> int \<times> sx127x" where
  "applyAutoLdro ro s =
     rl_then (rl_do ro (Rl_ForceLDRO (config_policy_lora_ldro_required (sx_sf s) (sx_bw_khz s))) s)
       (rl_do ro Rl_AutoLDRO)"

text \<open>The table of boot steps is filled completely before the first failure is looked for.\<close>

fun boot_steps :: "rl_oracle \<Rightarrow> rl_call list \<Rightarrow> int \<times> sx127x \<Rightarrow> int \<times> sx127x" where
  "boot_steps ro [] r = r"
| "boot_steps ro (c # cs) (st, s) =
     (let (st1, s1) = rl_do ro c s in boot_steps ro cs (if st \<noteq> RADIOLIB_ERR_NONE then st else st1, s1))"

definition boot_calls :: "rf_defaults \<Rightarrow> rl_call list" where
  "boot_calls d = [Rl_Frequency (rf_freq_mhz d), Rl_SpreadingFactor (rf_spreading_factor d),
     Rl_Bandwidth (rf_bandwidth_khz d), Rl_SyncWord [rf_sync_word d], Rl_PreambleLength (rf_preamble_len d),
     Rl_CodingRate (rf_coding_rate d), Rl_CRC (if rf_crc_on d then 1 else 0)]"

definition sx127x_begin :: "rl_oracle \<Rightarrow> rf_defaults ptr \<Rightarrow> sx127x \<Rightarrow> int \<times> sx127x" where
  "sx127x_begin ro defaults s =
     (case defaults of
        None \<Rightarrow> (RADIOLIB_ERR_NULL_POINTER, s)
      | Some d \<Rightarrow>
          rl_then (rl_then (rl_then (rl_do ro Rl_Begin s) (\<lambda>s. boot_steps ro (boot_calls d) (RADIOLIB_ERR_NONE, s)))
            (\<lambda>s. let s1 = s\<lparr>sx_sf := rf_spreading_factor d, sx_bw_khz := rf_bandwidth_khz d, sx_mode := RADIO_MODE_LORA\<rparr>
                 in if 0 \<le> rf_ldro d then rl_do ro (Rl_ForceLDRO (rf_ldro d \<noteq> 0)) s1 else applyAutoLdro ro s1))
            (applyPowerAndOcp ro (rf_power_dbm d)))"

definition sx127x_switchMode :: "rl_oracle \<Rightarrow> radio_mode \<Rightarrow> rf_defaults ptr \<Rightarrow> sx127x \<Rightarrow> int \<times> sx127x" where
  "sx127x_switchMode ro mode defaults s =
     (case defaults of
        None \<Rightarrow> (RADIOLIB_ERR_NULL_POINTER, s)
      | Some d \<Rightarrow>
          if mode = RADIO_MODE_FSK then
            rl_then (rl_do ro (Rl_BeginFSK (rf_freq_mhz d)) s)
              (\<lambda>s. applyPowerAndOcp ro (rf_power_dbm d) (s\<lparr>sx_mode := RADIO_MODE_FSK\<rparr>))
          else sx127x_begin ro (Some d) s)"

section \<open>SX127x: reading\<close>

definition sx127x_readLiveRssi :: "rl_oracle \<Rightarrow> radio_mode \<Rightarrow> bool \<Rightarrow> sx127x \<Rightarrow> c_float \<times> sx127x" where
  "sx127x_readLiveRssi ro mode is_hf s =
     (let s1 = rl_log (Rl_RegValue (if mode = RADIO_MODE_LORA then 0x1B else 0x11)) s;
          raw = ro_reg ro (rl_calls s1)
      in (if raw < 0 then Fin (- 200)
          else if mode = RADIO_MODE_LORA then
            c_add f32_round (Fin (if is_hf then - 157 else - 164)) (f32_round (of_int raw))
          else c_div f32_round (c_neg (f32_round (of_int raw))) (Fin 2), s1))"

definition sx127x_rssiProbe :: "rl_oracle \<Rightarrow> sx127x \<Rightarrow> c_float \<times> sx127x" where
  "sx127x_rssiProbe ro s = (let s1 = rl_log Rl_GetRSSI s in (ro_rssi ro (rl_calls s1), s1))"

definition RADIOLIB_SX127X_CLEAR_IRQ_FLAG_RX_DONE :: u16 where
  [c_consts]: "RADIOLIB_SX127X_CLEAR_IRQ_FLAG_RX_DONE = 0x40"
definition RADIOLIB_SX127X_CLEAR_IRQ_FLAG_CAD_DONE :: u16 where
  [c_consts]: "RADIOLIB_SX127X_CLEAR_IRQ_FLAG_CAD_DONE = 0x04"
definition RADIOLIB_SX127X_CLEAR_IRQ_FLAG_CAD_DETECTED :: u16 where
  [c_consts]: "RADIOLIB_SX127X_CLEAR_IRQ_FLAG_CAD_DETECTED = 0x01"

unbundle bit_operations_syntax

definition rl_flags :: "rl_oracle \<Rightarrow> 'a rl_chip_scheme \<Rightarrow> u16 \<times> 'a rl_chip_scheme" where
  "rl_flags ro s = (let s1 = rl_log Rl_GetIRQFlags s in (ro_flags ro (rl_calls s1), s1))"

definition sx127x_rxDonePending :: "rl_oracle \<Rightarrow> sx127x \<Rightarrow> bool \<times> sx127x" where
  "sx127x_rxDonePending ro s =
     (if sx_mode s \<noteq> RADIO_MODE_LORA then (False, s)
      else let (flags, s1) = rl_flags ro s
        in (flags AND RADIOLIB_SX127X_CLEAR_IRQ_FLAG_RX_DONE \<noteq> 0, s1))"

text \<open>Microseconds, in \<open>double\<close>; \<open>sf\<close> is at most 12 at every call.\<close>

definition cadDeadline :: "sx127x \<Rightarrow> int" where
  "cadDeadline s =
     (let symbols = (Fin (2 ^ nat (sx_sf s)) :: c_float);
          bw_hz = c_mul f64_round (f64_of_f32 (sx_bw_khz s)) (Fin 1000)
      in if \<not> c_less (Fin 0) bw_hz then 10000
         else
           (let upper_s = c_add f64_round (c_div f64_round (c_add f64_round symbols (Fin 32)) bw_hz)
                  (c_div f64_round symbols bw_hz);
                us = c_mul f64_round (c_mul f64_round (Fin 2) upper_s) (Fin 1000000);
                deadline_us = (if c_less us (Fin 10000) then Fin 10000 else us)
            in (case deadline_us of Fin x \<Rightarrow> rat_trunc x | _ \<Rightarrow> 0)))"

definition rl_now :: "rl_oracle \<Rightarrow> 'a rl_chip_scheme \<Rightarrow> int \<times> 'a rl_chip_scheme" where
  "rl_now ro s = (let s1 = rl_log Rl_Now s in (ro_now ro (rl_calls s1), s1))"

definition cad_verdict :: "u16 \<Rightarrow> int" where
  "cad_verdict flags =
     (if flags AND RADIOLIB_SX127X_CLEAR_IRQ_FLAG_CAD_DETECTED \<noteq> 0 then RADIOLIB_PREAMBLE_DETECTED
      else RADIOLIB_CHANNEL_FREE)"

definition cad_flags :: u16 where
  "cad_flags = RADIOLIB_SX127X_CLEAR_IRQ_FLAG_CAD_DONE OR RADIOLIB_SX127X_CLEAR_IRQ_FLAG_CAD_DETECTED"

partial_function (option) cad_poll :: "rl_oracle \<Rightarrow> int \<Rightarrow> sx127x \<Rightarrow> (int \<times> sx127x) option" where
  "cad_poll ro deadline s =
     (let (flags, s1) = rl_flags ro s in
      if flags AND RADIOLIB_SX127X_CLEAR_IRQ_FLAG_CAD_DONE \<noteq> 0 then
        Some (cad_verdict flags, rl_log (Rl_ClearIrqFlags cad_flags) s1)
      else let (now, s2) = rl_now ro s1 in
        if deadline \<le> now then Some (RADIOLIB_ERR_RX_TIMEOUT, rl_log Rl_Standby s2)
        else cad_poll ro deadline (rl_log Rl_Sleep s2))"

definition sx127x_scanChannel :: "rl_oracle \<Rightarrow> sx127x \<Rightarrow> (int \<times> sx127x) option" where
  "sx127x_scanChannel ro s =
     (let (state, s1) = rl_do ro Rl_StartChannelScan s in
      if state \<noteq> RADIOLIB_ERR_NONE then Some (state, s1)
      else let (start, s2) = rl_now ro s1 in cad_poll ro (start + cadDeadline s2) s2)"

section \<open>SX127x: CONFIG keys\<close>

definition driver_parse_fsk_shaping :: "string \<Rightarrow> fsk_shaping option" where
  "driver_parse_fsk_shaping val =
     (let norm = config_value_lower_ascii (config_value_trim_ascii val) in
      if norm = ''off'' \<or> norm = ''none'' then Some SHAPING_NONE
      else case config_value_parse_float_exact norm of
        None \<Rightarrow> None
      | Some x \<Rightarrow>
          if config_value_float_equal x (f32_round 0) then Some SHAPING_NONE
          else if config_value_float_equal x (f32_round 0.3) then Some SHAPING_0_3
          else if config_value_float_equal x (f32_round 0.5) then Some SHAPING_0_5
          else if config_value_float_equal x (f32_round 0.7) then Some SHAPING_0_7
          else if config_value_float_equal x (f32_round 1) then Some SHAPING_1_0
          else None)"

text \<open>A value that parses and passes the policy is applied; any other is rejected with state 0.\<close>

definition apply_if ::
  "'v option \<Rightarrow> ('v \<Rightarrow> bool) \<Rightarrow> ('v \<Rightarrow> 's \<Rightarrow> int \<times> 's) \<Rightarrow> 's \<Rightarrow> int \<times> 's" where
  "apply_if v p f s = (case v of None \<Rightarrow> (0, s) | Some x \<Rightarrow> if p x then f x s else (0, s))"

definition sx127x_applyLoraParam :: "rl_oracle \<Rightarrow> int \<Rightarrow> string \<Rightarrow> string \<Rightarrow> sx127x \<Rightarrow> int \<times> sx127x" where
  "sx127x_applyLoraParam ro power_max key val s =
     (if key = ''SF'' then
        apply_if (config_value_parse_int_exact val) config_policy_lora_sf_valid
          (\<lambda>sf s. rl_then (rl_do ro (Rl_SpreadingFactor sf) s) (\<lambda>s. (RADIOLIB_ERR_NONE, s\<lparr>sx_sf := sf\<rparr>))) s
      else if key = ''BW'' then
        apply_if (config_value_parse_float_exact val) config_policy_lora_bandwidth_valid
          (\<lambda>bw s. rl_then (rl_do ro (Rl_Bandwidth bw) s) (\<lambda>s. (RADIOLIB_ERR_NONE, s\<lparr>sx_bw_khz := bw\<rparr>))) s
      else if key = ''FREQ'' then
        apply_if (config_value_parse_float_exact val) (c_less (Fin 0)) (\<lambda>f. rl_do ro (Rl_Frequency f)) s
      else if key = ''CR'' then
        apply_if (config_value_parse_int_exact val) config_policy_lora_cr_valid (\<lambda>cr. rl_do ro (Rl_CodingRate cr)) s
      else if key = ''CRC'' then
        apply_if (config_value_parse_bool01_exact val) (\<lambda>_. True)
          (\<lambda>crc. rl_do ro (Rl_CRC (if crc \<noteq> 0 then 1 else 0))) s
      else if key = ''PREAMBLE'' then
        apply_if (config_value_parse_int_exact val) config_policy_lora_preamble_valid
          (\<lambda>pre. rl_do ro (Rl_PreambleLength pre)) s
      else if key = ''SYNC'' then
        apply_if (config_value_parse_hex_or_dec_u32_exact val) config_policy_lora_sync_valid
          (\<lambda>sw. rl_do ro (Rl_SyncWord [of_nat sw])) s
      else if key = ''LDRO'' then
        (if config_value_lower_ascii (config_value_trim_ascii val) = ''auto'' then applyAutoLdro ro s
         else apply_if (config_value_parse_bool01_exact val) (\<lambda>_. True) (\<lambda>ldro. rl_do ro (Rl_ForceLDRO (ldro \<noteq> 0))) s)
      else if key = ''POWER'' then
        apply_if (config_value_parse_int_exact val)
          (\<lambda>p. config_policy_power_valid_family power_max p SX127X (sx_high_power s)) (applyPowerAndOcp ro) s
      else (0, s))"

text \<open>The sync word of one or two bytes.\<close>

definition fsk_sync_bytes :: "nat \<Rightarrow> u8 list" where
  "fsk_sync_bytes raw = (if raw \<le> 0xFF then [of_nat raw] else [of_nat (raw div 256), of_nat (raw mod 256)])"

definition sx127x_applyFskParam :: "rl_oracle \<Rightarrow> int \<Rightarrow> string \<Rightarrow> string \<Rightarrow> sx127x \<Rightarrow> int \<times> sx127x" where
  "sx127x_applyFskParam ro power_max key val s =
     (if key = ''FREQ'' then
        apply_if (config_value_parse_float_exact val) (c_less (Fin 0)) (\<lambda>f. rl_do ro (Rl_Frequency f)) s
      else if key = ''POWER'' then
        apply_if (config_value_parse_int_exact val)
          (\<lambda>p. config_policy_power_valid_family power_max p SX127X (sx_high_power s)) (applyPowerAndOcp ro) s
      else if key = ''BR'' then
        apply_if (config_value_parse_float_exact val) config_policy_fsk_bitrate_valid (\<lambda>br. rl_do ro (Rl_BitRate br)) s
      else if key = ''FREQDEV'' then
        apply_if (config_value_parse_float_exact val) config_policy_fsk_freqdev_valid
          (\<lambda>fd. rl_do ro (Rl_FrequencyDeviation fd)) s
      else if key = ''RXBW'' then
        apply_if (config_value_parse_float_exact val) config_policy_fsk_rxbw_valid (\<lambda>bw. rl_do ro (Rl_RxBandwidth bw)) s
      else if key = ''OOK'' then
        apply_if (config_value_parse_bool01_exact val) (\<lambda>_. True) (\<lambda>ook. rl_do ro (Rl_OOK (ook \<noteq> 0))) s
      else if key = ''SHAPING'' then
        apply_if (driver_parse_fsk_shaping val) (\<lambda>_. True) (\<lambda>sh. rl_do ro (Rl_Shaping sh)) s
      else if key = ''ENCODING'' then
        apply_if (config_value_parse_int_exact val) (\<lambda>enc. 0 \<le> enc \<and> enc \<le> 2)
          (\<lambda>enc. rl_do ro (Rl_Encoding (word_of_int enc))) s
      else if key = ''PREAMBLE'' then
        apply_if (config_value_parse_int_exact val) config_policy_fsk_preamble_valid
          (\<lambda>pre. rl_do ro (Rl_PreambleLength pre)) s
      else if key = ''SYNC'' then
        apply_if (config_value_parse_hex_or_dec_u32_exact val) config_policy_fsk_sync_valid
          (\<lambda>raw. rl_do ro (Rl_SyncWord (fsk_sync_bytes raw))) s
      else (0, s))"

section \<open>SX1262\<close>

definition sx1262_apply_ocp :: "rl_oracle \<Rightarrow> sx1262 \<Rightarrow> int \<times> sx1262" where
  "sx1262_apply_ocp ro s = rl_do ro (Rl_CurrentLimit (sm_ocp_ma s)) s"

definition sx1262_apply_rf_switch :: "rl_oracle \<Rightarrow> sx1262 \<Rightarrow> int \<times> sx1262" where
  "sx1262_apply_rf_switch ro s =
     rl_then (rl_do ro Rl_Dio2AsRfSwitch s)
       (\<lambda>s. (RADIOLIB_ERR_NONE,
          if sm_mod s \<and> 0 \<le> sm_txen_pin s then rl_log (Rl_RfSwitchPins (sm_txen_pin s)) s else s))"

definition sx1262_begin :: "rl_oracle \<Rightarrow> rf_defaults ptr \<Rightarrow> sx1262 \<Rightarrow> int \<times> sx1262" where
  "sx1262_begin ro defaults s =
     (case defaults of
        None \<Rightarrow> (RADIOLIB_ERR_NULL_POINTER, s)
      | Some d \<Rightarrow>
          rl_then (rl_then (rl_then (rl_then (rl_then
            (rl_do ro (Rl_Begin_SX1262 (rf_freq_mhz d) (rf_bandwidth_khz d) (to_u8 (rf_spreading_factor d))
               (to_u8 (rf_coding_rate d)) (rf_sync_word d) (to_s8 (rf_power_dbm d)) (to_u16 (rf_preamble_len d))
               (sm_tcxo_voltage s)) s)
            (sx1262_apply_ocp ro))
            (sx1262_apply_rf_switch ro))
            (rl_do ro (Rl_CRC (if rf_crc_on d then 2 else 0))))
            (rl_do ro Rl_AutoLDRO))
            (\<lambda>s. if 0 \<le> rf_ldro d then rl_do ro (Rl_ForceLDRO (rf_ldro d \<noteq> 0)) s else (RADIOLIB_ERR_NONE, s)))"

definition sx1262_switchMode :: "rl_oracle \<Rightarrow> radio_mode \<Rightarrow> rf_defaults ptr \<Rightarrow> sx1262 \<Rightarrow> int \<times> sx1262" where
  "sx1262_switchMode ro mode defaults s =
     (case defaults of
        None \<Rightarrow> (RADIOLIB_ERR_NULL_POINTER, s)
      | Some d \<Rightarrow>
          if mode = RADIO_MODE_FSK then
            rl_then (rl_then (rl_do ro (Rl_BeginFSK_SX1262 (rf_freq_mhz d) 10 (sm_tcxo_voltage s)) s)
              (sx1262_apply_ocp ro)) (sx1262_apply_rf_switch ro)
          else sx1262_begin ro (Some d) s)"

definition sx1262_applyLoraParam :: "rl_oracle \<Rightarrow> int \<Rightarrow> string \<Rightarrow> string \<Rightarrow> sx1262 \<Rightarrow> int \<times> sx1262" where
  "sx1262_applyLoraParam ro power_max key val s =
     (if key = ''SF'' then
        apply_if (config_value_parse_int_exact val) config_policy_lora_sf_valid
          (\<lambda>sf. rl_do ro (Rl_SpreadingFactor sf)) s
      else if key = ''BW'' then
        apply_if (config_value_parse_float_exact val) config_policy_lora_bandwidth_valid
          (\<lambda>bw. rl_do ro (Rl_Bandwidth bw)) s
      else if key = ''FREQ'' then
        apply_if (config_value_parse_float_exact val) (c_less (Fin 0)) (\<lambda>f. rl_do ro (Rl_Frequency f)) s
      else if key = ''CR'' then
        apply_if (config_value_parse_int_exact val) config_policy_lora_cr_valid (\<lambda>cr. rl_do ro (Rl_CodingRate cr)) s
      else if key = ''CRC'' then
        apply_if (config_value_parse_bool01_exact val) (\<lambda>_. True)
          (\<lambda>crc. rl_do ro (Rl_CRC (if crc \<noteq> 0 then 2 else 0))) s
      else if key = ''PREAMBLE'' then
        apply_if (config_value_parse_int_exact val) config_policy_lora_preamble_valid
          (\<lambda>pre. rl_do ro (Rl_PreambleLength pre)) s
      else if key = ''SYNC'' then
        apply_if (config_value_parse_hex_or_dec_u32_exact val) config_policy_lora_sync_valid
          (\<lambda>sw. rl_do ro (Rl_SyncWord [of_nat sw])) s
      else if key = ''LDRO'' then
        (if config_value_lower_ascii (config_value_trim_ascii val) = ''auto'' then rl_do ro Rl_AutoLDRO s
         else apply_if (config_value_parse_bool01_exact val) (\<lambda>_. True) (\<lambda>ldro. rl_do ro (Rl_ForceLDRO (ldro \<noteq> 0))) s)
      else if key = ''POWER'' then
        apply_if (config_value_parse_int_exact val)
          (\<lambda>p. config_policy_power_valid_family power_max p SX1262 False) (\<lambda>p. rl_do ro (Rl_OutputPower (to_s8 p))) s
      else (0, s))"

definition sx1262_applyFskParam :: "rl_oracle \<Rightarrow> int \<Rightarrow> string \<Rightarrow> string \<Rightarrow> sx1262 \<Rightarrow> int \<times> sx1262" where
  "sx1262_applyFskParam ro power_max key val s =
     (if key = ''FREQ'' then
        apply_if (config_value_parse_float_exact val) (c_less (Fin 0)) (\<lambda>f. rl_do ro (Rl_Frequency f)) s
      else if key = ''POWER'' then
        apply_if (config_value_parse_int_exact val)
          (\<lambda>p. config_policy_power_valid_family power_max p SX1262 False) (\<lambda>p. rl_do ro (Rl_OutputPower (to_s8 p))) s
      else if key = ''BR'' then
        apply_if (config_value_parse_float_exact val) config_policy_fsk_bitrate_valid (\<lambda>br. rl_do ro (Rl_BitRate br)) s
      else if key = ''FREQDEV'' then
        apply_if (config_value_parse_float_exact val) config_policy_fsk_freqdev_valid
          (\<lambda>fd. rl_do ro (Rl_FrequencyDeviation fd)) s
      else if key = ''RXBW'' then
        apply_if (config_value_parse_float_exact val) (c_less (Fin 0)) (\<lambda>bw. rl_do ro (Rl_RxBandwidth bw)) s
      else if key = ''OOK'' then (RADIOLIB_ERR_INVALID_MODULATION, s)
      else if key = ''SHAPING'' then
        apply_if (driver_parse_fsk_shaping val) (\<lambda>_. True) (\<lambda>sh. rl_do ro (Rl_Shaping sh)) s
      else if key = ''ENCODING'' then
        apply_if (config_value_parse_int_exact val) (\<lambda>enc. 0 \<le> enc \<and> enc \<le> 2)
          (\<lambda>enc. rl_do ro (Rl_Encoding (word_of_int enc))) s
      else if key = ''PREAMBLE'' then
        apply_if (config_value_parse_int_exact val) config_policy_fsk_preamble_valid
          (\<lambda>pre. rl_do ro (Rl_PreambleLength pre)) s
      else if key = ''SYNC'' then
        apply_if (config_value_parse_hex_or_dec_u32_exact val) config_policy_fsk_sync_valid
          (\<lambda>raw. rl_do ro (Rl_SyncWord (fsk_sync_bytes raw))) s
      else (0, s))"

definition sx1262_readLiveRssi :: "rl_oracle \<Rightarrow> sx1262 \<Rightarrow> c_float \<times> sx1262" where
  "sx1262_readLiveRssi ro s = (let s1 = rl_log Rl_GetRSSI s in (ro_rssi ro (rl_calls s1), s1))"

definition sx1262_rssiProbe :: "rl_oracle \<Rightarrow> sx1262 \<Rightarrow> c_float \<times> sx1262" where
  "sx1262_rssiProbe ro s = (let s1 = rl_log Rl_GetRSSI s in (ro_rssi ro (rl_calls s1), s1))"

definition RADIOLIB_SX126X_IRQ_RX_DONE :: u16 where [c_consts]: "RADIOLIB_SX126X_IRQ_RX_DONE = 0x02"

definition sx1262_rxDonePending :: "rl_oracle \<Rightarrow> sx1262 \<Rightarrow> bool \<times> sx1262" where
  "sx1262_rxDonePending ro s =
     (let (flags, s1) = rl_flags ro s in (flags AND RADIOLIB_SX126X_IRQ_RX_DONE \<noteq> 0, s1))"

end
