(* ===== verification/Float_Error.thy ===== *)
theory Float_Error
  imports C_Float
begin

text \<open>The relative error of one rounding to \<open>float\<close> or \<open>double\<close>, and products of such errors.\<close>

lemma pow2_minus: "pow2 (- e) = 1 / pow2 e"
proof -
  have "pow2 (- e) * pow2 e = 1" by (simp add: pow2_add [symmetric] pow2_def)
  thus ?thesis by (simp add: field_simps)
qed

lemma round_scaled_error:
  assumes "0 < q"
  shows "\<bar>of_int (round_half_even (x / q)) * q - x\<bar> \<le> q / 2"
proof -
  let ?i = "of_int (round_half_even (x / q)) :: rat"
  have "?i * q - x = (?i - x / q) * q" using assms by (simp add: field_simps)
  hence "\<bar>?i * q - x\<bar> = \<bar>?i - x / q\<bar> * q" using assms by (simp add: abs_mult)
  also have "\<dots> \<le> 1 / 2 * q" using round_half_even_error [of "x / q"] assms by (intro mult_right_mono) simp_all
  finally show ?thesis by simp
qed

lemma f_round_error:
  assumes x: "pow2 (qmin + int prec - 1) \<le> \<bar>x\<bar>" and r: "f_round prec qmin emax x = Fin y"
  shows "\<bar>y - x\<bar> \<le> \<bar>x\<bar> / pow2 (int prec)"
proof -
  have pos: "0 < \<bar>x\<bar>" using x pow2_pos [of "qmin + int prec - 1"] by linarith
  define k where "k = ilog2 \<bar>x\<bar>"
  define q where "q = pow2 (k - int prec + 1)"
  note s = ilog2_spec [OF pos, folded k_def]
  have "\<not> k + 1 \<le> qmin + int prec - 1" using pow2_mono [of "k + 1" "qmin + int prec - 1"] s x by force
  hence m: "max (ilog2 \<bar>x\<bar> - int prec + 1) qmin = k - int prec + 1" by (simp add: k_def)
  have y: "y = of_int (round_half_even (x / q)) * q"
    using r pos unfolding f_round_def m q_def [symmetric] Let_def by (auto split: if_splits)
  have qp: "0 < q" by (simp add: q_def)
  have e: "\<bar>y - x\<bar> \<le> q / 2" using round_scaled_error [OF qp, of x] by (simp only: y)
  have "q = pow2 k * pow2 (1 - int prec)" unfolding q_def by (simp add: pow2_add [symmetric] algebra_simps)
  also have "pow2 (1 - int prec) = 2 / pow2 (int prec)"
    using pow2_add [of 1 "- int prec"] by (simp add: pow2_minus) (simp add: pow2_def)
  finally have "q / 2 = pow2 k / pow2 (int prec)" by simp
  also have "\<dots> \<le> \<bar>x\<bar> / pow2 (int prec)" using s by (intro divide_right_mono) (simp_all add: less_imp_le)
  finally show ?thesis using e by linarith
qed

lemma f_round_finite:
  assumes "0 < prec" "pow2 (qmin + int prec - 1) \<le> \<bar>x\<bar>" "2 * \<bar>x\<bar> < pow2 emax"
  shows "\<exists>y. f_round prec qmin emax x = Fin y"
proof -
  have pos: "0 < \<bar>x\<bar>" using assms(2) pow2_pos [of "qmin + int prec - 1"] by linarith
  define k where "k = ilog2 \<bar>x\<bar>"
  define q where "q = pow2 (k - int prec + 1)"
  note s = ilog2_spec [OF pos, folded k_def]
  have "\<not> k + 1 \<le> qmin + int prec - 1" using pow2_mono [of "k + 1" "qmin + int prec - 1"] s assms(2) by force
  hence m: "max (ilog2 \<bar>x\<bar> - int prec + 1) qmin = k - int prec + 1" by (simp add: k_def)
  have qp: "0 < q" by (simp add: q_def)
  have qk: "q \<le> \<bar>x\<bar>" using s pow2_mono [of "k - int prec + 1" k] assms(1) unfolding q_def by simp
  let ?y = "of_int (round_half_even (x / q)) * q"
  have "\<bar>?y\<bar> < pow2 emax" using round_scaled_error [OF qp, of x] qk assms(3) qp by linarith
  hence "\<not> pow2 emax \<le> ?y" "\<not> ?y \<le> - pow2 emax" by linarith+
  thus ?thesis using pos unfolding f_round_def m q_def [symmetric] Let_def by simp
qed

lemma pow2_numerals:
  "pow2 (- 1022) \<le> 1 / 10 ^ 20" "(10::rat) ^ 20 < pow2 1024" "pow2 (- 126) \<le> 1 / 10 ^ 20"
  by (simp_all add: pow2_def)

text \<open>The error of a \<open>double\<close> between \<open>1e-20\<close> and \<open>1e19\<close>, as factors.\<close>

lemma f64_round_near:
  assumes "1 / 10 ^ 20 \<le> x" "x \<le> 10 ^ 19"
  shows "\<exists>y. f64_round x = Fin y \<and> x * (1 - 1 / 2 ^ 53) \<le> y \<and> y \<le> x * (1 + 1 / 2 ^ 53)"
proof -
  have lo: "pow2 (- 1074 + int 53 - 1) \<le> \<bar>x\<bar>" using pow2_numerals(1) assms(1) by simp
  have "2 * \<bar>x\<bar> < pow2 1024" using pow2_numerals(2) assms by simp
  then obtain y where y: "f64_round x = Fin y" using f_round_finite [OF _ lo, of 1024] by (auto simp: f64_round_def)
  have "\<bar>y - x\<bar> \<le> \<bar>x\<bar> / pow2 (int 53)" using f_round_error [OF lo] y by (simp add: f64_round_def)
  hence "\<bar>y - x\<bar> \<le> x / 2 ^ 53" using assms(1) by (simp add: pow2_def)
  hence "y \<le> x + x / 2 ^ 53" "x - x / 2 ^ 53 \<le> y" by linarith+
  moreover have "x * (1 + 1 / 2 ^ 53) = x + x / 2 ^ 53" "x * (1 - 1 / 2 ^ 53) = x - x / 2 ^ 53"
    by (simp_all add: algebra_simps)
  ultimately show ?thesis using y by (intro exI [of _ y]) (simp only: simp_thms)
qed

lemma f32_round_near:
  assumes "f32_round x = Fin y" "1 / 10 ^ 20 \<le> \<bar>x\<bar>"
  shows "\<bar>y - x\<bar> \<le> \<bar>x\<bar> / 2 ^ 24"
proof -
  have "pow2 (- 149 + int 24 - 1) \<le> \<bar>x\<bar>" using pow2_numerals(3) assms(2) by simp
  from f_round_error [OF this] show ?thesis using assms(1) by (simp add: f32_round_def pow2_def)
qed

text \<open>A value that \<open>config_value_float_equal\<close> accepts for a constant is close to it.\<close>

lemma f32_difference_small:
  assumes "c_less (c_abs (c_sub f32_round v (f32_round r))) (f32_round (1 / 10000))" "1 \<le> r" "r \<le> 1000"
  shows "\<exists>b. v = Fin b \<and> \<bar>b - r\<bar> \<le> 1 / 1000"
proof -
  obtain e where e: "f32_round r = Fin e"
    using f_round_finite [of 24 "-149" r 128] assms(2,3) pow2_numerals(3) by (auto simp: f32_round_def pow2_def)
  have er: "\<bar>e - r\<bar> \<le> r / 2 ^ 24" using f32_round_near [OF e] assms(2) by simp
  obtain t where t: "f32_round (1 / 10000) = Fin t"
    using f_round_finite [of 24 "-149" "1 / 10000" 128] pow2_numerals(3) by (auto simp: f32_round_def pow2_def)
  have tr: "\<bar>t - 1 / 10000\<bar> \<le> 1 / 10000 / 2 ^ 24" using f32_round_near [OF t] by simp
  obtain b where b: "v = Fin b" using assms(1) by (cases v) (auto simp: e t c_sub_def)
  obtain y where y: "f32_round (b - e) = Fin y" "\<bar>y\<bar> < t"
    using assms(1) by (cases "f32_round (b - e)") (auto simp: e t b c_sub_def)
  have "\<bar>b - e\<bar> \<le> 2 / 10000"
  proof (cases "1 / 10 ^ 20 \<le> \<bar>b - e\<bar>")
    case True
    hence "\<bar>y - (b - e)\<bar> \<le> \<bar>b - e\<bar> / 2 ^ 24" by (rule f32_round_near [OF y(1)])
    thus ?thesis using y(2) tr by (simp add: abs_if split: if_splits)
  qed simp
  moreover have "r / 2 ^ 24 \<le> 1 / 10000" using assms(3) by simp
  ultimately have "\<bar>b - r\<bar> \<le> 1 / 1000" using er by linarith
  thus ?thesis using b by blast
qed

end
