(* ===== verification/Chip_Props.thy ===== *)
theory Chip_Props
  imports Chip_Driver Float_Error
begin

text \<open>
  What the chip drivers promise: a value the CONFIG validation accepted makes a chip call whose
  status the driver returns; a successful power setting is followed by the current limit; the deadline
  of a channel scan covers its physical time; a scan returns and decides from the flags it read.
\<close>

section \<open>Accepted values reach the chip\<close>

text \<open>The operation called the chip, and its status is the chip's last answer.\<close>

definition chip_answered :: "rl_oracle \<Rightarrow> 'a rl_chip_scheme \<Rightarrow> int \<times> 'a rl_chip_scheme \<Rightarrow> bool" where
  "chip_answered ro s r \<longleftrightarrow>
     (\<exists>new. new \<noteq> [] \<and> rl_calls (snd r) = new @ rl_calls s \<and> fst r = ro_status ro (rl_calls (snd r)))"

lemma answered_do: "chip_answered ro s (rl_do ro c s)"
  by (auto simp: chip_answered_def rl_do_def rl_log_def Let_def)

lemma answered_then:
  assumes "chip_answered ro s r" "\<And>t. chip_answered ro t (f t)"
  shows "chip_answered ro s (rl_then r f)"
proof (cases "fst r = RADIOLIB_ERR_NONE")
  case True
  with assms(1) assms(2) [of "snd r"] show ?thesis by (fastforce simp: rl_then_def chip_answered_def)
qed (use assms(1) in \<open>simp add: rl_then_def\<close>)

lemma answered_cache:
  assumes "chip_answered ro s r" "\<And>t. rl_calls (g t) = rl_calls t"
  shows "chip_answered ro s (rl_then r (\<lambda>t. (RADIOLIB_ERR_NONE, g t)))"
  using assms by (auto simp: rl_then_def chip_answered_def)

lemma answered_power: "chip_answered ro s (applyPowerAndOcp ro p s)"
  unfolding applyPowerAndOcp_def by (intro answered_then answered_do)

lemma answered_ldro: "chip_answered ro s (applyAutoLdro ro s)"
  unfolding applyAutoLdro_def by (intro answered_then answered_do)

lemmas answered_intros = answered_do answered_power answered_ldro answered_cache

lemma band_frequency_positive: "config_policy_freq_valid_band f a b \<Longrightarrow> c_less (Fin 0) f"
  by (cases f; cases a) (auto simp: config_policy_freq_valid_band_def c_ge_def split: if_splits)

lemma float_equal_positive:
  assumes "list_ex (config_value_float_equal bw) (f32_lits rs)" "\<forall>r\<in>set rs. 1 \<le> r \<and> r \<le> 1000"
  shows "\<exists>b r. r \<in> set rs \<and> bw = Fin b \<and> \<bar>b - r\<bar> \<le> 1 / 1000"
proof -
  obtain r where r: "r \<in> set rs" "config_value_float_equal bw (f32_round r)"
    using assms(1) by (auto simp: f32_lits_def list_ex_iff)
  hence "c_less (c_abs (c_sub f32_round bw (f32_round r))) (f32_round (1 / 10000))"
    by (simp add: config_value_float_equal_def)
  from f32_difference_small [OF this] assms(2) r(1) show ?thesis by blast
qed

lemma sx126x_rxbw_positive: "config_policy_fsk_rxbw_valid_sx126x bw \<Longrightarrow> c_less (Fin 0) bw"
proof -
  assume "config_policy_fsk_rxbw_valid_sx126x bw"
  hence "\<exists>b r. r \<in> set fsk_rx_bandwidths_sx126x \<and> bw = Fin b \<and> \<bar>b - r\<bar> \<le> 1 / 1000"
    unfolding config_policy_fsk_rxbw_valid_sx126x_def
    by (rule float_equal_positive) (simp add: fsk_rx_bandwidths_sx126x_def)
  then obtain b r where b: "r \<in> set fsk_rx_bandwidths_sx126x" "bw = Fin b" "\<bar>b - r\<bar> \<le> 1 / 1000" by blast
  have "1 \<le> r" using b(1) by (auto simp: fsk_rx_bandwidths_sx126x_def)
  hence "0 < b" using b(3) by linarith
  with b show ?thesis by simp
qed


lemma shaping_parsed:
  "config_validate_fsk_shaping_value val \<Longrightarrow> \<exists>sh. driver_parse_fsk_shaping val = Some sh"
  by (auto simp: config_validate_fsk_shaping_value_def driver_parse_fsk_shaping_def Let_def parsed_ok_def
      f32_lits_def split: option.splits if_splits)

lemma answered_some: "p x \<Longrightarrow> chip_answered ro s (f x s) \<Longrightarrow> chip_answered ro s (apply_if (Some x) p f s)"
  by (simp add: apply_if_def)

lemmas validated_defs = config_validate_freq_value_def config_validate_power_value_def parsed_ok_def

lemma lora_cases:
  assumes "radio_value_ok cl RADIO_MODE_LORA key val"
  shows "key = ''FREQ'' \<and> config_validate_freq_value cl val \<or> key = ''POWER'' \<and> config_validate_power_value cl val \<or>
    key = ''SF'' \<and> parsed_ok (config_value_parse_int_exact val) config_policy_lora_sf_valid \<or>
    key = ''BW'' \<and> parsed_ok (config_value_parse_float_exact val) config_policy_lora_bandwidth_valid \<or>
    key = ''CR'' \<and> parsed_ok (config_value_parse_int_exact val) config_policy_lora_cr_valid \<or>
    key = ''CRC'' \<and> config_value_parse_bool01_exact val \<noteq> None \<or>
    key = ''PREAMBLE'' \<and> parsed_ok (config_value_parse_int_exact val) config_policy_lora_preamble_valid \<or>
    key = ''SYNC'' \<and> parsed_ok (config_value_parse_hex_or_dec_u32_exact val) config_policy_lora_sync_valid \<or>
    key = ''LDRO'' \<and> (config_value_lower_ascii (config_value_trim_ascii val) = ''auto'' \<or>
      config_value_parse_bool01_exact val \<noteq> None)"
proof -
  have "key \<in> {''FREQ'', ''POWER'', ''PREAMBLE'', ''SYNC'', ''SF'', ''BW'', ''CR'', ''LDRO'', ''CRC''}"
    using assms by (auto simp: radio_value_ok_def config_is_known_config_key_def config_is_common_key_def
        config_is_lora_only_key_def)
  thus ?thesis using assms
    by (elim insertE emptyE; hypsubst) (simp_all add: radio_value_ok_def config_validate_lora_value_def del: not_None_eq)
qed

lemma sx127x_lora_answers:
  assumes ok: "radio_value_ok cl RADIO_MODE_LORA key val"
    and fam: "lim_family cl = SX127X" "sx_high_power s = lim_high_power cl"
  shows "chip_answered ro s (sx127x_applyLoraParam ro (lim_power_max cl) key val s)"
  using lora_cases [OF ok] fam
  by (elim disjE conjE; simp add: sx127x_applyLoraParam_def del: not_None_eq)
    (auto simp: validated_defs intro!: answered_intros answered_some
      dest: band_frequency_positive split: option.splits)


lemma sx1262_lora_answers:
  assumes ok: "radio_value_ok cl RADIO_MODE_LORA key val" and fam: "lim_family cl = SX1262"
  shows "chip_answered ro s (sx1262_applyLoraParam ro (lim_power_max cl) key val s)"
  using lora_cases [OF ok] fam
  by (elim disjE conjE; simp add: sx1262_applyLoraParam_def del: not_None_eq)
    (auto simp: validated_defs config_policy_power_valid_family_def intro!: answered_intros answered_some
      dest: band_frequency_positive split: option.splits)

lemma fsk_cases:
  assumes "radio_value_ok cl RADIO_MODE_FSK key val"
  shows "key = ''FREQ'' \<and> config_validate_freq_value cl val \<or> key = ''POWER'' \<and> config_validate_power_value cl val \<or>
    key = ''BR'' \<and> parsed_ok (config_value_parse_float_exact val) config_policy_fsk_bitrate_valid \<or>
    key = ''FREQDEV'' \<and> parsed_ok (config_value_parse_float_exact val)
      (\<lambda>f. config_policy_fsk_freqdev_valid_family f (lim_family cl)) \<or>
    key = ''RXBW'' \<and> parsed_ok (config_value_parse_float_exact val)
      (\<lambda>bw. config_policy_fsk_rxbw_valid_family bw (lim_family cl)) \<or>
    key = ''OOK'' \<and> parsed_ok (config_value_parse_bool01_exact val)
      (\<lambda>ook. config_policy_fsk_ook_valid_family ook (lim_family cl)) \<or>
    key = ''SHAPING'' \<and> config_validate_fsk_shaping_value val \<or>
    key = ''ENCODING'' \<and> parsed_ok (config_value_parse_int_exact val)
      (\<lambda>e. config_policy_fsk_encoding_valid_family e (lim_family cl)) \<or>
    key = ''PREAMBLE'' \<and> parsed_ok (config_value_parse_int_exact val) config_policy_fsk_preamble_valid \<or>
    key = ''SYNC'' \<and> parsed_ok (config_value_parse_hex_or_dec_u32_exact val) config_policy_fsk_sync_valid"
proof -
  have "key \<in> {''FREQ'', ''POWER'', ''PREAMBLE'', ''SYNC'', ''BR'', ''FREQDEV'', ''RXBW'', ''OOK'', ''SHAPING'', ''ENCODING''}"
    using assms by (auto simp: radio_value_ok_def config_is_known_config_key_def config_is_common_key_def
        config_is_fsk_only_key_def)
  thus ?thesis using assms
    by (elim insertE emptyE; hypsubst) (simp_all add: radio_value_ok_def config_validate_fsk_value_def del: not_None_eq)
qed

lemma answered_shaping:
  "config_validate_fsk_shaping_value val \<Longrightarrow> (\<And>x. chip_answered ro s (f x s)) \<Longrightarrow>
     chip_answered ro s (apply_if (driver_parse_fsk_shaping val) (\<lambda>_. True) f s)"
  using shaping_parsed [of val] by (auto simp: apply_if_def)

lemmas family_defs = config_policy_fsk_freqdev_valid_family_def config_policy_fsk_rxbw_valid_family_def
  config_policy_fsk_encoding_valid_family_def config_policy_fsk_ook_valid_family_def
  config_policy_power_valid_family_def

lemma sx127x_fsk_answers:
  assumes ok: "radio_value_ok cl RADIO_MODE_FSK key val"
    and fam: "lim_family cl = SX127X" "sx_high_power s = lim_high_power cl"
  shows "chip_answered ro s (sx127x_applyFskParam ro (lim_power_max cl) key val s)"
  using fsk_cases [OF ok] fam
  by (elim disjE conjE; simp add: sx127x_applyFskParam_def del: not_None_eq)
    (auto simp: validated_defs family_defs intro!: answered_intros answered_some answered_shaping
      dest: band_frequency_positive split: option.splits if_splits)

lemma sx1262_fsk_answers:
  assumes ok: "radio_value_ok cl RADIO_MODE_FSK key val" and fam: "lim_family cl = SX1262"
  shows "chip_answered ro s (sx1262_applyFskParam ro (lim_power_max cl) key val s)"
  using fsk_cases [OF ok] fam
  by (elim disjE conjE; simp add: sx1262_applyFskParam_def del: not_None_eq)
    (auto simp: validated_defs family_defs intro!: answered_intros answered_some answered_shaping
      dest: band_frequency_positive sx126x_rxbw_positive split: option.splits if_splits)


text \<open>
  C19: A value that the CONFIG validation accepts for a mode is never silently dropped by the driver, whose
  own parsing and checks are separate code: for every key, on both chips, with the driver created with
  the process's power permission, the driver makes at least one chip call and returns the status of
  the last one.
\<close>

theorem accepted_value_reaches_chip:
  assumes "radio_value_ok cl mode key val"
  shows "(lim_family cl = SX127X \<and> sx_high_power s = lim_high_power cl \<longrightarrow>
      chip_answered ro s ((if mode = RADIO_MODE_FSK then sx127x_applyFskParam else sx127x_applyLoraParam) ro (lim_power_max cl) key val s)) \<and>
    (lim_family cl = SX1262 \<longrightarrow>
      chip_answered ro m ((if mode = RADIO_MODE_FSK then sx1262_applyFskParam else sx1262_applyLoraParam) ro (lim_power_max cl) key val m))"
  using assms sx127x_lora_answers sx1262_lora_answers sx127x_fsk_answers sx1262_fsk_answers
  by (cases mode) auto

text \<open>A chip that accepts every call.\<close>

definition sample_oracle :: rl_oracle where
  "sample_oracle = \<lparr>ro_status = (\<lambda>_. 0), ro_flags = (\<lambda>_. 4), ro_now = (\<lambda>_. 0), ro_reg = (\<lambda>_. 0), ro_rssi = (\<lambda>_. Fin 0)\<rparr>"

definition sample_limits :: config_limits where
  "sample_limits = \<lparr>lim_family = SX127X, lim_freq_min = Fin 433, lim_freq_max = Fin 435, lim_high_power = False, lim_power_max = 20\<rparr>"

lemma power17_int: "config_value_parse_int_exact ''17'' = Some 17"
  by (simp add: config_value_parse_int_exact_def config_value_trim_ascii_def strip_end_def c_isspace_def
      char_code_def c_strtol_def scan_integer_def take_sign_def is_digit_def digit_value_def digits_value_def
      config_value_only_trailing_space_def Let_def)

lemma power17_ok: "radio_value_ok sample_limits RADIO_MODE_LORA ''POWER'' ''17''"
  by (simp add: radio_value_ok_def config_validate_lora_value_def config_validate_power_value_def parsed_ok_def
      power17_int config_policy_power_valid_family_def sample_limits_def config_is_known_config_key_def
      config_is_common_key_def config_is_fsk_only_key_def)

theorem accepted_value_reaches_chip_witness:
  "radio_value_ok sample_limits RADIO_MODE_LORA ''POWER'' ''17'' \<and>
   chip_answered sample_oracle (sx127x_driver_create False False 100)
     (sx127x_applyLoraParam sample_oracle 20 ''POWER'' ''17'' (sx127x_driver_create False False 100))"
  using power17_ok accepted_value_reaches_chip [OF power17_ok, of "sx127x_driver_create False False 100" sample_oracle]
  by (simp add: sample_limits_def sx127x_driver_create_def)

section \<open>The calls of an operation\<close>

text \<open>An operation adds only calls of a kind, and keeps the configured members \<open>fx\<close>.\<close>

definition adds :: "('a rl_chip_scheme \<Rightarrow> 'b) \<Rightarrow> (rl_call \<Rightarrow> bool) \<Rightarrow> 'a rl_chip_scheme \<Rightarrow> 'a rl_chip_scheme \<Rightarrow> bool" where
  "adds fx P s t \<longleftrightarrow> fx t = fx s \<and> (\<exists>new. rl_calls t = new @ rl_calls s \<and> (\<forall>c\<in>set new. P c))"

lemma adds_refl [intro]: "adds fx P s s"
  by (simp add: adds_def)

lemma adds_trans: "adds fx P s t \<Longrightarrow> adds fx P t u \<Longrightarrow> adds fx P s u"
proof -
  assume a: "adds fx P s t" "adds fx P t u"
  then obtain n m where "rl_calls t = n @ rl_calls s" "rl_calls u = m @ rl_calls t"
    "\<forall>c\<in>set n. P c" "\<forall>c\<in>set m. P c" unfolding adds_def by blast
  hence "rl_calls u = (m @ n) @ rl_calls s \<and> (\<forall>c\<in>set (m @ n). P c)" by auto
  with a show ?thesis unfolding adds_def by metis
qed

lemma adds_log: "P c \<Longrightarrow> fx (rl_log c s) = fx s \<Longrightarrow> adds fx P s (rl_log c s)"
  by (auto simp: adds_def rl_log_def intro: exI [of _ "[c]"])

lemma adds_do: "P c \<Longrightarrow> fx (rl_log c s) = fx s \<Longrightarrow> adds fx P s (snd (rl_do ro c s))"
  by (simp add: rl_do_def Let_def adds_log)

lemma adds_then:
  "adds fx P s (snd r) \<Longrightarrow> (\<And>t. fx t = fx s \<Longrightarrow> adds fx P t (snd (f t))) \<Longrightarrow> adds fx P s (snd (rl_then r f))"
proof -
  assume a: "adds fx P s (snd r)" "\<And>t. fx t = fx s \<Longrightarrow> adds fx P t (snd (f t))"
  have "fx (snd r) = fx s" using a(1) by (simp add: adds_def)
  from adds_trans [OF a(1) a(2) [OF this]] a(1) show ?thesis by (simp add: rl_then_def)
qed

lemma adds_if:
  "(\<And>x. v = Some x \<Longrightarrow> p x \<Longrightarrow> adds fx P s (snd (f x s))) \<Longrightarrow> adds fx P s (snd (apply_if v p f s))"
  by (auto simp: apply_if_def split: option.splits)

lemma adds_set: "fx t = fx s \<Longrightarrow> rl_calls t = rl_calls s \<Longrightarrow> adds fx P s t"
  by (simp add: adds_def)

definition sx_fixed :: "sx127x \<Rightarrow> bool \<times> int" where
  "sx_fixed s = (sx_high_power s, sx_ocp_ma s)"

lemma sx_fixed_simps [simp]:
  "sx_fixed (rl_log c s) = sx_fixed s" "sx_fixed (s\<lparr>sx_sf := i\<rparr>) = sx_fixed s"
  "sx_fixed (s\<lparr>sx_bw_khz := b\<rparr>) = sx_fixed s" "sx_fixed (s\<lparr>sx_mode := m\<rparr>) = sx_fixed s"
  by (simp_all add: sx_fixed_def rl_log_def)

definition sm_fixed :: "sx1262 \<Rightarrow> int" where
  "sm_fixed s = sm_ocp_ma s"

lemma sm_fixed_simps [simp]: "sm_fixed (rl_log c s) = sm_fixed s"
  by (simp add: sm_fixed_def rl_log_def)

text \<open>The calls that touch the power amplifier.\<close>

fun pa_call :: "rl_call \<Rightarrow> bool" where
  "pa_call Rl_Begin = True"
| "pa_call (Rl_Begin_SX1262 _ _ _ _ _ _ _ _) = True"
| "pa_call (Rl_BeginFSK _) = True"
| "pa_call (Rl_BeginFSK_SX1262 _ _ _) = True"
| "pa_call (Rl_OutputPower _) = True"
| "pa_call (Rl_CurrentLimit _) = True"
| "pa_call _ = False"

text \<open>The calls that set the spreading factor or the bandwidth.\<close>

fun modem_call :: "rl_call \<Rightarrow> bool" where
  "modem_call (Rl_SpreadingFactor _) = True"
| "modem_call (Rl_Bandwidth _) = True"
| "modem_call _ = False"

lemmas adds_intros = adds_do adds_log adds_then adds_if

lemma sx127x_lora_adds:
  assumes "\<And>c. \<not> pa_call c \<Longrightarrow> P c"
    and "\<And>p. key = ''POWER'' \<Longrightarrow> config_value_parse_int_exact val = Some p \<Longrightarrow> config_policy_power_valid_family pm p SX127X (sx_high_power s) \<Longrightarrow>
      adds sx_fixed P s (snd (applyPowerAndOcp ro p s))"
  shows "adds sx_fixed P s (snd (sx127x_applyLoraParam ro pm key val s))"
  using assms unfolding sx127x_applyLoraParam_def applyAutoLdro_def
  by (simp add: adds_intros adds_set adds_refl)

lemma sx127x_fsk_adds:
  assumes "\<And>c. \<not> pa_call c \<Longrightarrow> \<not> modem_call c \<Longrightarrow> P c" and "\<And>c s. fx (rl_log c s) = fx s"
    and "\<And>p. key = ''POWER'' \<Longrightarrow> config_value_parse_int_exact val = Some p \<Longrightarrow> config_policy_power_valid_family pm p SX127X (sx_high_power s) \<Longrightarrow>
      adds fx P s (snd (applyPowerAndOcp ro p s))"
  shows "adds fx P s (snd (sx127x_applyFskParam ro pm key val s))"
  using assms unfolding sx127x_applyFskParam_def
  by (simp add: adds_intros adds_set adds_refl)

lemma sx1262_lora_adds:
  assumes "\<And>c. \<not> pa_call c \<Longrightarrow> P c"
    and "\<And>p. key = ''POWER'' \<Longrightarrow> config_value_parse_int_exact val = Some p \<Longrightarrow>
      config_policy_power_valid_family pm p SX1262 False \<Longrightarrow> P (Rl_OutputPower (to_s8 p))"
  shows "adds sm_fixed P s (snd (sx1262_applyLoraParam ro pm key val s))"
  using assms unfolding sx1262_applyLoraParam_def
  by (simp add: adds_intros adds_refl)

lemma sx1262_fsk_adds:
  assumes "\<And>c. \<not> pa_call c \<Longrightarrow> P c"
    and "\<And>p. key = ''POWER'' \<Longrightarrow> config_value_parse_int_exact val = Some p \<Longrightarrow>
      config_policy_power_valid_family pm p SX1262 False \<Longrightarrow> P (Rl_OutputPower (to_s8 p))"
  shows "adds sm_fixed P s (snd (sx1262_applyFskParam ro pm key val s))"
  using assms unfolding sx1262_applyFskParam_def
  by (simp add: adds_intros adds_refl)


lemma power_adds:
  assumes "P (Rl_OutputPower (to_s8 p))" "P (Rl_CurrentLimit (to_u8 (sx_ocp_ma s)))"
  shows "adds sx_fixed P s (snd (applyPowerAndOcp ro p s))"
  using assms unfolding applyPowerAndOcp_def by (intro adds_intros) (simp_all add: sx_fixed_def rl_log_def)

lemma boot_adds:
  assumes "\<forall>c\<in>set cs. P c"
  shows "adds sx_fixed P (snd r) (snd (boot_steps ro cs r))"
  using assms
proof (induction ro cs r rule: boot_steps.induct)
  case (2 ro c cs st s)
  have "adds sx_fixed P s (snd (rl_do ro c s))" using 2 by (intro adds_do) simp_all
  thus ?case using 2 by (force simp: Let_def split: prod.splits intro: adds_trans)
qed (simp add: adds_refl)

lemma sx127x_begin_adds:
  assumes "\<And>c. \<not> pa_call c \<Longrightarrow> P c" "P Rl_Begin" "P (Rl_CurrentLimit (to_u8 (sx_ocp_ma s)))"
    and "\<And>x. d = Some x \<Longrightarrow> P (Rl_OutputPower (to_s8 (rf_power_dbm x)))"
  shows "adds sx_fixed P s (snd (sx127x_begin ro d s))"
proof (cases d)
  case (Some x)
  have b: "\<forall>c\<in>set (boot_calls x). P c" using assms(1) by (simp add: boot_calls_def)
  show ?thesis unfolding sx127x_begin_def Some Let_def option.case
  proof (intro adds_then)
    fix t assume t: "sx_fixed t = sx_fixed s"
    show "adds sx_fixed P t (snd (boot_steps ro (boot_calls x) (RADIOLIB_ERR_NONE, t)))"
      using boot_adds [OF b, of "(RADIOLIB_ERR_NONE, t)"] by simp
    show "adds sx_fixed P t (snd (applyPowerAndOcp ro (rf_power_dbm x) t))"
      using assms(3,4) Some t by (intro power_adds) (simp_all add: sx_fixed_def)
    let ?t = "t\<lparr>sx_sf := rf_spreading_factor x, sx_bw_khz := rf_bandwidth_khz x, sx_mode := RADIO_MODE_LORA\<rparr>"
    have "adds sx_fixed P t ?t" by (simp add: adds_set)
    moreover have "adds sx_fixed P ?t (snd (rl_do ro (Rl_ForceLDRO (rf_ldro x \<noteq> 0)) ?t))"
      "adds sx_fixed P ?t (snd (applyAutoLdro ro ?t))"
      unfolding applyAutoLdro_def using assms(1) by (intro adds_intros; simp)+
    ultimately show "adds sx_fixed P t (snd (if 0 \<le> rf_ldro x then rl_do ro (Rl_ForceLDRO (rf_ldro x \<noteq> 0)) ?t
       else applyAutoLdro ro ?t))" by (auto intro: adds_trans)
  qed (use assms in \<open>auto intro: adds_do\<close>)
qed (simp add: sx127x_begin_def adds_refl)

lemma sx127x_switch_adds:
  assumes "\<And>c. \<not> pa_call c \<Longrightarrow> P c" "P Rl_Begin" "\<And>f. P (Rl_BeginFSK f)" "P (Rl_CurrentLimit (to_u8 (sx_ocp_ma s)))"
    and "\<And>x. d = Some x \<Longrightarrow> P (Rl_OutputPower (to_s8 (rf_power_dbm x)))"
  shows "adds sx_fixed P s (snd (sx127x_switchMode ro m d s))"
proof (cases "d = None \<or> m \<noteq> RADIO_MODE_FSK")
  case False
  then obtain x where x: "d = Some x" "m = RADIO_MODE_FSK" by auto
  show ?thesis unfolding sx127x_switchMode_def x option.case if_P [OF refl]
  proof (rule adds_then)
    fix t assume "sx_fixed t = sx_fixed s"
    with assms x have "adds sx_fixed P (t\<lparr>sx_mode := RADIO_MODE_FSK\<rparr>)
      (snd (applyPowerAndOcp ro (rf_power_dbm x) (t\<lparr>sx_mode := RADIO_MODE_FSK\<rparr>)))"
      by (intro power_adds) (simp_all add: sx_fixed_def)
    thus "adds sx_fixed P t (snd (applyPowerAndOcp ro (rf_power_dbm x) (t\<lparr>sx_mode := RADIO_MODE_FSK\<rparr>)))"
      by (rule adds_trans [rotated]) (simp add: adds_set)
  qed (use assms in \<open>auto intro: adds_do\<close>)
qed (use assms in \<open>auto simp: sx127x_switchMode_def adds_refl split: option.splits intro!: sx127x_begin_adds\<close>)

lemma ocp_adds: "P (Rl_CurrentLimit (sm_fixed s)) \<Longrightarrow> adds sm_fixed P s (snd (sx1262_apply_ocp ro s))"
  by (simp add: sx1262_apply_ocp_def adds_do sm_fixed_def rl_log_def)

lemma rf_switch_adds:
  assumes "\<And>c. \<not> pa_call c \<Longrightarrow> P c"
  shows "adds sm_fixed P s (snd (sx1262_apply_rf_switch ro s))"
  unfolding sx1262_apply_rf_switch_def
  by (rule adds_then) (auto simp: assms adds_refl intro!: adds_do adds_log)

lemma sx1262_begin_adds:
  assumes "\<And>c. \<not> pa_call c \<Longrightarrow> P c"
    and "\<And>x a b c e f h i. d = Some x \<Longrightarrow> P (Rl_Begin_SX1262 a b c e f (to_s8 (rf_power_dbm x)) h i)"
    and "P (Rl_CurrentLimit (sm_fixed s))"
  shows "adds sm_fixed P s (snd (sx1262_begin ro d s))"
proof (cases d)
  case (Some x)
  show ?thesis unfolding sx1262_begin_def Some option.case
    by (intro adds_then rf_switch_adds adds_do ocp_adds) (simp_all add: assms Some adds_do adds_refl)
qed (simp add: sx1262_begin_def adds_refl)

lemma sx1262_switch_adds:
  assumes "\<And>c. \<not> pa_call c \<Longrightarrow> P c"
    and "\<And>x a b c e f h i. d = Some x \<Longrightarrow> m \<noteq> RADIO_MODE_FSK \<Longrightarrow>
      P (Rl_Begin_SX1262 a b c e f (to_s8 (rf_power_dbm x)) h i)"
    and "\<And>a b. m = RADIO_MODE_FSK \<Longrightarrow> P (Rl_BeginFSK_SX1262 a 10 b)" "P (Rl_CurrentLimit (sm_fixed s))"
  shows "adds sm_fixed P s (snd (sx1262_switchMode ro m d s))"
proof (cases "d = None \<or> m \<noteq> RADIO_MODE_FSK")
  case False
  then obtain x where x: "d = Some x" "m = RADIO_MODE_FSK" by auto
  show ?thesis unfolding sx1262_switchMode_def x option.case if_P [OF refl]
    by (intro adds_then rf_switch_adds adds_do ocp_adds) (simp_all add: assms x)
qed (use assms in \<open>auto simp: sx1262_switchMode_def adds_refl split: option.splits intro!: sx1262_begin_adds\<close>)


lemma adds_snoc: "P c \<Longrightarrow> adds fx P s t \<Longrightarrow> fx (rl_log c t) = fx t \<Longrightarrow> adds fx P s (rl_log c t)"
  by (rule adds_trans [OF _ adds_log]) simp_all

lemma adds_front: "adds fx P (rl_log c s) t \<Longrightarrow> P c \<Longrightarrow> fx (rl_log c s) = fx s \<Longrightarrow> adds fx P s t"
  by (rule adds_trans [OF adds_log]) simp_all

lemma cad_poll_adds:
  assumes P: "\<And>c. \<not> pa_call c \<Longrightarrow> \<not> modem_call c \<Longrightarrow> P c" and fx: "\<And>c s. fx (rl_log c s) = fx s"
  shows "cad_poll ro d s = Some r \<Longrightarrow> adds fx P s (snd r)"
proof (induction rule: cad_poll.raw_induct [rotated -1, consumes 1, case_names iterate])
  case (iterate poll ro d s r)
  show ?case
  proof (cases "ro_flags ro (rl_calls (rl_log Rl_GetIRQFlags s)) AND RADIOLIB_SX127X_CLEAR_IRQ_FLAG_CAD_DONE \<noteq> 0 \<or>
      d \<le> ro_now ro (rl_calls (rl_log Rl_Now (rl_log Rl_GetIRQFlags s)))")
    case True
    with iterate(2) show ?thesis
      by (auto simp: rl_flags_def rl_now_def Let_def P fx adds_refl split: if_splits intro!: adds_snoc)
  next
    case False
    with iterate(2) have "poll ro d (rl_log Rl_Sleep (rl_log Rl_Now (rl_log Rl_GetIRQFlags s))) = Some r"
      by (auto simp: rl_flags_def rl_now_def Let_def split: if_splits)
    from iterate(1) [OF this] show ?thesis by (auto intro!: P fx dest!: adds_front)
  qed
qed

lemma scan_adds:
  assumes P: "\<And>c. \<not> pa_call c \<Longrightarrow> \<not> modem_call c \<Longrightarrow> P c" and fx: "\<And>c s. fx (rl_log c s) = fx s" and s: "sx127x_scanChannel ro s = Some r"
  shows "adds fx P s (snd r)"
proof (cases "ro_status ro (rl_calls (rl_log Rl_StartChannelScan s)) = RADIOLIB_ERR_NONE")
  case True
  then obtain d where "cad_poll ro d (rl_log Rl_Now (rl_log Rl_StartChannelScan s)) = Some r"
    using s by (auto simp: sx127x_scanChannel_def rl_do_def rl_now_def Let_def)
  from cad_poll_adds [of P fx, OF P fx this] show ?thesis by (auto intro!: P fx dest!: adds_front)
qed (use s in \<open>auto simp: sx127x_scanChannel_def rl_do_def Let_def P fx adds_refl intro!: adds_snoc\<close>)


end
