(* ===== verification/Chip_Power.thy ===== *)
theory Chip_Power
  imports Chip_Props
begin

text \<open>
  The current limit of the power amplifier and the commanded powers, over any sequence of driver
  operations: the laws of one operation are a locale, interpreted for both chips.
\<close>

section \<open>The current limit\<close>

text \<open>Of the calls \<open>R\<close> that decide the limit, the newest set it to \<open>ma\<close> with status 0.\<close>

definition limit_in_force :: "(rl_call \<Rightarrow> bool) \<Rightarrow> rl_oracle \<Rightarrow> int \<Rightarrow> rl_call list \<Rightarrow> bool" where
  "limit_in_force R ro ma calls \<longleftrightarrow>
     (\<exists>new old. calls = new @ Rl_CurrentLimit ma # old \<and> (\<forall>c\<in>set new. \<not> R c) \<and>
       ro_status ro (Rl_CurrentLimit ma # old) = RADIOLIB_ERR_NONE)"

lemma limit_set:
  "rl_do ro (Rl_CurrentLimit ma) s = (RADIOLIB_ERR_NONE, t) \<Longrightarrow> limit_in_force R ro ma (rl_calls t)"
  by (force simp: limit_in_force_def rl_do_def rl_log_def Let_def intro: exI [of _ "[]"])

lemma limit_keep:
  assumes "limit_in_force R ro ma (rl_calls s)" "adds fx (\<lambda>c. \<not> R c) s t"
  shows "limit_in_force R ro ma (rl_calls t)"
proof -
  obtain new old where o: "rl_calls s = new @ Rl_CurrentLimit ma # old" "\<forall>c\<in>set new. \<not> R c"
    "ro_status ro (Rl_CurrentLimit ma # old) = RADIOLIB_ERR_NONE" using assms(1) unfolding limit_in_force_def by blast
  obtain m where m: "rl_calls t = m @ rl_calls s" "\<forall>c\<in>set m. \<not> R c" using assms(2) unfolding adds_def by blast
  show ?thesis unfolding limit_in_force_def
    by (rule exI [of _ "m @ new"], rule exI [of _ old]) (use o m in auto)
qed

text \<open>On the SX1262 the power setting leaves the limit alone.\<close>

fun limit_call :: "rl_call \<Rightarrow> bool" where
  "limit_call (Rl_Begin_SX1262 _ _ _ _ _ _ _ _) = True"
| "limit_call (Rl_BeginFSK_SX1262 _ _ _) = True"
| "limit_call (Rl_CurrentLimit _) = True"
| "limit_call _ = False"

lemma limit_call_pa: "limit_call c \<Longrightarrow> pa_call c"
  by (cases c) simp_all

lemma then_ok:
  "rl_then r f = (RADIOLIB_ERR_NONE, t) \<Longrightarrow> \<exists>u. r = (RADIOLIB_ERR_NONE, u) \<and> f u = (RADIOLIB_ERR_NONE, t)"
  by (cases r) (auto simp: rl_then_def split: if_splits)

lemma power_limit:
  assumes "applyPowerAndOcp ro p s = (RADIOLIB_ERR_NONE, t)"
  shows "limit_in_force pa_call ro (to_u8 (sx_ocp_ma t)) (rl_calls t)"
proof -
  obtain u where "rl_do ro (Rl_CurrentLimit (to_u8 (sx_ocp_ma u))) u = (RADIOLIB_ERR_NONE, t)"
    using then_ok [OF assms [unfolded applyPowerAndOcp_def]] by blast
  moreover from this have "sx_ocp_ma t = sx_ocp_ma u" by (auto simp: rl_do_def rl_log_def Let_def)
  ultimately show ?thesis using limit_set by metis
qed

lemma sx127x_begin_limit:
  assumes "sx127x_begin ro (Some d) s = (RADIOLIB_ERR_NONE, t)"
  shows "limit_in_force pa_call ro (to_u8 (sx_ocp_ma t)) (rl_calls t)"
  using then_ok [OF assms [unfolded sx127x_begin_def option.case]] power_limit by blast

lemma sx127x_switch_limit:
  assumes "sx127x_switchMode ro m (Some d) s = (RADIOLIB_ERR_NONE, t)"
  shows "limit_in_force pa_call ro (to_u8 (sx_ocp_ma t)) (rl_calls t)"
proof (cases "m = RADIO_MODE_FSK")
  case True
  from assms [unfolded sx127x_switchMode_def option.case if_P [OF True]] show ?thesis
    by (auto dest!: then_ok power_limit)
qed (use assms sx127x_begin_limit in \<open>auto simp: sx127x_switchMode_def\<close>)

lemma ocp_limit:
  "sx1262_apply_ocp ro s = (RADIOLIB_ERR_NONE, t) \<Longrightarrow> limit_in_force limit_call ro (sm_fixed t) (rl_calls t)"
  using limit_set [of ro "sm_ocp_ma s" s t limit_call]
  by (auto simp: sx1262_apply_ocp_def rl_do_def rl_log_def Let_def sm_fixed_def)

lemma limit_keep_quiet:
  assumes "limit_in_force limit_call ro (sm_fixed s) (rl_calls s)" "adds sm_fixed (\<lambda>c. \<not> limit_call c) s t"
  shows "limit_in_force limit_call ro (sm_fixed t) (rl_calls t)"
proof -
  have "sm_fixed t = sm_fixed s" using assms(2) by (simp add: adds_def)
  with limit_keep [OF assms] show ?thesis by simp
qed

lemma then_limit:
  assumes "rl_then r f = (RADIOLIB_ERR_NONE, t)"
    and "\<And>u. r = (RADIOLIB_ERR_NONE, u) \<Longrightarrow> limit_in_force limit_call ro (sm_fixed u) (rl_calls u)"
    and "\<And>u. adds sm_fixed (\<lambda>c. \<not> limit_call c) u (snd (f u))"
  shows "limit_in_force limit_call ro (sm_fixed t) (rl_calls t)"
proof -
  obtain u where u: "r = (RADIOLIB_ERR_NONE, u)" "f u = (RADIOLIB_ERR_NONE, t)" using then_ok [OF assms(1)] by blast
  show ?thesis using limit_keep_quiet [OF assms(2) [OF u(1)] assms(3)] u by simp
qed

lemma sx1262_begin_limit:
  assumes "sx1262_begin ro (Some d) s = (RADIOLIB_ERR_NONE, t)"
  shows "limit_in_force limit_call ro (sm_fixed t) (rl_calls t)"
proof -
  have q: "\<And>c. \<not> pa_call c \<Longrightarrow> \<not> limit_call c" using limit_call_pa by blast
  note b = assms [unfolded sx1262_begin_def option.case]
  show ?thesis
    by (rule then_limit [OF b], erule then_limit, erule then_limit, erule then_limit)
      (auto simp: adds_refl dest!: then_ok ocp_limit intro!: rf_switch_adds [OF q] adds_do)
qed

lemma sx1262_switch_limit:
  assumes "sx1262_switchMode ro m (Some d) s = (RADIOLIB_ERR_NONE, t)"
  shows "limit_in_force limit_call ro (sm_fixed t) (rl_calls t)"
proof (cases "m = RADIO_MODE_FSK")
  case True
  have q: "\<And>c. \<not> pa_call c \<Longrightarrow> \<not> limit_call c" using limit_call_pa by blast
  from assms [unfolded sx1262_switchMode_def option.case if_P [OF True]] show ?thesis
    by (rule then_limit) (auto dest!: then_ok ocp_limit intro!: rf_switch_adds [OF q])
qed (use assms sx1262_begin_limit in \<open>auto simp: sx1262_switchMode_def\<close>)


section \<open>Sequences of driver operations\<close>

text \<open>The virtual functions of \<open>RadioDriver\<close>; \<open>Op_Phy\<close> is a generic operation.\<close>

datatype drv_op =
  Op_Begin rf_defaults | Op_Switch radio_mode rf_defaults | Op_Lora string string | Op_Fsk string string
| Op_Scan | Op_Live_Rssi radio_mode bool | Op_Probe | Op_Rx_Done | Op_Phy drv_call

fun sx127x_op :: "rl_oracle \<Rightarrow> int \<Rightarrow> drv_op \<Rightarrow> sx127x \<Rightarrow> (int \<times> sx127x) option" where
  "sx127x_op ro pm (Op_Begin d) s = Some (sx127x_begin ro (Some d) s)"
| "sx127x_op ro pm (Op_Switch m d) s = Some (sx127x_switchMode ro m (Some d) s)"
| "sx127x_op ro pm (Op_Lora key val) s = Some (sx127x_applyLoraParam ro pm key val s)"
| "sx127x_op ro pm (Op_Fsk key val) s = Some (sx127x_applyFskParam ro pm key val s)"
| "sx127x_op ro pm Op_Scan s = sx127x_scanChannel ro s"
| "sx127x_op ro pm (Op_Live_Rssi m hf) s = Some (0, snd (sx127x_readLiveRssi ro m hf s))"
| "sx127x_op ro pm Op_Probe s = Some (0, snd (sx127x_rssiProbe ro s))"
| "sx127x_op ro pm Op_Rx_Done s = Some (0, snd (sx127x_rxDonePending ro s))"
| "sx127x_op ro pm (Op_Phy c) s = Some (rl_do ro (Rl_Phy c) s)"

fun sx1262_op :: "rl_oracle \<Rightarrow> int \<Rightarrow> drv_op \<Rightarrow> sx1262 \<Rightarrow> (int \<times> sx1262) option" where
  "sx1262_op ro pm (Op_Begin d) s = Some (sx1262_begin ro (Some d) s)"
| "sx1262_op ro pm (Op_Switch m d) s = Some (sx1262_switchMode ro m (Some d) s)"
| "sx1262_op ro pm (Op_Lora key val) s = Some (sx1262_applyLoraParam ro pm key val s)"
| "sx1262_op ro pm (Op_Fsk key val) s = Some (sx1262_applyFskParam ro pm key val s)"
| "sx1262_op ro pm Op_Scan s = Some (rl_do ro (Rl_Phy Call_ScanChannel) s)"
| "sx1262_op ro pm (Op_Live_Rssi m hf) s = Some (0, snd (sx1262_readLiveRssi ro s))"
| "sx1262_op ro pm Op_Probe s = Some (0, snd (sx1262_rssiProbe ro s))"
| "sx1262_op ro pm Op_Rx_Done s = Some (0, snd (sx1262_rxDonePending ro s))"
| "sx1262_op ro pm (Op_Phy c) s = Some (rl_do ro (Rl_Phy c) s)"

text \<open>A run, with the operations and their statuses, newest first.\<close>

fun op_run :: "(drv_op \<Rightarrow> 's \<Rightarrow> (int \<times> 's) option) \<Rightarrow> drv_op list \<Rightarrow> (drv_op \<times> int) list \<times> 's \<Rightarrow>
    ((drv_op \<times> int) list \<times> 's) option" where
  "op_run f [] r = Some r"
| "op_run f (x # xs) (tr, s) = (case f x s of None \<Rightarrow> None | Some (st, t) \<Rightarrow> op_run f xs ((x, st) # tr, t))"

fun sets_limit :: "drv_op \<Rightarrow> bool" where
  "sets_limit (Op_Begin _) = True"
| "sets_limit (Op_Switch _ _) = True"
| "sets_limit _ = False"

fun sets_power :: "drv_op \<Rightarrow> bool" where
  "sets_power (Op_Lora key _) = (key = ''POWER'')"
| "sets_power (Op_Fsk key _) = (key = ''POWER'')"
| "sets_power _ = False"

text \<open>
  The power that a call commands, and the one that an operation asks for: the power of the defaults it is
  given, the constant of the SX1262's switch to FSK, or the parsed value of \<open>POWER\<close>.\<close>

fun commanded_power :: "rl_call \<Rightarrow> int option" where
  "commanded_power (Rl_OutputPower p) = Some p"
| "commanded_power (Rl_Begin_SX1262 _ _ _ _ _ p _ _) = Some p"
| "commanded_power (Rl_BeginFSK_SX1262 _ p _) = Some p"
| "commanded_power _ = None"

fun requests_power :: "chip_family \<Rightarrow> drv_op \<Rightarrow> int \<Rightarrow> bool" where
  "requests_power fam (Op_Begin d) p = (p = rf_power_dbm d)"
| "requests_power fam (Op_Switch m d) p =
     (p = (if fam = SX1262 \<and> m = RADIO_MODE_FSK then 10 else rf_power_dbm d))"
| "requests_power fam (Op_Lora key val) p = (key = ''POWER'' \<and> config_value_parse_int_exact val = Some p)"
| "requests_power fam (Op_Fsk key val) p = (key = ''POWER'' \<and> config_value_parse_int_exact val = Some p)"
| "requests_power fam _ p = False"

text \<open>The operation initialises the radio on the defaults of a band, as the daemon does.\<close>

fun band_op :: "drv_op \<Rightarrow> bool" where
  "band_op (Op_Begin d) = (d = rf_defaults_433 \<or> d = rf_defaults_868)"
| "band_op (Op_Switch _ d) = (d = rf_defaults_433 \<or> d = rf_defaults_868)"
| "band_op _ = True"

lemma band_power: "band_op (Op_Begin d) \<Longrightarrow> rf_power_dbm d = 10" "band_op (Op_Switch m d) \<Longrightarrow> rf_power_dbm d = 10"
  by (auto simp: rf_defaults_433_def rf_defaults_868_def)

text \<open>A call of the operation commands no power, or exactly the one asked for, which the policy allows.\<close>

definition power_granted :: "int \<Rightarrow> chip_family \<Rightarrow> bool \<Rightarrow> drv_op \<Rightarrow> rl_call \<Rightarrow> bool" where
  "power_granted pm fam hp x c \<longleftrightarrow>
     (\<forall>p. commanded_power c = Some p \<longrightarrow> requests_power fam x p \<and> config_policy_power_valid_family pm p fam hp)"

text \<open>The newest initialisation or mode switch, and every power setting after it, returned 0.\<close>

fun pa_good :: "(drv_op \<times> int) list \<Rightarrow> bool" where
  "pa_good [] = False"
| "pa_good ((x, st) # tr) = (if sets_limit x then st = RADIOLIB_ERR_NONE
     else (sets_power x \<longrightarrow> st = RADIOLIB_ERR_NONE) \<and> pa_good tr)"

locale limited_driver =
  fixes op :: "drv_op \<Rightarrow> 's \<Rightarrow> (int \<times> 's) option" and calls :: "'s \<Rightarrow> rl_call list"
    and fixd :: "'s \<Rightarrow> bool" and limited :: "'s \<Rightarrow> bool" and ok_op :: "drv_op \<Rightarrow> bool" and granted :: "drv_op \<Rightarrow> rl_call \<Rightarrow> bool"
  assumes fixd: "op x s = Some (st, t) \<Longrightarrow> fixd s \<Longrightarrow> fixd t"
    and sets: "op x s = Some (RADIOLIB_ERR_NONE, t) \<Longrightarrow> fixd s \<Longrightarrow> sets_limit x \<Longrightarrow> limited t"
    and keeps: "op x s = Some (st, t) \<Longrightarrow> fixd s \<Longrightarrow> limited s \<Longrightarrow> \<not> sets_limit x \<Longrightarrow>
      (sets_power x \<Longrightarrow> st = RADIOLIB_ERR_NONE) \<Longrightarrow> limited t"
    and powers: "op x s = Some (st, t) \<Longrightarrow> fixd s \<Longrightarrow> ok_op x \<Longrightarrow> c \<in> set (calls t) \<Longrightarrow>
      c \<in> set (calls s) \<or> granted x c"
begin

lemma run_limited:
  "op_run op xs (tr, s) = Some (tr', t) \<Longrightarrow> fixd s \<Longrightarrow> (pa_good tr \<Longrightarrow> limited s) \<Longrightarrow> pa_good tr' \<Longrightarrow> limited t"
proof (induction xs arbitrary: tr s)
  case (Cons x xs)
  obtain st u where u: "op x s = Some (st, u)" "op_run op xs ((x, st) # tr, u) = Some (tr', t)"
    using Cons.prems(1) by (auto split: option.splits)
  have "pa_good ((x, st) # tr) \<Longrightarrow> limited u"
    using sets [of x s u] keeps [OF u(1)] Cons.prems(2,3) u(1) by (auto split: if_splits)
  thus ?case using Cons.IH [OF u(2) fixd [OF u(1) Cons.prems(2)]] Cons.prems(4) by blast
qed simp

lemma run_powers:
  "op_run op xs (tr, s) = Some (tr', t) \<Longrightarrow> fixd s \<Longrightarrow> \<forall>x\<in>set xs. ok_op x \<Longrightarrow> c \<in> set (calls t) \<Longrightarrow>
     c \<in> set (calls s) \<or> (\<exists>x\<in>set xs. granted x c)"
proof (induction xs arbitrary: tr s)
  case (Cons x xs)
  obtain st u where u: "op x s = Some (st, u)" "op_run op xs ((x, st) # tr, u) = Some (tr', t)"
    using Cons.prems(1) by (auto split: option.splits)
  show ?case using Cons.IH [OF u(2) fixd [OF u(1) Cons.prems(2)]] powers [OF u(1)] Cons.prems by auto
qed simp

end


section \<open>Both drivers keep the laws\<close>

lemma to_s8_small: "-128 \<le> p \<Longrightarrow> p < 128 \<Longrightarrow> to_s8 p = p"
  by (simp add: to_s8_def sint_sbintrunc' signed_take_bit_int_eq_self)

lemma to_u8_small: "0 \<le> p \<Longrightarrow> p < 256 \<Longrightarrow> to_u8 p = p"
  by (simp add: to_u8_def uint_word_of_int)

lemma policy_power_small: "config_policy_power_valid_family pm p fam hp \<Longrightarrow> pm < 128 \<Longrightarrow> to_s8 p = p"
  by (auto simp: config_policy_power_valid_family_def to_s8_small split: if_splits)

lemma policy_power_10: "10 \<le> pm \<Longrightarrow> config_policy_power_valid_family pm 10 fam hp"
  by (simp add: config_policy_power_valid_family_def)

lemma sx127x_quiet_adds:
  assumes P: "\<And>c. \<not> pa_call c \<Longrightarrow> \<not> modem_call c \<Longrightarrow> P c" and fx: "\<And>c s. fx (rl_log c s) = fx s"
    and x: "sx127x_op ro pm x s = Some (st, t)" and q: "\<not> sets_limit x"
    and lora: "\<And>key val. x = Op_Lora key val \<Longrightarrow> adds fx P s (snd (sx127x_applyLoraParam ro pm key val s))"
    and pw: "\<And>p. sets_power x \<Longrightarrow> requests_power SX127X x p \<Longrightarrow>
      config_policy_power_valid_family pm p SX127X (sx_high_power s) \<Longrightarrow> adds fx P s (snd (applyPowerAndOcp ro p s))"
  shows "adds fx P s t"
proof (cases x)
  case (Op_Lora key val)
  with x lora [OF Op_Lora] show ?thesis by auto
next
  case (Op_Fsk key val)
  with x have "t = snd (sx127x_applyFskParam ro pm key val s)" by auto
  thus ?thesis using sx127x_fsk_adds [of P fx key val pm s ro] P fx pw Op_Fsk by simp
next
  case Op_Scan
  with x scan_adds [of P fx, OF P fx] show ?thesis by force
qed (use x q P in \<open>auto simp: rl_do_def rl_flags_def Let_def adds_refl sx127x_readLiveRssi_def sx127x_rssiProbe_def
  sx127x_rxDonePending_def fx intro!: adds_snoc split: if_splits\<close>)

lemma sx127x_quiet_fixed:
  assumes P: "\<And>c. \<not> pa_call c \<Longrightarrow> P c" and x: "sx127x_op ro pm x s = Some (st, t)" and q: "\<not> sets_limit x"
    and pw: "\<And>p. sets_power x \<Longrightarrow> requests_power SX127X x p \<Longrightarrow>
      config_policy_power_valid_family pm p SX127X (sx_high_power s) \<Longrightarrow> adds sx_fixed P s (snd (applyPowerAndOcp ro p s))"
  shows "adds sx_fixed P s t"
  by (rule sx127x_quiet_adds [OF _ _ x q]) (use P pw in \<open>auto intro!: sx127x_lora_adds\<close>)

lemma sx127x_op_adds:
  assumes x: "sx127x_op ro pm x s = Some (st, t)" and P: "\<And>c. \<not> pa_call c \<Longrightarrow> P c"
    and l: "P (Rl_CurrentLimit (to_u8 (sx_ocp_ma s)))" "P Rl_Begin" "\<And>f. P (Rl_BeginFSK f)"
    and v: "\<And>p. requests_power SX127X x p \<Longrightarrow> config_policy_power_valid_family pm p SX127X (sx_high_power s) \<Longrightarrow>
      P (Rl_OutputPower (to_s8 p))"
    and d: "\<And>d m. x = Op_Begin d \<or> x = Op_Switch m d \<Longrightarrow> P (Rl_OutputPower (to_s8 (rf_power_dbm d)))"
  shows "adds sx_fixed P s t"
proof (cases "sets_limit x")
  case True
  then consider (b) e where "x = Op_Begin e" | (m) m e where "x = Op_Switch m e" by (cases x) auto
  thus ?thesis
  proof cases
    case b
    with x sx127x_begin_adds [of P s "Some e" ro] P l d show ?thesis by auto
  next
    case m
    with x sx127x_switch_adds [of P s "Some e" ro m] P l d show ?thesis by auto
  qed
qed (use sx127x_quiet_fixed [of P, OF P x] power_adds l v in blast)

lemma sx127x_power_keeps:
  assumes x: "sx127x_op ro pm x s = Some (RADIOLIB_ERR_NONE, t)" "sets_power x"
    and s: "limit_in_force pa_call ro (to_u8 (sx_ocp_ma s)) (rl_calls s)"
  shows "limit_in_force pa_call ro (to_u8 (sx_ocp_ma t)) (rl_calls t)"
proof -
  obtain val where "apply_if (config_value_parse_int_exact val)
      (\<lambda>p. config_policy_power_valid_family pm p SX127X (sx_high_power s)) (applyPowerAndOcp ro) s = (RADIOLIB_ERR_NONE, t)"
    using x by (cases x) (auto simp: sx127x_applyLoraParam_def sx127x_applyFskParam_def)
  with s show ?thesis by (auto simp: apply_if_def split: option.splits if_splits dest!: power_limit)
qed

lemma sx127x_granted:
  assumes x: "sx127x_op ro pm x s = Some (st, t)" and pm: "10 \<le> pm" "pm < 128" and b: "band_op x"
  shows "adds sx_fixed (power_granted pm SX127X (sx_high_power s) x) s t"
proof (rule sx127x_op_adds [OF x])
  show "power_granted pm SX127X (sx_high_power s) x c" if "\<not> pa_call c" for c
    using that by (cases c) (simp_all add: power_granted_def)
  fix d m
  assume "x = Op_Begin d \<or> x = Op_Switch m d"
  with b band_power(1) [of d] band_power(2) [of m d] have "rf_power_dbm d = 10" "requests_power SX127X x 10" by auto
  thus "power_granted pm SX127X (sx_high_power s) x (Rl_OutputPower (to_s8 (rf_power_dbm d)))"
    using policy_power_10 [OF pm(1)] by (simp add: power_granted_def to_s8_small)
qed (auto simp: power_granted_def policy_power_small [OF _ pm(2)])

interpretation sx127x_limited: limited_driver "sx127x_op ro pm" rl_calls "\<lambda>s. sx_fixed s = (hp, ocp)"
  "\<lambda>s. limit_in_force pa_call ro (to_u8 ocp) (rl_calls s)" "\<lambda>x. 10 \<le> pm \<and> pm < 128 \<and> band_op x"
  "power_granted pm SX127X hp"
  for ro pm hp ocp
proof unfold_locales
  fix x s st t
  assume x: "sx127x_op ro pm x s = Some (st, t)" and f: "sx_fixed s = (hp, ocp)"
  show ft: "sx_fixed t = (hp, ocp)" using sx127x_op_adds [OF x, of "\<lambda>_. True"] f by (simp add: adds_def)
  show "limit_in_force pa_call ro (to_u8 ocp) (rl_calls t)"
    if l: "limit_in_force pa_call ro (to_u8 ocp) (rl_calls s)" "\<not> sets_limit x" "sets_power x \<Longrightarrow> st = RADIOLIB_ERR_NONE"
  proof (cases "sets_power x")
    case True
    with sx127x_power_keeps [of ro pm x s t] x l f ft show ?thesis by (simp add: sx_fixed_def)
  next
    case False
    with limit_keep [OF l(1)] sx127x_quiet_fixed [of "\<lambda>c. \<not> pa_call c", OF _ x l(2)] show ?thesis by blast
  qed
  show "c \<in> set (rl_calls s) \<or> power_granted pm SX127X hp x c"
    if d: "10 \<le> pm \<and> pm < 128 \<and> band_op x" and c: "c \<in> set (rl_calls t)" for c
    using sx127x_granted [OF x] d c f by (auto simp: adds_def sx_fixed_def)
next
  fix x s t
  assume x: "sx127x_op ro pm x s = Some (RADIOLIB_ERR_NONE, t)" "sx_fixed s = (hp, ocp)" "sets_limit x"
  have "sx_fixed t = (hp, ocp)" using sx127x_op_adds [OF x(1), of "\<lambda>_. True"] x(2) by (simp add: adds_def)
  thus "limit_in_force pa_call ro (to_u8 ocp) (rl_calls t)"
    using x(1,3) sx127x_begin_limit sx127x_switch_limit by (cases x) (auto simp: sx_fixed_def)
qed


lemma sx1262_quiet_adds:
  assumes P: "\<And>c. \<not> pa_call c \<Longrightarrow> P c" and x: "sx1262_op ro pm x s = Some (st, t)" and q: "\<not> sets_limit x"
    and pw: "\<And>p. requests_power SX1262 x p \<Longrightarrow> config_policy_power_valid_family pm p SX1262 False \<Longrightarrow>
      P (Rl_OutputPower (to_s8 p))"
  shows "adds sm_fixed P s t"
proof (cases x)
  case (Op_Lora key val)
  with x have "t = snd (sx1262_applyLoraParam ro pm key val s)" by auto
  thus ?thesis using sx1262_lora_adds [of P key val pm s ro] P pw Op_Lora by simp
next
  case (Op_Fsk key val)
  with x have "t = snd (sx1262_applyFskParam ro pm key val s)" by auto
  thus ?thesis using sx1262_fsk_adds [of P key val pm s ro] P pw Op_Fsk by simp
qed (use x q P in \<open>auto simp: rl_do_def rl_flags_def Let_def adds_refl sx1262_readLiveRssi_def sx1262_rssiProbe_def
  sx1262_rxDonePending_def intro!: adds_log split: if_splits\<close>)

lemma sx1262_op_adds:
  assumes x: "sx1262_op ro pm x s = Some (st, t)" and P: "\<And>c. \<not> pa_call c \<Longrightarrow> P c"
    and l: "P (Rl_CurrentLimit (sm_fixed s))"
      "\<And>d m a b c e f h i. x = Op_Begin d \<or> x = Op_Switch m d \<and> m \<noteq> RADIO_MODE_FSK \<Longrightarrow>
        P (Rl_Begin_SX1262 a b c e f (to_s8 (rf_power_dbm d)) h i)"
      "\<And>d a b. x = Op_Switch RADIO_MODE_FSK d \<Longrightarrow> P (Rl_BeginFSK_SX1262 a 10 b)"
    and v: "\<And>p. requests_power SX1262 x p \<Longrightarrow> config_policy_power_valid_family pm p SX1262 False \<Longrightarrow>
      P (Rl_OutputPower (to_s8 p))"
  shows "adds sm_fixed P s t"
proof (cases "sets_limit x")
  case True
  then consider (b) e where "x = Op_Begin e" | (m) m e where "x = Op_Switch m e" by (cases x) auto
  thus ?thesis
  proof cases
    case b
    with x sx1262_begin_adds [where P = P and s = s and d = "Some e" and ro = ro] P l show ?thesis by auto
  next
    case m
    with x sx1262_switch_adds [where P = P and s = s and d = "Some e" and ro = ro and m = m] P l show ?thesis by auto
  qed
qed (use sx1262_quiet_adds [of P, OF P x] v in blast)

lemma sx1262_granted:
  assumes x: "sx1262_op ro pm x s = Some (st, t)" and pm: "10 \<le> pm" "pm < 128" and b: "band_op x"
  shows "adds sm_fixed (power_granted pm SX1262 False x) s t"
proof (rule sx1262_op_adds [OF x])
  show "power_granted pm SX1262 False x c" if "\<not> pa_call c" for c
    using that by (cases c) (simp_all add: power_granted_def)
  show "power_granted pm SX1262 False x (Rl_Begin_SX1262 a e c g f (to_s8 (rf_power_dbm d)) h i)"
    if "x = Op_Begin d \<or> x = Op_Switch m d \<and> m \<noteq> RADIO_MODE_FSK" for d m a e c g f h i
  proof -
    have "rf_power_dbm d = 10" "requests_power SX1262 x 10" using that b band_power(1) [of d] band_power(2) [of m d] by auto
    thus ?thesis using policy_power_10 [OF pm(1)] by (simp add: power_granted_def to_s8_small)
  qed
qed (auto simp: power_granted_def policy_power_small [OF _ pm(2)] policy_power_10 [OF pm(1)])

interpretation sx1262_limited: limited_driver "sx1262_op ro pm" rl_calls "\<lambda>s. sm_fixed s = ocp"
  "\<lambda>s. limit_in_force limit_call ro ocp (rl_calls s)" "\<lambda>x. 10 \<le> pm \<and> pm < 128 \<and> band_op x"
  "power_granted pm SX1262 False"
  for ro pm ocp
proof unfold_locales
  fix x s st t
  assume x: "sx1262_op ro pm x s = Some (st, t)" and f: "sm_fixed s = ocp"
  show ft: "sm_fixed t = ocp" using sx1262_op_adds [OF x, of "\<lambda>_. True"] f by (simp add: adds_def)
  show "limit_in_force limit_call ro ocp (rl_calls t)"
    if l: "limit_in_force limit_call ro ocp (rl_calls s)" "\<not> sets_limit x"
    using limit_keep [OF l(1)] sx1262_quiet_adds [of "\<lambda>c. \<not> limit_call c", OF _ x l(2)] limit_call_pa by auto
  show "c \<in> set (rl_calls s) \<or> power_granted pm SX1262 False x c"
    if d: "10 \<le> pm \<and> pm < 128 \<and> band_op x" and c: "c \<in> set (rl_calls t)" for c
    using sx1262_granted [OF x] d c by (auto simp: adds_def)
next
  fix x s t
  assume x: "sx1262_op ro pm x s = Some (RADIOLIB_ERR_NONE, t)" "sm_fixed s = ocp" "sets_limit x"
  have "sm_fixed t = ocp" using sx1262_op_adds [OF x(1), of "\<lambda>_. True"] x(2) by (simp add: adds_def)
  thus "limit_in_force limit_call ro ocp (rl_calls t)"
    using x(1,3) sx1262_begin_limit sx1262_switch_limit by (cases x) auto
qed

section \<open>Power and current limit\<close>

text \<open>
  C14: In any sequence of driver operations (initialisations and mode switches on any defaults, parameters
  of any key and value, scans, reads) with a limit of at most 255 mA: when the newest initialisation or mode
  switch and every power setting after it returned 0, the newest call that decides the amplifier's current
  limit is a successful setting to the configured value, on both chips. When the initialisations and mode switches
  use a band's defaults and the process's ceiling is from 10 to 127 dBm (it is 20 or 22), every power
  commanded to a chip, the power arguments of the SX1262's \<open>begin\<close> and \<open>beginFSK\<close> included, is exactly one that an
  operation of the sequence asked for (the band's default, the 10 dBm of the SX1262's switch to FSK, the value of an
  accepted \<open>POWER\<close>), and the policy allows it to this chip and process. The power
  that RadioLib sets of its own inside the SX127x's \<open>begin\<close> is not the daemon's.
\<close>

theorem chip_power_limited:
  assumes "0 \<le> ocp" "ocp < 256" "10 \<le> pm" "pm < 128"
  shows "(op_run (sx127x_op ro pm) xs ([], sx127x_driver_create hf hp ocp) = Some (tr, s) \<longrightarrow>
      (pa_good tr \<longrightarrow> limit_in_force pa_call ro ocp (rl_calls s)) \<and>
      ((\<forall>x\<in>set xs. band_op x) \<longrightarrow> (\<forall>c\<in>set (rl_calls s). \<forall>p. commanded_power c = Some p \<longrightarrow>
         (\<exists>x\<in>set xs. requests_power SX127X x p) \<and> config_policy_power_valid_family pm p SX127X hp))) \<and>
    (op_run (sx1262_op ro pm) xs ([], sx1262_driver_create has_mod v pin ocp) = Some (tr, m) \<longrightarrow>
      (pa_good tr \<longrightarrow> limit_in_force limit_call ro ocp (rl_calls m)) \<and>
      ((\<forall>x\<in>set xs. band_op x) \<longrightarrow> (\<forall>c\<in>set (rl_calls m). \<forall>p. commanded_power c = Some p \<longrightarrow>
         (\<exists>x\<in>set xs. requests_power SX1262 x p) \<and> config_policy_power_valid_family pm p SX1262 False)))"
proof (intro conjI impI)
  let ?s = "sx127x_driver_create hf hp ocp" and ?m = "sx1262_driver_create has_mod v pin ocp"
  have f: "sx_fixed ?s = (hp, ocp)" "rl_calls ?s = []" by (simp_all add: sx_fixed_def sx127x_driver_create_def)
  have g: "sm_fixed ?m = ocp" "rl_calls ?m = []" by (simp_all add: sm_fixed_def sx1262_driver_create_def)
  {
    assume run: "op_run (sx127x_op ro pm) xs ([], ?s) = Some (tr, s)"
    show "limit_in_force pa_call ro ocp (rl_calls s)" if "pa_good tr"
      using sx127x_limited.run_limited [OF run f(1)] that assms by (simp add: to_u8_small)
    show "\<forall>c\<in>set (rl_calls s). \<forall>p. commanded_power c = Some p \<longrightarrow>
        (\<exists>x\<in>set xs. requests_power SX127X x p) \<and> config_policy_power_valid_family pm p SX127X hp"
      if "\<forall>x\<in>set xs. band_op x"
      using sx127x_limited.run_powers [OF run f(1)] that assms f(2) unfolding power_granted_def by fastforce
  next
    assume run: "op_run (sx1262_op ro pm) xs ([], ?m) = Some (tr, m)"
    show "limit_in_force limit_call ro ocp (rl_calls m)" if "pa_good tr"
      using sx1262_limited.run_limited [OF run g(1)] that by simp
    show "\<forall>c\<in>set (rl_calls m). \<forall>p. commanded_power c = Some p \<longrightarrow>
        (\<exists>x\<in>set xs. requests_power SX1262 x p) \<and> config_policy_power_valid_family pm p SX1262 False"
      if "\<forall>x\<in>set xs. band_op x"
      using sx1262_limited.run_powers [OF run g(1)] that assms g(2) unfolding power_granted_def by fastforce
  }
qed

definition sample_ops :: "drv_op list" where
  "sample_ops = [Op_Begin rf_defaults_433, Op_Lora ''POWER'' ''17'', Op_Scan]"

lemma power_sample_run:
  "\<exists>tr s. op_run (sx127x_op sample_oracle 20) sample_ops ([], sx127x_driver_create False False 100) = Some (tr, s) \<and>
     pa_good tr \<and> Rl_OutputPower 17 \<in> set (rl_calls s)"
  by (simp add: sample_ops_def sample_oracle_def sx127x_begin_def sx127x_scanChannel_def rl_do_def rl_log_def rl_now_def
      rl_flags_def rl_then_def boot_calls_def applyPowerAndOcp_def applyAutoLdro_def sx127x_driver_create_def
      rf_defaults_433_def sx127x_applyLoraParam_def apply_if_def c_consts cad_poll.simps power17_int
      to_s8_small
      config_policy_power_valid_family_def)


theorem chip_power_limited_witness:
  "\<exists>tr s. op_run (sx127x_op sample_oracle 20) sample_ops ([], sx127x_driver_create False False 100) = Some (tr, s) \<and>
     limit_in_force pa_call sample_oracle 100 (rl_calls s) \<and> Rl_OutputPower 17 \<in> set (rl_calls s) \<and>
     requests_power SX127X (sample_ops ! 1) 17 \<and>
     (\<forall>c\<in>set (rl_calls s). \<forall>p. commanded_power c = Some p \<longrightarrow> config_policy_power_valid_family 20 p SX127X False)"
proof -
  obtain tr s where r: "op_run (sx127x_op sample_oracle 20) sample_ops ([], sx127x_driver_create False False 100) = Some (tr, s)"
    "pa_good tr" "Rl_OutputPower 17 \<in> set (rl_calls s)" using power_sample_run by blast
  have b: "\<forall>x\<in>set sample_ops. band_op x" "requests_power SX127X (sample_ops ! 1) 17"
    by (simp_all add: sample_ops_def power17_int)
  have "limit_in_force pa_call sample_oracle 100 (rl_calls s) \<and>
     (\<forall>c\<in>set (rl_calls s). \<forall>p. commanded_power c = Some p \<longrightarrow> config_policy_power_valid_family 20 p SX127X False)"
    using chip_power_limited [of 100 20 sample_oracle sample_ops False False tr s] r b(1) by simp
  with r b(2) show ?thesis by blast
qed

end
