(* ===== verification/Chip_Cad.thy ===== *)
theory Chip_Cad
  imports Chip_Power
begin

text \<open>
  The channel scan of the SX127x driver: its deadline against the physical time of a scan, over the
  spreading factor and bandwidth the chip was last set to; that it returns, and what its verdict rests on.
\<close>

section \<open>The deadline\<close>

lemma f64_close:
  assumes "1 / 10 ^ 20 \<le> x" "x \<le> 10 ^ 19"
  shows "\<exists>y. f64_round x = Fin y \<and> 9999 / 10000 * x \<le> y \<and> y \<le> 10001 / 10000 * x"
proof -
  obtain y where y: "f64_round x = Fin y" "x * (1 - 1 / 2 ^ 53) \<le> y" "y \<le> x * (1 + 1 / 2 ^ 53)"
    using f64_round_near [OF assms] by blast
  have "0 \<le> x" using assms(1) by (rule order_trans [rotated]) simp
  hence "9999 / 10000 * x \<le> x * (1 - 1 / 2 ^ 53)" "x * (1 + 1 / 2 ^ 53) \<le> 10001 / 10000 * x" by simp_all
  with y show ?thesis by (intro exI [of _ y]) linarith
qed

text \<open>The physical time of a scan in microseconds: reception and one symbol of processing.\<close>

definition scan_time :: "int \<Rightarrow> rat \<Rightarrow> rat" where
  "scan_time sf b = ((2 ^ nat sf + 32) + 2 ^ nat sf) / (b * 1000) * 10 ^ 6"

text \<open>The three quotients of the deadline, given that the products and sums before them are close.\<close>

lemma quotient_close:
  fixes x y q :: rat
  assumes "0 < x" "9999 / 10000 * x \<le> y" "y \<le> 10001 / 10000 * x" "0 \<le> c"
  shows "9998 / 10000 * (c / x) \<le> c / y" "c / y \<le> 10002 / 10000 * (c / x)"
proof -
  have y: "0 < y" using assms by linarith
  have "y \<le> x * (10000 / 9998)" using assms by linarith
  hence "c / (x * (10000 / 9998)) \<le> c / y" using y assms(1,4) by (intro divide_left_mono) simp_all
  thus "9998 / 10000 * (c / x) \<le> c / y" by (simp add: field_simps)
  have "x * (10000 / 10002) \<le> y" using assms by linarith
  hence "c / y \<le> c / (x * (10000 / 10002))" using y assms(1,4) by (intro divide_left_mono) simp_all
  thus "c / y \<le> 10002 / 10000 * (c / x)" by (simp add: field_simps)
qed

lemma rounding_chain:
  fixes p q a c u v w z us :: rat
  assumes "0 \<le> p" "0 \<le> q" "9998 / 10000 * p \<le> a" "9998 / 10000 * q \<le> c" "a \<le> 10002 / 10000 * p" "c \<le> 10002 / 10000 * q"
    "9999 / 10000 * a \<le> u" "u \<le> 10001 / 10000 * a" "9999 / 10000 * c \<le> v" "v \<le> 10001 / 10000 * c"
    "9999 / 10000 * (u + v) \<le> w" "w \<le> 10001 / 10000 * (u + v)" "9999 / 10000 * (2 * w) \<le> z" "z \<le> 10001 / 10000 * (2 * w)"
    "9999 / 10000 * (z * 1000000) \<le> us" "us \<le> 10001 / 10000 * (z * 1000000)"
  shows "1998 / 1000 * ((p + q) * 1000000) \<le> us" "us \<le> 2002 / 1000 * ((p + q) * 1000000)"
proof -
  have "9997 / 10000 * (p + q) \<le> u + v" "u + v \<le> 10004 / 10000 * (p + q)" using assms(1-10) by simp_all
  hence "9995 / 10000 * (p + q) \<le> w" "w \<le> 10006 / 10000 * (p + q)" using assms(1,2,11,12) by simp_all
  hence "9993 / 5000 * (p + q) \<le> z" "z \<le> 10008 / 5000 * (p + q)" using assms(1,2,13,14) by simp_all
  thus "1998 / 1000 * ((p + q) * 1000000) \<le> us" "us \<le> 2002 / 1000 * ((p + q) * 1000000)" using assms(1,2,15,16) by simp_all
qed

lemma deadline_value:
  assumes sf: "7 \<le> sx_sf s" "sx_sf s \<le> 12" and b: "sx_bw_khz s = Fin b" "7 \<le> b" "b \<le> 501"
  shows "\<exists>us. cadDeadline s = rat_trunc (max 10000 us) \<and>
    1998 / 1000 * scan_time (sx_sf s) b \<le> us \<and> us \<le> 2002 / 1000 * scan_time (sx_sf s) b"
proof -
  define S where "S = (2 ^ nat (sx_sf s) :: rat)"
  have n: "(2::rat) ^ 7 \<le> S" "S \<le> 2 ^ 12" unfolding S_def by (rule power_increasing; use sf in simp)+
  hence S: "128 \<le> S" "S \<le> 4096" by simp_all
  have "(2::int) ^ nat (sx_sf s) \<le> 2 ^ 12" by (rule power_increasing; use sf in simp)
  hence one: "f64_round (S + 32) = Fin (S + 32)"
    using f64_round_int [of "2 ^ nat (sx_sf s) + 32"] by (simp add: S_def)
  obtain h where h: "f64_round (b * 1000) = Fin h" "9999 / 10000 * (b * 1000) \<le> h" "h \<le> 10001 / 10000 * (b * 1000)"
    using f64_close [of "b * 1000"] b by auto
  have hb: "6999 \<le> h" "h \<le> 501100" using h(2,3) b by linarith+
  have B: "0 < b * 1000" using b by simp
  note q = quotient_close [OF B h(2,3)]
  have range: "1 / 1000000 \<le> c / h \<and> c / h \<le> 1" if "128 \<le> c" "c \<le> 4128" for c
    using that hb by (auto simp: pos_le_divide_eq pos_divide_le_eq)
  have close: "\<exists>y. f64_round x = Fin y \<and> 9999 / 10000 * x \<le> y \<and> y \<le> 10001 / 10000 * x"
    if "1 / 10000000 \<le> x" "x \<le> 10" for x by (rule f64_close; use that in simp)
  have A: "1 / 1000000 \<le> (S + 32) / h" "(S + 32) / h \<le> 1" "1 / 1000000 \<le> S / h" "S / h \<le> 1"
    using range [of "S + 32"] range [of S] S by auto
  obtain u where u: "f64_round ((S + 32) / h) = Fin u" "9999 / 10000 * ((S + 32) / h) \<le> u" "u \<le> 10001 / 10000 * ((S + 32) / h)"
    using close [of "(S + 32) / h"] order_trans [OF _ A(1), of "1 / 10000000"] order_trans [OF A(2), of 10] by auto
  obtain v where v: "f64_round (S / h) = Fin v" "9999 / 10000 * (S / h) \<le> v" "v \<le> 10001 / 10000 * (S / h)"
    using close [of "S / h"] order_trans [OF _ A(3), of "1 / 10000000"] order_trans [OF A(4), of 10] by auto
  have uv: "1 / 1000000 \<le> u + v" "u + v \<le> 3" using u v A by linarith+
  obtain w where w: "f64_round (u + v) = Fin w" "9999 / 10000 * (u + v) \<le> w" "w \<le> 10001 / 10000 * (u + v)"
    using f64_close [of "u + v"] uv by auto
  have wb: "1 / 10000000 \<le> w" "w \<le> 4" using w(2,3) uv by (simp_all add: field_simps)
  obtain z where z: "f64_round (2 * w) = Fin z" "9999 / 10000 * (2 * w) \<le> z" "z \<le> 10001 / 10000 * (2 * w)"
    using f64_close [of "2 * w"] wb by auto
  have zb: "1 / 10000000 \<le> z" "z \<le> 10" using z wb by linarith+
  obtain us where us: "f64_round (z * 1000000) = Fin us" "9999 / 10000 * (z * 1000000) \<le> us" "us \<le> 10001 / 10000 * (z * 1000000)"
    using f64_close [of "z * 1000000"] zb by auto
  have t: "scan_time (sx_sf s) b = ((S + 32) / (b * 1000) + S / (b * 1000)) * 1000000"
    by (simp add: scan_time_def S_def add_divide_distrib)
  have "0 \<le> (S + 32) / (b * 1000)" "0 \<le> S / (b * 1000)" "0 \<le> S + 32" "0 \<le> S" using S b by simp_all
  note chain = rounding_chain [OF this(1,2) q(1) [OF this(3)] q(1) [OF this(4)] q(2) [OF this(3)] q(2) [OF this(4)]
    u(2,3) v(2,3) w(2,3) z(2,3) us(2,3), folded t]
  have "cadDeadline s = rat_trunc (max 10000 us)"
    using one h u v w z us hb
    by (simp add: cadDeadline_def Let_def b f64_of_f32_def c_mul_def c_div_def S_def [symmetric] max_def not_le not_less)
  with chain show ?thesis by blast
qed


lemma lora_bandwidth_rat:
  assumes "config_policy_lora_bandwidth_valid bw"
  shows "\<exists>b. bw = Fin b \<and> 7799 / 1000 \<le> b \<and> b \<le> 501"
proof -
  obtain b r where b: "r \<in> set lora_bandwidths" "bw = Fin b" "\<bar>b - r\<bar> \<le> 1 / 1000"
    using float_equal_positive [OF assms [unfolded config_policy_lora_bandwidth_valid_def]]
    by (auto simp: lora_bandwidths_def)
  have "78 / 10 \<le> r \<and> r \<le> 500" using b(1) by (auto simp: lora_bandwidths_def)
  with b(3) have "7799 / 1000 \<le> b \<and> b \<le> 501" by linarith
  with b(2) show ?thesis by blast
qed

definition deadline_covers :: "sx127x \<Rightarrow> bool" where
  "deadline_covers s \<longleftrightarrow>
     (\<exists>b. sx_bw_khz s = Fin b \<and> 10000 \<le> cadDeadline s \<and> cadDeadline s \<le> 2200000 \<and>
       199 / 100 * scan_time (sx_sf s) b \<le> of_int (cadDeadline s))"

lemma deadline_bounds:
  assumes sf: "config_policy_lora_sf_valid (sx_sf s)" and bw: "config_policy_lora_bandwidth_valid (sx_bw_khz s)"
  shows "deadline_covers s"
proof -
  obtain b where b: "sx_bw_khz s = Fin b" "7799 / 1000 \<le> b" "b \<le> 501" using lora_bandwidth_rat [OF bw] by blast
  have f: "7 \<le> sx_sf s" "sx_sf s \<le> 12" using sf by (simp_all add: config_policy_lora_sf_valid_def)
  have "7 \<le> b" using b by linarith
  then obtain us where us: "cadDeadline s = rat_trunc (max 10000 us)" "1998 / 1000 * scan_time (sx_sf s) b \<le> us"
    "us \<le> 2002 / 1000 * scan_time (sx_sf s) b" using deadline_value [OF f b(1) _ b(3)] by blast
  have S: "(2::rat) ^ nat (sx_sf s) \<le> 2 ^ 12" by (rule power_increasing) (use f in simp_all)
  have "(2 ^ nat (sx_sf s) + 32 + 2 ^ nat (sx_sf s)) / (b * 1000) \<le> (8224 :: rat) / 7799"
    using S b by (intro frac_le) simp_all
  hence "scan_time (sx_sf s) b \<le> 8224 / 7799 * 10 ^ 6" unfolding scan_time_def by (intro mult_right_mono) simp_all
  hence hi: "max 10000 us \<le> 2200000" using us(3) by simp
  have tr: "rat_trunc (max 10000 us) = \<lfloor>max 10000 us\<rfloor>" by (simp add: rat_trunc_def)
  have lo: "(10000 :: int) \<le> \<lfloor>max 10000 us\<rfloor>" "\<lfloor>max 10000 us\<rfloor> \<le> (2200000 :: int)" using hi by (simp_all add: le_floor_iff floor_le_iff)
  have fl: "max 10000 us < of_int \<lfloor>max 10000 us\<rfloor> + 1" by linarith
  have "199 / 100 * scan_time (sx_sf s) b \<le> of_int \<lfloor>max 10000 us\<rfloor>"
  proof -
    have "199 / 100 * scan_time (sx_sf s) b \<le> (1990 / 1998) * max 10000 us" using us(2) by linarith
    also have "\<dots> \<le> max 10000 us - 1" by (simp add: max_def)
    finally show ?thesis using fl by linarith
  qed
  thus ?thesis using b(1) us(1) tr lo by (auto simp: deadline_covers_def)
qed

section \<open>The modem the chip is on\<close>

text \<open>The argument of the newest successful call that \<open>sel\<close> selects.\<close>

fun newest_ok :: "rl_oracle \<Rightarrow> (rl_call \<Rightarrow> 'v option) \<Rightarrow> rl_call list \<Rightarrow> 'v option" where
  "newest_ok ro sel [] = None"
| "newest_ok ro sel (c # cs) =
     (if sel c \<noteq> None \<and> ro_status ro (c # cs) = RADIOLIB_ERR_NONE then sel c else newest_ok ro sel cs)"

fun sf_call :: "rl_call \<Rightarrow> int option" where
  "sf_call (Rl_SpreadingFactor n) = Some n"
| "sf_call _ = None"

fun bw_call :: "rl_call \<Rightarrow> c_float option" where
  "bw_call (Rl_Bandwidth b) = Some b"
| "bw_call _ = None"

lemma modem_call_iff: "modem_call c \<longleftrightarrow> sf_call c \<noteq> None \<or> bw_call c \<noteq> None"
  by (cases c) simp_all

text \<open>The cache is the chip's setting where there was one, and a value the validation accepts.\<close>

definition cache_true :: "rl_oracle \<Rightarrow> sx127x \<Rightarrow> bool" where
  "cache_true ro s \<longleftrightarrow> newest_ok ro sf_call (rl_calls s) \<in> {None, Some (sx_sf s)} \<and>
     newest_ok ro bw_call (rl_calls s) \<in> {None, Some (sx_bw_khz s)} \<and>
     config_policy_lora_sf_valid (sx_sf s) \<and> config_policy_lora_bandwidth_valid (sx_bw_khz s)"

definition sx_cache :: "sx127x \<Rightarrow> int \<times> c_float" where
  "sx_cache s = (sx_sf s, sx_bw_khz s)"

lemma sx_cache_simps [simp]: "sx_cache (rl_log c s) = sx_cache s" "sx_cache (s\<lparr>sx_mode := m\<rparr>) = sx_cache s"
  by (simp_all add: sx_cache_def rl_log_def)

lemma newest_ok_skip:
  "\<forall>c\<in>set new. sel c = None \<Longrightarrow> newest_ok ro sel (new @ cs) = newest_ok ro sel cs"
  by (induction new) simp_all

lemma cache_keep:
  assumes "cache_true ro s" "adds sx_cache (\<lambda>c. \<not> modem_call c) s t"
  shows "cache_true ro t"
proof -
  obtain new where "rl_calls t = new @ rl_calls s" "\<forall>c\<in>set new. sf_call c = None \<and> bw_call c = None"
    using assms(2) by (auto simp: adds_def modem_call_iff)
  thus ?thesis using assms by (auto simp: cache_true_def newest_ok_skip adds_def sx_cache_def)
qed


lemma boot_modem:
  assumes "boot_steps ro (boot_calls d) (RADIOLIB_ERR_NONE, u) = (RADIOLIB_ERR_NONE, v)"
  shows "newest_ok ro sf_call (rl_calls v) = Some (rf_spreading_factor d) \<and>
    newest_ok ro bw_call (rl_calls v) = Some (rf_bandwidth_khz d)"
  using assms by (auto simp: boot_calls_def rl_do_def rl_log_def Let_def split: if_splits)

lemma not_modem: "\<not> modem_call c" if "pa_call c \<or> c \<in> {Rl_AutoLDRO, Rl_GetIRQFlags} \<or> (\<exists>b. c = Rl_ForceLDRO b)"
  using that by (cases c) auto

lemma power_cache: "adds sx_cache (\<lambda>c. \<not> modem_call c) s (snd (applyPowerAndOcp ro p s))"
  unfolding applyPowerAndOcp_def by (intro adds_then adds_do) (simp_all add: not_modem)

lemma ldro_cache: "adds sx_cache (\<lambda>c. \<not> modem_call c) s (snd (applyAutoLdro ro s))"
  unfolding applyAutoLdro_def by (intro adds_then adds_do) (simp_all add: not_modem)

lemma begin_cache:
  assumes "sx127x_begin ro (Some d) s = (RADIOLIB_ERR_NONE, t)"
    and "config_policy_lora_sf_valid (rf_spreading_factor d)" "config_policy_lora_bandwidth_valid (rf_bandwidth_khz d)"
  shows "cache_true ro t"
proof -
  let ?c = "\<lambda>s. s\<lparr>sx_sf := rf_spreading_factor d, sx_bw_khz := rf_bandwidth_khz d, sx_mode := RADIO_MODE_LORA\<rparr>"
  obtain u v w where c: "boot_steps ro (boot_calls d) (RADIOLIB_ERR_NONE, u) = (RADIOLIB_ERR_NONE, v)"
    "(if 0 \<le> rf_ldro d then rl_do ro (Rl_ForceLDRO (rf_ldro d \<noteq> 0)) (?c v) else applyAutoLdro ro (?c v)) = (RADIOLIB_ERR_NONE, w)"
    "applyPowerAndOcp ro (rf_power_dbm d) w = (RADIOLIB_ERR_NONE, t)"
    using assms(1) by (auto simp: sx127x_begin_def Let_def dest!: then_ok)
  have "cache_true ro (?c v)" using boot_modem [OF c(1)] assms(2,3) by (simp add: cache_true_def)
  moreover have "adds sx_cache (\<lambda>c. \<not> modem_call c) (?c v) w"
    using c(2) ldro_cache [of "?c v" ro] by (auto simp: rl_do_def Let_def not_modem intro!: adds_log split: if_splits)
  moreover have "adds sx_cache (\<lambda>c. \<not> modem_call c) w t" using power_cache [of w ro "rf_power_dbm d"] c(3) by simp
  ultimately show ?thesis using cache_keep by blast
qed

lemma switch_cache:
  assumes "sx127x_switchMode ro m (Some d) s = (RADIOLIB_ERR_NONE, t)" "cache_true ro s"
    and "config_policy_lora_sf_valid (rf_spreading_factor d)" "config_policy_lora_bandwidth_valid (rf_bandwidth_khz d)"
  shows "cache_true ro t"
proof (cases "m = RADIO_MODE_FSK")
  case True
  then obtain u where u: "rl_do ro (Rl_BeginFSK (rf_freq_mhz d)) s = (RADIOLIB_ERR_NONE, u)"
    "applyPowerAndOcp ro (rf_power_dbm d) (u\<lparr>sx_mode := RADIO_MODE_FSK\<rparr>) = (RADIOLIB_ERR_NONE, t)"
    using assms(1) by (auto simp: sx127x_switchMode_def dest!: then_ok)
  let ?u = "u\<lparr>sx_mode := RADIO_MODE_FSK\<rparr>"
  have "adds sx_cache (\<lambda>c. \<not> modem_call c) s u" using u(1)
    by (auto simp: rl_do_def Let_def not_modem intro!: adds_log)
  hence "adds sx_cache (\<lambda>c. \<not> modem_call c) s ?u" by (rule adds_trans) (simp add: adds_set)
  with power_cache [of ?u ro "rf_power_dbm d"] u(2) adds_trans cache_keep [OF assms(2)] show ?thesis by force
qed (use assms begin_cache in \<open>auto simp: sx127x_switchMode_def\<close>)

text \<open>A parameter changes the cache exactly when the chip accepted it.\<close>

lemma lora_cache:
  assumes "cache_true ro s"
  shows "cache_true ro (snd (sx127x_applyLoraParam ro pm key val s))"
proof (cases "key = ''SF'' \<or> key = ''BW''")
  case True
  with assms show ?thesis
    by (auto simp: sx127x_applyLoraParam_def apply_if_def rl_then_def rl_do_def rl_log_def Let_def cache_true_def
        split: option.splits)
next
  case False
  have "adds sx_cache (\<lambda>c. \<not> modem_call c) s (snd (sx127x_applyLoraParam ro pm key val s))"
    using False by (simp add: sx127x_applyLoraParam_def adds_if adds_do adds_refl power_cache ldro_cache)
  with cache_keep [OF assms] show ?thesis .
qed


lemma op_run_invariant:
  assumes "\<And>x s st t. x \<in> set xs \<Longrightarrow> f x s = Some (st, t) \<Longrightarrow> ok x st \<Longrightarrow> I s \<Longrightarrow> I t"
  shows "op_run f xs (tr, s) = Some (tr', t) \<Longrightarrow> \<forall>(x, st)\<in>set tr'. ok x st \<Longrightarrow> I s \<Longrightarrow> I t"
  using assms
proof (induction xs arbitrary: tr s)
  case (Cons x xs)
  obtain st u where u: "f x s = Some (st, u)" "op_run f xs ((x, st) # tr, u) = Some (tr', t)"
    using Cons.prems(1) by (auto split: option.splits)
  have "set tr0 \<subseteq> set tr1" if "op_run f ys (tr0, v) = Some (tr1, w)" for ys tr0 v tr1 w
    using that by (induction ys arbitrary: tr0 v) (auto split: option.splits, force)
  from this [OF u(2)] Cons.prems(2) have "ok x st" by auto
  with Cons.prems(4) [OF _ u(1)] Cons.prems(3) have "I u" by simp
  from Cons.IH [OF u(2) Cons.prems(2) this] show ?case using Cons.prems(4) by (meson list.set_intros(2))
qed simp

fun op_modem_ok :: "drv_op \<Rightarrow> bool" where
  "op_modem_ok (Op_Begin d) =
     (config_policy_lora_sf_valid (rf_spreading_factor d) \<and> config_policy_lora_bandwidth_valid (rf_bandwidth_khz d))"
| "op_modem_ok (Op_Switch m d) =
     (config_policy_lora_sf_valid (rf_spreading_factor d) \<and> config_policy_lora_bandwidth_valid (rf_bandwidth_khz d))"
| "op_modem_ok _ = True"

lemma op_cache:
  assumes x: "sx127x_op ro pm x s = Some (st, t)" and "op_modem_ok x" "sets_limit x \<longrightarrow> st = RADIOLIB_ERR_NONE" "cache_true ro s"
  shows "cache_true ro t"
proof -
  consider (b) d where "x = Op_Begin d" | (m) m d where "x = Op_Switch m d" | (l) key val where "x = Op_Lora key val"
    | (q) "\<not> sets_limit x" "\<nexists>key val. x = Op_Lora key val" by (cases x) auto
  thus ?thesis
  proof cases
    case b
    with assms begin_cache show ?thesis by auto
  next
    case m
    with assms switch_cache [of ro] show ?thesis by auto
  next
    case l
    with lora_cache [OF assms(4), of pm key val] x show ?thesis by auto
  next
    case q
    have "adds sx_cache (\<lambda>c. \<not> modem_call c) s t"
      by (rule sx127x_quiet_adds [OF _ _ x q(1)]) (use q(2) power_cache in auto)
    with cache_keep [OF assms(4)] show ?thesis .
  qed
qed


lemma float_equal_self:
  assumes "1 \<le> r" "r \<le> 1000"
  shows "config_value_float_equal (f32_round r) (f32_round r)"
proof -
  have "\<exists>e. f32_round x = Fin e" if "1 / 10000 \<le> x" "x \<le> 1000" for x
    using f_round_finite [of 24 "-149" x 128] that pow2_numerals(3) by (simp add: f32_round_def pow2_def)
  from this [of r] this [of "1 / 10000"] assms obtain e t where e: "f32_round r = Fin e" "f32_round (1 / 10000) = Fin t"
    by auto
  have "\<bar>t - 1 / 10000\<bar> \<le> 1 / 10000 / 2 ^ 24" using f32_round_near [OF e(2)] by simp
  hence "0 < t" by (simp add: abs_if split: if_splits)
  thus ?thesis by (simp add: config_value_float_equal_def e c_sub_def) (simp add: f32_round_def)
qed

lemma create_cache: "cache_true ro (sx127x_driver_create hf hp ocp)"
  using float_equal_self [of "78 / 10"]
  by (simp add: cache_true_def sx127x_driver_create_def config_policy_lora_sf_valid_def
      config_policy_lora_bandwidth_valid_def lora_bandwidths_def f32_lits_def)

text \<open>
  C20: In any sequence of driver operations whose initialisations and mode switches all succeeded and had a valid
  spreading factor and bandwidth (a failed one can leave another setting in the chip than in the cache), with any
  parameters accepted, refused by the driver or refused by the chip, the driver's cache is the spreading factor and
  bandwidth the chip last accepted, and the deadline of a scan is at least 10 ms, at least 1.99 times the
  physical time of a scan at that setting and at most 2.2 s.
\<close>

theorem scan_deadline_tracks_modem:
  assumes run: "op_run (sx127x_op ro pm) xs ([], sx127x_driver_create hf hp ocp) = Some (tr, s)"
    and "\<forall>x\<in>set xs. op_modem_ok x" "\<forall>(x, st)\<in>set tr. sets_limit x \<longrightarrow> st = RADIOLIB_ERR_NONE"
  shows "newest_ok ro sf_call (rl_calls s) \<in> {None, Some (sx_sf s)} \<and>
    newest_ok ro bw_call (rl_calls s) \<in> {None, Some (sx_bw_khz s)} \<and> deadline_covers s"
proof -
  have "cache_true ro s"
    using op_run_invariant [where f = "sx127x_op ro pm" and I = "cache_true ro" and xs = xs
        and ok = "\<lambda>x st. sets_limit x \<longrightarrow> st = RADIOLIB_ERR_NONE", OF _ run assms(3) create_cache] assms(2) op_cache by blast
  with deadline_bounds show ?thesis by (auto simp: cache_true_def)
qed

section \<open>The scan decides\<close>

text \<open>How a scan ends: on flags that say done, cleared, or after the deadline, in standby.\<close>

definition scan_end :: "rl_oracle \<Rightarrow> int \<Rightarrow> rl_call list \<Rightarrow> int \<Rightarrow> bool" where
  "scan_end ro deadline calls st \<longleftrightarrow>
     (\<exists>h. let flags = ro_flags ro (Rl_GetIRQFlags # h) in
        calls = Rl_ClearIrqFlags cad_flags # Rl_GetIRQFlags # h \<and>
        flags AND RADIOLIB_SX127X_CLEAR_IRQ_FLAG_CAD_DONE \<noteq> 0 \<and>
        st = (if flags AND RADIOLIB_SX127X_CLEAR_IRQ_FLAG_CAD_DETECTED \<noteq> 0 then RADIOLIB_PREAMBLE_DETECTED
              else RADIOLIB_CHANNEL_FREE)) \<or>
     (\<exists>h. calls = Rl_Standby # Rl_Now # Rl_GetIRQFlags # h \<and>
        ro_flags ro (Rl_GetIRQFlags # h) AND RADIOLIB_SX127X_CLEAR_IRQ_FLAG_CAD_DONE = 0 \<and>
        deadline \<le> ro_now ro (Rl_Now # Rl_GetIRQFlags # h) \<and> st = RADIOLIB_ERR_RX_TIMEOUT)"

fun polls :: "rl_call list \<Rightarrow> nat" where
  "polls [] = 0"
| "polls (c # cs) = (if c = Rl_GetIRQFlags then 1 else 0) + polls cs"

text \<open>The clock passes at least a millisecond in a sleep and does not go back.\<close>

definition clock_ok :: "rl_oracle \<Rightarrow> bool" where
  "clock_ok ro \<longleftrightarrow>
     (\<forall>h. ro_now ro (Rl_Now # h) + 1000 \<le> ro_now ro (Rl_Now # Rl_GetIRQFlags # Rl_Sleep # Rl_Now # h) \<and>
       ro_now ro (Rl_Now # h) \<le> ro_now ro (Rl_Now # Rl_GetIRQFlags # Rl_Now # h))"

lemma cad_poll_ends:
  assumes "clock_ok ro"
  shows "deadline - ro_now ro (Rl_Now # Rl_GetIRQFlags # rl_calls s) \<le> 1000 * int n \<Longrightarrow>
    \<exists>st t. cad_poll ro deadline s = Some (st, t) \<and> scan_end ro deadline (rl_calls t) st \<and>
      polls (rl_calls t) \<le> polls (rl_calls s) + n + 1"
proof (induction n arbitrary: s)
  case (Suc n)
  let ?h = "rl_calls s"
  let ?t = "rl_log Rl_Sleep (rl_log Rl_Now (rl_log Rl_GetIRQFlags s))"
  have c: "rl_calls ?t = Rl_Sleep # Rl_Now # Rl_GetIRQFlags # ?h" by (simp add: rl_log_def)
  have "ro_now ro (Rl_Now # Rl_GetIRQFlags # ?h) + 1000 \<le> ro_now ro (Rl_Now # Rl_GetIRQFlags # rl_calls ?t)"
    using assms unfolding clock_ok_def c by blast
  with Suc.IH [of ?t] Suc.prems c obtain st t where r: "cad_poll ro deadline ?t = Some (st, t)"
    "scan_end ro deadline (rl_calls t) st" "polls (rl_calls t) \<le> polls ?h + 1 + n + 1" by auto
  show ?case
  proof (cases "ro_flags ro (Rl_GetIRQFlags # ?h) AND RADIOLIB_SX127X_CLEAR_IRQ_FLAG_CAD_DONE \<noteq> 0 \<or>
      deadline \<le> ro_now ro (Rl_Now # Rl_GetIRQFlags # ?h)")
    case True
    thus ?thesis by (subst cad_poll.simps)
      (auto simp: rl_flags_def rl_now_def rl_log_def Let_def scan_end_def cad_verdict_def)
  next
    case False
    hence "cad_poll ro deadline s = cad_poll ro deadline ?t"
      by (subst cad_poll.simps) (simp add: rl_flags_def rl_now_def rl_log_def Let_def)
    with r show ?thesis by auto
  qed
next
  case 0
  thus ?case by (subst cad_poll.simps)
    (auto simp: rl_flags_def rl_now_def rl_log_def Let_def scan_end_def cad_verdict_def)
qed

text \<open>
  C15: With a clock that passes at least a millisecond in each sleep, a scan always returns, after at most one flag
  read per millisecond of its deadline and two more. Its verdict is the chip's refusal to start, or rests on the
  last flags read: free or detected only with CadDone set, free only with CadDetected clear, and the flags
  are cleared; a timeout only when the flags read just before the deadline test lacked CadDone and the deadline had passed, and
  the chip is put in standby.
\<close>

theorem scan_decides:
  assumes "clock_ok ro"
  shows "\<exists>st t. sx127x_scanChannel ro s = Some (st, t) \<and>
    (if ro_status ro (Rl_StartChannelScan # rl_calls s) \<noteq> RADIOLIB_ERR_NONE
     then st = ro_status ro (Rl_StartChannelScan # rl_calls s) \<and> rl_calls t = Rl_StartChannelScan # rl_calls s
     else scan_end ro (ro_now ro (Rl_Now # Rl_StartChannelScan # rl_calls s) + cadDeadline s) (rl_calls t) st \<and>
       polls (rl_calls t) \<le> polls (rl_calls s) + nat (cadDeadline s) div 1000 + 2)"
proof (cases "ro_status ro (Rl_StartChannelScan # rl_calls s) = RADIOLIB_ERR_NONE")
  case True
  let ?t = "rl_log Rl_Now (rl_log Rl_StartChannelScan s)"
  let ?now = "ro_now ro (Rl_Now # Rl_StartChannelScan # rl_calls s)"
  have c: "rl_calls ?t = Rl_Now # Rl_StartChannelScan # rl_calls s" by (simp add: rl_log_def)
  have d: "cadDeadline ?t = cadDeadline s" by (simp add: cadDeadline_def rl_log_def)
  have "?now \<le> ro_now ro (Rl_Now # Rl_GetIRQFlags # rl_calls ?t)" using assms unfolding clock_ok_def c by blast
  moreover have "cadDeadline s \<le> 1000 * int (nat (cadDeadline s) div 1000 + 1)"
  proof -
    have "nat (cadDeadline s) \<le> 1000 * (nat (cadDeadline s) div 1000 + 1)"
      using dividend_less_div_times [of 1000 "nat (cadDeadline s)"] by simp
    hence "int (nat (cadDeadline s)) \<le> int (1000 * (nat (cadDeadline s) div 1000 + 1))" by (simp only: of_nat_le_iff)
    moreover have "cadDeadline s \<le> int (nat (cadDeadline s))" by simp
    ultimately show ?thesis unfolding of_nat_mult by simp
  qed
  ultimately have "(?now + cadDeadline s) - ro_now ro (Rl_Now # Rl_GetIRQFlags # rl_calls ?t) \<le>
      1000 * int (nat (cadDeadline s) div 1000 + 1)" by linarith
  from cad_poll_ends [OF assms this] True show ?thesis
    by (auto simp: sx127x_scanChannel_def rl_do_def rl_now_def Let_def c d) (simp_all add: rl_log_def)
qed (simp add: sx127x_scanChannel_def rl_do_def rl_log_def Let_def)


section \<open>Witnesses\<close>

lemma bandwidth_125: "config_policy_lora_bandwidth_valid (Fin 125)"
proof -
  have "f32_round 125 = Fin 125" by code_simp
  with float_equal_self [of 125] show ?thesis
    by (simp add: config_policy_lora_bandwidth_valid_def lora_bandwidths_def f32_lits_def)
qed

lemma sample_modem_ok: "\<forall>x\<in>set sample_ops. op_modem_ok x"
  using bandwidth_125 by (simp add: sample_ops_def rf_defaults_433_def config_policy_lora_sf_valid_def)

lemma sample_statuses:
  "\<exists>tr s. op_run (sx127x_op sample_oracle 20) sample_ops ([], sx127x_driver_create False False 100) = Some (tr, s) \<and>
     (\<forall>(x, st)\<in>set tr. sets_limit x \<longrightarrow> st = RADIOLIB_ERR_NONE) \<and> newest_ok sample_oracle sf_call (rl_calls s) = Some 12"
  by (simp add: sample_ops_def sample_oracle_def sx127x_begin_def sx127x_scanChannel_def rl_do_def rl_log_def rl_now_def
      rl_flags_def rl_then_def boot_calls_def applyPowerAndOcp_def applyAutoLdro_def sx127x_driver_create_def
      rf_defaults_433_def sx127x_applyLoraParam_def apply_if_def c_consts cad_poll.simps power17_int
      to_s8_small config_policy_power_valid_family_def)

theorem scan_deadline_tracks_modem_witness:
  "\<exists>tr s. op_run (sx127x_op sample_oracle 20) sample_ops ([], sx127x_driver_create False False 100) = Some (tr, s) \<and>
     sx_sf s = 12 \<and> deadline_covers s"
proof -
  obtain tr s where r: "op_run (sx127x_op sample_oracle 20) sample_ops ([], sx127x_driver_create False False 100) = Some (tr, s)"
    "\<forall>(x, st)\<in>set tr. sets_limit x \<longrightarrow> st = RADIOLIB_ERR_NONE" "newest_ok sample_oracle sf_call (rl_calls s) = Some 12"
    using sample_statuses by blast
  from scan_deadline_tracks_modem [OF r(1) sample_modem_ok r(2)] r show ?thesis by auto
qed

text \<open>A clock of one millisecond a sleep and a chip that never finishes: the scan times out.\<close>

fun sleeps :: "rl_call list \<Rightarrow> int" where
  "sleeps [] = 0"
| "sleeps (c # cs) = (if c = Rl_Sleep then 1000 else 0) + sleeps cs"

definition stuck_oracle :: rl_oracle where
  "stuck_oracle = sample_oracle\<lparr>ro_flags := (\<lambda>_. 0), ro_now := sleeps\<rparr>"

theorem scan_decides_witness:
  "clock_ok stuck_oracle \<and>
   (\<exists>t. sx127x_scanChannel stuck_oracle (sx127x_driver_create False False 100) = Some (RADIOLIB_ERR_RX_TIMEOUT, t) \<and>
     hd (rl_calls t) = Rl_Standby)"
proof -
  have c: "clock_ok stuck_oracle" by (simp add: clock_ok_def stuck_oracle_def)
  have f: "ro_flags stuck_oracle h = 0" "ro_status stuck_oracle h = RADIOLIB_ERR_NONE" for h
    by (simp_all add: stuck_oracle_def sample_oracle_def RADIOLIB_ERR_NONE_def)
  from c scan_decides [OF c, of "sx127x_driver_create False False 100"] show ?thesis
    by (auto simp: f scan_end_def Let_def)
qed

end
