(* ===== verification/Boot_Options.thy ===== *)
theory Boot_Options
  imports Config_Apply
begin

text \<open>
  The start of the process up to its hardware: the boot slots behind the command line
  (\<open>daemon_*_boot.cpp\<close>, \<open>daemon_radio_selection.cpp\<close>, the switches of \<open>daemon_rflog.cpp\<close>), the hardware profiles
  (\<open>hardware_profile.cpp\<close>) and \<open>daemon_parse_args\<close> of \<open>loraham_daemon.cpp\<close>.

  The argument vector is what \<open>getopt_long\<close> makes of it: the options in order, an option it does not
  know or whose argument is missing, and whether arguments are left over. The environment
  answers whether the RF log opens, the CH341 library loads and \<open>/dev/spidev0.1\<close> exists. Terminal output is left out.
\<close>

section \<open>Boot slots\<close>

datatype radio_selection = SELECTION_UNSET | SELECTION_433 | SELECTION_868
datatype tx_mode_boot = TX_MODE_BOOT_UNSET | TX_MODE_BOOT_MANAGED | TX_MODE_BOOT_DIRECT
datatype cad_monitor_boot = CAD_MONITOR_BOOT_UNSET | CAD_MONITOR_BOOT_OFF | CAD_MONITOR_BOOT_ON

record boot =
  bo_daemon :: bool
  bo_debug :: bool
  bo_selection :: radio_selection
  bo_tx_mode :: tx_mode_boot
  bo_cad_monitor :: cad_monitor_boot
  bo_cad_rssi_set :: bool
  bo_cad_rssi_dbm :: c_float
  bo_preset :: string
  bo_rflog_on :: bool
  bo_rflog_path :: string
  bo_high_power :: bool
  bo_ocp_given :: bool
  bo_ocp_ma :: int
  bo_id :: "string ptr"
  bo_usb_serial :: "string ptr"

definition boot_unset :: boot where
  "boot_unset = \<lparr>bo_daemon = False, bo_debug = False, bo_selection = SELECTION_UNSET, bo_tx_mode = TX_MODE_BOOT_UNSET,
     bo_cad_monitor = CAD_MONITOR_BOOT_UNSET, bo_cad_rssi_set = False, bo_cad_rssi_dbm = Fin 0, bo_preset = ''loraham'',
     bo_rflog_on = False, bo_rflog_path = [], bo_high_power = False, bo_ocp_given = False, bo_ocp_ma = 0, bo_id = NULL,
     bo_usb_serial = NULL\<rparr>"

definition c_strcasecmp_eq :: "string \<Rightarrow> string \<Rightarrow> bool" where
  "c_strcasecmp_eq a b \<longleftrightarrow> map c_tolower a = map c_tolower b"

definition daemon_parse_radio_selection :: "string ptr \<Rightarrow> boot \<Rightarrow> bool \<times> boot" where
  "daemon_parse_radio_selection arg b =
     (case arg of
        None \<Rightarrow> (False, b)
      | Some s \<Rightarrow>
          if s = ''433'' then (True, b\<lparr>bo_selection := SELECTION_433\<rparr>)
          else if s = ''868'' then (True, b\<lparr>bo_selection := SELECTION_868\<rparr>)
          else (False, b))"

definition daemon_radio_selection_is_set :: "boot \<Rightarrow> bool" where
  "daemon_radio_selection_is_set b \<longleftrightarrow> bo_selection b = SELECTION_433 \<or> bo_selection b = SELECTION_868"

definition daemon_radio_433_enabled :: "boot \<Rightarrow> bool" where
  "daemon_radio_433_enabled b \<longleftrightarrow> bo_selection b = SELECTION_433"

definition daemon_parse_tx_mode_boot :: "string ptr \<Rightarrow> tx_mode_boot option" where
  "daemon_parse_tx_mode_boot arg =
     (case arg of
        None \<Rightarrow> None
      | Some s \<Rightarrow>
          if c_strcasecmp_eq s ''managed'' then Some TX_MODE_BOOT_MANAGED
          else if c_strcasecmp_eq s ''direct'' then Some TX_MODE_BOOT_DIRECT
          else None)"

definition daemon_set_tx_mode_boot_global :: "string ptr \<Rightarrow> boot \<Rightarrow> bool \<times> boot" where
  "daemon_set_tx_mode_boot_global arg b =
     (case daemon_parse_tx_mode_boot arg of None \<Rightarrow> (False, b) | Some m \<Rightarrow> (True, b\<lparr>bo_tx_mode := m\<rparr>))"

definition daemon_tx_mode_boot_effective :: "boot \<Rightarrow> tx_mode_boot" where
  "daemon_tx_mode_boot_effective b = (if bo_tx_mode b \<noteq> TX_MODE_BOOT_UNSET then bo_tx_mode b else TX_MODE_BOOT_MANAGED)"

definition daemon_parse_cad_monitor_boot :: "string ptr \<Rightarrow> cad_monitor_boot option" where
  "daemon_parse_cad_monitor_boot arg =
     (case arg of
        None \<Rightarrow> None
      | Some s \<Rightarrow>
          if c_strcasecmp_eq s ''on'' then Some CAD_MONITOR_BOOT_ON
          else if c_strcasecmp_eq s ''off'' then Some CAD_MONITOR_BOOT_OFF
          else None)"

definition daemon_set_cad_monitor_boot_global :: "string ptr \<Rightarrow> boot \<Rightarrow> bool \<times> boot" where
  "daemon_set_cad_monitor_boot_global arg b =
     (case daemon_parse_cad_monitor_boot arg of None \<Rightarrow> (False, b) | Some m \<Rightarrow> (True, b\<lparr>bo_cad_monitor := m\<rparr>))"

definition daemon_cad_monitor_boot_effective :: "boot \<Rightarrow> bool" where
  "daemon_cad_monitor_boot_effective b \<longleftrightarrow> bo_cad_monitor b = CAD_MONITOR_BOOT_ON"

definition daemon_parse_cad_rssi_boot :: "string ptr \<Rightarrow> c_float option" where
  "daemon_parse_cad_rssi_boot arg =
     (case arg of
        None \<Rightarrow> None
      | Some s \<Rightarrow>
          if s = [] then None
          else (case c_strtol 10 s of (v, rest, _) \<Rightarrow>
            if rest \<noteq> [] \<or> v < - 130 \<or> 0 < v then None else Some (f32_round (of_int v))))"

definition daemon_set_cad_rssi_boot_global :: "string ptr \<Rightarrow> boot \<Rightarrow> bool \<times> boot" where
  "daemon_set_cad_rssi_boot_global arg b =
     (case daemon_parse_cad_rssi_boot arg of
        None \<Rightarrow> (False, b)
      | Some dbm \<Rightarrow> (True, b\<lparr>bo_cad_rssi_set := True, bo_cad_rssi_dbm := dbm\<rparr>))"

definition daemon_cad_rssi_boot_effective :: "boot \<Rightarrow> c_float option" where
  "daemon_cad_rssi_boot_effective b = (if bo_cad_rssi_set b then Some (bo_cad_rssi_dbm b) else None)"

definition daemon_parse_rflog_switch :: "string ptr \<Rightarrow> bool option" where
  "daemon_parse_rflog_switch arg =
     (case arg of
        None \<Rightarrow> None
      | Some s \<Rightarrow> if c_strcasecmp_eq s ''on'' then Some True else if c_strcasecmp_eq s ''off'' then Some False else None)"

definition daemon_set_rflog_switch_global :: "string ptr \<Rightarrow> boot \<Rightarrow> bool \<times> boot" where
  "daemon_set_rflog_switch_global arg b =
     (case daemon_parse_rflog_switch arg of None \<Rightarrow> (False, b) | Some on \<Rightarrow> (True, b\<lparr>bo_rflog_on := on\<rparr>))"

definition daemon_set_rflog_path_global :: "string ptr \<Rightarrow> boot \<Rightarrow> bool \<times> boot" where
  "daemon_set_rflog_path_global arg b =
     (case arg of
        None \<Rightarrow> (False, b)
      | Some s \<Rightarrow> if take 1 s \<noteq> ''/'' \<or> 4096 \<le> length s then (False, b) else (True, b\<lparr>bo_rflog_path := s\<rparr>))"

text \<open>\<open>opens\<close>: whether the file can be opened.\<close>

definition daemon_rflog_start :: "bool \<Rightarrow> boot \<Rightarrow> bool" where
  "daemon_rflog_start opens b = (if \<not> bo_rflog_on b then True else if bo_rflog_path b = [] then False else opens)"

definition daemon_set_high_power_boot_global :: "boot \<Rightarrow> boot" where
  "daemon_set_high_power_boot_global b = b\<lparr>bo_high_power := True\<rparr>"

section \<open>The current limit\<close>

definition OCP_DEFAULT_MA :: int where [c_consts]: "OCP_DEFAULT_MA = 100"
definition INT_MAX :: int where [c_consts]: "INT_MAX = 2147483647"

definition daemon_set_ocp_boot_global :: "string ptr \<Rightarrow> boot \<Rightarrow> bool \<times> boot" where
  "daemon_set_ocp_boot_global arg b =
     (case arg of
        Some (c # cs) \<Rightarrow>
          if \<not> in_range (CHR ''0'') (CHR ''9'') c then (False, b)
          else (case c_strtol 10 (c # cs) of (v, rest, erange) \<Rightarrow>
            if erange \<or> rest \<noteq> [] \<or> v < 0 \<or> INT_MAX < v then (False, b)
            else (True, b\<lparr>bo_ocp_given := True, bo_ocp_ma := v\<rparr>))
      | _ \<Rightarrow> (False, b))"

definition daemon_ocp_default_ma :: "chip_family \<Rightarrow> int" where
  "daemon_ocp_default_ma family = OCP_DEFAULT_MA"

definition daemon_ocp_valid_ma :: "chip_family \<Rightarrow> int \<Rightarrow> bool" where
  "daemon_ocp_valid_ma family ma =
     (if family = SX1262 then 5 \<le> ma \<and> ma \<le> 140 \<and> ma mod 5 = 0
      else if ma = 0 then True
      else if 45 \<le> ma \<and> ma \<le> 120 then ma mod 5 = 0
      else if 130 \<le> ma \<and> ma \<le> 240 then ma mod 10 = 0
      else False)"

definition daemon_ocp_effective_ma :: "chip_family \<Rightarrow> boot \<Rightarrow> int" where
  "daemon_ocp_effective_ma family b = (if bo_ocp_given b then bo_ocp_ma b else daemon_ocp_default_ma family)"

text \<open>The notice: none, that the protection is off, or that it may limit the power.\<close>

datatype ocp_notice = Ocp_Disabled | Ocp_May_Limit int

definition daemon_ocp_notice :: "chip_family \<Rightarrow> boot \<Rightarrow> ocp_notice option" where
  "daemon_ocp_notice family b =
     (let ma = daemon_ocp_effective_ma family b in
      if bo_ocp_given b \<and> bo_ocp_ma b = 0 \<and> family = SX127X then Some Ocp_Disabled
      else if bo_high_power b \<and> family = SX127X \<and> ma \<le> OCP_DEFAULT_MA then Some (Ocp_May_Limit ma)
      else None)"


section \<open>Hardware profiles\<close>

record hw_profile =
  hw_name :: string
  hw_family :: chip_family
  hw_cs :: int
  hw_irq :: int
  hw_rst :: int
  hw_gpio :: int
  hw_aux :: int
  hw_txen :: int
  hw_rxen :: int
  hw_tcxo_voltage :: c_float
  hw_led_pin :: int
  hw_cad_scan_available :: bool
  hw_fsk_stream_available :: bool
  hw_reset_wired :: bool
  hw_spi_channel :: int
  hw_kernel_cs :: bool
  hw_usb_ch341 :: bool
  hw_usb_vid :: int
  hw_usb_pid :: int
  hw_power_max_dbm :: int
  hw_claimed :: "int list"

definition DAEMON_HW_PIN_NC :: int where [c_consts]: "DAEMON_HW_PIN_NC = -1"
definition DAEMON_HW_MAX_CLAIMED :: nat where [c_consts]: "DAEMON_HW_MAX_CLAIMED = 8"

definition daemon_set_hardware_preset :: "string ptr \<Rightarrow> boot \<Rightarrow> bool \<times> boot" where
  "daemon_set_hardware_preset name b =
     (case name of None \<Rightarrow> (False, b) | Some s \<Rightarrow> if s = [] then (False, b) else (True, b\<lparr>bo_preset := s\<rparr>))"

definition profile_claimed_finish :: "hw_profile \<Rightarrow> hw_profile" where
  "profile_claimed_finish p =
     p\<lparr>hw_claimed := take DAEMON_HW_MAX_CLAIMED
        (filter (\<lambda>pin. 0 \<le> pin)
          [if hw_kernel_cs p then DAEMON_HW_PIN_NC else hw_cs p, hw_irq p, hw_rst p, hw_gpio p, hw_txen p, hw_rxen p,
           hw_led_pin p])\<rparr>"

text \<open>The structure after \<open>memset\<close>.\<close>

definition hw_zero :: hw_profile where
  "hw_zero = \<lparr>hw_name = [], hw_family = SX127X, hw_cs = 0, hw_irq = 0, hw_rst = 0, hw_gpio = 0, hw_aux = 0, hw_txen = 0,
     hw_rxen = 0, hw_tcxo_voltage = Fin 0, hw_led_pin = 0, hw_cad_scan_available = False,
     hw_fsk_stream_available = False, hw_reset_wired = False, hw_spi_channel = 0, hw_kernel_cs = False,
     hw_usb_ch341 = False, hw_usb_vid = 0, hw_usb_pid = 0, hw_power_max_dbm = 0, hw_claimed = []\<rparr>"

definition profile_loraham :: "int \<Rightarrow> hw_profile" where
  "profile_loraham band =
     (let p = hw_zero\<lparr>hw_name := ''loraham'', hw_family := SX127X\<rparr>;
          p1 = (if band = 433 then p\<lparr>hw_cs := 8, hw_irq := 25, hw_rst := 5, hw_gpio := 24, hw_led_pin := 13\<rparr>
                else p\<lparr>hw_cs := 7, hw_irq := 16, hw_rst := 6, hw_gpio := 12, hw_led_pin := 19\<rparr>)
      in profile_claimed_finish
           (p1\<lparr>hw_aux := DAEMON_HW_PIN_NC, hw_txen := DAEMON_HW_PIN_NC, hw_rxen := DAEMON_HW_PIN_NC,
               hw_tcxo_voltage := Fin 0, hw_cad_scan_available := True, hw_fsk_stream_available := True,
               hw_reset_wired := True\<rparr>))"

definition profile_uputronics :: "bool \<Rightarrow> hw_profile" where
  "profile_uputronics ce0 =
     (let p = hw_zero\<lparr>hw_name := (if ce0 then ''uputronics-ce0'' else ''uputronics-ce1''), hw_family := SX127X\<rparr>;
          p1 = (if ce0 then p\<lparr>hw_cs := 8, hw_irq := 25, hw_aux := 24, hw_led_pin := 6\<rparr>
                else p\<lparr>hw_cs := 7, hw_irq := 16, hw_aux := 12, hw_led_pin := 13\<rparr>)
      in profile_claimed_finish
           (p1\<lparr>hw_rst := DAEMON_HW_PIN_NC, hw_gpio := DAEMON_HW_PIN_NC, hw_txen := DAEMON_HW_PIN_NC,
               hw_rxen := DAEMON_HW_PIN_NC, hw_tcxo_voltage := Fin 0, hw_cad_scan_available := True,
               hw_fsk_stream_available := False, hw_reset_wired := False\<rparr>))"

definition profile_waveshare :: hw_profile where
  "profile_waveshare =
     profile_claimed_finish
       (hw_zero\<lparr>hw_name := ''waveshare-sx1262'', hw_family := SX1262, hw_cs := 21, hw_irq := 16, hw_rst := 18,
          hw_gpio := 20, hw_aux := DAEMON_HW_PIN_NC, hw_txen := 6, hw_rxen := DAEMON_HW_PIN_NC,
          hw_tcxo_voltage := f32_round 1.8, hw_led_pin := DAEMON_HW_PIN_NC, hw_cad_scan_available := True,
          hw_fsk_stream_available := False, hw_reset_wired := True\<rparr>)"

definition profile_meshstick :: hw_profile where
  "profile_meshstick =
     hw_zero\<lparr>hw_name := ''meshstick-1262'', hw_family := SX1262, hw_cs := 0, hw_irq := 6, hw_rst := 2, hw_gpio := 4,
       hw_aux := DAEMON_HW_PIN_NC, hw_txen := DAEMON_HW_PIN_NC, hw_rxen := 1, hw_tcxo_voltage := f32_round 1.8,
       hw_led_pin := DAEMON_HW_PIN_NC, hw_cad_scan_available := True, hw_fsk_stream_available := False,
       hw_reset_wired := True, hw_usb_ch341 := True, hw_usb_vid := 0x1A86, hw_usb_pid := 0x5512,
       hw_power_max_dbm := 22, hw_claimed := []\<rparr>"

definition profile_fill :: "string \<Rightarrow> int \<Rightarrow> hw_profile option" where
  "profile_fill preset band =
     (if preset = ''loraham'' then Some (profile_loraham band)
      else if preset = ''uputronics-ce0'' \<or> preset = ''uputronics-ce1'' then
        Some (profile_uputronics (last preset = CHR ''0''))
      else if preset = ''waveshare-sx1262'' then Some profile_waveshare
      else if preset = ''meshstick-1262'' then (if band \<noteq> 868 then None else Some profile_meshstick)
      else None)"

definition daemon_hardware_profile_resolve :: "int \<Rightarrow> boot \<Rightarrow> hw_profile option" where
  "daemon_hardware_profile_resolve band b = profile_fill (bo_preset b) band"

definition daemon_hardware_profile_apply_spi :: "bool \<Rightarrow> hw_profile \<Rightarrow> bool \<times> hw_profile" where
  "daemon_hardware_profile_apply_spi kernel_cs p =
     (let p1 = p\<lparr>hw_spi_channel := 0, hw_kernel_cs := False\<rparr> in
      if \<not> kernel_cs then (True, p1)
      else if hw_cs p1 \<noteq> 8 \<and> hw_cs p1 \<noteq> 7 then (False, p1)
      else (True, profile_claimed_finish (p1\<lparr>hw_spi_channel := (if hw_cs p1 = 8 then 0 else 1), hw_kernel_cs := True\<rparr>)))"

section \<open>The command line\<close>

definition EXIT_SUCCESS :: int where [c_consts]: "EXIT_SUCCESS = 0"
definition EXIT_FAILURE :: int where [c_consts]: "EXIT_FAILURE = 1"
definition LORAHAM_EXIT_INSTANCE_BUSY :: int where [c_consts]: "LORAHAM_EXIT_INSTANCE_BUSY = 3"
definition LORAHAM_EXIT_LOCK_ERROR :: int where [c_consts]: "LORAHAM_EXIT_LOCK_ERROR = 4"

definition daemon_usb_serial_valid :: "string ptr \<Rightarrow> bool" where
  "daemon_usb_serial_valid arg =
     (case arg of
        None \<Rightarrow> False
      | Some s \<Rightarrow> if length s < 1 \<or> 8 < length s then False
          else list_all (\<lambda>c. 0x20 < char_code c \<and> char_code c < 0x7F) s)"

text \<open>An option as \<open>getopt_long\<close> returns it; \<open>Opt_Other\<close> is the question mark.\<close>

datatype boot_option =
  Opt_Daemon | Opt_Version | Opt_Debug | Opt_Radio "string ptr" | Opt_Tx_Mode "string ptr"
| Opt_Cad_Monitor "string ptr" | Opt_Cad_Rssi "string ptr" | Opt_Hw "string ptr" | Opt_Rflog "string ptr"
| Opt_Rflog_Path "string ptr" | Opt_High_Power | Opt_Ocp "string ptr" | Opt_Id "string ptr"
| Opt_Usb_Serial "string ptr" | Opt_Help | Opt_Other

text \<open>A setter that refuses its argument ends the process.\<close>

definition or_exit :: "bool \<times> boot \<Rightarrow> int + boot" where
  "or_exit r = (if fst r then Inr (snd r) else Inl EXIT_FAILURE)"

fun boot_option_step :: "boot \<Rightarrow> boot_option \<Rightarrow> int + boot" where
  "boot_option_step b Opt_Daemon = Inr (b\<lparr>bo_daemon := True\<rparr>)"
| "boot_option_step b Opt_Version = Inl EXIT_SUCCESS"
| "boot_option_step b Opt_Debug = Inr (b\<lparr>bo_debug := True\<rparr>)"
| "boot_option_step b (Opt_Radio arg) = or_exit (daemon_parse_radio_selection arg b)"
| "boot_option_step b (Opt_Tx_Mode arg) = or_exit (daemon_set_tx_mode_boot_global arg b)"
| "boot_option_step b (Opt_Cad_Monitor arg) = or_exit (daemon_set_cad_monitor_boot_global arg b)"
| "boot_option_step b (Opt_Cad_Rssi arg) = or_exit (daemon_set_cad_rssi_boot_global arg b)"
| "boot_option_step b (Opt_Hw arg) = or_exit (daemon_set_hardware_preset arg b)"
| "boot_option_step b (Opt_Rflog arg) = or_exit (daemon_set_rflog_switch_global arg b)"
| "boot_option_step b (Opt_Rflog_Path arg) = or_exit (daemon_set_rflog_path_global arg b)"
| "boot_option_step b Opt_High_Power = Inr (daemon_set_high_power_boot_global b)"
| "boot_option_step b (Opt_Ocp arg) = or_exit (daemon_set_ocp_boot_global arg b)"
| "boot_option_step b (Opt_Id arg) =
     (let (ok, ident) = daemon_set_instance_id arg (bo_id b) in or_exit (ok, b\<lparr>bo_id := ident\<rparr>))"
| "boot_option_step b (Opt_Usb_Serial arg) =
     (if \<not> daemon_usb_serial_valid arg then Inl EXIT_FAILURE else Inr (b\<lparr>bo_usb_serial := arg\<rparr>))"
| "boot_option_step b Opt_Help = Inl EXIT_SUCCESS"
| "boot_option_step b Opt_Other = Inl EXIT_FAILURE"

fun boot_options_loop :: "boot \<Rightarrow> boot_option list \<Rightarrow> int + boot" where
  "boot_options_loop b [] = Inr b"
| "boot_options_loop b (x # xs) = (case boot_option_step b x of Inl e \<Rightarrow> Inl e | Inr b1 \<Rightarrow> boot_options_loop b1 xs)"

record boot_env =
  be_rflog_opens :: bool
  be_socket_dir :: "string ptr"
  be_ch341_loads :: bool
  be_kernel_cs :: bool

text \<open>The process's configuration after \<open>daemon_parse_args\<close> returned.\<close>

record boot_config =
  bc_boot :: boot
  bc_band :: band_descriptor
  bc_profile :: hw_profile
  bc_power_max :: int

definition CONFIG_POLICY_SX1262_POWER_MAX_DEFAULT :: int where [c_consts]: "CONFIG_POLICY_SX1262_POWER_MAX_DEFAULT = 20"

definition ocp_refused :: "boot \<Rightarrow> hw_profile \<Rightarrow> bool" where
  "ocp_refused b p \<longleftrightarrow> bo_ocp_given b \<and> \<not> daemon_ocp_valid_ma (hw_family p) (bo_ocp_ma b)"

definition daemon_parse_args :: "boot_env \<Rightarrow> boot_option list \<Rightarrow> string list \<Rightarrow> int + boot_config" where
  "daemon_parse_args env opts rest =
     (case boot_options_loop boot_unset opts of
        Inl e \<Rightarrow> Inl e
      | Inr b \<Rightarrow>
          if \<not> daemon_rflog_start (be_rflog_opens env) b then Inl EXIT_FAILURE
          else if rest \<noteq> [] then Inl EXIT_FAILURE
          else if \<not> daemon_radio_selection_is_set b then Inl EXIT_FAILURE
          else
            (let (band, err) = daemon_band_resolve (if daemon_radio_433_enabled b then RADIO_BAND_433 else RADIO_BAND_868)
                   (be_socket_dir env) (bo_id b)
             in if \<not> fst (daemon_band_socket_paths_ok DAEMON_SOCKET_PATH_ERROR_MAX err) then Inl LORAHAM_EXIT_LOCK_ERROR
                else case daemon_hardware_profile_resolve (bd_band_number band) b of
                  None \<Rightarrow> Inl EXIT_FAILURE
                | Some p \<Rightarrow>
                    if bo_usb_serial b \<noteq> NULL \<and> \<not> hw_usb_ch341 p then Inl EXIT_FAILURE
                    else if ocp_refused b p then Inl EXIT_FAILURE
                    else
                      (let pm = (if 0 < hw_power_max_dbm p then hw_power_max_dbm p
                                 else CONFIG_POLICY_SX1262_POWER_MAX_DEFAULT)
                       in if hw_usb_ch341 p then
                            (if \<not> be_ch341_loads env then Inl LORAHAM_EXIT_LOCK_ERROR
                             else Inr \<lparr>bc_boot = b, bc_band = band, bc_profile = p, bc_power_max = pm\<rparr>)
                          else (case daemon_hardware_profile_apply_spi (be_kernel_cs env) p of (ok, p1) \<Rightarrow>
                            if \<not> ok then Inl LORAHAM_EXIT_LOCK_ERROR
                            else Inr \<lparr>bc_boot = b, bc_band = band, bc_profile = p1, bc_power_max = pm\<rparr>))))"

section \<open>The objects the configuration makes\<close>

definition daemon_radio_controller_init :: "boot_config \<Rightarrow> radio" where
  "daemon_radio_controller_init c =
     (radio_controller_init (bd_band (bc_band c)) (bd_tag (bc_band c)) (bd_is_hf (bc_band c)))
       \<lparr>rc_cad_scan_available := hw_cad_scan_available (bc_profile c), rc_chip_family := hw_family (bc_profile c),
        rc_high_power := bo_high_power (bc_boot c),
        rc_ocp_ma := daemon_ocp_effective_ma (hw_family (bc_profile c)) (bc_boot c), rc_instance_id := bo_id (bc_boot c)\<rparr>"

text \<open>The pins the process locks: those of the profile and the LED's.\<close>

definition process_pins :: "hw_profile \<Rightarrow> int list" where
  "process_pins p = hw_claimed p @ [hw_led_pin p]"

text \<open>The lines the radio's module and driver are created with.\<close>

definition daemon_radio_module_pins :: "hw_profile \<Rightarrow> int list" where
  "daemon_radio_module_pins p = [if hw_kernel_cs p then DAEMON_HW_PIN_NC else hw_cs p, hw_irq p, hw_rst p, hw_gpio p]"

text \<open>The RF switch line of \<open>hw_driver_create\<close>.\<close>

definition rf_switch_pin :: "hw_profile \<Rightarrow> int" where
  "rf_switch_pin p =
     (if hw_family p = SX1262 then (if 0 \<le> hw_txen p then hw_txen p else hw_rxen p) else DAEMON_HW_PIN_NC)"

text \<open>A USB radio uses lines of the adapter, none of the board.\<close>

definition driven_pins :: "hw_profile \<Rightarrow> int set" where
  "driven_pins p =
     (if hw_usb_ch341 p then {} else {pin \<in> set (daemon_radio_module_pins p @ [rf_switch_pin p, hw_led_pin p]). 0 \<le> pin})"

definition daemon_boot_tx_mode_to_radio :: "tx_mode_boot \<Rightarrow> radio_tx_mode" where
  "daemon_boot_tx_mode_to_radio mode = (if mode = TX_MODE_BOOT_DIRECT then RADIO_TX_MODE_DIRECT else RADIO_TX_MODE_MANAGED)"

definition daemon_apply_boot_tx_modes :: "boot_config \<Rightarrow> radio \<Rightarrow> radio" where
  "daemon_apply_boot_tx_modes c r =
     r\<lparr>rc_tx_mode := daemon_boot_tx_mode_to_radio (daemon_tx_mode_boot_effective (bc_boot c))\<rparr>"

definition daemon_apply_boot_cad_monitor :: "boot_config \<Rightarrow> radio \<Rightarrow> radio" where
  "daemon_apply_boot_cad_monitor c r =
     (let r1 = r\<lparr>rc_cad_monitor_active := daemon_cad_monitor_boot_effective (bc_boot c)\<rparr> in
      case daemon_cad_rssi_boot_effective (bc_boot c) of None \<Rightarrow> r1 | Some dbm \<Rightarrow> r1\<lparr>rc_cad_threshold := dbm\<rparr>)"

definition process_env :: "boot_config \<Rightarrow> config_env" where
  "process_env c = config_env_of (bc_band c) (hw_family (bc_profile c)) (bo_high_power (bc_boot c)) (bc_power_max c)"

end
