(* ===== verification/Process_Prog.thy ===== *)
theory Process_Prog
  imports Boot_Options
begin

text \<open>
  The life of a daemon process towards the kernel: locks, socket files, the LED line and the radio, from
  \<open>daemon_startup_sequence\<close> to the exit (\<open>loraham_daemon.cpp\<close>, \<open>daemon_io_runtime.cpp\<close>, \<open>daemon_instance_lock.cpp\<close>,
  \<open>daemon_gpio_lock.cpp\<close>, \<open>unix_socket.cpp\<close>, \<open>radio_channel.cpp\<close>, \<open>daemon_radio_runtime.cpp\<close>, \<open>daemon_led.cpp\<close>).

  A program is a tree: an operation of the kernel or of a component modelled elsewhere, and what follows for each of its answers. The C functions
  are translated with their continuation as the last argument; what they keep in static variables (the held pin
  locks, the open listeners) is passed to it. Log lines are left out.
\<close>

section \<open>Programs\<close>

text \<open>
  An operation answers yes, no or failure. \<open>No\<close> is only given by \<open>Cmd_Lock\<close> (another process holds it), \<open>Cmd_Lstat\<close>
  (nothing there; \<open>Fail\<close>: not a socket, or an error) and \<open>Cmd_Radio_Init\<close> (not ready because of a lock or a startup
  failure of the HAL; \<open>Fail\<close>: not ready). \<open>Cmd_Main_Loop\<close> fails when the process ends in the HAL's exit 5.
\<close>

datatype answer = Yes | No | Fail

datatype cmd =
  Cmd_Background | Cmd_Lock_Dir | Cmd_Lock string | Cmd_Unlock string | Cmd_Signals
| Cmd_Lstat string | Cmd_Unlink string | Cmd_Socket string | Cmd_Bind string | Cmd_Chmod string
| Cmd_Nonblock string | Cmd_Listen string | Cmd_Close string
| Cmd_Led_Init | Cmd_Led_Shutdown | Cmd_Ch341_Start | Cmd_Ch341_Shutdown | Cmd_Radio_Init | Cmd_Radio_Shutdown
| Cmd_Event_Init | Cmd_Event_Close | Cmd_Main_Loop

datatype prog = Exit int | Do cmd "answer \<Rightarrow> prog"

definition LORAHAM_EXIT_RUNTIME_RADIO_IO_ERROR :: int where [c_consts]: "LORAHAM_EXIT_RUNTIME_RADIO_IO_ERROR = 5"

section \<open>Locks\<close>

definition instance_lock_name :: "string \<Rightarrow> string" where
  "instance_lock_name key = snprintf_text 64 (''instance-'' @ key @ ''.lock'')"

definition gpio_lock_name :: "int \<Rightarrow> string" where
  "gpio_lock_name pin = snprintf_text 32 (''gpio'' @ int_dec pin @ ''.lock'')"

text \<open>The result of \<open>instance_lock_claim\<close> is the process's exit code, 0 for success.\<close>

definition instance_lock_claim :: "string \<Rightarrow> (int \<Rightarrow> prog) \<Rightarrow> prog" where
  "instance_lock_claim key k =
     Do Cmd_Lock_Dir (\<lambda>dir.
       if dir \<noteq> Yes then k LORAHAM_EXIT_LOCK_ERROR
       else Do (Cmd_Lock (instance_lock_name key)) (\<lambda>a.
         k (case a of Yes \<Rightarrow> 0 | No \<Rightarrow> LORAHAM_EXIT_INSTANCE_BUSY | Fail \<Rightarrow> LORAHAM_EXIT_LOCK_ERROR)))"

definition instance_key :: "boot_config \<Rightarrow> string" where
  "instance_key c = (case bo_id (bc_boot c) of None \<Rightarrow> bd_tag (bc_band c) | Some ident \<Rightarrow> ident)"

definition daemon_instance_lock_acquire :: "boot_config \<Rightarrow> (int \<Rightarrow> prog) \<Rightarrow> prog" where
  "daemon_instance_lock_acquire c = instance_lock_claim (instance_key c)"

definition daemon_instance_lock_release :: "boot_config \<Rightarrow> prog \<Rightarrow> prog" where
  "daemon_instance_lock_release c k = Do (Cmd_Unlock (instance_lock_name (instance_key c))) (\<lambda>_. k)"

text \<open>The pin locks that are held are passed along, oldest first.\<close>

fun daemon_gpio_locks_release :: "int list \<Rightarrow> prog \<Rightarrow> prog" where
  "daemon_gpio_locks_release [] k = k"
| "daemon_gpio_locks_release (pin # pins) k =
     Do (Cmd_Unlock (gpio_lock_name pin)) (\<lambda>_. daemon_gpio_locks_release pins k)"

fun gpio_lock_loop :: "int list \<Rightarrow> int list \<Rightarrow> (int list \<Rightarrow> bool \<Rightarrow> prog) \<Rightarrow> prog" where
  "gpio_lock_loop [] held k = k held True"
| "gpio_lock_loop (pin # pins) held k =
     Do (Cmd_Lock (gpio_lock_name pin)) (\<lambda>a.
       if a \<noteq> Yes then daemon_gpio_locks_release held (k [] False)
       else gpio_lock_loop pins (held @ [pin]) k)"

definition DAEMON_GPIO_LOCK_MAX :: nat where [c_consts]: "DAEMON_GPIO_LOCK_MAX = 16"

definition daemon_gpio_locks_acquire :: "int list \<Rightarrow> int list \<Rightarrow> (int list \<Rightarrow> bool \<Rightarrow> prog) \<Rightarrow> prog" where
  "daemon_gpio_locks_acquire pins held k =
     (if held \<noteq> [] then k held False
      else
        (let wanted = filter (\<lambda>pin. 0 \<le> pin) pins in
         if DAEMON_GPIO_LOCK_MAX < length wanted then k [] False
         else
           (let sorted = remdups_adj (sort wanted) in
            Do Cmd_Lock_Dir (\<lambda>dir. if dir \<noteq> Yes then k [] False else gpio_lock_loop sorted [] k))))"

datatype gpio_claim = GPIO_CLAIMED | GPIO_CLAIM_LOCK_FAILED | GPIO_CLAIM_HW_FAILED

text \<open>\<open>hw_init\<close> is \<open>daemon_led_init\<close> at the only call.\<close>

definition daemon_gpio_locks_claim_then :: "int list \<Rightarrow> (int list \<Rightarrow> gpio_claim \<Rightarrow> prog) \<Rightarrow> prog" where
  "daemon_gpio_locks_claim_then pins k =
     daemon_gpio_locks_acquire pins [] (\<lambda>held ok.
       if \<not> ok then k held GPIO_CLAIM_LOCK_FAILED
       else Do Cmd_Led_Init (\<lambda>a.
         if a \<noteq> Yes then daemon_gpio_locks_release held (k [] GPIO_CLAIM_HW_FAILED)
         else k held GPIO_CLAIMED))"

section \<open>Socket files\<close>

definition unix_socket_prepare_path :: "string \<Rightarrow> (bool \<Rightarrow> prog) \<Rightarrow> prog" where
  "unix_socket_prepare_path path k =
     Do (Cmd_Lstat path) (\<lambda>state.
       case state of
         No \<Rightarrow> k True
       | Fail \<Rightarrow> k False
       | Yes \<Rightarrow> Do (Cmd_Unlink path) (\<lambda>a. k (a = Yes)))"

definition socket_undo :: "string \<Rightarrow> prog \<Rightarrow> prog" where
  "socket_undo path k = Do (Cmd_Close path) (\<lambda>_. Do (Cmd_Unlink path) (\<lambda>_. k))"

definition SUN_PATH_SIZE :: nat where [c_consts]: "SUN_PATH_SIZE = 108"

text \<open>The descriptor is named by its path.\<close>

definition setup_unix_socket :: "string \<Rightarrow> (bool \<Rightarrow> prog) \<Rightarrow> prog" where
  "setup_unix_socket path k =
     (if path = [] then k False
      else if SUN_PATH_SIZE \<le> length path then k False
      else unix_socket_prepare_path path (\<lambda>ok.
        if \<not> ok then k False
        else Do (Cmd_Socket path) (\<lambda>a.
          if a \<noteq> Yes then k False
          else Do (Cmd_Bind path) (\<lambda>a.
            if a \<noteq> Yes then Do (Cmd_Close path) (\<lambda>_. k False)
            else Do (Cmd_Chmod path) (\<lambda>a.
              if a \<noteq> Yes then socket_undo path (k False)
              else Do (Cmd_Nonblock path) (\<lambda>a.
                if a \<noteq> Yes then socket_undo path (k False)
                else Do (Cmd_Listen path) (\<lambda>a.
                  if a \<noteq> Yes then socket_undo path (k False) else k True)))))))"

definition close_unix_socket :: "bool \<Rightarrow> string \<Rightarrow> prog \<Rightarrow> prog" where
  "close_unix_socket is_open path k =
     (let unlink_it = Do (Cmd_Lstat path) (\<lambda>state. if state = Yes then Do (Cmd_Unlink path) (\<lambda>_. k) else k)
      in if is_open then Do (Cmd_Close path) (\<lambda>_. unlink_it) else unlink_it)"

text \<open>The three paths of a band, and which of them are open; on a failure none is.\<close>

definition band_paths :: "band_descriptor \<Rightarrow> string list" where
  "band_paths band = [bd_data_socket band, bd_framed_socket band, bd_conf_socket band]"

definition radio_channel_open_sockets :: "band_descriptor \<Rightarrow> (bool \<Rightarrow> prog) \<Rightarrow> prog" where
  "radio_channel_open_sockets band k =
     setup_unix_socket (bd_data_socket band) (\<lambda>ok.
       if \<not> ok then k False
       else setup_unix_socket (bd_framed_socket band) (\<lambda>ok.
         if \<not> ok then close_unix_socket True (bd_data_socket band) (k False)
         else setup_unix_socket (bd_conf_socket band) (\<lambda>ok.
           if \<not> ok then close_unix_socket True (bd_framed_socket band) (close_unix_socket True (bd_data_socket band) (k False))
           else k True)))"

text \<open>Clients' connections are closed here too; they have no file.\<close>

definition daemon_io_close :: "band_descriptor \<Rightarrow> bool \<Rightarrow> prog \<Rightarrow> prog" where
  "daemon_io_close band is_open k =
     close_unix_socket is_open (bd_data_socket band)
       (close_unix_socket is_open (bd_framed_socket band) (close_unix_socket is_open (bd_conf_socket band) k))"

section \<open>Start and stop\<close>

definition daemon_radio_shutdown_cleanup :: "boot_config \<Rightarrow> int list \<Rightarrow> prog \<Rightarrow> prog" where
  "daemon_radio_shutdown_cleanup c held k =
     Do Cmd_Radio_Shutdown (\<lambda>_. Do Cmd_Ch341_Shutdown (\<lambda>_. Do Cmd_Led_Shutdown (\<lambda>_.
       daemon_gpio_locks_release held k)))"

text \<open>The second release of the pin locks finds none held.\<close>

definition daemon_io_startup_cleanup :: "boot_config \<Rightarrow> int list \<Rightarrow> bool \<Rightarrow> prog \<Rightarrow> prog" where
  "daemon_io_startup_cleanup c held is_open k =
     daemon_radio_shutdown_cleanup c held
       (daemon_io_close (bc_band c) is_open (daemon_gpio_locks_release [] (daemon_instance_lock_release c k)))"

definition daemon_shutdown_cleanup :: "boot_config \<Rightarrow> int list \<Rightarrow> prog \<Rightarrow> prog" where
  "daemon_shutdown_cleanup c held k =
     daemon_radio_shutdown_cleanup c held
       (Do Cmd_Event_Close (\<lambda>_. daemon_io_close (bc_band c) True (daemon_instance_lock_release c k)))"

definition radio_and_loop :: "boot_config \<Rightarrow> int list \<Rightarrow> prog" where
  "radio_and_loop c held =
     Do Cmd_Radio_Init (\<lambda>a.
       if a \<noteq> Yes then
         daemon_io_startup_cleanup c held True (Exit (if a = No then LORAHAM_EXIT_LOCK_ERROR else EXIT_FAILURE))
       else Do Cmd_Event_Init (\<lambda>a.
         if a \<noteq> Yes then daemon_shutdown_cleanup c held (Exit EXIT_FAILURE)
         else Do Cmd_Main_Loop (\<lambda>a.
           if a \<noteq> Yes then Exit LORAHAM_EXIT_RUNTIME_RADIO_IO_ERROR
           else daemon_shutdown_cleanup c held (Exit EXIT_SUCCESS))))"

definition io_init_sockets :: "boot_config \<Rightarrow> int list \<Rightarrow> prog" where
  "io_init_sockets c held =
     radio_channel_open_sockets (bc_band c) (\<lambda>ok.
       if \<not> ok then daemon_io_startup_cleanup c held False (Exit EXIT_FAILURE)
       else if hw_usb_ch341 (bc_profile c) then
         Do Cmd_Ch341_Start (\<lambda>a.
           if a \<noteq> Yes then daemon_io_startup_cleanup c held True (Exit LORAHAM_EXIT_LOCK_ERROR)
           else radio_and_loop c held)
       else radio_and_loop c held)"

definition daemon_io_init :: "boot_config \<Rightarrow> prog" where
  "daemon_io_init c =
     daemon_instance_lock_acquire c (\<lambda>rc.
       if rc \<noteq> 0 then Exit rc
       else Do Cmd_Signals (\<lambda>a.
         if a \<noteq> Yes then daemon_instance_lock_release c (Exit EXIT_FAILURE)
         else if hw_usb_ch341 (bc_profile c) then io_init_sockets c []
         else daemon_gpio_locks_claim_then (process_pins (bc_profile c)) (\<lambda>held r.
           if r \<noteq> GPIO_CLAIMED then daemon_instance_lock_release c (Exit LORAHAM_EXIT_LOCK_ERROR)
           else io_init_sockets c held)))"

definition daemon_process :: "boot_env \<Rightarrow> boot_option list \<Rightarrow> string list \<Rightarrow> prog" where
  "daemon_process env opts rest =
     (case daemon_parse_args env opts rest of
        Inl e \<Rightarrow> Exit e
      | Inr c \<Rightarrow>
          if bo_daemon (bc_boot c)
          then Do Cmd_Background (\<lambda>a. if a \<noteq> Yes then Exit EXIT_FAILURE else daemon_io_init c)
          else daemon_io_init c)"

end
