(* ===== verification/Process_Safe.thy ===== *)
theory Process_Safe
  imports Process_Prog
begin

text \<open>
  What a process holds at each point of its program, and a typestate check of the whole program against it: socket
  files are touched only under the instance lock and never while the process's own socket is bound there, pins are
  driven only under their locks, locks are dropped only when nothing they guard is in use, and the process ends with
  nothing held. The check walks the program tree over every answer, so it covers every error path.
\<close>

section \<open>What a process holds\<close>

record held =
  he_locks :: "string set"
  he_open :: "string set"
  he_bound :: "string set"
  he_led :: bool
  he_radio :: bool

definition nothing_held :: held where
  "nothing_held = \<lparr>he_locks = {}, he_open = {}, he_bound = {}, he_led = False, he_radio = False\<rparr>"

text \<open>A start of the radio counts as driving whatever its answer, until the shutdown.\<close>

fun held_step :: "cmd \<Rightarrow> answer \<Rightarrow> held \<Rightarrow> held" where
  "held_step (Cmd_Lock n) a v = (if a = Yes then v\<lparr>he_locks := insert n (he_locks v)\<rparr> else v)"
| "held_step (Cmd_Unlock n) a v = v\<lparr>he_locks := he_locks v - {n}\<rparr>"
| "held_step (Cmd_Socket x) a v = (if a = Yes then v\<lparr>he_open := insert x (he_open v)\<rparr> else v)"
| "held_step (Cmd_Bind x) a v = (if a = Yes then v\<lparr>he_bound := insert x (he_bound v)\<rparr> else v)"
| "held_step (Cmd_Close x) a v = v\<lparr>he_open := he_open v - {x}, he_bound := he_bound v - {x}\<rparr>"
| "held_step Cmd_Led_Init a v = (if a = Yes then v\<lparr>he_led := True\<rparr> else v)"
| "held_step Cmd_Led_Shutdown a v = v\<lparr>he_led := False\<rparr>"
| "held_step Cmd_Radio_Init a v = v\<lparr>he_radio := True\<rparr>"
| "held_step Cmd_Radio_Shutdown a v = v\<lparr>he_radio := False\<rparr>"
| "held_step _ a v = v"

definition own_lock :: "boot_config \<Rightarrow> string" where
  "own_lock c = instance_lock_name (instance_key c)"

definition own_paths :: "boot_config \<Rightarrow> string list" where
  "own_paths c = band_paths (bc_band c)"

definition pin_locks :: "boot_config \<Rightarrow> string set" where
  "pin_locks c =
     (if hw_usb_ch341 (bc_profile c) then {} else gpio_lock_name ` {pin \<in> set (process_pins (bc_profile c)). 0 \<le> pin})"

definition hands_off :: "held \<Rightarrow> bool" where
  "hands_off v \<longleftrightarrow> \<not> he_led v \<and> \<not> he_radio v"

fun cmd_allowed :: "boot_config \<Rightarrow> cmd \<Rightarrow> held \<Rightarrow> bool" where
  "cmd_allowed c (Cmd_Unlock n) v \<longleftrightarrow> hands_off v \<and> (n = own_lock c \<longrightarrow> he_open v = {} \<and> he_bound v = {})"
| "cmd_allowed c (Cmd_Unlink x) v \<longleftrightarrow> x \<in> set (own_paths c) \<and> own_lock c \<in> he_locks v \<and> x \<notin> he_bound v"
| "cmd_allowed c (Cmd_Socket x) v \<longleftrightarrow> x \<in> set (own_paths c) \<and> own_lock c \<in> he_locks v"
| "cmd_allowed c (Cmd_Bind x) v \<longleftrightarrow> x \<in> set (own_paths c) \<and> own_lock c \<in> he_locks v"
| "cmd_allowed c Cmd_Led_Init v \<longleftrightarrow> insert (own_lock c) (pin_locks c) \<subseteq> he_locks v \<and> \<not> hw_usb_ch341 (bc_profile c)"
| "cmd_allowed c Cmd_Radio_Init v \<longleftrightarrow> insert (own_lock c) (pin_locks c) \<subseteq> he_locks v"
| "cmd_allowed c _ v \<longleftrightarrow> True"

primrec prog_safe :: "prog \<Rightarrow> boot_config \<Rightarrow> held \<Rightarrow> bool" where
  "prog_safe (Exit e) c v \<longleftrightarrow> e = LORAHAM_EXIT_RUNTIME_RADIO_IO_ERROR \<or> v = nothing_held"
| "prog_safe (Do cmd k) c v \<longleftrightarrow> cmd_allowed c cmd v \<and> (\<forall>a. prog_safe (k a) c (held_step cmd a v))"

lemma nothing_held_locks [simp]: "he_locks nothing_held = {}"
  by (simp add: nothing_held_def)

section \<open>The program passes\<close>

text \<open>The three paths differ, and a name of an instance lock is no name of a pin lock.\<close>

definition conf_ok :: "boot_config \<Rightarrow> bool" where
  "conf_ok c \<longleftrightarrow> distinct (own_paths c)"

lemma lock_names_differ [simp]: "gpio_lock_name pin \<noteq> own_lock c" "own_lock c \<noteq> gpio_lock_name pin"
proof -
  have "hd (instance_lock_name key) \<noteq> hd (gpio_lock_name pin)" for key
    by (simp add: instance_lock_name_def gpio_lock_name_def snprintf_text_def)
  then show "gpio_lock_name pin \<noteq> own_lock c" "own_lock c \<noteq> gpio_lock_name pin"
    by (metis own_lock_def)+
qed

lemma safe_if [simp]: "prog_safe (if b then p else q) c v = (if b then prog_safe p c v else prog_safe q c v)"
  by simp

lemma safe_setup:
  assumes "x \<in> set (own_paths c)" and "own_lock c \<in> he_locks v" and "x \<notin> he_open v" and "x \<notin> he_bound v"
    and "prog_safe (k False) c v"
    and "prog_safe (k True) c (v\<lparr>he_open := insert x (he_open v), he_bound := insert x (he_bound v)\<rparr>)"
  shows "prog_safe (setup_unix_socket x k) c v"
  using assms
  by (auto simp: setup_unix_socket_def unix_socket_prepare_path_def socket_undo_def split: answer.split)

lemma safe_close:
  assumes "x \<in> set (own_paths c)" and "own_lock c \<in> he_locks v"
    and "is_open \<or> x \<notin> he_open v \<and> x \<notin> he_bound v"
    and "prog_safe k c (v\<lparr>he_open := he_open v - {x}, he_bound := he_bound v - {x}\<rparr>)"
  shows "prog_safe (close_unix_socket is_open x k) c v"
  using assms by (auto simp: close_unix_socket_def Let_def)

lemma safe_release:
  "hands_off v \<Longrightarrow> prog_safe k c (v\<lparr>he_locks := he_locks v - gpio_lock_name ` set pins\<rparr>) \<Longrightarrow>
     prog_safe (daemon_gpio_locks_release pins k) c v"
proof (induction pins arbitrary: v)
  case (Cons pin pins)
  have "prog_safe (daemon_gpio_locks_release pins k) c (v\<lparr>he_locks := he_locks v - {gpio_lock_name pin}\<rparr>)"
    using Cons.prems by (intro Cons.IH) (simp_all add: hands_off_def Diff_insert2 [symmetric])
  then show ?case
    using Cons.prems by simp
qed simp

lemma safe_lock_loop:
  assumes "hands_off v" and "own \<inter> gpio_lock_name ` (set held \<union> set pins) = {}"
    and "he_locks v = own \<union> gpio_lock_name ` set held"
    and "prog_safe (k [] False) c (v\<lparr>he_locks := own\<rparr>)"
    and "prog_safe (k (held @ pins) True) c (v\<lparr>he_locks := own \<union> gpio_lock_name ` (set held \<union> set pins)\<rparr>)"
  shows "prog_safe (gpio_lock_loop pins held k) c v"
  using assms
proof (induction pins arbitrary: held v)
  case Nil
  have "v\<lparr>he_locks := own \<union> gpio_lock_name ` set held\<rparr> = v"
    using Nil.prems(3) by simp
  then show ?case
    using Nil.prems(5) by simp
next
  case (Cons pin pins)
  have fail: "prog_safe (daemon_gpio_locks_release held (k [] False)) c v"
    using Cons.prems by (intro safe_release) (auto simp: Un_Diff Diff_triv Int_Un_distrib image_Un)
  have step: "prog_safe (gpio_lock_loop pins (held @ [pin]) k) c (v\<lparr>he_locks := insert (gpio_lock_name pin) (he_locks v)\<rparr>)"
    using Cons.prems by (intro Cons.IH) (auto simp: hands_off_def insert_commute)
  show ?case
    using fail step by simp
qed

text \<open>The states between two calls: the instance lock, the pin locks, the open listeners and the hardware in use.\<close>

definition held_at :: "boot_config \<Rightarrow> int list \<Rightarrow> string set \<Rightarrow> bool \<Rightarrow> bool \<Rightarrow> held" where
  "held_at c pins xs led radio =
     \<lparr>he_locks = insert (own_lock c) (gpio_lock_name ` set pins), he_open = xs, he_bound = xs, he_led = led, he_radio = radio\<rparr>"

lemma held_at_simps [simp]:
  "he_locks (held_at c pins xs led radio) = insert (own_lock c) (gpio_lock_name ` set pins)"
  "he_open (held_at c pins xs led radio) = xs"
  "he_bound (held_at c pins xs led radio) = xs"
  "he_led (held_at c pins xs led radio) = led"
  "he_radio (held_at c pins xs led radio) = radio"
  "held_at c pins xs led radio\<lparr>he_open := ys, he_bound := ys\<rparr> = held_at c pins ys led radio"
  "held_at c pins xs led radio\<lparr>he_led := led'\<rparr> = held_at c pins xs led' radio"
  "held_at c pins xs led radio\<lparr>he_radio := radio'\<rparr> = held_at c pins xs led radio'"
  by (simp_all add: held_at_def)

definition pins_locked :: "boot_config \<Rightarrow> int list \<Rightarrow> bool" where
  "pins_locked c pins \<longleftrightarrow> pin_locks c \<subseteq> gpio_lock_name ` set pins"

lemma safe_instance_release:
  assumes "prog_safe k c nothing_held"
  shows "prog_safe (daemon_instance_lock_release c k) c (held_at c [] {} False False)"
  using assms
  by (simp add: daemon_instance_lock_release_def held_at_def nothing_held_def hands_off_def own_lock_def)

lemma safe_radio_shutdown:
  assumes "prog_safe k c (held_at c [] xs False False)"
  shows "prog_safe (daemon_radio_shutdown_cleanup c pins k) c (held_at c pins xs led radio)"
proof -
  have "held_at c pins xs False False\<lparr>he_locks := insert (own_lock c) (gpio_lock_name ` set pins) - gpio_lock_name ` set pins\<rparr>
      = held_at c [] xs False False"
    by (auto simp: held_at_def)
  then show ?thesis
    using assms by (simp add: daemon_radio_shutdown_cleanup_def safe_release hands_off_def)
qed

lemma safe_io_close:
  assumes "xs \<subseteq> set (own_paths c)" and "is_open \<or> xs = {}"
    and "prog_safe k c (held_at c pins {} led radio)"
  shows "prog_safe (daemon_io_close (bc_band c) is_open k) c (held_at c pins xs led radio)"
proof -
  have "xs - {bd_data_socket (bc_band c)} - {bd_framed_socket (bc_band c)} - {bd_conf_socket (bc_band c)} = {}"
    using assms(1) by (auto simp: own_paths_def band_paths_def)
  then have "prog_safe k c (held_at c pins
      (xs - {bd_data_socket (bc_band c)} - {bd_framed_socket (bc_band c)} - {bd_conf_socket (bc_band c)}) led radio)"
    using assms(3) by (simp only:)
  then show ?thesis
    using assms(1,2) unfolding daemon_io_close_def
    by (intro safe_close) (auto simp: own_paths_def band_paths_def)
qed

lemma safe_startup_cleanup:
  assumes "xs \<subseteq> set (own_paths c)" and "is_open \<or> xs = {}"
  shows "prog_safe (daemon_io_startup_cleanup c pins is_open (Exit e)) c (held_at c pins xs led radio)"
  unfolding daemon_io_startup_cleanup_def
  using assms by (intro safe_radio_shutdown safe_io_close) (simp_all add: safe_instance_release)

lemma safe_shutdown_cleanup:
  assumes "xs \<subseteq> set (own_paths c)"
  shows "prog_safe (daemon_shutdown_cleanup c pins (Exit e)) c (held_at c pins xs led radio)"
  unfolding daemon_shutdown_cleanup_def
  using assms by (intro safe_radio_shutdown) (simp add: safe_io_close safe_instance_release)

lemma safe_radio_and_loop:
  assumes "pins_locked c pins" and "xs \<subseteq> set (own_paths c)"
  shows "prog_safe (radio_and_loop c pins) c (held_at c pins xs led radio)"
  using assms
  by (auto simp: radio_and_loop_def pins_locked_def safe_startup_cleanup safe_shutdown_cleanup)

lemma safe_open_sockets:
  assumes ok: "conf_ok c"
    and no: "prog_safe (k False) c (held_at c pins {} led radio)"
    and yes: "prog_safe (k True) c (held_at c pins (set (own_paths c)) led radio)"
  shows "prog_safe (radio_channel_open_sockets (bc_band c) k) c (held_at c pins {} led radio)"
proof -
  let ?a = "bd_data_socket (bc_band c)" and ?b = "bd_framed_socket (bc_band c)" and ?c = "bd_conf_socket (bc_band c)"
  note paths = own_paths_def band_paths_def
  have dist: "?a \<noteq> ?b" "?a \<noteq> ?c" "?b \<noteq> ?c"
    using ok by (auto simp: conf_ok_def paths)
  have close_a: "prog_safe (close_unix_socket True ?a (k False)) c (held_at c pins {?a} led radio)"
    using no by (intro safe_close) (simp_all add: paths)
  have close_b: "prog_safe (close_unix_socket True ?b (close_unix_socket True ?a (k False))) c
      (held_at c pins {?b, ?a} led radio)"
    using close_a dist by (intro safe_close [where x = ?b]) (simp_all add: paths)
  have "insert ?c {?b, ?a} = set (own_paths c)"
    by (auto simp: paths)
  then have open_c: "prog_safe (setup_unix_socket ?c (\<lambda>ok.
         if \<not> ok then close_unix_socket True ?b (close_unix_socket True ?a (k False)) else k True)) c
      (held_at c pins {?b, ?a} led radio)"
    using yes close_b dist by (intro safe_setup) (simp_all add: paths)
  then show ?thesis
    using no close_a dist unfolding radio_channel_open_sockets_def
    by (intro safe_setup) (simp_all add: paths safe_setup)
qed

lemma safe_io_init_sockets:
  assumes "conf_ok c" and "pins_locked c pins"
  shows "prog_safe (io_init_sockets c pins) c (held_at c pins {} led radio)"
  unfolding io_init_sockets_def
  using assms by (intro safe_open_sockets) (auto simp: safe_startup_cleanup safe_radio_and_loop)

lemma safe_gpio_claim:
  assumes "\<not> hw_usb_ch341 (bc_profile c)" and pins: "pins = process_pins (bc_profile c)"
    and no: "\<And>r. r \<noteq> GPIO_CLAIMED \<Longrightarrow> prog_safe (k [] r) c (held_at c [] {} False False)"
    and yes: "\<And>held. pins_locked c held \<Longrightarrow> prog_safe (k held GPIO_CLAIMED) c (held_at c held {} True False)"
  shows "prog_safe (daemon_gpio_locks_claim_then pins k) c (held_at c [] {} False False)"
proof -
  let ?sorted = "remdups_adj (sort (filter (\<lambda>pin. 0 \<le> pin) pins))"
  let ?done = "\<lambda>held ok. if \<not> ok then k held GPIO_CLAIM_LOCK_FAILED
    else Do Cmd_Led_Init (\<lambda>a. if a \<noteq> Yes then daemon_gpio_locks_release held (k [] GPIO_CLAIM_HW_FAILED)
      else k held GPIO_CLAIMED)"
  have locked: "pins_locked c ?sorted"
    using assms(1) pins by (auto simp: pins_locked_def pin_locks_def)
  have "held_at c ?sorted {} False False\<lparr>he_locks := insert (own_lock c) (gpio_lock_name ` set ?sorted) - gpio_lock_name ` set ?sorted\<rparr>
      = held_at c [] {} False False"
    by (auto simp: held_at_def)
  then have claimed: "prog_safe (?done ?sorted True) c (held_at c ?sorted {} False False)"
    using assms(1) yes [OF locked] no [of GPIO_CLAIM_HW_FAILED] locked
    by (auto simp: pins_locked_def hands_off_def intro!: safe_release)
  have same: "held_at c [] {} False False\<lparr>he_locks := {own_lock c}\<rparr> = held_at c [] {} False False"
    "held_at c [] {} False False\<lparr>he_locks := {own_lock c} \<union> gpio_lock_name ` (set [] \<union> set ?sorted)\<rparr>
      = held_at c ?sorted {} False False"
    by (simp_all add: held_at_def)
  have failed: "prog_safe (?done [] False) c (held_at c [] {} False False)"
    using no [of GPIO_CLAIM_LOCK_FAILED] by simp
  have "prog_safe (gpio_lock_loop ?sorted [] ?done) c (held_at c [] {} False False)"
    by (rule safe_lock_loop [where own = "{own_lock c}"], unfold same append_Nil)
      (rule claimed failed | force simp: hands_off_def)+
  then show ?thesis
    using no [of GPIO_CLAIM_LOCK_FAILED]
    by (simp add: daemon_gpio_locks_claim_then_def daemon_gpio_locks_acquire_def Let_def)
qed

lemma safe_io_init:
  assumes "conf_ok c"
  shows "prog_safe (daemon_io_init c) c nothing_held"
proof -
  have start: "nothing_held\<lparr>he_locks := {own_lock c}\<rparr> = held_at c [] {} False False"
    by (simp add: nothing_held_def held_at_def)
  have pins: "prog_safe (daemon_gpio_locks_claim_then (process_pins (bc_profile c)) (\<lambda>held r.
           if r \<noteq> GPIO_CLAIMED then daemon_instance_lock_release c (Exit LORAHAM_EXIT_LOCK_ERROR)
           else io_init_sockets c held)) c (held_at c [] {} False False)"
    if "\<not> hw_usb_ch341 (bc_profile c)"
    using that assms by (intro safe_gpio_claim) (simp_all add: safe_instance_release safe_io_init_sockets)
  have usb: "prog_safe (io_init_sockets c []) c (held_at c [] {} False False)" if "hw_usb_ch341 (bc_profile c)"
    using that assms by (simp add: safe_io_init_sockets pins_locked_def pin_locks_def)
  show ?thesis
    using pins usb
    by (auto simp: daemon_io_init_def daemon_instance_lock_acquire_def instance_lock_claim_def own_lock_def [symmetric]
        safe_instance_release start LORAHAM_EXIT_LOCK_ERROR_def LORAHAM_EXIT_INSTANCE_BUSY_def
        split: answer.split)
qed

end
