(* ===== verification/Boot_Props.thy ===== *)
theory Boot_Props
  imports Boot_Options
begin

text \<open>What a command line that \<open>daemon_parse_args\<close> accepts guarantees.\<close>

lemma parse_accepts:
  assumes "daemon_parse_args env opts rest = Inr c"
  obtains p where "boot_options_loop boot_unset opts = Inr (bc_boot c)" and "rest = []"
    and "daemon_radio_selection_is_set (bc_boot c)"
    and "daemon_band_resolve (if daemon_radio_433_enabled (bc_boot c) then RADIO_BAND_433 else RADIO_BAND_868)
      (be_socket_dir env) (bo_id (bc_boot c)) = (bc_band c, [])"
    and "daemon_hardware_profile_resolve (bd_band_number (bc_band c)) (bc_boot c) = Some p"
    and "\<not> ocp_refused (bc_boot c) p"
    and "if hw_usb_ch341 p then bc_profile c = p else daemon_hardware_profile_apply_spi (be_kernel_cs env) p = (True, bc_profile c)"
    and "bc_power_max c = (if 0 < hw_power_max_dbm p then hw_power_max_dbm p else CONFIG_POLICY_SX1262_POWER_MAX_DEFAULT)"
proof (cases "boot_options_loop boot_unset opts")
  case (Inr b)
  obtain band err where r: "daemon_band_resolve (if daemon_radio_433_enabled b then RADIO_BAND_433 else RADIO_BAND_868)
      (be_socket_dir env) (bo_id b) = (band, err)"
    by (cases "daemon_band_resolve (if daemon_radio_433_enabled b then RADIO_BAND_433 else RADIO_BAND_868)
      (be_socket_dir env) (bo_id b)")
  note parsed = assms [unfolded daemon_parse_args_def Inr sum.case Let_def r prod.case]
  have early: "rest = []" "daemon_radio_selection_is_set b" "err = []"
    using parsed by (simp_all add: daemon_band_socket_paths_ok_def split: if_splits)
  obtain p where p: "daemon_hardware_profile_resolve (bd_band_number band) b = Some p"
    using parsed by (simp split: if_splits option.splits)
  have ocp: "\<not> ocp_refused b p"
    using parsed p by (simp split: if_splits)
  have "bc_boot c = b \<and> bc_band c = band \<and>
      (if hw_usb_ch341 p then bc_profile c = p
       else daemon_hardware_profile_apply_spi (be_kernel_cs env) p = (True, bc_profile c)) \<and>
      bc_power_max c = (if 0 < hw_power_max_dbm p then hw_power_max_dbm p else CONFIG_POLICY_SX1262_POWER_MAX_DEFAULT)"
    using parsed p by (simp split: if_splits prod.splits) auto
  then show thesis
    using that [of p] Inr r early p ocp by simp
qed (use assms in \<open>simp add: daemon_parse_args_def\<close>)

lemmas boot_setter_defs =
  or_exit_def daemon_parse_radio_selection_def daemon_set_tx_mode_boot_global_def
  daemon_set_cad_monitor_boot_global_def daemon_set_cad_rssi_boot_global_def daemon_set_hardware_preset_def
  daemon_set_rflog_switch_global_def daemon_set_rflog_path_global_def daemon_set_high_power_boot_global_def
  daemon_set_ocp_boot_global_def daemon_set_instance_id_def

text \<open>What holds of the slots before an option and is kept by its setter holds of an accepted command line.\<close>

lemma boot_options_keep:
  assumes "boot_options_loop b xs = Inr b'" and "good b"
    and "\<And>b x b1. boot_option_step b x = Inr b1 \<Longrightarrow> good b \<Longrightarrow> good b1"
  shows "good b'"
  using assms(1,2)
  by (induction b xs rule: boot_options_loop.induct) (auto split: sum.splits intro: assms(3))

definition boot_ok :: "boot \<Rightarrow> bool" where
  "boot_ok b \<longleftrightarrow>
     (bo_id b = NULL \<or> daemon_instance_id_valid (bo_id b)) \<and>
     (bo_usb_serial b = NULL \<or> daemon_usb_serial_valid (bo_usb_serial b)) \<and>
     (\<exists>v :: int. bo_cad_rssi_dbm b = f32_round (of_int v) \<and> - 130 \<le> v \<and> v \<le> 0) \<and> bo_preset b \<noteq> []"

lemma step_boot_ok:
  assumes "boot_option_step b x = Inr b1" and "boot_ok b"
  shows "boot_ok b1"
proof (cases "\<exists>arg. x = Opt_Cad_Rssi arg")
  case True
  then obtain arg where x: "x = Opt_Cad_Rssi arg" ..
  then obtain dbm where dbm: "daemon_parse_cad_rssi_boot arg = Some dbm"
    and b1: "b1 = b\<lparr>bo_cad_rssi_set := True, bo_cad_rssi_dbm := dbm\<rparr>"
    using assms(1) by (auto simp: boot_setter_defs split: option.splits)
  from dbm have "\<exists>v :: int. dbm = f32_round (of_int v) \<and> - 130 \<le> v \<and> v \<le> 0"
    by (force simp: daemon_parse_cad_rssi_boot_def not_less split: option.splits if_splits prod.splits)
  then show ?thesis
    using assms(2) b1 by (auto simp: boot_ok_def)
next
  case False
  then show ?thesis
    using assms
    by (cases x)
      (auto simp: boot_setter_defs boot_ok_def Let_def split: if_splits option.splits list.splits prod.splits)
qed

lemma parsed_boot_ok:
  assumes "boot_options_loop boot_unset opts = Inr b"
  shows "boot_ok b"
proof (rule boot_options_keep [OF assms])
  have "bo_cad_rssi_dbm boot_unset = f32_round (of_int 0)"
    by (simp add: boot_unset_def f32_round_def)
  then show "boot_ok boot_unset"
    by (auto simp: boot_ok_def boot_unset_def intro: exI [of _ 0])
qed (rule step_boot_ok)

section \<open>Profiles\<close>

lemma spi_profile:
  assumes "daemon_hardware_profile_apply_spi kcs p = (True, p1)"
  shows "p1 = p\<lparr>hw_spi_channel := 0, hw_kernel_cs := False\<rparr> \<or>
    (hw_cs p \<in> {7, 8} \<and> p1 = profile_claimed_finish (p\<lparr>hw_spi_channel := (if hw_cs p = 8 then 0 else 1), hw_kernel_cs := True\<rparr>))"
  using assms by (auto simp: daemon_hardware_profile_apply_spi_def Let_def split: if_splits)

lemma preset_cases:
  assumes "daemon_hardware_profile_resolve band b = Some p"
  obtains "p = profile_loraham band" | ce0 where "p = profile_uputronics ce0" | "p = profile_waveshare" | "p = profile_meshstick"
  using assms by (auto simp: daemon_hardware_profile_resolve_def profile_fill_def split: if_splits)

lemmas preset_defs =
  profile_loraham_def profile_uputronics_def profile_waveshare_def profile_meshstick_def hw_zero_def Let_def

lemma finish_fields [simp]:
  "hw_usb_ch341 (profile_claimed_finish p) = hw_usb_ch341 p" "hw_family (profile_claimed_finish p) = hw_family p"
  "hw_power_max_dbm (profile_claimed_finish p) = hw_power_max_dbm p" "hw_cs (profile_claimed_finish p) = hw_cs p"
  by (simp_all add: profile_claimed_finish_def)

lemma preset_usb [simp]:
  "\<not> hw_usb_ch341 (profile_loraham band)" "\<not> hw_usb_ch341 (profile_uputronics ce0)" "\<not> hw_usb_ch341 profile_waveshare"
  "hw_claimed profile_meshstick = []"
  by (simp_all add: preset_defs)

text \<open>The claimed pins of a profile are those its fields name.\<close>

definition claims_all :: "hw_profile \<Rightarrow> bool" where
  "claims_all p \<longleftrightarrow> hw_claimed p = hw_claimed (profile_claimed_finish p)"

lemma finish_claims: "claims_all (profile_claimed_finish p)"
  by (simp add: claims_all_def profile_claimed_finish_def)

lemma claims_drives: "claims_all p \<Longrightarrow> driven_pins p \<subseteq> set (process_pins p)"
  by (auto simp: claims_all_def driven_pins_def daemon_radio_module_pins_def rf_switch_pin_def
      profile_claimed_finish_def process_pins_def c_consts)

lemma preset_claims:
  assumes "daemon_hardware_profile_resolve band b = Some p" and "\<not> hw_usb_ch341 p"
  shows "claims_all p \<and> \<not> hw_kernel_cs p"
  using assms
  by (cases rule: preset_cases)
    (simp_all add: profile_loraham_def profile_uputronics_def profile_waveshare_def Let_def finish_claims,
      simp_all add: profile_meshstick_def profile_claimed_finish_def hw_zero_def)

lemma claims_spi: "claims_all p \<Longrightarrow> \<not> hw_kernel_cs p \<Longrightarrow> claims_all (p\<lparr>hw_spi_channel := 0, hw_kernel_cs := False\<rparr>)"
  by (simp add: claims_all_def profile_claimed_finish_def)

text \<open>Every line a started process drives is among the ones it locks.\<close>

lemma driven_pins_claimed:
  assumes "daemon_parse_args env opts rest = Inr c"
  shows "driven_pins (bc_profile c) \<subseteq> set (process_pins (bc_profile c))"
proof (rule parse_accepts [OF assms])
  fix p
  assume p: "daemon_hardware_profile_resolve (bd_band_number (bc_band c)) (bc_boot c) = Some p"
    and q: "if hw_usb_ch341 p then bc_profile c = p
      else daemon_hardware_profile_apply_spi (be_kernel_cs env) p = (True, bc_profile c)"
  show ?thesis
  proof (cases "hw_usb_ch341 p")
    case True
    then show ?thesis
      using q by (simp add: driven_pins_def)
  next
    case False
    then show ?thesis
      using q spi_profile [of "be_kernel_cs env" p "bc_profile c"] preset_claims [OF p False]
      by (auto intro!: claims_drives claims_spi finish_claims simp del: finish_fields)
  qed
qed

section \<open>The accepted configuration\<close>

lemma f32_round_int:
  assumes "\<bar>i\<bar> < 2 ^ 24"
  shows "f32_round (of_int i) = Fin (of_int i)"
proof (cases "i = 0")
  case False
  define k where "k = ilog2 \<bar>of_int i\<bar>"
  have "(0 :: rat) < \<bar>of_int i\<bar>"
    using False by simp
  note s = ilog2_spec [OF this, folded k_def]
  have "(of_int 1 :: rat) \<le> of_int \<bar>i\<bar>" and top: "(of_int \<bar>i\<bar> :: rat) < of_int (2 ^ 24)"
    using False assms by (simp_all only: of_int_le_iff of_int_less_iff)
  then have bounds: "pow2 0 < pow2 (k + 1)" "pow2 k < pow2 24"
    using s by (simp_all add: pow2_def)
  have k: "0 \<le> k" "k < 24"
    using pow2_mono [of "k + 1" 0] pow2_mono [of 24 k] bounds by linarith+
  define q where "q = pow2 (k - 23)"
  have "pow2 (23 - k) * q = 1"
    by (simp add: q_def pow2_add [symmetric]) (simp add: pow2_def)
  moreover have "pow2 (23 - k) = of_int (2 ^ nat (23 - k))"
    using k by (simp add: pow2_def)
  ultimately have i: "of_int (i * 2 ^ nat (23 - k)) * q = (of_int i :: rat)"
    by (simp add: mult.assoc)
  have "(of_int i :: rat) / q = of_int (i * 2 ^ nat (23 - k))"
    using i by (simp add: q_def field_simps)
  then have "of_int (round_half_even (of_int i / q)) * q = (of_int i :: rat)"
    using i by (simp only: round_half_even_int)
  moreover have "max (k - int 24 + 1) (- 149) = k - 23"
    using k by simp
  moreover have "\<bar>of_int i\<bar> < pow2 128"
    using top pow2_mono [of 24 128] by (simp add: pow2_def)
  ultimately show ?thesis
    using False by (auto simp: f32_round_def f_round_def k_def [symmetric] q_def [symmetric] Let_def)
qed (simp add: f32_round_def)

lemma ocp_valid_range: "daemon_ocp_valid_ma family ma \<Longrightarrow> 0 \<le> ma \<and> ma \<le> 240"
  by (auto simp: daemon_ocp_valid_ma_def split: if_splits)

lemma spi_keeps:
  assumes "if hw_usb_ch341 p then p1 = p else daemon_hardware_profile_apply_spi kcs p = (True, p1)"
  shows "hw_family p1 = hw_family p \<and> hw_usb_ch341 p1 = hw_usb_ch341 p"
  using assms by (auto simp: daemon_hardware_profile_apply_spi_def Let_def split: if_splits)

lemma preset_power_max:
  assumes "daemon_hardware_profile_resolve band b = Some p"
  shows "hw_power_max_dbm p = 0 \<or> hw_power_max_dbm p = 22 \<and> band = 868"
  using assms
  by (auto simp: daemon_hardware_profile_resolve_def profile_fill_def preset_defs split: if_splits)

lemma resolved_defaults:
  assumes "daemon_band_resolve band env ident = (bd, err)"
  shows "rf_power_dbm (bd_rf_defaults bd) = 10"
  using assms
  by (auto simp: daemon_band_resolve_def band_433_def band_868_def rf_defaults_433_def rf_defaults_868_def Let_def
      split: if_splits prod.splits)

definition boot_radio :: "boot_config \<Rightarrow> radio" where
  "boot_radio c = daemon_apply_boot_cad_monitor c (daemon_apply_boot_tx_modes c (daemon_radio_controller_init c))"

lemma boot_radio_fields:
  "rc_chip_family (boot_radio c) = hw_family (bc_profile c)" "rc_high_power (boot_radio c) = bo_high_power (bc_boot c)"
  "rc_ocp_ma (boot_radio c) = daemon_ocp_effective_ma (hw_family (bc_profile c)) (bc_boot c)"
  "rc_cad_threshold (boot_radio c) =
     (if bo_cad_rssi_set (bc_boot c) then bo_cad_rssi_dbm (bc_boot c) else RADIO_CAD_RSSI_BUSY_THRESHOLD_DBM)"
  by (auto simp: boot_radio_def daemon_apply_boot_cad_monitor_def daemon_apply_boot_tx_modes_def
      daemon_radio_controller_init_def daemon_cad_rssi_boot_effective_def radio_controller_init_def Let_def)

text \<open>
  C18: Every command line that is accepted, whatever its options, environment and profile, starts a radio whose
  current limit is one that its chip can be set to, whose boot power is allowed by the policy for its chip, whose power
  ceiling fits the driver's signed byte, whose CAD threshold is a whole number of dBm between -130 and 0,
  with an instance id that is absent or valid, socket paths of at most 107 bytes, and at most 16 pin locks that cover every
  line the radio and the LED drive.
\<close>

theorem accepted_command_line_valid:
  assumes "daemon_parse_args env opts rest = Inr c"
  shows "daemon_ocp_valid_ma (rc_chip_family (boot_radio c)) (rc_ocp_ma (boot_radio c)) \<and>
    config_policy_power_valid_family (bc_power_max c) (rf_power_dbm (bd_rf_defaults (bc_band c)))
      (rc_chip_family (boot_radio c)) (rc_high_power (boot_radio c)) \<and>
    bc_power_max c < 128 \<and>
    (\<exists>v. rc_cad_threshold (boot_radio c) = Fin (of_int v) \<and> - 130 \<le> v \<and> v \<le> 0) \<and>
    (bo_id (bc_boot c) = NULL \<or> daemon_instance_id_valid (bo_id (bc_boot c))) \<and>
    length (bd_data_socket (bc_band c)) \<le> DAEMON_SOCKET_PATH_MAX \<and>
    length (bd_framed_socket (bc_band c)) \<le> DAEMON_SOCKET_PATH_MAX \<and>
    length (bd_conf_socket (bc_band c)) \<le> DAEMON_SOCKET_PATH_MAX \<and>
    driven_pins (bc_profile c) \<subseteq> set (process_pins (bc_profile c)) \<and>
    length (process_pins (bc_profile c)) \<le> 16"
proof (rule parse_accepts [OF assms])
  fix p
  assume b: "boot_options_loop boot_unset opts = Inr (bc_boot c)"
    and r: "daemon_band_resolve (if daemon_radio_433_enabled (bc_boot c) then RADIO_BAND_433 else RADIO_BAND_868)
      (be_socket_dir env) (bo_id (bc_boot c)) = (bc_band c, [])"
    and p: "daemon_hardware_profile_resolve (bd_band_number (bc_band c)) (bc_boot c) = Some p"
    and ocp: "\<not> ocp_refused (bc_boot c) p"
    and spi: "if hw_usb_ch341 p then bc_profile c = p
      else daemon_hardware_profile_apply_spi (be_kernel_cs env) p = (True, bc_profile c)"
    and pm: "bc_power_max c =
      (if 0 < hw_power_max_dbm p then hw_power_max_dbm p else CONFIG_POLICY_SX1262_POWER_MAX_DEFAULT)"
  note family = spi_keeps [OF spi]
  have "daemon_ocp_valid_ma fam OCP_DEFAULT_MA" for fam
    by (simp add: daemon_ocp_valid_ma_def c_consts)
  then have limit: "daemon_ocp_valid_ma (hw_family p) (daemon_ocp_effective_ma (hw_family p) (bc_boot c))"
    using ocp by (auto simp: ocp_refused_def daemon_ocp_effective_ma_def daemon_ocp_default_ma_def)
  have ceiling: "bc_power_max c = 20 \<or> bc_power_max c = 22"
    using pm preset_power_max [OF p] by (auto simp: c_consts)
  have power: "config_policy_power_valid_family (bc_power_max c) (rf_power_dbm (bd_rf_defaults (bc_band c))) fam hp" for fam hp
    using ceiling resolved_defaults [OF r] by (auto simp: config_policy_power_valid_family_def)
  have bok: "boot_ok (bc_boot c)"
    using parsed_boot_ok [OF b] .
  then obtain v where v: "bo_cad_rssi_dbm (bc_boot c) = f32_round (of_int v)" "- 130 \<le> v" "v \<le> 0"
    by (auto simp: boot_ok_def)
  have "\<exists>v. rc_cad_threshold (boot_radio c) = Fin (of_int v) \<and> - 130 \<le> v \<and> v \<le> 0"
  proof (cases "bo_cad_rssi_set (bc_boot c)")
    case True
    then show ?thesis
      using v f32_round_int [of v] by (auto simp: boot_radio_fields)
  next
    case False
    then show ?thesis
      by (intro exI [of _ "- 90"]) (simp add: boot_radio_fields RADIO_CAD_RSSI_BUSY_THRESHOLD_DBM_def)
  qed
  moreover have "length (hw_claimed (bc_profile c)) \<le> 8"
  proof (cases "hw_usb_ch341 p")
    case True
    then have "p = profile_meshstick"
      by (cases rule: preset_cases [OF p]) simp_all
    then show ?thesis
      using spi True by simp
  next
    case False
    then have "claims_all (bc_profile c)"
      using spi spi_profile [of "be_kernel_cs env" p "bc_profile c"] preset_claims [OF p False]
      by (auto intro!: claims_spi finish_claims simp del: finish_fields)
    then show ?thesis
      by (simp add: claims_all_def profile_claimed_finish_def c_consts)
  qed
  ultimately show ?thesis
    using limit family ceiling power bok daemon_band_resolve_paths [OF r] driven_pins_claimed [OF assms]
    by (auto simp: boot_radio_fields boot_ok_def process_pins_def)
qed

section \<open>A command line\<close>

definition pool_env :: boot_env where
  "pool_env = \<lparr>be_rflog_opens = False, be_socket_dir = NULL, be_ch341_loads = False, be_kernel_cs = False\<rparr>"
definition pool_opts :: "boot_option list" where "pool_opts = [Opt_Radio (Some ''433'')]"

definition pool_conf :: boot_config where
  "pool_conf = \<lparr>bc_boot = boot_unset\<lparr>bo_selection := SELECTION_433\<rparr>, bc_band = band_433, 
    bc_profile = (profile_loraham 433)\<lparr>hw_spi_channel := 0, hw_kernel_cs := False\<rparr>, bc_power_max = 20\<rparr>"

lemma pool_parsed: "daemon_parse_args pool_env pool_opts [] = Inr pool_conf"
  by (simp add: daemon_parse_args_def pool_env_def pool_opts_def boot_setter_defs boot_unset_def Let_def
    daemon_rflog_start_def daemon_radio_selection_is_set_def daemon_radio_433_enabled_def daemon_band_resolve_def
    daemon_band_socket_paths_ok_def daemon_hardware_profile_resolve_def profile_fill_def band_433_def profile_loraham_def
    profile_claimed_finish_def ocp_refused_def daemon_hardware_profile_apply_spi_def pool_conf_def hw_zero_def c_consts)

theorem accepted_command_line_valid_witness:
  "daemon_parse_args pool_env pool_opts [] = Inr pool_conf \<and>
     daemon_ocp_valid_ma (rc_chip_family (boot_radio pool_conf)) (rc_ocp_ma (boot_radio pool_conf)) \<and>
     length (process_pins (bc_profile pool_conf)) \<le> 16"
  using accepted_command_line_valid [OF pool_parsed] pool_parsed by blast

end
