(* ===== verification/Process_Pool.thy ===== *)
theory Process_Pool
  imports Process_Safe Boot_Props
begin

text \<open>
  Any number of daemon processes on one machine: what the kernel keeps for them (advisory locks, the socket files, the
  open sockets), and the interleavings of their programs with crashes and with files other programs make.
  The lock directory is one for all of them; the socket directories may differ.
\<close>

section \<open>The pool\<close>

datatype file_node = Sock nat | Other_File

record proc =
  pr_conf :: "boot_config option"
  pr_prog :: prog

record pool =
  pl_lock :: "string \<Rightarrow> nat option"
  pl_file :: "string \<Rightarrow> file_node option"
  pl_open :: "nat \<Rightarrow> string set"
  pl_bound :: "nat \<Rightarrow> string set"
  pl_led :: "nat \<Rightarrow> bool"
  pl_radio :: "nat \<Rightarrow> bool"
  pl_proc :: "nat \<Rightarrow> proc option"

definition pool_start :: "(string \<Rightarrow> file_node option) \<Rightarrow> pool" where
  "pool_start files =
     \<lparr>pl_lock = (\<lambda>_. None), pl_file = files, pl_open = (\<lambda>_. {}), pl_bound = (\<lambda>_. {}), pl_led = (\<lambda>_. False),
      pl_radio = (\<lambda>_. False), pl_proc = (\<lambda>_. None)\<rparr>"

text \<open>The answers the kernel can give; a failure is always possible.\<close>

fun answer_possible :: "cmd \<Rightarrow> answer \<Rightarrow> pool \<Rightarrow> bool" where
  "answer_possible (Cmd_Lock n) a S = (case a of Yes \<Rightarrow> pl_lock S n = None | No \<Rightarrow> pl_lock S n \<noteq> None | Fail \<Rightarrow> True)"
| "answer_possible (Cmd_Lstat x) a S =
     (case a of Yes \<Rightarrow> pl_file S x \<noteq> None \<and> pl_file S x \<noteq> Some Other_File | No \<Rightarrow> pl_file S x = None | Fail \<Rightarrow> True)"
| "answer_possible (Cmd_Unlink x) a S = (a = Yes \<longrightarrow> pl_file S x \<noteq> None)"
| "answer_possible (Cmd_Bind x) a S = (a = Yes \<longrightarrow> pl_file S x = None)"
| "answer_possible _ a S = True"

fun pool_effect :: "nat \<Rightarrow> cmd \<Rightarrow> answer \<Rightarrow> pool \<Rightarrow> pool" where
  "pool_effect p (Cmd_Lock n) a S = (if a = Yes then S\<lparr>pl_lock := (pl_lock S)(n \<mapsto> p)\<rparr> else S)"
| "pool_effect p (Cmd_Unlock n) a S =
     (if pl_lock S n = Some p then S\<lparr>pl_lock := (pl_lock S)(n := None)\<rparr> else S)"
| "pool_effect p (Cmd_Unlink x) a S = (if a = Yes then S\<lparr>pl_file := (pl_file S)(x := None)\<rparr> else S)"
| "pool_effect p (Cmd_Socket x) a S =
     (if a = Yes then S\<lparr>pl_open := (pl_open S)(p := insert x (pl_open S p))\<rparr> else S)"
| "pool_effect p (Cmd_Bind x) a S =
     (if a = Yes
      then S\<lparr>pl_file := (pl_file S)(x \<mapsto> Sock p), pl_bound := (pl_bound S)(p := insert x (pl_bound S p))\<rparr>
      else S)"
| "pool_effect p (Cmd_Close x) a S =
     S\<lparr>pl_open := (pl_open S)(p := pl_open S p - {x}), pl_bound := (pl_bound S)(p := pl_bound S p - {x})\<rparr>"
| "pool_effect p Cmd_Led_Init a S = (if a = Yes then S\<lparr>pl_led := (pl_led S)(p := True)\<rparr> else S)"
| "pool_effect p Cmd_Led_Shutdown a S = S\<lparr>pl_led := (pl_led S)(p := False)\<rparr>"
| "pool_effect p Cmd_Radio_Init a S = S\<lparr>pl_radio := (pl_radio S)(p := True)\<rparr>"
| "pool_effect p Cmd_Radio_Shutdown a S = S\<lparr>pl_radio := (pl_radio S)(p := False)\<rparr>"
| "pool_effect p _ a S = S"

text \<open>The end of a process, by its exit or by a crash: the kernel drops its locks, sockets and lines; files stay.\<close>

definition pool_reap :: "nat \<Rightarrow> pool \<Rightarrow> pool" where
  "pool_reap p S =
     S\<lparr>pl_lock := (\<lambda>n. if pl_lock S n = Some p then None else pl_lock S n), pl_open := (pl_open S)(p := {}),
       pl_bound := (pl_bound S)(p := {}), pl_led := (pl_led S)(p := False), pl_radio := (pl_radio S)(p := False),
       pl_proc := (pl_proc S)(p := None)\<rparr>"

definition new_proc :: "boot_env \<Rightarrow> boot_option list \<Rightarrow> string list \<Rightarrow> proc" where
  "new_proc env opts rest =
     \<lparr>pr_conf = (case daemon_parse_args env opts rest of Inl _ \<Rightarrow> None | Inr c \<Rightarrow> Some c),
      pr_prog = daemon_process env opts rest\<rparr>"

datatype pool_event =
  Spawn nat boot_env "boot_option list" "string list" | Act nat answer | End nat | Appear string | Vanish string

fun pool_step :: "pool_event \<Rightarrow> pool \<Rightarrow> pool option" where
  "pool_step (Spawn p env opts rest) S =
     (if pl_proc S p = None then Some (S\<lparr>pl_proc := (pl_proc S)(p \<mapsto> new_proc env opts rest)\<rparr>) else None)"
| "pool_step (Act p a) S =
     (case pl_proc S p of
        None \<Rightarrow> None
      | Some pr \<Rightarrow>
          (case pr_prog pr of
             Exit _ \<Rightarrow> None
           | Do cmd k \<Rightarrow>
               if answer_possible cmd a S
               then Some ((pool_effect p cmd a S)\<lparr>pl_proc := (pl_proc S)(p \<mapsto> pr\<lparr>pr_prog := k a\<rparr>)\<rparr>)
               else None))"
| "pool_step (End p) S = (if pl_proc S p = None then None else Some (pool_reap p S))"
| "pool_step (Appear x) S = (if pl_file S x = None then Some (S\<lparr>pl_file := (pl_file S)(x \<mapsto> Other_File)\<rparr>) else None)"
| "pool_step (Vanish x) S =
     (if pl_file S x = Some Other_File then Some (S\<lparr>pl_file := (pl_file S)(x := None)\<rparr>) else None)"

fun pool_run :: "pool_event list \<Rightarrow> pool \<Rightarrow> pool option" where
  "pool_run [] S = Some S"
| "pool_run (e # es) S = (case pool_step e S of None \<Rightarrow> None | Some S1 \<Rightarrow> pool_run es S1)"

section \<open>The configurations a start accepts\<close>

definition accepted_band :: "boot_config \<Rightarrow> radio_band \<Rightarrow> string ptr \<Rightarrow> bool" where
  "accepted_band c band dir \<longleftrightarrow>
     daemon_band_resolve band dir (bo_id (bc_boot c)) = (bc_band c, []) \<and>
     (bo_id (bc_boot c) = NULL \<or> daemon_instance_id_valid (bo_id (bc_boot c)))"

lemma parsed_band:
  assumes "daemon_parse_args env opts rest = Inr c"
  shows "\<exists>band dir. accepted_band c band dir"
proof (rule parse_accepts [OF assms])
  assume "boot_options_loop boot_unset opts = Inr (bc_boot c)"
  then have "boot_ok (bc_boot c)"
    by (rule parsed_boot_ok)
  moreover assume "daemon_band_resolve (if daemon_radio_433_enabled (bc_boot c) then RADIO_BAND_433 else RADIO_BAND_868)
      (be_socket_dir env) (bo_id (bc_boot c)) = (bc_band c, [])"
  ultimately show ?thesis
    by (auto simp: accepted_band_def boot_ok_def)
qed

lemma socket_name_no_slash:
  assumes "ident = NULL \<or> daemon_instance_id_valid ident"
  shows "CHR ''/'' \<notin> set (socket_name band ident kind)"
proof (cases ident)
  case None
  then show ?thesis
    by (cases kind) (auto simp: snprintf_text_def)
next
  case (Some cs)
  then have "CHR ''/'' \<notin> set cs"
    using assms by (auto simp: daemon_instance_id_valid_def in_range_def list_all_iff split: list.splits if_splits)
  then show ?thesis
    using assms Some by (cases kind) (simp_all add: socket_name_ident del: socket_name.simps)
qed

text \<open>A resolved path is a directory and the name of its kind.\<close>

definition path_of :: "string \<Rightarrow> radio_band \<Rightarrow> string ptr \<Rightarrow> socket_kind \<Rightarrow> string" where
  "path_of dir band ident kind = dir @ ''/'' @ socket_name band ident kind"

lemma same_last_part:
  assumes "d1 @ x # n1 = d2 @ x # n2" and "x \<notin> set n1" and "x \<notin> set n2"
  shows "n1 = n2"
proof -
  have "takeWhile (\<lambda>y. y \<noteq> x) (rev (d @ x # n)) = rev n" if "x \<notin> set n" for d n
    using that by (auto simp: takeWhile_tail)
  then show ?thesis
    using assms by (metis rev_rev_ident)
qed

lemma accepted_paths:
  assumes "accepted_band c band dir"
  shows "\<exists>d. own_paths c = map (path_of d band (bo_id (bc_boot c))) [Data_Socket, Framed_Socket, Conf_Socket]"
    and "bd_tag (bc_band c) = (if band = RADIO_BAND_868 then ''868'' else ''433'')"
proof -
  have keep: "band_socket_path d name err = (path, []) \<Longrightarrow> err = [] \<and> path = d @ ''/'' @ name" for d name err path
    using band_socket_path_whole by blast
  obtain bd where bd: "bc_band c = bd" "daemon_band_resolve band dir (bo_id (bc_boot c)) = (bd, [])"
    using assms by (simp add: accepted_band_def)
  have "band_paths bd = map (path_of (if dir = None \<or> dir = Some [] then LORAHAM_SOCKET_DIR_DEFAULT else the dir) band
      (bo_id (bc_boot c))) [Data_Socket, Framed_Socket, Conf_Socket]"
  proof (cases "(dir = None \<or> dir = Some []) \<and> bo_id (bc_boot c) = NULL")
    case True
    then show ?thesis
      using bd(2)
      by (cases band)
        (auto simp: daemon_band_resolve_def band_paths_def path_of_def band_433_def band_868_def snprintf_text_def)
  next
    case False
    then show ?thesis
      using bd(2)
      by (auto simp: daemon_band_resolve_def Let_def band_paths_def path_of_def
          simp del: socket_name.simps split: prod.splits dest!: keep split del: if_split)
  qed
  then show "\<exists>d. own_paths c = map (path_of d band (bo_id (bc_boot c))) [Data_Socket, Framed_Socket, Conf_Socket]"
    using bd(1) by (auto simp: own_paths_def)
  show "bd_tag (bc_band c) = (if band = RADIO_BAND_868 then ''868'' else ''433'')"
    unfolding bd(1) using bd(2)
    by (auto simp: daemon_band_resolve_def band_433_def band_868_def Let_def split: if_splits prod.splits)
qed

lemma path_of_eq:
  assumes "path_of d band ident kind = path_of d' band' ident' kind'"
    and "ident = NULL \<or> daemon_instance_id_valid ident" and "ident' = NULL \<or> daemon_instance_id_valid ident'"
  shows "kind = kind' \<and> ident = ident' \<and> (ident = NULL \<longrightarrow> band = band')"
proof (rule socket_names_distinct [OF assms(2,3)])
  show "socket_name band ident kind = socket_name band' ident' kind'"
    by (rule same_last_part [of d "CHR ''/''" _ d'])
      (use assms in \<open>simp_all add: path_of_def socket_name_no_slash\<close>)
qed

text \<open>A shared socket path means a shared instance lock, and the three paths of a process differ.\<close>

lemma shared_path_shared_lock:
  assumes "accepted_band c band dir" and "accepted_band c' band' dir'"
    and "x \<in> set (own_paths c)" and "x \<in> set (own_paths c')"
  shows "own_lock c = own_lock c'"
proof -
  obtain d d' where d: "own_paths c = map (path_of d band (bo_id (bc_boot c))) [Data_Socket, Framed_Socket, Conf_Socket]"
    and d': "own_paths c' = map (path_of d' band' (bo_id (bc_boot c'))) [Data_Socket, Framed_Socket, Conf_Socket]"
    using accepted_paths(1) [OF assms(1)] accepted_paths(1) [OF assms(2)] by blast
  obtain kind where kind: "x = path_of d band (bo_id (bc_boot c)) kind"
    using assms(3) d by auto
  moreover obtain kind' where "x = path_of d' band' (bo_id (bc_boot c')) kind'"
    using assms(4) d' by auto
  ultimately have "bo_id (bc_boot c) = bo_id (bc_boot c') \<and> (bo_id (bc_boot c) = NULL \<longrightarrow> band = band')"
    using path_of_eq assms(1,2) by (meson accepted_band_def)
  then show ?thesis
    using accepted_paths(2) [OF assms(1)] accepted_paths(2) [OF assms(2)]
    by (auto simp: own_lock_def instance_key_def split: option.splits)
qed

lemma accepted_conf_ok:
  assumes "accepted_band c band dir"
  shows "conf_ok c"
proof -
  obtain d where d: "own_paths c = map (path_of d band (bo_id (bc_boot c))) [Data_Socket, Framed_Socket, Conf_Socket]"
    using accepted_paths(1) [OF assms] ..
  have "path_of d band (bo_id (bc_boot c)) kind = path_of d band (bo_id (bc_boot c)) kind' \<Longrightarrow> kind = kind'" for kind kind'
    using path_of_eq assms by (meson accepted_band_def)
  then show ?thesis
    by (auto simp: conf_ok_def d)
qed

section \<open>The invariant of the pool\<close>

definition held_of :: "nat \<Rightarrow> pool \<Rightarrow> held" where
  "held_of p S =
     \<lparr>he_locks = {n. pl_lock S n = Some p}, he_open = pl_open S p, he_bound = pl_bound S p, he_led = pl_led S p,
      he_radio = pl_radio S p\<rparr>"

text \<open>What is in use is guarded by locks the process holds.\<close>

definition held_ok :: "boot_config \<Rightarrow> held \<Rightarrow> bool" where
  "held_ok c v \<longleftrightarrow>
     he_bound v \<subseteq> set (own_paths c) \<and>
     (he_open v \<noteq> {} \<or> he_bound v \<noteq> {} \<or> \<not> hands_off v \<longrightarrow> own_lock c \<in> he_locks v) \<and>
     (\<not> hands_off v \<longrightarrow> pin_locks c \<subseteq> he_locks v)"

lemma held_ok_step:
  "cmd_allowed c cmd v \<Longrightarrow> held_ok c v \<Longrightarrow> held_ok c (held_step cmd a v)"
  by (cases cmd) (auto simp: held_ok_def hands_off_def)

lemma held_ok_nothing: "held_ok c nothing_held"
  by (simp add: held_ok_def hands_off_def nothing_held_def)

definition started :: "boot_config \<Rightarrow> bool" where
  "started c \<longleftrightarrow> (\<exists>env opts rest. daemon_parse_args env opts rest = Inr c)"

lemma started_band: "started c \<Longrightarrow> \<exists>band dir. accepted_band c band dir"
  by (auto simp: started_def dest: parsed_band)

fun proc_ok :: "proc option \<Rightarrow> held \<Rightarrow> bool" where
  "proc_ok None v \<longleftrightarrow> v = nothing_held"
| "proc_ok (Some pr) v \<longleftrightarrow>
     (case pr_conf pr of
        None \<Rightarrow> v = nothing_held \<and> (\<exists>e. pr_prog pr = Exit e)
      | Some c \<Rightarrow> started c \<and> held_ok c v \<and> prog_safe (pr_prog pr) c v)"

definition files_ok :: "pool \<Rightarrow> bool" where
  "files_ok S \<longleftrightarrow> (\<forall>p. \<forall>x \<in> pl_bound S p. pl_file S x = Some (Sock p))"

definition pool_ok :: "pool \<Rightarrow> bool" where
  "pool_ok S \<longleftrightarrow> files_ok S \<and> (\<forall>p. proc_ok (pl_proc S p) (held_of p S))"

lemma held_of_effect:
  "answer_possible cmd a S \<Longrightarrow> held_of p (pool_effect p cmd a S) = held_step cmd a (held_of p S)"
  by (cases cmd) (auto simp: held_of_def split: answer.splits)

lemma held_of_other:
  "answer_possible cmd a S \<Longrightarrow> q \<noteq> p \<Longrightarrow> held_of q (pool_effect p cmd a S) = held_of q S"
  by (cases cmd) (auto simp: held_of_def split: answer.splits)

lemma held_of_simps [simp]:
  "held_of p (S\<lparr>pl_proc := f\<rparr>) = held_of p S"
  "held_of p (S\<lparr>pl_file := g\<rparr>) = held_of p S"
  by (simp_all add: held_of_def)

lemma pool_effect_proc [simp]: "pl_proc (pool_effect p cmd a S) = pl_proc S"
  by (cases cmd) auto

lemma new_proc_ok:
  "proc_ok (Some (new_proc env opts rest)) nothing_held"
proof (cases "daemon_parse_args env opts rest")
  case (Inr c)
  then obtain band dir where "accepted_band c band dir"
    using parsed_band by blast
  then show ?thesis
    using Inr safe_io_init [OF accepted_conf_ok] held_ok_nothing
    by (auto simp: new_proc_def daemon_process_def started_def)
qed (simp add: new_proc_def daemon_process_def)

section \<open>Resources behind a lock\<close>

text \<open>What can only be used under a lock that all its users share has one user at a time.\<close>

locale guarded_resource =
  fixes user :: "pool \<Rightarrow> nat \<Rightarrow> string \<Rightarrow> 'r \<Rightarrow> bool"
  assumes user_holds: "user S p n r \<Longrightarrow> pl_lock S n = Some p"
    and same_guard: "user S p n r \<Longrightarrow> user S q m r \<Longrightarrow> n = m"
begin

lemma one_user: "user S p n r \<Longrightarrow> user S q m r \<Longrightarrow> p = q"
  by (metis user_holds same_guard option.inject)

end

text \<open>A socket path is used under the instance lock, a pin under the lock of its number.\<close>

definition path_user :: "pool \<Rightarrow> nat \<Rightarrow> string \<Rightarrow> string \<Rightarrow> bool" where
  "path_user S p n x \<longleftrightarrow>
     (\<exists>pr c band dir. pl_proc S p = Some pr \<and> pr_conf pr = Some c \<and> accepted_band c band dir \<and> n = own_lock c \<and>
        x \<in> set (own_paths c) \<and> pl_lock S n = Some p)"

definition pin_user :: "pool \<Rightarrow> nat \<Rightarrow> string \<Rightarrow> int \<Rightarrow> bool" where
  "pin_user S p n pin \<longleftrightarrow> n = gpio_lock_name pin \<and> pl_lock S n = Some p"

interpretation socket_path: guarded_resource path_user
  by unfold_locales (auto simp: path_user_def dest: shared_path_shared_lock)

interpretation gpio_pin: guarded_resource pin_user
  by unfold_locales (auto simp: pin_user_def)

lemma bound_path_user:
  assumes "pool_ok S" and "x \<in> pl_bound S p"
  shows "\<exists>n. path_user S p n x"
proof -
  have used: "held_of p S \<noteq> nothing_held"
    using assms(2) by (auto simp: held_of_def nothing_held_def)
  have pok: "proc_ok (pl_proc S p) (held_of p S)"
    using assms(1) by (simp add: pool_ok_def)
  obtain pr where pr: "pl_proc S p = Some pr"
    using pok used by (cases "pl_proc S p") auto
  obtain c where c: "pr_conf pr = Some c"
    using pok used pr by (cases "pr_conf pr") auto
  then have "held_ok c (held_of p S)" and band: "\<exists>band dir. accepted_band c band dir"
    using pok pr started_band by auto
  then have "x \<in> set (own_paths c) \<and> pl_lock S (own_lock c) = Some p"
    using assms(2) by (auto simp: held_ok_def held_of_def)
  then show ?thesis
    using pr c band by (auto simp: path_user_def)
qed

lemma files_ok_act:
  assumes ok: "pool_ok S" and pr: "pl_proc S p = Some pr" "pr_conf pr = Some c" "pr_prog pr = Do cmd k"
    and possible: "answer_possible cmd a S"
  shows "files_ok (pool_effect p cmd a S)"
proof -
  have files: "files_ok S" and allowed: "cmd_allowed c cmd (held_of p S)"
    and band: "\<exists>band dir. accepted_band c band dir"
    using ok pr started_band by (auto simp: pool_ok_def dest!: spec [of _ p])
  have untouched: "x \<notin> pl_bound S q"
    if own: "x \<in> set (own_paths c)" "own_lock c \<in> he_locks (held_of p S)" "x \<notin> pl_bound S p" for x q
  proof
    assume used: "x \<in> pl_bound S q"
    obtain n where "path_user S q n x"
      using bound_path_user [OF ok used] ..
    moreover have "path_user S p (own_lock c) x"
      using own(1,2) pr(1,2) band by (auto simp: path_user_def held_of_def)
    ultimately have "p = q"
      by (metis socket_path.one_user)
    then show False
      using own(3) used by simp
  qed
  show ?thesis
    using files allowed possible untouched
    by (cases cmd) (auto simp: files_ok_def held_of_def)
qed

lemma pool_ok_step:
  assumes ok: "pool_ok S" and step: "pool_step e S = Some S1"
  shows "pool_ok S1"
proof (cases e)
  case (Spawn p env opts rest)
  have "held_of p S = nothing_held" if "pl_proc S p = None"
    using ok that by (auto simp: pool_ok_def dest!: spec [of _ p])
  then show ?thesis
    using ok step Spawn new_proc_ok by (auto simp: pool_ok_def files_ok_def split: if_splits)
next
  case (Act p a)
  then obtain pr cmd k where pr: "pl_proc S p = Some pr" "pr_prog pr = Do cmd k" and possible: "answer_possible cmd a S"
    and S1: "S1 = (pool_effect p cmd a S)\<lparr>pl_proc := (pl_proc S)(p \<mapsto> pr\<lparr>pr_prog := k a\<rparr>)\<rparr>"
    using step by (auto split: option.splits prog.splits if_splits)
  have pok: "proc_ok (Some pr) (held_of p S)"
    using ok pr(1) by (metis pool_ok_def)
  then obtain c where c: "pr_conf pr = Some c"
    using pr(2) by (auto split: option.splits)
  have "files_ok S1"
    using files_ok_act [OF ok pr(1) c pr(2) possible] S1 by (simp add: files_ok_def)
  moreover have "proc_ok (Some (pr\<lparr>pr_prog := k a\<rparr>)) (held_of p S1)"
    using pok pr c held_ok_step possible by (simp add: S1 held_of_effect)
  moreover have "proc_ok (pl_proc S1 q) (held_of q S1)" if "q \<noteq> p" for q
    using ok that possible by (simp add: S1 pool_ok_def held_of_other)
  ultimately show ?thesis
    unfolding pool_ok_def by (metis S1 fun_upd_same pool.select_convs(7) pool.surjective pool.update_convs(7))
next
  case (End p)
  have "held_of p (pool_reap p S) = nothing_held"
    by (auto simp: held_of_def pool_reap_def nothing_held_def)
  moreover have "held_of q (pool_reap p S) = held_of q S" if "q \<noteq> p" for q
    using that by (auto simp: held_of_def pool_reap_def)
  ultimately show ?thesis
    using ok step End by (auto simp: pool_ok_def files_ok_def pool_reap_def split: if_splits)
next
  case (Appear x)
  then show ?thesis
    using ok step by (auto simp: pool_ok_def files_ok_def split: if_splits)
next
  case (Vanish x)
  then show ?thesis
    using ok step by (auto simp: pool_ok_def files_ok_def split: if_splits)
qed

lemma pool_run_ok: "pool_run es S = Some S1 \<Longrightarrow> pool_ok S \<Longrightarrow> pool_ok S1"
  by (induction es S rule: pool_run.induct) (auto split: option.splits intro: pool_ok_step)

lemma pool_start_ok: "pool_ok (pool_start files)"
  by (auto simp: pool_ok_def files_ok_def pool_start_def held_of_def nothing_held_def)

section \<open>The pins a process drives\<close>

definition drives :: "pool \<Rightarrow> nat \<Rightarrow> int \<Rightarrow> bool" where
  "drives S p pin \<longleftrightarrow>
     (pl_led S p \<or> pl_radio S p) \<and>
     (\<exists>pr c. pl_proc S p = Some pr \<and> pr_conf pr = Some c \<and> pin \<in> driven_pins (bc_profile c))"

lemma driven_pins_locked:
  assumes "daemon_parse_args env opts rest = Inr c" and "pin \<in> driven_pins (bc_profile c)"
  shows "gpio_lock_name pin \<in> pin_locks c"
  using driven_pins_claimed [OF assms(1)] assms(2) by (auto simp: pin_locks_def driven_pins_def)

section \<open>Properties\<close>

text \<open>
  C5: Whatever processes are started on a machine, however their programs interleave, fail and crash, and
  whatever stale or foreign files are around: the file at a path where a running daemon's socket is bound
  is that daemon's socket, and it is the only process bound there. So no start, cleanup or shutdown of another instance
  removes or replaces a live socket.
\<close>

theorem socket_files_never_stolen:
  assumes "pool_run es (pool_start files) = Some S" and "x \<in> pl_bound S p"
  shows "pl_file S x = Some (Sock p) \<and> {q. x \<in> pl_bound S q} = {p}"
proof -
  have ok: "pool_ok S"
    using pool_run_ok [OF assms(1) pool_start_ok] .
  then have files: "pl_file S x = Some (Sock q)" if "x \<in> pl_bound S q" for q
    using that by (simp add: pool_ok_def files_ok_def)
  have "q = p" if "x \<in> pl_bound S q" for q
    using files [OF that] files [OF assms(2)] by simp
  then have "{q. x \<in> pl_bound S q} = {p}"
    using assms(2) by blast
  then show ?thesis
    using files [OF assms(2)] by simp
qed

text \<open>
  C6: No two running daemons ever drive the same line of the board (LED, chip select, interrupt, reset, auxiliary
  or RF switch), whatever profiles and bands they are started with and however they interleave, fail and crash.
\<close>

theorem pins_never_shared:
  assumes "pool_run es (pool_start files) = Some S" and "drives S p pin" and "drives S q pin"
  shows "p = q"
proof (rule gpio_pin.one_user)
  have user: "pin_user S p (gpio_lock_name pin) pin" if "drives S p pin" for p
  proof -
    obtain pr c where pr: "pl_proc S p = Some pr" "pr_conf pr = Some c" and pin: "pin \<in> driven_pins (bc_profile c)"
      and drives: "pl_led S p \<or> pl_radio S p"
      using \<open>drives S p pin\<close> by (auto simp: drives_def)
    have "started c" and "held_ok c (held_of p S)"
      using pool_run_ok [OF assms(1) pool_start_ok] pr by (auto simp: pool_ok_def dest!: spec [of _ p])
    then have "gpio_lock_name pin \<in> pin_locks c" and "pin_locks c \<subseteq> {n. pl_lock S n = Some p}"
      using pin drives driven_pins_locked by (auto simp: started_def held_ok_def hands_off_def held_of_def)
    then show ?thesis
      by (auto simp: pin_user_def)
  qed
  show "pin_user S p (gpio_lock_name pin) pin" "pin_user S q (gpio_lock_name pin) pin"
    using user assms(2,3) by blast+
qed

text \<open>
  C16: A daemon that ends itself, on any path (a refused command line, a busy instance, a failed lock, socket, LED or
  radio, a stop request), holds nothing any more: no lock, no open or bound socket, no LED, no radio. The only exception is
  exit code 5, a fatal failure of the radio's bus, where the kernel has to clean up.
\<close>

theorem processes_end_clean:
  assumes "pool_run es (pool_start files) = Some S" and "pl_proc S p = Some pr" and "pr_prog pr = Exit e"
    and "e \<noteq> LORAHAM_EXIT_RUNTIME_RADIO_IO_ERROR"
  shows "(\<forall>n. pl_lock S n \<noteq> Some p) \<and> pl_open S p = {} \<and> pl_bound S p = {} \<and> \<not> pl_led S p \<and> \<not> pl_radio S p"
proof -
  have "proc_ok (Some pr) (held_of p S)"
    using pool_run_ok [OF assms(1) pool_start_ok] assms(2) by (metis pool_ok_def)
  then have "held_of p S = nothing_held"
    using assms(3,4) by (auto split: option.splits)
  then show ?thesis
    by (simp add: held_of_def nothing_held_def)
qed

section \<open>A run: a daemon on 433 MHz starts, and a second one finds it busy\<close>

text \<open>Rewriting a program only at its head.\<close>

lemma do_weak: "cmd = cmd' \<Longrightarrow> Do cmd k = Do cmd' k" by simp
lemma setup_weak: "x = x' \<Longrightarrow> setup_unix_socket x k = setup_unix_socket x' k" by simp
lemma prepare_weak: "x = x' \<Longrightarrow> unix_socket_prepare_path x k = unix_socket_prepare_path x' k" by simp
lemma open_weak: "x = x' \<Longrightarrow> radio_channel_open_sockets x k = radio_channel_open_sockets x' k" by simp
lemma claim_weak: "x = x' \<Longrightarrow> daemon_gpio_locks_claim_then x k = daemon_gpio_locks_claim_then x' k" by simp
lemma acquire_weak: "x = x' \<Longrightarrow> y = y' \<Longrightarrow> daemon_gpio_locks_acquire x y k = daemon_gpio_locks_acquire x' y' k" by simp
lemma lock_loop_weak: "x = x' \<Longrightarrow> y = y' \<Longrightarrow> gpio_lock_loop x y k = gpio_lock_loop x' y' k" by simp
lemma instance_claim_weak: "x = x' \<Longrightarrow> instance_lock_claim x k = instance_lock_claim x' k" by simp
lemma instance_weak: "x = x' \<Longrightarrow> daemon_instance_lock_acquire x k = daemon_instance_lock_acquire x' k" by simp

lemma pool_prog: "daemon_process pool_env pool_opts [] = daemon_io_init pool_conf"
  by (simp add: daemon_process_def pool_parsed) (simp add: pool_conf_def boot_unset_def)

lemma pool_pins: "process_pins (bc_profile pool_conf) = [8, 25, 5, 24, 13, 13]"
  by (simp add: pool_conf_def process_pins_def profile_loraham_def hw_zero_def profile_claimed_finish_def c_consts)
lemma pool_conf_simps: "bc_band pool_conf = band_433" "hw_usb_ch341 (bc_profile pool_conf) = False" 
  "instance_key pool_conf = ''433''"
  by (simp_all add: pool_conf_def profile_loraham_def hw_zero_def profile_claimed_finish_def instance_key_def boot_unset_def band_433_def Let_def)


definition pool_events :: "pool_event list" where
  "pool_events =
     Spawn 1 pool_env pool_opts [] # map (Act 1) (replicate 10 Yes @ concat (replicate 3 [No, Yes, Yes, Yes, Yes, Yes]) @ [Yes])
       @ [Spawn 2 pool_env pool_opts [], Act 2 Yes, Act 2 No]"

lemma pool_answers:
  "replicate 10 Yes @ concat (replicate 3 [No, Yes, Yes, Yes, Yes, Yes]) @ [Yes] =
     [Yes, Yes, Yes, Yes, Yes, Yes, Yes, Yes, Yes, Yes, No, Yes, Yes, Yes, Yes, Yes, No, Yes, Yes, Yes, Yes, Yes,
      No, Yes, Yes, Yes, Yes, Yes, Yes]"
  by (simp add: eval_nat_numeral)

lemma pool_lock_names:
  "gpio_lock_name 5 = ''gpio5.lock''" "gpio_lock_name 8 = ''gpio8.lock''" "gpio_lock_name 13 = ''gpio13.lock''"
  "gpio_lock_name 24 = ''gpio24.lock''" "gpio_lock_name 25 = ''gpio25.lock''" "instance_lock_name ''433'' = ''instance-433.lock''"
  by (simp_all add: gpio_lock_name_def instance_lock_name_def snprintf_text_def int_dec_def nat_dec.simps dec_digit_def char_of_def bit_Suc_0_iff)

lemma pool_sample_run:
  "\<exists>S. pool_run pool_events (pool_start (\<lambda>_. None)) = Some S \<and> ''/run/loraham/lora433.sock'' \<in> pl_bound S 1 \<and>
     pl_led S 1 \<and> pl_proc S 2 = Some \<lparr>pr_conf = Some pool_conf, pr_prog = Exit 3\<rparr> \<and> 
     (\<exists>pr. pl_proc S 1 = Some pr \<and> pr_conf pr = Some pool_conf)"
  by (simp add: pool_events_def pool_answers pool_lock_names pool_conf_simps pool_pins daemon_io_init_def daemon_instance_lock_acquire_def
   instance_lock_claim_def daemon_gpio_locks_claim_then_def daemon_gpio_locks_acquire_def Let_def DAEMON_GPIO_LOCK_MAX_def
   io_init_sockets_def radio_channel_open_sockets_def setup_unix_socket_def unix_socket_prepare_path_def radio_and_loop_def
   band_433_def LORAHAM_SOCKET_DIR_DEFAULT_def SUN_PATH_SIZE_def new_proc_def pool_parsed pool_prog pool_start_def
   LORAHAM_EXIT_INSTANCE_BUSY_def
   cong: do_weak setup_weak prepare_weak open_weak claim_weak acquire_weak lock_loop_weak instance_claim_weak instance_weak)

theorem socket_files_never_stolen_witness:
  "\<exists>S. pool_run pool_events (pool_start (\<lambda>_. None)) = Some S \<and>
     pl_file S ''/run/loraham/lora433.sock'' = Some (Sock 1) \<and>
     {q. ''/run/loraham/lora433.sock'' \<in> pl_bound S q} = {1}"
  using pool_sample_run socket_files_never_stolen by blast

theorem pins_never_shared_witness:
  "\<exists>S. pool_run pool_events (pool_start (\<lambda>_. None)) = Some S \<and> drives S 1 25 \<and> {p. drives S p 25} = {1}"
proof -
  obtain S pr where S: "pool_run pool_events (pool_start (\<lambda>_. None)) = Some S" "pl_led S 1" "pl_proc S 1 = Some pr"
    "pr_conf pr = Some pool_conf"
    using pool_sample_run by blast
  then have "drives S 1 25"
    by (simp add: drives_def driven_pins_def daemon_radio_module_pins_def pool_conf_def profile_loraham_def hw_zero_def
        profile_claimed_finish_def)
  then show ?thesis
    using S(1) pins_never_shared [OF S(1)] by blast
qed

theorem processes_end_clean_witness:
  "\<exists>S. pool_run pool_events (pool_start (\<lambda>_. None)) = Some S \<and>
     pl_proc S 2 = Some \<lparr>pr_conf = Some pool_conf, pr_prog = Exit 3\<rparr> \<and> pl_open S 2 = {} \<and> pl_bound S 2 = {}"
proof -
  obtain S where S: "pool_run pool_events (pool_start (\<lambda>_. None)) = Some S"
    and ended: "pl_proc S 2 = Some \<lparr>pr_conf = Some pool_conf, pr_prog = Exit 3\<rparr>"
    using pool_sample_run by blast
  then show ?thesis
    using processes_end_clean [OF S ended, of 3] by (auto simp: LORAHAM_EXIT_RUNTIME_RADIO_IO_ERROR_def)
qed

end
