(* ===== verification/Ch341_Select.thy ===== *)
theory Ch341_Select
  imports C_Text
begin

text \<open>
  Which Meshstick the daemon opens, \<open>daemon_ch341_select.cpp\<close>: scan the sticks one by one, decide,
  open one or walk over several (Rule B), check what was opened and bind it. One call of
  \<open>daemon_ch341_select_step\<close> does one bounded step.

  The operations \<open>DaemonCh341SelectOps\<close> reach libusb, the adapter library and the clock. They are
  functions of the history of all calls so far (newest first), so a stick may come, go or answer
  differently at any call and time may pass between any two readings of the clock. The monitor is
  there: the daemon uses the selection only with it, so no operation is NULL. A device handle is a
  number. The texts written for the caller are modelled, the log lines with their one-per-minute
  throttle are not. Times are monotonic milliseconds, far below \<open>2 ^ 64\<close>.
\<close>

section \<open>State\<close>

record scan_item =
  it_openable :: int
  it_serial_state :: int
  it_serial :: string
  it_port :: string
  it_connection :: nat

definition scan_item_zero :: scan_item where
  "scan_item_zero = \<lparr>it_openable = 0, it_serial_state = 0, it_serial = [], it_port = [], it_connection = 0\<rparr>"

type_synonym stick = nat

datatype sel_call = Sel_Scan_Begin | Sel_Scan_Step nat | Sel_Scan_End | Sel_Open "string ptr" "stick ptr"
  | Sel_Close stick | Sel_Identity stick | Sel_Seed_Idle | Sel_Bind stick | Sel_Unbind | Sel_Bound_Left
  | Sel_Now | Sel_Take_Events

text \<open>
  \<open>so_identity\<close> is \<open>None\<close> and \<open>so_bind\<close> is \<open>False\<close> where the code's function returns nonzero.
  \<open>so_events\<close> gives the arrivals and the departures that \<open>take_events\<close> finds.
\<close>

record sel_ops =
  so_scan_begin :: "sel_call list \<Rightarrow> int"
  so_scan_step :: "sel_call list \<Rightarrow> nat \<Rightarrow> scan_item"
  so_open :: "sel_call list \<Rightarrow> string ptr \<Rightarrow> stick ptr"
  so_identity :: "sel_call list \<Rightarrow> stick \<Rightarrow> scan_item option"
  so_bind :: "sel_call list \<Rightarrow> stick \<Rightarrow> bool"
  so_bound_left :: "sel_call list \<Rightarrow> bool"
  so_now :: "sel_call list \<Rightarrow> nat"
  so_events :: "sel_call list \<Rightarrow> nat \<times> nat"

datatype sel_phase = PH_IDLE | PH_SCAN | PH_OPEN | PH_WALK | PH_DONE
datatype sel_mode = MODE_ANY | MODE_SERIAL | MODE_PORT
datatype sel_result = CH341_SEL_PENDING | CH341_SEL_OPENED | CH341_SEL_WAIT | CH341_SEL_REFUSED

record access_deadline =
  ad_at :: nat
  ad_seen :: bool

record sel =
  sl_selector :: string
  sl_mode :: sel_mode
  sl_serial :: string
  sl_port :: string
  sl_bound :: string
  sl_at_start :: bool
  sl_phase :: sel_phase
  sl_count :: int
  sl_index :: nat
  sl_items :: "scan_item list"
  sl_access :: "(string \<times> access_deadline) list"
  sl_access_hold :: bool
  sl_retry_at :: nat
  sl_walk_end_ms :: nat
  sl_burst_first :: nat
  sl_burst_last :: nat
  sl_cap_first :: nat
  sl_changes :: "32 word"
  sl_scan_changes :: "32 word"
  sl_final_pending :: bool
  sl_snapshot_final :: bool
  sl_attempts :: nat
  sl_snap :: nat
  sl_held :: "stick list"
  sl_ruleb :: bool
  sl_walk_port :: string
  sl_sole :: string
  sl_calls :: "sel_call list"

definition DAEMON_CH341_ACCESS_MS :: nat where [c_consts]: "DAEMON_CH341_ACCESS_MS = 2000"
definition DAEMON_CH341_BUSY_RETRY_MS :: nat where [c_consts]: "DAEMON_CH341_BUSY_RETRY_MS = 200"
definition DAEMON_CH341_WALK_GAP_MS :: nat where [c_consts]: "DAEMON_CH341_WALK_GAP_MS = 1000"
definition DAEMON_CH341_SETTLE_QUIET_MS :: nat where [c_consts]: "DAEMON_CH341_SETTLE_QUIET_MS = 500"
definition DAEMON_CH341_SETTLE_CAP_MS :: nat where [c_consts]: "DAEMON_CH341_SETTLE_CAP_MS = 2000"

text \<open>The values of the static variables at the start of the process.\<close>

definition sel_initial :: sel where
  "sel_initial =
     \<lparr>sl_selector = [], sl_mode = MODE_ANY, sl_serial = [], sl_port = [], sl_bound = ''-'',
      sl_at_start = False, sl_phase = PH_IDLE, sl_count = 0, sl_index = 0, sl_items = [], sl_access = [],
      sl_access_hold = False, sl_retry_at = 0, sl_walk_end_ms = 0, sl_burst_first = 0, sl_burst_last = 0,
      sl_cap_first = 0, sl_changes = 0, sl_scan_changes = 0, sl_final_pending = False,
      sl_snapshot_final = False, sl_attempts = 0, sl_snap = 0, sl_held = [], sl_ruleb = False,
      sl_walk_port = [], sl_sole = [], sl_calls = []\<rparr>"

definition daemon_ch341_select_reset :: "sel \<Rightarrow> sel" where
  "daemon_ch341_select_reset s =
     s\<lparr>sl_selector := [], sl_serial := [], sl_port := [], sl_sole := [], sl_bound := ''-'',
       sl_mode := MODE_ANY, sl_phase := PH_IDLE, sl_retry_at := 0, sl_walk_end_ms := 0, sl_access := [],
       sl_changes := 0, sl_scan_changes := 0, sl_final_pending := False, sl_snapshot_final := False,
       sl_burst_first := 0, sl_burst_last := 0, sl_cap_first := 0, sl_access_hold := False,
       sl_items := [], sl_held := []\<rparr>"

definition daemon_ch341_select_init :: "string ptr \<Rightarrow> sel \<Rightarrow> sel" where
  "daemon_ch341_select_init usb_serial s =
     (let sel = snprintf_text 9 (case usb_serial of None \<Rightarrow> [] | Some u \<Rightarrow> u);
          s1 = s\<lparr>sl_selector := sel\<rparr>
      in if sel \<noteq> [] then s1\<lparr>sl_mode := MODE_SERIAL, sl_serial := sel\<rparr> else s1)"

definition daemon_ch341_select_wait_port :: "sel \<Rightarrow> string" where
  "daemon_ch341_select_wait_port s = (if sl_mode s = MODE_PORT \<and> sl_port s \<noteq> [] then sl_port s else ''-'')"

definition daemon_ch341_select_retry_at :: "sel \<Rightarrow> nat" where
  "daemon_ch341_select_retry_at s = sl_retry_at s"

definition daemon_ch341_select_bound :: "sel \<Rightarrow> string" where
  "daemon_ch341_select_bound s = sl_bound s"

definition hex_digit :: "nat \<Rightarrow> char" where
  "hex_digit d = (if d < 10 then char_of (48 + d) else char_of (55 + d))"

fun bound_chars :: "nat \<Rightarrow> string \<Rightarrow> string \<Rightarrow> string" where
  "bound_chars n out [] = out"
| "bound_chars n out (c # cs) =
     (if \<not> length out + 4 < n then out
      else let p = of_char c :: nat in
        bound_chars n
          (if 0x21 \<le> p \<and> p \<le> 0x7e \<and> c \<noteq> CHR ''%'' then out @ [c]
           else out @ [CHR ''%'', hex_digit (p div 16), hex_digit (p mod 16)]) cs)"

definition daemon_ch341_bound_text :: "scan_item \<Rightarrow> nat \<Rightarrow> string" where
  "daemon_ch341_bound_text it n =
     (if it_serial_state it = -1 then snprintf_text n ''-''
      else bound_chars n (snprintf_text n ((if it_serial_state it = 1 then ''serial'' else ''port'') @ '':''))
        (if it_serial_state it = 1 then take 8 (it_serial it) else it_port it))"

definition daemon_ch341_select_begin :: "bool \<Rightarrow> sel \<Rightarrow> sel" where
  "daemon_ch341_select_begin at_start s = s\<lparr>sl_at_start := at_start, sl_phase := PH_IDLE, sl_retry_at := 0\<rparr>"

section \<open>The operations\<close>

definition sel_log :: "sel_call \<Rightarrow> sel \<Rightarrow> sel" where
  "sel_log c s = s\<lparr>sl_calls := c # sl_calls s\<rparr>"

definition sel_now :: "sel_ops \<Rightarrow> sel \<Rightarrow> nat \<times> sel" where
  "sel_now ops s = (so_now ops (sl_calls s), sel_log Sel_Now s)"

definition sel_open :: "sel_ops \<Rightarrow> string ptr \<Rightarrow> sel \<Rightarrow> stick ptr \<times> sel" where
  "sel_open ops serial s =
     (let dev = so_open ops (sl_calls s) serial in (dev, sel_log (Sel_Open serial dev) s))"

definition release_held :: "sel \<Rightarrow> sel" where
  "release_held s = (foldl (\<lambda>s dev. sel_log (Sel_Close dev) s) s (sl_held s))\<lparr>sl_held := []\<rparr>"

definition daemon_ch341_select_cancel :: "sel \<Rightarrow> sel" where
  "daemon_ch341_select_cancel s =
     (let s1 = release_held s;
          s2 = (if sl_phase s1 \<in> {PH_SCAN, PH_OPEN, PH_WALK} then sel_log Sel_Scan_End s1 else s1)
      in s2\<lparr>sl_phase := PH_IDLE, sl_access := []\<rparr>)"

definition daemon_ch341_select_note_arrival :: "sel_ops \<Rightarrow> sel \<Rightarrow> sel" where
  "daemon_ch341_select_note_arrival ops s =
     (let (now, s1) = sel_now ops s
      in s1\<lparr>sl_burst_first := (if sl_burst_first s1 = 0 then now else sl_burst_first s1),
            sl_cap_first := (if sl_cap_first s1 = 0 then now else sl_cap_first s1),
            sl_burst_last := now, sl_changes := sl_changes s1 + 1\<rparr>)"

definition daemon_ch341_select_note_left :: "sel_ops \<Rightarrow> sel \<Rightarrow> sel" where
  "daemon_ch341_select_note_left ops s =
     (let s1 = (if sl_cap_first s = 0 then (let (now, s0) = sel_now ops s in s0\<lparr>sl_cap_first := now\<rparr>) else s)
      in s1\<lparr>sl_changes := sl_changes s1 + 1\<rparr>)"

definition sel_take_events :: "sel_ops \<Rightarrow> sel \<Rightarrow> sel" where
  "sel_take_events ops s =
     (let (arrivals, lefts) = so_events ops (sl_calls s);
          s1 = (daemon_ch341_select_note_arrival ops ^^ arrivals) (sel_log Sel_Take_Events s)
      in (daemon_ch341_select_note_left ops ^^ lefts) s1)"

section \<open>Answers\<close>

type_synonym sel_answer = "sel_result \<times> string ptr \<times> sel"

definition serial_eq :: "string \<Rightarrow> string \<Rightarrow> bool" where
  "serial_eq a b \<longleftrightarrow> take 8 a = take 8 b"

definition finish_wait :: "nat \<Rightarrow> sel \<Rightarrow> sel_answer" where
  "finish_wait retry_at s =
     (CH341_SEL_WAIT, NULL, (sel_log Sel_Scan_End s)\<lparr>sl_phase := PH_IDLE, sl_retry_at := retry_at\<rparr>)"

definition finish_wait_now :: "sel_ops \<Rightarrow> sel \<Rightarrow> sel_answer" where
  "finish_wait_now ops s = (let (now, s1) = sel_now ops s in finish_wait now s1)"

definition snapshot_stale :: "nat \<Rightarrow> sel \<Rightarrow> bool \<times> sel" where
  "snapshot_stale now s =
     (if sl_changes s = sl_scan_changes s \<or> sl_snapshot_final s then (False, s)
      else (True, s\<lparr>sl_final_pending := sl_final_pending s \<or>
               (sl_cap_first s \<noteq> 0 \<and> sl_cap_first s + DAEMON_CH341_SETTLE_CAP_MS \<le> now),
             sl_access_hold := True\<rparr>))"

definition stale_now :: "sel_ops \<Rightarrow> sel \<Rightarrow> bool \<times> sel" where
  "stale_now ops s = (let (now, s1) = sel_now ops s in snapshot_stale now s1)"

definition window_stale :: "sel_ops \<Rightarrow> sel \<Rightarrow> bool \<times> sel" where
  "window_stale ops s = stale_now ops (sel_take_events ops s)"

definition burst_answered :: "sel \<Rightarrow> sel" where
  "burst_answered s = s\<lparr>sl_burst_first := 0, sl_burst_last := 0, sl_cap_first := 0\<rparr>"

definition refused :: "nat \<Rightarrow> string \<Rightarrow> sel \<Rightarrow> sel_answer" where
  "refused n text s =
     (CH341_SEL_REFUSED, Some (snprintf_text n text), (sel_log Sel_Scan_End s)\<lparr>sl_phase := PH_IDLE\<rparr>)"

definition with_why :: "nat \<Rightarrow> string \<Rightarrow> sel_answer \<Rightarrow> sel_answer" where
  "with_why n text a = (fst a, Some (snprintf_text n text), snd (snd a))"

definition refuse :: "sel_ops \<Rightarrow> nat \<Rightarrow> string \<Rightarrow> sel \<Rightarrow> sel_answer" where
  "refuse ops n text s =
     (let (now, s1) = sel_now ops s; (stale, s2) = snapshot_stale now s1 in
      if stale then finish_wait now s2
      else let arrived = (sl_changes s2 \<noteq> sl_scan_changes s2); s3 = burst_answered s2 in
        if sl_at_start s3 then refused n text s3
        else with_why n text (finish_wait (if arrived then now + DAEMON_CH341_SETTLE_QUIET_MS else 0) s3))"

definition transient :: "sel_ops \<Rightarrow> nat \<Rightarrow> string \<Rightarrow> sel \<Rightarrow> sel_answer" where
  "transient ops n text s =
     (if sl_at_start s then refuse ops n text s
      else let (now, s1) = sel_now ops s
        in with_why n text (finish_wait (now + DAEMON_CH341_BUSY_RETRY_MS) s1))"

definition busy_text :: "string \<Rightarrow> string" where
  "busy_text who = snprintf_text 200 (''stick '' @ who @ '' present but pine64 could not select or open it '' @
     ''(another process, a bound kernel driver, or an unreadable serial)'')"

definition busy :: "sel_ops \<Rightarrow> nat \<Rightarrow> string \<Rightarrow> nat \<Rightarrow> sel \<Rightarrow> sel_answer" where
  "busy ops n who retry_ms s =
     (let (now, s1) = sel_now ops s in
      if sl_at_start s1 then refused n (''BUSY: '' @ busy_text who) s1
      else finish_wait (now + retry_ms) s1)"

section \<open>Deadlines of sticks that cannot be told apart yet\<close>

text \<open>\<open>std::map\<close> keeps its entries in the order of the keys, compared by unsigned bytes.\<close>

fun string_less :: "string \<Rightarrow> string \<Rightarrow> bool" where
  "string_less [] ys \<longleftrightarrow> ys \<noteq> []"
| "string_less (x # xs) [] \<longleftrightarrow> False"
| "string_less (x # xs) (y # ys) \<longleftrightarrow>
     (of_char x :: nat) < of_char y \<or> x = y \<and> string_less xs ys"

fun access_put :: "string \<Rightarrow> access_deadline \<Rightarrow> (string \<times> access_deadline) list \<Rightarrow> (string \<times> access_deadline) list" where
  "access_put key d [] = [(key, d)]"
| "access_put key d (e # es) =
     (if key = fst e then (key, d) # es
      else if string_less key (fst e) then (key, d) # e # es
      else e # access_put key d es)"

definition access_erase :: "string \<Rightarrow> (string \<times> access_deadline) list \<Rightarrow> (string \<times> access_deadline) list" where
  "access_erase key es = filter (\<lambda>e. fst e \<noteq> key) es"

definition access_first_deadline :: "bool \<Rightarrow> (string \<times> access_deadline) list \<Rightarrow> nat" where
  "access_first_deadline seen_only es =
     foldl (\<lambda>first e. if (\<not> seen_only \<or> ad_seen (snd e)) \<and> (first = 0 \<or> ad_at (snd e) < first)
                      then ad_at (snd e) else first) 0 es"

definition access_key :: "scan_item \<Rightarrow> string" where
  "access_key it = it_port it @ ''@'' @ nat_dec (it_connection it)"

definition access_first_port :: "bool \<Rightarrow> (string \<times> access_deadline) list \<Rightarrow> string ptr" where
  "access_first_port seen_only es =
     (let first = access_first_deadline seen_only es in
      case filter (\<lambda>e. first \<noteq> 0 \<and> ad_at (snd e) = first \<and> (\<not> seen_only \<or> ad_seen (snd e))) es of
        [] \<Rightarrow> NULL
      | e # _ \<Rightarrow> Some (snprintf_text 32 (takeWhile (\<lambda>c. c \<noteq> CHR ''@'') (fst e))))"

definition who_text :: "sel \<Rightarrow> string" where
  "who_text s =
     (if sl_mode s = MODE_SERIAL then sl_serial s
      else if sl_mode s = MODE_PORT then sl_port s
      else if sl_sole s \<noteq> [] then sl_sole s
      else case access_first_port False (sl_access s) of None \<Rightarrow> ''1A86:5512'' | Some p \<Rightarrow> p)"

definition who_scan_expiry :: "sel \<Rightarrow> string" where
  "who_scan_expiry s =
     (if sl_mode s \<noteq> MODE_ANY then who_text s
      else case access_first_port True (sl_access s) of None \<Rightarrow> ''1A86:5512'' | Some p \<Rightarrow> p)"

definition access_expired :: "sel_ops \<Rightarrow> nat \<Rightarrow> string \<Rightarrow> sel \<Rightarrow> sel_answer" where
  "access_expired ops n who s =
     (let (stale, s1) = stale_now ops s in
      if stale then finish_wait_now ops (s1\<lparr>sl_access_hold := True\<rparr>)
      else refuse ops n (snprintf_text 160 (''no permission to open stick '' @ who @
             '', or it cannot be told apart (udev rule?)'')) (s1\<lparr>sl_access := []\<rparr>))"

definition access_wait :: "sel_ops \<Rightarrow> nat \<Rightarrow> string \<Rightarrow> sel \<Rightarrow> sel_answer" where
  "access_wait ops n who s =
     (let (now, s1) = sel_now ops s; (stale, s2) = snapshot_stale now s1 in
      if stale then finish_wait now s2
      else let f = access_first_deadline False (sl_access s2);
               first = (if f = 0 then now + DAEMON_CH341_ACCESS_MS else f)
        in if first \<le> now then access_expired ops n who s2
           else finish_wait (min (now + DAEMON_CH341_BUSY_RETRY_MS) first) (s2\<lparr>sl_access_hold := True\<rparr>))"

definition scan_item_unknown :: "sel_mode \<Rightarrow> scan_item \<Rightarrow> bool" where
  "scan_item_unknown mode it \<longleftrightarrow>
     it_openable it = 0 \<or> it_openable it = -2 \<or>
     (mode = MODE_SERIAL \<and> it_openable it = 1 \<and> it_serial_state it = -1)"

section \<open>After an open\<close>

text \<open>\<open>Inl\<close>: the flag \<open>read_failed\<close> with the reason.\<close>

definition post_open_ok :: "sel \<Rightarrow> scan_item option \<Rightarrow> (bool \<times> string) + scan_item" where
  "post_open_ok s identity =
     (case identity of
        None \<Rightarrow> Inl (True, ''the opened stick's identity could not be read'')
      | Some it \<Rightarrow>
          if it_serial_state it = -1 then
            Inl (False, ''stick on port '' @ it_port it @ '' has a serial that could not be read (unreadable serial)'')
          else if sl_mode s = MODE_SERIAL \<and> \<not> (it_serial_state it = 1 \<and> serial_eq (it_serial it) (sl_serial s)) then
            Inl (False, ''the opened stick is not serial '' @ sl_serial s)
          else if sl_ruleb s \<and> it_serial_state it \<noteq> 0 then Inl (False, ''the opened stick has a serial'')
          else if sl_mode s = MODE_PORT \<and> it_port it \<noteq> sl_port s then
            Inl (False, ''stick on port '' @ it_port it @ '', waiting for port '' @ sl_port s @
              '': replug into the same port, or restart'')
          else if sl_mode s = MODE_PORT \<and> it_serial_state it = 1 then
            Inl (False, ''stick on port '' @ it_port it @ '' has serial '' @ take 8 (it_serial it) @
              '', waiting for the stick without a serial: replug it, or restart'')
          else Inr it)"

definition commit_open :: "scan_item \<Rightarrow> sel \<Rightarrow> sel" where
  "commit_open it s =
     (let s1 = s\<lparr>sl_bound := daemon_ch341_bound_text it 48\<rparr> in
      if sl_mode s1 \<noteq> MODE_ANY then s1
      else if it_serial_state it = 1 then s1\<lparr>sl_mode := MODE_SERIAL, sl_serial := snprintf_text 9 (it_serial it)\<rparr>
      else s1\<lparr>sl_mode := MODE_PORT, sl_port := snprintf_text 32 (it_port it)\<rparr>)"


type_synonym step_answer = "sel_result \<times> stick ptr \<times> string ptr \<times> sel"

definition no_stick :: "sel_answer \<Rightarrow> step_answer" where
  "no_stick a = (fst a, NULL, snd a)"

definition kept_arriving :: string where
  "kept_arriving = ''Meshsticks kept arriving during the selection''"

definition opened_commit :: "stick \<Rightarrow> scan_item \<Rightarrow> sel \<Rightarrow> step_answer" where
  "opened_commit dev it s =
     (CH341_SEL_OPENED, Some dev, NULL,
      burst_answered ((sel_log Sel_Scan_End (commit_open it s))\<lparr>sl_phase := PH_DONE, sl_access := []\<rparr>))"

definition opened_bind :: "sel_ops \<Rightarrow> nat \<Rightarrow> stick \<Rightarrow> scan_item \<Rightarrow> sel \<Rightarrow> step_answer" where
  "opened_bind ops n dev it s =
     (let ok = so_bind ops (sl_calls s) dev; s1 = sel_log (Sel_Bind dev) s in
      if \<not> ok then
        (let (stale, s2) = window_stale ops (sel_log (Sel_Close dev) (sel_log Sel_Unbind s1))
         in no_stick (if stale then finish_wait_now ops s2
              else transient ops n ''the opened stick could not be matched in the monitor's device list'' s2))
      else
        (let (stale, s2) = window_stale ops s1;
             gone = so_bound_left ops (sl_calls s2); s3 = sel_log Sel_Bound_Left s2
         in if stale \<or> gone \<or> (\<not> sl_ruleb s3 \<and> sl_changes s3 \<noteq> sl_scan_changes s3) then
              (let s4 = sel_log (Sel_Close dev) (sel_log Sel_Unbind s3)
               in no_stick (if stale \<or> gone then finish_wait_now ops s4 else refuse ops n kept_arriving s4))
            else opened_commit dev it s3))"

definition opened :: "sel_ops \<Rightarrow> nat \<Rightarrow> stick \<Rightarrow> sel \<Rightarrow> step_answer" where
  "opened ops n dev s =
     (let identity = so_identity ops (sl_calls s) dev;
          check = post_open_ok s identity;
          (stale, s1) = window_stale ops (sel_log (Sel_Identity dev) s) in
      if stale then no_stick (finish_wait_now ops (sel_log (Sel_Close dev) s1))
      else if \<not> sl_ruleb s1 \<and> sl_changes s1 \<noteq> sl_scan_changes s1 then
        no_stick (refuse ops n kept_arriving (sel_log (Sel_Close dev) s1))
      else case check of
        Inl (read_failed, reason) \<Rightarrow>
          no_stick ((if read_failed then transient else refuse) ops n (snprintf_text 200 reason) (sel_log (Sel_Close dev) s1))
      | Inr it \<Rightarrow> opened_bind ops n dev it s1)"

section \<open>The decision after a scan\<close>

record tally =
  ty_match :: nat
  ty_unknown :: nat
  ty_unopened :: nat
  ty_no_serial :: nat
  ty_present :: nat
  ty_sole :: string
  ty_walk_port :: string

definition tally_item :: "sel_mode \<Rightarrow> string \<Rightarrow> tally \<Rightarrow> scan_item \<Rightarrow> tally" where
  "tally_item mode serial t it =
     (if it_openable it = -1 then t
      else let t1 = t\<lparr>ty_present := ty_present t + 1,
                     ty_sole := snprintf_text 32 (if it_serial_state it = 1 then it_serial it else it_port it)\<rparr> in
        if it_openable it \<noteq> 1 \<or> it_serial_state it = -1 then
          t1\<lparr>ty_unknown := ty_unknown t1 + 1,
             ty_unopened := (if it_openable it \<noteq> 1 then ty_unopened t1 + 1 else ty_unopened t1)\<rparr>
        else if it_serial_state it = 0 then
          t1\<lparr>ty_no_serial := ty_no_serial t1 + 1, ty_walk_port := snprintf_text 32 (it_port it)\<rparr>
        else if mode = MODE_SERIAL \<and> serial_eq (it_serial it) serial then t1\<lparr>ty_match := ty_match t1 + 1\<rparr>
        else t1)"

definition tally_items :: "sel \<Rightarrow> tally" where
  "tally_items s = foldl (tally_item (sl_mode s) (sl_serial s))
     \<lparr>ty_match = 0, ty_unknown = 0, ty_unopened = 0, ty_no_serial = 0, ty_present = 0, ty_sole = [],
      ty_walk_port = sl_walk_port s\<rparr> (sl_items s)"

definition decide_open :: "sel \<Rightarrow> sel_answer" where
  "decide_open s = (CH341_SEL_PENDING, NULL, s\<lparr>sl_phase := PH_OPEN\<rparr>)"

text \<open>Rule B: exactly one stick has no serial.\<close>

definition decide_walk :: "sel_ops \<Rightarrow> nat \<Rightarrow> sel \<Rightarrow> sel_answer" where
  "decide_walk ops present s =
     (let (now, s1) = sel_now ops s;
          gap = (if sl_walk_end_ms s1 \<noteq> 0 then sl_walk_end_ms s1 + DAEMON_CH341_WALK_GAP_MS else 0);
          due = (if \<not> sl_at_start s1 \<and> sl_burst_first s1 \<noteq> 0
                 then max gap (min (sl_burst_last s1 + DAEMON_CH341_SETTLE_QUIET_MS)
                                   (sl_burst_first s1 + DAEMON_CH341_SETTLE_CAP_MS)) else gap)
      in if now < due then finish_wait due s1
         else let (stale, s2) = snapshot_stale now s1 in
           if stale then finish_wait now s2
           else (CH341_SEL_PENDING, NULL, (burst_answered s2)\<lparr>sl_ruleb := True, sl_snap := present,
                  sl_attempts := 0, sl_held := [], sl_phase := PH_WALK\<rparr>))"

definition decide_inner :: "sel_ops \<Rightarrow> nat \<Rightarrow> sel \<Rightarrow> sel_answer" where
  "decide_inner ops n s =
     (let t = tally_items s;
          s1 = s\<lparr>sl_sole := (if ty_present t \<noteq> 1 then [] else ty_sole t), sl_walk_port := ty_walk_port t\<rparr>;
          who = who_text s1;
          s2 = s1\<lparr>sl_ruleb := False\<rparr>
      in if sl_mode s2 = MODE_SERIAL then
           (if 1 < ty_match t then
              refuse ops n (snprintf_text 96 (''serial '' @ sl_serial s2 @ '' is not unique'')) s2
            else if ty_match t = 1 \<and> ty_unknown t = 0 then decide_open s2
            else if 0 < ty_unknown t then access_wait ops n who s2
            else refuse ops n (snprintf_text 96 (''no Meshstick with serial '' @ sl_serial s2)) s2)
         else if ty_present t = 0 then refuse ops n ''no Meshstick attached'' s2
         else if ty_present t = 1 then
           (if 0 < ty_unopened t then access_wait ops n who s2 else decide_open s2)
         else if 1 < ty_no_serial t then
           refuse ops n ''more than one Meshstick without a serial: only one is supported (no open by port)'' s2
         else if 0 < ty_unopened t then access_wait ops n who s2
         else if ty_no_serial t = 0 then refuse ops n ''several Meshsticks: give --usb-serial'' s2
         else decide_walk ops (ty_present t) s2)"

definition decide :: "sel_ops \<Rightarrow> nat \<Rightarrow> sel \<Rightarrow> sel_answer" where
  "decide ops n s =
     (let s1 = s\<lparr>sl_access_hold := False, sl_access := filter (\<lambda>e. ad_seen (snd e)) (sl_access s)\<rparr>;
          (r, why, s2) = decide_inner ops n s1
      in (r, why, if sl_access_hold s2 then s2 else s2\<lparr>sl_access := []\<rparr>))"

section \<open>One step\<close>

definition step_begin :: "sel_ops \<Rightarrow> nat \<Rightarrow> sel \<Rightarrow> sel_answer" where
  "step_begin ops n s =
     (let count = so_scan_begin ops (sl_calls s); s1 = (sel_log Sel_Scan_Begin s)\<lparr>sl_count := count\<rparr> in
      if count < 0 then
        transient ops n ''the USB device list could not be read'' (s1\<lparr>sl_scan_changes := sl_changes s1\<rparr>)
      else (CH341_SEL_PENDING, NULL, s1\<lparr>sl_items := replicate (nat count) scan_item_zero, sl_index := 0,
             sl_scan_changes := sl_changes s1, sl_snapshot_final := sl_final_pending s1,
             sl_final_pending := False,
             sl_access := map (\<lambda>e. (fst e, (snd e)\<lparr>ad_seen := False\<rparr>)) (sl_access s1),
             sl_phase := PH_SCAN\<rparr>))"

text \<open>The scan of one stick, after the check of the remaining deadlines.\<close>

definition scan_one :: "sel_ops \<Rightarrow> sel \<Rightarrow> sel" where
  "scan_one ops s =
     (let it = so_scan_step ops (sl_calls s) (sl_index s);
          s1 = (sel_log (Sel_Scan_Step (sl_index s)) s)\<lparr>sl_items := (sl_items s)[sl_index s := it]\<rparr>;
          key = access_key it;
          s2 = (if scan_item_unknown (sl_mode s1) it then
                  (case map_of (sl_access s1) key of
                     Some d \<Rightarrow> s1\<lparr>sl_access := access_put key (d\<lparr>ad_seen := True\<rparr>) (sl_access s1)\<rparr>
                   | None \<Rightarrow> (let (now, s1) = sel_now ops s1 in
                       s1\<lparr>sl_access := access_put key \<lparr>ad_at = now + DAEMON_CH341_ACCESS_MS, ad_seen = True\<rparr>
                           (sl_access s1)\<rparr>))
                else s1\<lparr>sl_access := access_erase key (sl_access s1)\<rparr>)
      in s2\<lparr>sl_index := sl_index s2 + 1\<rparr>)"

definition step_scan :: "sel_ops \<Rightarrow> nat \<Rightarrow> sel \<Rightarrow> sel_answer" where
  "step_scan ops n s =
     (if \<not> int (sl_index s) < sl_count s then decide ops n s
      else let first = access_first_deadline True (sl_access s);
               (expired, s1) = (if first = 0 then (False, s)
                                else (let (now, s1) = sel_now ops s in (first \<le> now, s1)))
        in if expired then access_expired ops n (who_scan_expiry s1) s1
           else (CH341_SEL_PENDING, NULL, scan_one ops s1))"

definition step_open :: "sel_ops \<Rightarrow> nat \<Rightarrow> sel \<Rightarrow> step_answer" where
  "step_open ops n s =
     (let (stale, s1) = stale_now ops s in
      if stale then no_stick (finish_wait_now ops s1)
      else if sl_changes s1 \<noteq> sl_scan_changes s1 then no_stick (refuse ops n kept_arriving s1)
      else (case sel_open ops (if sl_mode s1 = MODE_SERIAL then Some (sl_serial s1) else NULL) s1 of
              (None, s2) \<Rightarrow>
                (let (stale, s3) = window_stale ops s2
                 in no_stick (if stale then finish_wait_now ops s3
                      else busy ops n (who_text s3) DAEMON_CH341_BUSY_RETRY_MS s3))
            | (Some dev, s2) \<Rightarrow> opened ops n dev s2))"

text \<open>\<open>release_held\<close> and the stamp of the walk's end.\<close>

definition walk_end :: "sel_ops \<Rightarrow> sel \<Rightarrow> sel" where
  "walk_end ops s = (let (now, s1) = sel_now ops (release_held s) in s1\<lparr>sl_walk_end_ms := now\<rparr>)"

definition walk_who :: "sel \<Rightarrow> string" where
  "walk_who s = (if sl_mode s = MODE_PORT then sl_port s else sl_walk_port s)"

definition step_walk :: "sel_ops \<Rightarrow> nat \<Rightarrow> sel \<Rightarrow> step_answer" where
  "step_walk ops n s =
     (let (stale, s1) = stale_now ops s in
      if stale then no_stick (finish_wait_now ops (walk_end ops s1))
      else if sl_snap s1 \<le> sl_attempts s1 then
        (let s2 = walk_end ops s1 in no_stick (busy ops n (walk_who s2) DAEMON_CH341_WALK_GAP_MS s2))
      else (case sel_open ops NULL (sel_log Sel_Seed_Idle (s1\<lparr>sl_attempts := sl_attempts s1 + 1\<rparr>)) of
              (None, s2) \<Rightarrow>
                (let (stale, s3) = window_stale ops (walk_end ops s2)
                 in no_stick (if stale then finish_wait_now ops s3
                      else busy ops n (walk_who s3) DAEMON_CH341_WALK_GAP_MS s3))
            | (Some dev, s2) \<Rightarrow>
                (let identity = so_identity ops (sl_calls s2) dev;
                     (stale, s3) = window_stale ops (sel_log (Sel_Identity dev) s2)
                 in if stale then no_stick (finish_wait_now ops (walk_end ops (sel_log (Sel_Close dev) s3)))
                    else if (case identity of None \<Rightarrow> True | Some it \<Rightarrow> it_serial_state it \<noteq> 0) then
                      (CH341_SEL_PENDING, NULL, NULL, s3\<lparr>sl_held := sl_held s3 @ [dev]\<rparr>)
                    else opened ops n dev (walk_end ops s3))))"

definition daemon_ch341_select_step :: "sel_ops \<Rightarrow> nat \<Rightarrow> sel \<Rightarrow> step_answer" where
  "daemon_ch341_select_step ops n s =
     (case sl_phase s of
        PH_IDLE \<Rightarrow> no_stick (step_begin ops n s)
      | PH_DONE \<Rightarrow> no_stick (step_begin ops n s)
      | PH_SCAN \<Rightarrow> no_stick (step_scan ops n s)
      | PH_OPEN \<Rightarrow> step_open ops n s
      | PH_WALK \<Rightarrow> step_walk ops n s)"

end
