(* ===== verification/Ch341_Hal.thy ===== *)
theory Ch341_Hal
  imports Ch341_Select
begin

text \<open>
  The RadioLib HAL of the Meshstick, \<open>ch341_hal.h\<close>. The USB bridge is reached through the adapter's
  table; what a call of it answers is an argument of the operation that makes it. \<open>ha_calls\<close> is the
  ghost history of these calls (newest first), \<open>ha_losses\<close> counts the runs of \<open>on_loss\<close>, and
  \<open>ha_exited\<close> says that the process ended with exit 5. \<open>ha_on_loss\<close> and \<open>ha_before_exit\<close> tell whether
  the hooks are set. The waits and the clock of the HAL are not modelled.
\<close>

section \<open>State\<close>

datatype dev_call = Dev_Pin_Mode u32 bool | Dev_Write u32 bool | Dev_Read u32 | Dev_Attach u32 u32
  | Dev_Detach u32 | Dev_In_Error | Dev_Transceive bytes | Dev_Close

record hal_usb =
  ha_dev :: "stick ptr"
  ha_startup_failed :: bool
  ha_operational :: bool
  ha_on_loss :: bool
  ha_before_exit :: bool
  ha_lost :: bool
  ha_irq_pin :: u32
  ha_calls :: "dev_call list"
  ha_losses :: nat
  ha_exited :: bool

definition RADIOLIB_NC :: u32 where [c_consts]: "RADIOLIB_NC = 0xFFFFFFFF"
definition MODE_OUTPUT :: u32 where [c_consts]: "MODE_OUTPUT = 1"

definition ch341_hal :: "stick ptr \<Rightarrow> hal_usb" where
  "ch341_hal dev = \<lparr>ha_dev = dev, ha_startup_failed = False, ha_operational = False, ha_on_loss = False,
     ha_before_exit = False, ha_lost = False, ha_irq_pin = RADIOLIB_NC, ha_calls = [], ha_losses = 0, ha_exited = False\<rparr>"

definition dev_call :: "dev_call \<Rightarrow> hal_usb \<Rightarrow> hal_usb" where
  "dev_call c h = h\<lparr>ha_calls := c # ha_calls h\<rparr>"

section \<open>Failures\<close>

definition close_device :: "hal_usb \<Rightarrow> hal_usb" where
  "close_device h = (if ha_dev h \<noteq> NULL then (dev_call Dev_Close h)\<lparr>ha_dev := NULL\<rparr> else h)"

definition hal_fatal :: "hal_usb \<Rightarrow> hal_usb" where
  "hal_fatal h = (close_device h)\<lparr>ha_exited := True\<rparr>"

definition failure :: "hal_usb \<Rightarrow> hal_usb" where
  "failure h =
     (if ha_operational h \<and> ha_on_loss h then
        (if \<not> ha_lost h then h\<lparr>ha_lost := True, ha_losses := ha_losses h + 1\<rparr> else h)
      else if ha_operational h then hal_fatal h
      else h\<lparr>ha_startup_failed := True\<rparr>)"

definition hal_ready :: "hal_usb \<Rightarrow> bool \<times> hal_usb" where
  "hal_ready h =
     (if ha_lost h then (False, h)
      else if ha_dev h \<noteq> NULL then (True, h)
      else (False, failure h))"

section \<open>The daemon's control\<close>

definition spi_lock_ready :: "hal_usb \<Rightarrow> bool" where
  "spi_lock_ready h \<longleftrightarrow> ha_dev h \<noteq> NULL"

definition gpio_startup_ok :: "hal_usb \<Rightarrow> bool" where
  "gpio_startup_ok h \<longleftrightarrow> \<not> ha_startup_failed h"

definition gpio_mark_operational :: "hal_usb \<Rightarrow> hal_usb" where
  "gpio_mark_operational h = h\<lparr>ha_operational := True\<rparr>"

definition check_runtime :: "bool \<Rightarrow> hal_usb \<Rightarrow> hal_usb" where
  "check_runtime in_error h =
     (if ha_dev h \<noteq> NULL \<and> ha_operational h \<and> \<not> ha_lost h
      then (let h1 = dev_call Dev_In_Error h in if in_error then failure h1 else h1) else h)"

definition set_loss_wait :: "hal_usb \<Rightarrow> hal_usb" where
  "set_loss_wait h = h\<lparr>ha_on_loss := True\<rparr>"

definition set_before_exit :: "hal_usb \<Rightarrow> hal_usb" where
  "set_before_exit h = h\<lparr>ha_before_exit := True\<rparr>"

definition loss_latched :: "hal_usb \<Rightarrow> bool" where
  "loss_latched h = ha_lost h"

definition runtime_fatal :: "hal_usb \<Rightarrow> hal_usb" where
  "runtime_fatal h = hal_fatal h"

section \<open>What RadioLib calls\<close>

definition pinMode :: "int \<Rightarrow> u32 \<Rightarrow> u32 \<Rightarrow> hal_usb \<Rightarrow> hal_usb" where
  "pinMode res pin mode h =
     (if pin = RADIOLIB_NC then h
      else let (ok, h1) = hal_ready h in
        if \<not> ok then h1
        else let h2 = dev_call (Dev_Pin_Mode pin (mode = MODE_OUTPUT)) h1 in
          if res < 0 then failure h2 else h2)"

definition digitalWrite :: "int \<Rightarrow> u32 \<Rightarrow> u32 \<Rightarrow> hal_usb \<Rightarrow> hal_usb" where
  "digitalWrite res pin value h =
     (if pin = RADIOLIB_NC then h
      else let (ok, h1) = hal_ready h in
        if \<not> ok then h1
        else let h2 = dev_call (Dev_Write pin (value \<noteq> 0)) h1 in
          if res < 0 then failure h2 else h2)"

definition digitalRead :: "int \<Rightarrow> u32 \<Rightarrow> hal_usb \<Rightarrow> u32 \<times> hal_usb" where
  "digitalRead level pin h =
     (if ha_lost h \<and> pin \<noteq> RADIOLIB_NC then (if pin = ha_irq_pin h then 1 else 0, h)
      else if pin = RADIOLIB_NC then (0, h)
      else let (ok, h1) = hal_ready h in
        if \<not> ok then (0, h1)
        else let h2 = dev_call (Dev_Read pin) h1 in
          if level < 0 then (0, failure h2) else (if level \<noteq> 0 then 1 else 0, h2))"

definition attachInterrupt :: "int \<Rightarrow> u32 \<Rightarrow> u32 \<Rightarrow> hal_usb \<Rightarrow> hal_usb" where
  "attachInterrupt res pin mode h =
     (if pin = RADIOLIB_NC then h
      else let (ok, h1) = hal_ready h in
        if \<not> ok then h1
        else let h2 = dev_call (Dev_Attach pin mode) (h1\<lparr>ha_irq_pin := pin\<rparr>) in
          if res < 0 then failure h2 else h2)"

definition detachInterrupt :: "u32 \<Rightarrow> hal_usb \<Rightarrow> hal_usb" where
  "detachInterrupt pin h =
     (if pin = RADIOLIB_NC then h
      else let (ok, h1) = hal_ready h in
        if \<not> ok then h1 else dev_call (Dev_Detach pin) h1)"

text \<open>
  \<open>inb\<close> is the caller's buffer before the call, NULL without one; \<open>res\<close> and \<open>data\<close> are the answer
  of the transfer and what it wrote.
\<close>

definition spiTransfer :: "bool \<Rightarrow> int \<Rightarrow> bytes \<Rightarrow> bytes \<Rightarrow> bytes ptr \<Rightarrow> hal_usb \<Rightarrow> bytes ptr \<times> hal_usb" where
  "spiTransfer in_error res data outb inb h =
     (let zeroed = map_option (\<lambda>b. replicate (length outb) 0 @ drop (length outb) b) inb;
          (ok, h1) = hal_ready h in
      if \<not> ok then (zeroed, h1)
      else let h2 = dev_call Dev_In_Error h1 in
        if in_error then (zeroed, failure h2)
        else let h3 = dev_call (Dev_Transceive outb) h2 in
          if res < 0 then (zeroed, failure h3) else (map_option (\<lambda>_. data) inb, h3))"

section \<open>Runs\<close>

text \<open>Any sequence of calls of a HAL, until the process ends; a failure can come from any thread.\<close>

inductive hal_step :: "hal_usb \<Rightarrow> hal_usb \<Rightarrow> bool" where
  "hal_step h (pinMode res pin mode h)"
| "hal_step h (digitalWrite res pin v h)"
| "hal_step h (snd (digitalRead res pin h))"
| "hal_step h (attachInterrupt res pin mode h)"
| "hal_step h (detachInterrupt pin h)"
| "hal_step h (snd (spiTransfer err res data outb inb h))"
| "hal_step h (check_runtime err h)"
| "hal_step h (gpio_mark_operational h)"
| "hal_step h (set_loss_wait h)"
| "hal_step h (set_before_exit h)"

inductive hal_run :: "hal_usb \<Rightarrow> hal_usb \<Rightarrow> bool" where
  refl: "hal_run h h"
| step: "hal_run h g \<Longrightarrow> \<not> ha_exited g \<Longrightarrow> hal_step g k \<Longrightarrow> hal_run h k"

lemmas hal_defs = pinMode_def digitalWrite_def digitalRead_def attachInterrupt_def detachInterrupt_def
  spiTransfer_def check_runtime_def gpio_mark_operational_def set_loss_wait_def set_before_exit_def
  hal_ready_def failure_def hal_fatal_def close_device_def dev_call_def

text \<open>A lost HAL leaves the device alone and never reports again.\<close>

lemma hal_step_lost:
  assumes "hal_step h g" "ha_lost h" "ha_operational h" "ha_on_loss h"
  shows "ha_lost g \<and> ha_operational g \<and> ha_on_loss g \<and> ha_calls g = ha_calls h \<and> ha_losses g = ha_losses h \<and>
    ha_exited g = ha_exited h \<and> ha_dev g = ha_dev h"
  using assms by (cases rule: hal_step.cases) (auto simp: hal_defs Let_def)

definition hal_inv :: "hal_usb \<Rightarrow> bool" where
  "hal_inv h \<longleftrightarrow> ha_losses h = (if ha_lost h then 1 else 0) \<and> (ha_lost h \<longrightarrow> ha_operational h \<and> ha_on_loss h) \<and>
     (ha_exited h \<longrightarrow> ha_dev h = NULL \<and> ha_operational h \<and> \<not> ha_on_loss h)"

lemma hal_inv_failure: "hal_inv h \<Longrightarrow> hal_inv (failure h)"
  by (auto simp: hal_inv_def failure_def hal_fatal_def close_device_def dev_call_def)

lemma hal_inv_simple:
  "hal_inv (dev_call c h) = hal_inv h" "hal_inv (h\<lparr>ha_irq_pin := p\<rparr>) = hal_inv h"
  "hal_inv (h\<lparr>ha_before_exit := b\<rparr>) = hal_inv h"
  by (simp_all add: hal_inv_def dev_call_def)

lemma hal_inv_ready: "hal_ready h = (b, g) \<Longrightarrow> hal_inv h \<Longrightarrow> hal_inv g"
  by (auto simp: hal_ready_def hal_inv_failure split: if_splits)

lemma hal_step_inv: "hal_step h g \<Longrightarrow> hal_inv h \<Longrightarrow> \<not> ha_exited h \<Longrightarrow> hal_inv g"
proof (induction rule: hal_step.induct)
  case (8 h)
  thus ?case by (auto simp: gpio_mark_operational_def hal_inv_def)
next
  case (9 h)
  thus ?case by (auto simp: set_loss_wait_def hal_inv_def)
qed (auto simp: pinMode_def digitalWrite_def digitalRead_def attachInterrupt_def detachInterrupt_def spiTransfer_def
    check_runtime_def set_before_exit_def Let_def hal_inv_simple split: prod.splits
    intro!: hal_inv_failure intro: hal_inv_ready)

lemma hal_run_inv: "hal_run h g \<Longrightarrow> hal_inv h \<Longrightarrow> hal_inv g"
  by (induction rule: hal_run.induct) (auto intro: hal_step_inv)

definition hal_frozen :: "hal_usb \<Rightarrow> hal_usb \<Rightarrow> bool" where
  "hal_frozen h g \<longleftrightarrow> ha_lost g \<and> ha_operational g \<and> ha_on_loss g \<and> ha_calls g = ha_calls h \<and>
     ha_losses g = ha_losses h \<and> ha_exited g = ha_exited h \<and> ha_dev g = ha_dev h"

lemma hal_run_lost:
  "hal_run h g \<Longrightarrow> ha_lost h \<Longrightarrow> ha_operational h \<Longrightarrow> ha_on_loss h \<Longrightarrow> hal_frozen h g"
proof (induction rule: hal_run.induct)
  case (step h g k)
  thus ?case using hal_step_lost [of g k] by (auto simp: hal_frozen_def)
qed (simp add: hal_frozen_def)

text \<open>
  over the whole life of a HAL the loss of its stick is reported at most once, exactly when it is
  latched; from then on no operation of RadioLib reaches the device and the process does not end. It ends
  only where no loss hook was set, and then the device was closed first.
\<close>

theorem lost_stick_left_alone:
  assumes "hal_run (ch341_hal dev) h"
  shows "ha_losses h = (if loss_latched h then 1 else 0) \<and>
    (loss_latched h \<longrightarrow> (\<forall>g. hal_run h g \<longrightarrow> ha_calls g = ha_calls h \<and> ha_losses g = 1 \<and> \<not> ha_exited g)) \<and>
    (ha_exited h \<longrightarrow> ha_operational h \<and> \<not> ha_on_loss h \<and> ha_dev h = NULL)"
proof -
  have "hal_inv (ch341_hal dev)" by (simp add: hal_inv_def ch341_hal_def)
  hence inv: "hal_inv h" by (rule hal_run_inv [OF assms])
  have "ha_calls g = ha_calls h \<and> ha_losses g = 1 \<and> \<not> ha_exited g" if "ha_lost h" "hal_run h g" for g
    using hal_run_lost [OF that(2,1)] inv that(1) by (auto simp: hal_frozen_def hal_inv_def)
  thus ?thesis using inv by (auto simp: hal_inv_def loss_latched_def)
qed

definition lost_hal :: hal_usb where
  "lost_hal = check_runtime True (set_loss_wait (gpio_mark_operational (ch341_hal (Some 1))))"

theorem lost_stick_left_alone_witness:
  "loss_latched lost_hal \<and> ha_losses lost_hal = 1 \<and>
   ha_calls (pinMode 0 4 1 lost_hal) = ha_calls lost_hal \<and> \<not> ha_exited (pinMode 0 4 1 lost_hal)"
proof -
  define h where "h = ch341_hal (Some 1)"
  have "hal_run h (gpio_mark_operational h)"
    by (rule hal_run.step [OF hal_run.refl _ hal_step.intros(8)]) (simp add: h_def ch341_hal_def)
  hence "hal_run h (set_loss_wait (gpio_mark_operational h))"
    by (rule hal_run.step [OF _ _ hal_step.intros(9)]) (simp add: h_def ch341_hal_def gpio_mark_operational_def)
  hence run: "hal_run (ch341_hal (Some 1)) lost_hal" unfolding lost_hal_def h_def [symmetric]
    by (rule hal_run.step [OF _ _ hal_step.intros(7)])
      (simp add: h_def ch341_hal_def gpio_mark_operational_def set_loss_wait_def)
  have l: "loss_latched lost_hal" "\<not> ha_exited lost_hal"
    by (simp_all add: lost_hal_def ch341_hal_def hal_defs loss_latched_def)
  have "hal_run lost_hal (pinMode 0 4 1 lost_hal)"
    by (rule hal_run.step [OF hal_run.refl l(2) hal_step.intros(1)])
  with l(1) show ?thesis using lost_stick_left_alone [OF run] by auto
qed

end
