(* ===== verification/Pi_Hal.thy ===== *)
theory Pi_Hal
  imports Ch341_Hal
begin

text \<open>
  The RadioLib HAL of the boards on the Pi's SPI bus, \<open>locking_pihal.h\<close>, with the lock primitives and the checks of the
  lock directory of \<open>loraham_runtime.h\<close>. The answers of lgpio, of \<open>flock\<close> and of the file system are arguments of
  the operation that asks; \<open>ph_log\<close> is the ghost history of the calls with their answers, newest first. The constants of
  RadioLib's base class are in \<open>pi_base\<close>. Messages are left out.
\<close>

section \<open>The lock directory\<close>

record file_stat =
  fs_dir :: bool
  fs_regular :: bool
  fs_uid :: nat
  fs_mode :: nat

definition S_IWGRP_IWOTH :: nat where [c_consts]: "S_IWGRP_IWOTH = 18"

text \<open>\<open>None\<close>: the open or \<open>fstat\<close> failed.\<close>

definition loraham_open_lock_dir :: "nat \<Rightarrow> bool \<Rightarrow> file_stat option \<Rightarrow> bool" where
  "loraham_open_lock_dir euid require_root stat =
     (case stat of
        None \<Rightarrow> False
      | Some st \<Rightarrow>
          if \<not> fs_dir st then False
          else if require_root \<and> fs_uid st \<noteq> 0 \<and> fs_uid st \<noteq> euid then False
          else if fs_mode st AND S_IWGRP_IWOTH \<noteq> 0 then False
          else True)"

text \<open>\<open>made\<close>: the directory after the attempt to create it, which only the override makes.\<close>

definition loraham_open_runtime_dir :: "nat \<Rightarrow> string ptr \<Rightarrow> file_stat option \<Rightarrow> file_stat option \<Rightarrow> bool" where
  "loraham_open_runtime_dir euid env stat made =
     (let override = (env \<noteq> NULL \<and> env \<noteq> Some [])
      in loraham_open_lock_dir euid (\<not> override) (if override then made else stat))"

definition loraham_open_lock_file_at :: "file_stat option \<Rightarrow> bool \<Rightarrow> bool" where
  "loraham_open_lock_file_at stat fchmod_ok =
     (case stat of
        None \<Rightarrow> False
      | Some st \<Rightarrow>
          if \<not> fs_regular st then False
          else if fs_mode st AND 511 \<noteq> 384 \<and> \<not> fchmod_ok then False
          else True)"

section \<open>The lock with a deadline\<close>

datatype flock_answer = Flock_Ok | Flock_Eintr | Flock_Would_Block | Flock_Error
datatype lock_answer = Lock_Got | Lock_Timeout | Lock_Hard

text \<open>
  The \<open>i\<close>-th call of \<open>flock\<close> and of the clock; a clock that fails is \<open>None\<close>, else seconds and nanoseconds.
\<close>

definition trunc_div :: "int \<Rightarrow> int \<Rightarrow> int" where
  "trunc_div a b = (if 0 \<le> a then a div b else - (- a div b))"

definition elapsed_ms :: "int \<times> int \<Rightarrow> int \<times> int \<Rightarrow> int" where
  "elapsed_ms start now = (fst now - fst start) * 1000 + trunc_div (snd now - snd start) 1000000"

partial_function (option) flock_deadline_loop ::
  "(nat \<Rightarrow> flock_answer) \<Rightarrow> (nat \<Rightarrow> (int \<times> int) option) \<Rightarrow> int \<times> int \<Rightarrow> int \<Rightarrow> nat \<Rightarrow> lock_answer option" where
  "flock_deadline_loop fn clock start timeout i =
     (case fn i of
        Flock_Ok \<Rightarrow> Some Lock_Got
      | Flock_Error \<Rightarrow> Some Lock_Hard
      | _ \<Rightarrow>
          (case clock (Suc i) of
             None \<Rightarrow> Some Lock_Hard
           | Some now \<Rightarrow>
               if timeout \<le> elapsed_ms start now then Some Lock_Timeout
               else flock_deadline_loop fn clock start timeout (Suc i)))"

definition loraham_flock_acquire_ex_deadline ::
  "(nat \<Rightarrow> flock_answer) \<Rightarrow> (nat \<Rightarrow> (int \<times> int) option) \<Rightarrow> int \<Rightarrow> lock_answer option" where
  "loraham_flock_acquire_ex_deadline fn clock timeout =
     (case clock 0 of None \<Rightarrow> Some Lock_Hard | Some start \<Rightarrow> flock_deadline_loop fn clock start timeout 0)"

text \<open>\<open>flock\<close> without a deadline is only used to unlock: it repeats while it is interrupted.\<close>

partial_function (option) loraham_flock_release :: "(nat \<Rightarrow> flock_answer) \<Rightarrow> nat \<Rightarrow> bool option" where
  "loraham_flock_release fn i =
     (if fn i = Flock_Eintr then loraham_flock_release fn (Suc i) else Some (fn i = Flock_Ok))"

definition LORAHAM_SPI_LOCK_TIMEOUT_MS :: int where [c_consts]: "LORAHAM_SPI_LOCK_TIMEOUT_MS = 2000"

section \<open>State\<close>

datatype pi_call =
  Lg_Chip_Open | Lg_Chip_Close | Lg_Spi_Open | Lg_Spi_Close | Lg_Claim_Input u32 | Lg_Claim_Output u32
| Lg_Write u32 u32 | Lg_Read u32 | Lg_Claim_Alert u32 u32 | Lg_Alerts_Func u32 bool | Lg_Free u32 | Lg_Spi_Xfer bytes
| Pi_Flock | Pi_Unflock

record pi_base =
  pb_input :: u32
  pb_output :: u32
  pb_max_gpio :: u32
  pb_falling :: u32

text \<open>\<open>ph_irq\<close>: the enabled alerts, with whether they fire on the low level.\<close>

record pi_hal =
  ph_lock_fd :: bool
  ph_depth :: nat
  ph_held :: bool
  ph_spi :: bool
  ph_gpio :: bool
  ph_startup_failed :: bool
  ph_operational :: bool
  ph_irq :: "u32 \<Rightarrow> bool option"
  ph_log :: "(pi_call \<times> int) list"
  ph_exited :: bool

definition pi_hal_create :: "bool \<Rightarrow> bool \<Rightarrow> pi_hal" where
  "pi_hal_create dir_ok file_ok =
     \<lparr>ph_lock_fd = dir_ok \<and> file_ok, ph_depth = 0, ph_held = False, ph_spi = False, ph_gpio = False,
      ph_startup_failed = False, ph_operational = False, ph_irq = (\<lambda>_. None), ph_log = [], ph_exited = False\<rparr>"

definition pi_call :: "pi_call \<Rightarrow> int \<Rightarrow> pi_hal \<Rightarrow> pi_hal" where
  "pi_call c r h = h\<lparr>ph_log := (c, r) # ph_log h\<rparr>"

section \<open>Failures\<close>

definition pi_fatal :: "pi_hal \<Rightarrow> pi_hal" where
  "pi_fatal h = h\<lparr>ph_exited := True\<rparr>"

definition gpio_failure :: "pi_hal \<Rightarrow> pi_hal" where
  "gpio_failure h = (if ph_operational h then pi_fatal h else h\<lparr>ph_startup_failed := True\<rparr>)"

definition gpio_ready :: "pi_hal \<Rightarrow> bool \<times> pi_hal" where
  "gpio_ready h = (if ph_gpio h then (True, h) else (False, gpio_failure h))"

section \<open>The bus\<close>

definition pi_spi_lock_ready :: "pi_hal \<Rightarrow> bool" where
  "pi_spi_lock_ready h = ph_lock_fd h"

definition pi_spiBeginTransaction :: "lock_answer \<Rightarrow> pi_hal \<Rightarrow> pi_hal" where
  "pi_spiBeginTransaction a h =
     (let h1 = h\<lparr>ph_depth := ph_depth h + 1\<rparr> in
      if ph_depth h = 0 then
        (if \<not> ph_lock_fd h1 then pi_fatal h1
         else case a of
             Lock_Got \<Rightarrow> (pi_call Pi_Flock 0 h1)\<lparr>ph_held := True\<rparr>
           | _ \<Rightarrow> pi_fatal (pi_call Pi_Flock (-1) h1))
      else h1)"

definition pi_spiBegin :: "int \<Rightarrow> pi_hal \<Rightarrow> pi_hal" where
  "pi_spiBegin r h = (if ph_spi h then h else (pi_call Lg_Spi_Open r h)\<lparr>ph_spi := (0 \<le> r)\<rparr>)"

text \<open>The code does not look at the answer \<open>r\<close> of the close, here and in \<open>pi_term\<close>.\<close>

definition pi_spiEnd :: "int \<Rightarrow> pi_hal \<Rightarrow> pi_hal" where
  "pi_spiEnd r h = (if ph_spi h then (pi_call Lg_Spi_Close r h)\<lparr>ph_spi := False\<rparr> else h)"

text \<open>\<open>inb\<close> is the caller's buffer, NULL without one; \<open>data\<close> is what the transfer wrote.\<close>

definition pi_spiTransfer :: "int \<Rightarrow> bytes \<Rightarrow> bytes \<Rightarrow> bytes ptr \<Rightarrow> pi_hal \<Rightarrow> bytes ptr \<times> pi_hal" where
  "pi_spiTransfer r data outb inb h =
     (if ph_startup_failed h \<and> \<not> ph_operational h then
        (map_option (\<lambda>b. replicate (length outb) 0 @ drop (length outb) b) inb, h)
      else if \<not> ph_held h then (inb, pi_fatal h)
      else if \<not> ph_spi h then (inb, pi_fatal h)
      else let h1 = pi_call (Lg_Spi_Xfer outb) r h in
        if r < 0 then (inb, pi_fatal h1) else (map_option (\<lambda>_. data) inb, h1))"

definition pi_spiEndTransaction :: "bool \<Rightarrow> pi_hal \<Rightarrow> pi_hal" where
  "pi_spiEndTransaction unlock_ok h =
     (if 0 < ph_depth h then
        (let h1 = h\<lparr>ph_depth := ph_depth h - 1\<rparr> in
         if ph_depth h1 = 0 then
           (let h2 = h1\<lparr>ph_held := False\<rparr> in
            if ph_lock_fd h2 then
              (if unlock_ok then pi_call Pi_Unflock 0 h2 else pi_fatal (pi_call Pi_Unflock (-1) h2))
            else h2)
         else h1)
      else h)"

section \<open>The lines\<close>

definition pi_init :: "int \<Rightarrow> int \<Rightarrow> pi_hal \<Rightarrow> pi_hal" where
  "pi_init r spi h =
     (if ph_gpio h then h
      else let h1 = pi_call Lg_Chip_Open r h in
        if r < 0 then h1\<lparr>ph_startup_failed := True\<rparr> else pi_spiBegin spi (h1\<lparr>ph_gpio := True\<rparr>))"

definition pi_term :: "int \<Rightarrow> int \<Rightarrow> pi_hal \<Rightarrow> pi_hal" where
  "pi_term spi r h =
     (let h1 = pi_spiEnd spi h in if ph_gpio h1 then (pi_call Lg_Chip_Close r h1)\<lparr>ph_gpio := False\<rparr> else h1)"

definition pi_pinMode :: "pi_base \<Rightarrow> int \<Rightarrow> u32 \<Rightarrow> u32 \<Rightarrow> pi_hal \<Rightarrow> pi_hal" where
  "pi_pinMode base r pin mode h =
     (if pin = RADIOLIB_NC then h
      else let (ok, h1) = gpio_ready h in
        if \<not> ok then h1
        else if mode = pb_input base then
          (let h2 = pi_call (Lg_Claim_Input pin) r h1 in if r < 0 then gpio_failure h2 else h2)
        else if mode = pb_output base then
          (let h2 = pi_call (Lg_Claim_Output pin) r h1 in if r < 0 then gpio_failure h2 else h2)
        else gpio_failure h1)"

definition pi_digitalWrite :: "int \<Rightarrow> u32 \<Rightarrow> u32 \<Rightarrow> pi_hal \<Rightarrow> pi_hal" where
  "pi_digitalWrite r pin v h =
     (if pin = RADIOLIB_NC then h
      else let (ok, h1) = gpio_ready h in
        if \<not> ok then h1
        else let h2 = pi_call (Lg_Write pin v) r h1 in if r < 0 then gpio_failure h2 else h2)"

definition pi_digitalRead :: "int \<Rightarrow> u32 \<Rightarrow> pi_hal \<Rightarrow> u32 \<times> pi_hal" where
  "pi_digitalRead r pin h =
     (if pin = RADIOLIB_NC then (0, h)
      else let (ok, h1) = gpio_ready h in
        if \<not> ok then (0, h1)
        else let h2 = pi_call (Lg_Read pin) r h1 in
          if r < 0 then (0, gpio_failure h2) else (word_of_int r, h2))"

definition pi_attachInterrupt :: "pi_base \<Rightarrow> int \<Rightarrow> int \<Rightarrow> u32 \<Rightarrow> u32 \<Rightarrow> pi_hal \<Rightarrow> pi_hal" where
  "pi_attachInterrupt base r r2 pin mode h =
     (if pin = RADIOLIB_NC \<or> pb_max_gpio base < pin then h
      else let (ok, h1) = gpio_ready h in
        if \<not> ok then h1
        else let h2 = pi_call (Lg_Claim_Alert pin mode) r h1 in
          if r < 0 then gpio_failure h2
          else let h3 = h2\<lparr>ph_irq := (ph_irq h2)(pin \<mapsto> (mode = pb_falling base))\<rparr>;
                   h4 = pi_call (Lg_Alerts_Func pin True) r2 h3
               in if r2 < 0 then gpio_failure h4 else h4)"

text \<open>A failure that ends the process leaves the second call unmade.\<close>

definition pi_detachInterrupt :: "pi_base \<Rightarrow> int \<Rightarrow> int \<Rightarrow> u32 \<Rightarrow> pi_hal \<Rightarrow> pi_hal" where
  "pi_detachInterrupt base r r2 pin h =
     (if pin = RADIOLIB_NC \<or> pb_max_gpio base < pin then h
      else let (ok, h1) = gpio_ready h in
        if \<not> ok then h1
        else let h2 = pi_call (Lg_Free pin) r (h1\<lparr>ph_irq := (ph_irq h1)(pin := None)\<rparr>);
                 h3 = (if r < 0 then gpio_failure h2 else h2)
             in if ph_exited h3 then h3
                else let h4 = pi_call (Lg_Alerts_Func pin False) r2 h3 in if r2 < 0 then gpio_failure h4 else h4)"

section \<open>The daemon's control\<close>

definition pi_gpio_startup_ok :: "pi_hal \<Rightarrow> bool" where
  "pi_gpio_startup_ok h \<longleftrightarrow> \<not> ph_startup_failed h"

definition pi_gpio_mark_operational :: "pi_hal \<Rightarrow> pi_hal" where
  "pi_gpio_mark_operational h = h\<lparr>ph_operational := True\<rparr>"

definition pi_runtime_fatal :: "pi_hal \<Rightarrow> pi_hal" where
  "pi_runtime_fatal h = pi_fatal h"

section \<open>The wait for the lock\<close>

lemma flock_loop_ends:
  assumes "\<And>j. i \<le> j \<Longrightarrow> j < n \<Longrightarrow> fn j \<notin> {Flock_Ok, Flock_Error} \<and>
      (\<exists>now. clock (Suc j) = Some now \<and> elapsed_ms start now < timeout)"
    and "i \<le> n"
  shows "flock_deadline_loop fn clock start timeout i = flock_deadline_loop fn clock start timeout n"
  using assms
proof (induction "n - i" arbitrary: i)
  case (Suc m)
  then have "i < n" by simp
  then have "flock_deadline_loop fn clock start timeout (Suc i) = flock_deadline_loop fn clock start timeout n"
    using Suc by (intro Suc.hyps(1)) auto
  moreover have "fn i \<notin> {Flock_Ok, Flock_Error} \<and> (\<exists>now. clock (Suc i) = Some now \<and> elapsed_ms start now < timeout)"
    using Suc.prems(1) [of i] \<open>i < n\<close> by simp
  ultimately show ?case
    by (subst flock_deadline_loop.simps) (auto split: flock_answer.splits)
qed simp

definition contended :: "flock_answer \<Rightarrow> bool" where
  "contended a \<longleftrightarrow> a = Flock_Eintr \<or> a = Flock_Would_Block"

text \<open>
  When the clock fails or shows that the time is over at some point, the wait for the bus lock returns. Its answer is decided by the
  first attempt that is not refused as contended within the time: the lock, a failure, or a timeout after every attempt
  until the deadline was contended.
\<close>

lemma bus_lock_wait_decides:
  assumes start: "clock 0 = Some start"
    and ends: "\<exists>i. clock (Suc i) = None \<or> (\<exists>now. clock (Suc i) = Some now \<and> timeout \<le> elapsed_ms start now)"
  shows "\<exists>a k. loraham_flock_acquire_ex_deadline fn clock timeout = Some a \<and>
    (\<forall>j<k. contended (fn j) \<and> (\<exists>now. clock (Suc j) = Some now \<and> elapsed_ms start now < timeout)) \<and>
    (a = Lock_Got \<longleftrightarrow> fn k = Flock_Ok) \<and>
    (a = Lock_Timeout \<longleftrightarrow> contended (fn k) \<and> (\<exists>now. clock (Suc k) = Some now \<and> timeout \<le> elapsed_ms start now))"
proof -
  let ?goes = "\<lambda>j. contended (fn j) \<and> (\<exists>now. clock (Suc j) = Some now \<and> elapsed_ms start now < timeout)"
  have "\<exists>i. \<not> ?goes i"
    using ends by (metis linorder_not_le option.distinct(1) option.inject)
  then obtain k where stop: "\<not> ?goes k" and goes: "\<forall>j<k. ?goes j"
    using exists_least_iff [of "\<lambda>i. \<not> ?goes i"] by blast
  have "flock_deadline_loop fn clock start timeout 0 = flock_deadline_loop fn clock start timeout k"
    using goes by (intro flock_loop_ends) (auto simp: contended_def)
  moreover obtain a where "flock_deadline_loop fn clock start timeout k = Some a \<and> (a = Lock_Got \<longleftrightarrow> fn k = Flock_Ok) \<and>
      (a = Lock_Timeout \<longleftrightarrow> contended (fn k) \<and> (\<exists>now. clock (Suc k) = Some now \<and> timeout \<le> elapsed_ms start now))"
    using stop flock_deadline_loop.simps [of fn clock start timeout k]
    by (auto simp: contended_def split: flock_answer.splits option.splits)
  ultimately show ?thesis
    using goes start
    by (intro exI [of _ a] exI [of _ k]) (simp add: loraham_flock_acquire_ex_deadline_def)
qed

section \<open>Runs of one HAL\<close>

datatype pi_op =
  P_Init int int | P_Term int int | P_Pin_Mode int u32 u32 | P_Write int u32 u32 | P_Read int u32 | P_Attach int int u32 u32
| P_Detach int int u32 | P_Spi_Begin int | P_Spi_End int | P_Begin lock_answer | P_Transfer int bytes bytes "bytes ptr"
| P_End bool | P_Mark | P_Fatal

fun pi_apply :: "pi_base \<Rightarrow> pi_op \<Rightarrow> pi_hal \<Rightarrow> pi_hal" where
  "pi_apply base (P_Init r spi) h = pi_init r spi h"
| "pi_apply base (P_Term spi r) h = pi_term spi r h"
| "pi_apply base (P_Pin_Mode r pin mode) h = pi_pinMode base r pin mode h"
| "pi_apply base (P_Write r pin v) h = pi_digitalWrite r pin v h"
| "pi_apply base (P_Read r pin) h = snd (pi_digitalRead r pin h)"
| "pi_apply base (P_Attach r r2 pin mode) h = pi_attachInterrupt base r r2 pin mode h"
| "pi_apply base (P_Detach r r2 pin) h = pi_detachInterrupt base r r2 pin h"
| "pi_apply base (P_Spi_Begin r) h = pi_spiBegin r h"
| "pi_apply base (P_Spi_End r) h = pi_spiEnd r h"
| "pi_apply base (P_Begin a) h = pi_spiBeginTransaction a h"
| "pi_apply base (P_Transfer r data outb inb) h = snd (pi_spiTransfer r data outb inb h)"
| "pi_apply base (P_End ok) h = pi_spiEndTransaction ok h"
| "pi_apply base P_Mark h = pi_gpio_mark_operational h"
| "pi_apply base P_Fatal h = pi_runtime_fatal h"

text \<open>The calls go on until the process has ended.\<close>

definition pi_run :: "pi_base \<Rightarrow> pi_op list \<Rightarrow> pi_hal \<Rightarrow> pi_hal" where
  "pi_run base ops h = foldl (\<lambda>h op. if ph_exited h then h else pi_apply base op h) h ops"

lemmas pi_defs = pi_init_def pi_term_def pi_pinMode_def pi_digitalWrite_def pi_digitalRead_def pi_attachInterrupt_def
  pi_detachInterrupt_def pi_spiBegin_def pi_spiEnd_def pi_spiBeginTransaction_def pi_spiTransfer_def
  pi_spiEndTransaction_def pi_gpio_mark_operational_def pi_runtime_fatal_def gpio_ready_def gpio_failure_def pi_fatal_def
  pi_call_def Let_def

text \<open>The calls whose answer the HAL acts upon: all but the open and the two closes.\<close>

definition checked_call :: "pi_call \<Rightarrow> bool" where
  "checked_call c \<longleftrightarrow> c \<notin> {Lg_Spi_Open, Lg_Spi_Close, Lg_Chip_Close}"

text \<open>An error answer is never forgotten: it is latched before the radio is up, and ends the process after it.\<close>

definition errors_kept :: "pi_hal \<Rightarrow> bool" where
  "errors_kept h \<longleftrightarrow>
     (\<forall>(c, r) \<in> set (ph_log h). r < 0 \<longrightarrow> \<not> checked_call c \<or> ph_startup_failed h \<or> ph_exited h)"

text \<open>The newest open or close of the SPI device is an open that gave a handle.\<close>

fun spi_usable :: "(pi_call \<times> int) list \<Rightarrow> bool" where
  "spi_usable [] = False"
| "spi_usable ((Lg_Spi_Open, r) # cs) = (0 \<le> r)"
| "spi_usable ((Lg_Spi_Close, r) # cs) = False"
| "spi_usable (_ # cs) = spi_usable cs"

definition hal_honest :: "pi_hal \<Rightarrow> bool" where
  "hal_honest h \<longleftrightarrow> errors_kept h \<and> ph_spi h = spi_usable (ph_log h)"

lemma errors_kept_apply: "errors_kept h \<Longrightarrow> errors_kept (pi_apply base op h)"
  by (cases op) (auto simp: errors_kept_def checked_call_def pi_defs split: lock_answer.splits)

lemma spi_usable_apply:
  "ph_spi h = spi_usable (ph_log h) \<Longrightarrow> ph_spi (pi_apply base op h) = spi_usable (ph_log (pi_apply base op h))"
  by (cases op) (auto simp: pi_defs split: lock_answer.splits)

lemma hal_honest_run: "hal_honest h \<Longrightarrow> hal_honest (pi_run base ops h)"
  unfolding pi_run_def hal_honest_def
  by (induction ops arbitrary: h) (auto simp: errors_kept_apply spi_usable_apply)

text \<open>
  C17: Whatever sequence of calls RadioLib and the daemon make on the Pi HAL, and whatever lgpio, the SPI device and
  the lock answer: while the process runs and the startup latch is clear, no call so far has answered an error, the
  open of the SPI device and the closes of the SPI device and of the GPIO chip apart. The open is caught by the first
  transfer: without a handle from a successful open it ends the process. The answers of the two closes are not looked at by the code.
  A line never reads as high unless lgpio said so.
\<close>

theorem radio_errors_never_swallowed:
  assumes "h = pi_run base ops (pi_hal_create dir_ok file_ok)"
    and "\<not> ph_exited h" and "pi_gpio_startup_ok h"
  shows "(\<forall>c r. (c, r) \<in> set (ph_log h) \<and> checked_call c \<longrightarrow> 0 \<le> r) \<and>
    (\<not> spi_usable (ph_log h) \<longrightarrow> ph_exited (snd (pi_spiTransfer x data outb inb h))) \<and>
    (fst (pi_digitalRead lvl pin h) \<noteq> 0 \<longrightarrow> 0 < lvl \<and> ph_gpio h)"
proof (intro conjI)
  have h: "hal_honest h"
    unfolding assms(1) by (rule hal_honest_run) (simp add: hal_honest_def errors_kept_def pi_hal_create_def)
  then show "\<forall>c r. (c, r) \<in> set (ph_log h) \<and> checked_call c \<longrightarrow> 0 \<le> r"
    using assms(2,3) by (fastforce simp: hal_honest_def errors_kept_def pi_gpio_startup_ok_def)
  show "\<not> spi_usable (ph_log h) \<longrightarrow> ph_exited (snd (pi_spiTransfer x data outb inb h))"
    using h assms(3) by (simp add: hal_honest_def pi_gpio_startup_ok_def pi_spiTransfer_def pi_fatal_def)
  show "fst (pi_digitalRead lvl pin h) \<noteq> 0 \<longrightarrow> 0 < lvl \<and> ph_gpio h"
    by (cases "lvl = 0") (auto simp: pi_digitalRead_def gpio_ready_def Let_def)
qed

text \<open>A start of a radio, one register transfer and a look at its interrupt line.\<close>

definition sample_base :: pi_base where
  "sample_base = \<lparr>pb_input = 0, pb_output = 1, pb_max_gpio = 31, pb_falling = 2\<rparr>"

definition pi_sample_ops :: "pi_op list" where
  "pi_sample_ops =
     [P_Init 0 3, P_Pin_Mode 0 25 0, P_Begin Lock_Got, P_Transfer 2 [0, 18] [66, 0] (Some [0, 0]), P_End True,
      P_Attach 0 0 25 1, P_Mark, P_Read 1 25]"

lemma pi_sample_ok:
  "\<not> ph_exited (pi_run sample_base pi_sample_ops (pi_hal_create True True))"
  "pi_gpio_startup_ok (pi_run sample_base pi_sample_ops (pi_hal_create True True))"
  by (simp_all add: pi_run_def pi_sample_ops_def sample_base_def pi_hal_create_def pi_defs RADIOLIB_NC_def
      pi_gpio_startup_ok_def)

theorem radio_errors_never_swallowed_witness:
  "(Lg_Spi_Xfer [66, 0], 2) \<in> set (ph_log (pi_run sample_base pi_sample_ops (pi_hal_create True True))) \<and>
     filter (\<lambda>(c, r). checked_call c \<and> r < 0)
       (ph_log (pi_run sample_base pi_sample_ops (pi_hal_create True True))) = []"
proof
  show "(Lg_Spi_Xfer [66, 0], 2) \<in> set (ph_log (pi_run sample_base pi_sample_ops (pi_hal_create True True)))"
    by (simp add: pi_run_def pi_sample_ops_def sample_base_def pi_hal_create_def pi_defs RADIOLIB_NC_def)
  show "filter (\<lambda>(c, r). checked_call c \<and> r < 0)
      (ph_log (pi_run sample_base pi_sample_ops (pi_hal_create True True))) = []"
    using radio_errors_never_swallowed [OF HOL.refl pi_sample_ok] by (fastforce simp: filter_empty_conv)
qed

end
