(* ===== verification/Spi_Bus.thy ===== *)
theory Spi_Bus
  imports Pi_Hal
begin

text \<open>
  Several daemon processes on one SPI bus, each with its own HAL of \<open>Pi_Hal\<close>: their operations interleave in any order,
  and the kernel gives \<open>spi0.lock\<close> to one open file at a time. Process ends release it.
\<close>

section \<open>Processes on the bus\<close>

datatype bus_call = Bus_Lock | Bus_Xfer | Bus_Unlock

record spi_bus =
  sb_owner :: "nat option"
  sb_hal :: "nat \<Rightarrow> pi_hal option"
  sb_trace :: "(nat \<times> bus_call) list"

definition bus_start :: spi_bus where
  "bus_start = \<lparr>sb_owner = None, sb_hal = (\<lambda>_. None), sb_trace = []\<rparr>"

text \<open>What a call of a HAL does on the bus.\<close>

fun bus_effect :: "pi_call \<times> int \<Rightarrow> bus_call list" where
  "bus_effect (Pi_Flock, r) = (if r = 0 then [Bus_Lock] else [])"
| "bus_effect (Pi_Unflock, r) = (if r = 0 then [Bus_Unlock] else [])"
| "bus_effect (Lg_Spi_Xfer _, r) = [Bus_Xfer]"
| "bus_effect _ = []"

definition bus_effects :: "pi_hal \<Rightarrow> pi_hal \<Rightarrow> bus_call list" where
  "bus_effects h h1 = concat (map bus_effect (rev (take (length (ph_log h1) - length (ph_log h)) (ph_log h1))))"

text \<open>The kernel grants the lock only when it is free; it does not guard the bus.\<close>

fun kernel_lock :: "nat \<Rightarrow> bus_call list \<Rightarrow> nat option \<Rightarrow> nat option option" where
  "kernel_lock p [] owner = Some owner"
| "kernel_lock p (Bus_Lock # cs) owner = (if owner = None then kernel_lock p cs (Some p) else None)"
| "kernel_lock p (Bus_Unlock # cs) owner = kernel_lock p cs (if owner = Some p then None else owner)"
| "kernel_lock p (Bus_Xfer # cs) owner = kernel_lock p cs owner"

text \<open>The end of a process, by its exit or a crash, closes its lock file.\<close>

definition bus_reap :: "nat \<Rightarrow> spi_bus \<Rightarrow> spi_bus" where
  "bus_reap p S =
     S\<lparr>sb_hal := (sb_hal S)(p := None), sb_owner := (if sb_owner S = Some p then None else sb_owner S),
       sb_trace := (if sb_owner S = Some p then (p, Bus_Unlock) # sb_trace S else sb_trace S)\<rparr>"

datatype bus_event = Bus_Start nat bool bool | Bus_Op nat pi_op | Bus_End nat

fun bus_step :: "pi_base \<Rightarrow> bus_event \<Rightarrow> spi_bus \<Rightarrow> spi_bus option" where
  "bus_step base (Bus_Start p dir_ok file_ok) S =
     (if sb_hal S p = None then Some (S\<lparr>sb_hal := (sb_hal S)(p \<mapsto> pi_hal_create dir_ok file_ok)\<rparr>) else None)"
| "bus_step base (Bus_Op p op) S =
     (case sb_hal S p of
        None \<Rightarrow> None
      | Some h \<Rightarrow>
          (let h1 = pi_apply base op h; cs = bus_effects h h1 in
           case kernel_lock p cs (sb_owner S) of
             None \<Rightarrow> None
           | Some owner \<Rightarrow>
               (let S1 = S\<lparr>sb_hal := (sb_hal S)(p \<mapsto> h1), sb_owner := owner,
                          sb_trace := rev (map (Pair p) cs) @ sb_trace S\<rparr>
                in Some (if ph_exited h1 then bus_reap p S1 else S1))))"
| "bus_step base (Bus_End p) S = (if sb_hal S p = None then None else Some (bus_reap p S))"

fun bus_run :: "pi_base \<Rightarrow> bus_event list \<Rightarrow> spi_bus \<Rightarrow> spi_bus option" where
  "bus_run base [] S = Some S"
| "bus_run base (e # es) S = (case bus_step base e S of None \<Rightarrow> None | Some S1 \<Rightarrow> bus_run base es S1)"

section \<open>Whole transactions\<close>

text \<open>Oldest first: a transaction is a lock, transfers of the same process and its unlock; transactions do not overlap.\<close>

fun whole_transactions :: "nat option \<Rightarrow> (nat \<times> bus_call) list \<Rightarrow> bool" where
  "whole_transactions owner [] = True"
| "whole_transactions owner ((p, Bus_Lock) # t) = (owner = None \<and> whole_transactions (Some p) t)"
| "whole_transactions owner ((p, Bus_Xfer) # t) = (owner = Some p \<and> whole_transactions owner t)"
| "whole_transactions owner ((p, Bus_Unlock) # t) = (owner = Some p \<and> whole_transactions None t)"

fun owner_after :: "nat option \<Rightarrow> (nat \<times> bus_call) list \<Rightarrow> nat option" where
  "owner_after owner [] = owner"
| "owner_after owner ((p, Bus_Lock) # t) = owner_after (Some p) t"
| "owner_after owner ((p, Bus_Xfer) # t) = owner_after owner t"
| "owner_after owner ((p, Bus_Unlock) # t) = owner_after None t"

lemma whole_append:
  "whole_transactions owner (s @ t) \<longleftrightarrow> whole_transactions owner s \<and> whole_transactions (owner_after owner s) t"
  by (induction owner s rule: whole_transactions.induct) auto

lemma owner_append: "owner_after owner (s @ t) = owner_after (owner_after owner s) t"
  by (induction owner s rule: owner_after.induct) auto

text \<open>A HAL holds the lock exactly while it is inside a transaction.\<close>

definition hal_bus_ok :: "pi_hal \<Rightarrow> bool" where
  "hal_bus_ok h \<longleftrightarrow> ph_held h = (0 < ph_depth h) \<and> (ph_held h \<longrightarrow> ph_lock_fd h)"

text \<open>The bus calls of one operation, with what they mean for the lock.\<close>

definition op_bus :: "pi_hal \<Rightarrow> pi_hal \<Rightarrow> bus_call list \<Rightarrow> bool" where
  "op_bus h h1 cs \<longleftrightarrow>
     cs = [] \<and> (ph_held h1 = ph_held h \<or> ph_exited h1) \<or> cs = [Bus_Lock] \<and> \<not> ph_held h \<and> ph_held h1 \<or>
     cs = [Bus_Xfer] \<and> ph_held h \<and> ph_held h1 = ph_held h \<or> cs = [Bus_Unlock] \<and> ph_held h \<and> \<not> ph_held h1"

lemma apply_bus:
  assumes "hal_bus_ok h"
  shows "op_bus h (pi_apply base op h) (bus_effects h (pi_apply base op h)) \<and>
    (ph_exited (pi_apply base op h) \<or> hal_bus_ok (pi_apply base op h))"
  using assms
  by (cases op) (auto simp: hal_bus_ok_def op_bus_def bus_effects_def pi_defs split: lock_answer.splits)

fun hal_at_ok :: "nat option \<Rightarrow> nat \<Rightarrow> pi_hal option \<Rightarrow> bool" where
  "hal_at_ok owner p None = (owner \<noteq> Some p)"
| "hal_at_ok owner p (Some h) = (hal_bus_ok h \<and> (owner = Some p \<longleftrightarrow> ph_held h))"

lemma hal_at_other: "(owner1 = Some q) = (owner = Some q) \<Longrightarrow> hal_at_ok owner q x \<Longrightarrow> hal_at_ok owner1 q x"
  by (cases x) auto

definition bus_ok :: "spi_bus \<Rightarrow> bool" where
  "bus_ok S \<longleftrightarrow>
     whole_transactions None (rev (sb_trace S)) \<and> owner_after None (rev (sb_trace S)) = sb_owner S \<and>
     (\<forall>p. hal_at_ok (sb_owner S) p (sb_hal S p))"

lemma kernel_whole:
  assumes "op_bus h h1 cs" and "kernel_lock p cs owner = Some owner1" and "owner = Some p \<longleftrightarrow> ph_held h"
  shows "whole_transactions owner (map (Pair p) cs)" and "owner_after owner (map (Pair p) cs) = owner1"
    and "ph_exited h1 \<or> (owner1 = Some p \<longleftrightarrow> ph_held h1)" and "q \<noteq> p \<Longrightarrow> owner1 = Some q \<longleftrightarrow> owner = Some q"
  using assms by (auto simp: op_bus_def split: if_splits)

lemma bus_ok_reap:
  assumes trace: "whole_transactions None (rev (sb_trace S))" "owner_after None (rev (sb_trace S)) = sb_owner S"
    and others: "\<And>q. q \<noteq> p \<Longrightarrow> hal_at_ok (sb_owner S) q (sb_hal S q)"
  shows "bus_ok (bus_reap p S)"
proof -
  have "hal_at_ok (sb_owner (bus_reap p S)) q (sb_hal (bus_reap p S) q)" for q
  proof (cases "q = p")
    case False
    then show ?thesis
      using hal_at_other [OF _ others [OF False]] by (simp add: bus_reap_def)
  qed (simp add: bus_reap_def)
  then show ?thesis
    using trace by (auto simp: bus_ok_def bus_reap_def whole_append owner_append)
qed

lemma bus_ok_step:
  assumes ok: "bus_ok S" and step: "bus_step base e S = Some S1"
  shows "bus_ok S1"
proof (cases e)
  case (Bus_Start p dir_ok file_ok)
  then show ?thesis
    using ok step
    by (auto simp: bus_ok_def hal_bus_ok_def pi_hal_create_def split: if_splits) (metis hal_at_ok.simps(1))
next
  case (Bus_End p)
  then show ?thesis
    using ok step bus_ok_reap [of S p] by (simp add: bus_ok_def split: if_splits)
next
  case (Bus_Op p op)
  then obtain h where h: "sb_hal S p = Some h"
    using step by (auto split: option.splits)
  let ?h1 = "pi_apply base op h"
  let ?cs = "bus_effects h ?h1"
  obtain owner where owner: "kernel_lock p ?cs (sb_owner S) = Some owner"
    using step Bus_Op h by (auto simp: Let_def split: option.splits)
  let ?S1 = "S\<lparr>sb_hal := (sb_hal S)(p \<mapsto> ?h1), sb_owner := owner, sb_trace := rev (map (Pair p) ?cs) @ sb_trace S\<rparr>"
  have S1: "S1 = (if ph_exited ?h1 then bus_reap p ?S1 else ?S1)"
    using step Bus_Op h owner by (simp add: Let_def)
  have hal: "hal_bus_ok h" "sb_owner S = Some p \<longleftrightarrow> ph_held h"
    using ok h unfolding bus_ok_def by (metis hal_at_ok.simps(2))+
  note b = kernel_whole [OF conjunct1 [OF apply_bus [OF hal(1)]] owner hal(2)]
  have trace: "whole_transactions None (rev (sb_trace ?S1))" "owner_after None (rev (sb_trace ?S1)) = sb_owner ?S1"
    using ok b(1,2) by (simp_all add: bus_ok_def whole_append owner_append)
  have others: "hal_at_ok (sb_owner ?S1) q (sb_hal ?S1 q)" if "q \<noteq> p" for q
    using ok hal_at_other [OF b(4) [OF that]] that by (simp add: bus_ok_def)
  show ?thesis
  proof (cases "ph_exited ?h1")
    case True
    then show ?thesis
      using bus_ok_reap [OF trace others] S1 by simp
  next
    case False
    then have "hal_bus_ok ?h1 \<and> (owner = Some p \<longleftrightarrow> ph_held ?h1)"
      using apply_bus [OF hal(1)] b(3) by blast
    then have "hal_at_ok (sb_owner ?S1) q (sb_hal ?S1 q)" for q
      using others [of q] by (cases "q = p") simp_all
    then have "bus_ok ?S1"
      using trace by (simp only: bus_ok_def simp_thms)
    then show ?thesis
      using False S1 by simp
  qed
qed

lemma bus_ok_run: "bus_run base es S = Some S1 \<Longrightarrow> bus_ok S \<Longrightarrow> bus_ok S1"
  by (induction base es S rule: bus_run.induct) (auto split: option.splits intro: bus_ok_step)

text \<open>
  C7: However the radios of any number of processes on one SPI bus call their HALs, in whatever order (transfers outside a
  transaction, nested transactions, failing locks and transfers included) and however the processes interleave, exit and crash:
  what happens on the bus is a sequence of whole transactions, each a lock, transfers of the same process
  and its release; no transfer happens outside one and no two overlap.
\<close>

theorem bus_transactions_never_overlap:
  assumes "bus_run base es bus_start = Some S"
  shows "whole_transactions None (rev (sb_trace S)) \<and> owner_after None (rev (sb_trace S)) = sb_owner S"
proof -
  have "bus_ok bus_start"
    by (simp add: bus_ok_def bus_start_def)
  then show ?thesis
    using bus_ok_run [OF assms] by (simp add: bus_ok_def)
qed

text \<open>Two processes: the first transfers, then transfers outside a transaction and ends; the second takes the bus.\<close>

definition bus_sample :: "bus_event list" where
  "bus_sample =
     [Bus_Start 1 True True, Bus_Start 2 True True, Bus_Op 1 (P_Init 0 3), Bus_Op 2 (P_Init 0 4), Bus_Op 1 (P_Begin Lock_Got),
      Bus_Op 1 (P_Transfer 1 [0] [66] NULL), Bus_Op 1 (P_End True), Bus_Op 2 (P_Begin Lock_Got),
      Bus_Op 1 (P_Transfer 1 [0] [66] NULL), Bus_Op 2 (P_Transfer 1 [0] [66] NULL)]"

theorem bus_transactions_never_overlap_witness:
  "\<exists>S. bus_run sample_base bus_sample bus_start = Some S \<and> sb_owner S = Some 2 \<and> sb_hal S 1 = None \<and>
     rev (sb_trace S) = [(1, Bus_Lock), (1, Bus_Xfer), (1, Bus_Unlock), (2, Bus_Lock), (2, Bus_Xfer)] \<and>
     whole_transactions None (rev (sb_trace S))"
proof -
  have "\<exists>S. bus_run sample_base bus_sample bus_start = Some S \<and> sb_owner S = Some 2 \<and> sb_hal S 1 = None \<and>
     rev (sb_trace S) = [(1, Bus_Lock), (1, Bus_Xfer), (1, Bus_Unlock), (2, Bus_Lock), (2, Bus_Xfer)]"
    by (simp add: bus_sample_def bus_start_def bus_effects_def bus_reap_def pi_hal_create_def pi_defs)
  then show ?thesis
    using bus_transactions_never_overlap by blast
qed

end
