(* ===== verification/Rf_Log.thy ===== *)
theory Rf_Log
  imports C_Text Float_Error Prelude
begin

text \<open>
  The log of radio packets, \<open>daemon_rflog.cpp\<close>: the text of a record and the file with its previous segment. Buffers
  keep their length; a write outside one would change it. What the file system answers is a list, one answer per call,
  and a call that is interrupted takes one and repeats; \<open>None\<close>: the answers did not suffice. The clock's text is an argument.
\<close>

section \<open>The text of a record\<close>

abbreviation NUL :: char where "NUL \<equiv> CHR 0x00"
abbreviation NL :: char where "NL \<equiv> CHR 0x0A"

text \<open>\<open>snprintf(out + pos, pos < out_len ? out_len - pos : 0, s)\<close> with the position advanced.\<close>

definition out_snprintf :: "nat \<Rightarrow> string \<Rightarrow> nat \<times> string \<Rightarrow> nat \<times> string" where
  "out_snprintf out_len s = (\<lambda>(pos, out).
     (pos + length s, if pos < out_len then put_bytes out pos (take (out_len - pos - 1) s @ [NUL]) else out))"

definition rflog_digit :: "u8 \<Rightarrow> char" where
  "rflog_digit d = ''0123456789abcdef'' ! unat d"

definition hex_pair :: "u8 \<Rightarrow> string" where
  "hex_pair b = [rflog_digit (drop_bit 4 b), rflog_digit (b AND 0x0F)]"

fun hex_loop :: "nat \<Rightarrow> bytes \<Rightarrow> nat \<times> string \<Rightarrow> nat \<times> string" where
  "hex_loop out_len [] (pos, out) = (pos, out)"
| "hex_loop out_len (b # bs) (pos, out) =
     (if pos + 2 < out_len then hex_loop out_len bs (pos + 2, put_bytes out pos (hex_pair b)) else (pos, out))"

definition ascii_char :: "u8 \<Rightarrow> char" where
  "ascii_char c = (if 0x20 \<le> c \<and> c < 0x7F \<and> c \<noteq> 0x22 \<and> c \<noteq> 0x5C then char_of (unat c) else CHR ''.'')"

fun ascii_loop :: "nat \<Rightarrow> bytes \<Rightarrow> nat \<times> string \<Rightarrow> nat \<times> string" where
  "ascii_loop out_len [] (pos, out) = (pos, out)"
| "ascii_loop out_len (b # bs) (pos, out) =
     (if pos + 1 < out_len then ascii_loop out_len bs (pos + 1, put_bytes out pos [ascii_char b]) else (pos, out))"

definition ascii_quote :: string where "ascii_quote = '' ascii='' @ [CHR 0x22]"
definition quote_end :: string where "quote_end = [CHR 0x22, NL]"

definition rflog_append_payload :: "nat \<Rightarrow> bytes \<Rightarrow> nat \<times> string \<Rightarrow> nat \<times> string" where
  "rflog_append_payload out_len buf st =
     (let (pos, out) = out_snprintf out_len quote_end (ascii_loop out_len buf (out_snprintf out_len ascii_quote
            (hex_loop out_len buf (out_snprintf out_len '' hex='' st))))
      in if out_len \<le> pos then (out_len - 1, put_bytes out (out_len - 2) [NL, NUL])
         else (pos, put_bytes out pos [NUL]))"

definition centi_text :: "int \<Rightarrow> string" where
  "centi_text v = c_fixed 2 (c_div f64_round (Fin (of_int v)) (Fin 100))"

definition or_dash :: "string ptr \<Rightarrow> string" where
  "or_dash s = (case s of None \<Rightarrow> ''-'' | Some t \<Rightarrow> t)"

definition rx_head :: "string ptr \<Rightarrow> string ptr \<Rightarrow> int \<Rightarrow> int \<Rightarrow> nat \<Rightarrow> string" where
  "rx_head utc band_tag rssi_cdbm snr_cdb len =
     or_dash utc @ '' RX rssi='' @ centi_text rssi_cdbm @ '' snr='' @ centi_text snr_cdb @ '' len='' @ nat_dec len @
     '' band='' @ or_dash band_tag"

definition tx_head :: "string ptr \<Rightarrow> string ptr \<Rightarrow> string ptr \<Rightarrow> nat \<Rightarrow> string" where
  "tx_head utc band_tag outcome len =
     or_dash utc @ '' TX rssi=- snr=- len='' @ nat_dec len @ '' outcome='' @ or_dash outcome @ '' band='' @ or_dash band_tag"

text \<open>The head is cut to the buffer, then the payload follows.\<close>

definition rflog_format :: "string \<Rightarrow> bytes \<Rightarrow> string \<Rightarrow> nat \<times> string" where
  "rflog_format head buf out =
     (if length out < 8 then (0, out)
      else let (pos, out1) = out_snprintf (length out) head (0, out) in
        rflog_append_payload (length out) buf (if length out \<le> pos then length out - 1 else pos, out1))"

definition daemon_rflog_format_rx ::
  "string ptr \<Rightarrow> string ptr \<Rightarrow> int \<Rightarrow> int \<Rightarrow> bytes \<Rightarrow> string \<Rightarrow> nat \<times> string" where
  "daemon_rflog_format_rx utc band_tag rssi_cdbm snr_cdb buf out =
     rflog_format (rx_head utc band_tag rssi_cdbm snr_cdb (length buf)) buf out"

definition daemon_rflog_format_tx :: "string ptr \<Rightarrow> string ptr \<Rightarrow> string ptr \<Rightarrow> bytes \<Rightarrow> string \<Rightarrow> nat \<times> string" where
  "daemon_rflog_format_tx utc band_tag outcome buf out = rflog_format (tx_head utc band_tag outcome (length buf)) buf out"

section \<open>The file\<close>

text \<open>\<open>rf_prev\<close>: the file with the suffix \<open>.1\<close>, if there is one.\<close>

record rf_log =
  rf_open :: bool
  rf_live :: string
  rf_prev :: "string option"
  rf_max_bytes :: nat

datatype io_answer = Io_Eintr | Io_Fail | Io_Count nat

text \<open>A write takes at most what is left of the chunk.\<close>

fun write_all :: "io_answer list \<Rightarrow> string \<Rightarrow> string \<Rightarrow> (bool \<times> string \<times> io_answer list) option" where
  "write_all io rest acc =
     (if rest = [] then Some (True, acc, io)
      else case io of
          [] \<Rightarrow> None
        | Io_Eintr # io1 \<Rightarrow> write_all io1 rest acc
        | Io_Fail # io1 \<Rightarrow> Some (False, acc, io1)
        | Io_Count w # io1 \<Rightarrow> write_all io1 (drop w rest) (acc @ take w rest))"

declare write_all.simps [simp del]

lemma write_all_shorter: "write_all io rest acc = Some (ok, acc1, io1) \<Longrightarrow> length io1 \<le> length io"
proof (induction io rest acc rule: write_all.induct)
  case (1 io rest acc)
  then show ?case
    by (subst (asm) write_all.simps) (fastforce split: if_splits list.splits io_answer.splits)
qed

text \<open>A read of at most 64 KiB returns at least a byte unless the file ends at the offset.\<close>

function copy_segment :: "io_answer list \<Rightarrow> string \<Rightarrow> nat \<Rightarrow> string \<Rightarrow> (bool \<times> string \<times> io_answer list) option" where
  "copy_segment io live off prev =
     (case io of
        [] \<Rightarrow> None
      | Io_Eintr # io1 \<Rightarrow> copy_segment io1 live off prev
      | Io_Fail # io1 \<Rightarrow> Some (False, prev, io1)
      | Io_Count n # io1 \<Rightarrow>
          (let chunk = take (min (Suc n) 65536) (drop off live) in
           if chunk = [] then Some (True, prev, io1)
           else case write_all io1 chunk prev of
               None \<Rightarrow> None
             | Some (ok, prev1, io2) \<Rightarrow>
                 if ok then copy_segment io2 live (off + length chunk) prev1 else Some (False, prev1, io2)))"
  by pat_completeness auto
termination
  by (relation "measure (\<lambda>(io, _). length io)") (auto dest!: write_all_shorter)

declare copy_segment.simps [simp del]

text \<open>Opening the previous segment truncates it before the copy starts.\<close>

definition rflog_copy_to_previous ::
  "bool \<Rightarrow> io_answer list \<Rightarrow> rf_log \<Rightarrow> (bool \<times> rf_log \<times> io_answer list) option" where
  "rflog_copy_to_previous opened io f =
     (if \<not> opened then Some (False, f, io)
      else case copy_segment io (rf_live f) 0 [] of
          None \<Rightarrow> None
        | Some (ok, prev, io1) \<Rightarrow> Some (ok, f\<lparr>rf_prev := Some prev\<rparr>, io1))"

text \<open>\<open>stat_ok\<close>, \<open>opened\<close> and \<open>truncates\<close>: whether \<open>fstat\<close>, the open and \<open>ftruncate\<close> succeed.\<close>

definition rflog_roll_if_needed ::
  "bool \<Rightarrow> bool \<Rightarrow> bool \<Rightarrow> nat \<Rightarrow> io_answer list \<Rightarrow> rf_log \<Rightarrow> (rf_log \<times> io_answer list) option" where
  "rflog_roll_if_needed stat_ok opened truncates incoming io f =
     (if \<not> stat_ok then Some (f, io)
      else if length (rf_live f) + incoming \<le> rf_max_bytes f then Some (f, io)
      else case rflog_copy_to_previous opened io f of
          None \<Rightarrow> None
        | Some (ok, f1, io1) \<Rightarrow> Some (if ok \<and> truncates then f1\<lparr>rf_live := []\<rparr> else f1, io1))"

definition rflog_write_line ::
  "bool \<Rightarrow> bool \<Rightarrow> bool \<Rightarrow> string \<Rightarrow> io_answer list \<Rightarrow> rf_log \<Rightarrow> (bool \<times> rf_log) option" where
  "rflog_write_line stat_ok opened truncates line io f =
     (if \<not> rf_open f then Some (True, f)
      else case rflog_roll_if_needed stat_ok opened truncates (length line) io f of
          None \<Rightarrow> None
        | Some (f1, io1) \<Rightarrow>
            (case write_all io1 line (rf_live f1) of
               None \<Rightarrow> None
             | Some (ok, live, _) \<Rightarrow> Some (ok, f1\<lparr>rf_live := live\<rparr>)))"

definition RFLOG_LINE_MAX :: nat where [c_consts]: "RFLOG_LINE_MAX = 1024"

text \<open>The file operations of one record: the three answers and the list.\<close>

type_synonym rf_io = "bool \<times> bool \<times> bool \<times> io_answer list"

definition log_record :: "nat \<times> string \<Rightarrow> rf_io \<Rightarrow> rf_log \<Rightarrow> (bool \<times> rf_log) option" where
  "log_record r = (\<lambda>(stat_ok, opened, truncates, io) f. rflog_write_line stat_ok opened truncates (take (fst r) (snd r)) io f)"

definition daemon_rflog_rx ::
  "string ptr \<Rightarrow> string ptr \<Rightarrow> int \<Rightarrow> int \<Rightarrow> bytes \<Rightarrow> rf_io \<Rightarrow> rf_log \<Rightarrow> (bool \<times> rf_log) option" where
  "daemon_rflog_rx utc band_tag rssi_cdbm snr_cdb buf io f =
     (if \<not> rf_open f then Some (True, f)
      else log_record (daemon_rflog_format_rx utc band_tag rssi_cdbm snr_cdb buf (replicate RFLOG_LINE_MAX NUL)) io f)"

definition daemon_rflog_tx ::
  "string ptr \<Rightarrow> string ptr \<Rightarrow> string ptr \<Rightarrow> bytes \<Rightarrow> rf_io \<Rightarrow> rf_log \<Rightarrow> (bool \<times> rf_log) option" where
  "daemon_rflog_tx utc band_tag outcome buf io f =
     (if \<not> rf_open f then Some (True, f)
      else log_record (daemon_rflog_format_tx utc band_tag outcome buf (replicate RFLOG_LINE_MAX NUL)) io f)"

text \<open>
  \<open>file\<close> is what opening \<open>path\<close> for appending answers: the text of the file and its previous segment. \<open>Inl\<close>: refused
  (the message without the text of \<open>errno\<close>).
\<close>

definition daemon_rflog_start ::
  "bool \<Rightarrow> string \<Rightarrow> (string \<times> string option) option \<Rightarrow> rf_log \<Rightarrow> string + rf_log" where
  "daemon_rflog_start switch_on path file f =
     (if \<not> switch_on then Inr f
      else if path = [] then Inl ''--rflog on needs --rflog-path <absolute path>''
      else case file of
          None \<Rightarrow> Inl (''cannot open RF log '' @ path)
        | Some (live, prev) \<Rightarrow> Inr (f\<lparr>rf_open := True, rf_live := live, rf_prev := prev\<rparr>))"

definition daemon_rflog_stop :: "rf_log \<Rightarrow> rf_log" where
  "daemon_rflog_stop f = f\<lparr>rf_open := False\<rparr>"

definition daemon_rflog_active :: "rf_log \<Rightarrow> bool" where
  "daemon_rflog_active f = rf_open f"

definition daemon_rflog_set_max_bytes :: "nat \<Rightarrow> rf_log \<Rightarrow> rf_log" where
  "daemon_rflog_set_max_bytes n f = f\<lparr>rf_max_bytes := n\<rparr>"

definition DAEMON_RFLOG_MAX_BYTES :: nat where "DAEMON_RFLOG_MAX_BYTES = 5 * 1024 * 1024"

definition daemon_rflog_reset :: "rf_log \<Rightarrow> rf_log" where
  "daemon_rflog_reset f = (daemon_rflog_stop f)\<lparr>rf_max_bytes := DAEMON_RFLOG_MAX_BYTES\<rparr>"

section \<open>A record is one whole line\<close>

text \<open>The buffer holds \<open>s\<close> up to the position, and keeps its length.\<close>

definition holds :: "nat \<Rightarrow> string \<Rightarrow> nat \<times> string \<Rightarrow> bool" where
  "holds out_len s = (\<lambda>(pos, out). pos = length s \<and> length out = out_len \<and> take pos out = s \<and> pos < out_len)"

lemma holds_put:
  assumes "holds out_len s (pos, out)" and "length s + length t < out_len"
  shows "holds out_len (s @ t) (pos + length t, put_bytes out pos t)"
  using assms by (auto simp: holds_def put_bytes_def)

lemma holds_snprintf:
  assumes "holds out_len s st" and "length s + length t < out_len"
  shows "holds out_len (s @ t) (out_snprintf out_len t st)"
  using assms by (auto simp: holds_def out_snprintf_def put_bytes_def split: prod.splits)

lemma loops_Nil [simp]: "hex_loop out_len [] st = st" "ascii_loop out_len [] st = st"
  by (cases st; simp)+

lemma holds_hex:
  "holds out_len s st \<Longrightarrow> length s + 2 * length buf < out_len \<Longrightarrow>
     holds out_len (s @ concat (map hex_pair buf)) (hex_loop out_len buf st)"
proof (induction buf arbitrary: s st)
  case (Cons b buf)
  obtain pos out where st: "st = (pos, out)" by (cases st)
  have pair: "length (hex_pair b) = 2"
    by (simp add: hex_pair_def)
  have pos: "pos = length s"
    using Cons.prems(1) st by (simp add: holds_def)
  have "holds out_len (s @ hex_pair b) (pos + 2, put_bytes out pos (hex_pair b))"
    using holds_put [of out_len s pos out "hex_pair b"] Cons.prems st pair by simp
  from Cons.IH [OF this] show ?case
    using Cons.prems(2) st pos pair by simp
qed simp

lemma holds_ascii:
  "holds out_len s st \<Longrightarrow> length s + length buf < out_len \<Longrightarrow>
     holds out_len (s @ map ascii_char buf) (ascii_loop out_len buf st)"
proof (induction buf arbitrary: s st)
  case (Cons b buf)
  obtain pos out where st: "st = (pos, out)" by (cases st)
  have pos: "pos = length s"
    using Cons.prems(1) st by (simp add: holds_def)
  have "holds out_len (s @ [ascii_char b]) (pos + 1, put_bytes out pos [ascii_char b])"
    using holds_put [of out_len s pos out "[ascii_char b]"] Cons.prems st by simp
  from Cons.IH [OF this] show ?case
    using Cons.prems(2) st pos by simp
qed simp

text \<open>The text the format is meant to give.\<close>

definition record_text :: "string \<Rightarrow> bytes \<Rightarrow> string" where
  "record_text head buf =
     head @ '' hex='' @ concat (map hex_pair buf) @ ascii_quote @ map ascii_char buf @ quote_end"

lemma length_hex: "length (concat (map hex_pair buf)) = 2 * length buf"
  by (induction buf) (simp_all add: hex_pair_def)

lemma format_whole:
  assumes fits: "length (record_text head buf) < length out" and "8 \<le> length out"
  shows "holds (length out) (record_text head buf) (rflog_format head buf out)"
proof -
  let ?n = "length out"
  have size: "length (record_text head buf) = length head + 5 + 2 * length buf + 8 + length buf + 2"
    by (simp add: record_text_def length_hex ascii_quote_def quote_end_def)
  have "holds ?n [] (0, out)"
    using assms(2) by (cases out) (simp_all add: holds_def)
  from holds_snprintf [OF this, of head] have head: "holds ?n head (out_snprintf ?n head (0, out))"
    using fits size by simp
  from holds_snprintf [OF this, of "'' hex=''"]
  have "holds ?n (head @ '' hex='') (out_snprintf ?n '' hex='' (out_snprintf ?n head (0, out)))"
    using fits size by simp
  note s1 = holds_hex [OF this, of buf]
  note s2 = holds_snprintf [OF s1, of ascii_quote]
  note s3 = holds_ascii [OF s2, of buf]
  note s4 = holds_snprintf [OF s3, of quote_end]
  obtain pos out1 where st: "out_snprintf ?n head (0, out) = (pos, out1)" by force
  obtain pos2 out2 where st2: "out_snprintf ?n quote_end (ascii_loop ?n buf (out_snprintf ?n ascii_quote
      (hex_loop ?n buf (out_snprintf ?n '' hex='' (pos, out1))))) = (pos2, out2)" by force
  have "pos < ?n"
    using head st by (simp add: holds_def)
  moreover have r: "holds ?n (record_text head buf) (pos2, out2)"
    using s4 fits size st st2 by (simp add: record_text_def length_hex ascii_quote_def quote_end_def)
  moreover have "holds ?n (record_text head buf) (pos2, put_bytes out2 pos2 [NUL])"
    using r by (auto simp: holds_def put_bytes_def)
  ultimately show ?thesis
    using assms(2) st st2 by (simp add: rflog_format_def rflog_append_payload_def holds_def)
qed

lemma unat_u8_less: "unat (w :: u8) < 256"
proof -
  have "unat w < 2 ^ LENGTH(8)"
    by (rule unsigned_less)
  then show ?thesis
    by simp
qed

lemma hex_pair_clean: "NL \<notin> set (hex_pair b)"
proof -
  have digit: "rflog_digit d \<noteq> NL" if "unat d < 16" for d :: u8
    using that by (auto simp: rflog_digit_def less_Suc_eq numeral_eq_Suc)
  have "unat (drop_bit 4 b) < 16"
    using unat_u8_less [of b] by (simp add: drop_bit_eq_div unat_div_distrib div_less_iff_less_mult)
  moreover have "unat (b AND 0x0F) < 16"
    using word_and_le1 [of b "0x0F"] by (simp add: word_le_nat_alt)
  ultimately show ?thesis
    using digit by (simp add: hex_pair_def) metis
qed

lemma ascii_char_clean: "ascii_char c \<noteq> NL"
proof -
  have "(char_of (unat c) :: char) \<noteq> NL" if "0x20 \<le> c" "c < 0x7F"
  proof
    assume "(char_of (unat c) :: char) = NL"
    then have "(of_char (char_of (unat c)) :: nat) = of_char NL"
      by simp
    then have "unat c mod 256 = 10"
      by (simp add: of_char_of)
    then show False
      using that unat_u8_less [of c] by (simp add: word_le_nat_alt)
  qed
  then show ?thesis
    by (auto simp: ascii_char_def)
qed

text \<open>No line break before the position, in a buffer of unchanged length, also where the text was cut off.\<close>

definition one_line :: "nat \<Rightarrow> nat \<times> string \<Rightarrow> bool" where
  "one_line out_len = (\<lambda>(pos, out). length out = out_len \<and> (\<forall>i < min pos (out_len - 1). out ! i \<noteq> NL))"

lemma put_before: "i < pos \<Longrightarrow> pos \<le> length out \<Longrightarrow> put_bytes out pos t ! i = out ! i"
  by (simp add: put_bytes_def nth_append)

lemma put_inside: "j < length t \<Longrightarrow> pos \<le> length out \<Longrightarrow> put_bytes out pos t ! (pos + j) = t ! j"
  by (simp add: put_bytes_def nth_append)

lemma put_clean:
  assumes "i < pos + k" and "pos \<le> length out" and "k \<le> length t"
    and "i < pos \<Longrightarrow> out ! i \<noteq> NL" and "\<forall>j < k. t ! j \<noteq> NL"
  shows "put_bytes out pos t ! i \<noteq> NL"
proof (cases "i < pos")
  case True
  then show ?thesis
    using assms(2,4) by (simp add: put_before)
next
  case False
  then show ?thesis
    using assms put_inside [of "i - pos" t pos out] by simp
qed

lemma one_line_snprintf:
  assumes "one_line n st" and "NL \<notin> set s"
  shows "one_line n (out_snprintf n s st)"
proof -
  obtain pos out where st: "st = (pos, out)" by (cases st)
  then have len: "length out = n" and lines: "\<forall>i < min pos (n - 1). out ! i \<noteq> NL"
    using assms(1) by (auto simp: one_line_def)
  show ?thesis
  proof (cases "pos < n")
    case True
    let ?t = "take (n - pos - 1) s @ [NUL]" and ?k = "min (length s) (n - pos - 1)"
    have "length (put_bytes out pos ?t) = n"
      using True len by simp
    moreover have "\<forall>j < ?k. ?t ! j \<noteq> NL"
      using assms(2) by (auto simp: nth_append in_set_conv_nth)
    then have "put_bytes out pos ?t ! i \<noteq> NL" if "i < min (pos + length s) (n - 1)" for i
      using that True len lines by (intro put_clean [where k = ?k]) auto
    ultimately show ?thesis
      using st True by (simp add: one_line_def out_snprintf_def)
  qed (use len lines st in \<open>simp add: one_line_def out_snprintf_def\<close>)
qed

lemma one_line_put:
  assumes "one_line n (pos, out)" and "NL \<notin> set t" and "pos + length t < n"
  shows "one_line n (pos + length t, put_bytes out pos t)"
proof -
  have len: "length out = n" and lines: "\<forall>i < min pos (n - 1). out ! i \<noteq> NL"
    using assms(1) by (auto simp: one_line_def)
  have "\<forall>j < length t. t ! j \<noteq> NL"
    using assms(2) by (auto simp: in_set_conv_nth)
  then have "put_bytes out pos t ! i \<noteq> NL" if "i < pos + length t" for i
    using that len lines assms(3) by (intro put_clean [where k = "length t"]) auto
  then show ?thesis
    using len assms(3) by (simp add: one_line_def)
qed

lemma one_line_hex: "one_line n st \<Longrightarrow> one_line n (hex_loop n buf st)"
proof (induction buf arbitrary: st)
  case (Cons b buf)
  obtain pos out where st: "st = (pos, out)" by (cases st)
  have two: "length (hex_pair b) = 2"
    by (simp add: hex_pair_def)
  show ?case
    using Cons.prems Cons.IH one_line_put [of n pos out "hex_pair b", unfolded two] hex_pair_clean st by simp
qed simp

lemma one_line_ascii: "one_line n st \<Longrightarrow> one_line n (ascii_loop n buf st)"
proof (induction buf arbitrary: st)
  case (Cons b buf)
  obtain pos out where st: "st = (pos, out)" by (cases st)
  show ?case
    using Cons.prems Cons.IH one_line_put [of n pos out "[ascii_char b]"] ascii_char_clean [of b] st by auto
qed simp

lemma payload_ends_line:
  assumes "one_line n st" and "8 \<le> n" and "rflog_append_payload n buf st = (m, out)"
  shows "length out = n \<and> 0 < m \<and> m < n \<and> out ! (m - 1) = NL \<and> (\<forall>i < m - 1. out ! i \<noteq> NL)"
proof -
  have clean: "NL \<notin> set '' hex=''" "NL \<notin> set ascii_quote"
    by (simp_all add: ascii_quote_def)
  obtain pos out1 where st1: "ascii_loop n buf (out_snprintf n ascii_quote (hex_loop n buf (out_snprintf n '' hex='' st))) = (pos, out1)"
    by force
  have "one_line n (pos, out1)"
    using one_line_ascii [OF one_line_snprintf [OF one_line_hex [OF one_line_snprintf [OF assms(1) clean(1)]] clean(2)]] st1
    by metis
  then have len: "length out1 = n" and lines: "\<forall>i < min pos (n - 1). out1 ! i \<noteq> NL"
    by (auto simp: one_line_def)
  show ?thesis
  proof (cases "pos + 2 < n")
    case True
    let ?out = "put_bytes out1 pos (quote_end @ [NUL])"
    have m: "m = pos + 2" and out: "out = put_bytes ?out (pos + 2) [NUL]"
      using assms(3) st1 True by (auto simp: rflog_append_payload_def out_snprintf_def quote_end_def Let_def)
    have len2: "length ?out = n"
      using True len by (simp add: quote_end_def)
    have "?out ! (pos + 1) = NL"
      using put_inside [of 1 "quote_end @ [NUL]" pos out1] True len by (simp add: quote_end_def)
    moreover have "?out ! i \<noteq> NL" if "i < pos + 1" for i
      using that True len lines by (intro put_clean [where k = 1]) (auto simp: quote_end_def)
    ultimately show ?thesis
      using True len2 by (simp add: m out put_before)
  next
    case False
    let ?out = "if pos < n then put_bytes out1 pos (take (n - pos - 1) quote_end @ [NUL]) else out1"
    have m: "m = n - 1" and out: "out = put_bytes ?out (n - 2) [NL, NUL]"
      using assms(3) st1 False by (auto simp: rflog_append_payload_def out_snprintf_def quote_end_def Let_def)
    have len2: "length ?out = n"
      using len False by (auto simp: quote_end_def)
    have "?out ! i \<noteq> NL" if "i < n - 2" for i
    proof (cases "pos < n")
      case True
      have "put_bytes out1 pos (take (n - pos - 1) quote_end @ [NUL]) ! i \<noteq> NL"
        using that False True len lines
        by (intro put_clean [where k = "min 1 (n - pos - 1)"]) (auto simp: quote_end_def take_Cons split: nat.splits)
      then show ?thesis
        using True by simp
    next
      case False2: False
      then show ?thesis
        using that lines by simp
    qed
    then obtain out2 where out2: "length out2 = n" "out = put_bytes out2 (n - 2) [NL, NUL]" "\<forall>i < n - 2. out2 ! i \<noteq> NL"
      using len2 out by blast
    have "out ! i \<noteq> NL" if "i < n - 2" for i
      using that out2 by (simp add: put_before)
    moreover have "out ! (n - 2) = NL"
      using put_inside [of 0 "[NL, NUL]" "n - 2" out2] out2 by simp
    moreover have "length out = n"
      using out2 assms(2) by simp
    ultimately show ?thesis
      using m assms(2) by (auto simp: numeral_2_eq_2)
  qed
qed

text \<open>A buffer of \<open>n\<close> bytes with one line at its start: a line break at the end of it, and no other.\<close>

definition whole_line :: "nat \<Rightarrow> nat \<times> string \<Rightarrow> bool" where
  "whole_line n = (\<lambda>(m, out). length out = n \<and> 0 < m \<and> m < n \<and> out ! (m - 1) = NL \<and> NL \<notin> set (take (m - 1) out))"

lemma format_whole_line:
  assumes "NL \<notin> set head" and "8 \<le> length out"
  shows "whole_line (length out) (rflog_format head buf out)"
proof -
  let ?n = "length out"
  obtain pos out0 where st: "out_snprintf ?n head (0, out) = (pos, out0)" by force
  obtain m out1 where r: "rflog_format head buf out = (m, out1)" by force
  have "one_line ?n (0, out)"
    by (simp add: one_line_def)
  from one_line_snprintf [OF this assms(1)] have "one_line ?n (pos, out0)"
    using st by simp
  then have "one_line ?n (if ?n \<le> pos then ?n - 1 else pos, out0)"
    by (auto simp: one_line_def)
  moreover have "rflog_append_payload ?n buf (if ?n \<le> pos then ?n - 1 else pos, out0) = (m, out1)"
    using assms(2) r st by (simp add: rflog_format_def)
  ultimately have "length out1 = ?n \<and> 0 < m \<and> m < ?n \<and> out1 ! (m - 1) = NL \<and> (\<forall>i < m - 1. out1 ! i \<noteq> NL)"
    using payload_ends_line assms(2) by blast
  then show ?thesis
    by (auto simp: r whole_line_def in_set_conv_nth)
qed

section \<open>The heads\<close>

lemma nat_dec_clean: "NL \<notin> set (nat_dec n)"
proof (induction n rule: nat_dec.induct)
  case (1 n)
  have digit: "dec_digit d \<noteq> NL" if "d < 10" for d
  proof
    assume "dec_digit d = NL"
    then have "(of_char (char_of (48 + d) :: char) :: nat) = of_char NL"
      by (simp only: dec_digit_def)
    then show False
      using that by (simp add: of_char_of)
  qed
  show ?case
    using 1 digit [of "n mod 10"] digit [of n] by (subst nat_dec.simps) auto
qed

lemma c_fixed_clean: "NL \<notin> set (c_fixed k x)"
  by (cases x) (auto simp: rat_fixed_def Let_def nat_dec_clean)

lemma centi_value:
  assumes "\<bar>v\<bar> \<le> 32768"
  shows "\<exists>y. c_div f64_round (Fin (of_int v)) (Fin 100) = Fin y \<and> \<bar>y\<bar> \<le> 656"
proof (cases "v = 0")
  case False
  define x :: rat where "x = of_int v / 100"
  have "1 \<le> \<bar>v\<bar>" using False by linarith
  then have "(of_int 1 :: rat) \<le> of_int \<bar>v\<bar>" "(of_int \<bar>v\<bar> :: rat) \<le> of_int 32768"
    using assms by (simp_all only: of_int_le_iff)
  then have x: "1 / 100 \<le> \<bar>x\<bar>" "\<bar>x\<bar> \<le> 32768 / 100" by (simp_all add: x_def)
  have lo: "pow2 (- 1074 + int 53 - 1) \<le> \<bar>x\<bar>" using pow2_numerals(1) x(1) by simp
  have "2 * \<bar>x\<bar> < pow2 1024" using pow2_numerals(2) x(2) by simp
  then obtain y where y: "f64_round x = Fin y" using f_round_finite [OF _ lo, of 1024] by (auto simp: f64_round_def)
  have "\<bar>y - x\<bar> \<le> \<bar>x\<bar> / pow2 (int 53)" using f_round_error [OF lo] y by (simp add: f64_round_def)
  also have "\<dots> \<le> \<bar>x\<bar>" by (simp add: pow2_def field_simps)
  finally have "\<bar>y\<bar> \<le> 656" using x(2) by linarith
  then show ?thesis using y by (simp add: c_div_def x_def)
qed (simp add: c_div_def f64_round_def)

lemma length_centi:
  assumes "\<bar>v\<bar> \<le> 32768"
  shows "length (centi_text v) \<le> 7"
proof -
  obtain y where y: "c_div f64_round (Fin (of_int v)) (Fin 100) = Fin y" "\<bar>y\<bar> \<le> 656"
    using centi_value [OF assms] by blast
  define i where "i = round_half_even (\<bar>y\<bar> * 10 ^ 2)"
  have "i \<le> round_half_even (of_int 65600)"
    unfolding i_def using y(2) by (intro round_half_even_mono) simp
  moreover have "round_half_even (of_int 0) \<le> i"
    unfolding i_def by (intro round_half_even_mono) simp
  ultimately have i: "0 \<le> i" "i \<le> 65600" by (simp_all only: round_half_even_int)
  have "i div 100 < 1000" using i by simp
  then have whole: "length (nat_dec (nat (i div 10 ^ 2))) \<le> 3" using i by (intro length_nat_dec) simp_all
  have "i mod 100 < 100" by simp
  then have "nat (i mod 10 ^ 2) < 10 ^ 2" by (simp add: nat_less_iff)
  then have "length (nat_dec (nat (i mod 10 ^ 2))) \<le> 2" by (rule length_nat_dec) simp
  then have frac: "length (pad_zeros 2 (nat_dec (nat (i mod 10 ^ 2)))) = 2" by auto
  show ?thesis
    using whole frac unfolding centi_text_def y(1) c_fixed.simps rat_fixed_def i_def [symmetric] Let_def
    by (simp del: pad_zeros.simps)
qed

text \<open>A text the daemon puts in a head: at most \<open>n\<close> characters and no line break.\<close>

definition short_text :: "nat \<Rightarrow> string ptr \<Rightarrow> bool" where
  "short_text n s \<longleftrightarrow> length (or_dash s) \<le> n \<and> NL \<notin> set (or_dash s)"

lemma head_clean:
  assumes "short_text n utc" and "short_text k tag" and "short_text l outcome"
  shows "NL \<notin> set (rx_head utc tag rssi snr len)" and "NL \<notin> set (tx_head utc tag outcome len)"
  using assms by (simp_all add: short_text_def rx_head_def tx_head_def centi_text_def c_fixed_clean nat_dec_clean)

lemma head_short:
  assumes "short_text 39 utc" and "short_text 16 tag" and "short_text 16 outcome"
    and "\<bar>rssi\<bar> \<le> 32768" and "\<bar>snr\<bar> \<le> 32768" and "len \<le> 255"
  shows "length (rx_head utc tag rssi snr len) \<le> 240" and "length (tx_head utc tag outcome len) \<le> 240"
proof -
  have "length (nat_dec len) \<le> 3" using assms(6) by (intro length_nat_dec) simp_all
  then show "length (rx_head utc tag rssi snr len) \<le> 240" and "length (tx_head utc tag outcome len) \<le> 240"
    using assms length_centi [OF assms(4)] length_centi [OF assms(5)] by (simp_all add: short_text_def rx_head_def tx_head_def)
qed

lemma whole_record:
  assumes "length head \<le> 240" and "length buf \<le> 255"
  shows "log_record (rflog_format head buf (replicate RFLOG_LINE_MAX NUL)) (stat_ok, opened, truncates, io) f =
    rflog_write_line stat_ok opened truncates (record_text head buf) io f"
proof -
  have "length (record_text head buf) < length (replicate RFLOG_LINE_MAX NUL)"
    using assms by (simp add: record_text_def length_hex ascii_quote_def quote_end_def c_consts)
  from format_whole [OF this] show ?thesis
    by (auto simp: holds_def log_record_def c_consts split: prod.splits)
qed

text \<open>
  C40: The log keeps one record a line. For every received packet and every sent one, of at most 255 bytes, with any RSSI and
  SNR in 16 bits, the open log is given exactly the intended text: the head, the payload in hexadecimal, the
  payload as text and a line break; nothing is cut. The clock's text has at most 39 characters (its buffer has 40), the
  band's tag and the outcome at most 16, and none holds a line break. In a buffer of any size from 8 bytes and
  for a payload of any length, both formatters write inside the buffer one line with a line break at its end and no other in
  it, also where the text had to be cut.
\<close>

theorem rflog_record_is_one_line:
  assumes "short_text 39 utc" and "short_text 16 tag" and "short_text 16 outcome"
    and "\<bar>rssi\<bar> \<le> 32768" and "\<bar>snr\<bar> \<le> 32768" and "length buf \<le> 255" and "rf_open f" and "8 \<le> length out"
  shows "daemon_rflog_rx utc tag rssi snr buf (stat_ok, opened, truncates, io) f =
      rflog_write_line stat_ok opened truncates (record_text (rx_head utc tag rssi snr (length buf)) buf) io f \<and>
    daemon_rflog_tx utc tag outcome buf (stat_ok, opened, truncates, io) f =
      rflog_write_line stat_ok opened truncates (record_text (tx_head utc tag outcome (length buf)) buf) io f \<and>
    whole_line (length out) (daemon_rflog_format_rx utc tag rssi snr any out) \<and>
    whole_line (length out) (daemon_rflog_format_tx utc tag outcome any out)"
  using head_clean [OF assms(1-3)] head_short [OF assms(1-6)] assms(6-8)
  by (simp add: daemon_rflog_rx_def daemon_rflog_tx_def daemon_rflog_format_rx_def daemon_rflog_format_tx_def
      whole_record format_whole_line)

section \<open>The file keeps the newest records\<close>

lemma write_all_result:
  "write_all io rest acc = Some (ok, acc1, io1) \<Longrightarrow>
     \<exists>k. acc1 = acc @ take k rest \<and> (ok \<longrightarrow> acc1 = acc @ rest)"
proof (induction io rest acc rule: write_all.induct)
  case (1 io rest acc)
  show ?case
  proof (cases "rest = []")
    case True
    then show ?thesis
      using "1.prems" by (subst (asm) write_all.simps) simp
  next
    case False
    note unfolded = "1.prems" [unfolded write_all.simps [of io rest acc]]
    show ?thesis
    proof (cases io)
      case (Cons a io2)
      show ?thesis
      proof (cases a)
        case Io_Eintr
        then show ?thesis
          using "1.IH"(1) [OF False] unfolded Cons False by simp
      next
        case Io_Fail
        then have "acc1 = acc @ take 0 rest \<and> \<not> ok"
          using unfolded Cons False by simp
        then show ?thesis
          by blast
      next
        case (Io_Count w)
        then obtain k where k: "acc1 = (acc @ take w rest) @ take k (drop w rest)"
          and whole: "ok \<longrightarrow> acc1 = (acc @ take w rest) @ drop w rest"
          using "1.IH"(2) [OF False Cons Io_Count] unfolded Cons False by auto
        have "acc1 = acc @ take (w + k) rest"
          using k by (simp add: take_add)
        then show ?thesis
          using whole by auto
      qed
    qed (use unfolded False in simp)
  qed
qed

lemma copy_result:
  "copy_segment io live off prev = Some (ok, prev1, io1) \<Longrightarrow> prev = take off live \<Longrightarrow>
     \<exists>k. prev1 = take k live \<and> (ok \<longrightarrow> prev1 = live)"
proof (induction io live off prev rule: copy_segment.induct)
  case (1 io live off prev)
  note unfolded = "1.prems"(1) [unfolded copy_segment.simps [of io live off prev]]
  show ?case
  proof (cases io)
    case (Cons a io2)
    show ?thesis
    proof (cases a)
      case Io_Eintr
      then show ?thesis
        using "1.IH"(1) [OF Cons Io_Eintr] unfolded Cons "1.prems"(2) by simp
    next
      case Io_Fail
      then show ?thesis
        using unfolded Cons "1.prems"(2) by auto
    next
      case (Io_Count n)
      let ?chunk = "take (min (Suc n) 65536) (drop off live)"
      show ?thesis
      proof (cases "?chunk = []")
        case True
        then have "drop off live = []"
          by simp
        then show ?thesis
          using unfolded Cons Io_Count True "1.prems"(2) by (auto simp: Let_def intro: exI [of _ off])
      next
        case False
        then obtain ok2 prev2 io3 where w: "write_all io2 ?chunk prev = Some (ok2, prev2, io3)"
          using unfolded Cons Io_Count by (auto simp: Let_def split: option.splits)
        obtain k where k: "prev2 = prev @ take k ?chunk" "ok2 \<longrightarrow> prev2 = prev @ ?chunk"
          using write_all_result [OF w] by blast
        show ?thesis
        proof (cases ok2)
          case True
          have "take (off + length ?chunk) live = take off live @ ?chunk"
            by (simp add: take_add min_def)
          then have next_off: "prev2 = take (off + length ?chunk) live"
            using k(2) True "1.prems"(2) by simp
          show ?thesis
            using "1.IH"(2) [OF Cons Io_Count HOL.refl False w _ _ True _ next_off] unfolded Cons Io_Count False w True
            by (simp add: Let_def)
        next
          case ok2: False
          have "prev2 = take (off + min k (min (Suc n) 65536)) live"
            using k(1) "1.prems"(2) by (simp add: take_add)
          then show ?thesis
            using unfolded Cons Io_Count False w ok2 by (auto simp: Let_def)
        qed
      qed
    qed
  qed (use unfolded in simp)
qed

text \<open>
  C39: A record written to the RF log, whatever the file system answers, never loses what is in the live file: either the
  live file keeps all of it in front of the new bytes, or it was first copied completely into the previous segment. What is
  appended is the record or a prefix of it, the whole record when the write succeeds.
\<close>

theorem rflog_live_records_kept:
  assumes "rflog_write_line stat_ok opened truncates line io f = Some (ok, f1)" and "rf_open f"
  shows "\<exists>k. let new = take k line in (ok \<longrightarrow> new = line) \<and>
    (rf_live f1 = rf_live f @ new \<or> rf_prev f1 = Some (rf_live f) \<and> rf_live f1 = new)"
proof -
  obtain f2 io2 where roll: "rflog_roll_if_needed stat_ok opened truncates (length line) io f = Some (f2, io2)"
    using assms by (auto simp: rflog_write_line_def split: option.splits)
  obtain live io3 where w: "write_all io2 line (rf_live f2) = Some (ok, live, io3)" and f1: "f1 = f2\<lparr>rf_live := live\<rparr>"
    using assms roll by (auto simp: rflog_write_line_def split: option.splits)
  obtain k where k: "live = rf_live f2 @ take k line" "ok \<longrightarrow> live = rf_live f2 @ line"
    using write_all_result [OF w] by blast
  have "rf_live f2 = rf_live f \<or> rf_prev f2 = Some (rf_live f) \<and> rf_live f2 = []"
    using roll copy_result
    by (fastforce simp: rflog_roll_if_needed_def rflog_copy_to_previous_def split: if_splits option.splits)
  then show ?thesis
    using k f1 by (intro exI [of _ k]) (auto simp: Let_def)
qed

text \<open>
  A roll that fails loses the previous segment all the same, although the live file is kept: opening it for the copy
  truncates it first. The comment above the call says that the previous segment is replaced only when the copy succeeded.
\<close>

lemma rflog_failed_roll_loses_previous:
  "rflog_write_line True True True ''new'' [Io_Fail, Io_Count 3]
      \<lparr>rf_open = True, rf_live = ''live'', rf_prev = Some ''previous'', rf_max_bytes = 5\<rparr> =
    Some (True, \<lparr>rf_open = True, rf_live = ''livenew'', rf_prev = Some [], rf_max_bytes = 5\<rparr>)"
  by (simp add: rflog_write_line_def rflog_roll_if_needed_def rflog_copy_to_previous_def copy_segment.simps write_all.simps)

theorem rflog_live_records_kept_witness:
  "rflog_write_line True True True ''new'' [Io_Eintr, Io_Count 9, Io_Count 4, Io_Count 0, Io_Count 1, Io_Eintr, Io_Count 5]
      \<lparr>rf_open = True, rf_live = ''live'', rf_prev = Some ''previous'', rf_max_bytes = 5\<rparr> =
    Some (True, \<lparr>rf_open = True, rf_live = ''new'', rf_prev = Some ''live'', rf_max_bytes = 5\<rparr>) \<and>
   (\<exists>k. let new = take k ''new'' in (''new'' = ''livenew'' @ new \<or> Some ''live'' = Some ''live'' \<and> ''new'' = new))"
proof -
  let ?f = "\<lparr>rf_open = True, rf_live = ''live'', rf_prev = Some ''previous'', rf_max_bytes = 5\<rparr>"
  have run: "rflog_write_line True True True ''new'' [Io_Eintr, Io_Count 9, Io_Count 4, Io_Count 0, Io_Count 1, Io_Eintr, Io_Count 5] ?f
      = Some (True, \<lparr>rf_open = True, rf_live = ''new'', rf_prev = Some ''live'', rf_max_bytes = 5\<rparr>)"
    by (simp add: rflog_write_line_def rflog_roll_if_needed_def rflog_copy_to_previous_def copy_segment.simps write_all.simps)
  from rflog_live_records_kept [OF run] obtain k where "''new'' = take k ''new''"
    by (auto simp: Let_def)
  then show ?thesis
    using run by (auto simp: Let_def)
qed

text \<open>A sent packet, and a received one that does not fit its buffer.\<close>

theorem rflog_record_is_one_line_witness:
  "daemon_rflog_tx (Some ''T'') (Some ''433'') (Some ''ok'') [0x41, 0x0A] (True, True, True, [Io_Count 99])
      \<lparr>rf_open = True, rf_live = [], rf_prev = None, rf_max_bytes = 500\<rparr> =
    rflog_write_line True True True (record_text ''T TX rssi=- snr=- len=2 outcome=ok band=433'' [0x41, 0x0A]) [Io_Count 99]
      \<lparr>rf_open = True, rf_live = [], rf_prev = None, rf_max_bytes = 500\<rparr> \<and>
   whole_line 20 (daemon_rflog_format_rx (Some ''T'') (Some ''433'') (- 9050) 725 (replicate 300 0x41) (replicate 20 NUL))"
proof -
  have "tx_head (Some ''T'') (Some ''433'') (Some ''ok'') (Suc (Suc 0)) = ''T TX rssi=- snr=- len=2 outcome=ok band=433''"
    by code_simp
  then show ?thesis
    using rflog_record_is_one_line [of "Some ''T''" "Some ''433''" "Some ''ok''" "- 9050" 725 "[0x41, 0x0A]"
        "\<lparr>rf_open = True, rf_live = [], rf_prev = None, rf_max_bytes = 500\<rparr>" "replicate 20 NUL" True True True "[Io_Count 99]"
        "replicate 300 0x41"]
    by (simp add: short_text_def or_dash_def)
qed

end
