(* ===== verification/Radio_Cad.thy ===== *)
theory Radio_Cad
  imports Radio_Ctrl
begin

text \<open>
  Channel activity detection, \<open>radio_cad.cpp\<close>, and the sample of the CAD monitor with its
  de-flicker policy (\<open>daemon_monitoring.h\<close>). The channel scan detaches the packet callback and
  restarts the receiver afterwards, so it must never run while a received packet waits in the
  chip's FIFO. The result codes of RadioLib's scan are a parameter (\<open>scan_codes\<close>), as the
  library defines them; a code that a RadioLib version lacks is \<open>None\<close>.
\<close>

section \<open>Probe results\<close>

datatype cad_probe_status = RADIO_CAD_PROBE_UNAVAILABLE | RADIO_CAD_PROBE_FREE | RADIO_CAD_PROBE_BUSY

record cad_probe =
  cp_status :: cad_probe_status
  cp_scan_state :: int
  cp_scan_ran :: bool
  cp_rssi :: c_float

fun radio_cad_probe_status_name :: "cad_probe_status \<Rightarrow> string" where
  "radio_cad_probe_status_name RADIO_CAD_PROBE_FREE = ''FREE''"
| "radio_cad_probe_status_name RADIO_CAD_PROBE_BUSY = ''BUSY''"
| "radio_cad_probe_status_name RADIO_CAD_PROBE_UNAVAILABLE = ''UNAVAILABLE''"

record scan_codes =
  sc_channel_free :: "int option"
  sc_channel_occupied :: "int option"
  sc_channel_busy :: "int option"
  sc_lora_detected :: "int option"
  sc_preamble_detected :: "int option"
  sc_err_channel_busy :: "int option"

definition radio_cad_status_from_scan_state :: "scan_codes \<Rightarrow> int \<Rightarrow> cad_probe_status" where
  "radio_cad_status_from_scan_state sc state =
     (if sc_channel_free sc = Some state then RADIO_CAD_PROBE_FREE
      else if sc_channel_occupied sc = Some state then RADIO_CAD_PROBE_BUSY
      else if sc_channel_busy sc = Some state then RADIO_CAD_PROBE_BUSY
      else if sc_lora_detected sc = Some state then RADIO_CAD_PROBE_BUSY
      else if sc_preamble_detected sc = Some state then RADIO_CAD_PROBE_BUSY
      else if sc_err_channel_busy sc = Some state then RADIO_CAD_PROBE_BUSY
      else if state = 0 then RADIO_CAD_PROBE_FREE
      else if 0 < state then RADIO_CAD_PROBE_BUSY
      else RADIO_CAD_PROBE_UNAVAILABLE)"

definition radio_cad_probe_unavailable :: cad_probe where
  "radio_cad_probe_unavailable =
     \<lparr>cp_status = RADIO_CAD_PROBE_UNAVAILABLE, cp_scan_state = 0, cp_scan_ran = False, cp_rssi = Fin (- 200)\<rparr>"

section \<open>Steps around a scan\<close>

text \<open>The result is (abandon the probe, a packet is pending).\<close>

definition radio_cad_quiesce_and_check_rx :: "driver \<Rightarrow> radio \<Rightarrow> (bool \<times> bool) \<times> radio" where
  "radio_cad_quiesce_and_check_rx d r =
     (let (state, r1) = drv_status d Call_Standby r in
      if state \<noteq> RADIOLIB_ERR_NONE then ((True, False), r1)
      else if rc_received r1 then ((True, True), r1\<lparr>rc_received := True\<rparr>)
      else
        (let r2 = drv d Call_RxDonePending r1; done = dv_rx_done d (rc_calls r2) in
         if \<not> done then ((False, False), r2)
         else ((True, True), r2\<lparr>rc_received := True\<rparr>)))"

definition radio_cad_detach_rx_before_probe :: "driver \<Rightarrow> radio \<Rightarrow> radio" where
  "radio_cad_detach_rx_before_probe d r =
     (if \<not> rc_driver r then r
      else if rc_mode r \<noteq> RADIO_MODE_LORA then r
      else drv d Call_ClearAction r)"

definition radio_cad_restore_rx_after_probe :: "driver \<Rightarrow> radio \<Rightarrow> radio" where
  "radio_cad_restore_rx_after_probe d r =
     (if \<not> rc_driver r \<or> \<not> radio_controller_ready r then r
      else if rc_mode r \<noteq> RADIO_MODE_LORA then r
      else
        (let r1 = (drv d Call_ClearIrq r)\<lparr>rc_received := False\<rparr>;
             r2 = drv d Call_SetAction r1
         in rearm_start_receive d r2))"

definition radio_cad_probe_preconditions_ok :: "radio \<Rightarrow> bool" where
  "radio_cad_probe_preconditions_ok r \<longleftrightarrow> rc_mode r = RADIO_MODE_LORA \<and> \<not> rc_rearm_pending r"

section \<open>The probes\<close>

text \<open>\<open>can_lock\<close> and \<open>tx_race\<close> as in the re-arm retry.\<close>

definition radio_cad_probe_passive :: "driver \<Rightarrow> bool \<Rightarrow> bool \<Rightarrow> radio \<Rightarrow> cad_probe \<times> radio" where
  "radio_cad_probe_passive d can_lock tx_race r =
     (let result = radio_cad_probe_unavailable in
      if \<not> rc_driver r \<or> \<not> radio_controller_ready r then (result, r)
      else if \<not> radio_cad_probe_preconditions_ok r then (result, r)
      else if rc_tx_busy r then (result, r)
      else if \<not> can_lock then (result, r)
      else
        (let r1 = tx_race_step tx_race r in
         if rc_tx_busy r1 then (result, r1)
         else
           (let (rssi, r2) = drv_float d Call_RssiProbe r1;
                result1 = result\<lparr>cp_rssi := rssi\<rparr>
            in if c_le rssi (Fin (- 190)) then (result1\<lparr>cp_status := RADIO_CAD_PROBE_UNAVAILABLE\<rparr>, r2)
               else (result1\<lparr>cp_scan_ran := False,
                       cp_status := (if c_ge rssi (rc_cad_threshold r2)
                         then RADIO_CAD_PROBE_BUSY else RADIO_CAD_PROBE_FREE)\<rparr>, r2))))"

text \<open>The common tail of both active probes, from the pending-packet guard on.\<close>

definition active_probe_under_lock ::
  "scan_codes \<Rightarrow> driver \<Rightarrow> (radio \<Rightarrow> c_float \<times> radio) \<Rightarrow> radio \<Rightarrow> cad_probe \<times> radio" where
  "active_probe_under_lock sc d packet_rssi r =
     (let result = radio_cad_probe_unavailable in
      if rc_received r then
        (let (rssi, r1) = drv_float d Call_RssiProbe r
         in (result\<lparr>cp_rssi := rssi, cp_scan_ran := False, cp_status := RADIO_CAD_PROBE_BUSY\<rparr>, r1))
      else if rc_rearm_pending r then (result, r)
      else if rc_mode r \<noteq> RADIO_MODE_LORA then
        (let (rssi, r1) = drv_float d Call_RssiProbe r in (result\<lparr>cp_rssi := rssi\<rparr>, r1))
      else
        (let (rssi, r1) = packet_rssi r;
             result1 = result\<lparr>cp_rssi := rssi\<rparr>;
             ((abandon, pending), r2) = radio_cad_quiesce_and_check_rx d r1
         in if abandon then
              (result1\<lparr>cp_scan_ran := False,
                 cp_status := (if pending then RADIO_CAD_PROBE_BUSY else RADIO_CAD_PROBE_UNAVAILABLE)\<rparr>, r2)
            else
              (let r3 = radio_cad_detach_rx_before_probe d (r2\<lparr>rc_cad_active := True\<rparr>);
                   (state, r4) = drv_status d Call_ScanChannel r3;
                   r5 = radio_cad_restore_rx_after_probe d (r4\<lparr>rc_cad_active := False\<rparr>)
               in (result1\<lparr>cp_scan_state := state, cp_scan_ran := True,
                     cp_status := radio_cad_status_from_scan_state sc state\<rparr>, r5))))"

definition radio_cad_try_probe ::
  "scan_codes \<Rightarrow> driver \<Rightarrow> bool \<Rightarrow> bool \<Rightarrow> radio \<Rightarrow> cad_probe \<times> radio" where
  "radio_cad_try_probe sc d can_lock tx_race r =
     (let result = radio_cad_probe_unavailable in
      if \<not> rc_driver r \<or> \<not> radio_controller_ready r then (result, r)
      else if \<not> rc_cad_scan_available r then radio_cad_probe_passive d can_lock tx_race r
      else if rc_tx_busy r then (result, r)
      else if \<not> can_lock then (result, r)
      else
        (let r1 = tx_race_step tx_race r in
         if rc_tx_busy r1 then (result, r1)
         else active_probe_under_lock sc d (drv_float d Call_GetRSSI) r1))"

definition radio_cad_probe ::
  "scan_codes \<Rightarrow> driver \<Rightarrow> bool \<Rightarrow> bool \<Rightarrow> radio \<Rightarrow> cad_probe \<times> radio" where
  "radio_cad_probe sc d can_lock tx_race r =
     (if \<not> rc_driver r \<or> \<not> radio_controller_ready r then (radio_cad_probe_unavailable, r)
      else if \<not> rc_cad_scan_available r then radio_cad_probe_passive d can_lock tx_race r
      else active_probe_under_lock sc d (radio_controller_packet_rssi d) r)"

section \<open>Safety of the probes\<close>

text \<open>
  The calls that can destroy a packet waiting in the chip in a mode. Outside LoRa \<open>getRSSI\<close> starts the receiver, clears all
  flags and ends in standby; in LoRa it only reads a register. \<open>rssiProbe\<close> and \<open>readLiveRssi\<close> only read registers.
\<close>

fun destroys_packet :: "radio_mode \<Rightarrow> drv_call \<Rightarrow> bool" where
  "destroys_packet m Call_ScanChannel = True"
| "destroys_packet m Call_StartReceive = True"
| "destroys_packet m Call_ClearIrq = True"
| "destroys_packet m Call_Sleep = True"
| "destroys_packet m (Call_ReadData _) = True"
| "destroys_packet m (Call_Transmit _) = True"
| "destroys_packet m (Call_SwitchMode _) = True"
| "destroys_packet m (Call_LoraParam _ _) = True"
| "destroys_packet m (Call_FskParam _ _) = True"
| "destroys_packet m Call_GetRSSI = (m \<noteq> RADIO_MODE_LORA)"
| "destroys_packet m _ = False"

text \<open>
  What a probe may add to the call history \<open>old\<close>: only harmless calls, or a complete scan, which is in LoRa mode,
  was preceded by a successful standby and a negative RxDone answer and is followed by the restart of the receiver.
\<close>

definition harmless_calls :: "radio_mode \<Rightarrow> drv_call list \<Rightarrow> radio \<Rightarrow> bool" where
  "harmless_calls m old r \<longleftrightarrow> (\<exists>new. rc_calls r = new @ old \<and> (\<forall>c \<in> set new. \<not> destroys_packet m c))"

definition checked_scan :: "driver \<Rightarrow> radio_mode \<Rightarrow> drv_call list \<Rightarrow> radio \<Rightarrow> bool" where
  "checked_scan d m old r \<longleftrightarrow> m = RADIO_MODE_LORA \<and>
     (\<exists>before. rc_calls r = [Call_StartReceive, Call_SetAction, Call_ClearIrq, Call_ScanChannel,
          Call_ClearAction, Call_RxDonePending, Call_Standby] @ before @ old \<and>
        (\<forall>c \<in> set before. \<not> destroys_packet m c) \<and>
        dv_status d (Call_Standby # before @ old) = RADIOLIB_ERR_NONE \<and>
        \<not> dv_rx_done d (Call_RxDonePending # Call_Standby # before @ old))"

text \<open>From \<open>r\<close> to \<open>r'\<close>; with a packet known to wait only harmless calls are safe.\<close>

definition safe_probe :: "driver \<Rightarrow> radio \<Rightarrow> radio \<Rightarrow> bool" where
  "safe_probe d r r' \<longleftrightarrow> harmless_calls (rc_mode r) (rc_calls r) r' \<or>
     checked_scan d (rc_mode r) (rc_calls r) r' \<and> \<not> rc_received r"

lemma harmless_same: "rc_calls r = old \<Longrightarrow> harmless_calls m old r"
  by (simp add: harmless_calls_def)

lemma harmless_one: "rc_calls r = c # old \<Longrightarrow> \<not> destroys_packet m c \<Longrightarrow> harmless_calls m old r"
  unfolding harmless_calls_def by (rule exI [of _ "[c]"]) simp

lemma harmless_cons:
  assumes "harmless_calls m (c # old) r" and "\<not> destroys_packet m c"
  shows "harmless_calls m old r"
proof -
  obtain new where "rc_calls r = new @ c # old" "\<forall>c \<in> set new. \<not> destroys_packet m c"
    using assms(1) unfolding harmless_calls_def by blast
  with assms(2) show ?thesis
    unfolding harmless_calls_def by (intro exI [of _ "new @ [c]"]) auto
qed

lemma scan_cons:
  assumes "checked_scan d m (c # old) r" and "\<not> destroys_packet m c"
  shows "checked_scan d m old r"
proof -
  obtain before where "rc_calls r = [Call_StartReceive, Call_SetAction, Call_ClearIrq, Call_ScanChannel,
          Call_ClearAction, Call_RxDonePending, Call_Standby] @ before @ c # old"
      "\<forall>c \<in> set before. \<not> destroys_packet m c" "dv_status d (Call_Standby # before @ c # old) = RADIOLIB_ERR_NONE"
      "\<not> dv_rx_done d (Call_RxDonePending # Call_Standby # before @ c # old)" "m = RADIO_MODE_LORA"
    using assms(1) unfolding checked_scan_def by blast
  with assms(2) show ?thesis
    unfolding checked_scan_def by (intro conjI exI [of _ "before @ [c]"]) auto
qed

lemma passive_probe_calls:
  "rc_calls (snd (radio_cad_probe_passive d can_lock tx_race r)) = rc_calls r \<or>
   rc_calls (snd (radio_cad_probe_passive d can_lock tx_race r)) = Call_RssiProbe # rc_calls r"
  by (auto simp: radio_cad_probe_passive_def Let_def drv_float_def tx_race_step_def)

lemma passive_probe_ok:
  "harmless_calls m (rc_calls r) (snd (radio_cad_probe_passive d can_lock tx_race r))"
  using passive_probe_calls [of d can_lock tx_race r]
  by (elim disjE) (simp_all add: harmless_same harmless_one)

lemma quiesce_cases:
  assumes "radio_cad_quiesce_and_check_rx d r = ((abandon, pending), r')"
  shows "(abandon \<longrightarrow> harmless_calls m (rc_calls r) r' \<and> rc_received r' = (pending \<or> rc_received r')) \<and>
    (pending \<longrightarrow> abandon \<and> rc_received r') \<and>
    (\<not> abandon \<longrightarrow> rc_calls r' = Call_RxDonePending # Call_Standby # rc_calls r \<and>
        dv_status d (Call_Standby # rc_calls r) = RADIOLIB_ERR_NONE \<and>
        \<not> dv_rx_done d (Call_RxDonePending # Call_Standby # rc_calls r) \<and>
        \<not> rc_received (drv d Call_Standby r)) \<and>
    rc_mode r' = rc_mode r \<and> rc_driver r' = rc_driver r \<and> rc_health r' = rc_health r"
proof -
  have one: "harmless_calls m (rc_calls r) x" if "rc_calls x = Call_Standby # rc_calls r" for x
    using harmless_one [OF that] by simp
  have two: "harmless_calls m (rc_calls r) x" if "rc_calls x = Call_RxDonePending # Call_Standby # rc_calls r" for x
    using harmless_cons [OF harmless_one [OF that]] by simp
  show ?thesis
    using assms one two
    by (auto simp: radio_cad_quiesce_and_check_rx_def Let_def drv_status_def split: if_splits)
qed

text \<open>An active probe; it scans only when no packet is known to wait.\<close>

lemma active_probe_ok:
  assumes "rc_driver r" and "radio_controller_ready r"
  shows "harmless_calls (rc_mode r) (rc_calls r) (snd (active_probe_under_lock sc d (drv_float d Call_GetRSSI) r)) \<or>
    checked_scan d (rc_mode r) (rc_calls r) (snd (active_probe_under_lock sc d (drv_float d Call_GetRSSI) r)) \<and> \<not> rc_received r"
proof (cases "rc_received r \<or> rc_rearm_pending r \<or> rc_mode r \<noteq> RADIO_MODE_LORA")
  case True
  let ?r = "snd (active_probe_under_lock sc d (drv_float d Call_GetRSSI) r)"
  have "rc_calls ?r = rc_calls r \<or> rc_calls ?r = Call_RssiProbe # rc_calls r"
    using True by (auto simp: active_probe_under_lock_def Let_def drv_float_def)
  then show ?thesis
    by (elim disjE) (simp_all add: harmless_same harmless_one)
next
  case False
  let ?r1 = "drv d Call_GetRSSI r"
  obtain abandon pending r2 where q: "radio_cad_quiesce_and_check_rx d ?r1 = ((abandon, pending), r2)"
    by (metis prod.exhaust)
  note qc = quiesce_cases [OF q, of "rc_mode r"]
  show ?thesis
  proof (cases abandon)
    case True
    then have "harmless_calls (rc_mode r) (Call_GetRSSI # rc_calls r) r2"
      using qc by simp
    then have "harmless_calls (rc_mode r) (rc_calls r) r2"
      by (rule harmless_cons) (use False in simp)
    moreover have "snd (active_probe_under_lock sc d (drv_float d Call_GetRSSI) r) = r2"
      using False True q by (simp add: active_probe_under_lock_def Let_def drv_float_def)
    ultimately show ?thesis by simp
  next
    case False2: False
    have r2: "rc_calls r2 = Call_RxDonePending # Call_Standby # Call_GetRSSI # rc_calls r"
      "dv_status d (Call_Standby # Call_GetRSSI # rc_calls r) = RADIOLIB_ERR_NONE"
      "\<not> dv_rx_done d (Call_RxDonePending # Call_Standby # Call_GetRSSI # rc_calls r)"
      "rc_mode r2 = RADIO_MODE_LORA" "rc_driver r2" "radio_controller_ready r2"
      using qc False2 False assms by (auto simp: radio_controller_ready_def)
    have "rc_calls (snd (active_probe_under_lock sc d (drv_float d Call_GetRSSI) r)) =
        [Call_StartReceive, Call_SetAction, Call_ClearIrq, Call_ScanChannel, Call_ClearAction] @ rc_calls r2"
      using False False2 q r2(4-6)
      by (simp add: active_probe_under_lock_def Let_def drv_float_def drv_status_def
          radio_cad_detach_rx_before_probe_def radio_cad_restore_rx_after_probe_def
          radio_controller_ready_def)
    with r2(1-3) False show ?thesis
      unfolding checked_scan_def
      by (intro disjI2 conjI exI [of _ "[Call_GetRSSI]"]) simp_all
  qed
qed

lemma packet_rssi_driver: "rc_driver r \<Longrightarrow> radio_controller_packet_rssi d r = drv_float d Call_GetRSSI r"
  by (simp add: radio_controller_packet_rssi_def)

lemma active_probe_packet_rssi:
  "rc_driver r \<Longrightarrow> active_probe_under_lock sc d (radio_controller_packet_rssi d) r =
     active_probe_under_lock sc d (drv_float d Call_GetRSSI) r"
  by (simp add: active_probe_under_lock_def packet_rssi_driver)

text \<open>
  The probe of the transmit gate and of \<open>GET CHANNEL\<close> scans only when no packet is known to wait and nothing is on the air.
\<close>

lemma try_probe_ok:
  "harmless_calls (rc_mode r) (rc_calls r) (snd (radio_cad_try_probe sc d can_lock tx_race r)) \<or>
   checked_scan d (rc_mode r) (rc_calls r) (snd (radio_cad_try_probe sc d can_lock tx_race r)) \<and>
     \<not> rc_received r \<and> \<not> rc_tx_busy r \<and> can_lock"
proof -
  have race: "rc_calls (tx_race_step tx_race r) = rc_calls r" "rc_driver (tx_race_step tx_race r) = rc_driver r"
    "radio_controller_ready (tx_race_step tx_race r) = radio_controller_ready r" "rc_mode (tx_race_step tx_race r) = rc_mode r"
    "rc_received (tx_race_step tx_race r) = rc_received r"
    by (simp_all add: tx_race_step_def radio_controller_ready_def)
  show ?thesis
    using passive_probe_ok active_probe_ok [of "tx_race_step tx_race r" sc d] race
    by (auto simp: radio_cad_try_probe_def Let_def harmless_same)
qed

text \<open>
  C12: No probe ever destroys a received packet. Whatever the chip does, each probe performs
  either only calls that are harmless in its mode (in FSK not even \<open>getRSSI\<close>), or a full scan, in LoRa mode and with
  no packet known to wait, that comes after a successful standby and a negative RxDone answer and that ends with the
  receiver restarted.
\<close>

theorem cad_probes_never_destroy_a_packet:
  "harmless_calls (rc_mode r) (rc_calls r) (snd (radio_cad_probe_passive d can_lock tx_race r)) \<and>
   safe_probe d r (snd (radio_cad_try_probe sc d can_lock tx_race r)) \<and>
   safe_probe d r (snd (radio_cad_probe sc d can_lock tx_race r))"
proof -
  have "safe_probe d r (snd (radio_cad_probe sc d can_lock tx_race r))"
    using passive_probe_ok active_probe_ok [of r sc d]
    by (auto simp: radio_cad_probe_def active_probe_packet_rssi harmless_same safe_probe_def)
  then show ?thesis
    using passive_probe_ok [of "rc_mode r" r d can_lock tx_race] try_probe_ok [of r sc d can_lock tx_race]
    unfolding safe_probe_def by blast
qed

text \<open>
  A FREE verdict is never guessed: every probe that says FREE did so on a ready radio in LoRa
  mode whose receiver is armed, from a scan that reported a free channel or from a valid RSSI
  reading below the threshold. A pending packet always makes an active probe say BUSY and stays
  pending.
\<close>

theorem free_verdict_is_measured:
  "(\<forall>p r'. radio_cad_probe_passive d can_lock tx_race r = (p, r') \<and> cp_status p = RADIO_CAD_PROBE_FREE \<longrightarrow>
      radio_controller_ready r \<and> rc_mode r = RADIO_MODE_LORA \<and> \<not> rc_rearm_pending r \<and> \<not> rc_tx_busy r \<and>
      \<not> c_le (cp_rssi p) (Fin (- 190)) \<and> \<not> c_ge (cp_rssi p) (rc_cad_threshold r)) \<and>
   (\<forall>p r'. active_probe_under_lock sc d (drv_float d Call_GetRSSI) r = (p, r') \<and>
        cp_status p = RADIO_CAD_PROBE_FREE \<longrightarrow>
      \<not> rc_received r \<and> rc_mode r = RADIO_MODE_LORA \<and> \<not> rc_rearm_pending r \<and> cp_scan_ran p \<and>
      radio_cad_status_from_scan_state sc (cp_scan_state p) = RADIO_CAD_PROBE_FREE) \<and>
   (rc_received r \<longrightarrow>
      cp_status (fst (active_probe_under_lock sc d (drv_float d Call_GetRSSI) r)) = RADIO_CAD_PROBE_BUSY \<and>
      rc_received (snd (active_probe_under_lock sc d (drv_float d Call_GetRSSI) r)))"
  by (auto simp: radio_cad_probe_passive_def active_probe_under_lock_def Let_def drv_float_def
      radio_cad_probe_unavailable_def radio_cad_probe_preconditions_ok_def tx_race_step_def
      drv_received_keep split: if_splits prod.splits)

theorem free_verdict_is_measured_witness:
  "cp_status (fst (radio_cad_probe_passive sample_driver True False sample_radio)) = RADIO_CAD_PROBE_FREE \<and>
   radio_controller_ready sample_radio \<and>
   \<not> c_ge (cp_rssi (fst (radio_cad_probe_passive sample_driver True False sample_radio))) (Fin (- 90))"
proof -
  have free: "cp_status (fst (radio_cad_probe_passive sample_driver True False sample_radio)) = RADIO_CAD_PROBE_FREE"
    by (simp add: radio_cad_probe_passive_def sample_driver_def sample_radio_def radio_controller_init_def
        radio_controller_ready_def radio_health_is_ready_def radio_cad_probe_preconditions_ok_def
        tx_race_step_def drv_float_def drv_def c_ge_def RADIO_CAD_RSSI_BUSY_THRESHOLD_DBM_def Let_def)
  have th: "rc_cad_threshold sample_radio = Fin (- 90)"
    by (simp add: sample_radio_def radio_controller_init_def RADIO_CAD_RSSI_BUSY_THRESHOLD_DBM_def)
  obtain p r' where pr: "radio_cad_probe_passive sample_driver True False sample_radio = (p, r')" by force
  with free_verdict_is_measured [of sample_driver True False sample_radio] free th show ?thesis by auto
qed

section \<open>The CAD monitor\<close>

definition DAEMON_CAD_FREE_HYSTERESIS_DB :: c_float where
  [c_consts]: "DAEMON_CAD_FREE_HYSTERESIS_DB = Fin 3"
definition DAEMON_CAD_FREE_CONFIRM_SAMPLES :: int where
  [c_consts]: "DAEMON_CAD_FREE_CONFIRM_SAMPLES = 2"

definition daemon_monitoring_cad_broadcast_edge :: "bool \<Rightarrow> bool \<Rightarrow> int" where
  "daemon_monitoring_cad_broadcast_edge was_active hardware_active =
     (if was_active = hardware_active then 0 else if hardware_active then 1 else -1)"

definition daemon_monitoring_cad_next_busy :: "bool \<Rightarrow> c_float \<Rightarrow> c_float \<Rightarrow> int \<Rightarrow> bool \<times> int" where
  "daemon_monitoring_cad_next_busy published_busy rssi threshold free_streak =
     (if c_ge rssi threshold then (True, 0)
      else if \<not> published_busy then (False, 0)
      else if c_le rssi (c_sub f32_round threshold DAEMON_CAD_FREE_HYSTERESIS_DB) then
        (let streak = free_streak + 1
         in if DAEMON_CAD_FREE_CONFIRM_SAMPLES \<le> streak then (False, 0) else (True, streak))
      else (True, 0))"

record cad_monitor_tick =
  ct_edge :: int
  ct_rssi :: c_float
  ct_sampled :: bool

definition daemon_cad_monitor_tick ::
  "driver \<Rightarrow> bool \<Rightarrow> bool \<Rightarrow> radio \<Rightarrow> cad_monitor_tick \<times> radio" where
  "daemon_cad_monitor_tick d can_lock tx_race r =
     (let (probe, r1) = radio_cad_probe_passive d can_lock tx_race r;
          tick = \<lparr>ct_edge = 0, ct_rssi = cp_rssi probe, ct_sampled = False\<rparr>
      in if cp_status probe = RADIO_CAD_PROBE_UNAVAILABLE then (tick, r1)
         else
           (let was_active = rc_cad_broadcast_active r1;
                (now_busy, streak) = daemon_monitoring_cad_next_busy was_active (cp_rssi probe)
                   (rc_cad_threshold r1) (rc_cad_free_streak r1)
            in (tick\<lparr>ct_edge := daemon_monitoring_cad_broadcast_edge was_active now_busy, ct_sampled := True\<rparr>,
                r1\<lparr>rc_cad_free_streak := streak, rc_cad_broadcast_active := now_busy\<rparr>)))"

text \<open>One sample, on the pair of published state and streak.\<close>

definition next_busy :: "c_float \<Rightarrow> c_float \<Rightarrow> bool \<times> int \<Rightarrow> bool \<times> int" where
  "next_busy th x s = daemon_monitoring_cad_next_busy (fst s) x th (snd s)"

text \<open>A reference without a counter: which samples decide the published state.\<close>

definition loud :: "c_float \<Rightarrow> c_float \<Rightarrow> bool" where
  "loud th x \<longleftrightarrow> c_ge x th"

definition quiet :: "c_float \<Rightarrow> c_float \<Rightarrow> bool" where
  "quiet th x \<longleftrightarrow> \<not> loud th x \<and> c_le x (c_sub f32_round th DAEMON_CAD_FREE_HYSTERESIS_DB)"

text \<open>On the reversed history: busy unless two adjacent quiet samples came after the last loud one.\<close>

fun published :: "c_float \<Rightarrow> c_float list \<Rightarrow> bool" where
  "published th [] = False"
| "published th [x] = loud th x"
| "published th (x # y # xs) =
     (loud th x \<or> (published th (y # xs) \<and> \<not> (quiet th x \<and> quiet th y)))"

fun streak_of :: "c_float \<Rightarrow> c_float list \<Rightarrow> int" where
  "streak_of th [] = 0"
| "streak_of th (x # xs) = (if published th (x # xs) \<and> quiet th x then 1 else 0)"

lemma next_busy_published:
  "next_busy th x (published th xs, streak_of th xs) = (published th (x # xs), streak_of th (x # xs))"
  by (cases xs)
    (auto simp: next_busy_def daemon_monitoring_cad_next_busy_def loud_def quiet_def c_consts Let_def)

text \<open>
  The CAD indicator is de-flickered exactly as specified: starting from free, the published
  state after any samples is busy precisely when some sample reached the threshold and since
  then no two adjacent samples lay at least 3 dB below it; a single quiet sample, or samples in
  the dead band, never clear it, and a sample at the threshold sets it at once.
\<close>

theorem cad_monitor_deflicker:
  "fst (fold (next_busy th) xs (False, 0)) = published th (rev xs)"
proof -
  have "fold (next_busy th) xs (published th ys, streak_of th ys) =
      (published th (rev xs @ ys), streak_of th (rev xs @ ys))" for ys
    by (induction xs arbitrary: ys)
      (simp_all add: next_busy_published del: published.simps streak_of.simps)
  from this [of "[]"] show ?thesis by simp
qed

end
