(* ===== verification/Radio_Tx.thy ===== *)
theory Radio_Tx
  imports Radio_Ctrl
begin

text \<open>
  The blocking transmission, \<open>daemon_tx.cpp\<close>, and the shutdown of the controller
  (\<open>daemon_radio_runtime.cpp\<close>). The delays, the log and the LED have no effect on the model.
  \<open>process_band\<close> is the band number of the daemon process; the driver's chip family is the one
  the controller recorded at its start.
\<close>

definition radio_tx_payload_limit_live :: "radio \<Rightarrow> nat" where
  "radio_tx_payload_limit_live r =
     (if \<not> rc_driver r then RF_PACKET_MAX_PAYLOAD_LEN
      else radio_tx_payload_limit (rc_chip_family r) (rc_mode r))"

definition lora_send_valid_band :: "int \<Rightarrow> int \<Rightarrow> bool" where
  "lora_send_valid_band process_band band \<longleftrightarrow> band = process_band"

definition lora_send_acquire_controller_tx :: "radio \<Rightarrow> bool \<times> radio" where
  "lora_send_acquire_controller_tx r =
     (if rc_tx_busy r then (False, r)
      else (True, r\<lparr>rc_tx_busy := True, rc_tx_gen := rc_tx_gen r + 1\<rparr>))"

definition lora_send_release_controller_tx :: "radio \<Rightarrow> radio" where
  "lora_send_release_controller_tx r = r\<lparr>rc_tx_busy := False, rc_tx_gen := rc_tx_gen r + 1\<rparr>"

definition lora_send_prepare_controller_tx :: "driver \<Rightarrow> radio \<Rightarrow> radio" where
  "lora_send_prepare_controller_tx d r =
     (let r1 = r\<lparr>rc_received := False\<rparr>;
          r2 = (if rc_mode r1 = RADIO_MODE_LORA then drv d Call_ClearAction r1 else r1);
          r3 = drv d Call_ClearIrq (drv d Call_Standby r2)
      in if rc_band r3 = RADIO_BAND_433 \<and> rc_mode r3 = RADIO_MODE_LORA
         then drv d Call_Standby (drv d Call_Sleep r3) else r3)"

text \<open>The section under the radio mutex.\<close>

definition lora_send_under_lock :: "driver \<Rightarrow> bytes \<Rightarrow> radio \<Rightarrow> tx_result \<times> radio" where
  "lora_send_under_lock d send_buf r =
     (let r1 = lora_send_prepare_controller_tx d r;
          r2 = (if rc_band r1 = RADIO_BAND_433 then drv d Call_ClearIrq r1 else r1);
          (state, r3) = drv_status d (Call_Transmit send_buf) r2;
          r4 = (drv d Call_ClearIrq r3)\<lparr>rc_received := False\<rparr>;
          r5 = rearm_start_receive d (drv d Call_SetAction r4)
      in (if state = RADIOLIB_ERR_NONE then TX_RESULT_OK else TX_RESULT_RADIO_ERROR, r5))"

definition lora_send_controller :: "driver \<Rightarrow> bytes ptr \<Rightarrow> nat \<Rightarrow> radio \<Rightarrow> tx_result \<times> radio" where
  "lora_send_controller d buf len r =
     (if \<not> rc_driver r \<or> \<not> radio_controller_ready r then (TX_RESULT_RADIO_NOT_READY, r)
      else if rf_packet_validate buf len \<noteq> RF_PACKET_VALID then (TX_RESULT_INVALID_PACKET, r)
      else if radio_tx_payload_limit_live r < len then (TX_RESULT_INVALID_PACKET, r)
      else
        (let (acquired, r1) = lora_send_acquire_controller_tx r
         in if \<not> acquired then (TX_RESULT_BUSY, r1)
            else
              (let (result, r2) = lora_send_under_lock d (take len (the buf)) r1
               in (result, lora_send_release_controller_tx r2))))"

definition lora_send :: "driver \<Rightarrow> int \<Rightarrow> bytes ptr \<Rightarrow> nat \<Rightarrow> int \<Rightarrow> radio \<Rightarrow> tx_result \<times> radio" where
  "lora_send d process_band buf len band r =
     (if \<not> lora_send_valid_band process_band band then (TX_RESULT_INVALID_BAND, r)
      else if \<not> radio_controller_ready r then (TX_RESULT_RADIO_NOT_READY, r)
      else lora_send_controller d buf len r)"

definition radio_controller_shutdown :: "driver \<Rightarrow> radio \<Rightarrow> radio" where
  "radio_controller_shutdown d r =
     (let r1 = (if rc_driver r then
                  (if radio_controller_ready r
                   then drv d Call_ClearIrq (drv d Call_Standby (drv d Call_ClearAction r)) else r)
                    \<lparr>rc_driver := False\<rparr>
                else r)
      in r1\<lparr>rc_health := RADIO_HEALTH_UNINITIALIZED, rc_received := False, rc_rearm_pending := False,
            rc_tx_busy := False, rc_cad_active := False, rc_getrssi_active := False,
            rc_stats := daemon_radio_stats_init\<rparr>)"

section \<open>Properties\<close>

text \<open>The calls of one transmission, oldest first.\<close>

definition transmission_calls :: "radio \<Rightarrow> bytes \<Rightarrow> drv_call list" where
  "transmission_calls r p =
     (if rc_mode r = RADIO_MODE_LORA then [Call_ClearAction] else []) @ [Call_Standby, Call_ClearIrq] @
     (if rc_band r = RADIO_BAND_433 \<and> rc_mode r = RADIO_MODE_LORA then [Call_Sleep, Call_Standby] else []) @
     (if rc_band r = RADIO_BAND_433 then [Call_ClearIrq] else []) @
     [Call_Transmit p, Call_ClearIrq, Call_SetAction, Call_StartReceive]"

text \<open>The first check that refuses a packet.\<close>

definition send_refusal :: "int \<Rightarrow> bytes ptr \<Rightarrow> nat \<Rightarrow> int \<Rightarrow> radio \<Rightarrow> tx_result option" where
  "send_refusal process_band buf len band r =
     (if band \<noteq> process_band then Some TX_RESULT_INVALID_BAND
      else if \<not> radio_controller_ready r \<or> \<not> rc_driver r then Some TX_RESULT_RADIO_NOT_READY
      else if len = 0 \<or> buf = None \<or> radio_tx_payload_limit (rc_chip_family r) (rc_mode r) < len
        then Some TX_RESULT_INVALID_PACKET
      else if rc_tx_busy r then Some TX_RESULT_BUSY
      else None)"

lemma under_lock_calls:
  "rc_calls (snd (lora_send_under_lock d p r)) = rev (transmission_calls r p) @ rc_calls r"
  by (simp add: lora_send_under_lock_def lora_send_prepare_controller_tx_def transmission_calls_def
      drv_status_def Let_def)

lemma under_lock_fields:
  "rc_tx_busy (snd (lora_send_under_lock d p r)) = rc_tx_busy r"
  "rc_tx_gen (snd (lora_send_under_lock d p r)) = rc_tx_gen r"
  "rc_action (snd (lora_send_under_lock d p r))"
  by (simp_all add: lora_send_under_lock_def lora_send_prepare_controller_tx_def drv_status_def Let_def)

text \<open>
  C33: A transmission either does nothing or everything. With the first failing check (band,
  readiness, packet, payload limit of the chip and mode, busy transmitter) the controller and
  the chip are left untouched and the result names that check. Otherwise the packet is handed
  to the chip exactly once, the receiver is restarted with its callback attached, the result
  is that of the chip, and the transmitter is free again with the TX status generation two
  further.
\<close>

theorem lora_send_all_or_nothing:
  "case send_refusal process_band buf len band r of
     Some refusal \<Rightarrow> lora_send d process_band buf len band r = (refusal, r)
   | None \<Rightarrow>
       (let (result, r') = lora_send d process_band buf len band r; p = take len (the buf) in
        rc_calls r' = rev (transmission_calls r p) @ rc_calls r \<and>
        (result = TX_RESULT_OK \<or> result = TX_RESULT_RADIO_ERROR) \<and>
        rc_action r' \<and> rc_tx_busy r' = False \<and> rc_tx_gen r' = rc_tx_gen r + 2)"
proof (cases "send_refusal process_band buf len band r")
  case (Some refusal)
  then show ?thesis
    using radio_tx_payload_limit_bounds [of "rc_chip_family r" "rc_mode r"]
    by (auto simp: send_refusal_def lora_send_def lora_send_controller_def lora_send_valid_band_def
        rf_packet_validate_def radio_tx_payload_limit_live_def lora_send_acquire_controller_tx_def
        c_consts split: if_splits)
next
  case None
  let ?p = "take len (the buf)" and ?r1 = "r\<lparr>rc_tx_busy := True, rc_tx_gen := rc_tx_gen r + 1\<rparr>"
  have "len \<le> 255" "len \<noteq> 0" "buf \<noteq> None"
    using None radio_tx_payload_limit_bounds [of "rc_chip_family r" "rc_mode r"]
    by (auto simp: send_refusal_def split: if_splits)
  then have send: "lora_send d process_band buf len band r =
      (fst (lora_send_under_lock d ?p ?r1), lora_send_release_controller_tx (snd (lora_send_under_lock d ?p ?r1)))"
    using None
    by (auto simp: send_refusal_def lora_send_def lora_send_controller_def lora_send_valid_band_def
        rf_packet_validate_def radio_tx_payload_limit_live_def lora_send_acquire_controller_tx_def
        c_consts split_def Let_def split: if_splits)
  have "transmission_calls ?r1 ?p = transmission_calls r ?p" by (simp add: transmission_calls_def)
  moreover have "fst (lora_send_under_lock d ?p ?r1) = TX_RESULT_OK \<or>
      fst (lora_send_under_lock d ?p ?r1) = TX_RESULT_RADIO_ERROR"
    by (simp add: lora_send_under_lock_def Let_def split_def)
  moreover have "rc_tx_gen r + 1 + 1 = rc_tx_gen r + 2" by simp
  ultimately show ?thesis
    using None send under_lock_calls [of d ?p ?r1] under_lock_fields [of d ?p ?r1]
    by (simp add: lora_send_release_controller_tx_def add.assoc)
qed

end
