(* ===== verification/Client_IO.thy ===== *)
theory Client_IO
  imports Config_Stream Framed_Data
begin

text \<open>
  Client output queues and client slots, \<open>client_output_queue.cpp\<close> and \<open>client_slot.cpp\<close>.

  \<^item> A queue is the list of its \<open>len\<close> pending bytes; \<open>memmove\<close> to the front is \<open>drop\<close>.
  \<^item> The kernel is the record \<open>net\<close>: for each file descriptor the bytes it has taken so far, the
    answers \<open>send()\<close> and \<open>read()\<close> will give, and the descriptors closed. When the answers run
    out the call would block (\<open>EAGAIN\<close>); \<open>Received []\<close> is the end of the stream.
  \<^item> \<open>errno\<close> is only read inside the operation that sets it and is not part of the state.
\<close>

section \<open>Sockets\<close>

datatype send_answer = Sent nat | Interrupted | Would_Block | Send_Error
datatype read_answer = Received bytes | Read_Interrupted | Read_Would_Block | Read_Error

record net =
  net_reads :: "int \<Rightarrow> read_answer list"
  net_answers :: "int \<Rightarrow> send_answer list"
  net_wire :: "int \<Rightarrow> bytes"
  net_closed :: "int list"

text \<open>\<open>read (fd, buf, cap)\<close> inside the \<open>EINTR\<close> loop; \<open>Inl\<close> is \<open>errno = EAGAIN\<close>, or another error.\<close>

fun read_retry :: "nat \<Rightarrow> read_answer list \<Rightarrow> (bool + bytes) \<times> read_answer list" where
  "read_retry cap [] = (Inl True, [])"
| "read_retry cap (a # as) =
     (case a of
        Read_Interrupted \<Rightarrow> read_retry cap as
      | Read_Would_Block \<Rightarrow> (Inl True, as)
      | Read_Error \<Rightarrow> (Inl False, as)
      | Received bs \<Rightarrow> (Inr (take cap bs), if cap < length bs then Received (drop cap bs) # as else as))"

definition net_read :: "int \<Rightarrow> nat \<Rightarrow> net \<Rightarrow> (bool + bytes) \<times> net" where
  "net_read fd cap net =
     (let (r, as) = read_retry cap (net_reads net fd)
      in (r, net\<lparr>net_reads := (net_reads net)(fd := as)\<rparr>))"

section \<open>Output queue\<close>

definition CLIENT_OUTPUT_QUEUE_CAPACITY :: nat where
  [c_consts]: "CLIENT_OUTPUT_QUEUE_CAPACITY = 64 * 1024"

type_synonym output_queue = bytes

definition client_output_queue_init :: output_queue where
  "client_output_queue_init = []"

definition client_output_queue_init_all :: "output_queue list \<Rightarrow> output_queue list" where
  "client_output_queue_init_all queues = map (\<lambda>_. client_output_queue_init) queues"

definition client_output_queue_reset :: "output_queue \<Rightarrow> output_queue" where
  "client_output_queue_reset q = client_output_queue_init"

definition client_output_queue_pending :: "output_queue \<Rightarrow> nat" where
  "client_output_queue_pending q = length q"

definition client_output_queue_data :: "output_queue \<Rightarrow> bytes ptr" where
  "client_output_queue_data q = (if length q = 0 then NULL else Some q)"

definition client_output_queue_append :: "output_queue \<Rightarrow> bytes ptr \<Rightarrow> nat \<Rightarrow> bool \<times> output_queue" where
  "client_output_queue_append q buf len =
     (if len = 0 then (True, q)
      else (case buf of
              None \<Rightarrow> (False, q)
            | Some bs \<Rightarrow>
                if CLIENT_OUTPUT_QUEUE_CAPACITY - length q < len then (False, q)
                else (True, q @ take len bs)))"

definition client_output_queue_consume :: "output_queue \<Rightarrow> nat \<Rightarrow> nat \<times> output_queue" where
  "client_output_queue_consume q len =
     (if len = 0 then (0, q)
      else (let used = (if len < length q then len else length q)
            in if used = length q then (used, [])
               else if 0 < used then (used, drop used q)
               else (used, q)))"

text \<open>
  The send loop on one descriptor: the answers left, the queue, the bytes the kernel took and
  the running total. The kernel takes at most what it is offered. Result \<open>-1\<close> is an error.
\<close>

fun flush_loop ::
  "send_answer list \<Rightarrow> output_queue \<Rightarrow> bytes \<Rightarrow> int \<Rightarrow> int \<times> output_queue \<times> bytes \<times> send_answer list" where
  "flush_loop [] q wire taken = (taken, q, wire, [])"
| "flush_loop (a # as) q wire taken =
     (if length q = 0 then (taken, q, wire, a # as)
      else (case a of
              Sent k \<Rightarrow>
                (let n = min k (length q)
                 in if 0 < n
                    then flush_loop as (snd (client_output_queue_consume q n)) (wire @ take n q) (taken + int n)
                    else (-1, q, wire, as))
            | Interrupted \<Rightarrow> flush_loop as q wire taken
            | Would_Block \<Rightarrow> (taken, q, wire, as)
            | Send_Error \<Rightarrow> (-1, q, wire, as)))"

definition client_output_queue_flush_fd :: "int \<Rightarrow> output_queue \<Rightarrow> net \<Rightarrow> int \<times> output_queue \<times> net" where
  "client_output_queue_flush_fd fd q net =
     (let (r, q1, wire, as) = flush_loop (net_answers net fd) q (net_wire net fd) 0
      in (r, q1, net\<lparr>net_answers := (net_answers net)(fd := as), net_wire := (net_wire net)(fd := wire)\<rparr>))"

lemma consume_drop [simp]: "client_output_queue_consume q n = (min n (length q), drop n q)"
  by (auto simp: client_output_queue_consume_def Let_def)

lemma append_bound:
  "length q \<le> CLIENT_OUTPUT_QUEUE_CAPACITY \<Longrightarrow> client_output_queue_append q buf len = (ok, q') \<Longrightarrow>
     length q' \<le> CLIENT_OUTPUT_QUEUE_CAPACITY"
  by (auto simp: client_output_queue_append_def split: if_splits option.splits)

lemma flush_loop_conserves:
  "flush_loop as q wire taken = (r, q', wire', as') \<Longrightarrow>
     wire' @ q' = wire @ q \<and> length q' \<le> length q \<and>
     (r = -1 \<or> r = taken + int (length q) - int (length q'))"
proof (induction as q wire taken rule: flush_loop.induct)
  case (2 a as q wire taken)
  show ?case
  proof (cases "length q = 0")
    case True
    with "2.prems" show ?thesis by auto
  next
    case nonempty: False
    show ?thesis
    proof (cases a)
      case (Sent k)
      let ?n = "min k (length q)"
      show ?thesis
      proof (cases "0 < ?n")
        case True
        have "flush_loop as (snd (client_output_queue_consume q ?n)) (wire @ take ?n q) (taken + int ?n)
            = (r, q', wire', as')"
          using "2.prems" Sent nonempty True by (simp add: Let_def)
        from "2.IH"(1) [OF nonempty Sent refl True this] show ?thesis
          by (auto simp: min_def split: if_splits)
      next
        case False
        with "2.prems" Sent nonempty show ?thesis by auto
      qed
    next
      case Interrupted
      with "2" nonempty show ?thesis by auto
    qed (use "2.prems" nonempty in auto)
  qed
qed auto

section \<open>Client slots\<close>

record client_slot =
  cl_fd :: int
  cl_output :: output_queue
  cl_stream :: config_stream
  cl_generation :: u32

definition client_slot_next_generation :: "u32 \<Rightarrow> u32" where
  "client_slot_next_generation g = (let g1 = g + 1 in if g1 \<noteq> 0 then g1 else 1)"

definition client_slot_init :: "client_slot \<Rightarrow> client_slot" where
  "client_slot_init slot =
     slot\<lparr>cl_fd := -1, cl_generation := 1, cl_output := client_output_queue_init,
       cl_stream := config_stream_init (cl_stream slot)\<rparr>"

definition client_slot_init_all :: "client_slot list \<Rightarrow> client_slot list" where
  "client_slot_init_all slots = map client_slot_init slots"

definition client_slot_has_client :: "client_slot \<Rightarrow> bool" where
  "client_slot_has_client slot \<longleftrightarrow> 0 \<le> cl_fd slot"

definition client_slot_set_fd :: "client_slot \<Rightarrow> int \<Rightarrow> client_slot" where
  "client_slot_set_fd slot fd =
     slot\<lparr>cl_fd := fd, cl_generation := client_slot_next_generation (cl_generation slot),
       cl_output := client_output_queue_reset (cl_output slot),
       cl_stream := config_stream_init (cl_stream slot)\<rparr>"

definition client_slot_reset_output :: "client_slot \<Rightarrow> client_slot" where
  "client_slot_reset_output slot = slot\<lparr>cl_output := client_output_queue_reset (cl_output slot)\<rparr>"

definition client_slot_reset_stream :: "client_slot \<Rightarrow> client_slot" where
  "client_slot_reset_stream slot = slot\<lparr>cl_stream := config_stream_init (cl_stream slot)\<rparr>"

definition client_slot_close :: "client_slot \<Rightarrow> net \<Rightarrow> client_slot \<times> net" where
  "client_slot_close slot net =
     (slot\<lparr>cl_fd := -1, cl_generation := client_slot_next_generation (cl_generation slot),
        cl_output := client_output_queue_init, cl_stream := config_stream_init (cl_stream slot)\<rparr>,
      if 0 \<le> cl_fd slot then net\<lparr>net_closed := cl_fd slot # net_closed net\<rparr> else net)"

fun client_slot_close_all :: "client_slot list \<Rightarrow> net \<Rightarrow> client_slot list \<times> net" where
  "client_slot_close_all [] net = ([], net)"
| "client_slot_close_all (s # ss) net =
     (let (s1, net1) = client_slot_close s net; (ss1, net2) = client_slot_close_all ss net1
      in (s1 # ss1, net2))"

fun client_slot_add :: "client_slot list \<Rightarrow> int \<Rightarrow> bool \<times> client_slot list" where
  "client_slot_add [] fd = (False, [])"
| "client_slot_add (s # ss) fd =
     (if \<not> client_slot_has_client s then (True, client_slot_set_fd s fd # ss)
      else (let (ok, ss1) = client_slot_add ss fd in (ok, s # ss1)))"

text \<open>What \<open>accept()\<close> and the two \<open>fcntl()\<close> calls say.\<close>

datatype accept_answer = Accepted (accepted_fd: int) (nonblocking_ok: bool) | Accept_Again | Accept_Failed int

definition client_slot_accept_with_output ::
  "accept_answer \<Rightarrow> client_slot list \<Rightarrow> net \<Rightarrow> int \<times> client_slot list \<times> net" where
  "client_slot_accept_with_output answer slots net =
     (case answer of
        Accept_Again \<Rightarrow> (-1, slots, net)
      | Accept_Failed r \<Rightarrow> (r, slots, net)
      | Accepted fd ok \<Rightarrow>
          if \<not> ok then (-1, slots, net\<lparr>net_closed := fd # net_closed net\<rparr>)
          else (let (added, slots1) = client_slot_add slots fd
                in if \<not> added then (-1, slots1, net\<lparr>net_closed := fd # net_closed net\<rparr>)
                   else (fd, slots1, net)))"

definition client_slot_ready :: "(int \<Rightarrow> bool) \<Rightarrow> client_slot \<Rightarrow> bool" where
  "client_slot_ready fd_read slot \<longleftrightarrow> client_slot_has_client slot \<and> fd_read (cl_fd slot)"

definition client_slot_output_ready :: "(int \<Rightarrow> bool) \<Rightarrow> client_slot \<Rightarrow> bool" where
  "client_slot_output_ready fd_write slot \<longleftrightarrow>
     client_slot_has_client slot \<and> 0 < client_output_queue_pending (cl_output slot) \<and> fd_write (cl_fd slot)"

definition client_slot_flush_output :: "client_slot \<Rightarrow> net \<Rightarrow> client_slot \<times> net" where
  "client_slot_flush_output slot net =
     (if \<not> client_slot_has_client slot then (client_slot_reset_output slot, net)
      else (let (r, q, net1) = client_output_queue_flush_fd (cl_fd slot) (cl_output slot) net;
                slot1 = slot\<lparr>cl_output := q\<rparr>
            in if r < 0 then client_slot_close slot1 net1 else (slot1, net1)))"

fun client_slot_flush_ready_outputs ::
  "(int \<Rightarrow> bool) \<Rightarrow> client_slot list \<Rightarrow> net \<Rightarrow> client_slot list \<times> net" where
  "client_slot_flush_ready_outputs fd_write [] net = ([], net)"
| "client_slot_flush_ready_outputs fd_write (s # ss) net =
     (let (s1, net1) = (if client_slot_output_ready fd_write s then client_slot_flush_output s net else (s, net));
          (ss1, net2) = client_slot_flush_ready_outputs fd_write ss net1
      in (s1 # ss1, net2))"

definition client_slot_has_clients :: "client_slot list \<Rightarrow> bool" where
  "client_slot_has_clients slots = list_ex client_slot_has_client slots"

text \<open>The body of the broadcast loop for one slot, then the loop.\<close>

definition client_slot_send_bytes :: "bytes \<Rightarrow> client_slot \<Rightarrow> net \<Rightarrow> client_slot \<times> net" where
  "client_slot_send_bytes buf slot net =
     (if \<not> client_slot_has_client slot then (client_slot_reset_output slot, net)
      else (let (ok, q) = client_output_queue_append (cl_output slot) (Some buf) (length buf)
            in if \<not> ok then client_slot_close slot net
               else client_slot_flush_output (slot\<lparr>cl_output := q\<rparr>) net))"

fun broadcast_loop :: "bytes \<Rightarrow> client_slot list \<Rightarrow> net \<Rightarrow> client_slot list \<times> net" where
  "broadcast_loop buf [] net = ([], net)"
| "broadcast_loop buf (s # ss) net =
     (let (s1, net1) = client_slot_send_bytes buf s net; (ss1, net2) = broadcast_loop buf ss net1
      in (s1 # ss1, net2))"

definition client_slot_broadcast_bytes_queued ::
  "bytes ptr \<Rightarrow> client_slot list \<Rightarrow> net \<Rightarrow> client_slot list \<times> net" where
  "client_slot_broadcast_bytes_queued buf slots net =
     (case buf of
        None \<Rightarrow> (slots, net)
      | Some bs \<Rightarrow> if length bs = 0 then (slots, net) else broadcast_loop bs slots net)"

definition text_bytes :: "string \<Rightarrow> bytes" where
  "text_bytes s = map (\<lambda>c. of_nat (of_char c)) s"

definition client_slot_broadcast_queued :: "string ptr \<Rightarrow> client_slot list \<Rightarrow> net \<Rightarrow> client_slot list \<times> net" where
  "client_slot_broadcast_queued msg slots net =
     (case msg of
        None \<Rightarrow> (slots, net)
      | Some m \<Rightarrow> client_slot_broadcast_bytes_queued (Some (text_bytes (c_string m))) slots net)"

section \<open>What a client sees\<close>

text \<open>The bytes the daemon has committed to a client: those on the wire and those pending.\<close>

definition client_bytes :: "client_slot \<Rightarrow> net \<Rightarrow> bytes" where
  "client_bytes slot net = net_wire net (cl_fd slot) @ cl_output slot"

definition slot_wf :: "client_slot \<Rightarrow> bool" where
  "slot_wf slot \<longleftrightarrow> length (cl_output slot) \<le> CLIENT_OUTPUT_QUEUE_CAPACITY \<and>
     length (cs_line (cl_stream slot)) = CONFIG_STREAM_LINE_LEN \<and> cl_generation slot \<noteq> 0"

lemma next_generation_nonzero [simp]: "client_slot_next_generation g \<noteq> 0"
  by (simp add: client_slot_next_generation_def Let_def)

lemma next_generation_neq [simp]: "client_slot_next_generation g \<noteq> g"
  by (auto simp: client_slot_next_generation_def Let_def)

lemma close_slot [simp]:
  "cl_fd (fst (client_slot_close slot net)) = -1"
  "cl_output (fst (client_slot_close slot net)) = []"
  "cl_generation (fst (client_slot_close slot net)) = client_slot_next_generation (cl_generation slot)"
  "net_wire (snd (client_slot_close slot net)) = net_wire net"
  "net_answers (snd (client_slot_close slot net)) = net_answers net"
  by (simp_all add: client_slot_close_def client_output_queue_init_def)

lemma close_not_client [simp]: "\<not> client_slot_has_client (fst (client_slot_close slot net))"
  by (simp add: client_slot_has_client_def)

lemma flush_output_cases:
  assumes "client_slot_flush_output slot net = (slot', net')" and "client_slot_has_client slot"
  shows "(\<forall>fd. fd \<noteq> cl_fd slot \<longrightarrow> net_wire net' fd = net_wire net fd) \<and>
    (\<exists>rest. net_wire net' (cl_fd slot) @ rest = client_bytes slot net \<and>
       length rest \<le> length (cl_output slot) \<and>
       (slot' = slot\<lparr>cl_output := rest\<rparr> \<or>
        \<not> client_slot_has_client slot' \<and> cl_output slot' = [] \<and> cl_fd slot \<in> set (net_closed net') \<and>
        cl_generation slot' = client_slot_next_generation (cl_generation slot)))"
proof -
  obtain r q wire as where loop:
    "flush_loop (net_answers net (cl_fd slot)) (cl_output slot) (net_wire net (cl_fd slot)) 0 = (r, q, wire, as)"
    by (rule prod_cases4)
  from flush_loop_conserves [OF this] have
    "wire @ q = client_bytes slot net" "length q \<le> length (cl_output slot)"
    by (simp_all add: client_bytes_def)
  with assms loop show ?thesis
    by (auto simp: client_slot_flush_output_def client_output_queue_flush_fd_def Let_def
        client_slot_close_def client_slot_has_client_def client_output_queue_init_def split: if_splits)
qed

lemma send_bytes_cases:
  assumes "client_slot_send_bytes buf slot net = (slot', net')"
  shows "(\<forall>fd. fd \<noteq> cl_fd slot \<longrightarrow> net_wire net' fd = net_wire net fd) \<and>
    (if client_slot_has_client slot' then
       client_slot_has_client slot \<and> cl_fd slot' = cl_fd slot \<and>
       cl_generation slot' = cl_generation slot \<and>
       client_bytes slot' net' = client_bytes slot net @ buf
     else cl_output slot' = [] \<and>
       (client_slot_has_client slot \<longrightarrow>
         cl_generation slot' = client_slot_next_generation (cl_generation slot) \<and>
         (\<exists>rest. net_wire net' (cl_fd slot) @ rest = client_bytes slot net @ buf \<or>
                 net_wire net' (cl_fd slot) @ rest = client_bytes slot net)))"
proof (cases "client_slot_has_client slot")
  case False
  with assms show ?thesis
    by (auto simp: client_slot_send_bytes_def client_slot_reset_output_def client_slot_has_client_def
        client_output_queue_reset_def client_output_queue_init_def)
next
  case True
  obtain ok q where app: "client_output_queue_append (cl_output slot) (Some buf) (length buf) = (ok, q)"
    by force
  show ?thesis
  proof (cases ok)
    case False
    with assms True app have "client_slot_close slot net = (slot', net')"
      by (simp add: client_slot_send_bytes_def)
    then have "slot' = fst (client_slot_close slot net)" "net' = snd (client_slot_close slot net)"
      by simp_all
    then show ?thesis by (auto simp: client_bytes_def)
  next
    case ok: True
    have q: "q = cl_output slot @ buf"
      using app ok by (auto simp: client_output_queue_append_def split: if_splits)
    have fl: "client_slot_flush_output (slot\<lparr>cl_output := q\<rparr>) net = (slot', net')"
      using assms True app ok by (simp add: client_slot_send_bytes_def)
    have "client_slot_has_client (slot\<lparr>cl_output := q\<rparr>)"
      using True by (simp add: client_slot_has_client_def)
    from flush_output_cases [OF fl this] show ?thesis
      using True q by (auto simp: client_bytes_def client_slot_has_client_def)
  qed
qed

lemma next_generation_nat:
  assumes "g \<noteq> 0"
  shows "unat (client_slot_next_generation g) = (if unat g = 2 ^ 32 - 1 then 1 else unat g + 1)"
proof (cases "unat g = 2 ^ 32 - 1")
  case True
  then have "unat g = unat (4294967295 :: u32)" by simp
  then have "g = 4294967295" by (simp only: word_unat_eq_iff)
  then show ?thesis using True by (simp add: client_slot_next_generation_def)
next
  case False
  then have "Suc (unat g) < 2 ^ 32" using unat_u32_less [of g] by simp
  then have "unat (g + 1) = unat g + 1" by (simp add: unat_plus_if_size word_size)
  moreover from this have "g + 1 \<noteq> 0" by (metis add_is_0 unat_0 zero_neq_one)
  ultimately show ?thesis using False by (simp add: client_slot_next_generation_def)
qed

lemma generation_iterate:
  assumes "g \<noteq> 0"
  shows "unat ((client_slot_next_generation ^^ k) g) = (unat g - 1 + k) mod (2 ^ 32 - 1) + 1 \<and>
    (client_slot_next_generation ^^ k) g \<noteq> 0"
proof (induction k)
  case 0
  have "unat g - 1 < 2 ^ 32 - 1" "0 < unat g"
    using unat_u32_less [of g] assms by (simp_all add: unat_gt_0)
  with assms show ?case by simp
next
  case (Suc k)
  let ?h = "(client_slot_next_generation ^^ k) g"
  define M :: nat where "M = 2 ^ 32 - 1"
  have M: "0 < M" by (simp add: M_def)
  let ?m = "(unat g - 1 + k) mod M"
  from Suc have h: "unat ?h = ?m + 1" "?h \<noteq> 0" by (simp_all add: M_def)
  have "(unat g - 1 + Suc k) mod M = (if Suc ?m = M then 0 else Suc ?m)"
    by (simp add: mod_Suc)
  moreover have "unat (client_slot_next_generation ?h) = (if Suc ?m = M then 1 else Suc (Suc ?m))"
    using next_generation_nat [OF h(2)] h(1) unfolding M_def [symmetric] by simp
  ultimately have "unat (client_slot_next_generation ?h) = (unat g - 1 + Suc k) mod M + 1"
    by simp
  then show ?case unfolding M_def by simp
qed

lemma generation_fresh:
  assumes "g \<noteq> 0" and "0 < k" and "k < 2 ^ 32 - 1"
  shows "(client_slot_next_generation ^^ k) g \<noteq> g"
proof
  assume same: "(client_slot_next_generation ^^ k) g = g"
  from generation_iterate [OF assms(1), of k, THEN conjunct1]
  have "(unat g - 1 + k) mod (2 ^ 32 - 1) + 1 = unat g" unfolding same by (rule sym)
  moreover have "unat g - 1 < 2 ^ 32 - 1" "0 < unat g"
    using unat_u32_less [of g] assms(1) by (simp_all add: unat_gt_0)
  ultimately have "(unat g - 1 + k) mod (2 ^ 32 - 1) = (unat g - 1 + 0) mod (2 ^ 32 - 1)" by simp
  with add_mod_neq [of 0 k "2 ^ 32 - 1" "unat g - 1"] assms(2,3) show False by simp
qed

section \<open>Properties\<close>

text \<open>
  C26: Whatever the kernel answers (partial sends, interruptions, a full socket, errors), flushing
  an output queue neither loses, duplicates nor reorders a byte: what is on the wire followed by
  what is pending stays the same, and a non-negative result is the number of bytes sent.
\<close>

theorem flush_preserves_client_stream:
  assumes "client_output_queue_flush_fd fd q net = (r, q', net')"
  shows "net_wire net' fd @ q' = net_wire net fd @ q \<and>
    (\<forall>other. other \<noteq> fd \<longrightarrow> net_wire net' other = net_wire net other) \<and>
    (r = -1 \<or> r = int (length q) - int (length q'))"
proof -
  obtain taken wire as where loop:
    "flush_loop (net_answers net fd) q (net_wire net fd) 0 = (r, taken, wire, as)"
    by (cases "flush_loop (net_answers net fd) q (net_wire net fd) 0")
      (use assms in \<open>simp add: client_output_queue_flush_fd_def Let_def\<close>)
  with assms have "q' = taken" "net_wire net' = (net_wire net)(fd := wire)"
    by (auto simp: client_output_queue_flush_fd_def)
  with flush_loop_conserves [OF loop] show ?thesis by auto
qed

definition sample_net :: net where
  "sample_net = \<lparr>net_reads = (\<lambda>_. []), net_answers = (\<lambda>_. [Interrupted, Sent 2, Would_Block]), net_wire = (\<lambda>_. []), net_closed = []\<rparr>"

theorem flush_preserves_client_stream_witness:
  "fst (client_output_queue_flush_fd 5 [1, 2, 3] sample_net) = 2 \<and>
   net_wire (snd (snd (client_output_queue_flush_fd 5 [1, 2, 3] sample_net))) 5 @ [3] = [1, 2, 3]"
proof -
  have run: "client_output_queue_flush_fd 5 [1, 2, 3] sample_net =
      (2, [3], sample_net\<lparr>net_answers := (net_answers sample_net)(5 := []),
        net_wire := (net_wire sample_net)(5 := [1, 2])\<rparr>)"
    by (simp add: client_output_queue_flush_fd_def sample_net_def)
  from flush_preserves_client_stream [OF run] show ?thesis
    by (simp add: run)
qed

lemma broadcast_frame:
  "broadcast_loop buf ss net = (ss', net') \<Longrightarrow>
     \<forall>s \<in> set ss. client_slot_has_client s \<longrightarrow> cl_fd s \<noteq> fd \<Longrightarrow> 0 \<le> fd \<Longrightarrow>
     net_wire net' fd = net_wire net fd"
proof (induction buf ss net arbitrary: ss' net' rule: broadcast_loop.induct)
  case (2 buf s ss net)
  obtain s1 net1 ss1 net2 where step: "client_slot_send_bytes buf s net = (s1, net1)"
    "broadcast_loop buf ss net1 = (ss1, net2)" by force
  with "2.prems"(1) have "net' = net2" by simp
  moreover have "net_wire net2 fd = net_wire net1 fd"
    using "2.IH" [OF step(1) [symmetric] refl step(2)] "2.prems"(2,3) by simp
  moreover have "net_wire net1 fd = net_wire net fd"
    using send_bytes_cases [OF step(1), THEN conjunct1] "2.prems"(2,3)
    by (force simp: client_slot_has_client_def)
  ultimately show ?case by simp
qed simp

text \<open>
  A broadcast treats every client alike and independently: with distinct descriptors, a
  client that is still connected afterwards was connected before, on the same connection, and
  its stream has grown by exactly the message; every other client was disconnected, its slot
  has a new generation and nothing pending. A slow or broken client never affects another one.
\<close>

theorem broadcast_reaches_each_client:
  assumes "broadcast_loop buf slots net = (slots', net')"
    and "distinct (map cl_fd (filter client_slot_has_client slots))"
  shows "length slots' = length slots \<and>
    (\<forall>i < length slots.
      if client_slot_has_client (slots' ! i) then
        client_slot_has_client (slots ! i) \<and> cl_fd (slots' ! i) = cl_fd (slots ! i) \<and>
        cl_generation (slots' ! i) = cl_generation (slots ! i) \<and>
        client_bytes (slots' ! i) net' = client_bytes (slots ! i) net @ buf
      else cl_output (slots' ! i) = [] \<and>
        (client_slot_has_client (slots ! i) \<longrightarrow>
          cl_generation (slots' ! i) = client_slot_next_generation (cl_generation (slots ! i))))"
  using assms
proof (induction buf slots net arbitrary: slots' net' rule: broadcast_loop.induct)
  case (2 buf s ss net)
  obtain s1 net1 ss1 net2 where step: "client_slot_send_bytes buf s net = (s1, net1)"
    "broadcast_loop buf ss net1 = (ss1, net2)" by force
  with "2.prems"(1) have res: "slots' = s1 # ss1" "net' = net2" by simp_all
  note first = send_bytes_cases [OF step(1)]
  have dist: "distinct (map cl_fd (filter client_slot_has_client ss))"
    using "2.prems"(2) by (auto split: if_splits)
  note IH = "2.IH" [OF step(1) [symmetric] refl step(2) dist]
  have others: "net_wire net1 (cl_fd (ss ! i)) = net_wire net (cl_fd (ss ! i))"
    if "i < length ss" "client_slot_has_client (ss ! i)" for i
  proof (cases "client_slot_has_client s")
    case True
    then have "cl_fd (ss ! i) \<noteq> cl_fd s"
      using "2.prems"(2) that nth_mem [of i ss] by (force simp: image_iff)
    with first [THEN conjunct1] show ?thesis by simp
  next
    case False
    then have "cl_fd (ss ! i) \<noteq> cl_fd s" using that(2) by (auto simp: client_slot_has_client_def)
    with first [THEN conjunct1] show ?thesis by simp
  qed
  have wire0: "net_wire net2 (cl_fd s) = net_wire net1 (cl_fd s)" if "client_slot_has_client s"
  proof (rule broadcast_frame [OF step(2)])
    show "\<forall>t\<in>set ss. client_slot_has_client t \<longrightarrow> cl_fd t \<noteq> cl_fd s"
      using "2.prems"(2) that by (force simp: image_iff)
    show "0 \<le> cl_fd s" using that by (simp add: client_slot_has_client_def)
  qed
  show ?case
  proof (intro conjI allI impI)
    show "length slots' = length (s # ss)" using IH res by simp
  next
    fix i assume "i < length (s # ss)"
    then show "if client_slot_has_client (slots' ! i) then
        client_slot_has_client ((s # ss) ! i) \<and> cl_fd (slots' ! i) = cl_fd ((s # ss) ! i) \<and>
        cl_generation (slots' ! i) = cl_generation ((s # ss) ! i) \<and>
        client_bytes (slots' ! i) net' = client_bytes ((s # ss) ! i) net @ buf
      else cl_output (slots' ! i) = [] \<and>
        (client_slot_has_client ((s # ss) ! i) \<longrightarrow>
          cl_generation (slots' ! i) = client_slot_next_generation (cl_generation ((s # ss) ! i)))"
    proof (cases i)
      case 0
      with first res wire0 show ?thesis by (auto simp: client_bytes_def)
    next
      case (Suc j)
      with \<open>i < length (s # ss)\<close> have "j < length ss" by simp
      moreover from this have "client_bytes (ss ! j) net1 = client_bytes (ss ! j) net"
        if "client_slot_has_client (ss ! j)"
        using others that by (simp add: client_bytes_def)
      ultimately show ?thesis using IH res Suc by auto
    qed
  qed
qed auto

definition sample_slot :: "int \<Rightarrow> client_slot" where
  "sample_slot fd = \<lparr>cl_fd = fd, cl_output = [9], cl_stream = empty_stream, cl_generation = 7\<rparr>"

theorem broadcast_reaches_each_client_witness:
  "let (slots', net') = broadcast_loop [1, 2] [sample_slot 4, sample_slot (-1), sample_slot 5] sample_net
   in length slots' = 3 \<and> (\<forall>i<3. client_slot_has_client (slots' ! i) \<longrightarrow>
        client_bytes (slots' ! i) net' =
          client_bytes ([sample_slot 4, sample_slot (-1), sample_slot 5] ! i) sample_net @ [1, 2])"
proof -
  obtain slots' net' where run:
    "broadcast_loop [1, 2] [sample_slot 4, sample_slot (-1), sample_slot 5] sample_net = (slots', net')"
    by force
  have "distinct (map cl_fd (filter client_slot_has_client [sample_slot 4, sample_slot (-1), sample_slot 5]))"
    by (simp add: sample_slot_def client_slot_has_client_def)
  from broadcast_reaches_each_client [OF run this] show ?thesis
    unfolding run by (simp add: numeral_3_eq_3)
qed

end
