(* ===== verification/Framed_Stream.thy ===== *)
theory Framed_Stream
  imports Framed_Data
begin

text \<open>
  The incremental parser of the framed DATA sockets, \<open>loraham_daemon/framed_data_tx.cpp\<close>: the
  per-client state \<open>FramedDataTxState\<close> with its fixed arrays, the header and completion
  handlers and the byte loop. The callbacks \<open>on_tx\<close> and \<open>on_error\<close> act on a context of any
  type \<open>'c\<close> (the daemon passes the client slot, the radio context and the log); the parser is
  called with both callbacks set and with non-NULL state and buffer, so its result is always
  \<open>0\<close> and the model returns the new state and context.
\<close>

section \<open>Parser state\<close>

record framed_tx_state =
  ft_header :: bytes
  ft_header_len :: nat
  ft_payload :: bytes
  ft_payload_len :: nat
  ft_expected_len :: u16
  ft_frame_type :: u8
  ft_skip_len :: u16

type_synonym 'c on_tx_fn = "bytes \<Rightarrow> 'c \<Rightarrow> int \<times> 'c"
type_synonym 'c on_error_fn = "string \<Rightarrow> 'c \<Rightarrow> 'c"

definition framed_data_tx_state_init :: framed_tx_state where
  "framed_data_tx_state_init =
     \<lparr>ft_header = replicate FRAMED_DATA_HEADER_LEN 0, ft_header_len = 0,
      ft_payload = replicate FRAMED_DATA_MAX_RF_PAYLOAD 0, ft_payload_len = 0,
      ft_expected_len = 0, ft_frame_type = 0, ft_skip_len = 0\<rparr>"

definition framed_data_tx_state_init_all :: "framed_tx_state list \<Rightarrow> framed_tx_state list" where
  "framed_data_tx_state_init_all states = map (\<lambda>_. framed_data_tx_state_init) states"

section \<open>Handlers and the byte loop\<close>

definition framed_data_tx_header_ready ::
  "'c on_error_fn \<Rightarrow> framed_tx_state \<Rightarrow> 'c \<Rightarrow> framed_tx_state \<times> 'c" where
  "framed_data_tx_header_ready on_error st c =
     (let frame_type = ft_header st ! 0;
          payload_len = le16 (ft_header st ! 1) (ft_header st ! 2);
          reject = (\<lambda>msg. (framed_data_tx_state_init\<lparr>ft_skip_len := payload_len\<rparr>, on_error msg c));
          accept = (st\<lparr>ft_frame_type := frame_type, ft_expected_len := payload_len\<rparr>, c)
      in if \<not> framed_data_type_known frame_type then reject ''unknown frame type''
         else if frame_type \<noteq> FRAMED_DATA_TYPE_TX_PACKET then
           (if FRAMED_DATA_MAX_RF_PAYLOAD < unat payload_len
            then reject ''unsupported frame too large'' else accept)
         else if \<not> framed_data_rf_payload_len_valid (unat payload_len)
           then reject ''TX payload too large''
         else accept)"

definition framed_data_tx_complete_frame ::
  "'c on_tx_fn \<Rightarrow> 'c on_error_fn \<Rightarrow> framed_tx_state \<Rightarrow> 'c \<Rightarrow> framed_tx_state \<times> 'c" where
  "framed_data_tx_complete_frame on_tx on_error st c =
     (let (result, c1) =
            (if ft_frame_type st = FRAMED_DATA_TYPE_TX_PACKET
             then on_tx (take (unat (ft_expected_len st)) (ft_payload st)) c
             else (0, on_error ''unsupported client frame'' c));
          c2 = (if result \<noteq> 0 then on_error ''TX failed'' c1 else c1)
      in (framed_data_tx_state_init, c2))"

definition framed_data_tx_feed_byte ::
  "'c on_tx_fn \<Rightarrow> 'c on_error_fn \<Rightarrow> framed_tx_state \<times> 'c \<Rightarrow> u8 \<Rightarrow> framed_tx_state \<times> 'c" where
  "framed_data_tx_feed_byte on_tx on_error s b =
     (let st = fst s; c = snd s in
      if 0 < ft_skip_len st then (st\<lparr>ft_skip_len := ft_skip_len st - 1\<rparr>, c)
      else if ft_header_len st < FRAMED_DATA_HEADER_LEN then
        (let st1 = st\<lparr>ft_header := (ft_header st)[ft_header_len st := b],
                      ft_header_len := Suc (ft_header_len st)\<rparr>
         in if ft_header_len st1 = FRAMED_DATA_HEADER_LEN then
              (let (st2, c2) = framed_data_tx_header_ready on_error st1 c
               in if ft_header_len st2 = 0 then (st2, c2)
                  else if ft_expected_len st2 = 0
                    then framed_data_tx_complete_frame on_tx on_error st2 c2
                  else (st2, c2))
            else (st1, c))
      else if ft_payload_len st < unat (ft_expected_len st) then
        (let st1 = st\<lparr>ft_payload := (ft_payload st)[ft_payload_len st := b],
                      ft_payload_len := Suc (ft_payload_len st)\<rparr>
         in if ft_payload_len st1 = unat (ft_expected_len st1)
            then framed_data_tx_complete_frame on_tx on_error st1 c
            else (st1, c))
      else (st, c))"

definition framed_data_tx_feed_state ::
  "'c on_tx_fn \<Rightarrow> 'c on_error_fn \<Rightarrow> framed_tx_state \<Rightarrow> bytes \<Rightarrow> 'c \<Rightarrow> framed_tx_state \<times> 'c" where
  "framed_data_tx_feed_state on_tx on_error st buf c =
     foldl (framed_data_tx_feed_byte on_tx on_error) (st, c) buf"

section \<open>Memory safety of the parser\<close>

text \<open>
  Every index the loop writes lies inside its array, the expected length never exceeds the
  payload array, and a pending skip goes with an empty header.
\<close>

definition framed_state_wf :: "framed_tx_state \<Rightarrow> bool" where
  "framed_state_wf st \<longleftrightarrow>
     length (ft_header st) = 3 \<and> length (ft_payload st) = 255 \<and>
     ft_header_len st \<le> 3 \<and>
     (ft_header_len st < 3 \<longrightarrow> ft_payload_len st = 0) \<and>
     (ft_header_len st = 3 \<longrightarrow>
        ft_payload_len st < unat (ft_expected_len st) \<and> unat (ft_expected_len st) \<le> 255) \<and>
     (0 < ft_skip_len st \<longrightarrow> ft_header_len st = 0)"

lemma framed_state_wf_init [wf_intros]: "framed_state_wf framed_data_tx_state_init"
  by (simp add: framed_state_wf_def framed_data_tx_state_init_def c_consts)

lemma framed_state_wf_skip:
  "framed_state_wf (framed_data_tx_state_init\<lparr>ft_skip_len := n\<rparr>)"
  by (simp add: framed_state_wf_def framed_data_tx_state_init_def c_consts)

lemma fst_complete_frame [simp]:
  "fst (framed_data_tx_complete_frame on_tx on_error st c) = framed_data_tx_state_init"
  by (simp add: framed_data_tx_complete_frame_def split: prod.splits)

lemma header_ready_cases:
  "(\<exists>n. fst (framed_data_tx_header_ready on_error st c) = framed_data_tx_state_init\<lparr>ft_skip_len := n\<rparr>)
   \<or> (\<exists>t n. fst (framed_data_tx_header_ready on_error st c) =
          st\<lparr>ft_frame_type := t, ft_expected_len := n\<rparr> \<and> unat n \<le> 255)"
  by (auto simp: framed_data_tx_header_ready_def Let_def framed_data_rf_payload_len_valid_def c_consts)

lemma framed_state_wf_feed_byte:
  assumes wf: "framed_state_wf (fst s)"
  shows "framed_state_wf (fst (framed_data_tx_feed_byte on_tx on_error s b))"
proof -
  obtain st c where s: "s = (st, c)" by (cases s)
  have wf_st: "framed_state_wf st" using wf s by simp
  let ?st1 = "st\<lparr>ft_header := (ft_header st)[ft_header_len st := b],
                 ft_header_len := Suc (ft_header_len st)\<rparr>"
  have "ft_header_len st \<le> 3" using wf_st by (simp add: framed_state_wf_def)
  then have "ft_header_len st < 2 \<or> ft_header_len st = 2 \<or> ft_header_len st = 3" by linarith
  moreover have "0 < ft_skip_len st \<or> ft_skip_len st = 0" by (simp add: word_gt_0)
  ultimately consider "0 < ft_skip_len st"
    | "ft_skip_len st = 0" "ft_header_len st < 2"
    | "ft_skip_len st = 0" "ft_header_len st = 2"
    | "ft_skip_len st = 0" "ft_header_len st = 3"
    by blast
  then show ?thesis
  proof cases
    case 3
    from header_ready_cases [of on_error ?st1 c] show ?thesis
    proof (elim disjE exE conjE)
      fix n
      assume "fst (framed_data_tx_header_ready on_error ?st1 c) = framed_data_tx_state_init\<lparr>ft_skip_len := n\<rparr>"
      moreover have "ft_header_len (framed_data_tx_state_init\<lparr>ft_skip_len := n\<rparr>) = 0"
        by (simp add: framed_data_tx_state_init_def)
      ultimately show ?thesis using 3 s
        by (auto simp: framed_data_tx_feed_byte_def Let_def c_consts framed_state_wf_skip
            split: prod.splits)
    next
      fix t n
      assume "fst (framed_data_tx_header_ready on_error ?st1 c) =
          ?st1\<lparr>ft_frame_type := t, ft_expected_len := n\<rparr>" and "unat n \<le> 255"
      then show ?thesis using 3 s wf_st
        by (auto simp: framed_data_tx_feed_byte_def Let_def c_consts framed_data_tx_state_init_def
            framed_state_wf_def unat_gt_0 split: prod.splits)
    qed
  qed (use s wf_st in \<open>auto simp: framed_data_tx_feed_byte_def Let_def c_consts
         framed_data_tx_state_init_def framed_state_wf_def\<close>)
qed

lemma framed_state_wf_feed:
  assumes "framed_state_wf st"
  shows "framed_state_wf (fst (framed_data_tx_feed_state on_tx on_error st buf c))"
  unfolding framed_data_tx_feed_state_def
  by (rule foldl_invariant [where P = "\<lambda>s. framed_state_wf (fst s)"])
    (use assms framed_state_wf_feed_byte in auto)

section \<open>What the parser means: one event per frame\<close>

text \<open>
  \<open>frame_bytes t p\<close> is a frame on the wire and \<open>deliver_frame\<close> is what the daemon owes it:
  the packet handler for a well-formed \<open>TX_PACKET\<close> (and one \<open>TX failed\<close> error if it
  refuses), exactly one error otherwise.
\<close>

definition frame_bytes :: "u8 \<Rightarrow> bytes \<Rightarrow> bytes" where
  "frame_bytes t p = [t, le16_lo (of_nat (length p)), le16_hi (of_nat (length p))] @ p"

definition deliver_frame ::
  "'c on_tx_fn \<Rightarrow> 'c on_error_fn \<Rightarrow> u8 \<times> bytes \<Rightarrow> 'c \<Rightarrow> 'c" where
  "deliver_frame on_tx on_error fr c =
     (let t = fst fr; p = snd fr in
      if \<not> framed_data_type_known t then on_error ''unknown frame type'' c
      else if t \<noteq> FRAMED_DATA_TYPE_TX_PACKET then
        (if FRAMED_DATA_MAX_RF_PAYLOAD < length p
         then on_error ''unsupported frame too large'' c
         else on_error ''unsupported client frame'' c)
      else if FRAMED_DATA_MAX_RF_PAYLOAD < length p then on_error ''TX payload too large'' c
      else let (r, c1) = on_tx p c in if r \<noteq> 0 then on_error ''TX failed'' c1 else c1)"

lemma feed_skip:
  assumes "unat n = length xs"
  shows "foldl (framed_data_tx_feed_byte on_tx on_error)
           (framed_data_tx_state_init\<lparr>ft_skip_len := n\<rparr>, c) xs = (framed_data_tx_state_init, c)"
  using assms
proof (induction xs arbitrary: n)
  case Nil
  then have "n = 0" by (simp add: unat_eq_0)
  then show ?case by (simp add: framed_data_tx_state_init_def)
next
  case (Cons x xs)
  then have "n \<noteq> 0" by auto
  then have pos: "0 < n" by (simp add: word_gt_0)
  with Cons.prems have "unat (n - 1) = length xs" by (simp add: unat_dec)
  from Cons.IH [OF this] pos show ?case
    by (simp add: framed_data_tx_feed_byte_def)
qed

lemma feed_payload:
  assumes "xs \<noteq> []" and "ft_skip_len st = 0" and "ft_header_len st = 3"
    and "length (ft_payload st) = 255" and "unat (ft_expected_len st) \<le> 255"
    and "ft_payload_len st + length xs = unat (ft_expected_len st)"
  shows "\<exists>st'. ft_frame_type st' = ft_frame_type st \<and> ft_expected_len st' = ft_expected_len st
     \<and> take (unat (ft_expected_len st)) (ft_payload st') = take (ft_payload_len st) (ft_payload st) @ xs
     \<and> foldl (framed_data_tx_feed_byte on_tx on_error) (st, c) xs =
         framed_data_tx_complete_frame on_tx on_error st' c"
  using assms
proof (induction xs arbitrary: st)
  case Nil
  then show ?case by simp
next
  case (Cons x xs)
  let ?st1 = "st\<lparr>ft_payload := (ft_payload st)[ft_payload_len st := x],
                 ft_payload_len := Suc (ft_payload_len st)\<rparr>"
  have lt: "ft_payload_len st < unat (ft_expected_len st)" using Cons.prems by simp
  have take1: "take (Suc (ft_payload_len st)) (ft_payload ?st1) =
      take (ft_payload_len st) (ft_payload st) @ [x]"
    using Cons.prems by (simp add: take_Suc_snoc)
  show ?case
  proof (cases xs)
    case Nil
    with Cons.prems have "Suc (ft_payload_len st) = unat (ft_expected_len st)" by simp
    with lt take1 Cons.prems Nil show ?thesis
      by (intro exI [of _ ?st1])
        (simp add: framed_data_tx_feed_byte_def c_consts)
  next
    case (Cons y ys)
    have step: "framed_data_tx_feed_byte on_tx on_error (st, c) x = (?st1, c)"
      using lt Cons.prems Cons by (simp add: framed_data_tx_feed_byte_def c_consts)
    have "\<exists>st'. ft_frame_type st' = ft_frame_type ?st1 \<and> ft_expected_len st' = ft_expected_len ?st1
       \<and> take (unat (ft_expected_len ?st1)) (ft_payload st') =
           take (ft_payload_len ?st1) (ft_payload ?st1) @ xs
       \<and> foldl (framed_data_tx_feed_byte on_tx on_error) (?st1, c) xs =
           framed_data_tx_complete_frame on_tx on_error st' c"
      by (rule Cons.IH) (use Cons.prems Cons in simp_all)
    with step take1 show ?thesis by simp
  qed
qed

text \<open>The three header bytes, from the initial state.\<close>

abbreviation header_state :: "u8 \<Rightarrow> u8 \<Rightarrow> u8 \<Rightarrow> framed_tx_state" where
  "header_state a b d \<equiv> framed_data_tx_state_init\<lparr>ft_header := [a, b, d], ft_header_len := 3\<rparr>"

lemma feed_header:
  "foldl (framed_data_tx_feed_byte on_tx on_error) (framed_data_tx_state_init, c) [a, b, d] =
     (let (st2, c2) = framed_data_tx_header_ready on_error (header_state a b d) c
      in if ft_header_len st2 = 0 then (st2, c2)
         else if ft_expected_len st2 = 0 then framed_data_tx_complete_frame on_tx on_error st2 c2
         else (st2, c2))"
  by (simp add: framed_data_tx_feed_byte_def framed_data_tx_state_init_def c_consts
      numeral_3_eq_3 numeral_2_eq_2)

lemma feed_frame:
  assumes len: "length p < 65536"
  shows "foldl (framed_data_tx_feed_byte on_tx on_error) (framed_data_tx_state_init, c)
           (frame_bytes t p) = (framed_data_tx_state_init, deliver_frame on_tx on_error (t, p) c)"
proof -
  let ?n = "of_nat (length p) :: u16"
  let ?hs = "header_state t (le16_lo ?n) (le16_hi ?n)"
  let ?acc = "?hs\<lparr>ft_frame_type := t, ft_expected_len := ?n\<rparr>"
  have n: "unat ?n = length p" using len by (rule unat_of_nat_u16)
  have split: "foldl (framed_data_tx_feed_byte on_tx on_error) (framed_data_tx_state_init, c)
        (frame_bytes t p) = foldl (framed_data_tx_feed_byte on_tx on_error)
          (foldl (framed_data_tx_feed_byte on_tx on_error) (framed_data_tx_state_init, c)
             [t, le16_lo ?n, le16_hi ?n]) p"
    by (simp add: frame_bytes_def)
  define rejected where "rejected \<longleftrightarrow>
    \<not> framed_data_type_known t \<or> FRAMED_DATA_MAX_RF_PAYLOAD < length p"
  show ?thesis
  proof (cases rejected)
    case True
    then have "framed_data_tx_header_ready on_error ?hs c =
        (framed_data_tx_state_init\<lparr>ft_skip_len := ?n\<rparr>, deliver_frame on_tx on_error (t, p) c)"
      by (auto simp: rejected_def framed_data_tx_header_ready_def deliver_frame_def Let_def n
          framed_data_rf_payload_len_valid_def)
    moreover have "ft_header_len (framed_data_tx_state_init\<lparr>ft_skip_len := ?n\<rparr>) = 0"
      by (simp add: framed_data_tx_state_init_def)
    ultimately show ?thesis
      unfolding split feed_header by (simp add: feed_skip n)
  next
    case False
    then have small: "length p \<le> 255" and known: "framed_data_type_known t"
      by (auto simp: rejected_def c_consts)
    from False have acc: "framed_data_tx_header_ready on_error ?hs c = (?acc, c)"
      by (auto simp: rejected_def framed_data_tx_header_ready_def Let_def n
          framed_data_rf_payload_len_valid_def)
    have complete: "framed_data_tx_complete_frame on_tx on_error st' c =
        (framed_data_tx_state_init, deliver_frame on_tx on_error (t, p) c)"
      if "ft_frame_type st' = t" and "ft_expected_len st' = ?n"
        and "take (length p) (ft_payload st') = p" for st'
      using that small known
      by (auto simp: framed_data_tx_complete_frame_def deliver_frame_def n Let_def c_consts
          split: prod.splits)
    show ?thesis
    proof (cases "p = []")
      case True
      then show ?thesis unfolding split feed_header acc
        using complete [of ?acc] by simp
    next
      case nonempty: False
      then have "?n \<noteq> 0" using n by (metis length_0_conv unat_0)
      then have "foldl (framed_data_tx_feed_byte on_tx on_error) (framed_data_tx_state_init, c)
          [t, le16_lo ?n, le16_hi ?n] = (?acc, c)"
        unfolding feed_header acc by simp
      moreover have "\<exists>st'. ft_frame_type st' = ft_frame_type ?acc \<and>
          ft_expected_len st' = ft_expected_len ?acc
          \<and> take (unat (ft_expected_len ?acc)) (ft_payload st') =
              take (ft_payload_len ?acc) (ft_payload ?acc) @ p
          \<and> foldl (framed_data_tx_feed_byte on_tx on_error) (?acc, c) p =
              framed_data_tx_complete_frame on_tx on_error st' c"
        by (rule feed_payload) (use nonempty small n in
            \<open>simp_all add: framed_data_tx_state_init_def c_consts\<close>)
      ultimately show ?thesis unfolding split
        using complete n by (auto simp: framed_data_tx_state_init_def)
    qed
  qed
qed

lemma feed_frames:
  assumes "\<And>t p. (t, p) \<in> set fs \<Longrightarrow> length p < 65536"
  shows "framed_data_tx_feed_state on_tx on_error framed_data_tx_state_init
           (concat (map (\<lambda>(t, p). frame_bytes t p) fs)) c
         = (framed_data_tx_state_init, fold (deliver_frame on_tx on_error) fs c)"
  using assms
proof (induction fs arbitrary: c)
  case Nil
  then show ?case by (simp add: framed_data_tx_feed_state_def)
next
  case (Cons fr fs)
  obtain t p where fr: "fr = (t, p)" by (cases fr)
  with Cons.prems have "length p < 65536" by auto
  moreover have "framed_data_tx_feed_state on_tx on_error framed_data_tx_state_init
      (concat (map (\<lambda>(t, p). frame_bytes t p) fs)) c'
      = (framed_data_tx_state_init, fold (deliver_frame on_tx on_error) fs c')" for c'
    by (rule Cons.IH) (use Cons.prems in auto)
  ultimately show ?case using fr
    by (simp add: framed_data_tx_feed_state_def feed_frame)
qed

lemma feed_append:
  "framed_data_tx_feed_state on_tx on_error st (xs @ ys) c =
     (let (st', c') = framed_data_tx_feed_state on_tx on_error st xs c
      in framed_data_tx_feed_state on_tx on_error st' ys c')"
  by (simp add: framed_data_tx_feed_state_def split: prod.splits)

text \<open>A client's bytes arrive in arbitrary pieces; \<open>feed_chunks\<close> feeds one \<open>read\<close> after another.\<close>

definition feed_chunks ::
  "'c on_tx_fn \<Rightarrow> 'c on_error_fn \<Rightarrow> bytes list \<Rightarrow> framed_tx_state \<times> 'c \<Rightarrow> framed_tx_state \<times> 'c" where
  "feed_chunks on_tx on_error =
     fold (\<lambda>buf s. framed_data_tx_feed_state on_tx on_error (fst s) buf (snd s))"

lemma feed_chunks_concat:
  "feed_chunks on_tx on_error chunks s =
     framed_data_tx_feed_state on_tx on_error (fst s) (concat chunks) (snd s)"
proof (induction chunks arbitrary: s)
  case Nil
  then show ?case by (simp add: feed_chunks_def framed_data_tx_feed_state_def)
next
  case (Cons buf chunks)
  then show ?case
    by (simp add: feed_chunks_def feed_append split: prod.splits)
qed

section \<open>Properties\<close>

text \<open>
  C1: framing is independent of how the bytes arrive. When the bytes a client sent are the
  frames \<open>fs\<close> in sequence, in whatever pieces the socket delivers them, the parser calls the
  transmit handler with exactly the payloads of the well-formed \<open>TX_PACKET\<close> frames in order,
  reports exactly one error for each frame that is unknown, unsupported or too large (and one
  when the handler refuses), re-synchronises after the rejected frame's declared payload, and
  ends in its initial state.
\<close>

theorem framed_stream_delivers:
  assumes "\<And>t p. (t, p) \<in> set fs \<Longrightarrow> length p < 65536"
    and "concat chunks = concat (map (\<lambda>(t, p). frame_bytes t p) fs)"
  shows "feed_chunks on_tx on_error chunks (framed_data_tx_state_init, c)
       = (framed_data_tx_state_init, fold (deliver_frame on_tx on_error) fs c)"
  using feed_frames [of fs on_tx on_error c] assms by (simp add: feed_chunks_concat)

theorem framed_stream_delivers_witness:
  "feed_chunks (\<lambda>p ev. (0, ev @ [Inl p])) (\<lambda>m ev. ev @ [Inr m])
     [[9, 1], [0, 77, 2], [2, 0, 65, 66]] (framed_data_tx_state_init, [])
   = (framed_data_tx_state_init, [Inr ''unknown frame type'', Inl [65, 66]])"
proof -
  let ?fs = "[(9, [77]), (2, [65, 66])] :: (u8 \<times> bytes) list"
  have "feed_chunks (\<lambda>p ev. (0, ev @ [Inl p])) (\<lambda>m ev. ev @ [Inr m])
      [[9, 1], [0, 77, 2], [2, 0, 65, 66]] (framed_data_tx_state_init, [])
    = (framed_data_tx_state_init, fold (deliver_frame (\<lambda>p ev. (0, ev @ [Inl p])) (\<lambda>m ev. ev @ [Inr m])) ?fs [])"
    by (rule framed_stream_delivers)
      (auto simp: frame_bytes_def le16_lo_def le16_hi_def)
  then show ?thesis
    by (simp add: deliver_frame_def framed_data_type_known_def c_consts)
qed

text \<open>
  the parser never leaves its arrays. From the initial state and for any bytes, any
  handlers and any pieces, the header index stays within 3, the declared length of an accepted
  frame within the 255-byte payload array, and the next payload index strictly below it.
\<close>

theorem framed_stream_memory_safe:
  "framed_state_wf (fst (feed_chunks on_tx on_error chunks (framed_data_tx_state_init, c)))"
  by (simp add: feed_chunks_concat framed_state_wf_feed framed_state_wf_init)

end
