(* ===== verification/Framed_Runtime.thy ===== *)
theory Framed_Runtime
  imports Client_IO Framed_Stream Tx_Async
begin

text \<open>
  Framed DATA clients: delivery of transmit completions to the slot that asked for them
  (\<open>daemon_tx_completion.cpp\<close>) and the runtime that reads framed clients and answers their
  packets (\<open>daemon_framed_data_runtime.cpp\<close>). The slot array is never empty and never NULL. The
  packet handler and the result policy are the function pointers of the code, acting on a
  handler context of type \<open>'h\<close>.
\<close>

section \<open>Delivery of one completion\<close>

definition DAEMON_TX_COMPLETION_DELIVERY_STALE :: int where
  [c_consts]: "DAEMON_TX_COMPLETION_DELIVERY_STALE = 2"

definition tx_result_frame_buffer :: bytes where
  "tx_result_frame_buffer = replicate (FRAMED_DATA_HEADER_LEN + FRAMED_DATA_TX_RESULT_PAYLOAD_LEN) 0"

definition daemon_tx_completion_encode_frame :: "bytes ptr \<Rightarrow> tx_job_result ptr \<Rightarrow> bytes option" where
  "daemon_tx_completion_encode_frame frame result =
     (case result of
        None \<Rightarrow> None
      | Some r \<Rightarrow> framed_data_encode_tx_result frame (res_framed_status r) (res_flags r) (res_seq r))"

definition daemon_tx_completion_deliver_to_slot ::
  "tx_job_result ptr \<Rightarrow> client_slot list \<Rightarrow> net \<Rightarrow> int \<times> client_slot list \<times> net" where
  "daemon_tx_completion_deliver_to_slot result slots net =
     (case result of
        None \<Rightarrow> (-1, slots, net)
      | Some r \<Rightarrow>
          (let idx = res_completion_slot r in
           if length slots = 0 then (-1, slots, net)
           else if idx = DAEMON_TX_COMPLETION_SLOT_NONE then (0, slots, net)
           else if idx < 0 \<or> int (length slots) \<le> idx then (0, slots, net)
           else
             (let slot = slots ! nat idx in
              if \<not> client_slot_has_client slot then (0, slots, net)
              else if res_completion_generation r \<noteq> 0 \<and>
                      cl_generation slot \<noteq> res_completion_generation r
                then (DAEMON_TX_COMPLETION_DELIVERY_STALE, slots, net)
              else
                (case daemon_tx_completion_encode_frame (Some tx_result_frame_buffer) result of
                   None \<Rightarrow> (-1, slots, net)
                 | Some frame \<Rightarrow>
                     (let (ok, q) = client_output_queue_append (cl_output slot) (Some frame) (length frame)
                      in if \<not> ok then
                           (let (slot1, net1) = client_slot_close slot net
                            in (-1, slots[nat idx := slot1], net1))
                         else
                           (let (slot1, net1) = client_slot_flush_output (slot\<lparr>cl_output := q\<rparr>) net
                            in (1, slots[nat idx := slot1], net1)))))))"

text \<open>The bytes of a \<open>TX_RESULT\<close> frame.\<close>

definition tx_result_frame :: "u8 \<Rightarrow> u8 \<Rightarrow> u16 \<Rightarrow> bytes" where
  "tx_result_frame status flags q = [4, 4, 0, status, flags, le16_lo q, le16_hi q]"

lemma encode_tx_result_frame:
  "framed_data_encode_tx_result (Some tx_result_frame_buffer) status flags q =
     (if framed_data_tx_result_status_valid status then Some (tx_result_frame status flags q) else None)"
  by (simp add: framed_data_encode_tx_result_bytes tx_result_frame_buffer_def tx_result_frame_def
      framed_data_tx_result_status_valid_def c_consts)

lemma length_tx_result_frame [simp]: "length (tx_result_frame st fl q) = 7"
  by (simp add: tx_result_frame_def)

text \<open>
  C11: A completion reaches nobody but the connection that submitted the job. If it is reported
  as delivered, the addressed slot is connected under the very generation the job recorded, and
  the frame with the job's status, flags and sequence number was appended to that client's
  stream, behind everything committed before; no other slot is touched. In all other cases no
  client's stream grows.
\<close>

theorem completion_reaches_only_its_submitter:
  assumes "daemon_tx_completion_deliver_to_slot (Some r) slots net = (rc, slots', net')"
    and "res_completion_generation r \<noteq> 0"
  defines "i \<equiv> nat (res_completion_slot r)"
  shows "(rc = 1 \<longrightarrow>
      i < length slots \<and> client_slot_has_client (slots ! i) \<and>
      cl_generation (slots ! i) = res_completion_generation r \<and>
      (\<exists>rest. net_wire net' (cl_fd (slots ! i)) @ rest =
         client_bytes (slots ! i) net @ tx_result_frame (res_framed_status r) (res_flags r) (res_seq r)) \<and>
      (\<forall>j. j \<noteq> i \<longrightarrow> slots' ! j = slots ! j) \<and>
      (\<forall>fd. fd \<noteq> cl_fd (slots ! i) \<longrightarrow> net_wire net' fd = net_wire net fd)) \<and>
    (rc \<noteq> 1 \<longrightarrow> net_wire net' = net_wire net \<and>
      (slots' = slots \<or> slots' = slots[i := fst (client_slot_close (slots ! i) net)]))"
proof -
  let ?slot = "slots ! i" and ?frame = "tx_result_frame (res_framed_status r) (res_flags r) (res_seq r)"
  consider (skip) "(rc, slots', net') = (rc, slots, net)" "rc \<noteq> 1"
    | (full) "rc = -1" "slots' = slots[i := fst (client_slot_close ?slot net)]"
        "net' = snd (client_slot_close ?slot net)"
    | (sent) slot1 where "rc = 1" "i < length slots" "client_slot_has_client ?slot"
        "cl_generation ?slot = res_completion_generation r" "slots' = slots[i := slot1]"
        "client_slot_flush_output (?slot\<lparr>cl_output := cl_output ?slot @ ?frame\<rparr>) net = (slot1, net')"
    using assms(1,2)
    by (fastforce simp: daemon_tx_completion_deliver_to_slot_def daemon_tx_completion_encode_frame_def
        encode_tx_result_frame Let_def client_output_queue_append_def i_def c_consts
        split: if_splits option.splits prod.splits)
  then show ?thesis
  proof cases
    case skip
    then show ?thesis by simp
  next
    case full
    then show ?thesis by simp
  next
    case sent
    have "client_slot_has_client (?slot\<lparr>cl_output := cl_output ?slot @ ?frame\<rparr>)"
      using sent(3) by (simp add: client_slot_has_client_def)
    from flush_output_cases [OF sent(6) this] sent(1-5) show ?thesis
      by (auto simp: client_bytes_def)
  qed
qed

definition sample_result :: tx_job_result where
  "sample_result = daemon_tx_job_result_init
     (Some (zero_job\<lparr>job_seq := 0x1234, job_completion_slot := 1, job_completion_generation := 7\<rparr>)) OUTCOME_OK"

theorem completion_reaches_only_its_submitter_witness:
  "let (rc, slots', net') = daemon_tx_completion_deliver_to_slot (Some sample_result)
         [sample_slot 4, sample_slot 5] sample_net
   in rc = 1 \<and> (\<exists>rest. net_wire net' 5 @ rest = [9, 4, 4, 0, 0, 0, 0x34, 0x12]) \<and> slots' ! 0 = sample_slot 4"
proof -
  obtain rc slots' net' where run: "daemon_tx_completion_deliver_to_slot (Some sample_result)
      [sample_slot 4, sample_slot 5] sample_net = (rc, slots', net')"
    by (rule prod_cases3)
  have "fst (daemon_tx_completion_deliver_to_slot (Some sample_result)
      [sample_slot 4, sample_slot 5] sample_net) = 1"
    by (simp add: daemon_tx_completion_deliver_to_slot_def daemon_tx_completion_encode_frame_def
        sample_result_def daemon_tx_job_result_init_def zero_job_def sample_slot_def
        encode_tx_result_frame client_slot_has_client_def client_output_queue_append_def
        daemon_tx_outcome_to_framed_status_def c_consts Let_def
        framed_data_tx_result_status_valid_def split: prod.splits)
  then have "rc = 1" using run by simp
  moreover have "res_completion_generation sample_result \<noteq> 0" "nat (res_completion_slot sample_result) = 1"
    by (simp_all add: sample_result_def daemon_tx_job_result_init_def zero_job_def)
  moreover have "client_bytes (sample_slot 5) sample_net @ tx_result_frame (res_framed_status sample_result)
      (res_flags sample_result) (res_seq sample_result) = [9, 4, 4, 0, 0, 0, 0x34, 0x12]"
    by (simp add: client_bytes_def sample_slot_def sample_net_def tx_result_frame_def sample_result_def
        daemon_tx_job_result_init_def zero_job_def daemon_tx_outcome_to_framed_status_def c_consts
        le16_lo_def le16_hi_def)
  moreover have "cl_fd (sample_slot 5) = 5" by (simp add: sample_slot_def)
  ultimately show ?thesis
    using completion_reaches_only_its_submitter [OF run] unfolding run by auto
qed

section \<open>Reuse of a slot\<close>

datatype slot_event = Connect int | Disconnect

definition slot_event :: "client_slot \<Rightarrow> slot_event \<Rightarrow> client_slot" where
  "slot_event slot e =
     (case e of Connect fd \<Rightarrow> client_slot_set_fd slot fd
      | Disconnect \<Rightarrow> fst (client_slot_close slot (\<lparr>net_reads = (\<lambda>_. []), net_answers = (\<lambda>_. []),
          net_wire = (\<lambda>_. []), net_closed = []\<rparr>)))"

lemma generation_events:
  "cl_generation (foldl slot_event slot es) =
     (client_slot_next_generation ^^ length es) (cl_generation slot)"
proof (induction es arbitrary: slot)
  case (Cons e es)
  have "cl_generation (slot_event slot e) = client_slot_next_generation (cl_generation slot)"
    by (cases e) (simp_all add: slot_event_def client_slot_set_fd_def)
  with Cons show ?case by (simp add: funpow_swap1)
qed simp

text \<open>
  A completion whose slot was closed or reused since the submission is never delivered, for
  any sequence of fewer than \<open>2 ^ 32 - 1\<close> disconnects and connects: the delivery changes nothing,
  and reports STALE when another client sits in the slot.
\<close>

theorem stale_completion_not_delivered:
  assumes "slots ! i = foldl slot_event old es" and "i < length slots"
    and "es \<noteq> []" and "length es < 2 ^ 32 - 1" and "cl_generation old \<noteq> 0"
    and "res_completion_slot r = int i" and "res_completion_generation r = cl_generation old"
  shows "daemon_tx_completion_deliver_to_slot (Some r) slots net =
    (if client_slot_has_client (slots ! i) then DAEMON_TX_COMPLETION_DELIVERY_STALE else 0, slots, net)"
proof -
  have "cl_generation (slots ! i) \<noteq> cl_generation old"
    using generation_fresh [OF assms(5)] assms(1,3,4) by (simp add: generation_events)
  moreover have "length slots \<noteq> 0" using assms(2) by auto
  ultimately show ?thesis
    using assms(2,5,6,7)
    by (simp add: daemon_tx_completion_deliver_to_slot_def Let_def DAEMON_TX_COMPLETION_SLOT_NONE_def)
qed

theorem stale_completion_not_delivered_witness:
  "daemon_tx_completion_deliver_to_slot (Some sample_result)
     [sample_slot 4, foldl slot_event (sample_slot 5) [Disconnect, Connect 9]] sample_net =
   (DAEMON_TX_COMPLETION_DELIVERY_STALE,
    [sample_slot 4, foldl slot_event (sample_slot 5) [Disconnect, Connect 9]], sample_net)"
  using stale_completion_not_delivered
    [of "[sample_slot 4, foldl slot_event (sample_slot 5) [Disconnect, Connect 9]]" 1 "sample_slot 5"
      "[Disconnect, Connect 9]" sample_result sample_net]
  by (simp add: sample_slot_def sample_result_def daemon_tx_job_result_init_def zero_job_def
      slot_event_def client_slot_set_fd_def client_slot_has_client_def)

section \<open>The packets of a framed client\<close>

definition daemon_framed_tx_should_emit_immediate_result :: "bool \<Rightarrow> bool \<Rightarrow> int \<Rightarrow> bool" where
  "daemon_framed_tx_should_emit_immediate_result result_active result_deferred handler_result =
     (if \<not> result_active then False
      else if \<not> result_deferred then True
      else daemon_tx_outcome_is_failure handler_result)"

definition daemon_queue_framed_tx_result :: "client_slot \<Rightarrow> u8 \<Rightarrow> u8 \<Rightarrow> u16 \<Rightarrow> client_slot option" where
  "daemon_queue_framed_tx_result slot status flags q =
     (case framed_data_encode_tx_result (Some tx_result_frame_buffer) status flags q of
        None \<Rightarrow> None
      | Some frame \<Rightarrow>
          (let (ok, out) = client_output_queue_append (cl_output slot) (Some frame) (length frame)
           in if \<not> ok then None else Some (slot\<lparr>cl_output := out\<rparr>)))"

text \<open>
  The header and the text are appended one after the other; when the text does not fit, the
  header stays in the queue (the caller then closes the slot).
\<close>

definition daemon_queue_framed_error :: "client_slot \<Rightarrow> string \<Rightarrow> bool \<times> client_slot" where
  "daemon_queue_framed_error slot msg =
     (let len = (if 255 < length msg then 255 else length msg) in
      case framed_data_encode_header (Some (replicate FRAMED_DATA_HEADER_LEN 0)) FRAMED_DATA_TYPE_ERROR
             (of_nat len) of
        None \<Rightarrow> (False, slot)
      | Some header \<Rightarrow>
          (let (ok, out) = client_output_queue_append (cl_output slot) (Some header) (length header);
               slot1 = slot\<lparr>cl_output := out\<rparr>
           in if \<not> ok then (False, slot1)
              else if 0 < len then
                (let (ok2, out2) = client_output_queue_append (cl_output slot1) (Some (text_bytes msg)) len
                 in (ok2, slot1\<lparr>cl_output := out2\<rparr>))
              else (True, slot1)))"

record 'h framed_tx_ops =
  fx_handler :: "(bytes \<Rightarrow> 'h \<Rightarrow> int \<times> 'h) ptr"
  fx_result_enabled :: "('h \<Rightarrow> bool) ptr"
  fx_next_seq :: "('h \<Rightarrow> u16 \<times> 'h) ptr"
  fx_result_deferred :: "('h \<Rightarrow> bool) ptr"
  fx_set_target :: "(int \<Rightarrow> u32 \<Rightarrow> u16 \<Rightarrow> 'h \<Rightarrow> 'h) ptr"
  fx_managed_flag :: "('h \<Rightarrow> u8) ptr"

definition fx_target :: "'h framed_tx_ops \<Rightarrow> int \<Rightarrow> u32 \<Rightarrow> u16 \<Rightarrow> 'h \<Rightarrow> 'h" where
  "fx_target ops i gen q h = (case fx_set_target ops of None \<Rightarrow> h | Some f \<Rightarrow> f i gen q h)"

definition daemon_framed_tx_packet ::
  "'h framed_tx_ops \<Rightarrow> int \<Rightarrow> bytes \<Rightarrow> client_slot \<times> net \<times> 'h \<Rightarrow> int \<times> client_slot \<times> net \<times> 'h" where
  "daemon_framed_tx_packet ops slot_index payload ctx =
     (let (slot, net, h0) = ctx;
          result_active = (case fx_result_enabled ops of None \<Rightarrow> False | Some f \<Rightarrow> f h0);
          (q, h1) = (if result_active then (case fx_next_seq ops of None \<Rightarrow> (0, h0) | Some f \<Rightarrow> f h0)
                     else (0, h0));
          deferred_result = (case fx_result_deferred ops of None \<Rightarrow> False | Some f \<Rightarrow> f h1);
          h2 = fx_target ops slot_index (cl_generation slot) q h1;
          (result, h3) = (case fx_handler ops of None \<Rightarrow> (-1, h2) | Some f \<Rightarrow> f payload h2);
          h4 = fx_target ops DAEMON_TX_COMPLETION_SLOT_NONE 0 0 h3
      in if daemon_framed_tx_should_emit_immediate_result result_active deferred_result result then
           (let status = daemon_tx_outcome_to_framed_status result;
                flags = (case fx_managed_flag ops of
                           None \<Rightarrow> FRAMED_DATA_TX_RESULT_FLAG_MANAGED | Some f \<Rightarrow> f h4)
            in case daemon_queue_framed_tx_result slot status flags q of
                 Some slot1 \<Rightarrow> (0, slot1, net, h4)
               | None \<Rightarrow> (let (slot1, net1) = client_slot_close slot net in (0, slot1, net1, h4)))
         else if result_active then (0, slot, net, h4)
         else (result, slot, net, h4))"

definition daemon_framed_tx_error :: "string \<Rightarrow> client_slot \<times> net \<times> 'h \<Rightarrow> client_slot \<times> net \<times> 'h" where
  "daemon_framed_tx_error msg ctx =
     (let (slot, net, h) = ctx;
          (ok, slot1) = daemon_queue_framed_error slot msg
      in if ok then (slot1, net, h)
         else (let (slot2, net1) = client_slot_close slot1 net in (slot2, net1, h)))"

text \<open>The loop body for slot \<open>i\<close>, then the loop.\<close>

definition process_framed_slot ::
  "'h framed_tx_ops \<Rightarrow> (int \<Rightarrow> bool) \<Rightarrow> int \<Rightarrow> client_slot \<Rightarrow> framed_tx_state \<Rightarrow> net \<Rightarrow> 'h
     \<Rightarrow> client_slot \<times> framed_tx_state \<times> net \<times> 'h" where
  "process_framed_slot ops readfds i slot st net h =
     (if \<not> client_slot_has_client slot then (slot, framed_data_tx_state_init, net, h)
      else if \<not> client_slot_ready readfds slot then (slot, st, net, h)
      else
        (let (answer, net1) = net_read (cl_fd slot) 512 net in
         case answer of
           Inl again \<Rightarrow>
             if again then (slot, st, net1, h)
             else (let (slot1, net2) = client_slot_close slot net1
                   in (slot1, framed_data_tx_state_init, net2, h))
         | Inr buf \<Rightarrow>
             if length buf = 0 then
               (let (slot1, net2) = client_slot_close slot net1
                in (slot1, framed_data_tx_state_init, net2, h))
             else
               (let (st1, slot1, net2, h1) =
                      framed_data_tx_feed_state (daemon_framed_tx_packet ops i)
                        daemon_framed_tx_error st buf (slot, net1, h)
                in (slot1, st1, net2, h1))))"

fun process_framed_slots_from ::
  "'h framed_tx_ops \<Rightarrow> (int \<Rightarrow> bool) \<Rightarrow> int \<Rightarrow> client_slot list \<Rightarrow> framed_tx_state list \<Rightarrow> net \<Rightarrow> 'h
     \<Rightarrow> client_slot list \<times> framed_tx_state list \<times> net \<times> 'h" where
  "process_framed_slots_from ops readfds i (slot # slots) (st # sts) net h =
     (let (slot1, st1, net1, h1) = process_framed_slot ops readfds i slot st net h;
          (slots2, sts2, net2, h2) = process_framed_slots_from ops readfds (i + 1) slots sts net1 h1
      in (slot1 # slots2, st1 # sts2, net2, h2))"
| "process_framed_slots_from ops readfds i slots sts net h = (slots, sts, net, h)"

definition daemon_process_framed_data_slots ::
  "'h framed_tx_ops \<Rightarrow> (int \<Rightarrow> bool) \<Rightarrow> client_slot list \<Rightarrow> framed_tx_state list \<Rightarrow> net \<Rightarrow> 'h
     \<Rightarrow> client_slot list \<times> framed_tx_state list \<times> net \<times> 'h" where
  "daemon_process_framed_data_slots ops readfds slots states net h =
     process_framed_slots_from ops readfds 0 slots states net h"

function daemon_drain_framed_tx_completions ::
  "completion_queue \<Rightarrow> nat \<Rightarrow> client_slot list \<Rightarrow> net \<Rightarrow> completion_queue \<times> nat \<times> client_slot list \<times> net" where
  "daemon_drain_framed_tx_completions cq0 stale slots net =
     (if length slots = 0 then (cq0, stale, slots, net)
      else (case daemon_tx_completion_queue_pop cq0 of
              None \<Rightarrow> (cq0, stale, slots, net)
            | Some (result, cq1) \<Rightarrow>
                (let (rc, slots1, net1) = daemon_tx_completion_deliver_to_slot (Some result) slots net
                 in daemon_drain_framed_tx_completions cq1
                      (if rc = DAEMON_TX_COMPLETION_DELIVERY_STALE then stale + 1 else stale) slots1 net1)))"
  by pat_completeness auto
termination
  by (relation "measure (\<lambda>(q, _). cq_count q)")
    (auto simp: daemon_tx_completion_queue_pop_def split: if_splits)

declare daemon_drain_framed_tx_completions.simps [simp del]

section \<open>One answer per packet\<close>

lemma queue_tx_result_frame:
  "daemon_queue_framed_tx_result slot (daemon_tx_outcome_to_framed_status result) flags q =
     (if CLIENT_OUTPUT_QUEUE_CAPACITY - length (cl_output slot) < 7 then None
      else Some (slot\<lparr>cl_output := cl_output slot @
             tx_result_frame (daemon_tx_outcome_to_framed_status result) flags q\<rparr>))"
  by (simp add: daemon_queue_framed_tx_result_def encode_tx_result_frame
      client_output_queue_append_def)

text \<open>
  With result reporting on, a framed packet is answered exactly once. The handler sees the
  sequence number drawn for the packet and the slot's generation. When its outcome is final
  (results are not deferred, or the job was refused) one \<open>TX_RESULT\<close> frame with that sequence
  number and the status of the outcome is appended, or the client is closed because its queue
  is full; when the job was queued nothing is appended, the completion answers later. The packet
  itself never makes the parser report a second error.
\<close>

theorem framed_packet_answered_once:
  assumes "fx_result_enabled ops = Some en" and "en h" and "fx_next_seq ops = Some nxt"
    and "fx_result_deferred ops = Some deferred" and "fx_set_target ops = Some target"
    and "fx_handler ops = Some handler" and "fx_managed_flag ops = Some managed"
    and "nxt h = (q, h1)" and "handler payload (target i (cl_generation slot) q h1) = (result, h3)"
  defines "h4 \<equiv> target DAEMON_TX_COMPLETION_SLOT_NONE 0 0 h3"
  shows "daemon_framed_tx_packet ops i payload (slot, net, h) =
    (0, if deferred h1 \<and> result = outcome_code OUTCOME_OK then (slot, net, h4)
        else if CLIENT_OUTPUT_QUEUE_CAPACITY - length (cl_output slot) < 7
          then (fst (client_slot_close slot net), snd (client_slot_close slot net), h4)
        else (slot\<lparr>cl_output := cl_output slot @
                tx_result_frame (daemon_tx_outcome_to_framed_status result) (managed h4) q\<rparr>, net, h4))"
  using assms
  by (auto simp: daemon_framed_tx_packet_def fx_target_def queue_tx_result_frame
      daemon_framed_tx_should_emit_immediate_result_def daemon_tx_outcome_is_failure_def
      daemon_tx_outcome_is_ok_def Let_def split: prod.splits)

text \<open>A handler context that collects the packets handed to the radio.\<close>

definition sample_ops :: "bytes list framed_tx_ops" where
  "sample_ops = \<lparr>fx_handler = Some (\<lambda>p h. (0, h @ [p])), fx_result_enabled = Some (\<lambda>_. True),
     fx_next_seq = Some (\<lambda>h. (of_nat (length h), h)), fx_result_deferred = Some (\<lambda>_. False),
     fx_set_target = Some (\<lambda>_ _ _ h. h), fx_managed_flag = Some (\<lambda>_. 1)\<rparr>"

theorem framed_packet_answered_once_witness:
  "daemon_framed_tx_packet sample_ops 0 [1, 2] (sample_slot 4, sample_net, []) =
     (0, (sample_slot 4)\<lparr>cl_output := [9] @ tx_result_frame 0 1 0\<rparr>, sample_net, [[1, 2]])"
proof -
  have "daemon_framed_tx_packet sample_ops 0 [1, 2] (sample_slot 4, sample_net, []) =
    (0, if False \<and> (0::int) = outcome_code OUTCOME_OK then (sample_slot 4, sample_net, [[1, 2]])
        else if CLIENT_OUTPUT_QUEUE_CAPACITY - length (cl_output (sample_slot 4)) < 7
          then (fst (client_slot_close (sample_slot 4) sample_net),
                snd (client_slot_close (sample_slot 4) sample_net), [[1, 2]])
        else ((sample_slot 4)\<lparr>cl_output := cl_output (sample_slot 4) @
                tx_result_frame (daemon_tx_outcome_to_framed_status 0) 1 0\<rparr>, sample_net, [[1, 2]]))"
    by (rule framed_packet_answered_once [where en = "\<lambda>_. True" and deferred = "\<lambda>_. False"
          and nxt = "\<lambda>h. (of_nat (length h), h)" and handler = "\<lambda>p h. (0, h @ [p])"
          and target = "\<lambda>_ _ _ h. h" and managed = "\<lambda>_. 1"])
      (simp_all add: sample_ops_def)
  then show ?thesis
    by (simp add: sample_slot_def daemon_tx_outcome_to_framed_status_def c_consts)
qed

section \<open>A slot reused before it was seen empty\<close>

text \<open>
  The parser state of a slot is reset when the processing loop finds the slot without a client.
  In a tick of the daemon new connections are accepted before that loop runs, and a slot can
  be closed after it (a completion or a flush that fails). A slot closed that way and taken by
  a new client in the next tick keeps the previous client's unfinished frame.
\<close>

definition half_frame_state :: framed_tx_state where
  "half_frame_state = framed_data_tx_state_init\<lparr>ft_header := [2, 3, 0], ft_header_len := 3,
     ft_payload := (ft_payload framed_data_tx_state_init)[0 := 0x41], ft_payload_len := 1,
     ft_expected_len := 3, ft_frame_type := 2\<rparr>"

definition broken_client_net :: net where
  "broken_client_net = \<lparr>net_reads = (\<lambda>fd. if fd = 6 then [Received [1, 2]] else []),
     net_answers = (\<lambda>_. [Send_Error]), net_wire = (\<lambda>_. []), net_closed = []\<rparr>"

lemma replicate_3: "replicate 3 x = [x, x, x]"
  by (simp add: numeral_3_eq_3)

lemma take_3_update:
  "take 3 ((replicate 255 a)[0 := x, Suc 0 := y, Suc (Suc 0) := z]) = [x, y, z]"
proof -
  have "replicate 255 a = a # a # a # replicate 252 a"
    by (simp flip: replicate_Suc)
  then show ?thesis by simp
qed

lemma queue_tx_result_ok:
  "length (cl_output slot) \<le> 65529 \<Longrightarrow> daemon_queue_framed_tx_result slot 0 flags q =
     Some (slot\<lparr>cl_output := cl_output slot @ tx_result_frame 0 flags q\<rparr>)"
  using queue_tx_result_frame [of slot 0 flags q]
  by (simp add: daemon_tx_outcome_to_framed_status_def c_consts)

lemma half_frame_is_partial_read:
  "framed_data_tx_feed_state on_tx on_err framed_data_tx_state_init [2, 3, 0, 0x41] c =
     (half_frame_state, c)"
  by (simp add: framed_data_tx_feed_state_def framed_data_tx_feed_byte_def half_frame_state_def
      framed_data_tx_header_ready_def framed_data_tx_state_init_def framed_data_type_known_def
      framed_data_rf_payload_len_valid_def c_consts le16_def Let_def replicate_3)

text \<open>
  C32: A concrete run that shows the defect: a client sent the first four bytes of a frame with
  payload length 3; a failing completion closes its slot; the next tick accepts a new client
  into the slot before the framed loop runs (nothing is readable yet). When the new client then
  sends the two bytes 1 and 2, the daemon transmits a packet that starts with the old client's
  byte and ends with the new client's bytes.
\<close>

theorem reused_framed_slot_mixes_clients:
  "let slot0 = (sample_slot 5)\<lparr>cl_generation := 7\<rparr>;
       r = sample_result\<lparr>res_completion_slot := 0\<rparr>;
       (rc, slots1, net1) = daemon_tx_completion_deliver_to_slot (Some r) [slot0] broken_client_net;
       (fd, slots2, net2) = client_slot_accept_with_output (Accepted 6 True) slots1 net1;
       (slots3, sts3, net3, h3) =
         daemon_process_framed_data_slots sample_ops (\<lambda>_. False) slots2 [half_frame_state] net2 [];
       (slots4, sts4, net4, h4) =
         daemon_process_framed_data_slots sample_ops (\<lambda>fd. fd = 6) slots3 sts3 net3 h3
   in rc = 1 \<and> net_closed net1 = [5] \<and> fd = 6 \<and> cl_generation (hd slots4) = 9 \<and> h4 = [[0x41, 1, 2]]"
proof -
  let ?r = "sample_result\<lparr>res_completion_slot := 0\<rparr>"
  let ?slot1 = "\<lparr>cl_fd = -1, cl_output = [], cl_stream = config_stream_init empty_stream, cl_generation = 8\<rparr>"
  let ?net1 = "broken_client_net\<lparr>net_answers := (net_answers broken_client_net)(5 := []),
      net_wire := (net_wire broken_client_net)(5 := []), net_closed := [5]\<rparr>"
  have deliver: "daemon_tx_completion_deliver_to_slot (Some ?r) [(sample_slot 5)\<lparr>cl_generation := 7\<rparr>]
      broken_client_net = (1, [?slot1], ?net1)"
    by (simp add: daemon_tx_completion_deliver_to_slot_def daemon_tx_completion_encode_frame_def
        sample_result_def daemon_tx_job_result_init_def zero_job_def sample_slot_def
        encode_tx_result_frame client_slot_has_client_def client_output_queue_append_def
        daemon_tx_outcome_to_framed_status_def c_consts Let_def
        framed_data_tx_result_status_valid_def client_slot_flush_output_def
        client_output_queue_flush_fd_def broken_client_net_def client_slot_close_def
        client_slot_next_generation_def client_output_queue_init_def)
  let ?slot2 = "\<lparr>cl_fd = 6, cl_output = [], cl_stream = config_stream_init (config_stream_init empty_stream),
      cl_generation = 9\<rparr>"
  have accept: "client_slot_accept_with_output (Accepted 6 True) [?slot1] ?net1 = (6, [?slot2], ?net1)"
    by (simp add: client_slot_accept_with_output_def client_slot_has_client_def client_slot_set_fd_def
        client_slot_next_generation_def client_output_queue_reset_def client_output_queue_init_def)
  have idle: "daemon_process_framed_data_slots sample_ops (\<lambda>_. False) [?slot2] [half_frame_state] ?net1 [] =
      ([?slot2], [half_frame_state], ?net1, [])"
    by (simp add: daemon_process_framed_data_slots_def process_framed_slot_def client_slot_has_client_def
        client_slot_ready_def)
  have reads: "net_read 6 512 ?net1 =
      (Inr [1, 2], ?net1\<lparr>net_reads := (net_reads broken_client_net)(6 := [])\<rparr>)"
    by (simp add: net_read_def broken_client_net_def)
  have feed: "framed_data_tx_feed_state (daemon_framed_tx_packet sample_ops 0) daemon_framed_tx_error
      half_frame_state [1, 2] (?slot2, net, []) =
    (framed_data_tx_state_init, ?slot2\<lparr>cl_output := tx_result_frame 0 1 0\<rparr>, net, [[0x41, 1, 2]])" for net
    by (simp add: framed_data_tx_feed_state_def framed_data_tx_feed_byte_def half_frame_state_def
        framed_data_tx_state_init_def framed_data_tx_complete_frame_def c_consts Let_def
        daemon_framed_tx_packet_def sample_ops_def fx_target_def queue_tx_result_ok take_3_update
        daemon_framed_tx_should_emit_immediate_result_def daemon_tx_outcome_to_framed_status_def)
  show ?thesis
    by (simp add: deliver accept idle reads feed daemon_process_framed_data_slots_def
        process_framed_slot_def client_slot_has_client_def client_slot_ready_def)
qed

end
