(* ===== verification/Channel.thy ===== *)
theory Channel
  imports Framed_Runtime
begin

text \<open>
  The sockets of one band, \<open>radio_channel.cpp\<close>: the client slots of the raw DATA, framed DATA and
  CONFIG sockets with the kernel they share.
\<close>

definition MAX_CLIENTS :: nat where
  [c_consts]: "MAX_CLIENTS = 10"
definition buf_SIZE :: nat where
  [c_consts]: "buf_SIZE = 256"

record channel =
  ch_data_fd :: int
  ch_framed_fd :: int
  ch_conf_fd :: int
  ch_data :: "client_slot list"
  ch_framed :: "client_slot list"
  ch_conf :: "client_slot list"
  ch_net :: net

definition radio_channel_io_init ::
  "int \<Rightarrow> int \<Rightarrow> int \<Rightarrow> client_slot list \<Rightarrow> client_slot list \<Rightarrow> client_slot list \<Rightarrow> net \<Rightarrow> channel" where
  "radio_channel_io_init data_fd framed_fd conf_fd data framed conf net =
     \<lparr>ch_data_fd = data_fd, ch_framed_fd = framed_fd, ch_conf_fd = conf_fd,
      ch_data = data, ch_framed = framed, ch_conf = conf, ch_net = net\<rparr>"

text \<open>\<open>accepts\<close> gives what \<open>accept()\<close> on a listening descriptor says.\<close>

definition radio_channel_accept_ready ::
  "(int \<Rightarrow> accept_answer) \<Rightarrow> (int \<Rightarrow> bool) \<Rightarrow> channel \<Rightarrow> channel" where
  "radio_channel_accept_ready accepts ready ch =
     (let ch1 = (if ready (ch_data_fd ch) then
                   (let (_, slots, net) = client_slot_accept_with_output (accepts (ch_data_fd ch)) (ch_data ch) (ch_net ch)
                    in ch\<lparr>ch_data := slots, ch_net := net\<rparr>) else ch);
          ch2 = (if ready (ch_framed_fd ch1) then
                   (let (_, slots, net) = client_slot_accept_with_output (accepts (ch_framed_fd ch1)) (ch_framed ch1) (ch_net ch1)
                    in ch1\<lparr>ch_framed := slots, ch_net := net\<rparr>) else ch1)
      in (if ready (ch_conf_fd ch2) then
            (let (_, slots, net) = client_slot_accept_with_output (accepts (ch_conf_fd ch2)) (ch_conf ch2) (ch_net ch2)
             in ch2\<lparr>ch_conf := slots, ch_net := net\<rparr>) else ch2))"

definition radio_channel_flush_ready :: "(int \<Rightarrow> bool) \<Rightarrow> channel \<Rightarrow> channel" where
  "radio_channel_flush_ready ready ch =
     (let (data, net1) = client_slot_flush_ready_outputs ready (ch_data ch) (ch_net ch);
          (framed, net2) = client_slot_flush_ready_outputs ready (ch_framed ch) net1;
          (conf, net3) = client_slot_flush_ready_outputs ready (ch_conf ch) net2
      in ch\<lparr>ch_data := data, ch_framed := framed, ch_conf := conf, ch_net := net3\<rparr>)"

definition channel_send_data :: "bytes \<Rightarrow> channel \<Rightarrow> channel" where
  "channel_send_data bs ch =
     (let (slots, net) = client_slot_broadcast_bytes_queued (Some bs) (ch_data ch) (ch_net ch)
      in ch\<lparr>ch_data := slots, ch_net := net\<rparr>)"

definition channel_send_framed :: "bytes \<Rightarrow> channel \<Rightarrow> channel" where
  "channel_send_framed bs ch =
     (let (slots, net) = client_slot_broadcast_bytes_queued (Some bs) (ch_framed ch) (ch_net ch)
      in ch\<lparr>ch_framed := slots, ch_net := net\<rparr>)"

definition channel_send_conf :: "string \<Rightarrow> channel \<Rightarrow> channel" where
  "channel_send_conf msg ch =
     (let (slots, net) = client_slot_broadcast_queued (Some msg) (ch_conf ch) (ch_net ch)
      in ch\<lparr>ch_conf := slots, ch_net := net\<rparr>)"

definition sample_chan :: channel where
  "sample_chan = \<lparr>ch_data_fd = 3, ch_framed_fd = 4, ch_conf_fd = 5, ch_data = [sample_slot 7],
     ch_framed = [sample_slot 8], ch_conf = [], ch_net = sample_net\<rparr>"

end
