(* ===== verification/Monitoring.thy ===== *)
theory Monitoring
  imports Radio_Cad Radio_Tx Channel
begin

text \<open>
  Timers (\<open>daemon_timing.cpp\<close>) and the monitoring tick (\<open>daemon_monitoring.cpp\<close>): transmitter
  status, CAD indicator, RSSI stream and the statistics line. The status LED and the log are
  not modelled. Times are milliseconds of the monotonic clock.
\<close>

section \<open>Timers\<close>

definition daemon_tick_due :: "int \<Rightarrow> int \<Rightarrow> bool \<times> int" where
  "daemon_tick_due counter interval =
     (let counter1 = counter + 1 in if interval \<le> counter1 then (True, 0) else (False, counter1))"

record daemon_tick =
  tick_counter :: int
  tick_interval :: int

definition daemon_tick_init :: "int \<Rightarrow> daemon_tick" where
  "daemon_tick_init interval = \<lparr>tick_counter = 0, tick_interval = interval\<rparr>"

definition daemon_tick_state_due :: "daemon_tick \<Rightarrow> bool \<times> daemon_tick" where
  "daemon_tick_state_due t =
     (let (due, c) = daemon_tick_due (tick_counter t) (tick_interval t) in (due, t\<lparr>tick_counter := c\<rparr>))"

record deadline_timer =
  dt_interval_ms :: int
  dt_next_due_ms :: int

definition daemon_deadline_timer_init :: "int \<Rightarrow> int \<Rightarrow> deadline_timer" where
  "daemon_deadline_timer_init now_ms interval_ms =
     \<lparr>dt_interval_ms = interval_ms, dt_next_due_ms = now_ms + interval_ms\<rparr>"

definition daemon_deadline_timer_timeout_ms :: "deadline_timer \<Rightarrow> int \<Rightarrow> int" where
  "daemon_deadline_timer_timeout_ms t now_ms =
     (if dt_next_due_ms t \<le> now_ms then 0 else dt_next_due_ms t - now_ms)"

text \<open>The \<open>do ... while\<close> loop does not end for an interval that is not positive.\<close>

partial_function (option) deadline_advance :: "int \<Rightarrow> int \<Rightarrow> int \<Rightarrow> int option" where
  "deadline_advance interval now_ms next_due =
     (let next1 = next_due + interval
      in if next1 \<le> now_ms then deadline_advance interval now_ms next1 else Some next1)"

definition daemon_deadline_timer_due :: "deadline_timer \<Rightarrow> int \<Rightarrow> (bool \<times> deadline_timer) option" where
  "daemon_deadline_timer_due t now_ms =
     (if now_ms < dt_next_due_ms t then Some (False, t)
      else (case deadline_advance (dt_interval_ms t) now_ms (dt_next_due_ms t) of
              None \<Rightarrow> None
            | Some next1 \<Rightarrow> Some (True, t\<lparr>dt_next_due_ms := next1\<rparr>)))"

lemma deadline_advance_result:
  assumes "0 < interval"
  shows "next_due \<le> now_ms \<Longrightarrow> \<exists>k>0. deadline_advance interval now_ms next_due = Some (next_due + k * interval) \<and>
    now_ms < next_due + k * interval \<and> next_due + (k - 1) * interval \<le> now_ms"
proof (induction "nat (now_ms - next_due)" arbitrary: next_due rule: less_induct)
  case less
  show ?case
  proof (cases "next_due + interval \<le> now_ms")
    case False
    then have "deadline_advance interval now_ms next_due = Some (next_due + 1 * interval)"
      by (subst deadline_advance.simps) simp
    with False less.prems show ?thesis by (intro exI [of _ 1]) auto
  next
    case True
    then have "nat (now_ms - (next_due + interval)) < nat (now_ms - next_due)"
      using assms less.prems by simp
    from less.hyps [OF this True] obtain k where k: "0 < k"
      "deadline_advance interval now_ms (next_due + interval) = Some (next_due + interval + k * interval)"
      "now_ms < next_due + interval + k * interval" "next_due + interval + (k - 1) * interval \<le> now_ms" by blast
    have "deadline_advance interval now_ms next_due = Some (next_due + (k + 1) * interval)"
      using True k(2) by (subst deadline_advance.simps) (simp add: algebra_simps)
    with k show ?thesis by (intro exI [of _ "k + 1"]) (auto simp: algebra_simps)
  qed
qed

text \<open>
  A deadline timer with a positive interval never hangs and never bursts: asked at any time,
  however late, it returns; it fires exactly when its deadline is reached, and the next deadline
  is then the first point of the original time grid after now, at most one interval away.
\<close>

theorem deadline_timer_due_correct:
  assumes "0 < dt_interval_ms t"
  shows "\<exists>fired t'. daemon_deadline_timer_due t now_ms = Some (fired, t') \<and>
    (fired \<longleftrightarrow> dt_next_due_ms t \<le> now_ms) \<and> now_ms < dt_next_due_ms t' \<and>
    dt_interval_ms t' = dt_interval_ms t \<and>
    (\<exists>k. dt_next_due_ms t' = dt_next_due_ms t + k * dt_interval_ms t) \<and>
    (fired \<longrightarrow> dt_next_due_ms t' - now_ms \<le> dt_interval_ms t)"
proof (cases "now_ms < dt_next_due_ms t")
  case True
  then have "daemon_deadline_timer_due t now_ms = Some (False, t)"
    by (simp add: daemon_deadline_timer_due_def)
  moreover have "dt_next_due_ms t = dt_next_due_ms t + 0 * dt_interval_ms t" by simp
  ultimately show ?thesis using True by fastforce
next
  case False
  then obtain k where k: "deadline_advance (dt_interval_ms t) now_ms (dt_next_due_ms t) =
      Some (dt_next_due_ms t + k * dt_interval_ms t)"
    "now_ms < dt_next_due_ms t + k * dt_interval_ms t"
    "dt_next_due_ms t + (k - 1) * dt_interval_ms t \<le> now_ms"
    using deadline_advance_result [OF assms, of "dt_next_due_ms t" now_ms] by auto
  have "daemon_deadline_timer_due t now_ms =
      Some (True, t\<lparr>dt_next_due_ms := dt_next_due_ms t + k * dt_interval_ms t\<rparr>)"
    using False k(1) by (simp add: daemon_deadline_timer_due_def)
  with False k(2,3) show ?thesis by (auto simp: algebra_simps)
qed

theorem deadline_timer_due_correct_witness:
  "\<exists>t'. daemon_deadline_timer_due (daemon_deadline_timer_init 0 200) 1050 = Some (True, t') \<and>
     1050 < dt_next_due_ms t' \<and> dt_next_due_ms t' \<le> 1250"
  using deadline_timer_due_correct [of "daemon_deadline_timer_init 0 200" 1050]
  by (auto simp: daemon_deadline_timer_init_def)

section \<open>Transmitter status\<close>

definition daemon_monitoring_tx_status_next_busy :: "u32 \<Rightarrow> bool" where
  "daemon_monitoring_tx_status_next_busy observed \<longleftrightarrow> observed AND 1 = 0"

definition tx_status_line :: "bool \<Rightarrow> string" where
  "tx_status_line busy = (if busy then ''TX=1'' else ''TX=0'') @ newline"

function tx_status_loop :: "u32 \<Rightarrow> u32 \<Rightarrow> channel \<Rightarrow> u32 \<times> channel" where
  "tx_status_loop observed current ch =
     (if observed = current then (observed, ch)
      else
        (let busy = daemon_monitoring_tx_status_next_busy observed;
             ch1 = (if client_slot_has_clients (ch_conf ch)
                    then channel_send_conf (tx_status_line busy) ch else ch)
         in tx_status_loop (observed + 1) current ch1))"
  by pat_completeness auto
termination
proof (relation "measure (\<lambda>(observed, current, _). unat (current - observed))")
  fix observed current :: u32 and ch :: channel and x y
  assume "observed \<noteq> current"
  then have "current - observed \<noteq> 0" by simp
  then have "unat (current - observed - 1) < unat (current - observed)"
    by (simp add: unat_dec word_gt_0 unat_gt_0)
  then show "((observed + 1, current, y), observed, current, ch)
      \<in> measure (\<lambda>(observed, current, _). unat (current - observed))"
    by (simp add: diff_diff_eq)
qed simp

declare tx_status_loop.simps [simp del]

definition daemon_process_tx_status :: "radio \<Rightarrow> channel \<Rightarrow> radio \<times> channel" where
  "daemon_process_tx_status r ch =
     (let (observed, ch1) = tx_status_loop (rc_tx_broadcast_gen r) (rc_tx_gen r) ch
      in (r\<lparr>rc_tx_broadcast_gen := observed\<rparr>, ch1))"

text \<open>The lines sent, as a reference: one per generation step, alternating.\<close>

fun tx_lines :: "bool \<Rightarrow> nat \<Rightarrow> string list" where
  "tx_lines busy 0 = []"
| "tx_lines busy (Suc n) = tx_status_line busy # tx_lines (\<not> busy) n"

definition send_conf_line :: "string \<Rightarrow> channel \<Rightarrow> channel" where
  "send_conf_line l ch = (if client_slot_has_clients (ch_conf ch) then channel_send_conf l ch else ch)"

lemma next_busy_flip:
  "daemon_monitoring_tx_status_next_busy (g + 1) \<longleftrightarrow> \<not> daemon_monitoring_tx_status_next_busy g"
  by (simp add: daemon_monitoring_tx_status_next_busy_def and_one_eq flip: even_iff_mod_2_eq_zero)

lemma tx_status_loop_lines:
  "tx_status_loop observed current ch =
     (current, fold send_conf_line
        (tx_lines (daemon_monitoring_tx_status_next_busy observed) (unat (current - observed))) ch)"
proof (induction observed current ch rule: tx_status_loop.induct)
  case (1 observed current ch)
  show ?case
  proof (cases "observed = current")
    case True
    then show ?thesis by (subst tx_status_loop.simps) simp
  next
    case False
    then have "0 < current - observed" by (simp add: word_gt_0)
    then have n: "unat (current - observed) = Suc (unat (current - (observed + 1)))"
      using unat_dec [of "current - observed"] by (simp add: diff_diff_eq unat_gt_0 word_gt_0)
    have step: "tx_status_loop observed current ch = tx_status_loop (observed + 1) current
        (send_conf_line (tx_status_line (daemon_monitoring_tx_status_next_busy observed)) ch)"
      using False by (subst tx_status_loop.simps) (simp add: send_conf_line_def Let_def)
    show ?thesis
      using 1 [OF False refl refl, folded send_conf_line_def]
      by (simp only: step n next_busy_flip tx_lines.simps fold.simps o_apply)
  qed
qed

definition tx_status_consistent :: "radio \<Rightarrow> bool" where
  "tx_status_consistent r \<longleftrightarrow> (rc_tx_busy r \<longleftrightarrow> \<not> daemon_monitoring_tx_status_next_busy (rc_tx_gen r))"

text \<open>
  Acquiring and releasing the transmitter keeps the status generation odd exactly while it
  is busy; whenever the monitoring tick runs, it sends the CONFIG clients one line per change
  since the last tick, strictly alternating TX=1 and TX=0, so none is lost or repeated, and
  the state after the last line is the current one.
\<close>

theorem tx_status_lines_alternate:
  assumes "tx_status_consistent r"
  shows "tx_status_consistent (snd (lora_send_acquire_controller_tx r)) \<and>
    (rc_tx_busy r \<longrightarrow> tx_status_consistent (lora_send_release_controller_tx r)) \<and>
    daemon_process_tx_status r ch =
      (r\<lparr>rc_tx_broadcast_gen := rc_tx_gen r\<rparr>,
       fold send_conf_line
         (tx_lines (daemon_monitoring_tx_status_next_busy (rc_tx_broadcast_gen r))
            (unat (rc_tx_gen r - rc_tx_broadcast_gen r))) ch)"
  using assms
  by (auto simp: tx_status_consistent_def lora_send_acquire_controller_tx_def
      lora_send_release_controller_tx_def next_busy_flip daemon_process_tx_status_def
      tx_status_loop_lines)

theorem tx_status_lines_alternate_witness:
  "let r = (radio_controller_init RADIO_BAND_433 ''433'' False)\<lparr>rc_tx_gen := 2\<rparr> in
   tx_status_consistent r \<and>
   snd (daemon_process_tx_status r sample_chan) =
     send_conf_line (tx_status_line False) (send_conf_line (tx_status_line True) sample_chan)"
proof -
  let ?r = "(radio_controller_init RADIO_BAND_433 ''433'' False)\<lparr>rc_tx_gen := 2\<rparr>"
  have ok: "tx_status_consistent ?r"
    by (simp add: tx_status_consistent_def radio_controller_init_def daemon_monitoring_tx_status_next_busy_def)
  have "unat (rc_tx_gen ?r - rc_tx_broadcast_gen ?r) = Suc (Suc 0)" "daemon_monitoring_tx_status_next_busy (rc_tx_broadcast_gen ?r)"
    by (simp_all add: radio_controller_init_def daemon_monitoring_tx_status_next_busy_def)
  with tx_status_lines_alternate [OF ok, of sample_chan] ok show ?thesis by simp
qed

section \<open>CAD status, RSSI stream and the tick\<close>

definition daemon_monitoring_cad_probe_due ::
  "deadline_timer \<Rightarrow> int \<Rightarrow> bool \<Rightarrow> (bool \<times> deadline_timer) option" where
  "daemon_monitoring_cad_probe_due cad_timer now_ms has_conf_clients =
     (if \<not> has_conf_clients then Some (False, cad_timer) else daemon_deadline_timer_due cad_timer now_ms)"

definition daemon_process_cad_status ::
  "driver \<Rightarrow> bool \<Rightarrow> bool \<Rightarrow> radio \<Rightarrow> channel \<Rightarrow> radio \<times> channel" where
  "daemon_process_cad_status d can_lock tx_race r ch =
     (if \<not> client_slot_has_clients (ch_conf ch) then (r, ch)
      else if \<not> radio_controller_ready r \<or> \<not> rc_driver r then (r, ch)
      else if rc_mode r \<noteq> RADIO_MODE_LORA then (r, ch)
      else
        (let (tick, r1) = daemon_cad_monitor_tick d can_lock tx_race r in
         if \<not> ct_sampled tick then (r1, ch)
         else if 0 < ct_edge tick then (r1, channel_send_conf (''CAD=1'' @ newline) ch)
         else if ct_edge tick < 0 then (r1, channel_send_conf (''CAD=0'' @ newline) ch)
         else (r1, ch)))"

definition daemon_radio_controller_getrssi_autostop :: "channel \<Rightarrow> radio \<Rightarrow> radio" where
  "daemon_radio_controller_getrssi_autostop ch r =
     (if \<not> client_slot_has_clients (ch_conf ch) \<and> rc_getrssi_active r then r\<lparr>rc_getrssi_active := False\<rparr> else r)"

definition daemon_process_rssi_stream_one ::
  "driver \<Rightarrow> bool \<Rightarrow> radio \<Rightarrow> channel \<Rightarrow> radio \<times> channel" where
  "daemon_process_rssi_stream_one d can_lock r ch =
     (if \<not> rc_getrssi_active r then (r, ch)
      else if rc_tx_busy r then (r, ch)
      else if \<not> radio_controller_ready r \<or> \<not> rc_driver r then (r, ch)
      else if \<not> can_lock then (r, ch)
      else
        (let (rssi, r1) = drv_float d Call_ReadLiveRssi r;
             msg = snprintf_text 32 (''RSSI='' @ c_fixed 2 rssi @ newline)
         in (r1, channel_send_conf msg ch)))"

definition daemon_process_rssi_stream ::
  "driver \<Rightarrow> bool \<Rightarrow> int \<Rightarrow> deadline_timer \<Rightarrow> radio \<Rightarrow> channel
     \<Rightarrow> (deadline_timer \<times> radio \<times> channel) option" where
  "daemon_process_rssi_stream d can_lock now_ms rssi_timer r ch =
     (let r1 = daemon_radio_controller_getrssi_autostop ch r in
      case daemon_deadline_timer_due rssi_timer now_ms of
        None \<Rightarrow> None
      | Some (due, t) \<Rightarrow>
          if due then
            (let (r2, ch1) = daemon_process_rssi_stream_one d can_lock r1 ch in Some (t, r2, ch1))
          else Some (t, r1, ch))"

definition daemon_process_cad_rssi ::
  "driver \<Rightarrow> bool \<Rightarrow> bool \<Rightarrow> int \<Rightarrow> deadline_timer \<Rightarrow> deadline_timer \<Rightarrow> radio \<Rightarrow> channel
     \<Rightarrow> (deadline_timer \<times> deadline_timer \<times> radio \<times> channel) option" where
  "daemon_process_cad_rssi d can_lock tx_race now_ms cad_timer rssi_timer r ch =
     (let cad_subscribed = (client_slot_has_clients (ch_conf ch) \<and> rc_cad_monitor_active r) in
      case daemon_monitoring_cad_probe_due cad_timer now_ms cad_subscribed of
        None \<Rightarrow> None
      | Some (due, cad_timer1) \<Rightarrow>
          (let (r1, ch1) = (if due then daemon_process_cad_status d can_lock tx_race r ch else (r, ch));
               r2 = (if cad_subscribed then r1
                     else r1\<lparr>rc_cad_broadcast_active := False, rc_cad_free_streak := 0\<rparr>)
           in case daemon_process_rssi_stream d can_lock now_ms rssi_timer r2 ch1 of
                None \<Rightarrow> None
              | Some (rssi_timer1, r3, ch2) \<Rightarrow> Some (cad_timer1, rssi_timer1, r3, ch2)))"

definition daemon_process_monitoring ::
  "driver \<Rightarrow> bool \<Rightarrow> bool \<Rightarrow> int \<Rightarrow> deadline_timer \<Rightarrow> deadline_timer \<Rightarrow> deadline_timer \<Rightarrow> radio \<Rightarrow> channel
     \<Rightarrow> (deadline_timer \<times> deadline_timer \<times> deadline_timer \<times> radio \<times> channel) option" where
  "daemon_process_monitoring d can_lock tx_race now_ms cad_timer rssi_timer stats_timer r ch =
     (let (r1, ch1) = daemon_process_tx_status r ch in
      case daemon_process_cad_rssi d can_lock tx_race now_ms cad_timer rssi_timer r1 ch1 of
        None \<Rightarrow> None
      | Some (cad_timer1, rssi_timer1, r2, ch2) \<Rightarrow>
          (case daemon_deadline_timer_due stats_timer now_ms of
             None \<Rightarrow> None
           | Some (_, stats_timer1) \<Rightarrow> Some (cad_timer1, rssi_timer1, stats_timer1, r2, ch2)))"

lemma deadline_due_Some:
  "0 < dt_interval_ms t \<Longrightarrow> \<exists>b t'. daemon_deadline_timer_due t now_ms = Some (b, t')"
  using deadline_advance_result [of "dt_interval_ms t" "dt_next_due_ms t" now_ms]
  by (cases "now_ms < dt_next_due_ms t") (auto simp: daemon_deadline_timer_due_def)

lemma cad_status_calls:
  "rc_calls (fst (daemon_process_cad_status d can_lock tx_race r ch)) = rc_calls r \<or>
   rc_calls (fst (daemon_process_cad_status d can_lock tx_race r ch)) = Call_RssiProbe # rc_calls r"
  using passive_probe_calls [of d can_lock tx_race r]
  by (auto simp: daemon_process_cad_status_def daemon_cad_monitor_tick_def Let_def split_def)

text \<open>
  The monitoring tick is harmless: with positive timer intervals it always completes, and
  whatever its timers, clients and the chip do, the only driver calls it makes are the two
  non-destructive RSSI reads, at most one each.
\<close>

theorem monitoring_never_touches_reception:
  assumes "0 < dt_interval_ms cad_timer" and "0 < dt_interval_ms rssi_timer" and "0 < dt_interval_ms stats_timer"
  shows "\<exists>t1 t2 t3 r' ch' new.
    daemon_process_monitoring d can_lock tx_race now_ms cad_timer rssi_timer stats_timer r ch =
      Some (t1, t2, t3, r', ch') \<and>
    rc_calls r' = new @ rc_calls r \<and>
    (new = [] \<or> new = [Call_RssiProbe] \<or> new = [Call_ReadLiveRssi] \<or> new = [Call_ReadLiveRssi, Call_RssiProbe])"
proof -
  obtain r1 ch1 where tx: "daemon_process_tx_status r ch = (r1, ch1)" by force
  have c1: "rc_calls r1 = rc_calls r"
    using tx by (auto simp: daemon_process_tx_status_def split: prod.splits)
  obtain b2 t2 where rs: "daemon_deadline_timer_due rssi_timer now_ms = Some (b2, t2)"
    using deadline_due_Some [OF assms(2)] by blast
  obtain b3 t3 where stt: "daemon_deadline_timer_due stats_timer now_ms = Some (b3, t3)"
    using deadline_due_Some [OF assms(3)] by blast
  let ?sub = "client_slot_has_clients (ch_conf ch1) \<and> rc_cad_monitor_active r1"
  obtain b1 t1 where cad: "daemon_monitoring_cad_probe_due cad_timer now_ms ?sub = Some (b1, t1)"
    using deadline_due_Some [OF assms(1), of now_ms]
    by (cases ?sub) (auto simp: daemon_monitoring_cad_probe_due_def)
  obtain r2 ch2 where st: "(if b1 then daemon_process_cad_status d can_lock tx_race r1 ch1 else (r1, ch1)) = (r2, ch2)"
    by force
  have c2: "rc_calls r2 = rc_calls r \<or> rc_calls r2 = Call_RssiProbe # rc_calls r"
    using cad_status_calls [of d can_lock tx_race r1 ch1] st c1 by (cases b1) auto
  define r3 where "r3 = (if ?sub then r2 else r2\<lparr>rc_cad_broadcast_active := False, rc_cad_free_streak := 0\<rparr>)"
  have c3: "rc_calls r3 = rc_calls r2" by (simp add: r3_def)
  let ?r4 = "daemon_radio_controller_getrssi_autostop ch2 r3"
  have c4: "rc_calls ?r4 = rc_calls r2" using c3 by (simp add: daemon_radio_controller_getrssi_autostop_def)
  obtain r5 ch3 where one: "daemon_process_rssi_stream_one d can_lock ?r4 ch2 = (r5, ch3)" by force
  have c5: "rc_calls r5 = rc_calls r2 \<or> rc_calls r5 = Call_ReadLiveRssi # rc_calls r2"
    using one c4 by (auto simp: daemon_process_rssi_stream_one_def drv_float_def Let_def split: if_splits)
  obtain r6 ch4 where stream: "daemon_process_rssi_stream d can_lock now_ms rssi_timer r3 ch2 = Some (t2, r6, ch4)"
    and c6: "rc_calls r6 = rc_calls r2 \<or> rc_calls r6 = Call_ReadLiveRssi # rc_calls r2"
    using rs one c4 c5 by (cases b2) (auto simp: daemon_process_rssi_stream_def Let_def)
  have "daemon_process_cad_rssi d can_lock tx_race now_ms cad_timer rssi_timer r1 ch1 = Some (t1, t2, r6, ch4)"
    using cad st stream by (simp add: daemon_process_cad_rssi_def r3_def)
  then have "daemon_process_monitoring d can_lock tx_race now_ms cad_timer rssi_timer stats_timer r ch =
      Some (t1, t2, t3, r6, ch4)"
    using tx stt by (simp add: daemon_process_monitoring_def)
  moreover obtain new where "rc_calls r6 = new @ rc_calls r"
    "new = [] \<or> new = [Call_RssiProbe] \<or> new = [Call_ReadLiveRssi] \<or> new = [Call_ReadLiveRssi, Call_RssiProbe]"
    using c2 c6 by force
  ultimately show ?thesis by blast
qed

theorem monitoring_never_touches_reception_witness:
  "\<exists>t1 t2 t3 r' ch' new.
    daemon_process_monitoring sample_driver True False 1000 (daemon_deadline_timer_init 0 200)
      (daemon_deadline_timer_init 0 100) (daemon_deadline_timer_init 0 3600000) sample_radio sample_chan =
      Some (t1, t2, t3, r', ch') \<and> rc_calls r' = new @ rc_calls sample_radio \<and>
    (new = [] \<or> new = [Call_RssiProbe] \<or> new = [Call_ReadLiveRssi] \<or> new = [Call_ReadLiveRssi, Call_RssiProbe])"
  by (rule monitoring_never_touches_reception) (simp_all add: daemon_deadline_timer_init_def)

end
