(* ===== verification/Radio_Rx.thy ===== *)
theory Radio_Rx
  imports Radio_Ctrl Channel
begin

text \<open>
  The receive path, \<open>daemon_rx.cpp\<close>: from the \<open>received\<close> flag over the chip's FIFO to the client
  sockets. Console, debug and RF log output is not modelled; the buffer of 256 bytes is, as the
  data the driver reads into it followed by zeros.
\<close>

section \<open>Signal values\<close>

text \<open>
  \<open>(double)value * 100\<close> and the addition of one half are exact for every single precision
  value in the range (24 significant digits times 100 need 31, and the sum needs at most 53
  where it can change the truncated result), so the model computes with the rational.
\<close>

definition daemon_signal_to_centi :: "c_float \<Rightarrow> int" where
  "daemon_signal_to_centi v =
     (if \<not> (c_ge v (Fin (- 10000)) \<and> c_le v (Fin 10000)) then FRAMED_DATA_SIGNAL_UNAVAILABLE
      else
        (case v of
           Fin x \<Rightarrow>
             (let scaled = x * 100;
                  rounded = (if 0 \<le> scaled then rat_trunc (scaled + 1 / 2) else rat_trunc (scaled - 1 / 2))
              in if 32767 < rounded then 32767
                 else if rounded < -32768 then FRAMED_DATA_SIGNAL_UNAVAILABLE
                 else rounded)
         | _ \<Rightarrow> FRAMED_DATA_SIGNAL_UNAVAILABLE))"

record rx_signal =
  sig_rssi :: c_float
  sig_rssi_cdbm :: int
  sig_snr_cdb :: int

definition daemon_capture_rx_signal :: "driver \<Rightarrow> radio \<Rightarrow> rx_signal \<times> radio" where
  "daemon_capture_rx_signal d r =
     (let none = \<lparr>sig_rssi = Fin (- 200), sig_rssi_cdbm = FRAMED_DATA_SIGNAL_UNAVAILABLE,
                  sig_snr_cdb = FRAMED_DATA_SIGNAL_UNAVAILABLE\<rparr>
      in if \<not> rc_driver r then (none, r)
         else
           (let (rssi, r1) = drv_float d Call_GetRSSI r;
                s1 = none\<lparr>sig_rssi := rssi, sig_rssi_cdbm := daemon_signal_to_centi rssi\<rparr>
            in if rc_mode r1 = RADIO_MODE_LORA then
                 (let (snr, r2) = drv_float d Call_GetSNR r1
                  in (s1\<lparr>sig_snr_cdb := daemon_signal_to_centi snr\<rparr>, r2))
               else (s1, r1)))"

section \<open>Forwarding\<close>

definition daemon_broadcast_rx_data :: "bytes \<Rightarrow> int \<Rightarrow> int \<Rightarrow> int \<Rightarrow> channel \<Rightarrow> channel" where
  "daemon_broadcast_rx_data buf len rssi_cdbm snr_cdb ch =
     (if len \<le> 0 then ch
      else
        (let ch1 = channel_send_data (take (nat len) buf) ch in
         if FRAMED_DATA_MAX_RF_PAYLOAD < nat len then ch1
         else
           (case framed_data_encode_rx_packet (Some (replicate FRAMED_DATA_RX_FRAME_MAX 0))
                   (of_int rssi_cdbm) (of_int snr_cdb) (Some buf) (of_int len) of
              None \<Rightarrow> ch1
            | Some frame \<Rightarrow>
                channel_send_framed
                  (take (framed_data_frame_size (of_int (int FRAMED_DATA_RX_META_LEN + len))) frame) ch1)))"

section \<open>The sequence on the chip\<close>

definition daemon_restart_receive_after_empty_rx :: "driver \<Rightarrow> radio \<Rightarrow> radio" where
  "daemon_restart_receive_after_empty_rx d r = rearm_start_receive d (drv d Call_ClearIrq r)"

definition daemon_finish_rx_packet :: "driver \<Rightarrow> radio \<Rightarrow> radio" where
  "daemon_finish_rx_packet d r =
     rearm_start_receive d (if rc_mode r = RADIO_MODE_LORA then drv d Call_ClearIrq r else r)"

definition daemon_prepare_rx_packet :: "radio \<Rightarrow> radio" where
  "daemon_prepare_rx_packet r = r\<lparr>rc_received := False\<rparr>"

definition daemon_rx_packet_length :: "driver \<Rightarrow> radio \<Rightarrow> int \<times> radio" where
  "daemon_rx_packet_length d r =
     (let r1 = drv d Call_GetPacketLength r in (dv_length d (rc_calls r1), r1))"

definition daemon_clear_irq_after_rx_read :: "driver \<Rightarrow> radio \<Rightarrow> radio" where
  "daemon_clear_irq_after_rx_read d r = (if rc_mode r = RADIO_MODE_FSK then drv d Call_ClearIrq r else r)"

definition daemon_read_rx_data :: "driver \<Rightarrow> nat \<Rightarrow> radio \<Rightarrow> (int \<times> bytes) \<times> radio" where
  "daemon_read_rx_data d buf_len r =
     (let r1 = drv d (Call_ReadData buf_len) r;
          data = take buf_len (dv_data d (rc_calls r1))
      in ((dv_status d (rc_calls r1), data @ replicate (buf_len - length data) 0), r1))"

definition daemon_record_rx_drop :: "radio \<Rightarrow> radio" where
  "daemon_record_rx_drop r = r\<lparr>rc_stats := daemon_radio_stats_record_rx_drop (rc_stats r)\<rparr>"

definition daemon_rx_read_ok :: "int \<Rightarrow> radio \<Rightarrow> bool \<times> radio" where
  "daemon_rx_read_ok state r =
     (if state = RADIOLIB_ERR_NONE then (True, r) else (False, daemon_record_rx_drop r))"

definition daemon_rx_length_ok :: "int \<Rightarrow> nat \<Rightarrow> radio \<Rightarrow> bool \<times> radio" where
  "daemon_rx_length_ok len buf_len r =
     (if len \<le> 0 then (False, r)
      else if buf_len < nat len \<or> RF_PACKET_MAX_PAYLOAD_LEN < nat len then (False, daemon_record_rx_drop r)
      else (True, r))"

definition daemon_rx_packet_ok :: "bytes \<Rightarrow> int \<Rightarrow> radio \<Rightarrow> bool \<times> radio" where
  "daemon_rx_packet_ok buf len r =
     (if rf_packet_validate (Some buf) (nat len) \<noteq> RF_PACKET_VALID then (False, daemon_record_rx_drop r)
      else (True, r))"

definition daemon_drop_invalid_rx_packet :: "driver \<Rightarrow> radio \<Rightarrow> radio" where
  "daemon_drop_invalid_rx_packet d r =
     rearm_start_receive d (drv d Call_ClearIrq (r\<lparr>rc_received := False\<rparr>))"

definition daemon_discard_rx_during_tx :: "radio \<Rightarrow> radio" where
  "daemon_discard_rx_during_tx r = r\<lparr>rc_received := False\<rparr>"

definition daemon_process_radio_band :: "driver \<Rightarrow> bool \<Rightarrow> radio \<Rightarrow> channel \<Rightarrow> radio \<times> channel" where
  "daemon_process_radio_band d tx_race r ch =
     (if \<not> radio_controller_ready r \<or> \<not> rc_driver r then (r, ch)
      else if \<not> rc_received r then (r, ch)
      else if rc_tx_busy r then (daemon_discard_rx_during_tx r, ch)
      else
        (let r0 = tx_race_step tx_race r in
         if rc_tx_busy r0 then (daemon_discard_rx_during_tx r0, ch)
         else
           (let (len, r1) = daemon_rx_packet_length d (daemon_prepare_rx_packet r0) in
            if len \<le> 0 then (daemon_restart_receive_after_empty_rx d r1, ch)
            else
              (let (len_ok, r2) = daemon_rx_length_ok len buf_SIZE r1 in
               if \<not> len_ok then (daemon_drop_invalid_rx_packet d r2, ch)
               else
                 (let ((state, buf), r3) = daemon_read_rx_data d buf_SIZE r2;
                      r4 = daemon_clear_irq_after_rx_read d r3;
                      (read_ok, r5) = daemon_rx_read_ok state r4
                  in if \<not> read_ok then (daemon_finish_rx_packet d r5, ch)
                     else
                       (let (packet_ok, r6) = daemon_rx_packet_ok buf len r5 in
                        if \<not> packet_ok then (daemon_finish_rx_packet d r6, ch)
                        else
                          (let (signal, r7) = daemon_capture_rx_signal d r6;
                               r8 = r7\<lparr>rc_stats := daemon_radio_stats_record_rx (nat len) (rc_stats r7)\<rparr>;
                               ch1 = daemon_broadcast_rx_data buf len (sig_rssi_cdbm signal)
                                       (sig_snr_cdb signal) ch
                           in (daemon_finish_rx_packet d r8, ch1))))))))"

definition daemon_process_radio ::
  "driver \<Rightarrow> bool \<Rightarrow> bool \<Rightarrow> bool \<Rightarrow> int \<Rightarrow> radio \<Rightarrow> channel \<Rightarrow> radio \<times> channel" where
  "daemon_process_radio d can_lock retry_race rx_race now_ms r ch =
     daemon_process_radio_band d rx_race (daemon_rx_rearm_retry d can_lock retry_race now_ms r) ch"

section \<open>Properties\<close>

lemma rat_trunc_half_up: "0 \<le> y \<Longrightarrow> \<bar>of_int (rat_trunc (y + 1 / 2)) - y\<bar> \<le> 1 / 2"
proof -
  assume "0 \<le> y"
  then have t: "rat_trunc (y + 1 / 2) = \<lfloor>y + 1 / 2\<rfloor>" by (simp add: rat_trunc_def)
  have "of_int \<lfloor>y + 1 / 2\<rfloor> \<le> y + 1 / 2" "y + 1 / 2 < of_int \<lfloor>y + 1 / 2\<rfloor> + 1" by linarith+
  then show ?thesis unfolding t abs_le_iff by (intro conjI; linarith)
qed

lemma rat_trunc_half_down: "\<not> 0 \<le> y \<Longrightarrow> \<bar>of_int (rat_trunc (y - 1 / 2)) - y\<bar> \<le> 1 / 2"
proof -
  assume "\<not> 0 \<le> y"
  then have t: "rat_trunc (y - 1 / 2) = - \<lfloor>1 / 2 - y\<rfloor>" by (simp add: rat_trunc_def)
  have "of_int \<lfloor>1 / 2 - y\<rfloor> \<le> 1 / 2 - y" "1 / 2 - y < of_int \<lfloor>1 / 2 - y\<rfloor> + 1" by linarith+
  then show ?thesis unfolding t abs_le_iff of_int_minus by (intro conjI; linarith)
qed

text \<open>
  The signal value of the framed protocol always fits a signed 16-bit integer; for a reading
  between -327 and +327 dBm it is within half a hundredth of a decibel of the reading, and for
  NaN, infinities and values beyond 10000 it is the reserved "unavailable" value.
\<close>

theorem signal_to_centi_correct:
  "-32768 \<le> daemon_signal_to_centi v \<and> daemon_signal_to_centi v \<le> 32767 \<and>
   (case v of
      Fin x \<Rightarrow>
        (if \<bar>x\<bar> \<le> 327 then \<bar>of_int (daemon_signal_to_centi v) - x * 100\<bar> \<le> 1 / 2
         else if 10000 < \<bar>x\<bar> then daemon_signal_to_centi v = FRAMED_DATA_SIGNAL_UNAVAILABLE else True)
    | _ \<Rightarrow> daemon_signal_to_centi v = FRAMED_DATA_SIGNAL_UNAVAILABLE)"
proof (cases v)
  case (Fin x)
  let ?s = "x * 100"
  let ?r = "if 0 \<le> ?s then rat_trunc (?s + 1 / 2) else rat_trunc (?s - 1 / 2)"
  have near: "\<bar>of_int ?r - ?s\<bar> \<le> 1 / 2"
    using rat_trunc_half_up [of ?s] rat_trunc_half_down [of ?s] by auto
  have small: "-32768 \<le> ?r \<and> ?r \<le> 32767" if "\<bar>x\<bar> \<le> 327"
  proof -
    have "- 32700 \<le> ?s" "?s \<le> 32700" using that by (simp_all add: abs_le_iff)
    with near have "of_int ?r < (32768 :: rat)" "(-32769 :: rat) < of_int ?r"
      unfolding abs_le_iff by linarith+
    then show ?thesis by linarith
  qed
  have big: "c_ge v (Fin (- 10000)) \<and> c_le v (Fin 10000) \<longleftrightarrow> \<bar>x\<bar> \<le> 10000"
    by (auto simp: Fin c_ge_def abs_le_iff)
  show ?thesis
  proof (cases "\<bar>x\<bar> \<le> 10000")
    case True
    have eq: "daemon_signal_to_centi v =
        (if 32767 < ?r then 32767 else if ?r < -32768 then -32768 else ?r)"
      using True big by (simp add: daemon_signal_to_centi_def Fin Let_def FRAMED_DATA_SIGNAL_UNAVAILABLE_def)
    show ?thesis
    proof (cases "\<bar>x\<bar> \<le> 327")
      case True
      then show ?thesis using small near eq Fin by (simp del: abs_le_iff)
    next
      case False
      then show ?thesis using eq Fin True by auto
    qed
  next
    case False
    then show ?thesis using big Fin
      by (simp add: daemon_signal_to_centi_def FRAMED_DATA_SIGNAL_UNAVAILABLE_def)
  qed
qed (simp_all add: daemon_signal_to_centi_def c_ge_def FRAMED_DATA_SIGNAL_UNAVAILABLE_def)

text \<open>What the received flag leads to, read off the chip's answers.\<close>

definition rx_length :: "driver \<Rightarrow> radio \<Rightarrow> int" where
  "rx_length d r = dv_length d (Call_GetPacketLength # rc_calls r)"

definition rx_read_calls :: "radio \<Rightarrow> drv_call list" where
  "rx_read_calls r = Call_ReadData 256 # Call_GetPacketLength # rc_calls r"

definition rx_payload :: "driver \<Rightarrow> radio \<Rightarrow> bytes" where
  "rx_payload d r =
     (let data = take 256 (dv_data d (rx_read_calls r))
      in take (nat (rx_length d r)) (data @ replicate (256 - length data) 0))"

definition rx_deliverable :: "driver \<Rightarrow> radio \<Rightarrow> bool" where
  "rx_deliverable d r \<longleftrightarrow> 0 < rx_length d r \<and> rx_length d r \<le> 255 \<and>
     dv_status d (rx_read_calls r) = RADIOLIB_ERR_NONE"

text \<open>The frame a framed client gets for a received packet.\<close>

definition rx_frame :: "u16 \<Rightarrow> u16 \<Rightarrow> bytes \<Rightarrow> bytes" where
  "rx_frame rssi snr p =
     [1, le16_lo (of_nat (4 + length p)), le16_hi (of_nat (4 + length p)),
      le16_lo rssi, le16_hi rssi, le16_lo snr, le16_hi snr] @ p"

lemma length_rx_frame: "length (rx_frame rssi snr p) = 7 + length p"
  by (simp add: rx_frame_def)

lemma broadcast_rx_data_frame:
  assumes "0 < len" and "len \<le> 255" and "nat len \<le> length buf"
  shows "daemon_broadcast_rx_data buf len rssi snr ch =
    channel_send_framed (rx_frame (of_int rssi) (of_int snr) (take (nat len) buf))
      (channel_send_data (take (nat len) buf) ch)"
proof -
  let ?p = "take (nat len) buf"
  have len_p: "length ?p = nat len" using assms(3) by simp
  have w: "of_int len = (of_nat (nat len) :: u16)" using assms(1) by simp
  have u: "unat (of_nat (nat len) :: u16) = nat len" using assms(2) by (simp add: unat_of_nat_u16)
  have size: "framed_data_frame_size (of_int (4 + len) :: u16) = 7 + nat len"
  proof -
    have "(of_int (4 + len) :: u16) = of_nat (4 + nat len)" using assms(1) by simp
    moreover have "unat (of_nat (4 + nat len) :: u16) = 4 + nat len"
      using assms(2) by (intro unat_of_nat_u16) simp
    ultimately show ?thesis by (simp only: framed_data_frame_size_def) (simp add: c_consts)
  qed
  have enc: "framed_data_encode_rx_packet (Some (replicate FRAMED_DATA_RX_FRAME_MAX 0)) (of_int rssi)
      (of_int snr) (Some buf) (of_int len) =
    Some (rx_frame (of_int rssi) (of_int snr) ?p @ drop (7 + nat len) (replicate FRAMED_DATA_RX_FRAME_MAX 0))"
  proof -
    have p1: "unat (of_nat (nat len) :: u16) \<le> 255" unfolding u using assms(2) by simp
    have p2: "unat (of_nat (nat len) :: u16) \<le> length buf" unfolding u by (rule assms(3))
    have p3: "7 + unat (of_nat (nat len) :: u16) \<le> length (replicate FRAMED_DATA_RX_FRAME_MAX (0 :: u8))"
      unfolding u length_replicate using assms(2) by (simp add: c_consts)
    have "framed_data_encode_rx_packet (Some (replicate FRAMED_DATA_RX_FRAME_MAX 0)) (of_int rssi)
        (of_int snr) (Some buf) (of_nat (nat len)) =
      Some ([1, le16_lo (4 + of_nat (nat len)), le16_hi (4 + of_nat (nat len)), le16_lo (of_int rssi),
          le16_hi (of_int rssi), le16_lo (of_int snr), le16_hi (of_int snr)] @
        take (unat (of_nat (nat len) :: u16)) buf @
        drop (7 + unat (of_nat (nat len) :: u16)) (replicate FRAMED_DATA_RX_FRAME_MAX 0))"
      by (rule framed_data_encode_rx_packet_bytes [OF p1 p2 p3])
    then show ?thesis
      unfolding w rx_frame_def len_p u by (simp only: of_nat_add of_nat_numeral append_assoc)
  qed
  have "take (7 + nat len) (rx_frame (of_int rssi) (of_int snr) ?p @ drop (7 + nat len) (replicate FRAMED_DATA_RX_FRAME_MAX 0))
      = rx_frame (of_int rssi) (of_int snr) ?p"
    using length_rx_frame [of "of_int rssi" "of_int snr" ?p] unfolding len_p by simp
  moreover have "\<not> FRAMED_DATA_MAX_RF_PAYLOAD < nat len" "\<not> len \<le> 0" "int FRAMED_DATA_RX_META_LEN + len = 4 + len"
    using assms(1,2) by (simp_all add: c_consts)
  ultimately show ?thesis
    by (simp only: daemon_broadcast_rx_data_def Let_def enc size option.case if_False)
qed

definition rx_after_read :: "radio \<Rightarrow> drv_call list" where
  "rx_after_read r =
     (if rc_mode r = RADIO_MODE_FSK then Call_ClearIrq # rx_read_calls r else rx_read_calls r)"

definition rx_rssi :: "driver \<Rightarrow> radio \<Rightarrow> int" where
  "rx_rssi d r = daemon_signal_to_centi (dv_float d (Call_GetRSSI # rx_after_read r))"

definition rx_snr :: "driver \<Rightarrow> radio \<Rightarrow> int" where
  "rx_snr d r =
     (if rc_mode r = RADIO_MODE_LORA
      then daemon_signal_to_centi (dv_float d (Call_GetSNR # Call_GetRSSI # rx_after_read r))
      else FRAMED_DATA_SIGNAL_UNAVAILABLE)"

text \<open>
  C25: A received packet is delivered exactly once, complete and unchanged. When the flag is set
  on a ready radio that does not transmit, and the chip reports a length of 1 to 255 and reads
  without error, every raw client gets the payload and every framed client one RX_PACKET frame
  with the payload and the signal values; in every other case (spurious interrupt, impossible
  length, CRC or other read error) no client gets anything. The receiver is always restarted
  last.
\<close>

theorem received_packet_delivered_once:
  assumes "radio_controller_ready r" and "rc_driver r" and "rc_received r" and "\<not> rc_tx_busy r"
    and "daemon_process_radio_band d False r ch = (r', ch')"
  shows "rc_calls r' = Call_StartReceive # tl (rc_calls r') \<and>
    (if rx_deliverable d r
     then ch' = channel_send_framed (rx_frame (of_int (rx_rssi d r)) (of_int (rx_snr d r)) (rx_payload d r))
                  (channel_send_data (rx_payload d r) ch)
     else ch' = ch)"
proof -
  have mode: "rc_mode r = RADIO_MODE_FSK \<or> rc_mode r = RADIO_MODE_LORA" by (cases "rc_mode r") simp_all
  define buf where "buf = take 256 (dv_data d (rx_read_calls r)) @
      replicate (256 - length (dv_data d (rx_read_calls r))) 0"
  have len_buf: "length buf = 256" by (simp add: buf_def)
  have payload: "rx_payload d r = take (nat (rx_length d r)) buf"
    by (simp add: rx_payload_def buf_def min_def)
  define n where "n = rx_length d r"
  define r1 where "r1 = drv d Call_GetPacketLength (r\<lparr>rc_received := False\<rparr>)"
  have r1: "rc_calls r1 = Call_GetPacketLength # rc_calls r" "rc_mode r1 = rc_mode r" "rc_driver r1 = rc_driver r"
    by (simp_all add: r1_def)
  have read: "daemon_read_rx_data d buf_SIZE r1 =
      ((dv_status d (rx_read_calls r), buf), drv d (Call_ReadData 256) r1)"
    using r1 by (simp add: daemon_read_rx_data_def Let_def rx_read_calls_def buf_def min_def buf_SIZE_def)
  have len: "daemon_rx_packet_length d (r\<lparr>rc_received := False\<rparr>) = (n, r1)"
    by (simp add: daemon_rx_packet_length_def r1_def n_def rx_length_def Let_def)
  have run: "daemon_process_radio_band d False r ch =
     (if n \<le> 0 then (daemon_restart_receive_after_empty_rx d r1, ch)
      else
        (let (len_ok, r2) = daemon_rx_length_ok n buf_SIZE r1 in
         if \<not> len_ok then (daemon_drop_invalid_rx_packet d r2, ch)
         else
           (let ((state, buf), r3) = daemon_read_rx_data d buf_SIZE r2;
                r4 = daemon_clear_irq_after_rx_read d r3;
                (read_ok, r5) = daemon_rx_read_ok state r4
            in if \<not> read_ok then (daemon_finish_rx_packet d r5, ch)
               else
                 (let (packet_ok, r6) = daemon_rx_packet_ok buf n r5 in
                  if \<not> packet_ok then (daemon_finish_rx_packet d r6, ch)
                  else
                    (let (signal, r7) = daemon_capture_rx_signal d r6;
                         r8 = r7\<lparr>rc_stats := daemon_radio_stats_record_rx (nat n) (rc_stats r7)\<rparr>;
                         ch1 = daemon_broadcast_rx_data buf n (sig_rssi_cdbm signal) (sig_snr_cdb signal) ch
                     in (daemon_finish_rx_packet d r8, ch1))))))"
    using assms(1-4)
    by (simp add: daemon_process_radio_band_def tx_race_step_def daemon_prepare_rx_packet_def len)
  consider (empty) "rx_length d r \<le> 0" | (long) "255 < rx_length d r"
    | (bad) "0 < rx_length d r" "rx_length d r \<le> 255" "dv_status d (rx_read_calls r) \<noteq> RADIOLIB_ERR_NONE"
    | (good) "0 < rx_length d r" "rx_length d r \<le> 255" "dv_status d (rx_read_calls r) = RADIOLIB_ERR_NONE"
    by linarith
  then show ?thesis
  proof cases
    case empty
    then have "daemon_process_radio_band d False r ch = (daemon_restart_receive_after_empty_rx d r1, ch)"
      using run by (simp add: n_def)
    with assms(5) empty show ?thesis
      by (auto simp: rx_deliverable_def daemon_restart_receive_after_empty_rx_def)
  next
    case long
    then have "daemon_rx_length_ok n buf_SIZE r1 = (False, daemon_record_rx_drop r1)" "\<not> n \<le> 0"
      by (simp_all add: n_def daemon_rx_length_ok_def c_consts zless_nat_eq_int_zless)
    then have "daemon_process_radio_band d False r ch =
        (daemon_drop_invalid_rx_packet d (daemon_record_rx_drop r1), ch)"
      using run by simp
    with assms(5) long show ?thesis
      by (auto simp: rx_deliverable_def daemon_drop_invalid_rx_packet_def)
  next
    case bad
    then have "daemon_rx_length_ok n buf_SIZE r1 = (True, r1)" "\<not> n \<le> 0"
      by (simp_all add: n_def daemon_rx_length_ok_def c_consts zless_nat_eq_int_zless buf_SIZE_def)
    then have "daemon_process_radio_band d False r ch =
        (daemon_finish_rx_packet d (daemon_record_rx_drop
          (daemon_clear_irq_after_rx_read d (drv d (Call_ReadData 256) r1))), ch)"
      using run read bad by (simp add: daemon_rx_read_ok_def Let_def)
    with assms(5) bad show ?thesis
      by (auto simp: rx_deliverable_def daemon_finish_rx_packet_def)
  next
    case good
    have ok: "daemon_rx_length_ok n buf_SIZE r1 = (True, r1)" "\<not> n \<le> 0"
      using good by (simp_all add: n_def daemon_rx_length_ok_def c_consts zless_nat_eq_int_zless buf_SIZE_def)
    have valid: "daemon_rx_packet_ok buf n q = (True, q)" for q
      using good by (simp add: daemon_rx_packet_ok_def rf_packet_validate_def c_consts n_def)
    have bc: "daemon_broadcast_rx_data buf n rssi snr ch =
        channel_send_framed (rx_frame (of_int rssi) (of_int snr) (rx_payload d r))
          (channel_send_data (rx_payload d r) ch)" for rssi snr
      unfolding payload n_def using good len_buf by (intro broadcast_rx_data_frame) simp_all
    define r4 where "r4 = daemon_clear_irq_after_rx_read d (drv d (Call_ReadData 256) r1)"
    have r4: "rc_calls r4 = rx_after_read r" "rc_mode r4 = rc_mode r" "rc_driver r4"
      using r1 assms(2)
      by (simp_all add: r4_def daemon_clear_irq_after_rx_read_def rx_after_read_def rx_read_calls_def)
    have sig: "fst (daemon_capture_rx_signal d r4) =
        \<lparr>sig_rssi = dv_float d (Call_GetRSSI # rx_after_read r), sig_rssi_cdbm = rx_rssi d r, sig_snr_cdb = rx_snr d r\<rparr>"
      using r4 mode
      by (auto simp: daemon_capture_rx_signal_def drv_float_def rx_rssi_def rx_snr_def Let_def)
    obtain sg r7 where cap: "daemon_capture_rx_signal d r4 = (sg, r7)" by force
    with sig have sg: "sig_rssi_cdbm sg = rx_rssi d r" "sig_snr_cdb sg = rx_snr d r" by simp_all
    have "daemon_process_radio_band d False r ch =
        (daemon_finish_rx_packet d (r7\<lparr>rc_stats := daemon_radio_stats_record_rx (nat n) (rc_stats r7)\<rparr>),
         daemon_broadcast_rx_data buf n (rx_rssi d r) (rx_snr d r) ch)"
      using run ok read good valid cap sg
      by (simp add: daemon_rx_read_ok_def r4_def [symmetric] Let_def)
    with assms(5) good bc show ?thesis
      by (auto simp: rx_deliverable_def daemon_finish_rx_packet_def)
  qed
qed

theorem received_packet_delivered_once_witness:
  "snd (daemon_process_radio_band sample_driver False (sample_radio\<lparr>rc_received := True\<rparr>) sample_chan) =
   channel_send_framed (rx_frame (of_int (-12000)) (of_int (-12000)) [1, 2, 3])
     (channel_send_data [1, 2, 3] sample_chan)"
proof -
  let ?r = "sample_radio\<lparr>rc_received := True\<rparr>"
  obtain r' ch' where run: "daemon_process_radio_band sample_driver False ?r sample_chan = (r', ch')"
    by force
  have pre: "radio_controller_ready ?r" "rc_driver ?r" "rc_received ?r" "\<not> rc_tx_busy ?r"
    by (simp_all add: sample_radio_def radio_controller_init_def radio_controller_ready_def
        radio_health_is_ready_def)
  have deliver: "rx_deliverable sample_driver ?r"
    by (simp add: rx_deliverable_def rx_length_def sample_driver_def c_consts)
  have payload: "rx_payload sample_driver ?r = [1, 2, 3]"
    by (simp add: rx_payload_def rx_length_def sample_driver_def)
  have fl: "\<lfloor>24001 / 2 :: rat\<rfloor> = 12000" by linarith
  have signal: "rx_rssi sample_driver ?r = -12000" "rx_snr sample_driver ?r = -12000"
    by (simp_all add: rx_rssi_def rx_snr_def sample_driver_def daemon_signal_to_centi_def c_ge_def
        rat_trunc_def sample_radio_def radio_controller_init_def Let_def fl)
  from received_packet_delivered_once [OF pre run] deliver payload signal run show ?thesis by simp
qed

end
