(* ===== verification/Data_Tx.thy ===== *)
theory Data_Tx
  imports Client_IO
begin

text \<open>
  Raw DATA input, \<open>loraham_daemon/data_tx.cpp\<close>: what a client wrote is cut into chunks the radio
  accepts, and a read is bounded by the room in the transmit queue, so that bytes nobody can
  queue stay in the kernel. The chunk handler and the two queries are the function pointers of
  the code, acting on a handler context of type \<open>'h\<close>; the log is not modelled.
\<close>

definition DATA_TX_MAX_CHUNK_SIZE :: nat where
  [c_consts]: "DATA_TX_MAX_CHUNK_SIZE = 255"

definition data_tx_chunk_size :: "nat \<Rightarrow> nat \<Rightarrow> nat" where
  "data_tx_chunk_size remaining limit =
     (let limit1 = (if limit = 0 \<or> DATA_TX_MAX_CHUNK_SIZE < limit then DATA_TX_MAX_CHUNK_SIZE else limit)
      in if limit1 < remaining then limit1 else remaining)"

type_synonym 'h chunk_handler = "bytes \<Rightarrow> nat \<Rightarrow> 'h \<Rightarrow> int \<times> 'h"

text \<open>The \<open>while\<close> loop; \<open>sent\<close> is \<open>bytes_sent\<close>.\<close>

lemma data_tx_chunk_size_pos: "0 < n \<Longrightarrow> 0 < data_tx_chunk_size n limit"
  by (simp add: data_tx_chunk_size_def c_consts Let_def)

lemma data_tx_chunk_size_le: "data_tx_chunk_size n limit \<le> n"
  by (simp add: data_tx_chunk_size_def Let_def)

function data_tx_chunk_loop :: "bytes \<Rightarrow> nat \<Rightarrow> 'h chunk_handler \<Rightarrow> nat \<Rightarrow> 'h \<Rightarrow> nat \<times> 'h" where
  "data_tx_chunk_loop buf limit handler sent h =
     (if sent < length buf then
        (let chunk_size = data_tx_chunk_size (length buf - sent) limit in
         if chunk_size = 0 then (sent, h)
         else (let (r, h1) = handler (take chunk_size (drop sent buf)) sent h in
               if r \<noteq> 0 then (sent, h1)
               else data_tx_chunk_loop buf limit handler (sent + chunk_size) h1))
      else (sent, h))"
  by pat_completeness auto
termination
  by (relation "measure (\<lambda>(buf, _, _, sent, _). length buf - sent)") auto

declare data_tx_chunk_loop.simps [simp del]

definition data_tx_for_each_chunk :: "bytes \<Rightarrow> nat \<Rightarrow> 'h chunk_handler \<Rightarrow> 'h \<Rightarrow> nat \<times> 'h" where
  "data_tx_for_each_chunk buf limit handler h = data_tx_chunk_loop buf limit handler 0 h"

record 'h data_tx_ops =
  dx_handler :: "'h chunk_handler"
  dx_capacity :: "('h \<Rightarrow> nat) ptr"
  dx_chunk_limit :: "('h \<Rightarrow> nat) ptr"

text \<open>The loop body for one slot, then the loop.\<close>

definition data_tx_process_slot ::
  "'h data_tx_ops \<Rightarrow> (int \<Rightarrow> bool) \<Rightarrow> client_slot \<Rightarrow> net \<Rightarrow> 'h \<Rightarrow> client_slot \<times> net \<times> 'h" where
  "data_tx_process_slot ops readfds slot net h =
     (if \<not> client_slot_ready readfds slot then (slot, net, h)
      else
        (let read_limit = 2048;
             chunk_limit = (case dx_chunk_limit ops of None \<Rightarrow> DATA_TX_MAX_CHUNK_SIZE | Some f \<Rightarrow> f h);
             capacity = (case dx_capacity ops of None \<Rightarrow> read_limit | Some f \<Rightarrow> f h)
         in if dx_capacity ops \<noteq> NULL \<and> capacity = 0 then (slot, net, h)
            else
              (let read_limit1 = (if capacity < read_limit then capacity else read_limit);
                   (answer, net1) = net_read (cl_fd slot) read_limit1 net
               in case answer of
                    Inl again \<Rightarrow>
                      if again then (slot, net1, h)
                      else (let (slot1, net2) = client_slot_close slot net1 in (slot1, net2, h))
                  | Inr buf \<Rightarrow>
                      if length buf = 0 then
                        (let (slot1, net2) = client_slot_close slot net1 in (slot1, net2, h))
                      else
                        (let (processed, h1) = data_tx_for_each_chunk buf chunk_limit (dx_handler ops) h
                         in (slot, net1, h1)))))"

fun data_tx_process_slots ::
  "'h data_tx_ops \<Rightarrow> (int \<Rightarrow> bool) \<Rightarrow> client_slot list \<Rightarrow> net \<Rightarrow> 'h \<Rightarrow> client_slot list \<times> net \<times> 'h" where
  "data_tx_process_slots ops readfds [] net h = ([], net, h)"
| "data_tx_process_slots ops readfds (slot # slots) net h =
     (let (slot1, net1, h1) = data_tx_process_slot ops readfds slot net h;
          (slots2, net2, h2) = data_tx_process_slots ops readfds slots net1 h1
      in (slot1 # slots2, net2, h2))"

section \<open>Cutting into chunks\<close>

text \<open>The specification: pieces of \<open>n\<close> bytes, the last one possibly shorter.\<close>

function pieces :: "nat \<Rightarrow> bytes \<Rightarrow> bytes list" where
  "pieces n bs = (if bs = [] \<or> n = 0 then [] else take n bs # pieces n (drop n bs))"
  by pat_completeness auto
termination
  by (relation "measure (\<lambda>(n, bs). length bs)") auto

declare pieces.simps [simp del]

lemma pieces_Nil [simp]: "pieces n [] = []"
  by (simp add: pieces.simps)

lemma pieces_step: "bs \<noteq> [] \<Longrightarrow> 0 < n \<Longrightarrow> pieces n bs = take n bs # pieces n (drop n bs)"
  by (simp add: pieces.simps)

lemma concat_pieces: "0 < n \<Longrightarrow> concat (pieces n bs) = bs"
  by (induction n bs rule: pieces.induct) (subst pieces.simps, simp)

lemma pieces_length: "p \<in> set (pieces n bs) \<Longrightarrow> 0 < length p \<and> length p \<le> n"
proof (induction n bs rule: pieces.induct)
  case (1 n bs)
  then show ?case by (cases "bs = [] \<or> n = 0") (auto simp: pieces.simps [of n bs])
qed

lemma length_pieces:
  assumes "0 < n" and "length bs \<le> k * n"
  shows "length (pieces n bs) \<le> k"
  using assms
proof (induction k arbitrary: bs)
  case (Suc k)
  then show ?case by (cases "bs = []") (simp_all add: pieces_step)
qed simp

text \<open>Handing pieces to the handler until it refuses one; \<open>off\<close> is the offset of the first.\<close>

fun hand_over :: "'h chunk_handler \<Rightarrow> bytes list \<Rightarrow> nat \<Rightarrow> 'h \<Rightarrow> nat \<times> 'h" where
  "hand_over handler [] off h = (off, h)"
| "hand_over handler (p # ps) off h =
     (let (r, h1) = handler p off h
      in if r \<noteq> 0 then (off, h1) else hand_over handler ps (off + length p) h1)"

definition effective_limit :: "nat \<Rightarrow> nat" where
  "effective_limit limit =
     (if limit = 0 \<or> DATA_TX_MAX_CHUNK_SIZE < limit then DATA_TX_MAX_CHUNK_SIZE else limit)"

lemma effective_limit_pos [simp]: "0 < effective_limit limit"
  by (simp add: effective_limit_def c_consts)

lemma chunk_size_effective: "data_tx_chunk_size n limit = min n (effective_limit limit)"
  by (simp add: data_tx_chunk_size_def effective_limit_def Let_def)

lemma chunk_loop_hand_over:
  "data_tx_chunk_loop buf limit handler sent h =
     hand_over handler (pieces (effective_limit limit) (drop sent buf)) sent h"
  if "sent \<le> length buf"
  using that
proof (induction buf limit handler sent h rule: data_tx_chunk_loop.induct)
  case (1 buf limit handler sent h)
  let ?n = "effective_limit limit" and ?c = "data_tx_chunk_size (length buf - sent) limit"
  show ?case
  proof (cases "sent < length buf")
    case True
    then have c: "?c \<noteq> 0" "sent + ?c \<le> length buf" "length (take ?n (drop sent buf)) = ?c"
      by (simp_all add: chunk_size_effective)
    have piece: "take ?c (drop sent buf) = take ?n (drop sent buf)"
      by (simp add: chunk_size_effective min_def)
    have rest: "pieces ?n (drop ?n (drop sent buf)) = pieces ?n (drop (sent + ?c) buf)"
      by (cases "length buf - sent \<le> ?n") (simp_all add: chunk_size_effective min_def add.commute)
    have ps: "pieces ?n (drop sent buf) = take ?n (drop sent buf) # pieces ?n (drop (sent + ?c) buf)"
      using True rest by (simp add: pieces_step del: drop_drop)
    show ?thesis
      unfolding data_tx_chunk_loop.simps [of buf limit handler sent h] ps hand_over.simps
      using True c "1.IH" [OF True refl c(1)]
      by (simp add: piece Let_def split: prod.splits)
  next
    case False
    with "1.prems" show ?thesis by (simp add: data_tx_chunk_loop.simps)
  qed
qed

end
