(* ===== verification/Data_Tx_Runtime.thy ===== *)
theory Data_Tx_Runtime
  imports Data_Tx Framed_Runtime Tx_Async Radio_Cad Radio_Tx
begin

text \<open>
  The runtime of both DATA sockets, \<open>loraham_daemon/daemon_data_tx_runtime.cpp\<close>: from a chunk or
  a framed packet to a transmission, either directly on the main thread (with its own wait for a
  free channel) or as a job for the worker.

  The state is \<open>DataTxDaemonContext\<close> with what its pointers reach: the asynchronous worker, and
  in the world of its callbacks the radio controller and the completion queue. \<open>tx_env\<close> holds
  what the code asks from outside: the driver with RadioLib's scan codes, the band of the
  process, the outcome of \<open>try_to_lock\<close> and of the race with \<open>tx_busy\<close> in a passive probe, the
  creation of the worker thread, and what interrupts and other threads do to the controller
  while the thread sleeps. Log and console output are not modelled. The context and its
  controller exist for the whole run.
\<close>

section \<open>State\<close>

record tx_env =
  te_driver :: driver
  te_scan :: scan_codes
  te_band :: int
  te_can_lock :: "radio \<Rightarrow> bool"
  te_tx_race :: "radio \<Rightarrow> bool"
  te_created :: bool
  te_rest :: "u32 \<Rightarrow> radio \<Rightarrow> radio"

record tx_world =
  tw_radio :: radio
  tw_completions :: completion_queue
  tw_stats :: bool

text \<open>\<open>tw_stats\<close>: the statistics pointer of the recording context is set (to the controller's).\<close>

record data_tx =
  dt_async :: "tx_world async"
  dt_send_fn :: "tx_world send_fn ptr"
  dt_completion_slot :: int
  dt_completion_seq :: u16
  dt_completion_generation :: u32
  dt_tx_busy_wait_ticks :: u32
  dt_tx_busy_sleep_usec :: u32
  dt_cad_wait_ticks :: u32
  dt_cad_idle_stable_ticks :: u32
  dt_cad_sleep_usec :: u32

definition dt_world :: "data_tx \<Rightarrow> tx_world" where
  "dt_world tx = as_world (dt_async tx)"

definition dt_radio :: "data_tx \<Rightarrow> radio" where
  "dt_radio tx = tw_radio (dt_world tx)"

definition set_world :: "tx_world \<Rightarrow> data_tx \<Rightarrow> data_tx" where
  "set_world w tx = tx\<lparr>dt_async := (dt_async tx)\<lparr>as_world := w\<rparr>\<rparr>"

definition set_radio :: "radio \<Rightarrow> data_tx \<Rightarrow> data_tx" where
  "set_radio r tx = set_world ((dt_world tx)\<lparr>tw_radio := r\<rparr>) tx"

definition record_stats :: "(radio_stats \<Rightarrow> radio_stats) \<Rightarrow> data_tx \<Rightarrow> data_tx" where
  "record_stats f tx = set_radio ((dt_radio tx)\<lparr>rc_stats := f (rc_stats (dt_radio tx))\<rparr>) tx"

definition on_radio :: "(radio \<Rightarrow> 'a \<times> radio) \<Rightarrow> tx_world \<Rightarrow> 'a \<times> tx_world" where
  "on_radio f w = (let (x, r) = f (tw_radio w) in (x, w\<lparr>tw_radio := r\<rparr>))"

section \<open>Policy\<close>

datatype cad_decision =
  DATA_TX_CAD_WAIT_FREE | DATA_TX_CAD_WAIT_BLOCK | DATA_TX_CAD_WAIT_TIMEOUT_SEND | DATA_TX_CAD_WAIT_ERROR

definition data_tx_cad_wait_blocks_tx :: "cad_decision \<Rightarrow> bool" where
  "data_tx_cad_wait_blocks_tx decision \<longleftrightarrow> decision = DATA_TX_CAD_WAIT_BLOCK"

definition data_tx_cad_wait_timed_out :: "cad_decision \<Rightarrow> bool" where
  "data_tx_cad_wait_timed_out decision \<longleftrightarrow> decision = DATA_TX_CAD_WAIT_TIMEOUT_SEND"

definition data_tx_apply_cad_decision_flags :: "tx_job \<Rightarrow> cad_decision \<Rightarrow> tx_job" where
  "data_tx_apply_cad_decision_flags job decision =
     (if data_tx_cad_wait_timed_out decision
      then job\<lparr>job_flags := job_flags job OR FRAMED_DATA_TX_RESULT_FLAG_CAD_TIMEOUT\<rparr> else job)"

record cad_policy =
  cpol_wait_ticks :: u32
  cpol_idle_stable_ticks :: u32
  cpol_sleep_usec :: u32
  cpol_send_after_timeout :: bool

definition data_tx_snapshot_cad_policy :: "radio ptr \<Rightarrow> cad_policy" where
  "data_tx_snapshot_cad_policy ctrl =
     (case ctrl of
        None \<Rightarrow>
          \<lparr>cpol_wait_ticks = daemon_tx_policy_cad_wait_ticks,
           cpol_idle_stable_ticks = daemon_tx_policy_cad_idle_stable_ticks,
           cpol_sleep_usec = daemon_tx_policy_poll_interval_usec,
           cpol_send_after_timeout = DAEMON_TX_POLICY_SEND_AFTER_CAD_TIMEOUT\<rparr>
      | Some r \<Rightarrow>
          \<lparr>cpol_wait_ticks = daemon_tx_policy_ticks_for_ms (rc_cad_wait_ms r) (rc_cad_poll_ms r),
           cpol_idle_stable_ticks = daemon_tx_policy_ticks_for_ms (rc_cad_idle_ms r) (rc_cad_poll_ms r),
           cpol_sleep_usec = rc_cad_poll_ms r * 1000,
           cpol_send_after_timeout = rc_cad_after_timeout r\<rparr>)"

section \<open>Queries of the handler context\<close>

definition daemon_data_tx_result_deferred :: "data_tx \<Rightarrow> bool" where
  "daemon_data_tx_result_deferred tx \<longleftrightarrow> rc_tx_queue_active (dt_radio tx)"

definition daemon_data_tx_set_completion_target :: "int \<Rightarrow> u32 \<Rightarrow> u16 \<Rightarrow> data_tx \<Rightarrow> data_tx" where
  "daemon_data_tx_set_completion_target slot_index generation q tx =
     tx\<lparr>dt_completion_slot := slot_index, dt_completion_generation := generation,
       dt_completion_seq := q\<rparr>"

definition daemon_data_tx_result_enabled :: "data_tx \<Rightarrow> bool" where
  "daemon_data_tx_result_enabled tx \<longleftrightarrow> rc_tx_result_active (dt_radio tx)"

definition daemon_data_tx_managed_flag :: "data_tx \<Rightarrow> u8" where
  "daemon_data_tx_managed_flag tx =
     (if rc_tx_mode (dt_radio tx) = RADIO_TX_MODE_MANAGED then FRAMED_DATA_TX_RESULT_FLAG_MANAGED else 0)"

definition daemon_data_tx_next_result_seq :: "data_tx \<Rightarrow> u16 \<times> data_tx" where
  "daemon_data_tx_next_result_seq tx =
     (let r = (dt_radio tx)\<lparr>rc_tx_result_seq := rc_tx_result_seq (dt_radio tx) + 1\<rparr>
      in (rc_tx_result_seq r, set_radio r tx))"

text \<open>\<open>(size_t)-1\<close>, no bound, is \<open>unlimited_bytes\<close>.\<close>

definition unlimited_bytes :: nat where
  "unlimited_bytes = 2 ^ 64 - 1"

definition data_tx_queue_capacity_bytes :: "data_tx \<Rightarrow> nat" where
  "data_tx_queue_capacity_bytes tx =
     (if \<not> rc_tx_queue_active (dt_radio tx) then unlimited_bytes
      else (let pending = daemon_tx_async_worker_pending (dt_async tx)
            in if DAEMON_TX_QUEUE_CAPACITY \<le> pending then 0
               else (DAEMON_TX_QUEUE_CAPACITY - pending) * radio_tx_payload_limit_live (dt_radio tx)))"

definition data_tx_chunk_limit_bytes :: "data_tx \<Rightarrow> nat" where
  "data_tx_chunk_limit_bytes tx = radio_tx_payload_limit_live (dt_radio tx)"

section \<open>The direct wait for a free channel\<close>

definition env_probe :: "tx_env \<Rightarrow> radio \<Rightarrow> cad_probe_status \<times> radio" where
  "env_probe env r =
     (let (p, r1) = radio_cad_probe (te_scan env) (te_driver env) (te_can_lock env r) (te_tx_race env r) r
      in (cp_status p, r1))"

definition data_tx_probe_channel_state :: "tx_env \<Rightarrow> radio \<Rightarrow> cad_probe_status \<times> radio" where
  "data_tx_probe_channel_state env r =
     (if rc_mode r \<noteq> RADIO_MODE_LORA then (RADIO_CAD_PROBE_FREE, r) else env_probe env r)"

text \<open>The \<open>while\<close> loop with its locals \<open>cad_wait\<close> and \<open>free_ticks\<close>.\<close>

function data_tx_wait_free_loop ::
  "tx_env \<Rightarrow> u32 \<Rightarrow> u32 \<Rightarrow> u32 \<Rightarrow> bool \<Rightarrow> u32 \<Rightarrow> u32 \<Rightarrow> radio \<Rightarrow> cad_decision \<times> radio" where
  "data_tx_wait_free_loop env max_ticks need sleep after_timeout cad_wait free_ticks r =
     (if cad_wait < max_ticks then
        (let p = data_tx_probe_channel_state env r; probe_status = fst p; r1 = snd p in
         if probe_status = RADIO_CAD_PROBE_UNAVAILABLE then (DATA_TX_CAD_WAIT_ERROR, r1)
         else if rc_received r1 then (DATA_TX_CAD_WAIT_BLOCK, r1)
         else
           (let free1 = (if probe_status \<noteq> RADIO_CAD_PROBE_BUSY then free_ticks + 1 else 0) in
            if probe_status \<noteq> RADIO_CAD_PROBE_BUSY \<and> need \<le> free1 then (DATA_TX_CAD_WAIT_FREE, r1)
            else
              (let wait1 = cad_wait + 1;
                   r2 = (if 0 < sleep \<and> wait1 < max_ticks then te_rest env sleep r1 else r1)
               in data_tx_wait_free_loop env max_ticks need sleep after_timeout wait1 free1 r2)))
      else (if after_timeout then DATA_TX_CAD_WAIT_TIMEOUT_SEND else DATA_TX_CAD_WAIT_BLOCK, r))"
  by pat_completeness auto
termination
  by (relation "measure (\<lambda>(env, m, need, sleep, after, w, f, r). unat m - unat w)")
    (auto simp: unat_Suc_lt word_less_nat_alt)

declare data_tx_wait_free_loop.simps [simp del]

definition data_tx_wait_channel_free_with_limits_ex ::
  "tx_env \<Rightarrow> u32 \<Rightarrow> u32 \<Rightarrow> u32 \<Rightarrow> bool \<Rightarrow> radio \<Rightarrow> cad_decision \<times> radio" where
  "data_tx_wait_channel_free_with_limits_ex env max_ticks stable_idle_ticks sleep after_timeout r =
     (let required = (if stable_idle_ticks \<noteq> 0 then stable_idle_ticks else 1) in
      if rc_mode r \<noteq> RADIO_MODE_LORA then (DATA_TX_CAD_WAIT_FREE, r)
      else if rc_tx_mode r = RADIO_TX_MODE_DIRECT then (DATA_TX_CAD_WAIT_FREE, r)
      else data_tx_wait_free_loop env max_ticks required sleep after_timeout 0 0 r)"

definition data_tx_wait_channel_free :: "tx_env \<Rightarrow> radio \<Rightarrow> cad_decision \<times> radio" where
  "data_tx_wait_channel_free env r =
     (let p = data_tx_snapshot_cad_policy (Some r)
      in data_tx_wait_channel_free_with_limits_ex env (cpol_wait_ticks p) (cpol_idle_stable_ticks p)
           (cpol_sleep_usec p) (cpol_send_after_timeout p) r)"

text \<open>The wait for the transmitter; the result \<open>True\<close> is the C result \<open>1\<close>, still busy.\<close>

function data_tx_wait_ready_loop :: "tx_env \<Rightarrow> u32 \<Rightarrow> u32 \<Rightarrow> u32 \<Rightarrow> radio \<Rightarrow> bool \<times> radio" where
  "data_tx_wait_ready_loop env max_ticks sleep tx_wait r =
     (if rc_tx_busy r then
        (if max_ticks \<le> tx_wait then (True, r)
         else (let wait1 = tx_wait + 1
               in data_tx_wait_ready_loop env max_ticks sleep wait1
                    (if 0 < sleep \<and> wait1 < max_ticks then te_rest env sleep r else r)))
      else (False, r))"
  by pat_completeness auto
termination
  by (relation "measure (\<lambda>(env, m, sleep, w, r). unat m - unat w)")
    (auto simp: unat_Suc_lt word_less_nat_alt not_le)

declare data_tx_wait_ready_loop.simps [simp del]

definition data_tx_wait_tx_ready_with_limits :: "tx_env \<Rightarrow> u32 \<Rightarrow> u32 \<Rightarrow> radio \<Rightarrow> bool \<times> radio" where
  "data_tx_wait_tx_ready_with_limits env max_ticks sleep r =
     data_tx_wait_ready_loop env max_ticks sleep 0 r"

definition data_tx_wait_tx_ready :: "tx_env \<Rightarrow> radio \<Rightarrow> bool \<times> radio" where
  "data_tx_wait_tx_ready env r =
     data_tx_wait_tx_ready_with_limits env daemon_tx_policy_busy_timeout_ticks
       daemon_tx_policy_poll_interval_usec r"

section \<open>The callbacks of the worker\<close>

definition daemon_data_tx_worker_cad_probe :: "tx_env \<Rightarrow> int \<Rightarrow> radio \<Rightarrow> int \<times> radio" where
  "daemon_data_tx_worker_cad_probe env band r =
     (if band \<noteq> radio_controller_band_number r then (DAEMON_TX_CAD_PROBE_UNAVAILABLE, r)
      else if \<not> radio_controller_ready r then (DAEMON_TX_CAD_PROBE_UNAVAILABLE, r)
      else if rc_mode r \<noteq> RADIO_MODE_LORA then (DAEMON_TX_CAD_PROBE_FREE, r)
      else
        (let (status, r1) = env_probe env r
         in (if status = RADIO_CAD_PROBE_FREE then DAEMON_TX_CAD_PROBE_FREE
             else if status = RADIO_CAD_PROBE_BUSY then DAEMON_TX_CAD_PROBE_BUSY
             else DAEMON_TX_CAD_PROBE_UNAVAILABLE, r1)))"

definition daemon_data_tx_worker_cad_sleep :: "tx_env \<Rightarrow> u32 \<Rightarrow> radio \<Rightarrow> radio" where
  "daemon_data_tx_worker_cad_sleep env usec r = (if 0 < usec then te_rest env usec r else r)"

definition worker_probe :: "tx_env \<Rightarrow> tx_world cad_probe_fn" where
  "worker_probe env band w = on_radio (daemon_data_tx_worker_cad_probe env band) w"

definition worker_sleep :: "tx_env \<Rightarrow> tx_world sleep_fn" where
  "worker_sleep env usec w = w\<lparr>tw_radio := daemon_data_tx_worker_cad_sleep env usec (tw_radio w)\<rparr>"

definition daemon_tx_executor_default_send :: "tx_env \<Rightarrow> tx_world send_fn" where
  "daemon_tx_executor_default_send env payload band w =
     on_radio (lora_send (te_driver env) (te_band env) (Some payload) (length payload) band) w"

definition runtime_record :: "tx_job_result \<Rightarrow> tx_world \<Rightarrow> tx_world" where
  "runtime_record result w =
     (let (stats, cq) = daemon_tx_async_runtime_record_completion result
            (if tw_stats w then Some (rc_stats (tw_radio w)) else None, tw_completions w)
      in w\<lparr>tw_completions := cq,
          tw_radio := (case stats of None \<Rightarrow> tw_radio w | Some st \<Rightarrow> (tw_radio w)\<lparr>rc_stats := st\<rparr>)\<rparr>)"

definition daemon_data_tx_configure_worker_cad :: "tx_env \<Rightarrow> tx_world async \<Rightarrow> tx_world async" where
  "daemon_data_tx_configure_worker_cad env a =
     daemon_tx_async_worker_configure_cad (Some (worker_probe env)) (Some (worker_sleep env)) a"

definition data_tx_configure_job_cad_policy :: "data_tx \<Rightarrow> tx_job \<Rightarrow> tx_job" where
  "data_tx_configure_job_cad_policy tx job =
     (if rc_mode (dt_radio tx) \<noteq> RADIO_MODE_LORA then
        daemon_tx_job_configure_cad_policy job False 0 0 0 False
      else if rc_tx_mode (dt_radio tx) = RADIO_TX_MODE_DIRECT then
        daemon_tx_job_configure_cad_policy job False 0 0 0 False
      else
        (let p = data_tx_snapshot_cad_policy (Some (dt_radio tx))
         in daemon_tx_job_configure_cad_policy job True (cpol_wait_ticks p) (cpol_idle_stable_ticks p)
              (cpol_sleep_usec p) (cpol_send_after_timeout p)))"

section \<open>Executing a job\<close>

definition daemon_data_tx_execute_job ::
  "tx_env \<Rightarrow> tx_job \<Rightarrow> tx_world send_fn \<Rightarrow> data_tx \<Rightarrow> tx_job_result \<times> data_tx" where
  "daemon_data_tx_execute_job env job send tx =
     (if \<not> rc_tx_queue_active (dt_radio tx) then
        (let (result, w) = daemon_tx_execute_job_with_sender (Some job) (Some send) (dt_world tx)
         in (result, set_world w tx))
      else
        (let tx1 = set_world ((dt_world tx)\<lparr>tw_stats := True\<rparr>) tx;
             a1 = daemon_tx_async_worker_configure (Some send) (Some runtime_record) (dt_async tx1);
             a2 = daemon_data_tx_configure_worker_cad env a1;
             (started, a3) = daemon_tx_async_worker_start (te_created env) a2
         in if \<not> started
            then (daemon_tx_job_result_init (Some job) OUTCOME_RADIO_ERROR, tx1\<lparr>dt_async := a3\<rparr>)
            else
              (let (ok, a4) = daemon_tx_async_worker_submit job a3
               in if \<not> ok
                  then ((daemon_tx_job_result_init (Some job) OUTCOME_CHANNEL_BUSY)
                          \<lparr>res_tx_result := TX_RESULT_BUSY\<rparr>, tx1\<lparr>dt_async := a4\<rparr>)
                  else ((daemon_tx_job_result_init (Some job) OUTCOME_OK)
                          \<lparr>res_tx_result := TX_RESULT_OK\<rparr>, tx1\<lparr>dt_async := a4\<rparr>))))"

text \<open>The rest of \<open>send_data_chunk\<close> from the job on.\<close>

definition send_chunk_job :: "tx_env \<Rightarrow> bytes \<Rightarrow> bool \<Rightarrow> cad_decision \<Rightarrow> data_tx \<Rightarrow> int \<times> data_tx" where
  "send_chunk_job env chunk queued_tx decision tx =
     (let ctrl = dt_radio tx;
          send = (case dt_send_fn tx of Some f \<Rightarrow> f | None \<Rightarrow> daemon_tx_executor_default_send env);
          job = (daemon_tx_job_init (radio_controller_band_number ctrl)
                   (case rc_tx_mode ctrl of RADIO_TX_MODE_MANAGED \<Rightarrow> 0 | RADIO_TX_MODE_DIRECT \<Rightarrow> 1)
                   (dt_completion_seq tx))
                  \<lparr>job_completion_slot := dt_completion_slot tx,
                   job_completion_generation := dt_completion_generation tx,
                   job_flags := (if rc_tx_mode ctrl = RADIO_TX_MODE_MANAGED
                     then FRAMED_DATA_TX_RESULT_FLAG_MANAGED else 0)\<rparr>;
          job1 = (if queued_tx then data_tx_configure_job_cad_policy tx job else job);
          job2 = data_tx_apply_cad_decision_flags job1 decision
      in case daemon_tx_job_set_payload job2 chunk of
           None \<Rightarrow> (outcome_code OUTCOME_INVALID_PACKET, tx)
         | Some job3 \<Rightarrow>
             (let (result, tx1) = daemon_data_tx_execute_job env job3 send tx;
                  failed = daemon_tx_outcome_is_failure (outcome_code (res_outcome result));
                  tx2 = (if \<not> queued_tx \<or> failed
                         then record_stats (daemon_radio_stats_record_tx_result (res_tx_result result)) tx1
                         else tx1)
              in (if failed then outcome_code (res_outcome result) else 0, tx2)))"

definition send_data_chunk :: "tx_env \<Rightarrow> bytes \<Rightarrow> nat \<Rightarrow> data_tx \<Rightarrow> int \<times> data_tx" where
  "send_data_chunk env chunk offset tx =
     (let ctrl = dt_radio tx in
      if \<not> radio_controller_ready ctrl then (outcome_code OUTCOME_RADIO_NOT_READY, tx)
      else if radio_tx_payload_limit_live ctrl < length chunk then
        (outcome_code OUTCOME_INVALID_PACKET,
         record_stats (daemon_radio_stats_record_tx_result TX_RESULT_INVALID_PACKET) tx)
      else if \<not> rc_tx_queue_active ctrl \<and>
          (0 < daemon_tx_async_worker_pending (dt_async tx) \<or> as_job_active (dt_async tx)) then
        (outcome_code OUTCOME_BUSY, record_stats (daemon_radio_stats_record_tx_result TX_RESULT_BUSY) tx)
      else if rc_tx_queue_active ctrl then send_chunk_job env chunk True DATA_TX_CAD_WAIT_FREE tx
      else
        (let (busy, r1) = data_tx_wait_tx_ready_with_limits env (dt_tx_busy_wait_ticks tx)
               (dt_tx_busy_sleep_usec tx) ctrl;
             tx1 = set_radio r1 tx
         in if busy then
              (outcome_code OUTCOME_CHANNEL_BUSY,
               record_stats (daemon_radio_stats_record_tx_result TX_RESULT_BUSY) tx1)
            else
              (let (decision, r2) = data_tx_wait_channel_free env (dt_radio tx1);
                   tx2 = set_radio r2 tx1
               in if decision = DATA_TX_CAD_WAIT_ERROR then
                    (outcome_code OUTCOME_RADIO_ERROR,
                     record_stats (daemon_radio_stats_record_tx_result TX_RESULT_RADIO_ERROR) tx2)
                  else if data_tx_cad_wait_blocks_tx decision then
                    (outcome_code OUTCOME_CHANNEL_BUSY,
                     record_stats (daemon_radio_stats_record_tx_result TX_RESULT_CAD_TIMEOUT) tx2)
                  else
                    (let tx3 = (if data_tx_cad_wait_timed_out decision
                                then record_stats daemon_radio_stats_record_cad_timeout_send tx2 else tx2)
                     in send_chunk_job env chunk False decision tx3))))"

definition send_framed_data_packet :: "tx_env \<Rightarrow> bytes \<Rightarrow> data_tx \<Rightarrow> int \<times> data_tx" where
  "send_framed_data_packet env payload tx = send_data_chunk env payload 0 tx"

definition daemon_data_tx_context :: "tx_env \<Rightarrow> tx_world async \<Rightarrow> data_tx" where
  "daemon_data_tx_context env a =
     \<lparr>dt_async = a, dt_send_fn = Some (daemon_tx_executor_default_send env),
      dt_completion_slot = DAEMON_TX_COMPLETION_SLOT_NONE, dt_completion_seq = 0,
      dt_completion_generation = 0, dt_tx_busy_wait_ticks = daemon_tx_policy_busy_timeout_ticks,
      dt_tx_busy_sleep_usec = daemon_tx_policy_poll_interval_usec,
      dt_cad_wait_ticks = daemon_tx_policy_cad_wait_ticks,
      dt_cad_idle_stable_ticks = daemon_tx_policy_cad_idle_stable_ticks,
      dt_cad_sleep_usec = daemon_tx_policy_poll_interval_usec\<rparr>"

text \<open>What \<open>daemon_process_ready_sockets\<close> passes to the raw and to the framed slots.\<close>

definition raw_data_ops :: "tx_env \<Rightarrow> data_tx data_tx_ops" where
  "raw_data_ops env = \<lparr>dx_handler = send_data_chunk env, dx_capacity = Some data_tx_queue_capacity_bytes,
     dx_chunk_limit = Some data_tx_chunk_limit_bytes\<rparr>"

definition framed_data_ops :: "tx_env \<Rightarrow> data_tx framed_tx_ops" where
  "framed_data_ops env = \<lparr>fx_handler = Some (send_framed_data_packet env),
     fx_result_enabled = Some daemon_data_tx_result_enabled,
     fx_next_seq = Some daemon_data_tx_next_result_seq,
     fx_result_deferred = Some daemon_data_tx_result_deferred,
     fx_set_target = Some daemon_data_tx_set_completion_target,
     fx_managed_flag = Some daemon_data_tx_managed_flag\<rparr>"

section \<open>The two waits agree\<close>

lemma probe_keeps_mode_band:
  "rc_mode (snd (env_probe env r)) = rc_mode r" "rc_band (snd (env_probe env r)) = rc_band r"
proof -
  have race: "rc_mode (tx_race_step b q) = rc_mode q" "rc_band (tx_race_step b q) = rc_band q" for b q
    by (simp_all add: tx_race_step_def)
  have silent: "rc_mode (snd (radio_cad_probe_passive d b1 b2 q)) = rc_mode q"
    "rc_band (snd (radio_cad_probe_passive d b1 b2 q)) = rc_band q" for d b1 b2 q
    by (auto simp: radio_cad_probe_passive_def Let_def drv_float_def race)
  have quiesce: "rc_mode (snd (radio_cad_quiesce_and_check_rx d q)) = rc_mode q"
    "rc_band (snd (radio_cad_quiesce_and_check_rx d q)) = rc_band q" for d q
    by (auto simp: radio_cad_quiesce_and_check_rx_def Let_def drv_status_def)
  have rearm: "rc_mode (rearm_start_receive d q) = rc_mode q" "rc_band (rearm_start_receive d q) = rc_band q" for d q
    by (simp_all add: rearm_start_receive_def drv_status_def Let_def)
  have restore: "rc_mode (radio_cad_restore_rx_after_probe d q) = rc_mode q"
    "rc_band (radio_cad_restore_rx_after_probe d q) = rc_band q" for d q
    by (auto simp: radio_cad_restore_rx_after_probe_def Let_def rearm)
  have detach: "rc_mode (radio_cad_detach_rx_before_probe d q) = rc_mode q"
    "rc_band (radio_cad_detach_rx_before_probe d q) = rc_band q" for d q
    by (auto simp: radio_cad_detach_rx_before_probe_def)
  have rssi: "rc_mode (snd (radio_controller_packet_rssi d q)) = rc_mode q"
    "rc_band (snd (radio_controller_packet_rssi d q)) = rc_band q" for d q
    by (auto simp: radio_controller_packet_rssi_def drv_float_def Let_def)
  have active: "rc_mode (snd (active_probe_under_lock sc d (radio_controller_packet_rssi d) q)) = rc_mode q \<and>
      rc_band (snd (active_probe_under_lock sc d (radio_controller_packet_rssi d) q)) = rc_band q" for sc d q
    using quiesce [of d "snd (radio_controller_packet_rssi d q)"]
    by (auto simp: active_probe_under_lock_def Let_def drv_float_def drv_status_def restore detach rssi
        split: prod.splits)
  show "rc_mode (snd (env_probe env r)) = rc_mode r" "rc_band (snd (env_probe env r)) = rc_band r"
    by (auto simp: env_probe_def radio_cad_probe_def silent active Let_def split_def)
qed

lemma env_probe_not_ready:
  "\<not> radio_controller_ready r \<Longrightarrow> env_probe env r = (RADIO_CAD_PROBE_UNAVAILABLE, r)"
  by (simp add: env_probe_def radio_cad_probe_def radio_cad_probe_unavailable_def)

text \<open>The number the worker's probe gives for a status.\<close>

definition probe_code :: "cad_probe_status \<Rightarrow> int" where
  "probe_code st = (case st of RADIO_CAD_PROBE_FREE \<Rightarrow> DAEMON_TX_CAD_PROBE_FREE
     | RADIO_CAD_PROBE_BUSY \<Rightarrow> DAEMON_TX_CAD_PROBE_BUSY
     | RADIO_CAD_PROBE_UNAVAILABLE \<Rightarrow> DAEMON_TX_CAD_PROBE_UNAVAILABLE)"

lemma probe_code_eq [simp]:
  "probe_code st = DAEMON_TX_CAD_PROBE_FREE \<longleftrightarrow> st = RADIO_CAD_PROBE_FREE"
  "probe_code st = DAEMON_TX_CAD_PROBE_BUSY \<longleftrightarrow> st = RADIO_CAD_PROBE_BUSY"
  by (cases st; simp add: probe_code_def c_consts)+

lemma worker_probe_agrees:
  assumes "rc_mode r = RADIO_MODE_LORA" and "band = radio_controller_band_number r"
  shows "daemon_data_tx_worker_cad_probe env band r =
    (probe_code (fst (data_tx_probe_channel_state env r)), snd (data_tx_probe_channel_state env r))"
  using assms env_probe_not_ready [of r env]
  by (cases "fst (env_probe env r)")
    (auto simp: daemon_data_tx_worker_cad_probe_def data_tx_probe_channel_state_def probe_code_def
      Let_def split_def)

definition exit_decision :: "bool \<Rightarrow> cad_exit \<Rightarrow> cad_decision" where
  "exit_decision after_timeout e = (case e of
     Cad_Clear \<Rightarrow> DATA_TX_CAD_WAIT_FREE
   | Cad_Unavailable \<Rightarrow> DATA_TX_CAD_WAIT_ERROR
   | Cad_Timed_Out \<Rightarrow> if after_timeout then DATA_TX_CAD_WAIT_TIMEOUT_SEND else DATA_TX_CAD_WAIT_BLOCK)"

text \<open>What the threads beside the waiting one leave alone: mode and band.\<close>

definition rest_keeps_mode :: "tx_env \<Rightarrow> bool" where
  "rest_keeps_mode env \<longleftrightarrow>
     (\<forall>u r. rc_mode (te_rest env u r) = rc_mode r \<and> rc_band (te_rest env u r) = rc_band r)"

lemma wait_loop_agrees:
  assumes "rest_keeps_mode env" and "cad_wait < job_cad_wait_ticks job"
    and "rc_mode r = RADIO_MODE_LORA" and "job_band job = radio_controller_band_number r"
    and "data_tx_wait_free_loop env (job_cad_wait_ticks job) need (job_cad_poll_interval_usec job)
           after_timeout cad_wait free_ticks r = (dec, r')"
    and "dec = DATA_TX_CAD_WAIT_ERROR \<or> \<not> rc_received r'"
  shows "\<exists>e. daemon_tx_cad_loop job (daemon_data_tx_worker_cad_probe env)
      (Some (daemon_data_tx_worker_cad_sleep env)) need free_ticks cad_wait r = Some (e, r') \<and>
      dec = exit_decision after_timeout e"
  using assms
proof (induction env "job_cad_wait_ticks job" need "job_cad_poll_interval_usec job" after_timeout
    cad_wait free_ticks r rule: data_tx_wait_free_loop.induct)
  case (1 env need after_timeout cad_wait free_ticks r)
  let ?wait = "job_cad_wait_ticks job" and ?usec = "job_cad_poll_interval_usec job"
  let ?probe = "daemon_data_tx_worker_cad_probe env" and ?sleep = "Some (daemon_data_tx_worker_cad_sleep env)"
  define st where "st = fst (data_tx_probe_channel_state env r)"
  define r1 where "r1 = snd (data_tx_probe_channel_state env r)"
  define free1 where "free1 = (if st \<noteq> RADIO_CAD_PROBE_BUSY then free_ticks + 1 else 0)"
  define r2 where "r2 = (if 0 < ?usec \<and> cad_wait + 1 < ?wait then te_rest env ?usec r1 else r1)"
  have probe: "?probe (job_band job) r = (probe_code st, r1)"
    using worker_probe_agrees [OF "1.prems"(3,4)] by (simp add: st_def r1_def)
  have mode: "rc_mode r1 = RADIO_MODE_LORA" "job_band job = radio_controller_band_number r1"
    using "1.prems"(3,4) probe_keeps_mode_band [of env r]
    by (simp_all add: r1_def data_tx_probe_channel_state_def radio_controller_band_number_def)
  have loop: "daemon_tx_cad_loop job ?probe ?sleep need free_ticks cad_wait r =
     (if st = RADIO_CAD_PROBE_FREE \<and> need \<le> free_ticks + 1 then Some (Cad_Clear, r1)
      else if st = RADIO_CAD_PROBE_UNAVAILABLE then Some (Cad_Unavailable, r1)
      else if ?wait \<le> cad_wait + 1 then Some (Cad_Timed_Out, r1)
      else daemon_tx_cad_loop job ?probe ?sleep need (if st = RADIO_CAD_PROBE_FREE then free_ticks + 1 else 0)
        (cad_wait + 1) (cad_nap job ?sleep r1))"
    using "1.prems"(2)
    by (subst daemon_tx_cad_loop.simps, cases st) (auto simp: probe Let_def word_gt_0 not_less)
  have direct: "(dec, r') = (if st = RADIO_CAD_PROBE_UNAVAILABLE then (DATA_TX_CAD_WAIT_ERROR, r1)
      else if rc_received r1 then (DATA_TX_CAD_WAIT_BLOCK, r1)
      else if st \<noteq> RADIO_CAD_PROBE_BUSY \<and> need \<le> free1 then (DATA_TX_CAD_WAIT_FREE, r1)
      else data_tx_wait_free_loop env ?wait need ?usec after_timeout (cad_wait + 1) free1 r2)"
    using "1.prems"(2)
    unfolding "1.prems"(5) [symmetric] data_tx_wait_free_loop.simps [of env ?wait need ?usec after_timeout cad_wait]
      st_def r1_def free1_def r2_def Let_def
    by (simp only: if_True)
  show ?case
  proof (cases "st = RADIO_CAD_PROBE_UNAVAILABLE \<or> rc_received r1 \<or>
      (st \<noteq> RADIO_CAD_PROBE_BUSY \<and> need \<le> free1)")
    case True
    then show ?thesis
      using direct loop "1.prems"(6) by (cases st) (auto simp: exit_decision_def free1_def split: if_splits)
  next
    case go: False
    then have rest: "(dec, r') =
        data_tx_wait_free_loop env ?wait need ?usec after_timeout (cad_wait + 1) free1 r2"
      using direct by auto
    show ?thesis
    proof (cases "cad_wait + 1 < ?wait")
      case True
      have nap: "cad_nap job ?sleep r1 = r2"
        using True by (simp add: cad_nap_def daemon_data_tx_worker_cad_sleep_def r2_def)
      have keep: "rc_mode r2 = RADIO_MODE_LORA" "job_band job = radio_controller_band_number r2"
        using mode "1.prems"(1)
        by (simp_all add: r2_def rest_keeps_mode_def radio_controller_band_number_def)
      have "\<exists>e. daemon_tx_cad_loop job ?probe ?sleep need free1 (cad_wait + 1) r2 = Some (e, r') \<and>
          dec = exit_decision after_timeout e"
        using "1.hyps" [OF "1.prems"(2), of _ st r1 free1 "cad_wait + 1" r2] "1.prems"(1,6) go True keep rest
        by (simp add: st_def r1_def free1_def r2_def)
      moreover have "free1 = (if st = RADIO_CAD_PROBE_FREE then free_ticks + 1 else 0)"
        using go by (cases st) (simp_all add: free1_def)
      ultimately show ?thesis using go True loop nap by (cases st) (auto simp: free1_def not_less)
    next
      case False
      then have "(dec, r') = (if after_timeout then DATA_TX_CAD_WAIT_TIMEOUT_SEND else DATA_TX_CAD_WAIT_BLOCK, r1)"
        using rest by (simp add: data_tx_wait_free_loop.simps r2_def)
      then show ?thesis
        using go False loop by (cases st) (auto simp: exit_decision_def free1_def not_less)
    qed
  qed
qed

text \<open>
  C34: The wait of a direct transmission decides as the wait of the worker does. Both run on the
  same controller with the same policy; the channel answers, the sleeps and so the controller
  are the same step by step. The only difference is the packet of our own: as long as none is
  pending at the end, the worker's loop returns at the same probe with the same controller and
  the corresponding decision.
\<close>

theorem direct_wait_decides_like_worker:
  assumes "data_tx_wait_channel_free_with_limits_ex env (job_cad_wait_ticks job)
      (job_cad_idle_stable_ticks job) (job_cad_poll_interval_usec job) after_timeout r = (dec, r')"
    and "rest_keeps_mode env" and "0 < job_cad_wait_ticks job"
    and "rc_mode r = RADIO_MODE_LORA" and "rc_tx_mode r = RADIO_TX_MODE_MANAGED"
    and "job_band job = radio_controller_band_number r" and "\<not> rc_received r'"
  shows "\<exists>e. daemon_tx_cad_loop job (daemon_data_tx_worker_cad_probe env)
      (Some (daemon_data_tx_worker_cad_sleep env)) (cad_stable_ticks job) 0 0 r = Some (e, r') \<and>
      dec = exit_decision after_timeout e"
  using assms wait_loop_agrees [of env 0 job r "cad_stable_ticks job" after_timeout 0 dec r']
  by (auto simp: data_tx_wait_channel_free_with_limits_ex_def cad_stable_ticks_def Let_def
      split: if_splits)

definition sample_env :: tx_env where
  "sample_env = \<lparr>te_driver = sample_driver, te_scan = \<lparr>sc_channel_free = Some 1, sc_channel_occupied = None,
     sc_channel_busy = None, sc_lora_detected = None, sc_preamble_detected = None,
     sc_err_channel_busy = None\<rparr>, te_band = 868, te_can_lock = (\<lambda>_. True), te_tx_race = (\<lambda>_. False),
     te_created = True, te_rest = (\<lambda>_ r. r)\<rparr>"

definition sample_wait_job :: tx_job where
  "sample_wait_job = zero_job\<lparr>job_band := 868, job_cad_enabled := True, job_cad_wait_ticks := 30,
     job_cad_idle_stable_ticks := 1, job_cad_poll_interval_usec := 50000\<rparr>"

lemma sample_probe:
  "fst (env_probe sample_env sample_radio) = RADIO_CAD_PROBE_FREE \<and>
   \<not> rc_received (snd (env_probe sample_env sample_radio))"
  by (simp add: env_probe_def radio_cad_probe_def active_probe_under_lock_def sample_env_def
      sample_driver_def sample_radio_def radio_controller_init_def radio_controller_ready_def
      radio_health_is_ready_def radio_controller_packet_rssi_def drv_float_def drv_status_def drv_def
      radio_cad_quiesce_and_check_rx_def radio_cad_detach_rx_before_probe_def
      radio_cad_restore_rx_after_probe_def radio_cad_status_from_scan_state_def rearm_start_receive_def
      daemon_rx_rearm_note_result_def RADIOLIB_ERR_NONE_def Let_def)

lemma sample_radio_mode:
  "rc_mode sample_radio = RADIO_MODE_LORA" "rc_tx_mode sample_radio = RADIO_TX_MODE_MANAGED"
  "radio_controller_band_number sample_radio = 868" "radio_controller_ready sample_radio"
  "rc_tx_queue_active sample_radio" "rc_driver sample_radio" "\<not> rc_tx_busy sample_radio"
  by (simp_all add: sample_radio_def radio_controller_init_def radio_controller_band_number_def
      radio_controller_ready_def radio_health_is_ready_def)

theorem direct_wait_decides_like_worker_witness:
  "daemon_tx_cad_loop sample_wait_job (daemon_data_tx_worker_cad_probe sample_env)
     (Some (daemon_data_tx_worker_cad_sleep sample_env)) (cad_stable_ticks sample_wait_job) 0 0 sample_radio
   = Some (Cad_Clear, snd (env_probe sample_env sample_radio))"
proof -
  have dec: "data_tx_wait_channel_free_with_limits_ex sample_env (job_cad_wait_ticks sample_wait_job)
      (job_cad_idle_stable_ticks sample_wait_job) (job_cad_poll_interval_usec sample_wait_job) False sample_radio
      = (DATA_TX_CAD_WAIT_FREE, snd (env_probe sample_env sample_radio))"
    using sample_probe
    by (auto simp: data_tx_wait_channel_free_with_limits_ex_def data_tx_wait_free_loop.simps
        data_tx_probe_channel_state_def sample_radio_mode sample_wait_job_def zero_job_def Let_def)
  have "rest_keeps_mode sample_env" "0 < job_cad_wait_ticks sample_wait_job"
    "job_band sample_wait_job = radio_controller_band_number sample_radio"
    by (simp_all add: rest_keeps_mode_def sample_env_def sample_wait_job_def zero_job_def sample_radio_mode)
  from direct_wait_decides_like_worker [OF dec this(1,2) sample_radio_mode(1,2) this(3)] sample_probe
  obtain e where "daemon_tx_cad_loop sample_wait_job (daemon_data_tx_worker_cad_probe sample_env)
     (Some (daemon_data_tx_worker_cad_sleep sample_env)) (cad_stable_ticks sample_wait_job) 0 0 sample_radio
     = Some (e, snd (env_probe sample_env sample_radio))" "DATA_TX_CAD_WAIT_FREE = exit_decision False e"
    by auto
  moreover from this(2) have "e = Cad_Clear" by (cases e) (simp_all add: exit_decision_def)
  ultimately show ?thesis by simp
qed

section \<open>A pending packet\<close>

lemma pending_probe_harmless:
  assumes "rc_received r"
  shows "rc_received (snd (env_probe env r)) \<and>
    (rc_calls (snd (env_probe env r)) = rc_calls r \<or>
     rc_calls (snd (env_probe env r)) = Call_RssiProbe # rc_calls r)"
  using assms
  by (auto simp: env_probe_def radio_cad_probe_def radio_cad_probe_passive_def active_probe_under_lock_def
      Let_def drv_float_def tx_race_step_def drv_received_keep split_def)

lemma pending_wait_blocks:
  assumes "rc_received r" and "0 < max_ticks"
    and "data_tx_wait_free_loop env max_ticks need sleep after_timeout 0 free_ticks r = (dec, r')"
    and "rc_mode r = RADIO_MODE_LORA"
  shows "(dec = DATA_TX_CAD_WAIT_ERROR \<or> dec = DATA_TX_CAD_WAIT_BLOCK) \<and> r' = snd (env_probe env r)"
  using assms pending_probe_harmless [OF assms(1), of env]
  by (subst (asm) data_tx_wait_free_loop.simps)
    (auto simp: data_tx_probe_channel_state_def Let_def split: if_splits)

lemma record_stats_fields [simp]:
  "rc_received (dt_radio (record_stats f tx)) = rc_received (dt_radio tx)"
  "rc_calls (dt_radio (record_stats f tx)) = rc_calls (dt_radio tx)"
  by (simp_all add: record_stats_def set_radio_def set_world_def dt_radio_def dt_world_def)

lemma set_radio_radio [simp]: "dt_radio (set_radio r tx) = r"
  by (simp add: set_radio_def set_world_def dt_radio_def dt_world_def)

lemma start_submit_world:
  "as_world (snd (daemon_tx_async_worker_start c a)) = as_world a"
  "as_world (snd (daemon_tx_async_worker_submit j a)) = as_world a"
  by (auto simp: daemon_tx_async_worker_start_def daemon_tx_async_worker_submit_def Let_def split_def)

text \<open>With the queue on, sending a chunk leaves the controller alone except for the statistics.\<close>

lemma execute_queued_radio:
  assumes "rc_tx_queue_active (dt_radio tx)"
  shows "dt_radio (snd (daemon_data_tx_execute_job env job send tx)) = dt_radio tx"
proof -
  let ?a = "daemon_data_tx_configure_worker_cad env
      (daemon_tx_async_worker_configure (Some send) (Some runtime_record)
        (dt_async (set_world ((dt_world tx)\<lparr>tw_stats := True\<rparr>) tx)))"
  have w: "as_world ?a = (dt_world tx)\<lparr>tw_stats := True\<rparr>"
    by (simp add: daemon_data_tx_configure_worker_cad_def daemon_tx_async_worker_configure_def
        daemon_tx_async_worker_configure_cad_def set_world_def)
  have "as_world (dt_async (snd (daemon_data_tx_execute_job env job send tx))) = as_world ?a"
    using assms by (auto simp: daemon_data_tx_execute_job_def Let_def split_def start_submit_world)
  then have "as_world (dt_async (snd (daemon_data_tx_execute_job env job send tx))) =
      (dt_world tx)\<lparr>tw_stats := True\<rparr>" unfolding w .
  then show ?thesis by (simp add: dt_radio_def dt_world_def)
qed

lemma send_job_queued_radio:
  assumes "rc_tx_queue_active (dt_radio tx)"
  shows "rc_received (dt_radio (snd (send_chunk_job env chunk True dec tx))) = rc_received (dt_radio tx)"
    "rc_calls (dt_radio (snd (send_chunk_job env chunk True dec tx))) = rc_calls (dt_radio tx)"
  using execute_queued_radio [OF assms]
  by (auto simp: send_chunk_job_def Let_def split_def split: option.splits)

text \<open>
  C21: A received packet that waits in the chip survives every send. On a managed LoRa radio with
  an idle transmitter and a positive wait limit, whatever the opt-in for sending after a timeout
  says, \<open>send_data_chunk\<close> keeps the packet pending and adds at most one harmless call to what the
  chip has seen; without the queue it reports a failure.
\<close>

theorem pending_packet_survives_send:
  assumes "send_data_chunk env chunk off tx = (rc, tx')" and "rc_received (dt_radio tx)"
    and "rc_mode (dt_radio tx) = RADIO_MODE_LORA" and "rc_tx_mode (dt_radio tx) = RADIO_TX_MODE_MANAGED"
    and "\<not> rc_tx_busy (dt_radio tx)"
    and "0 < daemon_tx_policy_ticks_for_ms (rc_cad_wait_ms (dt_radio tx)) (rc_cad_poll_ms (dt_radio tx))"
  shows "rc_received (dt_radio tx') \<and>
    (rc_calls (dt_radio tx') = rc_calls (dt_radio tx) \<or>
     rc_calls (dt_radio tx') = Call_RssiProbe # rc_calls (dt_radio tx)) \<and>
    (\<not> rc_tx_queue_active (dt_radio tx) \<longrightarrow> rc \<noteq> 0)"
proof -
  let ?r = "dt_radio tx"
  consider "\<not> radio_controller_ready ?r \<or> radio_tx_payload_limit_live ?r < length chunk"
    | "rc_tx_queue_active ?r"
    | (direct) "radio_controller_ready ?r" "\<not> rc_tx_queue_active ?r"
    by blast
  then show ?thesis
  proof cases
    case 1
    then show ?thesis using assms(1,2) by (auto simp: send_data_chunk_def Let_def split: if_splits)
  next
    case 2
    with assms(1,2) send_job_queued_radio [OF 2, of env chunk DATA_TX_CAD_WAIT_FREE] show ?thesis
      by (auto simp: send_data_chunk_def Let_def split: if_splits)
  next
    case direct
    have ready: "data_tx_wait_tx_ready_with_limits env m u ?r = (False, ?r)" for m u
      using assms(5) by (simp add: data_tx_wait_tx_ready_with_limits_def data_tx_wait_ready_loop.simps)
    obtain dec r' where wait: "data_tx_wait_channel_free env ?r = (dec, r')" by fastforce
    then have "(dec = DATA_TX_CAD_WAIT_ERROR \<or> dec = DATA_TX_CAD_WAIT_BLOCK) \<and> r' = snd (env_probe env ?r)"
      using assms(3,4) pending_wait_blocks [OF assms(2,6) _ assms(3)]
      by (auto simp: data_tx_wait_channel_free_def data_tx_wait_channel_free_with_limits_ex_def
          data_tx_snapshot_cad_policy_def Let_def)
    with pending_probe_harmless [OF assms(2), of env] assms(1,2) direct ready wait show ?thesis
      by (auto simp: send_data_chunk_def Let_def data_tx_cad_wait_blocks_tx_def split: if_splits)
  qed
qed

definition sample_tx_of :: "radio \<Rightarrow> data_tx" where
  "sample_tx_of r = daemon_data_tx_context sample_env
     ((async_initial (Callbacks None None None None)
        \<lparr>tw_radio = r,
         tw_completions = \<lparr>cq_entries = replicate 16 (daemon_tx_job_result_init NULL OUTCOME_OK),
           cq_head = 0, cq_count = 0, cq_dropped = 0\<rparr>, tw_stats = False\<rparr>)
       \<lparr>as_running := True, as_pc := At_Lock\<rparr>)"

lemma sample_tx_radio [simp]: "dt_radio (sample_tx_of r) = r"
  by (simp add: sample_tx_of_def daemon_data_tx_context_def async_initial_def dt_radio_def dt_world_def)

text \<open>A packet waits, the queue is off and the operator opted in to sending after a timeout.\<close>

definition pending_radio :: radio where
  "pending_radio = sample_radio\<lparr>rc_received := True, rc_cad_after_timeout := True, rc_tx_queue_active := False\<rparr>"

theorem pending_packet_survives_send_witness:
  "rc_received (dt_radio (snd (send_data_chunk sample_env [1, 2, 3] 0 (sample_tx_of pending_radio)))) \<and>
   fst (send_data_chunk sample_env [1, 2, 3] 0 (sample_tx_of pending_radio)) \<noteq> 0"
proof -
  have "rc_received pending_radio" "rc_mode pending_radio = RADIO_MODE_LORA"
    "rc_tx_mode pending_radio = RADIO_TX_MODE_MANAGED" "\<not> rc_tx_busy pending_radio"
    "\<not> rc_tx_queue_active pending_radio"
    "0 < daemon_tx_policy_ticks_for_ms (rc_cad_wait_ms pending_radio) (rc_cad_poll_ms pending_radio)"
    by (simp_all add: pending_radio_def sample_radio_def radio_controller_init_def
        daemon_tx_policy_ticks_for_ms_def c_consts)
  then show ?thesis
    using pending_packet_survives_send [of sample_env "[1, 2, 3]" 0 "sample_tx_of pending_radio"
        "fst (send_data_chunk sample_env [1, 2, 3] 0 (sample_tx_of pending_radio))"
        "snd (send_data_chunk sample_env [1, 2, 3] 0 (sample_tx_of pending_radio))"]
    by simp
qed

section \<open>Raw DATA and the queue\<close>

text \<open>
  The worker thread may run between any two chunks: it takes, executes and records jobs. What
  it does to the controller is arbitrary here as long as the radio stays usable.
\<close>

fun worker_event :: "async_event \<Rightarrow> bool" where
  "worker_event (Ev_Take _) = True"
| "worker_event (Ev_Execute _) = True"
| "worker_event Ev_Clear = True"
| "worker_event (Ev_Record _) = True"
| "worker_event _ = False"

definition worker_moves :: "data_tx \<Rightarrow> data_tx \<Rightarrow> bool" where
  "worker_moves tx tx' \<longleftrightarrow>
     (\<exists>tr. async_run (dt_async tx) tr (dt_async tx') \<and> list_all worker_event tr) \<and>
     tx' = tx\<lparr>dt_async := dt_async tx'\<rparr> \<and>
     radio_controller_ready (dt_radio tx') = radio_controller_ready (dt_radio tx) \<and>
     rc_tx_queue_active (dt_radio tx') = rc_tx_queue_active (dt_radio tx) \<and>
     radio_tx_payload_limit_live (dt_radio tx') = radio_tx_payload_limit_live (dt_radio tx)"

definition queue_serving :: "data_tx \<Rightarrow> bool" where
  "queue_serving tx \<longleftrightarrow> async_inv (dt_async tx) \<and> as_running (dt_async tx) \<and>
     \<not> as_stop_requested (dt_async tx) \<and> radio_controller_ready (dt_radio tx) \<and>
     rc_tx_queue_active (dt_radio tx)"

definition tx_worker_of :: "data_tx \<Rightarrow> tx_worker" where
  "tx_worker_of tx = as_worker (dt_async tx)"

lemma worker_run_keeps:
  "async_run a tr b \<Longrightarrow> async_inv a \<Longrightarrow> as_running a \<Longrightarrow> \<not> as_stop_requested a \<Longrightarrow> list_all worker_event tr \<Longrightarrow>
     async_inv b \<and> as_running b \<and> \<not> as_stop_requested b \<and>
     wk_accepted (as_worker b) = wk_accepted (as_worker a) \<and>
     wk_rejected (as_worker b) = wk_rejected (as_worker a) \<and>
     txq_count (wk_queue (as_worker b)) \<le> txq_count (wk_queue (as_worker a))"
proof (induction rule: async_run.induct)
  case (Cons a e b es c)
  have inv: "async_inv b" using async_inv_step [OF Cons.hyps(1) Cons.prems(1)] .
  have "as_running b \<and> \<not> as_stop_requested b \<and>
     wk_accepted (as_worker b) = wk_accepted (as_worker a) \<and>
     wk_rejected (as_worker b) = wk_rejected (as_worker a) \<and>
     txq_count (wk_queue (as_worker b)) \<le> txq_count (wk_queue (as_worker a))"
    using Cons.hyps(1)
  proof (cases rule: async_step.cases)
    case (Take job cb)
    from async_take_cases [OF Cons.prems(1) Take(3)] Take Cons.prems show ?thesis by auto
  next
    case (Execute job cb result)
    with Cons.prems show ?thesis by (auto simp: async_execute_def split: option.splits)
  next
    case (Record result cb)
    with Cons.prems show ?thesis
      by (auto simp: async_record_def daemon_tx_worker_record_result_def Let_def)
  qed (use Cons.prems in \<open>simp_all add: async_clear_active_def\<close>)
  with Cons.IH inv Cons.prems show ?case by auto
qed simp

lemma worker_moves_keeps:
  assumes "worker_moves tx tx'" and "queue_serving tx"
  shows "queue_serving tx' \<and> wk_accepted (tx_worker_of tx') = wk_accepted (tx_worker_of tx) \<and>
    wk_rejected (tx_worker_of tx') = wk_rejected (tx_worker_of tx) \<and>
    txq_count (wk_queue (tx_worker_of tx')) \<le> txq_count (wk_queue (tx_worker_of tx)) \<and>
    radio_tx_payload_limit_live (dt_radio tx') = radio_tx_payload_limit_live (dt_radio tx)"
  using assms worker_run_keeps [of "dt_async tx" _ "dt_async tx'"]
  by (auto simp: worker_moves_def queue_serving_def tx_worker_of_def)

lemma worker_submit_room:
  assumes "wk_wf wk" and "txq_count (wk_queue wk) < DAEMON_TX_QUEUE_CAPACITY"
  shows "fst (daemon_tx_worker_submit wk (Some j)) \<and>
    wk_rejected (snd (daemon_tx_worker_submit wk (Some j))) = wk_rejected wk"
  using assms txq_push_room [of "wk_queue wk" j]
  by (auto simp: daemon_tx_worker_submit_def wk_wf_def split: option.splits)

lemma async_submit_room:
  assumes "async_inv a" and "\<not> as_stop_requested a"
    and "txq_count (wk_queue (as_worker a)) < DAEMON_TX_QUEUE_CAPACITY"
  shows "\<exists>wk. daemon_tx_async_worker_submit j a = (True, a\<lparr>as_worker := wk\<rparr>) \<and>
    txq_items (wk_queue wk) = txq_items (wk_queue (as_worker a)) @ [j] \<and>
    wk_accepted wk = Suc (wk_accepted (as_worker a)) \<and> wk_rejected wk = wk_rejected (as_worker a) \<and>
    async_inv (a\<lparr>as_worker := wk\<rparr>)"
proof -
  have wf: "wk_wf (as_worker a)" using assms(1) by (simp add: async_inv_def)
  obtain ok wk where sub: "daemon_tx_worker_submit (as_worker a) (Some j) = (ok, wk)" by fastforce
  with worker_submit_room [OF wf assms(3), of j] have "ok" "wk_rejected wk = wk_rejected (as_worker a)" by auto
  with sub assms(2) have eq: "daemon_tx_async_worker_submit j a = (True, a\<lparr>as_worker := wk\<rparr>)"
    by (simp add: daemon_tx_async_worker_submit_def)
  from async_inv_step [OF async_step.Submit [OF eq] assms(1)] worker_submit_cases [OF wf sub] eq \<open>ok\<close>
    \<open>wk_rejected wk = wk_rejected (as_worker a)\<close>
  show ?thesis by auto
qed

lemma execute_queued:
  assumes "queue_serving tx" and "txq_count (wk_queue (tx_worker_of tx)) < DAEMON_TX_QUEUE_CAPACITY"
  shows "\<exists>tx'. daemon_data_tx_execute_job env job send tx =
      ((daemon_tx_job_result_init (Some job) OUTCOME_OK)\<lparr>res_tx_result := TX_RESULT_OK\<rparr>, tx') \<and>
    queue_serving tx' \<and>
    txq_items (wk_queue (tx_worker_of tx')) = txq_items (wk_queue (tx_worker_of tx)) @ [job] \<and>
    wk_accepted (tx_worker_of tx') = Suc (wk_accepted (tx_worker_of tx)) \<and>
    wk_rejected (tx_worker_of tx') = wk_rejected (tx_worker_of tx) \<and> dt_radio tx' = dt_radio tx"
proof -
  define a2 where "a2 = daemon_data_tx_configure_worker_cad env
      (daemon_tx_async_worker_configure (Some send) (Some runtime_record)
        (dt_async (set_world ((dt_world tx)\<lparr>tw_stats := True\<rparr>) tx)))"
  have a2: "as_worker a2 = tx_worker_of tx" "as_running a2" "\<not> as_stop_requested a2" "async_inv a2"
    "as_world a2 = (dt_world tx)\<lparr>tw_stats := True\<rparr>"
    using assms(1)
    by (simp_all add: a2_def daemon_data_tx_configure_worker_cad_def daemon_tx_async_worker_configure_def
        daemon_tx_async_worker_configure_cad_def set_world_def tx_worker_of_def queue_serving_def async_defs)
  from async_submit_room [OF a2(4,3), of job] assms(2) a2(1)
  obtain wk where wk: "daemon_tx_async_worker_submit job a2 = (True, a2\<lparr>as_worker := wk\<rparr>)"
    "txq_items (wk_queue wk) = txq_items (wk_queue (tx_worker_of tx)) @ [job]"
    "wk_accepted wk = Suc (wk_accepted (tx_worker_of tx))" "wk_rejected wk = wk_rejected (tx_worker_of tx)"
    "async_inv (a2\<lparr>as_worker := wk\<rparr>)" by auto
  let ?tx' = "(set_world ((dt_world tx)\<lparr>tw_stats := True\<rparr>) tx)\<lparr>dt_async := a2\<lparr>as_worker := wk\<rparr>\<rparr>"
  have run: "daemon_data_tx_execute_job env job send tx =
      ((daemon_tx_job_result_init (Some job) OUTCOME_OK)\<lparr>res_tx_result := TX_RESULT_OK\<rparr>, ?tx')"
    using assms(1) a2(2) wk(1)
    by (simp add: daemon_data_tx_execute_job_def queue_serving_def Let_def a2_def [symmetric]
        daemon_tx_async_worker_start_def)
  moreover have "dt_radio ?tx' = dt_radio tx"
    using a2(5) by (simp add: dt_radio_def dt_world_def)
  ultimately show ?thesis
    using assms(1) a2 wk by (auto simp: queue_serving_def tx_worker_of_def)
qed

text \<open>The job of a chunk carries its bytes and the completion target.\<close>

lemma send_chunk_queued:
  assumes "queue_serving tx" and "txq_count (wk_queue (tx_worker_of tx)) < DAEMON_TX_QUEUE_CAPACITY"
    and "length p \<le> radio_tx_payload_limit_live (dt_radio tx)"
  shows "\<exists>tx' job. send_data_chunk env p off tx = (0, tx') \<and> queue_serving tx' \<and>
    txq_items (wk_queue (tx_worker_of tx')) = txq_items (wk_queue (tx_worker_of tx)) @ [job] \<and>
    job_payload job = p \<and> job_seq job = dt_completion_seq tx \<and>
    job_completion_slot job = dt_completion_slot tx \<and>
    job_completion_generation job = dt_completion_generation tx \<and>
    wk_accepted (tx_worker_of tx') = Suc (wk_accepted (tx_worker_of tx)) \<and>
    wk_rejected (tx_worker_of tx') = wk_rejected (tx_worker_of tx) \<and> dt_radio tx' = dt_radio tx"
proof -
  have "radio_tx_payload_limit_live (dt_radio tx) \<le> 255"
    using radio_tx_payload_limit_bounds by (simp add: radio_tx_payload_limit_live_def c_consts)
  with assms(3) have len: "length p \<le> 255" by simp
  define job where "job = (data_tx_apply_cad_decision_flags (data_tx_configure_job_cad_policy tx
      ((daemon_tx_job_init (radio_controller_band_number (dt_radio tx))
        (case rc_tx_mode (dt_radio tx) of RADIO_TX_MODE_MANAGED \<Rightarrow> 0 | RADIO_TX_MODE_DIRECT \<Rightarrow> 1)
        (dt_completion_seq tx))
         \<lparr>job_completion_slot := dt_completion_slot tx,
          job_completion_generation := dt_completion_generation tx,
          job_flags := (if rc_tx_mode (dt_radio tx) = RADIO_TX_MODE_MANAGED
            then FRAMED_DATA_TX_RESULT_FLAG_MANAGED else 0)\<rparr>)) DATA_TX_CAD_WAIT_FREE)\<lparr>job_payload := p\<rparr>"
  have target: "job_payload job = p \<and> job_seq job = dt_completion_seq tx \<and>
    job_completion_slot job = dt_completion_slot tx \<and>
    job_completion_generation job = dt_completion_generation tx"
    by (auto simp: job_def data_tx_apply_cad_decision_flags_def data_tx_cad_wait_timed_out_def
        data_tx_configure_job_cad_policy_def daemon_tx_job_configure_cad_policy_def Let_def
        daemon_tx_job_init_def)
  from execute_queued [OF assms(1,2), of env job
      "case dt_send_fn tx of Some f \<Rightarrow> f | None \<Rightarrow> daemon_tx_executor_default_send env"]
  obtain tx' where tx': "daemon_data_tx_execute_job env job
      (case dt_send_fn tx of Some f \<Rightarrow> f | None \<Rightarrow> daemon_tx_executor_default_send env) tx =
      ((daemon_tx_job_result_init (Some job) OUTCOME_OK)\<lparr>res_tx_result := TX_RESULT_OK\<rparr>, tx')"
    "queue_serving tx'"
    "txq_items (wk_queue (tx_worker_of tx')) = txq_items (wk_queue (tx_worker_of tx)) @ [job]"
    "wk_accepted (tx_worker_of tx') = Suc (wk_accepted (tx_worker_of tx))"
    "wk_rejected (tx_worker_of tx') = wk_rejected (tx_worker_of tx)" "dt_radio tx' = dt_radio tx"
    by blast
  have "send_chunk_job env p True DATA_TX_CAD_WAIT_FREE tx = (0, tx')"
    using len tx'(1)
    by (simp add: send_chunk_job_def Let_def job_def [symmetric] daemon_tx_job_set_payload_def c_consts
        daemon_tx_job_result_init_def daemon_tx_outcome_is_failure_def daemon_tx_outcome_is_ok_def)
  then have "send_data_chunk env p off tx = (0, tx')"
    using assms(1,3) by (simp add: send_data_chunk_def queue_serving_def Let_def)
  with tx' target show ?thesis by blast
qed

lemma read_retry_length: "read_retry cap as = (Inr bs, as') \<Longrightarrow> length bs \<le> cap"
  by (induction as) (auto split: read_answer.splits)

lemma net_read_length: "net_read fd cap net = (Inr bs, net') \<Longrightarrow> length bs \<le> cap"
  by (auto simp: net_read_def read_retry_length split: prod.splits)

lemma hand_over_fits:
  assumes "\<And>off t. worker_moves t (sched off t)" and "queue_serving tx"
    and "\<forall>p\<in>set ps. length p \<le> radio_tx_payload_limit_live (dt_radio tx)"
    and "txq_count (wk_queue (tx_worker_of tx)) + length ps \<le> DAEMON_TX_QUEUE_CAPACITY"
  shows "\<exists>tx'. hand_over (\<lambda>p off t. send_data_chunk env p off (sched off t)) ps off tx =
      (off + length (concat ps), tx') \<and>
    wk_accepted (tx_worker_of tx') = wk_accepted (tx_worker_of tx) + length ps \<and>
    wk_rejected (tx_worker_of tx') = wk_rejected (tx_worker_of tx)"
  using assms(2-)
proof (induction ps arbitrary: off tx)
  case (Cons p ps)
  note keep = worker_moves_keeps [OF assms(1) Cons.prems(1), of off]
  have "txq_count (wk_queue (tx_worker_of (sched off tx))) < DAEMON_TX_QUEUE_CAPACITY"
    using keep Cons.prems(3) by simp
  moreover have "length p \<le> radio_tx_payload_limit_live (dt_radio (sched off tx))"
    using keep Cons.prems(2) by simp
  ultimately obtain tx1 job where sent: "send_data_chunk env p off (sched off tx) = (0, tx1)" "queue_serving tx1"
    "txq_items (wk_queue (tx_worker_of tx1)) = txq_items (wk_queue (tx_worker_of (sched off tx))) @ [job]"
    "wk_accepted (tx_worker_of tx1) = Suc (wk_accepted (tx_worker_of (sched off tx)))"
    "wk_rejected (tx_worker_of tx1) = wk_rejected (tx_worker_of (sched off tx))"
    "dt_radio tx1 = dt_radio (sched off tx)"
    using send_chunk_queued [of "sched off tx" p env off] keep by blast
  have "txq_count (wk_queue (tx_worker_of tx1)) = Suc (txq_count (wk_queue (tx_worker_of (sched off tx))))"
    using arg_cong [OF sent(3), of length] by simp
  with Cons.IH [of tx1 "off + length p"] sent keep Cons.prems show ?case by auto
qed simp

lemma hand_over_idle:
  assumes "queue_serving tx"
    and "\<forall>p\<in>set ps. length p \<le> radio_tx_payload_limit_live (dt_radio tx)"
    and "txq_count (wk_queue (tx_worker_of tx)) + length ps \<le> DAEMON_TX_QUEUE_CAPACITY"
  shows "map job_payload (txq_items (wk_queue (tx_worker_of (snd (hand_over (send_data_chunk env) ps off tx)))))
    = map job_payload (txq_items (wk_queue (tx_worker_of tx))) @ ps"
  using assms
proof (induction ps arbitrary: off tx)
  case (Cons p ps)
  from Cons.prems send_chunk_queued [of tx p env off]
  obtain tx1 job where sent: "send_data_chunk env p off tx = (0, tx1)" "queue_serving tx1"
    "txq_items (wk_queue (tx_worker_of tx1)) = txq_items (wk_queue (tx_worker_of tx)) @ [job]"
    "job_payload job = p" "dt_radio tx1 = dt_radio tx" by auto
  have "txq_count (wk_queue (tx_worker_of tx1)) = Suc (txq_count (wk_queue (tx_worker_of tx)))"
    using arg_cong [OF sent(3), of length] by simp
  with Cons.IH [of tx1 "off + length p"] sent Cons.prems show ?case by simp
qed simp

lemma effective_payload_limit: "effective_limit (data_tx_chunk_limit_bytes tx) = data_tx_chunk_limit_bytes tx"
  using radio_tx_payload_limit_bounds [of "rc_chip_family (dt_radio tx)" "rc_mode (dt_radio tx)"]
  by (auto simp: effective_limit_def data_tx_chunk_limit_bytes_def radio_tx_payload_limit_live_def c_consts)

text \<open>
  C35: No byte that is read from a raw DATA client is lost to a full queue. With the queue on and
  the worker running, also while the worker thread works between the chunks: a full queue leaves
  the kernel's bytes unread; otherwise everything that a read returns, cut into chunks of the
  radio's payload limit in order, is accepted by the queue and nothing is rejected. While
  the worker is idle the queue then holds exactly these chunks behind what it held before.
\<close>

theorem raw_read_becomes_jobs:
  fixes env :: tx_env
  assumes "queue_serving tx" and "\<forall>off t. worker_moves t (sched off t)" and "client_slot_ready readfds slot"
  defines "ops \<equiv> (raw_data_ops env)\<lparr>dx_handler := \<lambda>p off t. send_data_chunk env p off (sched off t)\<rparr>"
    and "chunks \<equiv> pieces (data_tx_chunk_limit_bytes tx)"
  shows "if txq_count (wk_queue (tx_worker_of tx)) = DAEMON_TX_QUEUE_CAPACITY
    then data_tx_process_slot ops readfds slot net tx = (slot, net, tx)
    else \<forall>buf net1.
      net_read (cl_fd slot) (min 2048 (data_tx_queue_capacity_bytes tx)) net = (Inr buf, net1) \<and> buf \<noteq> [] \<longrightarrow>
      (\<exists>tx'. data_tx_process_slot ops readfds slot net tx = (slot, net1, tx') \<and> concat (chunks buf) = buf \<and>
        wk_accepted (tx_worker_of tx') = wk_accepted (tx_worker_of tx) + length (chunks buf) \<and>
        wk_rejected (tx_worker_of tx') = wk_rejected (tx_worker_of tx) \<and>
        (sched = (\<lambda>_ t. t) \<longrightarrow> map job_payload (txq_items (wk_queue (tx_worker_of tx'))) =
           map job_payload (txq_items (wk_queue (tx_worker_of tx))) @ chunks buf))"
proof -
  let ?n = "data_tx_chunk_limit_bytes tx" and ?count = "txq_count (wk_queue (tx_worker_of tx))"
  have count: "?count \<le> DAEMON_TX_QUEUE_CAPACITY"
    using assms(1) by (simp add: queue_serving_def async_defs txq_wf_def tx_worker_of_def)
  have n: "0 < ?n" using effective_limit_pos [of ?n] effective_payload_limit [of tx] by simp
  have cap: "data_tx_queue_capacity_bytes tx = (DAEMON_TX_QUEUE_CAPACITY - ?count) * ?n"
    using assms(1) count
    by (simp add: data_tx_queue_capacity_bytes_def queue_serving_def Let_def tx_worker_of_def
        daemon_tx_async_worker_pending_def daemon_tx_worker_pending_def data_tx_chunk_limit_bytes_def)
  show ?thesis
  proof (cases "?count = DAEMON_TX_QUEUE_CAPACITY")
    case True
    then show ?thesis
      using assms(3) cap by (simp add: data_tx_process_slot_def ops_def raw_data_ops_def)
  next
    case False
    have "\<exists>tx'. data_tx_process_slot ops readfds slot net tx = (slot, net1, tx') \<and> concat (chunks buf) = buf \<and>
        wk_accepted (tx_worker_of tx') = wk_accepted (tx_worker_of tx) + length (chunks buf) \<and>
        wk_rejected (tx_worker_of tx') = wk_rejected (tx_worker_of tx) \<and>
        (sched = (\<lambda>_ t. t) \<longrightarrow> map job_payload (txq_items (wk_queue (tx_worker_of tx'))) =
           map job_payload (txq_items (wk_queue (tx_worker_of tx))) @ chunks buf)"
      if read: "net_read (cl_fd slot) (min 2048 (data_tx_queue_capacity_bytes tx)) net = (Inr buf, net1)"
        "buf \<noteq> []" for buf net1
    proof -
      have "length buf \<le> (DAEMON_TX_QUEUE_CAPACITY - ?count) * ?n"
        using net_read_length [OF read(1)] cap by simp
      then have room: "?count + length (chunks buf) \<le> DAEMON_TX_QUEUE_CAPACITY"
        using length_pieces [OF n, of buf "DAEMON_TX_QUEUE_CAPACITY - ?count"] count by (simp add: chunks_def)
      have small: "\<forall>p\<in>set (chunks buf). length p \<le> radio_tx_payload_limit_live (dt_radio tx)"
        using pieces_length by (fastforce simp: chunks_def data_tx_chunk_limit_bytes_def)
      from hand_over_fits [OF _ assms(1) small room, of sched env 0] assms(2)
      obtain tx' where tx': "hand_over (\<lambda>p off t. send_data_chunk env p off (sched off t)) (chunks buf) 0 tx =
          (length (concat (chunks buf)), tx')"
        "wk_accepted (tx_worker_of tx') = wk_accepted (tx_worker_of tx) + length (chunks buf)"
        "wk_rejected (tx_worker_of tx') = wk_rejected (tx_worker_of tx)" by auto
      have "0 < data_tx_queue_capacity_bytes tx" using False count n by (simp add: cap)
      then have "data_tx_process_slot ops readfds slot net tx = (slot, net1, tx')"
        using assms(3) read tx'(1)
        by (simp add: data_tx_process_slot_def ops_def raw_data_ops_def Let_def min_def
            data_tx_for_each_chunk_def chunk_loop_hand_over effective_payload_limit chunks_def
            split: if_splits)
      with tx' hand_over_idle [OF assms(1) small room, of env 0] concat_pieces [OF n, of buf] show ?thesis
        by (auto simp: chunks_def)
    qed
    with False show ?thesis by auto
  qed
qed

lemma worker_moves_refl: "worker_moves t t"
  by (auto simp: worker_moves_def intro!: exI [of _ "[]"] async_run.Nil)

definition sample_read_net :: net where
  "sample_read_net = \<lparr>net_reads = (\<lambda>fd. [Received (replicate 300 5)]), net_answers = (\<lambda>_. []),
     net_wire = (\<lambda>_. []), net_closed = []\<rparr>"

theorem raw_read_becomes_jobs_witness:
  "\<exists>net1 tx'. data_tx_process_slot (raw_data_ops sample_env) (\<lambda>_. True) (sample_slot 7) sample_read_net
       (sample_tx_of sample_radio) = (sample_slot 7, net1, tx') \<and>
     map job_payload (txq_items (wk_queue (tx_worker_of tx'))) = [replicate 255 5, replicate 45 5]"
proof -
  let ?tx = "sample_tx_of sample_radio"
  have worker: "tx_worker_of ?tx = daemon_tx_worker_init"
    by (simp add: tx_worker_of_def sample_tx_of_def daemon_data_tx_context_def async_initial_def)
  have serving: "queue_serving ?tx"
    using async_inv_initial [of "Callbacks None None None None" "dt_world ?tx"] sample_radio_mode
    by (simp add: queue_serving_def) (simp add: sample_tx_of_def daemon_data_tx_context_def async_initial_def async_defs)
  have limit: "data_tx_chunk_limit_bytes ?tx = 255"
    by (simp add: data_tx_chunk_limit_bytes_def radio_tx_payload_limit_live_def sample_radio_mode
        radio_tx_payload_limit_def c_consts)
  have capacity: "data_tx_queue_capacity_bytes ?tx = 2040"
    using worker limit
    by (simp add: data_tx_queue_capacity_bytes_def sample_radio_mode Let_def tx_worker_of_def
        daemon_tx_async_worker_pending_def daemon_tx_worker_pending_def daemon_tx_worker_init_def
        daemon_tx_queue_init_def data_tx_chunk_limit_bytes_def c_consts)
  have ready: "client_slot_ready (\<lambda>_. True) (sample_slot 7)"
    by (simp add: client_slot_ready_def client_slot_has_client_def sample_slot_def)
  have read: "net_read (cl_fd (sample_slot 7)) (min 2048 (data_tx_queue_capacity_bytes ?tx)) sample_read_net =
      (Inr (replicate 300 5), snd (net_read 7 2040 sample_read_net))"
    by (simp add: capacity net_read_def sample_read_net_def sample_slot_def)
  have pieces: "pieces 255 (replicate 300 (5::u8)) = [replicate 255 5, replicate 45 5]"
    by (subst pieces_step, simp_all) (subst pieces_step, simp_all)
  have ops: "(raw_data_ops sample_env)\<lparr>dx_handler := \<lambda>p off t. send_data_chunk sample_env p off t\<rparr> = raw_data_ops sample_env"
    by (simp add: raw_data_ops_def)
  have "txq_count (wk_queue (tx_worker_of ?tx)) \<noteq> DAEMON_TX_QUEUE_CAPACITY"
    "txq_items (wk_queue (tx_worker_of ?tx)) = []"
    by (simp_all add: worker daemon_tx_worker_init_def c_consts) (simp add: daemon_tx_queue_init_def)
  with raw_read_becomes_jobs [OF serving _ ready, of "\<lambda>_ t. t" sample_env sample_read_net] read
  show ?thesis
    by (auto simp: worker_moves_refl ops limit pieces)
qed

end
