(* ===== verification/Config_Calls.thy ===== *)
theory Config_Calls
  imports Config_Apply
begin

text \<open>
  The driver calls of the apply pipeline of \<open>config_apply.cpp\<close>: one run of the parameter loop, the
  three ways a command can end, what a rejected command leaves alone, and that every value that
  reaches the driver passed the validation.
\<close>

section \<open>The parameters a command applies\<close>

definition applicable :: "radio_mode \<Rightarrow> string \<times> string \<Rightarrow> bool" where
  "applicable m kv \<longleftrightarrow>
     (if m = RADIO_MODE_FSK then \<not> config_is_lora_only_key (fst kv) else \<not> config_is_fsk_only_key (fst kv))"

definition param_call :: "radio_mode \<Rightarrow> string \<times> string \<Rightarrow> drv_call" where
  "param_call m kv = (if m = RADIO_MODE_FSK then Call_FskParam (fst kv) (snd kv)
     else Call_LoraParam (fst kv) (snd kv))"

definition note_effective ::
  "config_env \<Rightarrow> radio_mode \<Rightarrow> config_effective \<Rightarrow> (string \<times> string) list \<Rightarrow> config_effective" where
  "note_effective env m e kvs =
     foldl (\<lambda>e kv. config_apply_effective_note_key (ce_defaults env) m (fst kv) (snd kv) e) e kvs"

definition note_replay :: "replay \<Rightarrow> (string \<times> string) list \<Rightarrow> replay" where
  "note_replay rp kvs = foldl (\<lambda>rp kv. config_apply_replay_note (fst kv) (snd kv) rp) rp kvs"

definition drv_run :: "driver \<Rightarrow> drv_call list \<Rightarrow> radio \<Rightarrow> radio" where
  "drv_run d calls r = foldl (\<lambda>r c. drv d c r) r calls"

lemma note_effective_simps [simp]:
  "note_effective env m e [] = e"
  "note_effective env m e (kv # kvs) =
     note_effective env m (config_apply_effective_note_key (ce_defaults env) m (fst kv) (snd kv) e) kvs"
  by (simp_all add: note_effective_def)

lemma note_replay_simps [simp]:
  "note_replay rp [] = rp"
  "note_replay rp (kv # kvs) = note_replay (config_apply_replay_note (fst kv) (snd kv) rp) kvs"
  by (simp_all add: note_replay_def)

lemma drv_run_simps [simp]:
  "drv_run d [] r = r" "drv_run d (c # cs) r = drv_run d cs (drv d c r)"
  by (simp_all add: drv_run_def)

lemma drv_run_fields [simp]:
  "rc_calls (drv_run d cs r) = rev cs @ rc_calls r"
  "rc_mode (drv_run d cs r) = rc_mode r"
  "rc_health (drv_run d cs r) = rc_health r"
  "rc_driver (drv_run d cs r) = rc_driver r"
  by (induction cs arbitrary: r) simp_all

text \<open>
  One run of the parameter loop: the applicable parameters reach the driver in order; when the
  driver refuses one the loop stops there, with exactly the ones before it recorded.
\<close>

lemma apply_params_run:
  assumes "apply_params d env kvs touched c = (res, c')" and "rc_mode (cf_radio c) = m"
    and "ps = filter (applicable m) kvs"
  shows "\<exists>n\<le>length ps. (if res = None then n < length ps else n = length ps \<and> res = Some (touched \<or> ps \<noteq> [])) \<and>
    cf_radio c' = drv_run d (map (param_call m) (take (if res = None then Suc n else n) ps)) (cf_radio c) \<and>
    cf_effective c' = note_effective env m (cf_effective c) (take n ps) \<and>
    cf_replay c' = note_replay (cf_replay c) (take n ps)"
  using assms
proof (induction kvs arbitrary: touched c ps)
  case Nil
  then show ?case by auto
next
  case (Cons kv kvs)
  obtain key val where kv: "kv = (key, val)" by force
  show ?case
  proof (cases "applicable m kv")
    case False
    then have "apply_params d env kvs touched c = (res, c')"
      using Cons.prems(1,2) by (auto simp: kv applicable_def split: if_splits)
    moreover have "ps = filter (applicable m) kvs" using False Cons.prems(3) by simp
    ultimately show ?thesis using Cons.IH Cons.prems(2) by blast
  next
    case True
    let ?call = "param_call m kv" and ?rest = "filter (applicable m) kvs"
    have ps: "ps = kv # ?rest" using True Cons.prems(3) by simp
    show ?thesis
    proof (cases "dv_status d (?call # rc_calls (cf_radio c)) = RADIOLIB_ERR_NONE")
      case False
      then have "res = None" "c' = c\<lparr>cf_radio := drv d ?call (cf_radio c)\<rparr>"
        using True Cons.prems(1,2)
        by (auto simp: kv param_call_def applicable_def drv_status_def Let_def split: if_splits)
      then show ?thesis using ps by (intro exI [of _ 0]) simp
    next
      case ok: True
      let ?c1 = "note_applied env m key val (c\<lparr>cf_radio := drv d ?call (cf_radio c)\<rparr>)"
      have run: "apply_params d env kvs True ?c1 = (res, c')"
        using True ok Cons.prems(1,2) radio_mode.exhaust
        by (cases m) (auto simp: kv param_call_def applicable_def drv_status_def Let_def split: if_splits)
      have "rc_mode (cf_radio ?c1) = m" using Cons.prems(2) by (simp add: note_applied_def)
      from Cons.IH [OF run this refl] obtain n where
        "n \<le> length ?rest" and "if res = None then n < length ?rest
           else n = length ?rest \<and> res = Some (True \<or> ?rest \<noteq> [])"
        and "cf_radio c' = drv_run d (map (param_call m) (take (if res = None then Suc n else n) ?rest)) (cf_radio ?c1)"
        and "cf_effective c' = note_effective env m (cf_effective ?c1) (take n ?rest)"
        and "cf_replay c' = note_replay (cf_replay ?c1) (take n ?rest)"
        by blast
      then show ?thesis
        using ps by (intro exI [of _ "Suc n"]) (auto simp: note_applied_def kv)
    qed
  qed
qed

text \<open>The tokens of a valid command: each key once, each value acceptable in the target mode.\<close>

definition radio_params :: "config_command \<Rightarrow> (string \<times> string) list" where
  "radio_params parsed = filter (\<lambda>(key, _). key \<noteq> ''GETRSSI'') (cc_tokens parsed)"

definition command_target :: "config_command \<Rightarrow> radio_mode \<Rightarrow> radio_mode" where
  "command_target parsed current =
     (if cc_mode parsed = ''FSK'' then RADIO_MODE_FSK
      else if cc_mode parsed = ''LORA'' then RADIO_MODE_LORA else current)"

lemma valid_command:
  assumes "config_validate_command cl parsed current = (True, v)" and "cc_is_set parsed" "cc_has_params parsed"
  shows "val_target_mode v = command_target parsed current"
    and "cc_mode parsed \<in> {[], ''FSK'', ''LORA''}" and "cc_malformed parsed = []" and "cc_mode_count parsed \<le> 1"
    and "distinct (map fst (cc_tokens parsed))"
    and "\<forall>kv\<in>set (filter (applicable (command_target parsed current)) (radio_params parsed)).
      radio_value_ok cl (command_target parsed current) (fst kv) (snd kv)"
proof -
  let ?m = "command_target parsed current"
  let ?r = "(config_validation_result_init current)\<lparr>val_target_mode := ?m\<rparr>"
  have shape: "cc_malformed parsed = [] \<and> cc_mode_count parsed \<le> 1 \<and> cc_mode parsed \<in> {[], ''FSK'', ''LORA''} \<and>
      validate_tokens cl ?m [] (cc_tokens parsed) ?r = (True, v)"
    using assms by (auto simp: config_validate_command_def command_target_def Let_def split: if_splits)
  then show "cc_mode parsed \<in> {[], ''FSK'', ''LORA''}" "cc_malformed parsed = []" "cc_mode_count parsed \<le> 1"
    by auto
  have run: "validate_tokens cl ?m [] (cc_tokens parsed) ?r = (True, v)" using shape by blast
  show "distinct (map fst (cc_tokens parsed))" using validate_tokens_distinct [OF run] by simp
  from validate_tokens_True [OF run] have v: "v = ?r" and
    none: "\<forall>i<length (cc_tokens parsed). token_rejection cl ?m ([] @ take i (cc_tokens parsed))
      (fst (cc_tokens parsed ! i)) (snd (cc_tokens parsed ! i)) = None" by auto
  show "val_target_mode v = ?m" by (simp add: v)
  show "\<forall>kv\<in>set (filter (applicable ?m) (radio_params parsed)). radio_value_ok cl ?m (fst kv) (snd kv)"
  proof
    fix kv assume kv: "kv \<in> set (filter (applicable ?m) (radio_params parsed))"
    then obtain i where i: "i < length (cc_tokens parsed)" "cc_tokens parsed ! i = kv"
      by (auto simp: radio_params_def in_set_conv_nth)
    with none have "token_rejection cl ?m (take i (cc_tokens parsed)) (fst kv) (snd kv) = None" by auto
    moreover have "fst kv \<noteq> ''GETRSSI''" "applicable ?m kv"
      using kv by (auto simp: radio_params_def)
    ultimately show "radio_value_ok cl ?m (fst kv) (snd kv)"
      by (intro token_accepted_ok) (auto simp: applicable_def)
  qed
qed

lemma getrssi_loop:
  "\<exists>g. foldl (\<lambda>c (_, val). apply_getrssi val c) c toks =
     c\<lparr>cf_radio := (cf_radio c)\<lparr>rc_getrssi_active := g\<rparr>\<rparr>"
proof (induction toks arbitrary: c)
  case Nil
  show ?case by (intro exI [of _ "rc_getrssi_active (cf_radio c)"]) simp
next
  case (Cons t toks)
  obtain k v where t: "t = (k, v)" by force
  from Cons.IH [of "apply_getrssi v c"] t show ?case
    by (auto simp: apply_getrssi_def split: option.splits)
qed

text \<open>
  Every command ends in one of three ways: it is rejected, its mode switch fails, or it runs
  (possibly up to a parameter the driver refuses).
\<close>

definition command_accepted :: "config_env \<Rightarrow> config_command \<Rightarrow> config_state \<Rightarrow> bool" where
  "command_accepted env parsed c \<longleftrightarrow>
     cc_is_set parsed \<and> cc_has_params parsed \<and>
     fst (config_validate_command (ce_limits env) parsed (rc_mode (cf_radio c))) \<and>
     (let m = command_target parsed (rc_mode (cf_radio c)) in
      airtime_allowed (worst_case_airtime_ms (lim_family (ce_limits env)) m
        (merged_effective (ce_defaults env) parsed m
          (config_apply_effective (ce_defaults env) (cf_effective c)))))"

lemma apply_command_cases:
  assumes "parse_and_apply_config_generic d env cmd c = (st, c')"
    and "parsed = config_parse_command cmd" and "m = command_target parsed (rc_mode (cf_radio c))"
    and "ps = filter (applicable m) (radio_params parsed)"
    and "e1 = config_apply_effective (ce_defaults env) (cf_effective c)"
  obtains (rejected) "\<not> command_accepted env parsed c" "config_apply_status_untouched st"
      "st \<noteq> CONFIG_APPLY_OK_NO_RADIO" "cf_radio c' = cf_radio c" "cf_replay c' = cf_replay c"
      "cf_effective c' = cf_effective c \<or> cf_effective c' = e1"
  | (switch_failed) "command_accepted env parsed c" "st = CONFIG_APPLY_HW_ERROR" "cc_mode parsed \<noteq> []"
      "cf_radio c' = drv d (Call_SwitchMode m) (cf_radio c)"
      "dv_status d (Call_SwitchMode m # rc_calls (cf_radio c)) \<noteq> RADIOLIB_ERR_NONE"
      "cf_replay c' = cf_replay c" "cf_effective c' = e1"
  | (ran) n g where "command_accepted env parsed c" "n \<le> length ps"
      "st = (if n < length ps then CONFIG_APPLY_HW_ERROR
             else if cc_mode parsed \<noteq> [] \<or> ps \<noteq> [] then CONFIG_APPLY_APPLIED else CONFIG_APPLY_OK_NO_RADIO)"
      "cf_radio c' = drv_run d (map (param_call m) (take (if n < length ps then Suc n else n) ps))
         ((if cc_mode parsed \<noteq> [] then (drv d (Call_SwitchMode m) (cf_radio c))\<lparr>rc_mode := m\<rparr>
           else cf_radio c)\<lparr>rc_getrssi_active := g\<rparr>)"
      "cf_effective c' = note_effective env m
         (if cc_mode parsed \<noteq> [] then config_apply_effective_load_defaults (ce_defaults env) else e1) (take n ps)"
      "cf_replay c' = note_replay
         (if cc_mode parsed \<noteq> [] then config_apply_replay_start_mode (cc_mode parsed) (cf_replay c)
          else cf_replay c) (take n ps)"
proof (cases "command_accepted env parsed c")
  case False
  then have "config_apply_status_untouched st \<and> st \<noteq> CONFIG_APPLY_OK_NO_RADIO \<and> cf_radio c' = cf_radio c \<and>
      cf_replay c' = cf_replay c \<and> (cf_effective c' = cf_effective c \<or> cf_effective c' = e1)"
    using assms(1) valid_command(1) [of "ce_limits env" parsed "rc_mode (cf_radio c)"]
    by (auto simp: parse_and_apply_config_generic_def command_accepted_def Let_def assms(2-5)
        rejection_status_def config_apply_status_untouched_def config_apply_airtime_ok_def
        split: if_splits prod.splits)
  with False rejected show thesis by blast
next
  case True
  obtain v where valid: "config_validate_command (ce_limits env) parsed (rc_mode (cf_radio c)) = (True, v)"
      "cc_is_set parsed" "cc_has_params parsed"
    using True by (cases "config_validate_command (ce_limits env) parsed (rc_mode (cf_radio c))")
      (auto simp: command_accepted_def)
  note vc = valid_command [OF valid, folded assms(3)]
  let ?c1 = "c\<lparr>cf_effective := e1\<rparr>"
  have hw: "apply_hardware d env parsed ?c1 = (st, c')"
    using assms(1) valid True
    by (auto simp: parse_and_apply_config_generic_def command_accepted_def Let_def assms(2-5) vc(1)
        config_apply_airtime_ok_def split: if_splits prod.splits)
  show thesis
  proof (cases "cc_mode parsed \<noteq> [] \<and>
      dv_status d (Call_SwitchMode m # rc_calls (cf_radio c)) \<noteq> RADIOLIB_ERR_NONE")
    case fail: True
    then have "st = CONFIG_APPLY_HW_ERROR \<and> c' = ?c1\<lparr>cf_radio := drv d (Call_SwitchMode m) (cf_radio c)\<rparr>"
      using hw vc(2) assms(3)
      by (auto simp: apply_hardware_def apply_mode_def command_target_def drv_status_def Let_def split: if_splits)
    with fail True show thesis by (intro switch_failed) auto
  next
    case go: False
    let ?md = "cc_mode parsed \<noteq> []"
    let ?c2 = "?c1\<lparr>cf_radio := (if ?md then (drv d (Call_SwitchMode m) (cf_radio c))\<lparr>rc_mode := m\<rparr> else cf_radio c),
        cf_effective := (if ?md then config_apply_effective_load_defaults (ce_defaults env) else e1),
        cf_replay := (if ?md then config_apply_replay_start_mode (cc_mode parsed) (cf_replay c) else cf_replay c)\<rparr>"
    have md: "apply_mode d env (cc_mode parsed) ?c1 = ((True, ?md), ?c2)"
      using go vc(2) assms(3)
      by (auto simp: apply_mode_def command_target_def drv_status_def Let_def)
    obtain g where g: "foldl (\<lambda>c (_, val). apply_getrssi val c) ?c2
        (filter (\<lambda>(key, _). key = ''GETRSSI'') (cc_tokens parsed)) =
        ?c2\<lparr>cf_radio := (cf_radio ?c2)\<lparr>rc_getrssi_active := g\<rparr>\<rparr>" (is "_ = ?c3")
      using getrssi_loop by blast
    have mode: "rc_mode (cf_radio ?c3) = m" using assms(3) by (simp add: command_target_def)
    obtain res c4 where run: "apply_params d env (radio_params parsed) ?md ?c3 = (res, c4)" by force
    from hw md g run have st: "c' = c4" "st = (case res of None \<Rightarrow> CONFIG_APPLY_HW_ERROR
        | Some t \<Rightarrow> if t then CONFIG_APPLY_APPLIED else CONFIG_APPLY_OK_NO_RADIO)"
      by (auto simp: apply_hardware_def radio_params_def Let_def split: option.splits)
    from apply_params_run [OF run mode assms(4)] obtain n where n: "n \<le> length ps"
      "if res = None then n < length ps else n = length ps \<and> res = Some (?md \<or> ps \<noteq> [])"
      "cf_radio c4 = drv_run d (map (param_call m) (take (if res = None then Suc n else n) ps)) (cf_radio ?c3)"
      "cf_effective c4 = note_effective env m (cf_effective ?c3) (take n ps)"
      "cf_replay c4 = note_replay (cf_replay ?c3) (take n ps)" by blast
    then show thesis
      using st by (intro ran [OF True n(1), of g]) (auto split: if_splits)
  qed
qed

section \<open>Rejected commands\<close>

lemma effective_idem [simp]:
  "config_apply_effective d (config_apply_effective d e) = config_apply_effective d e"
  by (simp add: config_apply_effective_def config_apply_effective_load_defaults_def)

lemma untouched_command:
  assumes "parse_and_apply_config_generic d env cmd c = (st, c')" and "config_apply_status_untouched st"
  shows "\<exists>g. cf_radio c' = (cf_radio c)\<lparr>rc_getrssi_active := g\<rparr>"
    and "cf_replay c' = cf_replay c"
    and "config_apply_effective (ce_defaults env) (cf_effective c') =
      config_apply_effective (ce_defaults env) (cf_effective c)"
proof -
  have same: "\<exists>g. r = r\<lparr>rc_getrssi_active := g\<rparr>" for r :: radio
    by (intro exI [of _ "rc_getrssi_active r"]) simp
  have "(\<exists>g. cf_radio c' = (cf_radio c)\<lparr>rc_getrssi_active := g\<rparr>) \<and>
      cf_replay c' = cf_replay c \<and> config_apply_effective (ce_defaults env) (cf_effective c') =
      config_apply_effective (ce_defaults env) (cf_effective c)"
  proof (cases rule: apply_command_cases [OF assms(1) refl refl refl refl, case_names rejected switch_failed ran])
    case rejected
    then show ?thesis using same by auto
  next
    case switch_failed
    then show ?thesis using assms(2) by (simp add: config_apply_status_untouched_def)
  next
    case (ran n g)
    from ran(3) assms(2) have idle: "cc_mode (config_parse_command cmd) = []"
      "filter (applicable (command_target (config_parse_command cmd) (rc_mode (cf_radio c))))
        (radio_params (config_parse_command cmd)) = []"
      by (auto simp: config_apply_status_untouched_def split: if_splits)
    show ?thesis using ran(4-6) unfolding idle by auto
  qed
  then show "\<exists>g. cf_radio c' = (cf_radio c)\<lparr>rc_getrssi_active := g\<rparr>" "cf_replay c' = cf_replay c"
    "config_apply_effective (ce_defaults env) (cf_effective c') =
      config_apply_effective (ce_defaults env) (cf_effective c)" by auto
qed

section \<open>Only checked values reach the driver\<close>

fun call_checked :: "config_limits \<Rightarrow> drv_call \<Rightarrow> bool" where
  "call_checked cl (Call_LoraParam key val) = radio_value_ok cl RADIO_MODE_LORA key val"
| "call_checked cl (Call_FskParam key val) = radio_value_ok cl RADIO_MODE_FSK key val"
| "call_checked cl (Call_SwitchMode m) = True"
| "call_checked cl _ = False"

lemma param_call_checked: "radio_value_ok cl m (fst kv) (snd kv) \<Longrightarrow> call_checked cl (param_call m kv)"
  by (cases m) (simp_all add: param_call_def)

lemma accepted_valid:
  assumes "command_accepted env parsed c" and "m = command_target parsed (rc_mode (cf_radio c))"
    and "ps = filter (applicable m) (radio_params parsed)"
  shows "\<forall>kv\<in>set ps. radio_value_ok (ce_limits env) m (fst kv) (snd kv)"
    and "distinct (map fst (cc_tokens parsed))" and "cc_mode parsed \<in> {[], ''FSK'', ''LORA''}"
proof -
  obtain v where "config_validate_command (ce_limits env) parsed (rc_mode (cf_radio c)) = (True, v)"
      "cc_is_set parsed" "cc_has_params parsed"
    using assms(1) by (cases "config_validate_command (ce_limits env) parsed (rc_mode (cf_radio c))")
      (auto simp: command_accepted_def)
  from valid_command [OF this] show "\<forall>kv\<in>set ps. radio_value_ok (ce_limits env) m (fst kv) (snd kv)"
    "distinct (map fst (cc_tokens parsed))" "cc_mode parsed \<in> {[], ''FSK'', ''LORA''}"
    unfolding assms(2,3) by auto
qed

lemma command_calls_checked:
  assumes "parse_and_apply_config_generic d env cmd c = (st, c')"
  shows "\<exists>new. rc_calls (cf_radio c') = new @ rc_calls (cf_radio c) \<and>
    (\<forall>call\<in>set new. call_checked (ce_limits env) call)"
  using assms
proof (rule apply_command_cases [OF _ refl refl refl refl])
  let ?parsed = "config_parse_command cmd"
  let ?m = "command_target ?parsed (rc_mode (cf_radio c))"
  let ?ps = "filter (applicable ?m) (radio_params ?parsed)"
  fix n g assume acc: "command_accepted env ?parsed c"
    and radio: "cf_radio c' = drv_run d (map (param_call ?m) (take (if n < length ?ps then Suc n else n) ?ps))
       ((if cc_mode ?parsed \<noteq> [] then (drv d (Call_SwitchMode ?m) (cf_radio c))\<lparr>rc_mode := ?m\<rparr>
         else cf_radio c)\<lparr>rc_getrssi_active := g\<rparr>)"
  let ?k = "if n < length ?ps then Suc n else n"
  have "\<forall>call\<in>set (map (param_call ?m) (take ?k ?ps)). call_checked (ce_limits env) call"
    using accepted_valid(1) [OF acc refl refl] by (auto intro!: param_call_checked dest: in_set_takeD)
  then show ?thesis
    by (intro exI [of _ "rev (map (param_call ?m) (take ?k ?ps)) @
          (if cc_mode ?parsed \<noteq> [] then [Call_SwitchMode ?m] else [])"])
      (auto simp: radio)
qed simp_all

end
