(* ===== verification/Config_Replay.thy ===== *)
theory Config_Replay
  imports Config_Calls
begin

text \<open>
  What holds over a session of CONFIG commands (\<open>config_apply.cpp\<close>): the shadow of the effective
  configuration and the replay record of \<open>config_replay.cpp\<close> always describe the same
  configuration, its airtime stays within the limit, and the command printed from the record
  rebuilds it through the same apply path.
\<close>

section \<open>The shadow and the record\<close>

text \<open>Whether the value of a key that the shadow keeps can be read.\<close>

definition note_readable :: "string \<times> string \<Rightarrow> bool" where
  "note_readable kv \<longleftrightarrow>
     (fst kv \<in> {''SF'', ''CR'', ''PREAMBLE''} \<longrightarrow> config_value_parse_int_exact (snd kv) \<noteq> None) \<and>
     (fst kv \<in> {''BW'', ''BR''} \<longrightarrow> config_value_parse_float_exact (snd kv) \<noteq> None)"

lemma radio_value_readable: "radio_value_ok cl m (fst kv) (snd kv) \<Longrightarrow> note_readable kv"
  by (auto simp: radio_value_ok_def note_readable_def config_validate_fsk_value_def
      config_validate_lora_value_def config_is_lora_only_key_def config_is_fsk_only_key_def
      parsed_ok_def split: if_splits option.splits)

lemma note_key_fields:
  "ef_set (config_apply_effective_note_key d m k v e) = True"
  "ef_sf (config_apply_effective_note_key d m k v e) =
     (if k = ''SF'' \<and> m = RADIO_MODE_LORA
      then parsed_or (ef_sf (config_apply_effective d e)) (config_value_parse_int_exact v)
      else ef_sf (config_apply_effective d e))"
  "ef_bw_khz (config_apply_effective_note_key d m k v e) =
     (if k = ''BW'' \<and> m = RADIO_MODE_LORA
      then parsed_or (ef_bw_khz (config_apply_effective d e)) (config_value_parse_float_exact v)
      else ef_bw_khz (config_apply_effective d e))"
  "ef_cr (config_apply_effective_note_key d m k v e) =
     (if k = ''CR'' \<and> m = RADIO_MODE_LORA
      then parsed_or (ef_cr (config_apply_effective d e)) (config_value_parse_int_exact v)
      else ef_cr (config_apply_effective d e))"
  "ef_preamble (config_apply_effective_note_key d m k v e) =
     (if k = ''PREAMBLE'' \<and> m = RADIO_MODE_LORA
      then parsed_or (ef_preamble (config_apply_effective d e)) (config_value_parse_int_exact v)
      else ef_preamble (config_apply_effective d e))"
  "ef_fsk_br_kbps (config_apply_effective_note_key d m k v e) =
     (if k = ''BR'' \<and> m \<noteq> RADIO_MODE_LORA
      then parsed_or (ef_fsk_br_kbps (config_apply_effective d e)) (config_value_parse_float_exact v)
      else ef_fsk_br_kbps (config_apply_effective d e))"
  "ef_fsk_preamble_bits (config_apply_effective_note_key d m k v e) =
     (if k = ''PREAMBLE'' \<and> m \<noteq> RADIO_MODE_LORA
      then parsed_or (ef_fsk_preamble_bits (config_apply_effective d e)) (config_value_parse_int_exact v)
      else ef_fsk_preamble_bits (config_apply_effective d e))"
  by (simp_all add: config_apply_effective_note_key_def Let_def config_apply_effective_def
      config_apply_effective_load_defaults_def)

lemma effective_set: "ef_set e \<Longrightarrow> config_apply_effective d e = e"
  by (simp add: config_apply_effective_def)

lemma note_key_commute:
  assumes "k \<noteq> k'"
  shows "config_apply_effective_note_key d m k v (config_apply_effective_note_key d m k' v' e) =
     config_apply_effective_note_key d m k' v' (config_apply_effective_note_key d m k v e)"
  using assms
  by (intro config_effective.equality) (auto simp: note_key_fields effective_set)

lemma note_key_overwrite:
  assumes "note_readable (k, v)"
  shows "config_apply_effective_note_key d m k v (config_apply_effective_note_key d m k v' e) =
     config_apply_effective_note_key d m k v e"
proof -
  have int: "parsed_or old (config_value_parse_int_exact v) = parsed_or old' (config_value_parse_int_exact v)"
    if "k = ''SF'' \<or> k = ''CR'' \<or> k = ''PREAMBLE''" for old old'
    using that assms by (auto simp: note_readable_def parsed_or_def)
  have flt: "parsed_or old (config_value_parse_float_exact v) = parsed_or old' (config_value_parse_float_exact v)"
    if "k = ''BW'' \<or> k = ''BR''" for old old'
    using that assms by (auto simp: note_readable_def parsed_or_def)
  show ?thesis
    by (intro config_effective.equality) (auto simp: note_key_fields effective_set intro: int flt)
qed

lemma note_effective_commute:
  "k \<notin> fst ` set kvs \<Longrightarrow>
     note_effective env m (config_apply_effective_note_key (ce_defaults env) m k v e) kvs =
     config_apply_effective_note_key (ce_defaults env) m k v (note_effective env m e kvs)"
proof (induction kvs arbitrary: e)
  case (Cons kv kvs)
  then show ?case
    using note_key_commute [of "fst kv" k "ce_defaults env" m "snd kv" v e] by auto
qed simp

lemma replay_note_effective:
  "distinct (map fst kvs) \<Longrightarrow> note_readable (k, v) \<Longrightarrow>
     note_effective env m e (replay_note_keys k v kvs) =
     config_apply_effective_note_key (ce_defaults env) m k v (note_effective env m e kvs)"
proof (induction k v kvs arbitrary: e rule: replay_note_keys.induct)
  case (2 k v k' v' kvs)
  show ?case
  proof (cases "k' = k")
    case True
    with 2 have "k \<notin> fst ` set kvs" by simp
    with True 2 show ?thesis by (simp flip: note_effective_commute add: note_key_overwrite)
  next
    case False
    with 2 show ?thesis by simp
  qed
qed simp

lemma replay_note_keys_set:
  "fst ` set (replay_note_keys k v kvs) = insert k (fst ` set kvs)"
  "set (replay_note_keys k v kvs) \<subseteq> insert (k, v) (set kvs)"
  by (induction k v kvs rule: replay_note_keys.induct) auto

lemma replay_note_keys_distinct:
  "distinct (map fst kvs) \<Longrightarrow> distinct (map fst (replay_note_keys k v kvs))"
  by (induction k v kvs rule: replay_note_keys.induct)
    (use replay_note_keys_set(1) in \<open>force+\<close>)

lemma replay_note_keys_same:
  "map_of kvs k = Some v \<Longrightarrow> distinct (map fst kvs) \<Longrightarrow> replay_note_keys k v kvs = kvs"
  by (induction k v kvs rule: replay_note_keys.induct) (auto split: if_splits)

lemma replay_note_keys_new:
  "k \<notin> fst ` set kvs \<Longrightarrow> replay_note_keys k v kvs = kvs @ [(k, v)]"
  by (induction k v kvs rule: replay_note_keys.induct) auto

section \<open>The session invariant\<close>

definition value_text :: "string \<Rightarrow> bool" where
  "value_text v \<longleftrightarrow> v \<noteq> [] \<and> CHR '' '' \<notin> set v \<and> CHR 0x0A \<notin> set v \<and> CHR 0x0D \<notin> set v"

text \<open>A line as the CONFIG stream delivers it: without line breaks and carriage returns.\<close>

definition stream_line :: "string \<Rightarrow> bool" where
  "stream_line line \<longleftrightarrow> CHR 0x0A \<notin> set line \<and> CHR 0x0D \<notin> set line"

definition replay_wf :: "config_env \<Rightarrow> radio_mode \<Rightarrow> config_effective \<Rightarrow> replay \<Rightarrow> bool" where
  "replay_wf env m e rp \<longleftrightarrow>
     (if rp_mode rp = [] then m = RADIO_MODE_LORA else rp_mode rp = radio_mode_name m) \<and>
     distinct (map fst (rp_keys rp)) \<and>
     (\<forall>kv\<in>set (rp_keys rp). radio_value_ok (ce_limits env) m (fst kv) (snd kv) \<and> value_text (snd kv)) \<and>
     config_apply_effective (ce_defaults env) e =
       note_effective env m (config_apply_effective_load_defaults (ce_defaults env)) (rp_keys rp)"

lemma note_key_set_effective:
  "config_apply_effective_note_key d m k v (config_apply_effective d e) =
     config_apply_effective_note_key d m k v e"
  by (intro config_effective.equality) (simp_all add: note_key_fields)

lemma replay_wf_note:
  assumes "replay_wf env m e rp" and "radio_value_ok (ce_limits env) m (fst kv) (snd kv)"
    and "value_text (snd kv)"
  shows "replay_wf env m (config_apply_effective_note_key (ce_defaults env) m (fst kv) (snd kv) e)
    (config_apply_replay_note (fst kv) (snd kv) rp)"
proof -
  have "note_readable (fst kv, snd kv)" using radio_value_readable [OF assms(2)] by simp
  then have "note_effective env m (config_apply_effective_load_defaults (ce_defaults env))
      (replay_note_keys (fst kv) (snd kv) (rp_keys rp)) =
      config_apply_effective_note_key (ce_defaults env) m (fst kv) (snd kv)
        (config_apply_effective (ce_defaults env) e)"
    using assms(1) by (subst replay_note_effective) (simp_all add: replay_wf_def)
  moreover have "config_apply_effective (ce_defaults env)
      (config_apply_effective_note_key (ce_defaults env) m (fst kv) (snd kv) e) =
      config_apply_effective_note_key (ce_defaults env) m (fst kv) (snd kv) e"
    by (simp add: effective_set note_key_fields)
  moreover have "\<forall>x\<in>set (replay_note_keys (fst kv) (snd kv) (rp_keys rp)).
      radio_value_ok (ce_limits env) m (fst x) (snd x) \<and> value_text (snd x)"
    using assms replay_note_keys_set(2) [of "fst kv" "snd kv" "rp_keys rp"]
    unfolding replay_wf_def by auto
  moreover have "distinct (map fst (replay_note_keys (fst kv) (snd kv) (rp_keys rp)))"
    using assms(1) by (intro replay_note_keys_distinct) (simp add: replay_wf_def)
  ultimately show ?thesis
    using assms(1)
    by (simp add: replay_wf_def config_apply_replay_note_def note_key_set_effective)
qed

lemma replay_wf_notes:
  "replay_wf env m e rp \<Longrightarrow>
     (\<forall>kv\<in>set kvs. radio_value_ok (ce_limits env) m (fst kv) (snd kv) \<and> value_text (snd kv)) \<Longrightarrow>
     replay_wf env m (note_effective env m e kvs) (note_replay rp kvs)"
  by (induction kvs arbitrary: e rp) (simp_all add: replay_wf_note)

lemma replay_wf_start:
  "mode = radio_mode_name m \<Longrightarrow>
     replay_wf env m (config_apply_effective_load_defaults (ce_defaults env))
       (config_apply_replay_start_mode mode rp)"
  by (cases m)
    (simp_all add: replay_wf_def config_apply_replay_start_mode_def config_apply_effective_def)

lemma replay_wf_effective:
  "replay_wf env m (config_apply_effective (ce_defaults env) e) rp = replay_wf env m e rp"
  by (simp add: replay_wf_def)

text \<open>The values of a parsed line are plain text.\<close>

lemma add_token_text:
  assumes "CHR '' '' \<notin> set token" and "stream_line token"
    and "\<forall>kv\<in>set (cc_tokens cmd). value_text (snd kv)"
  shows "\<forall>kv\<in>set (cc_tokens (add_token token cmd)). value_text (snd kv)"
proof -
  have sub: "set (drop n token) \<subseteq> set token" for n by (rule set_drop_subset)
  have "value_text (drop n token)" if "n < length token" for n
    using that assms(1,2) sub [of n] by (auto simp: value_text_def stream_line_def)
  then show ?thesis using assms(3) by (auto simp: add_token_def Let_def)
qed

lemma parse_tokens_text:
  "stream_line rest \<Longrightarrow> \<forall>kv\<in>set (cc_tokens cmd). value_text (snd kv) \<Longrightarrow>
     \<forall>kv\<in>set (cc_tokens (parse_tokens rest cmd)). value_text (snd kv)"
proof (induction rest cmd rule: parse_tokens.induct)
  case (1 rest cmd)
  let ?t = "takeWhile (\<lambda>c. c \<noteq> CHR '' '') rest"
  have t: "CHR '' '' \<notin> set ?t" "stream_line ?t"
    using "1.prems"(1) by (auto simp: stream_line_def dest: set_takeWhileD)
  have d: "stream_line (drop (length ?t + 1) rest)"
    using "1.prems"(1) by (auto simp: stream_line_def dest: in_set_dropD)
  have a: "\<forall>kv\<in>set (cc_tokens (if ?t \<noteq> [] then add_token ?t cmd else cmd)). value_text (snd kv)"
    using add_token_text [OF t "1.prems"(2)] "1.prems"(2) by simp
  show ?case
  proof (cases "rest = []")
    case True
    then show ?thesis using "1.prems"(2) by simp
  next
    case False
    from "1.IH" [OF False refl d a] False show ?thesis
      by (subst parse_tokens.simps) (simp add: Let_def)
  qed
qed

lemma strip_end_id: "s = [] \<or> \<not> p (last s) \<Longrightarrow> strip_end p s = s"
  by (cases s rule: rev_cases) (auto simp: strip_end_def)

lemma strip_end_subset: "set (strip_end p s) \<subseteq> set s"
  using set_dropWhileD by (fastforce simp: strip_end_def)

lemma parsed_text:
  assumes "stream_line line"
  shows "\<forall>kv\<in>set (cc_tokens (config_parse_command line)). value_text (snd kv)"
proof -
  have "stream_line (drop n (strip_end p line))" for n p
    using assms strip_end_subset [of p line] by (auto simp: stream_line_def dest: in_set_dropD)
  then show ?thesis
    by (simp add: config_parse_command_def Let_def) (intro impI parse_tokens_text; simp)
qed

lemma radio_params_sub: "kv \<in> set (radio_params p) \<Longrightarrow> kv \<in> set (cc_tokens p)"
  by (simp add: radio_params_def)

text \<open>One command keeps the invariant, whatever the driver answers.\<close>

lemma command_replay_wf:
  assumes "parse_and_apply_config_generic d env line c = (st, c')" and "stream_line line"
    and "replay_wf env (rc_mode (cf_radio c)) (cf_effective c) (cf_replay c)"
  shows "replay_wf env (rc_mode (cf_radio c')) (cf_effective c') (cf_replay c')"
proof -
  let ?p = "config_parse_command line"
  let ?m = "command_target ?p (rc_mode (cf_radio c))"
  let ?ps = "filter (applicable ?m) (radio_params ?p)"
  show ?thesis
  proof (cases rule: apply_command_cases [OF assms(1) refl refl refl refl, case_names rejected switch_failed ran])
    case rejected
    then show ?thesis using assms(3) replay_wf_effective by auto
  next
    case switch_failed
    then show ?thesis using assms(3) replay_wf_effective by simp
  next
    case (ran n g)
    have ok: "\<forall>kv\<in>set (take n ?ps). radio_value_ok (ce_limits env) ?m (fst kv) (snd kv) \<and> value_text (snd kv)"
      using accepted_valid(1) [OF ran(1) refl refl] parsed_text [OF assms(2)]
      by (metis filter_is_subset in_set_takeD radio_params_sub subsetD)
    show ?thesis
    proof (cases "cc_mode ?p = []")
      case True
      then have "?m = rc_mode (cf_radio c)" by (simp add: command_target_def)
      with True ran(4-6) ok assms(3) show ?thesis
        by (simp add: replay_wf_notes replay_wf_effective)
    next
      case False
      with accepted_valid(3) [OF ran(1) refl refl] have "cc_mode ?p = radio_mode_name ?m"
        by (auto simp: command_target_def)
      with False ran(4-6) ok show ?thesis
        by (simp add: replay_wf_notes replay_wf_start)
    qed
  qed
qed

section \<open>The airtime limit\<close>

text \<open>The part of the shadow that decides the airtime in a mode.\<close>

definition air_agree :: "radio_mode \<Rightarrow> config_effective \<Rightarrow> config_effective \<Rightarrow> bool" where
  "air_agree m e e' \<longleftrightarrow>
     (if m = RADIO_MODE_LORA
      then ef_sf e = ef_sf e' \<and> ef_bw_khz e = ef_bw_khz e' \<and> ef_cr e = ef_cr e' \<and> ef_preamble e = ef_preamble e'
      else ef_fsk_br_kbps e = ef_fsk_br_kbps e' \<and> ef_fsk_preamble_bits e = ef_fsk_preamble_bits e')"

lemma air_agree_refl: "air_agree m e e"
  by (simp add: air_agree_def)

lemma air_agree_airtime:
  "air_agree m e e' \<Longrightarrow> worst_case_airtime_ms family m e = worst_case_airtime_ms family m e'"
  by (auto simp: air_agree_def worst_case_airtime_ms_def Let_def split: if_splits)

lemma merge_fields:
  "ef_sf (merge_token m k v e) =
     (if k = ''SF'' then parsed_or (ef_sf e) (config_value_parse_int_exact v) else ef_sf e)"
  "ef_bw_khz (merge_token m k v e) =
     (if k = ''BW'' then parsed_or (ef_bw_khz e) (config_value_parse_float_exact v) else ef_bw_khz e)"
  "ef_cr (merge_token m k v e) =
     (if k = ''CR'' then parsed_or (ef_cr e) (config_value_parse_int_exact v) else ef_cr e)"
  "ef_preamble (merge_token m k v e) =
     (if k = ''PREAMBLE'' \<and> m = RADIO_MODE_LORA
      then parsed_or (ef_preamble e) (config_value_parse_int_exact v) else ef_preamble e)"
  "ef_fsk_preamble_bits (merge_token m k v e) =
     (if k = ''PREAMBLE'' \<and> m \<noteq> RADIO_MODE_LORA
      then parsed_or (ef_fsk_preamble_bits e) (config_value_parse_int_exact v) else ef_fsk_preamble_bits e)"
  "ef_fsk_br_kbps (merge_token m k v e) =
     (if k = ''BR'' then parsed_or (ef_fsk_br_kbps e) (config_value_parse_float_exact v) else ef_fsk_br_kbps e)"
  by (simp_all add: merge_token_def)

lemma merge_agrees:
  assumes "air_agree m e e'" and "ef_set e'"
  shows "air_agree m (merge_token m (fst kv) (snd kv) e)
    (if fst kv \<noteq> ''GETRSSI'' \<and> applicable m kv
     then config_apply_effective_note_key d m (fst kv) (snd kv) e' else e')"
proof (cases m)
  case RADIO_MODE_LORA
  with assms show ?thesis
    by (simp add: air_agree_def merge_fields note_key_fields applicable_def config_is_fsk_only_key_def
        effective_set)
next
  case RADIO_MODE_FSK
  with assms show ?thesis
    by (simp add: air_agree_def merge_fields note_key_fields applicable_def config_is_lora_only_key_def
        effective_set)
qed

lemma merged_agrees:
  "air_agree m e e' \<Longrightarrow> ef_set e' \<Longrightarrow>
     air_agree m (foldl (\<lambda>x (key, val). merge_token m key val x) e toks)
       (note_effective env m e' (filter (applicable m) (filter (\<lambda>(key, _). key \<noteq> ''GETRSSI'') toks)))"
proof (induction toks arbitrary: e e')
  case (Cons kv toks)
  obtain k v where kv: "kv = (k, v)" by force
  let ?e1 = "if fst kv \<noteq> ''GETRSSI'' \<and> applicable m kv
     then config_apply_effective_note_key (ce_defaults env) m (fst kv) (snd kv) e' else e'"
  have "air_agree m (merge_token m k v e) ?e1"
    using merge_agrees [OF Cons.prems, of kv] by (simp add: kv)
  moreover have "ef_set ?e1" using Cons.prems(2) by (simp add: note_key_fields)
  ultimately have "air_agree m (foldl (\<lambda>x (key, val). merge_token m key val x) (merge_token m k v e) toks)
      (note_effective env m ?e1 (filter (applicable m) (filter (\<lambda>(key, _). key \<noteq> ''GETRSSI'') toks)))"
    by (rule Cons.IH)
  then show ?case by (cases "applicable m (k, v)"; cases "k = ''GETRSSI''") (simp_all add: kv)
qed simp

definition airtime_inv :: "config_env \<Rightarrow> config_state \<Rightarrow> bool" where
  "airtime_inv env c \<longleftrightarrow> airtime_allowed (worst_case_airtime_ms (lim_family (ce_limits env)) (rc_mode (cf_radio c))
     (config_apply_effective (ce_defaults env) (cf_effective c)))"

lemma note_effective_set: "ef_set e \<Longrightarrow> ef_set (note_effective env m e kvs)"
  by (induction kvs arbitrary: e) (simp_all add: note_key_fields)

lemma command_airtime_inv:
  assumes "parse_and_apply_config_generic d env line c = (st, c')" and "st \<noteq> CONFIG_APPLY_HW_ERROR"
    and "airtime_inv env c"
  shows "airtime_inv env c'"
proof -
  let ?p = "config_parse_command line"
  let ?m = "command_target ?p (rc_mode (cf_radio c))"
  let ?ps = "filter (applicable ?m) (radio_params ?p)"
  let ?e0 = "if cc_mode ?p \<noteq> [] then config_apply_effective_load_defaults (ce_defaults env)
    else config_apply_effective (ce_defaults env) (cf_effective c)"
  show ?thesis
  proof (cases rule: apply_command_cases [OF assms(1) refl refl refl refl, case_names rejected switch_failed ran])
    case rejected
    then show ?thesis using assms(3) by (auto simp: airtime_inv_def)
  next
    case switch_failed
    then show ?thesis using assms(2) by simp
  next
    case (ran n g)
    have n: "n = length ?ps" using ran(2,3) assms(2) by (auto split: if_splits)
    have set: "ef_set ?e0"
      by (simp add: config_apply_effective_def config_apply_effective_load_defaults_def)
    have eff: "cf_effective c' = note_effective env ?m ?e0 ?ps" using ran(5) n by simp
    have mode: "rc_mode (cf_radio c') = ?m"
      using ran(4) by (simp add: command_target_def)
    have "air_agree ?m (merged_effective (ce_defaults env) ?p ?m
        (config_apply_effective (ce_defaults env) (cf_effective c))) (note_effective env ?m ?e0 ?ps)"
      using merged_agrees [OF air_agree_refl set, of ?m "cc_tokens ?p" env]
      by (simp only: merged_effective_def radio_params_def)
    then have "airtime_allowed (worst_case_airtime_ms (lim_family (ce_limits env)) ?m (cf_effective c'))"
      using ran(1) by (simp add: command_accepted_def Let_def eff air_agree_airtime)
    moreover have "ef_set (cf_effective c')" unfolding eff by (rule note_effective_set [OF set])
    ultimately show ?thesis by (simp add: airtime_inv_def mode effective_set)
  qed
qed

section \<open>The replay command\<close>

definition replay_tokens :: "replay \<Rightarrow> string list" where
  "replay_tokens rp = (if rp_mode rp \<noteq> [] then [''MODE='' @ rp_mode rp] else []) @
     map (\<lambda>(k, v). k @ ''='' @ v) (rp_keys rp)"

definition key_text :: "string \<Rightarrow> bool" where
  "key_text k \<longleftrightarrow> k \<noteq> [] \<and> CHR ''='' \<notin> set k \<and> CHR '' '' \<notin> set k \<and> CHR 0x0A \<notin> set k \<and> CHR 0x0D \<notin> set k \<and>
     uppercase_in_place k = k \<and> k \<noteq> ''MODE''"

lemma known_key_text: "config_is_known_config_key k \<Longrightarrow> key_text k"
  by (auto simp: config_is_known_config_key_def config_is_common_key_def config_is_lora_only_key_def
      config_is_fsk_only_key_def key_text_def uppercase_in_place_def c_toupper_def char_code_def)

lemma replay_command_text:
  "rp_mode rp \<noteq> [] \<or> rp_keys rp \<noteq> [] \<Longrightarrow>
     config_apply_replay_command rp = ''SET'' @ concat (map (\<lambda>t. CHR '' '' # t) (replay_tokens rp)) \<and>
     replay_tokens rp \<noteq> []"
proof -
  have "concat (map (\<lambda>(k, v). CHR '' '' # k @ CHR ''='' # v) kvs) =
      concat (map (\<lambda>t. CHR '' '' # t) (map (\<lambda>(k, v). k @ CHR ''='' # v) kvs))" for kvs :: "(string \<times> string) list"
    by (induction kvs) auto
  then show "rp_mode rp \<noteq> [] \<or> rp_keys rp \<noteq> [] \<Longrightarrow> ?thesis"
    by (auto simp: config_apply_replay_command_def replay_tokens_def)
qed

lemma add_tokens:
  "(\<forall>kv\<in>set kvs. key_text (fst kv) \<and> value_text (snd kv)) \<Longrightarrow>
     foldl (\<lambda>c t. add_token t c) cmd (map (\<lambda>(k, v). k @ ''='' @ v) kvs) =
       cmd\<lparr>cc_tokens := cc_tokens cmd @ kvs\<rparr>"
proof (induction kvs arbitrary: cmd)
  case (Cons kv kvs)
  obtain k v where kv: "kv = (k, v)" by force
  have "add_token (k @ ''='' @ v) cmd = cmd\<lparr>cc_tokens := cc_tokens cmd @ [(k, v)]\<rparr>"
    using Cons.prems by (intro add_token_pair) (simp_all add: kv key_text_def value_text_def)
  with Cons show ?case by (simp add: kv)
qed simp

lemma add_mode_token:
  "m \<in> {''FSK'', ''LORA''} \<Longrightarrow>
     add_token (''MODE='' @ m) cmd = cmd\<lparr>cc_mode := m, cc_mode_count := cc_mode_count cmd + 1\<rparr>"
  by (auto simp: add_token_def Let_def uppercase_in_place_def c_toupper_def char_code_def)

definition plain_token :: "string \<Rightarrow> bool" where
  "plain_token t \<longleftrightarrow> CHR '' '' \<notin> set t \<and> t \<noteq> [] \<and> CHR 0x0A \<notin> set t \<and> CHR 0x0D \<notin> set t"

lemma pair_plain_token: "key_text k \<Longrightarrow> value_text v \<Longrightarrow> plain_token (k @ CHR ''='' # v)"
  by (auto simp: plain_token_def key_text_def value_text_def)

lemma parse_replay_command:
  assumes "rp_mode rp \<noteq> [] \<or> rp_keys rp \<noteq> []" and "rp_mode rp \<in> {[], ''FSK'', ''LORA''}"
    and "\<forall>kv\<in>set (rp_keys rp). key_text (fst kv) \<and> value_text (snd kv)"
  shows "config_parse_command (config_apply_replay_command rp) =
    \<lparr>cc_is_set = True, cc_has_params = True, cc_text = config_apply_replay_command rp,
     cc_mode = rp_mode rp, cc_mode_count = (if rp_mode rp = [] then 0 else 1),
     cc_tokens = rp_keys rp, cc_malformed = []\<rparr>"
proof -
  let ?ts = "replay_tokens rp" and ?s = "config_apply_replay_command rp"
  let ?body = "concat (map (\<lambda>t. CHR '' '' # t) ?ts)"
  have s: "?s = ''SET'' @ ?body" and ne: "?ts \<noteq> []" using replay_command_text [OF assms(1)] by auto
  have ts: "\<forall>t\<in>set ?ts. plain_token t"
    using assms(2,3) by (auto simp: replay_tokens_def pair_plain_token) (simp_all add: plain_token_def)
  obtain body where body: "?body = CHR '' '' # body" using ne by (cases ?ts) auto
  have shape: "?s = ''SET '' @ body" by (simp only: s body) simp
  have nl: "\<forall>c\<in>set ?s. \<not> (c = CHR 0x0A \<or> c = CHR 0x0D)"
    unfolding s using ts by (auto simp: plain_token_def)
  have "?s \<noteq> []" unfolding s by simp
  from last_in_set [OF this] nl
  have strip: "strip_end (\<lambda>c. c = CHR 0x0A \<or> c = CHR 0x0D) ?s = ?s"
    by (intro strip_end_id) blast
  let ?cmd = "\<lparr>cc_is_set = True, cc_has_params = True, cc_text = ?s, cc_mode = [], cc_mode_count = 0,
      cc_tokens = [], cc_malformed = []\<rparr>"
  have "config_parse_command ?s = parse_tokens (tl ?body) ?cmd"
    unfolding config_parse_command_def Let_def strip by (simp add: shape body)
  also have "\<dots> = foldl (\<lambda>c t. add_token t c) ?cmd ?ts"
    using ts ne by (intro parse_tokens_printed) (auto simp: plain_token_def)
  also have "\<dots> = \<lparr>cc_is_set = True, cc_has_params = True, cc_text = ?s,
     cc_mode = rp_mode rp, cc_mode_count = (if rp_mode rp = [] then 0 else 1),
     cc_tokens = rp_keys rp, cc_malformed = []\<rparr>"
    using assms(2,3) add_mode_token [of "rp_mode rp" ?cmd]
    by (auto simp: replay_tokens_def add_tokens [simplified])
  finally show ?thesis .
qed

section \<open>Sessions\<close>

text \<open>
  The states of a session in which no command failed in the driver: the boot state, one command
  after another, and between them anything else the daemon does, which leaves the mode, the
  shadow and the record alone. The driver's behaviour may differ from one command to the next.
\<close>

definition boot_state :: "radio \<Rightarrow> config_effective \<Rightarrow> config_state" where
  "boot_state r e = \<lparr>cf_radio = r\<lparr>rc_mode := RADIO_MODE_LORA\<rparr>,
     cf_effective = config_apply_effective_reset e, cf_replay = config_apply_replay_reset\<rparr>"

inductive config_session :: "config_env \<Rightarrow> config_state \<Rightarrow> bool" for env where
  boot: "config_session env (boot_state r e)"
| command: "config_session env c \<Longrightarrow> stream_line line \<Longrightarrow>
     parse_and_apply_config_generic d env line c = (st, c') \<Longrightarrow> st \<noteq> CONFIG_APPLY_HW_ERROR \<Longrightarrow>
     config_session env c'"
| other: "config_session env c \<Longrightarrow> rc_mode r = rc_mode (cf_radio c) \<Longrightarrow>
     config_session env (c\<lparr>cf_radio := r\<rparr>)"

definition boot_airtime_ok :: "config_env \<Rightarrow> bool" where
  "boot_airtime_ok env \<longleftrightarrow> airtime_allowed (worst_case_airtime_ms (lim_family (ce_limits env)) RADIO_MODE_LORA
     (config_apply_effective_load_defaults (ce_defaults env)))"

text \<open>The worst-case airtime of the two bands' boot configurations.\<close>

lemma boot_airtime_433: "airtime_allowed (config_policy_lora_airtime_ms 12 (Fin 125) 5 8 255)"
proof -
  have v0: "f64_round (512 / 15625) = Fin (4722366482869645 / 144115188075855872)"
    using f64_round_value [of "-5" "512 / 15625" 4722366482869645] by (simp add: pow2_def)
  have v1: "f64_round (590295810358705625 / 18014398509481984) = Fin (1152921504606847 / 35184372088832)"
    using f64_round_value [of "5" "590295810358705625 / 18014398509481984" 4611686018427388] by (simp add: pow2_def)
  have v2: "f64_round (509 / 10) = Fin (7163538157286195 / 140737488355328)"
    using f64_round_value [of "5" "509 / 10" 7163538157286195] by (simp add: pow2_def)
  have v3: "f64_round (49 / 4) = Fin (49 / 4)"
    using f64_round_value [of "3" "49 / 4" 6896136929411072] by (simp add: pow2_def)
  have v4: "f64_round (1101 / 4) = Fin (1101 / 4)"
    using f64_round_value [of "8" "1101 / 4" 4842249208725504] by (simp add: pow2_def)
  have v5: "f64_round (1269366576572138547 / 140737488355328) = Fin (1239615797433729 / 137438953472)"
    using f64_round_value [of "13" "1269366576572138547 / 140737488355328" 4958463189734916] by (simp add: pow2_def)
  have sym: "symbol_time_ms 12 (Fin 125) = Fin (1152921504606847 / 35184372088832)"
    by (simp add: symbol_time_ms_def c_arith_Fin f64_of_f32_def f64_round_numeral v0 v1)
  have ldro: "config_policy_lora_ldro_required 12 (Fin 125) = True"
    by (simp add: config_policy_lora_ldro_required_def sym c_ge_def)
  have ceil: "\<lceil>7163538157286195 / 140737488355328 :: rat\<rceil> = 51" by (simp add: ceiling_eq_iff)
  show ?thesis
    by (simp add: config_policy_lora_airtime_ms_def Let_def ldro sym c_arith_Fin f64_round_numeral v2 v3 v4 v5 ceil
      airtime_allowed_def CONFIG_POLICY_MAX_AIRTIME_MS_def)
qed

lemma boot_airtime_868: "airtime_allowed (config_policy_lora_airtime_ms 11 (Fin 250) 5 16 255)"
proof -
  have v0: "f64_round (128 / 15625) = Fin (4722366482869645 / 576460752303423488)"
    using f64_round_value [of "-7" "128 / 15625" 4722366482869645] by (simp add: pow2_def)
  have v1: "f64_round (590295810358705625 / 72057594037927936) = Fin (1152921504606847 / 140737488355328)"
    using f64_round_value [of "3" "590295810358705625 / 72057594037927936" 4611686018427388] by (simp add: pow2_def)
  have v2: "f64_round (510 / 11) = Fin (6525101732837935 / 140737488355328)"
    using f64_round_value [of "5" "510 / 11" 6525101732837935] by (simp add: pow2_def)
  have v3: "f64_round (81 / 4) = Fin (81 / 4)"
    using f64_round_value [of "4" "81 / 4" 5699868278390784] by (simp add: pow2_def)
  have v4: "f64_round (1053 / 4) = Fin (1053 / 4)"
    using f64_round_value [of "8" "1053 / 4" 4631142976192512] by (simp add: pow2_def)
  have v5: "f64_round (1214026344351009891 / 562949953421312) = Fin (1185572601905283 / 549755813888)"
    using f64_round_value [of "11" "1214026344351009891 / 562949953421312" 4742290407621132] by (simp add: pow2_def)
  have sym: "symbol_time_ms 11 (Fin 250) = Fin (1152921504606847 / 140737488355328)"
    by (simp add: symbol_time_ms_def c_arith_Fin f64_of_f32_def f64_round_numeral v0 v1)
  have ldro: "config_policy_lora_ldro_required 11 (Fin 250) = False"
    by (simp add: config_policy_lora_ldro_required_def sym c_ge_def)
  have ceil: "\<lceil>6525101732837935 / 140737488355328 :: rat\<rceil> = 47" by (simp add: ceiling_eq_iff)
  show ?thesis
    by (simp add: config_policy_lora_airtime_ms_def Let_def ldro sym c_arith_Fin f64_round_numeral v2 v3 v4 v5 ceil
      airtime_allowed_def CONFIG_POLICY_MAX_AIRTIME_MS_def)
qed

definition band_env :: "radio_band \<Rightarrow> chip_family \<Rightarrow> bool \<Rightarrow> int \<Rightarrow> config_env" where
  "band_env band family high_power power_max =
     config_env_of (fst (daemon_band_resolve band None None)) family high_power power_max"

lemma band_env_airtime: "boot_airtime_ok (band_env band family high_power power_max)"
  by (cases band)
    (simp_all add: boot_airtime_ok_def band_env_def config_env_of_def daemon_band_resolve_def band_433_def
      band_868_def config_apply_effective_load_defaults_def rf_defaults_433_def rf_defaults_868_def
      worst_case_airtime_ms_def radio_tx_payload_limit_def c_consts boot_airtime_433 boot_airtime_868)

lemma session_replay_wf:
  "config_session env c \<Longrightarrow> replay_wf env (rc_mode (cf_radio c)) (cf_effective c) (cf_replay c)"
proof (induction rule: config_session.induct)
  case (boot r e)
  show ?case
    by (simp add: boot_state_def replay_wf_def config_apply_replay_reset_def config_apply_effective_def
        config_apply_effective_reset_def)
qed (auto intro: command_replay_wf)

lemma session_airtime:
  "config_session env c \<Longrightarrow> boot_airtime_ok env \<Longrightarrow> airtime_inv env c"
proof (induction rule: config_session.induct)
  case (boot r e)
  then show ?case
    by (simp add: boot_state_def airtime_inv_def boot_airtime_ok_def config_apply_effective_def
        config_apply_effective_reset_def)
next
  case (command c line d st c')
  then show ?case by (auto intro: command_airtime_inv)
next
  case (other c r)
  then show ?case by (simp add: airtime_inv_def)
qed

section \<open>Replaying the record\<close>

definition replay_calls :: "radio_mode \<Rightarrow> replay \<Rightarrow> drv_call list" where
  "replay_calls m rp = (if rp_mode rp = [] then [] else [Call_SwitchMode m]) @ map (param_call m) (rp_keys rp)"

lemma note_replay_new:
  "distinct (map fst (rp_keys rp @ kvs)) \<Longrightarrow> note_replay rp kvs = rp\<lparr>rp_keys := rp_keys rp @ kvs\<rparr>"
proof (induction kvs arbitrary: rp)
  case (Cons kv kvs)
  then show ?case
    by (cases kv) (simp add: config_apply_replay_note_def replay_note_keys_new)
qed simp

lemma note_replay_same:
  "distinct (map fst (rp_keys rp)) \<Longrightarrow> set kvs \<subseteq> set (rp_keys rp) \<Longrightarrow> note_replay rp kvs = rp"
proof (induction kvs)
  case (Cons kv kvs)
  have "map_of (rp_keys rp) (fst kv) = Some (snd kv)" using Cons.prems by simp
  then have "config_apply_replay_note (fst kv) (snd kv) rp = rp"
    using Cons.prems(1) by (simp add: config_apply_replay_note_def replay_note_keys_same)
  with Cons show ?case by simp
qed simp

lemma replay_valid:
  assumes "replay_wf env m e rp"
    and "cmd = config_parse_command (config_apply_replay_command rp)"
    and "rp_mode rp \<noteq> [] \<or> rp_keys rp \<noteq> []"
  shows "cmd = \<lparr>cc_is_set = True, cc_has_params = True, cc_text = config_apply_replay_command rp,
      cc_mode = rp_mode rp, cc_mode_count = (if rp_mode rp = [] then 0 else 1),
      cc_tokens = rp_keys rp, cc_malformed = []\<rparr>"
    and "command_target cmd RADIO_MODE_LORA = m"
    and "filter (applicable m) (radio_params cmd) = rp_keys rp"
    and "fst (config_validate_command (ce_limits env) cmd RADIO_MODE_LORA)"
proof -
  have modes: "rp_mode rp \<in> {[], ''FSK'', ''LORA''}"
    using assms(1) by (cases m) (auto simp: replay_wf_def split: if_splits)
  have ok: "\<forall>kv\<in>set (rp_keys rp). radio_value_ok (ce_limits env) m (fst kv) (snd kv) \<and> value_text (snd kv)"
    and dist: "distinct (map fst (rp_keys rp))" using assms(1) by (simp_all add: replay_wf_def)
  have "\<forall>kv\<in>set (rp_keys rp). key_text (fst kv) \<and> value_text (snd kv)"
    using ok by (auto simp: radio_value_ok_def known_key_text)
  from parse_replay_command [OF assms(3) modes this]
  show cmd: "cmd = \<lparr>cc_is_set = True, cc_has_params = True, cc_text = config_apply_replay_command rp,
      cc_mode = rp_mode rp, cc_mode_count = (if rp_mode rp = [] then 0 else 1),
      cc_tokens = rp_keys rp, cc_malformed = []\<rparr>" unfolding assms(2) .
  show target: "command_target cmd RADIO_MODE_LORA = m"
    using assms(1) by (cases m) (auto simp: cmd command_target_def replay_wf_def split: if_splits)
  show "filter (applicable m) (radio_params cmd) = rp_keys rp"
    using ok by (auto simp: cmd radio_params_def filter_id_conv radio_value_ok_def applicable_def)
  have "\<forall>i<length (rp_keys rp). token_rejection (ce_limits env) m ([] @ take i (rp_keys rp))
      (fst (rp_keys rp ! i)) (snd (rp_keys rp ! i)) = None"
  proof (intro allI impI)
    fix i assume i: "i < length (rp_keys rp)"
    obtain k v where kv: "rp_keys rp ! i = (k, v)" by force
    have acceptable: "radio_value_ok (ce_limits env) m k v" using ok nth_mem [OF i] kv by auto
    have "k \<notin> fst ` set (take i (rp_keys rp))"
    proof
      assume "k \<in> fst ` set (take i (rp_keys rp))"
      then obtain j where "j < i" "map fst (rp_keys rp) ! j = k"
        using i by (auto simp: in_set_conv_nth)
      moreover have "map fst (rp_keys rp) ! i = k" using i kv by simp
      ultimately show False using dist i by (metis distinct_conv_nth length_map nat_neq_iff order_less_trans)
    qed
    then have "\<not> list_ex (\<lambda>(k', _). k' = k) (take i (rp_keys rp))" by (force simp: list_ex_iff)
    with acceptable show "token_rejection (ce_limits env) m ([] @ take i (rp_keys rp))
      (fst (rp_keys rp ! i)) (snd (rp_keys rp ! i)) = None"
      by (cases m) (auto simp: kv token_rejection_def radio_value_ok_def list_ex_iff)
  qed
  from validate_tokens_accepts [OF this] show "fst (config_validate_command (ce_limits env) cmd RADIO_MODE_LORA)"
    using modes target by (auto simp: config_validate_command_def cmd Let_def command_target_def)
qed

section \<open>A sample session\<close>

definition obedient_driver :: driver where
  "obedient_driver = \<lparr>dv_status = (\<lambda>_. 0), dv_length = (\<lambda>_. 0), dv_data = (\<lambda>_. []), dv_float = (\<lambda>_. Fin 0),
     dv_rx_done = (\<lambda>_. False), dv_alert = (\<lambda>_. False)\<rparr>"

definition env_433 :: config_env where
  "env_433 = band_env RADIO_BAND_433 SX127X False 22"

definition fresh_state :: config_state where
  "fresh_state = boot_state (radio_controller_init RADIO_BAND_433 ''433'' False)
     (config_apply_effective_load_defaults rf_defaults_433)"

lemma env_433_fields [simp]:
  "ce_defaults env_433 = rf_defaults_433" "lim_family (ce_limits env_433) = SX127X"
  by (simp_all add: env_433_def band_env_def config_env_of_def daemon_band_resolve_def band_433_def)

lemma sf12_parse: "config_parse_command ''SET SF=12'' =
  \<lparr>cc_is_set = True, cc_has_params = True, cc_text = ''SET SF=12'', cc_mode = [], cc_mode_count = 0,
   cc_tokens = [(''SF'', ''12'')], cc_malformed = []\<rparr>"
  by code_simp

lemma sf12_int: "config_value_parse_int_exact ''12'' = Some 12"
  by (simp add: config_value_parse_int_exact_def config_value_trim_ascii_def strip_end_def c_isspace_def
      char_code_def c_strtol_def scan_integer_def take_sign_def is_digit_def digit_value_def digits_value_def
      config_value_only_trailing_space_def Let_def)

lemma sf12_token: "token_rejection cl RADIO_MODE_LORA [] ''SF'' ''12'' = None"
  by (simp add: token_rejection_def config_is_known_config_key_def config_is_lora_only_key_def
      config_is_fsk_only_key_def config_validate_lora_value_def parsed_ok_def sf12_int
      config_policy_lora_sf_valid_def)

lemma sf12_run:
  assumes "rc_mode (cf_radio c) = RADIO_MODE_LORA"
    and "config_apply_effective rf_defaults_433 (cf_effective c) = config_apply_effective_load_defaults rf_defaults_433"
  shows "fst (parse_and_apply_config_generic obedient_driver env_433 ''SET SF=12'' c) = CONFIG_APPLY_APPLIED"
    and "cf_replay (snd (parse_and_apply_config_generic obedient_driver env_433 ''SET SF=12'' c)) =
      config_apply_replay_note ''SF'' ''12'' (cf_replay c)"
proof -
  let ?e = "config_apply_effective_load_defaults rf_defaults_433"
  have merged: "merge_token RADIO_MODE_LORA ''SF'' ''12'' ?e = ?e"
    by (simp add: merge_token_def sf12_int parsed_or_def config_apply_effective_load_defaults_def
        rf_defaults_433_def)
  have air: "airtime_allowed (worst_case_airtime_ms SX127X RADIO_MODE_LORA ?e)"
    using band_env_airtime [of RADIO_BAND_433 SX127X False 22]
    by (simp add: boot_airtime_ok_def flip: env_433_def)
  have valid: "config_validate_command (ce_limits env_433)
      \<lparr>cc_is_set = True, cc_has_params = True, cc_text = ''SET SF=12'', cc_mode = [], cc_mode_count = 0,
       cc_tokens = [(''SF'', ''12'')], cc_malformed = []\<rparr> RADIO_MODE_LORA =
      (True, (config_validation_result_init RADIO_MODE_LORA)\<lparr>val_target_mode := RADIO_MODE_LORA\<rparr>)"
    by (simp add: config_validate_command_def Let_def sf12_token)
  have run: "parse_and_apply_config_generic obedient_driver env_433 ''SET SF=12'' c =
      apply_hardware obedient_driver env_433
        \<lparr>cc_is_set = True, cc_has_params = True, cc_text = ''SET SF=12'', cc_mode = [], cc_mode_count = 0,
         cc_tokens = [(''SF'', ''12'')], cc_malformed = []\<rparr> (c\<lparr>cf_effective := ?e\<rparr>)"
    using assms
    by (simp add: parse_and_apply_config_generic_def sf12_parse valid config_apply_airtime_ok_def Let_def
        merged_effective_def merged air)
  show "fst (parse_and_apply_config_generic obedient_driver env_433 ''SET SF=12'' c) = CONFIG_APPLY_APPLIED"
    and "cf_replay (snd (parse_and_apply_config_generic obedient_driver env_433 ''SET SF=12'' c)) =
      config_apply_replay_note ''SF'' ''12'' (cf_replay c)"
    unfolding run using assms(1)
    by (simp_all add: apply_hardware_def apply_mode_def Let_def drv_status_def obedient_driver_def
        RADIOLIB_ERR_NONE_def config_is_fsk_only_key_def note_applied_def)
qed

definition sf12_state :: config_state where
  "sf12_state = snd (parse_and_apply_config_generic obedient_driver env_433 ''SET SF=12'' fresh_state)"

lemma fresh_fields:
  "rc_mode (cf_radio fresh_state) = RADIO_MODE_LORA"
  "config_apply_effective rf_defaults_433 (cf_effective fresh_state) =
     config_apply_effective_load_defaults rf_defaults_433"
  "cf_replay fresh_state = config_apply_replay_reset"
  by (simp_all add: fresh_state_def boot_state_def config_apply_effective_def config_apply_effective_reset_def)

lemma sf12_session: "config_session env_433 sf12_state"
proof -
  obtain st c' where run: "parse_and_apply_config_generic obedient_driver env_433 ''SET SF=12'' fresh_state = (st, c')"
    by force
  have "st = CONFIG_APPLY_APPLIED" using sf12_run(1) [OF fresh_fields(1,2)] run by simp
  moreover have "config_session env_433 fresh_state" unfolding fresh_state_def by (rule config_session.boot)
  moreover have "stream_line ''SET SF=12''" by (simp add: stream_line_def)
  ultimately have "config_session env_433 c'" using run by (auto intro: config_session.command)
  then show ?thesis using run by (simp add: sf12_state_def)
qed

lemma sf12_record: "cf_replay sf12_state = \<lparr>rp_mode = [], rp_keys = [(''SF'', ''12'')]\<rparr>"
  unfolding sf12_state_def sf12_run(2) [OF fresh_fields(1,2)]
  by (simp add: fresh_fields config_apply_replay_reset_def config_apply_replay_note_def)

section \<open>Properties of a session\<close>

text \<open>
  C8: Only values that passed the validation reach the chip: every driver call a CONFIG command
  makes is a mode switch or the setter of a known key of the target mode with a value its policy
  accepts. In particular POWER is a number the chip family allows (20 dBm on an SX127x only with
  the high-power permission) and FREQ lies inside the band.
\<close>

theorem driver_sees_only_checked_values:
  assumes "parse_and_apply_config_generic d env cmd c = (st, c')"
  shows "\<exists>new. rc_calls (cf_radio c') = new @ rc_calls (cf_radio c) \<and>
    (\<forall>call\<in>set new. call_checked (ce_limits env) call \<and>
      (\<forall>val. call = Call_LoraParam ''POWER'' val \<or> call = Call_FskParam ''POWER'' val \<longrightarrow>
        (\<exists>p. config_value_parse_int_exact val = Some p \<and>
          (if lim_family (ce_limits env) = SX127X
           then 2 \<le> p \<and> p \<le> 17 \<or> lim_high_power (ce_limits env) \<and> p = 20
           else 0 \<le> p \<and> p \<le> lim_power_max (ce_limits env)))) \<and>
      (\<forall>val. call = Call_LoraParam ''FREQ'' val \<or> call = Call_FskParam ''FREQ'' val \<longrightarrow>
        (\<exists>f. config_value_parse_float_exact val = Some f \<and>
          c_le (lim_freq_min (ce_limits env)) f \<and> c_le f (lim_freq_max (ce_limits env)))))"
proof -
  have power: "\<exists>p. config_value_parse_int_exact val = Some p \<and>
      (if lim_family cl = SX127X then 2 \<le> p \<and> p \<le> 17 \<or> lim_high_power cl \<and> p = 20
       else 0 \<le> p \<and> p \<le> lim_power_max cl)" if "radio_value_ok cl m ''POWER'' val" for cl m val
    using radio_value_ok_power [OF that] by (auto simp: config_policy_power_valid_family_def split: if_splits)
  have freq: "\<exists>f. config_value_parse_float_exact val = Some f \<and>
      c_le (lim_freq_min cl) f \<and> c_le f (lim_freq_max cl)" if "radio_value_ok cl m ''FREQ'' val" for cl m val
    using radio_value_ok_freq [OF that]
    by (auto simp: config_policy_freq_valid_band_def c_ge_def split: if_splits)
  obtain new where new: "rc_calls (cf_radio c') = new @ rc_calls (cf_radio c)"
      "\<forall>call\<in>set new. call_checked (ce_limits env) call"
    using command_calls_checked [OF assms] by blast
  show ?thesis
  proof (intro exI [of _ new] conjI ballI allI impI new(1))
    fix call val assume call: "call \<in> set new"
    then show checked: "call_checked (ce_limits env) call" using new(2) by blast
    show "\<exists>p. config_value_parse_int_exact val = Some p \<and>
        (if lim_family (ce_limits env) = SX127X then 2 \<le> p \<and> p \<le> 17 \<or> lim_high_power (ce_limits env) \<and> p = 20
         else 0 \<le> p \<and> p \<le> lim_power_max (ce_limits env))"
      if "call = Call_LoraParam ''POWER'' val \<or> call = Call_FskParam ''POWER'' val"
    proof -
      from that checked have "\<exists>m. radio_value_ok (ce_limits env) m ''POWER'' val" by auto
      then show ?thesis using power by blast
    qed
    show "\<exists>f. config_value_parse_float_exact val = Some f \<and>
        c_le (lim_freq_min (ce_limits env)) f \<and> c_le f (lim_freq_max (ce_limits env))"
      if "call = Call_LoraParam ''FREQ'' val \<or> call = Call_FskParam ''FREQ'' val"
    proof -
      from that checked have "\<exists>m. radio_value_ok (ce_limits env) m ''FREQ'' val" by auto
      then show ?thesis using freq by blast
    qed
  qed
qed

theorem driver_sees_only_checked_values_witness:
  "\<exists>new. rc_calls (cf_radio sf12_state) = new @ rc_calls (cf_radio fresh_state) \<and>
    (\<forall>call\<in>set new. call_checked (ce_limits env_433) call)"
proof -
  have "parse_and_apply_config_generic obedient_driver env_433 ''SET SF=12'' fresh_state =
      (CONFIG_APPLY_APPLIED, sf12_state)"
    using sf12_run(1) [OF fresh_fields(1,2)] by (simp add: sf12_state_def prod_eq_iff)
  from driver_sees_only_checked_values [OF this] show ?thesis by blast
qed

text \<open>
  C10: The airtime limit holds over a whole session: on either band, with either chip, after any
  sequence of CONFIG commands of which none failed in the driver, the largest packet the daemon
  can send takes at most 20 seconds with the configuration in effect. (A command that fails
  half-way closes the radio.)
\<close>

theorem session_airtime_limited:
  assumes "config_session (band_env band family high_power power_max) c"
  shows "\<not> c_less (Fin 20000) (worst_case_airtime_ms family (rc_mode (cf_radio c))
      (config_apply_effective (ce_defaults (band_env band family high_power power_max)) (cf_effective c)))"
  using session_airtime [OF assms band_env_airtime]
  by (simp add: airtime_inv_def airtime_allowed_def CONFIG_POLICY_MAX_AIRTIME_MS_def band_env_def config_env_of_def)

theorem session_airtime_limited_witness:
  "\<not> c_less (Fin 20000) (worst_case_airtime_ms SX127X (rc_mode (cf_radio sf12_state))
      (config_apply_effective rf_defaults_433 (cf_effective sf12_state)))"
  using session_airtime_limited [OF sf12_session [unfolded env_433_def]] env_433_fields(1)
  by (simp add: env_433_def)

text \<open>
  C24: The replay after a re-plug: take any state a session can reach and a radio that came back
  with the boot defaults (LoRa mode, shadow reset, record kept). The recorded command is accepted
  by the same apply path; when the driver takes its calls, the mode, the effective configuration
  and the record are exactly what they were, and the driver got the mode switch and then every
  recorded parameter with its last value.
\<close>

theorem replay_rebuilds_configuration:
  assumes "config_session env c" and "boot_airtime_ok env"
    and "rp_mode (cf_replay c) \<noteq> [] \<or> rp_keys (cf_replay c) \<noteq> []"
    and "c0 = \<lparr>cf_radio = r\<lparr>rc_mode := RADIO_MODE_LORA\<rparr>,
           cf_effective = config_apply_effective_reset e, cf_replay = cf_replay c\<rparr>"
    and "parse_and_apply_config_generic d env (config_apply_replay_command (cf_replay c)) c0 = (st, c')"
    and "st \<noteq> CONFIG_APPLY_HW_ERROR"
  shows "st = CONFIG_APPLY_APPLIED \<and> rc_mode (cf_radio c') = rc_mode (cf_radio c) \<and>
    config_apply_effective (ce_defaults env) (cf_effective c') =
      config_apply_effective (ce_defaults env) (cf_effective c) \<and>
    cf_replay c' = cf_replay c \<and>
    rc_calls (cf_radio c') = rev (replay_calls (rc_mode (cf_radio c)) (cf_replay c)) @ rc_calls r"
proof -
  let ?m = "rc_mode (cf_radio c)" and ?rp = "cf_replay c" and ?d = "ce_defaults env"
  define p where "p = config_parse_command (config_apply_replay_command ?rp)"
  have wf: "replay_wf env ?m (cf_effective c) ?rp" using session_replay_wf [OF assms(1)] .
  note v = replay_valid [OF wf p_def assms(3)]
  have p: "cc_is_set p" "cc_has_params p" "cc_mode p = rp_mode ?rp" by (simp_all add: v(1))
  have mode0: "rc_mode (cf_radio c0) = RADIO_MODE_LORA" by (simp add: assms(4))
  have eff0: "config_apply_effective ?d (cf_effective c0) = config_apply_effective_load_defaults ?d"
    by (simp add: assms(4) config_apply_effective_def config_apply_effective_reset_def)
  have shadow: "config_apply_effective ?d (cf_effective c) =
      note_effective env ?m (config_apply_effective_load_defaults ?d) (rp_keys ?rp)"
    and dist: "distinct (map fst (rp_keys ?rp))"
    and boot_mode: "rp_mode ?rp = [] \<Longrightarrow> ?m = RADIO_MODE_LORA"
    using wf by (simp_all add: replay_wf_def)
  have set: "ef_set (config_apply_effective_load_defaults ?d)"
    by (simp add: config_apply_effective_load_defaults_def)
  have params: "filter (applicable ?m) (filter (\<lambda>(key, _). key \<noteq> ''GETRSSI'') (cc_tokens p)) = rp_keys ?rp"
    using v(3) by (simp add: radio_params_def)
  have "merged_effective ?d p ?m (config_apply_effective_load_defaults ?d) =
      foldl (\<lambda>x (key, val). merge_token ?m key val x) (config_apply_effective_load_defaults ?d) (cc_tokens p)"
    by (simp add: merged_effective_def)
  with merged_agrees [OF air_agree_refl set, of ?m "cc_tokens p" env, unfolded params]
  have "air_agree ?m (merged_effective ?d p ?m (config_apply_effective_load_defaults ?d))
      (config_apply_effective ?d (cf_effective c))"
    by (simp only: shadow)
  then have "airtime_allowed (worst_case_airtime_ms (lim_family (ce_limits env)) ?m
      (merged_effective ?d p ?m (config_apply_effective_load_defaults ?d)))"
    using session_airtime [OF assms(1,2)] by (simp only: airtime_inv_def air_agree_airtime)
  then have acc: "command_accepted env p c0"
    using p(1,2) v(4) by (simp add: command_accepted_def mode0 v(2) eff0 Let_def)
  have target: "command_target p (rc_mode (cf_radio c0)) = ?m" by (simp add: mode0 v(2))
  show ?thesis
  proof (cases rule: apply_command_cases [OF assms(5) p_def refl refl refl,
        unfolded target v(3) eff0, case_names rejected switch_failed ran])
    case rejected
    with acc show ?thesis by simp
  next
    case switch_failed
    with assms(6) show ?thesis by simp
  next
    case (ran n g)
    have n: "n = length (rp_keys ?rp)" using ran(2,3) assms(6) by (auto split: if_splits)
    have "cf_replay c' = ?rp"
      using ran(6) n dist
      by (auto simp: p(3) assms(4) note_replay_same note_replay_new config_apply_replay_start_mode_def)
    moreover have "rc_mode (cf_radio c') = ?m"
      using ran(4) boot_mode by (simp add: p(3) mode0)
    moreover have "rc_calls (cf_radio c') = rev (replay_calls ?m ?rp) @ rc_calls r"
      using ran(4) n by (simp add: p(3) assms(4) replay_calls_def)
    moreover have "config_apply_effective ?d (cf_effective c') = config_apply_effective ?d (cf_effective c)"
      using ran(5) n note_effective_set [OF set] by (simp add: p(3) shadow effective_set)
    ultimately show ?thesis using ran(3) n assms(3) by (auto simp: p(3))
  qed
qed

theorem replay_rebuilds_configuration_witness:
  "\<exists>c'. parse_and_apply_config_generic obedient_driver env_433 ''SET SF=12''
      (fresh_state\<lparr>cf_replay := cf_replay sf12_state\<rparr>) = (CONFIG_APPLY_APPLIED, c') \<and>
    cf_replay c' = \<lparr>rp_mode = [], rp_keys = [(''SF'', ''12'')]\<rparr> \<and>
    rc_calls (cf_radio c') = [Call_LoraParam ''SF'' ''12'']"
proof -
  let ?c0 = "fresh_state\<lparr>cf_replay := cf_replay sf12_state\<rparr>"
  have c0: "?c0 = \<lparr>cf_radio = (radio_controller_init RADIO_BAND_433 ''433'' False)\<lparr>rc_mode := RADIO_MODE_LORA\<rparr>,
      cf_effective = config_apply_effective_reset (config_apply_effective_load_defaults rf_defaults_433),
      cf_replay = cf_replay sf12_state\<rparr>"
    by (simp add: fresh_state_def boot_state_def)
  obtain st c' where run: "parse_and_apply_config_generic obedient_driver env_433 ''SET SF=12'' ?c0 = (st, c')"
    by force
  have applied: "st = CONFIG_APPLY_APPLIED" using sf12_run(1) [of ?c0] fresh_fields(1,2) run by simp
  have cmd: "config_apply_replay_command (cf_replay sf12_state) = ''SET SF=12''"
    by (simp add: sf12_record config_apply_replay_command_def)
  have mode: "rc_mode (cf_radio sf12_state) = RADIO_MODE_LORA"
    using session_replay_wf [OF sf12_session] by (simp add: replay_wf_def sf12_record)
  have "boot_airtime_ok env_433" by (simp add: env_433_def band_env_airtime)
  from replay_rebuilds_configuration [OF sf12_session this _ c0, of obedient_driver st c'] run applied
  have "cf_replay c' = cf_replay sf12_state"
    "rc_calls (cf_radio c') = rev (replay_calls RADIO_MODE_LORA (cf_replay sf12_state)) @
       rc_calls (radio_controller_init RADIO_BAND_433 ''433'' False)"
    by (simp_all add: sf12_record cmd mode config_apply_replay_command_def)
  then show ?thesis
    using run applied
    by (simp add: sf12_record replay_calls_def param_call_def radio_controller_init_def)
qed

end
