(* ===== verification/Config_Status.thy ===== *)
theory Config_Status
  imports Config_Apply Radio_Cad Tx_Async
begin

text \<open>
  The CONFIG commands the daemon answers itself, \<open>config_status.cpp\<close>: recognizing the queries and
  the runtime setters, and the text of the STATUS, CHANNEL and STATS replies. A \<open>const char *\<close> is
  a string without NUL; the output pointers and the controller are never NULL in the daemon. A
  matcher returns the value it stores, \<open>None\<close> for its result 0.
\<close>

section \<open>Recognizing commands\<close>

definition is_blank :: "char \<Rightarrow> bool" where
  "is_blank c \<longleftrightarrow> c = CHR '' '' \<or> c = CHR 0x09 \<or> c = CHR 0x0D \<or> c = CHR 0x0A"

definition config_status_trim_copy :: "nat \<Rightarrow> string \<Rightarrow> string" where
  "config_status_trim_copy dst_size src =
     (let s = strip_end is_blank (dropWhile is_blank src) in
      if dst_size \<le> length s then take (dst_size - 1) s else s)"

definition config_status_uppercase :: "string \<Rightarrow> string" where
  "config_status_uppercase s = map c_toupper s"

text \<open>The local buffer \<open>char cmd[64]\<close> of the matchers.\<close>

definition command_text :: "string \<Rightarrow> string" where
  "command_text line = config_status_uppercase (config_status_trim_copy 64 line)"

definition config_status_command_equals :: "string \<Rightarrow> string \<Rightarrow> bool" where
  "config_status_command_equals line expected \<longleftrightarrow> command_text line = expected"

definition config_status_is_get_status :: "string \<Rightarrow> bool" where
  "config_status_is_get_status line = config_status_command_equals line ''GET STATUS''"

definition config_status_is_get_stats :: "string \<Rightarrow> bool" where
  "config_status_is_get_stats line = config_status_command_equals line ''GET STATS''"

definition config_status_is_get_channel :: "string \<Rightarrow> bool" where
  "config_status_is_get_channel line = config_status_command_equals line ''GET CHANNEL''"

definition config_status_is_get_channel_noscan :: "string \<Rightarrow> bool" where
  "config_status_is_get_channel_noscan line = config_status_command_equals line ''GET CHANNEL NOSCAN''"

definition config_status_is_set_txresult :: "string \<Rightarrow> bool option" where
  "config_status_is_set_txresult line =
     (let cmd = command_text line in
      if cmd = ''SET TXRESULT=1'' then Some True
      else if cmd = ''SET TXRESULT=0'' then Some False else None)"

definition config_status_is_set_txqueue :: "string \<Rightarrow> bool option" where
  "config_status_is_set_txqueue line =
     (let cmd = command_text line in
      if cmd = ''SET TXQUEUE=1'' then Some True
      else if cmd = ''SET TXQUEUE=0'' then Some False else None)"

definition config_status_is_set_cadmonitor :: "string \<Rightarrow> bool option" where
  "config_status_is_set_cadmonitor line =
     (let cmd = command_text line in
      if cmd = ''SET CADMONITOR=1'' then Some True
      else if cmd = ''SET CADMONITOR=0'' then Some False else None)"

definition config_status_is_set_txmode :: "string \<Rightarrow> radio_tx_mode option" where
  "config_status_is_set_txmode line =
     (let cmd = command_text line in
      if cmd = ''SET TXMODE=MANAGED'' then Some RADIO_TX_MODE_MANAGED
      else if cmd = ''SET TXMODE=DIRECT'' then Some RADIO_TX_MODE_DIRECT else None)"

definition config_status_parse_set_uval :: "string \<Rightarrow> string \<Rightarrow> nat \<Rightarrow> nat \<Rightarrow> nat option" where
  "config_status_parse_set_uval cmd prefix lo hi =
     (if cmd = [] \<or> prefix = [] then None
      else
        (let plen = length prefix in
         if take plen cmd \<noteq> prefix then None
         else if length cmd = plen then None
         else
           (let (v, rest, _) = c_strtoul 10 (drop plen cmd)
            in if rest \<noteq> [] \<or> v < lo \<or> hi < v then None else Some v)))"

definition config_status_parse_set_ival :: "string \<Rightarrow> string \<Rightarrow> int \<Rightarrow> int \<Rightarrow> int option" where
  "config_status_parse_set_ival cmd prefix lo hi =
     (if cmd = [] \<or> prefix = [] then None
      else
        (let plen = length prefix in
         if take plen cmd \<noteq> prefix then None
         else if length cmd = plen then None
         else
           (let (v, rest, _) = c_strtol 10 (drop plen cmd)
            in if rest \<noteq> [] \<or> v < lo \<or> hi < v then None else Some v)))"

definition config_status_is_set_cadrssi :: "string \<Rightarrow> int option" where
  "config_status_is_set_cadrssi line = config_status_parse_set_ival (command_text line) ''SET CADRSSI='' (- 130) 0"

definition config_status_is_set_cadwait :: "string \<Rightarrow> nat option" where
  "config_status_is_set_cadwait line = config_status_parse_set_uval (command_text line) ''SET CADWAIT='' 50 5000"

definition config_status_is_set_cadidle :: "string \<Rightarrow> nat option" where
  "config_status_is_set_cadidle line = config_status_parse_set_uval (command_text line) ''SET CADIDLE='' 0 2000"

definition config_status_is_set_cadpoll :: "string \<Rightarrow> nat option" where
  "config_status_is_set_cadpoll line = config_status_parse_set_uval (command_text line) ''SET CADPOLL='' 10 500"

definition config_status_is_set_cadtxaftertimeout :: "string \<Rightarrow> bool option" where
  "config_status_is_set_cadtxaftertimeout line =
     (let cmd = command_text line in
      if cmd = ''SET CADTXAFTERTIMEOUT=1'' then Some True
      else if cmd = ''SET CADTXAFTERTIMEOUT=0'' then Some False else None)"

definition reserved_setters :: "string list" where
  "reserved_setters = [''TXRESULT'', ''TXQUEUE'', ''TXMODE'', ''CADRSSI'', ''CADMONITOR'', ''CADWAIT'',
     ''CADIDLE'', ''CADPOLL'', ''CADTXAFTERTIMEOUT'']"

definition config_status_classify_reserved_setter :: "string \<Rightarrow> nat" where
  "config_status_classify_reserved_setter line =
     (if take 4 line \<noteq> ''SET '' then 0
      else
        (let key = drop 4 line;
             key_len = length (takeWhile (\<lambda>c. c \<noteq> CHR ''='' \<and> \<not> is_blank c) key)
         in if take key_len key \<in> set reserved_setters then
              (case drop key_len key of
                 e # v # _ \<Rightarrow> if e \<noteq> CHR ''='' \<or> v = CHR '' '' then 2 else 1
               | _ \<Rightarrow> 2)
            else 0))"

section \<open>The STATUS line\<close>

text \<open>What the status and the dispatcher read of the transmit worker and the completion queue.\<close>

record txq_view =
  tv_pending :: nat
  tv_job_active :: bool
  tv_dropped :: nat
  tv_rejected :: nat
  tv_stale :: nat
  tv_result_dropped :: nat
  tv_processed :: nat
  tv_last :: "tx_job_result option"

definition txq_view_of :: "'w async \<Rightarrow> completion_queue \<Rightarrow> nat \<Rightarrow> txq_view" where
  "txq_view_of a q stale =
     \<lparr>tv_pending = daemon_tx_async_worker_pending a, tv_job_active = as_job_active a,
      tv_dropped = daemon_tx_worker_dropped (as_worker a), tv_rejected = wk_rejected (as_worker a),
      tv_stale = stale, tv_result_dropped = cq_dropped q, tv_processed = wk_processed (as_worker a),
      tv_last = wk_last_result (as_worker a)\<rparr>"

definition config_status_txq_last_name :: "txq_view \<Rightarrow> string" where
  "config_status_txq_last_name v =
     (case tv_last v of None \<Rightarrow> ''NONE'' | Some r \<Rightarrow> tx_result_name (res_tx_result r))"

definition config_status_txq_last_seq :: "txq_view \<Rightarrow> nat" where
  "config_status_txq_last_seq v = (case tv_last v of None \<Rightarrow> 0 | Some r \<Rightarrow> unat (res_seq r))"

text \<open>Dropping the zeros behind the decimal point, at least one place stays.\<close>

function strip_zeros :: "string \<Rightarrow> string" where
  "strip_zeros out =
     (if 2 < length out \<and> last out = CHR ''0'' \<and> out ! (length out - 2) \<noteq> CHR ''.''
      then strip_zeros (butlast out) else out)"
  by pat_completeness auto
termination by (relation "measure length") auto

declare strip_zeros.simps [simp del]

definition config_status_applied :: "replay \<Rightarrow> string \<Rightarrow> bool \<Rightarrow> nat \<Rightarrow> string" where
  "config_status_applied rp key decimal out_size =
     (case config_apply_replay_value key rp of
        None \<Rightarrow> snprintf_text out_size ''-''
      | Some v \<Rightarrow>
          if v = [] then snprintf_text out_size ''-''
          else
            (let (text, rest, ok) =
               (if decimal then
                  (let (x, rest, erange) = c_strtod v in
                   (strip_zeros (snprintf_text out_size (c_fixed 6 x)), rest,
                    rest \<noteq> v \<and> \<not> erange \<and> c_isfinite x))
                else
                  (let (l, rest, erange) = c_strtol 10 v in
                   (snprintf_text out_size (int_dec l), rest, rest \<noteq> v \<and> \<not> erange)))
             in if \<not> ok then snprintf_text out_size ''?''
                else if dropWhile c_isspace rest \<noteq> [] then snprintf_text out_size ''?''
                else text))"

fun daemon_chip_family_name :: "chip_family \<Rightarrow> string" where
  "daemon_chip_family_name SX127X = ''SX127x''"
| "daemon_chip_family_name SX1262 = ''SX1262''"

definition bit_text :: "bool \<Rightarrow> string" where
  "bit_text b = (if b then ''1'' else ''0'')"

definition CONFIG_STATUS_LINE_MAX :: nat where
  [c_consts]: "CONFIG_STATUS_LINE_MAX = 1024"

definition status_text :: "txq_view \<Rightarrow> replay \<Rightarrow> radio \<Rightarrow> string" where
  "status_text v rp r =
     ''STATUS RADIO='' @ radio_health_name (rc_health r) @
     '' TX='' @ bit_text (rc_tx_busy r) @ '' CAD='' @ bit_text (rc_cad_broadcast_active r) @
     '' GETRSSI='' @ bit_text (rc_getrssi_active r) @ '' TXRESULT='' @ bit_text (rc_tx_result_active r) @
     '' TXMODE='' @ radio_tx_mode_name (rc_tx_mode r) @ '' TXQUEUE='' @ bit_text (rc_tx_queue_active r) @
     '' TXQ='' @ nat_dec (tv_pending v) @ '' TXQDROP='' @ nat_dec (tv_dropped v) @
     '' TXQREJECT='' @ nat_dec (tv_rejected v) @ '' TXQSTALE='' @ nat_dec (tv_stale v) @
     '' TXQRESULTDROP='' @ nat_dec (tv_result_dropped v) @ '' TXQDONE='' @ nat_dec (tv_processed v) @
     '' TXQLAST='' @ config_status_txq_last_name v @ '' TXQSEQ='' @ nat_dec (config_status_txq_last_seq v) @
     '' CADWAIT='' @ nat_dec (unat (rc_cad_wait_ms r)) @ '' CADIDLE='' @ nat_dec (unat (rc_cad_idle_ms r)) @
     '' CADPOLL='' @ nat_dec (unat (rc_cad_poll_ms r)) @
     '' CADTXAFTERTIMEOUT='' @ bit_text (rc_cad_after_timeout r) @
     '' CADMONITOR='' @ bit_text (rc_cad_monitor_active r) @
     '' CADRSSI='' @ c_fixed 0 (rc_cad_threshold r) @
     '' RXREADY='' @ bit_text (radio_controller_ready r \<and> \<not> rc_rearm_pending r) @
     '' HIGHPOWER='' @ bit_text (rc_high_power r) @
     '' CHIPFAMILY='' @ daemon_chip_family_name (rc_chip_family r) @
     '' OCP='' @ int_dec (rc_ocp_ma r) @
     '' USBWAIT='' @ (if rc_usb_wait_port r \<noteq> [] then rc_usb_wait_port r else ''-'') @
     '' BOUND='' @ (if radio_controller_ready r \<and> rc_bound r \<noteq> [] then rc_bound r else ''-'') @
     '' ID='' @ (case rc_instance_id r of None \<Rightarrow> ''-'' | Some ident \<Rightarrow> ident) @
     '' FREQ='' @ config_status_applied rp ''FREQ'' True 32 @
     '' SF='' @ config_status_applied rp ''SF'' False 24 @
     '' POWER='' @ config_status_applied rp ''POWER'' False 24 @ newline"

definition config_status_format :: "nat \<Rightarrow> txq_view \<Rightarrow> replay \<Rightarrow> radio \<Rightarrow> string" where
  "config_status_format buf_size v rp r = snprintf_text buf_size (status_text v rp r)"

section \<open>The CHANNEL line\<close>

fun config_status_cad_state_name :: "cad_probe_status \<Rightarrow> string" where
  "config_status_cad_state_name RADIO_CAD_PROBE_FREE = ''FREE''"
| "config_status_cad_state_name RADIO_CAD_PROBE_BUSY = ''BUSY''"
| "config_status_cad_state_name RADIO_CAD_PROBE_UNAVAILABLE = ''UNAVAILABLE''"

definition config_status_live_rssi_dbm :: "driver \<Rightarrow> bool \<Rightarrow> bool \<Rightarrow> radio \<Rightarrow> c_float \<times> radio" where
  "config_status_live_rssi_dbm d can_lock tx_race r =
     (if \<not> rc_driver r \<or> rc_tx_busy r then (Fin (- 200), r)
      else
        (let r1 = tx_race_step tx_race r in
         if \<not> can_lock \<or> rc_tx_busy r1 then (Fin (- 200), r1)
         else drv_float d Call_ReadLiveRssi r1))"

definition channel_text ::
  "radio_health \<Rightarrow> bool \<Rightarrow> bool \<Rightarrow> string \<Rightarrow> c_float \<Rightarrow> c_float \<Rightarrow> radio_mode \<Rightarrow> radio_tx_mode \<Rightarrow> string" where
  "channel_text health busy scanned state rssi live mode tx_mode =
     ''CHANNEL RADIO='' @ radio_health_name health @ '' BUSY='' @ bit_text busy @
     '' CAD='' @ bit_text scanned @ '' CADSCAN='' @ bit_text scanned @ '' CADSTATE='' @ state @
     '' RSSI='' @ c_fixed 2 rssi @ '' PACKETRSSI='' @ c_fixed 2 rssi @ '' LIVERSSI='' @ c_fixed 2 live @
     '' MODE='' @ radio_mode_name mode @ '' TXMODE='' @ radio_tx_mode_name tx_mode @ newline"

definition config_status_format_channel_snapshot :: "nat \<Rightarrow> bool \<Rightarrow> c_float \<Rightarrow> radio \<Rightarrow> string" where
  "config_status_format_channel_snapshot buf_size pending live_rssi r =
     snprintf_text buf_size
       (channel_text (rc_health r) (rc_tx_busy r \<or> c_ge live_rssi (rc_cad_threshold r)) False
          (if pending then ''PENDING'' else ''NOTSCANNED'') live_rssi live_rssi (rc_mode r) (rc_tx_mode r))"

text \<open>\<open>lk1\<close>, \<open>race1\<close> belong to the RSSI read, \<open>lk2\<close>, \<open>race2\<close> to the probe.\<close>

definition config_status_format_channel_passive ::
  "nat \<Rightarrow> driver \<Rightarrow> bool \<Rightarrow> bool \<Rightarrow> radio \<Rightarrow> string \<times> radio" where
  "config_status_format_channel_passive buf_size d lk1 race1 r =
     (let pending = rc_received r;
          (live_rssi, r1) = config_status_live_rssi_dbm d lk1 race1 r
      in (config_status_format_channel_snapshot buf_size pending live_rssi r1, r1))"

definition config_status_format_channel ::
  "nat \<Rightarrow> scan_codes \<Rightarrow> driver \<Rightarrow> bool \<Rightarrow> bool \<Rightarrow> bool \<Rightarrow> bool \<Rightarrow> radio \<Rightarrow> string \<times> radio" where
  "config_status_format_channel buf_size sc d lk1 race1 lk2 race2 r =
     (if rc_received r then
        (let (live_rssi, r1) = config_status_live_rssi_dbm d lk1 race1 r
         in (config_status_format_channel_snapshot buf_size True live_rssi r1, r1))
      else
        (let tx_busy = rc_tx_busy r;
             (live_rssi, r1) = config_status_live_rssi_dbm d lk1 race1 r;
             (probe, r2) = radio_cad_try_probe sc d lk2 race2 r1
         in (snprintf_text buf_size
               (channel_text (rc_health r2) (tx_busy \<or> cp_status probe = RADIO_CAD_PROBE_BUSY)
                  (cp_scan_ran probe) (config_status_cad_state_name (cp_status probe)) (cp_rssi probe)
                  live_rssi (rc_mode r2) (rc_tx_mode r2)), r2)))"

definition config_status_format_stats :: "nat \<Rightarrow> int \<Rightarrow> int \<Rightarrow> radio \<Rightarrow> string" where
  "config_status_format_stats buf_size start_ms now_ms r =
     daemon_stats_format_response buf_size (daemon_stats_uptime_seconds start_ms now_ms) (rc_health r)
       (Some (rc_stats r))"

section \<open>Numbers that are read differently\<close>

lemmas cadwait_eval = config_status_is_set_cadwait_def command_text_def config_status_trim_copy_def
  strip_end_def is_blank_def config_status_parse_set_uval_def config_status_uppercase_def c_toupper_def
  char_code_def c_strtoul_def scan_integer_def c_isspace_def take_sign_def is_digit_def digit_value_def
  digits_value_def Let_def

text \<open>
  Two out-of-range values that \<open>SET CADWAIT=\<close> (50 to 5000 ms) accepts as 100 ms: a number that
  \<open>strtoul\<close> wraps around because of its minus sign, and the number 10099 behind so many zeros
  that the matcher's buffer of 64 characters cuts its last two digits off.
\<close>

lemma cadwait_number_misread:
  "config_status_is_set_cadwait ''SET CADWAIT=-18446744073709551516'' = Some 100 \<and>
   config_status_is_set_cadwait (''SET CADWAIT='' @ replicate 48 (CHR ''0'') @ ''10099'') = Some 100"
proof
  show "config_status_is_set_cadwait ''SET CADWAIT=-18446744073709551516'' = Some 100"
    by (simp add: cadwait_eval)
  have "replicate 48 (CHR ''0'') = ''000000000000000000000000000000000000000000000000''"
    by (simp add: numeral_eq_Suc)
  then show "config_status_is_set_cadwait (''SET CADWAIT='' @ replicate 48 (CHR ''0'') @ ''10099'') = Some 100"
    by (simp add: cadwait_eval)
qed

end
