(* ===== verification/Config_Dispatch.thy ===== *)
theory Config_Dispatch
  imports Config_Replay Config_Status Channel
begin

text \<open>
  The CONFIG socket, \<open>config_dispatch.cpp\<close> and \<open>daemon_config_runtime.cpp\<close>: one line of a client is
  answered by a query, a runtime setter or the apply pipeline, and the answer is the last thing
  the line does. The controller is never NULL in the daemon and the apply callback is
  \<open>config_apply_command\<close>.

  What the main thread cannot control is indexed by a running line number: the counters of the
  transmit worker when it looks, the outcome of the two \<open>try_to_lock\<close> attempts of a CHANNEL
  query with a transmission starting in between, and the clock. \<open>tv_pending\<close> and \<open>tv_job_active\<close>
  are read one after the other and may belong to different moments.
\<close>

record conf_env =
  de_driver :: driver
  de_scan :: scan_codes
  de_config :: config_env
  de_view :: "nat \<Rightarrow> txq_view"
  de_rssi_lock :: "nat \<Rightarrow> bool \<times> bool"
  de_probe_lock :: "nat \<Rightarrow> bool \<times> bool"
  de_start_ms :: int
  de_now_ms :: "nat \<Rightarrow> int"

definition on_radio :: "(radio \<Rightarrow> radio) \<Rightarrow> config_state \<Rightarrow> config_state" where
  "on_radio f c = c\<lparr>cf_radio := f (cf_radio c)\<rparr>"

definition reply_line :: "string \<Rightarrow> string" where
  "reply_line s = s @ newline"

section \<open>Queries\<close>

definition config_dispatch_query :: "conf_env \<Rightarrow> nat \<Rightarrow> string \<Rightarrow> config_state \<Rightarrow> (string \<times> config_state) option" where
  "config_dispatch_query env n upper c =
     (let r = cf_radio c; d = de_driver env in
      if config_status_is_get_status upper then
        Some (config_status_format CONFIG_STATUS_LINE_MAX (de_view env n) (cf_replay c) r, c)
      else if config_status_is_get_stats upper then
        Some (config_status_format_stats 384 (de_start_ms env) (de_now_ms env n) r, c)
      else if config_status_is_get_channel_noscan upper then
        (let (lk, race) = de_rssi_lock env n;
             (text, r1) = config_status_format_channel_passive 192 d lk race r
         in Some (text, c\<lparr>cf_radio := r1\<rparr>))
      else if config_status_is_get_channel upper then
        (let (lk, race) = de_rssi_lock env n; (lk2, race2) = de_probe_lock env n;
             (text, r1) = config_status_format_channel 192 (de_scan env) d lk race lk2 race2 r
         in Some (text, c\<lparr>cf_radio := r1\<rparr>))
      else None)"

section \<open>Runtime setters\<close>

definition txqueue_setter :: "txq_view \<Rightarrow> bool \<Rightarrow> config_state \<Rightarrow> string \<times> config_state" where
  "txqueue_setter v enabled c =
     (if \<not> enabled \<and> (0 < tv_pending v \<or> tv_job_active v) then (reply_line ''ERR BUSY'', c)
      else (reply_line ''OK'', on_radio (\<lambda>r. r\<lparr>rc_tx_queue_active := enabled\<rparr>) c))"

definition cadmonitor_setter :: "bool \<Rightarrow> radio \<Rightarrow> radio" where
  "cadmonitor_setter enabled r =
     (let r1 = r\<lparr>rc_cad_monitor_active := enabled, rc_cad_free_streak := 0\<rparr>
      in if \<not> enabled then r1\<lparr>rc_cad_broadcast_active := False\<rparr> else r1)"

definition setter_ok :: "(radio \<Rightarrow> radio) \<Rightarrow> config_state \<Rightarrow> (string \<times> config_state) option" where
  "setter_ok f c = Some (reply_line ''OK'', on_radio f c)"

definition config_dispatch_setter :: "txq_view \<Rightarrow> string \<Rightarrow> config_state \<Rightarrow> (string \<times> config_state) option" where
  "config_dispatch_setter v upper c =
     (case config_status_is_set_txresult upper of
        Some on \<Rightarrow> setter_ok (\<lambda>r. r\<lparr>rc_tx_result_active := on\<rparr>) c
      | None \<Rightarrow>
     (case config_status_is_set_txqueue upper of
        Some on \<Rightarrow> Some (txqueue_setter v on c)
      | None \<Rightarrow>
     (case config_status_is_set_txmode upper of
        Some mode \<Rightarrow> setter_ok (\<lambda>r. r\<lparr>rc_tx_mode := mode\<rparr>) c
      | None \<Rightarrow>
     (case config_status_is_set_cadrssi upper of
        Some dbm \<Rightarrow> setter_ok (\<lambda>r. r\<lparr>rc_cad_threshold := Fin (of_int dbm)\<rparr>) c
      | None \<Rightarrow>
     (case config_status_is_set_cadmonitor upper of
        Some on \<Rightarrow> setter_ok (cadmonitor_setter on) c
      | None \<Rightarrow>
     (case config_status_is_set_cadwait upper of
        Some ms \<Rightarrow> setter_ok (\<lambda>r. r\<lparr>rc_cad_wait_ms := of_nat ms\<rparr>) c
      | None \<Rightarrow>
     (case config_status_is_set_cadidle upper of
        Some ms \<Rightarrow> setter_ok (\<lambda>r. r\<lparr>rc_cad_idle_ms := of_nat ms\<rparr>) c
      | None \<Rightarrow>
     (case config_status_is_set_cadpoll upper of
        Some ms \<Rightarrow> setter_ok (\<lambda>r. r\<lparr>rc_cad_poll_ms := of_nat ms\<rparr>) c
      | None \<Rightarrow>
     (case config_status_is_set_cadtxaftertimeout upper of
        Some on \<Rightarrow> setter_ok (\<lambda>r. r\<lparr>rc_cad_after_timeout := on\<rparr>) c
      | None \<Rightarrow> None)))))))))"

section \<open>The generic path\<close>

text \<open>The critical section: apply, then re-arm the receiver or fail closed.\<close>

definition config_dispatch_apply ::
  "driver \<Rightarrow> config_env \<Rightarrow> string \<Rightarrow> config_state \<Rightarrow> config_apply_status \<times> config_state" where
  "config_dispatch_apply d env line c =
     (let (st, c1) = parse_and_apply_config_generic d env line c in
      (st, if st = CONFIG_APPLY_APPLIED
           then on_radio (\<lambda>r. rearm_start_receive d (drv d Call_SetAction r)) c1
           else if st = CONFIG_APPLY_HW_ERROR
           then on_radio (\<lambda>r. r\<lparr>rc_health := RADIO_HEALTH_FAILED\<rparr>) c1
           else c1))"

fun apply_reply :: "config_apply_status \<Rightarrow> string" where
  "apply_reply CONFIG_APPLY_OK_NO_RADIO = reply_line ''OK''"
| "apply_reply CONFIG_APPLY_APPLIED = reply_line ''OK''"
| "apply_reply CONFIG_APPLY_REJECTED_INVALID = reply_line ''ERR INVALID''"
| "apply_reply CONFIG_APPLY_REJECTED_MALFORMED = reply_line ''ERR MALFORMED''"
| "apply_reply CONFIG_APPLY_UNKNOWN = reply_line ''ERR UNKNOWN''"
| "apply_reply CONFIG_APPLY_HW_ERROR = reply_line ''ERR HARDWARE''"

definition config_dispatch_generic :: "conf_env \<Rightarrow> nat \<Rightarrow> string \<Rightarrow> config_state \<Rightarrow> string \<times> config_state" where
  "config_dispatch_generic env n line c =
     (let v = de_view env n in
      if \<not> rc_driver (cf_radio c) \<or> \<not> radio_controller_ready (cf_radio c) then
        (reply_line ''ERR RADIO_NOT_READY'', c)
      else if config_command_touches_radio line \<and> (0 < tv_pending v \<or> tv_job_active v) then
        (reply_line ''ERR BUSY'', c)
      else
        (let (st, c1) = config_dispatch_apply (de_driver env) (de_config env) line c
         in (apply_reply st, c1)))"

text \<open>
  \<open>config_dispatch_apply_line\<close> without its last action: the answer and the new state. The local
  copy of the line is at most 255 characters long.
\<close>

definition upper_line :: "string \<Rightarrow> string" where
  "upper_line line = map c_toupper (take (buf_SIZE - 1) line)"

definition config_line_answer :: "conf_env \<Rightarrow> nat \<Rightarrow> string \<Rightarrow> config_state \<Rightarrow> string \<times> config_state" where
  "config_line_answer env n line c =
     (let upper = upper_line line in
      case config_dispatch_query env n upper c of
        Some result \<Rightarrow> result
      | None \<Rightarrow>
          (case config_dispatch_setter (de_view env n) upper c of
             Some result \<Rightarrow> result
           | None \<Rightarrow>
               (let k = config_status_classify_reserved_setter upper in
                if k = 1 then (reply_line ''ERR INVALID'', c)
                else if k = 2 then (reply_line ''ERR MALFORMED'', c)
                else config_dispatch_generic env n line c)))"

section \<open>A client's socket\<close>

record conf_ctx =
  dc_slot :: client_slot
  dc_net :: net
  dc_conf :: config_state
  dc_lines :: nat

definition close_client :: "conf_ctx \<Rightarrow> conf_ctx" where
  "close_client x = (let (slot, net) = client_slot_close (dc_slot x) (dc_net x)
     in x\<lparr>dc_slot := slot, dc_net := net\<rparr>)"

definition config_dispatch_reply :: "string \<Rightarrow> conf_ctx \<Rightarrow> conf_ctx" where
  "config_dispatch_reply reply x =
     (let (ok, q) = client_output_queue_append (cl_output (dc_slot x)) (Some (text_bytes reply)) (length reply);
          x1 = x\<lparr>dc_slot := (dc_slot x)\<lparr>cl_output := q\<rparr>\<rparr>
      in if \<not> ok then close_client x1
         else (let (slot, net) = client_slot_flush_output (dc_slot x1) (dc_net x1)
               in x1\<lparr>dc_slot := slot, dc_net := net\<rparr>))"

definition config_dispatch_apply_line :: "conf_env \<Rightarrow> string \<Rightarrow> conf_ctx \<Rightarrow> conf_ctx" where
  "config_dispatch_apply_line env line x =
     (let (reply, c) = config_line_answer env (dc_lines x) line (dc_conf x)
      in config_dispatch_reply reply (x\<lparr>dc_conf := c, dc_lines := dc_lines x + 1\<rparr>))"

text \<open>
  One ready client. The stream lives in the slot; while the lines are handled the parser holds
  it, and its final state is the one that stays (closing the slot clears the stream, and so does
  the parser after each line).
\<close>

definition config_dispatch_client :: "conf_env \<Rightarrow> (int \<Rightarrow> bool) \<Rightarrow> conf_ctx \<Rightarrow> conf_ctx" where
  "config_dispatch_client env readfds x =
     (if \<not> client_slot_ready readfds (dc_slot x) then x
      else
        (let (r, net) = net_read (cl_fd (dc_slot x)) (buf_SIZE - 1) (dc_net x); x1 = x\<lparr>dc_net := net\<rparr> in
         case r of
           Inl again \<Rightarrow> if again then x1 else close_client x1
         | Inr bs \<Rightarrow>
             if bs = [] then
               (let (st, x2) = config_stream_flush (config_dispatch_apply_line env) (cl_stream (dc_slot x1)) x1
                in close_client (x2\<lparr>dc_slot := (dc_slot x2)\<lparr>cl_stream := st\<rparr>\<rparr>))
             else
               (let (ok, st, x2) = config_stream_feed (config_dispatch_apply_line env)
                      (cl_stream (dc_slot x1)) bs x1;
                    x3 = x2\<lparr>dc_slot := (dc_slot x2)\<lparr>cl_stream := st\<rparr>\<rparr>
                in if ok then x3 else close_client x3)))"

text \<open>The loop over the slots; the descriptors, the radio and the line number pass through.\<close>

fun config_dispatch_clients ::
  "conf_env \<Rightarrow> (int \<Rightarrow> bool) \<Rightarrow> client_slot list \<Rightarrow> net \<Rightarrow> config_state \<Rightarrow> nat
     \<Rightarrow> client_slot list \<times> net \<times> config_state \<times> nat" where
  "config_dispatch_clients env readfds [] net c n = ([], net, c, n)"
| "config_dispatch_clients env readfds (s # ss) net c n =
     (let x = config_dispatch_client env readfds \<lparr>dc_slot = s, dc_net = net, dc_conf = c, dc_lines = n\<rparr>;
          (ss1, net1, c1, n1) = config_dispatch_clients env readfds ss (dc_net x) (dc_conf x) (dc_lines x)
      in (dc_slot x # ss1, net1, c1, n1))"

end
