(* ===== verification/Config_Safety.thy ===== *)
theory Config_Safety
  imports Config_Dispatch
begin

text \<open>
  What the CONFIG socket of \<open>config_dispatch.cpp\<close> guarantees: the radio is only reconfigured by an
  accepted command while no transmission is queued or running, the CAD policy stays in its
  documented ranges, every complete line gets exactly one answer, and the STATUS line fits.
\<close>

section \<open>When a line touches the radio\<close>

lemma parse_tokens_mode:
  "(cc_mode_count cmd = 0 \<longrightarrow> cc_mode cmd = []) \<Longrightarrow>
     cc_mode_count (parse_tokens rest cmd) = 0 \<longrightarrow> cc_mode (parse_tokens rest cmd) = []"
proof (induction rest cmd rule: parse_tokens.induct)
  case (1 rest cmd)
  let ?t = "takeWhile (\<lambda>c. c \<noteq> CHR '' '') rest"
  show ?case
  proof (cases "rest = []")
    case True
    then show ?thesis using "1.prems" by simp
  next
    case False
    have "cc_mode_count (if ?t \<noteq> [] then add_token ?t cmd else cmd) = 0 \<longrightarrow>
        cc_mode (if ?t \<noteq> [] then add_token ?t cmd else cmd) = []"
      using "1.prems" by (simp add: add_token_def Let_def)
    from "1.IH" [OF False refl this] False show ?thesis
      by (subst (1 2) parse_tokens.simps) (simp add: Let_def)
  qed
qed

lemma parsed_mode: "cc_mode_count (config_parse_command line) = 0 \<Longrightarrow> cc_mode (config_parse_command line) = []"
  using parse_tokens_mode by (auto simp: config_parse_command_def Let_def split: if_splits)

text \<open>A command that does not touch the radio is rejected or only sets the GETRSSI flag.\<close>

lemma quiet_command:
  assumes "\<not> config_command_touches_radio line"
    and "parse_and_apply_config_generic d env line c = (st, c')"
  shows "config_apply_status_untouched st"
proof -
  let ?p = "config_parse_command line"
  show ?thesis
  proof (cases rule: apply_command_cases [OF assms(2) refl refl refl refl, case_names rejected switch_failed ran])
    case rejected
    then show ?thesis by simp
  next
    case switch_failed
    then have "cc_is_set ?p" "cc_has_params ?p" "cc_mode_count ?p \<noteq> 0"
      using parsed_mode [of line] by (auto simp: command_accepted_def)
    with assms(1) show ?thesis by (simp add: config_command_touches_radio_def Let_def)
  next
    case (ran n g)
    then have "cc_is_set ?p" "cc_has_params ?p" by (simp_all add: command_accepted_def)
    with assms(1) have "cc_mode_count ?p = 0" "\<forall>kv\<in>set (cc_tokens ?p). fst kv = ''GETRSSI''"
      by (auto simp: config_command_touches_radio_def Let_def list_ex_iff split: if_splits)
    then have "cc_mode ?p = []" "radio_params ?p = []"
      using parsed_mode [of line] by (force simp: radio_params_def filter_empty_conv)+
    then show ?thesis using ran(3) by (simp add: config_apply_status_untouched_def)
  qed
qed

definition config_same :: "config_env \<Rightarrow> config_state \<Rightarrow> config_state \<Rightarrow> bool" where
  "config_same env c c' \<longleftrightarrow> rc_mode (cf_radio c') = rc_mode (cf_radio c) \<and> cf_replay c' = cf_replay c \<and>
     config_apply_effective (ce_defaults env) (cf_effective c') =
       config_apply_effective (ce_defaults env) (cf_effective c)"

text \<open>The radio after a line that must not disturb it.\<close>

definition undisturbed :: "radio \<Rightarrow> radio \<Rightarrow> bool" where
  "undisturbed r r' \<longleftrightarrow> harmless_calls (rc_mode r) (rc_calls r) r' \<and> (rc_received r \<longrightarrow> rc_received r')"

lemma undisturbed_calls: "rc_calls r' = rc_calls r \<Longrightarrow> rc_received r' = rc_received r \<Longrightarrow> undisturbed r r'"
  by (simp add: undisturbed_def harmless_same)

lemma undisturbed_refl [simp]: "undisturbed r r"
  by (simp add: undisturbed_calls)

text \<open>
  A channel scan on request: in LoRa mode on an idle transmitter, with no packet known to wait and after the chip denied
  one, and up to the restart of the receiver.
\<close>

definition requested_scan :: "driver \<Rightarrow> radio \<Rightarrow> radio \<Rightarrow> bool" where
  "requested_scan d r r' \<longleftrightarrow> checked_scan d (rc_mode r) (rc_calls r) r' \<and> \<not> rc_received r \<and> \<not> rc_tx_busy r"

lemma setter_fields:
  assumes "config_dispatch_setter v upper c = Some (reply, c')"
  shows "rc_calls (cf_radio c') = rc_calls (cf_radio c) \<and> rc_received (cf_radio c') = rc_received (cf_radio c) \<and>
    rc_mode (cf_radio c') = rc_mode (cf_radio c) \<and> cf_replay c' = cf_replay c \<and> cf_effective c' = cf_effective c"
  using assms
  by (auto simp: config_dispatch_setter_def setter_ok_def on_radio_def txqueue_setter_def cadmonitor_setter_def
      Let_def split: option.splits if_splits)

lemma live_rssi_frame:
  "config_status_live_rssi_dbm d lk race r = (x, r') \<Longrightarrow>
     (rc_calls r' = rc_calls r \<or> rc_calls r' = Call_ReadLiveRssi # rc_calls r) \<and>
     (rc_received r \<longrightarrow> rc_received r') \<and> rc_mode r' = rc_mode r \<and> rc_driver r' = rc_driver r \<and>
     rc_health r' = rc_health r \<and> rc_cad_scan_available r' = rc_cad_scan_available r \<and>
     rc_rearm_pending r' = rc_rearm_pending r"
  by (auto simp: config_status_live_rssi_dbm_def Let_def tx_race_step_def drv_float_def drv_received_keep
      split: if_splits)

lemma try_probe_mode: "rc_mode (snd (radio_cad_try_probe sc d lk race r)) = rc_mode r"
proof -
  have "rc_mode (snd (radio_cad_probe_passive d lk race r)) = rc_mode r"
    by (auto simp: radio_cad_probe_passive_def Let_def drv_float_def tx_race_step_def)
  moreover have "rc_mode (snd (active_probe_under_lock sc d (drv_float d Call_GetRSSI) r0)) = rc_mode r0" for r0
    by (auto simp: active_probe_under_lock_def Let_def drv_float_def drv_status_def
        radio_cad_quiesce_and_check_rx_def radio_cad_detach_rx_before_probe_def
        radio_cad_restore_rx_after_probe_def split: prod.splits if_splits)
  moreover have "rc_mode (tx_race_step race r) = rc_mode r" by (simp add: tx_race_step_def)
  ultimately show ?thesis by (auto simp: radio_cad_try_probe_def Let_def)
qed

lemma live_rssi_undisturbed:
  assumes "config_status_live_rssi_dbm d lk race r = (x, r1)"
  shows "undisturbed r r1 \<and> rc_mode r1 = rc_mode r"
  using live_rssi_frame [OF assms] harmless_same [of r1 "rc_calls r" "rc_mode r"]
    harmless_one [of r1 Call_ReadLiveRssi "rc_calls r" "rc_mode r"]
  by (auto simp: undisturbed_def)

text \<open>The first call of \<open>GET CHANNEL\<close> is the live reading, so a scan comes after it.\<close>

lemma format_channel_undisturbed:
  assumes "config_status_format_channel k sc d lk race lk2 race2 r = (text, r')"
  shows "(undisturbed r r' \<or> requested_scan d r r') \<and> rc_mode r' = rc_mode r"
proof (cases "rc_received r")
  case True
  then show ?thesis
    using assms live_rssi_undisturbed [of d lk race r]
    by (auto simp: config_status_format_channel_def split: prod.splits)
next
  case False
  obtain x r1 where lr: "config_status_live_rssi_dbm d lk race r = (x, r1)" by force
  note f = live_rssi_frame [OF lr]
  have busy: "rc_tx_busy r \<Longrightarrow> rc_tx_busy r1"
    using lr by (auto simp: config_status_live_rssi_dbm_def Let_def drv_float_def tx_race_step_def split: if_splits)
  have r': "r' = snd (radio_cad_try_probe sc d lk2 race2 r1)"
    using assms False lr by (auto simp: config_status_format_channel_def Let_def split: prod.splits)
  have "harmless_calls (rc_mode r) (rc_calls r) r' \<or> checked_scan d (rc_mode r) (rc_calls r) r' \<and> \<not> rc_tx_busy r1"
    using try_probe_ok [of r1 sc d lk2 race2] f harmless_cons [of "rc_mode r" Call_ReadLiveRssi "rc_calls r" r']
      scan_cons [of d "rc_mode r" Call_ReadLiveRssi "rc_calls r" r'] unfolding r' [symmetric] by auto
  then show ?thesis
    using False busy try_probe_mode [of sc d lk2 race2 r1] f
    unfolding r' [symmetric] undisturbed_def requested_scan_def by auto
qed

lemma query_undisturbed:
  assumes "config_dispatch_query env n upper c = Some (reply, c')"
  shows "(undisturbed (cf_radio c) (cf_radio c') \<or>
      config_status_is_get_channel upper \<and> requested_scan (de_driver env) (cf_radio c) (cf_radio c')) \<and>
    config_same (de_config env) c c'"
proof -
  let ?d = "de_driver env" and ?r = "cf_radio c"
  have pv: "undisturbed ?r (snd (config_status_format_channel_passive k ?d lk race ?r)) \<and>
      rc_mode (snd (config_status_format_channel_passive k ?d lk race ?r)) = rc_mode ?r" for k lk race
    using live_rssi_undisturbed [of ?d lk race ?r]
    by (auto simp: config_status_format_channel_passive_def Let_def split: prod.splits)
  show ?thesis
    using assms pv format_channel_undisturbed [of 192 "de_scan env" ?d _ _ _ _ ?r]
    by (auto simp: config_dispatch_query_def Let_def config_same_def split: if_splits prod.splits)
      (metis snd_conv)+
qed

text \<open>
  C9: The radio is reconfigured only when it is idle: a line of a CONFIG client changes the mode,
  the effective configuration or the replay record only when it is a command the validation and the airtime gate
  accept, on a ready radio, while no transmission is queued or running. Any other line, with any answer, leaves the three
  as they are and makes only driver calls that cannot destroy a received packet in the mode of the radio, and a packet
  that was flagged stays flagged; the one exception is \<open>GET CHANNEL\<close>, which may scan the channel also while jobs
  are queued: in LoRa mode, with nothing on the air and no packet flagged, only after the chip answered that no packet
  waits, and up to the restart of the receiver.
\<close>

theorem line_reconfigures_only_idle_radio:
  assumes "config_line_answer env n line c = (reply, c')"
  shows "(command_accepted (de_config env) (config_parse_command line) c \<and> config_command_touches_radio line \<and>
      rc_driver (cf_radio c) \<and> radio_controller_ready (cf_radio c) \<and>
      tv_pending (de_view env n) = 0 \<and> \<not> tv_job_active (de_view env n)) \<or>
    (config_same (de_config env) c c' \<and>
      (undisturbed (cf_radio c) (cf_radio c') \<or>
       config_status_is_get_channel (upper_line line) \<and> requested_scan (de_driver env) (cf_radio c) (cf_radio c')))"
proof -
  let ?d = "de_driver env"
  have gen: "(command_accepted (de_config env) (config_parse_command line) c \<and> config_command_touches_radio line \<and>
      rc_driver (cf_radio c) \<and> radio_controller_ready (cf_radio c) \<and>
      tv_pending (de_view env n) = 0 \<and> \<not> tv_job_active (de_view env n)) \<or>
    (undisturbed (cf_radio c) (cf_radio c') \<and> config_same (de_config env) c c')"
    if "config_dispatch_generic env n line c = (reply, c')"
  proof (cases "\<not> rc_driver (cf_radio c) \<or> \<not> radio_controller_ready (cf_radio c) \<or>
      (config_command_touches_radio line \<and> (0 < tv_pending (de_view env n) \<or> tv_job_active (de_view env n)))")
    case True
    then show ?thesis
      using that by (auto simp: config_dispatch_generic_def Let_def config_same_def split: if_splits)
  next
    case False
    obtain st c1 where run: "parse_and_apply_config_generic ?d (de_config env) line c = (st, c1)" by force
    show ?thesis
    proof (cases "config_apply_status_untouched st")
      case True
      then have "c' = c1" using that False run
        by (auto simp: config_dispatch_generic_def config_dispatch_apply_def config_apply_status_untouched_def
            Let_def split: if_splits)
      with untouched_command [OF run True] show ?thesis
        by (auto simp: config_same_def undisturbed_calls)
    next
      case touched: False
      have "config_command_touches_radio line" using quiet_command [OF _ run] touched by blast
      moreover have "command_accepted (de_config env) (config_parse_command line) c"
        using touched
        by (cases rule: apply_command_cases [OF run refl refl refl refl]) auto
      ultimately show ?thesis using False by auto
    qed
  qed
  show ?thesis
  proof (cases "config_dispatch_query env n (upper_line line) c")
    case (Some result)
    with assms have "config_dispatch_query env n (upper_line line) c = Some (reply, c')"
      by (simp add: config_line_answer_def Let_def)
    from query_undisturbed [OF this] show ?thesis by blast
  next
    case no_query: None
    show ?thesis
    proof (cases "config_dispatch_setter (de_view env n) (upper_line line) c")
      case (Some result)
      with no_query assms have "config_dispatch_setter (de_view env n) (upper_line line) c = Some (reply, c')"
        by (simp add: config_line_answer_def Let_def)
      from setter_fields [OF this] undisturbed_calls [of "cf_radio c'" "cf_radio c"] show ?thesis
        by (simp add: config_same_def)
    next
      case None
      with no_query assms have "c' = c \<or> config_dispatch_generic env n line c = (reply, c')"
        by (auto simp: config_line_answer_def Let_def split: if_splits)
      then show ?thesis
      proof
        assume "c' = c"
        then show ?thesis
          by (simp add: config_same_def)
      next
        assume "config_dispatch_generic env n line c = (reply, c')"
        from gen [OF this] show ?thesis by blast
      qed
    qed
  qed
qed

definition idle_view :: txq_view where
  "idle_view = \<lparr>tv_pending = 0, tv_job_active = False, tv_dropped = 0, tv_rejected = 0, tv_stale = 0,
     tv_result_dropped = 0, tv_processed = 0, tv_last = None\<rparr>"

definition sample_conf_env :: "txq_view \<Rightarrow> conf_env" where
  "sample_conf_env v = \<lparr>de_driver = obedient_driver, de_scan = \<lparr>sc_channel_free = Some 1,
       sc_channel_occupied = None, sc_channel_busy = None, sc_lora_detected = Some 2,
       sc_preamble_detected = None, sc_err_channel_busy = None\<rparr>,
     de_config = env_433, de_view = (\<lambda>_. v), de_rssi_lock = (\<lambda>_. (True, False)),
     de_probe_lock = (\<lambda>_. (True, False)), de_start_ms = 1, de_now_ms = (\<lambda>_. 1)\<rparr>"

theorem line_reconfigures_only_idle_radio_witness:
  "config_same env_433 fresh_state
     (snd (config_line_answer (sample_conf_env (idle_view\<lparr>tv_pending := 1\<rparr>)) 0 ''SET SF=12'' fresh_state)) \<and>
   undisturbed (cf_radio fresh_state) (cf_radio
     (snd (config_line_answer (sample_conf_env (idle_view\<lparr>tv_pending := 1\<rparr>)) 0 ''SET SF=12'' fresh_state)))"
proof -
  obtain reply c' where run: "config_line_answer (sample_conf_env (idle_view\<lparr>tv_pending := 1\<rparr>)) 0 ''SET SF=12''
      fresh_state = (reply, c')" by force
  have "\<not> config_status_is_get_channel (upper_line ''SET SF=12'')"
    by code_simp
  with line_reconfigures_only_idle_radio [OF run] run show ?thesis by (simp add: sample_conf_env_def)
qed

section \<open>The CAD policy stays in range\<close>

definition cad_policy_ok :: "radio \<Rightarrow> bool" where
  "cad_policy_ok r \<longleftrightarrow> 50 \<le> unat (rc_cad_wait_ms r) \<and> unat (rc_cad_wait_ms r) \<le> 5000 \<and>
     unat (rc_cad_idle_ms r) \<le> 2000 \<and> 10 \<le> unat (rc_cad_poll_ms r) \<and> unat (rc_cad_poll_ms r) \<le> 500 \<and>
     (\<exists>dbm. rc_cad_threshold r = Fin (of_int dbm) \<and> - 130 \<le> dbm \<and> dbm \<le> 0)"

definition cad_settings :: "radio \<Rightarrow> u32 \<times> u32 \<times> u32 \<times> c_float" where
  "cad_settings r = (rc_cad_wait_ms r, rc_cad_idle_ms r, rc_cad_poll_ms r, rc_cad_threshold r)"

lemma cad_settings_cong: "cad_settings r' = cad_settings r \<Longrightarrow> cad_policy_ok r' = cad_policy_ok r"
  by (simp add: cad_settings_def cad_policy_ok_def)

lemma cad_settings_frames [simp]:
  "cad_settings (drv d x r) = cad_settings r"
  "cad_settings (daemon_rx_rearm_note_result st r) = cad_settings r"
  "cad_settings (rearm_start_receive d r) = cad_settings r"
  "cad_settings (tx_race_step race r) = cad_settings r"
  "cad_settings (r\<lparr>rc_mode := m\<rparr>) = cad_settings r"
  "cad_settings (r\<lparr>rc_health := h\<rparr>) = cad_settings r"
  "cad_settings (r\<lparr>rc_getrssi_active := g\<rparr>) = cad_settings r"
  "cad_settings (r\<lparr>rc_received := g\<rparr>) = cad_settings r"
  "cad_settings (r\<lparr>rc_cad_active := g\<rparr>) = cad_settings r"
  by (simp_all add: cad_settings_def drv_def Let_def daemon_rx_rearm_note_result_def rearm_start_receive_def
      drv_status_def tx_race_step_def)

lemma cad_settings_run [simp]: "cad_settings (drv_run d cs r) = cad_settings r"
  by (induction cs arbitrary: r) simp_all

lemma cad_settings_probe [simp]:
  "cad_settings (snd (radio_cad_try_probe sc d lk race r)) = cad_settings r"
proof -
  have pv: "cad_settings (snd (radio_cad_probe_passive d lk race r)) = cad_settings r"
    by (auto simp: radio_cad_probe_passive_def Let_def drv_float_def)
  have q: "cad_settings r1 = cad_settings r0" if "radio_cad_quiesce_and_check_rx d r0 = (x, r1)" for r0 x r1
    using that by (auto simp: radio_cad_quiesce_and_check_rx_def Let_def drv_status_def split: if_splits)
  have steps: "cad_settings (radio_cad_detach_rx_before_probe d r0) = cad_settings r0"
      "cad_settings (radio_cad_restore_rx_after_probe d r0) = cad_settings r0" for r0
    by (simp_all add: radio_cad_detach_rx_before_probe_def radio_cad_restore_rx_after_probe_def Let_def)
  have "cad_settings (snd (active_probe_under_lock sc d (drv_float d Call_GetRSSI) r0)) = cad_settings r0" for r0
  proof -
    obtain x r1 where "radio_cad_quiesce_and_check_rx d (drv d Call_GetRSSI r0) = (x, r1)" by (metis surj_pair)
    with q [OF this] show ?thesis
      by (cases x) (simp add: active_probe_under_lock_def Let_def drv_float_def drv_status_def steps)
  qed
  with pv show ?thesis by (auto simp: radio_cad_try_probe_def Let_def)
qed

lemma cad_settings_probeD:
  "radio_cad_try_probe sc d lk race r = (p, r') \<Longrightarrow> cad_settings r' = cad_settings r"
  using cad_settings_probe [of sc d lk race r] by simp

lemma command_cad_policy:
  assumes "parse_and_apply_config_generic d env cmd c = (st, c')"
  shows "cad_settings (cf_radio c') = cad_settings (cf_radio c)"
  using assms by (rule apply_command_cases [OF _ refl refl refl refl]) simp_all

lemma query_cad_policy:
  assumes "config_dispatch_query env n upper c = Some (reply, c')"
  shows "cad_settings (cf_radio c') = cad_settings (cf_radio c)"
proof -
  have live: "cad_settings (snd (config_status_live_rssi_dbm d lk race r)) = cad_settings r" for d lk race r
    by (auto simp: config_status_live_rssi_dbm_def Let_def drv_float_def)
  have pv: "cad_settings (snd (config_status_format_channel_passive k d lk race r)) = cad_settings r" for k d lk race r
    using live [of d lk race r] by (auto simp: config_status_format_channel_passive_def Let_def split: prod.splits)
  have act: "cad_settings (snd (config_status_format_channel k sc d lk race lk2 race2 r)) = cad_settings r"
    for k sc d lk race lk2 race2 r
    using live [of d lk race r]
    by (auto simp: config_status_format_channel_def Let_def split: prod.splits dest!: cad_settings_probeD)
  show ?thesis
    using assms pv act
    by (auto simp: config_dispatch_query_def Let_def split: if_splits prod.splits) (metis snd_conv)+
qed

lemma uval_range: "config_status_parse_set_uval cmd prefix lo hi = Some v \<Longrightarrow> lo \<le> v \<and> v \<le> hi"
  by (auto simp: config_status_parse_set_uval_def Let_def split: if_splits prod.splits)

lemma ival_range: "config_status_parse_set_ival cmd prefix lo hi = Some v \<Longrightarrow> lo \<le> v \<and> v \<le> hi"
  by (auto simp: config_status_parse_set_ival_def Let_def split: if_splits prod.splits)

lemma setter_cad_policy:
  assumes "config_dispatch_setter v upper c = Some (reply, c')" and "cad_policy_ok (cf_radio c)"
  shows "cad_policy_ok (cf_radio c')"
proof -
  have small: "unat (of_nat n :: u32) = n" if "n \<le> 5000" for n
    using that by (simp add: unsigned_of_nat take_bit_nat_eq_self)
  show ?thesis
    using assms small
    by (auto simp: config_dispatch_setter_def setter_ok_def on_radio_def txqueue_setter_def cadmonitor_setter_def
        Let_def cad_policy_ok_def config_status_is_set_cadwait_def config_status_is_set_cadidle_def
        config_status_is_set_cadpoll_def config_status_is_set_cadrssi_def
        split: option.splits if_splits dest!: uval_range ival_range)
qed

fun config_answers :: "conf_env \<Rightarrow> nat \<Rightarrow> string list \<Rightarrow> config_state \<Rightarrow> string list \<times> config_state" where
  "config_answers env n [] c = ([], c)"
| "config_answers env n (line # lines) c =
     (let (reply, c1) = config_line_answer env n line c; (replies, c2) = config_answers env (n + 1) lines c1
      in (reply # replies, c2))"

lemma line_cad_policy:
  assumes "config_line_answer env n line c = (reply, c')" and "cad_policy_ok (cf_radio c)"
  shows "cad_policy_ok (cf_radio c')"
proof -
  have gen: "cad_settings (cf_radio c2) = cad_settings (cf_radio c)"
    if "config_dispatch_generic env n line c = (r, c2)" for r c2
  proof -
    obtain st c1 where run: "parse_and_apply_config_generic (de_driver env) (de_config env) line c = (st, c1)"
      by force
    with that command_cad_policy [OF run] show ?thesis
      by (auto simp: config_dispatch_generic_def config_dispatch_apply_def on_radio_def Let_def split: if_splits)
  qed
  show ?thesis
  proof (cases "config_dispatch_query env n (upper_line line) c")
    case (Some result)
    with assms(1) have "config_dispatch_query env n (upper_line line) c = Some (reply, c')"
      by (simp add: config_line_answer_def Let_def)
    from cad_settings_cong [OF query_cad_policy [OF this]] assms(2) show ?thesis by simp
  next
    case no_query: None
    show ?thesis
    proof (cases "config_dispatch_setter (de_view env n) (upper_line line) c")
      case (Some result)
      with no_query assms(1) have "config_dispatch_setter (de_view env n) (upper_line line) c = Some (reply, c')"
        by (simp add: config_line_answer_def Let_def)
      from setter_cad_policy [OF this assms(2)] show ?thesis .
    next
      case None
      with no_query assms(1) have "c' = c \<or> config_dispatch_generic env n line c = (reply, c')"
        by (auto simp: config_line_answer_def Let_def split: if_splits)
      then show ?thesis using gen assms(2) cad_settings_cong by blast
    qed
  qed
qed

text \<open>
  The CAD policy never leaves its documented ranges: the controller starts inside them (wait
  50 to 5000 ms, idle at most 2000 ms, poll interval 10 to 500 ms, threshold -130 to 0 dBm), and
  whatever lines CONFIG clients send, in any order, with any driver behaviour, it stays inside.
\<close>

theorem cad_policy_in_range:
  "cad_policy_ok (radio_controller_init band tag is_hf) \<and>
   (cad_policy_ok (cf_radio c) \<longrightarrow> cad_policy_ok (cf_radio (snd (config_answers env n lines c))))"
proof
  show "cad_policy_ok (radio_controller_init band tag is_hf)"
    by (simp add: cad_policy_ok_def radio_controller_init_def c_consts RADIO_CAD_RSSI_BUSY_THRESHOLD_DBM_def)
      (intro exI [of _ "- 90"], simp)
  show "cad_policy_ok (cf_radio c) \<longrightarrow> cad_policy_ok (cf_radio (snd (config_answers env n lines c)))"
  proof (induction env n lines c rule: config_answers.induct)
    case (2 env n line lines c)
    obtain reply c1 where step: "config_line_answer env n line c = (reply, c1)" by force
    show ?case
      using "2.IH" [OF step [symmetric] refl] line_cad_policy [OF step]
      by (auto simp: step split: prod.splits)
  qed simp
qed

theorem cad_policy_in_range_witness:
  "cad_policy_ok (cf_radio (snd (config_answers (sample_conf_env idle_view) 0
     [''SET CADWAIT=100'', ''SET CADPOLL=10''] fresh_state)))"
proof -
  have "cad_policy_ok (cf_radio fresh_state)"
    using cad_policy_in_range [of RADIO_BAND_433 "''433''" False]
    by (simp add: fresh_state_def boot_state_def cad_policy_ok_def)
  then show ?thesis
    using cad_policy_in_range [of RADIO_BAND_433 "''433''" False fresh_state] by blast
qed

section \<open>One answer per line\<close>

lemma length_text_bytes [simp]: "length (text_bytes s) = length s"
  by (simp add: text_bytes_def)

text \<open>An answer reaches a connected client as its next bytes, or the client is closed.\<close>

lemma reply_cases:
  assumes "config_dispatch_reply t x = x'"
  shows "dc_conf x' = dc_conf x \<and> dc_lines x' = dc_lines x \<and>
    (client_slot_has_client (dc_slot x') \<longrightarrow>
      client_slot_has_client (dc_slot x) \<and> cl_fd (dc_slot x') = cl_fd (dc_slot x) \<and>
      cl_generation (dc_slot x') = cl_generation (dc_slot x) \<and>
      client_bytes (dc_slot x') (dc_net x') = client_bytes (dc_slot x) (dc_net x) @ text_bytes t)"
proof (cases "client_slot_has_client (dc_slot x)")
  case False
  with assms show ?thesis
    by (auto simp: config_dispatch_reply_def Let_def close_client_def client_slot_flush_output_def
        client_slot_reset_output_def client_slot_has_client_def client_slot_close_def
        split: prod.splits if_splits)
next
  case True
  obtain ok q where app: "client_output_queue_append (cl_output (dc_slot x)) (Some (text_bytes t)) (length t) = (ok, q)"
    by force
  show ?thesis
  proof (cases ok)
    case False
    have "x' = close_client (x\<lparr>dc_slot := (dc_slot x)\<lparr>cl_output := q\<rparr>\<rparr>)"
      using assms app False by (simp add: config_dispatch_reply_def)
    then show ?thesis by (simp add: close_client_def split: prod.splits) (metis close_not_client fst_conv)
  next
    case ok: True
    obtain slot net where fl: "client_slot_flush_output ((dc_slot x)\<lparr>cl_output := q\<rparr>) (dc_net x) = (slot, net)"
      by force
    have x': "x' = x\<lparr>dc_slot := slot, dc_net := net\<rparr>"
      using assms app ok fl by (simp add: config_dispatch_reply_def)
    have "client_slot_send_bytes (text_bytes t) (dc_slot x) (dc_net x) = (slot, net)"
      using True app ok fl by (simp add: client_slot_send_bytes_def)
    from send_bytes_cases [OF this] x' show ?thesis by auto
  qed
qed

lemma lines_answered:
  assumes "fold (config_dispatch_apply_line env) lines x = x'"
    and "config_answers env (dc_lines x) lines (dc_conf x) = (replies, c')"
  shows "dc_conf x' = c' \<and> dc_lines x' = dc_lines x + length lines \<and> length replies = length lines \<and>
    (client_slot_has_client (dc_slot x') \<longrightarrow>
      client_slot_has_client (dc_slot x) \<and> cl_fd (dc_slot x') = cl_fd (dc_slot x) \<and>
      cl_generation (dc_slot x') = cl_generation (dc_slot x) \<and>
      client_bytes (dc_slot x') (dc_net x') = client_bytes (dc_slot x) (dc_net x) @ concat (map text_bytes replies))"
  using assms
proof (induction lines arbitrary: x replies)
  case (Cons line lines)
  obtain reply c1 where ans: "config_line_answer env (dc_lines x) line (dc_conf x) = (reply, c1)" by force
  let ?x0 = "x\<lparr>dc_conf := c1, dc_lines := dc_lines x + 1\<rparr>"
  let ?x1 = "config_dispatch_reply reply ?x0"
  have x1: "config_dispatch_apply_line env line x = ?x1" by (simp add: config_dispatch_apply_line_def ans)
  note rc = reply_cases [OF refl, of reply ?x0]
  obtain rs where rs: "config_answers env (dc_lines x + 1) lines c1 = (rs, c')" "replies = reply # rs"
    using Cons.prems(2) ans by (auto split: prod.splits)
  have "fold (config_dispatch_apply_line env) lines ?x1 = x'" using Cons.prems(1) x1 by simp
  moreover have "config_answers env (dc_lines ?x1) lines (dc_conf ?x1) = (rs, c')" using rs(1) rc by simp
  ultimately show ?case using Cons.IH [of ?x1 rs] rc rs(2) by auto
qed auto

text \<open>
  C27: Every complete line of a CONFIG client is answered exactly once and in order, however its
  bytes arrive: when a read ends some lines, all of them take effect one after the other, and a
  client that is still connected afterwards (on the same connection) has been sent precisely
  their answers; the unfinished rest of the text waits for the next read. A line of more than 255
  characters closes the client.
\<close>

theorem config_client_lines_answered:
  assumes "client_slot_ready readfds (dc_slot x)" and "cs_wf (cl_stream (dc_slot x))"
    and "net_read (cl_fd (dc_slot x)) (buf_SIZE - 1) (dc_net x) = (Inr bs, net)" and "bs \<noteq> []"
    and "segs = split_lines (cs_text (cl_stream (dc_slot x)) @ stream_text bs)"
    and "config_answers env (dc_lines x) (delivered_lines segs) (dc_conf x) = (replies, c')"
    and "config_dispatch_client env readfds x = x'"
  shows "if \<forall>seg\<in>set segs. length seg \<le> 255 then
      dc_conf x' = c' \<and> length replies = length (delivered_lines segs) \<and>
      cs_text (cl_stream (dc_slot x')) = last segs \<and>
      (client_slot_has_client (dc_slot x') \<longrightarrow>
        cl_fd (dc_slot x') = cl_fd (dc_slot x) \<and> cl_generation (dc_slot x') = cl_generation (dc_slot x) \<and>
        client_bytes (dc_slot x') (dc_net x') =
          client_bytes (dc_slot x) (dc_net x) @ concat (map text_bytes replies))
    else \<not> client_slot_has_client (dc_slot x')"
proof -
  let ?x1 = "x\<lparr>dc_net := net\<rparr>"
  obtain ok st x2 where feed: "config_stream_feed (config_dispatch_apply_line env) (cl_stream (dc_slot x)) bs ?x1 =
      (ok, st, x2)" by (rule prod_cases3)
  let ?x3 = "x2\<lparr>dc_slot := (dc_slot x2)\<lparr>cl_stream := st\<rparr>\<rparr>"
  have x': "x' = (if ok then ?x3 else close_client ?x3)"
    using assms(1,3,4,7) feed by (simp add: config_dispatch_client_def Let_def)
  note fl = feed_lines [OF assms(2) feed, folded assms(5)]
  show ?thesis
  proof (cases "\<forall>seg\<in>set segs. length seg \<le> 255")
    case True
    with fl have ok: ok and st: "cs_text st = last segs"
      and x2: "x2 = fold (config_dispatch_apply_line env) (delivered_lines segs) ?x1" by auto
    have "config_answers env (dc_lines ?x1) (delivered_lines segs) (dc_conf ?x1) = (replies, c')"
      using assms(6) by simp
    note la = lines_answered [OF x2 [symmetric] this]
    have wire: "net_wire net = net_wire (dc_net x)"
      using assms(3) by (auto simp: net_read_def split: prod.splits)
    show ?thesis
      using True la st ok x' wire by (auto simp: client_slot_has_client_def client_bytes_def)
  next
    case False
    with fl have "\<not> ok" by blast
    then have "\<not> client_slot_has_client (dc_slot x')"
      unfolding x' by (simp add: close_client_def split: prod.splits) (metis close_not_client fst_conv)
    then show ?thesis by (simp only: if_not_P [OF False] not_False_eq_True)
  qed
qed

definition sample_conf_client :: conf_ctx where
  "sample_conf_client = \<lparr>dc_slot = \<lparr>cl_fd = 5, cl_output = [], cl_stream = empty_stream, cl_generation = 2\<rparr>,
     dc_net = \<lparr>net_reads = (\<lambda>_. [Received [71, 13, 10, 72]]), net_answers = (\<lambda>_. []), net_wire = (\<lambda>_. []),
       net_closed = []\<rparr>, dc_conf = fresh_state, dc_lines = 0\<rparr>"

theorem config_client_lines_answered_witness:
  "dc_conf (config_dispatch_client (sample_conf_env idle_view) (\<lambda>_. True) sample_conf_client) =
     snd (config_answers (sample_conf_env idle_view) 0 [''G''] fresh_state) \<and>
   cs_text (cl_stream (dc_slot (config_dispatch_client (sample_conf_env idle_view) (\<lambda>_. True) sample_conf_client))) = ''H''"
proof -
  obtain replies c' where ans: "config_answers (sample_conf_env idle_view) 0 [''G''] fresh_state = (replies, c')"
    by force
  have stream: "cl_stream (dc_slot sample_conf_client) = empty_stream" by (simp add: sample_conf_client_def)
  have "cs_wf empty_stream" by code_simp
  then have wf: "cs_wf (cl_stream (dc_slot sample_conf_client))" by (simp add: stream)
  have ready: "client_slot_ready (\<lambda>_. True) (dc_slot sample_conf_client)"
    by (simp add: sample_conf_client_def client_slot_ready_def client_slot_has_client_def)
  have rd: "net_read (cl_fd (dc_slot sample_conf_client)) (buf_SIZE - 1) (dc_net sample_conf_client) =
      (Inr [71, 13, 10, 72], snd (net_read 5 255 (dc_net sample_conf_client)))"
    by (simp add: sample_conf_client_def net_read_def c_consts)
  have joined: "cs_text (cl_stream (dc_slot sample_conf_client)) @ stream_text [71, 13, 10, 72] = [CHR ''G'', CHR 0x0A, CHR ''H'']"
    unfolding stream by code_simp
  have "config_answers (sample_conf_env idle_view) (dc_lines sample_conf_client)
      (delivered_lines (split_lines [CHR ''G'', CHR 0x0A, CHR ''H''])) (dc_conf sample_conf_client) = (replies, c')"
    using ans by (simp add: sample_conf_client_def delivered_lines_def c_string_def)
  from config_client_lines_answered [OF ready wf rd _ _ this refl] joined ans show ?thesis by simp
qed

section \<open>The STATUS line\<close>

definition status_in_bounds :: "txq_view \<Rightarrow> radio \<Rightarrow> bool" where
  "status_in_bounds v r \<longleftrightarrow>
     tv_pending v < 2 ^ 64 \<and> tv_dropped v < 2 ^ 64 \<and> tv_rejected v < 2 ^ 64 \<and> tv_stale v < 2 ^ 64 \<and>
     tv_result_dropped v < 2 ^ 64 \<and> tv_processed v < 2 ^ 64 \<and>
     - (2 ^ 31) \<le> rc_ocp_ma r \<and> rc_ocp_ma r < 2 ^ 31 \<and> length (rc_usb_wait_port r) < 32 \<and>
     length (rc_bound r) < 48 \<and>
     (case rc_instance_id r of None \<Rightarrow> True | Some ident \<Rightarrow> daemon_instance_id_valid (Some ident)) \<and>
     cad_policy_ok r"

lemma length_nat_dec_word: "length (nat_dec (unat (w :: u32))) \<le> 10"
proof -
  have "unat w < 2 ^ LENGTH(32)" by (rule unsigned_less)
  then show ?thesis by (intro length_nat_dec) simp_all
qed

lemma length_bit_text [simp]: "length (bit_text b) = 1"
  by (simp add: bit_text_def)

lemma length_strip_zeros: "length (strip_zeros s) \<le> length s"
proof (induction s rule: strip_zeros.induct)
  case (1 out)
  then show ?case by (subst strip_zeros.simps) auto
qed

lemma length_applied: "0 < k \<Longrightarrow> length (config_status_applied rp key decimal k) < k"
proof -
  assume k: "0 < k"
  have "length (strip_zeros (snprintf_text k s)) < k" for s
    using length_strip_zeros [of "snprintf_text k s"] length_snprintf_text [OF k, of s] by linarith
  then show ?thesis
    using length_snprintf_text [OF k]
    by (auto simp: config_status_applied_def Let_def split: option.splits prod.splits)
qed

lemma length_threshold:
  assumes "- 130 \<le> dbm" and "dbm \<le> 0"
  shows "length (c_fixed 0 (Fin (of_int dbm))) \<le> 4"
proof -
  have "\<bar>of_int dbm :: rat\<bar> * 10 ^ 0 = of_int \<bar>dbm\<bar>" by simp
  then have r: "round_half_even (\<bar>of_int dbm :: rat\<bar> * 10 ^ 0) = \<bar>dbm\<bar>" by (simp only: round_half_even_int)
  have "length (nat_dec (nat \<bar>dbm\<bar>)) \<le> 3" using assms by (intro length_nat_dec) auto
  with assms(2) show ?thesis
    unfolding c_fixed.simps rat_fixed_def r Let_def by (cases "dbm < 0") (simp_all add: abs_if)
qed

text \<open>
  The STATUS answer is never truncated: with any 64-bit counters, the CAD policy in its ranges
  and the daemon's own names, the whole line with its line break fits the buffer of 1024 bytes,
  so the client reads every field, as the comment on the buffer promises.
\<close>

theorem status_line_complete:
  assumes "status_in_bounds v r"
  shows "config_status_format CONFIG_STATUS_LINE_MAX v rp r = status_text v rp r \<and>
    length (status_text v rp r) < 1024"
proof -
  have "length (nat_dec (tv_pending v)) \<le> 20" "length (nat_dec (tv_dropped v)) \<le> 20"
    "length (nat_dec (tv_rejected v)) \<le> 20" "length (nat_dec (tv_stale v)) \<le> 20"
    "length (nat_dec (tv_result_dropped v)) \<le> 20" "length (nat_dec (tv_processed v)) \<le> 20"
    using assms by (simp_all add: status_in_bounds_def length_nat_dec_u64)
  moreover have "length (int_dec (rc_ocp_ma r)) \<le> 20"
    using assms by (intro length_int_dec_s64) (simp_all add: status_in_bounds_def)
  moreover have "length (nat_dec (config_status_txq_last_seq v)) \<le> 5"
  proof -
    have "unat w < 2 ^ LENGTH(16)" for w :: u16 by (rule unsigned_less)
    then have "config_status_txq_last_seq v < 2 ^ 16"
      by (simp add: config_status_txq_last_seq_def split: option.splits)
    then show ?thesis by (intro length_nat_dec) simp_all
  qed
  moreover have "length (config_status_txq_last_name v) \<le> 15"
  proof -
    have "length (tx_result_name t) \<le> 15" for t by (cases t) simp_all
    then show ?thesis by (simp add: config_status_txq_last_name_def split: option.splits)
  qed
  moreover have "length (c_fixed 0 (rc_cad_threshold r)) \<le> 4"
    using assms length_threshold by (auto simp: status_in_bounds_def cad_policy_ok_def)
  moreover have "length (case rc_instance_id r of None \<Rightarrow> ''-'' | Some ident \<Rightarrow> ident) \<le> 16"
    using assms instance_id_chars(2) by (auto simp: status_in_bounds_def split: option.splits)
  moreover have "length (radio_tx_mode_name (rc_tx_mode r)) \<le> 7" by (cases "rc_tx_mode r") simp_all
  moreover have "length (daemon_chip_family_name (rc_chip_family r)) \<le> 6" by (cases "rc_chip_family r") simp_all
  moreover have "length (rc_usb_wait_port r) \<le> 31" "length (rc_bound r) \<le> 47"
    using assms by (simp_all add: status_in_bounds_def)
  moreover note length_radio_health_name [of "rc_health r"] length_nat_dec_word [of "rc_cad_wait_ms r"]
    length_nat_dec_word [of "rc_cad_idle_ms r"] length_nat_dec_word [of "rc_cad_poll_ms r"]
    length_applied [of 32 rp "''FREQ''" True] length_applied [of 24 rp "''SF''" False]
    length_applied [of 24 rp "''POWER''" False]
  ultimately have "length (status_text v rp r) < 1024"
    by (simp add: status_text_def newline_def)
  then show ?thesis by (simp add: config_status_format_def CONFIG_STATUS_LINE_MAX_def snprintf_text_fits)
qed

theorem status_line_complete_witness:
  "length (config_status_format CONFIG_STATUS_LINE_MAX idle_view config_apply_replay_reset
     (radio_controller_init RADIO_BAND_433 ''433'' False)) < 1024"
proof -
  have "status_in_bounds idle_view (radio_controller_init RADIO_BAND_433 ''433'' False)"
    by (simp add: status_in_bounds_def idle_view_def radio_controller_init_def cad_policy_ok_def c_consts
        RADIO_CAD_RSSI_BUSY_THRESHOLD_DBM_def) (intro exI [of _ "- 90"], simp)
  from status_line_complete [OF this] show ?thesis by simp
qed

end
