(* ===== verification/Event_Loop.thy ===== *)
theory Event_Loop
  imports Channel
begin

text \<open>
  The event loop's registrations, \<open>event_loop_epoll.cpp\<close> and \<open>event_loop.cpp\<close>, and how the daemon
  brings them up to date once per pass: \<open>radio_channel_reconcile_fds\<close> (\<open>radio_channel.cpp\<close>),
  \<open>daemon_ch341_reconcile_fds\<close> (\<open>daemon_ch341_runtime.cpp\<close>) and \<open>daemon_io_sync_event_fds\<close>
  (\<open>daemon_io_runtime.cpp\<close>).

  The kernel's side of \<open>epoll_ctl\<close> is a state: the open descriptors of the process, the interest
  list of the epoll object and the calls that fail for lack of memory or space. Closing a
  descriptor takes it off the interest list, as the kernel does when nothing else refers to the
  open file. The registrations carry the address of their owner, here of any type \<open>'o\<close>.
\<close>

section \<open>The kernel's interest list\<close>

definition EPOLLIN :: u32 where [c_consts]: "EPOLLIN = 0x001"
definition EPOLLOUT :: u32 where [c_consts]: "EPOLLOUT = 0x004"
definition EPOLLERR :: u32 where [c_consts]: "EPOLLERR = 0x008"
definition EPOLLHUP :: u32 where [c_consts]: "EPOLLHUP = 0x010"

definition ENOENT :: int where [c_consts]: "ENOENT = 2"
definition EIO :: int where [c_consts]: "EIO = 5"
definition EBADF :: int where [c_consts]: "EBADF = 9"
definition ENOMEM :: int where [c_consts]: "ENOMEM = 12"
definition EBUSY :: int where [c_consts]: "EBUSY = 16"
definition EEXIST :: int where [c_consts]: "EEXIST = 17"
definition EINVAL :: int where [c_consts]: "EINVAL = 22"
definition ENOSPC :: int where [c_consts]: "ENOSPC = 28"

datatype ctl_op = EPOLL_CTL_ADD | EPOLL_CTL_MOD | EPOLL_CTL_DEL
datatype shortage = No_Memory | No_Space

definition shortage_errno :: "shortage \<Rightarrow> int" where
  "shortage_errno s = (case s of No_Memory \<Rightarrow> ENOMEM | No_Space \<Rightarrow> ENOSPC)"

record epoll_kernel =
  ek_open :: "int list"
  ek_interest :: "int \<rightharpoonup> u32"
  ek_calls :: nat
  ek_short :: "nat \<Rightarrow> shortage option"

text \<open>\<open>None\<close> is the result 0, \<open>Some e\<close> is -1 with \<open>errno = e\<close>.\<close>

definition epoll_ctl :: "ctl_op \<Rightarrow> int \<Rightarrow> u32 \<Rightarrow> epoll_kernel \<Rightarrow> int option \<times> epoll_kernel" where
  "epoll_ctl op fd events k =
     (let k1 = k\<lparr>ek_calls := ek_calls k + 1\<rparr> in
      if fd \<notin> set (ek_open k) then (Some EBADF, k1)
      else if op = EPOLL_CTL_ADD \<and> ek_interest k fd \<noteq> None then (Some EEXIST, k1)
      else if op \<noteq> EPOLL_CTL_ADD \<and> ek_interest k fd = None then (Some ENOENT, k1)
      else case ek_short k (ek_calls k) of
             Some s \<Rightarrow> (Some (shortage_errno s), k1)
           | None \<Rightarrow> (None, k1\<lparr>ek_interest :=
               (ek_interest k)(fd := (if op = EPOLL_CTL_DEL then None else Some events))\<rparr>))"

definition kernel_close :: "int \<Rightarrow> epoll_kernel \<Rightarrow> epoll_kernel" where
  "kernel_close fd k = k\<lparr>ek_open := removeAll fd (ek_open k), ek_interest := (ek_interest k)(fd := None)\<rparr>"

definition kernel_open :: "int \<Rightarrow> epoll_kernel \<Rightarrow> epoll_kernel" where
  "kernel_open fd k = k\<lparr>ek_open := fd # ek_open k\<rparr>"

section \<open>The epoll backend\<close>

definition EVENT_LOOP_EPOLL_MAX_REGISTERED_FDS :: nat where
  "EVENT_LOOP_EPOLL_MAX_REGISTERED_FDS = 128"
definition EVENT_LOOP_EPOLL_MAX_EVENTS :: nat where
  "EVENT_LOOP_EPOLL_MAX_EVENTS = 128"

record 'o registration =
  rg_owner :: "'o ptr"
  rg_generation :: u32
  rg_events :: u32
  rg_seen :: "64 word"
  rg_fd :: int
  rg_active :: bool

record 'o epoll_set =
  es_epoll_fd :: int
  es_registered :: int
  es_epoch :: "64 word"
  es_reconciling :: bool
  es_regs :: "'o registration list"

definition event_loop_epoll_clear_registration :: "'o registration" where
  "event_loop_epoll_clear_registration =
     \<lparr>rg_owner = NULL, rg_generation = 0, rg_events = 0, rg_seen = 0, rg_fd = -1, rg_active = False\<rparr>"

definition event_loop_epoll_clear_registrations :: "'o epoll_set \<Rightarrow> 'o epoll_set" where
  "event_loop_epoll_clear_registrations es =
     es\<lparr>es_regs := replicate EVENT_LOOP_EPOLL_MAX_REGISTERED_FDS event_loop_epoll_clear_registration,
         es_registered := 0, es_epoch := 0, es_reconciling := False\<rparr>"

text \<open>The index of the first registration with a property, where the code returns its address.\<close>

fun first_index :: "('a \<Rightarrow> bool) \<Rightarrow> 'a list \<Rightarrow> nat option" where
  "first_index p [] = None"
| "first_index p (x # xs) = (if p x then Some 0 else map_option Suc (first_index p xs))"

definition event_loop_epoll_find_registration :: "'o epoll_set \<Rightarrow> 'o ptr \<Rightarrow> u32 \<Rightarrow> nat option" where
  "event_loop_epoll_find_registration es owner generation =
     first_index (\<lambda>r. rg_active r \<and> rg_owner r = owner \<and> rg_generation r = generation) (es_regs es)"

definition event_loop_epoll_find_free_registration :: "'o epoll_set \<Rightarrow> nat option" where
  "event_loop_epoll_find_free_registration es = first_index (\<lambda>r. \<not> rg_active r) (es_regs es)"

definition event_loop_epoll_fd_seen_current :: "'o epoll_set \<Rightarrow> int \<Rightarrow> nat \<Rightarrow> bool" where
  "event_loop_epoll_fd_seen_current es fd skip_index \<longleftrightarrow>
     0 \<le> fd \<and> list_ex (\<lambda>i. i \<noteq> skip_index \<and> rg_active (es_regs es ! i) \<and>
        rg_seen (es_regs es ! i) = es_epoch es \<and> rg_fd (es_regs es ! i) = fd)
      [0..<length (es_regs es)]"

text \<open>\<open>created\<close> is the answer of \<open>epoll_create1\<close>.\<close>

definition event_loop_epoll_init :: "int \<Rightarrow> 'o epoll_set \<Rightarrow> bool \<times> 'o epoll_set" where
  "event_loop_epoll_init created es =
     (0 \<le> created, (event_loop_epoll_clear_registrations es)\<lparr>es_epoll_fd := created\<rparr>)"

definition event_loop_epoll_close :: "'o epoll_set \<Rightarrow> epoll_kernel \<Rightarrow> 'o epoll_set \<times> epoll_kernel" where
  "event_loop_epoll_close es k =
     (event_loop_epoll_clear_registrations (es\<lparr>es_epoll_fd := -1\<rparr>),
      if 0 \<le> es_epoll_fd es then k\<lparr>ek_interest := Map.empty\<rparr> else k)"

fun reset_loop :: "'o registration list \<Rightarrow> epoll_kernel \<Rightarrow> epoll_kernel" where
  "reset_loop [] k = k"
| "reset_loop (r # rs) k =
     reset_loop rs (if rg_active r \<and> 0 \<le> rg_fd r then snd (epoll_ctl EPOLL_CTL_DEL (rg_fd r) 0 k) else k)"

definition event_loop_epoll_reset :: "'o epoll_set \<Rightarrow> epoll_kernel \<Rightarrow> 'o epoll_set \<times> epoll_kernel" where
  "event_loop_epoll_reset es k =
     (event_loop_epoll_clear_registrations es,
      if 0 \<le> es_epoll_fd es then reset_loop (es_regs es) k else k)"

definition event_loop_epoll_add_fd_events ::
  "int \<Rightarrow> u32 \<Rightarrow> 'o epoll_set \<Rightarrow> epoll_kernel \<Rightarrow> int option \<times> 'o epoll_set \<times> epoll_kernel" where
  "event_loop_epoll_add_fd_events fd events es k =
     (if es_epoll_fd es < 0 \<or> fd < 0 then (Some EINVAL, es, k)
      else if int EVENT_LOOP_EPOLL_MAX_REGISTERED_FDS \<le> es_registered es then (Some ENOSPC, es, k)
      else (let ev = (if events = 0 then EPOLLIN else events) in
        case event_loop_epoll_find_free_registration es of
          None \<Rightarrow> (Some ENOSPC, es, k)
        | Some i \<Rightarrow>
            (case epoll_ctl EPOLL_CTL_ADD fd ev k of
               (Some e, k1) \<Rightarrow> (Some e, es, k1)
             | (None, k1) \<Rightarrow>
                 (None, es\<lparr>es_regs := (es_regs es)[i := \<lparr>rg_owner = NULL, rg_generation = 0,
                      rg_events = ev, rg_seen = 0, rg_fd = fd, rg_active = True\<rparr>],
                    es_registered := es_registered es + 1\<rparr>, k1))))"

definition event_loop_epoll_add_fd ::
  "int \<Rightarrow> 'o epoll_set \<Rightarrow> epoll_kernel \<Rightarrow> int option \<times> 'o epoll_set \<times> epoll_kernel" where
  "event_loop_epoll_add_fd fd = event_loop_epoll_add_fd_events fd EPOLLIN"

definition event_loop_epoll_reconcile_begin :: "'o epoll_set \<Rightarrow> int option \<times> 'o epoll_set" where
  "event_loop_epoll_reconcile_begin es =
     (if es_epoll_fd es < 0 then (Some EINVAL, es)
      else if es_reconciling es then (Some EBUSY, es)
      else (let e = es_epoch es + 1;
                set1 = (if e = 0 then es\<lparr>es_regs := map (\<lambda>r. r\<lparr>rg_seen := 0\<rparr>) (es_regs es), es_epoch := 1\<rparr>
                        else es\<lparr>es_epoch := e\<rparr>)
            in (None, set1\<lparr>es_reconciling := True\<rparr>)))"

definition event_loop_epoll_reconcile_fd ::
  "'o ptr \<Rightarrow> u32 \<Rightarrow> int \<Rightarrow> u32 \<Rightarrow> 'o epoll_set \<Rightarrow> epoll_kernel \<Rightarrow> int option \<times> 'o epoll_set \<times> epoll_kernel" where
  "event_loop_epoll_reconcile_fd owner generation fd events es k =
     (if es_epoll_fd es < 0 \<or> owner = NULL \<or> fd < 0 then (Some EINVAL, es, k)
      else if \<not> es_reconciling es then (Some EINVAL, es, k)
      else (let ev = (if events = 0 then EPOLLIN else events) in
        case event_loop_epoll_find_registration es owner generation of
          Some i \<Rightarrow>
            (let r = es_regs es ! i in
             if rg_fd r \<noteq> fd then (Some EINVAL, es, k)
             else if rg_events r \<noteq> ev then
               (case epoll_ctl EPOLL_CTL_MOD fd ev k of
                  (Some e, k1) \<Rightarrow> (Some e, es, k1)
                | (None, k1) \<Rightarrow>
                    (None, es\<lparr>es_regs := (es_regs es)[i := r\<lparr>rg_events := ev, rg_seen := es_epoch es\<rparr>]\<rparr>, k1))
             else (None, es\<lparr>es_regs := (es_regs es)[i := r\<lparr>rg_seen := es_epoch es\<rparr>]\<rparr>, k))
        | None \<Rightarrow>
            if int EVENT_LOOP_EPOLL_MAX_REGISTERED_FDS \<le> es_registered es then (Some ENOSPC, es, k)
            else (case event_loop_epoll_find_free_registration es of
                    None \<Rightarrow> (Some ENOSPC, es, k)
                  | Some i \<Rightarrow>
                      (case epoll_ctl EPOLL_CTL_ADD fd ev k of
                         (Some e, k1) \<Rightarrow> (Some e, es, k1)
                       | (None, k1) \<Rightarrow>
                           (None, es\<lparr>es_regs := (es_regs es)[i := \<lparr>rg_owner = owner,
                                rg_generation = generation, rg_events = ev, rg_seen = es_epoch es,
                                rg_fd = fd, rg_active = True\<rparr>],
                              es_registered := es_registered es + 1\<rparr>, k1)))))"

text \<open>One pass of the loop of \<open>reconcile_end\<close>; \<open>saved\<close> is \<open>saved_errno\<close>.\<close>

definition reconcile_end_step ::
  "'o epoll_set \<times> epoll_kernel \<times> int \<Rightarrow> nat \<Rightarrow> 'o epoll_set \<times> epoll_kernel \<times> int" where
  "reconcile_end_step x i =
     (case x of (es, k, saved) \<Rightarrow>
        let r = es_regs es ! i in
        if \<not> rg_active r \<or> rg_owner r = NULL \<or> rg_seen r = es_epoch es then (es, k, saved)
        else (let (err, k1) = (if \<not> event_loop_epoll_fd_seen_current es (rg_fd r) i \<and> 0 \<le> rg_fd r
                               then epoll_ctl EPOLL_CTL_DEL (rg_fd r) 0 k else (None, k));
                  saved1 = (case err of None \<Rightarrow> saved
                            | Some e \<Rightarrow> if e \<noteq> EBADF \<and> e \<noteq> ENOENT \<and> saved = 0 then e else saved)
              in (es\<lparr>es_regs := (es_regs es)[i := event_loop_epoll_clear_registration],
                      es_registered := (if 0 < es_registered es then es_registered es - 1 else es_registered es)\<rparr>,
                  k1, saved1)))"

definition event_loop_epoll_reconcile_end ::
  "'o epoll_set \<Rightarrow> epoll_kernel \<Rightarrow> int option \<times> 'o epoll_set \<times> epoll_kernel" where
  "event_loop_epoll_reconcile_end es k =
     (if es_epoll_fd es < 0 \<or> \<not> es_reconciling es then (Some EINVAL, es, k)
      else (let (set1, k1, saved) = foldl reconcile_end_step (es, k, 0) [0..<length (es_regs es)]
            in (if saved \<noteq> 0 then Some saved else None, set1\<lparr>es_reconciling := False\<rparr>, k1)))"

definition event_loop_epoll_has_registered_fds :: "'o epoll_set \<Rightarrow> bool" where
  "event_loop_epoll_has_registered_fds es \<longleftrightarrow> 0 < es_registered es"

text \<open>A ready set is the list of the \<open>count\<close> events \<open>epoll_wait\<close> stored.\<close>

type_synonym ready_set = "(int \<times> u32) list"

definition event_loop_epoll_ready_fd_events :: "ready_set \<Rightarrow> int \<Rightarrow> u32 \<Rightarrow> bool" where
  "event_loop_epoll_ready_fd_events ready fd events \<longleftrightarrow>
     0 \<le> fd \<and> list_ex (\<lambda>(f, e). f = fd \<and> e AND events \<noteq> 0) ready"

definition event_loop_epoll_ready_fd :: "ready_set \<Rightarrow> int \<Rightarrow> bool" where
  "event_loop_epoll_ready_fd ready fd \<longleftrightarrow> 0 \<le> fd \<and> list_ex (\<lambda>(f, e). f = fd) ready"

definition event_loop_epoll_ready_fd_read :: "ready_set \<Rightarrow> int \<Rightarrow> bool" where
  "event_loop_epoll_ready_fd_read ready fd =
     event_loop_epoll_ready_fd_events ready fd (EPOLLIN OR EPOLLHUP OR EPOLLERR)"

definition event_loop_epoll_ready_fd_write :: "ready_set \<Rightarrow> int \<Rightarrow> bool" where
  "event_loop_epoll_ready_fd_write ready fd = event_loop_epoll_ready_fd_events ready fd EPOLLOUT"

definition wait_timeout_ms :: "int \<Rightarrow> int" where
  "wait_timeout_ms timeout_usec =
     (let ms = sgn timeout_usec * (\<bar>timeout_usec\<bar> div 1000)
      in if 0 < timeout_usec \<and> ms = 0 then 1 else ms)"

text \<open>\<open>answer n ms\<close> is what \<open>epoll_wait\<close> says for at most \<open>n\<close> events and the timeout \<open>ms\<close>.\<close>

definition event_loop_epoll_wait ::
  "'o epoll_set \<Rightarrow> (nat \<Rightarrow> int \<Rightarrow> int + ready_set) \<Rightarrow> int \<Rightarrow> int + ready_set" where
  "event_loop_epoll_wait es answer timeout_usec =
     (if es_epoll_fd es < 0 then Inl EINVAL
      else answer EVENT_LOOP_EPOLL_MAX_EVENTS (wait_timeout_ms timeout_usec))"

section \<open>The wrapper that remembers the first failure\<close>

record 'o event_loop_set =
  el_epoll :: "'o epoll_set"
  el_registration_errno :: int

definition event_loop_record_registration_error :: "int \<Rightarrow> 'o event_loop_set \<Rightarrow> 'o event_loop_set" where
  "event_loop_record_registration_error errno es =
     (if el_registration_errno es = 0
      then es\<lparr>el_registration_errno := (if errno \<noteq> 0 then errno else EIO)\<rparr> else es)"

definition record_result :: "int option \<Rightarrow> 'o event_loop_set \<Rightarrow> 'o event_loop_set" where
  "record_result res es =
     (case res of None \<Rightarrow> es | Some e \<Rightarrow> event_loop_record_registration_error e es)"

definition event_loop_init :: "int \<Rightarrow> 'o event_loop_set \<Rightarrow> bool \<times> 'o event_loop_set" where
  "event_loop_init created es =
     (let (ok, es1) = event_loop_epoll_init created (el_epoll es)
      in (ok, es\<lparr>el_epoll := es1, el_registration_errno := 0\<rparr>))"

definition event_loop_close :: "'o event_loop_set \<Rightarrow> epoll_kernel \<Rightarrow> 'o event_loop_set \<times> epoll_kernel" where
  "event_loop_close es k =
     (let (es1, k1) = event_loop_epoll_close (el_epoll es) k
      in (es\<lparr>el_epoll := es1, el_registration_errno := 0\<rparr>, k1))"

definition event_loop_reset :: "'o event_loop_set \<Rightarrow> epoll_kernel \<Rightarrow> 'o event_loop_set \<times> epoll_kernel" where
  "event_loop_reset es k =
     (let (es1, k1) = event_loop_epoll_reset (el_epoll es) k
      in (es\<lparr>el_epoll := es1, el_registration_errno := 0\<rparr>, k1))"

definition event_loop_add_fd_events ::
  "int \<Rightarrow> u32 \<Rightarrow> 'o event_loop_set \<Rightarrow> epoll_kernel \<Rightarrow> 'o event_loop_set \<times> epoll_kernel" where
  "event_loop_add_fd_events fd events es k =
     (let (res, es1, k1) = event_loop_epoll_add_fd_events fd events (el_epoll es) k
      in (record_result res (es\<lparr>el_epoll := es1\<rparr>), k1))"

definition event_loop_add_fd :: "int \<Rightarrow> 'o event_loop_set \<Rightarrow> epoll_kernel \<Rightarrow> 'o event_loop_set \<times> epoll_kernel" where
  "event_loop_add_fd fd es k =
     (let (res, es1, k1) = event_loop_epoll_add_fd fd (el_epoll es) k
      in (record_result res (es\<lparr>el_epoll := es1\<rparr>), k1))"

definition event_loop_reconcile_begin :: "'o event_loop_set \<Rightarrow> 'o event_loop_set" where
  "event_loop_reconcile_begin es =
     (let (res, es1) = event_loop_epoll_reconcile_begin (el_epoll es)
      in record_result res (es\<lparr>el_epoll := es1\<rparr>))"

definition event_loop_reconcile_fd ::
  "'o ptr \<Rightarrow> u32 \<Rightarrow> int \<Rightarrow> u32 \<Rightarrow> 'o event_loop_set \<times> epoll_kernel \<Rightarrow> 'o event_loop_set \<times> epoll_kernel" where
  "event_loop_reconcile_fd owner generation fd events sk =
     (case sk of (es, k) \<Rightarrow>
        let (res, es1, k1) = event_loop_epoll_reconcile_fd owner generation fd events (el_epoll es) k
        in (record_result res (es\<lparr>el_epoll := es1\<rparr>), k1))"

definition event_loop_reconcile_end :: "'o event_loop_set \<Rightarrow> epoll_kernel \<Rightarrow> 'o event_loop_set \<times> epoll_kernel" where
  "event_loop_reconcile_end es k =
     (let (res, es1, k1) = event_loop_epoll_reconcile_end (el_epoll es) k
      in (record_result res (es\<lparr>el_epoll := es1\<rparr>), k1))"

definition event_loop_registration_failed :: "'o event_loop_set \<Rightarrow> bool" where
  "event_loop_registration_failed es \<longleftrightarrow> el_registration_errno es \<noteq> 0"

definition event_loop_has_registered_fds :: "'o event_loop_set \<Rightarrow> bool" where
  "event_loop_has_registered_fds es \<longleftrightarrow> event_loop_epoll_has_registered_fds (el_epoll es)"

definition event_loop_ready_fd :: "ready_set \<Rightarrow> int \<Rightarrow> bool" where
  "event_loop_ready_fd ready fd \<longleftrightarrow> event_loop_epoll_ready_fd ready fd"

definition event_loop_ready_fd_read :: "ready_set \<Rightarrow> int \<Rightarrow> bool" where
  "event_loop_ready_fd_read ready fd \<longleftrightarrow> event_loop_epoll_ready_fd_read ready fd"

definition event_loop_ready_fd_write :: "ready_set \<Rightarrow> int \<Rightarrow> bool" where
  "event_loop_ready_fd_write ready fd \<longleftrightarrow> event_loop_epoll_ready_fd_write ready fd"

definition event_loop_wait ::
  "'o event_loop_set \<Rightarrow> (nat \<Rightarrow> int \<Rightarrow> int + ready_set) \<Rightarrow> int \<Rightarrow> int + ready_set" where
  "event_loop_wait es answer timeout_usec =
     (if el_registration_errno es \<noteq> 0 then Inl (el_registration_errno es)
      else event_loop_epoll_wait (el_epoll es) answer timeout_usec)"

section \<open>One pass of the daemon\<close>

text \<open>The addresses that own registrations; \<open>Own_Monitor\<close> is \<open>g_fd_owner\<close>.\<close>

datatype fd_owner = Own_Data_Listen | Own_Framed_Listen | Own_Conf_Listen
  | Own_Data_Slot nat | Own_Framed_Slot nat | Own_Conf_Slot nat | Own_Monitor

definition slot_events :: "client_slot \<Rightarrow> u32" where
  "slot_events slot =
     (if 0 < client_output_queue_pending (cl_output slot) then EPOLLIN OR EPOLLOUT else EPOLLIN)"

fun radio_channel_reconcile_slots ::
  "(nat \<Rightarrow> fd_owner) \<Rightarrow> nat \<Rightarrow> client_slot list \<Rightarrow>
     fd_owner event_loop_set \<times> epoll_kernel \<Rightarrow> fd_owner event_loop_set \<times> epoll_kernel" where
  "radio_channel_reconcile_slots own i [] sk = sk"
| "radio_channel_reconcile_slots own i (s # ss) sk =
     radio_channel_reconcile_slots own (i + 1) ss
       (if \<not> client_slot_has_client s then sk
        else event_loop_reconcile_fd (Some (own i)) (cl_generation s) (cl_fd s) (slot_events s) sk)"

definition reconcile_listener ::
  "fd_owner \<Rightarrow> int \<Rightarrow> fd_owner event_loop_set \<times> epoll_kernel \<Rightarrow> fd_owner event_loop_set \<times> epoll_kernel" where
  "reconcile_listener owner fd sk =
     (if 0 \<le> fd then event_loop_reconcile_fd (Some owner) 1 fd EPOLLIN sk else sk)"

definition radio_channel_reconcile_fds ::
  "channel \<Rightarrow> fd_owner event_loop_set \<times> epoll_kernel \<Rightarrow> fd_owner event_loop_set \<times> epoll_kernel" where
  "radio_channel_reconcile_fds ch sk =
     (let sk1 = reconcile_listener Own_Data_Listen (ch_data_fd ch) sk;
          sk2 = reconcile_listener Own_Framed_Listen (ch_framed_fd ch) sk1;
          sk3 = reconcile_listener Own_Conf_Listen (ch_conf_fd ch) sk2;
          sk4 = radio_channel_reconcile_slots Own_Data_Slot 0 (ch_data ch) sk3;
          sk5 = radio_channel_reconcile_slots Own_Framed_Slot 0 (ch_framed ch) sk4
      in radio_channel_reconcile_slots Own_Conf_Slot 0 (ch_conf ch) sk5)"

text \<open>
  The USB monitor's descriptors with their \<open>poll\<close> masks, as \<open>mon_fds\<close> returns them; \<open>None\<close> when
  there is no monitor or the call fails.
\<close>

type_synonym monitor_fds = "(int \<times> u16) list option"

definition monitor_events :: "u16 \<Rightarrow> u32" where
  "monitor_events events =
     (if events AND 0x001 \<noteq> 0 then EPOLLIN else 0) OR (if events AND 0x004 \<noteq> 0 then EPOLLOUT else 0)"

fun monitor_reconcile_loop ::
  "(int \<times> u16) list \<Rightarrow> fd_owner event_loop_set \<times> epoll_kernel \<Rightarrow> fd_owner event_loop_set \<times> epoll_kernel" where
  "monitor_reconcile_loop [] sk = sk"
| "monitor_reconcile_loop (f # fs) sk =
     monitor_reconcile_loop fs
       (event_loop_reconcile_fd (Some Own_Monitor) (word_of_int (fst f)) (fst f) (monitor_events (snd f)) sk)"

definition daemon_ch341_reconcile_fds ::
  "monitor_fds \<Rightarrow> fd_owner event_loop_set \<times> epoll_kernel \<Rightarrow> fd_owner event_loop_set \<times> epoll_kernel" where
  "daemon_ch341_reconcile_fds mon sk = (case mon of None \<Rightarrow> sk | Some fds \<Rightarrow> monitor_reconcile_loop fds sk)"

definition daemon_io_sync_event_fds ::
  "channel \<Rightarrow> monitor_fds \<Rightarrow> fd_owner event_loop_set \<times> epoll_kernel \<Rightarrow> fd_owner event_loop_set \<times> epoll_kernel" where
  "daemon_io_sync_event_fds ch mon sk =
     (case sk of (es, k) \<Rightarrow>
        if event_loop_registration_failed es then (es, k)
        else (let (set1, k1) = daemon_ch341_reconcile_fds mon
                    (radio_channel_reconcile_fds ch (event_loop_reconcile_begin es, k))
              in event_loop_reconcile_end set1 k1))"

end
