(* ===== verification/Event_Loop_Sync.thy ===== *)
theory Event_Loop_Sync
  imports Event_Loop
begin

text \<open>
  What a pass of the event loop achieves: after \<open>daemon_io_sync_event_fds\<close> the kernel watches
  exactly the daemon's sockets, however descriptors were closed and their numbers reused since the
  last pass, or the failure is remembered and ends the daemon at the next wait.
\<close>

section \<open>The table of registrations\<close>

lemma first_index_Some:
  "first_index p xs = Some i \<Longrightarrow> i < length xs \<and> p (xs ! i)"
  by (induction xs arbitrary: i) (auto split: if_splits)

lemma first_index_None: "first_index p xs = None \<longleftrightarrow> (\<forall>x\<in>set xs. \<not> p x)"
  by (induction xs) auto

lemma filter_update_add:
  assumes "i < length xs" and "\<not> p (xs ! i)" and "p y"
  shows "length (filter p (xs[i := y])) = Suc (length (filter p xs))"
  using assms by (induction xs arbitrary: i) (auto split: nat.splits)

lemma filter_update_remove:
  assumes "i < length xs" and "p (xs ! i)" and "\<not> p y"
  shows "Suc (length (filter p (xs[i := y]))) = length (filter p xs)"
  using assms by (induction xs arbitrary: i) (auto split: nat.splits)

lemma filter_update_same:
  assumes "i < length xs" and "p (xs ! i)" and "p y"
  shows "length (filter p (xs[i := y])) = length (filter p xs)"
  using assms by (induction xs arbitrary: i) (auto split: nat.splits)

type_synonym 'o watch = "'o \<times> u32 \<times> int \<times> u32"

definition watch_key :: "'o watch \<Rightarrow> 'o \<times> u32" where
  "watch_key w = (fst w, fst (snd w))"

definition watch_fd :: "'o watch \<Rightarrow> int" where
  "watch_fd w = fst (snd (snd w))"

definition watch_events :: "'o watch \<Rightarrow> u32" where
  "watch_events w = snd (snd (snd w))"

lemmas watch_defs = watch_key_def watch_fd_def watch_events_def

definition has_key :: "'o registration \<Rightarrow> 'o \<times> u32 \<Rightarrow> bool" where
  "has_key r key \<longleftrightarrow> rg_active r \<and> rg_owner r = Some (fst key) \<and> rg_generation r = snd key"

definition active_count :: "'o epoll_set \<Rightarrow> nat" where
  "active_count es = length (filter rg_active (es_regs es))"

definition table_ok :: "'o epoll_set \<Rightarrow> bool" where
  "table_ok es \<longleftrightarrow>
     0 \<le> es_epoll_fd es \<and> length (es_regs es) = EVENT_LOOP_EPOLL_MAX_REGISTERED_FDS \<and>
     es_registered es = int (active_count es) \<and>
     (\<forall>i<length (es_regs es). rg_active (es_regs es ! i) \<longrightarrow>
        rg_owner (es_regs es ! i) \<noteq> None \<and> 0 \<le> rg_fd (es_regs es ! i)) \<and>
     (\<forall>i<length (es_regs es). \<forall>j<length (es_regs es). \<forall>key.
        has_key (es_regs es ! i) key \<and> has_key (es_regs es ! j) key \<longrightarrow> i = j)"

lemma table_unique:
  "table_ok es \<Longrightarrow> i < length (es_regs es) \<Longrightarrow> j < length (es_regs es) \<Longrightarrow>
     has_key (es_regs es ! i) key \<Longrightarrow> has_key (es_regs es ! j) key \<Longrightarrow> i = j"
  unfolding table_ok_def by blast

definition kernel_ok :: "epoll_kernel \<Rightarrow> bool" where
  "kernel_ok k \<longleftrightarrow> dom (ek_interest k) \<subseteq> set (ek_open k)"

definition covered :: "'o epoll_set \<Rightarrow> epoll_kernel \<Rightarrow> bool" where
  "covered es k \<longleftrightarrow> (\<forall>f\<in>dom (ek_interest k). \<exists>r\<in>set (es_regs es). rg_active r \<and> rg_fd r = f)"

text \<open>A watch fits the table: its registration, if any, is for the same open descriptor.\<close>

definition fits :: "'o epoll_set \<Rightarrow> epoll_kernel \<Rightarrow> 'o watch \<Rightarrow> bool" where
  "fits es k w \<longleftrightarrow>
     (\<forall>r\<in>set (es_regs es). has_key r (watch_key w) \<longrightarrow>
        rg_seen r \<noteq> es_epoch es \<and> rg_fd r = watch_fd w \<and> ek_interest k (watch_fd w) = Some (rg_events r)) \<and>
     ((\<forall>r\<in>set (es_regs es). \<not> has_key r (watch_key w)) \<longrightarrow> ek_interest k (watch_fd w) = None)"

definition current :: "'o epoll_set \<Rightarrow> 'o registration \<Rightarrow> bool" where
  "current es r \<longleftrightarrow> rg_active r \<and> rg_seen r = es_epoch es"

definition is_watch :: "'o registration \<Rightarrow> 'o watch \<Rightarrow> bool" where
  "is_watch r w \<longleftrightarrow> has_key r (watch_key w) \<and> rg_fd r = watch_fd w \<and> rg_events r = watch_events w"

definition registered_are :: "'o epoll_set \<Rightarrow> epoll_kernel \<Rightarrow> 'o watch list \<Rightarrow> bool" where
  "registered_are es k ws \<longleftrightarrow>
     (\<forall>r\<in>set (es_regs es). current es r \<longrightarrow> (\<exists>w\<in>set ws. is_watch r w)) \<and>
     (\<forall>w\<in>set ws. (\<exists>r\<in>set (es_regs es). current es r \<and> is_watch r w) \<and>
        ek_interest k (watch_fd w) = Some (watch_events w))"

definition watches_ok :: "epoll_kernel \<Rightarrow> 'o watch list \<Rightarrow> bool" where
  "watches_ok k ws \<longleftrightarrow>
     distinct (map watch_key ws) \<and> distinct (map watch_fd ws) \<and>
     (\<forall>w\<in>set ws. 0 \<le> watch_fd w \<and> watch_fd w \<in> set (ek_open k) \<and> watch_events w \<noteq> 0)"

definition pass_inv :: "'o epoll_set \<Rightarrow> epoll_kernel \<Rightarrow> 'o watch list \<Rightarrow> 'o watch list \<Rightarrow> bool" where
  "pass_inv es k past todo \<longleftrightarrow>
     table_ok es \<and> es_reconciling es \<and> kernel_ok k \<and> covered es k \<and> watches_ok k (past @ todo) \<and>
     registered_are es k past \<and> (\<forall>w\<in>set todo. fits es k w) \<and>
     active_count es + length todo \<le> EVENT_LOOP_EPOLL_MAX_REGISTERED_FDS"

lemma in_set_update:
  "i < length xs \<Longrightarrow> r \<in> set (xs[i := y]) \<longleftrightarrow> r = y \<or> (\<exists>j<length xs. j \<noteq> i \<and> r = xs ! j)"
  by (auto simp: in_set_conv_nth nth_list_update)

lemma in_set_update_other: "j < length xs \<Longrightarrow> j \<noteq> i \<Longrightarrow> xs ! j \<in> set (xs[i := y])"
  by (metis in_set_conv_nth length_list_update nth_list_update_neq)

lemma in_set_update_new: "i < length xs \<Longrightarrow> y \<in> set (xs[i := y])"
  by (rule set_update_memI)

lemma bex_update:
  assumes "i < length xs" and "\<not> Q (xs ! i)" and "\<not> Q y"
  shows "(\<exists>r\<in>set (xs[i := y]). Q r) \<longleftrightarrow> (\<exists>r\<in>set xs. Q r)"
proof
  assume "\<exists>r\<in>set (xs[i := y]). Q r"
  with assms show "\<exists>r\<in>set xs. Q r" by (metis in_set_update nth_mem)
next
  assume "\<exists>r\<in>set xs. Q r"
  with assms show "\<exists>r\<in>set (xs[i := y]). Q r" by (metis in_set_conv_nth in_set_update_other)
qed

lemma has_key_inj: "has_key r a \<Longrightarrow> has_key r b \<Longrightarrow> a = b"
  by (auto simp: has_key_def prod_eq_iff)

lemma pass_update:
  assumes inv: "pass_inv es k past (w # todo)" and i: "i < length (es_regs es)"
    and old: "rg_active (es_regs es ! i) \<Longrightarrow>
        has_key (es_regs es ! i) (watch_key w) \<and> rg_seen (es_regs es ! i) \<noteq> es_epoch es \<and>
        rg_fd (es_regs es ! i) = watch_fd w"
    and new: "\<not> rg_active (es_regs es ! i) \<Longrightarrow> \<forall>r\<in>set (es_regs es). \<not> has_key r (watch_key w)"
    and y: "is_watch y w" "rg_seen y = es_epoch es"
    and k1: "ek_open k1 = ek_open k" "ek_interest k1 = (ek_interest k)(watch_fd w \<mapsto> watch_events w)"
    and n: "n = es_registered es + (if rg_active (es_regs es ! i) then 0 else 1)"
  shows "pass_inv (es\<lparr>es_regs := (es_regs es)[i := y], es_registered := n\<rparr>) k1 (past @ [w]) todo"
proof -
  let ?r0 = "es_regs es ! i" and ?regs = "es_regs es"
  let ?es1 = "es\<lparr>es_regs := (es_regs es)[i := y], es_registered := n\<rparr>"
  from inv have tab: "table_ok es" and ko: "kernel_ok k" and cov: "covered es k"
    and wok: "watches_ok k (past @ w # todo)" and reg: "registered_are es k past"
    and fit: "\<forall>w'\<in>set (w # todo). fits es k w'"
    and cap: "active_count es + length (w # todo) \<le> EVENT_LOOP_EPOLL_MAX_REGISTERED_FDS"
    and rec: "es_reconciling es"
    by (simp_all add: pass_inv_def)
  have act_y: "rg_active y" and own_y: "rg_owner y \<noteq> None \<and> 0 \<le> rg_fd y" and key_y: "has_key y (watch_key w)"
    using y(1) wok by (auto simp: is_watch_def has_key_def watches_ok_def)
  have count: "active_count ?es1 = active_count es + (if rg_active ?r0 then 0 else 1)"
    using filter_update_add [OF i, of rg_active] filter_update_same [OF i, of rg_active] act_y
    by (auto simp: active_count_def)
  have unique: "i' = j" if "i' < length ?regs" "j < length ?regs" "has_key (?regs[i := y] ! i') key"
    "has_key (?regs[i := y] ! j) key" for i' j key
  proof -
    have same: "\<And>m. m < length ?regs \<Longrightarrow> m \<noteq> i \<Longrightarrow> has_key (?regs ! m) (watch_key w) \<Longrightarrow> False"
      using tab old new i nth_mem unfolding table_ok_def by metis
    show ?thesis
    proof (cases "i' = i \<or> j = i")
      case True
      then have "key = watch_key w" using that key_y has_key_inj i by fastforce
      with True same that show ?thesis by (metis nth_list_update_neq)
    next
      case False
      with that tab show ?thesis unfolding table_ok_def by (metis nth_list_update_neq)
    qed
  qed
  have tab1: "table_ok ?es1"
  proof -
    have "rg_owner (?regs[i := y] ! j) \<noteq> None \<and> 0 \<le> rg_fd (?regs[i := y] ! j)"
      if "j < length ?regs" "rg_active (?regs[i := y] ! j)" for j
      using that tab own_y i unfolding table_ok_def by (cases "j = i") auto
    with tab unique count n show ?thesis unfolding table_ok_def by simp blast
  qed
  have dist: "watch_fd w' \<noteq> watch_fd w \<and> watch_key w' \<noteq> watch_key w" if "w' \<in> set past \<union> set todo" for w'
  proof -
    have "watch_fd w \<notin> watch_fd ` (set past \<union> set todo)" "watch_key w \<notin> watch_key ` (set past \<union> set todo)"
      using wok by (auto simp: watches_ok_def)
    with that show ?thesis by (metis image_eqI)
  qed
  have "kernel_ok k1" using ko wok k1 by (auto simp: kernel_ok_def watches_ok_def)
  moreover have "covered ?es1 k1"
    unfolding covered_def
  proof
    fix f assume f: "f \<in> dom (ek_interest k1)"
    show "\<exists>r\<in>set (es_regs ?es1). rg_active r \<and> rg_fd r = f"
    proof (cases "f = watch_fd w")
      case True
      with y act_y show ?thesis using in_set_update_new [OF i, of y] by (auto simp: is_watch_def)
    next
      case False
      with f k1 have "f \<in> dom (ek_interest k)" by auto
      with cov obtain j where j: "j < length ?regs" "rg_active (?regs ! j)" "rg_fd (?regs ! j) = f"
        unfolding covered_def by (metis in_set_conv_nth)
      with False old have "j \<noteq> i" by auto
      with j show ?thesis using in_set_update_other [of j ?regs i y] by auto
    qed
  qed
  moreover have "registered_are ?es1 k1 (past @ [w])"
    unfolding registered_are_def
  proof (intro conjI ballI impI)
    fix r assume "r \<in> set (es_regs ?es1)" and cur: "current ?es1 r"
    then consider "r = y" | j where "j < length ?regs" "j \<noteq> i" "r = ?regs ! j"
      using i by (auto simp: in_set_update)
    then show "\<exists>w'\<in>set (past @ [w]). is_watch r w'"
      using y(1) reg cur nth_mem by cases (fastforce simp: registered_are_def current_def)+
  next
    fix w' assume w': "w' \<in> set (past @ [w])"
    show "\<exists>r\<in>set (es_regs ?es1). current ?es1 r \<and> is_watch r w'"
    proof (cases "w' \<in> set past")
      case True
      with reg obtain j where j: "j < length ?regs" "current es (?regs ! j)" "is_watch (?regs ! j) w'"
        unfolding registered_are_def by (metis in_set_conv_nth)
      with old have "j \<noteq> i" by (auto simp: current_def)
      with j show ?thesis using in_set_update_other [of j ?regs i y] by (auto simp: current_def)
    next
      case False
      with w' have "w' = w" by simp
      with y act_y show ?thesis using in_set_update_new [OF i, of y] by (auto simp: current_def)
    qed
    show "ek_interest k1 (watch_fd w') = Some (watch_events w')"
      using w' reg dist [of w'] k1 by (auto simp: registered_are_def)
  qed
  moreover have "fits ?es1 k1 w'" if "w' \<in> set todo" for w'
  proof -
    have f: "fits es k w'" using fit that by simp
    have no: "\<not> has_key y (watch_key w')" using key_y dist that has_key_inj by blast
    have eq: "ek_interest k1 (watch_fd w') = ek_interest k (watch_fd w')" using k1 dist that by simp
    have "\<not> has_key ?r0 (watch_key w')"
      using old dist that has_key_inj by (metis Un_iff has_key_def)
    then have "(\<exists>r\<in>set (?regs[i := y]). has_key r (watch_key w') \<and> P r) \<longleftrightarrow>
        (\<exists>r\<in>set ?regs. has_key r (watch_key w') \<and> P r)" for P
      using no by (intro bex_update [OF i]) auto
    from this [of "\<lambda>_. True"] this [of "\<lambda>r. \<not> (rg_seen r \<noteq> es_epoch es \<and> rg_fd r = watch_fd w' \<and>
        ek_interest k (watch_fd w') = Some (rg_events r))"] f eq
    show ?thesis unfolding fits_def by simp blast
  qed
  ultimately show ?thesis
    using tab1 rec wok k1 cap count by (auto simp: pass_inv_def watches_ok_def)
qed


lemma ctl_open: "ek_open (snd (epoll_ctl op fd ev k)) = ek_open k"
  by (simp add: epoll_ctl_def Let_def split: option.splits)

lemma ctl_open_result: "epoll_ctl op fd ev k = (res, k1) \<Longrightarrow> ek_open k1 = ek_open k"
  using ctl_open [of op fd ev k] by simp

lemma ctl_done:
  assumes "epoll_ctl op fd ev k = (None, k1)"
  shows "ek_open k1 = ek_open k"
    "ek_interest k1 = (ek_interest k)(fd := (if op = EPOLL_CTL_DEL then None else Some ev))"
  using assms by (auto simp: epoll_ctl_def Let_def split: option.splits if_splits)

lemma pass_fd:
  assumes inv: "pass_inv es k past (w # todo)"
    and run: "event_loop_epoll_reconcile_fd (Some (fst w)) (fst (snd w)) (watch_fd w) events es k = (res, es', k')"
    and ev: "(if events = 0 then EPOLLIN else events) = watch_events w"
  shows "res \<noteq> None \<or> pass_inv es' k' (past @ [w]) todo"
proof (cases "res = None")
  case res: True
  let ?regs = "es_regs es"
  from inv have fit: "fits es k w" and rec: "es_reconciling es" and tab: "table_ok es"
    and fd: "0 \<le> watch_fd w" "0 \<le> es_epoll_fd es"
    by (auto simp: pass_inv_def watches_ok_def table_ok_def)
  have key: "(\<lambda>r. rg_active r \<and> rg_owner r = Some (fst w) \<and> rg_generation r = fst (snd w)) = (\<lambda>r. has_key r (watch_key w))"
    by (auto simp: has_key_def watch_key_def)
  show ?thesis
  proof (cases "event_loop_epoll_find_registration es (Some (fst w)) (fst (snd w))")
    case (Some i)
    then have i: "i < length ?regs" "has_key (?regs ! i) (watch_key w)"
      using first_index_Some by (force simp: event_loop_epoll_find_registration_def key)+
    with fit have r0: "rg_seen (?regs ! i) \<noteq> es_epoch es" "rg_fd (?regs ! i) = watch_fd w"
      "ek_interest k (watch_fd w) = Some (rg_events (?regs ! i))" "rg_active (?regs ! i)"
      by (auto simp: fits_def has_key_def)
    let ?y = "(?regs ! i)\<lparr>rg_events := watch_events w, rg_seen := es_epoch es\<rparr>"
    have run': "es' = es\<lparr>es_regs := ?regs[i := ?y], es_registered := es_registered es\<rparr> \<and> ek_open k' = ek_open k \<and>
        ek_interest k' = (ek_interest k)(watch_fd w \<mapsto> watch_events w)"
    proof (cases "rg_events (?regs ! i) = watch_events w")
      case True
      then have y: "?y = (?regs ! i)\<lparr>rg_seen := es_epoch es\<rparr>" by (cases "?regs ! i") simp
      show ?thesis unfolding y
        using run res ev r0 rec fd Some True by (auto simp: event_loop_epoll_reconcile_fd_def Let_def)
    next
      case False
      then show ?thesis
        using run res ev r0 rec fd Some
        by (auto simp: event_loop_epoll_reconcile_fd_def Let_def split: prod.splits option.splits dest: ctl_done)
    qed
    have "pass_inv (es\<lparr>es_regs := ?regs[i := ?y], es_registered := es_registered es\<rparr>) k' (past @ [w]) todo"
      by (rule pass_update [OF inv i(1)]) (use run' i r0 in \<open>auto simp: is_watch_def has_key_def\<close>)
    with run' show ?thesis by simp
  next
    case None
    then have none: "\<forall>r\<in>set ?regs. \<not> has_key r (watch_key w)"
      by (simp add: event_loop_epoll_find_registration_def key first_index_None)
    from run res ev rec fd None obtain i where i: "event_loop_epoll_find_free_registration es = Some i"
      and ctl: "epoll_ctl EPOLL_CTL_ADD (watch_fd w) (watch_events w) k = (None, k')"
      and es': "es' = es\<lparr>es_regs := ?regs[i := \<lparr>rg_owner = Some (fst w), rg_generation = fst (snd w),
          rg_events = watch_events w, rg_seen = es_epoch es, rg_fd = watch_fd w, rg_active = True\<rparr>],
        es_registered := es_registered es + 1\<rparr>"
      by (auto simp: event_loop_epoll_reconcile_fd_def Let_def split: if_splits prod.splits option.splits)
    from i have i: "i < length ?regs" "\<not> rg_active (?regs ! i)"
      using first_index_Some by (force simp: event_loop_epoll_find_free_registration_def)+
    show ?thesis
      unfolding es' by (rule disjI2, rule pass_update [OF inv i(1)])
        (use i none ctl_done [OF ctl] in \<open>auto simp: is_watch_def has_key_def watch_defs\<close>)
  qed
qed simp


section \<open>The loop that removes stale registrations\<close>

definition end_inv :: "'o epoll_set \<Rightarrow> epoll_kernel \<Rightarrow> 'o watch list \<Rightarrow> nat \<Rightarrow> bool" where
  "end_inv es k ws n \<longleftrightarrow>
     table_ok es \<and> kernel_ok k \<and> covered es k \<and> registered_are es k ws \<and>
     (\<forall>i<min n (length (es_regs es)). rg_active (es_regs es ! i) \<longrightarrow> current es (es_regs es ! i))"

lemma end_clear:
  assumes inv: "end_inv es k ws n" and n: "n < length (es_regs es)"
    and r: "rg_active (es_regs es ! n)" "\<not> current es (es_regs es ! n)"
    and k1: "ek_open k1 = ek_open k" "kernel_ok k1"
      "ek_interest k1 = (if event_loop_epoll_fd_seen_current es (rg_fd (es_regs es ! n)) n
         then ek_interest k else (ek_interest k)(rg_fd (es_regs es ! n) := None))"
  shows "end_inv (es\<lparr>es_regs := (es_regs es)[n := event_loop_epoll_clear_registration],
      es_registered := (if 0 < es_registered es then es_registered es - 1 else es_registered es)\<rparr>) k1 ws (Suc n)"
proof -
  let ?regs = "es_regs es" and ?c = "event_loop_epoll_clear_registration"
  let ?es1 = "es\<lparr>es_regs := ?regs[n := ?c],
      es_registered := (if 0 < es_registered es then es_registered es - 1 else es_registered es)\<rparr>"
  let ?fd = "rg_fd (?regs ! n)"
  have c: "\<not> rg_active ?c" "\<not> has_key ?c key" "\<not> current es ?c" for key
    by (simp_all add: event_loop_epoll_clear_registration_def has_key_def current_def)
  from inv have tab: "table_ok es" and cov: "covered es k" and reg: "registered_are es k ws"
    and seen: "\<forall>i<min n (length ?regs). rg_active (?regs ! i) \<longrightarrow> current es (?regs ! i)"
    by (simp_all add: end_inv_def)
  have count: "int (active_count es) = int (length (filter rg_active (?regs[n := ?c]))) + 1"
    using filter_update_remove [OF n r(1) c(1)] by (simp add: active_count_def)
  have unique: "i = j" if "i < length ?regs" "j < length ?regs" "has_key (?regs[n := ?c] ! i) key"
    "has_key (?regs[n := ?c] ! j) key" for i j key
  proof -
    from that n have "i \<noteq> n" "j \<noteq> n" by (auto simp: c)
    with that tab show ?thesis unfolding table_ok_def by (metis nth_list_update_neq)
  qed
  have owner: "rg_owner (?regs[n := ?c] ! j) \<noteq> None" if "j < length ?regs" "rg_active (?regs[n := ?c] ! j)" for j
    using that tab c n unfolding table_ok_def by (cases "j = n") auto
  have fd: "0 \<le> rg_fd (?regs[n := ?c] ! j)" if "j < length ?regs" "rg_active (?regs[n := ?c] ! j)" for j
    using that tab c n unfolding table_ok_def by (cases "j = n") auto
  have tab1: "table_ok ?es1"
  proof -
    have "es_registered ?es1 = int (active_count ?es1)"
      using tab count by (simp add: table_ok_def active_count_def)
    with tab unique owner fd show ?thesis unfolding table_ok_def by simp blast
  qed
  have keep: "?regs ! j \<in> set (es_regs ?es1)" if "j < length ?regs" "j \<noteq> n" for j
    using that in_set_update_other [of j ?regs n ?c] by simp
  have seen_other: "\<exists>j<length ?regs. j \<noteq> n \<and> current es (?regs ! j) \<and> rg_fd (?regs ! j) = ?fd"
    if "event_loop_epoll_fd_seen_current es ?fd n"
    using that by (auto simp: event_loop_epoll_fd_seen_current_def list_ex_iff current_def)
  have "covered ?es1 k1"
    unfolding covered_def
  proof
    fix f assume f: "f \<in> dom (ek_interest k1)"
    show "\<exists>r\<in>set (es_regs ?es1). rg_active r \<and> rg_fd r = f"
    proof (cases "f = ?fd \<and> event_loop_epoll_fd_seen_current es ?fd n")
      case True
      then obtain j where "j < length ?regs" "j \<noteq> n" "current es (?regs ! j)" "rg_fd (?regs ! j) = f"
        using seen_other by metis
      with keep show ?thesis by (auto simp: current_def)
    next
      case False
      from f k1 have "f \<in> dom (ek_interest k)" by (auto split: if_splits)
      with cov obtain j where j: "j < length ?regs" "rg_active (?regs ! j)" "rg_fd (?regs ! j) = f"
        unfolding covered_def by (metis in_set_conv_nth)
      with False f k1 have "j \<noteq> n" by (auto split: if_splits)
      with j keep show ?thesis by auto
    qed
  qed
  moreover have "registered_are ?es1 k1 ws"
    unfolding registered_are_def
  proof (intro conjI ballI impI)
    fix r assume "r \<in> set (es_regs ?es1)" and cur: "current ?es1 r"
    then have "r \<in> set ?regs" "current es r"
      using n c by (auto simp: in_set_update current_def)
    with reg show "\<exists>w\<in>set ws. is_watch r w" by (simp add: registered_are_def)
  next
    fix w assume w: "w \<in> set ws"
    with reg obtain j where j: "j < length ?regs" "current es (?regs ! j)" "is_watch (?regs ! j) w"
      and int: "ek_interest k (watch_fd w) = Some (watch_events w)"
      unfolding registered_are_def by (metis in_set_conv_nth)
    from j r have "j \<noteq> n" by auto
    with j keep show "\<exists>r\<in>set (es_regs ?es1). current ?es1 r \<and> is_watch r w" by (auto simp: current_def)
    have "event_loop_epoll_fd_seen_current es ?fd n" if "?fd = watch_fd w"
      using j \<open>j \<noteq> n\<close> that tab n r
      by (auto simp: event_loop_epoll_fd_seen_current_def list_ex_iff current_def is_watch_def table_ok_def)
    with int k1 show "ek_interest k1 (watch_fd w) = Some (watch_events w)" by auto
  qed
  moreover have "current ?es1 (es_regs ?es1 ! i)"
    if "i < min (Suc n) (length (es_regs ?es1))" "rg_active (es_regs ?es1 ! i)" for i
    using that seen c n by (cases "i = n") (auto simp: current_def)
  ultimately show ?thesis using tab1 k1 by (simp add: end_inv_def)
qed


lemma end_open:
  assumes "event_loop_epoll_reconcile_end es k = (res, es', k')"
  shows "ek_open k' = ek_open k"
proof -
  have step: "ek_open (fst (snd (reconcile_end_step x i))) = ek_open (fst (snd x))" for x :: "'b epoll_set \<times> epoll_kernel \<times> int" and i
    by (cases x) (auto simp: reconcile_end_step_def Let_def split: prod.splits dest: ctl_open_result)
  have "ek_open (fst (snd (foldl reconcile_end_step x is))) = ek_open (fst (snd x))" for x :: "'b epoll_set \<times> epoll_kernel \<times> int" and "is"
    by (induction "is" arbitrary: x) (simp_all add: step)
  from this [of "(es, k, 0)" "[0..<length (es_regs es)]"] assms show ?thesis
    by (auto simp: event_loop_epoll_reconcile_end_def split: if_splits prod.splits)
qed

lemma ctl_del:
  assumes "epoll_ctl EPOLL_CTL_DEL fd ev k = (err, k1)" and "kernel_ok k"
  shows "(\<exists>s. err = Some (shortage_errno s)) \<or>
    (err \<in> {None, Some EBADF, Some ENOENT} \<and> ek_interest k1 = (ek_interest k)(fd := None))"
proof -
  have "fd \<notin> set (ek_open k) \<Longrightarrow> ek_interest k fd = None"
    using assms(2) by (auto simp: kernel_ok_def)
  with assms(1) show ?thesis by (auto simp: epoll_ctl_def Let_def fun_eq_iff split: option.splits if_splits)
qed

lemma shortage_errno_values: "shortage_errno s \<noteq> 0" "shortage_errno s \<noteq> EBADF" "shortage_errno s \<noteq> ENOENT"
  by (cases s; simp add: shortage_errno_def c_consts)+

lemma end_step:
  assumes inv: "saved = 0 \<Longrightarrow> end_inv es k ws n" and n: "n < length (es_regs es)"
    and watches: "watches_ok k ws"
    and run: "reconcile_end_step (es, k, saved) n = (es', k', saved')"
  shows "(saved' = 0 \<longrightarrow> saved = 0 \<and> end_inv es' k' ws (Suc n)) \<and> length (es_regs es') = length (es_regs es) \<and>
    ek_open k' = ek_open k"
proof (cases "\<not> rg_active (es_regs es ! n) \<or> rg_owner (es_regs es ! n) = NULL \<or>
    rg_seen (es_regs es ! n) = es_epoch es")
  case True
  with run have "es' = es" "k' = k" "saved' = saved" by (auto simp: reconcile_end_step_def)
  moreover have "end_inv es k ws (Suc n)" if "saved = 0"
    using inv [OF that] True n unfolding end_inv_def table_ok_def
    by (auto simp: current_def less_Suc_eq)
  ultimately show ?thesis by simp
next
  case False
  let ?r = "es_regs es ! n"
  let ?del = "\<not> event_loop_epoll_fd_seen_current es (rg_fd ?r) n \<and> 0 \<le> rg_fd ?r"
  obtain err k1 where del: "(if ?del then epoll_ctl EPOLL_CTL_DEL (rg_fd ?r) 0 k else (None, k)) = (err, k1)"
    by fastforce
  have run': "es' = es\<lparr>es_regs := (es_regs es)[n := event_loop_epoll_clear_registration],
      es_registered := (if 0 < es_registered es then es_registered es - 1 else es_registered es)\<rparr>" "k' = k1"
    "saved' = (case err of None \<Rightarrow> saved | Some e \<Rightarrow> if e \<noteq> EBADF \<and> e \<noteq> ENOENT \<and> saved = 0 then e else saved)"
    using run unfolding reconcile_end_step_def Let_def prod.case if_not_P [OF False] del by (simp_all only: prod.inject)
  have op: "ek_open k1 = ek_open k"
    using del ctl_open [of EPOLL_CTL_DEL "rg_fd ?r" 0 k] by (auto split: if_splits)
  moreover have "saved = 0 \<and> end_inv es' k1 ws (Suc n)" if saved': "saved' = 0"
  proof
    from saved' run'(3) show saved: "saved = 0" by (auto split: option.splits if_splits)
    note inv = inv [OF saved]
    then have ko: "kernel_ok k" and fd: "0 \<le> rg_fd ?r"
      using False n by (auto simp: end_inv_def table_ok_def)
    have int: "ek_interest k1 = (if event_loop_epoll_fd_seen_current es (rg_fd ?r) n then ek_interest k
        else (ek_interest k)(rg_fd ?r := None))"
      using del fd ctl_del [OF _ ko, of "rg_fd ?r" 0 err k1] shortage_errno_values saved' saved run'(3)
      by (auto split: if_splits)
    then have "kernel_ok k1" using ko op by (auto simp: kernel_ok_def split: if_splits)
    then show "end_inv es' k1 ws (Suc n)"
      unfolding run' using False by (intro end_clear [OF inv n _ _ op _ int]) (auto simp: current_def)
  qed
  ultimately show ?thesis using run' by simp
qed

lemma end_loop:
  assumes "end_inv es k ws 0" and "watches_ok k ws" and "n \<le> length (es_regs es)"
  shows "case foldl reconcile_end_step (es, k, 0) [0..<n] of (es', k', saved) \<Rightarrow>
    (saved = 0 \<longrightarrow> end_inv es' k' ws n) \<and> length (es_regs es') = length (es_regs es) \<and> ek_open k' = ek_open k"
  using assms(3)
proof (induction n)
  case 0
  then show ?case using assms(1) by simp
next
  case (Suc n)
  obtain es1 k1 saved1 where before: "foldl reconcile_end_step (es, k, 0) [0..<n] = (es1, k1, saved1)"
    by (cases "foldl reconcile_end_step (es, k, 0) [0..<n]") auto
  obtain es2 k2 saved2 where step: "reconcile_end_step (es1, k1, saved1) n = (es2, k2, saved2)"
    by (cases "reconcile_end_step (es1, k1, saved1) n") auto
  have ih: "saved1 = 0 \<longrightarrow> end_inv es1 k1 ws n" "length (es_regs es1) = length (es_regs es)" "ek_open k1 = ek_open k"
    using Suc before by auto
  then have "watches_ok k1 ws" using assms(2) by (simp add: watches_ok_def)
  with end_step [OF _ _ _ step, of ws] ih Suc.prems step before show ?case by auto
qed


section \<open>A whole pass\<close>

definition idle :: "'o epoll_set \<Rightarrow> bool" where
  "idle es \<longleftrightarrow> table_ok es \<and> \<not> es_reconciling es \<and>
     (\<forall>r\<in>set (es_regs es). rg_active r \<longrightarrow> rg_seen r = es_epoch es)"

definition matches :: "'o epoll_set \<Rightarrow> epoll_kernel \<Rightarrow> 'o watch \<Rightarrow> bool" where
  "matches es k w \<longleftrightarrow>
     (\<forall>r\<in>set (es_regs es). has_key r (watch_key w) \<longrightarrow>
        rg_fd r = watch_fd w \<and> ek_interest k (watch_fd w) = Some (rg_events r)) \<and>
     ((\<forall>r\<in>set (es_regs es). \<not> has_key r (watch_key w)) \<longrightarrow> ek_interest k (watch_fd w) = None)"

definition synced :: "'o epoll_set \<Rightarrow> epoll_kernel \<Rightarrow> 'o watch list \<Rightarrow> bool" where
  "synced es k ws \<longleftrightarrow> idle es \<and> kernel_ok k \<and>
     (\<forall>r\<in>set (es_regs es). rg_active r \<longrightarrow> (\<exists>w\<in>set ws. is_watch r w)) \<and>
     (\<forall>w\<in>set ws. \<exists>r\<in>set (es_regs es). is_watch r w) \<and>
     (\<forall>f e. ek_interest k f = Some e \<longleftrightarrow> (\<exists>w\<in>set ws. watch_fd w = f \<and> watch_events w = e))"

lemma begin_marks:
  assumes "idle es"
  obtains f es1 where "event_loop_epoll_reconcile_begin es = (None, es1)"
    "es_regs es1 = map (\<lambda>r. r\<lparr>rg_seen := f r\<rparr>) (es_regs es)" "es_reconciling es1"
    "es_epoll_fd es1 = es_epoll_fd es" "es_registered es1 = es_registered es"
    "\<And>r. r \<in> set (es_regs es) \<Longrightarrow> rg_active r \<Longrightarrow> f r \<noteq> es_epoch es1"
proof (cases "es_epoch es + 1 = 0")
  case True
  show thesis
    by (rule that [of "es\<lparr>es_regs := map (\<lambda>r. r\<lparr>rg_seen := 0\<rparr>) (es_regs es), es_epoch := 1, es_reconciling := True\<rparr>" "\<lambda>_. 0"])
      (use assms True in \<open>simp_all add: event_loop_epoll_reconcile_begin_def idle_def table_ok_def Let_def\<close>)
next
  case False
  show thesis
    by (rule that [of "es\<lparr>es_epoch := es_epoch es + 1, es_reconciling := True\<rparr>" rg_seen])
      (use assms False in \<open>simp_all add: event_loop_epoll_reconcile_begin_def idle_def table_ok_def Let_def\<close>)
qed

lemma has_key_seen [simp]: "has_key (r\<lparr>rg_seen := s\<rparr>) key = has_key r key"
  by (simp add: has_key_def)

lemma pass_begin:
  assumes es: "idle es" and k: "kernel_ok k" "covered es k" and ws: "watches_ok k ws" "\<forall>w\<in>set ws. matches es k w"
    and cap: "active_count es + length ws \<le> EVENT_LOOP_EPOLL_MAX_REGISTERED_FDS"
  obtains es1 where "event_loop_epoll_reconcile_begin es = (None, es1)" "pass_inv es1 k [] ws"
proof -
  obtain f es1 where b: "event_loop_epoll_reconcile_begin es = (None, es1)"
    and regs: "es_regs es1 = map (\<lambda>r. r\<lparr>rg_seen := f r\<rparr>) (es_regs es)" and rec: "es_reconciling es1"
    and fd: "es_epoll_fd es1 = es_epoll_fd es" "es_registered es1 = es_registered es"
    and seen: "\<And>r. r \<in> set (es_regs es) \<Longrightarrow> rg_active r \<Longrightarrow> f r \<noteq> es_epoch es1"
    by (rule begin_marks [OF es]) (rule that)
  have count: "active_count es1 = active_count es"
    by (simp add: active_count_def regs filter_map o_def)
  have "table_ok es1"
    using es fd count by (simp add: idle_def table_ok_def regs)
  moreover have "covered es1 k" using k(2) by (fastforce simp: covered_def regs)
  moreover have "registered_are es1 k []" using seen by (auto simp: registered_are_def current_def regs)
  moreover have "fits es1 k w" if "w \<in> set ws" for w
    using ws(2) that seen by (auto simp: fits_def matches_def regs has_key_def)
  ultimately have "pass_inv es1 k [] ws"
    using k(1) ws(1) cap count rec by (simp add: pass_inv_def)
  with b that show thesis by blast
qed

lemma pass_end:
  assumes inv: "pass_inv es k ws []" and run: "event_loop_epoll_reconcile_end es k = (res, es', k')"
  shows "(res \<noteq> None \<or> synced es' k' ws) \<and> ek_open k' = ek_open k"
proof -
  from inv have start: "end_inv es k ws 0" and ws: "watches_ok k ws"
    and go: "\<not> es_epoll_fd es < 0" "es_reconciling es"
    by (auto simp: pass_inv_def end_inv_def table_ok_def)
  obtain es1 k1 saved where loop: "foldl reconcile_end_step (es, k, 0) [0..<length (es_regs es)] = (es1, k1, saved)"
    by (cases "foldl reconcile_end_step (es, k, 0) [0..<length (es_regs es)]") auto
  from end_loop [OF start ws order_refl] loop
  have fin: "saved = 0 \<longrightarrow> end_inv es1 k1 ws (length (es_regs es))" "length (es_regs es1) = length (es_regs es)"
    "ek_open k1 = ek_open k" by auto
  from run go loop have out: "res = (if saved \<noteq> 0 then Some saved else None)"
    "es' = es1\<lparr>es_reconciling := False\<rparr>" "k' = k1"
    by (auto simp: event_loop_epoll_reconcile_end_def)
  have "synced es' k' ws" if "saved = 0"
  proof -
    from fin that have inv1: "end_inv es1 k1 ws (length (es_regs es1))" by simp
    then have act: "current es1 r" if "r \<in> set (es_regs es1)" "rg_active r" for r
      using that by (auto simp: end_inv_def in_set_conv_nth)
    have reg: "registered_are es1 k1 ws" and cov: "covered es1 k1" and ko: "kernel_ok k1" and tab: "table_ok es1"
      using inv1 by (simp_all add: end_inv_def)
    have "ek_interest k1 f = Some e \<longleftrightarrow> (\<exists>w\<in>set ws. watch_fd w = f \<and> watch_events w = e)" for f e
    proof
      assume int: "ek_interest k1 f = Some e"
      with cov obtain r where "r \<in> set (es_regs es1)" "rg_active r" "rg_fd r = f"
        by (force simp: covered_def)
      with act reg obtain w where "w \<in> set ws" "is_watch r w" by (auto simp: registered_are_def)
      with reg int \<open>rg_fd r = f\<close> show "\<exists>w\<in>set ws. watch_fd w = f \<and> watch_events w = e"
        by (auto simp: registered_are_def is_watch_def)
    qed (use reg in \<open>auto simp: registered_are_def\<close>)
    moreover have "idle es'" using tab act out by (auto simp: idle_def table_ok_def active_count_def current_def)
    ultimately show ?thesis
      using reg act ko out by (auto simp: synced_def registered_are_def)
  qed
  with out fin show ?thesis by auto
qed

text \<open>The requests of a pass, in the order of the calls, and the watches they ask for.\<close>

definition request_watch :: "'o watch \<Rightarrow> 'o watch" where
  "request_watch q = (fst q, fst (snd q), watch_fd q, if watch_events q = 0 then EPOLLIN else watch_events q)"

definition request :: "'o watch \<Rightarrow> 'o event_loop_set \<times> epoll_kernel \<Rightarrow> 'o event_loop_set \<times> epoll_kernel" where
  "request q = event_loop_reconcile_fd (Some (fst q)) (fst (snd q)) (watch_fd q) (watch_events q)"

lemma record_result_simps [simp]:
  "el_epoll (record_result res es) = el_epoll es"
  "el_registration_errno (record_result None es) = el_registration_errno es"
  "el_registration_errno (record_result (Some e) es) \<noteq> 0"
  "el_registration_errno es \<noteq> 0 \<Longrightarrow> el_registration_errno (record_result res es) \<noteq> 0"
  by (auto simp: record_result_def event_loop_record_registration_error_def c_consts split: option.splits)

lemma reconcile_fd_open:
  "event_loop_epoll_reconcile_fd owner g fd ev es k = (res, es', k') \<Longrightarrow> ek_open k' = ek_open k"
  using ctl_open by (auto simp: event_loop_epoll_reconcile_fd_def Let_def split: if_splits option.splits prod.splits)
    (metis snd_conv)+

lemma pass_requests:
  assumes "el_registration_errno els \<noteq> 0 \<or> pass_inv (el_epoll els) k past (map request_watch qs)"
    and "foldl (\<lambda>sk q. request q sk) (els, k) qs = (els', k')"
  shows "(el_registration_errno els' \<noteq> 0 \<or> pass_inv (el_epoll els') k' (past @ map request_watch qs) []) \<and>
    ek_open k' = ek_open k"
  using assms
proof (induction qs arbitrary: els k past)
  case (Cons q qs)
  obtain res es1 k1 where r: "event_loop_epoll_reconcile_fd (Some (fst q)) (fst (snd q)) (watch_fd q)
      (watch_events q) (el_epoll els) k = (res, es1, k1)" by (metis prod_cases3)
  let ?els1 = "record_result res (els\<lparr>el_epoll := es1\<rparr>)"
  have req: "request q (els, k) = (?els1, k1)"
    by (simp add: request_def event_loop_reconcile_fd_def r)
  have "el_registration_errno ?els1 \<noteq> 0 \<or> pass_inv (el_epoll ?els1) k1 (past @ [request_watch q]) (map request_watch qs)"
  proof (cases "el_registration_errno els = 0")
    case True
    with Cons.prems(1) have "pass_inv (el_epoll els) k past (request_watch q # map request_watch qs)" by simp
    from pass_fd [OF this, of "watch_events q" res es1 k1] r
    show ?thesis by (cases res) (auto simp: request_watch_def watch_defs)
  qed simp
  from Cons.IH [OF this] Cons.prems(2) req reconcile_fd_open [OF r] show ?case by simp
qed simp

lemma sync_requests:
  assumes ok: "el_registration_errno els = 0" and es: "idle (el_epoll els)"
    and k: "kernel_ok k" "covered (el_epoll els) k"
    and ws: "watches_ok k (map request_watch qs)" "\<forall>w\<in>set (map request_watch qs). matches (el_epoll els) k w"
    and cap: "active_count (el_epoll els) + length qs \<le> EVENT_LOOP_EPOLL_MAX_REGISTERED_FDS"
    and run: "(let (els1, k1) = foldl (\<lambda>sk q. request q sk) (event_loop_reconcile_begin els, k) qs
               in event_loop_reconcile_end els1 k1) = (els', k')"
  shows "(el_registration_errno els' \<noteq> 0 \<or> synced (el_epoll els') k' (map request_watch qs)) \<and> ek_open k' = ek_open k"
proof -
  obtain es0 where b: "event_loop_epoll_reconcile_begin (el_epoll els) = (None, es0)"
    and inv: "pass_inv es0 k [] (map request_watch qs)"
    using pass_begin [OF es k ws] cap by auto
  obtain els1 k1 where loop: "foldl (\<lambda>sk q. request q sk) (event_loop_reconcile_begin els, k) qs = (els1, k1)"
    by (metis surj_pair)
  have beg: "event_loop_reconcile_begin els = els\<lparr>el_epoll := es0\<rparr>"
    by (simp add: event_loop_reconcile_begin_def b record_result_def)
  from pass_requests [OF _ loop, of "[]"] inv beg
  have mid: "el_registration_errno els1 \<noteq> 0 \<or> pass_inv (el_epoll els1) k1 (map request_watch qs) []"
    and op: "ek_open k1 = ek_open k" by auto
  obtain res es2 where e: "event_loop_epoll_reconcile_end (el_epoll els1) k1 = (res, es2, k')"
    and els': "els' = record_result res (els1\<lparr>el_epoll := es2\<rparr>)"
    using run loop by (auto simp: event_loop_reconcile_end_def split: prod.splits)
  show ?thesis
  proof (cases "el_registration_errno els1 = 0")
    case True
    with mid pass_end [OF _ e] op els' show ?thesis by (cases res) auto
  next
    case False
    have "ek_open k' = ek_open k1" using end_open [OF e] .
    with False els' op show ?thesis by simp
  qed
qed


section \<open>Without a shortage in the kernel nothing fails\<close>

definition plenty :: "epoll_kernel \<Rightarrow> bool" where
  "plenty k \<longleftrightarrow> (\<forall>n. ek_short k n = None)"

lemma ctl_plenty: "epoll_ctl op fd ev k = (res, k1) \<Longrightarrow> plenty k \<Longrightarrow>
    plenty k1 \<and> (res = None \<or> fd \<notin> set (ek_open k) \<and> res = Some EBADF \<or>
      fd \<in> set (ek_open k) \<and> op = EPOLL_CTL_ADD \<and> ek_interest k fd \<noteq> None \<or>
      fd \<in> set (ek_open k) \<and> op \<noteq> EPOLL_CTL_ADD \<and> ek_interest k fd = None \<and> res = Some ENOENT)"
  by (auto simp: epoll_ctl_def Let_def plenty_def split: if_splits option.splits)

lemma fd_plenty:
  assumes inv: "pass_inv es k past (w # todo)" and k: "plenty k"
    and run: "event_loop_epoll_reconcile_fd (Some (fst w)) (fst (snd w)) (watch_fd w) events es k = (res, es', k')"
  shows "res = None \<and> plenty k'"
proof -
  from inv have fit: "fits es k w" and rec: "es_reconciling es" and tab: "table_ok es"
    and cap: "active_count es < EVENT_LOOP_EPOLL_MAX_REGISTERED_FDS"
    and fd: "0 \<le> watch_fd w" "\<not> es_epoll_fd es < 0" "watch_fd w \<in> set (ek_open k)"
    by (auto simp: pass_inv_def watches_ok_def table_ok_def)
  have key: "(\<lambda>r. rg_active r \<and> rg_owner r = Some (fst w) \<and> rg_generation r = fst (snd w)) = (\<lambda>r. has_key r (watch_key w))"
    by (auto simp: has_key_def watch_key_def)
  show ?thesis
  proof (cases "event_loop_epoll_find_registration es (Some (fst w)) (fst (snd w))")
    case (Some i)
    then have "i < length (es_regs es)" "has_key (es_regs es ! i) (watch_key w)"
      using first_index_Some by (force simp: event_loop_epoll_find_registration_def key)+
    with fit have "rg_fd (es_regs es ! i) = watch_fd w" "ek_interest k (watch_fd w) \<noteq> None"
      by (auto simp: fits_def)
    with run Some rec fd k show ?thesis
      by (auto simp: event_loop_epoll_reconcile_fd_def Let_def split: if_splits prod.splits option.splits
          dest!: ctl_plenty)
  next
    case None
    then have "ek_interest k (watch_fd w) = None"
      using fit by (simp add: event_loop_epoll_find_registration_def key first_index_None fits_def)
    moreover have "event_loop_epoll_find_free_registration es \<noteq> None"
    proof
      assume "event_loop_epoll_find_free_registration es = None"
      then have "filter rg_active (es_regs es) = es_regs es"
        by (simp add: event_loop_epoll_find_free_registration_def first_index_None)
      with cap tab show False by (simp add: active_count_def table_ok_def)
    qed
    moreover have "\<not> int EVENT_LOOP_EPOLL_MAX_REGISTERED_FDS \<le> es_registered es"
      using tab cap by (simp add: table_ok_def)
    ultimately show ?thesis using run None rec fd k
      by (auto simp: event_loop_epoll_reconcile_fd_def Let_def split: if_splits prod.splits option.splits
          dest!: ctl_plenty)
  qed
qed

lemma end_step_plenty:
  "reconcile_end_step (es, k, 0) i = (es', k', saved) \<Longrightarrow> plenty k \<Longrightarrow> saved = 0 \<and> plenty k'"
  by (auto simp: reconcile_end_step_def Let_def split: if_splits prod.splits option.splits dest!: ctl_plenty)

lemma end_loop_plenty:
  assumes "plenty k"
  shows "case foldl reconcile_end_step (es, k, 0) is of (es', k', saved) \<Rightarrow> saved = 0 \<and> plenty k'"
  using assms
proof (induction "is" arbitrary: es k)
  case (Cons i "is")
  obtain es1 k1 saved where step: "reconcile_end_step (es, k, 0) i = (es1, k1, saved)"
    by (metis prod_cases3)
  with end_step_plenty [OF step Cons.prems] Cons.IH show ?case by simp
qed simp

lemma end_plenty:
  assumes "event_loop_epoll_reconcile_end es k = (res, es', k')" and "plenty k"
    and "0 \<le> es_epoll_fd es" and "es_reconciling es"
  shows "res = None"
  using assms end_loop_plenty [OF assms(2), of es "[0..<length (es_regs es)]"]
  by (auto simp: event_loop_epoll_reconcile_end_def split: prod.splits)

lemma requests_plenty:
  assumes "pass_inv (el_epoll els) k past (map request_watch qs)" and "el_registration_errno els = 0" and "plenty k"
    and "foldl (\<lambda>sk q. request q sk) (els, k) qs = (els', k')"
  shows "el_registration_errno els' = 0 \<and> plenty k'"
  using assms
proof (induction qs arbitrary: els k past)
  case (Cons q qs)
  obtain res es1 k1 where r: "event_loop_epoll_reconcile_fd (Some (fst q)) (fst (snd q)) (watch_fd q)
      (watch_events q) (el_epoll els) k = (res, es1, k1)" by (metis prod_cases3)
  from Cons.prems(1) have inv: "pass_inv (el_epoll els) k past (request_watch q # map request_watch qs)" by simp
  from fd_plenty [OF inv Cons.prems(3), of "watch_events q" res es1 k1]
    pass_fd [OF inv, of "watch_events q" res es1 k1] r
  have "res = None" "plenty k1" "pass_inv es1 k1 (past @ [request_watch q]) (map request_watch qs)"
    by (auto simp: request_watch_def watch_defs)
  with Cons.IH [of "els\<lparr>el_epoll := es1\<rparr>" k1 "past @ [request_watch q]"] Cons.prems r show ?case
    by (auto simp: request_def event_loop_reconcile_fd_def record_result_def)
qed simp

lemma sync_plenty:
  assumes ok: "el_registration_errno els = 0" and es: "idle (el_epoll els)"
    and k: "kernel_ok k" "covered (el_epoll els) k" "plenty k"
    and ws: "watches_ok k (map request_watch qs)" "\<forall>w\<in>set (map request_watch qs). matches (el_epoll els) k w"
    and cap: "active_count (el_epoll els) + length qs \<le> EVENT_LOOP_EPOLL_MAX_REGISTERED_FDS"
    and run: "(let (els1, k1) = foldl (\<lambda>sk q. request q sk) (event_loop_reconcile_begin els, k) qs
               in event_loop_reconcile_end els1 k1) = (els', k')"
  shows "el_registration_errno els' = 0"
proof -
  obtain es0 where b: "event_loop_epoll_reconcile_begin (el_epoll els) = (None, es0)"
    and inv: "pass_inv es0 k [] (map request_watch qs)"
    using pass_begin [OF es k(1,2) ws] cap by auto
  obtain els1 k1 where loop: "foldl (\<lambda>sk q. request q sk) (event_loop_reconcile_begin els, k) qs = (els1, k1)"
    by (metis surj_pair)
  have beg: "event_loop_reconcile_begin els = els\<lparr>el_epoll := es0\<rparr>"
    by (simp add: event_loop_reconcile_begin_def b record_result_def)
  from requests_plenty [OF _ _ k(3) loop, of "[]"] inv ok beg
  have mid: "el_registration_errno els1 = 0" "plenty k1" by auto
  moreover from pass_requests [OF _ loop, of "[]"] inv beg mid(1)
  have "pass_inv (el_epoll els1) k1 (map request_watch qs) []" by simp
  then have "0 \<le> es_epoll_fd (el_epoll els1)" "es_reconciling (el_epoll els1)"
    unfolding pass_inv_def table_ok_def by blast+
  moreover obtain res es2 k2 where e: "event_loop_epoll_reconcile_end (el_epoll els1) k1 = (res, es2, k2)"
    by (metis prod_cases3)
  ultimately have "res = None" using end_plenty mid(2) by blast
  with run loop e mid show ?thesis by (auto simp: event_loop_reconcile_end_def)
qed

lemma synced_count:
  assumes "synced es k ws"
  shows "active_count es \<le> length ws"
proof -
  let ?A = "{i. i < length (es_regs es) \<and> rg_active (es_regs es ! i)}"
  have "\<exists>w\<in>set ws. is_watch (es_regs es ! i) w" if "i \<in> ?A" for i
    using assms that by (auto simp: synced_def)
  then obtain f where f: "\<And>i. i \<in> ?A \<Longrightarrow> f i \<in> set ws \<and> is_watch (es_regs es ! i) (f i)"
    by metis
  have "inj_on f ?A"
  proof (rule inj_onI)
    fix i j assume ij: "i \<in> ?A" "j \<in> ?A" "f i = f j"
    with f have "has_key (es_regs es ! i) (watch_key (f i))" "has_key (es_regs es ! j) (watch_key (f i))"
      by (metis is_watch_def)+
    with ij assms show "i = j" by (auto simp: synced_def idle_def intro: table_unique)
  qed
  moreover have "f ` ?A \<subseteq> set ws" using f by blast
  ultimately have "card ?A \<le> card (set ws)" by (intro card_inj_on_le) auto
  also have "\<dots> \<le> length ws" by (rule card_length)
  finally show ?thesis by (simp add: active_count_def length_filter_conv_card)
qed

end
