(* ===== verification/Event_Loop_Run.thy ===== *)
theory Event_Loop_Run
  imports Event_Loop_Sync
begin

text \<open>
  The event loop in the running daemon: between two passes clients connect and disconnect, files
  and libusb descriptors come and go, and the kernel hands out descriptor numbers again as soon as
  they are free. The step relation lists these changes; whatever happened, the next pass brings
  the kernel's interest list to exactly the sockets of the daemon.
\<close>

section \<open>The requests of a pass\<close>

fun slot_requests :: "(nat \<Rightarrow> fd_owner) \<Rightarrow> nat \<Rightarrow> client_slot list \<Rightarrow> fd_owner watch list" where
  "slot_requests own i [] = []"
| "slot_requests own i (s # ss) =
     (if client_slot_has_client s then [(own i, cl_generation s, cl_fd s, slot_events s)] else []) @
     slot_requests own (i + 1) ss"

definition listener_requests :: "channel \<Rightarrow> fd_owner watch list" where
  "listener_requests ch =
     filter (\<lambda>q. 0 \<le> watch_fd q) [(Own_Data_Listen, 1, ch_data_fd ch, EPOLLIN),
       (Own_Framed_Listen, 1, ch_framed_fd ch, EPOLLIN), (Own_Conf_Listen, 1, ch_conf_fd ch, EPOLLIN)]"

definition monitor_requests :: "monitor_fds \<Rightarrow> fd_owner watch list" where
  "monitor_requests mon = (case mon of None \<Rightarrow> []
     | Some fds \<Rightarrow> map (\<lambda>f. (Own_Monitor, word_of_int (fst f), fst f, monitor_events (snd f))) fds)"

definition channel_requests :: "channel \<Rightarrow> monitor_fds \<Rightarrow> fd_owner watch list" where
  "channel_requests ch mon = listener_requests ch @ slot_requests Own_Data_Slot 0 (ch_data ch) @
     slot_requests Own_Framed_Slot 0 (ch_framed ch) @ slot_requests Own_Conf_Slot 0 (ch_conf ch) @
     monitor_requests mon"

abbreviation send_requests ::
  "fd_owner watch list \<Rightarrow> fd_owner event_loop_set \<times> epoll_kernel \<Rightarrow> fd_owner event_loop_set \<times> epoll_kernel" where
  "send_requests qs sk \<equiv> foldl (\<lambda>sk q. request q sk) sk qs"

lemma slots_as_requests:
  "radio_channel_reconcile_slots own i ss sk = send_requests (slot_requests own i ss) sk"
  by (induction own i ss sk rule: radio_channel_reconcile_slots.induct) (simp_all add: request_def watch_defs)

lemma monitor_as_requests: "daemon_ch341_reconcile_fds mon sk = send_requests (monitor_requests mon) sk"
proof (cases mon)
  case (Some fds)
  have "monitor_reconcile_loop fds sk = send_requests (monitor_requests (Some fds)) sk" for fds sk
    by (induction fds sk rule: monitor_reconcile_loop.induct)
      (simp_all add: request_def watch_defs monitor_requests_def)
  with Some show ?thesis by (simp add: daemon_ch341_reconcile_fds_def)
qed (simp add: daemon_ch341_reconcile_fds_def monitor_requests_def)

lemma sync_as_requests:
  "daemon_io_sync_event_fds ch mon (els, k) =
     (if el_registration_errno els \<noteq> 0 then (els, k)
      else (let (els1, k1) = send_requests (channel_requests ch mon) (event_loop_reconcile_begin els, k)
            in event_loop_reconcile_end els1 k1))"
  by (simp add: daemon_io_sync_event_fds_def event_loop_registration_failed_def channel_requests_def
      radio_channel_reconcile_fds_def slots_as_requests monitor_as_requests listener_requests_def
      reconcile_listener_def request_def watch_defs Let_def)

section \<open>What changes between two passes\<close>

datatype sock = Sock_Data | Sock_Framed | Sock_Conf

fun sock_slots :: "sock \<Rightarrow> channel \<Rightarrow> client_slot list" where
  "sock_slots Sock_Data ch = ch_data ch"
| "sock_slots Sock_Framed ch = ch_framed ch"
| "sock_slots Sock_Conf ch = ch_conf ch"

fun sock_put :: "sock \<Rightarrow> client_slot list \<Rightarrow> net \<Rightarrow> channel \<Rightarrow> channel" where
  "sock_put Sock_Data ss net ch = ch\<lparr>ch_data := ss, ch_net := net\<rparr>"
| "sock_put Sock_Framed ss net ch = ch\<lparr>ch_framed := ss, ch_net := net\<rparr>"
| "sock_put Sock_Conf ss net ch = ch\<lparr>ch_conf := ss, ch_net := net\<rparr>"

fun sock_owner :: "sock \<Rightarrow> nat \<Rightarrow> fd_owner" where
  "sock_owner Sock_Data i = Own_Data_Slot i"
| "sock_owner Sock_Framed i = Own_Framed_Slot i"
| "sock_owner Sock_Conf i = Own_Conf_Slot i"

definition client_fds :: "client_slot list \<Rightarrow> int list" where
  "client_fds ss = map cl_fd (filter client_slot_has_client ss)"

definition daemon_fds :: "channel \<Rightarrow> (int \<times> u16) list \<Rightarrow> int list" where
  "daemon_fds ch mon = [ch_data_fd ch, ch_framed_fd ch, ch_conf_fd ch] @
     client_fds (ch_data ch) @ client_fds (ch_framed ch) @ client_fds (ch_conf ch) @ map fst mon"

text \<open>
  \<open>io_changes\<close> counts the connections opened and closed since the last pass. The code handles at
  most one new connection and a few disconnects per slot and pass; the bound only excludes that a
  slot's 32-bit generation goes around completely between two passes. \<open>io_reopened\<close> is ghost: libusb
  has opened a descriptor under a number that a registration of the monitor still had at that time.
\<close>

record io_state =
  io_chan :: channel
  io_mon :: "(int \<times> u16) list"
  io_set :: "fd_owner event_loop_set"
  io_kernel :: epoll_kernel
  io_changes :: nat
  io_reopened :: bool

definition fresh_fd :: "int \<Rightarrow> epoll_kernel \<Rightarrow> bool" where
  "fresh_fd fd k \<longleftrightarrow> 0 \<le> fd \<and> fd < 2147483648 \<and> fd \<notin> set (ek_open k)"

definition left_registered :: "fd_owner event_loop_set \<Rightarrow> int \<Rightarrow> bool" where
  "left_registered els fd \<longleftrightarrow>
     list_ex (\<lambda>r. rg_active r \<and> rg_owner r = Some Own_Monitor \<and> rg_fd r = fd) (es_regs (el_epoll els))"

definition MONITOR_FDS_MAX :: nat where
  "MONITOR_FDS_MAX = 16"

inductive io_start :: "io_state \<Rightarrow> bool" where
  io_start: "io_start \<lparr>io_chan = radio_channel_io_init d f c (client_slot_init_all ds)
       (client_slot_init_all fs) (client_slot_init_all cs) net, io_mon = [],
     io_set = snd (event_loop_init created es), io_kernel = k, io_changes = 0,
     io_reopened = False\<rparr>"
  if "distinct [d, f, c]" "set [d, f, c] \<subseteq> set (ek_open k) \<inter> {0..<2147483648}"
    "length ds = MAX_CLIENTS" "length fs = MAX_CLIENTS" "length cs = MAX_CLIENTS"
    "0 \<le> created" "ek_interest k = Map.empty"

text \<open>
  A failed \<open>accept\<close> closes the new descriptor at once. \<open>io_traffic\<close> is everything that fills or
  drains a client's output queue or its line buffer. In \<open>io_monitor_add\<close> libusb opens a
  descriptor under any free number; a pass sees either the monitor's descriptors or none.
\<close>

inductive io_step :: "io_state \<Rightarrow> io_state \<Rightarrow> bool" where
  io_accept: "io_step x (x\<lparr>io_chan := sock_put s ss net (io_chan x),
       io_kernel := (if r = fd then kernel_open fd (io_kernel x)
                     else kernel_close fd (kernel_open fd (io_kernel x))),
       io_changes := io_changes x + 1\<rparr>)"
  if "fresh_fd fd (io_kernel x)" "io_changes x < 4294967294"
    "client_slot_accept_with_output (Accepted fd ok) (sock_slots s (io_chan x)) (ch_net (io_chan x)) = (r, ss, net)"
| io_close: "io_step x (x\<lparr>io_chan := sock_put s ((sock_slots s (io_chan x))[i := slot]) net (io_chan x),
       io_kernel := kernel_close (cl_fd (sock_slots s (io_chan x) ! i)) (io_kernel x),
       io_changes := io_changes x + 1\<rparr>)"
  if "i < length (sock_slots s (io_chan x))" "client_slot_has_client (sock_slots s (io_chan x) ! i)"
    "io_changes x < 4294967294"
    "client_slot_close (sock_slots s (io_chan x) ! i) (ch_net (io_chan x)) = (slot, net)"
| io_traffic: "io_step x (x\<lparr>io_chan := sock_put s ((sock_slots s (io_chan x))[i :=
       (sock_slots s (io_chan x) ! i)\<lparr>cl_output := q, cl_stream := lines\<rparr>]) net (io_chan x)\<rparr>)"
  if "i < length (sock_slots s (io_chan x))"
| io_open: "io_step x (x\<lparr>io_kernel := kernel_open fd (io_kernel x)\<rparr>)"
  if "fresh_fd fd (io_kernel x)"
| io_close_other: "io_step x (x\<lparr>io_kernel := kernel_close fd (io_kernel x)\<rparr>)"
  if "fd \<notin> set (daemon_fds (io_chan x) (io_mon x))"
| io_monitor_add: "io_step x (x\<lparr>io_mon := (fd, ev) # io_mon x, io_kernel := kernel_open fd (io_kernel x),
       io_reopened := io_reopened x \<or> left_registered (io_set x) fd\<rparr>)"
  if "fresh_fd fd (io_kernel x)"
| io_monitor_remove: "io_step x (x\<lparr>io_mon := filter (\<lambda>f. fst f \<noteq> fd) (io_mon x),
       io_kernel := kernel_close fd (io_kernel x)\<rparr>)"
  if "fd \<in> fst ` set (io_mon x)"
| io_monitor_events: "io_step x (x\<lparr>io_mon := mon\<rparr>)"
  if "map fst mon = map fst (io_mon x)"
| io_sync: "io_step x (x\<lparr>io_set := els, io_kernel := k, io_changes := 0\<rparr>)"
  if "answer = None \<or> answer = Some (io_mon x) \<and> length (io_mon x) \<le> MONITOR_FDS_MAX"
    "daemon_io_sync_event_fds (io_chan x) answer (io_set x, io_kernel x) = (els, k)"

inductive io_reach :: "io_state \<Rightarrow> bool" where
  io_init: "io_start x \<Longrightarrow> io_reach x"
| io_next: "io_reach x \<Longrightarrow> io_step x y \<Longrightarrow> io_reach y"

section \<open>Generations\<close>

lemma generation_position:
  assumes "g \<noteq> 0"
  shows "unat ((client_slot_next_generation ^^ n) g) = (unat g - 1 + n) mod 4294967295 + 1"
proof (induction n)
  case 0
  have "unat g \<noteq> 0" "unat g < 4294967296" using assms unat_u32_less [of g] by (simp_all add: unat_eq_zero)
  then show ?case by simp
next
  case (Suc n)
  let ?h = "(client_slot_next_generation ^^ n) g"
  have next_pos: "unat (client_slot_next_generation h) = (if unat h = 4294967295 then 1 else unat h + 1)" for h
  proof (cases "unat h = 4294967295")
    case True
    then have "h = word_of_nat 4294967295" by (simp add: word_unat_eq_iff)
    then show ?thesis by (simp add: client_slot_next_generation_def Let_def)
  next
    case False
    then have "unat h < unat (4294967295 :: u32)" using unat_u32_less [of h] by simp
    from unat_Suc_lt [OF this] show ?thesis
      by (auto simp: client_slot_next_generation_def Let_def False unat_eq_zero [symmetric])
  qed
  show ?case
    using Suc next_pos [of ?h] by (simp add: mod_Suc)
qed

lemma sync_generation_fresh:
  assumes "g \<noteq> 0" and "0 < n" and "n < 4294967295"
  shows "(client_slot_next_generation ^^ n) g \<noteq> g"
proof
  let ?a = "unat g - 1"
  assume "(client_slot_next_generation ^^ n) g = g"
  then have "unat g = (?a + n) mod 4294967295 + 1" using generation_position [OF assms(1), of n] by metis
  moreover have "unat g \<noteq> 0" "unat g < 4294967296" using assms unat_u32_less [of g] by (simp_all add: unat_eq_zero)
  ultimately have "(?a + n) mod 4294967295 = (?a + 0) mod 4294967295" by simp
  with add_mod_neq [of 0 n 4294967295 ?a] assms show False by simp
qed


section \<open>Owners, generations and descriptors\<close>

type_synonym triple = "fd_owner \<times> u32 \<times> int"

definition slot_triples :: "(nat \<Rightarrow> fd_owner) \<Rightarrow> client_slot list \<Rightarrow> triple set" where
  "slot_triples own ss = {(own j, cl_generation (ss ! j), cl_fd (ss ! j)) | j. j < length ss \<and> client_slot_has_client (ss ! j)}"

definition listener_triples :: "channel \<Rightarrow> triple set" where
  "listener_triples ch = {t \<in> {(Own_Data_Listen, 1, ch_data_fd ch), (Own_Framed_Listen, 1, ch_framed_fd ch),
     (Own_Conf_Listen, 1, ch_conf_fd ch)}. 0 \<le> snd (snd t)}"

definition monitor_triples :: "(int \<times> u16) list \<Rightarrow> triple set" where
  "monitor_triples mon = (\<lambda>fd. (Own_Monitor, word_of_int fd, fd)) ` fst ` set mon"

definition triples :: "channel \<Rightarrow> (int \<times> u16) list \<Rightarrow> triple set" where
  "triples ch mon = listener_triples ch \<union> (\<Union>s. slot_triples (sock_owner s) (sock_slots s ch)) \<union> monitor_triples mon"

definition watch_triple :: "fd_owner watch \<Rightarrow> triple" where
  "watch_triple w = (fst w, fst (snd w), watch_fd w)"

lemma watch_triple_simps [simp]:
  "watch_triple (o', g, fd, ev) = (o', g, fd)" "watch_triple (request_watch q) = watch_triple q"
  "watch_fd (request_watch q) = watch_fd q" "watch_key (request_watch q) = watch_key q"
  by (simp_all add: watch_triple_def watch_defs request_watch_def)

lemma watch_fd_triple: "watch_fd w = snd (snd (watch_triple w))"
  and watch_key_triple: "watch_key w = (fst (watch_triple w), fst (snd (watch_triple w)))"
  by (simp_all add: watch_triple_def watch_key_def)

lemma sock_simps [simp]:
  "sock_slots s' (sock_put s ss net ch) = (if s' = s then ss else sock_slots s' ch)"
  "ch_net (sock_put s ss net ch) = net"
  "ch_data_fd (sock_put s ss net ch) = ch_data_fd ch" "ch_framed_fd (sock_put s ss net ch) = ch_framed_fd ch"
  "ch_conf_fd (sock_put s ss net ch) = ch_conf_fd ch"
  "listener_triples (sock_put s ss net ch) = listener_triples ch"
  by (cases s; cases s'; simp add: listener_triples_def)+

lemma sock_owner_eq [simp]: "sock_owner s i = sock_owner s' j \<longleftrightarrow> s = s' \<and> i = j"
  by (cases s; cases s'; simp)

lemma sock_owner_neq [simp]:
  "sock_owner s i \<noteq> Own_Monitor" "sock_owner s i \<noteq> Own_Data_Listen" "sock_owner s i \<noteq> Own_Framed_Listen"
  "sock_owner s i \<noteq> Own_Conf_Listen"
  by (cases s; simp)+

lemmas sock_owner_neq_sym [simp] = sock_owner_neq [symmetric]

lemma Collect_index_Suc:
  "{f j | j. j < Suc n \<and> p j} = (if p 0 then {f 0} else {}) \<union> {f (Suc j) | j. j < n \<and> p (Suc j)}" (is "?A = ?B")
proof
  show "?A \<subseteq> ?B"
  proof
    fix x assume "x \<in> ?A"
    then obtain j where "x = f j" "j < Suc n" "p j" by blast
    then show "x \<in> ?B" by (cases j) auto
  qed
qed auto

lemma slot_requests_set:
  "watch_triple ` set (slot_requests own i ss) = slot_triples (\<lambda>j. own (i + j)) ss"
proof (induction own i ss rule: slot_requests.induct)
  case (2 own i s ss)
  have "slot_triples (\<lambda>j. own (i + j)) (s # ss) =
      (if client_slot_has_client s then {(own i, cl_generation s, cl_fd s)} else {}) \<union> slot_triples (\<lambda>j. own (i + 1 + j)) ss"
    by (simp add: slot_triples_def Collect_index_Suc)
  with 2 show ?case by (simp add: image_Un)
qed (simp add: slot_triples_def)

lemma sock_UN: "(\<Union>s. f s) = f Sock_Data \<union> f Sock_Framed \<union> f Sock_Conf"
proof -
  have "(UNIV :: sock set) = {Sock_Data, Sock_Framed, Sock_Conf}" using sock.exhaust by blast
  then show ?thesis by (metis Un_assoc Union_image_insert image_empty sup_bot.right_neutral Union_empty)
qed

lemma sock_owner_fun: "sock_owner Sock_Data = Own_Data_Slot" "sock_owner Sock_Framed = Own_Framed_Slot"
  "sock_owner Sock_Conf = Own_Conf_Slot"
  by (simp_all add: fun_eq_iff)

lemma requests_triples:
  "watch_triple ` set (channel_requests ch None) =
     listener_triples ch \<union> (\<Union>s. slot_triples (sock_owner s) (sock_slots s ch))"
  "watch_triple ` set (channel_requests ch (Some mon)) = triples ch mon"
  by (auto simp: channel_requests_def triples_def monitor_requests_def monitor_triples_def image_Un
      listener_requests_def listener_triples_def slot_requests_set sock_UN sock_owner_fun watch_fd_def
      image_image)

lemma slot_requests_owners:
  "w \<in> set (slot_requests own i ss) \<Longrightarrow> \<exists>j\<ge>i. fst w = own j"
proof (induction own i ss rule: slot_requests.induct)
  case (2 own i s ss)
  then show ?case by (auto split: if_splits) (metis Suc_leD)+
qed simp

lemma slot_requests_keys: "inj own \<Longrightarrow> distinct (map watch_key (slot_requests own i ss))"
proof (induction own i ss rule: slot_requests.induct)
  case (2 own i s ss)
  have "(own i, g) \<notin> watch_key ` set (slot_requests own (i + 1) ss)" for g
    using slot_requests_owners [of _ own "i + 1" ss] injD [OF 2(2)] by (fastforce simp: watch_key_def)
  with 2 show ?case by (auto simp: watch_key_def)
qed simp

lemma word_of_fd_inj: "inj_on (\<lambda>fd. word_of_int fd :: u32) {fd. 0 \<le> fd \<and> fd < 2147483648}"
  by (rule inj_on_inverseI [of _ uint]) (simp add: unsigned_of_int take_bit_int_eq_self)

lemma request_keys:
  assumes "distinct (map fst mon)" and "\<forall>fd\<in>fst ` set mon. 0 \<le> fd \<and> fd < 2147483648"
    and "answer = None \<or> answer = Some mon"
  shows "distinct (map watch_key (channel_requests ch answer))"
proof -
  have "distinct (map watch_key (listener_requests ch))"
    by (simp add: listener_requests_def watch_key_def)
  moreover have "distinct (map watch_key (monitor_requests (Some mon)))"
  proof -
    have "inj_on (\<lambda>fd. (Own_Monitor, word_of_int fd :: u32)) (fst ` set mon)"
      using assms(2) inj_on_subset [OF word_of_fd_inj, of "fst ` set mon"] by (force simp: inj_on_def)
    with assms(1) have "distinct (map (\<lambda>fd. (Own_Monitor, word_of_int fd :: u32)) (map fst mon))"
      by (subst distinct_map) simp
    then show ?thesis by (simp add: monitor_requests_def watch_key_def o_def)
  qed
  moreover have "inj Own_Data_Slot" "inj Own_Framed_Slot" "inj Own_Conf_Slot" by (simp_all add: inj_def)
  moreover have "fst ` set (listener_requests ch) \<subseteq> {Own_Data_Listen, Own_Framed_Listen, Own_Conf_Listen}"
    by (auto simp: listener_requests_def)
  moreover have "fst ` set (monitor_requests answer) \<subseteq> {Own_Monitor}" for answer
    by (auto simp: monitor_requests_def split: option.splits)
  ultimately show ?thesis
    using assms(3) by (auto simp: channel_requests_def slot_requests_keys watch_key_def monitor_requests_def
        dest!: slot_requests_owners)
qed


section \<open>The invariant\<close>

abbreviation triple_fd :: "triple \<Rightarrow> int" where
  "triple_fd t \<equiv> snd (snd t)"

definition triple_matches :: "fd_owner epoll_set \<Rightarrow> epoll_kernel \<Rightarrow> triple \<Rightarrow> bool" where
  "triple_matches es k t = matches es k (fst t, fst (snd t), triple_fd t, 0)"

definition slots_ok :: "channel \<Rightarrow> bool" where
  "slots_ok ch \<longleftrightarrow> (\<forall>s. length (sock_slots s ch) = MAX_CLIENTS \<and>
     (\<forall>i<MAX_CLIENTS. cl_generation (sock_slots s ch ! i) \<noteq> 0))"

definition fds_ok :: "channel \<Rightarrow> (int \<times> u16) list \<Rightarrow> epoll_kernel \<Rightarrow> bool" where
  "fds_ok ch mon k \<longleftrightarrow> inj_on triple_fd (triples ch mon) \<and> distinct (map fst mon) \<and>
     (\<forall>t\<in>triples ch mon. triple_fd t \<in> set (ek_open k) \<and> 0 \<le> triple_fd t \<and> triple_fd t < 2147483648)"

text \<open>How far a slot's generation has moved on from what its registration remembers.\<close>

definition history :: "fd_owner epoll_set \<Rightarrow> channel \<Rightarrow> nat \<Rightarrow> bool" where
  "history es ch changes \<longleftrightarrow> (\<forall>r\<in>set (es_regs es). \<forall>s i. rg_active r \<and> rg_owner r = Some (sock_owner s i) \<and> i < MAX_CLIENTS \<longrightarrow>
     rg_generation r \<noteq> 0 \<and>
     (\<exists>n\<le>changes. cl_generation (sock_slots s ch ! i) = (client_slot_next_generation ^^ n) (rg_generation r)))"

definition monitor_registrations :: "fd_owner epoll_set \<Rightarrow> bool" where
  "monitor_registrations es \<longleftrightarrow> (\<forall>r\<in>set (es_regs es). rg_active r \<and> rg_owner r = Some Own_Monitor \<longrightarrow>
     rg_generation r = word_of_int (rg_fd r) \<and> 0 \<le> rg_fd r \<and> rg_fd r < 2147483648)"

definition IO_FDS_MAX :: nat where
  "IO_FDS_MAX = 3 + 3 * MAX_CLIENTS + MONITOR_FDS_MAX"

definition registrations_ok :: "io_state \<Rightarrow> bool" where
  "registrations_ok x \<longleftrightarrow>
     (let es = el_epoll (io_set x) in idle es \<and> covered es (io_kernel x) \<and> active_count es \<le> IO_FDS_MAX \<and>
      (\<forall>t\<in>triples (io_chan x) (io_mon x). triple_matches es (io_kernel x) t) \<and>
      history es (io_chan x) (io_changes x) \<and> monitor_registrations es)"

definition io_good :: "io_state \<Rightarrow> bool" where
  "io_good x \<longleftrightarrow> slots_ok (io_chan x) \<and> fds_ok (io_chan x) (io_mon x) (io_kernel x) \<and> kernel_ok (io_kernel x) \<and>
     (el_registration_errno (io_set x) \<noteq> 0 \<or> registrations_ok x)"

lemma matches_triple: "matches es k w = triple_matches es k (watch_triple w)"
  by (simp add: triple_matches_def matches_def watch_triple_def watch_defs has_key_def)

lemma kernel_simps [simp]:
  "ek_interest (kernel_open fd k) = ek_interest k"
  "set (ek_open (kernel_open fd k)) = insert fd (set (ek_open k))"
  "ek_interest (kernel_close fd k) = (ek_interest k)(fd := None)"
  "set (ek_open (kernel_close fd k)) = set (ek_open k) - {fd}"
  by (simp_all add: kernel_open_def kernel_close_def)

lemma kernel_ok_changes [simp]:
  "kernel_ok k \<Longrightarrow> kernel_ok (kernel_open fd k)" "kernel_ok k \<Longrightarrow> kernel_ok (kernel_close fd k)"
  by (auto simp: kernel_ok_def)

lemma covered_changes [simp]:
  "covered es k \<Longrightarrow> covered es (kernel_open fd k)" "covered es k \<Longrightarrow> covered es (kernel_close fd k)"
  by (auto simp: covered_def)

lemma triple_matches_frame:
  "triple_matches es (kernel_open fd k) t = triple_matches es k t"
  "fd \<noteq> triple_fd t \<Longrightarrow> triple_matches es (kernel_close fd k) t = triple_matches es k t"
  by (simp_all add: triple_matches_def matches_def watch_defs)

lemma slot_triples_update:
  assumes "inj own" and i: "i < length ss"
  shows "slot_triples own (ss[i := slot]) = {t \<in> slot_triples own ss. fst t \<noteq> own i} \<union>
    (if client_slot_has_client slot then {(own i, cl_generation slot, cl_fd slot)} else {})"
proof -
  have eq: "own j = own i \<longleftrightarrow> j = i" for j using assms(1) by (simp add: inj_eq)
  have "t \<in> slot_triples own (ss[i := slot]) \<longleftrightarrow>
      (\<exists>j<length ss. j \<noteq> i \<and> client_slot_has_client (ss ! j) \<and> t = (own j, cl_generation (ss ! j), cl_fd (ss ! j))) \<or>
      client_slot_has_client slot \<and> t = (own i, cl_generation slot, cl_fd slot)" for t
    using i by (auto simp: slot_triples_def nth_list_update)
  then show ?thesis by (auto simp: slot_triples_def eq)
qed

lemma sock_owner_inj: "inj (sock_owner s)"
  by (simp add: inj_def)

lemma fst_triples:
  "t \<in> listener_triples ch \<Longrightarrow> fst t \<noteq> sock_owner s i" "t \<in> monitor_triples mon \<Longrightarrow> fst t \<noteq> sock_owner s i"
  "t \<in> slot_triples (sock_owner s') ss \<Longrightarrow> s' \<noteq> s \<Longrightarrow> fst t \<noteq> sock_owner s i"
  by (auto simp: listener_triples_def monitor_triples_def slot_triples_def)

lemma triples_put:
  assumes i: "i < length (sock_slots s ch)"
  shows "triples (sock_put s ((sock_slots s ch)[i := slot]) net ch) mon =
    {t \<in> triples ch mon. fst t \<noteq> sock_owner s i} \<union>
    (if client_slot_has_client slot then {(sock_owner s i, cl_generation slot, cl_fd slot)} else {})"
proof -
  let ?new = "(sock_slots s ch)[i := slot]"
  have UN: "(\<Union>s'. slot_triples (sock_owner s') (if s' = s then ?new else sock_slots s' ch)) =
      slot_triples (sock_owner s) ?new \<union> (\<Union>s'\<in>-{s}. slot_triples (sock_owner s') (sock_slots s' ch))"
    "(\<Union>s'. slot_triples (sock_owner s') (sock_slots s' ch)) =
      slot_triples (sock_owner s) (sock_slots s ch) \<union> (\<Union>s'\<in>-{s}. slot_triples (sock_owner s') (sock_slots s' ch))"
    by (auto split: if_splits)
  show ?thesis
    unfolding triples_def sock_simps UN slot_triples_update [OF sock_owner_inj i]
    using fst_triples by auto
qed

lemma client_slot_add_cases:
  "client_slot_add ss fd = (added, ss') \<Longrightarrow>
     \<not> added \<and> ss' = ss \<or>
     added \<and> (\<exists>i<length ss. \<not> client_slot_has_client (ss ! i) \<and> ss' = ss[i := client_slot_set_fd (ss ! i) fd])"
proof (induction ss arbitrary: ss')
  case (Cons s ss)
  show ?case
  proof (cases "client_slot_has_client s")
    case True
    with Cons.prems obtain ss1 where "client_slot_add ss fd = (added, ss1)" "ss' = s # ss1"
      by (auto split: prod.splits)
    with Cons.IH [of ss1] show ?thesis by fastforce
  next
    case False
    with Cons.prems show ?thesis by (auto intro!: exI [of _ 0])
  qed
qed simp

lemma accept_cases:
  assumes "client_slot_accept_with_output (Accepted fd ok) ss net = (r, ss', net')" and "0 \<le> fd"
  obtains (refused) "r \<noteq> fd" "ss' = ss"
  | (taken) i where "r = fd" "i < length ss" "\<not> client_slot_has_client (ss ! i)"
      "ss' = ss[i := client_slot_set_fd (ss ! i) fd]"
proof -
  obtain added ss1 where add: "client_slot_add ss fd = (added, ss1)" by fastforce
  show thesis
  proof (cases "ok \<and> added")
    case True
    with assms add have "r = fd" "ss' = ss1" by (auto simp: client_slot_accept_with_output_def)
    with client_slot_add_cases [OF add] True taken show thesis by blast
  next
    case False
    with assms add client_slot_add_cases [OF add] have "r = -1" "ss' = ss"
      by (auto simp: client_slot_accept_with_output_def split: if_splits)
    with assms(2) refused show thesis by simp
  qed
qed

lemma history_slot:
  assumes "history es ch n" and "i < length (sock_slots s ch)"
    and "cl_generation slot = client_slot_next_generation (cl_generation (sock_slots s ch ! i))"
  shows "history es (sock_put s ((sock_slots s ch)[i := slot]) net ch) (n + 1)"
  unfolding history_def
proof (intro ballI allI impI)
  fix r s' j assume r: "r \<in> set (es_regs es)" "rg_active r \<and> rg_owner r = Some (sock_owner s' j) \<and> j < MAX_CLIENTS"
  with assms(1) obtain m where m: "rg_generation r \<noteq> 0" "m \<le> n"
    "cl_generation (sock_slots s' ch ! j) = (client_slot_next_generation ^^ m) (rg_generation r)"
    unfolding history_def by blast
  have "\<exists>m'\<le>n + 1. cl_generation (sock_slots s' (sock_put s ((sock_slots s ch)[i := slot]) net ch) ! j) =
      (client_slot_next_generation ^^ m') (rg_generation r)"
  proof (cases "s' = s \<and> j = i")
    case True
    with m assms(2,3) show ?thesis by (intro exI [of _ "Suc m"]) simp
  next
    case False
    with m show ?thesis by (intro exI [of _ m]) auto
  qed
  with m(1) show "rg_generation r \<noteq> 0 \<and> (\<exists>m'\<le>n + 1. cl_generation (sock_slots s'
      (sock_put s ((sock_slots s ch)[i := slot]) net ch) ! j) = (client_slot_next_generation ^^ m') (rg_generation r))"
    by simp
qed

lemma slots_ok_put:
  "slots_ok ch \<Longrightarrow> cl_generation slot \<noteq> 0 \<Longrightarrow> slots_ok (sock_put s ((sock_slots s ch)[i := slot]) net ch)"
  by (cases "i < MAX_CLIENTS") (simp_all add: slots_ok_def nth_list_update)


lemma close_keeps:
  assumes "fds_ok ch mon k" and "triples ch' mon' \<subseteq> {t \<in> triples ch mon. triple_fd t \<noteq> fd}" and "distinct (map fst mon')"
  shows "fds_ok ch' mon' (kernel_close fd k)"
    and "\<forall>t\<in>triples ch mon. triple_matches es k t \<Longrightarrow> \<forall>t\<in>triples ch' mon'. triple_matches es (kernel_close fd k) t"
proof -
  from assms(2) have sub: "t \<in> triples ch mon" "triple_fd t \<noteq> fd" if "t \<in> triples ch' mon'" for t
    using that by blast+
  then have "inj_on triple_fd (triples ch' mon')"
    using assms(1) by (simp add: fds_ok_def inj_on_def)
  with assms(1,3) sub show "fds_ok ch' mon' (kernel_close fd k)" unfolding fds_ok_def by simp
  show "\<forall>t\<in>triples ch mon. triple_matches es k t \<Longrightarrow> \<forall>t\<in>triples ch' mon'. triple_matches es (kernel_close fd k) t"
    by (intro ballI) (metis sub triple_matches_frame(2))
qed

lemma open_keeps:
  assumes "fds_ok ch mon k" and "fresh_fd fd k" and "triples ch' mon' \<subseteq> insert t0 (triples ch mon)"
    and "triple_fd t0 = fd" and "distinct (map fst mon')"
  shows "fds_ok ch' mon' (kernel_open fd k)"
    and "\<forall>t\<in>triples ch mon. triple_matches es k t \<Longrightarrow> triple_matches es k t0 \<Longrightarrow>
      \<forall>t\<in>triples ch' mon'. triple_matches es (kernel_open fd k) t"
proof -
  from assms(3) have sub: "t = t0 \<or> t \<in> triples ch mon" if "t \<in> triples ch' mon'" for t
    using that by blast
  have old: "triple_fd t \<noteq> fd" if "t \<in> triples ch mon" for t
    using assms(1,2) that by (auto simp: fds_ok_def fresh_fd_def)
  have "inj_on triple_fd (triples ch' mon')"
    using assms(1,4) sub old unfolding fds_ok_def inj_on_def by metis
  moreover have "triple_fd t \<in> insert fd (set (ek_open k)) \<and> 0 \<le> triple_fd t \<and> triple_fd t < 2147483648"
    if "t \<in> triples ch' mon'" for t
    using assms(1,2,4) sub [OF that] unfolding fds_ok_def fresh_fd_def by auto
  ultimately show "fds_ok ch' mon' (kernel_open fd k)"
    using assms(5) unfolding fds_ok_def by simp
  show "\<forall>t\<in>triples ch mon. triple_matches es k t \<Longrightarrow> triple_matches es k t0 \<Longrightarrow>
      \<forall>t\<in>triples ch' mon'. triple_matches es (kernel_open fd k) t"
    by (intro ballI) (metis sub triple_matches_frame(1))
qed

lemma unregistered_matches:
  assumes "kernel_ok k" and "fresh_fd (triple_fd t) k"
    and "\<forall>r\<in>set (es_regs es). \<not> has_key r (fst t, fst (snd t))"
  shows "triple_matches es k t"
proof -
  have "ek_interest k (triple_fd t) = None" using assms(1,2) by (auto simp: kernel_ok_def fresh_fd_def)
  with assms(3) show ?thesis by (simp add: triple_matches_def matches_def watch_defs)
qed

lemma accepted_generation_new:
  assumes "history es ch n" and "n < 4294967294" and "i < MAX_CLIENTS"
  shows "\<forall>r\<in>set (es_regs es). \<not> has_key r (sock_owner s i, client_slot_next_generation (cl_generation (sock_slots s ch ! i)))"
proof (intro ballI notI)
  fix r assume r: "r \<in> set (es_regs es)"
    "has_key r (sock_owner s i, client_slot_next_generation (cl_generation (sock_slots s ch ! i)))"
  with assms obtain m where m: "rg_generation r \<noteq> 0" "m \<le> n"
    "cl_generation (sock_slots s ch ! i) = (client_slot_next_generation ^^ m) (rg_generation r)"
    unfolding history_def has_key_def by fastforce
  with r have "(client_slot_next_generation ^^ Suc m) (rg_generation r) = rg_generation r"
    by (simp add: has_key_def)
  with sync_generation_fresh [OF m(1), of "Suc m"] m(2) assms(2) show False by simp
qed

lemma io_good_accept:
  assumes good: "io_good x" and fresh: "fresh_fd fd (io_kernel x)" and n: "io_changes x < 4294967294"
    and acc: "client_slot_accept_with_output (Accepted fd ok) (sock_slots s (io_chan x)) (ch_net (io_chan x)) = (r, ss, net)"
  shows "io_good (x\<lparr>io_chan := sock_put s ss net (io_chan x),
       io_kernel := (if r = fd then kernel_open fd (io_kernel x)
                     else kernel_close fd (kernel_open fd (io_kernel x))),
       io_changes := io_changes x + 1\<rparr>)"
proof -
  let ?ch = "io_chan x" and ?k = "io_kernel x" and ?es = "el_epoll (io_set x)"
  from good have so: "slots_ok ?ch" and fo: "fds_ok ?ch (io_mon x) ?k" and ko: "kernel_ok ?k"
    by (simp_all add: io_good_def)
  have "0 \<le> fd" using fresh by (simp add: fresh_fd_def)
  with acc show ?thesis
  proof (cases rule: accept_cases)
    case (taken i)
    let ?slot = "client_slot_set_fd (sock_slots s ?ch ! i) fd"
    let ?t = "(sock_owner s i, cl_generation ?slot, fd)"
    have slot: "client_slot_has_client ?slot" "cl_fd ?slot = fd"
      "cl_generation ?slot = client_slot_next_generation (cl_generation (sock_slots s ?ch ! i))"
      using fresh by (simp_all add: client_slot_has_client_def client_slot_set_fd_def fresh_fd_def)
    have i: "i < MAX_CLIENTS" using taken(2) so by (simp add: slots_ok_def)
    have sub: "triples (sock_put s ss net ?ch) (io_mon x) \<subseteq> insert ?t (triples ?ch (io_mon x))"
      using triples_put [OF taken(2), of ?slot net "io_mon x"] slot taken(4) by auto
    have dist: "distinct (map fst (io_mon x))" using fo by (simp add: fds_ok_def)
    note keep = open_keeps [OF fo fresh sub _ dist, simplified]
    have "slots_ok (sock_put s ss net ?ch)"
      unfolding taken(4) by (rule slots_ok_put [OF so]) (simp add: slot)
    moreover have "registrations_ok x \<Longrightarrow> registrations_ok (x\<lparr>io_chan := sock_put s ss net ?ch,
        io_kernel := kernel_open fd ?k, io_changes := io_changes x + 1\<rparr>)"
    proof -
      assume reg: "registrations_ok x"
      then have h: "history ?es ?ch (io_changes x)" by (simp add: registrations_ok_def Let_def)
      have "triple_matches ?es ?k ?t"
        using accepted_generation_new [OF h n i, of s] slot(3) fresh
        by (intro unregistered_matches [OF ko]) auto
      with reg keep(2) [of ?es] history_slot [OF h taken(2), of ?slot net] slot(3) taken(4)
      show ?thesis by (simp add: registrations_ok_def Let_def)
    qed
    ultimately show ?thesis
      using good keep(1) taken(1) ko by (auto simp: io_good_def)
  next
    case refused
    have fd: "fd \<notin> set (ek_open ?k)" using fresh by (simp add: fresh_fd_def)
    then have none: "ek_interest ?k fd = None" using ko by (auto simp: kernel_ok_def)
    have same: "ek_interest (kernel_close fd (kernel_open fd ?k)) = ek_interest ?k"
      "set (ek_open (kernel_close fd (kernel_open fd ?k))) = set (ek_open ?k)"
      using none fd by (auto simp: fun_eq_iff)
    have put1: "sock_slots s' (sock_put s ss net ?ch) = sock_slots s' ?ch" for s'
      using refused(2) by simp
    then have "triples (sock_put s ss net ?ch) (io_mon x) = triples ?ch (io_mon x)"
      by (simp only: triples_def sock_simps(6))
    note put = put1 this
    let ?k2 = "kernel_close fd (kernel_open fd ?k)"
    have "slots_ok (sock_put s ss net ?ch) = slots_ok ?ch" by (simp only: slots_ok_def put)
    moreover have "fds_ok (sock_put s ss net ?ch) (io_mon x) ?k2 = fds_ok ?ch (io_mon x) ?k"
      by (simp only: fds_ok_def put same)
    moreover have "triple_matches es ?k2 t = triple_matches es ?k t" for es t
      by (simp only: triple_matches_def matches_def same)
    moreover have "covered es ?k2 = covered es ?k" for es by (simp only: covered_def same)
    moreover have "history es ?ch n \<Longrightarrow> history es (sock_put s ss net ?ch) (n + 1)" for es n
      unfolding history_def put by (meson le_SucI Suc_eq_plus1 le_add1 le_trans)
    ultimately show ?thesis using good refused(1) ko put(2)
      by (simp add: io_good_def registrations_ok_def Let_def)
  qed
qed

lemma io_good_close:
  assumes good: "io_good x" and i: "i < length (sock_slots s (io_chan x))"
    and client: "client_slot_has_client (sock_slots s (io_chan x) ! i)"
    and run: "client_slot_close (sock_slots s (io_chan x) ! i) (ch_net (io_chan x)) = (slot, net)"
  shows "io_good (x\<lparr>io_chan := sock_put s ((sock_slots s (io_chan x))[i := slot]) net (io_chan x),
       io_kernel := kernel_close (cl_fd (sock_slots s (io_chan x) ! i)) (io_kernel x),
       io_changes := io_changes x + 1\<rparr>)"
proof -
  let ?ch = "io_chan x" and ?k = "io_kernel x" and ?es = "el_epoll (io_set x)"
  let ?fd = "cl_fd (sock_slots s ?ch ! i)" and ?ch' = "sock_put s ((sock_slots s (io_chan x))[i := slot]) net (io_chan x)"
  from good have so: "slots_ok ?ch" and fo: "fds_ok ?ch (io_mon x) ?k" and ko: "kernel_ok ?k"
    by (simp_all add: io_good_def)
  have slot: "\<not> client_slot_has_client slot"
    "cl_generation slot = client_slot_next_generation (cl_generation (sock_slots s ?ch ! i))"
    using run by (metis close_not_client fst_conv, metis close_slot(3) fst_conv)
  have t0: "(sock_owner s i, cl_generation (sock_slots s ?ch ! i), ?fd) \<in> triples ?ch (io_mon x)"
    using i client by (auto simp: triples_def slot_triples_def)
  have sub: "triples ?ch' (io_mon x) \<subseteq> {t \<in> triples ?ch (io_mon x). triple_fd t \<noteq> ?fd}"
  proof
    fix t assume "t \<in> triples ?ch' (io_mon x)"
    then have t: "t \<in> triples ?ch (io_mon x)" "fst t \<noteq> sock_owner s i"
      using triples_put [OF i, of slot net "io_mon x"] slot(1) by auto
    with t0 fo have "triple_fd t \<noteq> ?fd" unfolding fds_ok_def by (metis fst_conv inj_onD snd_conv)
    with t(1) show "t \<in> {t \<in> triples ?ch (io_mon x). triple_fd t \<noteq> ?fd}" by simp
  qed
  have dist: "distinct (map fst (io_mon x))" using fo by (simp add: fds_ok_def)
  note keep = close_keeps [OF fo sub dist]
  have "slots_ok ?ch'" by (rule slots_ok_put [OF so]) (simp add: slot)
  moreover have "registrations_ok x \<Longrightarrow> registrations_ok (x\<lparr>io_chan := ?ch',
      io_kernel := kernel_close ?fd ?k, io_changes := io_changes x + 1\<rparr>)"
    using keep(2) [of ?es] history_slot [of ?es ?ch "io_changes x", OF _ i slot(2), of net]
    by (simp add: registrations_ok_def Let_def)
  ultimately show ?thesis
    using good keep(1) ko by (auto simp: io_good_def)
qed


lemma io_good_traffic:
  assumes good: "io_good x" and i: "i < length (sock_slots s (io_chan x))"
  shows "io_good (x\<lparr>io_chan := sock_put s ((sock_slots s (io_chan x))[i :=
       (sock_slots s (io_chan x) ! i)\<lparr>cl_output := q, cl_stream := lines\<rparr>]) net (io_chan x)\<rparr>)"
proof -
  let ?ch = "io_chan x" and ?slot = "(sock_slots s (io_chan x) ! i)\<lparr>cl_output := q, cl_stream := lines\<rparr>"
  let ?ch' = "sock_put s ((sock_slots s ?ch)[i := ?slot]) net ?ch"
  have gen: "cl_generation (sock_slots s' ?ch' ! j) = cl_generation (sock_slots s' ?ch ! j)" for s' j
    using i by (cases "j = i") (auto simp: nth_list_update)
  have "slot_triples own ((sock_slots s ?ch)[i := ?slot]) = slot_triples own (sock_slots s ?ch)" for own
  proof -
    have "cl_fd ((sock_slots s ?ch)[i := ?slot] ! j) = cl_fd (sock_slots s ?ch ! j)"
      "cl_generation ((sock_slots s ?ch)[i := ?slot] ! j) = cl_generation (sock_slots s ?ch ! j)" for j
      using i by (cases "j = i"; simp)+
    then show ?thesis by (simp add: slot_triples_def client_slot_has_client_def)
  qed
  then have "slot_triples (sock_owner s') (sock_slots s' ?ch') = slot_triples (sock_owner s') (sock_slots s' ?ch)" for s'
    by simp
  then have T: "triples ?ch' (io_mon x) = triples ?ch (io_mon x)" by (simp only: triples_def sock_simps(6))
  have "length (sock_slots s' ?ch') = length (sock_slots s' ?ch)" for s' by simp
  then have "slots_ok ?ch' = slots_ok ?ch" by (simp only: slots_ok_def gen)
  moreover have "history es ?ch' n = history es ?ch n" for es n by (simp only: history_def gen)
  moreover have "fds_ok ?ch' (io_mon x) k = fds_ok ?ch (io_mon x) k" for k by (simp only: fds_ok_def T)
  ultimately show ?thesis using good T by (simp add: io_good_def registrations_ok_def Let_def)
qed

lemma parts_in_fds:
  "t \<in> slot_triples own ss \<Longrightarrow> triple_fd t \<in> set (client_fds ss)"
  "t \<in> monitor_triples mon \<Longrightarrow> triple_fd t \<in> set (map fst mon)"
  by (force simp: slot_triples_def client_fds_def monitor_triples_def)+

lemma triples_in_fds: "t \<in> triples ch mon \<Longrightarrow> triple_fd t \<in> set (daemon_fds ch mon)"
  by (auto simp: triples_def listener_triples_def daemon_fds_def sock_UN simp del: set_map dest: parts_in_fds)

lemma io_good_kernel_only:
  assumes good: "io_good x"
    and k: "(fresh_fd fd (io_kernel x) \<and> k = kernel_open fd (io_kernel x)) \<or>
      (fd \<notin> set (daemon_fds (io_chan x) (io_mon x)) \<and> k = kernel_close fd (io_kernel x))"
  shows "io_good (x\<lparr>io_kernel := k\<rparr>)"
proof -
  from good have fo: "fds_ok (io_chan x) (io_mon x) (io_kernel x)" and ko: "kernel_ok (io_kernel x)"
    by (simp_all add: io_good_def)
  have "(\<forall>t\<in>triples (io_chan x) (io_mon x). triple_matches es (io_kernel x) t \<longrightarrow> triple_matches es k t)" for es
    using k triples_in_fds triple_matches_frame by metis
  moreover have "fds_ok (io_chan x) (io_mon x) k"
  proof -
    have "triple_fd t \<in> set (ek_open k)" if t: "t \<in> triples (io_chan x) (io_mon x)" for t
      using k
    proof
      assume "fd \<notin> set (daemon_fds (io_chan x) (io_mon x)) \<and> k = kernel_close fd (io_kernel x)"
      with fo t triples_in_fds [OF t] show ?thesis by (auto simp: fds_ok_def)
    qed (use fo t in \<open>auto simp: fds_ok_def\<close>)
    with fo show ?thesis by (simp add: fds_ok_def)
  qed
  ultimately show ?thesis
    using good k ko
    by (auto simp: io_good_def registrations_ok_def Let_def)
qed

lemma monitor_triples_simps:
  "monitor_triples ((fd, ev) # mon) = insert (Own_Monitor, word_of_int fd, fd) (monitor_triples mon)"
  "monitor_triples (filter (\<lambda>f. fst f \<noteq> fd) mon) = {t \<in> monitor_triples mon. triple_fd t \<noteq> fd}"
  by (force simp: monitor_triples_def)+

lemma io_good_monitor_add:
  assumes good: "io_good x" and fresh: "fresh_fd fd (io_kernel x)"
    and new: "\<not> left_registered (io_set x) fd"
  shows "io_good (x\<lparr>io_mon := (fd, ev) # io_mon x, io_kernel := kernel_open fd (io_kernel x), io_reopened := b\<rparr>)"
proof -
  let ?ch = "io_chan x" and ?k = "io_kernel x" and ?es = "el_epoll (io_set x)" and ?t = "(Own_Monitor, word_of_int fd, fd)"
  from good have fo: "fds_ok ?ch (io_mon x) ?k" and ko: "kernel_ok ?k" by (simp_all add: io_good_def)
  have "fd \<notin> fst ` set (io_mon x)"
  proof
    assume "fd \<in> fst ` set (io_mon x)"
    then have "?t \<in> triples ?ch (io_mon x)" by (auto simp: triples_def monitor_triples_def)
    with fo fresh show False by (auto simp: fds_ok_def fresh_fd_def)
  qed
  then have dist: "distinct (map fst ((fd, ev) # io_mon x))" using fo by (simp add: fds_ok_def)
  have sub: "triples ?ch ((fd, ev) # io_mon x) \<subseteq> insert ?t (triples ?ch (io_mon x))"
    by (auto simp: triples_def monitor_triples_simps)
  note keep = open_keeps [OF fo fresh sub _ dist, simplified]
  have "triple_matches ?es ?k ?t" if reg: "registrations_ok x"
  proof (rule unregistered_matches [OF ko])
    show "fresh_fd (triple_fd ?t) ?k" using fresh by simp
    from reg have gens: "monitor_registrations ?es" by (simp add: registrations_ok_def Let_def)
    have "word_of_int (rg_fd r) \<noteq> (word_of_int fd :: u32)"
      if "r \<in> set (es_regs ?es)" "rg_active r" "rg_owner r = Some Own_Monitor" for r
      using gens new that fresh inj_onD [OF word_of_fd_inj, of "rg_fd r" fd]
      unfolding fresh_fd_def monitor_registrations_def left_registered_def list_ex_iff by blast
    then show "\<forall>r\<in>set (es_regs ?es). \<not> has_key r (fst ?t, fst (snd ?t))"
      using gens by (auto simp: has_key_def monitor_registrations_def)
  qed
  with good keep show ?thesis
    using ko
    by (auto simp: io_good_def registrations_ok_def Let_def)
qed

lemma io_good_monitor_remove:
  assumes good: "io_good x" and mon: "fd \<in> fst ` set (io_mon x)"
  shows "io_good (x\<lparr>io_mon := filter (\<lambda>f. fst f \<noteq> fd) (io_mon x), io_kernel := kernel_close fd (io_kernel x)\<rparr>)"
proof -
  let ?ch = "io_chan x" and ?k = "io_kernel x" and ?mon' = "filter (\<lambda>f. fst f \<noteq> fd) (io_mon x)"
  from good have fo: "fds_ok ?ch (io_mon x) ?k" and ko: "kernel_ok ?k" by (simp_all add: io_good_def)
  have t0: "(Own_Monitor, word_of_int fd, fd) \<in> triples ?ch (io_mon x)"
    using mon by (auto simp: triples_def monitor_triples_def)
  have sub: "triples ?ch ?mon' \<subseteq> {t \<in> triples ?ch (io_mon x). triple_fd t \<noteq> fd}"
  proof
    fix t assume t: "t \<in> triples ?ch ?mon'"
    then have old: "t \<in> triples ?ch (io_mon x)" by (auto simp: triples_def monitor_triples_simps)
    have "triple_fd t \<noteq> fd"
    proof
      assume eq: "triple_fd t = fd"
      with old t0 fo have "t = (Own_Monitor, word_of_int fd, fd)"
        unfolding fds_ok_def by (metis inj_onD snd_conv)
      with t show False
        by (auto simp: triples_def monitor_triples_simps listener_triples_def slot_triples_def)
    qed
    with old show "t \<in> {t \<in> triples ?ch (io_mon x). triple_fd t \<noteq> fd}" by simp
  qed
  have dist: "distinct (map fst ?mon')" using fo by (simp add: fds_ok_def distinct_map_filter)
  from close_keeps [OF fo sub dist] good show ?thesis
    using ko
    by (auto simp: io_good_def registrations_ok_def Let_def)
qed


lemma slot_requests_length: "length (slot_requests own i ss) \<le> length ss"
  by (induction own i ss rule: slot_requests.induct) auto

lemma requests_length:
  assumes "slots_ok ch" and "answer = None \<or> answer = Some mon \<and> length mon \<le> MONITOR_FDS_MAX"
  shows "length (channel_requests ch answer) \<le> IO_FDS_MAX"
proof -
  have "length (listener_requests ch) \<le> 3"
    unfolding listener_requests_def by (rule le_trans [OF length_filter_le]) simp
  moreover have "length (monitor_requests answer) \<le> MONITOR_FDS_MAX"
    using assms(2) by (auto simp: monitor_requests_def)
  moreover have "length (slot_requests own 0 (sock_slots s ch)) \<le> MAX_CLIENTS" for own s
    using slot_requests_length [of own 0 "sock_slots s ch"] assms(1) by (simp add: slots_ok_def)
  from this [of Own_Data_Slot Sock_Data] this [of Own_Framed_Slot Sock_Framed] this [of Own_Conf_Slot Sock_Conf]
  have "length (slot_requests Own_Data_Slot 0 (ch_data ch)) \<le> MAX_CLIENTS"
    "length (slot_requests Own_Framed_Slot 0 (ch_framed ch)) \<le> MAX_CLIENTS"
    "length (slot_requests Own_Conf_Slot 0 (ch_conf ch)) \<le> MAX_CLIENTS" by simp_all
  ultimately show ?thesis by (simp add: channel_requests_def IO_FDS_MAX_def)
qed

lemma answer_triples:
  assumes "answer = None \<or> answer = Some mon"
  shows "watch_triple ` set (channel_requests ch answer) \<subseteq> triples ch mon"
    and "t \<in> triples ch mon \<Longrightarrow> t \<in> watch_triple ` set (channel_requests ch answer) \<or> (answer = None \<and> t \<in> monitor_triples mon)"
  using assms requests_triples(2) [of ch mon] requests_triples(1) [of ch] by (auto simp: triples_def)

lemma sync_ready:
  assumes good: "io_good x" and reg: "registrations_ok x"
    and ans: "answer = None \<or> answer = Some (io_mon x) \<and> length (io_mon x) \<le> MONITOR_FDS_MAX"
  defines "qs \<equiv> channel_requests (io_chan x) answer"
  shows "idle (el_epoll (io_set x))" "kernel_ok (io_kernel x)" "covered (el_epoll (io_set x)) (io_kernel x)"
    "watches_ok (io_kernel x) (map request_watch qs)"
    "\<forall>w\<in>set (map request_watch qs). matches (el_epoll (io_set x)) (io_kernel x) w"
    "active_count (el_epoll (io_set x)) + length qs \<le> EVENT_LOOP_EPOLL_MAX_REGISTERED_FDS"
proof -
  let ?ch = "io_chan x" and ?k = "io_kernel x"
  from good have so: "slots_ok ?ch" and fo: "fds_ok ?ch (io_mon x) ?k" by (simp_all add: io_good_def)
  show "idle (el_epoll (io_set x))" "kernel_ok (io_kernel x)" "covered (el_epoll (io_set x)) (io_kernel x)"
    using good reg by (simp_all add: io_good_def registrations_ok_def Let_def)
  have T: "watch_triple q \<in> triples ?ch (io_mon x)" if "q \<in> set qs" for q
    using answer_triples(1) [of answer "io_mon x" ?ch] ans that unfolding qs_def by blast
  then show "\<forall>w\<in>set (map request_watch qs). matches (el_epoll (io_set x)) ?k w"
    using reg by (auto simp: registrations_ok_def Let_def matches_triple)
  have mon: "\<forall>fd\<in>fst ` set (io_mon x). 0 \<le> fd \<and> fd < 2147483648"
  proof
    fix fd assume "fd \<in> fst ` set (io_mon x)"
    then have "(Own_Monitor, word_of_int fd, fd) \<in> triples ?ch (io_mon x)"
      by (auto simp: triples_def monitor_triples_def)
    with fo show "0 \<le> fd \<and> fd < 2147483648" unfolding fds_ok_def by (metis snd_conv)
  qed
  have keys: "distinct (map watch_key qs)"
    unfolding qs_def using request_keys [OF _ mon] ans fo by (auto simp: fds_ok_def)
  have "inj_on watch_fd (set qs)"
  proof (rule inj_onI)
    fix a b assume ab: "a \<in> set qs" "b \<in> set qs" "watch_fd a = watch_fd b"
    then have "watch_triple a = watch_triple b"
      using fo T unfolding fds_ok_def by (metis inj_onD watch_fd_triple)
    then have "watch_key a = watch_key b" by (simp add: watch_key_triple)
    with keys ab show "a = b" unfolding distinct_map by (metis inj_onD)
  qed
  moreover have "distinct qs" using keys by (simp add: distinct_map)
  ultimately have "distinct (map watch_fd qs)" by (simp add: distinct_map)
  moreover have "0 \<le> watch_fd q \<and> watch_fd q \<in> set (ek_open ?k)" if "q \<in> set qs" for q
    using T [OF that] fo by (auto simp: fds_ok_def watch_fd_triple)
  moreover have "watch_events (request_watch q) \<noteq> 0" for q :: "fd_owner watch"
    by (simp add: watch_events_def request_watch_def c_consts)
  ultimately show "watches_ok ?k (map request_watch qs)"
    using keys by (auto simp: watches_ok_def o_def)
  have "length qs \<le> IO_FDS_MAX" unfolding qs_def using requests_length [OF so ans] .
  with reg show "active_count (el_epoll (io_set x)) + length qs \<le> EVENT_LOOP_EPOLL_MAX_REGISTERED_FDS"
    by (simp add: registrations_ok_def Let_def IO_FDS_MAX_def MAX_CLIENTS_def MONITOR_FDS_MAX_def
        EVENT_LOOP_EPOLL_MAX_REGISTERED_FDS_def)
qed


text \<open>No call, successful or not, puts a descriptor on the interest list that is not open.\<close>

lemma kernel_ok_iff: "kernel_ok k \<longleftrightarrow> (\<forall>f e. ek_interest k f = Some e \<longrightarrow> f \<in> set (ek_open k))"
  by (auto simp: kernel_ok_def)

lemma ctl_kernel_ok: "epoll_ctl op fd ev k = (res, k1) \<Longrightarrow> kernel_ok k \<Longrightarrow> kernel_ok k1"
  by (auto simp: epoll_ctl_def Let_def kernel_ok_iff split: if_splits option.splits)

lemma reconcile_fd_kernel_ok:
  assumes "event_loop_epoll_reconcile_fd owner g fd ev es k = (res, es', k')" and "kernel_ok k"
  shows "kernel_ok k'"
proof -
  have "k' = k \<or> (\<exists>op e. k' = snd (epoll_ctl op fd e k))"
    using assms(1) by (auto simp: event_loop_epoll_reconcile_fd_def Let_def split: if_splits option.splits prod.splits)
      (metis snd_conv)+
  with assms(2) ctl_kernel_ok show ?thesis by (metis prod.collapse)
qed

lemma request_kernel_ok: "kernel_ok (snd sk) \<Longrightarrow> kernel_ok (snd (request q sk))"
  by (cases sk) (auto simp: request_def event_loop_reconcile_fd_def split: prod.splits dest: reconcile_fd_kernel_ok)

lemma end_kernel_ok:
  assumes "kernel_ok k" and "event_loop_reconcile_end els k = (els', k')"
  shows "kernel_ok k'"
proof -
  have step: "kernel_ok (fst (snd x)) \<Longrightarrow> kernel_ok (fst (snd (reconcile_end_step x i)))"
    for x :: "'a epoll_set \<times> epoll_kernel \<times> int" and i
    by (cases x) (auto simp: reconcile_end_step_def Let_def split: prod.splits if_splits dest: ctl_kernel_ok)
  have "kernel_ok (fst (snd (foldl reconcile_end_step (es, k, 0) is)))" for es :: "'a epoll_set" and "is"
    by (rule foldl_invariant [where P = "\<lambda>x. kernel_ok (fst (snd x))"]) (use assms(1) step in auto)
  from this [of "el_epoll els" "[0..<length (es_regs (el_epoll els))]"] assms show ?thesis
    by (auto simp: event_loop_reconcile_end_def event_loop_epoll_reconcile_end_def split: if_splits prod.splits)
qed

lemma end_kernel_open:
  "event_loop_reconcile_end els k = (els', k') \<Longrightarrow> ek_open k' = ek_open k"
  by (auto simp: event_loop_reconcile_end_def split: prod.splits dest: end_open)

lemma sync_kernel:
  assumes "daemon_io_sync_event_fds ch mon (els, k) = (els', k')" and "kernel_ok k"
  shows "kernel_ok k'"
proof (cases "el_registration_errno els = 0")
  case True
  obtain els1 k1 where loop: "send_requests (channel_requests ch mon) (event_loop_reconcile_begin els, k) = (els1, k1)"
    by fastforce
  have "kernel_ok (snd (send_requests qs sk))" if "kernel_ok (snd sk)" for qs sk
    by (rule foldl_invariant [where P = "\<lambda>sk. kernel_ok (snd sk)"]) (use that request_kernel_ok in auto)
  from this [of "(event_loop_reconcile_begin els, k)" "channel_requests ch mon"] loop assms(2)
  have "kernel_ok k1" by simp
  with end_kernel_ok [OF this] assms(1) loop True show ?thesis by (simp add: sync_as_requests)
qed (use assms in \<open>simp add: sync_as_requests\<close>)

lemma sync_outcome:
  assumes good: "io_good x"
    and ans: "answer = None \<or> answer = Some (io_mon x) \<and> length (io_mon x) \<le> MONITOR_FDS_MAX"
    and run: "daemon_io_sync_event_fds (io_chan x) answer (io_set x, io_kernel x) = (els, k)"
  shows "el_registration_errno els \<noteq> 0 \<or>
      synced (el_epoll els) k (map request_watch (channel_requests (io_chan x) answer))"
    and "ek_open k = ek_open (io_kernel x)"
    and "el_registration_errno (io_set x) = 0 \<Longrightarrow> plenty (io_kernel x) \<Longrightarrow> el_registration_errno els = 0"
proof -
  have "(el_registration_errno els \<noteq> 0 \<or>
      synced (el_epoll els) k (map request_watch (channel_requests (io_chan x) answer))) \<and>
    ek_open k = ek_open (io_kernel x) \<and>
    (el_registration_errno (io_set x) = 0 \<longrightarrow> plenty (io_kernel x) \<longrightarrow> el_registration_errno els = 0)"
  proof (cases "el_registration_errno (io_set x) = 0")
    case True
    with good have reg: "registrations_ok x" by (simp add: io_good_def)
    note ready = sync_ready [OF good reg ans]
    from run True have run': "(let (els1, k1) = send_requests (channel_requests (io_chan x) answer)
        (event_loop_reconcile_begin (io_set x), io_kernel x) in event_loop_reconcile_end els1 k1) = (els, k)"
      by (simp add: sync_as_requests)
    show ?thesis
      using sync_requests [OF True ready run'] sync_plenty [OF True ready(1,2,3) _ ready(4,5,6) run'] by blast
  next
    case False
    with run show ?thesis by (simp add: sync_as_requests)
  qed
  then show "el_registration_errno els \<noteq> 0 \<or>
      synced (el_epoll els) k (map request_watch (channel_requests (io_chan x) answer))"
    "ek_open k = ek_open (io_kernel x)"
    "el_registration_errno (io_set x) = 0 \<Longrightarrow> plenty (io_kernel x) \<Longrightarrow> el_registration_errno els = 0"
    by blast+
qed

lemma table_unique_reg:
  "table_ok es \<Longrightarrow> r \<in> set (es_regs es) \<Longrightarrow> r' \<in> set (es_regs es) \<Longrightarrow> has_key r key \<Longrightarrow> has_key r' key \<Longrightarrow> r = r'"
  by (metis in_set_conv_nth table_unique)

lemma synced_registrations:
  assumes good: "io_good x" and ans: "answer = None \<or> answer = Some (io_mon x) \<and> length (io_mon x) \<le> MONITOR_FDS_MAX"
    and sync: "synced (el_epoll els) k (map request_watch (channel_requests (io_chan x) answer))"
  shows "registrations_ok (x\<lparr>io_set := els, io_kernel := k, io_changes := 0\<rparr>)"
proof -
  let ?es = "el_epoll els" and ?ch = "io_chan x" and ?qs = "channel_requests (io_chan x) answer"
  from good have so: "slots_ok ?ch" and fo: "fds_ok ?ch (io_mon x) (io_kernel x)" by (simp_all add: io_good_def)
  have tab: "table_ok ?es" using sync by (simp add: synced_def idle_def)
  have sub: "watch_triple q \<in> triples ?ch (io_mon x)" if "q \<in> set ?qs" for q
    using answer_triples(1) [of answer "io_mon x" ?ch] ans that by blast
  have act: "\<exists>q\<in>set ?qs. is_watch r (request_watch q)" if "r \<in> set (es_regs ?es)" "rg_active r" for r
    using sync that by (auto simp: synced_def)
  have watched: "(ek_interest k f = Some e) = (\<exists>q\<in>set ?qs. watch_fd q = f \<and> watch_events (request_watch q) = e)" for f e
    using sync by (auto simp: synced_def)
  have "covered ?es k"
    unfolding covered_def
  proof
    fix f assume "f \<in> dom (ek_interest k)"
    then obtain q where q: "q \<in> set ?qs" "watch_fd q = f" using watched by auto
    with sync obtain r where "r \<in> set (es_regs ?es)" "is_watch r (request_watch q)" by (auto simp: synced_def)
    with q show "\<exists>r\<in>set (es_regs ?es). rg_active r \<and> rg_fd r = f" by (auto simp: is_watch_def has_key_def)
  qed
  moreover have "active_count ?es \<le> IO_FDS_MAX"
    using synced_count [OF sync] requests_length [OF so ans] by simp
  moreover have "triple_matches ?es k t" if t: "t \<in> triples ?ch (io_mon x)" for t
  proof -
    from answer_triples(2) [OF _ t, of answer] ans
    consider q where "q \<in> set ?qs" "t = watch_triple q" | "answer = None" "t \<in> monitor_triples (io_mon x)" by blast
    then show ?thesis
    proof cases
      case 1
      from sync 1 obtain r0 where r0: "r0 \<in> set (es_regs ?es)" "is_watch r0 (request_watch q)" by (auto simp: synced_def)
      have int: "ek_interest k (watch_fd q) = Some (rg_events r0)"
        using watched 1(1) r0(2) by (auto simp: is_watch_def)
      have "r = r0" if "r \<in> set (es_regs ?es)" "has_key r (watch_key q)" for r
        using table_unique_reg [OF tab that(1) r0(1) that(2)] r0(2) by (simp add: is_watch_def)
      moreover have "rg_fd r0 = watch_fd q" "has_key r0 (watch_key q)"
        using r0(2) by (simp_all add: is_watch_def)
      ultimately have "matches ?es k q"
        unfolding matches_def using r0(1) int by metis
      with 1 show ?thesis by (simp add: matches_triple)
    next
      case 2
      have "\<not> has_key r (fst t, fst (snd t))" if "r \<in> set (es_regs ?es)" for r
      proof
        assume r: "has_key r (fst t, fst (snd t))"
        then have "rg_active r" by (simp add: has_key_def)
        with act that obtain q where "q \<in> set ?qs" "is_watch r (request_watch q)" by blast
        with r 2 have "watch_triple q \<in> watch_triple ` set (channel_requests ?ch None)" "fst (watch_triple q) = Own_Monitor"
          by (auto simp: is_watch_def has_key_def monitor_triples_def watch_key_triple)
        then show False unfolding requests_triples(1)
          by (auto simp: listener_triples_def slot_triples_def)
      qed
      moreover have "ek_interest k (triple_fd t) = None"
      proof (rule ccontr)
        assume "ek_interest k (triple_fd t) \<noteq> None"
        then obtain q where q: "q \<in> set ?qs" "watch_fd q = triple_fd t" using watched by auto
        with sub [OF q(1)] t fo have eq: "watch_triple q = t" unfolding fds_ok_def by (metis inj_onD watch_fd_triple)
        have "watch_triple q \<in> watch_triple ` set (channel_requests ?ch None)" using q 2 by simp
        with eq 2(2) show False unfolding requests_triples(1)
          by (auto simp: listener_triples_def slot_triples_def monitor_triples_def)
      qed
      ultimately show ?thesis by (simp add: triple_matches_def matches_def watch_defs)
    qed
  qed
  moreover have "history ?es ?ch 0"
    unfolding history_def
  proof (intro ballI allI impI)
    fix r s i assume r: "r \<in> set (es_regs ?es)" "rg_active r \<and> rg_owner r = Some (sock_owner s i) \<and> i < MAX_CLIENTS"
    with act obtain q where q: "q \<in> set ?qs" "is_watch r (request_watch q)" by blast
    with sub have "watch_triple q \<in> triples ?ch (io_mon x)" by blast
    moreover have "fst (watch_triple q) = sock_owner s i" "fst (snd (watch_triple q)) = rg_generation r"
      using q r by (auto simp: is_watch_def has_key_def watch_key_triple)
    ultimately have "rg_generation r = cl_generation (sock_slots s ?ch ! i)"
      by (auto simp: triples_def listener_triples_def slot_triples_def monitor_triples_def)
    with so r show "rg_generation r \<noteq> 0 \<and>
        (\<exists>n\<le>0. cl_generation (sock_slots s ?ch ! i) = (client_slot_next_generation ^^ n) (rg_generation r))"
      by (auto simp: slots_ok_def)
  qed
  moreover have "monitor_registrations ?es"
    unfolding monitor_registrations_def
  proof (intro ballI impI)
    fix r assume r: "r \<in> set (es_regs ?es)" "rg_active r \<and> rg_owner r = Some Own_Monitor"
    with act obtain q where q: "q \<in> set ?qs" "is_watch r (request_watch q)" by blast
    with sub have t: "watch_triple q \<in> triples ?ch (io_mon x)" by blast
    moreover have "fst (watch_triple q) = Own_Monitor" "fst (snd (watch_triple q)) = rg_generation r"
      "triple_fd (watch_triple q) = rg_fd r"
      using q r by (auto simp: is_watch_def has_key_def watch_key_triple watch_fd_triple)
    ultimately have "rg_generation r = word_of_int (rg_fd r)"
      by (auto simp: triples_def listener_triples_def slot_triples_def monitor_triples_def)
    with t fo \<open>triple_fd (watch_triple q) = rg_fd r\<close>
    show "rg_generation r = word_of_int (rg_fd r) \<and> 0 \<le> rg_fd r \<and> rg_fd r < 2147483648"
      unfolding fds_ok_def by metis
  qed
  ultimately show ?thesis using sync by (simp add: registrations_ok_def Let_def synced_def)
qed


lemma io_good_start: "io_start x \<Longrightarrow> io_good x"
proof (induction rule: io_start.induct)
  case (io_start d f c k ds fs cs created net es)
  let ?ch = "radio_channel_io_init d f c (client_slot_init_all ds) (client_slot_init_all fs) (client_slot_init_all cs) net"
  let ?es = "snd (event_loop_init created es)"
  have slots: "sock_slots s ?ch = client_slot_init_all (case s of Sock_Data \<Rightarrow> ds | Sock_Framed \<Rightarrow> fs | Sock_Conf \<Rightarrow> cs)" for s
    by (cases s) (simp_all add: radio_channel_io_init_def)
  have so: "slots_ok ?ch"
    using io_start unfolding slots_ok_def slots
    by (auto simp: client_slot_init_all_def client_slot_init_def split: sock.splits)
  have "slot_triples own (client_slot_init_all ss) = {}" for own ss
    by (auto simp: slot_triples_def client_slot_init_all_def client_slot_init_def client_slot_has_client_def)
  then have T: "triples ?ch [] = {(Own_Data_Listen, 1, d), (Own_Framed_Listen, 1, f), (Own_Conf_Listen, 1, c)}"
    using io_start unfolding triples_def slots
    by (auto simp: listener_triples_def monitor_triples_def radio_channel_io_init_def)
  have fo: "fds_ok ?ch [] k"
    using io_start unfolding fds_ok_def T by (auto simp: inj_on_def)
  have regs: "es_regs (el_epoll ?es) = replicate EVENT_LOOP_EPOLL_MAX_REGISTERED_FDS event_loop_epoll_clear_registration"
    by (simp add: event_loop_init_def event_loop_epoll_init_def event_loop_epoll_clear_registrations_def)
  have none: "\<not> rg_active r" if "r \<in> set (es_regs (el_epoll ?es))" for r
    using that regs by (simp add: event_loop_epoll_clear_registration_def)
  have count: "active_count (el_epoll ?es) = 0"
    using none by (simp add: active_count_def filter_empty_conv)
  have "idle (el_epoll ?es)"
    using none count io_start(6) unfolding idle_def table_ok_def
    by (auto simp: regs has_key_def event_loop_epoll_clear_registration_def)
      (simp_all add: event_loop_init_def event_loop_epoll_init_def event_loop_epoll_clear_registrations_def)
  moreover have "triple_matches (el_epoll ?es) k t" for t
    using none io_start(7) by (auto simp: triple_matches_def matches_def has_key_def)
  ultimately show ?case
    using so fo none count io_start(7)
    by (simp add: io_good_def registrations_ok_def Let_def kernel_ok_def covered_def history_def monitor_registrations_def)
qed

lemma reopened_stays: "io_step x y \<Longrightarrow> io_reopened x \<Longrightarrow> io_reopened y"
  by (induction rule: io_step.induct) simp_all

lemma io_good_step: "io_step x y \<Longrightarrow> io_good x \<Longrightarrow> \<not> io_reopened y \<Longrightarrow> io_good y"
proof (induction rule: io_step.induct)
  case (io_accept fd x ok s r ss net)
  then show ?case by (blast intro: io_good_accept)
next
  case (io_close i s x slot net)
  then show ?case by (blast intro: io_good_close)
next
  case (io_traffic i s x q lines net)
  then show ?case by (blast intro: io_good_traffic)
next
  case (io_open fd x)
  then show ?case by (blast intro: io_good_kernel_only)
next
  case (io_close_other fd x)
  then show ?case by (blast intro: io_good_kernel_only)
next
  case (io_monitor_add fd x ev)
  then show ?case by (simp add: io_good_monitor_add)
next
  case (io_monitor_remove fd x)
  then show ?case by (blast intro: io_good_monitor_remove)
next
  case (io_monitor_events mon x)
  then have "fst ` set mon = fst ` set (io_mon x)" by (metis set_map)
  then have "triples (io_chan x) mon = triples (io_chan x) (io_mon x)"
    by (simp add: triples_def monitor_triples_def)
  with io_monitor_events show ?case
    by (simp add: io_good_def fds_ok_def registrations_ok_def Let_def)
next
  case (io_sync answer x els k)
  note out = sync_outcome [OF io_sync(3,1,2)]
  from io_sync sync_kernel [of "io_chan x" answer "io_set x" "io_kernel x" els k] have "kernel_ok k"
    by (simp add: io_good_def)
  moreover have "fds_ok (io_chan x) (io_mon x) k"
    using io_sync(3) out(2) by (simp add: io_good_def fds_ok_def)
  ultimately show ?case
    using out(1) synced_registrations [OF io_sync(3,1)] io_sync(3) by (auto simp: io_good_def)
qed

lemma io_reach_good: "io_reach x \<Longrightarrow> \<not> io_reopened x \<Longrightarrow> io_good x"
  by (induction rule: io_reach.induct) (blast intro: io_good_start io_good_step reopened_stays)+

section \<open>Every socket is watched\<close>

definition watched :: "channel \<Rightarrow> monitor_fds \<Rightarrow> int \<Rightarrow> u32 \<Rightarrow> bool" where
  "watched ch mon fd events \<longleftrightarrow>
     fd \<in> {ch_data_fd ch, ch_framed_fd ch, ch_conf_fd ch} \<and> 0 \<le> fd \<and> events = EPOLLIN \<or>
     (\<exists>slot\<in>set (ch_data ch @ ch_framed ch @ ch_conf ch). client_slot_has_client slot \<and> cl_fd slot = fd \<and>
        events = (if client_output_queue_pending (cl_output slot) = 0 then EPOLLIN else EPOLLIN OR EPOLLOUT)) \<or>
     (\<exists>fds mask. mon = Some fds \<and> (fd, mask) \<in> set fds \<and>
        events = (if monitor_events mask = 0 then EPOLLIN else monitor_events mask))"

lemma slot_requests_members:
  "(\<exists>q\<in>set (slot_requests own i ss). watch_fd q = fd \<and> watch_events q = ev) \<longleftrightarrow>
     (\<exists>slot\<in>set ss. client_slot_has_client slot \<and> cl_fd slot = fd \<and> slot_events slot = ev)"
  by (induction own i ss rule: slot_requests.induct) (auto simp: watch_defs)

lemma slot_events_nonzero: "slot_events slot \<noteq> 0"
  by (simp add: slot_events_def c_consts)

lemma watched_requests:
  "(\<exists>q\<in>set (channel_requests ch mon). watch_fd q = fd \<and> watch_events (request_watch q) = ev) \<longleftrightarrow> watched ch mon fd ev"
proof -
  have slots: "(\<exists>q\<in>set (slot_requests own i ss). watch_fd q = fd \<and> watch_events (request_watch q) = ev) \<longleftrightarrow>
      (\<exists>slot\<in>set ss. client_slot_has_client slot \<and> cl_fd slot = fd \<and> slot_events slot = ev)" for own i ss
    using slot_events_nonzero by (induction own i ss rule: slot_requests.induct) (auto simp: watch_defs request_watch_def)
  have listeners: "(\<exists>q\<in>set (listener_requests ch). watch_fd q = fd \<and> watch_events (request_watch q) = ev) \<longleftrightarrow>
      fd \<in> {ch_data_fd ch, ch_framed_fd ch, ch_conf_fd ch} \<and> 0 \<le> fd \<and> ev = EPOLLIN"
    by (auto simp: listener_requests_def watch_defs request_watch_def c_consts)
  have monitor: "(\<exists>q\<in>set (monitor_requests mon). watch_fd q = fd \<and> watch_events (request_watch q) = ev) \<longleftrightarrow>
      (\<exists>fds mask. mon = Some fds \<and> (fd, mask) \<in> set fds \<and>
        ev = (if monitor_events mask = 0 then EPOLLIN else monitor_events mask))"
    by (cases mon) (auto simp: monitor_requests_def watch_defs request_watch_def Bex_def)
  show ?thesis
    unfolding channel_requests_def set_append bex_Un slots listeners monitor watched_def slot_events_def by auto
qed

text \<open>
  C3: The kernel watches exactly the daemon's sockets. Whatever happened since the start
  (connections accepted and closed, numbers of descriptors reused by other clients or files, or by the
  USB library after another owner, output queued and drained), except that libusb opened a descriptor
  under a number its own registration still had, a pass either records a failure, which the next wait
  reports and which ends the daemon, or leaves on the interest list exactly the listening sockets,
  every connected client, with write readiness if and only if output is pending, and the monitor's
  descriptors. A failure has no other cause than a shortage of kernel memory.
\<close>

theorem sockets_watched_exactly:
  assumes "io_reach x" and "\<not> io_reopened x"
    and "answer = None \<or> answer = Some (io_mon x) \<and> length (io_mon x) \<le> MONITOR_FDS_MAX"
    and "daemon_io_sync_event_fds (io_chan x) answer (io_set x, io_kernel x) = (els, k)"
  shows "(event_loop_registration_failed els \<or>
      (\<forall>fd events. ek_interest k fd = Some events \<longleftrightarrow> watched (io_chan x) answer fd events)) \<and>
    (\<not> event_loop_registration_failed (io_set x) \<and> (\<forall>n. ek_short (io_kernel x) n = None) \<longrightarrow>
      \<not> event_loop_registration_failed els) \<and>
    (event_loop_registration_failed els \<longrightarrow> (\<exists>errno. event_loop_wait els answers usec = Inl errno))"
proof -
  note out = sync_outcome [OF io_reach_good [OF assms(1,2)] assms(3,4)]
  have "event_loop_registration_failed els \<or>
      (\<forall>fd events. ek_interest k fd = Some events \<longleftrightarrow> watched (io_chan x) answer fd events)"
    using out(1) by (auto simp: event_loop_registration_failed_def synced_def watched_requests [symmetric])
  moreover have "\<not> event_loop_registration_failed (io_set x) \<and> (\<forall>n. ek_short (io_kernel x) n = None) \<longrightarrow>
      \<not> event_loop_registration_failed els"
    using out(3) by (simp add: event_loop_registration_failed_def plenty_def)
  moreover have "event_loop_registration_failed els \<longrightarrow> (\<exists>errno. event_loop_wait els answers usec = Inl errno)"
    by (simp add: event_loop_registration_failed_def event_loop_wait_def)
  ultimately show ?thesis by blast
qed

definition sample_kernel :: epoll_kernel where
  "sample_kernel = \<lparr>ek_open = [0, 1, 2, 3, 4, 5, 6], ek_interest = Map.empty, ek_calls = 0, ek_short = (\<lambda>_. None)\<rparr>"

definition sample_set :: "fd_owner event_loop_set" where
  "sample_set = snd (event_loop_init 6 \<lparr>el_epoll = \<lparr>es_epoll_fd = -1, es_registered = 0, es_epoch = 0,
     es_reconciling = False, es_regs = []\<rparr>, el_registration_errno = 0\<rparr>)"

definition sample_start :: io_state where
  "sample_start = \<lparr>io_chan = radio_channel_io_init 3 4 5
     (client_slot_init_all (replicate MAX_CLIENTS (sample_slot 0)))
     (client_slot_init_all (replicate MAX_CLIENTS (sample_slot 0)))
     (client_slot_init_all (replicate MAX_CLIENTS (sample_slot 0))) sample_net,
   io_mon = [], io_set = sample_set, io_kernel = sample_kernel, io_changes = 0, io_reopened = False\<rparr>"

text \<open>A client connects with descriptor 7.\<close>

definition sample_io :: io_state where
  "sample_io = sample_start\<lparr>io_chan := sock_put Sock_Data
       (fst (snd (client_slot_accept_with_output (Accepted 7 True) (ch_data (io_chan sample_start)) sample_net)))
       sample_net (io_chan sample_start),
     io_kernel := kernel_open 7 sample_kernel, io_changes := 1\<rparr>"

lemma sample_io_reached: "io_reach sample_io"
proof -
  have "io_start sample_start"
    unfolding sample_start_def sample_set_def
    by (rule io_start.intros) (simp_all add: sample_kernel_def)
  moreover have "io_step sample_start sample_io"
  proof -
    obtain r ss net where acc: "client_slot_accept_with_output (Accepted 7 True) (sock_slots Sock_Data (io_chan sample_start))
        (ch_net (io_chan sample_start)) = (r, ss, net)" by (metis prod_cases3)
    have "fresh_fd 7 (io_kernel sample_start)" "io_changes sample_start < 4294967294"
      by (simp_all add: fresh_fd_def sample_start_def sample_kernel_def)
    from io_step.io_accept [OF this acc] acc show ?thesis
      by (simp add: sample_io_def sample_start_def radio_channel_io_init_def client_slot_accept_with_output_def
          client_slot_init_all_def client_slot_init_def client_slot_has_client_def MAX_CLIENTS_def
          numeral_eq_Suc split: prod.splits)
  qed
  ultimately show ?thesis by (blast intro: io_reach.intros)
qed

lemma sample_not_reopened: "\<not> io_reopened sample_io"
  by (simp add: sample_io_def sample_start_def)

theorem sockets_watched_exactly_witness:
  "case daemon_io_sync_event_fds (io_chan sample_io) None (io_set sample_io, io_kernel sample_io) of (els, k) \<Rightarrow>
     \<not> event_loop_registration_failed els \<and> ek_interest k 7 = Some EPOLLIN \<and> ek_interest k 9 = None"
proof -
  obtain els k where run: "daemon_io_sync_event_fds (io_chan sample_io) None (io_set sample_io, io_kernel sample_io) = (els, k)"
    by fastforce
  have "\<not> event_loop_registration_failed (io_set sample_io)" "\<forall>n. ek_short (io_kernel sample_io) n = None"
    by (simp_all add: sample_io_def sample_start_def sample_set_def sample_kernel_def kernel_open_def
        event_loop_init_def event_loop_epoll_init_def event_loop_registration_failed_def)
  with sockets_watched_exactly [OF sample_io_reached _ _ run] sample_not_reopened
  have ok: "\<not> event_loop_registration_failed els"
    and eq: "ek_interest k fd = Some events \<longleftrightarrow> watched (io_chan sample_io) None fd events" for fd events
    by blast+
  have slots: "ch_data (io_chan sample_io) = client_slot_set_fd (client_slot_init (sample_slot 0)) 7 #
      replicate 9 (client_slot_init (sample_slot 0))"
    "ch_framed (io_chan sample_io) = replicate 10 (client_slot_init (sample_slot 0))"
    "ch_conf (io_chan sample_io) = replicate 10 (client_slot_init (sample_slot 0))"
    "ch_data_fd (io_chan sample_io) = 3" "ch_framed_fd (io_chan sample_io) = 4" "ch_conf_fd (io_chan sample_io) = 5"
    by (simp_all add: sample_io_def sample_start_def radio_channel_io_init_def client_slot_accept_with_output_def
          client_slot_init_all_def client_slot_init_def client_slot_has_client_def MAX_CLIENTS_def numeral_eq_Suc)
  have "watched (io_chan sample_io) None 7 EPOLLIN" "\<not> watched (io_chan sample_io) None 9 events" for events
    unfolding watched_def slots
    by (auto simp: client_slot_has_client_def client_slot_init_def client_slot_set_fd_def
        client_output_queue_reset_def client_output_queue_pending_def client_output_queue_init_def)
  then have "ek_interest k 7 = Some EPOLLIN" "\<And>events. ek_interest k 9 \<noteq> Some events" using eq by blast+
  moreover from this(2) have "ek_interest k 9 = None" by (metis not_None_eq)
  ultimately show ?thesis using ok run by simp
qed

section \<open>A number that libusb reuses at once\<close>














end
