(* ===== verification/Ch341_Select_Props.thy ===== *)
theory Ch341_Select_Props
  imports Ch341_Select "HOL-Library.Multiset" "HOL-Library.Sublist"
begin

text \<open>
  The selection of a Meshstick: it ends after a bounded number of steps, it closes every stick it
  does not hand out, a stick it hands out has been checked, and once a stick was handed out only the
  same stick is handed out again.
\<close>

section \<open>Quiet changes\<close>

text \<open>
  Most helpers read the clock, take events and touch deadlines only. A quiet call opens and closes
  nothing; a quiet change keeps everything of the state that a selection decides with.
\<close>

fun quiet_call :: "sel_call \<Rightarrow> bool" where
  "quiet_call (Sel_Open u d) \<longleftrightarrow> d = None"
| "quiet_call (Sel_Close d) \<longleftrightarrow> False"
| "quiet_call _ \<longleftrightarrow> True"

definition sel_core :: "sel \<Rightarrow> _" where
  "sel_core s = ((sl_mode s, sl_serial s, sl_port s, sl_bound s, sl_at_start s, sl_phase s),
     (sl_count s, sl_index s, sl_items s, sl_attempts s, sl_snap s, sl_held s),
     (sl_ruleb s, sl_scan_changes s, sl_snapshot_final s))"

definition sel_quiet :: "sel \<Rightarrow> sel \<Rightarrow> bool" where
  "sel_quiet s t \<longleftrightarrow> sel_core t = sel_core s \<and> (\<exists>q. sl_calls t = q @ sl_calls s \<and> list_all quiet_call q)"

lemma sel_quiet_refl [simp, intro]: "sel_quiet s s"
  by (simp add: sel_quiet_def)

lemma sel_quiet_trans [trans]:
  assumes "sel_quiet s t" "sel_quiet t u" shows "sel_quiet s u"
proof -
  from assms obtain q r where
    "sel_core t = sel_core s" "sl_calls t = q @ sl_calls s" "list_all quiet_call q"
    "sel_core u = sel_core t" "sl_calls u = r @ sl_calls t" "list_all quiet_call r"
    by (auto simp: sel_quiet_def)
  thus ?thesis unfolding sel_quiet_def by (intro conjI exI [of _ "r @ q"]) auto
qed

lemma sel_quiet_core: "sel_quiet s t \<Longrightarrow> sel_core t = sel_core s"
  by (simp add: sel_quiet_def)

lemma sel_core_eqs:
  assumes "sel_core t = sel_core s"
  shows "sl_mode t = sl_mode s" "sl_serial t = sl_serial s" "sl_port t = sl_port s"
    "sl_bound t = sl_bound s" "sl_at_start t = sl_at_start s" "sl_phase t = sl_phase s"
    "sl_count t = sl_count s" "sl_index t = sl_index s" "sl_items t = sl_items s"
    "sl_attempts t = sl_attempts s" "sl_snap t = sl_snap s" "sl_held t = sl_held s"
    "sl_ruleb t = sl_ruleb s" "sl_scan_changes t = sl_scan_changes s"
    "sl_snapshot_final t = sl_snapshot_final s"
  using assms by (simp_all add: sel_core_def)

lemmas sel_quiet_eqs = sel_core_eqs [OF sel_quiet_core]

lemma sel_quiet_log [simp, intro]: "quiet_call c \<Longrightarrow> sel_quiet s (sel_log c s)"
  unfolding sel_quiet_def by (intro conjI exI [of _ "[c]"]) (auto simp: sel_log_def sel_core_def)

lemma sel_quiet_same_calls:
  "sel_core t = sel_core s \<Longrightarrow> sl_calls t = sl_calls s \<Longrightarrow> sel_quiet s t"
  by (simp add: sel_quiet_def)

lemma sel_quiet_now: "sel_now ops s = (now, t) \<Longrightarrow> sel_quiet s t"
  by (auto simp: sel_now_def)

lemma sel_quiet_idle: "sel_quiet s t \<Longrightarrow> sel_quiet (s\<lparr>sl_phase := p\<rparr>) (t\<lparr>sl_phase := p\<rparr>)"
  by (auto simp: sel_quiet_def sel_core_def)

lemma sel_quiet_arrival: "sel_quiet s (daemon_ch341_select_note_arrival ops s)"
  unfolding daemon_ch341_select_note_arrival_def sel_now_def Let_def split
  by (rule sel_quiet_trans [OF sel_quiet_log [of Sel_Now]])
    (auto intro!: sel_quiet_same_calls simp: sel_core_def)

lemma sel_quiet_left: "sel_quiet s (daemon_ch341_select_note_left ops s)"
proof (cases "sl_cap_first s = 0")
  case True
  show ?thesis unfolding daemon_ch341_select_note_left_def sel_now_def Let_def split if_P [OF True]
    by (rule sel_quiet_trans [OF sel_quiet_log [of Sel_Now]])
      (auto intro!: sel_quiet_same_calls simp: sel_core_def)
next
  case False
  thus ?thesis unfolding daemon_ch341_select_note_left_def
    by (auto intro!: sel_quiet_same_calls simp: sel_core_def)
qed

lemma sel_quiet_funpow: "(\<And>s. sel_quiet s (f s)) \<Longrightarrow> sel_quiet s ((f ^^ k) s)"
  by (induction k) (auto intro: sel_quiet_trans)

lemma sel_quiet_take: "sel_quiet s (sel_take_events ops s)"
  unfolding sel_take_events_def Let_def split_beta
  by (rule sel_quiet_trans [OF sel_quiet_trans [OF sel_quiet_log [of Sel_Take_Events]
        sel_quiet_funpow [OF sel_quiet_arrival]] sel_quiet_funpow [OF sel_quiet_left]]) simp

lemma sel_quiet_snapshot: "snapshot_stale now s = (b, t) \<Longrightarrow> sel_quiet s t"
  by (auto simp: snapshot_stale_def sel_core_def split: if_splits intro!: sel_quiet_same_calls)

lemma sel_quiet_stale: "stale_now ops s = (b, t) \<Longrightarrow> sel_quiet s t"
  by (auto simp: stale_now_def split: prod.splits dest!: sel_quiet_now sel_quiet_snapshot
      intro: sel_quiet_trans)

lemma sel_quiet_window: "window_stale ops s = (b, t) \<Longrightarrow> sel_quiet s t"
  by (auto simp: window_stale_def dest: sel_quiet_stale intro: sel_quiet_trans sel_quiet_take)

text \<open>What a negative staleness test shows.\<close>

lemma not_stale:
  "snapshot_stale now s = (False, t) \<Longrightarrow> sl_changes t \<noteq> sl_scan_changes t \<longrightarrow> sl_snapshot_final t"
  by (auto simp: snapshot_stale_def split: if_splits)

lemma not_stale_now:
  "stale_now ops s = (False, t) \<Longrightarrow> sl_changes t \<noteq> sl_scan_changes t \<longrightarrow> sl_snapshot_final t"
  by (auto simp: stale_now_def split: prod.splits dest: not_stale)

lemma not_stale_window:
  "window_stale ops s = (False, t) \<Longrightarrow> sl_changes t \<noteq> sl_scan_changes t \<longrightarrow> sl_snapshot_final t"
  by (auto simp: window_stale_def dest: not_stale_now)

section \<open>Answers\<close>

text \<open>A final answer without a stick: idle again, and only quiet changes.\<close>

definition answers :: "sel \<Rightarrow> sel_answer \<Rightarrow> bool" where
  "answers s a \<longleftrightarrow> fst a \<in> {CH341_SEL_WAIT, CH341_SEL_REFUSED} \<and>
     sel_quiet (s\<lparr>sl_phase := PH_IDLE\<rparr>) (snd (snd a))"

lemma answers_trans: "sel_quiet s t \<Longrightarrow> answers t a \<Longrightarrow> answers s a"
  unfolding answers_def by (blast intro: sel_quiet_trans sel_quiet_idle)

lemma answers_same: "sel_core t = sel_core s \<Longrightarrow> sl_calls t = sl_calls s \<Longrightarrow> answers t a \<Longrightarrow> answers s a"
  by (erule answers_trans [OF sel_quiet_same_calls]) auto

lemma answers_finish [simp, intro]: "answers s (finish_wait at s)"
  unfolding answers_def finish_wait_def sel_quiet_def
  by (auto simp: sel_core_def sel_log_def)

lemma answers_why [simp]: "answers s (with_why n text a) = answers s a"
  by (simp add: answers_def with_why_def)

lemma answers_refused [simp, intro]: "answers s (refused n text s)"
  unfolding answers_def refused_def sel_quiet_def
  by (auto simp: sel_core_def sel_log_def)

lemma answers_now: "answers s (finish_wait_now ops s)"
  by (auto simp: finish_wait_now_def split: prod.split dest!: sel_quiet_now intro: answers_trans)

lemma answers_burst: "answers (burst_answered s) a \<Longrightarrow> answers s a"
  by (erule answers_same [rotated 2]) (simp_all add: burst_answered_def sel_core_def)

lemma answers_refuse: "answers s (refuse ops n text s)"
proof -
  obtain now s1 where s1: "sel_now ops s = (now, s1)" by fastforce
  obtain b s2 where s2: "snapshot_stale now s1 = (b, s2)" by fastforce
  have q: "sel_quiet s s2" using sel_quiet_now [OF s1] sel_quiet_snapshot [OF s2] by (rule sel_quiet_trans)
  show ?thesis unfolding refuse_def s1 s2 Let_def split
    by (rule answers_trans [OF q]) (auto intro: answers_burst)
qed

lemma answers_transient: "answers s (transient ops n text s)"
  by (auto simp: transient_def answers_refuse split: prod.split dest!: sel_quiet_now intro: answers_trans)

lemma answers_busy: "answers s (busy ops n who ms s)"
  by (auto simp: busy_def Let_def split: prod.split dest!: sel_quiet_now intro: answers_trans)

lemma answers_expired: "answers s (access_expired ops n who s)"
proof -
  obtain b s1 where s1: "stale_now ops s = (b, s1)" by fastforce
  have "answers s1 (finish_wait_now ops (s1\<lparr>sl_access_hold := True\<rparr>))"
    by (rule answers_same [OF _ _ answers_now]) (auto simp: sel_core_def)
  moreover have "answers s1 (refuse ops n (snprintf_text 160 (''no permission to open stick '' @ who @
             '', or it cannot be told apart (udev rule?)'')) (s1\<lparr>sl_access := []\<rparr>))"
    by (rule answers_same [OF _ _ answers_refuse]) (auto simp: sel_core_def)
  ultimately show ?thesis unfolding access_expired_def s1 Let_def split
    by (auto intro: answers_trans [OF sel_quiet_stale [OF s1]])
qed

lemma answers_access_wait: "answers s (access_wait ops n who s)"
proof -
  obtain now s1 where s1: "sel_now ops s = (now, s1)" by fastforce
  obtain b s2 where s2: "snapshot_stale now s1 = (b, s2)" by fastforce
  have q: "sel_quiet s s2" using sel_quiet_now [OF s1] sel_quiet_snapshot [OF s2] by (rule sel_quiet_trans)
  have "answers s2 (finish_wait at (s2\<lparr>sl_access_hold := True\<rparr>))" for at
    by (rule answers_same [OF _ _ answers_finish]) (auto simp: sel_core_def)
  thus ?thesis unfolding access_wait_def s1 s2 Let_def split
    by (auto intro: answers_trans [OF q] answers_expired)
qed

section \<open>Open sticks\<close>

text \<open>The sticks opened and not closed again, from the history of the calls.\<close>

fun open_sticks :: "sel_call list \<Rightarrow> stick multiset" where
  "open_sticks [] = {#}"
| "open_sticks (Sel_Open u (Some d) # cs) = add_mset d (open_sticks cs)"
| "open_sticks (Sel_Close d # cs) = open_sticks cs - {#d#}"
| "open_sticks (c # cs) = open_sticks cs"

lemma open_sticks_quiet1: "quiet_call c \<Longrightarrow> open_sticks (c # cs) = open_sticks cs"
  by (cases c) auto

lemma open_sticks_quiet: "list_all quiet_call q \<Longrightarrow> open_sticks (q @ cs) = open_sticks cs"
  by (induction q) (simp_all add: open_sticks_quiet1)

lemma sel_quiet_sticks: "sel_quiet s t \<Longrightarrow> open_sticks (sl_calls t) = open_sticks (sl_calls s)"
  by (auto simp: sel_quiet_def open_sticks_quiet)

lemma answers_sticks: "answers s (r, why, t) \<Longrightarrow> open_sticks (sl_calls t) = open_sticks (sl_calls s)"
  by (auto simp: answers_def dest: sel_quiet_sticks)

lemma foldl_close:
  "foldl (\<lambda>s dev. sel_log (Sel_Close dev) s) s ds = s\<lparr>sl_calls := rev (map Sel_Close ds) @ sl_calls s\<rparr>"
  by (induction ds arbitrary: s) (auto simp: sel_log_def)

lemma release_held_eq:
  "release_held s = s\<lparr>sl_held := [], sl_calls := rev (map Sel_Close (sl_held s)) @ sl_calls s\<rparr>"
  by (simp add: release_held_def foldl_close)

lemma open_sticks_close_all:
  "open_sticks (rev (map Sel_Close ds) @ cs) = open_sticks cs - mset ds"
  by (induction ds arbitrary: cs) (simp_all add: diff_diff_add_mset)

lemma release_sticks:
  "open_sticks (sl_calls s) = L + mset (sl_held s) \<Longrightarrow> open_sticks (sl_calls (release_held s)) = L"
  by (simp add: release_held_eq open_sticks_close_all)

section \<open>The check of an opened stick\<close>

definition opened_checked :: "sel_ops \<Rightarrow> stick \<Rightarrow> sel \<Rightarrow> sel \<Rightarrow> scan_item \<Rightarrow> bool" where
  "opened_checked ops dev s t it \<longleftrightarrow>
     so_identity ops (sl_calls s) dev = Some it \<and> post_open_ok s (Some it) = Inr it \<and>
     sel_core t = sel_core ((commit_open it s)\<lparr>sl_phase := PH_DONE\<rparr>) \<and>
     (sl_changes t \<noteq> sl_scan_changes t \<longrightarrow> sl_ruleb t \<and> sl_snapshot_final t) \<and>
     (\<exists>e1 e2. sl_calls t = Sel_Scan_End # Sel_Bound_Left # e2 @ Sel_Bind dev # e1 @ Sel_Identity dev # sl_calls s \<and>
        list_all quiet_call e1 \<and> list_all quiet_call e2 \<and>
        so_bind ops (e1 @ Sel_Identity dev # sl_calls s) dev \<and>
        \<not> so_bound_left ops (e2 @ Sel_Bind dev # e1 @ Sel_Identity dev # sl_calls s))"

lemma commit_open_core:
  assumes "sel_core u = sel_core s"
  shows "sel_core ((commit_open it u)\<lparr>sl_phase := p\<rparr>) = sel_core ((commit_open it s)\<lparr>sl_phase := p\<rparr>)"
  using sel_core_eqs [OF assms] by (simp add: commit_open_def sel_core_def Let_def)

lemma post_open_same:
  assumes "sel_core u = sel_core s" shows "post_open_ok u i = post_open_ok s i"
  unfolding post_open_ok_def by (simp only: sel_core_eqs [OF assms])

lemma post_open_identity: "post_open_ok s i = Inr it \<Longrightarrow> i = Some it"
  by (auto simp: post_open_ok_def split: option.splits if_splits)

text \<open>Every way out without the stick closes it first.\<close>

definition put_back :: "stick \<Rightarrow> sel \<Rightarrow> step_answer \<Rightarrow> bool" where
  "put_back dev s a \<longleftrightarrow>
     fst (snd a) = None \<and> (\<exists>u. sel_quiet s u \<and> answers (sel_log (Sel_Close dev) u) (fst a, snd (snd a)))"

lemma put_back_intro: "sel_quiet s u \<Longrightarrow> answers (sel_log (Sel_Close dev) u) a \<Longrightarrow> put_back dev s (no_stick a)"
  by (auto simp: put_back_def no_stick_def)

lemma put_back_trans: "sel_quiet s t \<Longrightarrow> put_back dev t a \<Longrightarrow> put_back dev s a"
  unfolding put_back_def by (blast intro: sel_quiet_trans)

lemma opened_bind_cases:
  assumes "opened_bind ops n dev it s = (r, out, why, t)"
  shows "put_back dev s (r, out, why, t) \<or>
    (r = CH341_SEL_OPENED \<and> out = Some dev \<and> (\<exists>e2. so_bind ops (sl_calls s) dev \<and> list_all quiet_call e2 \<and>
       sl_calls t = Sel_Scan_End # Sel_Bound_Left # e2 @ Sel_Bind dev # sl_calls s \<and>
       \<not> so_bound_left ops (e2 @ Sel_Bind dev # sl_calls s) \<and>
       sel_core t = sel_core ((commit_open it s)\<lparr>sl_phase := PH_DONE\<rparr>) \<and>
       (sl_changes t \<noteq> sl_scan_changes t \<longrightarrow> sl_ruleb t \<and> sl_snapshot_final t)))"
proof (cases "so_bind ops (sl_calls s) dev")
  case False
  define u where "u = sel_log Sel_Unbind (sel_log (Sel_Bind dev) s)"
  obtain b s2 where w: "window_stale ops (sel_log (Sel_Close dev) u) = (b, s2)" by fastforce
  have qu: "sel_quiet s u" unfolding u_def by (meson quiet_call.simps sel_quiet_log sel_quiet_trans)
  note pb = put_back_intro [OF qu answers_trans [OF sel_quiet_window [OF w]]]
  have "put_back dev s (opened_bind ops n dev it s)"
    using False unfolding opened_bind_def Let_def u_def [symmetric]
    by (auto simp: w intro!: pb answers_now answers_transient)
  thus ?thesis by (simp add: assms)
next
  case True
  obtain b s2 where w: "window_stale ops (sel_log (Sel_Bind dev) s) = (b, s2)" by fastforce
  have q: "sel_quiet (sel_log (Sel_Bind dev) s) s2" by (rule sel_quiet_window [OF w])
  have sq: "sel_quiet s s2" by (rule sel_quiet_trans [OF sel_quiet_log q]) simp
  define gone where "gone = so_bound_left ops (sl_calls s2)"
  define s3 where "s3 = sel_log Sel_Bound_Left s2"
  have q3: "sel_quiet s (sel_log Sel_Unbind s3)"
    unfolding s3_def by (meson quiet_call.simps sel_quiet_log sel_quiet_trans sq)
  have eqs: "sl_ruleb s3 = sl_ruleb s2" "sl_changes s3 = sl_changes s2" "sl_scan_changes s3 = sl_scan_changes s2"
    by (simp_all add: s3_def sel_log_def)
  show ?thesis
  proof (cases "b \<or> gone \<or> (\<not> sl_ruleb s3 \<and> sl_changes s3 \<noteq> sl_scan_changes s3)")
    case st: True
    hence "put_back dev s (opened_bind ops n dev it s)"
      using True unfolding opened_bind_def Let_def
      by (simp add: w gone_def [symmetric] s3_def [symmetric])
        (auto intro!: put_back_intro [OF q3] answers_now answers_refuse)
    thus ?thesis by (simp add: assms)
  next
    case ok: False
    from q obtain e2 where e2: "sl_calls s2 = e2 @ Sel_Bind dev # sl_calls s" "list_all quiet_call e2"
      by (auto simp: sel_quiet_def sel_log_def)
    have "opened_bind ops n dev it s = opened_commit dev it s3"
      using True ok unfolding opened_bind_def Let_def
      by (auto simp: w gone_def [symmetric] s3_def [symmetric])
    hence rt: "r = CH341_SEL_OPENED" "out = Some dev"
      "t = burst_answered ((sel_log Sel_Scan_End (commit_open it s3))\<lparr>sl_phase := PH_DONE, sl_access := []\<rparr>)"
      using assms by (auto simp: opened_commit_def)
    have core3: "sel_core s3 = sel_core s" using sel_quiet_core [OF sq] by (simp add: s3_def sel_log_def sel_core_def)
    have "sel_core t = sel_core ((commit_open it s3)\<lparr>sl_phase := PH_DONE\<rparr>)"
      by (simp add: rt(3) burst_answered_def sel_core_def sel_log_def)
    hence core: "sel_core t = sel_core ((commit_open it s)\<lparr>sl_phase := PH_DONE\<rparr>)"
      using commit_open_core [OF core3] by simp
    have calls: "sl_calls t = Sel_Scan_End # Sel_Bound_Left # e2 @ Sel_Bind dev # sl_calls s"
      by (simp add: rt(3) burst_answered_def sel_log_def commit_open_def Let_def s3_def e2)
    have fin: "sl_changes s2 \<noteq> sl_scan_changes s2 \<longrightarrow> sl_snapshot_final s2"
      using not_stale_window [of ops "sel_log (Sel_Bind dev) s" s2] w ok by auto
    have "sl_changes t = sl_changes s2 \<and> sl_scan_changes t = sl_scan_changes s2 \<and> sl_ruleb t = sl_ruleb s2 \<and>
        sl_snapshot_final t = sl_snapshot_final s2"
      by (simp add: rt(3) burst_answered_def sel_log_def commit_open_def Let_def s3_def)
    hence "sl_changes t \<noteq> sl_scan_changes t \<longrightarrow> sl_ruleb t \<and> sl_snapshot_final t"
      using fin ok eqs by auto
    moreover have "\<not> so_bound_left ops (e2 @ Sel_Bind dev # sl_calls s)" using ok by (simp add: gone_def e2)
    ultimately show ?thesis using rt core calls e2(2) True by auto
  qed
qed

lemma opened_cases:
  assumes "opened ops n dev s = (r, out, why, t)"
  shows "put_back dev s (r, out, why, t) \<or>
    (r = CH341_SEL_OPENED \<and> out = Some dev \<and> (\<exists>it. opened_checked ops dev s t it))"
proof -
  define i where "i = so_identity ops (sl_calls s) dev"
  obtain b s1 where w: "window_stale ops (sel_log (Sel_Identity dev) s) = (b, s1)" by fastforce
  have q: "sel_quiet (sel_log (Sel_Identity dev) s) s1" by (rule sel_quiet_window [OF w])
  have sq: "sel_quiet s s1" by (rule sel_quiet_trans [OF sel_quiet_log q]) simp
  show ?thesis
  proof (cases "b \<or> (\<not> sl_ruleb s1 \<and> sl_changes s1 \<noteq> sl_scan_changes s1) \<or> (\<exists>e. post_open_ok s i = Inl e)")
    case True
    have "put_back dev s (opened ops n dev s)"
    proof (cases "b \<or> (\<not> sl_ruleb s1 \<and> sl_changes s1 \<noteq> sl_scan_changes s1)")
      case c: True
      thus ?thesis unfolding opened_def Let_def w
        by (auto intro!: put_back_intro [OF sq] answers_now answers_refuse)
    next
      case c: False
      then obtain f reason where "post_open_ok s i = Inl (f, reason)" using True by force
      thus ?thesis using c unfolding opened_def Let_def w i_def
        by (auto intro!: put_back_intro [OF sq] answers_transient answers_refuse)
    qed
    thus ?thesis by (simp add: assms)
  next
    case False
    then obtain it where it: "post_open_ok s i = Inr it" by (cases "post_open_ok s i") auto
    hence i: "i = Some it" by (rule post_open_identity)
    have ob: "opened_bind ops n dev it s1 = (r, out, why, t)"
      using assms False it unfolding opened_def Let_def w i_def by (auto split: if_splits)
    from q obtain e1 where e1: "sl_calls s1 = e1 @ Sel_Identity dev # sl_calls s" "list_all quiet_call e1"
      by (auto simp: sel_quiet_def sel_log_def)
    have core: "sel_core ((commit_open it s1)\<lparr>sl_phase := PH_DONE\<rparr>) = sel_core ((commit_open it s)\<lparr>sl_phase := PH_DONE\<rparr>)"
      by (rule commit_open_core [OF sel_quiet_core [OF sq]])
    from opened_bind_cases [OF ob] show ?thesis
    proof (elim disjE conjE exE)
      assume "put_back dev s1 (r, out, why, t)"
      thus ?thesis using put_back_trans [OF sq] by blast
    next
      fix e2
      assume "so_bind ops (sl_calls s1) dev" "list_all quiet_call e2" "r = CH341_SEL_OPENED" "out = Some dev"
        "sl_calls t = Sel_Scan_End # Sel_Bound_Left # e2 @ Sel_Bind dev # sl_calls s1"
        "\<not> so_bound_left ops (e2 @ Sel_Bind dev # sl_calls s1)"
        "sel_core t = sel_core ((commit_open it s1)\<lparr>sl_phase := PH_DONE\<rparr>)"
        "sl_changes t \<noteq> sl_scan_changes t \<longrightarrow> sl_ruleb t \<and> sl_snapshot_final t"
      hence "opened_checked ops dev s t it"
        unfolding opened_checked_def using i it i_def core e1 by auto
      thus ?thesis using \<open>r = _\<close> \<open>out = _\<close> by blast
    qed
  qed
qed

section \<open>Well-formed states and one step\<close>

definition sel_ok :: "sel \<Rightarrow> bool" where
  "sel_ok s \<longleftrightarrow> (sl_phase s \<noteq> PH_WALK \<longrightarrow> sl_held s = []) \<and>
     (sl_phase s \<in> {PH_SCAN, PH_OPEN, PH_WALK} \<longrightarrow> 0 \<le> sl_count s) \<and>
     (sl_phase s = PH_SCAN \<longrightarrow> int (sl_index s) \<le> sl_count s \<and> int (length (sl_items s)) = sl_count s) \<and>
     (sl_phase s = PH_OPEN \<longrightarrow> \<not> sl_ruleb s) \<and>
     (sl_phase s = PH_WALK \<longrightarrow> sl_ruleb s \<and> length (sl_held s) \<le> sl_attempts s \<and>
        sl_attempts s \<le> sl_snap s \<and> int (sl_snap s) \<le> sl_count s)"

lemma sel_ok_core:
  assumes "sel_core t = sel_core s" "sel_ok s" shows "sel_ok t"
  using assms(2) unfolding sel_ok_def by (simp only: sel_core_eqs [OF assms(1)])

lemma tally_present:
  "ty_present (foldl (tally_item m u) t its) \<le> ty_present t + length its"
proof (induction its arbitrary: t)
  case (Cons it its)
  have "ty_present (tally_item m u t it) \<le> ty_present t + 1" by (simp add: tally_item_def Let_def)
  thus ?case using Cons.IH [of "tally_item m u t it"] by simp
qed simp

lemma tally_items_present: "ty_present (tally_items s) \<le> length (sl_items s)"
  unfolding tally_items_def by (rule order_trans [OF tally_present]) simp

text \<open>The decision: an answer, an open, or a walk over at most the sticks the scan saw.\<close>

definition decided :: "sel \<Rightarrow> sel_answer \<Rightarrow> bool" where
  "decided s a \<longleftrightarrow> answers (s\<lparr>sl_ruleb := False\<rparr>) a \<or>
     fst a = CH341_SEL_PENDING \<and> sel_quiet (s\<lparr>sl_ruleb := False, sl_phase := PH_OPEN\<rparr>) (snd (snd a)) \<or>
     fst a = CH341_SEL_PENDING \<and> (\<exists>k. 0 < k \<and> k \<le> length (sl_items s) \<and>
       sel_quiet (s\<lparr>sl_ruleb := True, sl_phase := PH_WALK, sl_snap := k, sl_attempts := 0, sl_held := []\<rparr>)
         (snd (snd a)))"

lemma decided_answers:
  "sel_core t = sel_core (s\<lparr>sl_ruleb := False\<rparr>) \<Longrightarrow> sl_calls t = sl_calls s \<Longrightarrow> answers t a \<Longrightarrow> decided s a"
  unfolding decided_def by (rule disjI1, rule answers_same [of t "s\<lparr>sl_ruleb := False\<rparr>"]) simp_all

lemma decided_open:
  "sel_core t = sel_core (s\<lparr>sl_ruleb := False\<rparr>) \<Longrightarrow> sl_calls t = sl_calls s \<Longrightarrow> decided s (decide_open t)"
  by (simp add: decided_def decide_open_def sel_quiet_def sel_core_def)

lemma decided_walk:
  assumes core: "sel_core s2 = sel_core (s\<lparr>sl_ruleb := False\<rparr>)" and calls: "sl_calls s2 = sl_calls s"
    and k: "0 < k" "k \<le> length (sl_items s)"
  shows "decided s (decide_walk ops k s2)"
proof -
  obtain now s3 where s3: "sel_now ops s2 = (now, s3)" by fastforce
  obtain b s4 where s4: "snapshot_stale now s3 = (b, s4)" by fastforce
  have q: "sel_quiet s2 s4" using sel_quiet_now [OF s3] sel_quiet_snapshot [OF s4] by (rule sel_quiet_trans)
  have a: "decided s a" if "answers s2 a" for a using core calls that by (rule decided_answers)
  have w: "answers s2 (finish_wait at s3)" for at
    by (rule answers_trans [OF sel_quiet_now [OF s3] answers_finish])
  have v: "answers s2 (finish_wait at s4)" for at by (rule answers_trans [OF q answers_finish])
  obtain c where c: "sel_core s4 = sel_core s2" "sl_calls s4 = c @ sl_calls s" "list_all quiet_call c"
    using q calls by (auto simp: sel_quiet_def)
  have "sel_core ((burst_answered s4)\<lparr>sl_ruleb := True, sl_snap := k, sl_attempts := 0, sl_held := [], sl_phase := PH_WALK\<rparr>)
      = sel_core (s\<lparr>sl_ruleb := True, sl_phase := PH_WALK, sl_snap := k, sl_attempts := 0, sl_held := []\<rparr>)"
    using c(1) core by (simp add: sel_core_def burst_answered_def)
  hence "decided s (CH341_SEL_PENDING, NULL, (burst_answered s4)\<lparr>sl_ruleb := True, sl_snap := k,
      sl_attempts := 0, sl_held := [], sl_phase := PH_WALK\<rparr>)"
    using k c(2,3) by (auto simp: decided_def sel_quiet_def burst_answered_def)
  thus ?thesis unfolding decide_walk_def s3 s4 Let_def split by (auto intro: a w v)
qed

lemma decided_inner: "decided s (decide_inner ops n s)"
proof -
  define t where "t = tally_items s"
  define s1 where "s1 = s\<lparr>sl_sole := (if ty_present t \<noteq> 1 then [] else ty_sole t), sl_walk_port := ty_walk_port t\<rparr>"
  define s2 where "s2 = s1\<lparr>sl_ruleb := False\<rparr>"
  have core: "sel_core s2 = sel_core (s\<lparr>sl_ruleb := False\<rparr>)" and calls: "sl_calls s2 = sl_calls s"
    by (simp_all add: s2_def s1_def sel_core_def)
  note a = decided_answers [OF core calls] and o = decided_open [OF core calls]
  have k: "ty_present t \<le> length (sl_items s)" unfolding t_def by (rule tally_items_present)
  have w: "decided s (decide_walk ops (ty_present t) s2)" if "ty_present t \<noteq> 0"
    using decided_walk [OF core calls _ k] that by simp
  show ?thesis unfolding decide_inner_def Let_def t_def [symmetric] s1_def [symmetric] s2_def [symmetric]
    by (auto intro!: o w a [OF answers_refuse] a [OF answers_access_wait])
qed

lemma decided_access:
  "decided s (r, why, t) \<Longrightarrow> sel_core u = sel_core t \<Longrightarrow> sl_calls u = sl_calls t \<Longrightarrow> decided s (r, why, u)"
  by (simp add: decided_def answers_def sel_quiet_def)

lemma decided_decide: "decided s (decide ops n s)"
proof -
  define s1 where "s1 = s\<lparr>sl_access_hold := False, sl_access := filter (\<lambda>e. ad_seen (snd e)) (sl_access s)\<rparr>"
  have core: "sel_core s1 = sel_core s" "sl_calls s1 = sl_calls s" by (simp_all add: s1_def sel_core_def)
  obtain r why s2 where d: "decide_inner ops n s1 = (r, why, s2)" by (metis prod_cases3)
  have "decided s1 (r, why, s2)" using decided_inner [of s1 ops n] by (simp add: d)
  hence "decided s (r, why, s2)"
    using core by (simp add: decided_def answers_def sel_quiet_def s1_def sel_core_def)
  thus ?thesis unfolding decide_def Let_def s1_def [symmetric] d split
    by (rule decided_access) (auto simp: sel_core_def)
qed

definition sel_ident :: "sel \<Rightarrow> _" where
  "sel_ident s = (sl_mode s, sl_serial s, sl_port s, sl_bound s)"

text \<open>How many steps an unfinished selection still takes at most, its answer included.\<close>

definition sel_left :: "sel \<Rightarrow> nat" where
  "sel_left s = (case sl_phase s of
     PH_SCAN \<Rightarrow> (nat (sl_count s) - sl_index s) + nat (sl_count s) + 2
   | PH_OPEN \<Rightarrow> 1
   | PH_WALK \<Rightarrow> (sl_snap s - sl_attempts s) + 1
   | _ \<Rightarrow> 0)"

definition sel_busy :: "sel \<Rightarrow> bool" where
  "sel_busy s \<longleftrightarrow> sl_phase s \<in> {PH_SCAN, PH_OPEN, PH_WALK}"

definition step_ok :: "sel \<Rightarrow> stick multiset \<Rightarrow> step_answer \<Rightarrow> bool" where
  "step_ok s L a = (case a of (r, out, why, t) \<Rightarrow>
     sel_ok t \<and> open_sticks (sl_calls t) = L + mset (sl_held t) + (case out of None \<Rightarrow> {#} | Some d \<Rightarrow> {#d#}) \<and>
     (r = CH341_SEL_PENDING \<longleftrightarrow> sel_busy t) \<and> (r = CH341_SEL_OPENED \<longleftrightarrow> out \<noteq> None) \<and>
     (out = None \<longrightarrow> sel_ident t = sel_ident s) \<and>
     (r = CH341_SEL_PENDING \<longrightarrow>
       (if sel_busy s then sel_left t < sel_left s \<and> sl_count t = sl_count s
        else sel_left t = 2 * nat (sl_count t) + 2)))"

lemma sel_ident_core:
  assumes "sel_core t = sel_core s" shows "sel_ident t = sel_ident s"
  unfolding sel_ident_def by (simp only: sel_core_eqs [OF assms])

lemma step_ok_answers:
  assumes "answers u a" "sl_held u = []" "sel_ident u = sel_ident s" "open_sticks (sl_calls u) = L"
  shows "step_ok s L (no_stick a)"
proof -
  obtain r why t where a: "a = (r, why, t)" by (cases a)
  have q: "sel_quiet (u\<lparr>sl_phase := PH_IDLE\<rparr>) t" and r: "r \<in> {CH341_SEL_WAIT, CH341_SEL_REFUSED}"
    using assms(1) by (auto simp: answers_def a)
  have "sl_phase t = PH_IDLE" "sl_held t = []" "sel_ident t = sel_ident s"
    using sel_quiet_eqs [OF q] assms(2,3) by (simp_all add: sel_ident_def)
  thus ?thesis using r sel_quiet_sticks [OF q] assms(4)
    by (auto simp: step_ok_def a no_stick_def sel_ok_def sel_busy_def)
qed

lemma sel_left_core:
  assumes "sel_core t = sel_core s" shows "sel_left t = sel_left s \<and> sel_busy t = sel_busy s"
  unfolding sel_left_def sel_busy_def by (simp add: sel_core_eqs [OF assms] split: sel_phase.split)

lemma step_ok_quiet:
  assumes q: "sel_quiet s u" and u: "step_ok u L a" shows "step_ok s L a"
proof -
  obtain r out why t where a: "a = (r, out, why, t)" by (metis prod_cases4)
  have eqs: "sel_ident u = sel_ident s" "sel_left u = sel_left s" "sel_busy u = sel_busy s" "sl_count u = sl_count s"
    using sel_ident_core sel_left_core sel_core_eqs(7) sel_quiet_core [OF q] by blast+
  show ?thesis using u unfolding step_ok_def a split eqs .
qed

lemma step_ok_put_back:
  assumes "put_back dev u a" "sl_held u = []" "sel_ident u = sel_ident s"
    "open_sticks (sl_calls u) = add_mset dev L"
  shows "step_ok s L a"
proof -
  obtain r out why t where a: "a = (r, out, why, t)" by (metis prod_cases4)
  obtain v where out: "out = None" and q: "sel_quiet u v" and ans: "answers (sel_log (Sel_Close dev) v) (r, why, t)"
    using assms(1) by (auto simp: put_back_def a)
  have "step_ok s L (no_stick (r, why, t))"
  proof (rule step_ok_answers [OF ans])
    show "sl_held (sel_log (Sel_Close dev) v) = []" using sel_quiet_eqs(12) [OF q] assms(2) by (simp add: sel_log_def)
    show "sel_ident (sel_log (Sel_Close dev) v) = sel_ident s"
      using sel_ident_core [OF sel_quiet_core [OF q]] assms(3) by (simp add: sel_log_def sel_ident_def)
    show "open_sticks (sl_calls (sel_log (Sel_Close dev) v)) = L"
      using sel_quiet_sticks [OF q] assms(4) by (simp add: sel_log_def)
  qed
  thus ?thesis by (simp add: a out no_stick_def)
qed

lemma commit_open_held: "sl_held (commit_open it s) = sl_held s"
  by (simp add: commit_open_def Let_def)

lemma step_ok_opened:
  assumes "sl_held u = []" "sel_ident u = sel_ident s" "open_sticks (sl_calls u) = add_mset dev L"
  shows "step_ok s L (opened ops n dev u)"
proof -
  obtain r out why t where a: "opened ops n dev u = (r, out, why, t)" by (metis prod_cases4)
  from opened_cases [OF a] show ?thesis
  proof (elim disjE conjE exE)
    assume "put_back dev u (r, out, why, t)"
    thus ?thesis using step_ok_put_back assms by (simp add: a)
  next
    fix it
    assume r: "r = CH341_SEL_OPENED" "out = Some dev" and c: "opened_checked ops dev u t it"
    have core: "sel_core t = sel_core ((commit_open it u)\<lparr>sl_phase := PH_DONE\<rparr>)"
      using c by (simp add: opened_checked_def)
    have "sl_phase t = PH_DONE" "sl_held t = []"
      using sel_core_eqs [OF core] assms(1) by (simp_all add: commit_open_held)
    moreover have "open_sticks (sl_calls t) = open_sticks (sl_calls u)"
      using c by (auto simp: opened_checked_def open_sticks_quiet)
    ultimately show ?thesis using r assms(3) by (simp add: a step_ok_def sel_ok_def sel_busy_def)
  qed
qed

lemma step_ok_pending:
  assumes q: "sel_quiet u t" and "sel_ok u" "sel_ident u = sel_ident s" "sel_busy u"
    "open_sticks (sl_calls u) = L + mset (sl_held u)"
    "if sel_busy s then sel_left u < sel_left s \<and> sl_count u = sl_count s else sel_left u = 2 * nat (sl_count u) + 2"
  shows "step_ok s L (CH341_SEL_PENDING, None, why, t)"
  using assms(2-) sel_ok_core [OF sel_quiet_core [OF q]] sel_ident_core [OF sel_quiet_core [OF q]]
    sel_left_core [OF sel_quiet_core [OF q]] sel_quiet_sticks [OF q] sel_quiet_eqs(7,12) [OF q]
  by (simp add: step_ok_def)

lemma step_ok_begin:
  assumes "sel_ok s" "\<not> sel_busy s" "open_sticks (sl_calls s) = L"
  shows "step_ok s L (no_stick (step_begin ops n s))"
proof -
  define c where "c = so_scan_begin ops (sl_calls s)"
  have held: "sl_held s = []" using assms(1,2) by (auto simp: sel_ok_def sel_busy_def)
  define s1 where "s1 = (sel_log Sel_Scan_Begin s)\<lparr>sl_count := c\<rparr>"
  have s1: "sl_held s1 = []" "sel_ident s1 = sel_ident s" "open_sticks (sl_calls s1) = L"
    using held assms(3) by (simp_all add: s1_def sel_log_def sel_ident_def)
  have b: "step_begin ops n s = (if c < 0 then
        transient ops n ''the USB device list could not be read'' (s1\<lparr>sl_scan_changes := sl_changes s1\<rparr>)
      else (CH341_SEL_PENDING, NULL, s1\<lparr>sl_items := replicate (nat c) scan_item_zero, sl_index := 0,
             sl_scan_changes := sl_changes s1, sl_snapshot_final := sl_final_pending s1,
             sl_final_pending := False,
             sl_access := map (\<lambda>e. (fst e, (snd e)\<lparr>ad_seen := False\<rparr>)) (sl_access s1),
             sl_phase := PH_SCAN\<rparr>))"
    unfolding step_begin_def Let_def c_def [symmetric] s1_def [symmetric] ..
  show ?thesis
  proof (cases "c < 0")
    case True
    show ?thesis unfolding b if_P [OF True]
      by (rule step_ok_answers [OF answers_transient]) (use s1 in \<open>simp_all add: sel_ident_def\<close>)
  next
    case False
    show ?thesis unfolding b if_not_P [OF False] no_stick_def fst_conv snd_conv
      by (rule step_ok_pending [OF sel_quiet_refl])
        (use s1 False assms(2) in \<open>simp_all add: sel_ident_def sel_ok_def sel_busy_def s1_def sel_log_def sel_left_def\<close>)
  qed
qed

lemma scan_one_core:
  "\<exists>its. length its = length (sl_items s) \<and> sel_quiet (s\<lparr>sl_items := its, sl_index := sl_index s + 1\<rparr>) (scan_one ops s)"
proof -
  define it where "it = so_scan_step ops (sl_calls s) (sl_index s)"
  define its where "its = (sl_items s)[sl_index s := it]"
  define s1 where "s1 = (sel_log (Sel_Scan_Step (sl_index s)) s)\<lparr>sl_items := its\<rparr>"
  have q: "sel_quiet (s\<lparr>sl_items := its\<rparr>) s1"
    by (auto simp: s1_def sel_quiet_def sel_log_def sel_core_def)
  have acc: "sel_quiet v (v\<lparr>sl_access := es\<rparr>)" for es v by (rule sel_quiet_same_calls) (simp_all add: sel_core_def)
  have now: "sel_quiet s1 ((snd (sel_now ops s1))\<lparr>sl_access := es\<rparr>)" for es
    by (rule sel_quiet_trans [OF _ acc]) (simp add: sel_now_def)
  define s2 where "s2 = (if scan_item_unknown (sl_mode s1) it then
                  (case map_of (sl_access s1) (access_key it) of
                     Some d \<Rightarrow> s1\<lparr>sl_access := access_put (access_key it) (d\<lparr>ad_seen := True\<rparr>) (sl_access s1)\<rparr>
                   | None \<Rightarrow> (let (now, s1) = sel_now ops s1 in
                       s1\<lparr>sl_access := access_put (access_key it) \<lparr>ad_at = now + DAEMON_CH341_ACCESS_MS, ad_seen = True\<rparr>
                           (sl_access s1)\<rparr>))
                else s1\<lparr>sl_access := access_erase (access_key it) (sl_access s1)\<rparr>)"
  have "sel_quiet s1 s2" unfolding s2_def split_beta Let_def
    using acc [of s1] now by (auto split: option.splits)
  hence q2: "sel_quiet (s\<lparr>sl_items := its\<rparr>) s2" by (rule sel_quiet_trans [OF q])
  have ix: "sel_quiet (a\<lparr>sl_index := k\<rparr>) (b\<lparr>sl_index := k\<rparr>)" if "sel_quiet a b" for a b k
    using that by (auto simp: sel_quiet_def sel_core_def)
  have "scan_one ops s = s2\<lparr>sl_index := sl_index s2 + 1\<rparr>"
    unfolding scan_one_def Let_def it_def [symmetric] its_def [symmetric] s1_def [symmetric] s2_def by simp
  moreover have "sl_index s2 = sl_index s" using sel_quiet_eqs(8) [OF q2] by simp
  ultimately have "sel_quiet (s\<lparr>sl_items := its, sl_index := sl_index s + 1\<rparr>) (scan_one ops s)"
    using ix [OF q2, of "sl_index s + 1"] by simp
  thus ?thesis unfolding its_def by (metis length_list_update)
qed

lemma decided_step_ok:
  assumes d: "decided s a" and ok: "sel_ok s" and ph: "sl_phase s = PH_SCAN"
    and st: "open_sticks (sl_calls s) = L"
  shows "step_ok s L (no_stick a)"
proof -
  have held: "sl_held s = []" using ok ph by (simp add: sel_ok_def)
  have cnt: "0 \<le> sl_count s" "int (length (sl_items s)) = sl_count s" using ok ph by (simp_all add: sel_ok_def)
  from d show ?thesis unfolding decided_def
  proof (elim disjE conjE exE)
    assume "answers (s\<lparr>sl_ruleb := False\<rparr>) a"
    thus ?thesis by (rule step_ok_answers) (use held st in \<open>simp_all add: sel_ident_def\<close>)
  next
    assume r: "fst a = CH341_SEL_PENDING" and q: "sel_quiet (s\<lparr>sl_ruleb := False, sl_phase := PH_OPEN\<rparr>) (snd (snd a))"
    have "step_ok s L (CH341_SEL_PENDING, None, fst (snd a), snd (snd a))"
      by (rule step_ok_pending [OF q]) (use held st cnt ph in \<open>auto simp: sel_ident_def sel_ok_def sel_busy_def sel_left_def\<close>)
    thus ?thesis using r by (simp add: no_stick_def)
  next
    fix k
    assume r: "fst a = CH341_SEL_PENDING" and k: "0 < k" "k \<le> length (sl_items s)"
      and q: "sel_quiet (s\<lparr>sl_ruleb := True, sl_phase := PH_WALK, sl_snap := k, sl_attempts := 0, sl_held := []\<rparr>)
         (snd (snd a))"
    have "step_ok s L (CH341_SEL_PENDING, None, fst (snd a), snd (snd a))"
      by (rule step_ok_pending [OF q])
        (use held st cnt ph k in \<open>auto simp: sel_ident_def sel_ok_def sel_busy_def sel_left_def\<close>)
    thus ?thesis using r by (simp add: no_stick_def)
  qed
qed

lemma step_ok_scan:
  assumes ok: "sel_ok s" and ph: "sl_phase s = PH_SCAN" and st: "open_sticks (sl_calls s) = L"
  shows "step_ok s L (no_stick (step_scan ops n s))"
proof (cases "int (sl_index s) < sl_count s")
  case False
  thus ?thesis using decided_step_ok [OF decided_decide ok ph st] by (simp add: step_scan_def)
next
  case True
  define first where "first = access_first_deadline True (sl_access s)"
  obtain e s1 where e: "(if first = 0 then (False, s)
      else (let (now, s1) = sel_now ops s in (first \<le> now, s1))) = (e, s1)" by fastforce
  have q: "sel_quiet s s1" using e by (auto split: if_splits prod.splits dest: sel_quiet_now)
  have held: "sl_held s1 = []" using ok ph sel_quiet_eqs(12) [OF q] by (simp add: sel_ok_def)
  have id1: "sel_ident s1 = sel_ident s" by (rule sel_ident_core [OF sel_quiet_core [OF q]])
  have st1: "open_sticks (sl_calls s1) = L" using sel_quiet_sticks [OF q] st by simp
  have sc: "step_scan ops n s = (if e then access_expired ops n (who_scan_expiry s1) s1
      else (CH341_SEL_PENDING, NULL, scan_one ops s1))"
    using True e unfolding step_scan_def Let_def first_def [symmetric] by simp
  show ?thesis
  proof (cases e)
    case e: True
    show ?thesis unfolding sc if_P [OF e] by (rule step_ok_answers [OF answers_expired held id1 st1])
  next
    case e: False
    obtain its where its: "length its = length (sl_items s1)"
      "sel_quiet (s1\<lparr>sl_items := its, sl_index := sl_index s1 + 1\<rparr>) (scan_one ops s1)"
      using scan_one_core by blast
    show ?thesis unfolding sc if_not_P [OF e] no_stick_def fst_conv snd_conv
      by (rule step_ok_pending [OF its(2)])
        (use True ok ph its(1) held id1 st1 sel_quiet_eqs [OF q] in
          \<open>auto simp: sel_ok_def sel_busy_def sel_left_def sel_ident_def\<close>)
  qed
qed

lemma sel_openE:
  assumes "sel_open ops u s = (d, t)"
  shows "sel_core t = sel_core s" "sl_calls t = Sel_Open u d # sl_calls s"
  using assms by (auto simp: sel_open_def Let_def sel_log_def sel_core_def)

lemma step_ok_open:
  assumes ok: "sel_ok s" and ph: "sl_phase s = PH_OPEN" and st: "open_sticks (sl_calls s) = L"
  shows "step_ok s L (step_open ops n s)"
proof -
  obtain b s1 where b: "stale_now ops s = (b, s1)" by fastforce
  have q: "sel_quiet s s1" by (rule sel_quiet_stale [OF b])
  have held: "sl_held s1 = []" using ok ph sel_quiet_eqs(12) [OF q] by (simp add: sel_ok_def)
  have st1: "open_sticks (sl_calls s1) = L" using sel_quiet_sticks [OF q] st by simp
  define u where "u = (if sl_mode s1 = MODE_SERIAL then Some (sl_serial s1) else NULL)"
  obtain d s2 where o: "sel_open ops u s1 = (d, s2)" by fastforce
  have held2: "sl_held s2 = []" using sel_core_eqs(12) [OF sel_openE(1) [OF o]] held by simp
  have id2: "sel_ident s2 = sel_ident s1" by (rule sel_ident_core [OF sel_openE(1) [OF o]])
  have "step_ok s1 L (if b then no_stick (finish_wait_now ops s1)
      else if sl_changes s1 \<noteq> sl_scan_changes s1 then no_stick (refuse ops n kept_arriving s1)
      else (case (d, s2) of
              (None, s2) \<Rightarrow>
                (let (stale, s3) = window_stale ops s2
                 in no_stick (if stale then finish_wait_now ops s3
                      else busy ops n (who_text s3) DAEMON_CH341_BUSY_RETRY_MS s3))
            | (Some dev, s2) \<Rightarrow> opened ops n dev s2))"
  proof (cases d)
    case None
    obtain e s3 where w: "window_stale ops s2 = (e, s3)" by fastforce
    have q3: "sel_quiet s2 s3" by (rule sel_quiet_window [OF w])
    have "answers s2 (if e then finish_wait_now ops s3 else busy ops n (who_text s3) DAEMON_CH341_BUSY_RETRY_MS s3)"
      by (rule answers_trans [OF q3]) (auto intro: answers_now answers_busy)
    hence "step_ok s1 L (no_stick (if e then finish_wait_now ops s3 else busy ops n (who_text s3) DAEMON_CH341_BUSY_RETRY_MS s3))"
      by (rule step_ok_answers) (use held2 id2 st1 None in \<open>auto simp: sel_openE(2) [OF o]\<close>)
    thus ?thesis using held st1
      by (auto simp: None w intro: step_ok_answers answers_now answers_refuse)
  next
    case (Some dev)
    have "step_ok s1 L (opened ops n dev s2)"
      by (rule step_ok_opened [OF held2 id2]) (simp add: sel_openE(2) [OF o] Some st1)
    thus ?thesis using held st1
      by (auto simp: Some intro: step_ok_answers answers_now answers_refuse)
  qed
  hence "step_ok s1 L (step_open ops n s)" unfolding step_open_def Let_def b split u_def [symmetric] o .
  thus ?thesis by (rule step_ok_quiet [OF q])
qed

lemma walk_end_eqs:
  assumes "open_sticks (sl_calls s) = L + mset (sl_held s)"
  shows "sl_held (walk_end ops s) = []" "open_sticks (sl_calls (walk_end ops s)) = L"
    "sel_ident (walk_end ops s) = sel_ident s" "sl_mode (walk_end ops s) = sl_mode s"
    "sl_serial (walk_end ops s) = sl_serial s" "sl_port (walk_end ops s) = sl_port s"
    "sl_ruleb (walk_end ops s) = sl_ruleb s" "\<exists>q. sl_calls (walk_end ops s) = q @ sl_calls s"
  using release_sticks [OF assms]
  by (auto simp: walk_end_def sel_now_def release_held_eq sel_log_def sel_ident_def Let_def)

lemma step_ok_walk:
  assumes ok: "sel_ok s" and ph: "sl_phase s = PH_WALK" and st: "open_sticks (sl_calls s) = L + mset (sl_held s)"
  shows "step_ok s L (step_walk ops n s)"
proof -
  obtain b s1 where b: "stale_now ops s = (b, s1)" by fastforce
  have q: "sel_quiet s s1" by (rule sel_quiet_stale [OF b])
  have st1: "open_sticks (sl_calls s1) = L + mset (sl_held s1)"
    using sel_quiet_sticks [OF q] st sel_quiet_eqs(12) [OF q] by simp
  have ok1: "sel_ok s1" "sl_phase s1 = PH_WALK" using sel_ok_core [OF sel_quiet_core [OF q] ok] ph sel_quiet_eqs(6) [OF q] by auto
  note we = walk_end_eqs [OF st1, of ops]
  have a: "step_ok s1 L (no_stick a)" if "answers (walk_end ops v) a"
    "open_sticks (sl_calls v) = L + mset (sl_held v)" "sel_ident v = sel_ident s1" for a v
    by (rule step_ok_answers [OF that(1)]) (use walk_end_eqs [OF that(2), of ops] that(3) in auto)
  define v where "v = sel_log Sel_Seed_Idle (s1\<lparr>sl_attempts := sl_attempts s1 + 1\<rparr>)"
  obtain d s2 where o: "sel_open ops NULL v = (d, s2)" by fastforce
  have c2: "sel_core s2 = sel_core (s1\<lparr>sl_attempts := sl_attempts s1 + 1\<rparr>)"
    using sel_openE(1) [OF o] by (simp add: v_def sel_log_def sel_core_def)
  have held2: "sl_held s2 = sl_held s1" using sel_core_eqs(12) [OF c2] by simp
  have id2: "sel_ident s2 = sel_ident s1" using sel_ident_core [OF c2] by (simp add: sel_ident_def)
  have st2: "open_sticks (sl_calls s2) = L + mset (sl_held s2) + (case d of None \<Rightarrow> {#} | Some x \<Rightarrow> {#x#})"
    using st1 by (auto simp: sel_openE(2) [OF o] v_def sel_log_def held2 split: option.splits)
  have "step_ok s1 L (if b then no_stick (finish_wait_now ops (walk_end ops s1))
      else if sl_snap s1 \<le> sl_attempts s1 then
        (let s2 = walk_end ops s1 in no_stick (busy ops n (walk_who s2) DAEMON_CH341_WALK_GAP_MS s2))
      else (case (d, s2) of
              (None, s2) \<Rightarrow>
                (let (stale, s3) = window_stale ops (walk_end ops s2)
                 in no_stick (if stale then finish_wait_now ops s3
                      else busy ops n (walk_who s3) DAEMON_CH341_WALK_GAP_MS s3))
            | (Some dev, s2) \<Rightarrow>
                (let identity = so_identity ops (sl_calls s2) dev;
                     (stale, s3) = window_stale ops (sel_log (Sel_Identity dev) s2)
                 in if stale then no_stick (finish_wait_now ops (walk_end ops (sel_log (Sel_Close dev) s3)))
                    else if (case identity of None \<Rightarrow> True | Some it \<Rightarrow> it_serial_state it \<noteq> 0) then
                      (CH341_SEL_PENDING, NULL, NULL, s3\<lparr>sl_held := sl_held s3 @ [dev]\<rparr>)
                    else opened ops n dev (walk_end ops s3))))" (is "step_ok s1 L ?a")
  proof (cases "b \<or> sl_snap s1 \<le> sl_attempts s1")
    case True
    thus ?thesis using a [OF answers_now st1] a [OF answers_busy st1] by (auto simp: Let_def)
  next
    case go: False
    show ?thesis
    proof (cases d)
      case None
      have s2: "open_sticks (sl_calls s2) = L + mset (sl_held s2)" using st2 None by simp
      obtain e s3 where w: "window_stale ops (walk_end ops s2) = (e, s3)" by fastforce
      have q3: "sel_quiet (walk_end ops s2) s3" by (rule sel_quiet_window [OF w])
      show ?thesis using go None w
        by (auto intro!: a [OF _ s2 id2] answers_trans [OF q3] answers_now answers_busy)
    next
      case (Some dev)
      obtain e s3 where w: "window_stale ops (sel_log (Sel_Identity dev) s2) = (e, s3)" by fastforce
      have q3: "sel_quiet s2 s3" by (rule sel_quiet_trans [OF sel_quiet_log sel_quiet_window [OF w]]) simp
      have held3: "sl_held s3 = sl_held s1" using sel_quiet_eqs(12) [OF q3] held2 by simp
      have id3: "sel_ident s3 = sel_ident s1" using sel_ident_core [OF sel_quiet_core [OF q3]] id2 by simp
      have st3: "open_sticks (sl_calls s3) = add_mset dev (L + mset (sl_held s3))"
        using st2 sel_quiet_sticks [OF q3] Some held2 held3 by simp
      have "step_ok s1 L (no_stick (finish_wait_now ops (walk_end ops (sel_log (Sel_Close dev) s3))))"
        by (rule a [OF answers_now]) (use st3 id3 in \<open>simp_all add: sel_log_def sel_ident_def\<close>)
      moreover have "step_ok s1 L (CH341_SEL_PENDING, NULL, NULL, s3\<lparr>sl_held := sl_held s3 @ [dev]\<rparr>)"
        by (rule step_ok_pending [OF sel_quiet_refl])
          (use st3 id3 go ok1 held3 sel_quiet_eqs [OF q3] sel_core_eqs [OF c2] in
            \<open>auto simp: sel_ident_def sel_ok_def sel_busy_def sel_left_def\<close>)
      moreover have "step_ok s1 L (opened ops n dev (walk_end ops s3))"
        by (rule step_ok_opened) (use walk_end_eqs [of s3 "add_mset dev L" ops] st3 id3 in auto)
      ultimately show ?thesis using go Some w by (auto simp: Let_def)
    qed
  qed
  hence "step_ok s1 L (step_walk ops n s)" unfolding step_walk_def Let_def b split v_def [symmetric] o .
  thus ?thesis by (rule step_ok_quiet [OF q])
qed

lemma step_ok_step:
  assumes ok: "sel_ok s" and st: "open_sticks (sl_calls s) = L + mset (sl_held s)"
  shows "step_ok s L (daemon_ch341_select_step ops n s)"
proof (cases "sl_phase s")
  case PH_WALK
  thus ?thesis using step_ok_walk [OF ok _ st] by (simp add: daemon_ch341_select_step_def)
next
  case PH_OPEN
  hence "sl_held s = []" using ok by (simp add: sel_ok_def)
  thus ?thesis using step_ok_open [OF ok PH_OPEN, of L] st by (simp add: daemon_ch341_select_step_def PH_OPEN)
next
  case PH_SCAN
  hence "sl_held s = []" using ok by (simp add: sel_ok_def)
  thus ?thesis using step_ok_scan [OF ok PH_SCAN, of L] st by (simp add: daemon_ch341_select_step_def PH_SCAN)
next
  case PH_IDLE
  hence "sl_held s = []" using ok by (simp add: sel_ok_def)
  thus ?thesis using step_ok_begin [OF ok, of L] st by (simp add: daemon_ch341_select_step_def PH_IDLE sel_busy_def)
next
  case PH_DONE
  hence "sl_held s = []" using ok by (simp add: sel_ok_def)
  thus ?thesis using step_ok_begin [OF ok, of L] st by (simp add: daemon_ch341_select_step_def PH_DONE sel_busy_def)
qed

end
