(* ===== verification/Ch341_Select_Run.thy ===== *)
theory Ch341_Select_Run
  imports Ch341_Select_Props
begin

text \<open>
  Runs of the selection: the calls the daemon makes of it in any order that its two callers can
  produce, with sticks arriving and leaving in between.
\<close>

section \<open>Runs\<close>

text \<open>
  A selection is begun anew only when none is in progress, as both callers do. The list holds the
  sticks handed out so far.
\<close>

inductive sel_run :: "sel_ops \<Rightarrow> nat \<Rightarrow> string ptr \<Rightarrow> sel \<Rightarrow> stick list \<Rightarrow> bool"
  for ops n usb_serial where
  start: "sel_run ops n usb_serial (daemon_ch341_select_init usb_serial sel_initial) []"
| reopen: "sel_run ops n usb_serial s hs \<Longrightarrow> \<not> sel_busy s \<Longrightarrow>
    sel_run ops n usb_serial (daemon_ch341_select_begin at_start s) hs"
| step: "sel_run ops n usb_serial s hs \<Longrightarrow> daemon_ch341_select_step ops n s = (r, out, why, t) \<Longrightarrow>
    sel_run ops n usb_serial t (case out of None \<Rightarrow> hs | Some d \<Rightarrow> hs @ [d])"
| arrival: "sel_run ops n usb_serial s hs \<Longrightarrow> sel_run ops n usb_serial (daemon_ch341_select_note_arrival ops s) hs"
| left: "sel_run ops n usb_serial s hs \<Longrightarrow> sel_run ops n usb_serial (daemon_ch341_select_note_left ops s) hs"
| take_events: "sel_run ops n usb_serial s hs \<Longrightarrow> sel_run ops n usb_serial (sel_take_events ops s) hs"
| cancel: "sel_run ops n usb_serial s hs \<Longrightarrow> sel_run ops n usb_serial (daemon_ch341_select_cancel s) hs"

lemma sel_ok_quiet: "sel_quiet s t \<Longrightarrow> sel_ok s \<Longrightarrow> sel_ok t"
  by (rule sel_ok_core [OF sel_quiet_core])

lemma sel_account_quiet:
  assumes q: "sel_quiet s t" and "sel_ok s" "open_sticks (sl_calls s) = L + mset (sl_held s)"
  shows "sel_ok t \<and> open_sticks (sl_calls t) = L + mset (sl_held t)"
  using assms(2,3) sel_ok_quiet [OF q] sel_quiet_sticks [OF q] sel_quiet_eqs(12) [OF q] by simp

lemma begin_facts:
  "sl_calls (daemon_ch341_select_begin a s) = sl_calls s" "sl_held (daemon_ch341_select_begin a s) = sl_held s"
  "sl_phase (daemon_ch341_select_begin a s) = PH_IDLE" "sel_ident (daemon_ch341_select_begin a s) = sel_ident s"
  by (simp_all add: daemon_ch341_select_begin_def sel_ident_def)

lemma not_busy_held: "sel_ok s \<Longrightarrow> \<not> sel_busy s \<Longrightarrow> sl_held s = []"
  by (auto simp: sel_ok_def sel_busy_def)

lemma cancel_facts:
  assumes "open_sticks (sl_calls s) = L + mset (sl_held s)"
  shows "open_sticks (sl_calls (daemon_ch341_select_cancel s)) = L" "sl_held (daemon_ch341_select_cancel s) = []"
    "sl_phase (daemon_ch341_select_cancel s) = PH_IDLE" "sel_ident (daemon_ch341_select_cancel s) = sel_ident s"
  using release_sticks [OF assms]
  by (auto simp: daemon_ch341_select_cancel_def Let_def release_held_eq sel_log_def sel_ident_def)

lemma sel_run_account:
  "sel_run ops n usb_serial s hs \<Longrightarrow> sel_ok s \<and> open_sticks (sl_calls s) = mset hs + mset (sl_held s)"
proof (induction rule: sel_run.induct)
  case start
  show ?case by (simp add: daemon_ch341_select_init_def sel_initial_def sel_ok_def Let_def)
next
  case (reopen s hs at_start)
  hence h: "sl_held s = []" "open_sticks (sl_calls s) = mset hs" using not_busy_held [of s] by auto
  show ?case using h by (simp add: sel_ok_def [of "daemon_ch341_select_begin at_start s"] begin_facts)
next
  case (step s hs r out why t)
  hence "step_ok s (mset hs) (r, out, why, t)" using step_ok_step by metis
  thus ?case by (auto simp: step_ok_def split: option.splits)
next
  case (arrival s hs)
  thus ?case using sel_account_quiet [OF sel_quiet_arrival] by blast
next
  case (left s hs)
  thus ?case using sel_account_quiet [OF sel_quiet_left] by blast
next
  case (take_events s hs)
  thus ?case using sel_account_quiet [OF sel_quiet_take] by blast
next
  case (cancel s hs)
  thus ?case using cancel_facts [of s "mset hs"] by (simp add: sel_ok_def)
qed

text \<open>
  C22: in every run of the selection the sticks opened and not closed are the ones handed out and
  the ones a Rule B walk holds back. Once the selection has answered (or was cancelled) nothing is
  held any more: no stick stays open without an owner. A walk holds at most as many sticks as its scan
  saw.
\<close>

theorem selection_leaks_no_stick:
  assumes "sel_run ops n usb_serial s hs"
  shows "open_sticks (sl_calls s) = mset hs + mset (sl_held s) \<and>
    (sl_phase s \<noteq> PH_WALK \<longrightarrow> open_sticks (sl_calls s) = mset hs) \<and>
    (sl_phase s = PH_WALK \<longrightarrow> int (length (sl_held s)) \<le> sl_count s)"
proof -
  have "sel_ok s" "open_sticks (sl_calls s) = mset hs + mset (sl_held s)"
    using sel_run_account [OF assms] by auto
  thus ?thesis by (auto simp: sel_ok_def)
qed

section \<open>What an opened stick has passed\<close>

lemma opened_out:
  assumes "opened ops n dev u = (CH341_SEL_OPENED, out, why, t)"
  shows "out = Some dev \<and> (\<exists>it. opened_checked ops dev u t it)"
  using opened_cases [OF assms] by (auto simp: put_back_def answers_def)

lemma no_stick_not_opened:
  "no_stick a \<noteq> (CH341_SEL_OPENED, out, why, t) \<or> fst a = CH341_SEL_OPENED"
  by (auto simp: no_stick_def)

lemma answers_not_opened: "answers u a \<Longrightarrow> no_stick a \<noteq> (CH341_SEL_OPENED, out, why, t)"
  by (auto simp: no_stick_def answers_def)

lemma decided_not_opened: "decided u a \<Longrightarrow> no_stick a \<noteq> (CH341_SEL_OPENED, out, why, t)"
  by (auto simp: no_stick_def answers_def decided_def)

lemma begin_not_opened: "no_stick (step_begin ops n s) \<noteq> (CH341_SEL_OPENED, out, why, t)"
  using answers_not_opened [OF answers_transient]
  by (auto simp: step_begin_def Let_def no_stick_def)

lemma scan_not_opened: "no_stick (step_scan ops n s) \<noteq> (CH341_SEL_OPENED, out, why, t)"
proof (cases "int (sl_index s) < sl_count s")
  case False
  thus ?thesis using decided_not_opened [OF decided_decide] by (simp add: step_scan_def)
next
  case True
  thus ?thesis using answers_not_opened [OF answers_expired]
    by (auto simp: step_scan_def Let_def no_stick_def split: prod.splits)
qed

text \<open>The state in which the stick is checked: freshly opened in this step, nothing of the identity changed.\<close>

definition freshly_opened :: "sel \<Rightarrow> stick \<Rightarrow> sel \<Rightarrow> bool" where
  "freshly_opened s dev u \<longleftrightarrow> sel_ident u = sel_ident s \<and>
     (\<exists>who post pre. sl_calls u = post @ Sel_Open who (Some dev) # pre @ sl_calls s \<and>
        (who \<noteq> NULL \<longrightarrow> who = Some (sl_serial s)))"

lemma freshly_openedI:
  "sel_ident u = sel_ident s \<Longrightarrow> sl_calls u = post @ Sel_Open who (Some dev) # pre @ sl_calls s \<Longrightarrow>
   who \<noteq> NULL \<longrightarrow> who = Some (sl_serial s) \<Longrightarrow> freshly_opened s dev u"
  by (auto simp: freshly_opened_def)

lemma open_step_opened:
  assumes "step_open ops n s = (CH341_SEL_OPENED, out, why, t)"
  shows "\<exists>dev u. freshly_opened s dev u \<and> opened ops n dev u = (CH341_SEL_OPENED, out, why, t)"
proof -
  obtain b s1 where b: "stale_now ops s = (b, s1)" by fastforce
  have q: "sel_quiet s s1" by (rule sel_quiet_stale [OF b])
  define who where "who = (if sl_mode s1 = MODE_SERIAL then Some (sl_serial s1) else NULL)"
  obtain d s2 where o: "sel_open ops who s1 = (d, s2)" by fastforce
  have nb: "\<not> b" "\<not> sl_changes s1 \<noteq> sl_scan_changes s1"
    using assms answers_not_opened [OF answers_now] answers_not_opened [OF answers_refuse]
    by (auto simp: step_open_def Let_def b split: if_splits)
  have d: "d \<noteq> None"
  proof
    assume "d = None"
    thus False using assms nb answers_not_opened [OF answers_now] answers_not_opened [OF answers_busy]
      unfolding step_open_def Let_def b split who_def [symmetric] o by (auto split: if_splits prod.splits)
  qed
  then obtain dev where dev: "d = Some dev" by auto
  have "opened ops n dev s2 = (CH341_SEL_OPENED, out, why, t)"
    using assms nb unfolding step_open_def Let_def b split who_def [symmetric] o dev by simp
  moreover have i: "sel_ident s2 = sel_ident s"
    using sel_ident_core [OF sel_openE(1) [OF o]] sel_ident_core [OF sel_quiet_core [OF q]] by simp
  obtain pre where "sl_calls s1 = pre @ sl_calls s" using q by (auto simp: sel_quiet_def)
  hence "freshly_opened s dev s2"
    using sel_openE(2) [OF o] sel_quiet_eqs(2) [OF q] dev i
    by (intro freshly_openedI [where post = "[]" and who = who and pre = pre]) (auto simp: who_def)
  ultimately show ?thesis by blast
qed

lemma walk_end_ident: "sel_ident (walk_end ops s) = sel_ident s" "\<exists>q. sl_calls (walk_end ops s) = q @ sl_calls s"
  by (auto simp: walk_end_def sel_now_def release_held_eq sel_log_def sel_ident_def)

lemma walk_step_opened:
  assumes "step_walk ops n s = (CH341_SEL_OPENED, out, why, t)"
  shows "\<exists>dev u. freshly_opened s dev u \<and> opened ops n dev u = (CH341_SEL_OPENED, out, why, t)"
proof -
  obtain b s1 where b: "stale_now ops s = (b, s1)" by fastforce
  have q: "sel_quiet s s1" by (rule sel_quiet_stale [OF b])
  define v where "v = sel_log Sel_Seed_Idle (s1\<lparr>sl_attempts := sl_attempts s1 + 1\<rparr>)"
  obtain d s2 where o: "sel_open ops NULL v = (d, s2)" by fastforce
  have nb: "\<not> b" "\<not> sl_snap s1 \<le> sl_attempts s1"
    using assms answers_not_opened [OF answers_now] answers_not_opened [OF answers_busy]
    by (auto simp: step_walk_def Let_def b split: if_splits)
  have d: "d \<noteq> None"
  proof
    assume "d = None"
    thus False using assms nb answers_not_opened [OF answers_now] answers_not_opened [OF answers_busy]
      unfolding step_walk_def Let_def b split v_def [symmetric] o by (auto split: if_splits prod.splits)
  qed
  then obtain dev where dev: "d = Some dev" by auto
  obtain e s3 where w: "window_stale ops (sel_log (Sel_Identity dev) s2) = (e, s3)" by fastforce
  have q3: "sel_quiet s2 s3" by (rule sel_quiet_trans [OF sel_quiet_log sel_quiet_window [OF w]]) simp
  have "opened ops n dev (walk_end ops s3) = (CH341_SEL_OPENED, out, why, t)"
    using assms nb answers_not_opened [OF answers_now]
    unfolding step_walk_def Let_def b split v_def [symmetric] o dev by (auto simp: w split: if_splits)
  moreover have "sel_ident s2 = sel_ident s"
    using sel_ident_core [OF sel_openE(1) [OF o]] sel_ident_core [OF sel_quiet_core [OF q]]
    by (simp add: v_def sel_ident_def sel_log_def)
  hence "sel_ident (walk_end ops s3) = sel_ident s"
    using walk_end_ident sel_ident_core [OF sel_quiet_core [OF q3]] by simp
  moreover obtain pre where "sl_calls s1 = pre @ sl_calls s" using q by (auto simp: sel_quiet_def)
  moreover obtain post where "sl_calls s3 = post @ sl_calls s2" using q3 by (auto simp: sel_quiet_def)
  moreover obtain rel where "sl_calls (walk_end ops s3) = rel @ sl_calls s3" using walk_end_ident(2) by blast
  ultimately have "freshly_opened s dev (walk_end ops s3)"
    unfolding freshly_opened_def using sel_openE(2) [OF o]
    by (intro conjI exI [of _ NULL] exI [of _ "rel @ post"] exI [of _ "Sel_Seed_Idle # pre"])
      (auto simp: dev v_def sel_log_def)
  thus ?thesis using \<open>opened ops n dev (walk_end ops s3) = _\<close> by blast
qed

lemma step_opened:
  assumes "daemon_ch341_select_step ops n s = (CH341_SEL_OPENED, out, why, t)"
  obtains dev u it where "out = Some dev" "freshly_opened s dev u" "opened_checked ops dev u t it"
proof -
  have "\<exists>dev u. freshly_opened s dev u \<and> opened ops n dev u = (CH341_SEL_OPENED, out, why, t)"
    using assms begin_not_opened scan_not_opened open_step_opened walk_step_opened
    by (auto simp: daemon_ch341_select_step_def split: sel_phase.splits)
  thus ?thesis using that opened_out by blast
qed

lemma commit_open_facts:
  "sl_bound (commit_open it s) = daemon_ch341_bound_text it 48" "sl_ruleb (commit_open it s) = sl_ruleb s"
  by (simp_all add: commit_open_def Let_def)

lemma sel_ident_eqs:
  assumes "sel_ident u = sel_ident s"
  shows "sl_mode u = sl_mode s" "sl_serial u = sl_serial s" "sl_port u = sl_port s"
  using assms by (simp_all add: sel_ident_def)

text \<open>What the checks after the open establish about the identity that was read.\<close>

lemma post_open_facts:
  assumes "post_open_ok s (Some it) = Inr it"
  shows "it_serial_state it \<noteq> -1"
    "sl_mode s = MODE_SERIAL \<longrightarrow> it_serial_state it = 1 \<and> serial_eq (it_serial it) (sl_serial s)"
    "sl_mode s = MODE_PORT \<longrightarrow> it_serial_state it \<noteq> 1 \<and> it_port it = sl_port s"
    "sl_ruleb s \<longrightarrow> it_serial_state it = 0"
  using assms by (auto simp: post_open_ok_def split: if_splits)

text \<open>
  a stick is handed out only after every check. It was opened in this very step; its identity
  was read back from it and matches the serial asked for, or the remembered port without a serial,
  and a Rule B stick has no serial; its serial is readable; the monitor was bound to it and it did not
  leave since. All this holds for the last list of sticks: no stick came or left after it, except
  under Rule B once the settle time has run out. The text for \<open>BOUND\<close> names this identity.
\<close>

theorem opened_stick_is_checked:
  assumes "daemon_ch341_select_step ops n s = (CH341_SEL_OPENED, out, why, t)"
  shows "\<exists>dev who it pre post e1 e2. out = Some dev \<and>
    (let opn = post @ Sel_Open who (Some dev) # pre @ sl_calls s;
         bnd = e1 @ Sel_Identity dev # opn;
         lft = e2 @ Sel_Bind dev # bnd in
     sl_calls t = Sel_Scan_End # Sel_Bound_Left # lft \<and> list_all quiet_call (e1 @ e2) \<and>
     so_identity ops opn dev = Some it \<and> so_bind ops bnd dev \<and> \<not> so_bound_left ops lft) \<and>
    (who \<noteq> NULL \<longrightarrow> who = Some (sl_serial s)) \<and> it_serial_state it \<noteq> -1 \<and>
    (sl_mode s = MODE_SERIAL \<longrightarrow> it_serial_state it = 1 \<and> serial_eq (it_serial it) (sl_serial s)) \<and>
    (sl_mode s = MODE_PORT \<longrightarrow> it_serial_state it \<noteq> 1 \<and> it_port it = sl_port s) \<and>
    (sl_ruleb t \<longrightarrow> it_serial_state it = 0) \<and>
    (sl_changes t \<noteq> sl_scan_changes t \<longrightarrow> sl_ruleb t \<and> sl_snapshot_final t) \<and>
    sl_bound t = daemon_ch341_bound_text it 48"
proof -
  from assms obtain dev u it where out: "out = Some dev" and f: "freshly_opened s dev u"
    and c: "opened_checked ops dev u t it" by (rule step_opened)
  from f obtain who post pre where u: "sel_ident u = sel_ident s"
    "sl_calls u = post @ Sel_Open who (Some dev) # pre @ sl_calls s" "who \<noteq> NULL \<longrightarrow> who = Some (sl_serial s)"
    by (auto simp: freshly_opened_def)
  from c obtain e1 e2 where e: "so_identity ops (sl_calls u) dev = Some it" "post_open_ok u (Some it) = Inr it"
    "sel_core t = sel_core ((commit_open it u)\<lparr>sl_phase := PH_DONE\<rparr>)"
    "sl_changes t \<noteq> sl_scan_changes t \<longrightarrow> sl_ruleb t \<and> sl_snapshot_final t"
    "sl_calls t = Sel_Scan_End # Sel_Bound_Left # e2 @ Sel_Bind dev # e1 @ Sel_Identity dev # sl_calls u"
    "list_all quiet_call e1" "list_all quiet_call e2" "so_bind ops (e1 @ Sel_Identity dev # sl_calls u) dev"
    "\<not> so_bound_left ops (e2 @ Sel_Bind dev # e1 @ Sel_Identity dev # sl_calls u)"
    unfolding opened_checked_def by blast
  have t: "sl_bound t = daemon_ch341_bound_text it 48" "sl_ruleb t = sl_ruleb u"
    using sel_core_eqs [OF e(3)] by (simp_all add: commit_open_facts)
  note chk = post_open_facts [OF e(2)] sel_ident_eqs [OF u(1)]
  show ?thesis
    by (intro exI [of _ dev] exI [of _ who] exI [of _ it] exI [of _ pre] exI [of _ post] exI [of _ e1] exI [of _ e2])
      (use out u e t chk in \<open>simp add: Let_def\<close>)
qed

section \<open>The same stick again\<close>

inductive sel_next :: "sel_ops \<Rightarrow> nat \<Rightarrow> sel \<Rightarrow> sel \<Rightarrow> bool" for ops n where
  "\<not> sel_busy s \<Longrightarrow> sel_next ops n s (daemon_ch341_select_begin at_start s)"
| "daemon_ch341_select_step ops n s = (r, out, why, t) \<Longrightarrow> sel_next ops n s t"
| "sel_next ops n s (daemon_ch341_select_note_arrival ops s)"
| "sel_next ops n s (daemon_ch341_select_note_left ops s)"
| "sel_next ops n s (sel_take_events ops s)"
| "sel_next ops n s (daemon_ch341_select_cancel s)"

definition sel_fixed :: "sel \<Rightarrow> sel \<Rightarrow> bool" where
  "sel_fixed s t \<longleftrightarrow> sl_mode t = sl_mode s \<and> sl_serial t = sl_serial s \<and> sl_port t = sl_port s"

lemma sel_fixed_ident: "sel_ident t = sel_ident s \<Longrightarrow> sel_fixed s t"
  by (simp add: sel_fixed_def sel_ident_def)

lemma sel_fixed_quiet: "sel_quiet s t \<Longrightarrow> sel_fixed s t"
  by (rule sel_fixed_ident [OF sel_ident_core [OF sel_quiet_core]])

lemma sel_run_next: "sel_run ops n usb_serial s hs \<Longrightarrow> sel_next ops n s t \<Longrightarrow> \<exists>hs'. sel_run ops n usb_serial t hs'"
  by (erule sel_next.cases) (blast intro: sel_run.intros)+

text \<open>What a step does to the remembered identity.\<close>

lemma step_identity:
  assumes run: "sel_run ops n usb_serial s hs" and st: "daemon_ch341_select_step ops n s = (r, out, why, t)"
    and "sl_mode s \<noteq> MODE_ANY"
  shows "sel_fixed s t"
proof (cases "r = CH341_SEL_OPENED")
  case True
  from st [unfolded True] obtain dev u it where f: "freshly_opened s dev u" and c: "opened_checked ops dev u t it"
    by (rule step_opened)
  have u: "sl_mode u = sl_mode s" "sl_serial u = sl_serial s" "sl_port u = sl_port s"
    using f sel_ident_eqs [of u s] by (auto simp: freshly_opened_def)
  have core: "sel_core t = sel_core ((commit_open it u)\<lparr>sl_phase := PH_DONE\<rparr>)" using c by (simp add: opened_checked_def)
  show ?thesis using sel_core_eqs(1-3) [OF core] u assms(3) by (simp add: sel_fixed_def commit_open_def Let_def)
next
  case False
  have "step_ok s (mset hs) (r, out, why, t)" using step_ok_step sel_run_account [OF run] st by metis
  thus ?thesis using False by (auto simp: step_ok_def intro: sel_fixed_ident)
qed

lemma next_identity:
  assumes "sel_run ops n usb_serial s hs" "sel_next ops n s t" "sl_mode s \<noteq> MODE_ANY"
  shows "sel_fixed s t"
  using assms(2)
proof (cases rule: sel_next.cases)
  case (6)
  have "open_sticks (sl_calls s) = mset hs + mset (sl_held s)" using sel_run_account [OF assms(1)] by simp
  thus ?thesis using 6 cancel_facts(4) sel_fixed_ident by metis
qed (use assms step_identity in
    \<open>auto intro: sel_fixed_quiet sel_quiet_arrival sel_quiet_left sel_quiet_take sel_fixed_ident simp: begin_facts\<close>)

lemma nexts_identity:
  assumes "(sel_next ops n)\<^sup>*\<^sup>* s t" "sel_run ops n usb_serial s hs" "sl_mode s \<noteq> MODE_ANY"
  shows "sel_fixed s t \<and> (\<exists>hs'. sel_run ops n usb_serial t hs')"
  using assms
proof (induction rule: rtranclp_induct)
  case base
  thus ?case by (auto simp: sel_fixed_def)
next
  case (step t u)
  then obtain hs' where "sel_fixed s t" "sel_run ops n usb_serial t hs'" by blast
  moreover from this have "sel_fixed t u" using next_identity step by (metis sel_fixed_def)
  ultimately show ?case using sel_run_next step by (auto simp: sel_fixed_def)
qed

text \<open>
  Two sticks count as the same one: both have the same serial (its first 8 characters), or neither
  has a serial and both sit on the same port (a \<open>char[32]\<close>).
\<close>

definition same_stick :: "scan_item \<Rightarrow> scan_item \<Rightarrow> bool" where
  "same_stick a b \<longleftrightarrow>
     it_serial_state a = 1 \<and> it_serial_state b = 1 \<and> serial_eq (it_serial a) (it_serial b) \<or>
     it_serial_state a \<noteq> 1 \<and> it_serial_state b \<noteq> 1 \<and> take 31 (it_port a) = take 31 (it_port b)"

lemma opened_identity:
  assumes "opened_checked ops dev u t it" "freshly_opened s dev u"
  shows "sl_mode t \<noteq> MODE_ANY"
    "sl_mode t = MODE_SERIAL \<Longrightarrow> it_serial_state it = 1 \<and> take 8 (it_serial it) = take 8 (sl_serial t)"
    "sl_mode t = MODE_PORT \<Longrightarrow> it_serial_state it \<noteq> 1 \<and> take 31 (it_port it) = take 31 (sl_port t)"
proof -
  have core: "sel_core t = sel_core ((commit_open it u)\<lparr>sl_phase := PH_DONE\<rparr>)"
    and p: "post_open_ok u (Some it) = Inr it" using assms(1) by (simp_all add: opened_checked_def)
  note t = sel_core_eqs(1-3) [OF core] and f = post_open_facts [OF p]
  show "sl_mode t \<noteq> MODE_ANY" using t by (simp add: commit_open_def Let_def)
  show "sl_mode t = MODE_SERIAL \<Longrightarrow> it_serial_state it = 1 \<and> take 8 (it_serial it) = take 8 (sl_serial t)"
    using t f by (auto simp: commit_open_def Let_def serial_eq_def snprintf_text_def split: if_splits)
  show "sl_mode t = MODE_PORT \<Longrightarrow> it_serial_state it \<noteq> 1 \<and> take 31 (it_port it) = take 31 (sl_port t)"
    using t f by (auto simp: commit_open_def Let_def snprintf_text_def split: if_splits)
qed

lemma opened_has_identity:
  assumes "opened_checked ops dev u t it"
  shows "\<exists>post c. sl_calls t = post @ Sel_Identity dev # c \<and> so_identity ops c dev = Some it"
proof -
  from assms obtain e1 e2 where "so_identity ops (sl_calls u) dev = Some it"
    "sl_calls t = (Sel_Scan_End # Sel_Bound_Left # e2 @ Sel_Bind dev # e1) @ Sel_Identity dev # sl_calls u"
    by (auto simp: opened_checked_def)
  thus ?thesis by blast
qed

text \<open>
  C23: whatever happens after a stick was handed out, every stick handed out later is the same one,
  by the identities read back from both. A daemon that lost its stick never continues on another.
\<close>

theorem reopened_stick_is_the_same:
  assumes "sel_run ops n usb_serial s1 hs"
    and "daemon_ch341_select_step ops n s1 = (CH341_SEL_OPENED, out1, why1, t1)"
    and "(sel_next ops n)\<^sup>*\<^sup>* t1 s2"
    and "daemon_ch341_select_step ops n s2 = (CH341_SEL_OPENED, out2, why2, t2)"
  shows "\<exists>dev1 it1 post1 c1 dev2 it2 post2 c2. out1 = Some dev1 \<and> out2 = Some dev2 \<and>
    sl_calls t1 = post1 @ Sel_Identity dev1 # c1 \<and> so_identity ops c1 dev1 = Some it1 \<and>
    sl_calls t2 = post2 @ Sel_Identity dev2 # c2 \<and> so_identity ops c2 dev2 = Some it2 \<and>
    same_stick it1 it2"
proof -
  from assms(2) obtain dev1 u1 it1 where o1: "out1 = Some dev1" "freshly_opened s1 dev1 u1"
    "opened_checked ops dev1 u1 t1 it1" by (rule step_opened)
  from assms(4) obtain dev2 u2 it2 where o2: "out2 = Some dev2" "freshly_opened s2 dev2 u2"
    "opened_checked ops dev2 u2 t2 it2" by (rule step_opened)
  note i1 = opened_identity [OF o1(3,2)] and i2 = opened_identity [OF o2(3,2)]
  have run: "sel_run ops n usb_serial t1 (hs @ [dev1])"
    using sel_run.step [OF assms(1,2)] by (simp add: o1(1))
  obtain hs' where f: "sel_fixed t1 s2" "sel_run ops n usb_serial s2 hs'"
    using nexts_identity [OF assms(3) run i1(1)] by blast
  have "sl_mode s2 \<noteq> MODE_ANY" using f(1) i1(1) by (simp add: sel_fixed_def)
  hence "sel_fixed s2 t2" by (rule step_identity [OF f(2) assms(4)])
  hence "sel_fixed t1 t2" using f(1) by (simp add: sel_fixed_def)
  hence "same_stick it1 it2" using i1 i2
    by (cases "sl_mode t1") (auto simp: same_stick_def sel_fixed_def serial_eq_def)
  thus ?thesis using o1 o2 opened_has_identity [OF o1(3)] opened_has_identity [OF o2(3)] by blast
qed

section \<open>A selection ends\<close>

text \<open>Unfinished steps of one selection, counted, with events between them.\<close>

inductive sel_pending :: "sel_ops \<Rightarrow> nat \<Rightarrow> sel \<Rightarrow> nat \<Rightarrow> sel \<Rightarrow> bool" for ops n s where
  none: "sel_pending ops n s 0 s"
| step: "sel_pending ops n s k t \<Longrightarrow> daemon_ch341_select_step ops n t = (CH341_SEL_PENDING, out, why, u) \<Longrightarrow>
    sel_pending ops n s (Suc k) u"
| arrival: "sel_pending ops n s k t \<Longrightarrow> sel_pending ops n s k (daemon_ch341_select_note_arrival ops t)"
| left: "sel_pending ops n s k t \<Longrightarrow> sel_pending ops n s k (daemon_ch341_select_note_left ops t)"
| take_events: "sel_pending ops n s k t \<Longrightarrow> sel_pending ops n s k (sel_take_events ops t)"

definition pending_ok :: "stick multiset \<Rightarrow> nat \<Rightarrow> sel \<Rightarrow> bool" where
  "pending_ok L k t \<longleftrightarrow> sel_ok t \<and> open_sticks (sl_calls t) = L + mset (sl_held t) \<and>
     (if k = 0 then \<not> sel_busy t else sel_busy t \<and> k + sel_left t \<le> 2 * nat (sl_count t) + 3)"

lemma pending_ok_quiet:
  assumes q: "sel_quiet s t" and p: "pending_ok L k s" shows "pending_ok L k t"
proof -
  have eqs: "sel_left t = sel_left s" "sel_busy t = sel_busy s" "sl_count t = sl_count s"
    using sel_left_core sel_core_eqs(7) sel_quiet_core [OF q] by blast+
  show ?thesis using p sel_account_quiet [OF q] unfolding pending_ok_def eqs by blast
qed

lemma sel_pending_ok:
  assumes "sel_pending ops n s k t" "pending_ok L 0 s" shows "pending_ok L k t"
  using assms
proof (induction rule: sel_pending.induct)
  case (step k t out why u)
  have t: "pending_ok L k t" by (rule step.IH [OF step.prems])
  have ok: "step_ok t L (CH341_SEL_PENDING, out, why, u)"
    using step_ok_step [of t L ops n] t step.hyps(2) by (simp add: pending_ok_def)
  show ?case using ok t by (cases "k = 0") (auto simp: step_ok_def pending_ok_def)
qed (auto intro: pending_ok_quiet sel_quiet_arrival sel_quiet_left sel_quiet_take)

text \<open>
  C37: a selection over \<open>k\<close> sticks answers within \<open>2 k + 3\<close> steps: at most \<open>2 k + 2\<close> of them
  are unfinished, whatever the sticks answer and however many arrive or leave meanwhile.
\<close>

theorem selection_answers_in_time:
  assumes "sel_run ops n usb_serial s hs" "\<not> sel_busy s" "sel_pending ops n s k t"
  shows "k \<le> 2 * nat (sl_count t) + 2 \<and>
    (k = 2 * nat (sl_count t) + 2 \<longrightarrow> fst (daemon_ch341_select_step ops n t) \<noteq> CH341_SEL_PENDING)"
proof -
  have "pending_ok (mset hs) 0 s" using sel_run_account [OF assms(1)] assms(2) by (simp add: pending_ok_def)
  hence p: "pending_ok (mset hs) k t" by (rule sel_pending_ok [OF assms(3)])
  have pos: "sel_busy t \<Longrightarrow> 1 \<le> sel_left t" by (auto simp: sel_busy_def sel_left_def split: sel_phase.splits)
  have le: "k \<le> 2 * nat (sl_count t) + 2" using p pos by (auto simp: pending_ok_def split: if_splits)
  moreover have False if k: "k = 2 * nat (sl_count t) + 2" and pend: "fst (daemon_ch341_select_step ops n t) = CH341_SEL_PENDING"
  proof -
    obtain out why u where st: "daemon_ch341_select_step ops n t = (CH341_SEL_PENDING, out, why, u)"
      using pend by (metis fst_conv prod_cases4)
    have "step_ok t (mset hs) (CH341_SEL_PENDING, out, why, u)"
      using step_ok_step [of t "mset hs" ops n] p st by (simp add: pending_ok_def)
    thus False using p k pos by (auto simp: step_ok_def pending_ok_def sel_busy_def sel_left_def split: sel_phase.splits)
  qed
  ultimately show ?thesis by blast
qed

section \<open>Runs with one and with two sticks\<close>

text \<open>
  One stick with a serial, and with two the second has none. Rule B then: the first open gives the
  stick with the serial, which is held back; the second open gives the other one.
\<close>

definition stick_info :: "nat \<Rightarrow> scan_item" where
  "stick_info i = \<lparr>it_openable = 1, it_serial_state = (if i = 0 then 1 else 0),
     it_serial = (if i = 0 then ''AB'' else []), it_port = (if i = 0 then ''1-1'' else ''1-2''), it_connection = i\<rparr>"

definition sticks_ops :: "nat \<Rightarrow> sel_ops" where
  "sticks_ops k = \<lparr>so_scan_begin = \<lambda>_. int k, so_scan_step = \<lambda>_ i. stick_info i,
     so_open = \<lambda>h _. Some (if k = 1 then 0
       else case filter (\<lambda>c. \<not> quiet_call c) h of Sel_Open _ (Some 0) # _ \<Rightarrow> 1 | _ \<Rightarrow> 0),
     so_identity = \<lambda>_ d. Some (stick_info d), so_bind = \<lambda>_ _. True, so_bound_left = \<lambda>_. False,
     so_now = \<lambda>_. 0, so_events = \<lambda>_. (0, 0)\<rparr>"

abbreviation sticks_step :: "nat \<Rightarrow> sel \<Rightarrow> step_answer" where
  "sticks_step k \<equiv> daemon_ch341_select_step (sticks_ops k) 240"

definition sel_after :: "nat \<Rightarrow> nat \<Rightarrow> sel" where
  "sel_after k j = ((\<lambda>s. snd (snd (snd (sticks_step k s)))) ^^ j) (daemon_ch341_select_init NULL sel_initial)"

lemma sel_after_Suc: "sel_after k (Suc j) = snd (snd (snd (sticks_step k (sel_after k j))))"
  by (simp add: sel_after_def)

lemma sel_after_step:
  "sticks_step k (sel_after k j) = (fst (sticks_step k (sel_after k j)), fst (snd (sticks_step k (sel_after k j))),
     fst (snd (snd (sticks_step k (sel_after k j)))), sel_after k (Suc j))"
  by (simp add: sel_after_Suc)

lemma sel_run_after:
  "\<forall>i<j. fst (snd (sticks_step k (sel_after k i))) = None \<Longrightarrow> sel_run (sticks_ops k) 240 NULL (sel_after k j) []"
proof (induction j)
  case 0
  show ?case using sel_run.start [of "sticks_ops k" 240 NULL] by (simp add: sel_after_def)
next
  case (Suc j)
  hence "sel_run (sticks_ops k) 240 NULL (sel_after k j) []" "fst (snd (sticks_step k (sel_after k j))) = None"
    by simp_all
  from sel_run.step [OF this(1) sel_after_step] this(2) show ?case by simp
qed

lemma sel_pending_after:
  "\<forall>i<j. fst (sticks_step k (sel_after k i)) = CH341_SEL_PENDING \<Longrightarrow>
   sel_pending (sticks_ops k) 240 (sel_after k 0) j (sel_after k j)"
proof (induction j)
  case (Suc j)
  hence "sel_pending (sticks_ops k) 240 (sel_after k 0) j (sel_after k j)"
    "fst (sticks_step k (sel_after k j)) = CH341_SEL_PENDING" by simp_all
  thus ?case using sel_pending.step sel_after_step by metis
qed (rule sel_pending.none)

lemma sel_nexts_after:
  "(sel_next (sticks_ops k) 240)\<^sup>*\<^sup>* (sel_after k j) (sel_after k (j + d))"
proof (induction d)
  case (Suc d)
  thus ?case using sel_next.intros(2) [OF sel_after_step [of k "j + d"]]
    by (simp add: rtranclp.rtrancl_into_rtrancl)
qed simp

lemma all_below: "(\<forall>i<j::nat. P i) \<longleftrightarrow> list_all P [0..<j]"
  by (auto simp: list_all_iff)

text \<open>The state in which the walk over the two sticks starts, and the two steps after it.\<close>

definition two_walking :: sel where
  "two_walking = sel_initial\<lparr>sl_phase := PH_WALK, sl_count := 2, sl_index := 2,
     sl_items := [stick_info 0, stick_info 1], sl_snap := 2, sl_ruleb := True, sl_walk_port := ''1-2'',
     sl_calls := [Sel_Now, Sel_Scan_Step 1, Sel_Scan_Step 0, Sel_Scan_Begin]\<rparr>"

lemma two_walking_after: "sel_after 2 4 = two_walking"
  by code_simp

lemma two_sticks_scan:
  "list_all (\<lambda>i. fst (sticks_step 2 (sel_after 2 i)) = CH341_SEL_PENDING \<and>
     fst (snd (sticks_step 2 (sel_after 2 i))) = None) [0..<4] \<and> \<not> sel_busy (sel_after 2 0)"
  by code_simp

definition two_held :: sel where
  "two_held = two_walking\<lparr>sl_attempts := 1, sl_held := [0],
     sl_calls := [Sel_Now, Sel_Take_Events, Sel_Identity 0, Sel_Open NULL (Some 0), Sel_Seed_Idle, Sel_Now] @
       sl_calls two_walking\<rparr>"

lemma two_sticks_walk:
  "sticks_step 2 two_walking = (CH341_SEL_PENDING, None, None, two_held)"
  "fst (sticks_step 2 two_held) = CH341_SEL_OPENED" "fst (snd (sticks_step 2 two_held)) = Some 1"
  "fst (snd (snd (sticks_step 2 two_held))) = None"
  "sl_phase (snd (snd (snd (sticks_step 2 two_held)))) = PH_DONE"
  "sl_ruleb (snd (snd (snd (sticks_step 2 two_held))))"
  by code_simp+

lemma two_held_after: "sel_after 2 5 = two_held"
  using sel_after_Suc [of 2 4] by (simp add: two_walking_after two_sticks_walk)

lemma two_sticks_pending:
  "\<forall>i<5. fst (sticks_step 2 (sel_after 2 i)) = CH341_SEL_PENDING"
  "\<forall>i<5. fst (snd (sticks_step 2 (sel_after 2 i))) = None"
  "sticks_step 2 (sel_after 2 5) = (CH341_SEL_OPENED, Some 1, None, sel_after 2 6)"
  "sl_held (sel_after 2 5) = [0]" "sl_phase (sel_after 2 6) = PH_DONE" "sl_ruleb (sel_after 2 6)"
  "\<not> sel_busy (sel_after 2 0)"
proof -
  have five: "[0..<5] = [0..<4] @ [4]" by (simp add: numeral_eq_Suc)
  show "\<forall>i<5. fst (sticks_step 2 (sel_after 2 i)) = CH341_SEL_PENDING"
    "\<forall>i<5. fst (snd (sticks_step 2 (sel_after 2 i))) = None" "\<not> sel_busy (sel_after 2 0)"
    using two_sticks_scan unfolding all_below five
    by (auto simp: list_all_iff two_walking_after two_sticks_walk)
  show "sticks_step 2 (sel_after 2 5) = (CH341_SEL_OPENED, Some 1, None, sel_after 2 6)"
    using sel_after_step [of 2 5] by (simp add: two_held_after two_sticks_walk)
  show "sl_held (sel_after 2 5) = [0]" by (simp add: two_held_after two_held_def)
  show "sl_phase (sel_after 2 6) = PH_DONE" "sl_ruleb (sel_after 2 6)"
    using sel_after_Suc [of 2 5] by (simp_all add: two_held_after two_sticks_walk)
qed

theorem selection_leaks_no_stick_witness:
  "open_sticks (sl_calls (sel_after 2 5)) = {#0#} \<and> open_sticks (sl_calls (sel_after 2 6)) = {#1#}"
proof -
  have r: "sel_run (sticks_ops 2) 240 NULL (sel_after 2 5) []" by (rule sel_run_after [OF two_sticks_pending(2)])
  have s: "sel_run (sticks_ops 2) 240 NULL (sel_after 2 6) [1]"
    using sel_run.step [OF r two_sticks_pending(3)] by simp
  have "sl_phase (sel_after 2 6) \<noteq> PH_WALK" by (simp add: two_sticks_pending(5))
  hence "open_sticks (sl_calls (sel_after 2 6)) = mset [1]" using selection_leaks_no_stick [OF s] by blast
  thus ?thesis using selection_leaks_no_stick [OF r] by (simp add: two_sticks_pending(4))
qed

theorem opened_stick_is_checked_witness:
  "\<exists>it. it_serial_state it = 0 \<and> sl_bound (sel_after 2 6) = daemon_ch341_bound_text it 48"
  using opened_stick_is_checked [OF two_sticks_pending(3)] two_sticks_pending(6) by blast

theorem selection_answers_in_time_witness: "5 \<le> 2 * nat (sl_count (sel_after 2 5)) + 2"
proof -
  have "sel_run (sticks_ops 2) 240 NULL (sel_after 2 0) []" by (rule sel_run_after) simp
  from selection_answers_in_time [OF this two_sticks_pending(7) sel_pending_after [OF two_sticks_pending(1)]]
  show ?thesis by blast
qed

lemma one_stick_opened:
  "\<forall>i<3. fst (snd (sticks_step 1 (sel_after 1 i))) = None"
  "sticks_step 1 (sel_after 1 3) = (CH341_SEL_OPENED, Some 0, None, sel_after 1 4)"
  unfolding all_below by code_simp+

text \<open>The state after the first stick was handed out.\<close>

definition one_opened :: sel where
  "one_opened = sel_initial\<lparr>sl_mode := MODE_SERIAL, sl_serial := ''AB'', sl_bound := ''serial:AB'', sl_phase := PH_DONE,
     sl_count := 1, sl_index := 1, sl_items := [stick_info 0], sl_sole := ''AB'',
     sl_calls := [Sel_Scan_End, Sel_Bound_Left, Sel_Now, Sel_Take_Events, Sel_Bind 0, Sel_Now, Sel_Take_Events,
       Sel_Identity 0, Sel_Open NULL (Some 0), Sel_Now, Sel_Scan_Step 0, Sel_Scan_Begin]\<rparr>"

lemma one_opened_after: "sel_after 1 4 = one_opened"
  by code_simp

lemma one_stick_reopened:
  "sticks_step 1 (sel_after 1 7) = (CH341_SEL_OPENED, Some 0, None, sel_after 1 8)"
proof -
  have "sel_after 1 7 = ((\<lambda>s. snd (snd (snd (sticks_step 1 s)))) ^^ 3) one_opened"
    unfolding one_opened_after [symmetric] sel_after_def funpow_add [THEN fun_cong, unfolded o_def, symmetric] by simp
  moreover have "fst (sticks_step 1 (((\<lambda>s. snd (snd (snd (sticks_step 1 s)))) ^^ 3) one_opened)) = CH341_SEL_OPENED"
    "fst (snd (sticks_step 1 (((\<lambda>s. snd (snd (snd (sticks_step 1 s)))) ^^ 3) one_opened))) = Some 0"
    "fst (snd (snd (sticks_step 1 (((\<lambda>s. snd (snd (snd (sticks_step 1 s)))) ^^ 3) one_opened)))) = None"
    by code_simp+
  ultimately show ?thesis using sel_after_step [of 1 7] by simp
qed

theorem reopened_stick_is_the_same_witness:
  "\<exists>dev1 it1 post1 c1 dev2 it2 post2 c2. Some (0::stick) = Some dev1 \<and> Some (0::stick) = Some dev2 \<and>
    sl_calls (sel_after 1 4) = post1 @ Sel_Identity dev1 # c1 \<and> so_identity (sticks_ops 1) c1 dev1 = Some it1 \<and>
    sl_calls (sel_after 1 8) = post2 @ Sel_Identity dev2 # c2 \<and> so_identity (sticks_ops 1) c2 dev2 = Some it2 \<and>
    same_stick it1 it2"
proof -
  have r: "sel_run (sticks_ops 1) 240 NULL (sel_after 1 3) []" by (rule sel_run_after [OF one_stick_opened(1)])
  have "(sel_next (sticks_ops 1) 240)\<^sup>*\<^sup>* (sel_after 1 4) (sel_after 1 7)"
    using sel_nexts_after [of 1 4 3] by simp
  from reopened_stick_is_the_same [OF r one_stick_opened(2) this one_stick_reopened] show ?thesis .
qed

end
