(* ===== verification/Usb_Wait.thy ===== *)
theory Usb_Wait
  imports Tx_Types C_Text "HOL-Library.Monad_Syntax"
begin

text \<open>
  The wait for a lost Meshstick, \<open>daemon_usb_wait.cpp\<close>: the state machine that the main loop runs once
  per pass. Its operations come in through the table \<open>DaemonUsbWaitOps\<close>; here they are functions on
  the state, which holds the module's variables and everything outside it as \<open>'w\<close>. All operations
  are there, as in the daemon's table.

  \<open>daemon_usb_wait_on_loss\<close> runs on any thread: an operation may include calls of it. The atomics are
  then read one by one, in the order of the code. Output is left out. Times are milliseconds of the
  monotonic clock, far below \<open>2 ^ 64\<close>. The loops that take all waiting events need not end for every
  table, so a pass is a value of \<open>option\<close>.
\<close>

datatype usb_wait_state = USB_WAIT_READY | USB_WAIT_PENDING | USB_WAIT_TEARDOWN | USB_WAIT_UNPLUGGED

record 'w usb_wait =
  uw_armed :: bool
  uw_loss_flag :: bool
  uw_state :: usb_wait_state
  uw_deadline_ms :: nat
  uw_reopening :: bool
  uw_force_reopen :: bool
  uw_reinit_pending :: bool
  uw_loss_ms :: nat
  uw_world :: 'w

type_synonym ('w, 'a) usb_op = "'w usb_wait \<Rightarrow> 'a \<times> 'w usb_wait"

record 'w usb_wait_ops =
  uo_mon_dispatch :: "'w usb_wait \<Rightarrow> 'w usb_wait"
  uo_mon_left_bound :: "('w, bool) usb_op"
  uo_mon_present_bound :: "('w, int) usb_op"
  uo_mon_take_arrival :: "('w, bool) usb_op"
  uo_mon_take_left :: "('w, bool) usb_op"
  uo_reopen_begin :: "bool \<Rightarrow> 'w usb_wait \<Rightarrow> 'w usb_wait"
  uo_reopen_arrival :: "'w usb_wait \<Rightarrow> 'w usb_wait"
  uo_reopen_left :: "'w usb_wait \<Rightarrow> 'w usb_wait"
  uo_reopen_step :: "('w, int) usb_op"
  uo_reopen_due :: "('w, bool) usb_op"
  uo_teardown_try :: "('w, bool) usb_op"
  uo_reinit :: "('w, int) usb_op"
  uo_set_health :: "radio_health \<Rightarrow> 'w usb_wait \<Rightarrow> 'w usb_wait"
  uo_fatal :: "string \<Rightarrow> 'w usb_wait \<Rightarrow> 'w usb_wait"
  uo_now_ms :: "('w, nat) usb_op"

definition DAEMON_USB_WAIT_GRACE_MS :: nat where [c_consts]: "DAEMON_USB_WAIT_GRACE_MS = 500"

text \<open>The values of the static variables at the start.\<close>

definition usb_wait_initial :: "'w \<Rightarrow> 'w usb_wait" where
  "usb_wait_initial w = \<lparr>uw_armed = False, uw_loss_flag = False, uw_state = USB_WAIT_READY, uw_deadline_ms = 0,
     uw_reopening = False, uw_force_reopen = False, uw_reinit_pending = False, uw_loss_ms = 0, uw_world = w\<rparr>"

definition daemon_usb_wait_init :: "'w usb_wait \<Rightarrow> 'w usb_wait" where
  "daemon_usb_wait_init u = u\<lparr>uw_armed := True\<rparr>"

text \<open>It needs two operations of the table.\<close>

definition on_loss_with ::
  "(radio_health \<Rightarrow> 'w usb_wait \<Rightarrow> 'w usb_wait) \<Rightarrow> ('w, nat) usb_op \<Rightarrow> 'w usb_wait \<Rightarrow> 'w usb_wait" where
  "on_loss_with set_health now_ms u =
     (let u1 = (if uw_armed u then set_health RADIO_HEALTH_UNPLUGGED u else u);
          u2 = (if uw_armed u1 then
                  (let (now, v) = now_ms u1 in if uw_loss_ms v = 0 then v\<lparr>uw_loss_ms := now\<rparr> else v)
                else u1)
      in u2\<lparr>uw_loss_flag := True\<rparr>)"

definition daemon_usb_wait_on_loss :: "'w usb_wait_ops \<Rightarrow> 'w usb_wait \<Rightarrow> 'w usb_wait" where
  "daemon_usb_wait_on_loss ops = on_loss_with (uo_set_health ops) (uo_now_ms ops)"

definition daemon_usb_wait_state :: "'w usb_wait \<Rightarrow> usb_wait_state" where
  "daemon_usb_wait_state u = uw_state u"

definition daemon_usb_wait_reset :: "'w usb_wait \<Rightarrow> 'w usb_wait" where
  "daemon_usb_wait_reset u = u\<lparr>uw_armed := False, uw_loss_flag := False, uw_state := USB_WAIT_READY,
     uw_deadline_ms := 0, uw_reopening := False, uw_force_reopen := False, uw_reinit_pending := False, uw_loss_ms := 0\<rparr>"

section \<open>A pass\<close>

definition usb_wait_gone :: "'w usb_wait \<Rightarrow> 'w usb_wait" where
  "usb_wait_gone u = u\<lparr>uw_state := USB_WAIT_TEARDOWN\<rparr>"

text \<open>\<open>while (take()) { any = true; note(); }\<close>\<close>

partial_function (option) usb_drain ::
  "('w, bool) usb_op \<Rightarrow> ('w usb_wait \<Rightarrow> 'w usb_wait) \<Rightarrow> bool \<Rightarrow> 'w usb_wait \<Rightarrow> (bool \<times> 'w usb_wait) option" where
  "usb_drain take_ev note_ev any u =
     (if fst (take_ev u) then usb_drain take_ev note_ev True (note_ev (snd (take_ev u)))
      else Some (any, snd (take_ev u)))"

text \<open>
  What such a loop relies on: a take that finds an event leaves fewer waiting. Then the loop ends, and it
  keeps whatever its two operations keep.
\<close>

locale usb_events =
  fixes take_ev :: "('w, bool) usb_op" and note_ev :: "'w usb_wait \<Rightarrow> 'w usb_wait" and waiting :: "'w usb_wait \<Rightarrow> nat"
  assumes fewer_wait: "fst (take_ev u) \<Longrightarrow> waiting (note_ev (snd (take_ev u))) < waiting u"
begin

lemma drain_ends: "\<exists>b v. usb_drain take_ev note_ev any u = Some (b, v)"
proof (induction "waiting u" arbitrary: u any rule: less_induct)
  case less
  show ?case
  proof (cases "fst (take_ev u)")
    case True
    thus ?thesis using less [OF fewer_wait [OF True]] by (subst usb_drain.simps) simp
  next
    case False
    thus ?thesis by (subst usb_drain.simps) simp
  qed
qed

lemma drain_keeps:
  assumes t: "\<And>u. P u \<Longrightarrow> P (snd (take_ev u))" and n: "\<And>u. P u \<Longrightarrow> P (note_ev u)"
    and "usb_drain take_ev note_ev any u = Some (b, v)" "P u"
  shows "P v"
  using assms(3,4)
proof (induction "waiting u" arbitrary: u any rule: less_induct)
  case less
  show ?case
  proof (cases "fst (take_ev u)")
    case True
    have "usb_drain take_ev note_ev True (note_ev (snd (take_ev u))) = Some (b, v)"
      using less.prems(1) True by (subst (asm) usb_drain.simps) simp
    thus ?thesis using less.hyps [OF fewer_wait [OF True]] t n less.prems(2) by blast
  next
    case False
    thus ?thesis using less.prems t by (subst (asm) usb_drain.simps) auto
  qed
qed

end

definition usb_wait_pending :: "'w usb_wait_ops \<Rightarrow> 'w usb_wait \<Rightarrow> 'w usb_wait" where
  "usb_wait_pending ops u =
     (let (gone, u1) = uo_mon_left_bound ops u in
      if gone then usb_wait_gone u1
      else let (now, u2) = uo_now_ms ops u1 in
        if now < uw_deadline_ms u2 then u2
        else let (present, u3) = uo_mon_present_bound ops u2 in
          if present = 0 then usb_wait_gone u3
          else if present < 0 then uo_fatal ops ''Meshstick loss: the USB device list could not be read'' u3
          else uo_fatal ops ''USB I/O error with the Meshstick present'' u3)"

definition usb_wait_ready :: "'w usb_wait_ops \<Rightarrow> 'w usb_wait \<Rightarrow> 'w usb_wait option" where
  "usb_wait_ready ops u =
     (if \<not> uw_loss_flag u then
        (let (gone, u1) = uo_mon_left_bound ops u in
         if gone then Some u1
         else do {
           (_, u2) \<leftarrow> usb_drain (uo_mon_take_arrival ops) id False u1;
           (_, u3) \<leftarrow> usb_drain (uo_mon_take_left ops) id False u2;
           Some u3
         })
      else Some (usb_wait_pending ops
        (u\<lparr>uw_deadline_ms := uw_loss_ms u + DAEMON_USB_WAIT_GRACE_MS, uw_state := USB_WAIT_PENDING\<rparr>)))"

definition usb_wait_teardown :: "'w usb_wait_ops \<Rightarrow> 'w usb_wait \<Rightarrow> 'w usb_wait" where
  "usb_wait_teardown ops u =
     (let (ok, u1) = uo_teardown_try ops u in
      if \<not> ok then u1
      else u1\<lparr>uw_loss_flag := False, uw_loss_ms := 0, uw_state := USB_WAIT_UNPLUGGED, uw_force_reopen := True\<rparr>)"

definition usb_wait_reinit :: "'w usb_wait_ops \<Rightarrow> 'w usb_wait \<Rightarrow> 'w usb_wait" where
  "usb_wait_reinit ops u =
     (let (ri, u1) = uo_reinit ops u in
      if ri < 0 then u1
      else let u2 = u1\<lparr>uw_reinit_pending := False\<rparr> in
        if ri = 1 \<and> uw_loss_flag u2 then u2\<lparr>uw_state := USB_WAIT_READY\<rparr>
        else if ri = 1 then u2\<lparr>uw_state := USB_WAIT_READY\<rparr>
        else uo_fatal ops ''Meshstick re-init after the replug failed'' (uo_set_health ops RADIO_HEALTH_FAILED u2))"

text \<open>One step of the running selection.\<close>

definition usb_wait_step :: "'w usb_wait_ops \<Rightarrow> 'w usb_wait \<Rightarrow> 'w usb_wait" where
  "usb_wait_step ops u =
     (let (r, u1) = uo_reopen_step ops u in
      if r = 0 then u1
      else let u2 = u1\<lparr>uw_reopening := False\<rparr> in
        if r = 2 then u2 else usb_wait_reinit ops (u2\<lparr>uw_reinit_pending := True\<rparr>))"

definition usb_wait_reopen :: "'w usb_wait_ops \<Rightarrow> bool \<Rightarrow> 'w usb_wait \<Rightarrow> 'w usb_wait" where
  "usb_wait_reopen ops arrival u =
     (if uw_reopening u then usb_wait_step ops u
      else let (due, u1) = (if \<not> arrival \<and> \<not> uw_force_reopen u then uo_reopen_due ops u else (True, u)) in
        if \<not> due then u1
        else usb_wait_step ops ((uo_reopen_begin ops arrival (u1\<lparr>uw_force_reopen := False\<rparr>))\<lparr>uw_reopening := True\<rparr>))"

definition usb_wait_unplugged :: "'w usb_wait_ops \<Rightarrow> 'w usb_wait \<Rightarrow> 'w usb_wait option" where
  "usb_wait_unplugged ops u =
     (if uw_reinit_pending u then Some (usb_wait_reinit ops u)
      else do {
        (arrival, u1) \<leftarrow> usb_drain (uo_mon_take_arrival ops) (uo_reopen_arrival ops) False u;
        (arrival, u2) \<leftarrow> usb_drain (uo_mon_take_left ops) (uo_reopen_left ops) arrival u1;
        Some (usb_wait_reopen ops arrival u2)
      })"

definition daemon_usb_wait_tick :: "'w usb_wait_ops \<Rightarrow> 'w usb_wait \<Rightarrow> 'w usb_wait option" where
  "daemon_usb_wait_tick ops u =
     (if \<not> uw_armed u then Some u
      else let u1 = uo_mon_dispatch ops u in
        case uw_state u1 of
          USB_WAIT_READY \<Rightarrow> usb_wait_ready ops u1
        | USB_WAIT_PENDING \<Rightarrow> Some (usb_wait_pending ops u1)
        | USB_WAIT_TEARDOWN \<Rightarrow> Some (usb_wait_teardown ops u1)
        | USB_WAIT_UNPLUGGED \<Rightarrow> usb_wait_unplugged ops u1)"

end
