(* ===== verification/Radio_Init.thy ===== *)
theory Radio_Init
  imports Radio_Ctrl
begin

text \<open>
  The start of the radio, \<open>lora_init\<close> of \<open>daemon_radio_init.cpp\<close>, over the interface \<open>DaemonHalControl\<close>
  that both HALs implement.

  A HAL method returns nothing; a failure in it sets the HAL's startup latch. Whether that happens during
  \<open>begin()\<close>, the attachment of the interrupt or the start of the reception is part of the answers, as is
  the status of \<open>begin()\<close>. Log lines and the LED are left out.
\<close>

record hal_ctl =
  hc_lock_ready :: bool
  hc_startup_failed :: bool
  hc_operational :: bool

record init_answers =
  ia_gpio_locks :: nat
  ia_led_ready :: bool
  ia_begin :: int
  ia_begin_fails :: bool
  ia_action_fails :: bool
  ia_start_fails :: bool

definition RADIOLIB_ERR_SPI_CMD_FAILED :: int where
  [c_consts]: "RADIOLIB_ERR_SPI_CMD_FAILED = -707"

definition hal_latch :: "bool \<Rightarrow> hal_ctl \<Rightarrow> hal_ctl" where
  "hal_latch failed h = h\<lparr>hc_startup_failed := hc_startup_failed h \<or> failed\<rparr>"

text \<open>\<open>begin()\<close>, only with the bus lock: the status, the HAL, and whether the lock was missing.\<close>

definition init_begin :: "init_answers \<Rightarrow> hal_ctl \<Rightarrow> int \<times> hal_ctl \<times> bool" where
  "init_begin a h =
     (if hc_lock_ready h then (ia_begin a, hal_latch (ia_begin_fails a) h, False)
      else (RADIOLIB_ERR_SPI_CMD_FAILED, h, True))"

definition init_configured :: "driver \<Rightarrow> init_answers \<Rightarrow> int \<Rightarrow> hal_ctl \<Rightarrow> radio \<Rightarrow> bool \<times> hal_ctl \<times> radio" where
  "init_configured d a state h r =
     (if state \<noteq> RADIOLIB_ERR_NONE then (False, h, r)
      else if hc_startup_failed h then (False, h, r)
      else let r1 = drv d Call_SetAction r; h1 = hal_latch (ia_action_fails a) h
        in (\<not> hc_startup_failed h1, h1, r1))"

definition init_receive :: "driver \<Rightarrow> init_answers \<Rightarrow> bool \<Rightarrow> hal_ctl \<Rightarrow> radio \<Rightarrow> bool \<times> hal_ctl \<times> radio" where
  "init_receive d a startup_ok h r =
     (if \<not> startup_ok then (False, h, r)
      else let (state, r1) = drv_status d Call_StartReceive r;
               h1 = hal_latch (ia_start_fails a) h;
               (armed, r2) = daemon_rx_rearm_boot_result state r1
        in if \<not> armed then (False, h1, r2)
           else if hc_startup_failed h1 then (False, h1, r2) else (True, h1, r2))"

text \<open>
  \<open>usb\<close>: the profile drives the radio over the CH341 bridge; \<open>h\<close> is the HAL that is created. The
  result has the HAL (None when it was not created) and \<open>g_boot_lock_failed\<close>.
\<close>

definition lora_init :: "driver \<Rightarrow> bool \<Rightarrow> init_answers \<Rightarrow> hal_ctl \<Rightarrow> radio \<Rightarrow> radio \<times> hal_ctl ptr \<times> bool" where
  "lora_init d usb a h r =
     (let r0 = r\<lparr>rc_health := RADIO_HEALTH_UNINITIALIZED\<rparr> in
      if \<not> usb \<and> ia_gpio_locks a = 0 then (r0\<lparr>rc_health := RADIO_HEALTH_FAILED\<rparr>, NULL, True)
      else if \<not> usb \<and> \<not> ia_led_ready a then (r0\<lparr>rc_health := RADIO_HEALTH_FAILED\<rparr>, NULL, False)
      else
        let (state, h1, no_lock) = init_begin a h;
            (startup_ok, h2, r2) = init_configured d a state h1 (r0\<lparr>rc_driver := True\<rparr>);
            (ok, h3, r3) = init_receive d a startup_ok h2 (r2\<lparr>rc_health := RADIO_HEALTH_FAILED\<rparr>);
            lock_failed = (no_lock \<or> hc_startup_failed h3)
        in if ok then (r3\<lparr>rc_health := RADIO_HEALTH_READY\<rparr>, Some (h3\<lparr>hc_operational := True\<rparr>), lock_failed)
           else (r3, Some h3, lock_failed))"

text \<open>What a start needs to succeed; the status of the reception is read off the driver's history.\<close>

definition init_succeeds :: "driver \<Rightarrow> bool \<Rightarrow> init_answers \<Rightarrow> hal_ctl \<Rightarrow> radio \<Rightarrow> bool" where
  "init_succeeds d usb a h r \<longleftrightarrow>
     (usb \<or> ia_gpio_locks a \<noteq> 0 \<and> ia_led_ready a) \<and> hc_lock_ready h \<and> ia_begin a = RADIOLIB_ERR_NONE \<and>
     \<not> ia_begin_fails a \<and> \<not> ia_action_fails a \<and> \<not> ia_start_fails a \<and>
     dv_status d (Call_StartReceive # Call_SetAction # rc_calls r) = RADIOLIB_ERR_NONE"

lemmas init_defs = lora_init_def init_begin_def init_configured_def init_receive_def hal_latch_def
  daemon_rx_rearm_boot_result_def RADIOLIB_ERR_SPI_CMD_FAILED_def RADIOLIB_ERR_NONE_def

lemma drv_status_pair: "drv_status d c r = (dv_status d (c # rc_calls r), drv d c r)"
  by (simp add: prod_eq_iff)

lemma lora_init_ready:
  assumes "init_succeeds d usb a h r" "\<not> hc_startup_failed h"
  shows "lora_init d usb a h r =
    ((drv d Call_StartReceive (drv d Call_SetAction (r\<lparr>rc_health := RADIO_HEALTH_UNINITIALIZED, rc_driver := True\<rparr>)
        \<lparr>rc_health := RADIO_HEALTH_FAILED\<rparr>))\<lparr>rc_health := RADIO_HEALTH_READY\<rparr>,
     Some (h\<lparr>hc_operational := True\<rparr>), False)"
  using assms by (auto simp: init_succeeds_def init_defs Let_def drv_status_pair)

lemma lora_init_failed:
  assumes "\<not> init_succeeds d usb a h r" "\<not> hc_startup_failed h" "\<not> hc_operational h"
    "lora_init d usb a h r = (r', h', lf)"
  shows "rc_health r' = RADIO_HEALTH_FAILED \<and> (\<forall>g. h' = Some g \<longrightarrow> \<not> hc_operational g)"
  using assms by (auto simp: init_succeeds_def init_defs Let_def drv_status_pair split: if_splits)

text \<open>
  the start publishes READY exactly when every step succeeded: the pins are owned, the bus lock is
  held, \<open>begin()\<close> returned success, the interrupt was attached and the reception started, and no HAL
  call failed in any of them. Then the HAL is operational, the callback is attached and the start does not
  count as a lock failure; otherwise the radio is FAILED and the HAL never became operational.
\<close>

theorem ready_means_every_step_succeeded:
  assumes "\<not> hc_startup_failed h" "\<not> hc_operational h" "lora_init d usb a h r = (r', h', lf)"
  shows "(rc_health r' = RADIO_HEALTH_READY \<longleftrightarrow> init_succeeds d usb a h r) \<and>
    (rc_health r' = RADIO_HEALTH_READY \<longrightarrow>
       h' = Some (h\<lparr>hc_operational := True\<rparr>) \<and> rc_action r' \<and> rc_driver r' \<and> \<not> lf) \<and>
    (rc_health r' \<noteq> RADIO_HEALTH_READY \<longrightarrow>
       rc_health r' = RADIO_HEALTH_FAILED \<and> (\<forall>g. h' = Some g \<longrightarrow> \<not> hc_operational g))"
proof (cases "init_succeeds d usb a h r")
  case True
  have "(r', h', lf) = ((drv d Call_StartReceive (drv d Call_SetAction
      (r\<lparr>rc_health := RADIO_HEALTH_UNINITIALIZED, rc_driver := True\<rparr>)\<lparr>rc_health := RADIO_HEALTH_FAILED\<rparr>))
      \<lparr>rc_health := RADIO_HEALTH_READY\<rparr>, Some (h\<lparr>hc_operational := True\<rparr>), False)"
    using lora_init_ready [OF True assms(1)] assms(3) by simp
  thus ?thesis using True by (simp add: drv_def Let_def)
next
  case False
  thus ?thesis using lora_init_failed [OF False assms] by auto
qed

definition quiet_driver :: driver where
  "quiet_driver = \<lparr>dv_status = \<lambda>_. 0, dv_length = \<lambda>_. 0, dv_data = \<lambda>_. [], dv_float = \<lambda>_. Fin 0,
     dv_rx_done = \<lambda>_. False, dv_alert = \<lambda>_. False\<rparr>"

theorem ready_means_every_step_succeeded_witness:
  "rc_health (fst (lora_init quiet_driver True
     \<lparr>ia_gpio_locks = 0, ia_led_ready = False, ia_begin = 0, ia_begin_fails = False, ia_action_fails = False, ia_start_fails = False\<rparr>
     \<lparr>hc_lock_ready = True, hc_startup_failed = False, hc_operational = False\<rparr>
     (radio_controller_init RADIO_BAND_868 ''868'' True))) = RADIO_HEALTH_READY"
proof -
  let ?h = "\<lparr>hc_lock_ready = True, hc_startup_failed = False, hc_operational = False\<rparr>"
  let ?a = "\<lparr>ia_gpio_locks = 0, ia_led_ready = False, ia_begin = 0, ia_begin_fails = False, ia_action_fails = False, ia_start_fails = False\<rparr>"
  let ?r = "radio_controller_init RADIO_BAND_868 ''868'' True"
  obtain r' h' lf where e: "lora_init quiet_driver True ?a ?h ?r = (r', h', lf)" by (metis prod_cases3)
  have "init_succeeds quiet_driver True ?a ?h ?r"
    by (simp add: init_succeeds_def quiet_driver_def RADIOLIB_ERR_NONE_def)
  thus ?thesis using ready_means_every_step_succeeded [OF _ _ e] by (simp add: e)
qed

end
