(* ===== verification/Ch341_Runtime.thy ===== *)
theory Ch341_Runtime
  imports Usb_Wait Ch341_Hal Radio_Init Config_Apply
begin

text \<open>
  The daemon side of the unplug-wait, \<open>daemon_ch341_runtime.cpp\<close>: the operations behind the state
  machine of \<open>Usb_Wait\<close>, the selection at start, and the shutdown.

  The world of the state machine is a record of what these operations touch: the radio controller with
  its configuration, the HAL, the selection, the selected stick. The library's monitor, the clock, the
  mutex and the chip answer from the history of calls (\<open>rt_calls\<close>, newest first). \<open>re_loss\<close> says at
  which calls a USB transfer fails in the HAL, in this thread or in the transmit worker. The monitor is
  there (without it nothing of this is armed). \<open>rt_closed\<close> collects the sticks closed outside the
  selection, \<open>rt_exit\<close> the reason of an exit 5; both are ghost fields.
\<close>

section \<open>State\<close>

datatype rt_call = Rt_Dispatch | Rt_Left_Bound | Rt_Present | Rt_Take_Arrival | Rt_Take_Left | Rt_Now
  | Rt_Reopen_Begin | Rt_Reopen_Arrival | Rt_Reopen_Left | Rt_Reopen_Step | Rt_Teardown | Rt_Reinit
  | Rt_Lora_Init | Rt_Replay | Rt_Rearm | Rt_Sleep

record rt =
  rt_conf :: config_state
  rt_replay_cmd :: string
  rt_hal :: "hal_usb ptr"
  rt_selected :: "stick ptr"
  rt_sel :: sel
  rt_arrivals :: nat
  rt_lefts :: nat
  rt_left_bound :: int
  rt_mon :: bool
  rt_closed :: "stick list"
  rt_exit :: "string ptr"
  rt_calls :: "rt_call list"

text \<open>\<open>re_events\<close>: arrivals and departures of other sticks that a dispatch finds, and the flag of the bound one.\<close>

record rt_env =
  re_now :: "rt_call list \<Rightarrow> nat"
  re_events :: "rt_call list \<Rightarrow> nat \<times> nat \<times> int"
  re_present :: "rt_call list \<Rightarrow> int"
  re_lock :: "rt_call list \<Rightarrow> bool"
  re_loss :: "rt_call list \<Rightarrow> bool"
  re_init :: "rt_call list \<Rightarrow> init_answers"
  re_sel :: sel_ops
  re_driver :: driver
  re_config :: config_env

type_synonym runtime = "rt usb_wait"

definition rt_set :: "(rt \<Rightarrow> rt) \<Rightarrow> runtime \<Rightarrow> runtime" where
  "rt_set f u = u\<lparr>uw_world := f (uw_world u)\<rparr>"

definition rt_radio :: "(radio \<Rightarrow> radio) \<Rightarrow> rt \<Rightarrow> rt" where
  "rt_radio f w = w\<lparr>rt_conf := (rt_conf w)\<lparr>cf_radio := f (cf_radio (rt_conf w))\<rparr>\<rparr>"

definition rt_log :: "rt_call \<Rightarrow> runtime \<Rightarrow> runtime" where
  "rt_log c = rt_set (\<lambda>w. w\<lparr>rt_calls := c # rt_calls w\<rparr>)"

abbreviation rt_hist :: "runtime \<Rightarrow> rt_call list" where
  "rt_hist u \<equiv> rt_calls (uw_world u)"

section \<open>Loss\<close>

definition op_set_health :: "radio_health \<Rightarrow> runtime \<Rightarrow> runtime" where
  "op_set_health h = rt_set (rt_radio (\<lambda>r. r\<lparr>rc_health := h\<rparr>))"

definition op_now_ms :: "rt_env \<Rightarrow> runtime \<Rightarrow> nat \<times> runtime" where
  "op_now_ms env u = (re_now env (rt_hist u), rt_log Rt_Now u)"

definition rt_on_loss :: "rt_env \<Rightarrow> runtime \<Rightarrow> runtime" where
  "rt_on_loss env = on_loss_with op_set_health (op_now_ms env)"

text \<open>A USB call of the HAL fails, on whatever thread.\<close>

definition rt_loss :: "rt_env \<Rightarrow> runtime \<Rightarrow> runtime" where
  "rt_loss env u =
     (case rt_hal (uw_world u) of
        None \<Rightarrow> u
      | Some h \<Rightarrow>
          (let g = failure h; u1 = rt_set (\<lambda>w. w\<lparr>rt_hal := Some g\<rparr>) u
           in if ha_losses h < ha_losses g then rt_on_loss env u1 else u1))"

definition rt_enter :: "rt_env \<Rightarrow> rt_call \<Rightarrow> runtime \<Rightarrow> runtime" where
  "rt_enter env c u = (let u1 = rt_log c u in if re_loss env (rt_hist u1) then rt_loss env u1 else u1)"

section \<open>The operations\<close>

definition op_reopen_begin :: "rt_env \<Rightarrow> bool \<Rightarrow> runtime \<Rightarrow> runtime" where
  "op_reopen_begin env arrival u =
     rt_set (\<lambda>w. w\<lparr>rt_sel := daemon_ch341_select_begin False (rt_sel w)\<rparr>) (rt_enter env Rt_Reopen_Begin u)"

definition op_reopen_arrival :: "rt_env \<Rightarrow> runtime \<Rightarrow> runtime" where
  "op_reopen_arrival env u =
     rt_set (\<lambda>w. w\<lparr>rt_sel := daemon_ch341_select_note_arrival (re_sel env) (rt_sel w)\<rparr>) (rt_enter env Rt_Reopen_Arrival u)"

definition op_reopen_left :: "rt_env \<Rightarrow> runtime \<Rightarrow> runtime" where
  "op_reopen_left env u =
     rt_set (\<lambda>w. w\<lparr>rt_sel := daemon_ch341_select_note_left (re_sel env) (rt_sel w)\<rparr>) (rt_enter env Rt_Reopen_Left u)"

definition op_reopen_step :: "rt_env \<Rightarrow> runtime \<Rightarrow> int \<times> runtime" where
  "op_reopen_step env u =
     (let u1 = rt_enter env Rt_Reopen_Step u;
          (r, dev, why, s) = daemon_ch341_select_step (re_sel env) 240 (rt_sel (uw_world u1));
          u2 = rt_set (\<lambda>w. w\<lparr>rt_sel := s\<rparr>) u1
      in case r of
           CH341_SEL_PENDING \<Rightarrow> (0, u2)
         | CH341_SEL_OPENED \<Rightarrow> (1, rt_set (\<lambda>w. w\<lparr>rt_selected := dev\<rparr>) u2)
         | _ \<Rightarrow> (2, u2))"

definition op_reopen_due :: "rt_env \<Rightarrow> runtime \<Rightarrow> bool \<times> runtime" where
  "op_reopen_due env u =
     (let due_at = daemon_ch341_select_retry_at (rt_sel (uw_world u)) in
      if due_at = 0 then (False, u) else let (now, u1) = op_now_ms env u in (due_at \<le> now, u1))"

definition op_dispatch :: "rt_env \<Rightarrow> runtime \<Rightarrow> runtime" where
  "op_dispatch env u =
     (let u1 = rt_enter env Rt_Dispatch u; (a, l, b) = re_events env (rt_hist u1)
      in rt_set (\<lambda>w. w\<lparr>rt_arrivals := rt_arrivals w + a, rt_lefts := rt_lefts w + l, rt_left_bound := b\<rparr>) u1)"

definition op_left_bound :: "rt_env \<Rightarrow> runtime \<Rightarrow> bool \<times> runtime" where
  "op_left_bound env u =
     (let u1 = rt_enter env Rt_Left_Bound u in (rt_left_bound (uw_world u1) = 1, u1))"

definition op_present_bound :: "rt_env \<Rightarrow> runtime \<Rightarrow> int \<times> runtime" where
  "op_present_bound env u =
     (let u1 = rt_enter env Rt_Present u in (re_present env (rt_hist u1), u1))"

definition op_take_arrival :: "rt_env \<Rightarrow> runtime \<Rightarrow> bool \<times> runtime" where
  "op_take_arrival env u =
     (let u1 = rt_enter env Rt_Take_Arrival u in
      if rt_arrivals (uw_world u1) = 0 then (False, u1)
      else (True, rt_set (\<lambda>w. w\<lparr>rt_arrivals := rt_arrivals w - 1\<rparr>) u1))"

definition op_take_left :: "rt_env \<Rightarrow> runtime \<Rightarrow> bool \<times> runtime" where
  "op_take_left env u =
     (let u1 = rt_enter env Rt_Take_Left u in
      if rt_lefts (uw_world u1) = 0 then (False, u1)
      else (True, rt_set (\<lambda>w. w\<lparr>rt_lefts := rt_lefts w - 1\<rparr>) u1))"

text \<open>The HAL's destructor closes its device.\<close>

definition rt_hal_reset :: "rt \<Rightarrow> rt" where
  "rt_hal_reset w =
     w\<lparr>rt_hal := NULL, rt_closed := (case rt_hal w of
          None \<Rightarrow> rt_closed w
        | Some h \<Rightarrow> (case ha_dev h of None \<Rightarrow> rt_closed w | Some d \<Rightarrow> d # rt_closed w))\<rparr>"

definition rt_close_selected :: "rt \<Rightarrow> rt" where
  "rt_close_selected w =
     (case rt_selected w of None \<Rightarrow> w | Some d \<Rightarrow> w\<lparr>rt_selected := NULL, rt_closed := d # rt_closed w\<rparr>)"

definition rt_torn_down :: "rt \<Rightarrow> rt" where
  "rt_torn_down w =
     (let w1 = rt_hal_reset (w\<lparr>rt_replay_cmd := config_apply_replay_command (cf_replay (rt_conf w)), rt_left_bound := 0\<rparr>)
      in rt_radio (\<lambda>r. r\<lparr>rc_driver := False, rc_received := False, rc_rearm_pending := False, rc_cad_active := False,
           rc_getrssi_active := False,
           rc_usb_wait_port := snprintf_text 32 (daemon_ch341_select_wait_port (rt_sel w)), rc_bound := ''-''\<rparr>) w1)"

definition op_teardown_try :: "rt_env \<Rightarrow> runtime \<Rightarrow> bool \<times> runtime" where
  "op_teardown_try env u =
     (let u1 = rt_enter env Rt_Teardown u in
      if \<not> re_lock env (rt_hist u1) then (False, u1) else (True, rt_set rt_torn_down u1))"

definition daemon_ch341_take_selected :: "rt \<Rightarrow> stick ptr \<times> rt" where
  "daemon_ch341_take_selected w = (rt_selected w, w\<lparr>rt_selected := NULL\<rparr>)"

definition daemon_ch341_arm_hal :: "hal_usb \<Rightarrow> hal_usb" where
  "daemon_ch341_arm_hal h = set_before_exit (set_loss_wait h)"

text \<open>\<open>lora_init\<close> with the HAL it creates for the selected stick.\<close>

definition hal_ctl_of :: "hal_usb \<Rightarrow> hal_ctl" where
  "hal_ctl_of h = \<lparr>hc_lock_ready = spi_lock_ready h, hc_startup_failed = \<not> gpio_startup_ok h,
     hc_operational = ha_operational h\<rparr>"

definition rt_lora_init :: "rt_env \<Rightarrow> init_answers \<Rightarrow> rt \<Rightarrow> rt" where
  "rt_lora_init env a w =
     (let (dev, w1) = daemon_ch341_take_selected w;
          h = daemon_ch341_arm_hal (ch341_hal dev);
          (r, ctl, no_lock) = lora_init (re_driver env) True a (hal_ctl_of h) (cf_radio (rt_conf w1));
          g = (case ctl of None \<Rightarrow> h | Some c \<Rightarrow> h\<lparr>ha_startup_failed := hc_startup_failed c, ha_operational := hc_operational c\<rparr>)
      in rt_radio (\<lambda>_. r) ((rt_hal_reset w1)\<lparr>rt_hal := Some g\<rparr>))"

text \<open>The replay after a successful start of the radio: whether it succeeded.\<close>

definition op_replay :: "rt_env \<Rightarrow> runtime \<Rightarrow> bool \<times> runtime" where
  "op_replay env u =
     (let w = uw_world u in
      if rt_replay_cmd w = [] then (True, u)
      else
        (let (st, c) = parse_and_apply_config_generic (re_driver env) (re_config env) (rt_replay_cmd w) (rt_conf w);
             u1 = rt_enter env Rt_Replay (rt_set (\<lambda>w. w\<lparr>rt_conf := c\<rparr>) u)
         in if st = CONFIG_APPLY_APPLIED then
              (True, rt_enter env Rt_Rearm (rt_set (rt_radio (\<lambda>r. rearm_start_receive (re_driver env)
                 (drv (re_driver env) Call_SetAction r))) u1))
            else (st = CONFIG_APPLY_OK_NO_RADIO, u1)))"

definition rt_defaults :: "rt \<Rightarrow> rt" where
  "rt_defaults w =
     rt_radio (\<lambda>r. r\<lparr>rc_mode := RADIO_MODE_LORA\<rparr>)
       (w\<lparr>rt_conf := (rt_conf w)\<lparr>cf_effective := config_apply_effective_reset (cf_effective (rt_conf w))\<rparr>\<rparr>)"

definition op_reinit :: "rt_env \<Rightarrow> runtime \<Rightarrow> int \<times> runtime" where
  "op_reinit env u =
     (let u1 = rt_enter env Rt_Reinit u in
      if \<not> re_lock env (rt_hist u1) then (-1, u1)
      else
        (let u2 = rt_log Rt_Lora_Init (rt_set rt_defaults u1);
             u3 = rt_set (rt_lora_init env (re_init env (rt_hist u2))) u2
         in if \<not> radio_controller_ready (cf_radio (rt_conf (uw_world u3))) then (0, u3)
            else
              (let (ok, u4) = op_replay env u3
               in if \<not> ok then (0, u4)
                  else (1, rt_set (\<lambda>w. rt_radio (\<lambda>r. r\<lparr>rc_usb_wait_port := ''-'',
                         rc_bound := snprintf_text 48 (daemon_ch341_select_bound (rt_sel w))\<rparr>) w) u4))))"

text \<open>With a HAL, its \<open>runtime_fatal\<close> closes the device and the monitor and ends the process.\<close>

definition op_fatal :: "string \<Rightarrow> runtime \<Rightarrow> runtime" where
  "op_fatal why = rt_set (\<lambda>w.
     (case rt_hal w of
        Some h \<Rightarrow> (rt_hal_reset w)\<lparr>rt_hal := Some (runtime_fatal h), rt_mon := False, rt_exit := Some why\<rparr>
      | None \<Rightarrow> (rt_close_selected w)\<lparr>rt_mon := False, rt_exit := Some why\<rparr>))"

definition rt_ops :: "rt_env \<Rightarrow> rt usb_wait_ops" where
  "rt_ops env = \<lparr>uo_mon_dispatch = op_dispatch env, uo_mon_left_bound = op_left_bound env,
     uo_mon_present_bound = op_present_bound env, uo_mon_take_arrival = op_take_arrival env,
     uo_mon_take_left = op_take_left env, uo_reopen_begin = op_reopen_begin env,
     uo_reopen_arrival = op_reopen_arrival env, uo_reopen_left = op_reopen_left env,
     uo_reopen_step = op_reopen_step env, uo_reopen_due = op_reopen_due env,
     uo_teardown_try = op_teardown_try env, uo_reinit = op_reinit env, uo_set_health = op_set_health,
     uo_fatal = op_fatal, uo_now_ms = op_now_ms env\<rparr>"

section \<open>Start and shutdown\<close>

text \<open>The steps of the selection at start; the result is the reason of a refusal.\<close>

partial_function (option) select_at_start_loop :: "rt_env \<Rightarrow> nat \<Rightarrow> rt \<Rightarrow> (bool \<times> string ptr \<times> rt) option" where
  "select_at_start_loop env n w =
     (let s0 = sel_take_events (re_sel env) (rt_sel w);
          (r, dev, why, s) = daemon_ch341_select_step (re_sel env) n s0;
          w1 = w\<lparr>rt_sel := s\<rparr>
      in case r of
           CH341_SEL_OPENED \<Rightarrow>
             Some (True, NULL, rt_radio (\<lambda>r. r\<lparr>rc_bound := snprintf_text 48 (daemon_ch341_select_bound s)\<rparr>) (w1\<lparr>rt_selected := dev\<rparr>))
         | CH341_SEL_REFUSED \<Rightarrow> Some (False, why, w1)
         | CH341_SEL_WAIT \<Rightarrow> select_at_start_loop env n (w1\<lparr>rt_sel := daemon_ch341_select_begin True s,
              rt_calls := Rt_Sleep # Rt_Now # rt_calls w1\<rparr>)
         | CH341_SEL_PENDING \<Rightarrow> select_at_start_loop env n w1)"

definition daemon_ch341_select_at_start :: "rt_env \<Rightarrow> string ptr \<Rightarrow> nat \<Rightarrow> rt \<Rightarrow> (bool \<times> string ptr \<times> rt) option" where
  "daemon_ch341_select_at_start env usb_serial n w =
     select_at_start_loop env n
       (w\<lparr>rt_sel := daemon_ch341_select_begin True (daemon_ch341_select_init usb_serial (rt_sel w))\<rparr>)"

text \<open>Without a monitor: one open, its identity checked. \<open>Inl\<close> is the reason of a refusal.\<close>

definition select_without_monitor :: "string ptr \<Rightarrow> stick ptr \<Rightarrow> scan_item option \<Rightarrow> string + (stick \<times> string)" where
  "select_without_monitor usb_serial opened_dev identity =
     (case opened_dev of
        None \<Rightarrow> Inl ''no Meshstick could be opened (not plugged in, no permission, or in use by another process)''
      | Some dev \<Rightarrow>
          (case identity of
             None \<Rightarrow> Inl ''the opened stick could not be identified (serial or port unreadable)''
           | Some it \<Rightarrow>
               if it_serial_state it = -1 then Inl ''the opened stick's serial could not be read (unreadable serial)''
               else if (case usb_serial of None \<Rightarrow> False | Some u \<Rightarrow>
                   u \<noteq> [] \<and> \<not> (it_serial_state it = 1 \<and> take 8 (it_serial it) = take 8 u)) then
                 Inl ''the opened stick is not the one --usb-serial names''
               else Inr (dev, daemon_ch341_bound_text it 48)))"

definition daemon_ch341_shutdown :: "runtime \<Rightarrow> runtime" where
  "daemon_ch341_shutdown u =
     rt_set (\<lambda>w. (rt_close_selected (if rt_mon w then w\<lparr>rt_sel := daemon_ch341_select_cancel (rt_sel w)\<rparr> else w))
        \<lparr>rt_mon := False\<rparr>) (daemon_usb_wait_reset u)"

end
