(* ===== verification/Ch341_Runtime_Props.thy ===== *)
theory Ch341_Runtime_Props
  imports Ch341_Runtime Ch341_Select_Run
begin

text \<open>
  The unplug-wait of the daemon as a whole: the state machine of \<open>Usb_Wait\<close> on the operations of
  \<open>Ch341_Runtime\<close>, with the selection behind it. Every pass returns; every open stick has one owner at
  any time and none is left open at the end; the process ends with exit 5 only for a cause the
  state machine names; a loss is classified from its first failure on.
\<close>

section \<open>The loops over the events\<close>

lemma rt_set_simps [simp]:
  "uw_world (rt_set f u) = f (uw_world u)" "uw_armed (rt_set f u) = uw_armed u"
  "uw_loss_flag (rt_set f u) = uw_loss_flag u" "uw_state (rt_set f u) = uw_state u"
  "uw_deadline_ms (rt_set f u) = uw_deadline_ms u" "uw_reopening (rt_set f u) = uw_reopening u"
  "uw_force_reopen (rt_set f u) = uw_force_reopen u" "uw_reinit_pending (rt_set f u) = uw_reinit_pending u"
  "uw_loss_ms (rt_set f u) = uw_loss_ms u"
  by (simp_all add: rt_set_def)

text \<open>
  What a loss leaves alone: the variables of the state machine but the loss itself, and of the world
  everything but the health, the HAL's latch and the history.
\<close>

definition uw_view :: "runtime \<Rightarrow> _" where
  "uw_view u = (uw_armed u, uw_state u, uw_deadline_ms u, uw_reopening u, uw_force_reopen u, uw_reinit_pending u)"

definition hal_view :: "hal_usb \<Rightarrow> _" where
  "hal_view h = (ha_dev h, ha_on_loss h, ha_exited h, ha_operational h)"

definition rt_view :: "rt \<Rightarrow> _" where
  "rt_view w = ((rt_selected w, rt_sel w, rt_closed w, rt_exit w, map_option hal_view (rt_hal w)),
     (rt_arrivals w, rt_lefts w, rt_left_bound w, rt_mon w, rt_replay_cmd w))"

definition rt_armed :: "rt \<Rightarrow> bool" where
  "rt_armed w \<longleftrightarrow> (\<forall>h. rt_hal w = Some h \<longrightarrow> ha_on_loss h)"

definition loss_only :: "runtime \<Rightarrow> runtime \<Rightarrow> bool" where
  "loss_only u v \<longleftrightarrow> uw_view v = uw_view u \<and> rt_view (uw_world v) = rt_view (uw_world u) \<and>
     (uw_loss_flag u \<longrightarrow> uw_loss_flag v)"

lemma loss_only_refl [simp]: "loss_only u u"
  by (simp add: loss_only_def)

lemma loss_only_trans: "loss_only u v \<Longrightarrow> loss_only v x \<Longrightarrow> loss_only u x"
  by (simp add: loss_only_def)

lemma loss_only_log [simp]: "loss_only u (rt_log c u)"
  by (simp add: loss_only_def rt_log_def uw_view_def rt_view_def)

lemma rt_view_radio [simp]: "rt_view (rt_radio f w) = rt_view w"
  by (simp add: rt_view_def rt_radio_def)

lemma rt_view_conf [simp]: "rt_view (w\<lparr>rt_conf := c\<rparr>) = rt_view w"
  by (simp add: rt_view_def)

lemma loss_only_on_loss: "loss_only u (rt_on_loss env u)"
  by (auto simp: loss_only_def rt_on_loss_def on_loss_with_def op_set_health_def op_now_ms_def rt_log_def Let_def
      uw_view_def rt_view_def rt_radio_def split: if_splits)

lemma failure_view: "ha_on_loss h \<Longrightarrow> hal_view (failure h) = hal_view h"
  by (simp add: failure_def hal_view_def)

lemma loss_only_loss:
  assumes "rt_armed (uw_world u)" shows "loss_only u (rt_loss env u)"
proof (cases "rt_hal (uw_world u)")
  case None
  thus ?thesis by (simp add: rt_loss_def)
next
  case (Some h)
  have "hal_view (failure h) = hal_view h" using assms Some by (intro failure_view) (simp add: rt_armed_def)
  hence "loss_only u (rt_set (\<lambda>w. w\<lparr>rt_hal := Some (failure h)\<rparr>) u)"
    by (simp add: loss_only_def uw_view_def rt_view_def Some)
  thus ?thesis using loss_only_trans [OF _ loss_only_on_loss] by (auto simp: rt_loss_def Some Let_def)
qed

lemma armed_view: "rt_view v = rt_view w \<Longrightarrow> rt_armed w \<Longrightarrow> rt_armed v"
  by (cases "rt_hal w"; cases "rt_hal v") (auto simp: rt_view_def rt_armed_def hal_view_def)

lemma loss_only_enter:
  assumes "rt_armed (uw_world u)" shows "loss_only u (rt_enter env c u)"
proof -
  have "rt_armed (uw_world (rt_log c u))" using assms by (simp add: rt_log_def rt_armed_def)
  hence "loss_only (rt_log c u) (rt_loss env (rt_log c u))" by (rule loss_only_loss)
  thus ?thesis using loss_only_trans [OF loss_only_log] by (auto simp: rt_enter_def Let_def)
qed

text \<open>The counters of waiting events change only by takes and dispatches.\<close>

lemma rt_loss_counters:
  "rt_arrivals (uw_world (rt_enter env c u)) = rt_arrivals (uw_world u)"
  "rt_lefts (uw_world (rt_enter env c u)) = rt_lefts (uw_world u)"
  by (auto simp: rt_enter_def rt_loss_def rt_on_loss_def on_loss_with_def op_set_health_def op_now_ms_def rt_log_def
      rt_radio_def Let_def split: option.splits if_splits)

interpretation taken: usb_events "op_take_arrival env" id "\<lambda>u. rt_arrivals (uw_world u)" for env
  by unfold_locales (auto simp: op_take_arrival_def Let_def rt_loss_counters split: if_splits)

interpretation left: usb_events "op_take_left env" id "\<lambda>u. rt_lefts (uw_world u)" for env
  by unfold_locales (auto simp: op_take_left_def Let_def rt_loss_counters split: if_splits)

interpretation noted: usb_events "op_take_arrival env" "op_reopen_arrival env" "\<lambda>u. rt_arrivals (uw_world u)" for env
  by unfold_locales (auto simp: op_take_arrival_def op_reopen_arrival_def Let_def rt_loss_counters split: if_splits)

interpretation noted_left: usb_events "op_take_left env" "op_reopen_left env" "\<lambda>u. rt_lefts (uw_world u)" for env
  by unfold_locales (auto simp: op_take_left_def op_reopen_left_def Let_def rt_loss_counters split: if_splits)

text \<open>
  every pass of the wait returns, in every state, whatever events arrive and however the operations
  answer: both loops over the waiting events end.
\<close>

theorem wait_pass_returns: "\<exists>v. daemon_usb_wait_tick (rt_ops env) u = Some v"
proof -
  define x where "x = op_dispatch env u"
  have r: "\<exists>v. usb_wait_ready (rt_ops env) x = Some v"
  proof -
    define y where "y = snd (op_left_bound env x)"
    obtain b z where a: "usb_drain (op_take_arrival env) id False y = Some (b, z)" using taken.drain_ends by blast
    obtain c t where "usb_drain (op_take_left env) id False z = Some (c, t)" using left.drain_ends by blast
    with a show ?thesis by (auto simp: usb_wait_ready_def rt_ops_def y_def Let_def split_beta)
  qed
  have p: "\<exists>v. usb_wait_unplugged (rt_ops env) x = Some v"
  proof -
    obtain b z where a: "usb_drain (op_take_arrival env) (op_reopen_arrival env) False x = Some (b, z)"
      using noted.drain_ends by blast
    obtain c t where "usb_drain (op_take_left env) (op_reopen_left env) b z = Some (c, t)"
      using noted_left.drain_ends by blast
    with a show ?thesis by (auto simp: usb_wait_unplugged_def rt_ops_def)
  qed
  have "uo_mon_dispatch (rt_ops env) = op_dispatch env" by (simp add: rt_ops_def)
  thus ?thesis using r p by (auto simp: daemon_usb_wait_tick_def Let_def x_def split: usb_wait_state.split)
qed

section \<open>Owners of the open sticks\<close>

definition opt_stick :: "stick ptr \<Rightarrow> stick multiset" where
  "opt_stick d = (case d of None \<Rightarrow> {#} | Some x \<Rightarrow> {#x#})"

definition hal_stick :: "rt \<Rightarrow> stick multiset" where
  "hal_stick w = (case rt_hal w of None \<Rightarrow> {#} | Some h \<Rightarrow> opt_stick (ha_dev h))"

lemma opt_stick_simps [simp]: "opt_stick None = {#}" "opt_stick (Some d) = {#d#}"
  by (simp_all add: opt_stick_def)

text \<open>The sticks that are open: opened and closed by the selection, less those closed elsewhere.\<close>

definition rt_account :: "rt \<Rightarrow> bool" where
  "rt_account w \<longleftrightarrow> rt_armed w \<and> sel_ok (rt_sel w) \<and>
     open_sticks (sl_calls (rt_sel w)) =
       mset (rt_closed w) + hal_stick w + opt_stick (rt_selected w) + mset (sl_held (rt_sel w))"

definition rt_shape :: "runtime \<Rightarrow> bool" where
  "rt_shape u \<longleftrightarrow> (let w = uw_world u in rt_mon w \<and> (
     if uw_state u = USB_WAIT_UNPLUGGED then
       rt_hal w = NULL \<and> (uw_reinit_pending u \<longleftrightarrow> rt_selected w \<noteq> NULL) \<and>
       (uw_reopening u \<longleftrightarrow> sel_busy (rt_sel w)) \<and> (uw_reinit_pending u \<longrightarrow> \<not> uw_reopening u)
     else rt_hal w \<noteq> NULL \<and> rt_selected w = NULL \<and> \<not> sel_busy (rt_sel w) \<and> \<not> uw_reopening u \<and> \<not> uw_reinit_pending u))"

definition rt_released :: "rt \<Rightarrow> bool" where
  "rt_released w \<longleftrightarrow> hal_stick w = {#} \<and> rt_selected w = NULL \<and> sl_held (rt_sel w) = []"

definition rt_good :: "runtime \<Rightarrow> bool" where
  "rt_good u \<longleftrightarrow> rt_account (uw_world u) \<and>
     (if rt_exit (uw_world u) = NULL then rt_shape u else rt_released (uw_world u))"

definition rt_own :: "rt \<Rightarrow> _" where
  "rt_own w = (rt_selected w, rt_sel w, rt_closed w, rt_exit w, map_option hal_view (rt_hal w), rt_mon w)"

definition same_own :: "runtime \<Rightarrow> runtime \<Rightarrow> bool" where
  "same_own u v \<longleftrightarrow> uw_view v = uw_view u \<and> rt_own (uw_world v) = rt_own (uw_world u)"

lemma same_own_refl [simp]: "same_own u u"
  by (simp add: same_own_def)

lemma same_own_trans [trans]: "same_own u v \<Longrightarrow> same_own v x \<Longrightarrow> same_own u x"
  by (simp add: same_own_def)

lemma loss_same_own: "loss_only u v \<Longrightarrow> same_own u v"
  by (simp add: loss_only_def same_own_def rt_view_def rt_own_def)

lemma own_account:
  assumes "rt_own v = rt_own w" shows "rt_account v = rt_account w" "hal_stick v = hal_stick w"
    "rt_armed v = rt_armed w" "rt_released v = rt_released w"
proof -
  have e: "rt_selected v = rt_selected w" "rt_sel v = rt_sel w" "rt_closed v = rt_closed w"
    "map_option hal_view (rt_hal v) = map_option hal_view (rt_hal w)" using assms by (simp_all add: rt_own_def)
  show h: "hal_stick v = hal_stick w"
    using e(4) by (cases "rt_hal v"; cases "rt_hal w") (auto simp: hal_stick_def hal_view_def)
  show a: "rt_armed v = rt_armed w"
    using e(4) by (cases "rt_hal v"; cases "rt_hal w") (auto simp: rt_armed_def hal_view_def)
  show "rt_account v = rt_account w" unfolding rt_account_def h a e(1-3) ..
  show "rt_released v = rt_released w" unfolding rt_released_def h e(1-3) ..
qed

lemma own_shape:
  assumes "same_own u v" shows "rt_shape v = rt_shape u" "rt_good v = rt_good u"
proof -
  have e: "rt_selected (uw_world v) = rt_selected (uw_world u)" "rt_sel (uw_world v) = rt_sel (uw_world u)"
    "rt_exit (uw_world v) = rt_exit (uw_world u)" "rt_mon (uw_world v) = rt_mon (uw_world u)"
    "rt_hal (uw_world v) = NULL \<longleftrightarrow> rt_hal (uw_world u) = NULL" "uw_state v = uw_state u"
    "uw_reopening v = uw_reopening u" "uw_reinit_pending v = uw_reinit_pending u"
    using assms
    by (cases "rt_hal (uw_world u)"; cases "rt_hal (uw_world v)"; simp add: same_own_def rt_own_def uw_view_def)+
  show sh: "rt_shape v = rt_shape u" unfolding rt_shape_def Let_def e ..
  have o: "rt_own (uw_world v) = rt_own (uw_world u)" using assms by (simp add: same_own_def)
  show "rt_good v = rt_good u" unfolding rt_good_def sh e own_account [OF o] ..
qed

lemma same_account: "same_own u v \<Longrightarrow> rt_account (uw_world u) \<Longrightarrow> rt_account (uw_world v)"
  unfolding same_own_def using own_account(1) by blast

lemma own_set: "(\<And>w. rt_own (f w) = rt_own w) \<Longrightarrow> same_own u (rt_set f u)"
  by (simp add: same_own_def uw_view_def)

lemma rt_own_simps [simp]:
  "rt_own (rt_radio g w) = rt_own w" "rt_own (w\<lparr>rt_arrivals := a\<rparr>) = rt_own w" "rt_own (w\<lparr>rt_lefts := a\<rparr>) = rt_own w"
  "rt_own (w\<lparr>rt_left_bound := i\<rparr>) = rt_own w" "rt_own (w\<lparr>rt_conf := c\<rparr>) = rt_own w"
  "rt_own (w\<lparr>rt_calls := c1\<rparr>) = rt_own w" "rt_own (w\<lparr>rt_replay_cmd := z\<rparr>) = rt_own w"
  by (simp_all add: rt_own_def rt_radio_def)

lemma own_enter: "rt_account (uw_world u) \<Longrightarrow> same_own u (rt_enter env c u)"
  by (rule loss_same_own [OF loss_only_enter]) (simp add: rt_account_def)

text \<open>The operations that only look.\<close>

lemma own_ops:
  assumes "rt_account (uw_world u)"
  shows "same_own u (op_dispatch env u)" "same_own u (snd (op_left_bound env u))"
    "same_own u (snd (op_present_bound env u))" "same_own u (snd (op_take_arrival env u))"
    "same_own u (snd (op_take_left env u))" "same_own u (snd (op_now_ms env u))"
    "same_own u (snd (op_reopen_due env u))" "same_own u (op_set_health h u)"
proof -
  note e = own_enter [OF assms, of env]
  show "same_own u (op_dispatch env u)" unfolding op_dispatch_def Let_def split_beta
    by (rule same_own_trans [OF e own_set]) simp
  show "same_own u (snd (op_left_bound env u))" "same_own u (snd (op_present_bound env u))"
    by (simp_all add: op_left_bound_def op_present_bound_def Let_def e)
  show "same_own u (snd (op_take_arrival env u))" "same_own u (snd (op_take_left env u))"
    by (auto simp: op_take_arrival_def op_take_left_def Let_def e intro!: same_own_trans [OF e own_set])
  show "same_own u (snd (op_now_ms env u))" "same_own u (snd (op_reopen_due env u))"
    by (auto simp: op_now_ms_def op_reopen_due_def rt_log_def Let_def intro!: own_set split: prod.splits)
  show "same_own u (op_set_health h u)" unfolding op_set_health_def by (rule own_set) simp
qed

lemma good_account: "rt_good u \<Longrightarrow> rt_account (uw_world u)"
  by (simp add: rt_good_def)

lemma good_ops:
  assumes "rt_good u"
  shows "rt_good (op_dispatch env u)" "rt_good (snd (op_left_bound env u))" "rt_good (snd (op_take_arrival env u))"
    "rt_good (snd (op_take_left env u))" "rt_good (snd (op_present_bound env u))" "rt_good (snd (op_now_ms env u))"
    "rt_good (op_set_health h u)"
  using own_ops(1-7) [OF good_account [OF assms], of env] own_ops(8) [OF good_account [OF assms], of h]
    own_shape(2) assms by blast+

text \<open>While the process lives: what a state of the wait says.\<close>

definition rt_live :: "runtime \<Rightarrow> bool" where
  "rt_live u \<longleftrightarrow> rt_account (uw_world u) \<and> rt_exit (uw_world u) = NULL \<and> rt_shape u"

lemma live_good: "rt_live u \<Longrightarrow> rt_good u"
  by (simp add: rt_live_def rt_good_def)

lemma good_live: "rt_good u \<Longrightarrow> rt_exit (uw_world u) = NULL \<Longrightarrow> rt_live u"
  by (simp add: rt_live_def rt_good_def)

lemma own_live:
  assumes o: "same_own u v" and l: "rt_live u" shows "rt_live v"
proof -
  have w: "rt_own (uw_world v) = rt_own (uw_world u)" using o by (simp add: same_own_def)
  have "rt_exit (uw_world v) = rt_exit (uw_world u)" using w by (simp add: rt_own_def)
  thus ?thesis using l own_shape(1) [OF o] own_account(1) [OF w] by (simp add: rt_live_def)
qed

lemma own_state: "same_own u v \<Longrightarrow> uw_state v = uw_state u \<and> uw_reopening v = uw_reopening u \<and>
    uw_reinit_pending v = uw_reinit_pending u \<and> uw_deadline_ms v = uw_deadline_ms u \<and> uw_armed v = uw_armed u"
  by (simp add: same_own_def uw_view_def)

lemma live_plugged:
  assumes "rt_live u" "uw_state u \<noteq> USB_WAIT_UNPLUGGED" "s \<noteq> USB_WAIT_UNPLUGGED"
  shows "rt_live (u\<lparr>uw_state := s\<rparr>)" "rt_live (u\<lparr>uw_state := s, uw_deadline_ms := t\<rparr>)"
    "rt_live (u\<lparr>uw_deadline_ms := t, uw_state := s\<rparr>)"
  using assms by (simp_all add: rt_live_def rt_shape_def Let_def)

text \<open>The exit closes what is open.\<close>

lemma good_fatal:
  assumes "rt_account (uw_world u)" "\<not> sel_busy (rt_sel (uw_world u))"
    "rt_hal (uw_world u) \<noteq> NULL \<and> rt_selected (uw_world u) = NULL"
  shows "rt_good (op_fatal why u)"
proof -
  obtain h where h: "rt_hal (uw_world u) = Some h" using assms(3) by blast
  have held: "sl_held (rt_sel (uw_world u)) = []"
    using assms(1,2) not_busy_held by (simp add: rt_account_def)
  have fat: "ha_dev (runtime_fatal h) = NULL" "ha_on_loss (runtime_fatal h) = ha_on_loss h"
    by (simp_all add: runtime_fatal_def hal_fatal_def close_device_def dev_call_def)
  have "open_sticks (sl_calls (rt_sel (uw_world u))) = mset (rt_closed (uw_world u)) + opt_stick (ha_dev h)"
    using assms held h by (simp add: rt_account_def hal_stick_def)
  thus ?thesis using assms(1,3) held h fat
    by (cases "ha_dev h")
      (auto simp: rt_good_def op_fatal_def rt_account_def rt_released_def hal_stick_def rt_hal_reset_def rt_armed_def)
qed

lemma live_fatal: "rt_live u \<Longrightarrow> uw_state u \<noteq> USB_WAIT_UNPLUGGED \<Longrightarrow> rt_good (op_fatal why u)"
  by (rule good_fatal) (auto simp: rt_live_def rt_shape_def Let_def)

lemma good_pending:
  assumes l: "rt_live u" and st: "uw_state u \<noteq> USB_WAIT_UNPLUGGED"
  shows "rt_good (usb_wait_pending (rt_ops env) u)"
proof -
  define u1 where "u1 = snd (op_left_bound env u)"
  define u2 where "u2 = snd (op_now_ms env u1)"
  define u3 where "u3 = snd (op_present_bound env u2)"
  have o1: "same_own u u1" unfolding u1_def by (rule own_ops) (use l in \<open>simp add: rt_live_def\<close>)
  have l1: "rt_live u1" by (rule own_live [OF o1 l])
  have o2: "same_own u1 u2" unfolding u2_def by (rule own_ops) (use l1 in \<open>simp add: rt_live_def\<close>)
  have l2: "rt_live u2" by (rule own_live [OF o2 l1])
  have o3: "same_own u2 u3" unfolding u3_def by (rule own_ops) (use l2 in \<open>simp add: rt_live_def\<close>)
  have l3: "rt_live u3" by (rule own_live [OF o3 l2])
  have st': "uw_state u1 \<noteq> USB_WAIT_UNPLUGGED" "uw_state u3 \<noteq> USB_WAIT_UNPLUGGED"
    using st own_state [OF o1] own_state [OF o2] own_state [OF o3] by auto
  have g: "rt_good (usb_wait_gone u1)" "rt_good (usb_wait_gone u3)" "rt_good u2"
    using live_plugged(1) [OF l1 st'(1)] live_plugged(1) [OF l3 st'(2)] l2
    by (auto simp: usb_wait_gone_def intro: live_good)
  have e: "usb_wait_pending (rt_ops env) u = (if fst (op_left_bound env u) then usb_wait_gone u1
      else if fst (op_now_ms env u1) < uw_deadline_ms u2 then u2
      else if fst (op_present_bound env u2) = 0 then usb_wait_gone u3
      else if fst (op_present_bound env u2) < 0 then op_fatal ''Meshstick loss: the USB device list could not be read'' u3
      else op_fatal ''USB I/O error with the Meshstick present'' u3)"
    by (simp add: usb_wait_pending_def rt_ops_def u1_def u2_def u3_def Let_def split_beta)
  show ?thesis unfolding e using g live_fatal [OF l3 st'(2)] by simp
qed

lemma good_ready:
  assumes l: "rt_live u" and st: "uw_state u = USB_WAIT_READY" and v: "usb_wait_ready (rt_ops env) u = Some v"
  shows "rt_good v"
proof (cases "uw_loss_flag u")
  case True
  have "rt_live (u\<lparr>uw_deadline_ms := uw_loss_ms u + DAEMON_USB_WAIT_GRACE_MS, uw_state := USB_WAIT_PENDING\<rparr>)"
    by (rule live_plugged [OF l]) (simp_all add: st)
  from good_pending [OF this] show ?thesis using v True by (auto simp: usb_wait_ready_def)
next
  case False
  define u1 where "u1 = snd (op_left_bound env u)"
  have g1: "rt_good u1" unfolding u1_def by (rule good_ops [OF live_good [OF l]])
  show ?thesis
  proof (cases "fst (op_left_bound env u)")
    case True
    thus ?thesis using v False g1 by (simp add: usb_wait_ready_def rt_ops_def u1_def split_beta Let_def)
  next
    case nl: False
    obtain b x where x: "usb_drain (op_take_arrival env) id False u1 = Some (b, x)" using taken.drain_ends by blast
    obtain c y where y: "usb_drain (op_take_left env) id False x = Some (c, y)" using left.drain_ends by blast
    have gx: "rt_good x" by (rule taken.drain_keeps [where P = rt_good, OF _ _ x g1]) (simp_all add: good_ops)
    have "rt_good y" by (rule left.drain_keeps [where P = rt_good, OF _ _ y gx]) (simp_all add: good_ops)
    moreover have "v = y"
      using v False nl x y by (simp add: usb_wait_ready_def rt_ops_def u1_def split_beta Let_def)
    ultimately show ?thesis by simp
  qed
qed

lemma good_teardown:
  assumes l: "rt_live u" and st: "uw_state u = USB_WAIT_TEARDOWN"
  shows "rt_good (usb_wait_teardown (rt_ops env) u)"
proof -
  define u1 where "u1 = rt_enter env Rt_Teardown u"
  have o: "same_own u u1" unfolding u1_def by (rule own_enter) (use l in \<open>simp add: rt_live_def\<close>)
  have l1: "rt_live u1" by (rule own_live [OF o l])
  have st1: "uw_state u1 = USB_WAIT_TEARDOWN" using own_state [OF o] st by simp
  obtain h where h: "rt_hal (uw_world u1) = Some h" using l1 st1 by (auto simp: rt_live_def rt_shape_def Let_def)
  define v where "v = (rt_set rt_torn_down u1)\<lparr>uw_loss_flag := False, uw_loss_ms := 0, uw_state := USB_WAIT_UNPLUGGED,
    uw_force_reopen := True\<rparr>"
  have "rt_live v" using l1 st1 h
    by (cases "ha_dev h")
      (auto simp: v_def rt_live_def rt_shape_def Let_def rt_account_def rt_torn_down_def rt_hal_reset_def rt_radio_def
        hal_stick_def rt_armed_def)
  moreover have "usb_wait_teardown (rt_ops env) u = (if re_lock env (rt_hist u1) then v else u1)"
    by (simp add: usb_wait_teardown_def rt_ops_def op_teardown_try_def u1_def v_def Let_def)
  ultimately show ?thesis using l1 by (simp add: live_good)
qed


section \<open>While unplugged\<close>

text \<open>A HAL was created: what the re-init and the boot leave, whatever the wait's state says.\<close>

definition rt_open :: "rt \<Rightarrow> bool" where
  "rt_open w \<longleftrightarrow> rt_mon w \<and> rt_account w \<and> rt_exit w = NULL \<and> rt_hal w \<noteq> NULL \<and> rt_selected w = NULL \<and> \<not> sel_busy (rt_sel w)"

lemma open_own:
  assumes "rt_own v = rt_own w" shows "rt_open v = rt_open w"
proof -
  have e: "rt_selected v = rt_selected w" "rt_sel v = rt_sel w" "rt_exit v = rt_exit w" "rt_mon v = rt_mon w"
    "rt_hal v = NULL \<longleftrightarrow> rt_hal w = NULL"
    using assms by (cases "rt_hal v"; cases "rt_hal w"; simp add: rt_own_def)+
  show ?thesis unfolding rt_open_def own_account(1) [OF assms] e ..
qed

lemma same_open: "same_own u v \<Longrightarrow> rt_open (uw_world u) \<Longrightarrow> rt_open (uw_world v)"
  unfolding same_own_def using open_own by blast

lemma open_live:
  "rt_open (uw_world u) \<Longrightarrow> uw_state u \<noteq> USB_WAIT_UNPLUGGED \<Longrightarrow> \<not> uw_reopening u \<Longrightarrow> \<not> uw_reinit_pending u \<Longrightarrow> rt_live u"
  by (simp add: rt_open_def rt_live_def rt_shape_def Let_def)

lemma open_fatal: "rt_open (uw_world u) \<Longrightarrow> rt_good (op_fatal why u)"
  by (rule good_fatal) (auto simp: rt_open_def)

lemma init_open:
  assumes "rt_mon w" "rt_account w" "rt_exit w = NULL" "rt_hal w = NULL" "rt_selected w = Some d" "\<not> sel_busy (rt_sel w)"
  shows "rt_open (rt_lora_init env a w)"
proof -
  obtain g r where g: "rt_lora_init env a w = rt_radio (\<lambda>_. r) ((rt_hal_reset (w\<lparr>rt_selected := NULL\<rparr>))\<lparr>rt_hal := Some g\<rparr>)"
      and hal: "ha_dev g = Some d" "ha_on_loss g"
    using assms(5) by (auto simp: rt_lora_init_def daemon_ch341_take_selected_def daemon_ch341_arm_hal_def
        set_before_exit_def set_loss_wait_def ch341_hal_def Let_def split_beta split: option.splits)
  show ?thesis using assms hal
    by (simp add: g rt_open_def rt_account_def hal_stick_def rt_armed_def rt_hal_reset_def rt_radio_def)
qed

lemma own_log: "same_own u (rt_log c u)"
  unfolding rt_log_def by (rule own_set) simp

lemma own_replay: "rt_account (uw_world u) \<Longrightarrow> same_own u (snd (op_replay env u))"
proof (cases "rt_replay_cmd (uw_world u) = []")
  case True
  thus ?thesis by (simp add: op_replay_def)
next
  case False
  assume a: "rt_account (uw_world u)"
  obtain st c where p: "parse_and_apply_config_generic (re_driver env) (re_config env)
      (rt_replay_cmd (uw_world u)) (rt_conf (uw_world u)) = (st, c)" by fastforce
  define u0 where "u0 = rt_set (\<lambda>w. w\<lparr>rt_conf := c\<rparr>) u"
  define u1 where "u1 = rt_enter env Rt_Replay u0"
  define f where "f = rt_radio (\<lambda>r. rearm_start_receive (re_driver env) (drv (re_driver env) Call_SetAction r))"
  have o0: "same_own u u0" unfolding u0_def by (rule own_set) simp
  have a0: "rt_account (uw_world u0)" by (rule same_account [OF o0 a])
  have o1: "same_own u u1" unfolding u1_def by (rule same_own_trans [OF o0 own_enter [OF a0]])
  have o2: "same_own u (rt_set f u1)" by (rule same_own_trans [OF o1 own_set]) (simp add: f_def)
  have a2: "rt_account (uw_world (rt_set f u1))" by (rule same_account [OF o2 a])
  have "same_own u (rt_enter env Rt_Rearm (rt_set f u1))" by (rule same_own_trans [OF o2 own_enter [OF a2]])
  thus ?thesis using o1 False by (simp add: op_replay_def p u1_def u0_def f_def Let_def)
qed

lemma good_reinit:
  assumes l: "rt_live u" and st: "uw_state u = USB_WAIT_UNPLUGGED" "uw_reinit_pending u"
  shows "rt_good (usb_wait_reinit (rt_ops env) u)"
proof -
  have ops: "uo_reinit (rt_ops env) = op_reinit env" "uo_set_health (rt_ops env) = op_set_health"
    "uo_fatal (rt_ops env) = op_fatal" by (simp_all add: rt_ops_def)
  define u1 where "u1 = rt_enter env Rt_Reinit u"
  have o1: "same_own u u1" unfolding u1_def by (rule own_enter) (use l in \<open>simp add: rt_live_def\<close>)
  have l1: "rt_live u1" by (rule own_live [OF o1 l])
  show ?thesis
  proof (cases "re_lock env (rt_hist u1)")
    case False
    thus ?thesis using l1 by (simp add: usb_wait_reinit_def ops op_reinit_def u1_def [symmetric] Let_def live_good)
  next
    case True
    define u2 where "u2 = rt_log Rt_Lora_Init (rt_set rt_defaults u1)"
    define u3 where "u3 = rt_set (rt_lora_init env (re_init env (rt_hist u2))) u2"
    define u4 where "u4 = snd (op_replay env u3)"
    have "same_own u1 u2" unfolding u2_def
      by (rule same_own_trans [OF own_set own_log]) (simp add: rt_defaults_def)
    hence o2: "same_own u u2" using same_own_trans [OF o1] by blast
    have l2: "rt_live u2" by (rule own_live [OF o2 l])
    have st2: "uw_state u2 = USB_WAIT_UNPLUGGED" "uw_reinit_pending u2" using own_state [OF o2] st by auto
    obtain d where d: "rt_selected (uw_world u2) = Some d" using l2 st2 by (auto simp: rt_live_def rt_shape_def Let_def)
    have w3: "rt_open (uw_world u3)" unfolding u3_def
      using l2 st2 d by (auto simp: rt_live_def rt_shape_def Let_def intro: init_open)
    hence o4: "same_own u3 u4" unfolding u4_def by (intro own_replay) (simp add: rt_open_def)
    have w4: "rt_open (uw_world u4)" by (rule same_open [OF o4 w3])
    define fin where "fin = (\<lambda>w. rt_radio (\<lambda>r. r\<lparr>rc_usb_wait_port := ''-'',
        rc_bound := snprintf_text 48 (daemon_ch341_select_bound (rt_sel w))\<rparr>) w)"
    have w5: "rt_open (uw_world (rt_set fin u4))" by (rule same_open [OF own_set w4]) (simp add: fin_def)
    have re: "\<not> uw_reopening u3" using l2 st2 by (auto simp: u3_def rt_live_def rt_shape_def Let_def)
    hence re4: "\<not> uw_reopening u4" using own_state [OF o4] by simp
    have again: "rt_good (usb_wait_reinit (rt_ops env) u)" if "op_reinit env u = (1, rt_set fin u4)"
      using open_live [of "(rt_set fin u4)\<lparr>uw_reinit_pending := False, uw_state := USB_WAIT_READY\<rparr>"] w5 re4
      by (simp add: usb_wait_reinit_def ops that Let_def live_good)
    have fails: "rt_good (usb_wait_reinit (rt_ops env) u)"
      if "op_reinit env u = (0, x)" "rt_open (uw_world x)" for x
    proof -
      define y where "y = op_set_health RADIO_HEALTH_FAILED (x\<lparr>uw_reinit_pending := False\<rparr>)"
      have "rt_open (uw_world y)" using open_own [of "uw_world y" "uw_world x"] that(2) by (simp add: y_def op_set_health_def)
      thus ?thesis by (simp add: usb_wait_reinit_def ops that(1) Let_def y_def [symmetric] open_fatal)
    qed
    have "op_reinit env u = (if \<not> radio_controller_ready (cf_radio (rt_conf (uw_world u3))) then (0, u3)
        else if \<not> fst (op_replay env u3) then (0, u4) else (1, rt_set fin u4))"
      using True by (simp add: op_reinit_def u1_def u2_def u3_def u4_def fin_def Let_def split_beta)
    thus ?thesis using again fails w3 w4 by (auto split: if_splits)
  qed
qed

text \<open>One step of the selection, begun or in progress.\<close>

definition rt_selecting :: "runtime \<Rightarrow> bool" where
  "rt_selecting u \<longleftrightarrow> rt_mon (uw_world u) \<and> rt_account (uw_world u) \<and> rt_exit (uw_world u) = NULL \<and> uw_state u = USB_WAIT_UNPLUGGED \<and>
     rt_hal (uw_world u) = NULL \<and> rt_selected (uw_world u) = NULL \<and> uw_reopening u \<and> \<not> uw_reinit_pending u"

lemma own_selecting:
  assumes o: "same_own u v" and s: "rt_selecting u" shows "rt_selecting v"
proof -
  have w: "rt_own (uw_world v) = rt_own (uw_world u)" using o by (simp add: same_own_def)
  have "rt_mon (uw_world v) = rt_mon (uw_world u)" "rt_exit (uw_world v) = rt_exit (uw_world u)" "rt_selected (uw_world v) = rt_selected (uw_world u)"
    "rt_hal (uw_world u) = NULL \<longrightarrow> rt_hal (uw_world v) = NULL" using w by (auto simp: rt_own_def)
  thus ?thesis using s own_state [OF o] own_account(1) [OF w] by (simp add: rt_selecting_def)
qed

lemma good_step:
  assumes s: "rt_selecting u" shows "rt_good (usb_wait_step (rt_ops env) u)"
proof -
  define u1 where "u1 = rt_enter env Rt_Reopen_Step u"
  have "same_own u u1" unfolding u1_def by (rule own_enter) (use s in \<open>simp add: rt_selecting_def\<close>)
  hence s1: "rt_selecting u1" by (rule own_selecting [OF _ s])
  let ?w = "uw_world u1"
  obtain r dev why t where e: "daemon_ch341_select_step (re_sel env) 240 (rt_sel ?w) = (r, dev, why, t)"
    by (metis prod_cases4)
  have "step_ok (rt_sel ?w) (mset (rt_closed ?w)) (daemon_ch341_select_step (re_sel env) 240 (rt_sel ?w))"
    by (rule step_ok_step) (use s1 in \<open>simp_all add: rt_selecting_def rt_account_def hal_stick_def\<close>)
  hence ok: "sel_ok t" "open_sticks (sl_calls t) = mset (rt_closed ?w) + mset (sl_held t) + opt_stick dev"
    "r = CH341_SEL_PENDING \<longleftrightarrow> sel_busy t" "r = CH341_SEL_OPENED \<longleftrightarrow> dev \<noteq> NULL"
    by (auto simp: e step_ok_def opt_stick_def)
  define u2 where "u2 = rt_set (\<lambda>w. w\<lparr>rt_sel := t\<rparr>) u1"
  define u3 where "u3 = rt_set (\<lambda>w. w\<lparr>rt_selected := dev\<rparr>) u2"
  have ops: "uo_reopen_step (rt_ops env) = op_reopen_step env" by (simp add: rt_ops_def)
  have step: "op_reopen_step env u = (case r of CH341_SEL_PENDING \<Rightarrow> (0, u2) | CH341_SEL_OPENED \<Rightarrow> (1, u3) | _ \<Rightarrow> (2, u2))"
    by (simp add: op_reopen_step_def u1_def [symmetric] e u2_def u3_def Let_def split: sel_result.split)
  have base: "rt_mon (uw_world u2)" "uw_state u2 = USB_WAIT_UNPLUGGED" "rt_hal (uw_world u2) = NULL" "rt_exit (uw_world u2) = NULL"
    "uw_reopening u2" "\<not> uw_reinit_pending u2" using s1 by (simp_all add: u2_def rt_selecting_def)
  have acc2: "dev = NULL \<Longrightarrow> rt_account (uw_world u2)" "dev = NULL \<Longrightarrow> rt_selected (uw_world u2) = NULL"
    "rt_account (uw_world u3)"
    using ok s1 by (simp_all add: u2_def u3_def rt_account_def hal_stick_def rt_selecting_def rt_armed_def)
  consider (p) "r = CH341_SEL_PENDING" | (o) "r = CH341_SEL_OPENED" | (n) "r = CH341_SEL_WAIT \<or> r = CH341_SEL_REFUSED"
    by (cases r) auto
  thus ?thesis
  proof cases
    case p
    hence "rt_live u2" using acc2 base ok by (simp add: rt_live_def rt_shape_def Let_def u2_def)
    thus ?thesis using p by (simp add: usb_wait_step_def ops step live_good)
  next
    case n
    hence "rt_live (u2\<lparr>uw_reopening := False\<rparr>)"
      using acc2 base ok by (auto simp: rt_live_def rt_shape_def Let_def u2_def)
    moreover have "usb_wait_step (rt_ops env) u = u2\<lparr>uw_reopening := False\<rparr>"
      using n by (auto simp: usb_wait_step_def ops step Let_def)
    ultimately show ?thesis by (simp add: live_good)
  next
    case o
    define u4 where "u4 = u3\<lparr>uw_reopening := False, uw_reinit_pending := True\<rparr>"
    have "rt_live u4" "uw_state u4 = USB_WAIT_UNPLUGGED" "uw_reinit_pending u4"
      using o acc2 base ok by (simp_all add: rt_live_def rt_shape_def Let_def u2_def u3_def u4_def)
    hence "rt_good (usb_wait_reinit (rt_ops env) u4)" by (rule good_reinit)
    thus ?thesis using o by (simp add: usb_wait_step_def ops step Let_def u4_def)
  qed
qed

definition rt_waiting :: "runtime \<Rightarrow> bool" where
  "rt_waiting u \<longleftrightarrow> rt_live u \<and> uw_state u = USB_WAIT_UNPLUGGED \<and> \<not> uw_reinit_pending u"

lemma rt_waiting_iff:
  "rt_waiting u \<longleftrightarrow> rt_mon (uw_world u) \<and> rt_account (uw_world u) \<and> rt_exit (uw_world u) = NULL \<and> uw_state u = USB_WAIT_UNPLUGGED \<and>
     \<not> uw_reinit_pending u \<and> rt_hal (uw_world u) = NULL \<and> rt_selected (uw_world u) = NULL \<and>
     (uw_reopening u \<longleftrightarrow> sel_busy (rt_sel (uw_world u)))"
  by (auto simp: rt_waiting_def rt_live_def rt_shape_def Let_def)

lemma own_waiting: "same_own u v \<Longrightarrow> rt_waiting u \<Longrightarrow> rt_waiting v"
  by (simp add: rt_waiting_def own_live own_state)

lemma waiting_account: "rt_waiting u \<Longrightarrow> rt_account (uw_world u)"
  by (simp add: rt_waiting_def rt_live_def)

lemma good_reopen:
  assumes w: "rt_waiting u" shows "rt_good (usb_wait_reopen (rt_ops env) arrival u)"
proof (cases "uw_reopening u")
  case True
  hence "rt_selecting u" using w by (simp add: rt_waiting_iff rt_selecting_def)
  thus ?thesis using True good_step by (simp add: usb_wait_reopen_def)
next
  case False
  define p where "p = (if \<not> arrival \<and> \<not> uw_force_reopen u then op_reopen_due env u else (True, u))"
  define u1 where "u1 = (snd p)\<lparr>uw_force_reopen := False\<rparr>"
  define u2 where "u2 = rt_enter env Rt_Reopen_Begin u1"
  define u3 where "u3 = (rt_set (\<lambda>w. w\<lparr>rt_sel := daemon_ch341_select_begin False (rt_sel w)\<rparr>) u2)\<lparr>uw_reopening := True\<rparr>"
  have op: "same_own u (snd p)" using own_ops(7) [OF waiting_account [OF w]] by (simp add: p_def)
  hence wp: "rt_waiting (snd p)" by (rule own_waiting [OF _ w])
  hence w1: "rt_waiting u1" by (simp add: u1_def rt_waiting_iff)
  have nb1: "\<not> uw_reopening u1" using own_state [OF op] False by (simp add: u1_def)
  have o2: "same_own u1 u2" unfolding u2_def by (rule own_enter [OF waiting_account [OF w1]])
  have w2: "rt_waiting u2" by (rule own_waiting [OF o2 w1])
  have nb: "\<not> sel_busy (rt_sel (uw_world u2))"
    using w2 nb1 own_state [OF o2] by (simp add: rt_waiting_iff)
  hence held: "sl_held (rt_sel (uw_world u2)) = []" using w2 nb not_busy_held by (simp add: rt_waiting_iff rt_account_def)
  have ok: "sel_ok (daemon_ch341_select_begin False (rt_sel (uw_world u2)))" using held by (simp add: sel_ok_def begin_facts)
  have "rt_account (uw_world u3)"
    using w2 held ok by (simp add: u3_def rt_waiting_iff rt_account_def begin_facts hal_stick_def rt_armed_def)
  hence "rt_selecting u3"
    using w2 by (simp add: u3_def rt_waiting_iff rt_selecting_def)
  hence "rt_good (usb_wait_step (rt_ops env) u3)" by (rule good_step)
  moreover have "usb_wait_reopen (rt_ops env) arrival u = (if \<not> fst p then snd p else usb_wait_step (rt_ops env) u3)"
    using False by (simp add: usb_wait_reopen_def rt_ops_def p_def u1_def u2_def u3_def op_reopen_begin_def split_beta Let_def)
  ultimately show ?thesis using wp by (simp add: rt_waiting_def live_good)
qed

lemma waiting_note:
  assumes w: "rt_waiting u" and q: "\<And>s. sel_quiet s (f s)"
  shows "rt_waiting (rt_set (\<lambda>w. w\<lparr>rt_sel := f (rt_sel w)\<rparr>) (rt_enter env c u))"
proof -
  define x where "x = rt_enter env c u"
  have x: "rt_waiting x" unfolding x_def by (rule own_waiting [OF own_enter [OF waiting_account [OF w]] w])
  let ?s = "rt_sel (uw_world x)"
  let ?L = "mset (rt_closed (uw_world x)) + hal_stick (uw_world x) + opt_stick (rt_selected (uw_world x))"
  have "sel_ok (f ?s) \<and> open_sticks (sl_calls (f ?s)) = ?L + mset (sl_held (f ?s))"
    by (rule sel_account_quiet [OF q]) (use waiting_account [OF x] in \<open>simp_all add: rt_account_def\<close>)
  moreover have "sel_busy (f ?s) = sel_busy ?s" using sel_left_core [OF sel_quiet_core [OF q]] by blast
  ultimately show ?thesis using x unfolding x_def [symmetric]
    by (simp add: rt_waiting_iff rt_account_def hal_stick_def rt_armed_def)
qed

lemma waiting_ops:
  assumes "rt_waiting u"
  shows "rt_waiting (snd (op_take_arrival env u))" "rt_waiting (snd (op_take_left env u))"
    "rt_waiting (op_reopen_arrival env u)" "rt_waiting (op_reopen_left env u)"
  using own_waiting [OF own_ops(4) [OF waiting_account [OF assms]] assms]
    own_waiting [OF own_ops(5) [OF waiting_account [OF assms]] assms]
  unfolding op_reopen_arrival_def op_reopen_left_def
  by (auto intro: waiting_note [OF assms] sel_quiet_arrival sel_quiet_left)

lemma good_unplugged:
  assumes l: "rt_live u" and st: "uw_state u = USB_WAIT_UNPLUGGED" and v: "usb_wait_unplugged (rt_ops env) u = Some v"
  shows "rt_good v"
proof (cases "uw_reinit_pending u")
  case True
  thus ?thesis using v good_reinit [OF l st] by (auto simp: usb_wait_unplugged_def)
next
  case False
  hence w: "rt_waiting u" using l st by (simp add: rt_waiting_def)
  obtain b x where x: "usb_drain (op_take_arrival env) (op_reopen_arrival env) False u = Some (b, x)"
    using noted.drain_ends by blast
  obtain c y where y: "usb_drain (op_take_left env) (op_reopen_left env) b x = Some (c, y)"
    using noted_left.drain_ends by blast
  have wx: "rt_waiting x" by (rule noted.drain_keeps [where P = rt_waiting, OF _ _ x w]) (simp_all add: waiting_ops)
  have "rt_waiting y" by (rule noted_left.drain_keeps [where P = rt_waiting, OF _ _ y wx]) (simp_all add: waiting_ops)
  moreover have "v = usb_wait_reopen (rt_ops env) c y"
    using v False x y by (simp add: usb_wait_unplugged_def rt_ops_def)
  ultimately show ?thesis by (simp add: good_reopen)
qed

lemma good_tick:
  assumes l: "rt_live u" and v: "daemon_usb_wait_tick (rt_ops env) u = Some v" shows "rt_good v"
proof (cases "uw_armed u")
  case False
  thus ?thesis using v l by (simp add: daemon_usb_wait_tick_def live_good)
next
  case True
  define u1 where "u1 = op_dispatch env u"
  have o: "same_own u u1" unfolding u1_def by (rule own_ops) (use l in \<open>simp add: rt_live_def\<close>)
  have l1: "rt_live u1" by (rule own_live [OF o l])
  have ops: "uo_mon_dispatch (rt_ops env) = op_dispatch env" by (simp add: rt_ops_def)
  show ?thesis using v True good_ready [OF l1] good_pending [OF l1] good_teardown [OF l1] good_unplugged [OF l1]
    by (cases "uw_state u1") (auto simp: daemon_usb_wait_tick_def ops u1_def [symmetric] Let_def)
qed

end
