(* ===== verification/Ch341_Runtime_Run.thy ===== *)
theory Ch341_Runtime_Run
  imports Ch341_Runtime_Props Config_Replay
begin

text \<open>
  The life of a daemon on a Meshstick: the selection at start, the first start of the radio, then passes
  of the unplug-wait with losses and the work of clients between them, and the shutdown.
\<close>

section \<open>The selection at start\<close>

definition rt_choosing :: "rt \<Rightarrow> bool" where
  "rt_choosing w \<longleftrightarrow> rt_mon w \<and> sel_ok (rt_sel w) \<and> open_sticks (sl_calls (rt_sel w)) = mset (sl_held (rt_sel w)) \<and>
     rt_hal w = NULL \<and> rt_selected w = NULL \<and> rt_closed w = [] \<and> rt_exit w = NULL"

text \<open>What the selection at start leaves: one stick, or none.\<close>

definition rt_chosen :: "bool \<Rightarrow> rt \<Rightarrow> bool" where
  "rt_chosen b w \<longleftrightarrow> rt_mon w \<and> sel_ok (rt_sel w) \<and> \<not> sel_busy (rt_sel w) \<and> open_sticks (sl_calls (rt_sel w)) = opt_stick (rt_selected w) \<and>
     (b \<longleftrightarrow> rt_selected w \<noteq> NULL) \<and> rt_hal w = NULL \<and> rt_closed w = [] \<and> rt_exit w = NULL"

lemma at_start_chosen:
  assumes "select_at_start_loop env n w = Some y" "rt_choosing w" shows "rt_chosen (fst y) (snd (snd y))"
  using assms
proof (induction rule: select_at_start_loop.raw_induct [rotated -1, consumes 1, case_names iterate])
  case (iterate rec_loop env n w y)
  define s0 where "s0 = sel_take_events (re_sel env) (rt_sel w)"
  have a0: "sel_ok s0 \<and> open_sticks (sl_calls s0) = {#} + mset (sl_held s0)" unfolding s0_def
    by (rule sel_account_quiet [OF sel_quiet_take]) (use iterate(3) in \<open>simp_all add: rt_choosing_def\<close>)
  obtain r dev why s where e: "daemon_ch341_select_step (re_sel env) n s0 = (r, dev, why, s)" by (metis prod_cases4)
  have "step_ok s0 {#} (r, dev, why, s)" using step_ok_step [of s0 "{#}" "re_sel env" n] a0 by (simp add: e)
  hence ok: "sel_ok s" "open_sticks (sl_calls s) = mset (sl_held s) + opt_stick dev"
    "r = CH341_SEL_PENDING \<longleftrightarrow> sel_busy s" "r = CH341_SEL_OPENED \<longleftrightarrow> dev \<noteq> NULL"
    by (auto simp: step_ok_def opt_stick_def)
  have held: "\<not> sel_busy s \<Longrightarrow> sl_held s = []" using not_busy_held ok(1) by blast
  note w = iterate(3) [unfolded rt_choosing_def]
  show ?case
  proof (cases r)
    case CH341_SEL_OPENED
    thus ?thesis using iterate(2) ok held w
      by (auto simp: s0_def [symmetric] e Let_def rt_chosen_def rt_radio_def)
  next
    case CH341_SEL_REFUSED
    thus ?thesis using iterate(2) ok held w
      by (auto simp: s0_def [symmetric] e Let_def rt_chosen_def)
  next
    case CH341_SEL_PENDING
    hence "rt_choosing (w\<lparr>rt_sel := s\<rparr>)" using ok w by (simp add: rt_choosing_def)
    thus ?thesis using iterate(1,2) CH341_SEL_PENDING by (simp add: s0_def [symmetric] e Let_def)
  next
    case CH341_SEL_WAIT
    hence "rt_choosing (w\<lparr>rt_sel := daemon_ch341_select_begin True s, rt_calls := Rt_Sleep # Rt_Now # rt_calls w\<rparr>)"
      using ok w held by (simp add: rt_choosing_def begin_facts sel_ok_def)
    thus ?thesis using iterate(1,2) CH341_SEL_WAIT by (simp add: s0_def [symmetric] e Let_def)
  qed
qed

definition rt_fresh :: "rt \<Rightarrow> bool" where
  "rt_fresh w \<longleftrightarrow> rt_mon w \<and> rt_sel w = sel_initial \<and> rt_hal w = NULL \<and> rt_selected w = NULL \<and> rt_closed w = [] \<and> rt_exit w = NULL"

lemma start_chosen:
  assumes "rt_fresh w" "daemon_ch341_select_at_start env usb_serial n w = Some (b, why, v)"
  shows "rt_chosen b v"
proof -
  have "rt_choosing (w\<lparr>rt_sel := daemon_ch341_select_begin True (daemon_ch341_select_init usb_serial (rt_sel w))\<rparr>)"
    using assms(1) by (simp add: rt_fresh_def rt_choosing_def sel_ok_def begin_facts daemon_ch341_select_init_def
        sel_initial_def Let_def)
  from at_start_chosen [OF _ this] show ?thesis using assms(2) by (fastforce simp: daemon_ch341_select_at_start_def)
qed

section \<open>Runs\<close>

text \<open>\<open>daemon_io_init\<close> after the selection: the machine is armed, then the radio is started.\<close>

definition rt_boot :: "rt_env \<Rightarrow> rt \<Rightarrow> runtime" where
  "rt_boot env w =
     (let u = rt_log Rt_Lora_Init (daemon_usb_wait_init (usb_wait_initial w))
      in rt_set (rt_lora_init env (re_init env (rt_hist u))) u)"

text \<open>
  A loss comes at any time, and clients change the configuration; both only while the process lives. The
  daemon serves only with a radio that came up READY.
\<close>

inductive rt_run :: "rt_env \<Rightarrow> string ptr \<Rightarrow> nat \<Rightarrow> runtime \<Rightarrow> bool" for env usb_serial n where
  start: "rt_fresh w \<Longrightarrow> daemon_ch341_select_at_start env usb_serial n w = Some (True, why, v) \<Longrightarrow>
    radio_controller_ready (cf_radio (rt_conf (uw_world (rt_boot env v)))) \<Longrightarrow> rt_run env usb_serial n (rt_boot env v)"
| tick: "rt_run env usb_serial n u \<Longrightarrow> rt_exit (uw_world u) = NULL \<Longrightarrow> daemon_usb_wait_tick (rt_ops env) u = Some v \<Longrightarrow>
    rt_run env usb_serial n v"
| loss: "rt_run env usb_serial n u \<Longrightarrow> rt_exit (uw_world u) = NULL \<Longrightarrow> rt_run env usb_serial n (rt_loss env u)"
| clients: "rt_run env usb_serial n u \<Longrightarrow> rt_exit (uw_world u) = NULL \<Longrightarrow>
    rt_run env usb_serial n (rt_set (\<lambda>w. w\<lparr>rt_conf := c\<rparr>) u)"

lemma boot_live:
  assumes "rt_chosen True w" shows "rt_live (rt_boot env w)"
proof -
  define u where "u = rt_log Rt_Lora_Init (daemon_usb_wait_init (usb_wait_initial w))"
  obtain d where d: "rt_selected w = Some d" using assms by (auto simp: rt_chosen_def)
  have o: "rt_own (uw_world u) = rt_own w"
    by (simp add: u_def rt_log_def daemon_usb_wait_init_def usb_wait_initial_def)
  hence "rt_mon (uw_world u)" "rt_selected (uw_world u) = Some d" "rt_exit (uw_world u) = NULL" "rt_hal (uw_world u) = NULL"
    "\<not> sel_busy (rt_sel (uw_world u))" using assms d by (auto simp: rt_own_def rt_chosen_def)
  moreover have "rt_account (uw_world u)" unfolding own_account(1) [OF o]
    using assms d by (auto simp: rt_account_def rt_chosen_def hal_stick_def rt_armed_def dest: not_busy_held)
  ultimately have "rt_open (uw_world (rt_boot env w))"
    by (auto simp: rt_boot_def u_def [symmetric] Let_def intro: init_open)
  moreover have "uw_state (rt_boot env w) = USB_WAIT_READY" "\<not> uw_reopening (rt_boot env w)"
    "\<not> uw_reinit_pending (rt_boot env w)"
    by (simp_all add: rt_boot_def rt_log_def daemon_usb_wait_init_def usb_wait_initial_def Let_def)
  ultimately show ?thesis by (intro open_live) simp_all
qed

lemma rt_run_good: "rt_run env usb_serial n u \<Longrightarrow> rt_good u"
proof (induction rule: rt_run.induct)
  case (start w why v)
  thus ?case using boot_live [OF start_chosen] live_good by blast
next
  case (tick u v)
  thus ?case using good_tick good_live by blast
next
  case (loss u)
  hence "same_own u (rt_loss env u)"
    by (intro loss_same_own loss_only_loss) (simp add: rt_good_def rt_account_def)
  thus ?case using loss own_shape(2) by blast
next
  case (clients u c)
  have "same_own u (rt_set (\<lambda>w. w\<lparr>rt_conf := c\<rparr>) u)" by (rule own_set) simp
  thus ?case using clients own_shape(2) by blast
qed

text \<open>The shutdown: the radio first (the HAL's destructor), then the selection and the monitor.\<close>

definition rt_shutdown :: "runtime \<Rightarrow> runtime" where
  "rt_shutdown u = daemon_ch341_shutdown (rt_set rt_hal_reset u)"

lemma shutdown_closes:
  assumes "rt_account (uw_world u)" "rt_mon (uw_world u)"
  shows "open_sticks (sl_calls (rt_sel (uw_world (rt_shutdown u)))) = mset (rt_closed (uw_world (rt_shutdown u)))"
proof -
  let ?w = "uw_world u"
  have "open_sticks (sl_calls (daemon_ch341_select_cancel (rt_sel ?w))) =
      mset (rt_closed ?w) + hal_stick ?w + opt_stick (rt_selected ?w)"
    by (rule cancel_facts) (use assms(1) in \<open>simp add: rt_account_def\<close>)
  moreover have "uw_world (daemon_usb_wait_reset x) = uw_world x" for x :: runtime by (simp add: daemon_usb_wait_reset_def)
  ultimately show ?thesis using assms(2)
    by (cases "rt_hal ?w"; cases "rt_selected ?w"; cases "ha_dev (the (rt_hal ?w))")
      (simp_all add: rt_shutdown_def daemon_ch341_shutdown_def rt_close_selected_def rt_hal_reset_def hal_stick_def)
qed

text \<open>
  C4: at any moment of the daemon's life every open stick has exactly one owner: the HAL, the selected
  stick, or the walk that holds it back; the HAL and the selection never own one at the same time. A
  process that ends with exit 5 has closed every stick it opened, and so has a shutdown from any
  state.
\<close>

theorem every_stick_has_one_owner:
  assumes "rt_run env usb_serial n u"
  shows "let w = uw_world u; v = uw_world (rt_shutdown u) in
    open_sticks (sl_calls (rt_sel w)) =
      mset (rt_closed w) + hal_stick w + opt_stick (rt_selected w) + mset (sl_held (rt_sel w)) \<and>
    size (hal_stick w + opt_stick (rt_selected w)) \<le> 1 \<and>
    (rt_exit w \<noteq> NULL \<longrightarrow> open_sticks (sl_calls (rt_sel w)) = mset (rt_closed w)) \<and>
    (rt_exit w = NULL \<longrightarrow> open_sticks (sl_calls (rt_sel v)) = mset (rt_closed v))"
proof -
  define w where "w = uw_world u"
  have g: "rt_good u" by (rule rt_run_good [OF assms])
  have one: "size (opt_stick d) \<le> 1" for d by (cases d) simp_all
  have "size (hal_stick w + opt_stick (rt_selected w)) \<le> 1"
    using g one by (cases "rt_exit w"; cases "rt_hal w")
      (auto simp: rt_good_def w_def rt_released_def rt_shape_def Let_def hal_stick_def split: if_splits)
  moreover have "rt_exit w = NULL \<Longrightarrow> rt_mon w" using g by (simp add: rt_good_def w_def rt_shape_def Let_def)
  ultimately show ?thesis using good_account [OF g] g shutdown_closes [of u]
    by (auto simp: rt_account_def w_def rt_good_def rt_released_def Let_def)
qed

end
