(* ===== verification/Ch341_Runtime_Loss.thy ===== *)
theory Ch341_Runtime_Loss
  imports Ch341_Runtime_Run
begin

text \<open>
  A loss from its first failed transfer to its end: the latch of the HAL and the flag of the wait say the
  same, the grace period runs from the first failure, and exit 5 has one of three causes.
\<close>

section \<open>The latch and the flag\<close>

definition rt_latch :: "rt_env \<Rightarrow> runtime \<Rightarrow> bool" where
  "rt_latch env u \<longleftrightarrow> uw_armed u \<and>
     (\<forall>h. rt_hal (uw_world u) = Some h \<longrightarrow> ha_on_loss h \<and> ha_lost h = uw_loss_flag u) \<and>
     (rt_hal (uw_world u) = NULL \<longrightarrow> \<not> uw_loss_flag u) \<and>
     (\<not> uw_loss_flag u \<longrightarrow> uw_loss_ms u = 0) \<and>
     (uw_loss_flag u \<longrightarrow> (\<exists>later h. rt_hist u = later @ h \<and> uw_loss_ms u = re_now env h)) \<and>
     (uw_state u = USB_WAIT_PENDING \<longrightarrow> uw_loss_flag u \<and> uw_deadline_ms u = uw_loss_ms u + DAEMON_USB_WAIT_GRACE_MS)"

text \<open>What the operations change outside the HAL does not matter here.\<close>

definition hal_latch_view :: "rt \<Rightarrow> _" where
  "hal_latch_view w = (map_option (\<lambda>h. (ha_on_loss h, ha_lost h)) (rt_hal w), rt_calls w)"

lemma latch_set:
  assumes k: "hal_latch_view (f (uw_world u)) = hal_latch_view (uw_world u)" and l: "rt_latch env u"
  shows "rt_latch env (rt_set f u)"
proof -
  have "rt_calls (f (uw_world u)) = rt_calls (uw_world u)" using k by (simp add: hal_latch_view_def)
  moreover have "rt_hal (f (uw_world u)) = NULL \<longleftrightarrow> rt_hal (uw_world u) = NULL"
    using k by (cases "rt_hal (f (uw_world u))"; cases "rt_hal (uw_world u)") (simp_all add: hal_latch_view_def)
  moreover have "\<exists>g. rt_hal (uw_world u) = Some g \<and> ha_on_loss g = ha_on_loss h \<and> ha_lost g = ha_lost h"
    if "rt_hal (f (uw_world u)) = Some h" for h
    using k that by (cases "rt_hal (uw_world u)") (simp_all add: hal_latch_view_def)
  ultimately show ?thesis using l by (fastforce simp: rt_latch_def)
qed

lemma latch_log:
  assumes "rt_latch env u" shows "rt_latch env (rt_log c u)"
proof -
  have "uw_loss_flag u \<Longrightarrow> \<exists>later h. c # rt_hist u = later @ h \<and> uw_loss_ms u = re_now env h"
    using assms by (metis append_Cons rt_latch_def)
  thus ?thesis using assms by (simp add: rt_latch_def rt_log_def)
qed

lemma latch_loss:
  assumes l: "rt_latch env u" shows "rt_latch env (rt_loss env u)"
proof (cases "rt_hal (uw_world u)")
  case None
  thus ?thesis using l by (simp add: rt_loss_def)
next
  case (Some h)
  show ?thesis
  proof (cases "ha_operational h \<and> \<not> ha_lost h")
    case False
    have f: "ha_on_loss h" using l Some by (simp add: rt_latch_def)
    have "ha_losses (failure h) = ha_losses h" "ha_lost (failure h) = ha_lost h" "ha_on_loss (failure h) = ha_on_loss h"
      using False f by (auto simp: failure_def)
    thus ?thesis using l Some latch_set [of "\<lambda>w. w\<lparr>rt_hal := Some (failure h)\<rparr>" u env]
      by (simp add: rt_loss_def hal_latch_view_def)
  next
    case True
    hence "\<not> uw_loss_flag u" "ha_on_loss h" "uw_loss_ms u = 0" "uw_armed u" using l Some by (auto simp: rt_latch_def)
    moreover have "failure h = h\<lparr>ha_lost := True, ha_losses := ha_losses h + 1\<rparr>"
      using True calculation(2) by (simp add: failure_def)
    ultimately show ?thesis using l Some
      by (auto simp: rt_loss_def rt_on_loss_def on_loss_with_def op_set_health_def op_now_ms_def rt_log_def rt_radio_def
          rt_latch_def intro: exI [of _ "[Rt_Now]"])
  qed
qed

lemma latch_enter: "rt_latch env u \<Longrightarrow> rt_latch env (rt_enter env c u)"
  by (simp add: rt_enter_def Let_def latch_log latch_loss)

lemma latch_view_simps [simp]:
  "hal_latch_view (rt_radio g w) = hal_latch_view w" "hal_latch_view (w\<lparr>rt_arrivals := a\<rparr>) = hal_latch_view w"
  "hal_latch_view (w\<lparr>rt_lefts := a\<rparr>) = hal_latch_view w" "hal_latch_view (w\<lparr>rt_left_bound := i\<rparr>) = hal_latch_view w"
  "hal_latch_view (w\<lparr>rt_conf := c\<rparr>) = hal_latch_view w" "hal_latch_view (w\<lparr>rt_sel := s\<rparr>) = hal_latch_view w"
  "hal_latch_view (w\<lparr>rt_selected := d\<rparr>) = hal_latch_view w"
  by (simp_all add: hal_latch_view_def rt_radio_def)

lemma latch_ops:
  assumes "rt_latch env u"
  shows "rt_latch env (op_dispatch env u)" "rt_latch env (snd (op_left_bound env u))"
    "rt_latch env (snd (op_present_bound env u))" "rt_latch env (snd (op_take_arrival env u))"
    "rt_latch env (snd (op_take_left env u))" "rt_latch env (snd (op_now_ms env u))"
    "rt_latch env (snd (op_reopen_due env u))" "rt_latch env (op_set_health h u)"
    "rt_latch env (op_reopen_begin env b u)" "rt_latch env (op_reopen_arrival env u)"
    "rt_latch env (op_reopen_left env u)" "rt_latch env (snd (op_reopen_step env u))"
  using latch_enter [OF assms] latch_log [OF assms] assms
  by (auto simp: op_dispatch_def op_left_bound_def op_present_bound_def op_take_arrival_def op_take_left_def op_now_ms_def
      op_reopen_due_def op_set_health_def op_reopen_begin_def op_reopen_arrival_def op_reopen_left_def op_reopen_step_def
      Let_def split_beta intro!: latch_set split: sel_result.split)

lemma latch_fatal:
  assumes "rt_latch env u" shows "rt_latch env (op_fatal why u)"
  unfolding op_fatal_def
  by (rule latch_set [OF _ assms])
    (simp add: hal_latch_view_def runtime_fatal_def hal_fatal_def close_device_def dev_call_def rt_hal_reset_def
      rt_close_selected_def split: option.split)

text \<open>A new HAL has not lost its stick.\<close>

lemma latch_init:
  assumes "rt_latch env u" "\<not> uw_loss_flag u" shows "rt_latch env (rt_set (rt_lora_init env a) u)"
proof -
  obtain g r w where "rt_lora_init env a (uw_world u) = rt_radio (\<lambda>_. r) (w\<lparr>rt_hal := Some g\<rparr>)"
      "ha_on_loss g" "\<not> ha_lost g" "rt_calls w = rt_calls (uw_world u)"
    by (auto simp: rt_lora_init_def daemon_ch341_take_selected_def daemon_ch341_arm_hal_def set_before_exit_def
        set_loss_wait_def ch341_hal_def rt_hal_reset_def Let_def split_beta split: option.splits)
  thus ?thesis using assms by (simp add: rt_latch_def rt_radio_def)
qed

lemma latch_replay: "rt_latch env u \<Longrightarrow> rt_latch env (snd (op_replay env u))"
  by (auto simp: op_replay_def Let_def split_beta intro!: latch_enter latch_set)

lemma latch_defaults: "rt_latch env u \<Longrightarrow> rt_latch env (rt_set rt_defaults u)"
  by (rule latch_set) (simp add: rt_defaults_def)

lemma latch_uw:
  "rt_latch env u \<Longrightarrow> rt_latch env (u\<lparr>uw_reinit_pending := b\<rparr>)" "rt_latch env u \<Longrightarrow> rt_latch env (u\<lparr>uw_reopening := b\<rparr>)"
  "rt_latch env u \<Longrightarrow> rt_latch env (u\<lparr>uw_force_reopen := b\<rparr>)"
  "rt_latch env u \<Longrightarrow> s \<noteq> USB_WAIT_PENDING \<Longrightarrow> rt_latch env (u\<lparr>uw_state := s\<rparr>)"
  by (auto simp: rt_latch_def)

lemma latch_reinit:
  assumes l: "rt_latch env u" and h: "rt_hal (uw_world u) = NULL"
  shows "rt_latch env (usb_wait_reinit (rt_ops env) u)"
proof -
  define u1 where "u1 = rt_enter env Rt_Reinit u"
  define u2 where "u2 = rt_log Rt_Lora_Init (rt_set rt_defaults u1)"
  define u3 where "u3 = rt_set (rt_lora_init env (re_init env (rt_hist u2))) u2"
  have l1: "rt_latch env u1" unfolding u1_def by (rule latch_enter [OF l])
  have l2: "rt_latch env u2" unfolding u2_def by (rule latch_log [OF latch_defaults [OF l1]])
  have "rt_hal (uw_world u2) = NULL"
    using h by (simp add: u2_def u1_def rt_enter_def rt_loss_def rt_log_def rt_defaults_def rt_radio_def Let_def)
  hence "\<not> uw_loss_flag u2" using l2 by (simp add: rt_latch_def)
  hence l3: "rt_latch env u3" unfolding u3_def by (rule latch_init [OF l2])
  have l4: "rt_latch env (snd (op_replay env u3))" by (rule latch_replay [OF l3])
  have "rt_latch env (snd (op_reinit env u))" using l1 l3 l4
    by (auto simp: op_reinit_def u1_def [symmetric] u2_def [symmetric] u3_def [symmetric] Let_def split_beta intro!: latch_set)
  thus ?thesis
    by (auto simp: usb_wait_reinit_def rt_ops_def Let_def split_beta intro!: latch_fatal latch_ops latch_uw)
qed

section \<open>A pass keeps it\<close>

lemma enter_null [simp]: "rt_hal (uw_world u) = NULL \<Longrightarrow> rt_enter env c u = rt_log c u"
  by (simp add: rt_enter_def rt_loss_def rt_log_def Let_def)

lemma null_ops:
  assumes "rt_hal (uw_world u) = NULL"
  shows "rt_hal (uw_world (snd (op_take_arrival env u))) = NULL" "rt_hal (uw_world (snd (op_take_left env u))) = NULL"
    "rt_hal (uw_world (op_reopen_arrival env u)) = NULL" "rt_hal (uw_world (op_reopen_left env u)) = NULL"
    "rt_hal (uw_world (op_reopen_begin env b u)) = NULL" "rt_hal (uw_world (snd (op_reopen_step env u))) = NULL"
    "rt_hal (uw_world (snd (op_reopen_due env u))) = NULL"
  using assms
  by (auto simp: op_take_arrival_def op_take_left_def op_reopen_arrival_def op_reopen_left_def op_reopen_begin_def
      op_reopen_step_def op_reopen_due_def op_now_ms_def rt_log_def Let_def split_beta split: sel_result.split)

definition null_latch :: "rt_env \<Rightarrow> runtime \<Rightarrow> bool" where
  "null_latch env u \<longleftrightarrow> rt_latch env u \<and> rt_hal (uw_world u) = NULL"

lemma latch_step: "null_latch env u \<Longrightarrow> rt_latch env (usb_wait_step (rt_ops env) u)"
  using latch_ops(12) [of env u] null_ops(6) [of u env]
  by (auto simp: null_latch_def usb_wait_step_def rt_ops_def [of env, THEN arg_cong [where f = uo_reopen_step]] Let_def
      split_beta intro!: latch_reinit latch_uw)

lemma latch_reopen:
  assumes n: "null_latch env u" shows "rt_latch env (usb_wait_reopen (rt_ops env) arrival u)"
proof -
  define p where "p = (if \<not> arrival \<and> \<not> uw_force_reopen u then op_reopen_due env u else (True, u))"
  define x where "x = (op_reopen_begin env arrival ((snd p)\<lparr>uw_force_reopen := False\<rparr>))\<lparr>uw_reopening := True\<rparr>"
  have "null_latch env (snd p)" using n latch_ops(7) null_ops(7) by (simp add: p_def null_latch_def)
  hence "null_latch env x" unfolding x_def null_latch_def
    by (simp add: latch_uw latch_ops null_ops)
  hence "rt_latch env (usb_wait_step (rt_ops env) x)" by (rule latch_step)
  moreover have "usb_wait_reopen (rt_ops env) arrival u =
      (if uw_reopening u then usb_wait_step (rt_ops env) u else if \<not> fst p then snd p else usb_wait_step (rt_ops env) x)"
    by (simp add: usb_wait_reopen_def p_def x_def rt_ops_def [of env, THEN arg_cong [where f = uo_reopen_due]]
        rt_ops_def [of env, THEN arg_cong [where f = uo_reopen_begin]] split_beta Let_def)
  ultimately show ?thesis using latch_step [OF n] \<open>null_latch env (snd p)\<close> by (simp add: null_latch_def)
qed

lemma latch_pending:
  assumes l: "rt_latch env u" shows "rt_latch env (usb_wait_pending (rt_ops env) u)"
proof -
  have l1: "rt_latch env (snd (op_left_bound env u))" by (rule latch_ops [OF l])
  have l2: "rt_latch env (snd (op_now_ms env (snd (op_left_bound env u))))" by (rule latch_ops [OF l1])
  show ?thesis using l1 l2 latch_ops(3) [OF l2]
    by (simp add: usb_wait_pending_def rt_ops_def usb_wait_gone_def latch_fatal latch_uw Let_def split_beta)
qed

lemma latch_ready:
  assumes l: "rt_latch env u" and v: "usb_wait_ready (rt_ops env) u = Some v" shows "rt_latch env v"
proof (cases "uw_loss_flag u")
  case True
  have "rt_latch env (u\<lparr>uw_deadline_ms := uw_loss_ms u + DAEMON_USB_WAIT_GRACE_MS, uw_state := USB_WAIT_PENDING\<rparr>)"
    using l True by (simp add: rt_latch_def)
  from latch_pending [OF this] show ?thesis using v True by (auto simp: usb_wait_ready_def)
next
  case False
  define u1 where "u1 = snd (op_left_bound env u)"
  have l1: "rt_latch env u1" unfolding u1_def by (rule latch_ops [OF l])
  obtain b x where x: "usb_drain (op_take_arrival env) id False u1 = Some (b, x)" using taken.drain_ends by blast
  obtain c y where y: "usb_drain (op_take_left env) id False x = Some (c, y)" using left.drain_ends by blast
  have lx: "rt_latch env x" by (rule taken.drain_keeps [where P = "rt_latch env", OF _ _ x l1]) (simp_all add: latch_ops)
  have "rt_latch env y" by (rule left.drain_keeps [where P = "rt_latch env", OF _ _ y lx]) (simp_all add: latch_ops)
  thus ?thesis using v False l1 x y
    by (auto simp: usb_wait_ready_def rt_ops_def u1_def split_beta Let_def split: if_splits)
qed

lemma latch_teardown:
  assumes l: "rt_latch env u" shows "rt_latch env (usb_wait_teardown (rt_ops env) u)"
proof -
  have "rt_latch env (rt_enter env Rt_Teardown u)" by (rule latch_enter [OF l])
  thus ?thesis
    by (auto simp: usb_wait_teardown_def rt_ops_def op_teardown_try_def rt_latch_def rt_torn_down_def rt_hal_reset_def
        rt_radio_def Let_def)
qed

lemma latch_unplugged:
  assumes n: "null_latch env u" and v: "usb_wait_unplugged (rt_ops env) u = Some v" shows "rt_latch env v"
proof (cases "uw_reinit_pending u")
  case True
  thus ?thesis using v n latch_reinit by (auto simp: usb_wait_unplugged_def null_latch_def)
next
  case False
  obtain b x where x: "usb_drain (op_take_arrival env) (op_reopen_arrival env) False u = Some (b, x)"
    using noted.drain_ends by blast
  obtain c y where y: "usb_drain (op_take_left env) (op_reopen_left env) b x = Some (c, y)"
    using noted_left.drain_ends by blast
  have "null_latch env x" by (rule noted.drain_keeps [where P = "null_latch env", OF _ _ x n])
    (simp_all add: null_latch_def latch_ops null_ops)
  hence "null_latch env y" by (rule noted_left.drain_keeps [where P = "null_latch env", OF _ _ y, rotated -1])
    (simp_all add: null_latch_def latch_ops null_ops)
  moreover have "v = usb_wait_reopen (rt_ops env) c y" using v False x y by (simp add: usb_wait_unplugged_def rt_ops_def)
  ultimately show ?thesis by (simp add: latch_reopen)
qed

lemma live_null: "rt_live u \<Longrightarrow> uw_state u = USB_WAIT_UNPLUGGED \<Longrightarrow> rt_hal (uw_world u) = NULL"
  by (simp add: rt_live_def rt_shape_def Let_def)

lemma latch_tick:
  assumes live: "rt_live u" and l: "rt_latch env u" and v: "daemon_usb_wait_tick (rt_ops env) u = Some v"
  shows "rt_latch env v"
proof (cases "uw_armed u")
  case False
  thus ?thesis using v l by (simp add: daemon_usb_wait_tick_def)
next
  case True
  define u1 where "u1 = op_dispatch env u"
  have l1: "rt_latch env u1" unfolding u1_def by (rule latch_ops [OF l])
  have o: "same_own u u1" unfolding u1_def by (rule own_ops) (use live in \<open>simp add: rt_live_def\<close>)
  have "uw_state u1 = USB_WAIT_UNPLUGGED \<Longrightarrow> null_latch env u1"
    using l1 live_null [OF own_live [OF o live]] by (simp add: null_latch_def)
  moreover have ops: "uo_mon_dispatch (rt_ops env) = op_dispatch env" by (simp add: rt_ops_def)
  ultimately show ?thesis using v True latch_ready [OF l1] latch_pending [OF l1] latch_teardown [OF l1] latch_unplugged
    by (cases "uw_state u1") (auto simp: daemon_usb_wait_tick_def ops u1_def [symmetric] Let_def)
qed

lemma rt_run_latch: "rt_run env usb_serial n u \<Longrightarrow> rt_latch env u"
proof (induction rule: rt_run.induct)
  case (start w why v)
  define x where "x = rt_log Rt_Lora_Init (daemon_usb_wait_init (usb_wait_initial v))"
  have "rt_hal v = NULL" using start_chosen [OF start(1,2)] by (simp add: rt_chosen_def)
  hence "rt_latch env x" "\<not> uw_loss_flag x"
    by (simp_all add: rt_latch_def x_def rt_log_def daemon_usb_wait_init_def usb_wait_initial_def)
  from latch_init [OF this] show ?case by (simp add: rt_boot_def x_def [symmetric] Let_def)
next
  case (tick u v)
  thus ?case using latch_tick good_live [OF rt_run_good] by blast
next
  case (clients u c)
  thus ?case by (intro latch_set) simp_all
qed (rule latch_loss)

section \<open>The causes of exit 5\<close>

lemma enter_keeps:
  "rt_exit (uw_world (rt_enter env c u)) = rt_exit (uw_world u)"
  "rt_left_bound (uw_world (rt_enter env c u)) = rt_left_bound (uw_world u)"
  "uw_deadline_ms (rt_enter env c u) = uw_deadline_ms u" "uw_state (rt_enter env c u) = uw_state u"
  by (auto simp: rt_enter_def rt_loss_def rt_on_loss_def on_loss_with_def op_set_health_def op_now_ms_def rt_log_def
      rt_radio_def Let_def split: option.splits if_splits)

lemma enter_history: "suffix (rt_hist u) (rt_hist (rt_enter env c u))"
  by (auto simp: rt_enter_def rt_loss_def rt_on_loss_def on_loss_with_def op_set_health_def op_now_ms_def rt_log_def
      rt_radio_def Let_def suffix_def split: option.splits if_splits)

lemma exit_ops [simp]:
  "rt_exit (uw_world (snd (op_take_arrival env u))) = rt_exit (uw_world u)"
  "rt_exit (uw_world (snd (op_take_left env u))) = rt_exit (uw_world u)"
  "rt_exit (uw_world (op_reopen_arrival env u)) = rt_exit (uw_world u)"
  "rt_exit (uw_world (op_reopen_left env u)) = rt_exit (uw_world u)"
  "rt_exit (uw_world (op_reopen_begin env b u)) = rt_exit (uw_world u)"
  "rt_exit (uw_world (snd (op_reopen_step env u))) = rt_exit (uw_world u)"
  "rt_exit (uw_world (snd (op_reopen_due env u))) = rt_exit (uw_world u)"
  "rt_exit (uw_world (snd (op_left_bound env u))) = rt_exit (uw_world u)"
  "rt_exit (uw_world (op_dispatch env u)) = rt_exit (uw_world u)"
  by (simp_all add: op_take_arrival_def op_take_left_def op_reopen_arrival_def op_reopen_left_def op_reopen_begin_def
      op_reopen_step_def op_reopen_due_def op_left_bound_def op_dispatch_def op_now_ms_def rt_log_def Let_def split_beta
      enter_keeps split: sel_result.split)

lemma exit_reinit_op: "rt_exit (uw_world (snd (op_reinit env u))) = rt_exit (uw_world u)"
  by (auto simp: op_reinit_def op_replay_def rt_log_def rt_defaults_def rt_radio_def rt_lora_init_def rt_hal_reset_def
      daemon_ch341_take_selected_def Let_def split_beta enter_keeps)

definition reinit_failed :: string where
  "reinit_failed = ''Meshstick re-init after the replug failed''"

text \<open>
  The re-init as it went from \<open>p\<close>: the radio at its start, with a new HAL for the selected stick, and whether a step
  of the start or the replay of the configuration failed.
\<close>

definition reinit_begun :: "rt_env \<Rightarrow> runtime \<Rightarrow> runtime" where
  "reinit_begun env p = rt_log Rt_Lora_Init (rt_set rt_defaults (rt_enter env Rt_Reinit p))"

definition reinit_start_fails :: "rt_env \<Rightarrow> runtime \<Rightarrow> bool" where
  "reinit_start_fails env p \<longleftrightarrow> (let u = reinit_begun env p in
     \<not> init_succeeds (re_driver env) True (re_init env (rt_hist u))
       (hal_ctl_of (daemon_ch341_arm_hal (ch341_hal (rt_selected (uw_world u))))) (cf_radio (rt_conf (uw_world u))))"

definition reinit_replay_fails :: "rt_env \<Rightarrow> runtime \<Rightarrow> bool" where
  "reinit_replay_fails env p \<longleftrightarrow> (let u = reinit_begun env p in
     \<not> fst (op_replay env (rt_set (rt_lora_init env (re_init env (rt_hist u))) u)))"

text \<open>
  The end after a failed re-init: it was made in this pass, from a state \<open>p\<close> with a stick selected for it, and what it left
  is what the process ended with.
\<close>

definition failed_reinit :: "rt_env \<Rightarrow> runtime \<Rightarrow> runtime \<Rightarrow> bool" where
  "failed_reinit env u v \<longleftrightarrow> rt_exit (uw_world v) = Some reinit_failed \<and>
     rc_health (cf_radio (rt_conf (uw_world v))) = RADIO_HEALTH_FAILED \<and>
     (\<exists>p. suffix (rt_hist u) (rt_hist p) \<and> uw_reinit_pending p \<and> (reinit_start_fails env p \<or> reinit_replay_fails env p) \<and>
        v = op_fatal reinit_failed (op_set_health RADIO_HEALTH_FAILED ((snd (op_reinit env p))\<lparr>uw_reinit_pending := False\<rparr>)))"

lemma failed_reinit_earlier: "failed_reinit env u v \<Longrightarrow> suffix (rt_hist t) (rt_hist u) \<Longrightarrow> failed_reinit env t v"
  unfolding failed_reinit_def using suffix_order.trans by blast

lemma reinit_zero:
  assumes "op_reinit env p = (0, q)"
  shows "reinit_start_fails env p \<or> reinit_replay_fails env p"
proof (rule ccontr)
  assume n: "\<not> ?thesis"
  let ?u = "reinit_begun env p"
  let ?h = "hal_ctl_of (daemon_ch341_arm_hal (ch341_hal (rt_selected (uw_world ?u))))"
  let ?a = "re_init env (rt_hist ?u)"
  have h: "\<not> hc_startup_failed ?h"
    by (simp add: hal_ctl_of_def gpio_startup_ok_def daemon_ch341_arm_hal_def set_before_exit_def set_loss_wait_def ch341_hal_def)
  have "init_succeeds (re_driver env) True ?a ?h (cf_radio (rt_conf (uw_world ?u)))"
    using n by (simp add: reinit_start_fails_def Let_def)
  from lora_init_ready [OF this h]
  have "radio_controller_ready (cf_radio (rt_conf (uw_world (rt_set (rt_lora_init env ?a) ?u))))"
    by (simp add: rt_set_def rt_lora_init_def daemon_ch341_take_selected_def rt_radio_def radio_controller_ready_def
        radio_health_is_ready_def Let_def)
  with assms n show False
    by (auto simp: op_reinit_def reinit_begun_def [symmetric] reinit_replay_fails_def Let_def split_beta split: if_splits)
qed

lemma exit_reinit:
  assumes "uw_reinit_pending u"
  shows "rt_exit (uw_world (usb_wait_reinit (rt_ops env) u)) = rt_exit (uw_world u) \<or>
    failed_reinit env u (usb_wait_reinit (rt_ops env) u)"
proof -
  obtain ri q where q: "op_reinit env u = (ri, q)" by force
  let ?v = "op_fatal reinit_failed (op_set_health RADIO_HEALTH_FAILED (q\<lparr>uw_reinit_pending := False\<rparr>))"
  have ri: "ri = -1 \<or> ri = 0 \<or> ri = 1"
    using q by (auto simp: op_reinit_def Let_def split: if_splits prod.splits)
  have "rt_exit (uw_world ?v) = Some reinit_failed \<and> rc_health (cf_radio (rt_conf (uw_world ?v))) = RADIO_HEALTH_FAILED"
    by (simp add: op_fatal_def op_set_health_def rt_set_def rt_radio_def rt_hal_reset_def rt_close_selected_def split: option.split)
  then have "failed_reinit env u ?v" if "ri = 0"
    unfolding failed_reinit_def using reinit_zero [of env u q] q that assms by (auto intro!: exI [of _ u])
  then show ?thesis
    using exit_reinit_op [of env u] q ri
    by (auto simp: usb_wait_reinit_def rt_ops_def reinit_failed_def [symmetric] Let_def)
qed

text \<open>Every operation of a pass only adds to the history.\<close>

lemma ops_history:
  "suffix (rt_hist u) (rt_hist (op_dispatch env u))" "suffix (rt_hist u) (rt_hist (snd (op_take_arrival env u)))"
  "suffix (rt_hist u) (rt_hist (snd (op_take_left env u)))" "suffix (rt_hist u) (rt_hist (op_reopen_arrival env u))"
  "suffix (rt_hist u) (rt_hist (op_reopen_left env u))" "suffix (rt_hist u) (rt_hist (op_reopen_begin env b u))"
  "suffix (rt_hist u) (rt_hist (snd (op_reopen_step env u)))" "suffix (rt_hist u) (rt_hist (snd (op_reopen_due env u)))"
  using enter_history [of u env]
  by (auto simp: op_dispatch_def op_take_arrival_def op_take_left_def op_reopen_arrival_def op_reopen_left_def
      op_reopen_begin_def op_reopen_step_def op_reopen_due_def op_now_ms_def rt_log_def suffix_Cons Let_def split_beta
      split: sel_result.split)

lemma exit_step:
  "rt_exit (uw_world (usb_wait_step (rt_ops env) u)) = rt_exit (uw_world u) \<or> failed_reinit env u (usb_wait_step (rt_ops env) u)"
proof -
  define x where "x = snd (op_reopen_step env u)"
  let ?p = "x\<lparr>uw_reopening := False, uw_reinit_pending := True\<rparr>"
  have e: "usb_wait_step (rt_ops env) u \<in> {x, x\<lparr>uw_reopening := False\<rparr>, usb_wait_reinit (rt_ops env) ?p}"
    by (simp add: usb_wait_step_def rt_ops_def [of env, THEN arg_cong [where f = uo_reopen_step]] x_def Let_def split_beta)
  have h: "suffix (rt_hist u) (rt_hist ?p)" "rt_exit (uw_world x) = rt_exit (uw_world u)"
    using ops_history(7) [of u env] by (simp_all add: x_def)
  show ?thesis
    using e h exit_reinit [of ?p env] failed_reinit_earlier [OF _ h(1)] by auto
qed

lemma exit_reopen:
  "rt_exit (uw_world (usb_wait_reopen (rt_ops env) b u)) = rt_exit (uw_world u) \<or>
   failed_reinit env u (usb_wait_reopen (rt_ops env) b u)"
proof -
  define p where "p = (if \<not> b \<and> \<not> uw_force_reopen u then op_reopen_due env u else (True, u))"
  define x where "x = (op_reopen_begin env b ((snd p)\<lparr>uw_force_reopen := False\<rparr>))\<lparr>uw_reopening := True\<rparr>"
  have p: "rt_exit (uw_world (snd p)) = rt_exit (uw_world u)" "suffix (rt_hist u) (rt_hist (snd p))"
    using ops_history(8) [of u env] by (simp_all add: p_def)
  hence "rt_exit (uw_world x) = rt_exit (uw_world u)" by (simp add: x_def)
  moreover have "suffix (rt_hist u) (rt_hist x)"
    using suffix_order.trans [OF p(2)] ops_history(6) [of "(snd p)\<lparr>uw_force_reopen := False\<rparr>" env b] by (simp add: x_def)
  moreover have "usb_wait_reopen (rt_ops env) b u =
      (if uw_reopening u then usb_wait_step (rt_ops env) u else if \<not> fst p then snd p else usb_wait_step (rt_ops env) x)"
    by (simp add: usb_wait_reopen_def p_def x_def rt_ops_def [of env, THEN arg_cong [where f = uo_reopen_due]]
        rt_ops_def [of env, THEN arg_cong [where f = uo_reopen_begin]] split_beta Let_def)
  ultimately show ?thesis
    using exit_step [of env u] exit_step [of env x] p(1) failed_reinit_earlier [of env x _ u] by auto
qed

lemma exit_unplugged:
  assumes v: "usb_wait_unplugged (rt_ops env) u = Some v" and n: "rt_exit (uw_world u) = NULL"
  shows "rt_exit (uw_world v) = NULL \<or> failed_reinit env u v"
proof (cases "uw_reinit_pending u")
  case True
  thus ?thesis using v n exit_reinit [of u env] by (auto simp: usb_wait_unplugged_def)
next
  case False
  let ?P = "\<lambda>x. rt_exit (uw_world x) = NULL \<and> suffix (rt_hist u) (rt_hist x)"
  have keep: "suffix (rt_hist u) (rt_hist x) \<Longrightarrow> suffix (rt_hist x) (rt_hist y) \<Longrightarrow> suffix (rt_hist u) (rt_hist y)" for x y
    by (rule suffix_order.trans)
  obtain b x where x: "usb_drain (op_take_arrival env) (op_reopen_arrival env) False u = Some (b, x)"
    using noted.drain_ends by blast
  obtain c y where y: "usb_drain (op_take_left env) (op_reopen_left env) b x = Some (c, y)"
    using noted_left.drain_ends by blast
  have nx: "?P x"
    by (rule noted.drain_keeps [where P = ?P, OF _ _ x]) (use n ops_history keep in auto)
  have "?P y"
    by (rule noted_left.drain_keeps [where P = ?P, OF _ _ y nx]) (use ops_history keep in auto)
  moreover have "v = usb_wait_reopen (rt_ops env) c y" using v False x y by (simp add: usb_wait_unplugged_def rt_ops_def)
  ultimately show ?thesis using exit_reopen [of env c y] failed_reinit_earlier [of env y v u] by auto
qed

text \<open>
  An I/O error with the stick still there, after the grace period: a transfer of the HAL failed, which latched its loss, and
  the clock of the loss handler was read then.
\<close>

definition unexplained_loss :: "rt_env \<Rightarrow> runtime \<Rightarrow> bool" where
  "unexplained_loss env v \<longleftrightarrow> (let w = uw_world v; present = re_present env (rt_calls w) in
     uw_loss_flag v \<and> (\<exists>h. rt_hal w = Some h \<and> ha_lost h) \<and> present \<noteq> 0 \<and> rt_left_bound w \<noteq> 1 \<and>
     rt_exit w = Some (if present < 0 then ''Meshstick loss: the USB device list could not be read''
       else ''USB I/O error with the Meshstick present'') \<and>
     (\<exists>lost later. suffix lost later \<and> suffix later (rt_calls w) \<and> uw_loss_ms v = re_now env lost \<and>
        re_now env lost + 500 \<le> re_now env later))"

lemma exit_pending:
  assumes l: "rt_latch env u" and st: "uw_state u = USB_WAIT_PENDING" and n: "rt_exit (uw_world u) = NULL"
    and e: "rt_exit (uw_world (usb_wait_pending (rt_ops env) u)) \<noteq> NULL"
  shows "unexplained_loss env (usb_wait_pending (rt_ops env) u)"
proof -
  define v where "v = usb_wait_pending (rt_ops env) u"
  define u1 where "u1 = rt_enter env Rt_Left_Bound u"
  define u2 where "u2 = rt_log Rt_Now u1"
  define u3 where "u3 = rt_enter env Rt_Present u2"
  let ?p = "re_present env (rt_hist u3)"
  have v: "v = (if rt_left_bound (uw_world u1) = 1 then usb_wait_gone u1
      else if re_now env (rt_hist u1) < uw_deadline_ms u2 then u2
      else if ?p = 0 then usb_wait_gone u3
      else op_fatal (if ?p < 0 then ''Meshstick loss: the USB device list could not be read''
        else ''USB I/O error with the Meshstick present'') u3)"
    by (simp add: v_def usb_wait_pending_def rt_ops_def u1_def u2_def u3_def op_left_bound_def op_now_ms_def
        op_present_bound_def Let_def split_beta)
  have ex: "rt_exit (uw_world u1) = NULL" "rt_exit (uw_world u2) = NULL" "rt_exit (uw_world u3) = NULL"
    using n by (simp_all add: u1_def u2_def u3_def enter_keeps rt_log_def)
  have c: "rt_left_bound (uw_world u1) \<noteq> 1" "uw_deadline_ms u2 \<le> re_now env (rt_hist u1)" "?p \<noteq> 0"
    using e ex unfolding v_def [symmetric] v by (auto simp: usb_wait_gone_def split: if_splits)
  have vf: "v = op_fatal (if ?p < 0 then ''Meshstick loss: the USB device list could not be read''
      else ''USB I/O error with the Meshstick present'') u3" using v c by simp
  have f: "rt_hist v = rt_hist u3" "rt_left_bound (uw_world v) = rt_left_bound (uw_world u3)"
    "rt_exit (uw_world v) = Some (if ?p < 0 then ''Meshstick loss: the USB device list could not be read''
      else ''USB I/O error with the Meshstick present'')" "uw_deadline_ms v = uw_deadline_ms u3" "uw_state v = uw_state u3"
    unfolding vf by (auto simp: op_fatal_def rt_hal_reset_def rt_close_selected_def split: option.split)
  have k: "rt_left_bound (uw_world u3) = rt_left_bound (uw_world u1)" "uw_deadline_ms u3 = uw_deadline_ms u"
    "uw_deadline_ms u2 = uw_deadline_ms u" "uw_state u3 = USB_WAIT_PENDING"
    using st by (simp_all add: u1_def u2_def u3_def enter_keeps rt_log_def)
  have lv: "rt_latch env v" unfolding v_def by (rule latch_pending [OF l])
  hence lost: "uw_loss_flag v \<and> (\<exists>h. rt_hal (uw_world v) = Some h \<and> ha_lost h)"
    using f(5) k(4) by (cases "rt_hal (uw_world v)") (auto simp: rt_latch_def)
  from lv have dv: "uw_deadline_ms v = uw_loss_ms v + 500" using f k by (simp add: rt_latch_def DAEMON_USB_WAIT_GRACE_MS_def)
  obtain h where h: "suffix h (rt_hist u)" "uw_loss_ms u = re_now env h"
    and du: "uw_deadline_ms u = uw_loss_ms u + 500"
    using l st by (auto simp: rt_latch_def DAEMON_USB_WAIT_GRACE_MS_def suffix_def)
  have s1: "suffix h (rt_hist u1)" using h(1) enter_history [of u env Rt_Left_Bound] suffix_order.trans
    unfolding u1_def by blast
  have s3: "suffix (rt_hist u1) (rt_hist u3)"
    using suffix_order.trans [of "rt_hist u1" "rt_hist u2"] enter_history [of u2 env Rt_Present]
    unfolding u3_def by (simp add: u2_def rt_log_def suffix_ConsI)
  have ms: "uw_loss_ms v = re_now env h" using dv du h(2) f k by simp
  have "re_now env h + 500 \<le> re_now env (rt_hist u1)" using c(2) k du h(2) by simp
  hence "\<exists>lost later. suffix lost later \<and> suffix later (rt_hist v) \<and> uw_loss_ms v = re_now env lost \<and>
      re_now env lost + 500 \<le> re_now env later"
    using s1 s3 ms f(1) by auto
  thus ?thesis using c k f lost unfolding v_def [symmetric] by (simp add: unexplained_loss_def Let_def)
qed

lemma exit_ready:
  assumes l: "rt_latch env u" and st: "uw_state u = USB_WAIT_READY" and n: "rt_exit (uw_world u) = NULL"
    and v: "usb_wait_ready (rt_ops env) u = Some v" and e: "rt_exit (uw_world v) \<noteq> NULL"
  shows "unexplained_loss env v"
proof (cases "uw_loss_flag u")
  case True
  let ?u = "u\<lparr>uw_deadline_ms := uw_loss_ms u + DAEMON_USB_WAIT_GRACE_MS, uw_state := USB_WAIT_PENDING\<rparr>"
  have "v = usb_wait_pending (rt_ops env) ?u" using v True by (auto simp: usb_wait_ready_def)
  thus ?thesis using exit_pending [of env ?u] l True n e by (simp add: rt_latch_def)
next
  case False
  let ?P = "\<lambda>u. rt_exit (uw_world u) = NULL"
  define u1 where "u1 = snd (op_left_bound env u)"
  have n1: "?P u1" using n by (simp add: u1_def)
  obtain b x where x: "usb_drain (op_take_arrival env) id False u1 = Some (b, x)" using taken.drain_ends by blast
  obtain c y where y: "usb_drain (op_take_left env) id False x = Some (c, y)" using left.drain_ends by blast
  have nx: "?P x" by (rule taken.drain_keeps [where P = ?P, OF _ _ x n1]) simp_all
  have "?P y" by (rule left.drain_keeps [where P = ?P, OF _ _ y nx]) simp_all
  thus ?thesis using v False n1 x y e
    by (auto simp: usb_wait_ready_def rt_ops_def u1_def split_beta Let_def split: if_splits)
qed

lemma exit_teardown: "rt_exit (uw_world (usb_wait_teardown (rt_ops env) u)) = rt_exit (uw_world u)"
  by (simp add: usb_wait_teardown_def rt_ops_def op_teardown_try_def rt_torn_down_def rt_hal_reset_def rt_radio_def
      enter_keeps Let_def)

text \<open>
  C13: In every run, a pass that ends the process with exit 5 has one of two causes. Either the stick came back but its re-init,
  made in this pass, failed: a step of the start (the pins, the bus, \<open>begin()\<close>, the interrupt, the reception, a HAL call in
  one of them) or the replay of the configuration; the radio is then published as FAILED. Or a transfer failed and latched the
  HAL's loss, no departure of the stick was seen in the 500 ms after the first failure, and the check after it found the
  stick still present or could not read the device list. A loss whose stick is found gone never ends it, nor does a re-init that
  succeeded.
\<close>

theorem exit_five_has_a_cause:
  assumes "rt_run env usb_serial n u" "rt_exit (uw_world u) = NULL"
    "daemon_usb_wait_tick (rt_ops env) u = Some v" "rt_exit (uw_world v) \<noteq> NULL"
  shows "failed_reinit env u v \<or> unexplained_loss env v"
proof -
  define u1 where "u1 = op_dispatch env u"
  have l: "rt_latch env u1" unfolding u1_def by (rule latch_ops [OF rt_run_latch [OF assms(1)]])
  have n: "rt_exit (uw_world u1) = NULL" using assms(2) by (simp add: u1_def)
  have a: "uw_armed u" using rt_run_latch [OF assms(1)] by (simp add: rt_latch_def)
  have ops: "uo_mon_dispatch (rt_ops env) = op_dispatch env" by (simp add: rt_ops_def)
  show ?thesis
    using assms(3,4) a n exit_ready [OF l _ n] exit_pending [OF l _ n] exit_teardown [of env u1] exit_unplugged [OF _ n, of env v]
      failed_reinit_earlier [of env u1 v u] ops_history(1) [of u env]
    by (cases "uw_state u1") (auto simp: daemon_usb_wait_tick_def ops u1_def [symmetric] Let_def)
qed

section \<open>A sample life\<close>

text \<open>One stick with a serial; it never leaves, and every look at the clock is a second later.\<close>

definition sample_ops :: sel_ops where
  "sample_ops = sticks_ops 1"

definition sample_env :: rt_env where
  "sample_env = \<lparr>re_now = \<lambda>h. 1000 * length h, re_events = \<lambda>_. (0, 0, 0), re_present = \<lambda>_. 1, re_lock = \<lambda>_. True,
     re_loss = \<lambda>_. False,
     re_init = \<lambda>_. \<lparr>ia_gpio_locks = 0, ia_led_ready = False, ia_begin = 0, ia_begin_fails = False, ia_action_fails = False,
       ia_start_fails = False\<rparr>,
     re_sel = sample_ops, re_driver = quiet_driver, re_config = env_433\<rparr>"

definition sample_rt :: rt where
  "sample_rt = \<lparr>rt_conf = fresh_state, rt_replay_cmd = [], rt_hal = NULL, rt_selected = NULL, rt_sel = sel_initial,
     rt_arrivals = 0, rt_lefts = 0, rt_left_bound = 0, rt_mon = True, rt_closed = [], rt_exit = NULL, rt_calls = []\<rparr>"

abbreviation sample_step :: "sel \<Rightarrow> step_answer" where
  "sample_step s \<equiv> daemon_ch341_select_step sample_ops 240 (sel_take_events sample_ops s)"

definition sample_sel :: "nat \<Rightarrow> sel" where
  "sample_sel j = ((\<lambda>s. snd (snd (snd (sample_step s)))) ^^ j)
     (daemon_ch341_select_begin True (daemon_ch341_select_init NULL sel_initial))"

lemma sample_sel_Suc: "snd (snd (snd (sample_step (sample_sel j)))) = sample_sel (Suc j)"
  by (simp add: sample_sel_def)

lemma sample_steps:
  "fst (sample_step (sample_sel 0)) = CH341_SEL_PENDING" "fst (sample_step (sample_sel 1)) = CH341_SEL_PENDING"
  "fst (sample_step (sample_sel 2)) = CH341_SEL_PENDING" "fst (sample_step (sample_sel 3)) = CH341_SEL_OPENED"
  "fst (snd (sample_step (sample_sel 3))) = Some 0"
  by code_simp+

definition sample_chosen :: rt where
  "sample_chosen = rt_radio (\<lambda>r. r\<lparr>rc_bound := snprintf_text 48 (daemon_ch341_select_bound (sample_sel 4))\<rparr>)
     (sample_rt\<lparr>rt_sel := sample_sel 4, rt_selected := Some 0\<rparr>)"

lemma sample_pending:
  "fst (sample_step (sample_sel j)) = CH341_SEL_PENDING \<Longrightarrow>
   select_at_start_loop sample_env 240 (sample_rt\<lparr>rt_sel := sample_sel j\<rparr>) =
   select_at_start_loop sample_env 240 (sample_rt\<lparr>rt_sel := sample_sel (Suc j)\<rparr>)"
  by (subst select_at_start_loop.simps) (simp add: split_beta Let_def sample_env_def sample_sel_Suc)

lemma sample_start: "daemon_ch341_select_at_start sample_env NULL 240 sample_rt = Some (True, NULL, sample_chosen)"
proof -
  have "select_at_start_loop sample_env 240 (sample_rt\<lparr>rt_sel := sample_sel 0\<rparr>) =
      select_at_start_loop sample_env 240 (sample_rt\<lparr>rt_sel := sample_sel 3\<rparr>)"
    using sample_pending [OF sample_steps(1)] sample_pending [of 1] sample_pending [of 2] sample_steps
    by (simp add: numeral_eq_Suc)
  also have "\<dots> = Some (True, NULL, sample_chosen)"
    using sample_steps(4,5) sample_sel_Suc [of 3]
    by (subst select_at_start_loop.simps) (simp add: split_beta Let_def sample_env_def sample_chosen_def)
  finally show ?thesis
    by (simp add: daemon_ch341_select_at_start_def sample_rt_def sample_sel_def)
qed

definition sample_hal :: hal_usb where
  "sample_hal = daemon_ch341_arm_hal (ch341_hal (Some 0))"

lemma sample_init:
  "\<exists>r. rt_lora_init sample_env (re_init sample_env h) (w\<lparr>rt_selected := Some 0, rt_hal := NULL\<rparr>) =
     rt_radio (\<lambda>_. r) (w\<lparr>rt_selected := NULL, rt_hal := Some (sample_hal\<lparr>ha_operational := True\<rparr>)\<rparr>) \<and>
     radio_controller_ready r"
proof -
  let ?a = "re_init sample_env h" and ?h = "hal_ctl_of sample_hal" and ?r = "cf_radio (rt_conf w)"
  have h: "?h = \<lparr>hc_lock_ready = True, hc_startup_failed = False, hc_operational = False\<rparr>"
    by (simp add: sample_hal_def hal_ctl_of_def daemon_ch341_arm_hal_def set_before_exit_def set_loss_wait_def
        ch341_hal_def spi_lock_ready_def gpio_startup_ok_def)
  have ok: "init_succeeds quiet_driver True ?a ?h ?r"
    by (simp add: init_succeeds_def quiet_driver_def sample_env_def h RADIOLIB_ERR_NONE_def)
  obtain r where l: "lora_init quiet_driver True ?a ?h ?r = (r, Some (?h\<lparr>hc_operational := True\<rparr>), False)"
      "rc_health r = RADIO_HEALTH_READY" "rc_driver r"
    using lora_init_ready [OF ok] by (simp add: h drv_def Let_def)
  moreover have "sample_hal\<lparr>ha_startup_failed := False, ha_operational := True\<rparr> = sample_hal\<lparr>ha_operational := True\<rparr>"
    by (simp add: sample_hal_def daemon_ch341_arm_hal_def set_before_exit_def set_loss_wait_def ch341_hal_def)
  ultimately show ?thesis
    by (intro exI [of _ r]) (simp add: rt_lora_init_def daemon_ch341_take_selected_def sample_hal_def [symmetric] rt_hal_reset_def
        h sample_env_def radio_controller_ready_def radio_health_is_ready_def)
qed

text \<open>The boot, a failed transfer, and the pass after it: an error with the stick present.\<close>

definition sample_boot :: runtime where
  "sample_boot = rt_boot sample_env sample_chosen"

lemma sample_boot_eq:
  "\<exists>r. radio_controller_ready r \<and> sample_boot = (daemon_usb_wait_init (usb_wait_initial
     (rt_radio (\<lambda>_. r) (sample_chosen\<lparr>rt_selected := NULL, rt_hal := Some (sample_hal\<lparr>ha_operational := True\<rparr>),
        rt_calls := [Rt_Lora_Init]\<rparr>))))"
proof -
  define w where "w = sample_chosen\<lparr>rt_calls := [Rt_Lora_Init]\<rparr>"
  have "w\<lparr>rt_selected := Some 0, rt_hal := NULL\<rparr> = w"
    by (simp add: w_def sample_chosen_def rt_radio_def sample_rt_def)
  then obtain r where "rt_lora_init sample_env (re_init sample_env [Rt_Lora_Init]) w =
      rt_radio (\<lambda>_. r) (w\<lparr>rt_selected := NULL, rt_hal := Some (sample_hal\<lparr>ha_operational := True\<rparr>)\<rparr>)"
      "radio_controller_ready r" using sample_init [of "[Rt_Lora_Init]" w] by auto
  thus ?thesis
    by (intro exI [of _ r])
      (simp add: sample_boot_def rt_boot_def rt_log_def daemon_usb_wait_init_def usb_wait_initial_def w_def
        sample_chosen_def rt_radio_def sample_rt_def Let_def)
qed

lemma sample_boot_world:
  "rt_exit (uw_world sample_boot) = NULL" "rt_selected (uw_world sample_boot) = NULL" "rt_closed (uw_world sample_boot) = []"
  "rt_hal (uw_world sample_boot) = Some (sample_hal\<lparr>ha_operational := True\<rparr>)" "rt_sel (uw_world sample_boot) = sample_sel 4"
proof -
  obtain r where r: "sample_boot = (daemon_usb_wait_init (usb_wait_initial
     (rt_radio (\<lambda>_. r) (sample_chosen\<lparr>rt_selected := NULL, rt_hal := Some (sample_hal\<lparr>ha_operational := True\<rparr>),
        rt_calls := [Rt_Lora_Init]\<rparr>))))" using sample_boot_eq by blast
  show "rt_exit (uw_world sample_boot) = NULL" "rt_selected (uw_world sample_boot) = NULL"
    "rt_closed (uw_world sample_boot) = []" "rt_hal (uw_world sample_boot) = Some (sample_hal\<lparr>ha_operational := True\<rparr>)"
    "rt_sel (uw_world sample_boot) = sample_sel 4"
    by (simp_all add: r daemon_usb_wait_init_def usb_wait_initial_def rt_radio_def sample_chosen_def sample_rt_def)
qed

lemma sample_run: "rt_run sample_env NULL 240 sample_boot"
proof -
  obtain r where r: "radio_controller_ready r" "sample_boot = (daemon_usb_wait_init (usb_wait_initial
     (rt_radio (\<lambda>_. r) (sample_chosen\<lparr>rt_selected := NULL, rt_hal := Some (sample_hal\<lparr>ha_operational := True\<rparr>),
        rt_calls := [Rt_Lora_Init]\<rparr>))))" using sample_boot_eq by blast
  have "radio_controller_ready (cf_radio (rt_conf (uw_world sample_boot)))"
    using r(1) by (simp add: r(2) daemon_usb_wait_init_def usb_wait_initial_def rt_radio_def)
  thus ?thesis unfolding sample_boot_def
    by (intro rt_run.start [OF _ sample_start]) (simp_all add: rt_fresh_def sample_rt_def)
qed

lemma sample_exit:
  "\<exists>v. daemon_usb_wait_tick (rt_ops sample_env) (rt_loss sample_env sample_boot) = Some v \<and>
     rt_exit (uw_world v) = Some ''USB I/O error with the Meshstick present'' \<and>
     rt_exit (uw_world (rt_loss sample_env sample_boot)) = NULL"
proof -
  have env: "re_now sample_env h = 1000 * length h" "re_events sample_env h = (0, 0, 0)" "re_present sample_env h = 1"
    "re_loss sample_env h = False" for h by (simp_all add: sample_env_def)
  obtain r where r: "radio_controller_ready r" "sample_boot = (daemon_usb_wait_init (usb_wait_initial
     (rt_radio (\<lambda>_. r) (sample_chosen\<lparr>rt_selected := NULL, rt_hal := Some (sample_hal\<lparr>ha_operational := True\<rparr>),
        rt_calls := [Rt_Lora_Init]\<rparr>))))" using sample_boot_eq by blast
  have hal: "ha_operational (sample_hal\<lparr>ha_operational := True\<rparr>)" "ha_on_loss sample_hal" "\<not> ha_lost sample_hal"
    by (simp_all add: sample_hal_def daemon_ch341_arm_hal_def set_before_exit_def set_loss_wait_def ch341_hal_def)
  define u where "u = rt_loss sample_env sample_boot"
  have u: "uw_armed u" "uw_loss_flag u" "uw_loss_ms u = 1000" "uw_state u = USB_WAIT_READY"
    "rt_exit (uw_world u) = NULL" "rt_hist u = [Rt_Now, Rt_Lora_Init]" "rt_hal (uw_world u) \<noteq> NULL"
    using hal by (simp_all add: u_def r(2) rt_loss_def rt_on_loss_def on_loss_with_def failure_def op_set_health_def
        op_now_ms_def rt_log_def rt_radio_def daemon_usb_wait_init_def usb_wait_initial_def env sample_chosen_def
        sample_rt_def Let_def)
  show ?thesis unfolding u_def [symmetric] using u
    by (simp add: daemon_usb_wait_tick_def rt_ops_def op_dispatch_def rt_enter_def usb_wait_ready_def usb_wait_pending_def
        op_left_bound_def op_now_ms_def op_present_bound_def op_fatal_def rt_log_def env Let_def
        DAEMON_USB_WAIT_GRACE_MS_def split: option.splits)
qed

theorem exit_five_has_a_cause_witness:
  "\<exists>v. daemon_usb_wait_tick (rt_ops sample_env) (rt_loss sample_env sample_boot) = Some v \<and> unexplained_loss sample_env v"
proof -
  obtain v where v: "daemon_usb_wait_tick (rt_ops sample_env) (rt_loss sample_env sample_boot) = Some v"
      "rt_exit (uw_world v) = Some ''USB I/O error with the Meshstick present''"
      "rt_exit (uw_world (rt_loss sample_env sample_boot)) = NULL" using sample_exit by blast
  from rt_run.loss [OF sample_run sample_boot_world(1)] have "failed_reinit sample_env (rt_loss sample_env sample_boot) v \<or> unexplained_loss sample_env v"
    by (rule exit_five_has_a_cause [OF _ v(3,1)]) (simp add: v(2))
  thus ?thesis using v by (auto simp: failed_reinit_def reinit_failed_def)
qed

theorem every_stick_has_one_owner_witness:
  "open_sticks (sl_calls (rt_sel (uw_world sample_boot))) = {#0#}"
proof -
  have "hal_stick (uw_world sample_boot) = {#0#}"
    by (simp add: sample_boot_world hal_stick_def sample_hal_def daemon_ch341_arm_hal_def set_before_exit_def
        set_loss_wait_def ch341_hal_def)
  moreover have "sl_held (sample_sel 4) = []" by code_simp
  ultimately show ?thesis using every_stick_has_one_owner [OF sample_run] by (simp add: Let_def sample_boot_world)
qed

end
