(* ===== verification/Ch341_Monitor.thy ===== *)
theory Ch341_Monitor
  imports Ch341_Select "HOL-Library.Multiset"
begin

text \<open>
  The monitor of the Meshstick library, \<open>ch341_monitor.c\<close>: the queue of hotplug events, the bound
  connection, the scan and the reading of a serial.

  libusb is not part of the repository. A libusb device object is a number; what libusb answers
  (device lists, the events of a dispatch, the results of an open or of a control transfer, the
  clock) is an argument of the operation that asks. \<open>mn_refs\<close> counts the references the monitor
  holds on device objects, as \<open>libusb_ref_device\<close> and \<open>libusb_unref_device\<close> change them; a device
  list references each of its entries until it is freed. Log lines are left out.
\<close>

section \<open>State\<close>

type_synonym usb_dev = nat

record usb_desc =
  ds_vendor :: u16
  ds_product :: u16
  ds_serial_index :: u8

text \<open>What libusb knows about a device object; it never changes. \<open>ub_ports\<close> is None on an error.\<close>

record usb_bus =
  ub_bus :: "usb_dev \<Rightarrow> u8"
  ub_address :: "usb_dev \<Rightarrow> u8"
  ub_ports :: "usb_dev \<Rightarrow> u8 list option"
  ub_desc :: "usb_dev \<Rightarrow> usb_desc option"

record mon_event =
  ev_left :: bool
  ev_dev :: usb_dev

record mon =
  mn_vid :: u16
  mn_pid :: u16
  mn_queue :: "mon_event list"
  mn_overflow :: bool
  mn_bound :: "usb_dev ptr"
  mn_left_bound :: int
  mn_arrivals :: int
  mn_lefts :: int
  mn_fd_generation :: u32
  mn_scan_list :: "usb_dev list ptr"
  mn_scan_devs :: "usb_dev list"
  mn_known :: "(usb_dev \<times> u32) list"
  mn_cap_known :: nat
  mn_next_cookie :: u32
  mn_refs :: "usb_dev multiset"

definition MON_QUEUE :: nat where [c_consts]: "MON_QUEUE = 32"
definition SCAN_BUDGET_MS :: nat where [c_consts]: "SCAN_BUDGET_MS = 200"

text \<open>A new monitor, zeroed by \<open>calloc\<close>. The conditions are the results of the calls that can fail.\<close>

definition loraham_ch341_mon_open :: "bool \<Rightarrow> bool \<Rightarrow> int \<Rightarrow> bool \<Rightarrow> int \<Rightarrow> u16 \<Rightarrow> u16 \<Rightarrow> mon ptr" where
  "loraham_ch341_mon_open has_hotplug allocated init_result handles_timeouts register_result vid pid =
     (if \<not> has_hotplug then NULL
      else if \<not> allocated then NULL
      else if init_result \<noteq> 0 then NULL
      else if \<not> handles_timeouts \<or> register_result \<noteq> 0 then NULL
      else Some \<lparr>mn_vid = vid, mn_pid = pid, mn_queue = [], mn_overflow = False, mn_bound = NULL,
        mn_left_bound = 0, mn_arrivals = 0, mn_lefts = 0, mn_fd_generation = 0, mn_scan_list = NULL,
        mn_scan_devs = [], mn_known = [], mn_cap_known = 0, mn_next_cookie = 0, mn_refs = {#}\<rparr>)"

section \<open>Events\<close>

definition mon_ref :: "usb_dev \<Rightarrow> mon \<Rightarrow> mon" where
  "mon_ref d m = m\<lparr>mn_refs := add_mset d (mn_refs m)\<rparr>"

definition mon_unref :: "usb_dev \<Rightarrow> mon \<Rightarrow> mon" where
  "mon_unref d m = m\<lparr>mn_refs := mn_refs m - {#d#}\<rparr>"

definition mon_hotplug_cb :: "mon_event \<Rightarrow> mon \<Rightarrow> mon" where
  "mon_hotplug_cb e m =
     (if MON_QUEUE \<le> length (mn_queue m) then m\<lparr>mn_overflow := True\<rparr>
      else mon_ref (ev_dev e) (m\<lparr>mn_queue := mn_queue m @ [e]\<rparr>))"

definition mon_fd_added :: "mon \<Rightarrow> mon" where
  "mon_fd_added m = m\<lparr>mn_fd_generation := mn_fd_generation m + 1\<rparr>"

definition mon_fd_removed :: "mon \<Rightarrow> mon" where
  "mon_fd_removed m = m\<lparr>mn_fd_generation := mn_fd_generation m + 1\<rparr>"

definition mon_drop_queue :: "mon \<Rightarrow> mon" where
  "mon_drop_queue m = (foldl (\<lambda>m e. mon_unref (ev_dev e) m) m (mn_queue m))\<lparr>mn_queue := []\<rparr>"

definition dispatch_event :: "mon \<Rightarrow> mon_event \<Rightarrow> mon" where
  "dispatch_event m e =
     (if ev_left e then
        (if mn_bound m = Some (ev_dev e) then m\<lparr>mn_left_bound := 1\<rparr> else m\<lparr>mn_lefts := mn_lefts m + 1\<rparr>)
      else m\<lparr>mn_arrivals := mn_arrivals m + 1\<rparr>)"

text \<open>\<open>evs\<close>: the events for which libusb runs the callback while it handles events.\<close>

definition loraham_ch341_mon_dispatch :: "mon_event list \<Rightarrow> mon \<Rightarrow> mon" where
  "loraham_ch341_mon_dispatch evs m =
     (let m1 = foldl (\<lambda>m e. mon_hotplug_cb e m) m evs;
          m2 = mon_drop_queue (foldl dispatch_event m1 (mn_queue m1))
      in if mn_overflow m2 then
           m2\<lparr>mn_overflow := False, mn_arrivals := mn_arrivals m2 + 1,
              mn_left_bound := (if mn_bound m2 \<noteq> NULL \<and> mn_left_bound m2 = 0 then 2 else mn_left_bound m2)\<rparr>
         else m2)"

definition loraham_ch341_mon_left_bound :: "mon \<Rightarrow> int" where
  "loraham_ch341_mon_left_bound m = mn_left_bound m"

definition loraham_ch341_mon_take_arrival :: "mon \<Rightarrow> bool \<times> mon" where
  "loraham_ch341_mon_take_arrival m =
     (if mn_arrivals m \<le> 0 then (False, m) else (True, m\<lparr>mn_arrivals := mn_arrivals m - 1\<rparr>))"

definition loraham_ch341_mon_take_left :: "mon \<Rightarrow> bool \<times> mon" where
  "loraham_ch341_mon_take_left m =
     (if mn_lefts m \<le> 0 then (False, m) else (True, m\<lparr>mn_lefts := mn_lefts m - 1\<rparr>))"

text \<open>The file descriptors of the context (None: libusb could not tell them), at most \<open>max_n\<close>.\<close>

definition loraham_ch341_mon_fds :: "(int \<times> int) list ptr \<Rightarrow> nat \<Rightarrow> (int \<times> int) list ptr" where
  "loraham_ch341_mon_fds fds max_n =
     (case fds of None \<Rightarrow> NULL | Some l \<Rightarrow> if max_n < length l then NULL else Some l)"

section \<open>The bound connection\<close>

definition same_location :: "usb_bus \<Rightarrow> usb_dev \<Rightarrow> usb_dev \<Rightarrow> bool" where
  "same_location bus a b =
     (if ub_bus bus a \<noteq> ub_bus bus b \<or> ub_address bus a \<noteq> ub_address bus b then False
      else case ub_ports bus a of
        None \<Rightarrow> False
      | Some pa \<Rightarrow> 0 < length pa \<and> ub_ports bus b = Some pa)"

definition loraham_ch341_mon_unbind :: "mon \<Rightarrow> mon" where
  "loraham_ch341_mon_unbind m =
     (case mn_bound m of
        None \<Rightarrow> m
      | Some d \<Rightarrow> (mon_unref d m)\<lparr>mn_bound := NULL\<rparr>)\<lparr>mn_left_bound := 0\<rparr>"

text \<open>\<open>dev\<close>: the device of the open handle in the other context, NULL without a handle.\<close>

definition loraham_ch341_mon_bind :: "usb_bus \<Rightarrow> usb_dev ptr \<Rightarrow> usb_dev list ptr \<Rightarrow> mon \<Rightarrow> int \<times> mon" where
  "loraham_ch341_mon_bind bus dev list m =
     (let m1 = loraham_ch341_mon_unbind m in
      case dev of
        None \<Rightarrow> (-1, m1)
      | Some o1 \<Rightarrow>
          (case list of
             None \<Rightarrow> (-1, m1)
           | Some l \<Rightarrow>
               (let hits = filter (\<lambda>d. same_location bus d o1) l;
                    m2 = (if length hits = 1 then (mon_ref (last hits) m1)\<lparr>mn_bound := Some (last hits)\<rparr> else m1)
                in (if length hits = 1 then 0 else -1, m2\<lparr>mn_left_bound := 0\<rparr>))))"

definition bound_in_list :: "usb_dev list ptr \<Rightarrow> mon \<Rightarrow> int" where
  "bound_in_list list m =
     (case list of None \<Rightarrow> -1 | Some l \<Rightarrow> if \<exists>d\<in>set l. mn_bound m = Some d then 1 else 0)"

text \<open>Two looks: a list, the events in between, and a second list.\<close>

definition loraham_ch341_mon_present_bound ::
  "usb_dev list ptr \<Rightarrow> mon_event list \<Rightarrow> usb_dev list ptr \<Rightarrow> mon \<Rightarrow> int \<times> mon" where
  "loraham_ch341_mon_present_bound list1 evs list2 m =
     (if mn_bound m = NULL then (0, m)
      else let r = bound_in_list list1 m in
        if r \<le> 0 then (r, m)
        else let m1 = loraham_ch341_mon_dispatch evs m in
          if mn_left_bound m1 = 1 then (0, m1) else (bound_in_list list2 m1, m1))"

section \<open>Serial and port path\<close>

fun port_loop :: "nat \<Rightarrow> string \<Rightarrow> nat \<Rightarrow> u8 list \<Rightarrow> string \<times> nat" where
  "port_loop cap out used [] = (out, used)"
| "port_loop cap out used (p # ps) =
     (if \<not> used < cap then (out, used)
      else let t = ''.'' @ nat_dec (unat p) in
        port_loop cap (out @ snprintf_text (cap - used) t) (used + length t) ps)"

text \<open>The text and whether it fits; None is a failure that leaves the buffer alone.\<close>

definition loraham_ch341_port_path :: "usb_bus \<Rightarrow> usb_dev \<Rightarrow> nat \<Rightarrow> (string \<times> bool) option" where
  "loraham_ch341_port_path bus d cap =
     (case ub_ports bus d of
        None \<Rightarrow> None
      | Some [] \<Rightarrow> None
      | Some (p # ps) \<Rightarrow>
          if cap < 4 then None
          else let t = nat_dec (unat (ub_bus bus d)) @ ''-'' @ nat_dec (unat p);
                   (out, used) = port_loop cap (snprintf_text cap t) (length t) ps
            in Some (out, used < cap))"

text \<open>The UTF-16 characters of the string descriptor \<open>buf\<close>, from byte \<open>i\<close> on, at most 8.\<close>

function serial_loop :: "bytes \<Rightarrow> nat \<Rightarrow> string \<Rightarrow> int \<times> string" where
  "serial_loop buf i out =
     (if i + 1 < unat (buf ! 0) \<and> length out < 8 then
        let c = unat (buf ! i) + 256 * unat (buf ! (i + 1)) in
        if c < 0x20 \<or> 0x7e < c then (-1, out)
        else serial_loop buf (i + 2) (out @ [char_of c])
      else (if 0 < length out then 1 else -1, out))"
  by auto
termination by (relation "measure (\<lambda>(buf, i, out). 8 - length out)") auto

declare serial_loop.simps [simp del]

definition LIBUSB_DT_STRING :: u8 where [c_consts]: "LIBUSB_DT_STRING = 3"

text \<open>
  \<open>r1\<close>, \<open>langs\<close> and \<open>r2\<close>, \<open>buf\<close> are the results of the two control transfers with the bytes they
  returned, \<open>now\<close> the clock at the start and between them.
\<close>

definition string_descriptor_bad :: "int \<Rightarrow> bytes \<Rightarrow> bool" where
  "string_descriptor_bad r b \<longleftrightarrow> r < 4 \<or> b ! 1 \<noteq> LIBUSB_DT_STRING \<or> b ! 0 < 4 \<or> odd (unat (b ! 0))"

definition loraham_ch341_read_serial ::
  "u8 \<Rightarrow> nat \<Rightarrow> nat \<Rightarrow> int \<times> bytes \<Rightarrow> nat \<Rightarrow> int \<times> bytes \<Rightarrow> int \<times> string" where
  "loraham_ch341_read_serial index budget_ms start xfer1 now xfer2 =
     (if index = 0 then (0, [])
      else if string_descriptor_bad (fst xfer1) (snd xfer1) then (-1, [])
      else if start + budget_ms \<le> now then (-1, [])
      else if string_descriptor_bad (fst xfer2) (snd xfer2) \<or> fst xfer2 < int (unat (snd xfer2 ! 0)) then (-1, [])
      else serial_loop (snd xfer2) 2 [])"

text \<open>What a device answers when its serial is read.\<close>

record usb_serial_answer =
  sa_start :: nat
  sa_langs :: "int \<times> bytes"
  sa_now :: nat
  sa_string :: "int \<times> bytes"

definition read_serial_of :: "u8 \<Rightarrow> usb_serial_answer \<Rightarrow> int \<times> string" where
  "read_serial_of index a =
     loraham_ch341_read_serial index SCAN_BUDGET_MS (sa_start a) (sa_langs a) (sa_now a) (sa_string a)"

text \<open>\<open>None\<close> is -1. The caller's item is zeroed first.\<close>

definition loraham_ch341_identity :: "usb_bus \<Rightarrow> usb_dev ptr \<Rightarrow> usb_serial_answer \<Rightarrow> scan_item option" where
  "loraham_ch341_identity bus dev a =
     (case dev of
        None \<Rightarrow> None
      | Some d \<Rightarrow>
          (case ub_desc bus d of
             None \<Rightarrow> None
           | Some desc \<Rightarrow>
               (case loraham_ch341_port_path bus d 32 of
                  Some (port, True) \<Rightarrow>
                    (let (st, serial) = read_serial_of (ds_serial_index desc) a
                     in Some \<lparr>it_openable = 1, it_serial_state = st, it_serial = serial, it_port = port,
                          it_connection = 0\<rparr>)
                | _ \<Rightarrow> None)))"

section \<open>The scan\<close>

definition loraham_ch341_mon_scan_end :: "mon \<Rightarrow> mon" where
  "loraham_ch341_mon_scan_end m =
     (case mn_scan_list m of
        None \<Rightarrow> m
      | Some l \<Rightarrow> m\<lparr>mn_refs := mn_refs m - mset l\<rparr>)\<lparr>mn_scan_list := NULL, mn_scan_devs := []\<rparr>"

definition mon_cookie :: "usb_dev \<Rightarrow> mon \<Rightarrow> u32 \<times> mon" where
  "mon_cookie d m =
     (case map_of (mn_known m) d of
        Some c \<Rightarrow> (c, m)
      | None \<Rightarrow>
          (let c = mn_next_cookie m + 1
           in (c, (mon_ref d m)\<lparr>mn_next_cookie := c, mn_known := mn_known m @ [(d, c)]\<rparr>)))"

definition mon_forget_unlisted :: "mon \<Rightarrow> mon" where
  "mon_forget_unlisted m =
     m\<lparr>mn_known := filter (\<lambda>(d, c). d \<in> set (mn_scan_devs m)) (mn_known m),
       mn_refs := mn_refs m - mset (map fst (filter (\<lambda>(d, c). d \<notin> set (mn_scan_devs m)) (mn_known m)))\<rparr>"

definition is_stick :: "usb_bus \<Rightarrow> mon \<Rightarrow> usb_dev \<Rightarrow> bool" where
  "is_stick bus m d =
     (case ub_desc bus d of None \<Rightarrow> False | Some s \<Rightarrow> ds_vendor s = mn_vid m \<and> ds_product s = mn_pid m)"

text \<open>\<open>list\<close> is None when libusb fails; \<open>allocated\<close> and \<open>grown\<close> are the results of \<open>calloc\<close> and \<open>realloc\<close>.\<close>

definition loraham_ch341_mon_scan_begin :: "usb_bus \<Rightarrow> usb_dev list ptr \<Rightarrow> bool \<Rightarrow> bool \<Rightarrow> mon \<Rightarrow> int \<times> mon" where
  "loraham_ch341_mon_scan_begin bus list allocated grown m =
     (let m1 = loraham_ch341_mon_scan_end m in
      case list of
        None \<Rightarrow> (-1, m1)
      | Some l \<Rightarrow>
          (let m2 = m1\<lparr>mn_scan_list := Some l, mn_refs := mn_refs m1 + mset l\<rparr> in
           if \<not> allocated then (-1, loraham_ch341_mon_scan_end m2)
           else let m3 = mon_forget_unlisted (m2\<lparr>mn_scan_devs := filter (is_stick bus m2) l\<rparr>);
                    room = length (mn_known m3) + length (mn_scan_devs m3)
             in if mn_cap_known m3 < room then
                  (if \<not> grown then (-1, loraham_ch341_mon_scan_end m3)
                   else (int (length (mn_scan_devs m3)), m3\<lparr>mn_cap_known := room\<rparr>))
                else (int (length (mn_scan_devs m3)), m3)))"

definition LIBUSB_ERROR_ACCESS :: int where [c_consts]: "LIBUSB_ERROR_ACCESS = -3"
definition LIBUSB_ERROR_NO_DEVICE :: int where [c_consts]: "LIBUSB_ERROR_NO_DEVICE = -4"

text \<open>\<open>r\<close> is what \<open>libusb_open\<close> answers.\<close>

definition loraham_ch341_mon_scan_step ::
  "usb_bus \<Rightarrow> int \<Rightarrow> int \<Rightarrow> usb_serial_answer \<Rightarrow> mon \<Rightarrow> scan_item \<times> mon" where
  "loraham_ch341_mon_scan_step bus i r a m =
     (let it = scan_item_zero\<lparr>it_serial_state := -1\<rparr> in
      if i < 0 \<or> int (length (mn_scan_devs m)) \<le> i then (it\<lparr>it_openable := -1\<rparr>, m)
      else
        (let d = mn_scan_devs m ! nat i;
             it1 = (case loraham_ch341_port_path bus d 32 of None \<Rightarrow> it | Some (t, ok) \<Rightarrow> it\<lparr>it_port := t\<rparr>);
             (cookie, m1) = mon_cookie d m;
             it2 = it1\<lparr>it_connection := unat cookie\<rparr>
         in if r = LIBUSB_ERROR_ACCESS then (it2\<lparr>it_openable := 0\<rparr>, m1)
            else if r = LIBUSB_ERROR_NO_DEVICE then (it2\<lparr>it_openable := -1\<rparr>, m1)
            else if r \<noteq> 0 then (it2\<lparr>it_openable := -2\<rparr>, m1)
            else (case ub_desc bus d of
                    None \<Rightarrow> (it2\<lparr>it_openable := 1\<rparr>, m1)
                  | Some desc \<Rightarrow>
                      (let (st, serial) = read_serial_of (ds_serial_index desc) a
                       in (it2\<lparr>it_openable := 1, it_serial_state := st, it_serial := serial\<rparr>, m1)))))"

text \<open>The references left when the monitor is freed.\<close>

definition loraham_ch341_mon_close :: "mon \<Rightarrow> mon" where
  "loraham_ch341_mon_close m =
     (let m1 = loraham_ch341_mon_scan_end m;
          m2 = m1\<lparr>mn_refs := mn_refs m1 - mset (map fst (mn_known m1)), mn_known := []\<rparr>
      in mon_drop_queue (loraham_ch341_mon_unbind m2))"

end
