(* ===== verification/Ch341_Monitor_Props.thy ===== *)
theory Ch341_Monitor_Props
  imports Ch341_Monitor
begin

text \<open>
  The monitor over any run of its operations: no departure of the bound stick is missed and none is
  invented; every reference it takes is given back; its arrays are large enough; a cookie stands for
  one connection; a serial that is reported was read completely.
\<close>

section \<open>References and arrays\<close>

definition bound_refs :: "mon \<Rightarrow> usb_dev multiset" where
  "bound_refs m = (case mn_bound m of None \<Rightarrow> {#} | Some d \<Rightarrow> {#d#})"

definition scan_refs :: "mon \<Rightarrow> usb_dev multiset" where
  "scan_refs m = (case mn_scan_list m of None \<Rightarrow> {#} | Some l \<Rightarrow> mset l)"

definition mon_owned :: "mon \<Rightarrow> usb_dev multiset" where
  "mon_owned m = mset (map ev_dev (mn_queue m)) + bound_refs m + mset (map fst (mn_known m)) + scan_refs m"

text \<open>The known devices that the scan in progress may still add.\<close>

definition unknown_devs :: "mon \<Rightarrow> usb_dev set" where
  "unknown_devs m = set (mn_scan_devs m) - fst ` set (mn_known m)"

definition mon_ok :: "mon \<Rightarrow> bool" where
  "mon_ok m \<longleftrightarrow> mn_refs m = mon_owned m \<and> length (mn_queue m) \<le> MON_QUEUE \<and>
     distinct (map fst (mn_known m)) \<and>
     length (mn_known m) + card (unknown_devs m) \<le> mn_cap_known m \<and>
     set (mn_scan_devs m) \<subseteq> set_mset (scan_refs m) \<and> mn_left_bound m \<in> {0, 1, 2} \<and>
     (mn_bound m = NULL \<longrightarrow> mn_left_bound m = 0) \<and> 0 \<le> mn_arrivals m \<and> 0 \<le> mn_lefts m"

lemma mon_ok_simps:
  "mon_owned (m\<lparr>mn_overflow := a\<rparr>) = mon_owned m" "mon_owned (m\<lparr>mn_arrivals := b\<rparr>) = mon_owned m"
  "mon_owned (m\<lparr>mn_lefts := b\<rparr>) = mon_owned m" "mon_owned (m\<lparr>mn_left_bound := b\<rparr>) = mon_owned m"
  "mon_owned (m\<lparr>mn_refs := r\<rparr>) = mon_owned m" "mon_owned (m\<lparr>mn_cap_known := k\<rparr>) = mon_owned m"
  "mon_owned (m\<lparr>mn_next_cookie := c\<rparr>) = mon_owned m" "mon_owned (m\<lparr>mn_fd_generation := c\<rparr>) = mon_owned m"
  "mon_owned (m\<lparr>mn_scan_devs := l\<rparr>) = mon_owned m"
  by (simp_all add: mon_owned_def bound_refs_def scan_refs_def)

text \<open>Everything but events, references and the two event flags.\<close>

definition mon_same :: "mon \<Rightarrow> mon \<Rightarrow> bool" where
  "mon_same m n \<longleftrightarrow> mn_bound n = mn_bound m \<and> mn_scan_list n = mn_scan_list m \<and> mn_scan_devs n = mn_scan_devs m \<and>
     mn_known n = mn_known m \<and> mn_cap_known n = mn_cap_known m \<and> mn_next_cookie n = mn_next_cookie m"

lemma mon_same_trans: "mon_same m n \<Longrightarrow> mon_same n p \<Longrightarrow> mon_same m p"
  by (simp add: mon_same_def)

lemma mon_hotplug_same:
  "mon_same m (mon_hotplug_cb e m)" "mn_left_bound (mon_hotplug_cb e m) = mn_left_bound m"
  "mn_arrivals (mon_hotplug_cb e m) = mn_arrivals m" "mn_lefts (mon_hotplug_cb e m) = mn_lefts m"
  by (simp_all add: mon_hotplug_cb_def mon_ref_def mon_same_def)

text \<open>The events of one dispatch that fit the queue.\<close>

lemma hotplug_all:
  "foldl (\<lambda>m e. mon_hotplug_cb e m) m evs =
     m\<lparr>mn_queue := mn_queue m @ take (MON_QUEUE - length (mn_queue m)) evs,
       mn_refs := mn_refs m + mset (map ev_dev (take (MON_QUEUE - length (mn_queue m)) evs)),
       mn_overflow := (mn_overflow m \<or> evs \<noteq> [] \<and> MON_QUEUE < length (mn_queue m) + length evs)\<rparr>"
proof (induction evs arbitrary: m)
  case (Cons e evs)
  show ?case
  proof (cases "MON_QUEUE \<le> length (mn_queue m)")
    case True
    hence "mon_hotplug_cb e m = m\<lparr>mn_overflow := True\<rparr>" by (simp add: mon_hotplug_cb_def)
    thus ?thesis using True by (simp add: Cons.IH)
  next
    case False
    then obtain k where k: "MON_QUEUE - length (mn_queue m) = Suc k" "MON_QUEUE - Suc (length (mn_queue m)) = k"
      by (cases "MON_QUEUE - length (mn_queue m)") auto
    have "mon_hotplug_cb e m = m\<lparr>mn_queue := mn_queue m @ [e], mn_refs := add_mset (ev_dev e) (mn_refs m)\<rparr>"
      using False by (simp add: mon_hotplug_cb_def mon_ref_def)
    moreover have "(evs \<noteq> [] \<and> MON_QUEUE < Suc (length (mn_queue m) + length evs)) =
        (MON_QUEUE < Suc (length (mn_queue m) + length evs))"
      using False by (cases evs) auto
    ultimately show ?thesis using k by (simp add: Cons.IH)
  qed
qed simp

lemma dispatch_events_same:
  "mon_same m (foldl dispatch_event m q)" "mn_queue (foldl dispatch_event m q) = mn_queue m"
  "mn_refs (foldl dispatch_event m q) = mn_refs m" "mn_overflow (foldl dispatch_event m q) = mn_overflow m"
proof (induction q arbitrary: m)
  case (Cons e q)
  { case 1 show ?case using Cons(1) [of "dispatch_event m e"] by (auto simp: mon_same_def dispatch_event_def) }
  { case 2 show ?case using Cons(2) [of "dispatch_event m e"] by (simp add: dispatch_event_def) }
  { case 3 show ?case using Cons(3) [of "dispatch_event m e"] by (simp add: dispatch_event_def) }
  { case 4 show ?case using Cons(4) [of "dispatch_event m e"] by (simp add: dispatch_event_def) }
qed (simp_all add: mon_same_def)

definition is_departure :: "mon \<Rightarrow> mon_event \<Rightarrow> bool" where
  "is_departure m e \<longleftrightarrow> ev_left e \<and> mn_bound m = Some (ev_dev e)"

lemma dispatch_events_counts:
  "mn_left_bound (foldl dispatch_event m q) = (if \<exists>e\<in>set q. is_departure m e then 1 else mn_left_bound m)"
  "mn_arrivals (foldl dispatch_event m q) = mn_arrivals m + int (length (filter (\<lambda>e. \<not> ev_left e) q))"
  "mn_lefts (foldl dispatch_event m q) = mn_lefts m + int (length (filter (\<lambda>e. ev_left e \<and> \<not> is_departure m e) q))"
proof (induction q arbitrary: m)
  case (Cons e q)
  have d: "is_departure (dispatch_event m e) = is_departure m" by (auto simp: is_departure_def dispatch_event_def)
  { case 1 show ?case using Cons(1) [of "dispatch_event m e"] unfolding d by (auto simp: dispatch_event_def is_departure_def) }
  { case 2 show ?case using Cons(2) [of "dispatch_event m e"] by (simp add: dispatch_event_def) }
  { case 3 show ?case using Cons(3) [of "dispatch_event m e"] unfolding d by (auto simp: dispatch_event_def is_departure_def) }
qed simp_all

lemma foldl_unref:
  "foldl (\<lambda>m e. mon_unref (ev_dev e) m) m q = m\<lparr>mn_refs := mn_refs m - mset (map ev_dev q)\<rparr>"
  by (induction q arbitrary: m) (auto simp: mon_unref_def diff_diff_add_mset)

lemma mon_drop_queue_eq:
  "mon_drop_queue m = m\<lparr>mn_refs := mn_refs m - mset (map ev_dev (mn_queue m)), mn_queue := []\<rparr>"
  by (simp add: mon_drop_queue_def foldl_unref)

text \<open>A dispatch in one equation: \<open>q\<close> are the events that fit the queue.\<close>

lemma dispatch_facts:
  fixes m :: mon and evs :: "mon_event list"
  defines "q \<equiv> mn_queue m @ take (MON_QUEUE - length (mn_queue m)) evs"
    and "lost \<equiv> mn_overflow m \<or> evs \<noteq> [] \<and> MON_QUEUE < length (mn_queue m) + length evs"
    and "n \<equiv> loraham_ch341_mon_dispatch evs m"
  shows "mon_same m n" "mn_queue n = []" "\<not> mn_overflow n"
    "mn_refs n = mn_refs m - mset (map ev_dev (mn_queue m))"
    "mn_left_bound n = (if \<exists>e\<in>set q. is_departure m e then 1
       else if lost \<and> mn_bound m \<noteq> NULL \<and> mn_left_bound m = 0 then 2 else mn_left_bound m)"
    "mn_arrivals n = mn_arrivals m + int (length (filter (\<lambda>e. \<not> ev_left e) q)) + (if lost then 1 else 0)"
    "mn_lefts n = mn_lefts m + int (length (filter (\<lambda>e. ev_left e \<and> \<not> is_departure m e) q))"
proof -
  define h where "h = foldl (\<lambda>m e. mon_hotplug_cb e m) m evs"
  have h: "mn_queue h = q" "mn_overflow h = lost" "mon_same m h" "mn_left_bound h = mn_left_bound m"
    "mn_arrivals h = mn_arrivals m" "mn_lefts h = mn_lefts m"
    "mn_refs h = mn_refs m + mset (map ev_dev (take (MON_QUEUE - length (mn_queue m)) evs))"
    unfolding h_def hotplug_all q_def lost_def by (auto simp: mon_same_def)
  define f where "f = mon_drop_queue (foldl dispatch_event h q)"
  have dep: "is_departure h = is_departure m" using h(3) by (auto simp: is_departure_def mon_same_def)
  have n: "n = (if mn_overflow f then f\<lparr>mn_overflow := False, mn_arrivals := mn_arrivals f + 1,
      mn_left_bound := (if mn_bound f \<noteq> NULL \<and> mn_left_bound f = 0 then 2 else mn_left_bound f)\<rparr> else f)"
    unfolding n_def loraham_ch341_mon_dispatch_def Let_def h_def [symmetric] f_def h(1) ..
  have same: "mon_same m (foldl dispatch_event h q)"
    using mon_same_trans [OF h(3) dispatch_events_same(1)] .
  have f: "mon_same m f" "mn_queue f = []" "mn_overflow f = lost"
    "mn_refs f = mn_refs m - mset (map ev_dev (mn_queue m))"
    "mn_left_bound f = (if \<exists>e\<in>set q. is_departure m e then 1 else mn_left_bound m)"
    "mn_arrivals f = mn_arrivals m + int (length (filter (\<lambda>e. \<not> ev_left e) q))"
    "mn_lefts f = mn_lefts m + int (length (filter (\<lambda>e. ev_left e \<and> \<not> is_departure m e) q))"
    using same dispatch_events_same [of h q] dispatch_events_counts [of h q] h
    unfolding f_def mon_drop_queue_eq dep
    by (auto simp: mon_same_def q_def diff_diff_add_mset)
  have bound: "mn_bound f = mn_bound m" using f(1) by (simp add: mon_same_def)
  show "mon_same m n" "mn_queue n = []" "\<not> mn_overflow n"
    "mn_refs n = mn_refs m - mset (map ev_dev (mn_queue m))"
    "mn_left_bound n = (if \<exists>e\<in>set q. is_departure m e then 1
       else if lost \<and> mn_bound m \<noteq> NULL \<and> mn_left_bound m = 0 then 2 else mn_left_bound m)"
    "mn_arrivals n = mn_arrivals m + int (length (filter (\<lambda>e. \<not> ev_left e) q)) + (if lost then 1 else 0)"
    "mn_lefts n = mn_lefts m + int (length (filter (\<lambda>e. ev_left e \<and> \<not> is_departure m e) q))"
    using f bound unfolding n by (auto simp: mon_same_def)
qed

section \<open>Operations keep the monitor well-formed\<close>

lemma mon_same_facts:
  assumes "mon_same m n"
  shows "bound_refs n = bound_refs m" "scan_refs n = scan_refs m" "unknown_devs n = unknown_devs m"
    "mn_known n = mn_known m" "mn_cap_known n = mn_cap_known m" "mn_scan_devs n = mn_scan_devs m"
    "mn_bound n = mn_bound m"
  using assms by (simp_all add: mon_same_def bound_refs_def scan_refs_def unknown_devs_def)

lemma mon_ok_dispatch:
  assumes "mon_ok m" shows "mon_ok (loraham_ch341_mon_dispatch evs m)"
  using assms mon_same_facts [OF dispatch_facts(1) [of m evs]] dispatch_facts [where m = m and evs = evs]
  by (auto simp: mon_ok_def mon_owned_def is_departure_def split: if_splits)

lemma mon_ok_take:
  "mon_ok m \<Longrightarrow> mon_ok (snd (loraham_ch341_mon_take_arrival m))"
  "mon_ok m \<Longrightarrow> mon_ok (snd (loraham_ch341_mon_take_left m))"
  by (auto simp: loraham_ch341_mon_take_arrival_def loraham_ch341_mon_take_left_def mon_ok_def mon_owned_def
      bound_refs_def scan_refs_def unknown_devs_def)

lemma mon_ok_unbind:
  "mon_ok m \<Longrightarrow> mon_ok (loraham_ch341_mon_unbind m)"
  by (auto simp: loraham_ch341_mon_unbind_def mon_unref_def mon_ok_def mon_owned_def bound_refs_def scan_refs_def
      unknown_devs_def split: option.split)

lemma unbind_facts:
  "mn_bound (loraham_ch341_mon_unbind m) = NULL" "mn_queue (loraham_ch341_mon_unbind m) = mn_queue m"
  by (auto simp: loraham_ch341_mon_unbind_def mon_unref_def split: option.split)

lemma mon_ok_bind:
  assumes "mon_ok m" "loraham_ch341_mon_bind bus dev list m = (r, n)"
  shows "mon_ok n" "mn_left_bound n = 0" "mn_queue n = mn_queue m"
proof -
  define u where "u = loraham_ch341_mon_unbind m"
  have u: "mon_ok u" "mn_bound u = NULL" "mn_queue u = mn_queue m" "mn_left_bound u = 0"
    using mon_ok_unbind [OF assms(1)] unbind_facts [of m] by (auto simp: u_def mon_ok_def)
  have w: "mon_ok ((mon_ref d u)\<lparr>mn_bound := Some d, mn_left_bound := 0\<rparr>)" for d
    using u(1,2) by (auto simp: mon_ok_def mon_ref_def mon_owned_def bound_refs_def scan_refs_def unknown_devs_def)
  have z: "mon_ok (u\<lparr>mn_left_bound := 0\<rparr>)"
    using u(1) by (auto simp: mon_ok_def mon_owned_def bound_refs_def scan_refs_def unknown_devs_def)
  have "mon_ok n \<and> mn_left_bound n = 0 \<and> mn_queue n = mn_queue m"
    using assms(2) u w z unfolding loraham_ch341_mon_bind_def Let_def u_def [symmetric]
    by (auto simp: mon_ref_def split: option.splits if_splits)
  thus "mon_ok n" "mn_left_bound n = 0" "mn_queue n = mn_queue m" by auto
qed

lemma mon_ok_present:
  assumes "mon_ok m" "loraham_ch341_mon_present_bound l1 evs l2 m = (r, n)"
  shows "mon_ok n"
  using assms mon_ok_dispatch [OF assms(1), of evs]
  by (auto simp: loraham_ch341_mon_present_bound_def Let_def split: if_splits)

lemma mon_ok_scan_end:
  assumes "mon_ok m"
  shows "mon_ok (loraham_ch341_mon_scan_end m)" "mn_scan_devs (loraham_ch341_mon_scan_end m) = []"
    "mn_scan_list (loraham_ch341_mon_scan_end m) = NULL" "mn_known (loraham_ch341_mon_scan_end m) = mn_known m"
    "mn_queue (loraham_ch341_mon_scan_end m) = mn_queue m" "mn_bound (loraham_ch341_mon_scan_end m) = mn_bound m"
  using assms
  by (auto simp: loraham_ch341_mon_scan_end_def mon_ok_def mon_owned_def bound_refs_def scan_refs_def
      unknown_devs_def split: option.splits)

lemma mset_filter_split:
  "mset (map f xs) = mset (map f (filter P xs)) + mset (map f (filter (\<lambda>x. \<not> P x) xs))"
  by (induction xs) auto

lemma mon_forget_ok:
  assumes "mn_refs m = mon_owned m" "distinct (map fst (mn_known m))"
  shows "mn_refs (mon_forget_unlisted m) = mon_owned (mon_forget_unlisted m)"
    "distinct (map fst (mn_known (mon_forget_unlisted m)))"
    "length (mn_known (mon_forget_unlisted m)) \<le> length (mn_known m)"
proof -
  define k where "k = mn_known m"
  have "mset (map fst k) = mset (map fst (filter (\<lambda>(d, c). d \<in> set (mn_scan_devs m)) k)) +
      mset (map fst (filter (\<lambda>(d, c). d \<notin> set (mn_scan_devs m)) k))"
    using mset_filter_split [of fst k "\<lambda>(d, c). d \<in> set (mn_scan_devs m)"] by (simp add: case_prod_beta)
  thus "mn_refs (mon_forget_unlisted m) = mon_owned (mon_forget_unlisted m)"
    using assms(1) by (simp add: mon_forget_unlisted_def mon_owned_def bound_refs_def scan_refs_def k_def)
  show "distinct (map fst (mn_known (mon_forget_unlisted m)))"
    using assms(2) by (simp add: mon_forget_unlisted_def distinct_map_filter)
  show "length (mn_known (mon_forget_unlisted m)) \<le> length (mn_known m)"
    by (simp add: mon_forget_unlisted_def)
qed

lemma unknown_devs_card: "card (unknown_devs m) \<le> length (mn_scan_devs m)"
proof -
  have "card (unknown_devs m) \<le> card (set (mn_scan_devs m))"
    unfolding unknown_devs_def by (rule card_mono) auto
  thus ?thesis using card_length [of "mn_scan_devs m"] by linarith
qed

lemma mon_ok_scan_begin:
  assumes "mon_ok m" "loraham_ch341_mon_scan_begin bus list allocated grown m = (r, n)"
  shows "mon_ok n" "mn_queue n = mn_queue m" "mn_bound n = mn_bound m" "mn_left_bound n = mn_left_bound m"
proof -
  define m1 where "m1 = loraham_ch341_mon_scan_end m"
  have m1: "mon_ok m1" "mn_scan_devs m1 = []" "mn_scan_list m1 = NULL" "mn_queue m1 = mn_queue m"
    "mn_bound m1 = mn_bound m" "mn_left_bound m1 = mn_left_bound m"
    using mon_ok_scan_end [OF assms(1)]
    by (auto simp: m1_def loraham_ch341_mon_scan_end_def split: option.split)
  have "mon_ok n \<and> mn_queue n = mn_queue m \<and> mn_bound n = mn_bound m \<and> mn_left_bound n = mn_left_bound m"
  proof (cases list)
    case None
    thus ?thesis using assms(2) m1 by (simp add: loraham_ch341_mon_scan_begin_def m1_def [symmetric])
  next
    case (Some l)
    define m2 where "m2 = m1\<lparr>mn_scan_list := Some l, mn_refs := mn_refs m1 + mset l\<rparr>"
    define devs where "devs = filter (is_stick bus m2) l"
    define m3 where "m3 = mon_forget_unlisted (m2\<lparr>mn_scan_devs := devs\<rparr>)"
    define room where "room = length (mn_known m3) + length (mn_scan_devs m3)"
    have undo: "loraham_ch341_mon_scan_end m2 = m1"
      using m1 by (simp add: m2_def loraham_ch341_mon_scan_end_def)
    have o2: "mn_refs m2 = mon_owned m2"
      using m1 by (simp add: m2_def mon_ok_def mon_owned_def bound_refs_def scan_refs_def)
    have f: "mn_refs m3 = mon_owned m3" "distinct (map fst (mn_known m3))"
      "length (mn_known m3) \<le> length (mn_known m1)"
      using mon_forget_ok [of "m2\<lparr>mn_scan_devs := devs\<rparr>"] o2 m1(1)
      by (auto simp: m3_def m2_def mon_ok_def mon_owned_def bound_refs_def scan_refs_def)
    have m3: "mn_scan_devs m3 = devs" "mn_scan_list m3 = Some l" "mn_queue m3 = mn_queue m"
      "mn_bound m3 = mn_bound m" "mn_left_bound m3 = mn_left_bound m" "mn_arrivals m3 = mn_arrivals m1"
      "mn_lefts m3 = mn_lefts m1" "mn_cap_known m3 = mn_cap_known m1"
      using m1 by (simp_all add: m3_def m2_def mon_forget_unlisted_def)
    have sub: "set devs \<subseteq> set_mset (scan_refs m3)" by (auto simp: scan_refs_def m3 devs_def)
    have le: "length (mn_known m3) + card (unknown_devs m3) \<le> room"
      using unknown_devs_card [of m3] by (simp add: room_def)
    have ok_end: "mon_ok (loraham_ch341_mon_scan_end m3)"
      using f m3 m1 by (auto simp: loraham_ch341_mon_scan_end_def mon_ok_def mon_owned_def bound_refs_def
          scan_refs_def unknown_devs_def)
    have ok3: "mon_ok (m3\<lparr>mn_cap_known := room\<rparr>)"
      using f m3 m1 le sub by (auto simp: mon_ok_def mon_owned_def bound_refs_def scan_refs_def unknown_devs_def)
    have ok4: "mon_ok m3" if "\<not> mn_cap_known m3 < room"
      using f m3 m1 le sub that by (auto simp: mon_ok_def)
    have "(r, n) = (if \<not> allocated then (-1, m1)
       else if mn_cap_known m3 < room then
         (if \<not> grown then (-1, loraham_ch341_mon_scan_end m3) else (int (length (mn_scan_devs m3)), m3\<lparr>mn_cap_known := room\<rparr>))
       else (int (length (mn_scan_devs m3)), m3))"
      using assms(2) unfolding loraham_ch341_mon_scan_begin_def Let_def Some m1_def [symmetric] option.case
        m2_def [symmetric] undo devs_def [symmetric] m3_def [symmetric] room_def [symmetric] by simp
    thus ?thesis using ok_end ok3 ok4 m1 m3
      by (auto simp: loraham_ch341_mon_scan_end_def split: if_splits)
  qed
  thus "mon_ok n" "mn_queue n = mn_queue m" "mn_bound n = mn_bound m" "mn_left_bound n = mn_left_bound m" by auto
qed

lemma mon_ok_cookie:
  assumes "mon_ok m" "d \<in> set (mn_scan_devs m)" "mon_cookie d m = (c, n)"
  shows "mon_ok n" "mn_queue n = mn_queue m" "mn_bound n = mn_bound m" "mn_left_bound n = mn_left_bound m"
    "map_of (mn_known n) d = Some c" "map_of (mn_known m) d = None \<longrightarrow> length (mn_known m) < mn_cap_known m"
proof -
  have "mon_ok n \<and> mn_queue n = mn_queue m \<and> mn_bound n = mn_bound m \<and> mn_left_bound n = mn_left_bound m \<and>
    map_of (mn_known n) d = Some c \<and> (map_of (mn_known m) d = None \<longrightarrow> length (mn_known m) < mn_cap_known m)"
  proof (cases "map_of (mn_known m) d")
    case (Some c')
    thus ?thesis using assms by (simp add: mon_cookie_def)
  next
    case None
    define n' where "n' = (mon_ref d m)\<lparr>mn_next_cookie := mn_next_cookie m + 1,
      mn_known := mn_known m @ [(d, mn_next_cookie m + 1)]\<rparr>"
    have n: "n = n'" "c = mn_next_cookie m + 1" using assms(3) None by (auto simp: mon_cookie_def Let_def n'_def)
    have new: "d \<notin> fst ` set (mn_known m)" using None by (simp add: map_of_eq_None_iff)
    hence d: "d \<in> unknown_devs m" using assms(2) by (simp add: unknown_devs_def)
    have fin: "finite (unknown_devs m)" by (simp add: unknown_devs_def)
    have "unknown_devs n' = unknown_devs m - {d}" by (auto simp: n'_def mon_ref_def unknown_devs_def)
    hence card: "card (unknown_devs n') = card (unknown_devs m) - 1" "0 < card (unknown_devs m)"
      using d fin by (auto simp: card_gt_0_iff)
    have "mon_ok n'"
      using assms(1) new card unfolding mon_ok_def
      by (auto simp: n'_def mon_ref_def mon_owned_def bound_refs_def scan_refs_def)
    moreover have "length (mn_known m) < mn_cap_known m" using assms(1) card(2) by (simp add: mon_ok_def)
    ultimately show ?thesis using n None by (simp add: n'_def mon_ref_def map_add_def)
  qed
  thus "mon_ok n" "mn_queue n = mn_queue m" "mn_bound n = mn_bound m" "mn_left_bound n = mn_left_bound m"
    "map_of (mn_known n) d = Some c" "map_of (mn_known m) d = None \<longrightarrow> length (mn_known m) < mn_cap_known m" by auto
qed

text \<open>A scan step changes the monitor only by giving a cookie.\<close>

lemma scan_step_mon:
  assumes "loraham_ch341_mon_scan_step bus i r a m = (it, n)"
  shows "n = m \<or> (\<exists>d\<in>set (mn_scan_devs m). n = snd (mon_cookie d m))"
proof (cases "i < 0 \<or> int (length (mn_scan_devs m)) \<le> i")
  case True
  thus ?thesis using assms by (simp add: loraham_ch341_mon_scan_step_def)
next
  case False
  hence "mn_scan_devs m ! nat i \<in> set (mn_scan_devs m)" by (simp add: nat_less_iff)
  moreover have "n = snd (mon_cookie (mn_scan_devs m ! nat i) m)"
    using assms False
    by (auto simp: loraham_ch341_mon_scan_step_def Let_def split: prod.splits if_splits option.splits)
  ultimately show ?thesis by blast
qed

section \<open>Runs of the monitor\<close>

text \<open>The list collects the events since the monitor was last bound or unbound, one list for each dispatch.\<close>

inductive mon_run :: "usb_bus \<Rightarrow> mon \<Rightarrow> mon_event list list \<Rightarrow> bool" for bus where
  open_mon: "loraham_ch341_mon_open h al ir ht rr vid pid = Some m \<Longrightarrow> mon_run bus m []"
| dispatch: "mon_run bus m t \<Longrightarrow> mon_run bus (loraham_ch341_mon_dispatch evs m) (t @ [evs])"
| take_arrival: "mon_run bus m t \<Longrightarrow> loraham_ch341_mon_take_arrival m = (b, n) \<Longrightarrow> mon_run bus n t"
| take_left: "mon_run bus m t \<Longrightarrow> loraham_ch341_mon_take_left m = (b, n) \<Longrightarrow> mon_run bus n t"
| bind: "mon_run bus m t \<Longrightarrow> loraham_ch341_mon_bind bus dev l m = (r, n) \<Longrightarrow> mon_run bus n []"
| unbind: "mon_run bus m t \<Longrightarrow> mon_run bus (loraham_ch341_mon_unbind m) []"
| present: "mon_run bus m t \<Longrightarrow> loraham_ch341_mon_present_bound l1 evs l2 m = (r, n) \<Longrightarrow>
    mon_run bus n (t @ (if mn_bound m \<noteq> NULL \<and> 0 < bound_in_list l1 m then [evs] else []))"
| scan_begin: "mon_run bus m t \<Longrightarrow> loraham_ch341_mon_scan_begin bus l al gr m = (r, n) \<Longrightarrow> mon_run bus n t"
| scan_step: "mon_run bus m t \<Longrightarrow> loraham_ch341_mon_scan_step bus i r a m = (it, n) \<Longrightarrow> mon_run bus n t"
| scan_end: "mon_run bus m t \<Longrightarrow> mon_run bus (loraham_ch341_mon_scan_end m) t"
| fd_added: "mon_run bus m t \<Longrightarrow> mon_run bus (mon_fd_added m) t"
| fd_removed: "mon_run bus m t \<Longrightarrow> mon_run bus (mon_fd_removed m) t"

text \<open>
  The callback keeps the first \<open>MON_QUEUE\<close> events of a dispatch. The flag is 1 when one of these is a
  departure of the bound stick, else 2 when a dispatch had more events, else 0.
\<close>

definition departs :: "usb_dev \<Rightarrow> mon_event \<Rightarrow> bool" where
  "departs d e \<longleftrightarrow> ev_left e \<and> ev_dev e = d"

definition left_flag :: "usb_dev \<Rightarrow> mon_event list list \<Rightarrow> int" where
  "left_flag d t =
     (if \<exists>evs\<in>set t. \<exists>e\<in>set (take MON_QUEUE evs). departs d e then 1
      else if \<exists>evs\<in>set t. MON_QUEUE < length evs then 2 else 0)"

lemma left_flag_start [simp]: "left_flag d [] = 0"
  by (simp add: left_flag_def)

lemma left_flag_snoc:
  "left_flag d (t @ [evs]) = (if \<exists>e\<in>set (take MON_QUEUE evs). departs d e then 1
     else if MON_QUEUE < length evs \<and> left_flag d t = 0 then 2 else left_flag d t)"
  by (auto simp: left_flag_def)

lemma left_flag_0: "left_flag d t = 0 \<longleftrightarrow> (\<forall>evs\<in>set t. length evs \<le> MON_QUEUE \<and> (\<forall>e\<in>set evs. \<not> departs d e))"
proof
  assume z: "left_flag d t = 0"
  show "\<forall>evs\<in>set t. length evs \<le> MON_QUEUE \<and> (\<forall>e\<in>set evs. \<not> departs d e)"
  proof
    fix evs assume "evs \<in> set t"
    with z have "length evs \<le> MON_QUEUE" "\<forall>e\<in>set (take MON_QUEUE evs). \<not> departs d e"
      unfolding left_flag_def by (auto split: if_splits simp: not_less)
    then show "length evs \<le> MON_QUEUE \<and> (\<forall>e\<in>set evs. \<not> departs d e)" by simp
  qed
qed (auto simp: left_flag_def)

definition left_says :: "mon \<Rightarrow> mon_event list list \<Rightarrow> bool" where
  "left_says m t \<longleftrightarrow> (\<forall>d. mn_bound m = Some d \<longrightarrow> mn_left_bound m = left_flag d t)"

definition mon_inv :: "mon \<Rightarrow> mon_event list list \<Rightarrow> bool" where
  "mon_inv m t \<longleftrightarrow> mon_ok m \<and> mn_queue m = [] \<and> \<not> mn_overflow m \<and> left_says m t"

lemma mon_inv_dispatch:
  assumes "mon_inv m t" shows "mon_inv (loraham_ch341_mon_dispatch evs m) (t @ [evs])"
proof -
  have q: "mn_queue m = []" "\<not> mn_overflow m" "mon_ok m" "left_says m t" using assms by (auto simp: mon_inv_def)
  define n where "n = loraham_ch341_mon_dispatch evs m"
  have bound: "mn_bound n = mn_bound m"
    using dispatch_facts(1) [of m evs] by (simp add: n_def mon_same_def)
  have lb: "mn_left_bound n = (if \<exists>e\<in>set (take MON_QUEUE evs). is_departure m e then 1
       else if MON_QUEUE < length evs \<and> mn_bound m \<noteq> NULL \<and> mn_left_bound m = 0 then 2 else mn_left_bound m)"
    using dispatch_facts(5) [where m = m and evs = evs] q by (auto simp: n_def)
  have "left_says n (t @ [evs])"
  proof (unfold left_says_def, intro allI impI)
    fix d assume "mn_bound n = Some d"
    then have d: "mn_bound m = Some d" using bound by simp
    then have "is_departure m = departs d" by (auto simp: is_departure_def departs_def)
    moreover have "mn_left_bound m = left_flag d t" using q(4) d by (simp add: left_says_def)
    ultimately show "mn_left_bound n = left_flag d (t @ [evs])" using lb d by (simp add: left_flag_snoc)
  qed
  thus ?thesis using mon_ok_dispatch [OF q(3)] dispatch_facts(2,3) [where m = m and evs = evs]
    by (simp add: mon_inv_def n_def)
qed

lemma left_says_same: "mn_bound n = mn_bound m \<Longrightarrow> mn_left_bound n = mn_left_bound m \<Longrightarrow> left_says m t \<Longrightarrow> left_says n t"
  by (simp add: left_says_def)

lemma mon_run_inv: "mon_run bus m t \<Longrightarrow> mon_inv m t"
proof (induction rule: mon_run.induct)
  case (open_mon h al ir ht rr vid pid m)
  thus ?case by (auto simp: loraham_ch341_mon_open_def mon_inv_def mon_ok_def mon_owned_def bound_refs_def scan_refs_def
      unknown_devs_def left_says_def split: if_splits)
next
  case (dispatch m t evs)
  show ?case by (rule mon_inv_dispatch [OF dispatch.IH])
next
  case (take_arrival m t b n)
  thus ?case using mon_ok_take(1) [of m] left_says_same [of n m t]
    by (auto simp: mon_inv_def loraham_ch341_mon_take_arrival_def split: if_splits)
next
  case (take_left m t b n)
  thus ?case using mon_ok_take(2) [of m] left_says_same [of n m t]
    by (auto simp: mon_inv_def loraham_ch341_mon_take_left_def split: if_splits)
next
  case (bind m t dev l r n)
  have "\<not> mn_overflow n" using bind
    by (auto simp: loraham_ch341_mon_bind_def loraham_ch341_mon_unbind_def mon_unref_def mon_ref_def Let_def mon_inv_def
        split: option.splits if_splits)
  thus ?case using mon_ok_bind [OF _ bind.hyps(2)] bind.IH by (auto simp: mon_inv_def left_says_def)
next
  case (unbind m t)
  thus ?case using mon_ok_unbind [of m] unbind_facts [of m]
    by (auto simp: mon_inv_def left_says_def loraham_ch341_mon_unbind_def mon_unref_def split: option.split)
next
  case (present m t l1 evs l2 r n)
  thus ?case using mon_inv_dispatch [OF present.IH, of evs]
    by (auto simp: loraham_ch341_mon_present_bound_def Let_def split: if_splits)
next
  case (scan_begin m t l al gr r n)
  have "\<not> mn_overflow n" using scan_begin
    by (auto simp: loraham_ch341_mon_scan_begin_def loraham_ch341_mon_scan_end_def mon_forget_unlisted_def Let_def
        mon_inv_def split: option.splits if_splits)
  thus ?case using mon_ok_scan_begin [OF _ scan_begin.hyps(2)] scan_begin.IH left_says_same [of n m t]
    by (auto simp: mon_inv_def)
next
  case (scan_step m t i r a it n)
  from scan_step_mon [OF scan_step.hyps(2)] show ?case
  proof
    assume "\<exists>d\<in>set (mn_scan_devs m). n = snd (mon_cookie d m)"
    then obtain d c where d: "d \<in> set (mn_scan_devs m)" "mon_cookie d m = (c, n)" by (metis prod.collapse)
    have "mn_overflow n = mn_overflow m" using d(2) by (auto simp: mon_cookie_def Let_def mon_ref_def split: option.splits)
    thus ?thesis using mon_ok_cookie [OF _ d] scan_step.IH left_says_same [of n m t] by (auto simp: mon_inv_def)
  qed (use scan_step.IH in simp)
next
  case (scan_end m t)
  thus ?case using mon_ok_scan_end [of m] left_says_same [of "loraham_ch341_mon_scan_end m" m t]
    by (auto simp: mon_inv_def loraham_ch341_mon_scan_end_def split: option.split)
next
  case (fd_added m t)
  thus ?case by (auto simp: mon_fd_added_def mon_inv_def mon_ok_def mon_owned_def bound_refs_def scan_refs_def
      unknown_devs_def left_says_def)
next
  case (fd_removed m t)
  thus ?case by (auto simp: mon_fd_removed_def mon_inv_def mon_ok_def mon_owned_def bound_refs_def scan_refs_def
      unknown_devs_def left_says_def)
qed

text \<open>
  C38: The monitor never misses that its bound stick left, and never claims it. In any run, the flag is 1
  exactly when a departure of the bound stick is among the events that a dispatch since the bind could queue;
  otherwise it is 2 (uncertain) exactly when a dispatch since the bind had more than 32 events, so that events were lost;
  otherwise it is 0. While it is 0, no event since the bind, queued or not, is a departure of the bound stick.
\<close>

theorem departure_never_missed:
  assumes "mon_run bus m t" "mn_bound m = Some d"
  shows "(loraham_ch341_mon_left_bound m = 1 \<longleftrightarrow> (\<exists>evs\<in>set t. \<exists>e\<in>set (take MON_QUEUE evs). departs d e)) \<and>
    (loraham_ch341_mon_left_bound m = 2 \<longleftrightarrow> (\<exists>evs\<in>set t. MON_QUEUE < length evs) \<and>
       (\<forall>evs\<in>set t. \<forall>e\<in>set (take MON_QUEUE evs). \<not> departs d e)) \<and>
    (loraham_ch341_mon_left_bound m = 0 \<longleftrightarrow>
       (\<forall>evs\<in>set t. length evs \<le> MON_QUEUE \<and> (\<forall>e\<in>set evs. \<not> departs d e)))"
proof -
  have flag: "loraham_ch341_mon_left_bound m = left_flag d t"
    using mon_run_inv [OF assms(1)] assms(2) by (simp add: mon_inv_def left_says_def loraham_ch341_mon_left_bound_def)
  show ?thesis unfolding flag left_flag_0 by (auto simp: left_flag_def)
qed

text \<open>
  the monitor's references and arrays in any run. The references it holds are exactly those of its
  bound device, its known devices and the list of the scan in progress, and closing it gives all of
  them back. The array of known devices has room whenever a scan step adds one, and no device is in it
  twice.
\<close>

theorem monitor_references_balance:
  assumes "mon_run bus m t"
  shows "mn_refs m = bound_refs m + mset (map fst (mn_known m)) + scan_refs m \<and>
    mn_refs (loraham_ch341_mon_close m) = {#} \<and>
    length (mn_known m) \<le> mn_cap_known m \<and>
    (\<forall>d\<in>set (mn_scan_devs m). d \<notin> fst ` set (mn_known m) \<longrightarrow> length (mn_known m) < mn_cap_known m) \<and>
    distinct (map fst (mn_known m))"
proof -
  have ok: "mon_ok m" "mn_queue m = []" using mon_run_inv [OF assms] by (auto simp: mon_inv_def)
  have refs: "mn_refs m = bound_refs m + mset (map fst (mn_known m)) + scan_refs m"
    using ok by (simp add: mon_ok_def mon_owned_def)
  have "mn_refs (loraham_ch341_mon_close m) = {#}"
    using refs ok(2) by (auto simp: loraham_ch341_mon_close_def Let_def mon_drop_queue_eq loraham_ch341_mon_unbind_def
        loraham_ch341_mon_scan_end_def mon_unref_def bound_refs_def scan_refs_def split: option.splits)
  moreover have "length (mn_known m) < mn_cap_known m"
    if "d \<in> set (mn_scan_devs m)" "d \<notin> fst ` set (mn_known m)" for d
  proof -
    have "unknown_devs m \<noteq> {}" "finite (unknown_devs m)" using that by (auto simp: unknown_devs_def)
    hence "0 < card (unknown_devs m)" by (simp add: card_gt_0_iff)
    thus ?thesis using ok(1) by (simp add: mon_ok_def)
  qed
  ultimately show ?thesis using refs ok(1) by (auto simp: mon_ok_def)
qed

section \<open>Serials\<close>

definition serial_prefix :: "bytes \<Rightarrow> string \<Rightarrow> bool" where
  "serial_prefix buf out \<longleftrightarrow> (\<forall>j<length out. out ! j = char_of (unat (buf ! (2 + 2 * j))) \<and>
     buf ! (3 + 2 * j) = 0 \<and> 0x20 \<le> unat (buf ! (2 + 2 * j)) \<and> unat (buf ! (2 + 2 * j)) \<le> 0x7e)"

lemma serial_prefix_snoc:
  assumes "serial_prefix buf out" "i = 2 + 2 * length out"
    "\<not> (unat (buf ! i) + 256 * unat (buf ! (i + 1)) < 0x20 \<or> 0x7e < unat (buf ! i) + 256 * unat (buf ! (i + 1)))"
  shows "serial_prefix buf (out @ [char_of (unat (buf ! i) + 256 * unat (buf ! (i + 1)))])"
proof -
  have "unat (buf ! (i + 1)) = 0" using assms(3) by linarith
  hence z: "buf ! (i + 1) = 0" using unat_eq_zero by blast
  show ?thesis unfolding serial_prefix_def
  proof (intro allI impI)
    fix j assume j: "j < length (out @ [char_of (unat (buf ! i) + 256 * unat (buf ! (i + 1)))])"
    show "(out @ [char_of (unat (buf ! i) + 256 * unat (buf ! (i + 1)))]) ! j = char_of (unat (buf ! (2 + 2 * j))) \<and>
      buf ! (3 + 2 * j) = 0 \<and> 0x20 \<le> unat (buf ! (2 + 2 * j)) \<and> unat (buf ! (2 + 2 * j)) \<le> 0x7e"
    proof (cases "j < length out")
      case True
      thus ?thesis using assms(1) by (simp add: serial_prefix_def nth_append)
    next
      case False
      hence "j = length out" using j by simp
      hence i: "i = 2 + 2 * j" using assms(2) by simp
      hence i1: "i + 1 = 3 + 2 * j" by simp
      show ?thesis using z assms(3) \<open>j = length out\<close> unfolding i1 by (simp add: i nth_append)
    qed
  qed
qed

lemma serial_loop_result:
  assumes "serial_loop buf i out = (1, serial)" "serial_prefix buf out" "i = 2 + 2 * length out"
    "length out \<le> 8" "i \<le> unat (buf ! 0)"
  shows "serial_prefix buf serial \<and> 1 \<le> length serial \<and> length serial \<le> 8 \<and>
    2 + 2 * length serial \<le> unat (buf ! 0) \<and> (length serial = 8 \<or> unat (buf ! 0) \<le> 3 + 2 * length serial)"
  using assms
proof (induction buf i out rule: serial_loop.induct)
  case (1 buf i out)
  define c where "c = unat (buf ! i) + 256 * unat (buf ! (i + 1))"
  note eq = serial_loop.simps [of buf i out, folded c_def]
  show ?case
  proof (cases "i + 1 < unat (buf ! 0) \<and> length out < 8")
    case False
    thus ?thesis using 1(2-) unfolding eq by (auto simp: Suc_le_eq split: if_splits)
  next
    case True
    show ?thesis
    proof (cases "c < 0x20 \<or> 0x7e < c")
      case c: True
      thus ?thesis using True 1(2) unfolding eq by (auto split: if_splits)
    next
      case c: False
      have "serial_prefix buf (out @ [char_of c])"
        using serial_prefix_snoc [OF 1(3,4)] c unfolding c_def by blast
      moreover have "serial_loop buf (i + 2) (out @ [char_of c]) = (1, serial)"
        using 1(2) True c unfolding eq by (auto simp: Let_def)
      ultimately show ?thesis using 1(1) [OF True c_def] c True 1(4) by simp
    qed
  qed
qed

text \<open>
  a serial that is reported was read completely and from bytes the device sent. It has 1 to 8
  printable characters, the UTF-16 characters of the descriptor one by one, all inside the
  descriptor's own length and inside the bytes returned; it is cut short only after 8 characters.
\<close>

theorem reported_serial_is_complete:
  assumes "loraham_ch341_read_serial index budget_ms start xfer1 now (r2, buf) = (1, serial)"
  shows "1 \<le> length serial \<and> length serial \<le> 8 \<and> 2 + 2 * length serial \<le> unat (buf ! 0) \<and>
    int (unat (buf ! 0)) \<le> r2 \<and> (length serial = 8 \<or> unat (buf ! 0) = 2 + 2 * length serial) \<and>
    (\<forall>j<length serial. serial ! j = char_of (unat (buf ! (2 + 2 * j))) \<and> buf ! (3 + 2 * j) = 0 \<and>
       0x20 \<le> unat (buf ! (2 + 2 * j)) \<and> unat (buf ! (2 + 2 * j)) \<le> 0x7e)"
proof -
  have good: "\<not> string_descriptor_bad r2 buf" "int (unat (buf ! 0)) \<le> r2" "serial_loop buf 2 [] = (1, serial)"
    using assms by (auto simp: loraham_ch341_read_serial_def split: if_splits)
  have "4 \<le> unat (buf ! 0)" "even (unat (buf ! 0))"
    using good(1) by (auto simp: string_descriptor_bad_def word_less_nat_alt)
  hence "4 \<le> unat (buf ! 0)" "unat (buf ! 0) \<le> 3 + 2 * length serial \<Longrightarrow> 2 + 2 * length serial \<le> unat (buf ! 0) \<Longrightarrow>
      unat (buf ! 0) = 2 + 2 * length serial" by presburger+
  thus ?thesis using serial_loop_result [OF good(3)] good(2) by (auto simp: serial_prefix_def)
qed

section \<open>Concrete runs\<close>

definition one_bus :: usb_bus where
  "one_bus = \<lparr>ub_bus = \<lambda>_. 1, ub_address = \<lambda>d. of_nat d, ub_ports = \<lambda>d. Some [of_nat d],
     ub_desc = \<lambda>_. Some \<lparr>ds_vendor = 1, ds_product = 2, ds_serial_index = 0\<rparr>\<rparr>"

definition fresh_mon :: mon where
  "fresh_mon = the (loraham_ch341_mon_open True True 0 True 0 1 2)"

definition bound_mon :: mon where
  "bound_mon = snd (loraham_ch341_mon_bind one_bus (Some 3) (Some [3, 4]) fresh_mon)"

definition gone_mon :: mon where
  "gone_mon = loraham_ch341_mon_dispatch [\<lparr>ev_left = True, ev_dev = 3\<rparr>] bound_mon"

lemma bound_run: "mon_run one_bus bound_mon []"
proof -
  have "mon_run one_bus fresh_mon []"
    by (rule mon_run.open_mon [of True True 0 True 0 1 2]) (simp add: fresh_mon_def loraham_ch341_mon_open_def)
  from mon_run.bind [OF this] show ?thesis unfolding bound_mon_def by (metis prod.collapse)
qed

lemma bound_mon_dev: "mn_bound bound_mon = Some 3" "mn_bound gone_mon = Some 3" "mn_left_bound gone_mon = 1"
  by (simp_all add: gone_mon_def bound_mon_def fresh_mon_def loraham_ch341_mon_open_def loraham_ch341_mon_bind_def
      loraham_ch341_mon_unbind_def same_location_def one_bus_def Let_def mon_ref_def loraham_ch341_mon_dispatch_def
      mon_hotplug_cb_def dispatch_event_def mon_drop_queue_def mon_unref_def MON_QUEUE_def)

theorem departure_never_missed_witness:
  "loraham_ch341_mon_left_bound gone_mon = 1 \<and>
   (\<exists>evs\<in>set [[\<lparr>ev_left = True, ev_dev = 3\<rparr>]]. \<exists>e\<in>set (take MON_QUEUE evs). departs 3 e)"
  using departure_never_missed [OF mon_run.dispatch [OF bound_run, of "[\<lparr>ev_left = True, ev_dev = 3\<rparr>]"], of 3]
    bound_mon_dev by (simp add: gone_mon_def loraham_ch341_mon_left_bound_def)

theorem monitor_references_balance_witness:
  "mn_refs bound_mon = {#3#} \<and> mn_refs (loraham_ch341_mon_close bound_mon) = {#}"
  using monitor_references_balance [OF bound_run]
  by (simp add: bound_refs_def scan_refs_def bound_mon_dev)
    (simp add: bound_mon_def fresh_mon_def loraham_ch341_mon_open_def loraham_ch341_mon_bind_def
      loraham_ch341_mon_unbind_def same_location_def one_bus_def Let_def mon_ref_def)

theorem reported_serial_is_complete_witness:
  "\<forall>j<length ''AB''. ''AB'' ! j = char_of (unat ([6, 3, 65, 0, 66, 0 :: u8] ! (2 + 2 * j)))"
proof -
  have "loraham_ch341_read_serial 1 200 0 (4, [4, 3, 9, 4]) 10 (6, [6, 3, 65, 0, 66, 0]) = (1, ''AB'')"
    by (simp add: loraham_ch341_read_serial_def string_descriptor_bad_def LIBUSB_DT_STRING_def serial_loop.simps Let_def,
        code_simp)
  from reported_serial_is_complete [OF this] show ?thesis by blast
qed

end
