(* ===== verification/Ch341_Adapter.thy ===== *)
theory Ch341_Adapter
  imports Prelude
begin

text \<open>
  The adapter of the Meshstick, \<open>ch341_adapter.c\<close>, inside the USB library. The calls it makes of pine64's library, of libusb
  and of the allocator are recorded in the order they are made, with the answers that matter; the answers are
  arguments. A device is the address of its structure. \<open>pine_int_pins\<close> stands for \<open>PINEDIO_INT_PIN_MAX\<close> of the library's header.
\<close>

section \<open>The calls\<close>

datatype pine_option = PINEDIO_OPTION_AUTO_CS | PINEDIO_OPTION_SEARCH_SERIAL | PINEDIO_OPTION_VID | PINEDIO_OPTION_PID

text \<open>\<open>Pine_Init\<close>: the result, whether the handle and the OUT transfer are not NULL. \<open>Copy_Serial\<close>: the \<open>strncpy\<close>.\<close>

datatype lib_call =
  Calloc
| Free
| Copy_Serial string
| Pine_Option pine_option nat
| Pine_Init int bool bool
| Pine_Pin_Mode nat nat int
| Pine_Deinit
| Usb_Exit
| Pine_Transceive bytes nat
| Pine_Write nat bool
| Pine_Read nat
| Pine_Attach nat nat
| Pine_Deattach nat

type_synonym stick_addr = nat
type_synonym lib_log = "(stick_addr \<times> lib_call) list"

section \<open>Open and close\<close>

text \<open>\<open>oa_dev\<close>: what \<open>calloc\<close> returns; then the answers of \<open>pinedio_init\<close> and of the two pin settings.\<close>

record open_answers =
  oa_dev :: "stick_addr option"
  oa_init :: int
  oa_handle :: bool
  oa_transfer_out :: bool
  oa_d3 :: int
  oa_d5 :: int

definition stick_end :: "stick_addr \<Rightarrow> lib_log" where
  "stick_end d = [(d, Pine_Deinit), (d, Usb_Exit), (d, Free)]"

definition loraham_ch341_open :: "u16 \<Rightarrow> u16 \<Rightarrow> string ptr \<Rightarrow> open_answers \<Rightarrow> lib_log \<Rightarrow> stick_addr option \<times> lib_log" where
  "loraham_ch341_open vid pid serial a log =
     (case oa_dev a of
        None \<Rightarrow> (None, log)
      | Some d \<Rightarrow>
          (let log1 = log @ [(d, Calloc)];
               log2 = (case serial of
                   None \<Rightarrow> log1
                 | Some s \<Rightarrow>
                     if s \<noteq> [] then log1 @ [(d, Copy_Serial (take 8 s)), (d, Pine_Option PINEDIO_OPTION_SEARCH_SERIAL 1)]
                     else log1);
               log3 = log2 @ [(d, Pine_Option PINEDIO_OPTION_VID (unat vid)), (d, Pine_Option PINEDIO_OPTION_PID (unat pid))];
               log4 = log3 @ [(d, Pine_Init (oa_init a) (oa_handle a) (oa_transfer_out a))]
           in if oa_init a \<noteq> 0 \<or> \<not> oa_handle a \<or> \<not> oa_transfer_out a
              then (None, (if oa_init a \<noteq> -1 then log4 @ [(d, Usb_Exit)] else log4) @ [(d, Free)])
              else (let log5 = log4 @ [(d, Pine_Option PINEDIO_OPTION_AUTO_CS 0), (d, Pine_Pin_Mode 3 1 (oa_d3 a))]
                    in if oa_d3 a < 0 then (None, log5 @ stick_end d)
                       else (let log6 = log5 @ [(d, Pine_Pin_Mode 5 1 (oa_d5 a))]
                             in if oa_d5 a < 0 then (None, log6 @ stick_end d) else (Some d, log6)))))"

definition loraham_ch341_close :: "stick_addr ptr \<Rightarrow> lib_log \<Rightarrow> lib_log" where
  "loraham_ch341_close dev log = (case dev of None \<Rightarrow> log | Some d \<Rightarrow> log @ stick_end d)"

section \<open>Use of an open stick\<close>

text \<open>\<open>into\<close>: the caller gave a buffer; without one a scratch buffer is allocated (\<open>scratch\<close>) and dropped again.\<close>

definition loraham_ch341_transceive ::
  "stick_addr \<Rightarrow> bytes \<Rightarrow> bool \<Rightarrow> nat \<Rightarrow> bool \<Rightarrow> int \<Rightarrow> lib_log \<Rightarrow> int \<times> lib_log" where
  "loraham_ch341_transceive d out into len scratch r log =
     (if \<not> into \<and> \<not> scratch then (-1, log)
      else (if r < 0 then -1 else 0, log @ [(d, Pine_Transceive out len)]))"

definition loraham_ch341_pin_mode :: "stick_addr \<Rightarrow> nat \<Rightarrow> int \<Rightarrow> int \<Rightarrow> lib_log \<Rightarrow> int \<times> lib_log" where
  "loraham_ch341_pin_mode d pin output r log =
     (if r < 0 then -1 else 0, log @ [(d, Pine_Pin_Mode pin (if output \<noteq> 0 then 1 else 0) r)])"

definition loraham_ch341_digital_write :: "stick_addr \<Rightarrow> nat \<Rightarrow> int \<Rightarrow> int \<Rightarrow> lib_log \<Rightarrow> int \<times> lib_log" where
  "loraham_ch341_digital_write d pin level r log =
     (if r < 0 then -1 else 0, log @ [(d, Pine_Write pin (level \<noteq> 0))])"

definition loraham_ch341_digital_read :: "stick_addr \<Rightarrow> nat \<Rightarrow> int \<Rightarrow> lib_log \<Rightarrow> int \<times> lib_log" where
  "loraham_ch341_digital_read d pin r log =
     (if r < 0 then -1 else if r \<noteq> 0 then 1 else 0, log @ [(d, Pine_Read pin)])"

definition loraham_ch341_attach_interrupt ::
  "nat \<Rightarrow> stick_addr \<Rightarrow> nat \<Rightarrow> nat \<Rightarrow> int \<Rightarrow> lib_log \<Rightarrow> int \<times> lib_log" where
  "loraham_ch341_attach_interrupt pine_int_pins d pin mode r log =
     (if pine_int_pins \<le> pin then (-1, log)
      else (if r \<noteq> 0 then -1 else 0, log @ [(d, Pine_Attach pin mode)]))"

definition loraham_ch341_detach_interrupt :: "nat \<Rightarrow> stick_addr \<Rightarrow> nat \<Rightarrow> int \<Rightarrow> lib_log \<Rightarrow> int \<times> lib_log" where
  "loraham_ch341_detach_interrupt pine_int_pins d pin r log =
     (if pine_int_pins \<le> pin then (-1, log)
      else (if r \<noteq> 0 then -1 else 0, log @ [(d, Pine_Deattach pin)]))"

definition loraham_ch341_in_error :: "bool \<Rightarrow> int" where
  "loraham_ch341_in_error in_error = (if in_error then 1 else 0)"

text \<open>pine64's pin state, direction mask and levels, is one for the whole process.\<close>

definition loraham_ch341_seed_idle :: "u16 \<times> u16 \<Rightarrow> u16 \<times> u16" where
  "loraham_ch341_seed_idle = (\<lambda>(d_mode, d_state). (d_mode OR push_bit 2 1, d_state OR push_bit 2 1))"

lemma seed_idle_reset_high:
  assumes "loraham_ch341_seed_idle (d_mode, d_state) = (m, s)"
  shows "bit m 2 \<and> bit s 2 \<and> (\<forall>n. n \<noteq> 2 \<longrightarrow> bit m n = bit d_mode n \<and> bit s n = bit d_state n)"
proof -
  have bits: "bit (push_bit 2 1 :: u16) n \<longleftrightarrow> n = 2" for n
    unfolding bit_push_bit_iff by (auto simp: bit_1_iff)
  have "m = d_mode OR push_bit 2 1" and "s = d_state OR push_bit 2 1"
    using assms unfolding loraham_ch341_seed_idle_def prod.case prod.inject by blast+
  then show ?thesis
    by (simp only: bit_or_iff bits) blast
qed

section \<open>Sequences of operations\<close>

datatype adapter_op =
  Open_Stick u16 u16 "string ptr" open_answers
| Close_Stick "stick_addr ptr"
| Transceive stick_addr bytes bool nat bool int
| Pin_Mode stick_addr nat int int
| Digital_Write stick_addr nat int int
| Digital_Read stick_addr nat int
| Attach_Interrupt stick_addr nat nat int
| Detach_Interrupt stick_addr nat int

fun used_stick :: "adapter_op \<Rightarrow> stick_addr option" where
  "used_stick (Open_Stick _ _ _ _) = None"
| "used_stick (Close_Stick dev) = dev"
| "used_stick (Transceive d _ _ _ _ _) = Some d"
| "used_stick (Pin_Mode d _ _ _) = Some d"
| "used_stick (Digital_Write d _ _ _) = Some d"
| "used_stick (Digital_Read d _ _) = Some d"
| "used_stick (Attach_Interrupt d _ _ _) = Some d"
| "used_stick (Detach_Interrupt d _ _) = Some d"

fun use_log :: "nat \<Rightarrow> adapter_op \<Rightarrow> lib_log \<Rightarrow> lib_log" where
  "use_log n (Transceive d out into len scratch r) log = snd (loraham_ch341_transceive d out into len scratch r log)"
| "use_log n (Pin_Mode d pin output r) log = snd (loraham_ch341_pin_mode d pin output r log)"
| "use_log n (Digital_Write d pin level r) log = snd (loraham_ch341_digital_write d pin level r log)"
| "use_log n (Digital_Read d pin r) log = snd (loraham_ch341_digital_read d pin r log)"
| "use_log n (Attach_Interrupt d pin mode r) log = snd (loraham_ch341_attach_interrupt n d pin mode r log)"
| "use_log n (Detach_Interrupt d pin r) log = snd (loraham_ch341_detach_interrupt n d pin r log)"
| "use_log n _ log = log"

text \<open>
  The client uses and closes only sticks that are open; \<open>calloc\<close> returns no address in use. \<open>None\<close>: a sequence that
  breaks one of the two.
\<close>

fun adapter_step :: "nat \<Rightarrow> adapter_op \<Rightarrow> stick_addr list \<times> lib_log \<Rightarrow> (stick_addr list \<times> lib_log) option" where
  "adapter_step n (Open_Stick vid pid serial a) (live, log) =
     (if (case oa_dev a of None \<Rightarrow> False | Some d \<Rightarrow> d \<in> set live) then None
      else case loraham_ch341_open vid pid serial a log of
          (None, log1) \<Rightarrow> Some (live, log1)
        | (Some d, log1) \<Rightarrow> Some (d # live, log1))"
| "adapter_step n (Close_Stick dev) (live, log) =
     (case dev of
        None \<Rightarrow> Some (live, loraham_ch341_close None log)
      | Some d \<Rightarrow> if d \<in> set live then Some (remove1 d live, loraham_ch341_close (Some d) log) else None)"
| "adapter_step n oper (live, log) =
     (if \<exists>d \<in> set live. used_stick oper = Some d then Some (live, use_log n oper log) else None)"

fun adapter_run :: "nat \<Rightarrow> adapter_op list \<Rightarrow> stick_addr list \<times> lib_log \<Rightarrow> (stick_addr list \<times> lib_log) option" where
  "adapter_run n [] S = Some S"
| "adapter_run n (oper # ops) S = Option.bind (adapter_step n oper S) (adapter_run n ops)"

section \<open>The rules of the library\<close>

text \<open>
  The references to libusb's context: \<open>pinedio_init\<close> takes one unless it answers \<open>-1\<close>, \<open>libusb_exit\<close> releases
  one. \<open>None\<close>: a release without a reference.
\<close>

fun refs :: "lib_log \<Rightarrow> nat \<Rightarrow> nat option" where
  "refs [] k = Some k"
| "refs ((d, Pine_Init r h t) # log) k = refs log (if r = -1 then k else k + 1)"
| "refs ((d, Usb_Exit) # log) k = (if k = 0 then None else refs log (k - 1))"
| "refs (_ # log) k = refs log k"

text \<open>
  The life of one address. \<open>Claimed\<close> carries whether the chip select was left to the caller and D3 and D5 are outputs;
  only a stick with all three may be used. \<open>None\<close>: use before or after its life, a double free, a double
  \<open>deinit\<close> or a free of an open device.
\<close>

datatype life = Absent | Fresh | Failed | Claimed bool bool bool

fun live_call :: "lib_call \<Rightarrow> life \<Rightarrow> life option" where
  "live_call Calloc Absent = Some Fresh"
| "live_call (Copy_Serial _) Fresh = Some Fresh"
| "live_call (Pine_Option _ _) Fresh = Some Fresh"
| "live_call (Pine_Init r h t) Fresh = Some (if r = 0 \<and> h \<and> t then Claimed False False False else Failed)"
| "live_call (Pine_Option oper v) (Claimed cs d3 d5) =
     (if oper = PINEDIO_OPTION_AUTO_CS then Some (Claimed (v = 0) d3 d5) else None)"
| "live_call (Pine_Pin_Mode pin mode r) (Claimed cs d3 d5) =
     Some (if cs \<and> d3 \<and> d5 then Claimed cs d3 d5
           else Claimed cs (d3 \<or> pin = 3 \<and> mode = 1 \<and> 0 \<le> r) (d5 \<or> pin = 5 \<and> mode = 1 \<and> 0 \<le> r))"
| "live_call Pine_Deinit (Claimed _ _ _) = Some Failed"
| "live_call Usb_Exit Failed = Some Failed"
| "live_call Free Failed = Some Absent"
| "live_call (Pine_Transceive _ _) (Claimed True True True) = Some (Claimed True True True)"
| "live_call (Pine_Write _ _) (Claimed True True True) = Some (Claimed True True True)"
| "live_call (Pine_Read _) (Claimed True True True) = Some (Claimed True True True)"
| "live_call (Pine_Attach _ _) (Claimed True True True) = Some (Claimed True True True)"
| "live_call (Pine_Deattach _) (Claimed True True True) = Some (Claimed True True True)"
| "live_call _ _ = None"

fun stick_life :: "stick_addr \<Rightarrow> lib_log \<Rightarrow> life \<Rightarrow> life option" where
  "stick_life d [] p = Some p"
| "stick_life d ((d1, c) # log) p =
     (if d1 = d then Option.bind (live_call c p) (stick_life d log) else stick_life d log p)"

lemma refs_append [simp]: "refs (xs @ ys) k = Option.bind (refs xs k) (refs ys)"
  by (induction xs k rule: refs.induct) simp_all

lemma stick_life_append [simp]: "stick_life d (xs @ ys) p = Option.bind (stick_life d xs p) (stick_life d ys)"
  by (induction d xs p rule: stick_life.induct) (auto split: bind_splits)

definition adapter_good :: "stick_addr list \<Rightarrow> lib_log \<Rightarrow> bool" where
  "adapter_good live log =
     (distinct live \<and> refs log 0 = Some (length live) \<and>
      (\<forall>d. stick_life d log Absent = Some (if d \<in> set live then Claimed True True True else Absent)))"

lemma adapter_good_use:
  assumes "adapter_good live log" and "d \<in> set live" and "live_call c (Claimed True True True) = Some (Claimed True True True)"
    and "\<And>r h t. c \<noteq> Pine_Init r h t" and "c \<noteq> Usb_Exit"
  shows "adapter_good live (log @ [(d, c)])"
  using assms by (cases c) (auto simp: adapter_good_def)

lemma adapter_good_end:
  assumes "adapter_good live log" and "d \<in> set live"
  shows "adapter_good (remove1 d live) (log @ stick_end d)"
  using assms length_pos_if_in_set [of d live]
  by (auto simp: adapter_good_def stick_end_def length_remove1)

lemma adapter_good_open:
  assumes good: "adapter_good live log" and free: "\<And>d. oa_dev a = Some d \<Longrightarrow> d \<notin> set live"
    and open': "loraham_ch341_open vid pid serial a log = (dev, log1)"
  shows "adapter_good (case dev of None \<Rightarrow> live | Some d \<Rightarrow> d # live) log1"
  using assms
  by (auto simp: loraham_ch341_open_def adapter_good_def stick_end_def Let_def split: option.splits if_splits)

lemma adapter_good_step:
  assumes "adapter_step n oper (live, log) = Some (live1, log1)" and good: "adapter_good live log"
  shows "adapter_good live1 log1"
proof (cases oper)
  case (Open_Stick vid pid serial a)
  then show ?thesis
    using assms adapter_good_open [OF good, of a vid pid serial]
    by (auto split: if_splits option.splits prod.splits)
next
  case (Close_Stick dev)
  then show ?thesis
    using assms adapter_good_end [OF good] by (auto simp: loraham_ch341_close_def split: option.splits if_splits)
qed (use assms adapter_good_use [OF good] in
    \<open>auto simp: loraham_ch341_transceive_def loraham_ch341_pin_mode_def loraham_ch341_digital_write_def
       loraham_ch341_digital_read_def loraham_ch341_attach_interrupt_def loraham_ch341_detach_interrupt_def split: if_splits\<close>)

lemma adapter_good_run:
  "adapter_run n ops (live, log) = Some (live1, log1) \<Longrightarrow> adapter_good live log \<Longrightarrow> adapter_good live1 log1"
  by (induction ops arbitrary: live log) (auto split: bind_splits dest: adapter_good_step)

text \<open>
  Over any sequence of adapter operations and for all answers of the library, the references to libusb's context
  are exactly one for every open stick and never released without having been taken; a structure is
  initialised, deinitialised and freed once, in this order; a stick is used only while it is open with its chip select left
  to the caller and its SPI lines set to outputs, and what is not open leaves nothing behind.
\<close>

lemma adapter_references_balance:
  assumes "adapter_run n ops ([], []) = Some (live, log)"
  shows "distinct live \<and> refs log 0 = Some (length live) \<and>
    (\<forall>d. stick_life d log Absent = Some (if d \<in> set live then Claimed True True True else Absent))"
proof -
  have "adapter_good [] []"
    by (simp add: adapter_good_def)
  then show ?thesis
    using adapter_good_run [OF assms] by (simp add: adapter_good_def)
qed

definition sample_answers :: "stick_addr \<Rightarrow> int \<Rightarrow> int \<Rightarrow> open_answers" where
  "sample_answers d init d5 =
     \<lparr>oa_dev = Some d, oa_init = init, oa_handle = True, oa_transfer_out = True, oa_d3 = 0, oa_d5 = d5\<rparr>"

definition adapter_sample :: "adapter_op list" where
  "adapter_sample =
     [Open_Stick 0x1A86 0x5512 (Some ''12345678'') (sample_answers 7 0 0), Open_Stick 0x1A86 0x5512 None (sample_answers 8 (-1) 0),
      Open_Stick 0x1A86 0x5512 None (sample_answers 8 (-2) 0), Transceive 7 [1, 2] False 2 True 0, Close_Stick (Some 7),
      Open_Stick 0x1A86 0x5512 None (sample_answers 7 0 (-1)), Open_Stick 0x1A86 0x5512 None (sample_answers 7 0 0)]"

lemma adapter_sample_balances:
  "\<exists>log. adapter_run 4 adapter_sample ([], []) = Some ([7], log) \<and> refs log 0 = Some 1"
proof -
  obtain log where run: "adapter_run 4 adapter_sample ([], []) = Some ([7], log)"
    by (simp add: adapter_sample_def sample_answers_def loraham_ch341_open_def loraham_ch341_close_def Let_def)
  then show ?thesis
    using adapter_references_balance [OF run] by auto
qed

end
