(* ===== verification/Ch341_Loader.thy ===== *)
theory Ch341_Loader
  imports C_Text
begin

text \<open>
  The loader of the Meshstick's library, \<open>ch341_loader.cpp\<close>. The file system and the dynamic linker are arguments: whether
  the file exists, what \<open>dlopen\<close> and \<open>dlsym\<close> answer, what the library's \<open>loraham_ch341_pin\<close> returns. An address is a
  number; the table maps the names of its entries to addresses.
\<close>

section \<open>The table and its symbols\<close>

type_synonym api = "string \<rightharpoonup> nat"

text \<open>The entries in the order they are resolved; each symbol is the name with the prefix.\<close>

definition api_entries :: "string list" where
  "api_entries =
     [''pin'', ''open'', ''close'', ''transceive'', ''pin_mode'', ''digital_write'', ''digital_read'',
      ''attach_interrupt'', ''detach_interrupt'', ''in_error'', ''mon_open'', ''mon_close'', ''mon_fds'',
      ''mon_fd_generation'', ''mon_dispatch'', ''mon_left_bound'', ''mon_take_arrival'', ''mon_take_left'',
      ''mon_bind'', ''mon_unbind'', ''mon_present_bound'', ''mon_scan_begin'', ''mon_scan_step'', ''mon_scan_end'',
      ''identity'', ''seed_idle'']"

definition api_symbol :: "string \<Rightarrow> string" where
  "api_symbol entry = ''loraham_ch341_'' @ entry"

text \<open>
  \<open>lib_error\<close>: \<open>None\<close> when \<open>dlopen\<close> succeeds, else the text of \<open>dlerror\<close>. \<open>lib_sym\<close>: 0 is NULL.
  \<open>lib_pin\<close>: what the function at an address returns.
\<close>

record library =
  lib_exists :: bool
  lib_error :: "string ptr option"
  lib_sym :: "string \<Rightarrow> nat"
  lib_pin :: "nat \<Rightarrow> string ptr"

text \<open>The calls in the order they are made; \<open>Reason\<close> is the writing of the reason, which may read the library's text.\<close>

datatype link_call = Dlopen | Dlsym string | Call_Pin | Reason | Dlclose

definition resolve :: "library \<Rightarrow> string \<Rightarrow> nat \<Rightarrow> string \<Rightarrow> api \<Rightarrow> string + api" where
  "resolve l path why_size entry tmp =
     (if lib_sym l (api_symbol entry) = 0
      then Inl (snprintf_text why_size (''missing symbol '' @ api_symbol entry @ '' in '' @ path))
      else Inr (tmp(entry \<mapsto> lib_sym l (api_symbol entry))))"

fun resolve_all :: "library \<Rightarrow> string \<Rightarrow> nat \<Rightarrow> string list \<Rightarrow> api \<Rightarrow> (string + api) \<times> link_call list" where
  "resolve_all l path why_size [] tmp = (Inr tmp, [])"
| "resolve_all l path why_size (entry # entries) tmp =
     (case resolve l path why_size entry tmp of
        Inl why \<Rightarrow> (Inl why, [Dlsym (api_symbol entry), Reason])
      | Inr tmp1 \<Rightarrow>
          (let (r, calls) = resolve_all l path why_size entries tmp1 in (r, Dlsym (api_symbol entry) # calls)))"

section \<open>Loading\<close>

definition commit_reason :: "string \<Rightarrow> string ptr \<Rightarrow> string ptr \<Rightarrow> string" where
  "commit_reason path pin expected_pin =
     path @ '' was built from pine64 '' @ (case pin of None \<Rightarrow> ''(none)'' | Some p \<Rightarrow> p) @ '', this daemon expects '' @
     (case expected_pin of
        None \<Rightarrow> ''(no lock at build time)''
      | Some e \<Rightarrow> if e = [] then ''(no lock at build time)'' else e)"

text \<open>The result, the reason's buffer, the table and the calls made.\<close>

definition daemon_ch341_load_from ::
  "library \<Rightarrow> string \<Rightarrow> string ptr \<Rightarrow> nat \<Rightarrow> api \<Rightarrow> string \<Rightarrow> bool \<times> string \<times> api \<times> link_call list" where
  "daemon_ch341_load_from l path expected_pin why_size api why =
     (if \<not> lib_exists l then
        (False, snprintf_text why_size (''Meshstick library not found: '' @ path @
           '' (build the daemon with the pine64 source, see docs/hardware.md)''), api, [Reason])
      else case lib_error l of
          Some err \<Rightarrow>
            (False, snprintf_text why_size (''cannot load '' @ path @ '': '' @
               (case err of None \<Rightarrow> ''unknown error'' | Some e \<Rightarrow> e)), api, [Dlopen, Reason])
        | None \<Rightarrow>
            (case resolve_all l path why_size api_entries Map.empty of
               (Inl why1, calls) \<Rightarrow> (False, why1, api, [Dlopen] @ calls @ [Dlclose])
             | (Inr tmp, calls) \<Rightarrow>
                 (let pin = lib_pin l (the (tmp ''pin''))
                  in if expected_pin = NULL \<or> expected_pin = Some [] \<or> pin = NULL \<or> pin \<noteq> expected_pin then
                       (False, snprintf_text why_size (commit_reason path pin expected_pin), api,
                        [Dlopen] @ calls @ [Call_Pin, Reason, Dlclose])
                     else (True, why, tmp, [Dlopen] @ calls @ [Call_Pin]))))"

text \<open>
  \<open>exe\<close>: what \<open>readlink\<close> gives for the program, \<open>None\<close> when it fails or is empty. \<open>None\<close>: no slash in it. The
  result is whether the path fits, and what the buffer holds.
\<close>

definition upto_last_slash :: "string \<Rightarrow> string option" where
  "upto_last_slash exe = (if CHR 0x2F \<in> set exe then Some (rev (tl (dropWhile (\<lambda>c. c \<noteq> CHR 0x2F) (rev exe)))) else None)"

definition daemon_ch341_library_path :: "string option \<Rightarrow> nat \<Rightarrow> string option" where
  "daemon_ch341_library_path exe buf_size =
     (case Option.bind exe upto_last_slash of
        None \<Rightarrow> None
      | Some dir \<Rightarrow> (let path = dir @ ''/lib/libloraham-ch341.so'' in if length path < buf_size then Some path else None))"

definition PATH_MAX :: nat where [c_consts]: "PATH_MAX = 4096"

text \<open>The process's table and its flag: \<open>None\<close> until a load succeeds.\<close>

definition daemon_ch341_load ::
  "library \<Rightarrow> string option \<Rightarrow> string ptr \<Rightarrow> nat \<Rightarrow> api option \<Rightarrow> string \<Rightarrow> bool \<times> string \<times> api option" where
  "daemon_ch341_load l exe expected_pin why_size g_api why =
     (case daemon_ch341_library_path exe (PATH_MAX + 32) of
        None \<Rightarrow> (False, snprintf_text why_size ''cannot locate the daemon's own directory'', g_api)
      | Some path \<Rightarrow>
          (let (ok, why1, api, _) = daemon_ch341_load_from l path expected_pin why_size
                 (case g_api of None \<Rightarrow> Map.empty | Some a \<Rightarrow> a) why
           in if ok then (True, why1, Some api) else (False, why1, g_api)))"

definition daemon_ch341_api :: "api option \<Rightarrow> api ptr" where
  "daemon_ch341_api g_api = g_api"

section \<open>All or nothing\<close>

lemma length_snprintf_text_le [simp]: "length (snprintf_text n s) \<le> n - Suc 0"
  by (simp add: snprintf_text_def)

lemma snprintf_text_Nil [simp]: "snprintf_text n s = [] \<longleftrightarrow> n \<le> 1 \<or> s = []"
  by (auto simp: snprintf_text_def)

lemma resolve_all_calls:
  "resolve_all l path n entries tmp = (r, calls) \<Longrightarrow> Dlclose \<notin> set calls \<and> Dlopen \<notin> set calls"
  by (induction l path n entries tmp arbitrary: r calls rule: resolve_all.induct)
     (auto split: sum.splits prod.splits)

lemma resolve_all_missing:
  "resolve_all l path n entries tmp = (Inl why, calls) \<Longrightarrow>
     (\<exists>e \<in> set entries. lib_sym l (api_symbol e) = 0) \<and> length why \<le> n - 1 \<and> (1 < n \<longrightarrow> why \<noteq> [])"
proof (induction l path n entries tmp arbitrary: why calls rule: resolve_all.induct)
  case (2 l path n entry entries tmp)
  show ?case
  proof (cases "resolve l path n entry tmp")
    case (Inl w)
    then show ?thesis
      using "2.prems" by (auto simp: resolve_def split: if_splits)
  next
    case (Inr tmp1)
    then obtain calls1 where "resolve_all l path n entries tmp1 = (Inl why, calls1)"
      using "2.prems" by (auto split: prod.splits)
    from "2.IH" [OF Inr this] show ?thesis
      by auto
  qed
qed simp

lemma resolve_all_complete:
  "resolve_all l path n entries tmp = (Inr t, calls) \<Longrightarrow>
     (\<forall>e \<in> set entries. lib_sym l (api_symbol e) \<noteq> 0) \<and>
     t = (\<lambda>e. if e \<in> set entries then Some (lib_sym l (api_symbol e)) else tmp e)"
proof (induction l path n entries tmp arbitrary: t calls rule: resolve_all.induct)
  case (2 l path n entry entries tmp)
  then obtain tmp1 calls1 where r: "resolve l path n entry tmp = Inr tmp1"
    and all: "resolve_all l path n entries tmp1 = (Inr t, calls1)"
    by (auto split: sum.splits prod.splits)
  from "2.IH" [OF r all] show ?case
    using r by (auto simp: resolve_def fun_eq_iff split: if_splits)
qed simp

text \<open>
  The library is accepted exactly when its file exists, opens, has every symbol and reports the commit the daemon was
  built against; then the whole table is filled with its addresses. In every other case the table is untouched and
  a reason that fits its buffer is given. A library that was opened is closed exactly when it is refused, once, after the last
  use of anything in it.
\<close>

lemma library_complete_or_closed:
  assumes load: "daemon_ch341_load_from l path expected_pin why_size api why = (ok, why1, api1, calls)"
  shows "ok = (lib_exists l \<and> lib_error l = None \<and> (\<forall>e \<in> set api_entries. lib_sym l (api_symbol e) \<noteq> 0) \<and>
      (\<exists>e. e \<noteq> [] \<and> expected_pin = Some e \<and> lib_pin l (lib_sym l ''loraham_ch341_pin'') = Some e)) \<and>
    (if ok then why1 = why \<and> api1 = (\<lambda>e. if e \<in> set api_entries then Some (lib_sym l (api_symbol e)) else None)
     else api1 = api \<and> length why1 \<le> why_size - 1 \<and> (1 < why_size \<longrightarrow> why1 \<noteq> [])) \<and>
    Dlclose \<notin> set (butlast calls) \<and>
    (last calls = Dlclose) = (\<not> ok \<and> Dlopen \<in> set calls \<and> lib_error l = None)"
proof (cases "lib_exists l \<and> lib_error l = None")
  case True
  obtain r calls1 where all: "resolve_all l path why_size api_entries Map.empty = (r, calls1)" by force
  have pin: "''pin'' \<in> set api_entries" "api_symbol ''pin'' = ''loraham_ch341_pin''"
    by (simp_all add: api_entries_def api_symbol_def)
  show ?thesis
  proof (cases r)
    case (Inl w)
    then show ?thesis
      using load True all resolve_all_missing [OF all [unfolded Inl]] resolve_all_calls [OF all]
      by (auto simp: daemon_ch341_load_from_def butlast_append)
  next
    case (Inr t)
    have t: "t ''pin'' = Some (lib_sym l ''loraham_ch341_pin'')"
      using resolve_all_complete [OF all [unfolded Inr]] pin by simp
    let ?pin = "lib_pin l (lib_sym l ''loraham_ch341_pin'')"
    let ?refused = "expected_pin = NULL \<or> expected_pin = Some [] \<or> ?pin = NULL \<or> ?pin \<noteq> expected_pin"
    have "commit_reason path ?pin expected_pin \<noteq> []"
      by (simp add: commit_reason_def)
    moreover have "?refused = (\<nexists>e. e \<noteq> [] \<and> expected_pin = Some e \<and> ?pin = Some e)"
      by (cases expected_pin) auto
    ultimately show ?thesis
      using load True all Inr resolve_all_complete [OF all [unfolded Inr]] resolve_all_calls [OF all] t
      by (cases ?refused) (auto simp: daemon_ch341_load_from_def Let_def butlast_append)
  qed
qed (use load in \<open>auto simp: daemon_ch341_load_from_def split: if_splits option.splits\<close>)

definition sample_library :: library where
  "sample_library =
     \<lparr>lib_exists = True, lib_error = None, lib_sym = (\<lambda>s. if s = ''loraham_ch341_seed_idle'' then 0 else 4096),
      lib_pin = (\<lambda>_. Some ''abc'')\<rparr>"

lemma sample_library_closed:
  "(\<exists>calls. daemon_ch341_load_from sample_library ''lib'' (Some ''abc'') 16 Map.empty [] =
      (False, ''missing symbol '', Map.empty, calls) \<and> last calls = Dlclose) \<and>
   fst (daemon_ch341_load_from (sample_library\<lparr>lib_sym := \<lambda>_. 4096\<rparr>) ''lib'' (Some ''abc'') 16 Map.empty [])"
proof -
  obtain calls where "daemon_ch341_load_from sample_library ''lib'' (Some ''abc'') 16 Map.empty [] =
      (False, ''missing symbol '', Map.empty, calls)" and "Dlopen \<in> set calls"
    by (simp add: daemon_ch341_load_from_def sample_library_def api_entries_def resolve_def api_symbol_def snprintf_text_def)
  moreover obtain ok why1 api1 calls1 where run: "daemon_ch341_load_from (sample_library\<lparr>lib_sym := \<lambda>_. 4096\<rparr>) ''lib''
      (Some ''abc'') 16 Map.empty [] = (ok, why1, api1, calls1)"
    by (metis prod_cases4)
  ultimately show ?thesis
    using library_complete_or_closed [OF run]
      library_complete_or_closed [of sample_library "''lib''" "Some ''abc''" 16 Map.empty "[]" False "''missing symbol ''" Map.empty calls]
    by (simp add: sample_library_def)
qed

end
