(* ===== verification/Spec2Isabelle.thy ===== *)
theory Spec2Isabelle
  imports Tx_Queue Tx_Async Chip_Cad Process_Pool Spi_Bus Rf_Log Monitoring Radio_Rx Data_Tx_Runtime Config_Safety Event_Loop_Run Ch341_Select_Run Ch341_Runtime_Loss Ch341_Monitor_Props Ch341_Adapter Ch341_Loader
begin

text \<open>
  Verification development for LoRaHAM_Daemon, the daemon that shares one LoRa/FSK radio between
  local programs (\<open>src/loraham_daemon\<close>). All paths below are under \<open>loraham_daemon/\<close>.

  \<^bold>\<open>The program.\<close> One process drives one radio. Its main thread runs a tick loop over Unix
  sockets: a raw DATA socket (what a client writes is transmitted, what is received is broadcast),
  a framed DATA socket (length-prefixed packets with results), a CONFIG socket (text lines).
  A transmission becomes a job in a queue of eight; a worker thread takes it, waits for a free
  channel, sends it and posts a completion into a queue of sixteen, which the main thread delivers
  to the framed client that asked for it. A received packet raises a flag from the interrupt; the
  main thread reads the chip's FIFO and hands the packet to all clients. A monitoring tick reads
  the channel activity and the signal strength and prints status lines to CONFIG clients.

  \<^bold>\<open>Parts and theories,\<close> in the order of the imports.

  \<^item> \<open>Prelude\<close>: machine types, nullable pointers, buffer writes, little-endian pairs.
  \<^item> \<open>Framed_Data\<close> (\<open>framed_data.cpp\<close>): frame types, length rules, the encoders and decoders.
    Shown: the round trips of \<open>RX_PACKET\<close> and \<open>TX_RESULT\<close>.
  \<^item> \<open>Framed_Stream\<close> (\<open>framed_data_tx.cpp\<close>): the per-client parser with its fixed arrays. Shown: it
    implements the frame grammar for every split of the stream into reads, including the resync
    after a rejected frame, and never leaves its buffers.
  \<^item> \<open>Tx_Types\<close> (\<open>tx_result.cpp\<close>, \<open>daemon_tx_outcome.h\<close>, \<open>daemon_tx_job.h\<close>, \<open>daemon_tx_policy.h\<close>,
    \<open>rf_packet.cpp\<close>, \<open>radio_tx_limit.cpp\<close>, \<open>radio_health.cpp\<close>): the values of the transmit path.
  \<^item> \<open>Fifo\<close>: the interface of the two rings as locales, with the lemmas on schedules of operations.
  \<^item> \<open>Tx_Executor\<close> (\<open>daemon_tx_executor.cpp\<close>): the wait for a free channel. Shown: when it
    returns and with which outcome, for every sequence of probe answers, and that without a limit
    it may not return.
  \<^item> \<open>Tx_Queue\<close> (\<open>daemon_tx_queue.cpp\<close>, \<open>daemon_tx_worker.cpp\<close>, \<open>daemon_tx_completion.cpp\<close>): both
    rings, interpretations of the locales of \<open>Fifo\<close>. Shown: no job is lost or duplicated, the
    completion queue keeps the newest entries and counts the others.
  \<^item> \<open>C_Text\<close>, \<open>C_Float\<close>: what the sources use of \<open>snprintf\<close> and of \<open>float\<close>/\<open>double\<close>.
  \<^item> \<open>Stats\<close> (\<open>daemon_stats.cpp\<close>): counters and their text. Shown: the reply is never cut.
  \<^item> \<open>Tx_Async\<close> (\<open>daemon_tx_async_worker.cpp\<close>, \<open>daemon_tx_async_runtime.cpp\<close>): worker thread and main
    thread as a step relation, one step per critical section. Shown for every interleaving: the
    counters account for every job, jobs run in order exactly once, and the two-part idle test
    (\<open>pending\<close>, then \<open>job_active\<close>) cannot miss an accepted job.
  \<^item> \<open>Config_Stream\<close> (\<open>config_stream.cpp\<close>): lines of the CONFIG socket. Shown: it delivers
    the complete lines for every split into reads and fails only on a line that is too long.
  \<^item> \<open>Client_IO\<close> (\<open>client_output_queue.cpp\<close>, \<open>client_slot.cpp\<close>): output queues, slots with
    generations, flush and broadcast against a kernel that answers anything. Shown: a client's
    stream is never reordered, cut in the middle or mixed by flushing and broadcasting.
  \<^item> \<open>Framed_Runtime\<close> (\<open>daemon_framed_data_runtime.cpp\<close>, \<open>daemon_tx_completion.cpp\<close>): reading framed
    clients, immediate and deferred results, delivery of completions. Shown: a completion reaches
    only the connection that submitted the job; and a run where a reused slot mixes two clients.
  \<^item> \<open>Radio_Ctrl\<close> (\<open>radio_controller.h\<close>, \<open>radio_driver.h\<close>, \<open>daemon_rx_rearm.cpp\<close>): the controller, the
    driver interface as an oracle over its call history, the supervision of the re-arm.
  \<^item> \<open>Radio_Cad\<close> (\<open>radio_cad.cpp\<close>, \<open>daemon_monitoring.h\<close>): all channel probes. Shown: no probe
    destroys a received packet (what is harmless depends on the mode: in FSK not even \<open>getRSSI\<close> is), a FREE verdict is
    measured, the de-flicker meets its rule.
  \<^item> \<open>Radio_Tx\<close> (\<open>daemon_tx.cpp\<close>): the transmission. Shown: all or nothing, reception restored.
  \<^item> \<open>Channel\<close> (\<open>radio_channel.cpp\<close>): the client slots of the three sockets with their kernel.
  \<^item> \<open>Radio_Rx\<close> (\<open>daemon_rx.cpp\<close>): the receive path. Shown: a readable packet reaches every client
    once and completely, an unreadable one nobody, and the receiver is restarted.
  \<^item> \<open>Float_Error\<close>: the rounding error of \<open>float\<close> and \<open>double\<close> arithmetic.
  \<^item> \<open>Chip_Driver\<close> (\<open>sx127x_driver.cpp\<close>, \<open>sx1262_driver.cpp\<close>): both chip drivers over an oracle that answers
    RadioLib's calls from their history. \<open>Chip_Props\<close>, \<open>Chip_Power\<close>, \<open>Chip_Cad\<close> show: an accepted value always reaches
    the chip, the amplifier's current limit stays the configured one over any sequence of operations, every power
    commanded on band defaults is one that was asked for and that the policy allows, and a channel
    scan decides within a deadline that follows the modem's settings as long as the initialisations succeed.
  \<^item> \<open>Monitoring\<close> (\<open>daemon_timing.cpp\<close>, \<open>daemon_monitoring.cpp\<close>): timers and the monitoring tick.
  \<^item> \<open>Data_Tx\<close> (\<open>data_tx.cpp\<close>) and \<open>Data_Tx_Runtime\<close> (\<open>daemon_data_tx_runtime.cpp\<close>): raw DATA
    input cut into chunks, read only as far as the queue has room; transmission on the main thread
    with its own wait, or as a job for the worker. Shown: a received packet
    that waits in the chip survives every send in LoRa and MANAGED mode, and what is read always fits the transmit queue.
  \<^item> \<open>C_Number\<close>: \<open>strtol\<close>, \<open>strtoul\<close>, \<open>strtof\<close> and \<open>strtod\<close> in the C locale.
  \<^item> \<open>Config_Command\<close> (\<open>config_parser.cpp\<close>, \<open>config_value.cpp\<close>, \<open>config_replay.cpp\<close>): tokens of a
    \<open>SET\<close> line, strict numbers, the record of applied keys and its round trip as a command.
  \<^item> \<open>Config_Policy\<close> (\<open>config_policy.cpp\<close>, \<open>config_validate.cpp\<close>): allowed values, airtime in
    \<open>double\<close> and \<open>float\<close> arithmetic with every rounding, validation of a whole command.
  \<^item> \<open>Band\<close> (\<open>daemon_band.cpp\<close>, \<open>daemon_protocol.h\<close>, \<open>radio_rf_defaults.h\<close>): bands, instance
    names and socket paths.
  \<^item> \<open>Config_Apply\<close>, \<open>Config_Calls\<close>, \<open>Config_Replay\<close> (\<open>config_apply.cpp\<close>): the shadow of the
    effective configuration, the apply pipeline and sessions of commands. Shown: the driver sees
    only values that passed the validation, the effective configuration never exceeds the airtime
    limit, and replaying the record rebuilds the configuration.
  \<^item> \<open>Config_Status\<close> (\<open>config_status.cpp\<close>): queries, runtime setters, reply texts. Shown: two
    out-of-range numbers that \<open>SET CADWAIT=\<close> accepts, one wrapped around and one cut off.
  \<^item> \<open>Config_Dispatch\<close>, \<open>Config_Safety\<close> (\<open>config_dispatch.cpp\<close>, \<open>daemon_config_runtime.cpp\<close>): what
    a line of the CONFIG socket does. Shown: only an accepted command, with no transmission queued
    or running, reconfigures the radio, and any other line is harmless to a received packet, a checked scan by
    \<open>GET CHANNEL\<close> apart; the CAD settings stay in their ranges; every line gets one
    answer; the STATUS text is never cut. The worker's counters, the lock attempts and the clock
    that a line meets are parameters, indexed by a running line number.
  \<^item> \<open>Event_Loop\<close>, \<open>Event_Loop_Sync\<close>, \<open>Event_Loop_Run\<close> (\<open>event_loop.cpp\<close>, \<open>event_loop_epoll.cpp\<close>,
    \<open>radio_channel.cpp\<close>, \<open>daemon_io_runtime.cpp\<close>): the registration table, its reconcile pass and the
    kernel's interest list. Shown: after every pass the kernel watches exactly the live descriptors, unless libusb reopened
    a number that its own registration still had; a run shows that such a descriptor can stay unwatched.
  \<^item> \<open>Ch341_Select\<close>, \<open>Ch341_Select_Props\<close>, \<open>Ch341_Select_Run\<close> (\<open>daemon_ch341_select.cpp\<close>): the choice
    of a Meshstick, step by step. Shown: it answers in time, leaks no open stick, hands out only a
    checked stick, and later only the same one.
  \<^item> \<open>Ch341_Monitor\<close>, \<open>Ch341_Monitor_Props\<close> (\<open>ch341_monitor.c\<close>): hotplug events, the bound stick, the
    scan and the serial. Shown: no departure is missed or invented and lost events are
    reported, the references balance, and a serial is complete.
  \<^item> \<open>Ch341_Hal\<close> (\<open>ch341_hal.h\<close>) and \<open>Radio_Init\<close> (\<open>daemon_radio_init.cpp\<close>): the HAL with its latches,
    the start of the radio. Shown: one report per loss and no access after it; READY means every step
    succeeded.
  \<^item> \<open>Usb_Wait\<close> (\<open>daemon_usb_wait.cpp\<close>): the wait for a lost stick, over its table of operations, with
    the interface \<open>usb_events\<close> of the loops that take waiting events.
  \<^item> \<open>Ch341_Runtime\<close> (\<open>daemon_ch341_runtime.cpp\<close>): the operations behind that wait, composed of the
    selection, the HAL, the start of the radio and the replay of the configuration; the theories
    \<open>Ch341_Runtime_Props\<close>, \<open>Ch341_Runtime_Run\<close> and \<open>Ch341_Runtime_Loss\<close> run it. Shown: every pass
    returns, every open stick has one owner and none stays open, and exit 5 has one of two causes.
  \<^item> \<open>Ch341_Adapter\<close> (\<open>ch341_adapter.c\<close>) and \<open>Ch341_Loader\<close> (\<open>ch341_loader.cpp\<close>): the use of the pine64 library and its
    loading. Shown: the references to libusb balance, a stick is used only between its open and its close, and a
    library is accepted whole or closed.

  \<^item> \<open>Boot_Options\<close> (\<open>daemon_*_boot.cpp\<close>, \<open>daemon_radio_selection.cpp\<close>, \<open>hardware_profile.cpp\<close>, \<open>loraham_daemon.cpp\<close>):
    the command line, the boot slots and the hardware profiles. \<open>Boot_Props\<close> shows what an accepted command line
    guarantees.
  \<^item> \<open>Process_Prog\<close> (\<open>loraham_daemon.cpp\<close>, \<open>daemon_io_runtime.cpp\<close>, \<open>daemon_instance_lock.cpp\<close>, \<open>daemon_gpio_lock.cpp\<close>,
    \<open>unix_socket.cpp\<close>): the process from its options to its exit as a program tree over the kernel's answers.
    \<open>Process_Safe\<close> checks the tree: sockets only under the instance lock, pins only under their locks, nothing held at
    the end. \<open>Process_Pool\<close> lets any number of such processes interleave, fail and crash. Shown: a live socket file is never
    stolen, a line of the board has one driver, and an ended process holds nothing.
  \<^item> \<open>Pi_Hal\<close>, \<open>Spi_Bus\<close> (\<open>locking_pihal.h\<close>, \<open>loraham_runtime.h\<close>): the HAL of the Pi's SPI and GPIO with the lock
    files, the bus lock and its deadline; then the HALs of any number of processes on one bus. Shown: no error of the
    hardware is swallowed (the closes of the devices apart, whose answers the code ignores), and the transactions on the bus never overlap.
  \<^item> \<open>Rf_Log\<close> (\<open>daemon_rflog.cpp\<close>): the text of a record and the log file with its previous segment. Shown: every
    record is written whole as one line, and the records of the live file survive a rollover; a failed rollover loses the previous segment.

  \<^bold>\<open>Conventions.\<close> An operation returns its new state; a C result \<open>-1\<close> is \<open>None\<close> where nothing else
  is returned with it. A loop that may not end is a \<open>partial_function (option)\<close> (\<open>None\<close>: it never
  returns) and its return is a theorem; all other loops are structurally recursive or have a
  termination proof, there is no fuel. The kernel's answers to \<open>send\<close> and \<open>read\<close>, the answers of
  the radio chip with RadioLib, and the handlers the code receives as function pointers are
  parameters; the theorems hold for all of them. Pointers to objects that exist for the whole run
  of the daemon are taken as non-NULL; the pointers a function tests and may receive as NULL are
  \<open>ptr\<close>. Logging, the LED, delays and \<open>errno\<close> after the operation that reads it are not state.

  \<^bold>\<open>Not modelled.\<close> RadioLib, libusb and the pine64 library (not part of the repository; they answer as
  parameters), the composition of the modelled handlers into one tick of
  the main loop (one answer of the kernel in \<open>Process_Prog\<close>), signals, and the console log with its stamps.
\<close>

end
